(* ===== verification/Prelude.thy ===== *)
theory Prelude
  imports Main "HOL-Library.Word" "HOL-Library.Monad_Syntax" "HOL-Library.Signed_Division"
begin

text \<open>
  Shared vocabulary of the development.

  \<^item> Machine integers: \<open>byte\<close>, \<open>u16\<close>, \<open>u32\<close> and \<open>u64\<close> are words of the C width;
    a \<open>size_t\<close> is a natural number below \<open>2 ^ 64\<close>, and every C addition, subtraction or
    multiplication of sizes that can wrap is written with \<open>add64\<close>, \<open>sub64\<close> or \<open>mul64\<close>.
  \<^item> C functions: a definition returns \<open>None\<close> exactly when the C code would access memory
    outside the object it points into (or dereference a null pointer, or fail an assertion);
    \<open>Some (r, s)\<close> is the returned value \<open>r\<close> with the mutated state \<open>s\<close>. A \<open>BOOL\<close> function
    with an out parameter returns \<open>None\<close> in \<open>r\<close> for \<open>FALSE\<close>.
    \<open>run_ok m Q\<close> says that \<open>m\<close> does not fault and ends in a result and state satisfying \<open>Q\<close>.
  \<^item> Memory blocks: \<open>mem_read\<close> and \<open>mem_write\<close> are \<^verbatim>\<open>memcpy\<close> out of and into a block.
  \<^item> Byte order: how 16, 32 and 64 bit values split into bytes and come back.
\<close>

unbundle bit_operations_syntax

named_theorems stream_simps
  \<open>facts about stream primitives that evaluate stream programs\<close>

named_theorems run_simps
  \<open>equations of the weakest-precondition style predicate run_ok\<close>

text \<open>Sums of offsets are read back as numerals.\<close>

lemma Suc_Suc_0 [stream_simps]: "Suc (Suc 0) = 2"
  by simp

section \<open>Machine integers\<close>

type_synonym byte = "8 word"
type_synonym u16 = "16 word"
type_synonym u32 = "32 word"
type_synonym u64 = "64 word"

definition add64 :: "nat \<Rightarrow> nat \<Rightarrow> nat" where
  "add64 a b = (a + b) mod 2 ^ 64"

definition sub64 :: "nat \<Rightarrow> nat \<Rightarrow> nat" where
  "sub64 a b = nat ((int a - int b) mod 2 ^ 64)"

definition mul64 :: "nat \<Rightarrow> nat \<Rightarrow> nat" where
  "mul64 a b = (a * b) mod 2 ^ 64"

lemma add64_exact [simp]: "a + b < 2 ^ 64 \<Longrightarrow> add64 a b = a + b"
  by (simp add: add64_def)

lemma mul64_exact [simp]: "a * b < 2 ^ 64 \<Longrightarrow> mul64 a b = a * b"
  by (simp add: mul64_def)

lemma sub64_exact [simp]: "b \<le> a \<Longrightarrow> a < 2 ^ 64 \<Longrightarrow> sub64 a b = a - b"
  by (simp add: sub64_def nat_diff_distrib)

lemma sub64_wraps: "a < b \<Longrightarrow> b < 2 ^ 64 \<Longrightarrow> sub64 a b = a + 2 ^ 64 - b"
proof -
  assume a: "a < b" and b: "b < 2 ^ 64"
  have "(int a - int b) mod 2 ^ 64 = (int a - int b + 2 ^ 64) mod 2 ^ 64"
    by simp
  also have "\<dots> = int a - int b + 2 ^ 64"
    using a b by (intro mod_pos_pos_trivial) auto
  finally show ?thesis
    using a b by (simp add: sub64_def)
qed

lemma sub64_less: "sub64 a b < 2 ^ 64"
  by (simp add: sub64_def nat_less_iff)

lemma unat_of_nat_eq: "n < 2 ^ LENGTH('a) \<Longrightarrow> unat (word_of_nat n :: 'a::len word) = n"
  by (simp add: unsigned_of_nat take_bit_nat_eq_self)

section \<open>Running C functions\<close>

definition run_ok :: "('a \<times> 's) option \<Rightarrow> ('a \<Rightarrow> 's \<Rightarrow> bool) \<Rightarrow> bool" where
  "run_ok m Q \<longleftrightarrow> (case m of None \<Rightarrow> False | Some (a, s) \<Rightarrow> Q a s)"

lemma run_ok_Some [simp, run_simps]: "run_ok (Some (a, s)) Q \<longleftrightarrow> Q a s"
  by (simp add: run_ok_def)

lemma run_ok_None [simp, run_simps]: "\<not> run_ok None Q"
  by (simp add: run_ok_def)

lemma run_ok_bind [run_simps]:
  "run_ok (m \<bind> (\<lambda>(a, s). f a s)) Q \<longleftrightarrow> run_ok m (\<lambda>a s. run_ok (f a s) Q)"
  by (cases m) (auto simp: run_ok_def)

lemma run_ok_if [run_simps]:
  "run_ok (if b then m else n) Q \<longleftrightarrow> (if b then run_ok m Q else run_ok n Q)"
  by simp

lemma run_ok_mono: "run_ok m P \<Longrightarrow> (\<And>a s. P a s \<Longrightarrow> Q a s) \<Longrightarrow> run_ok m Q"
  by (cases m) (auto simp: run_ok_def)

lemma run_ok_conjI: "run_ok m P \<Longrightarrow> run_ok m Q \<Longrightarrow> run_ok m (\<lambda>a s. P a s \<and> Q a s)"
  by (cases m) (auto simp: run_ok_def)

lemma run_okE:
  assumes "run_ok m Q"
  obtains a s where "m = Some (a, s)" and "Q a s"
  using assms by (cases m) (auto simp: run_ok_def)

lemma run_okI: "m = Some (a, s) \<Longrightarrow> Q a s \<Longrightarrow> run_ok m Q"
  by simp

lemma run_ok_iff: "run_ok m Q \<longleftrightarrow> (\<exists>a s. m = Some (a, s) \<and> Q a s)"
  by (cases m) (auto simp: run_ok_def)

section \<open>Memory blocks\<close>

definition mem_read :: "'a list \<Rightarrow> nat \<Rightarrow> nat \<Rightarrow> 'a list option" where
  "mem_read blk off n = (if off + n \<le> length blk then Some (take n (drop off blk)) else None)"

definition mem_write :: "'a list \<Rightarrow> nat \<Rightarrow> 'a list \<Rightarrow> 'a list option" where
  "mem_write blk off bs =
     (if off + length bs \<le> length blk
      then Some (take off blk @ bs @ drop (off + length bs) blk) else None)"

lemma mem_read_ok [simp]:
  "off + n \<le> length blk \<Longrightarrow> mem_read blk off n = Some (take n (drop off blk))"
  by (simp add: mem_read_def)

lemma mem_write_ok [simp]:
  "off + length bs \<le> length blk \<Longrightarrow>
   mem_write blk off bs = Some (take off blk @ bs @ drop (off + length bs) blk)"
  by (simp add: mem_write_def)

lemma length_mem_write: "mem_write blk off bs = Some blk' \<Longrightarrow> length blk' = length blk"
  by (auto simp: mem_write_def split: if_splits)

lemma mem_read_write:
  "mem_write blk off bs = Some blk' \<Longrightarrow> mem_read blk' off (length bs) = Some bs"
  by (auto simp: mem_write_def split: if_splits)

lemma nth_write_block:
  assumes "off + length bs \<le> length blk" "i < length blk"
  shows "(take off blk @ bs @ drop (off + length bs) blk) ! i =
    (if off \<le> i \<and> i < off + length bs then bs ! (i - off) else blk ! i)"
  using assms by (auto simp: nth_append min_def)

section \<open>Allocation\<close>

text \<open>
  \<^verbatim>\<open>malloc\<close> is an argument of the definitions that allocate: it returns \<open>None\<close> for a null
  pointer and otherwise a block of unspecified bytes, which \<open>malloc_ok\<close> requires to have the
  requested size. \<^verbatim>\<open>realloc\<close> keeps the common prefix of the old block.
\<close>

type_synonym allocator = "nat \<Rightarrow> byte list option"

definition malloc_ok :: "(nat \<Rightarrow> 'a list option) \<Rightarrow> bool" where
  "malloc_ok malloc \<longleftrightarrow> (\<forall>n blk. malloc n = Some blk \<longrightarrow> length blk = n)"

definition c_realloc :: "(nat \<Rightarrow> 'a list option) \<Rightarrow> 'a list \<Rightarrow> nat \<Rightarrow> 'a list option" where
  "c_realloc malloc old n =
     (case malloc n of None \<Rightarrow> None | Some junk \<Rightarrow> Some (take n old @ drop (length old) junk))"

definition zero_malloc :: "nat \<Rightarrow> 'a::zero list option" where
  "zero_malloc n = Some (replicate n 0)"

lemma malloc_okD: "malloc_ok malloc \<Longrightarrow> malloc n = Some blk \<Longrightarrow> length blk = n"
  by (simp add: malloc_ok_def)

lemma malloc_ok_zero [simp]: "malloc_ok zero_malloc"
  by (simp add: malloc_ok_def zero_malloc_def)

lemma c_realloc_length:
  "malloc_ok malloc \<Longrightarrow> c_realloc malloc old n = Some blk \<Longrightarrow> length blk = n"
  by (auto simp: c_realloc_def dest: malloc_okD split: option.splits)

lemma c_realloc_prefix:
  "c_realloc malloc old n = Some blk \<Longrightarrow> k \<le> n \<Longrightarrow> k \<le> length old \<Longrightarrow> take k blk = take k old"
  by (auto simp: c_realloc_def min_def split: option.splits)

text \<open>An allocator as the C library provides it: blocks have the requested size, below \<open>2 ^ 63\<close>.\<close>

definition malloc_bounded :: "(nat \<Rightarrow> 'a list option) \<Rightarrow> bool" where
  "malloc_bounded malloc \<longleftrightarrow> malloc_ok malloc \<and> (\<forall>n. 2 ^ 63 \<le> n \<longrightarrow> malloc n = None)"

lemma malloc_boundedD:
  assumes "malloc_bounded malloc" "malloc n = Some blk"
  shows "length blk = n" "n < 2 ^ 63"
proof -
  show "length blk = n" using assms by (simp add: malloc_bounded_def malloc_ok_def)
  show "n < 2 ^ 63"
  proof (rule ccontr)
    assume "\<not> n < 2 ^ 63"
    then have "malloc n = None" using assms(1) by (simp add: malloc_bounded_def)
    then show False using assms(2) by simp
  qed
qed

text \<open>An allocator with the limit of the C library, for interpreting the contract.\<close>

definition limit_malloc :: "nat \<Rightarrow> 'a::zero list option" where
  "limit_malloc n = (if n < 2 ^ 63 then Some (replicate n 0) else None)"

lemma limit_malloc_bounded [simp]: "malloc_bounded limit_malloc"
  unfolding malloc_bounded_def malloc_ok_def limit_malloc_def by (intro conjI allI impI) (auto split: if_splits)

text \<open>
  Arrays of pointers: a pointer is an address, zero the null pointer. The allocator counts slots of
  eight bytes; the byte count of a request is computed in 64 bits.
\<close>

type_synonym ptr = nat

definition ptr_realloc :: "(nat \<Rightarrow> ptr list option) \<Rightarrow> ptr list \<Rightarrow> nat \<Rightarrow> ptr list option" where
  "ptr_realloc alloc arr n = c_realloc alloc arr (mul64 8 n div 8)"

definition slots_bounded :: "(nat \<Rightarrow> ptr list option) \<Rightarrow> bool" where
  "slots_bounded alloc \<longleftrightarrow> malloc_ok alloc \<and> (\<forall>n. 2 ^ 60 \<le> n \<longrightarrow> alloc n = None)"

definition limit_slots :: "nat \<Rightarrow> ptr list option" where
  "limit_slots n = (if n < 2 ^ 60 then Some (replicate n 0) else None)"

lemma limit_slots_bounded [simp]: "slots_bounded limit_slots"
  unfolding slots_bounded_def malloc_ok_def limit_slots_def by (intro conjI allI impI) (auto split: if_splits)

lemma ptr_realloc_ok:
  assumes "slots_bounded alloc" "ptr_realloc alloc arr n = Some arr'" "n < 2 ^ 61" "length arr \<le> n"
  shows "length arr' = n" "n < 2 ^ 60" "take (length arr) arr' = arr"
proof -
  have m: "mul64 8 n div 8 = n" using assms(3) by simp
  have r: "c_realloc alloc arr n = Some arr'" using assms(2) by (simp add: ptr_realloc_def m)
  show "length arr' = n" using r assms(1) by (auto simp: slots_bounded_def intro: c_realloc_length)
  show "n < 2 ^ 60"
  proof (rule ccontr)
    assume "\<not> n < 2 ^ 60"
    then have "alloc n = None" using assms(1) by (simp add: slots_bounded_def)
    then show False using r by (simp add: c_realloc_def)
  qed
  show "take (length arr) arr' = arr" using c_realloc_prefix [OF r, of "length arr"] assms(4) by simp
qed

section \<open>Circular windows\<close>

text \<open>\<open>ring b r n\<close> is the \<open>n\<close> bytes from position \<open>r\<close> on, around the end of the block \<open>b\<close>.\<close>

definition ring :: "'a list \<Rightarrow> nat \<Rightarrow> nat \<Rightarrow> 'a list" where
  "ring b r n = map (\<lambda>i. b ! ((r + i) mod length b)) [0..<n]"

lemma length_ring [simp]: "length (ring b r n) = n"
  by (simp add: ring_def)

lemma nth_ring [simp]: "i < n \<Longrightarrow> ring b r n ! i = b ! ((r + i) mod length b)"
  by (simp add: ring_def)

lemma mod_wrap: "w < sz \<Longrightarrow> j \<le> sz \<Longrightarrow> (w + j) mod sz = (if w + j < sz then w + j else w + j - sz)" for w :: nat
  by (auto simp: le_mod_geq)

lemma ring_0 [simp]: "ring b r 0 = []"
  by (simp add: ring_def)

lemma ring_linear: "r + n \<le> length b \<Longrightarrow> ring b r n = take n (drop r b)"
  by (rule nth_equalityI) auto

lemma ring_wrapped:
  "r < length b \<Longrightarrow> n \<le> length b \<Longrightarrow> length b \<le> r + n \<Longrightarrow> ring b r n = drop r b @ take (r + n - length b) b"
  by (rule nth_equalityI) (auto simp: nth_append mod_wrap add.commute)

lemma ring_append: "ring b r (n + m) = ring b r n @ ring b ((r + n) mod length b) m"
proof (rule nth_equalityI)
  fix i assume "i < length (ring b r (n + m))"
  then show "ring b r (n + m) ! i = (ring b r n @ ring b ((r + n) mod length b) m) ! i"
  proof (cases "i < n")
    case False
    then obtain k where "i = n + k" by (metis le_Suc_ex not_less)
    with \<open>i < length _\<close> show ?thesis by (simp add: nth_append mod_add_left_eq add.assoc)
  qed (simp add: nth_append)
qed simp

lemma take_ring [simp]: "take k (ring b r n) = ring b r (min k n)"
  by (rule nth_equalityI) auto

lemma drop_ring: "k \<le> n \<Longrightarrow> drop k (ring b r n) = ring b ((r + k) mod length b) (n - k)"
  using ring_append [of b r k "n - k"] by simp

lemma ring_prefix:
  assumes "take k b' = take k b" "r + n \<le> k" "k \<le> length b" "k \<le> length b'"
  shows "ring b' r n = ring b r n"
proof -
  have "b' ! j = b ! j" if "j < k" for j using that assms(1) by (metis nth_take)
  then show ?thesis using assms(2-4) by (intro nth_equalityI) auto
qed

section \<open>Byte order\<close>

lemma mask8_numeral: "(255 :: 'a::len word) = mask 8"
  by (simp add: mask_eq_exp_minus_1)

lemma ucast_and_255 [simp]: "(ucast (v AND 255) :: byte) = ucast (v :: 'a::len word)"
  by (rule bit_word_eqI) (auto simp: mask8_numeral bit_simps dest: bit_imp_le_length)

text \<open>Sums of bytes at distinct positions are bitwise disjunctions, so they can be read bit by bit.\<close>

lemma byte_sum16: "push_bit 8 (ucast (a :: byte)) + ucast (b :: byte) = (push_bit 8 (ucast a) OR ucast b :: u16)"
  by (rule disjunctive_add_eq_or, rule bit_word_eqI) (auto simp: bit_simps dest: bit_imp_le_length)

lemma byte_sum32:
  "ucast (a :: byte) + push_bit 8 (ucast (b :: byte)) + push_bit 16 (ucast (c :: byte)) + push_bit 24 (ucast (d :: byte)) =
   (ucast a OR push_bit 8 (ucast b) OR push_bit 16 (ucast c) OR push_bit 24 (ucast d) :: u32)"
proof -
  have 1: "ucast a + push_bit 8 (ucast b) = (ucast a OR push_bit 8 (ucast b) :: u32)"
    by (rule disjunctive_add_eq_or, rule bit_word_eqI) (auto simp: bit_simps dest: bit_imp_le_length)
  have 2: "(ucast a OR push_bit 8 (ucast b)) + push_bit 16 (ucast c) =
      (ucast a OR push_bit 8 (ucast b) OR push_bit 16 (ucast c) :: u32)"
    unfolding or.assoc [symmetric]
    by (rule disjunctive_add_eq_or, rule bit_word_eqI) (auto simp: bit_simps dest: bit_imp_le_length)
  have 3: "(ucast a OR push_bit 8 (ucast b) OR push_bit 16 (ucast c)) + push_bit 24 (ucast d) =
      (ucast a OR push_bit 8 (ucast b) OR push_bit 16 (ucast c) OR push_bit 24 (ucast d) :: u32)"
    unfolding or.assoc [symmetric]
    by (rule disjunctive_add_eq_or, rule bit_word_eqI) (auto simp: bit_simps dest: bit_imp_le_length)
  show ?thesis by (simp only: 1 2 3)
qed

lemma bit_128 [simp]: "bit (128 :: 'a::len word) n \<longleftrightarrow> n = 7 \<and> 7 < LENGTH('a)"
proof -
  have "bit (2 ^ 7 :: 'a word) n \<longleftrightarrow> n = 7 \<and> 7 < LENGTH('a)"
    by (simp only: bit_exp_iff possible_bit_word) auto
  then show ?thesis by simp
qed

lemma bit_32768 [simp]: "bit (32768 :: 'a::len word) n \<longleftrightarrow> n = 15 \<and> 15 < LENGTH('a)"
proof -
  have "bit (2 ^ 15 :: 'a word) n \<longleftrightarrow> n = 15 \<and> 15 < LENGTH('a)"
    by (simp only: bit_exp_iff possible_bit_word) auto
  then show ?thesis by simp
qed

lemma bit_int_powers [simp]:
  "bit (128 :: int) n \<longleftrightarrow> n = 7" "bit (32768 :: int) n \<longleftrightarrow> n = 15"
proof -
  have "bit (2 ^ 7 :: int) n \<longleftrightarrow> n = 7" "bit (2 ^ 15 :: int) n \<longleftrightarrow> n = 15"
    by (simp_all only: bit_exp_iff) auto
  then show "bit (128 :: int) n \<longleftrightarrow> n = 7" "bit (32768 :: int) n \<longleftrightarrow> n = 15" by simp_all
qed

lemma not_bit_of_small: "unat w < 2 ^ k \<Longrightarrow> k \<le> i \<Longrightarrow> \<not> bit w i"
proof
  assume w: "unat w < 2 ^ k" and k: "k \<le> i" and b: "bit w i"
  from b have "bit (unat w) i" by (simp add: bit_unsigned_iff)
  then have "odd (unat w div 2 ^ i)" by (simp add: bit_iff_odd)
  moreover have "unat w < 2 ^ i"
    using w power_increasing [OF k, of "2 :: nat"] by linarith
  ultimately show False by simp
qed

lemma ucast_byte_small: "unat n < 256 \<Longrightarrow> (ucast (ucast n :: byte) :: 'a::len word) = n"
  by (rule word_unat_eq_iff [THEN iffD2])
     (simp add: unsigned_ucast_eq take_bit_nat_eq_self unsigned_take_bit_eq)

lemma ucast_u16_small: "unat n < 65536 \<Longrightarrow> (ucast (ucast n :: u16) :: 'a::len word) = n"
  by (rule word_unat_eq_iff [THEN iffD2])
     (simp add: unsigned_ucast_eq take_bit_nat_eq_self unsigned_take_bit_eq)

lemma ucast_via_u16:
  "(ucast (ucast n :: u16) :: byte) = ucast (n :: u32)"
  "(ucast (drop_bit 8 (ucast n :: u16)) :: byte) = ucast (drop_bit 8 (n :: u32))"
  by (rule bit_word_eqI, auto simp: bit_simps dest: bit_imp_le_length)+

lemma byte_join16 [simp]:
  "push_bit 8 (ucast (ucast (drop_bit 8 v) :: byte)) + ucast (ucast v :: byte) = (v :: u16)"
  unfolding byte_sum16 by (rule bit_word_eqI) (auto simp: bit_simps dest: bit_imp_le_length)

lemma byte_split16 [simp]:
  "(ucast (drop_bit 8 (push_bit 8 (ucast a) + ucast b :: u16)) :: byte) = a"
  "(ucast (push_bit 8 (ucast a) + ucast b :: u16) :: byte) = b"
  unfolding byte_sum16 by (rule bit_word_eqI, auto simp: bit_simps dest: bit_imp_le_length)+

lemma byte_join32 [simp]:
  "ucast (ucast v :: byte) + push_bit 8 (ucast (ucast (drop_bit 8 v) :: byte)) +
   push_bit 16 (ucast (ucast (drop_bit 16 v) :: byte)) +
   push_bit 24 (ucast (ucast (drop_bit 24 v) :: byte)) = (v :: u32)"
  unfolding byte_sum32
proof (rule bit_word_eqI)
  fix n assume n: "n < LENGTH(32)"
  then consider "n < 8" | "8 \<le> n" "n < 16" | "16 \<le> n" "n < 24" | "24 \<le> n" "n < 32"
    by fastforce
  then show "bit (ucast (ucast v :: byte) OR push_bit 8 (ucast (ucast (drop_bit 8 v) :: byte)) OR
     push_bit 16 (ucast (ucast (drop_bit 16 v) :: byte)) OR
     push_bit 24 (ucast (ucast (drop_bit 24 v) :: byte)) :: u32) n = bit v n"
    by cases (auto simp: bit_simps)
qed

lemma byte_join32_be [simp]:
  "push_bit 24 (ucast (ucast (drop_bit 24 v) :: byte)) + push_bit 16 (ucast (ucast (drop_bit 16 v) :: byte)) +
   push_bit 8 (ucast (ucast (drop_bit 8 v) :: byte)) + ucast (ucast v :: byte) = (v :: u32)"
  using byte_join32 [of v] by (simp only: ac_simps)

lemma byte_join16_of_u32:
  "push_bit 8 (ucast (ucast (drop_bit 8 n) :: byte)) + ucast (ucast n :: byte) = (ucast (n :: u32) :: u16)"
  using byte_join16 [of "ucast n"] by (simp only: ucast_via_u16)

lemma low_half_byte: "(ucast (v AND 0xFFFF :: u32) :: byte) = ucast v"
proof -
  have m: "(0xFFFF :: u32) = mask 16" by (simp add: mask_eq_exp_minus_1)
  show ?thesis unfolding m by (rule bit_word_eqI) (auto simp: bit_simps)
qed

lemma byte_join24:
  assumes "unat v < 2 ^ 24"
  shows "ucast (ucast v :: u16) + push_bit 16 (ucast (ucast (drop_bit 16 v) :: byte)) = (v :: u32)"
proof -
  have "ucast (ucast v :: u16) AND push_bit 16 (ucast (ucast (drop_bit 16 v) :: byte)) = (0 :: u32)"
    by (rule bit_word_eqI) (auto simp: bit_simps dest: bit_imp_le_length)
  then have "ucast (ucast v :: u16) + push_bit 16 (ucast (ucast (drop_bit 16 v) :: byte)) =
      (ucast (ucast v :: u16) OR push_bit 16 (ucast (ucast (drop_bit 16 v) :: byte)) :: u32)"
    by (rule disjunctive_add_eq_or)
  also have "\<dots> = v"
  proof (rule bit_word_eqI)
    fix n assume "n < LENGTH(32)"
    moreover have "24 \<le> n \<Longrightarrow> \<not> bit v n" using assms not_bit_of_small by blast
    ultimately show "bit (ucast (ucast v :: u16) OR push_bit 16 (ucast (ucast (drop_bit 16 v) :: byte)) :: u32) n = bit v n"
      by (cases "n < 16"; cases "n < 24") (auto simp: bit_simps)
  qed
  finally show ?thesis .
qed

end
