(* ===== verification/Stream.thy ===== *)
theory Stream
  imports Prelude
begin

text \<open>
  The byte stream of WinPR (\<^verbatim>\<open>winpr/libwinpr/utils/stream.c\<close> and the inline functions of
  \<^verbatim>\<open>winpr/include/winpr/stream.h\<close>), on which every protocol layer reads and writes.

  A stream is its buffer (a list of bytes), the offset of the pointer into it, the logical
  length and the capacity. The readers and writers of the header do no bounds check of their
  own: an access outside the buffer is a memory fault, the value \<open>None\<close>.

  Two views carry the proofs of the layers above: \<open>rest\<close>, the bytes between the pointer and
  the length (what a parser still has to read), and \<open>out\<close>, the bytes before the pointer (what a
  writer has produced). The locale \<open>wire_codec\<close> states the contract between a writer and a
  reader of the same wire format and proves its round trips once.
\<close>

section \<open>The stream and its operations\<close>

record wStream =
  s_buffer :: "byte list"
  s_pointer :: nat
  s_length :: nat
  s_capacity :: nat
  s_count :: u32
  s_isAllocatedStream :: bool
  s_isOwner :: bool

definition Stream_Seek :: "wStream \<Rightarrow> nat \<Rightarrow> wStream" where
  "Stream_Seek s n = s\<lparr>s_pointer := s_pointer s + n\<rparr>"

definition Stream_Rewind :: "wStream \<Rightarrow> nat \<Rightarrow> wStream option" where
  "Stream_Rewind s n =
     (if n \<le> s_pointer s then Some (s\<lparr>s_pointer := s_pointer s - n\<rparr>) else None)"

definition Stream_GetPosition :: "wStream \<Rightarrow> nat" where
  "Stream_GetPosition s = s_pointer s"

definition Stream_SetPosition :: "wStream \<Rightarrow> nat \<Rightarrow> wStream" where
  "Stream_SetPosition s p = s\<lparr>s_pointer := p\<rparr>"

definition Stream_SealLength :: "wStream \<Rightarrow> wStream" where
  "Stream_SealLength s = s\<lparr>s_length := s_pointer s\<rparr>"

definition Stream_SetLength :: "wStream \<Rightarrow> nat \<Rightarrow> wStream" where
  "Stream_SetLength s n = s\<lparr>s_length := n\<rparr>"

definition Stream_GetRemainingCapacity :: "wStream \<Rightarrow> nat" where
  "Stream_GetRemainingCapacity s = sub64 (s_capacity s) (s_pointer s)"

definition Stream_GetRemainingLength :: "wStream \<Rightarrow> nat" where
  "Stream_GetRemainingLength s = sub64 (s_length s) (s_pointer s)"

definition Stream_Clear :: "wStream \<Rightarrow> wStream option" where
  "Stream_Clear s = do {
     b \<leftarrow> mem_write (s_buffer s) 0 (replicate (s_capacity s) 0);
     Some (s\<lparr>s_buffer := b\<rparr>) }"

definition Stream_SafeSeek :: "wStream \<Rightarrow> nat \<Rightarrow> bool \<times> wStream" where
  "Stream_SafeSeek s n =
     (if Stream_GetRemainingLength s < n then (False, s) else (True, Stream_Seek s n))"

subsection \<open>Readers\<close>

definition Stream_Peek :: "wStream \<Rightarrow> nat \<Rightarrow> byte list option" where
  "Stream_Peek s n = mem_read (s_buffer s) (s_pointer s) n"

definition Stream_Read :: "wStream \<Rightarrow> nat \<Rightarrow> (byte list \<times> wStream) option" where
  "Stream_Read s n = do { bs \<leftarrow> Stream_Peek s n; Some (bs, Stream_Seek s n) }"

definition Stream_Peek_UINT8 :: "wStream \<Rightarrow> byte option" where
  "Stream_Peek_UINT8 s = do { p \<leftarrow> Stream_Peek s 1; Some (p ! 0) }"

definition Stream_Read_UINT8 :: "wStream \<Rightarrow> (byte \<times> wStream) option" where
  "Stream_Read_UINT8 s = do { v \<leftarrow> Stream_Peek_UINT8 s; Some (v, Stream_Seek s 1) }"

definition Stream_Peek_UINT16 :: "wStream \<Rightarrow> u16 option" where
  "Stream_Peek_UINT16 s = do {
     p \<leftarrow> Stream_Peek s 2; Some (ucast (p ! 0) + push_bit 8 (ucast (p ! 1))) }"

definition Stream_Read_UINT16 :: "wStream \<Rightarrow> (u16 \<times> wStream) option" where
  "Stream_Read_UINT16 s = do { v \<leftarrow> Stream_Peek_UINT16 s; Some (v, Stream_Seek s 2) }"

definition Stream_Read_UINT16_BE :: "wStream \<Rightarrow> (u16 \<times> wStream) option" where
  "Stream_Read_UINT16_BE s = do {
     p \<leftarrow> Stream_Peek s 2;
     Some (push_bit 8 (ucast (p ! 0)) + ucast (p ! 1), Stream_Seek s 2) }"

definition Stream_Read_UINT32 :: "wStream \<Rightarrow> (u32 \<times> wStream) option" where
  "Stream_Read_UINT32 s = do {
     p \<leftarrow> Stream_Peek s 4;
     Some (ucast (p ! 0) + push_bit 8 (ucast (p ! 1)) + push_bit 16 (ucast (p ! 2)) +
           push_bit 24 (ucast (p ! 3)), Stream_Seek s 4) }"

definition Stream_Read_UINT32_BE :: "wStream \<Rightarrow> (u32 \<times> wStream) option" where
  "Stream_Read_UINT32_BE s = do {
     p \<leftarrow> Stream_Peek s 4;
     Some (push_bit 24 (ucast (p ! 0)) + push_bit 16 (ucast (p ! 1)) +
           push_bit 8 (ucast (p ! 2)) + ucast (p ! 3), Stream_Seek s 4) }"

definition Stream_Read_UINT64 :: "wStream \<Rightarrow> (u64 \<times> wStream) option" where
  "Stream_Read_UINT64 s = do {
     p \<leftarrow> Stream_Peek s 8;
     Some (ucast (p ! 0) + push_bit 8 (ucast (p ! 1)) + push_bit 16 (ucast (p ! 2)) + push_bit 24 (ucast (p ! 3)) +
           push_bit 32 (ucast (p ! 4)) + push_bit 40 (ucast (p ! 5)) + push_bit 48 (ucast (p ! 6)) +
           push_bit 56 (ucast (p ! 7)), Stream_Seek s 8) }"

fun read_u16_loop :: "wStream \<Rightarrow> nat \<Rightarrow> (u16 list \<times> wStream) option" where
  "read_u16_loop s 0 = Some ([], s)"
| "read_u16_loop s (Suc n) = do {
     (v, s) \<leftarrow> Stream_Read_UINT16 s;
     (vs, s) \<leftarrow> read_u16_loop s n;
     Some (v # vs, s) }"

definition Stream_Read_UTF16_String :: "wStream \<Rightarrow> nat \<Rightarrow> (u16 list option \<times> wStream) option" where
  "Stream_Read_UTF16_String s n =
     (if Stream_GetRemainingLength s div 2 < n then Some (None, s)
      else do { (vs, s) \<leftarrow> read_u16_loop s n; Some (Some vs, s) })"

subsection \<open>Writers\<close>

definition Stream_Write :: "wStream \<Rightarrow> byte list \<Rightarrow> wStream option" where
  "Stream_Write s bs =
     (if 0 < length bs then do {
        b \<leftarrow> mem_write (s_buffer s) (s_pointer s) bs;
        Some (Stream_Seek (s\<lparr>s_buffer := b\<rparr>) (length bs)) }
      else Some s)"

definition Stream_Write_UINT8 :: "wStream \<Rightarrow> byte \<Rightarrow> wStream option" where
  "Stream_Write_UINT8 s v = do {
     b \<leftarrow> mem_write (s_buffer s) (s_pointer s) [v];
     Some (Stream_Seek (s\<lparr>s_buffer := b\<rparr>) 1) }"

definition Stream_Write_UINT16 :: "wStream \<Rightarrow> u16 \<Rightarrow> wStream option" where
  "Stream_Write_UINT16 s v = do {
     s \<leftarrow> Stream_Write_UINT8 s (ucast (v AND 0xFF));
     Stream_Write_UINT8 s (ucast (drop_bit 8 v AND 0xFF)) }"

definition Stream_Write_UINT16_BE :: "wStream \<Rightarrow> u16 \<Rightarrow> wStream option" where
  "Stream_Write_UINT16_BE s v = do {
     s \<leftarrow> Stream_Write_UINT8 s (ucast (drop_bit 8 v AND 0xFF));
     Stream_Write_UINT8 s (ucast (v AND 0xFF)) }"

definition Stream_Write_UINT32 :: "wStream \<Rightarrow> u32 \<Rightarrow> wStream option" where
  "Stream_Write_UINT32 s v = do {
     s \<leftarrow> Stream_Write_UINT8 s (ucast (v AND 0xFF));
     s \<leftarrow> Stream_Write_UINT8 s (ucast (drop_bit 8 v AND 0xFF));
     s \<leftarrow> Stream_Write_UINT8 s (ucast (drop_bit 16 v AND 0xFF));
     Stream_Write_UINT8 s (ucast (drop_bit 24 v AND 0xFF)) }"

definition Stream_Write_UINT32_BE :: "wStream \<Rightarrow> u32 \<Rightarrow> wStream option" where
  "Stream_Write_UINT32_BE s v = do {
     s \<leftarrow> Stream_Write_UINT16_BE s (ucast (drop_bit 16 v AND 0xFFFF));
     Stream_Write_UINT16_BE s (ucast (v AND 0xFFFF)) }"

definition Stream_Write_UINT64 :: "wStream \<Rightarrow> u64 \<Rightarrow> wStream option" where
  "Stream_Write_UINT64 s v = do {
     s \<leftarrow> Stream_Write_UINT8 s (ucast (v AND 0xFF));
     s \<leftarrow> Stream_Write_UINT8 s (ucast (drop_bit 8 v AND 0xFF));
     s \<leftarrow> Stream_Write_UINT8 s (ucast (drop_bit 16 v AND 0xFF));
     s \<leftarrow> Stream_Write_UINT8 s (ucast (drop_bit 24 v AND 0xFF));
     s \<leftarrow> Stream_Write_UINT8 s (ucast (drop_bit 32 v AND 0xFF));
     s \<leftarrow> Stream_Write_UINT8 s (ucast (drop_bit 40 v AND 0xFF));
     s \<leftarrow> Stream_Write_UINT8 s (ucast (drop_bit 48 v AND 0xFF));
     Stream_Write_UINT8 s (ucast (drop_bit 56 v AND 0xFF)) }"

definition Stream_Zero :: "wStream \<Rightarrow> nat \<Rightarrow> wStream option" where
  "Stream_Zero s n = do {
     b \<leftarrow> mem_write (s_buffer s) (s_pointer s) (replicate n 0);
     Some (Stream_Seek (s\<lparr>s_buffer := b\<rparr>) n) }"

definition Stream_Copy :: "wStream \<Rightarrow> wStream \<Rightarrow> nat \<Rightarrow> (wStream \<times> wStream) option" where
  "Stream_Copy src dst n = do {
     bs \<leftarrow> mem_read (s_buffer src) (s_pointer src) n;
     b \<leftarrow> mem_write (s_buffer dst) (s_pointer dst) bs;
     Some (Stream_Seek src n, Stream_Seek (dst\<lparr>s_buffer := b\<rparr>) n) }"

fun write_u16_loop :: "wStream \<Rightarrow> u16 list \<Rightarrow> wStream option" where
  "write_u16_loop s [] = Some s"
| "write_u16_loop s (v # vs) = do { s \<leftarrow> Stream_Write_UINT16 s v; write_u16_loop s vs }"

definition Stream_Write_UTF16_String :: "wStream \<Rightarrow> u16 list \<Rightarrow> (bool \<times> wStream) option" where
  "Stream_Write_UTF16_String s src =
     (if Stream_GetRemainingCapacity s div 2 < length src then Some (False, s)
      else do { s \<leftarrow> write_u16_loop s src; Some (True, s) })"

subsection \<open>Creation and growth\<close>

definition Stream_StaticInit :: "byte list \<Rightarrow> wStream" where
  "Stream_StaticInit buffer =
     \<lparr>s_buffer = buffer, s_pointer = 0, s_length = length buffer, s_capacity = length buffer,
      s_count = 0, s_isAllocatedStream = False, s_isOwner = False\<rparr>"

definition Stream_New :: "allocator \<Rightarrow> byte list option \<Rightarrow> nat \<Rightarrow> wStream option" where
  "Stream_New malloc buffer sz =
     (if buffer = None \<and> sz = 0 then None
      else case (case buffer of Some b \<Rightarrow> Some b | None \<Rightarrow> malloc sz) of
        None \<Rightarrow> None
      | Some b \<Rightarrow> Some \<lparr>s_buffer = b, s_pointer = 0, s_length = sz, s_capacity = sz,
          s_count = 0, s_isAllocatedStream = True, s_isOwner = True\<rparr>)"

text \<open>
  The \<^verbatim>\<open>do ... while\<close> loop that doubles the capacity; \<open>None\<close> when it never ends (a zero
  capacity, or a size that no doubling reaches before the 64-bit wrap-around to zero).
\<close>

partial_function (option) grow_loop :: "nat \<Rightarrow> nat \<Rightarrow> nat option" where
  "grow_loop new_capacity sz =
     (let new_capacity = mul64 new_capacity 2
      in if new_capacity < sz then grow_loop new_capacity sz else Some new_capacity)"

text \<open>
  \<^verbatim>\<open>CopyMemory\<close> into the result of \<^verbatim>\<open>malloc\<close> precedes the null check, so a failed allocation
  for a stream that does not own its buffer is a fault. \<open>None\<close> is also the value when the
  doubling loop never ends.
\<close>

definition Stream_EnsureCapacity :: "allocator \<Rightarrow> wStream \<Rightarrow> nat \<Rightarrow> (bool \<times> wStream) option" where
  "Stream_EnsureCapacity malloc s sz =
     (if s_capacity s < sz then do {
        let old_capacity = s_capacity s;
        new_capacity \<leftarrow> grow_loop old_capacity sz;
        let position = Stream_GetPosition s;
        (new_buf, s) \<leftarrow>
          (if \<not> s_isOwner s then do {
             new_buf \<leftarrow> malloc new_capacity;
             old \<leftarrow> mem_read (s_buffer s) 0 (s_capacity s);
             new_buf \<leftarrow> mem_write new_buf 0 old;
             Some (Some new_buf, s\<lparr>s_isOwner := True\<rparr>) }
           else Some (c_realloc malloc (s_buffer s) new_capacity, s));
        (case new_buf of
           None \<Rightarrow> Some (False, s)
         | Some new_buf \<Rightarrow> do {
             b \<leftarrow> mem_write new_buf old_capacity (replicate (new_capacity - old_capacity) 0);
             let s = s\<lparr>s_buffer := b, s_capacity := new_capacity, s_length := new_capacity\<rparr>;
             Some (True, Stream_SetPosition s position) }) }
      else Some (True, s))"

definition Stream_EnsureRemainingCapacity :: "allocator \<Rightarrow> wStream \<Rightarrow> nat \<Rightarrow> (bool \<times> wStream) option" where
  "Stream_EnsureRemainingCapacity malloc s sz =
     (if s_capacity s < add64 (Stream_GetPosition s) sz
      then Stream_EnsureCapacity malloc s (add64 (s_capacity s) sz)
      else Some (True, s))"

section \<open>Well-formed streams and the reader's view\<close>

definition wf_cap :: "wStream \<Rightarrow> bool" where
  "wf_cap s \<longleftrightarrow> s_pointer s \<le> s_capacity s \<and> s_capacity s = length (s_buffer s) \<and> s_capacity s < 2 ^ 64"

definition wf_stream :: "wStream \<Rightarrow> bool" where
  "wf_stream s \<longleftrightarrow> wf_cap s \<and> s_pointer s \<le> s_length s \<and> s_length s \<le> s_capacity s"

definition rest :: "wStream \<Rightarrow> byte list" where
  "rest s = take (s_length s - s_pointer s) (drop (s_pointer s) (s_buffer s))"

definition out :: "wStream \<Rightarrow> byte list" where
  "out s = take (s_pointer s) (s_buffer s)"

lemma Stream_Seek_simps [simp]:
  "s_buffer (Stream_Seek s n) = s_buffer s"
  "s_pointer (Stream_Seek s n) = s_pointer s + n"
  "s_length (Stream_Seek s n) = s_length s"
  "s_capacity (Stream_Seek s n) = s_capacity s"
  "s_isOwner (Stream_Seek s n) = s_isOwner s"
  "Stream_Seek (Stream_Seek s n) m = Stream_Seek s (n + m)"
  "Stream_Seek s 0 = s"
  by (simp_all add: Stream_Seek_def)

definition avail :: "wStream \<Rightarrow> nat" where
  "avail s = s_length s - s_pointer s"

lemma length_rest [stream_simps]: "wf_stream s \<Longrightarrow> length (rest s) = avail s"
  by (auto simp: rest_def avail_def wf_stream_def wf_cap_def)

lemma avail_bound: "wf_stream s \<Longrightarrow> avail s < 2 ^ 64"
  by (auto simp: avail_def wf_stream_def wf_cap_def)

lemma buffer_avail: "wf_stream s \<Longrightarrow> n \<le> avail s \<Longrightarrow> n \<le> length (s_buffer s) - s_pointer s"
  by (auto simp: avail_def wf_stream_def wf_cap_def)

lemma avail_Seek [stream_simps]: "avail (Stream_Seek s n) = avail s - n"
  by (simp add: avail_def)

lemma remaining_length [stream_simps]:
  "wf_stream s \<Longrightarrow> Stream_GetRemainingLength s = avail s"
  by (auto simp: avail_def Stream_GetRemainingLength_def wf_stream_def wf_cap_def)

lemma remaining_capacity [stream_simps]:
  "wf_cap s \<Longrightarrow> Stream_GetRemainingCapacity s = length (s_buffer s) - s_pointer s"
  by (auto simp: Stream_GetRemainingCapacity_def wf_cap_def)

lemma wf_Seek [stream_simps]:
  "wf_stream s \<Longrightarrow> n \<le> avail s \<Longrightarrow> wf_stream (Stream_Seek s n)"
  by (auto simp: avail_def wf_stream_def wf_cap_def)

lemma rest_Seek [stream_simps]: "rest (Stream_Seek s n) = drop n (rest s)"
  by (simp add: rest_def drop_take add.commute)

lemma SafeSeek_eq [stream_simps]:
  "wf_stream s \<Longrightarrow> Stream_SafeSeek s n = (if avail s < n then (False, s) else (True, Stream_Seek s n))"
  by (simp add: Stream_SafeSeek_def remaining_length)

lemma Peek_rest [stream_simps]:
  "wf_stream s \<Longrightarrow> n \<le> avail s \<Longrightarrow> Stream_Peek s n = Some (take n (rest s))"
  by (auto simp: Stream_Peek_def avail_def mem_read_def rest_def wf_stream_def wf_cap_def min_def)

lemma Peek_UINT8_rest [stream_simps]:
  "wf_stream s \<Longrightarrow> 1 \<le> avail s \<Longrightarrow> Stream_Peek_UINT8 s = Some (rest s ! 0)"
  by (simp add: Stream_Peek_UINT8_def stream_simps)

lemma Read_UINT8_rest [stream_simps]:
  "wf_stream s \<Longrightarrow> 1 \<le> avail s \<Longrightarrow>
   Stream_Read_UINT8 s = Some (rest s ! 0, Stream_Seek s 1)"
  by (simp add: Stream_Read_UINT8_def stream_simps)

lemma Read_rest [stream_simps]:
  "wf_stream s \<Longrightarrow> n \<le> avail s \<Longrightarrow> Stream_Read s n = Some (take n (rest s), Stream_Seek s n)"
  by (simp add: Stream_Read_def stream_simps)

lemma Read_UINT16_rest [stream_simps]:
  "wf_stream s \<Longrightarrow> 2 \<le> avail s \<Longrightarrow>
   Stream_Read_UINT16 s =
     Some (ucast (rest s ! 0) + push_bit 8 (ucast (rest s ! 1)), Stream_Seek s 2)"
  by (simp add: Stream_Read_UINT16_def Stream_Peek_UINT16_def stream_simps)

lemma Read_UINT16_BE_rest [stream_simps]:
  "wf_stream s \<Longrightarrow> 2 \<le> avail s \<Longrightarrow>
   Stream_Read_UINT16_BE s =
     Some (push_bit 8 (ucast (rest s ! 0)) + ucast (rest s ! 1), Stream_Seek s 2)"
  by (simp add: Stream_Read_UINT16_BE_def stream_simps)

lemma Read_UINT32_BE_rest [stream_simps]:
  "wf_stream s \<Longrightarrow> 4 \<le> avail s \<Longrightarrow>
   Stream_Read_UINT32_BE s =
     Some (push_bit 24 (ucast (rest s ! 0)) + push_bit 16 (ucast (rest s ! 1)) +
           push_bit 8 (ucast (rest s ! 2)) + ucast (rest s ! 3), Stream_Seek s 4)"
  by (simp add: Stream_Read_UINT32_BE_def stream_simps)

lemma Read_UINT32_rest [stream_simps]:
  "wf_stream s \<Longrightarrow> 4 \<le> avail s \<Longrightarrow>
   Stream_Read_UINT32 s =
     Some (ucast (rest s ! 0) + push_bit 8 (ucast (rest s ! 1)) +
           push_bit 16 (ucast (rest s ! 2)) + push_bit 24 (ucast (rest s ! 3)), Stream_Seek s 4)"
  by (simp add: Stream_Read_UINT32_def stream_simps)

lemma wf_static [simp]: "length b < 2 ^ 64 \<Longrightarrow> wf_stream (Stream_StaticInit b)"
  by (simp add: Stream_StaticInit_def wf_stream_def wf_cap_def)

lemma rest_static [simp]: "rest (Stream_StaticInit b) = b"
  by (simp add: Stream_StaticInit_def rest_def)

section \<open>Safe readers\<close>

text \<open>
  A reader is safe if on every well-formed stream, whatever bytes it holds, it neither faults
  nor touches the buffer, and only moves the pointer forward within the length.
\<close>

definition consumed :: "wStream \<Rightarrow> wStream \<Rightarrow> bool" where
  "consumed s s' \<longleftrightarrow> (\<exists>n \<le> avail s. s' = Stream_Seek s n)"

definition safe_reader :: "(wStream \<Rightarrow> ('a \<times> wStream) option) \<Rightarrow> bool" where
  "safe_reader f \<longleftrightarrow> (\<forall>s. wf_stream s \<longrightarrow> run_ok (f s) (\<lambda>_. consumed s))"

lemma consumed_refl [simp, intro]: "consumed s s"
  unfolding consumed_def by (rule exI [of _ 0]) simp

lemma consumed_Seek [stream_simps]: "n \<le> avail s \<Longrightarrow> consumed s (Stream_Seek s n)"
  unfolding consumed_def by blast

lemma consumed_wf: "wf_stream s \<Longrightarrow> consumed s s' \<Longrightarrow> wf_stream s'"
  by (auto simp: consumed_def stream_simps)

lemma consumed_trans: "consumed s t \<Longrightarrow> consumed t u \<Longrightarrow> consumed s u"
proof -
  assume "consumed s t" "consumed t u"
  then obtain n m where "n \<le> avail s" "t = Stream_Seek s n" "m \<le> avail t" "u = Stream_Seek t m"
    by (auto simp: consumed_def)
  then show ?thesis
    by (auto simp: consumed_def stream_simps intro!: exI [of _ "n + m"])
qed

lemma consumed_buffer: "consumed s s' \<Longrightarrow> s_buffer s' = s_buffer s"
  by (auto simp: consumed_def)

lemma safe_readerI: "(\<And>s. wf_stream s \<Longrightarrow> run_ok (f s) (\<lambda>_. consumed s)) \<Longrightarrow> safe_reader f"
  by (simp add: safe_reader_def)

lemma safe_readerD: "safe_reader f \<Longrightarrow> wf_stream s \<Longrightarrow> run_ok (f s) (\<lambda>_. consumed s)"
  by (simp add: safe_reader_def)

text \<open>Safe readers compose: a step that is safe from every state, followed by safe steps.\<close>

lemma safe_bind [intro]:
  assumes "safe_reader f" "\<And>a. safe_reader (g a)"
  shows "safe_reader (\<lambda>s. f s \<bind> (\<lambda>(a, s). g a s))"
proof (rule safe_readerI)
  fix s assume w: "wf_stream s"
  show "run_ok (f s \<bind> (\<lambda>(a, s). g a s)) (\<lambda>_. consumed s)"
    unfolding run_ok_bind
  proof (rule run_ok_mono [OF safe_readerD [OF assms(1) w]])
    fix a t assume c: "consumed s t"
    show "run_ok (g a t) (\<lambda>_. consumed s)"
      by (rule run_ok_mono [OF safe_readerD [OF assms(2) consumed_wf [OF w c]]])
         (rule consumed_trans [OF c])
  qed
qed

lemma safe_return [intro, simp]: "safe_reader (\<lambda>s. Some (g s, s))"
  by (rule safe_readerI) simp

lemma safe_if [intro]: "safe_reader f \<Longrightarrow> safe_reader g \<Longrightarrow> safe_reader (\<lambda>s. if b s then f s else g s)"
  by (auto simp: safe_reader_def)

lemma safe_case_option [intro]:
  "safe_reader f \<Longrightarrow> (\<And>a. safe_reader (g a)) \<Longrightarrow>
   safe_reader (\<lambda>s. case x of None \<Rightarrow> f s | Some a \<Rightarrow> g a s)"
  by (cases x) auto

lemma safe_seek_guarded [intro]:
  "safe_reader f \<Longrightarrow> safe_reader g \<Longrightarrow>
   safe_reader (\<lambda>s. if Stream_GetRemainingLength s < n then f s else g (Stream_Seek s n))"
proof (rule safe_readerI)
  fix s assume f: "safe_reader f" and g: "safe_reader g" and w: "wf_stream s"
  show "run_ok (if Stream_GetRemainingLength s < n then f s else g (Stream_Seek s n)) (\<lambda>_. consumed s)"
  proof (cases "avail s < n")
    case True
    then show ?thesis using safe_readerD [OF f w] w by (simp add: stream_simps)
  next
    case False
    then have c: "consumed s (Stream_Seek s n)" by (simp add: consumed_Seek)
    show ?thesis using False w
      run_ok_mono [OF safe_readerD [OF g consumed_wf [OF w c]] consumed_trans [OF c]]
      by (simp add: stream_simps)
  qed
qed

lemma run_bind_safe:
  assumes "safe_reader f" "wf_stream s" "\<And>a t. consumed s t \<Longrightarrow> wf_stream t \<Longrightarrow> run_ok (g a t) Q"
  shows "run_ok (f s \<bind> (\<lambda>(a, t). g a t)) Q"
  unfolding run_ok_bind
  by (rule run_ok_mono [OF safe_readerD [OF assms(1,2)]]) (use assms(2,3) consumed_wf in blast)

section \<open>The writer's view\<close>

definition room :: "wStream \<Rightarrow> nat" where
  "room s = s_capacity s - s_pointer s"

text \<open>\<open>put s bs\<close> is the stream after writing \<open>bs\<close> at the pointer, when they fit.\<close>

definition put :: "wStream \<Rightarrow> byte list \<Rightarrow> wStream" where
  "put s bs = s\<lparr>s_buffer := take (s_pointer s) (s_buffer s) @ bs @ drop (s_pointer s + length bs) (s_buffer s),
               s_pointer := s_pointer s + length bs\<rparr>"

lemma put_simps [simp]:
  "s_pointer (put s bs) = s_pointer s + length bs"
  "s_length (put s bs) = s_length s"
  "s_capacity (put s bs) = s_capacity s"
  "s_isOwner (put s bs) = s_isOwner s"
  by (simp_all add: put_def)

lemma put_Nil [simp]: "put s [] = s"
  by (simp add: put_def)

lemma wf_cap_put [stream_simps]: "wf_cap s \<Longrightarrow> length bs \<le> room s \<Longrightarrow> wf_cap (put s bs)"
  by (auto simp: put_def wf_cap_def room_def)

lemma room_put [stream_simps]: "room (put s bs) = room s - length bs"
  by (simp add: room_def)

lemma out_put [stream_simps]: "wf_cap s \<Longrightarrow> length bs \<le> room s \<Longrightarrow> out (put s bs) = out s @ bs"
  by (auto simp: out_def put_def wf_cap_def room_def)

lemma put_put [stream_simps]:
  "wf_cap s \<Longrightarrow> length bs + length cs \<le> room s \<Longrightarrow> put (put s bs) cs = put s (bs @ cs)"
  by (auto simp: put_def wf_cap_def room_def ac_simps)

lemma Write_put [stream_simps]:
  "wf_cap s \<Longrightarrow> length bs \<le> room s \<Longrightarrow> Stream_Write s bs = Some (put s bs)"
  by (auto simp: Stream_Write_def mem_write_def put_def wf_cap_def room_def Stream_Seek_def)

lemma Write_UINT8_put [stream_simps]:
  "wf_cap s \<Longrightarrow> 1 \<le> room s \<Longrightarrow> Stream_Write_UINT8 s v = Some (put s [v])"
  by (auto simp: Stream_Write_UINT8_def mem_write_def put_def wf_cap_def room_def Stream_Seek_def)

lemma Write_UINT16_put [stream_simps]:
  "wf_cap s \<Longrightarrow> 2 \<le> room s \<Longrightarrow>
   Stream_Write_UINT16 s v = Some (put s [ucast v, ucast (drop_bit 8 v)])"
  by (simp add: Stream_Write_UINT16_def stream_simps)

lemma Write_UINT16_BE_put [stream_simps]:
  "wf_cap s \<Longrightarrow> 2 \<le> room s \<Longrightarrow>
   Stream_Write_UINT16_BE s v = Some (put s [ucast (drop_bit 8 v), ucast v])"
  by (simp add: Stream_Write_UINT16_BE_def stream_simps)

lemma Write_UINT32_put [stream_simps]:
  "wf_cap s \<Longrightarrow> 4 \<le> room s \<Longrightarrow>
   Stream_Write_UINT32 s v =
     Some (put s [ucast v, ucast (drop_bit 8 v), ucast (drop_bit 16 v), ucast (drop_bit 24 v)])"
  by (simp add: Stream_Write_UINT32_def stream_simps)

lemma high_half: "(ucast (ucast (drop_bit 16 v AND 0xFFFF :: u32) :: u16) :: byte) = ucast (drop_bit 16 v)"
    "(ucast (drop_bit 8 (ucast (drop_bit 16 v AND 0xFFFF :: u32) :: u16)) :: byte) = ucast (drop_bit 24 v)"
    "(ucast (ucast (v AND 0xFFFF :: u32) :: u16) :: byte) = ucast v"
    "(ucast (drop_bit 8 (ucast (v AND 0xFFFF :: u32) :: u16)) :: byte) = ucast (drop_bit 8 v)"
proof -
  have m: "(0xFFFF :: u32) = mask 16" by (simp add: mask_eq_exp_minus_1)
  show "(ucast (ucast (drop_bit 16 v AND 0xFFFF :: u32) :: u16) :: byte) = ucast (drop_bit 16 v)"
    "(ucast (drop_bit 8 (ucast (drop_bit 16 v AND 0xFFFF :: u32) :: u16)) :: byte) = ucast (drop_bit 24 v)"
    "(ucast (ucast (v AND 0xFFFF :: u32) :: u16) :: byte) = ucast v"
    "(ucast (drop_bit 8 (ucast (v AND 0xFFFF :: u32) :: u16)) :: byte) = ucast (drop_bit 8 v)"
    unfolding m by (rule bit_word_eqI, auto simp: bit_simps dest: bit_imp_le_length)+
qed

lemma Write_UINT32_BE_put [stream_simps]:
  "wf_cap s \<Longrightarrow> 4 \<le> room s \<Longrightarrow>
   Stream_Write_UINT32_BE s v =
     Some (put s [ucast (drop_bit 24 v), ucast (drop_bit 16 v), ucast (drop_bit 8 v), ucast v])"
  by (simp add: Stream_Write_UINT32_BE_def stream_simps high_half del: ucast_and_255)

lemma Zero_put [stream_simps]:
  "wf_cap s \<Longrightarrow> n \<le> room s \<Longrightarrow> Stream_Zero s n = Some (put s (replicate n 0))"
  by (auto simp: Stream_Zero_def mem_write_def put_def wf_cap_def room_def Stream_Seek_def)

section \<open>Growth\<close>

lemma grow_loop_Some:
  assumes "0 < c" "c < sz" "sz \<le> 2 ^ 63"
  shows "\<exists>k. grow_loop c sz = Some (c * 2 ^ Suc k) \<and> sz \<le> c * 2 ^ Suc k \<and> c * 2 ^ k < sz"
  using assms
proof (induction "sz - c" arbitrary: c rule: less_induct)
  case less
  have e: "mul64 c 2 = c * 2"
    using less.prems by simp
  show ?case
  proof (cases "c * 2 < sz")
    case True
    then have "sz - c * 2 < sz - c" using less.prems by linarith
    then obtain k where k: "grow_loop (c * 2) sz = Some (c * 2 * 2 ^ Suc k)"
        "sz \<le> c * 2 * 2 ^ Suc k" "c * 2 * 2 ^ k < sz"
      using less.hyps [of "c * 2"] less.prems True by auto
    moreover have "grow_loop c sz = grow_loop (c * 2) sz"
      using True by (subst grow_loop.simps) (simp add: Let_def e)
    ultimately show ?thesis
      by (intro exI [of _ "Suc k"]) (simp add: mult.assoc)
  next
    case False
    then show ?thesis using less.prems
      by (intro exI [of _ 0]) (subst grow_loop.simps, simp add: Let_def e)
  qed
qed

definition alloc_total :: "(nat \<Rightarrow> 'a list option) \<Rightarrow> bool" where
  "alloc_total malloc \<longleftrightarrow> (\<forall>n. malloc n \<noteq> None)"

lemma EnsureCapacity_run:
  assumes m: "malloc_ok malloc" and w: "wf_cap s" and c: "0 < s_capacity s"
    and z: "sz \<le> 2 ^ 63" and o: "s_isOwner s \<or> malloc (the (grow_loop (s_capacity s) sz)) \<noteq> None"
  shows "run_ok (Stream_EnsureCapacity malloc s sz)
    (\<lambda>ok s'. if ok then wf_cap s' \<and> sz \<le> s_capacity s' \<and> s_pointer s' = s_pointer s
        \<and> s_capacity s \<le> s_capacity s'
        \<and> s_buffer s' = s_buffer s @ replicate (s_capacity s' - s_capacity s) 0
      else s' = s)"
proof (cases "s_capacity s < sz")
  case False
  then show ?thesis using w by (auto simp: Stream_EnsureCapacity_def wf_cap_def)
next
  case True
  then obtain k where g: "grow_loop (s_capacity s) sz = Some (s_capacity s * 2 ^ Suc k)"
    and k: "sz \<le> s_capacity s * 2 ^ Suc k" "s_capacity s * 2 ^ k < sz"
    using grow_loop_Some [OF c True z] by blast
  let ?n = "s_capacity s * 2 ^ Suc k"
  have n: "s_capacity s < ?n" "?n < 2 ^ 64"
    using k z True less_le_trans [OF True k(1)] by (simp_all only: power_Suc)  simp_all
  have l: "length (s_buffer s) = s_capacity s" "s_pointer s \<le> s_capacity s"
    using w by (auto simp: wf_cap_def)
  show ?thesis
  proof (cases "s_isOwner s")
    case True
    show ?thesis
    proof (cases "malloc ?n")
      case None
      then show ?thesis using True \<open>s_capacity s < sz\<close> g
        by (simp add: Stream_EnsureCapacity_def c_realloc_def Let_def)
    next
      case (Some junk)
      then have "length junk = ?n" using m by (simp add: malloc_ok_def)
      then show ?thesis using True \<open>s_capacity s < sz\<close> g Some n k l
        by (simp add: Stream_EnsureCapacity_def c_realloc_def Let_def wf_cap_def
            Stream_SetPosition_def Stream_GetPosition_def)
    qed
  next
    case False
    then obtain junk where "malloc ?n = Some junk" using o g by auto
    moreover from this have "length junk = ?n" using m by (simp add: malloc_ok_def)
    ultimately show ?thesis using False \<open>s_capacity s < sz\<close> g n k l
      by (simp add: Stream_EnsureCapacity_def Let_def wf_cap_def mem_write_def
          Stream_SetPosition_def Stream_GetPosition_def)
  qed
qed

lemma EnsureRemaining_room [stream_simps]:
  "wf_cap s \<Longrightarrow> sz \<le> room s \<Longrightarrow> Stream_EnsureRemainingCapacity malloc s sz = Some (True, s)"
  by (auto simp: Stream_EnsureRemainingCapacity_def Stream_GetPosition_def wf_cap_def room_def add64_def)

section \<open>From writing to reading\<close>

text \<open>\<open>rewound s p\<close> is how the layers hand a written message on: seal the length, go back to \<open>p\<close>.\<close>

definition rewound :: "wStream \<Rightarrow> nat \<Rightarrow> wStream" where
  "rewound s p = Stream_SetPosition (Stream_SealLength s) p"

lemma wf_rewound: "wf_cap s \<Longrightarrow> p \<le> s_pointer s \<Longrightarrow> wf_stream (rewound s p)"
  by (auto simp: rewound_def Stream_SetPosition_def Stream_SealLength_def wf_stream_def wf_cap_def)

lemma rest_rewound: "wf_cap s \<Longrightarrow> p \<le> s_pointer s \<Longrightarrow> rest (rewound s p) = drop p (out s)"
  by (auto simp: rewound_def Stream_SetPosition_def Stream_SealLength_def rest_def out_def wf_cap_def
      drop_take)

lemma length_out [simp]: "wf_cap s \<Longrightarrow> length (out s) = s_pointer s"
  by (auto simp: out_def wf_cap_def)

text \<open>
  The stream a sender hands to the transport: \<open>sent e\<close> is a stream, filled and sealed, from whose start
  the receiver reads \<open>e\<close>.
\<close>

definition sent :: "byte list \<Rightarrow> wStream \<Rightarrow> bool" where
  "sent e s \<longleftrightarrow> wf_stream (Stream_SetPosition s 0) \<and> rest (Stream_SetPosition s 0) = e"

text \<open>
  A message whose first bytes are filled in last: \<open>e\<close> is written at the start of a stream that already
  holds \<open>body\<close> behind the room left for it.
\<close>

lemma sent_header_last:
  assumes "wf_cap s0" "s_pointer s0 = 0" "length e + length body \<le> room s0"
  shows "wf_cap (Stream_SetPosition (put (Stream_Seek s0 (length e)) body) 0)"
    "room (Stream_SetPosition (put (Stream_Seek s0 (length e)) body) 0) = room s0"
    "sent (e @ body) (Stream_SealLength (Stream_SetPosition
       (put (Stream_SetPosition (put (Stream_Seek s0 (length e)) body) 0) e) (length e + length body)))"
  using assms
  by (auto simp: sent_def put_def Stream_SetPosition_def Stream_SealLength_def Stream_Seek_def rest_def
      wf_stream_def wf_cap_def room_def min_def)

text \<open>
  The contract between the writer and the reader of one wire format: \<open>enc\<close> is the encoding of a
  value, the writer appends it and reports success, and the reader takes exactly these bytes off
  the front of whatever follows.
\<close>

locale wire_codec =
  fixes valid :: "'a \<Rightarrow> bool"
    and enc :: "'a \<Rightarrow> byte list"
    and wr :: "'a \<Rightarrow> wStream \<Rightarrow> (bool \<times> wStream) option"
    and rd :: "wStream \<Rightarrow> ('a option \<times> wStream) option"
  assumes write_enc: "\<lbrakk>valid x; wf_cap s; length (enc x) \<le> room s\<rbrakk> \<Longrightarrow> wr x s = Some (True, put s (enc x))"
    and read_enc: "\<lbrakk>valid x; wf_stream s; rest s = enc x @ r\<rbrakk> \<Longrightarrow>
      rd s = Some (Some x, Stream_Seek s (length (enc x)))"
begin

lemma roundtrip:
  assumes "valid x" "wf_cap s" "length (enc x) \<le> room s"
  shows "run_ok (wr x s) (\<lambda>ok s'. ok \<and>
    run_ok (rd (rewound s' (s_pointer s))) (\<lambda>y t. y = Some x \<and> rest t = []))"
proof -
  let ?t = "rewound (put s (enc x)) (s_pointer s)"
  have "wf_stream ?t" using assms by (simp add: wf_rewound stream_simps)
  moreover have "rest ?t = enc x @ []" using assms by (simp add: rest_rewound stream_simps)
  ultimately have "rd ?t = Some (Some x, Stream_Seek ?t (length (enc x)))" "rest ?t = enc x"
    using read_enc [OF assms(1)] by auto
  then show ?thesis using assms by (simp add: write_enc stream_simps)
qed

fun write_all :: "'a list \<Rightarrow> wStream \<Rightarrow> (bool \<times> wStream) option" where
  "write_all [] s = Some (True, s)"
| "write_all (x # xs) s = do { (ok, s) \<leftarrow> wr x s; if ok then write_all xs s else Some (False, s) }"

fun read_all :: "nat \<Rightarrow> wStream \<Rightarrow> ('a list option \<times> wStream) option" where
  "read_all 0 s = Some (Some [], s)"
| "read_all (Suc n) s = do {
     (x, s) \<leftarrow> rd s;
     (case x of None \<Rightarrow> Some (None, s)
      | Some x \<Rightarrow> do { (xs, s) \<leftarrow> read_all n s; Some (map_option (Cons x) xs, s) }) }"

lemma write_all_put:
  "\<lbrakk>list_all valid xs; wf_cap s; length (concat (map enc xs)) \<le> room s\<rbrakk> \<Longrightarrow>
   write_all xs s = Some (True, put s (concat (map enc xs)))"
  by (induction xs arbitrary: s) (simp_all add: write_enc stream_simps)

lemma read_all_rest:
  "\<lbrakk>list_all valid xs; wf_stream s; rest s = concat (map enc xs) @ r\<rbrakk> \<Longrightarrow>
   read_all (length xs) s = Some (Some xs, Stream_Seek s (length (concat (map enc xs))))"
proof (induction xs arbitrary: s)
  case (Cons x xs)
  then have "rd s = Some (Some x, Stream_Seek s (length (enc x)))"
    by (intro read_enc) auto
  moreover have "length (enc x) \<le> avail s"
    using Cons.prems(3) length_rest [OF Cons.prems(2)] by simp
  ultimately show ?case using Cons.prems
    by (simp add: Cons.IH stream_simps)
qed simp

lemma roundtrip_all:
  assumes "list_all valid xs" "wf_cap s" "length (concat (map enc xs)) \<le> room s"
  shows "run_ok (write_all xs s) (\<lambda>ok s'. ok \<and>
    run_ok (read_all (length xs) (rewound s' (s_pointer s))) (\<lambda>ys t. ys = Some xs \<and> rest t = []))"
proof -
  let ?e = "concat (map enc xs)" let ?t = "rewound (put s ?e) (s_pointer s)"
  have t: "wf_stream ?t" "rest ?t = ?e @ []"
    using assms by (simp_all add: wf_rewound rest_rewound stream_simps)
  then show ?thesis
    using assms read_all_rest [OF assms(1) t] by (simp add: write_all_put stream_simps)
qed

end

section \<open>Properties of the stream\<close>

text \<open>A fresh stream of \<open>n\<close> zero bytes, on which concrete instances are evaluated.\<close>

definition zero_stream :: "nat \<Rightarrow> wStream" where
  "zero_stream n =
     \<lparr>s_buffer = replicate n 0, s_pointer = 0, s_length = n, s_capacity = n, s_count = 0,
      s_isAllocatedStream = True, s_isOwner = True\<rparr>"

lemma zero_stream_simps [simp]:
  "n < 2 ^ 64 \<Longrightarrow> wf_cap (zero_stream n)" "room (zero_stream n) = n" "s_pointer (zero_stream n) = 0"
  "s_capacity (zero_stream n) = n" "s_isOwner (zero_stream n)"
  by (simp_all add: zero_stream_def wf_cap_def room_def)

text \<open>
  \<^verbatim>\<open>Stream_EnsureRemainingCapacity\<close> does what its callers rely on: for a well-formed stream
  that owns a non-empty buffer and a total size of at most \<open>2 ^ 63\<close> it returns, and when it reports
  success at least \<open>sz\<close> bytes can be written at the unchanged position, the old bytes are kept and
  the new ones are zero; when it reports failure the stream is unchanged.
\<close>

lemma Stream_EnsureRemainingCapacity_ok:
  assumes "malloc_ok malloc" "wf_cap s" "0 < s_capacity s" "s_capacity s + sz \<le> 2 ^ 63" "s_isOwner s"
  shows "run_ok (Stream_EnsureRemainingCapacity malloc s sz)
    (\<lambda>ok s'. if ok then wf_cap s' \<and> sz \<le> room s' \<and> s_pointer s' = s_pointer s \<and>
        s_buffer s' = s_buffer s @ replicate (s_capacity s' - s_capacity s) 0
      else s' = s)"
proof (cases "sz \<le> room s")
  case True
  then show ?thesis using assms(2) by (simp add: EnsureRemaining_room)
next
  case False
  have p: "s_pointer s \<le> s_capacity s" using assms(2) by (simp add: wf_cap_def)
  have "add64 (s_pointer s) sz = s_pointer s + sz" "add64 (s_capacity s) sz = s_capacity s + sz"
    using p assms(4) by simp_all
  then have e: "Stream_EnsureRemainingCapacity malloc s sz = Stream_EnsureCapacity malloc s (s_capacity s + sz)"
    using False p by (auto simp: Stream_EnsureRemainingCapacity_def Stream_GetPosition_def room_def)
  show ?thesis unfolding e
    using p by (intro run_ok_mono [OF EnsureCapacity_run [OF assms(1-4)]])
      (auto simp: assms(5) room_def split: if_splits)
qed

definition utf16_enc :: "u16 list \<Rightarrow> byte list" where
  "utf16_enc vs = concat (map (\<lambda>v. [ucast v, ucast (drop_bit 8 v)]) vs)"

lemma utf16_enc_simps [simp]:
  "utf16_enc [] = []" "utf16_enc (v # vs) = ucast v # ucast (drop_bit 8 v) # utf16_enc vs"
  "length (utf16_enc vs) = 2 * length vs"
  by (simp_all add: utf16_enc_def) (induction vs; simp)

lemma write_u16_loop_put:
  "wf_cap s \<Longrightarrow> 2 * length vs \<le> room s \<Longrightarrow>
   write_u16_loop s vs = Some (put s (utf16_enc vs))"
  by (induction vs arbitrary: s) (simp_all add: stream_simps)

lemma read_u16_loop_rest:
  "wf_stream s \<Longrightarrow> rest s = utf16_enc vs @ r \<Longrightarrow>
   read_u16_loop s (length vs) = Some (vs, Stream_Seek s (2 * length vs))"
proof (induction vs arbitrary: s)
  case (Cons v vs)
  have a: "2 \<le> avail s" using length_rest [OF Cons.prems(1)] Cons.prems(2) by simp
  have j: "ucast (ucast v :: byte) + push_bit 8 (ucast (ucast (drop_bit 8 v) :: byte)) = v"
    using byte_join16 [of v] by (simp only: add.commute)
  show ?case using Cons.prems Cons.IH [of "Stream_Seek s 2"] a j by (simp add: stream_simps)
qed simp

text \<open>
  A UTF-16 string written by \<^verbatim>\<open>Stream_Write_UTF16_String\<close> into a stream with room for it is read
  back unchanged by \<^verbatim>\<open>Stream_Read_UTF16_String\<close>, which consumes exactly its bytes.
\<close>

lemma Stream_UTF16_String_roundtrip:
  assumes "wf_cap s" "2 * length str \<le> room s"
  shows "run_ok (Stream_Write_UTF16_String s str) (\<lambda>ok s'. ok \<and>
    run_ok (Stream_Read_UTF16_String (rewound s' (s_pointer s)) (length str)) (\<lambda>v t. v = Some str \<and> rest t = []))"
proof -
  let ?e = "utf16_enc str"
  have l: "length ?e = 2 * length str" by simp
  let ?t = "rewound (put s ?e) (s_pointer s)"
  have t: "wf_stream ?t" "rest ?t = ?e"
    using assms l by (simp_all add: wf_rewound rest_rewound stream_simps)
  have c: "Stream_GetRemainingCapacity s = room s"
    using assms(1) by (auto simp: Stream_GetRemainingCapacity_def room_def wf_cap_def)
  have "Stream_Write_UTF16_String s str = Some (True, put s ?e)"
    using assms by (simp add: Stream_Write_UTF16_String_def write_u16_loop_put c)
  moreover have "Stream_Read_UTF16_String ?t (length str) = Some (Some str, Stream_Seek ?t (2 * length str))"
    using t l length_rest [OF t(1)] read_u16_loop_rest [OF t(1), of str "[]"]
    by (simp add: Stream_Read_UTF16_String_def remaining_length)
  ultimately show ?thesis using t l by (simp add: stream_simps)
qed

end
