(* ===== verification/Tpkt.thy ===== *)
theory Tpkt
  imports Stream
begin

text \<open>
  The outermost framing of RDP: the TPKT header of RFC 1006 (\<^verbatim>\<open>libfreerdp/core/tpkt.c\<close>) and the
  class 0 X.224 TPDU header (\<^verbatim>\<open>libfreerdp/core/tpdu.c\<close>). Readers return \<open>None\<close> as their
  value for \<^verbatim>\<open>FALSE\<close>; the stream comes back as the C code leaves it in both cases.
\<close>

section \<open>TPKT\<close>

definition tpkt_verify_header :: "wStream \<Rightarrow> bool option" where
  "tpkt_verify_header s = do { version \<leftarrow> Stream_Peek_UINT8 s; Some (version = 3) }"

definition tpkt_read_header :: "wStream \<Rightarrow> (u16 option \<times> wStream) option" where
  "tpkt_read_header s =
     (if Stream_GetRemainingLength s < 1 then Some (None, s)
      else do {
        version \<leftarrow> Stream_Peek_UINT8 s;
        (if version = 3 then
           if Stream_GetRemainingLength s < 4 then Some (None, s)
           else do {
             let s = Stream_Seek s 2;
             (len, s) \<leftarrow> Stream_Read_UINT16_BE s;
             (if unat len < 7 then Some (None, s)
              else if add64 (Stream_GetRemainingLength s) 4 < unat len then Some (None, s)
              else Some (Some len, s)) }
         else Some (Some 0, s)) })"

definition tpkt_ensure_stream_consumed :: "wStream \<Rightarrow> bool" where
  "tpkt_ensure_stream_consumed s = (if 0 < Stream_GetRemainingLength s then False else True)"

definition tpkt_write_header :: "wStream \<Rightarrow> u16 \<Rightarrow> (bool \<times> wStream) option" where
  "tpkt_write_header s len =
     (if Stream_GetRemainingCapacity s < 4 then Some (False, s)
      else do {
        s \<leftarrow> Stream_Write_UINT8 s 3;
        s \<leftarrow> Stream_Write_UINT8 s 0;
        s \<leftarrow> Stream_Write_UINT16_BE s len;
        Some (True, s) })"

section \<open>X.224 TPDU\<close>

definition X224_TPDU_CONNECTION_REQUEST :: byte where "X224_TPDU_CONNECTION_REQUEST = 0xE0"
definition X224_TPDU_CONNECTION_CONFIRM :: byte where "X224_TPDU_CONNECTION_CONFIRM = 0xD0"
definition X224_TPDU_DISCONNECT_REQUEST :: byte where "X224_TPDU_DISCONNECT_REQUEST = 0x80"
definition X224_TPDU_DATA :: byte where "X224_TPDU_DATA = 0xF0"

lemmas x224_defs = X224_TPDU_CONNECTION_REQUEST_def X224_TPDU_CONNECTION_CONFIRM_def
  X224_TPDU_DISCONNECT_REQUEST_def X224_TPDU_DATA_def

text \<open>The value is the pair of the code and the length indicator.\<close>

definition tpdu_read_header :: "wStream \<Rightarrow> u16 \<Rightarrow> ((byte \<times> byte) option \<times> wStream) option" where
  "tpdu_read_header s tpktlength =
     (if Stream_GetRemainingLength s < 3 then Some (None, s)
      else do {
        (li, s) \<leftarrow> Stream_Read_UINT8 s;
        (code, s) \<leftarrow> Stream_Read_UINT8 s;
        (if unat tpktlength < unat li + 4 then Some (None, s)
         else if code = X224_TPDU_DATA then Some (Some (code, li), Stream_Seek s 1)
         else case Stream_SafeSeek s 5 of
           (True, s) \<Rightarrow> Some (Some (code, li), s)
         | (False, s) \<Rightarrow> Some (None, s)) })"

definition tpdu_write_header :: "wStream \<Rightarrow> u16 \<Rightarrow> byte \<Rightarrow> wStream option" where
  "tpdu_write_header s len code = do {
     s \<leftarrow> Stream_Write_UINT8 s (ucast len);
     s \<leftarrow> Stream_Write_UINT8 s code;
     (if code = X224_TPDU_DATA then Stream_Write_UINT8 s 0x80
      else do {
        s \<leftarrow> Stream_Write_UINT16 s 0;
        s \<leftarrow> Stream_Write_UINT16 s 0;
        Stream_Write_UINT8 s 0 }) }"

definition tpdu_read_connection_request :: "wStream \<Rightarrow> u16 \<Rightarrow> (byte option \<times> wStream) option" where
  "tpdu_read_connection_request s tpktlength = do {
     (h, s) \<leftarrow> tpdu_read_header s tpktlength;
     (case h of None \<Rightarrow> Some (None, s)
      | Some (code, li) \<Rightarrow>
          if code \<noteq> X224_TPDU_CONNECTION_REQUEST then Some (None, s) else Some (Some li, s)) }"

definition tpdu_write_connection_request :: "wStream \<Rightarrow> u16 \<Rightarrow> wStream option" where
  "tpdu_write_connection_request s len = tpdu_write_header s len X224_TPDU_CONNECTION_REQUEST"

definition tpdu_read_connection_confirm :: "wStream \<Rightarrow> u16 \<Rightarrow> (byte option \<times> wStream) option" where
  "tpdu_read_connection_confirm s tpktlength = do {
     let position = Stream_GetPosition s;
     (h, s) \<leftarrow> tpdu_read_header s tpktlength;
     (case h of None \<Rightarrow> Some (None, s)
      | Some (code, li) \<Rightarrow>
          if code \<noteq> X224_TPDU_CONNECTION_CONFIRM then Some (None, s)
          else let bytes_read = sub64 (sub64 (Stream_GetPosition s) position) 1
            in if sub64 (unat li) bytes_read \<le> Stream_GetRemainingLength s
               then Some (Some li, s) else Some (None, s)) }"

definition tpdu_write_connection_confirm :: "wStream \<Rightarrow> u16 \<Rightarrow> wStream option" where
  "tpdu_write_connection_confirm s len = tpdu_write_header s len X224_TPDU_CONNECTION_CONFIRM"

definition tpdu_write_disconnect_request :: "wStream \<Rightarrow> u16 \<Rightarrow> wStream option" where
  "tpdu_write_disconnect_request s len = tpdu_write_header s len X224_TPDU_DISCONNECT_REQUEST"

definition tpdu_write_data :: "wStream \<Rightarrow> wStream option" where
  "tpdu_write_data s = tpdu_write_header s 2 X224_TPDU_DATA"

definition tpdu_read_data :: "wStream \<Rightarrow> u16 \<Rightarrow> (u16 option \<times> wStream) option" where
  "tpdu_read_data s tpktlength = do {
     (h, s) \<leftarrow> tpdu_read_header s tpktlength;
     (case h of None \<Rightarrow> Some (None, s)
      | Some (code, li) \<Rightarrow> if code \<noteq> X224_TPDU_DATA then Some (None, s) else Some (Some (ucast li), s)) }"

section \<open>Properties\<close>

lemma tpkt_read_header_run:
  assumes w: "wf_stream s"
  shows "run_ok (tpkt_read_header s) (\<lambda>r s'. wf_stream s' \<and> s_buffer s' = s_buffer s \<and>
    (case r of None \<Rightarrow> True
     | Some len \<Rightarrow>
        if rest s ! 0 = 3 then s' = Stream_Seek s 4 \<and> 7 \<le> unat len \<and> unat len \<le> avail s
          \<and> len = push_bit 8 (ucast (rest s ! 2)) + ucast (rest s ! 3)
        else s' = s \<and> len = 0))"
proof -
  have "add64 (avail s - 4) 4 = avail s" if "4 \<le> avail s"
    using avail_bound [OF w] that by simp
  then show ?thesis
    using w by (auto simp: tpkt_read_header_def stream_simps run_simps Let_def)
qed

lemma tpdu_read_header_run:
  assumes w: "wf_stream s"
  shows "run_ok (tpdu_read_header s n) (\<lambda>r s'. wf_stream s' \<and> s_buffer s' = s_buffer s \<and>
    (case r of None \<Rightarrow> True
     | Some (code, li) \<Rightarrow> li = rest s ! 0 \<and> code = rest s ! 1 \<and> unat li + 4 \<le> unat n \<and>
         (if code = X224_TPDU_DATA then 3 else 7) \<le> avail s \<and>
         s' = Stream_Seek s (if code = X224_TPDU_DATA then 3 else 7)))"
  using w by (auto simp: tpdu_read_header_def stream_simps run_simps)

lemma tpdu_read_connection_request_run:
  assumes w: "wf_stream s"
  shows "run_ok (tpdu_read_connection_request s n) (\<lambda>r s'. wf_stream s' \<and> s_buffer s' = s_buffer s)"
  unfolding tpdu_read_connection_request_def run_simps
  by (rule run_ok_mono [OF tpdu_read_header_run [OF w]]) (auto split: option.splits if_splits)

lemma tpdu_read_data_run:
  assumes w: "wf_stream s"
  shows "run_ok (tpdu_read_data s n) (\<lambda>r s'. wf_stream s' \<and> s_buffer s' = s_buffer s \<and>
    (case r of None \<Rightarrow> True | Some li \<Rightarrow> s' = Stream_Seek s 3 \<and> 3 \<le> avail s))"
  unfolding tpdu_read_data_def run_simps
  by (rule run_ok_mono [OF tpdu_read_header_run [OF w]]) (auto split: option.splits if_splits)

lemma safe_tpdu_read_header: "safe_reader (\<lambda>s. tpdu_read_header s n)"
  by (rule safe_readerI) (auto simp: tpdu_read_header_def stream_simps run_simps)

text \<open>
  A connection confirm is accepted only if everything its length indicator announces is in the
  stream, and an indicator below the fixed part is refused (the 64-bit difference wraps).
\<close>

lemma tpdu_read_connection_confirm_run:
  assumes w: "wf_stream s" and b: "avail s < 2 ^ 63"
  shows "run_ok (tpdu_read_connection_confirm s n) (\<lambda>r s'. wf_stream s' \<and> consumed s s' \<and>
    (case r of None \<Rightarrow> True
     | Some li \<Rightarrow> s' = Stream_Seek s 7 \<and> li = rest s ! 0 \<and> unat li + 4 \<le> unat n \<and> 6 \<le> unat li \<and> unat li + 1 \<le> avail s))"
proof -
  have li: "6 \<le> unat li \<and> unat li + 1 \<le> avail s"
    if "sub64 (unat (li::byte)) 6 \<le> avail s - 7" "7 \<le> avail s" for li
  proof (cases "unat li < 6")
    case True
    then have "2 ^ 63 \<le> sub64 (unat li) 6" by (subst sub64_wraps) simp_all
    with that b show ?thesis by simp
  next
    case False
    moreover have "unat li < 2 ^ 64" using unsigned_less [where 'a = nat, of li] by simp
    ultimately show ?thesis using that by simp
  qed
  have pos: "sub64 (sub64 (s_pointer s + 7) (s_pointer s)) (Suc 0) = 6"
    by (simp add: sub64_def)
  have c: "X224_TPDU_CONNECTION_CONFIRM \<noteq> X224_TPDU_DATA" by (simp add: x224_defs)
  show ?thesis
    unfolding tpdu_read_connection_confirm_def run_simps Let_def
    by (rule run_ok_mono [OF run_ok_conjI [OF tpdu_read_header_run [OF w] safe_readerD [OF safe_tpdu_read_header w]]])
       (auto simp: Stream_GetPosition_def pos stream_simps c dest!: li split: option.splits if_splits)
qed

lemma safe_tpkt_read_header: "safe_reader tpkt_read_header"
proof (rule safe_readerI)
  fix s assume w: "wf_stream s"
  show "run_ok (tpkt_read_header s) (\<lambda>_. consumed s)"
    using w by (auto simp: tpkt_read_header_def stream_simps run_simps Let_def)
qed

lemma safe_tpdu_read_data: "safe_reader (\<lambda>s. tpdu_read_data s n)"
  unfolding tpdu_read_data_def
  by (intro safe_bind safe_tpdu_read_header) (auto simp: safe_reader_def split: option.splits prod.splits)

section \<open>Writing and reading back\<close>

definition tpkt_enc :: "u16 \<Rightarrow> byte list" where
  "tpkt_enc n = [3, 0, ucast (drop_bit 8 n), ucast n]"

definition tpdu_enc :: "byte \<Rightarrow> byte \<Rightarrow> byte list" where
  "tpdu_enc li code = (if code = X224_TPDU_DATA then [li, code, 0x80] else [li, code, 0, 0, 0, 0, 0])"

lemma room_eq: "wf_cap s \<Longrightarrow> Stream_GetRemainingCapacity s = room s"
  by (auto simp: stream_simps room_def) (auto simp: wf_cap_def)

lemma tpkt_write_header_put [stream_simps]:
  "wf_cap s \<Longrightarrow> 4 \<le> room s \<Longrightarrow> tpkt_write_header s n = Some (True, put s (tpkt_enc n))"
  by (simp add: tpkt_write_header_def tpkt_enc_def room_eq del: remaining_capacity)
     (simp add: stream_simps)

lemma tpdu_write_header_put [stream_simps]:
  "wf_cap s \<Longrightarrow> length (tpdu_enc (ucast n) code) \<le> room s \<Longrightarrow>
   tpdu_write_header s n code = Some (put s (tpdu_enc (ucast n) code))"
  by (auto simp: tpdu_write_header_def tpdu_enc_def stream_simps)

lemma tpkt_read_header_rest [stream_simps]:
  assumes "7 \<le> unat n" "unat n = 4 + length r" "wf_stream s" "rest s = tpkt_enc n @ r"
  shows "tpkt_read_header s = Some (Some n, Stream_Seek s 4)"
proof -
  have a: "avail s = 4 + length r" using length_rest [OF assms(3)] assms(4) by (simp add: tpkt_enc_def)
  have "add64 (avail s - 4) 4 = avail s" using a avail_bound [OF assms(3)] by simp
  then show ?thesis using assms a
    by (simp add: tpkt_read_header_def tpkt_enc_def stream_simps Let_def)
qed

lemma tpdu_read_header_rest [stream_simps]:
  assumes "unat li + 4 \<le> unat n" "wf_stream s" "rest s = tpdu_enc li code @ r"
  shows "tpdu_read_header s n = Some (Some (code, li), Stream_Seek s (length (tpdu_enc li code)))"
  using assms length_rest [OF assms(2)]
  by (auto simp: tpdu_read_header_def tpdu_enc_def stream_simps split: if_splits)

lemma tpdu_read_data_rest [stream_simps]:
  assumes "6 \<le> unat n" "wf_stream s" "rest s = tpdu_enc 2 X224_TPDU_DATA @ r"
  shows "tpdu_read_data s n = Some (Some 2, Stream_Seek s 3)"
  using tpdu_read_header_rest [of 2 n s X224_TPDU_DATA r] assms
  by (simp add: tpdu_read_data_def tpdu_enc_def stream_simps)

interpretation tpdu: wire_codec "\<lambda>(code, li). unat li + 4 \<le> unat n" "\<lambda>(code, li). tpdu_enc li code"
    "\<lambda>(code, li) s. map_option (Pair True) (tpdu_write_header s (ucast li) code)"
    "\<lambda>s. tpdu_read_header s n" for n
proof unfold_locales
  have u: "(ucast (ucast li :: u16) :: byte) = li" for li :: byte
    by (rule bit_word_eqI) (auto simp: bit_simps dest: bit_imp_le_length)
  fix x :: "byte \<times> byte" and s
  assume "case x of (code, li) \<Rightarrow> unat li + 4 \<le> unat n" "wf_cap s" "length (case x of (code, li) \<Rightarrow> tpdu_enc li code) \<le> room s"
  then show "(case x of (code, li) \<Rightarrow> \<lambda>s. map_option (Pair True) (tpdu_write_header s (ucast li) code)) s =
      Some (True, put s (case x of (code, li) \<Rightarrow> tpdu_enc li code))"
    by (cases x) (simp add: stream_simps u)
next
  fix x :: "byte \<times> byte" and s r
  assume "case x of (code, li) \<Rightarrow> unat li + 4 \<le> unat n" "wf_stream s" "rest s = (case x of (code, li) \<Rightarrow> tpdu_enc li code) @ r"
  then show "tpdu_read_header s n = Some (Some x, Stream_Seek s (length (case x of (code, li) \<Rightarrow> tpdu_enc li code)))"
    by (cases x) (simp add: tpdu_read_header_rest)
qed

section \<open>Properties of the packet headers\<close>

text \<open>
  \<^verbatim>\<open>tpkt_read_header\<close> is safe on every well-formed stream, and a length it accepts for a TPKT
  packet is at least seven, is the big-endian value of the header, and does not exceed what is in
  the stream; four bytes are consumed. A packet with another version is left untouched with length 0.
\<close>

lemma tpkt_read_header_sound:
  assumes "wf_stream s"
  shows "run_ok (tpkt_read_header s) (\<lambda>r s'. wf_stream s' \<and> s_buffer s' = s_buffer s \<and>
    (case r of None \<Rightarrow> True
     | Some len \<Rightarrow>
        if rest s ! 0 = 3 then s' = Stream_Seek s 4 \<and> 7 \<le> unat len \<and> unat len \<le> avail s
          \<and> len = push_bit 8 (ucast (rest s ! 2)) + ucast (rest s ! 3)
        else s' = s \<and> len = 0))"
  using assms by (rule tpkt_read_header_run)

text \<open>
  \<^verbatim>\<open>tpdu_read_connection_confirm\<close> accepts a confirmation only when its length indicator covers
  the fixed part and everything it announces is in the stream (an indicator below the fixed part is
  refused although the difference wraps), so a caller may read the announced bytes.
\<close>

lemma tpdu_connection_confirm_bounded:
  assumes "wf_stream s" "avail s < 2 ^ 63"
  shows "run_ok (tpdu_read_connection_confirm s n) (\<lambda>r s'. wf_stream s' \<and> s_buffer s' = s_buffer s \<and>
    (case r of None \<Rightarrow> True
     | Some li \<Rightarrow> s' = Stream_Seek s 7 \<and> 6 \<le> unat li \<and> unat li + 1 \<le> avail s))"
  by (rule run_ok_mono [OF tpdu_read_connection_confirm_run [OF assms]]) (auto simp: consumed_buffer split: option.splits)

end
