(* ===== verification/Per.thy ===== *)
theory Per
  imports Stream
begin

text \<open>
  The PER (packed encoding rules) primitives of \<^verbatim>\<open>libfreerdp/crypto/per.c\<close>, which the MCS and
  GCC layers use. Writers grow the stream with \<open>Stream_EnsureRemainingCapacity\<close> and report
  failure; readers check the remaining length before every access.
\<close>

definition per_read_length :: "wStream \<Rightarrow> (u16 option \<times> wStream) option" where
  "per_read_length s =
     (if Stream_GetRemainingLength s < 1 then Some (None, s)
      else do {
        (b, s) \<leftarrow> Stream_Read_UINT8 s;
        (if b AND 0x80 \<noteq> 0 then
           if Stream_GetRemainingLength s < 1 then Some (None, s)
           else do {
             let b = b AND NOT 0x80;
             let len = push_bit 8 (ucast b);
             (b, s) \<leftarrow> Stream_Read_UINT8 s;
             Some (Some (len + ucast b), s) }
         else Some (Some (ucast b), s)) })"

definition per_write_length :: "allocator \<Rightarrow> wStream \<Rightarrow> u16 \<Rightarrow> (bool \<times> wStream) option" where
  "per_write_length malloc s len =
     (if len > 0x7F then do {
        (ok, s) \<leftarrow> Stream_EnsureRemainingCapacity malloc s 2;
        (if \<not> ok then Some (False, s)
         else do { s \<leftarrow> Stream_Write_UINT16_BE s (len OR 0x8000); Some (True, s) }) }
      else do {
        (ok, s) \<leftarrow> Stream_EnsureRemainingCapacity malloc s 1;
        (if \<not> ok then Some (False, s)
         else do { s \<leftarrow> Stream_Write_UINT8 s (ucast len); Some (True, s) }) })"

definition per_read_choice :: "wStream \<Rightarrow> (byte option \<times> wStream) option" where
  "per_read_choice s =
     (if Stream_GetRemainingLength s < 1 then Some (None, s)
      else do { (choice, s) \<leftarrow> Stream_Read_UINT8 s; Some (Some choice, s) })"

definition per_write_choice :: "allocator \<Rightarrow> wStream \<Rightarrow> byte \<Rightarrow> (bool \<times> wStream) option" where
  "per_write_choice malloc s choice = do {
     (ok, s) \<leftarrow> Stream_EnsureRemainingCapacity malloc s 1;
     (if \<not> ok then Some (False, s)
      else do { s \<leftarrow> Stream_Write_UINT8 s choice; Some (True, s) }) }"

definition per_read_selection :: "wStream \<Rightarrow> (byte option \<times> wStream) option" where
  "per_read_selection s =
     (if Stream_GetRemainingLength s < 1 then Some (None, s)
      else do { (selection, s) \<leftarrow> Stream_Read_UINT8 s; Some (Some selection, s) })"

definition per_write_selection :: "allocator \<Rightarrow> wStream \<Rightarrow> byte \<Rightarrow> (bool \<times> wStream) option" where
  "per_write_selection malloc s selection = do {
     (ok, s) \<leftarrow> Stream_EnsureRemainingCapacity malloc s 1;
     (if \<not> ok then Some (False, s)
      else do { s \<leftarrow> Stream_Write_UINT8 s selection; Some (True, s) }) }"

definition per_read_number_of_sets :: "wStream \<Rightarrow> (byte option \<times> wStream) option" where
  "per_read_number_of_sets s =
     (if Stream_GetRemainingLength s < 1 then Some (None, s)
      else do { (number, s) \<leftarrow> Stream_Read_UINT8 s; Some (Some number, s) })"

definition per_write_number_of_sets :: "allocator \<Rightarrow> wStream \<Rightarrow> byte \<Rightarrow> (bool \<times> wStream) option" where
  "per_write_number_of_sets malloc s number = do {
     (ok, s) \<leftarrow> Stream_EnsureRemainingCapacity malloc s 1;
     (if \<not> ok then Some (False, s)
      else do { s \<leftarrow> Stream_Write_UINT8 s number; Some (True, s) }) }"

definition per_read_padding :: "wStream \<Rightarrow> u16 \<Rightarrow> (bool \<times> wStream) option" where
  "per_read_padding s len =
     (if Stream_GetRemainingLength s < unat len then Some (False, s)
      else Some (True, Stream_Seek s (unat len)))"

definition per_write_padding :: "allocator \<Rightarrow> wStream \<Rightarrow> u16 \<Rightarrow> (bool \<times> wStream) option" where
  "per_write_padding malloc s len = do {
     (ok, s) \<leftarrow> Stream_EnsureRemainingCapacity malloc s (unat len);
     (if \<not> ok then Some (False, s)
      else do { s \<leftarrow> Stream_Zero s (unat len); Some (True, s) }) }"

definition per_read_integer :: "wStream \<Rightarrow> (u32 option \<times> wStream) option" where
  "per_read_integer s = do {
     (len, s) \<leftarrow> per_read_length s;
     (case len of
        None \<Rightarrow> Some (None, s)
      | Some len \<Rightarrow>
          if Stream_GetRemainingLength s < unat len then Some (None, s)
          else if len = 0 then Some (Some 0, s)
          else if len = 1 then do { (v, s) \<leftarrow> Stream_Read_UINT8 s; Some (Some (ucast v), s) }
          else if len = 2 then do { (v, s) \<leftarrow> Stream_Read_UINT16_BE s; Some (Some (ucast v), s) }
          else Some (None, s)) }"

definition per_write_integer :: "allocator \<Rightarrow> wStream \<Rightarrow> u32 \<Rightarrow> (bool \<times> wStream) option" where
  "per_write_integer malloc s integer =
     (if integer \<le> 0xFF then do {
        (ok, s) \<leftarrow> per_write_length malloc s 1;
        (if \<not> ok then Some (False, s) else do {
           (ok, s) \<leftarrow> Stream_EnsureRemainingCapacity malloc s 1;
           (if \<not> ok then Some (False, s)
            else do { s \<leftarrow> Stream_Write_UINT8 s (ucast integer); Some (True, s) }) }) }
      else if integer \<le> 0xFFFF then do {
        (ok, s) \<leftarrow> per_write_length malloc s 2;
        (if \<not> ok then Some (False, s) else do {
           (ok, s) \<leftarrow> Stream_EnsureRemainingCapacity malloc s 2;
           (if \<not> ok then Some (False, s)
            else do { s \<leftarrow> Stream_Write_UINT16_BE s (ucast integer); Some (True, s) }) }) }
      else if integer \<le> 0xFFFFFFFF then do {
        (ok, s) \<leftarrow> per_write_length malloc s 4;
        (if \<not> ok then Some (False, s) else do {
           (ok, s) \<leftarrow> Stream_EnsureRemainingCapacity malloc s 4;
           (if \<not> ok then Some (False, s)
            else do { s \<leftarrow> Stream_Write_UINT32_BE s integer; Some (True, s) }) }) }
      else Some (True, s))"

definition per_read_integer16 :: "wStream \<Rightarrow> u16 \<Rightarrow> (u16 option \<times> wStream) option" where
  "per_read_integer16 s mn =
     (if Stream_GetRemainingLength s < 2 then Some (None, s)
      else do {
        (v, s) \<leftarrow> Stream_Read_UINT16_BE s;
        (if 0xFFFF < unat v + unat mn then Some (None, s) else Some (Some (v + mn), s)) })"

definition per_write_integer16 :: "allocator \<Rightarrow> wStream \<Rightarrow> u16 \<Rightarrow> u16 \<Rightarrow> (bool \<times> wStream) option" where
  "per_write_integer16 malloc s integer mn = do {
     (ok, s) \<leftarrow> Stream_EnsureRemainingCapacity malloc s 2;
     (if \<not> ok then Some (False, s)
      else do { s \<leftarrow> Stream_Write_UINT16_BE s (integer - mn); Some (True, s) }) }"

definition per_read_enumerated :: "wStream \<Rightarrow> byte \<Rightarrow> (byte option \<times> wStream) option" where
  "per_read_enumerated s cnt =
     (if Stream_GetRemainingLength s < 1 then Some (None, s)
      else do {
        (v, s) \<leftarrow> Stream_Read_UINT8 s;
        (if unat cnt < unat v + 1 then Some (None, s) else Some (Some v, s)) })"

definition per_write_enumerated :: "allocator \<Rightarrow> wStream \<Rightarrow> byte \<Rightarrow> byte \<Rightarrow> (bool \<times> wStream) option" where
  "per_write_enumerated malloc s enumerated cnt = do {
     (ok, s) \<leftarrow> Stream_EnsureRemainingCapacity malloc s 1;
     (if \<not> ok then Some (False, s)
      else do { s \<leftarrow> Stream_Write_UINT8 s enumerated; Some (True, s) }) }"

text \<open>An object identifier is its six arcs; the first two share one byte on the wire.\<close>

definition per_read_object_identifier :: "wStream \<Rightarrow> byte list \<Rightarrow> (bool \<times> wStream) option" where
  "per_read_object_identifier s oid = do {
     (len, s) \<leftarrow> per_read_length s;
     (case len of
        None \<Rightarrow> Some (False, s)
      | Some len \<Rightarrow>
          if len \<noteq> 5 then Some (False, s)
          else if Stream_GetRemainingLength s < unat len then Some (False, s)
          else do {
            (t12, s) \<leftarrow> Stream_Read_UINT8 s;
            (o2, s) \<leftarrow> Stream_Read_UINT8 s;
            (o3, s) \<leftarrow> Stream_Read_UINT8 s;
            (o4, s) \<leftarrow> Stream_Read_UINT8 s;
            (o5, s) \<leftarrow> Stream_Read_UINT8 s;
            Some (t12 div 40 = oid ! 0 \<and> t12 mod 40 = oid ! 1 \<and> o2 = oid ! 2 \<and> o3 = oid ! 3 \<and>
                  o4 = oid ! 4 \<and> o5 = oid ! 5, s) }) }"

definition per_write_object_identifier :: "allocator \<Rightarrow> wStream \<Rightarrow> byte list \<Rightarrow> (bool \<times> wStream) option" where
  "per_write_object_identifier malloc s oid = do {
     let t12 = oid ! 0 * 40 + oid ! 1;
     (ok, s) \<leftarrow> Stream_EnsureRemainingCapacity malloc s 6;
     (if \<not> ok then Some (False, s) else do {
        s \<leftarrow> Stream_Write_UINT8 s 5;
        s \<leftarrow> Stream_Write_UINT8 s t12;
        s \<leftarrow> Stream_Write_UINT8 s (oid ! 2);
        s \<leftarrow> Stream_Write_UINT8 s (oid ! 3);
        s \<leftarrow> Stream_Write_UINT8 s (oid ! 4);
        s \<leftarrow> Stream_Write_UINT8 s (oid ! 5);
        Some (True, s) }) }"

text \<open>
  The comparison loop stops at the first difference; running past the end of either array is a
  fault.
\<close>

fun octets_cmp_loop :: "byte list \<Rightarrow> byte list \<Rightarrow> nat \<Rightarrow> bool option" where
  "octets_cmp_loop _ _ 0 = Some True"
| "octets_cmp_loop (x # xs) (y # ys) (Suc n) = (if x \<noteq> y then Some False else octets_cmp_loop xs ys n)"
| "octets_cmp_loop _ _ (Suc n) = None"

definition per_read_octet_string :: "wStream \<Rightarrow> byte list \<Rightarrow> u16 \<Rightarrow> u16 \<Rightarrow> (bool \<times> wStream) option" where
  "per_read_octet_string s oct_str len mn = do {
     (mlength, s) \<leftarrow> per_read_length s;
     (case mlength of
        None \<Rightarrow> Some (False, s)
      | Some mlength \<Rightarrow>
          if unat mlength + unat mn \<noteq> unat len then Some (False, s)
          else if Stream_GetRemainingLength s < unat len then Some (False, s)
          else do {
            let a_oct_str = drop (s_pointer s) (s_buffer s);
            let s = Stream_Seek s (unat len);
            eq \<leftarrow> octets_cmp_loop a_oct_str oct_str (unat len);
            Some (eq, s) }) }"

fun write_octets_loop :: "wStream \<Rightarrow> byte list \<Rightarrow> nat \<Rightarrow> wStream option" where
  "write_octets_loop s _ 0 = Some s"
| "write_octets_loop s (x # xs) (Suc n) = do { s \<leftarrow> Stream_Write_UINT8 s x; write_octets_loop s xs n }"
| "write_octets_loop s [] (Suc n) = None"

definition per_write_octet_string ::
  "allocator \<Rightarrow> wStream \<Rightarrow> byte list \<Rightarrow> u16 \<Rightarrow> u16 \<Rightarrow> (bool \<times> wStream) option" where
  "per_write_octet_string malloc s oct_str len mn = do {
     let mlength = (if mn \<le> len then len - mn else mn);
     (ok, s) \<leftarrow> per_write_length malloc s mlength;
     (if \<not> ok then Some (False, s) else do {
        (ok, s) \<leftarrow> Stream_EnsureRemainingCapacity malloc s (unat len);
        (if \<not> ok then Some (False, s)
         else do { s \<leftarrow> write_octets_loop s oct_str (unat len); Some (True, s) }) }) }"

text \<open>
  The length is computed in \<^verbatim>\<open>int\<close> and the remaining length is cast to \<^verbatim>\<open>int\<close>; a negative
  \<^verbatim>\<open>min\<close> can make the seek go backwards.
\<close>

definition per_read_numeric_string :: "wStream \<Rightarrow> int \<Rightarrow> (bool \<times> wStream) option" where
  "per_read_numeric_string s mn = do {
     (mlength, s) \<leftarrow> per_read_length s;
     (case mlength of
        None \<Rightarrow> Some (False, s)
      | Some mlength \<Rightarrow>
          let len = (uint mlength + mn + 1) sdiv 2
          in if sint (word_of_nat (Stream_GetRemainingLength s) :: u32) < len then Some (False, s)
             else if 0 \<le> len then Some (True, Stream_Seek s (nat len))
             else do { s \<leftarrow> Stream_Rewind s (nat (- len)); Some (True, s) }) }"

definition num_digit :: "byte \<Rightarrow> byte" where
  "num_digit c = word_of_int ((uint c - 0x30) smod 10)"

text \<open>
  The loop index is a 16-bit word that advances by two, so it wraps for a length of 65535; the
  loop then writes until it leaves the buffer.
\<close>

partial_function (option) numeric_loop :: "wStream \<Rightarrow> byte list \<Rightarrow> u16 \<Rightarrow> u16 \<Rightarrow> wStream option" where
  "numeric_loop s num_str len i =
     (if i < len then do {
        c1 \<leftarrow> (if unat i < length num_str then Some (num_str ! unat i) else None);
        c2 \<leftarrow> (if unat i + 1 < unat len then
                 (if unat i + 1 < length num_str then Some (num_str ! (unat i + 1)) else None)
               else Some 0x30);
        s \<leftarrow> Stream_Write_UINT8 s (push_bit 4 (num_digit c1) OR num_digit c2);
        numeric_loop s num_str len (i + 2) }
      else Some s)"

definition per_write_numeric_string ::
  "allocator \<Rightarrow> wStream \<Rightarrow> byte list \<Rightarrow> u16 \<Rightarrow> u16 \<Rightarrow> (bool \<times> wStream) option" where
  "per_write_numeric_string malloc s num_str len mn = do {
     let mlength = (if mn \<le> len then len - mn else mn);
     (ok, s) \<leftarrow> per_write_length malloc s mlength;
     (if \<not> ok then Some (False, s) else do {
        (ok, s) \<leftarrow> Stream_EnsureRemainingCapacity malloc s (unat len);
        (if \<not> ok then Some (False, s)
         else do { s \<leftarrow> numeric_loop s num_str len 0; Some (True, s) }) }) }"

section \<open>Memory safety of the readers\<close>

lemma safe_per_read_length [intro]: "safe_reader per_read_length"
  by (rule safe_readerI) (auto simp: per_read_length_def stream_simps run_simps Let_def)

lemma safe_per_read_choice [intro]: "safe_reader per_read_choice"
  by (rule safe_readerI) (auto simp: per_read_choice_def stream_simps run_simps)

lemma safe_per_read_selection [intro]: "safe_reader per_read_selection"
  by (rule safe_readerI) (auto simp: per_read_selection_def stream_simps run_simps)

lemma safe_per_read_number_of_sets [intro]: "safe_reader per_read_number_of_sets"
  by (rule safe_readerI) (auto simp: per_read_number_of_sets_def stream_simps run_simps)

lemma safe_per_read_padding [intro]: "safe_reader (\<lambda>s. per_read_padding s n)"
  by (rule safe_readerI) (auto simp: per_read_padding_def stream_simps run_simps)

lemma safe_per_read_integer16 [intro]: "safe_reader (\<lambda>s. per_read_integer16 s mn)"
  by (rule safe_readerI) (auto simp: per_read_integer16_def stream_simps run_simps)

lemma safe_per_read_enumerated [intro]: "safe_reader (\<lambda>s. per_read_enumerated s cnt)"
  by (rule safe_readerI) (auto simp: per_read_enumerated_def stream_simps run_simps)

lemma safe_per_read_integer [intro]: "safe_reader per_read_integer"
  unfolding per_read_integer_def
  by (rule safe_bind [OF safe_per_read_length], rule safe_case_option [OF safe_return], rule safe_readerI)
     (auto simp: stream_simps run_simps)

lemma safe_per_read_object_identifier [intro]: "safe_reader (\<lambda>s. per_read_object_identifier s oid)"
  unfolding per_read_object_identifier_def
  by (rule safe_bind [OF safe_per_read_length], rule safe_case_option [OF safe_return], rule safe_readerI)
     (auto simp: stream_simps run_simps)

lemma octets_cmp_loop_eq:
  "n \<le> length xs \<Longrightarrow> n \<le> length ys \<Longrightarrow> octets_cmp_loop xs ys n = Some (take n xs = take n ys)"
  by (induction xs ys n rule: octets_cmp_loop.induct) auto

lemma safe_per_read_octet_string:
  "unat len \<le> length oct_str \<Longrightarrow> safe_reader (\<lambda>s. per_read_octet_string s oct_str len mn)"
  unfolding per_read_octet_string_def
  by (rule safe_bind [OF safe_per_read_length], rule safe_case_option [OF safe_return], rule safe_readerI)
     (auto simp: stream_simps run_simps Let_def octets_cmp_loop_eq buffer_avail)

text \<open>
  A numeric string: the bytes left are compared as a signed 32-bit integer, which is at most the
  number there is, so a length that is not negative is never skipped beyond the end.
\<close>

lemma sint32_le: "sint (word_of_nat n :: u32) \<le> int n"
proof -
  have "signed_take_bit 31 k \<le> k" if "0 \<le> k" for k :: int
    using that signed_take_bit_int_less_eq [of 31 k] signed_take_bit_int_eq_self [of 31 k] by (cases "2 ^ 31 \<le> k") auto
  then have "sint (word_of_nat n :: u32) \<le> uint (word_of_nat n :: u32)" by (simp add: sint_uint)
  also have "\<dots> \<le> int n" by (simp add: unsigned_of_nat take_bit_eq_mod)
  finally show ?thesis .
qed

lemma safe_per_read_numeric_string:
  assumes "0 \<le> mn"
  shows "safe_reader (\<lambda>s. per_read_numeric_string s mn)"
proof -
  have "0 \<le> (uint (m :: u16) + mn + 1) sdiv 2" for m
    using assms by (simp add: signed_divide_int_def sgn_if pos_imp_zdiv_nonneg_iff)
  then show ?thesis unfolding per_read_numeric_string_def
    by (intro safe_bind [OF safe_per_read_length] safe_case_option safe_return, intro safe_readerI)
       (auto simp: stream_simps run_simps Let_def not_less intro!: consumed_Seek dest: order_trans [OF _ sint32_le])
qed

section \<open>Wire codecs\<close>

text \<open>The encodings, as lists of bytes.\<close>

definition per_length_enc :: "u16 \<Rightarrow> byte list" where
  "per_length_enc n =
     (if n > 0x7F then [ucast (drop_bit 8 n) OR 0x80, ucast n] else [ucast n])"

definition per_integer_enc :: "u32 \<Rightarrow> byte list" where
  "per_integer_enc n =
     (if n \<le> 0xFF then [1, ucast n] else [2, ucast (drop_bit 8 n), ucast n])"

definition per_integer16_enc :: "u16 \<Rightarrow> u16 \<Rightarrow> byte list" where
  "per_integer16_enc mn n = [ucast (drop_bit 8 (n - mn)), ucast (n - mn)]"

lemma high_bit_enc:
  "(ucast (n OR 0x80 :: u16) :: byte) = ucast n OR 0x80"
  "(ucast (n OR 0x8000 :: u16) :: byte) = ucast n"
  by (rule bit_word_eqI, auto simp: bit_simps dest: bit_imp_le_length)+

lemma per_length_decode:
  assumes "n < 0x8000"
  shows "push_bit 8 (ucast ((ucast (drop_bit 8 n) OR 0x80 :: byte) AND NOT 0x80)) + ucast (ucast n :: byte) = (n :: u16)"
proof -
  have "unat n < 2 ^ 15" using assms by (simp add: word_less_nat_alt)
  then have "\<not> bit n 15" by (rule not_bit_of_small) simp
  then have "(ucast (drop_bit 8 n) OR 0x80 :: byte) AND NOT 0x80 = ucast (drop_bit 8 n)"
    by (intro bit_word_eqI) (auto simp: bit_simps dest: bit_imp_le_length)
  then show ?thesis by simp
qed

lemma high_bit_test: "(x OR 0x80) AND 0x80 = (0x80 :: byte)"
  by (rule bit_word_eqI) (auto simp: bit_simps)

lemma low_bit_test: "n \<le> 0x7F \<Longrightarrow> (ucast n :: byte) AND 0x80 = 0" for n :: u16
proof -
  assume n: "n \<le> 0x7F"
  have "unat n < 2 ^ 7" using n by (simp add: word_le_nat_alt)
  then have "\<not> bit n 7" by (rule not_bit_of_small) simp
  then show ?thesis by (intro bit_word_eqI) (auto simp: bit_simps)
qed

lemma per_write_length_put [stream_simps]:
  "wf_cap s \<Longrightarrow> length (per_length_enc n) \<le> room s \<Longrightarrow>
   per_write_length malloc s n = Some (True, put s (per_length_enc n))"
  by (auto simp: per_write_length_def per_length_enc_def stream_simps high_bit_enc)

lemma rest_avail: "wf_stream s \<Longrightarrow> rest s = bs @ r \<Longrightarrow> avail s = length bs + length r"
  using length_rest [of s] by simp

lemma per_read_length_rest [stream_simps]:
  assumes "n < 0x8000" "wf_stream s" "rest s = per_length_enc n @ r"
  shows "per_read_length s = Some (Some n, Stream_Seek s (length (per_length_enc n)))"
proof (cases "n > 0x7F")
  case True
  then have "rest s = [ucast (drop_bit 8 n) OR 0x80, ucast n] @ r" "avail s = 2 + length r"
    using assms rest_avail [OF assms(2,3)] by (simp_all add: per_length_enc_def)
  then show ?thesis using True assms(2) per_length_decode [OF assms(1)]
    by (simp add: per_read_length_def per_length_enc_def stream_simps high_bit_test Let_def)
next
  case False
  then have "rest s = [ucast n] @ r" "avail s = 1 + length r"
    using assms rest_avail [OF assms(2,3)] by (simp_all add: per_length_enc_def)
  moreover have "(ucast (ucast n :: byte) :: u16) = n"
    using False by (intro ucast_byte_small) (simp add: word_le_nat_alt not_less)
  ultimately show ?thesis using False assms(2)
    by (simp add: per_read_length_def per_length_enc_def stream_simps low_bit_test)
qed

interpretation per_length: wire_codec "\<lambda>n. n < 0x8000" per_length_enc
    "\<lambda>n s. per_write_length malloc s n" per_read_length
  for malloc
  by unfold_locales (auto simp: stream_simps)

lemma per_write_integer_put [stream_simps]:
  "n \<le> 0xFFFF \<Longrightarrow> wf_cap s \<Longrightarrow> length (per_integer_enc n) \<le> room s \<Longrightarrow>
   per_write_integer malloc s n = Some (True, put s (per_integer_enc n))"
  by (auto simp: per_write_integer_def per_integer_enc_def stream_simps per_length_enc_def ucast_via_u16
      split: if_splits)

lemma per_read_length_short:
  "wf_stream s \<Longrightarrow> rest s = ucast n # r \<Longrightarrow> n \<le> 0x7F \<Longrightarrow> per_read_length s = Some (Some n, Stream_Seek s 1)"
  using per_read_length_rest [of n s r]
  by (auto simp: per_length_enc_def word_le_nat_alt word_less_nat_alt)

lemma per_read_integer_rest [stream_simps]:
  assumes "n \<le> 0xFFFF" "wf_stream s" "rest s = per_integer_enc n @ r"
  shows "per_read_integer s = Some (Some n, Stream_Seek s (length (per_integer_enc n)))"
proof (cases "n \<le> 0xFF")
  case True
  then have rs: "rest s = 1 # ucast n # r" "avail s = 2 + length r"
    using assms rest_avail [OF assms(2,3)] by (simp_all add: per_integer_enc_def)
  have "(ucast (ucast n :: byte) :: u32) = n"
    using True by (intro ucast_byte_small) (simp add: word_le_nat_alt)
  then show ?thesis using True assms(2) rs per_read_length_short [of s 1]
    by (simp add: per_read_integer_def per_integer_enc_def stream_simps)
next
  case False
  then have rs: "rest s = 2 # ucast (drop_bit 8 n) # ucast n # r" "avail s = 3 + length r"
    using assms rest_avail [OF assms(2,3)] by (simp_all add: per_integer_enc_def)
  have n: "(ucast (ucast n :: u16) :: u32) = n"
    using assms(1) by (intro ucast_u16_small) (simp add: word_le_nat_alt)
  have "push_bit 8 (ucast (ucast (drop_bit 8 n) :: byte)) + ucast (ucast n :: byte) = (ucast n :: u16)"
    using byte_join16 [of "ucast n"] by (simp only: ucast_via_u16)
  then show ?thesis using False assms(2) rs per_read_length_short [of s 2] n
    by (simp add: per_read_integer_def per_integer_enc_def stream_simps)
qed

interpretation per_integer: wire_codec "\<lambda>n. n \<le> 0xFFFF" per_integer_enc
    "\<lambda>n s. per_write_integer malloc s n" per_read_integer
  for malloc
  by unfold_locales (auto simp: stream_simps)

lemma per_write_integer16_put [stream_simps]:
  "wf_cap s \<Longrightarrow> 2 \<le> room s \<Longrightarrow>
   per_write_integer16 malloc s n mn = Some (True, put s (per_integer16_enc mn n))"
  by (simp add: per_write_integer16_def per_integer16_enc_def stream_simps)

lemma per_read_integer16_rest [stream_simps]:
  assumes "mn \<le> n" "wf_stream s" "rest s = per_integer16_enc mn n @ r"
  shows "per_read_integer16 s mn = Some (Some n, Stream_Seek s 2)"
proof -
  have "unat (n - mn) + unat mn = unat n"
    using assms(1) by (simp add: unat_sub word_le_nat_alt)
  moreover have "unat n < 65536" using unsigned_less [where 'a = nat, of n] by simp
  ultimately show ?thesis
    using assms rest_avail [OF assms(2,3)]
    by (simp add: per_read_integer16_def per_integer16_enc_def stream_simps)
qed

interpretation per_integer16: wire_codec "\<lambda>n. mn \<le> n" "per_integer16_enc mn"
    "\<lambda>n s. per_write_integer16 malloc s n mn" "\<lambda>s. per_read_integer16 s mn"
  for malloc mn
  by unfold_locales (auto simp: stream_simps per_integer16_enc_def)

text \<open>Every integer the writer puts into four bytes is refused by the reader.\<close>

lemma per_integer_large:
  assumes "n > 0xFFFF" "wf_cap s" "5 \<le> room s"
  shows "run_ok (per_write_integer malloc s n) (\<lambda>ok s'. ok \<and> s_pointer s' = s_pointer s + 5 \<and>
    run_ok (per_read_integer (rewound s' (s_pointer s))) (\<lambda>v _. v = None))"
proof -
  let ?b = "[ucast (drop_bit 24 n), ucast (drop_bit 16 n), ucast (drop_bit 8 n), ucast n] :: byte list"
  have "\<not> n \<le> 0xFF" "\<not> n \<le> 0xFFFF" "n \<le> 0xFFFFFFFF"
    using assms(1) unsigned_less [where 'a = nat, of n] by (simp_all add: word_le_nat_alt word_less_nat_alt)
  then have wr: "per_write_integer malloc s n = Some (True, put s (4 # ?b))"
    using assms by (simp add: per_write_integer_def stream_simps per_length_enc_def)
  let ?t = "rewound (put s (4 # ?b)) (s_pointer s)"
  have t: "wf_stream ?t" "rest ?t = 4 # ?b"
    using assms by (simp_all add: wf_rewound rest_rewound stream_simps)
  then have "avail ?t = 5" using length_rest [of ?t] by simp
  then show ?thesis
    using wr t per_read_length_short [of ?t 4] by (simp add: per_read_integer_def stream_simps)
qed

section \<open>Strings and object identifiers\<close>

lemma write_octets_loop_put [stream_simps]:
  "wf_cap s \<Longrightarrow> n \<le> room s \<Longrightarrow> n \<le> length bs \<Longrightarrow> write_octets_loop s bs n = Some (put s (take n bs))"
  by (induction s bs n rule: write_octets_loop.induct) (auto simp: stream_simps)

text \<open>A written octet string is recognised by a reader that expects the same string.\<close>

lemma per_octet_string_roundtrip:
  assumes "length oct = unat len" "mn \<le> len" "len - mn < 0x8000" "wf_cap s"
    "length (per_length_enc (len - mn)) + unat len \<le> room s"
  shows "run_ok (per_write_octet_string malloc s oct len mn) (\<lambda>ok s'. ok \<and>
    run_ok (per_read_octet_string (rewound s' (s_pointer s)) oct len mn) (\<lambda>eq t. eq \<and> rest t = []))"
proof -
  let ?e = "per_length_enc (len - mn) @ oct"
  define t u where "t = rewound (put s ?e) (s_pointer s)"
    and "u = Stream_Seek t (length (per_length_enc (len - mn)))"
  have wr: "per_write_octet_string malloc s oct len mn = Some (True, put s ?e)"
    using assms by (simp add: per_write_octet_string_def stream_simps)
  have t: "wf_stream t" "rest t = ?e"
    using assms by (simp_all add: wf_rewound rest_rewound stream_simps t_def)
  have a: "avail t = length (per_length_enc (len - mn)) + unat len"
    using length_rest [OF t(1)] t(2) assms(1) by simp
  have l: "per_read_length t = Some (Some (len - mn), u)"
    unfolding u_def using assms(3) t by (rule per_read_length_rest)
  have u: "wf_stream u" "rest u = oct" "avail u = unat len"
    using t a by (simp_all add: stream_simps u_def)
  then have "take (unat len) (drop (s_pointer u) (s_buffer u)) = oct"
    by (auto simp: rest_def avail_def)
  moreover have "unat len \<le> length (drop (s_pointer u) (s_buffer u))"
    using u buffer_avail [of u "unat len"] by simp
  moreover have "unat (len - mn) + unat mn = unat len"
    using assms(2) by (simp add: unat_sub word_le_nat_alt)
  ultimately have "per_read_octet_string t oct len mn = Some (True, Stream_Seek u (unat len))"
    using l u assms(1) by (simp add: per_read_octet_string_def remaining_length octets_cmp_loop_eq Let_def)
  then show ?thesis
    using wr u assms(1) by (simp add: t_def stream_simps)
qed

fun bcd :: "byte list \<Rightarrow> byte list" where
  "bcd [] = []"
| "bcd [c] = [push_bit 4 (num_digit c) OR num_digit 0x30]"
| "bcd (c # d # cs) = (push_bit 4 (num_digit c) OR num_digit d) # bcd cs"

lemma numeric_loop_put:
  assumes "unat i \<le> unat len" "unat len < 0xFFFF" "length num = unat len" "wf_cap s"
    "length (bcd (drop (unat i) num)) \<le> room s"
  shows "numeric_loop s num len i = Some (put s (bcd (drop (unat i) num)))"
  using assms
proof (induction "unat len - unat i" arbitrary: i s rule: less_induct)
  case less
  show ?case
  proof (cases "unat i < unat len")
    case False
    then show ?thesis using less.prems
      by (subst numeric_loop.simps) (simp add: word_less_nat_alt)
  next
    case True
    let ?b = "push_bit 4 (num_digit (num ! unat i)) OR
      num_digit (if unat i + 1 < unat len then num ! (unat i + 1) else 0x30)"
    have bc: "bcd (drop (unat i) num) = ?b # bcd (drop (unat i + 2) num)"
    proof (cases "unat i + 1 < unat len")
      case T: True
      then have "drop (unat i) num = num ! unat i # num ! (unat i + 1) # drop (unat i + 2) num"
        using less.prems by (simp add: Cons_nth_drop_Suc [symmetric])
      then show ?thesis using T by simp
    next
      case F: False
      then have "drop (unat i) num = [num ! unat i]" "drop (unat i + 2) num = []"
        using less.prems True by (simp_all add: Cons_nth_drop_Suc [symmetric])
      then show ?thesis using F by simp
    qed
    have step: "numeric_loop s num len i = numeric_loop (put s [?b]) num len (i + 2)"
      using True less.prems bc
      by (subst numeric_loop.simps) (simp add: word_less_nat_alt stream_simps)
    have i2: "unat (i + 2) = unat i + 2"
      using True less.prems by (simp add: unat_word_ariths)
    show ?thesis
    proof (cases "unat i + 2 \<le> unat len")
      case T: True
      then have "numeric_loop (put s [?b]) num len (i + 2) = Some (put (put s [?b]) (bcd (drop (unat i + 2) num)))"
        using less.hyps [of "i + 2" "put s [?b]"] less.prems True bc by (simp add: i2 stream_simps)
      then show ?thesis using step bc less.prems by (simp add: stream_simps)
    next
      case F: False
      then have "numeric_loop (put s [?b]) num len (i + 2) = Some (put s [?b])"
        by (subst numeric_loop.simps) (simp add: word_less_nat_alt i2)
      moreover have "drop (unat i + 2) num = []" using F less.prems by simp
      ultimately show ?thesis using step bc by simp
    qed
  qed
qed

text \<open>With length 65535 the index wraps from 65534 to 0 and the loop never returns normally.\<close>

lemma numeric_loop_diverges:
  assumes "even i"
  shows "numeric_loop s num 0xFFFF i = None"
proof (rule ccontr)
  assume "numeric_loop s num 0xFFFF i \<noteq> None"
  then obtain s' where ret: "numeric_loop s num 0xFFFF i = Some s'" by auto
  have "(0xFFFF :: u16) = 0xFFFF \<longrightarrow> even i \<longrightarrow> False"
  proof (rule numeric_loop.raw_induct [where P = "\<lambda>s num len i s'. len = 0xFFFF \<longrightarrow> even i \<longrightarrow> False", OF _ ret])
    fix f :: "wStream \<Rightarrow> byte list \<Rightarrow> u16 \<Rightarrow> u16 \<Rightarrow> wStream option" and s num len i s'
    assume IH: "\<And>s num len i s'. f s num len i = Some s' \<Longrightarrow> len = 0xFFFF \<longrightarrow> even i \<longrightarrow> False"
      and eq: "(if i < len then do {
        c1 \<leftarrow> (if unat i < length num then Some (num ! unat i) else None);
        c2 \<leftarrow> (if unat i + 1 < unat len then
                 (if unat i + 1 < length num then Some (num ! (unat i + 1)) else None)
               else Some 0x30);
        s \<leftarrow> Stream_Write_UINT8 s (push_bit 4 (num_digit c1) OR num_digit c2);
        f s num len (i + 2) } else Some s) = Some s'"
    show "len = 0xFFFF \<longrightarrow> even i \<longrightarrow> False"
    proof (intro impI)
      assume len: "len = 0xFFFF" and ev: "even i"
      then have "i \<noteq> 0xFFFF" by auto
      then have "i < len" using len unsigned_less [where 'a = nat, of i]
        by (simp add: word_less_nat_alt word_unat_eq_iff)
      with eq obtain s2 where "f s2 num len (i + 2) = Some s'"
        by (auto split: bind_splits)
      from IH [OF this] len ev show False by simp
    qed
  qed
  with assms show False by simp
qed

lemma per_object_identifier_roundtrip:
  assumes "length oid = 6" "unat (oid ! 0) * 40 + unat (oid ! 1) < 256" "oid ! 1 < 40" "wf_cap s" "6 \<le> room s"
  shows "run_ok (per_write_object_identifier malloc s oid) (\<lambda>ok s'. ok \<and>
    run_ok (per_read_object_identifier (rewound s' (s_pointer s)) oid) (\<lambda>eq t. eq \<and> rest t = []))"
proof -
  let ?t12 = "oid ! 0 * 40 + oid ! 1"
  let ?e = "[5, ?t12, oid ! 2, oid ! 3, oid ! 4, oid ! 5]"
  define t where "t = rewound (put s ?e) (s_pointer s)"
  have wr: "per_write_object_identifier malloc s oid = Some (True, put s ?e)"
    using assms by (simp add: per_write_object_identifier_def stream_simps Let_def)
  have t: "wf_stream t" "rest t = ?e"
    using assms by (simp_all add: wf_rewound rest_rewound stream_simps t_def)
  have a: "avail t = 6" using length_rest [OF t(1)] t(2) by simp
  have u: "unat ?t12 = unat (oid ! 0) * 40 + unat (oid ! 1)"
    using assms(2) by (simp add: unat_word_ariths)
  have "unat (oid ! 1) < 40" using assms(3) by (simp add: word_less_nat_alt)
  then have "?t12 div 40 = oid ! 0" "?t12 mod 40 = oid ! 1"
    using u by (simp_all add: word_unat_eq_iff unat_div unat_mod)
  then have "per_read_object_identifier t oid = Some (True, Stream_Seek t 6)"
    using t a per_read_length_short [of t 5]
    by (simp add: per_read_object_identifier_def stream_simps)
  then show ?thesis
    using wr t by (simp add: t_def stream_simps)
qed

section \<open>Properties of the PER routines\<close>

text \<open>
  C32: None of the eleven PER readers accesses memory outside a well-formed stream, whatever the bytes
  are; each one only advances the stream within its length. For an octet string the expected string has
  to have at least the length that is passed with it, and for a numeric string the minimum length must
  not be negative and must keep the sum of the lengths within an \<^verbatim>\<open>int\<close>.
\<close>

theorem per_readers_safe:
  assumes "unat len \<le> length oct" "0 \<le> minimum" "minimum < 2 ^ 31 - 0x10000"
  shows "safe_reader per_read_length \<and> safe_reader per_read_choice \<and> safe_reader per_read_selection \<and>
    safe_reader per_read_number_of_sets \<and> safe_reader (\<lambda>s. per_read_padding s n) \<and> safe_reader per_read_integer \<and>
    safe_reader (\<lambda>s. per_read_integer16 s mn) \<and> safe_reader (\<lambda>s. per_read_enumerated s cnt) \<and>
    safe_reader (\<lambda>s. per_read_object_identifier s oid) \<and> safe_reader (\<lambda>s. per_read_octet_string s oct len mn) \<and>
    safe_reader (\<lambda>s. per_read_numeric_string s minimum)"
  by (intro conjI safe_per_read_length safe_per_read_choice safe_per_read_selection safe_per_read_number_of_sets
      safe_per_read_padding safe_per_read_integer safe_per_read_integer16 safe_per_read_enumerated
      safe_per_read_object_identifier safe_per_read_octet_string safe_per_read_numeric_string assms)

theorem per_readers_safe_witness:
  "safe_reader per_read_integer \<and> safe_reader (\<lambda>s. per_read_octet_string s [0x44, 0x75, 0x63, 0x61] 4 4) \<and>
   safe_reader (\<lambda>s. per_read_numeric_string s 1)"
  using per_readers_safe [of 4 "[0x44, 0x75, 0x63, 0x61]" 1] by simp

text \<open>
  C30: Sequences of PER lengths below 32768, of integers below 65536 and of 16-bit integers with a
  common lower bound survive encoding: what \<open>n\<close> calls of the writer append, \<open>n\<close> calls of the
  reader give back in order, and nothing is left over.
\<close>

theorem per_integers_roundtrip:
  assumes "list_all (\<lambda>n. n \<le> 0xFFFF) ns" "wf_cap s" "length (concat (map per_integer_enc ns)) \<le> room s"
  shows "run_ok (per_integer.write_all malloc ns s) (\<lambda>ok s'. ok \<and>
    run_ok (per_integer.read_all (length ns) (rewound s' (s_pointer s))) (\<lambda>ms t. ms = Some ns \<and> rest t = []))"
  using assms by (rule per_integer.roundtrip_all)

theorem per_integers_roundtrip_witness:
  "run_ok (per_integer.write_all zero_malloc [7, 300, 0xFFFF] (zero_stream 16)) (\<lambda>ok s'. ok \<and>
    run_ok (per_integer.read_all (Suc (Suc (Suc 0))) (rewound s' 0)) (\<lambda>ms t. ms = Some [7, 300, 0xFFFF] \<and> rest t = []))"
  using per_integers_roundtrip [of "[7, 300, 0xFFFF]" "zero_stream 16" zero_malloc]
  by (simp add: per_integer_enc_def)

text \<open>
  The two directions disagree on large integers: \<^verbatim>\<open>per_write_integer\<close> encodes every value above
  65535 in four bytes and reports success, and \<^verbatim>\<open>per_read_integer\<close> refuses the result.
\<close>

lemma per_integer_asymmetric:
  assumes "n > 0xFFFF" "wf_cap s" "5 \<le> room s"
  shows "run_ok (per_write_integer malloc s n) (\<lambda>ok s'. ok \<and> s_pointer s' = s_pointer s + 5 \<and>
    run_ok (per_read_integer (rewound s' (s_pointer s))) (\<lambda>v _. v = None))"
  using assms by (rule per_integer_large)

text \<open>
  An octet string written with \<^verbatim>\<open>per_write_octet_string\<close> is recognised by
  \<^verbatim>\<open>per_read_octet_string\<close> called with the same string, length and lower bound.
\<close>

lemma per_octet_string_recognised:
  assumes "length oct = unat len" "mn \<le> len" "len - mn < 0x8000" "wf_cap s"
    "length (per_length_enc (len - mn)) + unat len \<le> room s"
  shows "run_ok (per_write_octet_string malloc s oct len mn) (\<lambda>ok s'. ok \<and>
    run_ok (per_read_octet_string (rewound s' (s_pointer s)) oct len mn) (\<lambda>eq t. eq \<and> rest t = []))"
  using assms by (rule per_octet_string_roundtrip)

text \<open>
  \<^verbatim>\<open>per_write_numeric_string\<close> packs two digits per byte for every length below 65535: after the
  length it appends the digit pairs, the last one padded with zero.
\<close>

lemma per_numeric_string_packed:
  assumes "length num = unat len" "unat len < 0xFFFF" "mn \<le> len" "wf_cap s"
    "length (per_length_enc (len - mn)) + unat len \<le> room s"
  shows "per_write_numeric_string malloc s num len mn =
    Some (True, put s (per_length_enc (len - mn) @ bcd num))"
proof -
  have b: "length (bcd ds) \<le> length ds" for ds by (induction ds rule: bcd.induct) auto
  have r: "unat len \<le> room s - length (per_length_enc (len - mn))" using assms(5) by simp
  then have "length (bcd num) \<le> room s - length (per_length_enc (len - mn))" using b [of num] assms(1) by simp
  moreover have "numeric_loop (put s (per_length_enc (len - mn))) num len 0 =
      Some (put (put s (per_length_enc (len - mn))) (bcd num))"
    using numeric_loop_put [of 0 len num "put s (per_length_enc (len - mn))"] assms calculation
    by (simp add: stream_simps)
  ultimately show ?thesis using assms r
    by (simp add: per_write_numeric_string_def stream_simps)
qed

text \<open>
  With the length 65535 \<^verbatim>\<open>per_write_numeric_string\<close> never returns normally, for any string and
  any stream: its 16-bit index wraps from 65534 to 0 and the loop runs until it leaves a buffer.
\<close>

lemma per_numeric_string_index_wraps:
  assumes "wf_cap s" "length (per_length_enc (0xFFFF - mn)) + 0xFFFF \<le> room s"
  shows "per_write_numeric_string malloc s num 0xFFFF mn = None"
proof -
  have "mn \<le> 0xFFFF" using unsigned_less [where 'a = nat, of mn] by (simp add: word_le_nat_alt)
  then show ?thesis
    using assms by (simp add: per_write_numeric_string_def stream_simps numeric_loop_diverges)
qed

end
