(* ===== verification/Ber.thy ===== *)
theory Ber
  imports Stream
begin

text \<open>
  The BER (basic encoding rules) primitives of \<^verbatim>\<open>libfreerdp/crypto/ber.c\<close>. The writers check no
  capacity, so a stream without room faults; they return the number of bytes written. The readers
  check the remaining length before every access. The \<^verbatim>\<open>sizeof\<close> functions announce the sizes that
  the layers above put into enclosing headers.
\<close>

definition BER_CLASS_UNIV :: byte where "BER_CLASS_UNIV = 0x00"
definition BER_CLASS_APPL :: byte where "BER_CLASS_APPL = 0x40"
definition BER_CLASS_CTXT :: byte where "BER_CLASS_CTXT = 0x80"
definition BER_CONSTRUCT :: byte where "BER_CONSTRUCT = 0x20"
definition BER_PRIMITIVE :: byte where "BER_PRIMITIVE = 0x00"
definition BER_TAG_MASK :: byte where "BER_TAG_MASK = 0x1F"
definition BER_TAG_BOOLEAN :: byte where "BER_TAG_BOOLEAN = 0x01"
definition BER_TAG_INTEGER :: byte where "BER_TAG_INTEGER = 0x02"
definition BER_TAG_BIT_STRING :: byte where "BER_TAG_BIT_STRING = 0x03"
definition BER_TAG_OCTET_STRING :: byte where "BER_TAG_OCTET_STRING = 0x04"
definition BER_TAG_ENUMERATED :: byte where "BER_TAG_ENUMERATED = 0x0A"
definition BER_TAG_SEQUENCE :: byte where "BER_TAG_SEQUENCE = 0x10"
definition BER_TAG_SEQUENCE_OF :: byte where "BER_TAG_SEQUENCE_OF = 0x10"

definition BER_PC :: "bool \<Rightarrow> byte" where
  "BER_PC pc = (if pc then BER_CONSTRUCT else BER_PRIMITIVE)"

lemmas ber_tags = BER_CLASS_UNIV_def BER_CLASS_APPL_def BER_CLASS_CTXT_def BER_CONSTRUCT_def
  BER_PRIMITIVE_def BER_TAG_MASK_def BER_TAG_BOOLEAN_def BER_TAG_INTEGER_def BER_TAG_BIT_STRING_def
  BER_TAG_OCTET_STRING_def BER_TAG_ENUMERATED_def BER_TAG_SEQUENCE_def BER_TAG_SEQUENCE_OF_def BER_PC_def

section \<open>Lengths and tags\<close>

definition ber_read_length :: "wStream \<Rightarrow> (nat option \<times> wStream) option" where
  "ber_read_length s =
     (if Stream_GetRemainingLength s < 1 then Some (None, s)
      else do {
        (b, s) \<leftarrow> Stream_Read_UINT8 s;
        (if b AND 0x80 \<noteq> 0 then
           let b = b AND NOT 0x80 in
           if Stream_GetRemainingLength s < unat b then Some (None, s)
           else if b = 1 then do { (v, s) \<leftarrow> Stream_Read_UINT8 s; Some (Some (unat v), s) }
           else if b = 2 then do { (v, s) \<leftarrow> Stream_Read_UINT16_BE s; Some (Some (unat v), s) }
           else Some (None, s)
         else Some (Some (unat b), s)) })"

definition ber_write_length :: "wStream \<Rightarrow> nat \<Rightarrow> (nat \<times> wStream) option" where
  "ber_write_length s len =
     (if len > 0xFF then do {
        s \<leftarrow> Stream_Write_UINT8 s (0x80 XOR 2);
        s \<leftarrow> Stream_Write_UINT16_BE s (word_of_nat len);
        Some (3, s) }
      else if len > 0x7F then do {
        s \<leftarrow> Stream_Write_UINT8 s (0x80 XOR 1);
        s \<leftarrow> Stream_Write_UINT8 s (word_of_nat len);
        Some (2, s) }
      else do {
        s \<leftarrow> Stream_Write_UINT8 s (word_of_nat len);
        Some (1, s) })"

definition ber_sizeof_length :: "nat \<Rightarrow> nat" where
  "ber_sizeof_length len = (if len > 0xFF then 3 else if len > 0x7F then 2 else 1)"

definition ber_read_universal_tag :: "wStream \<Rightarrow> byte \<Rightarrow> bool \<Rightarrow> (bool \<times> wStream) option" where
  "ber_read_universal_tag s tag pc =
     (if Stream_GetRemainingLength s < 1 then Some (False, s)
      else do {
        (b, s) \<leftarrow> Stream_Read_UINT8 s;
        (if b \<noteq> (BER_CLASS_UNIV OR BER_PC pc OR (BER_TAG_MASK AND tag)) then Some (False, s)
         else Some (True, s)) })"

definition ber_write_universal_tag :: "wStream \<Rightarrow> byte \<Rightarrow> bool \<Rightarrow> (nat \<times> wStream) option" where
  "ber_write_universal_tag s tag pc = do {
     s \<leftarrow> Stream_Write_UINT8 s ((BER_CLASS_UNIV OR BER_PC pc) OR (BER_TAG_MASK AND tag));
     Some (1, s) }"

definition ber_read_application_tag :: "wStream \<Rightarrow> byte \<Rightarrow> (nat option \<times> wStream) option" where
  "ber_read_application_tag s tag =
     (if tag > 30 then
        if Stream_GetRemainingLength s < 1 then Some (None, s)
        else do {
          (b, s) \<leftarrow> Stream_Read_UINT8 s;
          (if b \<noteq> ((BER_CLASS_APPL OR BER_CONSTRUCT) OR BER_TAG_MASK) then Some (None, s)
           else if Stream_GetRemainingLength s < 1 then Some (None, s)
           else do {
             (b, s) \<leftarrow> Stream_Read_UINT8 s;
             (if b \<noteq> tag then Some (None, s) else ber_read_length s) }) }
      else
        if Stream_GetRemainingLength s < 1 then Some (None, s)
        else do {
          (b, s) \<leftarrow> Stream_Read_UINT8 s;
          (if b \<noteq> ((BER_CLASS_APPL OR BER_CONSTRUCT) OR (BER_TAG_MASK AND tag)) then Some (None, s)
           else ber_read_length s) })"

definition ber_write_application_tag :: "wStream \<Rightarrow> byte \<Rightarrow> nat \<Rightarrow> wStream option" where
  "ber_write_application_tag s tag len =
     (if tag > 30 then do {
        s \<leftarrow> Stream_Write_UINT8 s ((BER_CLASS_APPL OR BER_CONSTRUCT) OR BER_TAG_MASK);
        s \<leftarrow> Stream_Write_UINT8 s tag;
        (_, s) \<leftarrow> ber_write_length s len;
        Some s }
      else do {
        s \<leftarrow> Stream_Write_UINT8 s ((BER_CLASS_APPL OR BER_CONSTRUCT) OR (BER_TAG_MASK AND tag));
        (_, s) \<leftarrow> ber_write_length s len;
        Some s })"

definition ber_read_contextual_tag :: "wStream \<Rightarrow> byte \<Rightarrow> bool \<Rightarrow> (nat option \<times> wStream) option" where
  "ber_read_contextual_tag s tag pc =
     (if Stream_GetRemainingLength s < 1 then Some (None, s)
      else do {
        (b, s) \<leftarrow> Stream_Read_UINT8 s;
        (if b \<noteq> ((BER_CLASS_CTXT OR BER_PC pc) OR (BER_TAG_MASK AND tag)) then do {
           s \<leftarrow> Stream_Rewind s 1;
           Some (None, s) }
         else ber_read_length s) })"

definition ber_write_contextual_tag :: "wStream \<Rightarrow> byte \<Rightarrow> nat \<Rightarrow> bool \<Rightarrow> (nat \<times> wStream) option" where
  "ber_write_contextual_tag s tag len pc = do {
     s \<leftarrow> Stream_Write_UINT8 s ((BER_CLASS_CTXT OR BER_PC pc) OR (BER_TAG_MASK AND tag));
     (n, s) \<leftarrow> ber_write_length s len;
     Some (1 + n, s) }"

definition ber_sizeof_contextual_tag :: "nat \<Rightarrow> nat" where
  "ber_sizeof_contextual_tag len = 1 + ber_sizeof_length len"

definition ber_read_sequence_tag :: "wStream \<Rightarrow> (nat option \<times> wStream) option" where
  "ber_read_sequence_tag s =
     (if Stream_GetRemainingLength s < 1 then Some (None, s)
      else do {
        (b, s) \<leftarrow> Stream_Read_UINT8 s;
        (if b \<noteq> ((BER_CLASS_UNIV OR BER_CONSTRUCT) OR BER_TAG_SEQUENCE_OF) then Some (None, s)
         else ber_read_length s) })"

definition ber_write_sequence_tag :: "wStream \<Rightarrow> nat \<Rightarrow> (nat \<times> wStream) option" where
  "ber_write_sequence_tag s len = do {
     s \<leftarrow> Stream_Write_UINT8 s ((BER_CLASS_UNIV OR BER_CONSTRUCT) OR (BER_TAG_MASK AND BER_TAG_SEQUENCE));
     (n, s) \<leftarrow> ber_write_length s len;
     Some (1 + n, s) }"

definition ber_sizeof_sequence :: "nat \<Rightarrow> nat" where
  "ber_sizeof_sequence len = 1 + ber_sizeof_length len + len"

definition ber_sizeof_sequence_tag :: "nat \<Rightarrow> nat" where
  "ber_sizeof_sequence_tag len = 1 + ber_sizeof_length len"

section \<open>Values\<close>

definition ber_read_enumerated :: "wStream \<Rightarrow> byte \<Rightarrow> (byte option \<times> wStream) option" where
  "ber_read_enumerated s cnt = do {
     (ok, s) \<leftarrow> ber_read_universal_tag s BER_TAG_ENUMERATED False;
     (if \<not> ok then Some (None, s) else do {
        (len, s) \<leftarrow> ber_read_length s;
        (case len of None \<Rightarrow> Some (None, s)
         | Some len \<Rightarrow>
             if len \<noteq> 1 \<or> Stream_GetRemainingLength s < 1 then Some (None, s)
             else do {
               (v, s) \<leftarrow> Stream_Read_UINT8 s;
               (if unat cnt < unat v + 1 then Some (None, s) else Some (Some v, s)) }) }) }"

definition ber_write_enumerated :: "wStream \<Rightarrow> byte \<Rightarrow> byte \<Rightarrow> wStream option" where
  "ber_write_enumerated s enumerated cnt = do {
     (_, s) \<leftarrow> ber_write_universal_tag s BER_TAG_ENUMERATED False;
     (_, s) \<leftarrow> ber_write_length s 1;
     Stream_Write_UINT8 s enumerated }"

definition ber_read_bit_string :: "wStream \<Rightarrow> ((nat \<times> byte) option \<times> wStream) option" where
  "ber_read_bit_string s = do {
     (ok, s) \<leftarrow> ber_read_universal_tag s BER_TAG_BIT_STRING False;
     (if \<not> ok then Some (None, s) else do {
        (len, s) \<leftarrow> ber_read_length s;
        (case len of None \<Rightarrow> Some (None, s)
         | Some len \<Rightarrow>
             if Stream_GetRemainingLength s < 1 then Some (None, s)
             else do { (padding, s) \<leftarrow> Stream_Read_UINT8 s; Some (Some (len, padding), s) }) }) }"

definition ber_write_octet_string :: "wStream \<Rightarrow> byte list \<Rightarrow> (nat \<times> wStream) option" where
  "ber_write_octet_string s oct_str = do {
     (n, s) \<leftarrow> ber_write_universal_tag s BER_TAG_OCTET_STRING False;
     (m, s) \<leftarrow> ber_write_length s (length oct_str);
     s \<leftarrow> Stream_Write s oct_str;
     Some (n + m + length oct_str, s) }"

definition ber_read_octet_string_tag :: "wStream \<Rightarrow> (nat option \<times> wStream) option" where
  "ber_read_octet_string_tag s = do {
     (ok, s) \<leftarrow> ber_read_universal_tag s BER_TAG_OCTET_STRING False;
     (if \<not> ok then Some (None, s) else ber_read_length s) }"

definition ber_write_octet_string_tag :: "wStream \<Rightarrow> nat \<Rightarrow> (nat \<times> wStream) option" where
  "ber_write_octet_string_tag s len = do {
     (_, s) \<leftarrow> ber_write_universal_tag s BER_TAG_OCTET_STRING False;
     (_, s) \<leftarrow> ber_write_length s len;
     Some (1 + ber_sizeof_length len, s) }"

definition ber_sizeof_octet_string :: "nat \<Rightarrow> nat" where
  "ber_sizeof_octet_string len = 1 + ber_sizeof_length len + len"

definition ber_read_BOOL :: "wStream \<Rightarrow> (bool option \<times> wStream) option" where
  "ber_read_BOOL s = do {
     (ok, s) \<leftarrow> ber_read_universal_tag s BER_TAG_BOOLEAN False;
     (if \<not> ok then Some (None, s) else do {
        (len, s) \<leftarrow> ber_read_length s;
        (case len of None \<Rightarrow> Some (None, s)
         | Some len \<Rightarrow>
             if len \<noteq> 1 \<or> Stream_GetRemainingLength s < 1 then Some (None, s)
             else do { (v, s) \<leftarrow> Stream_Read_UINT8 s; Some (Some (v \<noteq> 0), s) }) }) }"

definition ber_write_BOOL :: "wStream \<Rightarrow> bool \<Rightarrow> wStream option" where
  "ber_write_BOOL s v = do {
     (_, s) \<leftarrow> ber_write_universal_tag s BER_TAG_BOOLEAN False;
     (_, s) \<leftarrow> ber_write_length s 1;
     Stream_Write_UINT8 s (if v then 0xFF else 0) }"

text \<open>\<open>ber_read_integer\<close> with a value pointer, and \<open>ber_skip_integer\<close> with a null pointer for it.\<close>

definition ber_read_integer :: "wStream \<Rightarrow> (u32 option \<times> wStream) option" where
  "ber_read_integer s = do {
     (ok, s) \<leftarrow> ber_read_universal_tag s BER_TAG_INTEGER False;
     (if \<not> ok then Some (None, s) else do {
        (len, s) \<leftarrow> ber_read_length s;
        (case len of None \<Rightarrow> Some (None, s)
         | Some len \<Rightarrow>
             if Stream_GetRemainingLength s < len then Some (None, s)
             else if len = 1 then do { (v, s) \<leftarrow> Stream_Read_UINT8 s; Some (Some (ucast v), s) }
             else if len = 2 then do { (v, s) \<leftarrow> Stream_Read_UINT16_BE s; Some (Some (ucast v), s) }
             else if len = 3 then do {
               (b, s) \<leftarrow> Stream_Read_UINT8 s;
               (v, s) \<leftarrow> Stream_Read_UINT16_BE s;
               Some (Some (ucast v + push_bit 16 (ucast b)), s) }
             else if len = 4 then do { (v, s) \<leftarrow> Stream_Read_UINT32_BE s; Some (Some v, s) }
             else Some (None, s)) }) }"

definition ber_skip_integer :: "wStream \<Rightarrow> (bool \<times> wStream) option" where
  "ber_skip_integer s = do {
     (ok, s) \<leftarrow> ber_read_universal_tag s BER_TAG_INTEGER False;
     (if \<not> ok then Some (False, s) else do {
        (len, s) \<leftarrow> ber_read_length s;
        (case len of None \<Rightarrow> Some (False, s)
         | Some len \<Rightarrow>
             if Stream_GetRemainingLength s < len then Some (False, s)
             else Some (Stream_SafeSeek s len)) }) }"

definition ber_write_integer :: "wStream \<Rightarrow> u32 \<Rightarrow> (nat \<times> wStream) option" where
  "ber_write_integer s v =
     (if v < 0x80 then do {
        (_, s) \<leftarrow> ber_write_universal_tag s BER_TAG_INTEGER False;
        (_, s) \<leftarrow> ber_write_length s 1;
        s \<leftarrow> Stream_Write_UINT8 s (ucast v);
        Some (3, s) }
      else if v < 0x8000 then do {
        (_, s) \<leftarrow> ber_write_universal_tag s BER_TAG_INTEGER False;
        (_, s) \<leftarrow> ber_write_length s 2;
        s \<leftarrow> Stream_Write_UINT16_BE s (ucast v);
        Some (4, s) }
      else if v < 0x800000 then do {
        (_, s) \<leftarrow> ber_write_universal_tag s BER_TAG_INTEGER False;
        (_, s) \<leftarrow> ber_write_length s 3;
        s \<leftarrow> Stream_Write_UINT8 s (ucast (drop_bit 16 v));
        s \<leftarrow> Stream_Write_UINT16_BE s (ucast (v AND 0xFFFF));
        Some (5, s) }
      else do {
        (_, s) \<leftarrow> ber_write_universal_tag s BER_TAG_INTEGER False;
        (_, s) \<leftarrow> ber_write_length s 4;
        s \<leftarrow> Stream_Write_UINT32_BE s v;
        Some (6, s) })"

definition ber_sizeof_integer :: "u32 \<Rightarrow> nat" where
  "ber_sizeof_integer v =
     (if v < 0x80 then 3 else if v < 0x8000 then 4 else if v < 0x800000 then 5 else 6)"

definition ber_read_integer_length :: "wStream \<Rightarrow> (nat option \<times> wStream) option" where
  "ber_read_integer_length s = do {
     (ok, s) \<leftarrow> ber_read_universal_tag s BER_TAG_INTEGER False;
     (if \<not> ok then Some (None, s) else ber_read_length s) }"

section \<open>Memory safety of the readers\<close>

lemma safe_ber_read_length: "safe_reader ber_read_length"
  by (rule safe_readerI) (auto simp: ber_read_length_def stream_simps run_simps Let_def)

lemma safe_ber_read_universal_tag: "safe_reader (\<lambda>s. ber_read_universal_tag s tag pc)"
  by (rule safe_readerI) (auto simp: ber_read_universal_tag_def stream_simps run_simps)

text \<open>Reading one byte under the remaining-length check, then a safe reader.\<close>

lemma safe_byte_then:
  assumes "safe_reader f" "\<And>b. safe_reader (g b)"
  shows "safe_reader (\<lambda>s. if Stream_GetRemainingLength s < 1 then f s
                          else Stream_Read_UINT8 s \<bind> (\<lambda>(b, s). g b s))"
proof (rule safe_readerI)
  fix s assume w: "wf_stream s"
  show "run_ok (if Stream_GetRemainingLength s < 1 then f s
      else Stream_Read_UINT8 s \<bind> (\<lambda>(b, s). g b s)) (\<lambda>_. consumed s)"
  proof (cases "avail s < 1")
    case True
    then show ?thesis using safe_readerD [OF assms(1) w] w by (simp add: stream_simps)
  next
    case False
    then have c: "consumed s (Stream_Seek s 1)" by (simp add: consumed_Seek)
    have "run_ok (g (rest s ! 0) (Stream_Seek s 1)) (\<lambda>_. consumed s)"
      by (rule run_ok_mono [OF safe_readerD [OF assms(2) consumed_wf [OF w c]]]) (rule consumed_trans [OF c])
    then show ?thesis using False w by (simp add: stream_simps)
  qed
qed

lemma safe_ber_read_application_tag: "safe_reader (\<lambda>s. ber_read_application_tag s tag)"
  unfolding ber_read_application_tag_def
  by (intro safe_if safe_byte_then safe_return safe_ber_read_length)

lemma safe_ber_read_sequence_tag: "safe_reader ber_read_sequence_tag"
  unfolding ber_read_sequence_tag_def
  by (intro safe_if safe_byte_then safe_return safe_ber_read_length)

text \<open>
  A contextual tag that does not match is put back: the stream is exactly as before, so an
  optional field can be probed.
\<close>

lemma Rewind_Seek [simp]: "Stream_Rewind (Stream_Seek s n) n = Some s"
  by (simp add: Stream_Rewind_def Stream_Seek_def)

lemma ber_contextual_mismatch:
  assumes "wf_stream s" "avail s \<noteq> 0" "rest s ! 0 \<noteq> (BER_CLASS_CTXT OR BER_PC pc) OR (BER_TAG_MASK AND tag)"
  shows "ber_read_contextual_tag s tag pc = Some (None, s)"
  using assms by (auto simp: ber_read_contextual_tag_def stream_simps)

lemma safe_ber_read_contextual_tag: "safe_reader (\<lambda>s. ber_read_contextual_tag s tag pc)"
proof (rule safe_readerI)
  fix s assume w: "wf_stream s"
  have "run_ok (ber_read_length (Stream_Seek s 1)) (\<lambda>_. consumed s)" if "0 < avail s"
  proof -
    have c: "consumed s (Stream_Seek s 1)" using that by (simp add: consumed_Seek)
    show ?thesis
      by (rule run_ok_mono [OF safe_readerD [OF safe_ber_read_length consumed_wf [OF w c]]]) (rule consumed_trans [OF c])
  qed
  then show "run_ok (ber_read_contextual_tag s tag pc) (\<lambda>_. consumed s)"
    using w Rewind_Seek [of s 1] by (auto simp: ber_read_contextual_tag_def stream_simps)
qed

lemma safe_tag_then:
  assumes "safe_reader f" "safe_reader g"
  shows "safe_reader (\<lambda>s. ber_read_universal_tag s tag pc \<bind> (\<lambda>(ok, s). if \<not> ok then f s else g s))"
  by (intro safe_bind safe_ber_read_universal_tag safe_if assms)

lemma safe_length_then:
  assumes "safe_reader f" "\<And>n. safe_reader (g n)"
  shows "safe_reader (\<lambda>s. ber_read_length s \<bind> (\<lambda>(n, s). case n of None \<Rightarrow> f s | Some n \<Rightarrow> g n s))"
  by (intro safe_bind safe_ber_read_length safe_case_option assms)

lemmas safe_ber = safe_tag_then safe_length_then safe_ber_read_length safe_return

lemma safe_ber_read_enumerated: "safe_reader (\<lambda>s. ber_read_enumerated s cnt)"
  unfolding ber_read_enumerated_def
  by (intro safe_ber, rule safe_readerI) (auto simp: stream_simps run_simps)

lemma safe_ber_read_bit_string: "safe_reader ber_read_bit_string"
  unfolding ber_read_bit_string_def
  by (intro safe_ber, rule safe_readerI) (auto simp: stream_simps run_simps)

lemma safe_ber_read_octet_string_tag: "safe_reader ber_read_octet_string_tag"
  unfolding ber_read_octet_string_tag_def by (intro safe_ber)

lemma safe_ber_read_BOOL: "safe_reader ber_read_BOOL"
  unfolding ber_read_BOOL_def
  by (intro safe_ber, rule safe_readerI) (auto simp: stream_simps run_simps)

lemma safe_ber_read_integer: "safe_reader ber_read_integer"
  unfolding ber_read_integer_def
  by (intro safe_ber, rule safe_readerI) (auto simp: stream_simps run_simps)

lemma safe_ber_skip_integer: "safe_reader ber_skip_integer"
  unfolding ber_skip_integer_def
  by (intro safe_ber, rule safe_readerI) (auto simp: stream_simps run_simps)

lemma safe_ber_read_integer_length: "safe_reader ber_read_integer_length"
  unfolding ber_read_integer_length_def by (intro safe_ber)

section \<open>Wire codecs\<close>

definition ber_length_enc :: "nat \<Rightarrow> byte list" where
  "ber_length_enc n =
     (if n > 0xFF then [0x82, ucast (drop_bit 8 (word_of_nat n :: u16)), ucast (word_of_nat n :: u16)]
      else if n > 0x7F then [0x81, word_of_nat n] else [word_of_nat n])"

definition ber_integer_enc :: "u32 \<Rightarrow> byte list" where
  "ber_integer_enc v =
     (if v < 0x80 then [2, 1, ucast v]
      else if v < 0x8000 then [2, 2, ucast (drop_bit 8 v), ucast v]
      else if v < 0x800000 then [2, 3, ucast (drop_bit 16 v), ucast (drop_bit 8 v), ucast v]
      else [2, 4, ucast (drop_bit 24 v), ucast (drop_bit 16 v), ucast (drop_bit 8 v), ucast v])"

lemma length_ber_length_enc: "length (ber_length_enc n) = ber_sizeof_length n"
  by (simp add: ber_length_enc_def ber_sizeof_length_def)

lemma length_ber_integer_enc: "length (ber_integer_enc v) = ber_sizeof_integer v"
  by (simp add: ber_integer_enc_def ber_sizeof_integer_def)

lemma ber_write_length_put [stream_simps]:
  "wf_cap s \<Longrightarrow> ber_sizeof_length n \<le> room s \<Longrightarrow>
   ber_write_length s n = Some (ber_sizeof_length n, put s (ber_length_enc n))"
  by (auto simp: ber_write_length_def ber_length_enc_def ber_sizeof_length_def stream_simps)

lemma ber_write_universal_tag_put [stream_simps]:
  "wf_cap s \<Longrightarrow> 1 \<le> room s \<Longrightarrow>
   ber_write_universal_tag s tag pc = Some (1, put s [BER_CLASS_UNIV OR BER_PC pc OR (BER_TAG_MASK AND tag)])"
  by (simp add: ber_write_universal_tag_def stream_simps or.assoc)

lemma byte_high_bit: "n > 0x7F \<Longrightarrow> n \<le> 0xFF \<Longrightarrow> unat (word_of_nat n :: byte) = n"
  by (simp add: unat_of_nat)

lemma rest_split: "wf_stream s \<Longrightarrow> rest s = bs @ r \<Longrightarrow> avail s = length bs + length r"
  using length_rest [of s] by simp

lemma ber_read_length_rest [stream_simps]:
  assumes "n \<le> 0xFFFF" "wf_stream s" "rest s = ber_length_enc n @ r"
  shows "ber_read_length s = Some (Some n, Stream_Seek s (ber_sizeof_length n))"
proof -
  have a: "avail s = ber_sizeof_length n + length r"
    using rest_split [OF assms(2,3)] by (simp add: length_ber_length_enc)
  have "(word_of_nat n :: byte) AND 0x80 = 0" if "n \<le> 0x7F"
  proof -
    have "\<not> bit (word_of_nat n :: byte) 7"
      using that by (intro not_bit_of_small [of _ 7]) (simp_all add: unat_of_nat)
    then show ?thesis by (intro bit_word_eqI) (auto simp: bit_simps)
  qed
  moreover have "unat (word_of_nat n :: u16) = n" using assms(1) by (simp add: unat_of_nat)
  moreover have "unat (word_of_nat n :: byte) = n" if "n \<le> 0xFF" using that by (simp add: unat_of_nat)
  ultimately show ?thesis
    using a assms by (auto simp: ber_read_length_def ber_length_enc_def ber_sizeof_length_def stream_simps Let_def)
qed

interpretation ber_length: wire_codec "\<lambda>n. n \<le> 0xFFFF" ber_length_enc
    "\<lambda>n s. map_option (\<lambda>(_, s). (True, s)) (ber_write_length s n)" ber_read_length
  by unfold_locales (auto simp: stream_simps length_ber_length_enc)

lemma ber_write_integer_put [stream_simps]:
  "wf_cap s \<Longrightarrow> ber_sizeof_integer v \<le> room s \<Longrightarrow>
   ber_write_integer s v = Some (ber_sizeof_integer v, put s (ber_integer_enc v))"
  by (auto simp: ber_write_integer_def ber_integer_enc_def ber_sizeof_integer_def stream_simps
      ber_sizeof_length_def ber_length_enc_def ber_tags high_half ucast_via_u16 low_half_byte)

lemma ber_read_tag_rest:
  "wf_stream s \<Longrightarrow> rest s = t # r \<Longrightarrow> t = BER_CLASS_UNIV OR BER_PC pc OR (BER_TAG_MASK AND tag) \<Longrightarrow>
   ber_read_universal_tag s tag pc = Some (True, Stream_Seek s 1)"
  using rest_split [of s "[t]" r] by (simp add: ber_read_universal_tag_def stream_simps)

lemma ber_read_short_length_rest:
  "wf_stream s \<Longrightarrow> rest s = word_of_nat n # r \<Longrightarrow> n \<le> 0x7F \<Longrightarrow>
   ber_read_length s = Some (Some n, Stream_Seek s 1)"
  using ber_read_length_rest [of n s r] by (simp add: ber_length_enc_def ber_sizeof_length_def)

lemma ber_read_integer_step:
  assumes w: "wf_stream s" and r: "rest s = 2 # word_of_nat n # r" and n: "n \<le> 0x7F" "n \<le> length r"
  shows "ber_read_integer s =
    (let s = Stream_Seek s 2 in
     if n = 1 then Some (Some (ucast (r ! 0)), Stream_Seek s 1)
     else if n = 2 then Some (Some (ucast (push_bit 8 (ucast (r ! 0)) + ucast (r ! 1) :: u16)), Stream_Seek s 2)
     else if n = 3 then Some (Some (ucast (push_bit 8 (ucast (r ! 1)) + ucast (r ! 2) :: u16) + push_bit 16 (ucast (r ! 0))), Stream_Seek s 3)
     else if n = 4 then Some (Some (push_bit 24 (ucast (r ! 0)) + push_bit 16 (ucast (r ! 1)) + push_bit 8 (ucast (r ! 2)) + ucast (r ! 3)), Stream_Seek s 4)
     else Some (None, s))"
proof -
  have a: "avail s = 2 + length r" using rest_split [of s "[2, word_of_nat n]" r] w r by simp
  have t: "ber_read_universal_tag s BER_TAG_INTEGER False = Some (True, Stream_Seek s 1)"
    by (rule ber_read_tag_rest [OF w r]) (simp add: ber_tags)
  have l: "ber_read_length (Stream_Seek s 1) = Some (Some n, Stream_Seek s 2)"
    using ber_read_short_length_rest [of "Stream_Seek s 1" n r] w r n a by (simp add: stream_simps)
  show ?thesis
    using w r n a by (auto simp: ber_read_integer_def t l [unfolded One_nat_def] stream_simps Let_def)
qed

lemma ber_read_integer_rest [stream_simps]:
  assumes w: "wf_stream s" and r: "rest s = ber_integer_enc v @ r"
  shows "ber_read_integer s = Some (Some v, Stream_Seek s (ber_sizeof_integer v))"
proof -
  consider "v < 0x80" | "\<not> v < 0x80" "v < 0x8000" | "\<not> v < 0x80" "\<not> v < 0x8000" "v < 0x800000"
    | "\<not> v < 0x80" "\<not> v < 0x8000" "\<not> v < 0x800000" by blast
  then show ?thesis
  proof cases
    case 1
    then have "(ucast (ucast v :: byte) :: u32) = v"
      by (intro ucast_byte_small) (simp add: word_less_nat_alt)
    with 1 show ?thesis
      using ber_read_integer_step [of s 1 "ucast v # r"] w r
      by (simp add: ber_integer_enc_def ber_sizeof_integer_def)
  next
    case 2
    then have "(ucast (ucast v :: u16) :: u32) = v"
      by (intro ucast_u16_small) (simp add: word_less_nat_alt)
    with 2 show ?thesis
      using ber_read_integer_step [of s 2 "ucast (drop_bit 8 v) # ucast v # r"] w r
      by (simp add: ber_integer_enc_def ber_sizeof_integer_def byte_join16_of_u32)
  next
    case 3
    then have "unat v < 2 ^ 24" by (simp add: word_less_nat_alt)
    then show ?thesis using 3 byte_join24 [of v]
      using ber_read_integer_step [of s 3 "ucast (drop_bit 16 v) # ucast (drop_bit 8 v) # ucast v # r"] w r
      by (simp add: ber_integer_enc_def ber_sizeof_integer_def byte_join16_of_u32)
  next
    case 4
    then show ?thesis
      using ber_read_integer_step [of s 4 "ucast (drop_bit 24 v) # ucast (drop_bit 16 v) # ucast (drop_bit 8 v) # ucast v # r"] w r
      by (simp add: ber_integer_enc_def ber_sizeof_integer_def)
  qed
qed

interpretation ber_integer: wire_codec "\<lambda>_. True" ber_integer_enc
    "\<lambda>v s. map_option (\<lambda>(_, s). (True, s)) (ber_write_integer s v)" ber_read_integer
  by unfold_locales (auto simp: stream_simps length_ber_integer_enc)

section \<open>Properties of the BER routines\<close>

text \<open>
  C31: No BER reader accesses memory outside a well-formed stream, whatever the bytes are, and each
  one only advances the stream within its length.
\<close>

theorem ber_readers_safe:
  "safe_reader ber_read_length \<and> safe_reader (\<lambda>s. ber_read_universal_tag s tag pc) \<and>
   safe_reader (\<lambda>s. ber_read_application_tag s tag) \<and> safe_reader (\<lambda>s. ber_read_contextual_tag s tag pc) \<and>
   safe_reader ber_read_sequence_tag \<and> safe_reader (\<lambda>s. ber_read_enumerated s cnt) \<and>
   safe_reader ber_read_bit_string \<and> safe_reader ber_read_octet_string_tag \<and> safe_reader ber_read_BOOL \<and>
   safe_reader ber_read_integer \<and> safe_reader ber_skip_integer \<and> safe_reader ber_read_integer_length"
  by (intro conjI safe_ber_read_length safe_ber_read_universal_tag safe_ber_read_application_tag
      safe_ber_read_contextual_tag safe_ber_read_sequence_tag safe_ber_read_enumerated safe_ber_read_bit_string
      safe_ber_read_octet_string_tag safe_ber_read_BOOL safe_ber_read_integer safe_ber_skip_integer
      safe_ber_read_integer_length)

text \<open>
  C29: Every sequence of 32-bit integers written with \<^verbatim>\<open>ber_write_integer\<close> is read back by
  \<^verbatim>\<open>ber_read_integer\<close>, in order and without anything left over.
\<close>

theorem ber_integers_roundtrip:
  assumes "wf_cap s" "length (concat (map ber_integer_enc ns)) \<le> room s"
  shows "run_ok (ber_integer.write_all ns s) (\<lambda>ok s'. ok \<and>
    run_ok (ber_integer.read_all (length ns) (rewound s' (s_pointer s))) (\<lambda>ms t. ms = Some ns \<and> rest t = []))"
  using assms by (intro ber_integer.roundtrip_all) (simp_all add: list.pred_True)

theorem ber_integers_roundtrip_witness:
  "run_ok (ber_integer.write_all [0, 0x80, 0x800000, 0xFFFFFFFF] (zero_stream 32)) (\<lambda>ok s'. ok \<and>
    run_ok (ber_integer.read_all (Suc (Suc (Suc (Suc 0)))) (rewound s' 0)) (\<lambda>ms t. ms = Some [0, 0x80, 0x800000, 0xFFFFFFFF] \<and> rest t = []))"
  using ber_integers_roundtrip [of "zero_stream 32" "[0, 0x80, 0x800000, 0xFFFFFFFF]"]
  by (simp add: ber_integer_enc_def)

text \<open>
  C33: Each of the six size functions predicts its writer exactly, for every 32-bit integer, every length and
  every body: the writer returns the predicted number, and the stream advances by it. The functions are
  \<^verbatim>\<open>_ber_sizeof_length\<close>, \<^verbatim>\<open>ber_sizeof_integer\<close>, \<^verbatim>\<open>ber_sizeof_contextual_tag\<close>, \<^verbatim>\<open>ber_sizeof_sequence_tag\<close>,
  \<^verbatim>\<open>ber_sizeof_octet_string\<close>, and \<^verbatim>\<open>ber_sizeof_sequence\<close> for a sequence tag followed by the body.
\<close>

theorem ber_sizeof_exact:
  assumes "wf_cap s" "6 + length body \<le> room s"
  shows "run_ok (ber_write_integer s v) (\<lambda>n s'. n = ber_sizeof_integer v \<and> s_pointer s' = s_pointer s + n) \<and>
    run_ok (ber_write_length s len) (\<lambda>n s'. n = ber_sizeof_length len \<and> s_pointer s' = s_pointer s + n) \<and>
    run_ok (ber_write_contextual_tag s tag len pc) (\<lambda>n s'. n = ber_sizeof_contextual_tag len \<and> s_pointer s' = s_pointer s + n) \<and>
    run_ok (ber_write_sequence_tag s len) (\<lambda>n s'. n = ber_sizeof_sequence_tag len \<and> s_pointer s' = s_pointer s + n) \<and>
    run_ok (ber_write_octet_string s body) (\<lambda>n s'. n = ber_sizeof_octet_string (length body) \<and> s_pointer s' = s_pointer s + n) \<and>
    run_ok (do { (n, s) \<leftarrow> ber_write_sequence_tag s (length body); s \<leftarrow> Stream_Write s body; Some (n + length body, s) })
      (\<lambda>n s'. n = ber_sizeof_sequence (length body) \<and> s_pointer s' = s_pointer s + n)"
proof -
  have "ber_sizeof_integer v \<le> 6" "ber_sizeof_length len \<le> 3" "ber_sizeof_length (length body) \<le> 3"
    by (simp_all add: ber_sizeof_integer_def ber_sizeof_length_def)
  then show ?thesis using assms
    by (simp add: ber_write_integer_put ber_write_length_put length_ber_integer_enc length_ber_length_enc
        ber_write_contextual_tag_def ber_write_sequence_tag_def ber_write_octet_string_def ber_write_universal_tag_def
        ber_sizeof_contextual_tag_def ber_sizeof_sequence_tag_def ber_sizeof_octet_string_def ber_sizeof_sequence_def stream_simps)
qed

theorem ber_sizeof_exact_witness:
  "run_ok (ber_write_integer (zero_stream 16) 0x8000) (\<lambda>n s'. n = 5 \<and> s_pointer s' = n) \<and>
   run_ok (ber_write_contextual_tag (zero_stream 16) 1 200 True) (\<lambda>n s'. n = 3 \<and> s_pointer s' = n) \<and>
   run_ok (ber_write_octet_string (zero_stream 16) [1, 2]) (\<lambda>n s'. n = 4 \<and> s_pointer s' = n)"
  using ber_sizeof_exact [of "zero_stream 16" "[1, 2]" "0x8000" 200 1 True]
  by (simp add: ber_sizeof_integer_def ber_sizeof_length_def ber_sizeof_contextual_tag_def ber_sizeof_octet_string_def Suc_Suc_0)

text \<open>
  A length above 65535 is silently truncated: the writer of lengths reports three bytes and the
  reader gets the length modulo 65536.
\<close>

lemma ber_length_truncated:
  assumes "n > 0xFFFF" "wf_cap s" "3 \<le> room s" "n mod 0x10000 > 0xFF"
  shows "run_ok (ber_write_length s n) (\<lambda>k s'. k = 3 \<and>
    run_ok (ber_read_length (rewound s' (s_pointer s))) (\<lambda>m _. m = Some (n mod 0x10000)))"
proof -
  have e: "ber_length_enc n = ber_length_enc (n mod 0x10000)"
  proof -
    have "(word_of_nat n :: u16) = word_of_nat (n mod 0x10000)" by (simp add: word_unat_eq_iff unat_of_nat)
    then show ?thesis using assms(1,4) by (simp add: ber_length_enc_def)
  qed
  have z: "ber_sizeof_length n = 3" "ber_sizeof_length (n mod 0x10000) = 3"
    using assms(1,4) by (simp_all add: ber_sizeof_length_def)
  let ?t = "rewound (put s (ber_length_enc n)) (s_pointer s)"
  have l: "length (ber_length_enc n) = 3" using z by (simp add: length_ber_length_enc)
  have t: "wf_stream ?t" "rest ?t = ber_length_enc (n mod 0x10000) @ []"
    using assms l by (simp_all add: wf_rewound rest_rewound stream_simps) (simp add: e)
  have "ber_read_length ?t = Some (Some (n mod 0x10000), Stream_Seek ?t 3)"
    using ber_read_length_rest [OF _ t] z by simp
  then show ?thesis using assms z by (simp add: ber_write_length_put)
qed

end
