(* ===== verification/Mcs.thy ===== *)
theory Mcs
  imports Tpkt Per Ber
begin

text \<open>
  The multipoint communication service of T.125 (\<^verbatim>\<open>libfreerdp/core/mcs.c\<close>): the negotiation of
  domain parameters and the PDUs by which a client and a server attach a user and join channels.

  A \<^verbatim>\<open>send\<close> function returns its result, the MCS state and the stream it hands to
  \<^verbatim>\<open>transport_write\<close>; that call is an argument \<open>tw\<close> giving the transport's status for a stream.
  The GCC conference payload, which \<^verbatim>\<open>gcc.c\<close> reads, is an argument as well.
\<close>

section \<open>State\<close>

record DomainParameters =
  maxChannelIds :: u32
  maxUserIds :: u32
  maxTokenIds :: u32
  numPriorities :: u32
  minThroughput :: u32
  maxHeight :: u32
  maxMCSPDUsize :: u32
  protocolVersion :: u32

record rdpMcsChannel =
  ch_Name :: "byte list"
  ch_options :: u32
  ch_ChannelId :: int
  ch_joined :: bool

record rdpMcs =
  userId :: u16
  baseChannelId :: u16
  messageChannelId :: u16
  domainParameters :: DomainParameters
  targetParameters :: DomainParameters
  minimumParameters :: DomainParameters
  maximumParameters :: DomainParameters
  userChannelJoined :: bool
  globalChannelJoined :: bool
  messageChannelJoined :: bool
  channelCount :: u32
  channelMaxCount :: u32
  channels :: "rdpMcsChannel list"

record CHANNEL_DEF =
  def_name :: "byte list"
  def_options :: u32

definition MCS_BASE_CHANNEL_ID :: u16 where "MCS_BASE_CHANNEL_ID = 1001"
definition MCS_GLOBAL_CHANNEL_ID :: u16 where "MCS_GLOBAL_CHANNEL_ID = 1003"
definition MCS_Result_enum_length :: byte where "MCS_Result_enum_length = 16"
definition MCS_TYPE_CONNECT_INITIAL :: byte where "MCS_TYPE_CONNECT_INITIAL = 0x65"
definition MCS_TYPE_CONNECT_RESPONSE :: byte where "MCS_TYPE_CONNECT_RESPONSE = 0x66"
definition CHANNEL_MAX_COUNT :: u32 where "CHANNEL_MAX_COUNT = 31"

definition DomainMCSPDU_ErectDomainRequest :: byte where "DomainMCSPDU_ErectDomainRequest = 1"
definition DomainMCSPDU_DisconnectProviderUltimatum :: byte where "DomainMCSPDU_DisconnectProviderUltimatum = 8"
definition DomainMCSPDU_AttachUserRequest :: byte where "DomainMCSPDU_AttachUserRequest = 10"
definition DomainMCSPDU_AttachUserConfirm :: byte where "DomainMCSPDU_AttachUserConfirm = 11"
definition DomainMCSPDU_ChannelJoinRequest :: byte where "DomainMCSPDU_ChannelJoinRequest = 14"
definition DomainMCSPDU_ChannelJoinConfirm :: byte where "DomainMCSPDU_ChannelJoinConfirm = 15"

lemmas mcs_consts = MCS_BASE_CHANNEL_ID_def MCS_GLOBAL_CHANNEL_ID_def MCS_Result_enum_length_def
  DomainMCSPDU_ErectDomainRequest_def DomainMCSPDU_DisconnectProviderUltimatum_def
  DomainMCSPDU_AttachUserRequest_def DomainMCSPDU_AttachUserConfirm_def
  DomainMCSPDU_ChannelJoinRequest_def DomainMCSPDU_ChannelJoinConfirm_def

definition zero_channel :: rdpMcsChannel where
  "zero_channel = \<lparr>ch_Name = replicate 8 0, ch_options = 0, ch_ChannelId = 0, ch_joined = False\<rparr>"

text \<open>
  The channel table is zeroed and the first \<open>channelCount\<close> entries take name and options from the
  settings; indexing past either array is a fault.
\<close>

fun init_channels_loop :: "rdpMcsChannel list \<Rightarrow> CHANNEL_DEF list \<Rightarrow> nat \<Rightarrow> nat \<Rightarrow> rdpMcsChannel list option" where
  "init_channels_loop chs defs i 0 = Some chs"
| "init_channels_loop chs defs i (Suc n) =
     (if i < length chs \<and> i < length defs
      then init_channels_loop
        (chs[i := (chs ! i)\<lparr>ch_Name := take 8 (def_name (defs ! i)), ch_options := def_options (defs ! i)\<rparr>])
        defs (i + 1) n
      else None)"

definition mcs_initialize_client_channels :: "rdpMcs \<Rightarrow> u32 \<Rightarrow> CHANNEL_DEF list \<Rightarrow> rdpMcs option" where
  "mcs_initialize_client_channels mcs ChannelCount ChannelDefArray = do {
     let mcs = mcs\<lparr>channelCount := ChannelCount\<rparr>;
     let mcs = (if channelMaxCount mcs < channelCount mcs
                then mcs\<lparr>channelCount := channelMaxCount mcs\<rparr> else mcs);
     zeroed \<leftarrow> mem_write (channels mcs) 0 (replicate (unat (channelMaxCount mcs)) zero_channel);
     chs \<leftarrow> init_channels_loop zeroed ChannelDefArray 0 (unat (channelCount mcs));
     Some (mcs\<lparr>channels := chs\<rparr>) }"

section \<open>Headers of domain PDUs\<close>

definition mcs_read_domain_mcspdu_header :: "wStream \<Rightarrow> byte \<Rightarrow> (u16 option \<times> wStream) option" where
  "mcs_read_domain_mcspdu_header s MCSPDU = do {
     (len, s) \<leftarrow> tpkt_read_header s;
     (case len of None \<Rightarrow> Some (None, s)
      | Some len \<Rightarrow> do {
          (li, s) \<leftarrow> tpdu_read_data s len;
          (case li of None \<Rightarrow> Some (None, s)
           | Some li \<Rightarrow> do {
               (choice, s) \<leftarrow> per_read_choice s;
               (case choice of None \<Rightarrow> Some (None, s)
                | Some choice \<Rightarrow>
                    if drop_bit 2 choice \<noteq> MCSPDU then Some (None, s) else Some (Some len, s)) }) }) }"

definition mcs_write_domain_mcspdu_header ::
  "allocator \<Rightarrow> wStream \<Rightarrow> byte \<Rightarrow> u16 \<Rightarrow> byte \<Rightarrow> wStream option" where
  "mcs_write_domain_mcspdu_header malloc s domainMCSPDU len options = do {
     (_, s) \<leftarrow> tpkt_write_header s len;
     s \<leftarrow> tpdu_write_data s;
     (_, s) \<leftarrow> per_write_choice malloc s (push_bit 2 domainMCSPDU OR options);
     Some s }"

section \<open>Domain parameters\<close>

definition mcs_init_domain_parameters :: "u32 \<Rightarrow> u32 \<Rightarrow> u32 \<Rightarrow> u32 \<Rightarrow> DomainParameters" where
  "mcs_init_domain_parameters mci mui mti mps =
     \<lparr>maxChannelIds = mci, maxUserIds = mui, maxTokenIds = mti, numPriorities = 1,
      minThroughput = 0, maxHeight = 1, maxMCSPDUsize = mps, protocolVersion = 2\<rparr>"

text \<open>
  The \<open>n\<close> integers of a sequence, read with the short-circuiting conjunction of the source; the
  values read before a failure have been stored all the same.
\<close>

fun ber_read_integers :: "nat \<Rightarrow> wStream \<Rightarrow> ((bool \<times> u32 list) \<times> wStream) option" where
  "ber_read_integers 0 s = Some ((True, []), s)"
| "ber_read_integers (Suc n) s = do {
     (v, s) \<leftarrow> ber_read_integer s;
     (case v of None \<Rightarrow> Some ((False, []), s)
      | Some v \<Rightarrow> do { ((ok, vs), s) \<leftarrow> ber_read_integers n s; Some ((ok, v # vs), s) }) }"

definition domain_parameters_of :: "u32 list \<Rightarrow> DomainParameters" where
  "domain_parameters_of v =
     \<lparr>maxChannelIds = v ! 0, maxUserIds = v ! 1, maxTokenIds = v ! 2, numPriorities = v ! 3,
      minThroughput = v ! 4, maxHeight = v ! 5, maxMCSPDUsize = v ! 6, protocolVersion = v ! 7\<rparr>"

definition domain_parameter_list :: "DomainParameters \<Rightarrow> u32 list" where
  "domain_parameter_list p =
     [maxChannelIds p, maxUserIds p, maxTokenIds p, numPriorities p, minThroughput p, maxHeight p,
      maxMCSPDUsize p, protocolVersion p]"

definition mcs_read_domain_parameters ::
  "DomainParameters \<Rightarrow> wStream \<Rightarrow> ((bool \<times> DomainParameters) \<times> wStream) option" where
  "mcs_read_domain_parameters p s = do {
     (len, s) \<leftarrow> ber_read_sequence_tag s;
     (case len of None \<Rightarrow> Some ((False, p), s)
      | Some len \<Rightarrow> do {
          ((ok, vs), s) \<leftarrow> ber_read_integers 8 s;
          Some ((ok, domain_parameters_of (vs @ drop (length vs) (domain_parameter_list p))), s) }) }"

fun ber_write_integers :: "wStream \<Rightarrow> u32 list \<Rightarrow> wStream option" where
  "ber_write_integers s [] = Some s"
| "ber_write_integers s (v # vs) = do { (_, s) \<leftarrow> ber_write_integer s v; ber_write_integers s vs }"

definition mcs_write_domain_parameters ::
  "allocator \<Rightarrow> wStream \<Rightarrow> DomainParameters \<Rightarrow> (bool \<times> wStream) option" where
  "mcs_write_domain_parameters malloc s p =
     (case Stream_New malloc None (s_capacity s) of
        None \<Rightarrow> Some (False, s)
      | Some tmps \<Rightarrow> do {
          tmps \<leftarrow> ber_write_integers tmps (domain_parameter_list p);
          let len = Stream_GetPosition tmps;
          (_, s) \<leftarrow> ber_write_sequence_tag s len;
          bs \<leftarrow> mem_read (s_buffer tmps) 0 len;
          s \<leftarrow> Stream_Write s bs;
          Some (True, s) })"

text \<open>The merge stores each field as soon as it is decided, so a refusal leaves the earlier ones set.\<close>

definition mcs_merge_domain_parameters ::
  "DomainParameters \<Rightarrow> DomainParameters \<Rightarrow> DomainParameters \<Rightarrow> DomainParameters \<Rightarrow> bool \<times> DomainParameters" where
  "mcs_merge_domain_parameters target minimum maximum p =
     (if \<not> (maxChannelIds target \<ge> 4 \<or> maxChannelIds maximum \<ge> 4) then (False, p) else
      let p = p\<lparr>maxChannelIds := if maxChannelIds target \<ge> 4 then maxChannelIds target else 4\<rparr> in
      if \<not> (maxUserIds target \<ge> 3 \<or> maxUserIds maximum \<ge> 3) then (False, p) else
      let p = p\<lparr>maxUserIds := if maxUserIds target \<ge> 3 then maxUserIds target else 3,
               maxTokenIds := maxTokenIds target\<rparr> in
      if \<not> numPriorities minimum \<le> 1 then (False, p) else
      let p = p\<lparr>numPriorities := 1, minThroughput := minThroughput target\<rparr> in
      if \<not> (maxHeight target = 1 \<or> maxHeight minimum \<le> 1) then (False, p) else
      let p = p\<lparr>maxHeight := 1\<rparr> in
      case (if maxMCSPDUsize target \<ge> 1024 then
              if maxMCSPDUsize target \<le> 65528 then Some (maxMCSPDUsize target)
              else if maxMCSPDUsize minimum \<ge> 124 \<and> maxMCSPDUsize minimum \<le> 65528 then Some 65528
              else None
            else if maxMCSPDUsize maximum \<ge> 124 then Some (maxMCSPDUsize maximum) else None) of
        None \<Rightarrow> (False, p)
      | Some n \<Rightarrow>
          let p = p\<lparr>maxMCSPDUsize := n\<rparr> in
          if protocolVersion target = 2 \<or> protocolVersion minimum \<le> 2 \<and> protocolVersion maximum \<ge> 2
          then (True, p\<lparr>protocolVersion := 2\<rparr>) else (False, p))"

section \<open>Connecting\<close>

definition skip_octet_string :: "wStream \<Rightarrow> (bool \<times> wStream) option" where
  "skip_octet_string s = do {
     (len, s) \<leftarrow> ber_read_octet_string_tag s;
     (case len of None \<Rightarrow> Some (False, s)
      | Some len \<Rightarrow> if Stream_GetRemainingLength s < len then Some (False, s)
                   else Some (True, Stream_Seek s len)) }"

text \<open>
  The readers and writers of the GCC payload (\<^verbatim>\<open>gcc.c\<close>) are arguments: \<open>gcc_read\<close> stands for
  \<^verbatim>\<open>gcc_read_conference_create_request\<close> and \<^verbatim>\<open>gcc_read_conference_create_response\<close>, \<open>gcc_blocks\<close> for
  \<^verbatim>\<open>gcc_write_client_data_blocks\<close> and \<^verbatim>\<open>gcc_write_server_data_blocks\<close>, \<open>gcc_create\<close> for
  \<^verbatim>\<open>gcc_write_conference_create_request\<close> and \<^verbatim>\<open>gcc_write_conference_create_response\<close>.
  A failing step returns with the MCS state as updated so far.
\<close>

type_synonym gcc_reader = "rdpMcs \<Rightarrow> wStream \<Rightarrow> ((bool \<times> rdpMcs) \<times> wStream) option"
type_synonym gcc_blocks_writer = "rdpMcs \<Rightarrow> wStream \<Rightarrow> (bool \<times> wStream) option"
type_synonym gcc_create_writer = "wStream \<Rightarrow> wStream \<Rightarrow> (bool \<times> wStream) option"

definition mcs_recv_connect_initial :: "gcc_reader \<Rightarrow> gcc_reader" where
  "mcs_recv_connect_initial gcc_read mcs s = do {
     (tlength, s) \<leftarrow> tpkt_read_header s;
     (case tlength of None \<Rightarrow> Some ((False, mcs), s) | Some tlength \<Rightarrow> do {
     (li, s) \<leftarrow> tpdu_read_data s tlength;
     (if li = None then Some ((False, mcs), s) else do {
     (len, s) \<leftarrow> ber_read_application_tag s MCS_TYPE_CONNECT_INITIAL;
     (if len = None then Some ((False, mcs), s) else do {
     (ok, s) \<leftarrow> skip_octet_string s;
     (if \<not> ok then Some ((False, mcs), s) else do {
     (ok, s) \<leftarrow> skip_octet_string s;
     (if \<not> ok then Some ((False, mcs), s) else do {
     (upwardFlag, s) \<leftarrow> ber_read_BOOL s;
     (if upwardFlag = None then Some ((False, mcs), s) else do {
     ((ok, p), s) \<leftarrow> mcs_read_domain_parameters (targetParameters mcs) s;
     let mcs = mcs\<lparr>targetParameters := p\<rparr>;
     (if \<not> ok then Some ((False, mcs), s) else do {
     ((ok, p), s) \<leftarrow> mcs_read_domain_parameters (minimumParameters mcs) s;
     let mcs = mcs\<lparr>minimumParameters := p\<rparr>;
     (if \<not> ok then Some ((False, mcs), s) else do {
     ((ok, p), s) \<leftarrow> mcs_read_domain_parameters (maximumParameters mcs) s;
     let mcs = mcs\<lparr>maximumParameters := p\<rparr>;
     (if \<not> ok then Some ((False, mcs), s) else do {
     (len, s) \<leftarrow> ber_read_octet_string_tag s;
     (case len of None \<Rightarrow> Some ((False, mcs), s) | Some len \<Rightarrow>
     if Stream_GetRemainingLength s < len then Some ((False, mcs), s) else do {
     ((ok, mcs), s) \<leftarrow> gcc_read mcs s;
     (if \<not> ok then Some ((False, mcs), s) else
     let (ok, p) = mcs_merge_domain_parameters (targetParameters mcs) (minimumParameters mcs)
           (maximumParameters mcs) (domainParameters mcs);
         mcs = mcs\<lparr>domainParameters := p\<rparr>
     in if \<not> ok then Some ((False, mcs), s)
        else Some ((tpkt_ensure_stream_consumed s, mcs), s)) }) }) }) }) }) }) }) }) }) }) }"

definition mcs_recv_connect_response :: "gcc_reader \<Rightarrow> gcc_reader" where
  "mcs_recv_connect_response gcc_read mcs s = do {
     (tlength, s) \<leftarrow> tpkt_read_header s;
     (case tlength of None \<Rightarrow> Some ((False, mcs), s) | Some tlength \<Rightarrow> do {
     (li, s) \<leftarrow> tpdu_read_data s tlength;
     (if li = None then Some ((False, mcs), s) else do {
     (len, s) \<leftarrow> ber_read_application_tag s MCS_TYPE_CONNECT_RESPONSE;
     (if len = None then Some ((False, mcs), s) else do {
     (result, s) \<leftarrow> ber_read_enumerated s MCS_Result_enum_length;
     (if result = None then Some ((False, mcs), s) else do {
     (calledConnectId, s) \<leftarrow> ber_read_integer s;
     (if calledConnectId = None then Some ((False, mcs), s) else do {
     ((ok, p), s) \<leftarrow> mcs_read_domain_parameters (domainParameters mcs) s;
     let mcs = mcs\<lparr>domainParameters := p\<rparr>;
     (if \<not> ok then Some ((False, mcs), s) else do {
     (len, s) \<leftarrow> ber_read_octet_string_tag s;
     (if len = None then Some ((False, mcs), s) else do {
     ((ok, mcs), s) \<leftarrow> gcc_read mcs s;
     (if \<not> ok then Some ((False, mcs), s)
      else Some ((tpkt_ensure_stream_consumed s, mcs), s)) }) }) }) }) }) }) }) }"

text \<open>Both writers assemble the PDU in a temporary stream of the capacity of \<open>s\<close> and prefix its length.\<close>

definition mcs_write_connect_initial ::
  "allocator \<Rightarrow> wStream \<Rightarrow> rdpMcs \<Rightarrow> wStream \<Rightarrow> (bool \<times> wStream) option" where
  "mcs_write_connect_initial malloc s mcs userData =
     (case Stream_New malloc None (s_capacity s) of
        None \<Rightarrow> Some (False, s)
      | Some tmps \<Rightarrow> do {
          (_, tmps) \<leftarrow> ber_write_octet_string tmps [1];
          (_, tmps) \<leftarrow> ber_write_octet_string tmps [1];
          tmps \<leftarrow> ber_write_BOOL tmps True;
          (ok, tmps) \<leftarrow> mcs_write_domain_parameters malloc tmps (targetParameters mcs);
          (if \<not> ok then Some (False, s) else do {
          (ok, tmps) \<leftarrow> mcs_write_domain_parameters malloc tmps (minimumParameters mcs);
          (if \<not> ok then Some (False, s) else do {
          (ok, tmps) \<leftarrow> mcs_write_domain_parameters malloc tmps (maximumParameters mcs);
          (if \<not> ok then Some (False, s) else do {
          ud \<leftarrow> mem_read (s_buffer userData) 0 (Stream_GetPosition userData);
          (_, tmps) \<leftarrow> ber_write_octet_string tmps ud;
          let len = Stream_GetPosition tmps;
          s \<leftarrow> ber_write_application_tag s MCS_TYPE_CONNECT_INITIAL len;
          bs \<leftarrow> mem_read (s_buffer tmps) 0 len;
          s \<leftarrow> Stream_Write s bs;
          Some (True, s) }) }) }) })"

definition mcs_write_connect_response ::
  "allocator \<Rightarrow> wStream \<Rightarrow> rdpMcs \<Rightarrow> wStream \<Rightarrow> (bool \<times> wStream) option" where
  "mcs_write_connect_response malloc s mcs userData =
     (case Stream_New malloc None (s_capacity s) of
        None \<Rightarrow> Some (False, s)
      | Some tmps \<Rightarrow> do {
          tmps \<leftarrow> ber_write_enumerated tmps 0 MCS_Result_enum_length;
          (_, tmps) \<leftarrow> ber_write_integer tmps 0;
          (ok, tmps) \<leftarrow> mcs_write_domain_parameters malloc tmps (domainParameters mcs);
          (if \<not> ok then Some (False, s) else do {
          ud \<leftarrow> mem_read (s_buffer userData) 0 (Stream_GetPosition userData);
          (_, tmps) \<leftarrow> ber_write_octet_string tmps ud;
          let len = Stream_GetPosition tmps;
          s \<leftarrow> ber_write_application_tag s MCS_TYPE_CONNECT_RESPONSE len;
          bs \<leftarrow> mem_read (s_buffer tmps) 0 len;
          s \<leftarrow> Stream_Write s bs;
          Some (True, s) }) })"

text \<open>
  The common tail of the two senders: seven bytes are left for the headers, the PDU is written
  behind them, and the headers are filled in once its length is known. A jump to \<^verbatim>\<open>out\<close> before
  \<^verbatim>\<open>transport_write\<close> returns \<open>FALSE\<close> because \<^verbatim>\<open>status\<close> is still \<open>- 1\<close>.
\<close>

definition send_connect_pdu ::
  "allocator \<Rightarrow> (wStream \<Rightarrow> int) \<Rightarrow> (wStream \<Rightarrow> wStream \<Rightarrow> (bool \<times> wStream) option) \<Rightarrow> nat \<Rightarrow> wStream \<Rightarrow>
   (bool \<times> wStream option) option" where
  "send_connect_pdu malloc tw write_pdu sz gcc =
     (case Stream_New malloc None sz of None \<Rightarrow> Some (False, None)
      | Some s \<Rightarrow> do {
          let bm = Stream_GetPosition s;
          let s = Stream_Seek s 7;
          (ok, s) \<leftarrow> write_pdu s gcc;
          (if \<not> ok then Some (False, None) else do {
          let em = Stream_GetPosition s;
          let len = sub64 em bm;
          (if len > 0xFFFF then Some (False, None) else do {
          let s = Stream_SetPosition s bm;
          (ok, s) \<leftarrow> tpkt_write_header s (word_of_nat len);
          (if \<not> ok then Some (False, None) else do {
          s \<leftarrow> tpdu_write_data s;
          let s = Stream_SealLength (Stream_SetPosition s em);
          Some (\<not> tw s < 0, Some s) }) }) }) })"

definition mcs_send_connect_initial ::
  "gcc_blocks_writer \<Rightarrow> gcc_create_writer \<Rightarrow> allocator \<Rightarrow> (wStream \<Rightarrow> int) \<Rightarrow> u32 \<Rightarrow> CHANNEL_DEF list \<Rightarrow>
   rdpMcs \<Rightarrow> (bool \<times> rdpMcs \<times> wStream option) option" where
  "mcs_send_connect_initial gcc_blocks gcc_create malloc tw ChannelCount ChannelDefArray mcs = do {
     mcs \<leftarrow> mcs_initialize_client_channels mcs ChannelCount ChannelDefArray;
     (case Stream_New malloc None 512 of None \<Rightarrow> Some (False, mcs, None)
      | Some client_data \<Rightarrow> do {
          (ok, client_data) \<leftarrow> gcc_blocks mcs client_data;
          (if \<not> ok then Some (False, mcs, None) else
          case Stream_New malloc None 1024 of None \<Rightarrow> Some (False, mcs, None)
          | Some gcc_CCrq \<Rightarrow> do {
              (ok, gcc_CCrq) \<leftarrow> gcc_create gcc_CCrq client_data;
              (if \<not> ok then Some (False, mcs, None) else do {
              let len = add64 (Stream_GetPosition gcc_CCrq) 7;
              (ok, s) \<leftarrow> send_connect_pdu malloc tw (\<lambda>s. mcs_write_connect_initial malloc s mcs)
                 (add64 1024 len) gcc_CCrq;
              Some (ok, mcs, s) }) }) }) }"

definition mcs_send_connect_response ::
  "gcc_blocks_writer \<Rightarrow> gcc_create_writer \<Rightarrow> allocator \<Rightarrow> (wStream \<Rightarrow> int) \<Rightarrow>
   rdpMcs \<Rightarrow> (bool \<times> rdpMcs \<times> wStream option) option" where
  "mcs_send_connect_response gcc_blocks gcc_create malloc tw mcs =
     (case Stream_New malloc None 512 of None \<Rightarrow> Some (False, mcs, None)
      | Some server_data \<Rightarrow> do {
          (ok, server_data) \<leftarrow> gcc_blocks mcs server_data;
          (if \<not> ok then Some (False, mcs, None) else
          case Stream_New malloc None (add64 512 (s_capacity server_data)) of None \<Rightarrow> Some (False, mcs, None)
          | Some gcc_CCrsp \<Rightarrow> do {
              (ok, gcc_CCrsp) \<leftarrow> gcc_create gcc_CCrsp server_data;
              (if \<not> ok then Some (False, mcs, None) else do {
              let len = add64 (Stream_GetPosition gcc_CCrsp) 7;
              (ok, s) \<leftarrow> send_connect_pdu malloc tw (\<lambda>s. mcs_write_connect_response malloc s mcs)
                 (add64 len 1024) gcc_CCrsp;
              Some (ok, mcs, s) }) }) })"

section \<open>Domain PDUs\<close>

definition mcs_recv_erect_domain_request :: "wStream \<Rightarrow> (bool \<times> wStream) option" where
  "mcs_recv_erect_domain_request s = do {
     (len, s) \<leftarrow> mcs_read_domain_mcspdu_header s DomainMCSPDU_ErectDomainRequest;
     (if len = None then Some (False, s) else do {
     (subHeight, s) \<leftarrow> per_read_integer s;
     (if subHeight = None then Some (False, s) else do {
     (subInterval, s) \<leftarrow> per_read_integer s;
     (if subInterval = None then Some (False, s)
      else Some (tpkt_ensure_stream_consumed s, s)) }) }) }"

definition mcs_recv_attach_user_request :: "wStream \<Rightarrow> (bool \<times> wStream) option" where
  "mcs_recv_attach_user_request s = do {
     (len, s) \<leftarrow> mcs_read_domain_mcspdu_header s DomainMCSPDU_AttachUserRequest;
     (if len = None then Some (False, s) else Some (tpkt_ensure_stream_consumed s, s)) }"

text \<open>
  A failed \<^verbatim>\<open>per_read_integer16\<close> has already stored the raw 16 bits it read, here in the user id;
  with fewer than two bytes left it stores nothing.
\<close>

definition mcs_recv_attach_user_confirm :: "rdpMcs \<Rightarrow> wStream \<Rightarrow> ((bool \<times> rdpMcs) \<times> wStream) option" where
  "mcs_recv_attach_user_confirm mcs s = do {
     (len, s) \<leftarrow> mcs_read_domain_mcspdu_header s DomainMCSPDU_AttachUserConfirm;
     (if len = None then Some ((False, mcs), s) else do {
     (result, s) \<leftarrow> per_read_enumerated s MCS_Result_enum_length;
     (if result = None then Some ((False, mcs), s) else do {
     (uid, t) \<leftarrow> per_read_integer16 s MCS_BASE_CHANNEL_ID;
     (case uid of
        None \<Rightarrow> if Stream_GetRemainingLength s < 2 then Some ((False, mcs), t)
          else do { (raw, _) \<leftarrow> Stream_Read_UINT16_BE s; Some ((False, mcs\<lparr>userId := raw\<rparr>), t) }
      | Some uid \<Rightarrow> Some ((tpkt_ensure_stream_consumed t, mcs\<lparr>userId := uid\<rparr>), t)) }) }) }"

text \<open>
  The user id check of the source is \<^verbatim>\<open>!per_read_integer16(...) && (userId == mcs->userId)\<close>: it is
  evaluated only when reading fails, on the value the failed read left behind (the raw 16 bits, or
  the uninitialised local \<open>junk\<close> when fewer than two bytes were left).
\<close>

definition join_user_refused :: "u16 \<Rightarrow> rdpMcs \<Rightarrow> wStream \<Rightarrow> (bool \<times> wStream) option" where
  "join_user_refused junk mcs s = do {
     (uid, s') \<leftarrow> per_read_integer16 s MCS_BASE_CHANNEL_ID;
     refused \<leftarrow> (case uid of Some _ \<Rightarrow> Some False
       | None \<Rightarrow> if Stream_GetRemainingLength s < 2 then Some (junk = userId mcs)
                 else do { (raw, _) \<leftarrow> Stream_Read_UINT16_BE s; Some (raw = userId mcs) });
     Some (refused, s') }"

definition mcs_recv_channel_join_request ::
  "u16 \<Rightarrow> rdpMcs \<Rightarrow> wStream \<Rightarrow> (u16 option \<times> wStream) option" where
  "mcs_recv_channel_join_request junk mcs s = do {
     (len, s) \<leftarrow> mcs_read_domain_mcspdu_header s DomainMCSPDU_ChannelJoinRequest;
     (if len = None then Some (None, s) else do {
     (refused, s) \<leftarrow> join_user_refused junk mcs s;
     (if refused then Some (None, s) else do {
     (channelId, s) \<leftarrow> per_read_integer16 s 0;
     (case channelId of None \<Rightarrow> Some (None, s)
      | Some channelId \<Rightarrow>
          if tpkt_ensure_stream_consumed s then Some (Some channelId, s) else Some (None, s)) }) }) }"

definition mcs_recv_channel_join_confirm :: "wStream \<Rightarrow> (u16 option \<times> wStream) option" where
  "mcs_recv_channel_join_confirm s = do {
     (len, s) \<leftarrow> mcs_read_domain_mcspdu_header s DomainMCSPDU_ChannelJoinConfirm;
     (if len = None then Some (None, s) else do {
     (result, s) \<leftarrow> per_read_enumerated s MCS_Result_enum_length;
     (if result = None then Some (None, s) else do {
     (initiator, s) \<leftarrow> per_read_integer16 s MCS_BASE_CHANNEL_ID;
     (if initiator = None then Some (None, s) else do {
     (requested, s) \<leftarrow> per_read_integer16 s 0;
     (if requested = None then Some (None, s) else do {
     (channelId, s) \<leftarrow> per_read_integer16 s 0;
     (case channelId of None \<Rightarrow> Some (None, s)
      | Some channelId \<Rightarrow>
          if tpkt_ensure_stream_consumed s then Some (Some channelId, s) else Some (None, s)) }) }) }) }) }"

definition mcs_recv_disconnect_provider_ultimatum :: "wStream \<Rightarrow> (int option \<times> wStream) option" where
  "mcs_recv_disconnect_provider_ultimatum s =
     (if Stream_GetRemainingLength s < 1 then Some (None, s)
      else do {
        s \<leftarrow> Stream_Rewind s 1;
        (b1, s) \<leftarrow> Stream_Read_UINT8 s;
        (b2, s) \<leftarrow> Stream_Read_UINT8 s;
        Some (Some (push_bit 1 (uint (b1 AND 1)) OR uint (drop_bit 7 b2)), s) })"

text \<open>The senders: \<open>None\<close> in the last component when no stream could be allocated.\<close>

definition mcs_send_erect_domain_request ::
  "allocator \<Rightarrow> (wStream \<Rightarrow> int) \<Rightarrow> rdpMcs \<Rightarrow> (bool \<times> rdpMcs \<times> wStream option) option" where
  "mcs_send_erect_domain_request malloc tw mcs =
     (case Stream_New malloc None 12 of None \<Rightarrow> Some (False, mcs, None)
      | Some s \<Rightarrow> do {
          s \<leftarrow> mcs_write_domain_mcspdu_header malloc s DomainMCSPDU_ErectDomainRequest 12 0;
          (_, s) \<leftarrow> per_write_integer malloc s 0;
          (_, s) \<leftarrow> per_write_integer malloc s 0;
          let s = Stream_SealLength s;
          Some (\<not> tw s < 0, mcs, Some s) })"

definition mcs_send_attach_user_request ::
  "allocator \<Rightarrow> (wStream \<Rightarrow> int) \<Rightarrow> rdpMcs \<Rightarrow> (bool \<times> rdpMcs \<times> wStream option) option" where
  "mcs_send_attach_user_request malloc tw mcs =
     (case Stream_New malloc None 8 of None \<Rightarrow> Some (False, mcs, None)
      | Some s \<Rightarrow> do {
          s \<leftarrow> mcs_write_domain_mcspdu_header malloc s DomainMCSPDU_AttachUserRequest 8 0;
          let s = Stream_SealLength s;
          Some (\<not> tw s < 0, mcs, Some s) })"

definition mcs_send_attach_user_confirm ::
  "allocator \<Rightarrow> (wStream \<Rightarrow> int) \<Rightarrow> rdpMcs \<Rightarrow> (bool \<times> rdpMcs \<times> wStream option) option" where
  "mcs_send_attach_user_confirm malloc tw mcs =
     (case Stream_New malloc None 11 of None \<Rightarrow> Some (False, mcs, None)
      | Some s \<Rightarrow> do {
          let mcs = mcs\<lparr>userId := baseChannelId mcs, baseChannelId := baseChannelId mcs + 1\<rparr>;
          s \<leftarrow> mcs_write_domain_mcspdu_header malloc s DomainMCSPDU_AttachUserConfirm 11 2;
          (_, s) \<leftarrow> per_write_enumerated malloc s 0 MCS_Result_enum_length;
          (_, s) \<leftarrow> per_write_integer16 malloc s (userId mcs) MCS_BASE_CHANNEL_ID;
          let s = Stream_SealLength s;
          Some (\<not> tw s < 0, mcs, Some s) })"

definition mcs_send_channel_join_request ::
  "allocator \<Rightarrow> (wStream \<Rightarrow> int) \<Rightarrow> rdpMcs \<Rightarrow> u16 \<Rightarrow> (bool \<times> rdpMcs \<times> wStream option) option" where
  "mcs_send_channel_join_request malloc tw mcs channelId =
     (case Stream_New malloc None 12 of None \<Rightarrow> Some (False, mcs, None)
      | Some s \<Rightarrow> do {
          s \<leftarrow> mcs_write_domain_mcspdu_header malloc s DomainMCSPDU_ChannelJoinRequest 12 0;
          (_, s) \<leftarrow> per_write_integer16 malloc s (userId mcs) MCS_BASE_CHANNEL_ID;
          (_, s) \<leftarrow> per_write_integer16 malloc s channelId 0;
          let s = Stream_SealLength s;
          Some (\<not> tw s < 0, mcs, Some s) })"

definition mcs_send_channel_join_confirm ::
  "allocator \<Rightarrow> (wStream \<Rightarrow> int) \<Rightarrow> rdpMcs \<Rightarrow> u16 \<Rightarrow> (bool \<times> rdpMcs \<times> wStream option) option" where
  "mcs_send_channel_join_confirm malloc tw mcs channelId =
     (case Stream_New malloc None 15 of None \<Rightarrow> Some (False, mcs, None)
      | Some s \<Rightarrow> do {
          s \<leftarrow> mcs_write_domain_mcspdu_header malloc s DomainMCSPDU_ChannelJoinConfirm 15 2;
          (_, s) \<leftarrow> per_write_enumerated malloc s 0 MCS_Result_enum_length;
          (_, s) \<leftarrow> per_write_integer16 malloc s (userId mcs) MCS_BASE_CHANNEL_ID;
          (_, s) \<leftarrow> per_write_integer16 malloc s channelId 0;
          (_, s) \<leftarrow> per_write_integer16 malloc s channelId 0;
          let s = Stream_SealLength s;
          Some (\<not> tw s < 0, mcs, Some s) })"

definition mcs_send_disconnect_provider_ultimatum ::
  "allocator \<Rightarrow> (wStream \<Rightarrow> int) \<Rightarrow> rdpMcs \<Rightarrow> (bool \<times> rdpMcs \<times> wStream option) option" where
  "mcs_send_disconnect_provider_ultimatum malloc tw mcs =
     (case Stream_New malloc None 9 of None \<Rightarrow> Some (False, mcs, None)
      | Some s \<Rightarrow> do {
          s \<leftarrow> mcs_write_domain_mcspdu_header malloc s DomainMCSPDU_DisconnectProviderUltimatum 9 1;
          (_, s) \<leftarrow> per_write_enumerated malloc s 0x80 0;
          Some (\<not> tw s < 0, mcs, Some s) })"

definition mcs_new :: "rdpMcs" where
  "mcs_new =
     \<lparr>userId = 0, baseChannelId = MCS_GLOBAL_CHANNEL_ID + 1, messageChannelId = 0,
      domainParameters = mcs_init_domain_parameters 0 0 0 0xFFFF,
      targetParameters = mcs_init_domain_parameters 34 2 0 0xFFFF,
      minimumParameters = mcs_init_domain_parameters 1 1 1 0x420,
      maximumParameters = mcs_init_domain_parameters 0xFFFF 0xFC17 0xFFFF 0xFFFF,
      userChannelJoined = False, globalChannelJoined = False, messageChannelJoined = False,
      channelCount = 0, channelMaxCount = CHANNEL_MAX_COUNT,
      channels = replicate (unat CHANNEL_MAX_COUNT) zero_channel\<rparr>"

section \<open>Memory safety of the receivers\<close>

lemma safe_mcs_header: "safe_reader (\<lambda>s. mcs_read_domain_mcspdu_header s pdu)"
  unfolding mcs_read_domain_mcspdu_header_def
  by (intro safe_bind safe_case_option safe_if safe_return safe_tpkt_read_header safe_tpdu_read_data
      safe_per_read_choice)

lemmas safe_mcs = safe_bind safe_if safe_return safe_case_option safe_mcs_header safe_per_read_integer
  safe_per_read_integer16 safe_per_read_enumerated

lemma ultimatum_after_choice:
  assumes "wf_stream s" "1 \<le> avail s"
  shows "run_ok (mcs_recv_disconnect_provider_ultimatum (Stream_Seek s 1)) (\<lambda>_. consumed s)"
proof -
  have "Stream_Rewind (Stream_Seek s 1) 1 = Some s" by (simp add: Stream_Rewind_def Stream_Seek_def)
  then show ?thesis using assms by (auto simp: mcs_recv_disconnect_provider_ultimatum_def stream_simps)
qed

lemma safe_erect_domain_request: "safe_reader mcs_recv_erect_domain_request"
  unfolding mcs_recv_erect_domain_request_def by (intro safe_mcs)

lemma safe_attach_user_request: "safe_reader mcs_recv_attach_user_request"
  unfolding mcs_recv_attach_user_request_def by (intro safe_mcs)

lemma safe_attach_user_confirm: "safe_reader (mcs_recv_attach_user_confirm mcs)"
  unfolding mcs_recv_attach_user_confirm_def
  by (intro safe_mcs, rule safe_readerI) (auto simp: per_read_integer16_def stream_simps)

lemma safe_channel_join_confirm: "safe_reader mcs_recv_channel_join_confirm"
  unfolding mcs_recv_channel_join_confirm_def by (intro safe_mcs)

lemma safe_case_prod [intro]:
  "(\<And>a b. safe_reader (g a b)) \<Longrightarrow> safe_reader (case x of (a, b) \<Rightarrow> g a b)"
  "(\<And>a b. safe_reader (g a b)) \<Longrightarrow> safe_reader (\<lambda>s. case x of (a, b) \<Rightarrow> g a b s)"
  by (cases x; auto)+

lemma safe_read_integers: "safe_reader (ber_read_integers n)"
  by (induction n) (auto intro!: safe_bind safe_return safe_case_option safe_case_prod safe_ber_read_integer)

lemma safe_domain_parameters: "safe_reader (mcs_read_domain_parameters p)"
  unfolding mcs_read_domain_parameters_def
  by (intro safe_bind safe_return safe_case_option safe_case_prod safe_ber_read_sequence_tag safe_read_integers)

lemma safe_skip_octet_string: "safe_reader skip_octet_string"
  unfolding skip_octet_string_def
  by (intro safe_bind safe_case_option safe_return safe_ber_read_octet_string_tag)
     (auto simp: safe_reader_def stream_simps)

lemmas safe_connect = safe_bind safe_if safe_return safe_case_option safe_case_prod safe_tpkt_read_header
  safe_tpdu_read_data safe_ber_read_application_tag safe_skip_octet_string safe_ber_read_BOOL
  safe_domain_parameters safe_ber_read_octet_string_tag safe_ber_read_enumerated safe_ber_read_integer

lemma safe_connect_initial:
  "(\<And>m. safe_reader (gcc_read m)) \<Longrightarrow> safe_reader (mcs_recv_connect_initial gcc_read mcs)"
  unfolding mcs_recv_connect_initial_def Let_def by (intro safe_connect)

lemma safe_connect_response:
  "(\<And>m. safe_reader (gcc_read m)) \<Longrightarrow> safe_reader (mcs_recv_connect_response gcc_read mcs)"
  unfolding mcs_recv_connect_response_def Let_def by (intro safe_connect)

lemma safe_join_user_refused: "safe_reader (join_user_refused junk mcs)"
proof (rule safe_readerI)
  fix s assume w: "wf_stream s"
  obtain uid s' where "per_read_integer16 s MCS_BASE_CHANNEL_ID = Some (uid, s')" "consumed s s'"
    using safe_readerD [OF safe_per_read_integer16 w] by (rule run_okE)
  then show "run_ok (join_user_refused junk mcs s) (\<lambda>_. consumed s)"
    using w by (auto simp: join_user_refused_def stream_simps split: option.splits)
qed

lemma safe_channel_join_request: "safe_reader (mcs_recv_channel_join_request junk mcs)"
  unfolding mcs_recv_channel_join_request_def by (intro safe_mcs safe_join_user_refused)

section \<open>Round trips\<close>

definition mcs_header_enc :: "byte \<Rightarrow> u16 \<Rightarrow> byte \<Rightarrow> byte list" where
  "mcs_header_enc pdu n opt = tpkt_enc n @ tpdu_enc 2 X224_TPDU_DATA @ [push_bit 2 pdu OR opt]"

lemma length_mcs_header_enc [simp]: "length (mcs_header_enc pdu n opt) = 8"
  by (simp add: mcs_header_enc_def tpkt_enc_def tpdu_enc_def)

lemma mcs_header_put [stream_simps]:
  "wf_cap s \<Longrightarrow> 8 \<le> room s \<Longrightarrow>
   mcs_write_domain_mcspdu_header malloc s pdu n opt = Some (put s (mcs_header_enc pdu n opt))"
  by (simp add: mcs_write_domain_mcspdu_header_def mcs_header_enc_def tpdu_write_data_def
      per_write_choice_def stream_simps tpkt_enc_def tpdu_enc_def)

lemma choice_split:
  assumes "unat pdu < 64" "unat opt < 4"
  shows "drop_bit 2 (push_bit 2 pdu OR opt) = (pdu :: byte)"
proof (rule bit_word_eqI)
  fix n assume "n < LENGTH(8)"
  moreover have "\<not> bit opt (2 + n)" using assms by (intro not_bit_of_small [of _ 2]) simp_all
  moreover have "6 \<le> n \<Longrightarrow> \<not> bit pdu n" using assms by (intro not_bit_of_small [of _ 6]) simp_all
  ultimately show "bit (drop_bit 2 (push_bit 2 pdu OR opt)) n = bit pdu n"
    by (cases "6 \<le> n") (auto simp: bit_simps)
qed

lemma mcs_header_rest [stream_simps]:
  assumes "unat pdu < 64" "unat opt < 4" "unat n = 8 + length r" "wf_stream s"
    "rest s = mcs_header_enc pdu n opt @ r"
  shows "mcs_read_domain_mcspdu_header s pdu = Some (Some n, Stream_Seek s 8)"
proof -
  have a: "avail s = 8 + length r" using length_rest [OF assms(4)] assms(5) by simp
  have 1: "tpkt_read_header s = Some (Some n, Stream_Seek s 4)"
    using assms by (intro tpkt_read_header_rest [where r = "tpdu_enc 2 X224_TPDU_DATA @ (push_bit 2 pdu OR opt) # r"])
      (simp_all add: mcs_header_enc_def tpdu_enc_def)
  have 2: "tpdu_read_data (Stream_Seek s 4) n = Some (Some 2, Stream_Seek s 7)"
    using assms a tpdu_read_data_rest [of n "Stream_Seek s 4" "(push_bit 2 pdu OR opt) # r"]
    by (simp add: stream_simps mcs_header_enc_def tpkt_enc_def)
  have "rest s ! 7 = push_bit 2 pdu OR opt"
    using assms(5) by (simp add: mcs_header_enc_def tpkt_enc_def tpdu_enc_def)
  then have 3: "per_read_choice (Stream_Seek s 7) = Some (Some (push_bit 2 pdu OR opt), Stream_Seek s 8)"
    using assms a
    by (simp add: per_read_choice_def stream_simps mcs_header_enc_def tpkt_enc_def tpdu_enc_def)
  show ?thesis using choice_split [OF assms(1,2)]
    by (simp add: mcs_read_domain_mcspdu_header_def 1 2 3)
qed

lemma Stream_New_fresh:
  assumes "malloc_ok malloc" "malloc n = Some junk" "0 < n" "n < 2 ^ 64"
  obtains s where "Stream_New malloc None n = Some s" "wf_cap s" "s_pointer s = 0" "room s = n"
  using assms by (auto simp: Stream_New_def wf_cap_def room_def malloc_ok_def)

lemma rewound_fresh:
  assumes "wf_cap s" "s_pointer s = 0" "length e \<le> room s"
  shows "wf_stream (rewound (put s e) 0)" "rest (rewound (put s e) 0) = e"
    "avail (rewound (put s e) 0) = length e"
proof -
  show 1: "wf_stream (rewound (put s e) 0)" "rest (rewound (put s e) 0) = e"
    using assms by (simp_all add: wf_rewound rest_rewound stream_simps) (simp add: out_def)
  then show "avail (rewound (put s e) 0) = length e" using length_rest by force
qed

lemma tpkt_consumed: "wf_stream s \<Longrightarrow> tpkt_ensure_stream_consumed s \<longleftrightarrow> avail s = 0"
  by (simp add: tpkt_ensure_stream_consumed_def stream_simps)

lemma per_enumerated_rest [stream_simps]:
  "wf_stream s \<Longrightarrow> rest s = v # r \<Longrightarrow> unat v < unat cnt \<Longrightarrow>
   per_read_enumerated s cnt = Some (Some v, Stream_Seek s 1)"
  using length_rest [of s] by (auto simp: per_read_enumerated_def stream_simps)

lemma per_write_enumerated_put [stream_simps]:
  "wf_cap s \<Longrightarrow> 1 \<le> room s \<Longrightarrow> per_write_enumerated malloc s v cnt = Some (True, put s [v])"
  by (simp add: per_write_enumerated_def stream_simps)

lemma sent_fresh:
  assumes "malloc_ok malloc" "Stream_New malloc None (length e) = Some s" "length e < 2 ^ 64"
  shows "wf_cap s" "room s = length e" "sent e (Stream_SealLength (put s e))"
proof -
  have s: "wf_cap s" "room s = length e" "s_pointer s = 0"
    using assms by (auto simp: Stream_New_def wf_cap_def room_def malloc_ok_def split: if_splits option.splits)
  then show "wf_cap s" "room s = length e" by simp_all
  show "sent e (Stream_SealLength (put s e))"
    using rewound_fresh [of s e] s by (simp add: sent_def rewound_def)
qed

lemma fresh_sent:
  assumes "malloc_ok malloc" "malloc n = Some blk" "0 < n" "n < 2 ^ 64"
  obtains s where "Stream_New malloc None n = Some s"
    and "\<And>e. length e = n \<Longrightarrow> sent e (Stream_SealLength (put s e))"
proof -
  obtain s where s: "Stream_New malloc None n = Some s" using assms(2,3) by (auto simp: Stream_New_def)
  moreover have "sent e (Stream_SealLength (put s e))" if "length e = n" for e
    using that s assms by (intro sent_fresh(3)) simp_all
  ultimately show thesis using that by blast
qed

definition erect_domain_enc :: "byte list" where
  "erect_domain_enc = mcs_header_enc DomainMCSPDU_ErectDomainRequest 12 0 @ [1, 0, 1, 0]"

definition attach_user_request_enc :: "byte list" where
  "attach_user_request_enc = mcs_header_enc DomainMCSPDU_AttachUserRequest 8 0"

definition attach_user_confirm_enc :: "u16 \<Rightarrow> byte list" where
  "attach_user_confirm_enc uid = mcs_header_enc DomainMCSPDU_AttachUserConfirm 11 2 @
     [0] @ per_integer16_enc MCS_BASE_CHANNEL_ID uid"

definition channel_join_request_enc :: "u16 \<Rightarrow> u16 \<Rightarrow> byte list" where
  "channel_join_request_enc uid ch = mcs_header_enc DomainMCSPDU_ChannelJoinRequest 12 0 @
     per_integer16_enc MCS_BASE_CHANNEL_ID uid @ per_integer16_enc 0 ch"

definition channel_join_confirm_enc :: "u16 \<Rightarrow> u16 \<Rightarrow> byte list" where
  "channel_join_confirm_enc uid ch = mcs_header_enc DomainMCSPDU_ChannelJoinConfirm 15 2 @
     [0] @ per_integer16_enc MCS_BASE_CHANNEL_ID uid @ per_integer16_enc 0 ch @ per_integer16_enc 0 ch"

lemma length_mcs_encs [simp]:
  "length (per_integer16_enc mn v) = 2"
  "length erect_domain_enc = 12" "length attach_user_request_enc = 8"
  "length (attach_user_confirm_enc uid) = 11" "length (channel_join_request_enc uid ch) = 12"
  "length (channel_join_confirm_enc uid ch) = 15"
  by (simp_all add: per_integer16_enc_def erect_domain_enc_def attach_user_request_enc_def
      attach_user_confirm_enc_def channel_join_request_enc_def channel_join_confirm_enc_def)

text \<open>What each sender puts on the wire.\<close>

lemma send_erect_domain_request:
  assumes "malloc_ok malloc" "Stream_New malloc None 12 = Some s"
  shows "mcs_send_erect_domain_request malloc tw mcs =
    (let s = Stream_SealLength (put s erect_domain_enc) in Some (\<not> tw s < 0, mcs, Some s))"
  using assms sent_fresh [of malloc erect_domain_enc s]
  by (simp add: mcs_send_erect_domain_request_def erect_domain_enc_def stream_simps per_integer_enc_def Let_def)

lemma send_attach_user_request:
  assumes "malloc_ok malloc" "Stream_New malloc None 8 = Some s"
  shows "mcs_send_attach_user_request malloc tw mcs =
    (let s = Stream_SealLength (put s attach_user_request_enc) in Some (\<not> tw s < 0, mcs, Some s))"
  using assms sent_fresh [of malloc attach_user_request_enc s]
  by (simp add: mcs_send_attach_user_request_def attach_user_request_enc_def stream_simps Let_def)

lemma send_attach_user_confirm:
  assumes "malloc_ok malloc" "Stream_New malloc None 11 = Some s"
  shows "mcs_send_attach_user_confirm malloc tw mcs =
    (let s = Stream_SealLength (put s (attach_user_confirm_enc (baseChannelId mcs)))
     in Some (\<not> tw s < 0, mcs\<lparr>userId := baseChannelId mcs, baseChannelId := baseChannelId mcs + 1\<rparr>, Some s))"
  using assms sent_fresh [of malloc "attach_user_confirm_enc (baseChannelId mcs)" s]
  by (simp add: mcs_send_attach_user_confirm_def attach_user_confirm_enc_def stream_simps Let_def)

lemma send_channel_join_request:
  assumes "malloc_ok malloc" "Stream_New malloc None 12 = Some s"
  shows "mcs_send_channel_join_request malloc tw mcs ch =
    (let s = Stream_SealLength (put s (channel_join_request_enc (userId mcs) ch)) in Some (\<not> tw s < 0, mcs, Some s))"
  using assms sent_fresh [of malloc "channel_join_request_enc (userId mcs) ch" s]
  by (simp add: mcs_send_channel_join_request_def channel_join_request_enc_def stream_simps Let_def)

lemma send_channel_join_confirm:
  assumes "malloc_ok malloc" "Stream_New malloc None 15 = Some s"
  shows "mcs_send_channel_join_confirm malloc tw mcs ch =
    (let s = Stream_SealLength (put s (channel_join_confirm_enc (userId mcs) ch)) in Some (\<not> tw s < 0, mcs, Some s))"
  using assms sent_fresh [of malloc "channel_join_confirm_enc (userId mcs) ch" s]
  by (simp add: mcs_send_channel_join_confirm_def channel_join_confirm_enc_def stream_simps Let_def)

text \<open>What each receiver makes of it.\<close>

lemma recv_erect_domain:
  assumes "wf_stream s" "rest s = erect_domain_enc"
  shows "run_ok (mcs_recv_erect_domain_request s) (\<lambda>ok _. ok)"
proof -
  have a: "avail s = 12" using length_rest [OF assms(1)] assms(2) by simp
  have 1: "mcs_read_domain_mcspdu_header s DomainMCSPDU_ErectDomainRequest = Some (Some 12, Stream_Seek s 8)"
    using assms by (intro mcs_header_rest [where r = "[1, 0, 1, 0]" and opt = 0])
      (simp_all add: erect_domain_enc_def mcs_consts)
  have 2: "per_read_integer (Stream_Seek s 8) = Some (Some 0, Stream_Seek s 10)"
    using per_read_integer_rest [of 0 "Stream_Seek s 8" "[1, 0]"] assms a
    by (simp add: per_integer_enc_def stream_simps erect_domain_enc_def)
  have 3: "per_read_integer (Stream_Seek s 10) = Some (Some 0, Stream_Seek s 12)"
    using per_read_integer_rest [of 0 "Stream_Seek s 10" "[]"] assms a
    by (simp add: per_integer_enc_def stream_simps erect_domain_enc_def)
  show ?thesis using assms a
    by (simp add: mcs_recv_erect_domain_request_def 1 2 3 tpkt_consumed stream_simps)
qed

lemma recv_attach_user_request:
  assumes "wf_stream s" "rest s = attach_user_request_enc"
  shows "run_ok (mcs_recv_attach_user_request s) (\<lambda>ok _. ok)"
proof -
  have a: "avail s = 8" using length_rest [OF assms(1)] assms(2) by simp
  have 1: "mcs_read_domain_mcspdu_header s DomainMCSPDU_AttachUserRequest = Some (Some 8, Stream_Seek s 8)"
    using assms by (intro mcs_header_rest [where r = "[]" and opt = 0])
      (simp_all add: attach_user_request_enc_def mcs_consts)
  show ?thesis using assms a
    by (simp add: mcs_recv_attach_user_request_def 1 tpkt_consumed stream_simps)
qed

lemma integer16_rest_at:
  assumes "wf_stream s" "drop k (rest s) = per_integer16_enc mn v @ r" "mn \<le> v" "k \<le> avail s"
  shows "per_read_integer16 (Stream_Seek s k) mn = Some (Some v, Stream_Seek s (k + 2))"
  using per_read_integer16_rest [of mn v "Stream_Seek s k" r] assms by (simp add: stream_simps)

lemma recv_attach_user_confirm:
  assumes "wf_stream s" "rest s = attach_user_confirm_enc uid" "MCS_BASE_CHANNEL_ID \<le> uid"
  shows "run_ok (mcs_recv_attach_user_confirm mcs s) (\<lambda>r _. r = (True, mcs\<lparr>userId := uid\<rparr>))"
proof -
  have a: "avail s = 11" using length_rest [OF assms(1)] assms(2) by simp
  have 1: "mcs_read_domain_mcspdu_header s DomainMCSPDU_AttachUserConfirm = Some (Some 11, Stream_Seek s 8)"
    using assms by (intro mcs_header_rest [where r = "[0] @ per_integer16_enc MCS_BASE_CHANNEL_ID uid" and opt = 2])
      (simp_all add: attach_user_confirm_enc_def mcs_consts)
  have 2: "per_read_enumerated (Stream_Seek s 8) MCS_Result_enum_length = Some (Some 0, Stream_Seek s 9)"
    using per_enumerated_rest [of "Stream_Seek s 8" 0 _ MCS_Result_enum_length] assms a
    by (simp add: stream_simps attach_user_confirm_enc_def mcs_consts)
  have 3: "per_read_integer16 (Stream_Seek s 9) MCS_BASE_CHANNEL_ID = Some (Some uid, Stream_Seek s 11)"
    using integer16_rest_at [of s 9 MCS_BASE_CHANNEL_ID uid "[]"] assms a
    by (simp add: attach_user_confirm_enc_def)
  show ?thesis using assms a
    by (simp add: mcs_recv_attach_user_confirm_def 1 2 3 tpkt_consumed stream_simps)
qed

lemma recv_channel_join_request:
  assumes "wf_stream s" "rest s = channel_join_request_enc uid ch" "MCS_BASE_CHANNEL_ID \<le> uid"
  shows "run_ok (mcs_recv_channel_join_request junk mcs s) (\<lambda>r _. r = Some ch)"
proof -
  have a: "avail s = 12" using length_rest [OF assms(1)] assms(2) by simp
  have 1: "mcs_read_domain_mcspdu_header s DomainMCSPDU_ChannelJoinRequest = Some (Some 12, Stream_Seek s 8)"
    using assms by (intro mcs_header_rest [where r = "per_integer16_enc MCS_BASE_CHANNEL_ID uid @ per_integer16_enc 0 ch" and opt = 0])
      (simp_all add: channel_join_request_enc_def mcs_consts)
  have 2: "per_read_integer16 (Stream_Seek s 8) MCS_BASE_CHANNEL_ID = Some (Some uid, Stream_Seek s 10)"
    using integer16_rest_at [of s 8 MCS_BASE_CHANNEL_ID uid "per_integer16_enc 0 ch"] assms a
    by (simp add: channel_join_request_enc_def)
  have 3: "per_read_integer16 (Stream_Seek s 10) 0 = Some (Some ch, Stream_Seek s 12)"
    using integer16_rest_at [of s 10 0 ch "[]"] assms a by (simp add: channel_join_request_enc_def)
  show ?thesis using assms a
    by (simp add: mcs_recv_channel_join_request_def join_user_refused_def 1 2 3 tpkt_consumed stream_simps)
qed

lemma recv_channel_join_confirm:
  assumes "wf_stream s" "rest s = channel_join_confirm_enc uid ch" "MCS_BASE_CHANNEL_ID \<le> uid"
  shows "run_ok (mcs_recv_channel_join_confirm s) (\<lambda>r _. r = Some ch)"
proof -
  have a: "avail s = 15" using length_rest [OF assms(1)] assms(2) by simp
  have 1: "mcs_read_domain_mcspdu_header s DomainMCSPDU_ChannelJoinConfirm = Some (Some 15, Stream_Seek s 8)"
    using assms by (intro mcs_header_rest [where opt = 2 and r = "[0] @ per_integer16_enc MCS_BASE_CHANNEL_ID uid @
        per_integer16_enc 0 ch @ per_integer16_enc 0 ch"])
      (simp_all add: channel_join_confirm_enc_def mcs_consts)
  have 2: "per_read_enumerated (Stream_Seek s 8) MCS_Result_enum_length = Some (Some 0, Stream_Seek s 9)"
    using per_enumerated_rest [of "Stream_Seek s 8" 0 _ MCS_Result_enum_length] assms a
    by (simp add: stream_simps channel_join_confirm_enc_def mcs_consts)
  have 3: "per_read_integer16 (Stream_Seek s 9) MCS_BASE_CHANNEL_ID = Some (Some uid, Stream_Seek s 11)"
    using integer16_rest_at [of s 9 MCS_BASE_CHANNEL_ID uid "per_integer16_enc 0 ch @ per_integer16_enc 0 ch"] assms a
    by (simp add: channel_join_confirm_enc_def)
  have 4: "per_read_integer16 (Stream_Seek s 11) 0 = Some (Some ch, Stream_Seek s 13)"
    "per_read_integer16 (Stream_Seek s 13) 0 = Some (Some ch, Stream_Seek s 15)"
    using integer16_rest_at [of s 11 0 ch "per_integer16_enc 0 ch"] integer16_rest_at [of s 13 0 ch "[]"] assms a
    by (simp_all add: channel_join_confirm_enc_def)
  show ?thesis using assms a
    by (simp add: mcs_recv_channel_join_confirm_def 1 2 3 4 tpkt_consumed stream_simps)
qed

section \<open>Domain parameters on the wire\<close>

definition parameters_body :: "DomainParameters \<Rightarrow> byte list" where
  "parameters_body p = concat (map ber_integer_enc (domain_parameter_list p))"

definition parameters_enc :: "DomainParameters \<Rightarrow> byte list" where
  "parameters_enc p = 0x30 # word_of_nat (length (parameters_body p)) # parameters_body p"

lemma ber_sizeof_integer_bounds: "3 \<le> ber_sizeof_integer v" "ber_sizeof_integer v \<le> 6"
  by (simp_all add: ber_sizeof_integer_def)

lemma integers_enc_bounds:
  "3 * length vs \<le> length (concat (map ber_integer_enc vs))"
  "length (concat (map ber_integer_enc vs)) \<le> 6 * length vs"
  by (induction vs) (auto simp: length_ber_integer_enc ber_sizeof_integer_def)

lemma parameters_body_bounds: "24 \<le> length (parameters_body p)" "length (parameters_body p) \<le> 48"
  using integers_enc_bounds [of "domain_parameter_list p"]
  by (simp_all add: parameters_body_def domain_parameter_list_def)

lemma length_parameters_enc: "length (parameters_enc p) = 2 + length (parameters_body p)"
  by (simp add: parameters_enc_def)

lemma ber_write_integers_put:
  "wf_cap s \<Longrightarrow> length (concat (map ber_integer_enc vs)) \<le> room s \<Longrightarrow>
   ber_write_integers s vs = Some (put s (concat (map ber_integer_enc vs)))"
  by (induction vs arbitrary: s) (simp_all add: stream_simps length_ber_integer_enc)

lemma ber_read_integers_rest:
  "wf_stream s \<Longrightarrow> rest s = concat (map ber_integer_enc vs) @ r \<Longrightarrow>
   ber_read_integers (length vs) s = Some ((True, vs), Stream_Seek s (length (concat (map ber_integer_enc vs))))"
proof (induction vs arbitrary: s)
  case (Cons v vs)
  then have "ber_read_integer s = Some (Some v, Stream_Seek s (ber_sizeof_integer v))"
    by (intro ber_read_integer_rest [where r = "concat (map ber_integer_enc vs) @ r"]) auto
  moreover have "ber_sizeof_integer v \<le> avail s"
    using Cons.prems length_rest [of s] by (simp add: length_ber_integer_enc)
  ultimately show ?case using Cons.prems
    by (simp add: Cons.IH stream_simps length_ber_integer_enc)
qed simp

text \<open>A scratch stream of the same capacity as \<open>s\<close>, as both connect PDU writers allocate it.\<close>

lemma Stream_New_like:
  assumes "malloc_ok malloc" "alloc_total malloc" "wf_cap s" "0 < room s"
  obtains t where "Stream_New malloc None (s_capacity s) = Some t" "wf_cap t" "s_pointer t = 0"
    "room t = s_capacity s" "room s \<le> room t"
proof -
  obtain b where b: "malloc (s_capacity s) = Some b" "length b = s_capacity s"
    using assms(1,2) by (fastforce simp: malloc_ok_def alloc_total_def)
  then have "Stream_New malloc None (s_capacity s) \<noteq> None"
    using assms(3,4) by (auto simp: Stream_New_def wf_cap_def room_def)
  then obtain t where t: "Stream_New malloc None (s_capacity s) = Some t" by blast
  then show thesis
    using assms(3,4) b by (intro that [OF t]) (auto simp: Stream_New_def wf_cap_def room_def split: if_splits)
qed

lemma fresh_put_read:
  "wf_cap t \<Longrightarrow> s_pointer t = 0 \<Longrightarrow> length e \<le> room t \<Longrightarrow>
   mem_read (s_buffer (put t e)) 0 (length e) = Some e"
  by (auto simp: put_def wf_cap_def room_def mem_read_def)

lemma ber_write_sequence_tag_put [stream_simps]:
  "wf_cap s \<Longrightarrow> 1 + ber_sizeof_length n \<le> room s \<Longrightarrow>
   ber_write_sequence_tag s n = Some (1 + ber_sizeof_length n, put s (0x30 # ber_length_enc n))"
  by (simp add: ber_write_sequence_tag_def stream_simps ber_tags length_ber_length_enc)

lemma write_domain_parameters_put [stream_simps]:
  assumes "malloc_ok malloc" "alloc_total malloc" "wf_cap s" "length (parameters_enc p) \<le> room s"
  shows "mcs_write_domain_parameters malloc s p = Some (True, put s (parameters_enc p))"
proof -
  have r: "0 < room s" using assms(4) by (simp add: parameters_enc_def)
  obtain t where t: "Stream_New malloc None (s_capacity s) = Some t" "wf_cap t" "s_pointer t = 0"
      "room s \<le> room t"
    using Stream_New_like [OF assms(1-3) r] by blast
  let ?b = "parameters_body p"
  have l: "length ?b \<le> room t" "length ?b + 2 \<le> room s" using assms(4) t(4) by (simp_all add: length_parameters_enc)
  have b: "ber_write_integers t (domain_parameter_list p) = Some (put t ?b)"
    using ber_write_integers_put [OF t(2)] l by (simp add: parameters_body_def)
  have n: "ber_sizeof_length (length ?b) = 1" "ber_length_enc (length ?b) = [word_of_nat (length ?b)]"
    using parameters_body_bounds [of p] by (simp_all add: ber_sizeof_length_def ber_length_enc_def)
  show ?thesis
    using l assms t by (simp add: mcs_write_domain_parameters_def b n Stream_GetPosition_def fresh_put_read
        stream_simps Let_def parameters_enc_def)
qed

lemma read_domain_parameters_rest [stream_simps]:
  assumes "wf_stream s" "rest s = parameters_enc p @ r"
  shows "mcs_read_domain_parameters q s = Some ((True, p), Stream_Seek s (length (parameters_enc p)))"
proof -
  let ?b = "parameters_body p"
  have a: "avail s = 2 + length ?b + length r" using rest_split [OF assms] by (simp add: length_parameters_enc)
  have l: "ber_read_length (Stream_Seek s 1) = Some (Some (length ?b), Stream_Seek s 2)"
    using ber_read_short_length_rest [of "Stream_Seek s 1" "length ?b" "?b @ r"] parameters_body_bounds [of p] assms a
    by (simp add: stream_simps parameters_enc_def)
  have i: "ber_read_integers 8 (Stream_Seek s 2) = Some ((True, domain_parameter_list p), Stream_Seek s (2 + length ?b))"
    using ber_read_integers_rest [of "Stream_Seek s 2" "domain_parameter_list p" r] assms a
    by (simp add: stream_simps parameters_enc_def parameters_body_def domain_parameter_list_def)
  have t: "ber_read_sequence_tag s = Some (Some (length ?b), Stream_Seek s 2)"
    using assms a by (simp add: ber_read_sequence_tag_def stream_simps ber_tags parameters_enc_def l [unfolded One_nat_def])
  show ?thesis
    by (simp add: mcs_read_domain_parameters_def t i domain_parameters_of_def domain_parameter_list_def length_parameters_enc)
qed

interpretation domain_parameters: wire_codec "\<lambda>_. True" parameters_enc
    "\<lambda>p s. mcs_write_domain_parameters zero_malloc s p"
    "\<lambda>s. map_option (\<lambda>((ok, p), s). (if ok then Some p else None, s)) (mcs_read_domain_parameters q s)" for q
  by unfold_locales (auto simp: write_domain_parameters_put read_domain_parameters_rest alloc_total_def zero_malloc_def)

text \<open>A successful merge is within the limits of the protocol, whatever the peer proposed.\<close>

lemma merge_bounds:
  "mcs_merge_domain_parameters t mn mx p = (True, q) \<Longrightarrow>
   4 \<le> maxChannelIds q \<and> 3 \<le> maxUserIds q \<and> numPriorities q = 1 \<and> maxHeight q = 1 \<and>
   124 \<le> maxMCSPDUsize q \<and> protocolVersion q = 2 \<and> maxTokenIds q = maxTokenIds t \<and>
   (maxMCSPDUsize q \<le> 65528 \<or> maxMCSPDUsize q = maxMCSPDUsize mx)"
  unfolding mcs_merge_domain_parameters_def Let_def
  by (clarsimp simp: not_le split: if_split_asm option.split_asm) (rule order_trans [of _ 1024], simp_all)+

section \<open>The client's channel table\<close>

definition channel_of :: "CHANNEL_DEF \<Rightarrow> rdpMcsChannel" where
  "channel_of d = zero_channel\<lparr>ch_Name := take 8 (def_name d), ch_options := def_options d\<rparr>"

lemma init_channels_loop_eq:
  assumes "i + n \<le> length chs" "i + n \<le> length defs" "\<forall>j. i \<le> j \<and> j < i + n \<longrightarrow> chs ! j = zero_channel"
  shows "init_channels_loop chs defs i n =
    Some (take i chs @ map channel_of (take n (drop i defs)) @ drop (i + n) chs)"
  using assms
proof (induction n arbitrary: i chs)
  case (Suc n)
  let ?chs = "chs[i := channel_of (defs ! i)]"
  have "init_channels_loop chs defs i (Suc n) = init_channels_loop ?chs defs (i + 1) n"
    using Suc.prems by (simp add: channel_of_def)
  also have "\<dots> = Some (take (i + 1) ?chs @ map channel_of (take n (drop (i + 1) defs)) @ drop (i + 1 + n) ?chs)"
    using Suc.prems by (intro Suc.IH) auto
  also have "take (i + 1) ?chs = take i chs @ [channel_of (defs ! i)]"
    using Suc.prems by (simp add: take_Suc_conv_app_nth)
  finally have "init_channels_loop chs defs i (Suc n) = Some (take i chs @ (channel_of (defs ! i) #
      map channel_of (take n (drop (i + 1) defs))) @ drop (i + 1 + n) ?chs)" by simp
  also have "channel_of (defs ! i) # map channel_of (take n (drop (i + 1) defs)) = map channel_of (take (Suc n) (drop i defs))"
    using Suc.prems by (simp add: Cons_nth_drop_Suc [symmetric])
  finally show ?case using Suc.prems by simp
qed simp

section \<open>Properties of the service\<close>

text \<open>
  C24: No receiver of the domain PDUs reads outside the buffer of a well-formed stream, whatever bytes
  the peer sent: the erect-domain request, the attach-user request and confirmation and the
  channel-join request and confirmation return and only advance the stream within its length. The
  same holds of \<^verbatim>\<open>mcs_recv_disconnect_provider_ultimatum\<close>, which steps back one byte, called
  as \<^verbatim>\<open>rdp_read_header\<close> calls it: behind the byte that holds the choice of the PDU. The two connect
  PDUs, whose user data goes to \<^verbatim>\<open>gcc.c\<close>, are not part of the claim.
\<close>

theorem mcs_receivers_safe:
  assumes "wf_stream s" "0 < avail s"
  shows "safe_reader mcs_recv_erect_domain_request \<and> safe_reader mcs_recv_attach_user_request \<and>
    safe_reader (mcs_recv_attach_user_confirm mcs) \<and> safe_reader (mcs_recv_channel_join_request junk mcs) \<and>
    safe_reader mcs_recv_channel_join_confirm \<and>
    run_ok (mcs_recv_disconnect_provider_ultimatum (Stream_Seek s 1)) (\<lambda>_. consumed s)"
  using assms by (intro conjI safe_erect_domain_request safe_attach_user_request safe_attach_user_confirm
      safe_channel_join_request safe_channel_join_confirm ultimatum_after_choice) simp_all

text \<open>A choice byte with nothing behind it: the receiver refuses without stepping back.\<close>

theorem mcs_receivers_safe_witness:
  "safe_reader (mcs_recv_attach_user_confirm mcs_new) \<and> safe_reader (mcs_recv_channel_join_request 7 mcs_new) \<and>
   run_ok (mcs_recv_disconnect_provider_ultimatum (Stream_Seek (Stream_StaticInit [0x21]) 1)) (\<lambda>_. consumed (Stream_StaticInit [0x21]))"
  using mcs_receivers_safe [of "Stream_StaticInit [0x21]" mcs_new 7]
  by (simp add: Stream_StaticInit_def wf_stream_def wf_cap_def avail_def)

text \<open>
  C27: After the server's Attach-User-Confirm the client holds the user id that the server assigned:
  the server takes its next channel id as the user's id and moves on to the one after it, and the
  client that reads the message stores the same id.
\<close>

theorem mcs_attach_user_agreement:
  assumes "malloc_ok malloc" "malloc 11 = Some blk" "MCS_BASE_CHANNEL_ID \<le> baseChannelId srv"
  shows "\<exists>s srv'. mcs_send_attach_user_confirm malloc tw srv = Some (\<not> tw s < 0, srv', Some s) \<and>
    userId srv' = baseChannelId srv \<and> baseChannelId srv' = baseChannelId srv + 1 \<and>
    run_ok (mcs_recv_attach_user_confirm cl (Stream_SetPosition s 0))
      (\<lambda>r _. r = (True, cl\<lparr>userId := userId srv'\<rparr>))"
proof -
  obtain s where s: "Stream_New malloc None 11 = Some s"
    and e: "sent (attach_user_confirm_enc uid) (Stream_SealLength (put s (attach_user_confirm_enc uid)))" for uid
    by (rule fresh_sent [OF assms(1,2)]) simp_all
  show ?thesis using assms(3) e
    by (simp add: send_attach_user_confirm [OF assms(1) s] Let_def sent_def recv_attach_user_confirm)
qed

theorem mcs_attach_user_agreement_witness:
  "\<exists>s srv'. mcs_send_attach_user_confirm zero_malloc (\<lambda>_. 11) mcs_new = Some (\<not> (11 :: int) < 0, srv', Some s) \<and>
    userId srv' = 1004 \<and> baseChannelId srv' = 1005 \<and>
    run_ok (mcs_recv_attach_user_confirm mcs_new (Stream_SetPosition s 0))
      (\<lambda>r _. r = (True, mcs_new\<lparr>userId := userId srv'\<rparr>))"
  using mcs_attach_user_agreement [OF malloc_ok_zero, of "replicate 11 0" mcs_new "\<lambda>_. 11" mcs_new]
  by (simp add: zero_malloc_def mcs_new_def mcs_consts)

text \<open>
  A channel join completes: the server reads from the client's Channel-Join-Request the channel
  id the client asked for, and the client reads the same id from the server's confirmation.
\<close>

lemma mcs_channel_join_roundtrip:
  assumes "malloc_ok malloc" "malloc 12 = Some blk" "malloc 15 = Some blk'"
    "MCS_BASE_CHANNEL_ID \<le> userId cl" "MCS_BASE_CHANNEL_ID \<le> userId srv"
  shows "\<exists>s t. mcs_send_channel_join_request malloc tw cl ch = Some (\<not> tw s < 0, cl, Some s) \<and>
    run_ok (mcs_recv_channel_join_request junk srv (Stream_SetPosition s 0)) (\<lambda>r _. r = Some ch) \<and>
    mcs_send_channel_join_confirm malloc tw srv ch = Some (\<not> tw t < 0, srv, Some t) \<and>
    run_ok (mcs_recv_channel_join_confirm (Stream_SetPosition t 0)) (\<lambda>r _. r = Some ch)"
proof -
  obtain s where s: "Stream_New malloc None 12 = Some s"
    and e: "sent (channel_join_request_enc uid ch) (Stream_SealLength (put s (channel_join_request_enc uid ch)))" for uid
    by (rule fresh_sent [OF assms(1,2)]) simp_all
  obtain t where t: "Stream_New malloc None 15 = Some t"
    and f: "sent (channel_join_confirm_enc uid ch) (Stream_SealLength (put t (channel_join_confirm_enc uid ch)))" for uid
    by (rule fresh_sent [OF assms(1,3)]) simp_all
  show ?thesis using assms(4,5) e f
    by (simp add: send_channel_join_request [OF assms(1) s] send_channel_join_confirm [OF assms(1) t] Let_def
        sent_def recv_channel_join_request recv_channel_join_confirm)
qed

text \<open>
  The server accepts a Channel-Join-Request of any user: the id in the request need not be the
  id that the server assigned to this connection, because the check in the source is only evaluated
  when the id could not be read.
\<close>

lemma mcs_join_user_unchecked:
  assumes "wf_stream s" "rest s = channel_join_request_enc uid ch" "MCS_BASE_CHANNEL_ID \<le> uid" "uid \<noteq> userId srv"
  shows "run_ok (mcs_recv_channel_join_request junk srv s) (\<lambda>r _. r = Some ch)"
  using assms by (intro recv_channel_join_request)

text \<open>
  When the merge of the client's domain parameters succeeds, the result is usable whatever the
  client proposed: at least four channels and three users, one priority, height one, version two,
  and a PDU size of at least 124 bytes that exceeds 65528 only when the client's own maximum does.
\<close>

lemma mcs_merge_usable:
  assumes "mcs_merge_domain_parameters target minimum maximum p = (True, q)"
  shows "4 \<le> maxChannelIds q \<and> 3 \<le> maxUserIds q \<and> numPriorities q = 1 \<and> maxHeight q = 1 \<and>
   124 \<le> maxMCSPDUsize q \<and> protocolVersion q = 2 \<and> maxTokenIds q = maxTokenIds target \<and>
   (maxMCSPDUsize q \<le> 65528 \<or> maxMCSPDUsize q = maxMCSPDUsize maximum)"
  using assms by (rule merge_bounds)

text \<open>
  Initialising the client's channels never writes outside the table: the number of channels is
  cut down to the size of the table, the first entries take name and options of the configured
  channels in order, and all others are zero.
\<close>

lemma mcs_initialize_client_channels_ok:
  assumes "length (channels mcs) = unat (channelMaxCount mcs)" "unat cc \<le> length defs"
  shows "\<exists>mcs'. mcs_initialize_client_channels mcs cc defs = Some mcs' \<and>
    channelCount mcs' = min cc (channelMaxCount mcs) \<and>
    channels mcs' = map channel_of (take (unat (channelCount mcs')) defs) @
      replicate (unat (channelMaxCount mcs) - unat (channelCount mcs')) zero_channel"
proof -
  let ?n = "min cc (channelMaxCount mcs)" let ?z = "replicate (unat (channelMaxCount mcs)) zero_channel"
  have n: "unat ?n \<le> unat (channelMaxCount mcs)" "unat ?n \<le> length defs"
    using assms(2) by (auto simp: min_def word_le_nat_alt)
  have "init_channels_loop ?z defs 0 (unat ?n) = Some (map channel_of (take (unat ?n) defs) @
      replicate (unat (channelMaxCount mcs) - unat ?n) zero_channel)"
    using init_channels_loop_eq [of 0 "unat ?n" ?z defs] n by simp
  moreover have "(if channelMaxCount mcs < cc then channelMaxCount mcs else cc) = ?n" by (auto simp: min_def)
  ultimately show ?thesis using assms(1)
    by (auto simp: mcs_initialize_client_channels_def mem_write_def Let_def min_def split: if_splits)
qed

end
