(* ===== verification/Mcs_Connect.thy ===== *)
theory Mcs_Connect
  imports Mcs
begin

text \<open>
  The MCS connect exchange of \<^verbatim>\<open>libfreerdp/core/mcs.c\<close> end to end: what the client's
  Connect-Initial and the server's Connect-Response put on the wire, and that the other side reads
  back exactly the parameters that were sent.

  \<open>reads f e x\<close> says that the reader \<open>f\<close> turns the bytes \<open>e\<close> at the front of any stream into \<open>x\<close>;
  \<open>reads_end\<close> is the same for the last reader of a message. Both compose along the bind of the
  option monad, so that the proof of a message follows its grammar.
\<close>

section \<open>Sequential readers\<close>

definition reads :: "(wStream \<Rightarrow> ('a \<times> wStream) option) \<Rightarrow> byte list \<Rightarrow> 'a \<Rightarrow> bool" where
  "reads f e x \<longleftrightarrow> (\<forall>s r. wf_stream s \<longrightarrow> rest s = e @ r \<longrightarrow> f s = Some (x, Stream_Seek s (length e)))"

definition reads_end :: "(wStream \<Rightarrow> ('a \<times> wStream) option) \<Rightarrow> byte list \<Rightarrow> 'a \<Rightarrow> bool" where
  "reads_end f e x \<longleftrightarrow> (\<forall>s. wf_stream s \<longrightarrow> rest s = e \<longrightarrow> f s = Some (x, Stream_Seek s (length e)))"

lemma readsI: "(\<And>s r. wf_stream s \<Longrightarrow> rest s = e @ r \<Longrightarrow> f s = Some (x, Stream_Seek s (length e))) \<Longrightarrow> reads f e x"
  by (simp add: reads_def)

lemma reads_endI: "(\<And>s. wf_stream s \<Longrightarrow> rest s = e \<Longrightarrow> f s = Some (x, Stream_Seek s (length e))) \<Longrightarrow> reads_end f e x"
  by (simp add: reads_end_def)

lemma readsD: "reads f e x \<Longrightarrow> wf_stream s \<Longrightarrow> rest s = e @ r \<Longrightarrow> f s = Some (x, Stream_Seek s (length e))"
  by (simp add: reads_def)

lemma reads_endD: "reads_end f e x \<Longrightarrow> wf_stream s \<Longrightarrow> rest s = e \<Longrightarrow> f s = Some (x, Stream_Seek s (length e))"
  by (simp add: reads_end_def)

lemma seek_front:
  assumes "wf_stream s" "rest s = e @ r"
  shows "wf_stream (Stream_Seek s (length e))" "rest (Stream_Seek s (length e)) = r"
  using assms rest_split [OF assms] by (simp_all add: stream_simps)

lemma reads_bind:
  assumes "reads f e x" "reads (g x) e' y"
  shows "reads (\<lambda>s. f s \<bind> (\<lambda>(a, s). g a s)) (e @ e') y"
proof (rule readsI)
  fix s r assume s: "wf_stream s" "rest s = (e @ e') @ r"
  then have f: "f s = Some (x, Stream_Seek s (length e))" using readsD [OF assms(1), of s "e' @ r"] by simp
  have t: "wf_stream (Stream_Seek s (length e))" "rest (Stream_Seek s (length e)) = e' @ r"
    using seek_front [of s e "e' @ r"] s by simp_all
  show "(f s \<bind> (\<lambda>(a, s). g a s)) = Some (y, Stream_Seek s (length (e @ e')))"
    using readsD [OF assms(2) t] by (simp add: f)
qed

lemma reads_end_bind:
  assumes "reads f e x" "reads_end (g x) e' y"
  shows "reads_end (\<lambda>s. f s \<bind> (\<lambda>(a, s). g a s)) (e @ e') y"
proof (rule reads_endI)
  fix s assume s: "wf_stream s" "rest s = e @ e'"
  have f: "f s = Some (x, Stream_Seek s (length e))" using readsD [OF assms(1) s] .
  have t: "wf_stream (Stream_Seek s (length e))" "rest (Stream_Seek s (length e)) = e'"
    using seek_front [OF s] by simp_all
  show "(f s \<bind> (\<lambda>(a, s). g a s)) = Some (y, Stream_Seek s (length (e @ e')))"
    using reads_endD [OF assms(2) t] by (simp add: f)
qed

lemma reads_return: "reads (\<lambda>s. Some (x, s)) [] x"
  by (simp add: reads_def)

lemma reads_guard:
  "reads g e x \<Longrightarrow> n \<le> length e \<Longrightarrow> reads (\<lambda>s. if Stream_GetRemainingLength s < n then f s else g s) e x"
  by (auto simp: reads_def stream_simps dest: rest_split)

lemma reads_end_guard:
  "reads_end g e x \<Longrightarrow> n \<le> length e \<Longrightarrow> reads_end (\<lambda>s. if Stream_GetRemainingLength s < n then f s else g s) e x"
  by (auto simp: reads_end_def stream_simps)

lemma reads_end_consumed: "reads_end (\<lambda>s. Some ((tpkt_ensure_stream_consumed s, m), s)) [] (True, m)"
  by (auto simp: reads_end_def tpkt_consumed) (metis length_rest list.size(3))

lemma reads_seek: "reads (\<lambda>s. Some (x, Stream_Seek s (length e))) e x"
  by (simp add: reads_def)

section \<open>The grammar of the connect PDUs\<close>

definition octets_enc :: "byte list \<Rightarrow> byte list" where
  "octets_enc bs = 4 # ber_length_enc (length bs) @ bs"

definition application_enc :: "byte \<Rightarrow> nat \<Rightarrow> byte list" where
  "application_enc tag n = [0x7F, tag] @ ber_length_enc n"

lemma reads_tag: "t = BER_CLASS_UNIV OR BER_PC pc OR (BER_TAG_MASK AND tag) \<Longrightarrow>
    reads (\<lambda>s. ber_read_universal_tag s tag pc) [t] True"
  by (rule readsI) (simp add: ber_read_tag_rest)

lemma reads_length: "n \<le> 0xFFFF \<Longrightarrow> reads ber_read_length (ber_length_enc n) (Some n)"
  by (rule readsI) (simp add: ber_read_length_rest length_ber_length_enc)

lemma reads_octet_tag:
  "n \<le> 0xFFFF \<Longrightarrow> reads ber_read_octet_string_tag (4 # ber_length_enc n) (Some n)"
  using reads_bind [OF reads_tag [of 4 False BER_TAG_OCTET_STRING], of
      "\<lambda>ok s. if \<not> ok then Some (None, s) else ber_read_length s" "ber_length_enc n" "Some n"]
  by (simp add: ber_read_octet_string_tag_def [abs_def] reads_length ber_tags)

lemma reads_skip_octets:
  assumes "length bs \<le> 0xFFFF"
  shows "reads skip_octet_string (octets_enc bs) True"
proof -
  have "reads (\<lambda>s. if Stream_GetRemainingLength s < length bs then Some (False, s) else Some (True, Stream_Seek s (length bs))) bs True"
    by (rule reads_guard [OF reads_seek]) simp
  then have "reads (\<lambda>s. ber_read_octet_string_tag s \<bind> (\<lambda>(len, s). case len of None \<Rightarrow> Some (False, s)
      | Some len \<Rightarrow> if Stream_GetRemainingLength s < len then Some (False, s) else Some (True, Stream_Seek s len)))
      ((4 # ber_length_enc (length bs)) @ bs) True"
    by (intro reads_bind [OF reads_octet_tag [OF assms]]) simp
  then show ?thesis by (simp add: skip_octet_string_def [abs_def] octets_enc_def)
qed

lemma reads_application_tag:
  assumes "tag > 30" "n \<le> 0xFFFF"
  shows "reads (\<lambda>s. ber_read_application_tag s tag) (application_enc tag n) (Some n)"
proof (rule readsI)
  fix s r assume s: "wf_stream s" "rest s = application_enc tag n @ r"
  have a: "2 \<le> avail s" using rest_split [OF s] by (simp add: application_enc_def)
  have "ber_read_length (Stream_Seek s 2) = Some (Some n, Stream_Seek s (2 + ber_sizeof_length n))"
    using ber_read_length_rest [of n "Stream_Seek s 2" r] s a assms by (simp add: stream_simps application_enc_def)
  then show "ber_read_application_tag s tag = Some (Some n, Stream_Seek s (length (application_enc tag n)))"
    using s a assms by (simp add: ber_read_application_tag_def stream_simps application_enc_def ber_tags length_ber_length_enc)
qed

lemma reads_BOOL_true: "reads ber_read_BOOL [1, 1, 0xFF] (Some True)"
proof -
  have "reads (\<lambda>s. if 1 \<noteq> (1::nat) \<or> Stream_GetRemainingLength s < 1 then Some (None, s)
        else Stream_Read_UINT8 s \<bind> (\<lambda>(v, s). Some (Some (v \<noteq> 0), s))) [0xFF] (Some True)"
    by (auto simp: reads_def stream_simps dest: rest_split)
  then have "reads (\<lambda>s. ber_read_length s \<bind> (\<lambda>(len, s). case len of None \<Rightarrow> Some (None, s) | Some len \<Rightarrow>
      if len \<noteq> 1 \<or> Stream_GetRemainingLength s < 1 then Some (None, s)
      else Stream_Read_UINT8 s \<bind> (\<lambda>(v, s). Some (Some (v \<noteq> 0), s)))) (ber_length_enc 1 @ [0xFF]) (Some True)"
    by (intro reads_bind [OF reads_length]) simp_all
  from reads_bind [OF reads_tag [of 1 False BER_TAG_BOOLEAN], of "\<lambda>ok s. if \<not> ok then Some (None, s) else _ s", simplified, OF _ this]
  show ?thesis by (simp add: ber_read_BOOL_def [abs_def] ber_tags ber_length_enc_def)
qed

lemma reads_parameters: "reads (mcs_read_domain_parameters q) (parameters_enc p) (True, p)"
  by (rule readsI) (rule read_domain_parameters_rest)

text \<open>One step of a reader at the front of a stream, in the form the message proofs use it.\<close>

lemma reads_step:
  assumes "reads f e x" "wf_stream s" "rest s = e @ r"
    and "\<And>t. wf_stream t \<Longrightarrow> rest t = r \<Longrightarrow> run_ok (g x t) Q"
  shows "run_ok (f s \<bind> (\<lambda>(a, s). g a s)) Q"
  using readsD [OF assms(1-3)] seek_front [OF assms(2,3)] assms(4) by simp

definition connect_initial_body :: "DomainParameters \<Rightarrow> DomainParameters \<Rightarrow> DomainParameters \<Rightarrow> byte list \<Rightarrow> byte list" where
  "connect_initial_body t mn mx ud =
     octets_enc [1] @ octets_enc [1] @ [1, 1, 0xFF] @
     parameters_enc t @ parameters_enc mn @ parameters_enc mx @ octets_enc ud"

definition connect_response_body :: "DomainParameters \<Rightarrow> byte list \<Rightarrow> byte list" where
  "connect_response_body p ud = [0x0A, 1, 0] @ ber_integer_enc 0 @ parameters_enc p @ octets_enc ud"

definition connect_enc :: "byte \<Rightarrow> byte list \<Rightarrow> byte list" where
  "connect_enc tag body =
     (let pdu = application_enc tag (length body) @ body
      in tpkt_enc (word_of_nat (7 + length pdu)) @ tpdu_enc 2 X224_TPDU_DATA @ pdu)"

lemma connect_headers:
  assumes "wf_stream s" "rest s = connect_enc tag body" "length (connect_enc tag body) \<le> 0xFFFF"
  shows "\<exists>n. tpkt_read_header s = Some (Some n, Stream_Seek s 4)
    \<and> tpdu_read_data (Stream_Seek s 4) n = Some (Some 2, Stream_Seek s 7)
    \<and> wf_stream (Stream_Seek s 7)
    \<and> rest (Stream_Seek s 7) = application_enc tag (length body) @ body"
proof -
  let ?pdu = "application_enc tag (length body) @ body" let ?n = "word_of_nat (7 + length ?pdu) :: u16"
  let ?r = "tpdu_enc 2 X224_TPDU_DATA @ ?pdu"
  have r: "rest s = tpkt_enc ?n @ ?r" using assms(2) by (simp add: connect_enc_def Let_def)
  have l: "length ?r = 3 + length ?pdu" "length (connect_enc tag body) = 7 + length ?pdu"
    by (simp_all add: tpdu_enc_def connect_enc_def Let_def tpkt_enc_def x224_defs)
  have u: "k \<le> 0xFFFF \<Longrightarrow> unat (word_of_nat k :: u16) = k" for k by (simp add: unat_of_nat)
  have n: "unat ?n = 7 + length ?pdu" by (rule u) (use assms(3) l(2) in simp)
  have a: "avail s = 7 + length ?pdu" using rest_split [OF assms(1) r] l(1) by (simp add: tpkt_enc_def)
  have 4: "wf_stream (Stream_Seek s 4)" "rest (Stream_Seek s 4) = ?r"
    using assms(1) r a by (simp_all add: stream_simps tpkt_enc_def)
  have 7: "wf_stream (Stream_Seek s 7)" "rest (Stream_Seek s 7) = ?pdu"
    using assms(1) r a by (simp_all add: stream_simps tpkt_enc_def tpdu_enc_def)
  have "tpkt_read_header s = Some (Some ?n, Stream_Seek s 4)"
    using n l by (intro tpkt_read_header_rest [OF _ _ assms(1) r]) simp_all
  moreover have "tpdu_read_data (Stream_Seek s 4) ?n = Some (Some 2, Stream_Seek s 7)"
    using tpdu_read_data_rest [OF _ 4, of ?n] n by simp
  ultimately show ?thesis using 7 by blast
qed

lemma recv_connect_initial_rest:
  assumes s: "wf_stream s" "rest s = connect_enc MCS_TYPE_CONNECT_INITIAL (connect_initial_body t mn mx ud)"
    and l: "length (rest s) \<le> 0xFFFF"
    and g: "reads (gcc_read (mcs\<lparr>targetParameters := t, minimumParameters := mn, maximumParameters := mx\<rparr>)) ud (True, m)"
    and m: "mcs_merge_domain_parameters (targetParameters m) (minimumParameters m) (maximumParameters m)
      (domainParameters m) = (True, p)"
  shows "run_ok (mcs_recv_connect_initial gcc_read mcs s) (\<lambda>r s'. r = (True, m\<lparr>domainParameters := p\<rparr>) \<and> rest s' = [])"
proof -
  let ?b = "connect_initial_body t mn mx ud"
  obtain n where h: "tpkt_read_header s = Some (Some n, Stream_Seek s 4)"
    "tpdu_read_data (Stream_Seek s 4) n = Some (Some 2, Stream_Seek s 7)"
    and w: "wf_stream (Stream_Seek s 7)" "rest (Stream_Seek s 7) = application_enc MCS_TYPE_CONNECT_INITIAL (length ?b) @ ?b"
    using connect_headers [OF s] l s by auto
  have b: "length ?b \<le> 0xFFFF" "length ud \<le> 0xFFFF"
    using l s by (simp_all add: connect_enc_def connect_initial_body_def octets_enc_def Let_def)
  show ?thesis
    unfolding mcs_recv_connect_initial_def
    apply (simp add: h)
    apply (rule reads_step [OF reads_application_tag, OF _ b(1) w], simp add: MCS_TYPE_CONNECT_INITIAL_def,
        simp add: connect_initial_body_def)
    apply (rule reads_step [OF reads_skip_octets [of "[1]"]], simp, assumption, assumption, simp)+
    apply (rule reads_step [OF reads_BOOL_true], assumption, simp, simp)
    apply (rule reads_step [OF reads_parameters], assumption, assumption, simp add: Let_def octets_enc_def)+
    apply (rule reads_step [OF reads_octet_tag, OF b(2)], assumption, simp, simp)
    apply (simp add: stream_simps flip: length_rest)
    apply (rule reads_step [OF g, where r = "[]"], assumption, simp)
    apply (simp add: m tpkt_consumed flip: length_rest)
    done
qed

lemma reads_enumerated_zero: "0 < unat cnt \<Longrightarrow> reads (\<lambda>s. ber_read_enumerated s cnt) [0x0A, 1, 0] (Some 0)"
proof (rule readsI)
  fix s r assume s: "wf_stream s" "rest s = [0x0A, 1, 0] @ r" and c: "0 < unat cnt"
  have a: "3 \<le> avail s" using rest_split [OF s] by simp
  have t: "ber_read_universal_tag s BER_TAG_ENUMERATED False = Some (True, Stream_Seek s 1)"
    using ber_read_tag_rest [OF s(1), of "0x0A" "[1, 0] @ r"] s(2) by (simp add: ber_tags)
  have l: "ber_read_length (Stream_Seek s 1) = Some (Some 1, Stream_Seek s 2)"
    using ber_read_short_length_rest [of "Stream_Seek s 1" 1 "0 # r"] s a by (simp add: stream_simps)
  show "ber_read_enumerated s cnt = Some (Some 0, Stream_Seek s (length [0x0A, 1, 0 :: byte]))"
    using s a c by (simp add: ber_read_enumerated_def t l [unfolded One_nat_def] stream_simps)
qed

lemma reads_integer: "reads ber_read_integer (ber_integer_enc v) (Some v)"
  by (rule readsI) (simp add: ber_read_integer_rest length_ber_integer_enc)

lemma recv_connect_response_rest:
  assumes s: "wf_stream s" "rest s = connect_enc MCS_TYPE_CONNECT_RESPONSE (connect_response_body p ud)"
    and l: "length (rest s) \<le> 0xFFFF"
    and g: "reads (gcc_read (mcs\<lparr>domainParameters := p\<rparr>)) ud (True, m)"
  shows "run_ok (mcs_recv_connect_response gcc_read mcs s) (\<lambda>r s'. r = (True, m) \<and> rest s' = [])"
proof -
  let ?b = "connect_response_body p ud"
  obtain n where h: "tpkt_read_header s = Some (Some n, Stream_Seek s 4)"
    "tpdu_read_data (Stream_Seek s 4) n = Some (Some 2, Stream_Seek s 7)"
    and w: "wf_stream (Stream_Seek s 7)" "rest (Stream_Seek s 7) = application_enc MCS_TYPE_CONNECT_RESPONSE (length ?b) @ ?b"
    using connect_headers [OF s] l s by auto
  have b: "length ?b \<le> 0xFFFF" "length ud \<le> 0xFFFF"
    using l s by (simp_all add: connect_enc_def connect_response_body_def octets_enc_def Let_def)
  show ?thesis
    unfolding mcs_recv_connect_response_def
    apply (simp add: h)
    apply (rule reads_step [OF reads_application_tag, OF _ b(1) w], simp add: MCS_TYPE_CONNECT_RESPONSE_def,
        simp add: connect_response_body_def)
    apply (rule reads_step [OF reads_enumerated_zero], simp add: mcs_consts, assumption, simp, simp)
    apply (rule reads_step [OF reads_integer], assumption, assumption, simp)
    apply (rule reads_step [OF reads_parameters], assumption, assumption, simp add: Let_def octets_enc_def)
    apply (rule reads_step [OF reads_octet_tag, OF b(2)], assumption, simp, simp)
    apply (rule reads_step [OF g, where r = "[]"], assumption, simp)
    apply (simp add: tpkt_consumed flip: length_rest)
    done
qed

section \<open>Writing the connect PDUs\<close>

lemma ber_write_octet_string_put [stream_simps]:
  "wf_cap s \<Longrightarrow> length (octets_enc bs) \<le> room s \<Longrightarrow>
   ber_write_octet_string s bs = Some (ber_sizeof_octet_string (length bs), put s (octets_enc bs))"
  by (simp add: ber_write_octet_string_def ber_sizeof_octet_string_def octets_enc_def stream_simps ber_tags length_ber_length_enc)

lemma ber_write_BOOL_put [stream_simps]:
  "wf_cap s \<Longrightarrow> 3 \<le> room s \<Longrightarrow> ber_write_BOOL s True = Some (put s [1, 1, 0xFF])"
  by (simp add: ber_write_BOOL_def stream_simps ber_tags ber_sizeof_length_def ber_length_enc_def)

lemma ber_write_enumerated_put [stream_simps]:
  "wf_cap s \<Longrightarrow> 3 \<le> room s \<Longrightarrow> ber_write_enumerated s v cnt = Some (put s [0x0A, 1, v])"
  by (simp add: ber_write_enumerated_def stream_simps ber_tags ber_sizeof_length_def ber_length_enc_def)

lemma ber_write_application_tag_put [stream_simps]:
  "30 < tag \<Longrightarrow> wf_cap s \<Longrightarrow> length (application_enc tag n) \<le> room s \<Longrightarrow>
   ber_write_application_tag s tag n = Some (put s (application_enc tag n))"
  by (simp add: ber_write_application_tag_def application_enc_def stream_simps ber_tags length_ber_length_enc)

lemma user_data_read: "wf_cap u \<Longrightarrow> mem_read (s_buffer u) 0 (s_pointer u) = Some (out u)"
  by (auto simp: mem_read_def out_def wf_cap_def)

lemma write_connect_initial_put:
  assumes a: "malloc_ok malloc" "alloc_total malloc" and s: "wf_cap s" and u: "wf_cap u"
    and b: "b = connect_initial_body (targetParameters mcs) (minimumParameters mcs) (maximumParameters mcs) (out u)"
    and r: "length (application_enc MCS_TYPE_CONNECT_INITIAL (length b) @ b) \<le> room s"
  shows "mcs_write_connect_initial malloc s mcs u =
    Some (True, put s (application_enc MCS_TYPE_CONNECT_INITIAL (length b) @ b))"
proof -
  have "0 < room s" using r by (simp add: application_enc_def)
  then obtain t where t: "Stream_New malloc None (s_capacity s) = Some t" "wf_cap t" "s_pointer t = 0" "room s \<le> room t"
    using Stream_New_like [OF a s] by blast
  have l: "length b \<le> room t" using r t(4) by simp
  have "30 < MCS_TYPE_CONNECT_INITIAL" by (simp add: MCS_TYPE_CONNECT_INITIAL_def)
  moreover have "mem_read (s_buffer (put t b)) 0 (length b) = Some b" by (rule fresh_put_read [OF t(2,3) l])
  ultimately show ?thesis using l r t a s u unfolding b connect_initial_body_def
    by (simp add: mcs_write_connect_initial_def user_data_read stream_simps Stream_GetPosition_def Let_def)
qed

lemma write_connect_response_put:
  assumes a: "malloc_ok malloc" "alloc_total malloc" and s: "wf_cap s" and u: "wf_cap u"
    and b: "b = connect_response_body (domainParameters mcs) (out u)"
    and r: "length (application_enc MCS_TYPE_CONNECT_RESPONSE (length b) @ b) \<le> room s"
  shows "mcs_write_connect_response malloc s mcs u =
    Some (True, put s (application_enc MCS_TYPE_CONNECT_RESPONSE (length b) @ b))"
proof -
  have "0 < room s" using r by (simp add: application_enc_def)
  then obtain t where t: "Stream_New malloc None (s_capacity s) = Some t" "wf_cap t" "s_pointer t = 0" "room s \<le> room t"
    using Stream_New_like [OF a s] by blast
  have l: "length b \<le> room t" using r t(4) by simp
  have "30 < MCS_TYPE_CONNECT_RESPONSE" by (simp add: MCS_TYPE_CONNECT_RESPONSE_def)
  moreover have "mem_read (s_buffer (put t b)) 0 (length b) = Some b" by (rule fresh_put_read [OF t(2,3) l])
  ultimately show ?thesis using l r t a s u unfolding b connect_response_body_def
    by (simp add: mcs_write_connect_response_def user_data_read stream_simps Stream_GetPosition_def Let_def
        length_ber_integer_enc)
qed

text \<open>Filling in the seven header bytes in front of a finished PDU.\<close>

lemma sent_behind_header:
  assumes "wf_cap s" "s_pointer s = 0" "length h + length e \<le> room s"
  shows "sent (h @ e) (Stream_SealLength (Stream_SetPosition
    (put (Stream_SetPosition (put (Stream_Seek s (length h)) e) 0) h) (length h + length e)))"
  using assms
  by (auto simp: sent_def put_def Stream_SetPosition_def Stream_SealLength_def wf_stream_def wf_cap_def
      room_def rest_def)

lemma send_connect_pdu_sent:
  assumes m: "malloc_ok malloc" "alloc_total malloc"
    and w: "\<And>s. wf_cap s \<Longrightarrow> length (application_enc tag (length b) @ b) \<le> room s \<Longrightarrow>
      write_pdu s u = Some (True, put s (application_enc tag (length b) @ b))"
    and l: "length (connect_enc tag b) \<le> sz" "length (connect_enc tag b) \<le> 0xFFFF" "sz < 2 ^ 64"
  shows "\<exists>s. send_connect_pdu malloc tw write_pdu sz u = Some (\<not> tw s < 0, Some s) \<and> sent (connect_enc tag b) s"
proof -
  let ?p = "application_enc tag (length b) @ b" let ?n = "7 + length ?p"
  let ?h = "tpkt_enc (word_of_nat ?n) @ tpdu_enc 2 X224_TPDU_DATA"
  have c: "connect_enc tag b = ?h @ ?p" "length ?h = 7" "length (connect_enc tag b) = ?n"
    by (simp_all add: connect_enc_def Let_def tpkt_enc_def tpdu_enc_def)
  obtain blk where "malloc sz = Some blk" using m(2) by (auto simp: alloc_total_def)
  then obtain s where s: "Stream_New malloc None sz = Some s" "wf_cap s" "s_pointer s = 0" "room s = sz"
    using Stream_New_fresh [OF m(1) _ _ l(3)] l(1) c(3) by (metis add_is_0 gr0I le_0_eq zero_neq_numeral)
  let ?s7 = "Stream_Seek s 7" let ?t = "put ?s7 ?p" let ?t0 = "Stream_SetPosition ?t 0"
  have r: "wf_cap ?s7" "length ?p \<le> room ?s7" using s l(1) c(3) by (auto simp: wf_cap_def room_def)
  have t0: "wf_cap ?t0" "7 \<le> room ?t0"
    using wf_cap_put [OF r] s l(1) c(3) by (auto simp: wf_cap_def room_def Stream_SetPosition_def)
  have h: "tpkt_write_header ?t0 (word_of_nat ?n) = Some (True, put ?t0 (tpkt_enc (word_of_nat ?n)))"
    using t0 by (intro tpkt_write_header_put) simp_all
  have d: "tpdu_write_data (put ?t0 (tpkt_enc (word_of_nat ?n))) = Some (put ?t0 ?h)"
    using t0 by (simp add: tpdu_write_data_def stream_simps tpkt_enc_def tpdu_enc_def)
  let ?f = "Stream_SealLength (Stream_SetPosition (put ?t0 ?h) ?n)"
  have "send_connect_pdu malloc tw write_pdu sz u = Some (\<not> tw ?f < 0, Some ?f)"
    using l(2) c(3) s(1,3) w [OF r] h d by (simp add: send_connect_pdu_def Stream_GetPosition_def Let_def)
  moreover have "sent (connect_enc tag b) ?f"
    using sent_behind_header [of s ?h ?p] s l(1) c by simp
  ultimately show ?thesis by blast
qed

lemma connect_body_lengths:
  "length (connect_enc MCS_TYPE_CONNECT_INITIAL (connect_initial_body t mn mx ud)) \<le> 200 + length ud"
  "length (connect_enc MCS_TYPE_CONNECT_RESPONSE (connect_response_body p ud)) \<le> 200 + length ud"
  using parameters_body_bounds [of t] parameters_body_bounds [of mn] parameters_body_bounds [of mx]
    parameters_body_bounds [of p] ber_sizeof_integer_bounds [of 0]
  by (simp_all add: connect_enc_def connect_initial_body_def connect_response_body_def octets_enc_def
      application_enc_def Let_def tpkt_enc_def tpdu_enc_def length_ber_length_enc length_ber_integer_enc
      length_parameters_enc ber_sizeof_length_def)

section \<open>The connect exchange\<close>

text \<open>\<open>gcc_payload\<close>: the GCC writers succeed on the streams the senders allocate for them and leave \<open>u\<close>.\<close>

definition gcc_payload ::
  "gcc_blocks_writer \<Rightarrow> gcc_create_writer \<Rightarrow> allocator \<Rightarrow> (wStream \<Rightarrow> nat) \<Rightarrow> rdpMcs \<Rightarrow> wStream \<Rightarrow> bool" where
  "gcc_payload gcc_blocks gcc_create malloc sz mcs u \<longleftrightarrow>
     (\<exists>d d' g. Stream_New malloc None 512 = Some d \<and> gcc_blocks mcs d = Some (True, d') \<and>
        Stream_New malloc None (sz d') = Some g \<and> gcc_create g d' = Some (True, u)) \<and>
     wf_cap u \<and> length (out u) \<le> 60000"

lemma send_connect_initial_sent:
  assumes m: "malloc_ok malloc" "alloc_total malloc"
    and i: "mcs_initialize_client_channels mcs cc defs = Some cl"
    and u: "gcc_payload gcc_blocks gcc_create malloc (\<lambda>_. 1024) cl u"
  shows "\<exists>s. mcs_send_connect_initial gcc_blocks gcc_create malloc tw cc defs mcs = Some (\<not> tw s < 0, cl, Some s)
    \<and> sent (connect_enc MCS_TYPE_CONNECT_INITIAL
        (connect_initial_body (targetParameters cl) (minimumParameters cl) (maximumParameters cl) (out u))) s"
proof -
  let ?b = "connect_initial_body (targetParameters cl) (minimumParameters cl) (maximumParameters cl) (out u)"
  have w: "wf_cap u" "s_pointer u \<le> 60000" using u by (auto simp: gcc_payload_def)
  have "\<exists>s. send_connect_pdu malloc tw (\<lambda>s. mcs_write_connect_initial malloc s cl) (1024 + (s_pointer u + 7)) u
      = Some (\<not> tw s < 0, Some s) \<and> sent (connect_enc MCS_TYPE_CONNECT_INITIAL ?b) s"
    using connect_body_lengths(1) [of "targetParameters cl" "minimumParameters cl" "maximumParameters cl" "out u"] w
    by (intro send_connect_pdu_sent [OF m] write_connect_initial_put [OF m _ w(1) refl]) simp_all
  then show ?thesis using u w
    by (fastforce simp: mcs_send_connect_initial_def i gcc_payload_def Stream_GetPosition_def Let_def)
qed

lemma send_connect_response_sent:
  assumes m: "malloc_ok malloc" "alloc_total malloc"
    and u: "gcc_payload gcc_blocks gcc_create malloc (\<lambda>d. add64 512 (s_capacity d)) mcs u"
  shows "\<exists>s. mcs_send_connect_response gcc_blocks gcc_create malloc tw mcs = Some (\<not> tw s < 0, mcs, Some s)
    \<and> sent (connect_enc MCS_TYPE_CONNECT_RESPONSE (connect_response_body (domainParameters mcs) (out u))) s"
proof -
  let ?b = "connect_response_body (domainParameters mcs) (out u)"
  have w: "wf_cap u" "s_pointer u \<le> 60000" using u by (auto simp: gcc_payload_def)
  have "\<exists>s. send_connect_pdu malloc tw (\<lambda>s. mcs_write_connect_response malloc s mcs) (s_pointer u + 7 + 1024) u
      = Some (\<not> tw s < 0, Some s) \<and> sent (connect_enc MCS_TYPE_CONNECT_RESPONSE ?b) s"
    using connect_body_lengths(2) [of "domainParameters mcs" "out u"] w
    by (intro send_connect_pdu_sent [OF m] write_connect_response_put [OF m _ w(1) refl]) simp_all
  then show ?thesis using u w
    by (fastforce simp: mcs_send_connect_response_def gcc_payload_def Stream_GetPosition_def Let_def)
qed

text \<open>
  C1: The MCS Connect-Initial that a client sends is accepted by the server, which ends with exactly
  the client's target, minimum and maximum domain parameters (as handed to the GCC reader) and with
  the merged domain parameters, for any GCC payload of up to 60000 bytes that the server's GCC
  reader accepts; the client's channel table is the one built from its settings.
\<close>

theorem mcs_connect_initial_roundtrip:
  assumes "malloc_ok malloc" "alloc_total malloc"
    and "mcs_initialize_client_channels mcs cc defs = Some cl"
    and "gcc_payload gcc_blocks gcc_create malloc (\<lambda>_. 1024) cl u"
    and "reads (gcc_read (srv\<lparr>targetParameters := targetParameters cl, minimumParameters := minimumParameters cl,
      maximumParameters := maximumParameters cl\<rparr>)) (out u) (True, m)"
    and "mcs_merge_domain_parameters (targetParameters m) (minimumParameters m) (maximumParameters m)
      (domainParameters m) = (True, p)"
  shows "\<exists>s. mcs_send_connect_initial gcc_blocks gcc_create malloc tw cc defs mcs = Some (\<not> tw s < 0, cl, Some s)
    \<and> run_ok (mcs_recv_connect_initial gcc_read srv (Stream_SetPosition s 0))
        (\<lambda>r s'. r = (True, m\<lparr>domainParameters := p\<rparr>) \<and> rest s' = [])"
proof -
  obtain s where s: "mcs_send_connect_initial gcc_blocks gcc_create malloc tw cc defs mcs = Some (\<not> tw s < 0, cl, Some s)"
    "sent (connect_enc MCS_TYPE_CONNECT_INITIAL
        (connect_initial_body (targetParameters cl) (minimumParameters cl) (maximumParameters cl) (out u))) s"
    using send_connect_initial_sent [OF assms(1-4)] by blast
  have "length (out u) \<le> 60000" using assms(4) by (simp add: gcc_payload_def del: length_out)
  with s(2) connect_body_lengths(1) [of "targetParameters cl" "minimumParameters cl" "maximumParameters cl" "out u"]
  have "run_ok (mcs_recv_connect_initial gcc_read srv (Stream_SetPosition s 0)) (\<lambda>r s'. r = (True, m\<lparr>domainParameters := p\<rparr>) \<and> rest s' = [])"
    by (intro recv_connect_initial_rest [where gcc_read = gcc_read, OF _ _ _ assms(5,6)]) (auto simp: sent_def)
  with s(1) show ?thesis by blast
qed

definition example_gcc_create :: gcc_create_writer where
  "example_gcc_create g d = Some (True, put g [1, 2, 3])"

definition example_gcc_read :: gcc_reader where
  "example_gcc_read m s = Some ((True, m), Stream_Seek s 3)"

lemma example_gcc_payload:
  "mcs_initialize_client_channels mcs_new 0 [] = Some mcs_new"
  "gcc_payload (\<lambda>_ d. Some (True, d)) example_gcc_create zero_malloc (\<lambda>_. 1024) m
     (put (the (Stream_New zero_malloc None 1024)) [1, 2, 3])"
  "gcc_payload (\<lambda>_ d. Some (True, d)) example_gcc_create zero_malloc (\<lambda>d. add64 512 (s_capacity d)) m
     (put (the (Stream_New zero_malloc None 1024)) [1, 2, 3])"
  "out (put (the (Stream_New zero_malloc None 1024)) [1, 2, 3]) = [1, 2, 3]"
  "reads (example_gcc_read m) [1, 2, 3] (True, m)"
  by (simp_all add: mcs_initialize_client_channels_def mcs_new_def CHANNEL_MAX_COUNT_def mem_write_def
      gcc_payload_def Stream_New_def zero_malloc_def example_gcc_create_def example_gcc_read_def reads_def
      wf_cap_def put_def out_def numeral_3_eq_3)

theorem mcs_connect_initial_roundtrip_witness:
  "\<exists>s. mcs_send_connect_initial (\<lambda>_ d. Some (True, d)) example_gcc_create zero_malloc (\<lambda>_. 1) 0 [] mcs_new =
      Some (\<not> (1 :: int) < 0, mcs_new, Some s)
    \<and> run_ok (mcs_recv_connect_initial example_gcc_read mcs_new (Stream_SetPosition s 0))
        (\<lambda>r s'. r = (True, mcs_new\<lparr>domainParameters := mcs_init_domain_parameters 34 3 0 65528\<rparr>) \<and> rest s' = [])"
  by (rule mcs_connect_initial_roundtrip [OF malloc_ok_zero _ example_gcc_payload(1,2)])
     (simp_all add: alloc_total_def zero_malloc_def example_gcc_payload(4) mcs_new_def
       mcs_init_domain_parameters_def mcs_merge_domain_parameters_def example_gcc_payload(5))

text \<open>
  C26: The MCS Connect-Response that a server sends is accepted by the client, which ends with exactly
  the domain parameters of the server, for any GCC payload of up to 60000 bytes that the client's
  GCC reader accepts.
\<close>

theorem mcs_connect_response_roundtrip:
  assumes "malloc_ok malloc" "alloc_total malloc"
    and "gcc_payload gcc_blocks gcc_create malloc (\<lambda>d. add64 512 (s_capacity d)) srv u"
    and "reads (gcc_read (cl\<lparr>domainParameters := domainParameters srv\<rparr>)) (out u) (True, m)"
  shows "\<exists>s. mcs_send_connect_response gcc_blocks gcc_create malloc tw srv = Some (\<not> tw s < 0, srv, Some s)
    \<and> run_ok (mcs_recv_connect_response gcc_read cl (Stream_SetPosition s 0))
        (\<lambda>r s'. r = (True, m) \<and> rest s' = [])"
proof -
  obtain s where s: "mcs_send_connect_response gcc_blocks gcc_create malloc tw srv = Some (\<not> tw s < 0, srv, Some s)"
    "sent (connect_enc MCS_TYPE_CONNECT_RESPONSE (connect_response_body (domainParameters srv) (out u))) s"
    using send_connect_response_sent [OF assms(1-3)] by blast
  have "length (out u) \<le> 60000" using assms(3) by (simp add: gcc_payload_def del: length_out)
  with s(2) connect_body_lengths(2) [of "domainParameters srv" "out u"]
  have "run_ok (mcs_recv_connect_response gcc_read cl (Stream_SetPosition s 0)) (\<lambda>r s'. r = (True, m) \<and> rest s' = [])"
    by (intro recv_connect_response_rest [where gcc_read = gcc_read, OF _ _ _ assms(4)]) (auto simp: sent_def)
  with s(1) show ?thesis by blast
qed

theorem mcs_connect_response_roundtrip_witness:
  "\<exists>s. mcs_send_connect_response (\<lambda>_ d. Some (True, d)) example_gcc_create zero_malloc (\<lambda>_. 1) mcs_new =
      Some (\<not> (1 :: int) < 0, mcs_new, Some s)
    \<and> run_ok (mcs_recv_connect_response example_gcc_read mcs_new (Stream_SetPosition s 0))
        (\<lambda>r s'. r = (True, mcs_new) \<and> rest s' = [])"
  by (rule mcs_connect_response_roundtrip [OF malloc_ok_zero _ example_gcc_payload(3)])
     (simp_all add: alloc_total_def zero_malloc_def example_gcc_payload(4) example_gcc_payload(5))

end
