(* ===== verification/Wire.thy ===== *)
theory Wire
  imports Stream
begin

text \<open>
  The little-endian integers of the wire: their encodings as byte lists, the writers that append an
  encoding, the readers that take it off the front. The collection \<open>wire_simps\<close> evaluates a reader
  on a stream whose remaining bytes are a sequence of encodings, or a writer on a stream with room.
\<close>

named_theorems wire_simps
  \<open>readers on encodings and writers that append them\<close>

definition u16_enc :: "u16 \<Rightarrow> byte list" where
  "u16_enc v = [ucast v, ucast (drop_bit 8 v)]"

definition u32_enc :: "u32 \<Rightarrow> byte list" where
  "u32_enc v = [ucast v, ucast (drop_bit 8 v), ucast (drop_bit 16 v), ucast (drop_bit 24 v)]"

lemma length_u_enc [simp]: "length (u16_enc v) = 2" "length (u32_enc w) = 4"
  by (simp_all add: u16_enc_def u32_enc_def)

lemma Read_UINT16_at:
  assumes "wf_stream s" "drop k (rest s) = u16_enc v @ r"
  shows "Stream_Read_UINT16 (Stream_Seek s k) = Some (v, Stream_Seek s (k + 2))"
proof -
  have "k + 2 \<le> avail s" using arg_cong [OF assms(2), of length] length_rest [OF assms(1)] by simp
  then show ?thesis using assms byte_join16 [of v]
    by (simp add: stream_simps u16_enc_def add.commute [of "ucast _"])
qed

lemma Read_UINT32_at:
  assumes "wf_stream s" "drop k (rest s) = u32_enc v @ r"
  shows "Stream_Read_UINT32 (Stream_Seek s k) = Some (v, Stream_Seek s (k + 4))"
proof -
  have "k + 4 \<le> avail s" using arg_cong [OF assms(2), of length] length_rest [OF assms(1)] by simp
  then show ?thesis using assms by (simp add: stream_simps u32_enc_def)
qed

lemma Read_UINT8_at:
  assumes "wf_stream s" "drop k (rest s) = b # r"
  shows "Stream_Read_UINT8 (Stream_Seek s k) = Some (b, Stream_Seek s (k + 1))"
proof -
  have "k + 1 \<le> avail s" using arg_cong [OF assms(2), of length] length_rest [OF assms(1)] by simp
  then show ?thesis using assms by (simp add: stream_simps hd_drop_conv_nth [symmetric] length_rest)
qed

definition u64_enc :: "u64 \<Rightarrow> byte list" where
  "u64_enc v = [ucast v, ucast (drop_bit 8 v), ucast (drop_bit 16 v), ucast (drop_bit 24 v),
     ucast (drop_bit 32 v), ucast (drop_bit 40 v), ucast (drop_bit 48 v), ucast (drop_bit 56 v)]"

lemma length_u64_enc [simp]: "length (u64_enc v) = 8"
  by (simp add: u64_enc_def)

section \<open>Widths\<close>

lemma unat_ucast_up:
  assumes "LENGTH('a) \<le> LENGTH('b)"
  shows "unat (ucast (v :: 'a::len word) :: 'b::len word) = unat v"
proof -
  have "unat v < 2 ^ LENGTH('a)" by (rule unsigned_less)
  also have "\<dots> \<le> 2 ^ LENGTH('b)" using assms by simp
  finally show ?thesis by (simp add: unsigned_ucast_eq take_bit_nat_eq_self)
qed

lemma unat_byte: "unat (b :: byte) < 2 ^ 16" "unat (b :: byte) < 2 ^ 8"
  using order_less_trans [OF unsigned_less [of b], of "2 ^ 16"] unsigned_less [of b] by simp_all

lemma unat_u16: "unat (v :: u16) < 65536"
  using unsigned_less [of v] by simp

lemma unat_u32: "unat (v :: u32) < 4294967296"
  using unsigned_less [of v] by simp

lemma unat_narrow: "unat (v :: u32) < 2 ^ 16 \<Longrightarrow> unat (ucast v :: u16) = unat v"
  by (simp add: unsigned_ucast_eq take_bit_nat_eq_self)

lemma u32_via_u16: "unat (v :: u32) < 2 ^ 16 \<Longrightarrow> ucast (ucast v :: u16) = v"
  unfolding word_unat_eq_iff using unat_ucast_up [of "ucast v :: u16", where ?'b = 32] unat_narrow [of v] by simp

section \<open>Writers\<close>

lemma Write_enc [wire_simps]:
  "wf_cap s \<Longrightarrow> 1 \<le> room s \<Longrightarrow> Stream_Write_UINT8 s b = Some (put s [b])"
  "wf_cap s \<Longrightarrow> 2 \<le> room s \<Longrightarrow> Stream_Write_UINT16 s v = Some (put s (u16_enc v))"
  "wf_cap s \<Longrightarrow> 4 \<le> room s \<Longrightarrow> Stream_Write_UINT32 s w = Some (put s (u32_enc w))"
  "wf_cap s \<Longrightarrow> 8 \<le> room s \<Longrightarrow> Stream_Write_UINT64 s x = Some (put s (u64_enc x))"
  "wf_cap s \<Longrightarrow> length bs \<le> room s \<Longrightarrow> Stream_Write s bs = Some (put s bs)"
  by (simp_all add: u16_enc_def u32_enc_def u64_enc_def stream_simps Stream_Write_UINT64_def)

lemmas [wire_simps] = wf_cap_put room_put put_put EnsureRemaining_room Zero_put

section \<open>Readers\<close>

text \<open>The value of the integer at the front of a byte list.\<close>

definition get16 :: "byte list \<Rightarrow> u16" where
  "get16 bs = ucast (bs ! 0) + push_bit 8 (ucast (bs ! 1))"

definition get32 :: "byte list \<Rightarrow> u32" where
  "get32 bs = ucast (bs ! 0) + push_bit 8 (ucast (bs ! 1)) + push_bit 16 (ucast (bs ! 2)) + push_bit 24 (ucast (bs ! 3))"

definition get64 :: "byte list \<Rightarrow> u64" where
  "get64 bs = ucast (bs ! 0) + push_bit 8 (ucast (bs ! 1)) + push_bit 16 (ucast (bs ! 2)) + push_bit 24 (ucast (bs ! 3)) +
     push_bit 32 (ucast (bs ! 4)) + push_bit 40 (ucast (bs ! 5)) + push_bit 48 (ucast (bs ! 6)) + push_bit 56 (ucast (bs ! 7))"

lemma byte_join64:
  "ucast (ucast v :: byte) + push_bit 8 (ucast (ucast (drop_bit 8 v) :: byte)) +
   push_bit 16 (ucast (ucast (drop_bit 16 v) :: byte)) + push_bit 24 (ucast (ucast (drop_bit 24 v) :: byte)) +
   push_bit 32 (ucast (ucast (drop_bit 32 v) :: byte)) + push_bit 40 (ucast (ucast (drop_bit 40 v) :: byte)) +
   push_bit 48 (ucast (ucast (drop_bit 48 v) :: byte)) + push_bit 56 (ucast (ucast (drop_bit 56 v) :: byte)) = (v :: u64)"
proof -
  have t: "ucast (ucast w :: byte) = take_bit 8 w" for w :: u64
    by (rule bit_word_eqI) (auto simp: bit_simps)
  have s: "take_bit 8 w + push_bit 8 (drop_bit 8 w) = w" for w :: u64
    using bits_ident [of 8 w] by (simp add: add.commute)
  have step: "push_bit k (take_bit 8 (drop_bit k v)) + push_bit (k + 8) (drop_bit (k + 8) v) = push_bit k (drop_bit k v)" for k
  proof -
    have "push_bit k (take_bit 8 (drop_bit k v)) + push_bit (k + 8) (drop_bit (k + 8) v) =
        push_bit k (take_bit 8 (drop_bit k v) + push_bit 8 (drop_bit 8 (drop_bit k v)))"
      by (simp only: push_bit_add push_bit_push_bit drop_bit_drop_bit add.commute [of 8])
    then show ?thesis unfolding s .
  qed
  have top: "take_bit 8 (drop_bit 56 v) = drop_bit 56 v"
    by (rule bit_word_eqI) (auto simp: bit_simps dest: bit_imp_le_length)
  show ?thesis
    using step [of 0] step [of 8] step [of 16] step [of 24] step [of 32] step [of 40] step [of 48]
    unfolding t top by (simp add: add.assoc)
qed

lemma get_enc [wire_simps]: "get16 (u16_enc v @ r) = v" "get32 (u32_enc w @ r) = w" "get64 (u64_enc x @ r) = x"
  "get16 (u16_enc v) = v" "get32 (u32_enc w) = w" "get64 (u64_enc x) = x"
  using byte_join16 [of v] by (simp_all add: get16_def get32_def get64_def u16_enc_def u32_enc_def u64_enc_def byte_join64
      add.commute [of "ucast _ :: u16"])

lemma Read_get [wire_simps]:
  "wf_stream s \<Longrightarrow> 1 \<le> avail s \<Longrightarrow> Stream_Read_UINT8 s = Some (rest s ! 0, Stream_Seek s 1)"
  "wf_stream s \<Longrightarrow> 2 \<le> avail s \<Longrightarrow> Stream_Read_UINT16 s = Some (get16 (rest s), Stream_Seek s 2)"
  "wf_stream s \<Longrightarrow> 4 \<le> avail s \<Longrightarrow> Stream_Read_UINT32 s = Some (get32 (rest s), Stream_Seek s 4)"
  "wf_stream s \<Longrightarrow> 8 \<le> avail s \<Longrightarrow> Stream_Read_UINT64 s = Some (get64 (rest s), Stream_Seek s 8)"
  by (simp_all add: get16_def get32_def get64_def stream_simps Stream_Read_UINT64_def)

lemmas [wire_simps] = remaining_length wf_Seek rest_Seek avail_Seek Read_rest SafeSeek_eq consumed_Seek

section \<open>Streams that grow\<close>

text \<open>
  A stream that a writer may enlarge: it owns its buffer and is far from the limits of \<open>size_t\<close>. A growth
  moves the buffer but keeps what was written.
\<close>

definition growable :: "wStream \<Rightarrow> bool" where
  "growable s \<longleftrightarrow> wf_cap s \<and> s_isOwner s \<and> 0 < s_capacity s \<and> s_capacity s \<le> 2 ^ 40"

lemma growable_put: "growable s \<Longrightarrow> length bs \<le> room s \<Longrightarrow> growable (put s bs) \<and> out (put s bs) = out s @ bs"
  by (simp add: growable_def wf_cap_put out_put)

lemma grow_loop_bound:
  assumes "grow_loop c sz = Some n" "0 < c" "c < sz" "sz \<le> 2 ^ 63"
  shows "n < 2 * sz"
  using grow_loop_Some [OF assms(2-4)] assms(1) by auto

lemma Ensure_run:
  assumes "malloc_ok malloc" "growable s" "s_pointer s + 2 * n \<le> 2 ^ 39"
  shows "run_ok (Stream_EnsureRemainingCapacity malloc s n) (\<lambda>ok t. growable t \<and> out t = out s \<and> (ok \<longrightarrow> n \<le> room t) \<and>
    (alloc_total malloc \<longrightarrow> ok))"
proof (cases "n \<le> room s")
  case True
  then show ?thesis using assms(2) by (simp add: EnsureRemaining_room growable_def)
next
  case False
  have g: "wf_cap s" "s_isOwner s" "0 < s_capacity s" "s_capacity s \<le> 2 ^ 40" using assms(2) by (auto simp: growable_def)
  have p: "s_pointer s \<le> s_capacity s" using g(1) by (simp add: wf_cap_def)
  let ?sz = "s_capacity s + n"
  have lt: "s_capacity s < s_pointer s + n" "s_capacity s < ?sz" and sz: "?sz \<le> 2 ^ 39" using False p assms(3) by (auto simp: room_def)
  have "add64 (s_pointer s) n = s_pointer s + n" "add64 (s_capacity s) n = ?sz" using sz assms(3) by simp_all
  then have e: "Stream_EnsureRemainingCapacity malloc s n = Stream_EnsureCapacity malloc s ?sz"
    using lt by (simp add: Stream_EnsureRemainingCapacity_def Stream_GetPosition_def)
  have z: "?sz \<le> 2 ^ 63" using sz by simp
  obtain k where k: "grow_loop (s_capacity s) ?sz = Some k" using grow_loop_Some [OF g(3) lt(2) z] by blast
  have kb: "k < 2 * ?sz" by (rule grow_loop_bound [OF k g(3) lt(2) z])
  have ks: "?sz \<le> k" using grow_loop_Some [OF g(3) lt(2) z] k by auto
  then have kl: "s_capacity s < k" using lt(2) by simp
  have l: "length (s_buffer s) = s_capacity s" using g(1) by (simp add: wf_cap_def)
  show ?thesis
  proof (cases "malloc k")
    case None
    then have "Stream_EnsureCapacity malloc s ?sz = Some (False, s)"
      using lt(2) k g(2) by (simp add: Stream_EnsureCapacity_def c_realloc_def Let_def)
    then show ?thesis using None assms(2) by (auto simp: e alloc_total_def)
  next
    case (Some junk)
    have jl: "length junk = k" using assms(1) Some by (simp add: malloc_ok_def)
    have "Stream_EnsureCapacity malloc s ?sz = Some (True, s\<lparr>s_buffer := s_buffer s @ replicate (k - s_capacity s) 0,
        s_capacity := k, s_length := k\<rparr>)"
      using lt(2) k Some g(2) jl kl l
      by (simp add: Stream_EnsureCapacity_def c_realloc_def Let_def Stream_SetPosition_def Stream_GetPosition_def)
    then show ?thesis unfolding e using g p kb sz ks kl l
      by (auto simp: growable_def wf_cap_def room_def out_def)
  qed
qed

lemma ensure_then:
  assumes "malloc_ok malloc" "alloc_total malloc" "growable s" "s_pointer s + 2 * n \<le> 2 ^ 39"
    "\<And>t. growable t \<Longrightarrow> n \<le> room t \<Longrightarrow> out t = out s \<Longrightarrow> run_ok (f t) Q"
  shows "run_ok (do { (ok, s) \<leftarrow> Stream_EnsureRemainingCapacity malloc s n; if \<not> ok then Some (g s, s) else f s }) Q"
  unfolding run_ok_bind by (rule run_ok_mono [OF Ensure_run [OF assms(1,3,4)]]) (use assms(2,5) in auto)

lemma growable_wf: "growable s \<Longrightarrow> wf_cap s"
  by (simp add: growable_def)

end
