(* ===== verification/Rdp.thy ===== *)
theory Rdp
  imports Mcs Wire
begin

text \<open>
  The slow-path layer above MCS (\<^verbatim>\<open>libfreerdp/core/rdp.c\<close>): the packet header around the MCS
  send-data PDUs, the security header, the share control and share data headers, and the functions
  that prepare a stream for a PDU and send it.

  The record \<open>rdpRdp\<close> holds the fields of \<^verbatim>\<open>rdpRdp\<close> and of its settings that these functions use; its
  type argument is the key material and the counters of \<^verbatim>\<open>security.c\<close>. The cryptographic functions
  of that file, which rest on OpenSSL, are the fields of the argument \<open>security_ops\<close>; the stream pool
  of the transport and \<^verbatim>\<open>transport_write\<close> are arguments too. Events raised for the application are
  collected in the order in which they are raised.
\<close>

section \<open>State\<close>

record rdpAutoDetect =
  rttMeasureStartTime :: u64
  bandwidthMeasureStartTime :: u64
  bandwidthMeasureTimeDelta :: u64
  bandwidthMeasureByteCount :: u32
  netCharBandwidth :: u32
  netCharBaseRTT :: u32
  netCharAverageRTT :: u32
  bandwidthMeasureStarted :: bool

datatype rdp_event = OnErrorInfo u32 | AbortConnect | OnTerminate

record 'k rdpRdp =
  r_mcs :: rdpMcs
  r_autodetect :: rdpAutoDetect
  ServerMode :: bool
  EncryptionMethods :: u32
  ShareId :: u32
  UseRdpSecurityLayer :: bool
  NetworkAutoDetect :: bool
  PduSource :: u16
  sec_flags :: u32
  do_crypt :: bool
  do_secure_checksum :: bool
  errorInfo :: u32
  LastError :: u32
  disconnectUltimatum :: int
  inPackets :: u64
  outPackets :: u64
  r_events :: "rdp_event list"
  r_keys :: 'k

definition SEC_ENCRYPT :: u32 where "SEC_ENCRYPT = 0x0008"
definition SEC_REDIRECTION_PKT :: u32 where "SEC_REDIRECTION_PKT = 0x0400"
definition SEC_SECURE_CHECKSUM :: u32 where "SEC_SECURE_CHECKSUM = 0x0800"
definition SEC_AUTODETECT_REQ :: u16 where "SEC_AUTODETECT_REQ = 0x1000"
definition SEC_AUTODETECT_RSP :: u16 where "SEC_AUTODETECT_RSP = 0x2000"
definition SEC_HEARTBEAT :: u16 where "SEC_HEARTBEAT = 0x4000"
definition SEC_TRANSPORT_REQ :: u16 where "SEC_TRANSPORT_REQ = 0x0002"
definition ENCRYPTION_METHOD_FIPS :: u32 where "ENCRYPTION_METHOD_FIPS = 0x10"
definition PDU_TYPE_DATA :: u16 where "PDU_TYPE_DATA = 0x7"
definition RDP_PACKET_HEADER_MAX_LENGTH :: nat where "RDP_PACKET_HEADER_MAX_LENGTH = 15"
definition RDP_SHARE_CONTROL_HEADER_LENGTH :: nat where "RDP_SHARE_CONTROL_HEADER_LENGTH = 6"
definition RDP_SHARE_DATA_HEADER_LENGTH :: nat where "RDP_SHARE_DATA_HEADER_LENGTH = 12"
definition STREAM_LOW :: byte where "STREAM_LOW = 1"
definition DomainMCSPDU_SendDataRequest :: byte where "DomainMCSPDU_SendDataRequest = 25"
definition DomainMCSPDU_SendDataIndication :: byte where "DomainMCSPDU_SendDataIndication = 26"

section \<open>Headers\<close>

text \<open>The optional in-out length of the caller is an option.\<close>

definition rdp_read_security_header ::
  "wStream \<Rightarrow> u16 option \<Rightarrow> ((u16 \<times> u16 option) option \<times> wStream) option" where
  "rdp_read_security_header s len =
     (if Stream_GetRemainingLength s < 4 \<or> (case len of None \<Rightarrow> False | Some l \<Rightarrow> l < 4) then Some (None, s)
      else do {
        (flags, s) \<leftarrow> Stream_Read_UINT16 s;
        let s = Stream_Seek s 2;
        Some (Some (flags, map_option (\<lambda>l. l - 4) len), s) })"

definition rdp_write_security_header :: "wStream \<Rightarrow> u16 \<Rightarrow> wStream option" where
  "rdp_write_security_header s flags = do {
     s \<leftarrow> Stream_Write_UINT16 s flags;
     Stream_Write_UINT16 s 0 }"

definition rdp_read_flow_control_pdu :: "wStream \<Rightarrow> ((u16 \<times> u16) option \<times> wStream) option" where
  "rdp_read_flow_control_pdu s =
     (if Stream_GetRemainingLength s < 6 then Some (None, s)
      else do {
        (pduType, s) \<leftarrow> Stream_Read_UINT8 s;
        let s = Stream_Seek (Stream_Seek (Stream_Seek s 1) 1) 1;
        (channel_id, s) \<leftarrow> Stream_Read_UINT16 s;
        Some (Some (ucast pduType, channel_id), s) })"

text \<open>The results of the share control header are the total length, the remaining length, the type and the source.\<close>

definition rdp_read_share_control_header ::
  "wStream \<Rightarrow> ((u16 \<times> u16 \<times> u16 \<times> u16) option \<times> wStream) option" where
  "rdp_read_share_control_header s =
     (if Stream_GetRemainingLength s < 2 then Some (None, s)
      else do {
        (len, s) \<leftarrow> Stream_Read_UINT16 s;
        (if len = 0x8000 then do {
           (r, s) \<leftarrow> rdp_read_flow_control_pdu s;
           (case r of None \<Rightarrow> Some (None, s)
            | Some (type, channel_id) \<Rightarrow> Some (Some (8, 0, type, 0), s)) }
         else if len < 4 \<or> unat len - 2 > Stream_GetRemainingLength s then Some (None, s)
         else do {
           (type, s) \<leftarrow> Stream_Read_UINT16 s;
           let type = type AND 0x0F;
           (if len > 5 then do {
              (channel_id, s) \<leftarrow> Stream_Read_UINT16 s;
              Some (Some (len, len - 6, type, channel_id), s) }
            else Some (Some (len, len - 4, type, 0), s)) }) })"

definition rdp_write_share_control_header :: "wStream \<Rightarrow> u16 \<Rightarrow> u16 \<Rightarrow> u16 \<Rightarrow> (bool \<times> wStream) option" where
  "rdp_write_share_control_header s len type channel_id =
     (if unat len < RDP_PACKET_HEADER_MAX_LENGTH then Some (False, s)
      else if Stream_GetRemainingCapacity s < 6 then Some (False, s)
      else do {
        let len = len - word_of_nat RDP_PACKET_HEADER_MAX_LENGTH;
        s \<leftarrow> Stream_Write_UINT16 s len;
        s \<leftarrow> Stream_Write_UINT16 s (type OR 0x10);
        s \<leftarrow> Stream_Write_UINT16 s channel_id;
        Some (True, s) })"

text \<open>The results are the uncompressed length, the type, the share id, the compression type and the compressed length.\<close>

definition rdp_read_share_data_header ::
  "wStream \<Rightarrow> ((u16 \<times> byte \<times> u32 \<times> byte \<times> u16) option \<times> wStream) option" where
  "rdp_read_share_data_header s =
     (if Stream_GetRemainingLength s < 12 then Some (None, s)
      else do {
        (shareId, s) \<leftarrow> Stream_Read_UINT32 s;
        let s = Stream_Seek (Stream_Seek s 1) 1;
        (len, s) \<leftarrow> Stream_Read_UINT16 s;
        (type, s) \<leftarrow> Stream_Read_UINT8 s;
        (compressedType, s) \<leftarrow> Stream_Read_UINT8 s;
        (compressedLength, s) \<leftarrow> Stream_Read_UINT16 s;
        Some (Some (len, type, shareId, compressedType, compressedLength), s) })"

definition rdp_write_share_data_header :: "wStream \<Rightarrow> u16 \<Rightarrow> byte \<Rightarrow> u32 \<Rightarrow> (bool \<times> wStream) option" where
  "rdp_write_share_data_header s len type share_id =
     (let headerLen = RDP_PACKET_HEADER_MAX_LENGTH + RDP_SHARE_CONTROL_HEADER_LENGTH + RDP_SHARE_DATA_HEADER_LENGTH in
      if unat len < headerLen then Some (False, s)
      else let len = len - word_of_nat headerLen in
      if Stream_GetRemainingCapacity s < 12 then Some (False, s)
      else do {
        s \<leftarrow> Stream_Write_UINT32 s share_id;
        s \<leftarrow> Stream_Write_UINT8 s 0;
        s \<leftarrow> Stream_Write_UINT8 s STREAM_LOW;
        s \<leftarrow> Stream_Write_UINT16 s len;
        s \<leftarrow> Stream_Write_UINT8 s type;
        s \<leftarrow> Stream_Write_UINT8 s 0;
        s \<leftarrow> Stream_Write_UINT16 s 0;
        Some (True, s) })"

section \<open>Preparing a stream\<close>

definition rdp_security_stream_init :: "'k rdpRdp \<Rightarrow> wStream \<Rightarrow> bool \<Rightarrow> bool \<times> 'k rdpRdp \<times> wStream" where
  "rdp_security_stream_init rdp s sec_header =
     (if do_crypt rdp then
        let (ok, s) = Stream_SafeSeek s 12 in
        if \<not> ok then (False, rdp, s)
        else let (ok, s) = (if EncryptionMethods rdp = ENCRYPTION_METHOD_FIPS then Stream_SafeSeek s 4 else (True, s)) in
        if \<not> ok then (False, rdp, s)
        else let rdp = rdp\<lparr>sec_flags := sec_flags rdp OR SEC_ENCRYPT\<rparr>;
                 rdp = (if do_secure_checksum rdp then rdp\<lparr>sec_flags := sec_flags rdp OR SEC_SECURE_CHECKSUM\<rparr> else rdp)
             in (True, rdp, s)
      else if sec_flags rdp \<noteq> 0 \<or> sec_header then
        let (ok, s) = Stream_SafeSeek s 4 in (ok, rdp, s)
      else (True, rdp, s))"

text \<open>\<open>pool\<close> is \<^verbatim>\<open>StreamPool_Take\<close> of the transport's pool; the inner \<open>None\<close> is a null pointer.\<close>

definition transport_send_stream_init ::
  "allocator \<Rightarrow> (nat \<Rightarrow> wStream option) \<Rightarrow> nat \<Rightarrow> wStream option option" where
  "transport_send_stream_init malloc pool sz =
     (case pool sz of None \<Rightarrow> Some None
      | Some s \<Rightarrow> do {
          (ok, s) \<leftarrow> Stream_EnsureCapacity malloc s sz;
          (if \<not> ok then Some None else Some (Some (Stream_SetPosition s 0))) })"

definition init_stream ::
  "allocator \<Rightarrow> (nat \<Rightarrow> wStream option) \<Rightarrow> 'k rdpRdp \<Rightarrow> bool \<Rightarrow> (wStream option \<times> 'k rdpRdp) option" where
  "init_stream malloc pool rdp sec_header = do {
     r \<leftarrow> transport_send_stream_init malloc pool 4096;
     (case r of None \<Rightarrow> Some (None, rdp)
      | Some s \<Rightarrow>
          let (ok, s) = Stream_SafeSeek s RDP_PACKET_HEADER_MAX_LENGTH in
          if \<not> ok then Some (None, rdp)
          else let (ok, rdp, s) = rdp_security_stream_init rdp s sec_header in
          if \<not> ok then Some (None, rdp) else Some (Some s, rdp)) }"

definition rdp_send_stream_init ::
  "allocator \<Rightarrow> (nat \<Rightarrow> wStream option) \<Rightarrow> 'k rdpRdp \<Rightarrow> (wStream option \<times> 'k rdpRdp) option" where
  "rdp_send_stream_init malloc pool rdp = init_stream malloc pool rdp False"

definition rdp_message_channel_pdu_init ::
  "allocator \<Rightarrow> (nat \<Rightarrow> wStream option) \<Rightarrow> 'k rdpRdp \<Rightarrow> (wStream option \<times> 'k rdpRdp) option" where
  "rdp_message_channel_pdu_init malloc pool rdp = init_stream malloc pool rdp True"

definition rdp_send_stream_pdu_init ::
  "allocator \<Rightarrow> (nat \<Rightarrow> wStream option) \<Rightarrow> 'k rdpRdp \<Rightarrow> (wStream option \<times> 'k rdpRdp) option" where
  "rdp_send_stream_pdu_init malloc pool rdp = do {
     (s, rdp) \<leftarrow> rdp_send_stream_init malloc pool rdp;
     (case s of None \<Rightarrow> Some (None, rdp)
      | Some s \<Rightarrow> let (ok, s) = Stream_SafeSeek s RDP_SHARE_CONTROL_HEADER_LENGTH
                 in Some (if ok then Some s else None, rdp)) }"

definition rdp_data_pdu_init ::
  "allocator \<Rightarrow> (nat \<Rightarrow> wStream option) \<Rightarrow> 'k rdpRdp \<Rightarrow> (wStream option \<times> 'k rdpRdp) option" where
  "rdp_data_pdu_init malloc pool rdp = do {
     (s, rdp) \<leftarrow> rdp_send_stream_pdu_init malloc pool rdp;
     (case s of None \<Rightarrow> Some (None, rdp)
      | Some s \<Rightarrow> let (ok, s) = Stream_SafeSeek s RDP_SHARE_DATA_HEADER_LENGTH
                 in Some (if ok then Some s else None, rdp)) }"

section \<open>Sending\<close>

text \<open>A C remainder has the sign of its first operand, hence \<open>smod\<close>.\<close>

definition rdp_write_header :: "allocator \<Rightarrow> 'k rdpRdp \<Rightarrow> wStream \<Rightarrow> u16 \<Rightarrow> u16 \<Rightarrow> wStream option" where
  "rdp_write_header malloc rdp s len channelId = do {
     let MCSPDU = (if ServerMode rdp then DomainMCSPDU_SendDataIndication else DomainMCSPDU_SendDataRequest);
     let len = (if sec_flags rdp AND SEC_ENCRYPT \<noteq> 0 \<and> EncryptionMethods rdp = ENCRYPTION_METHOD_FIPS then
                  let body_length = uint len - int RDP_PACKET_HEADER_MAX_LENGTH - 16;
                      pad = 8 - body_length smod 8
                  in if pad \<noteq> 8 then len + word_of_int pad else len
                else len);
     s \<leftarrow> mcs_write_domain_mcspdu_header malloc s MCSPDU len 0;
     (_, s) \<leftarrow> per_write_integer16 malloc s (userId (r_mcs rdp)) MCS_BASE_CHANNEL_ID;
     (_, s) \<leftarrow> per_write_integer16 malloc s channelId 0;
     s \<leftarrow> Stream_Write_UINT8 s 0x70;
     let len = (len - word_of_nat RDP_PACKET_HEADER_MAX_LENGTH) OR 0x8000;
     Stream_Write_UINT16_BE s len }"

text \<open>
  The functions of \<^verbatim>\<open>security.c\<close> on the key material: the signatures deliver eight bytes or fail, the
  ciphers transform a block in place, or fail and leave it. \<^verbatim>\<open>rdp_security_stream_out\<close> does not ask whether
  \<^verbatim>\<open>security_fips_encrypt\<close> failed.
\<close>

record 'k security_ops =
  security_hmac_signature :: "'k \<Rightarrow> byte list \<Rightarrow> byte list option \<times> 'k"
  security_salted_mac_signature :: "'k \<Rightarrow> byte list \<Rightarrow> bool \<Rightarrow> byte list option \<times> 'k"
  security_mac_signature :: "'k \<Rightarrow> byte list \<Rightarrow> byte list option \<times> 'k"
  security_encrypt :: "'k \<Rightarrow> byte list \<Rightarrow> byte list option \<times> 'k"
  security_decrypt :: "'k \<Rightarrow> byte list \<Rightarrow> byte list option \<times> 'k"
  security_fips_encrypt :: "'k \<Rightarrow> byte list \<Rightarrow> byte list option \<times> 'k"
  security_fips_decrypt :: "'k \<Rightarrow> byte list \<Rightarrow> byte list option \<times> 'k"
  security_fips_check_signature :: "'k \<Rightarrow> byte list \<Rightarrow> byte list \<Rightarrow> bool \<times> 'k"

definition write_at :: "wStream \<Rightarrow> nat \<Rightarrow> byte list \<Rightarrow> wStream option" where
  "write_at s off bs = do { b \<leftarrow> mem_write (s_buffer s) off bs; Some (s\<lparr>s_buffer := b\<rparr>) }"

text \<open>The two branches of \<^verbatim>\<open>rdp_security_stream_out\<close>; a negative length is a fault of the functions it is passed to.\<close>

definition stream_out_fips ::
  "'k security_ops \<Rightarrow> 'k rdpRdp \<Rightarrow> wStream \<Rightarrow> int \<Rightarrow> ((bool \<times> u32) \<times> 'k rdpRdp \<times> wStream) option" where
  "stream_out_fips ops rdp s len = do {
     let data = Stream_GetPosition s + 12;
     let len = len - int data;
     (if len < 0 then None else do {
     s \<leftarrow> Stream_Write_UINT16 s 0x10;
     s \<leftarrow> Stream_Write_UINT8 s 0x1;
     let pad = 8 - len mod 8;
     let pad = (if pad = 8 then 0 else pad);
     s \<leftarrow> (if pad \<noteq> 0 then write_at s (data + nat len) (replicate (nat pad) 0) else Some s);
     s \<leftarrow> Stream_Write_UINT8 s (word_of_int pad);
     body \<leftarrow> mem_read (s_buffer s) data (nat len);
     let (sig, k) = security_hmac_signature ops (r_keys rdp) body;
     let rdp = rdp\<lparr>r_keys := k\<rparr>;
     (case sig of None \<Rightarrow> Some ((False, word_of_int pad), rdp, s)
      | Some sig \<Rightarrow> do {
          s \<leftarrow> write_at s (Stream_GetPosition s) sig;
          let s = Stream_Seek s 8;
          body \<leftarrow> mem_read (s_buffer s) data (nat len + nat pad);
          let (enc, k) = security_fips_encrypt ops (r_keys rdp) body;
          s \<leftarrow> (case enc of None \<Rightarrow> Some s | Some enc \<Rightarrow> write_at s data enc);
          Some ((True, word_of_int pad), rdp\<lparr>r_keys := k\<rparr>, s) }) }) }"

definition stream_out_standard ::
  "'k security_ops \<Rightarrow> 'k rdpRdp \<Rightarrow> wStream \<Rightarrow> int \<Rightarrow> u32 \<Rightarrow> ((bool \<times> u32) \<times> 'k rdpRdp \<times> wStream) option" where
  "stream_out_standard ops rdp s len flags = do {
     let data = Stream_GetPosition s + 8;
     let len = len - int data;
     (if len < 0 then None else do {
     body \<leftarrow> mem_read (s_buffer s) data (nat len);
     let (sig, k) = (if flags AND SEC_SECURE_CHECKSUM \<noteq> 0
                     then security_salted_mac_signature ops (r_keys rdp) body True
                     else security_mac_signature ops (r_keys rdp) body);
     let rdp = rdp\<lparr>r_keys := k\<rparr>;
     (case sig of None \<Rightarrow> Some ((False, 0), rdp, s)
      | Some sig \<Rightarrow> do {
          s \<leftarrow> write_at s (Stream_GetPosition s) sig;
          let s = Stream_Seek s 8;
          body \<leftarrow> mem_read (s_buffer s) (Stream_GetPosition s) (nat len);
          let (enc, k) = security_encrypt ops (r_keys rdp) body;
          let rdp = rdp\<lparr>r_keys := k\<rparr>;
          (case enc of None \<Rightarrow> Some ((False, 0), rdp, s)
           | Some enc \<Rightarrow> do {
               s \<leftarrow> write_at s (Stream_GetPosition s) enc;
               Some ((True, 0), rdp, s) }) }) }) }"

definition rdp_security_stream_out ::
  "'k security_ops \<Rightarrow> 'k rdpRdp \<Rightarrow> wStream \<Rightarrow> int \<Rightarrow> u32 \<Rightarrow> ((bool \<times> u32) \<times> 'k rdpRdp \<times> wStream) option" where
  "rdp_security_stream_out ops rdp s len flags = do {
     let flags = flags OR sec_flags rdp;
     (if flags \<noteq> 0 then do {
        s \<leftarrow> rdp_write_security_header s (ucast flags);
        ((ok, pad), rdp, s) \<leftarrow>
          (if flags AND SEC_ENCRYPT \<noteq> 0 then
             if EncryptionMethods rdp = ENCRYPTION_METHOD_FIPS then stream_out_fips ops rdp s len
             else stream_out_standard ops rdp s len flags
           else Some ((True, 0), rdp, s));
        (if \<not> ok then Some ((False, pad), rdp, s) else Some ((True, pad), rdp\<lparr>sec_flags := 0\<rparr>, s)) }
      else Some ((True, 0), rdp, s)) }"

definition rdp_get_sec_bytes :: "'k rdpRdp \<Rightarrow> u16 \<Rightarrow> u32" where
  "rdp_get_sec_bytes rdp flags =
     (if sec_flags rdp AND SEC_ENCRYPT \<noteq> 0
      then if EncryptionMethods rdp = ENCRYPTION_METHOD_FIPS then 12 + 4 else 12
      else if sec_flags rdp \<noteq> 0 \<or> flags \<noteq> 0 then 4 else 0)"

text \<open>
  The senders return their result, the new state and the stream handed to \<^verbatim>\<open>transport_write\<close>, whose
  status for a stream is the argument \<open>tw\<close>.
\<close>

type_synonym 'k sender_result = "(bool \<times> 'k rdpRdp \<times> wStream option) option"

definition rdp_send_on ::
  "allocator \<Rightarrow> 'k security_ops \<Rightarrow> (wStream \<Rightarrow> int) \<Rightarrow> 'k rdpRdp \<Rightarrow> wStream \<Rightarrow> u16 \<Rightarrow> u32 \<Rightarrow> 'k sender_result" where
  "rdp_send_on malloc ops tw rdp s channel_id flags = do {
     let len = (word_of_nat (Stream_GetPosition s) :: u16);
     let s = Stream_SetPosition s 0;
     s \<leftarrow> rdp_write_header malloc rdp s len channel_id;
     ((ok, pad), rdp, s) \<leftarrow> rdp_security_stream_out ops rdp s (uint len) flags;
     (if \<not> ok then Some (False, rdp, None)
      else let len = len + ucast pad; s = Stream_SealLength (Stream_SetPosition s (unat len))
           in Some (\<not> tw s < 0, rdp, Some s)) }"

definition rdp_send ::
  "allocator \<Rightarrow> 'k security_ops \<Rightarrow> (wStream \<Rightarrow> int) \<Rightarrow> 'k rdpRdp \<Rightarrow> wStream \<Rightarrow> u16 \<Rightarrow> 'k sender_result" where
  "rdp_send malloc ops tw rdp s channel_id = rdp_send_on malloc ops tw rdp s channel_id 0"

definition rdp_send_message_channel_pdu ::
  "allocator \<Rightarrow> 'k security_ops \<Rightarrow> (wStream \<Rightarrow> int) \<Rightarrow> 'k rdpRdp \<Rightarrow> wStream \<Rightarrow> u16 \<Rightarrow> 'k sender_result" where
  "rdp_send_message_channel_pdu malloc ops tw rdp s flags =
     rdp_send_on malloc ops tw rdp s (messageChannelId (r_mcs rdp)) (ucast flags)"

definition rdp_send_pdu ::
  "allocator \<Rightarrow> 'k security_ops \<Rightarrow> (wStream \<Rightarrow> int) \<Rightarrow> 'k rdpRdp \<Rightarrow> wStream \<Rightarrow> u16 \<Rightarrow> u16 \<Rightarrow> 'k sender_result" where
  "rdp_send_pdu malloc ops tw rdp s type channel_id = do {
     let len = (word_of_nat (Stream_GetPosition s) :: u16);
     let s = Stream_SetPosition s 0;
     s \<leftarrow> rdp_write_header malloc rdp s len MCS_GLOBAL_CHANNEL_ID;
     let sec_bytes = rdp_get_sec_bytes rdp 0;
     let sec_hold = Stream_GetPosition s;
     let s = Stream_Seek s (unat sec_bytes);
     (ok, s) \<leftarrow> rdp_write_share_control_header s (len - ucast sec_bytes) type channel_id;
     (if \<not> ok then Some (False, rdp, None) else do {
     let s = Stream_SetPosition s sec_hold;
     ((ok, pad), rdp, s) \<leftarrow> rdp_security_stream_out ops rdp s (uint len) 0;
     (if \<not> ok then Some (False, rdp, None)
      else let len = len + ucast pad; s = Stream_SealLength (Stream_SetPosition s (unat len))
           in Some (\<not> tw s < 0, rdp, Some s)) }) }"

definition rdp_send_data_pdu ::
  "allocator \<Rightarrow> 'k security_ops \<Rightarrow> (wStream \<Rightarrow> int) \<Rightarrow> 'k rdpRdp \<Rightarrow> wStream \<Rightarrow> byte \<Rightarrow> u16 \<Rightarrow> 'k sender_result" where
  "rdp_send_data_pdu malloc ops tw rdp s type channel_id = do {
     let len = Stream_GetPosition s;
     let s = Stream_SetPosition s 0;
     s \<leftarrow> rdp_write_header malloc rdp s (word_of_nat len) MCS_GLOBAL_CHANNEL_ID;
     let sec_bytes = rdp_get_sec_bytes rdp 0;
     let sec_hold = Stream_GetPosition s;
     let s = Stream_Seek s (unat sec_bytes);
     (ok, s) \<leftarrow> rdp_write_share_control_header s (word_of_nat (sub64 len (unat sec_bytes))) PDU_TYPE_DATA channel_id;
     (if \<not> ok then Some (False, rdp, None) else do {
     (ok, s) \<leftarrow> rdp_write_share_data_header s (word_of_nat (sub64 len (unat sec_bytes))) type (ShareId rdp);
     (if \<not> ok then Some (False, rdp, None) else do {
     let s = Stream_SetPosition s sec_hold;
     ((ok, pad), rdp, s) \<leftarrow> rdp_security_stream_out ops rdp s (sint (word_of_nat len :: 32 word)) 0;
     (if \<not> ok then Some (False, rdp, None)
      else let len = add64 len (unat pad); s = Stream_SealLength (Stream_SetPosition s len);
               rdp = rdp\<lparr>outPackets := outPackets rdp + 1\<rparr>
           in Some (\<not> tw s < 0, rdp, Some s)) }) }) }"

section \<open>Receiving\<close>

definition ERRINFO_SUCCESS :: u32 where "ERRINFO_SUCCESS = 0"
definition ERRINFO_RPC_INITIATED_DISCONNECT :: u32 where "ERRINFO_RPC_INITIATED_DISCONNECT = 1"
definition ERRINFO_LOGOFF_BY_USER :: u32 where "ERRINFO_LOGOFF_BY_USER = 0xC"

text \<open>An error information code is turned into an error of the class \<^verbatim>\<open>ERRINFO\<close>, number 1.\<close>

definition rdp_set_error_info :: "'k rdpRdp \<Rightarrow> u32 \<Rightarrow> 'k rdpRdp" where
  "rdp_set_error_info rdp code =
     (let rdp = rdp\<lparr>errorInfo := code\<rparr> in
      if errorInfo rdp \<noteq> ERRINFO_SUCCESS
      then rdp\<lparr>LastError := push_bit 16 1 OR code, r_events := r_events rdp @ [OnErrorInfo code]\<rparr>
      else rdp\<lparr>LastError := 0\<rparr>)"

definition raise_event :: "rdp_event \<Rightarrow> 'k rdpRdp \<Rightarrow> 'k rdpRdp" where
  "raise_event e rdp = rdp\<lparr>r_events := r_events rdp @ [e]\<rparr>"

text \<open>What follows a disconnect provider ultimatum: the reason is kept, mapped to an error and announced.\<close>

definition handle_ultimatum :: "'k rdpRdp \<Rightarrow> int \<Rightarrow> 'k rdpRdp" where
  "handle_ultimatum rdp reason =
     (let rdp = rdp\<lparr>disconnectUltimatum := reason\<rparr>;
          rdp = (if errorInfo rdp = ERRINFO_SUCCESS
                 then if reason = 1 then rdp_set_error_info rdp ERRINFO_RPC_INITIATED_DISCONNECT
                      else if reason = 3 then rdp_set_error_info rdp ERRINFO_LOGOFF_BY_USER
                      else rdp_set_error_info rdp ERRINFO_RPC_INITIATED_DISCONNECT
                 else rdp)
      in raise_event OnTerminate (raise_event AbortConnect rdp))"

text \<open>The tail of \<^verbatim>\<open>rdp_read_header\<close>, behind the choice byte of a send-data PDU.\<close>

definition read_user_data :: "'k rdpRdp \<Rightarrow> wStream \<Rightarrow> (((u16 \<times> u16) option \<times> 'k rdpRdp) \<times> wStream) option" where
  "read_user_data rdp s = do {
     (initiator, s) \<leftarrow> per_read_integer16 s MCS_BASE_CHANNEL_ID;
     (if initiator = None then Some ((None, rdp), s) else do {
     (channelId, s) \<leftarrow> per_read_integer16 s 0;
     (case channelId of None \<Rightarrow> Some ((None, rdp), s) | Some channelId \<Rightarrow> do {
     (byte, s) \<leftarrow> Stream_Read_UINT8 s;
     (len, s) \<leftarrow> per_read_length s;
     (case len of None \<Rightarrow> Some ((None, rdp), s) | Some len \<Rightarrow>
     if unat len > Stream_GetRemainingLength s then Some ((None, rdp), s)
     else Some ((Some (len, channelId), rdp), s)) }) }) }"

text \<open>
  \<^verbatim>\<open>rdp_read_header\<close>: the results are the length of the user data and the channel; for the two kinds
  of disconnection the length is that of the packet and the channel zero. The first definition is
  what follows an X.224 data header.
\<close>

definition read_mcs_pdu :: "'k rdpRdp \<Rightarrow> u16 \<Rightarrow> wStream \<Rightarrow> (((u16 \<times> u16) option \<times> 'k rdpRdp) \<times> wStream) option" where
  "read_mcs_pdu rdp len s = do {
     let MCSPDU = (if ServerMode rdp then DomainMCSPDU_SendDataRequest else DomainMCSPDU_SendDataIndication);
     (choice, s) \<leftarrow> per_read_choice s;
     (case choice of None \<Rightarrow> Some ((None, rdp), s) | Some choice \<Rightarrow>
     let domainMCSPDU = drop_bit 2 choice in
     if domainMCSPDU \<noteq> MCSPDU \<and> domainMCSPDU \<noteq> DomainMCSPDU_DisconnectProviderUltimatum then Some ((None, rdp), s)
     else if len < 8 then Some ((None, rdp), s)
     else if unat len - 8 > Stream_GetRemainingLength s then Some ((None, rdp), s)
     else if domainMCSPDU = DomainMCSPDU_DisconnectProviderUltimatum then do {
       (reason, s) \<leftarrow> mcs_recv_disconnect_provider_ultimatum s;
       (case reason of None \<Rightarrow> Some ((None, rdp), s)
        | Some reason \<Rightarrow> Some ((Some (len, 0), handle_ultimatum rdp reason), s)) }
     else if Stream_GetRemainingLength s < 5 then Some ((None, rdp), s)
     else read_user_data rdp s) }"

definition rdp_read_header ::
  "'k rdpRdp \<Rightarrow> wStream \<Rightarrow> (((u16 \<times> u16) option \<times> 'k rdpRdp) \<times> wStream) option" where
  "rdp_read_header rdp s = do {
     (len, s) \<leftarrow> tpkt_read_header s;
     (case len of None \<Rightarrow> Some ((None, rdp), s) | Some len \<Rightarrow> do {
     (r, s) \<leftarrow> tpdu_read_header s len;
     (case r of None \<Rightarrow> Some ((None, rdp), s) | Some (code, li) \<Rightarrow>
     if code \<noteq> X224_TPDU_DATA then
       if code = X224_TPDU_DISCONNECT_REQUEST then Some ((Some (len, 0), raise_event AbortConnect rdp), s)
       else Some ((None, rdp), s)
     else read_mcs_pdu rdp len s) }) }"

text \<open>
  \<^verbatim>\<open>rdp_decrypt\<close> decrypts in place and gives the new length; a wrong standard signature is only
  logged. The outer \<open>None\<close> of a result is \<open>FALSE\<close>.
\<close>

definition decrypt_fips ::
  "'k security_ops \<Rightarrow> 'k rdpRdp \<Rightarrow> wStream \<Rightarrow> int \<Rightarrow> ((u16 option \<times> 'k rdpRdp) \<times> wStream) option" where
  "decrypt_fips ops rdp s len =
     (if Stream_GetRemainingLength s < 12 then Some ((None, rdp), s)
      else do {
        (l, s) \<leftarrow> Stream_Read_UINT16 s;
        (version, s) \<leftarrow> Stream_Read_UINT8 s;
        (pad, s) \<leftarrow> Stream_Read_UINT8 s;
        sig \<leftarrow> Stream_Peek s 8;
        let s = Stream_Seek s 8;
        let len = len - 12;
        let padLength = len - uint pad;
        (if len \<le> 0 \<or> padLength \<le> 0 then Some ((None, rdp), s)
         else do {
           body \<leftarrow> Stream_Peek s (nat len);
           let (dec, k) = security_fips_decrypt ops (r_keys rdp) body;
           let rdp = rdp\<lparr>r_keys := k\<rparr>;
           (case dec of None \<Rightarrow> Some ((None, rdp), s)
            | Some dec \<Rightarrow> do {
                s \<leftarrow> write_at s (Stream_GetPosition s) dec;
                body \<leftarrow> Stream_Peek s (nat padLength);
                let (ok, k) = security_fips_check_signature ops (r_keys rdp) body sig;
                let rdp = rdp\<lparr>r_keys := k\<rparr>;
                (if \<not> ok then Some ((None, rdp), s)
                 else Some ((Some (word_of_int padLength), rdp), Stream_SetLength s (sub64 (s_length s) (unat pad)))) }) }) })"

definition decrypt_standard ::
  "'k security_ops \<Rightarrow> 'k rdpRdp \<Rightarrow> wStream \<Rightarrow> int \<Rightarrow> u16 \<Rightarrow> ((u16 option \<times> 'k rdpRdp) \<times> wStream) option" where
  "decrypt_standard ops rdp s len securityFlags =
     (if Stream_GetRemainingLength s < 8 then Some ((None, rdp), s)
      else do {
        (wmac, s) \<leftarrow> Stream_Read s 8;
        let len = len - 8;
        (if len \<le> 0 then Some ((None, rdp), s)
         else do {
           body \<leftarrow> Stream_Peek s (nat len);
           let (dec, k) = security_decrypt ops (r_keys rdp) body;
           let rdp = rdp\<lparr>r_keys := k\<rparr>;
           (case dec of None \<Rightarrow> Some ((None, rdp), s)
            | Some dec \<Rightarrow> do {
                s \<leftarrow> write_at s (Stream_GetPosition s) dec;
                body \<leftarrow> Stream_Peek s (nat len);
                let (cmac, k) = (if ucast securityFlags AND SEC_SECURE_CHECKSUM \<noteq> 0
                                 then security_salted_mac_signature ops (r_keys rdp) body False
                                 else security_mac_signature ops (r_keys rdp) body);
                let rdp = rdp\<lparr>r_keys := k\<rparr>;
                Some ((if cmac = None then None else Some (word_of_int len), rdp), s) }) }) })"

definition rdp_decrypt ::
  "'k security_ops \<Rightarrow> 'k rdpRdp \<Rightarrow> wStream \<Rightarrow> u16 \<Rightarrow> u16 \<Rightarrow> ((u16 option \<times> 'k rdpRdp) \<times> wStream) option" where
  "rdp_decrypt ops rdp s pLength securityFlags =
     (if EncryptionMethods rdp = ENCRYPTION_METHOD_FIPS then decrypt_fips ops rdp s (uint pLength)
      else decrypt_standard ops rdp s (uint pLength) securityFlags)"

section \<open>The packet header on the wire\<close>

lemmas rdp_consts = DomainMCSPDU_SendDataRequest_def DomainMCSPDU_SendDataIndication_def RDP_PACKET_HEADER_MAX_LENGTH_def
  RDP_SHARE_CONTROL_HEADER_LENGTH_def RDP_SHARE_DATA_HEADER_LENGTH_def

definition send_pdu_of :: "'k rdpRdp \<Rightarrow> byte" where
  "send_pdu_of rdp = (if ServerMode rdp then DomainMCSPDU_SendDataIndication else DomainMCSPDU_SendDataRequest)"

definition long_length_enc :: "u16 \<Rightarrow> byte list" where
  "long_length_enc n = [ucast (drop_bit 8 n) OR 0x80, ucast n]"

definition rdp_header_enc :: "byte \<Rightarrow> u16 \<Rightarrow> u16 \<Rightarrow> u16 \<Rightarrow> byte list" where
  "rdp_header_enc pdu n uid ch = mcs_header_enc pdu n 0 @ per_integer16_enc MCS_BASE_CHANNEL_ID uid @
     per_integer16_enc 0 ch @ [0x70] @ long_length_enc (n - 15)"

lemma length_rdp_header_enc [simp]: "length (rdp_header_enc pdu n uid ch) = 15" "length (long_length_enc k) = 2"
  by (simp_all add: rdp_header_enc_def long_length_enc_def)

lemma long_length_rest:
  assumes "n < 0x8000" "wf_stream s" "rest s = long_length_enc n @ r"
  shows "per_read_length s = Some (Some n, Stream_Seek s 2)"
proof -
  have "avail s = 2 + length r" using rest_split [OF assms(2,3)] by simp
  then show ?thesis using assms(2,3) per_length_decode [OF assms(1)]
    by (simp add: per_read_length_def long_length_enc_def stream_simps high_bit_test Let_def)
qed

lemma rdp_write_header_put:
  assumes "wf_cap s" "15 \<le> room s" "sec_flags rdp AND SEC_ENCRYPT = 0"
  shows "rdp_write_header malloc rdp s n ch = Some (put s (rdp_header_enc (send_pdu_of rdp) n (userId (r_mcs rdp)) ch))"
  using assms
  by (simp add: rdp_write_header_def rdp_header_enc_def send_pdu_of_def rdp_consts stream_simps long_length_enc_def
      high_bit_enc Let_def)

lemma rdp_read_header_rest:
  assumes "wf_stream s" "rest s = rdp_header_enc (send_pdu_of peer) n uid ch @ r" "ServerMode rdp \<noteq> ServerMode peer"
    "unat n = 15 + length r" "length r < 0x8000" "MCS_BASE_CHANNEL_ID \<le> uid"
  shows "rdp_read_header rdp s = Some ((Some (word_of_nat (length r), ch), rdp), Stream_Seek s 15)"
proof -
  let ?pdu = "send_pdu_of peer"
  have a: "avail s = 15 + length r" using rest_split [OF assms(1,2)] by simp
  have pdu: "?pdu = (if ServerMode rdp then DomainMCSPDU_SendDataRequest else DomainMCSPDU_SendDataIndication)"
    using assms(3) by (simp add: send_pdu_of_def)
  have small: "unat ?pdu < 64" by (simp add: send_pdu_of_def rdp_consts)
  have n15: "n - 15 = word_of_nat (length r)"
  proof -
    have "n = word_of_nat (unat n)" by simp
    then have "n = word_of_nat (15 + length r)" unfolding assms(4) .
    then show ?thesis by simp
  qed
  have 1: "tpkt_read_header s = Some (Some n, Stream_Seek s 4)"
    using assms(1,2,4) by (intro tpkt_read_header_rest [where r = "drop 4 (rest s)"])
      (simp_all add: a length_rest rdp_header_enc_def mcs_header_enc_def tpkt_enc_def tpdu_enc_def)
  have 2: "tpdu_read_header (Stream_Seek s 4) n = Some (Some (X224_TPDU_DATA, 2), Stream_Seek s 7)"
    using assms(1,2,4) a tpdu_read_header_rest [of 2 n "Stream_Seek s 4" X224_TPDU_DATA "drop 7 (rest s)"]
    by (simp add: stream_simps rdp_header_enc_def mcs_header_enc_def tpkt_enc_def tpdu_enc_def)
  have "rest s ! 7 = push_bit 2 ?pdu"
    using assms(2) by (simp add: rdp_header_enc_def mcs_header_enc_def tpkt_enc_def tpdu_enc_def)
  then have 3: "per_read_choice (Stream_Seek s 7) = Some (Some (push_bit 2 ?pdu), Stream_Seek s 8)"
    using assms(1) a by (simp add: per_read_choice_def stream_simps)
  have d: "drop_bit 2 (push_bit 2 ?pdu) = ?pdu" using choice_split [OF small, of 0] by simp
  have 4: "per_read_integer16 (Stream_Seek s 8) MCS_BASE_CHANNEL_ID = Some (Some uid, Stream_Seek s 10)"
    "per_read_integer16 (Stream_Seek s 10) 0 = Some (Some ch, Stream_Seek s 12)"
    using assms(1,2,6) a integer16_rest_at [of s 8 MCS_BASE_CHANNEL_ID uid "drop 10 (rest s)"]
      integer16_rest_at [of s 10 0 ch "drop 12 (rest s)"]
    by (simp_all add: rdp_header_enc_def)
  have 5: "Stream_Read_UINT8 (Stream_Seek s 12) = Some (rest s ! 12, Stream_Seek s 13)"
    using assms(1) a by (simp add: stream_simps)
  have 6: "per_read_length (Stream_Seek s 13) = Some (Some (word_of_nat (length r)), Stream_Seek s 15)"
    using long_length_rest [of "word_of_nat (length r)" "Stream_Seek s 13" r] assms a n15
    by (simp add: stream_simps rdp_header_enc_def word_less_nat_alt take_bit_nat_eq_self unat_of_nat_eq)
  have l: "unat (word_of_nat (length r) :: u16) = length r" using assms(5) by (simp add: unat_of_nat_eq)
  have n: "\<not> n < 8" "\<not> unat n - 8 > avail s - 8" using assms(4) a by (simp_all add: word_less_nat_alt)
  have ne: "?pdu \<noteq> DomainMCSPDU_DisconnectProviderUltimatum" by (simp add: send_pdu_of_def rdp_consts mcs_consts)
  show ?thesis using assms(1) a n ne
    by (simp add: rdp_read_header_def read_mcs_pdu_def read_user_data_def 1 2 3 d 4 5 6 l pdu [symmetric] stream_simps)
qed

section \<open>Share headers on the wire\<close>

definition share_control_enc :: "nat \<Rightarrow> u16 \<Rightarrow> u16 \<Rightarrow> byte list" where
  "share_control_enc n type ch = u16_enc (word_of_nat n) @ u16_enc (type OR 0x10) @ u16_enc ch"

definition share_data_enc :: "nat \<Rightarrow> byte \<Rightarrow> u32 \<Rightarrow> byte list" where
  "share_data_enc n type share = u32_enc share @ [0, STREAM_LOW] @ u16_enc (word_of_nat n) @ [type, 0] @ u16_enc 0"

lemma length_share_enc [simp]: "length (share_control_enc n ty ch) = 6" "length (share_data_enc n b sh) = 12"
  by (simp_all add: share_control_enc_def share_data_enc_def)

lemma share_control_put:
  assumes "wf_cap s" "6 \<le> room s" "n + 15 < 2 ^ 16"
  shows "rdp_write_share_control_header s (word_of_nat (n + 15)) type ch = Some (True, put s (share_control_enc n type ch))"
proof -
  have u: "unat (word_of_nat (n + 15) :: u16) = n + 15" using assms(3) by (intro unat_of_nat_eq) simp
  show ?thesis using assms(1,2) unfolding rdp_write_share_control_header_def u
    by (simp add: rdp_consts room_eq share_control_enc_def u16_enc_def stream_simps Let_def)
qed

lemma share_data_put:
  assumes "wf_cap s" "12 \<le> room s" "n + 33 < 2 ^ 16"
  shows "rdp_write_share_data_header s (word_of_nat (n + 33)) type sh = Some (True, put s (share_data_enc n type sh))"
proof -
  have u: "unat (word_of_nat (n + 33) :: u16) = n + 33" using assms(3) by (intro unat_of_nat_eq) simp
  show ?thesis using assms(1,2) unfolding rdp_write_share_data_header_def u
    by (simp add: rdp_consts room_eq share_data_enc_def u16_enc_def u32_enc_def stream_simps Let_def)
qed

lemma share_control_rest:
  assumes "wf_stream s" "rest s = share_control_enc n type ch @ r" "n = 6 + length r" "n < 0x8000" "type AND 0x0F = type"
  shows "rdp_read_share_control_header s = Some (Some (word_of_nat n, word_of_nat (length r), type, ch), Stream_Seek s 6)"
proof -
  have a: "avail s = n" using rest_split [OF assms(1,2)] assms(3) by simp
  have u: "unat (word_of_nat n :: u16) = n" using assms(4) by (simp add: unat_of_nat_eq)
  have ty: "(type OR 0x10) AND 0x0F = type"
  proof -
    have "(type OR 0x10) AND 0x0F = (type AND 0x0F) OR (0x10 AND 0x0F)" by (rule bit_word_eqI) (auto simp only: bit_or_iff bit_and_iff)
    then show ?thesis using assms(5) by simp
  qed
  have 1: "Stream_Read_UINT16 s = Some (word_of_nat n, Stream_Seek s 2)"
    using Read_UINT16_at [OF assms(1), of 0 "word_of_nat n"] assms(2) by (simp add: share_control_enc_def numeral_2_eq_2)
  have 2: "Stream_Read_UINT16 (Stream_Seek s 2) = Some (type OR 0x10, Stream_Seek s 4)"
    using Read_UINT16_at [OF assms(1), of 2 "type OR 0x10"] assms(2) by (simp add: share_control_enc_def)
  have 3: "Stream_Read_UINT16 (Stream_Seek s 4) = Some (ch, Stream_Seek s 6)"
    using Read_UINT16_at [OF assms(1), of 4 ch] assms(2) by (simp add: share_control_enc_def)
  have w: "(word_of_nat n :: u16) \<noteq> 0x8000" "\<not> (word_of_nat n :: u16) < 4" "(word_of_nat n :: u16) > 5"
    using u assms(3,4) by (auto simp: word_less_nat_alt)
  have r: "(word_of_nat n :: u16) - 6 = word_of_nat (length r)" using assms(3) by simp
  have l: "6 \<le> n" using assms(3) by simp
  show ?thesis using assms(1) a w l
    by (simp add: rdp_read_share_control_header_def 1 2 3 u ty r stream_simps)
qed

lemma share_data_rest:
  assumes "wf_stream s" "rest s = share_data_enc n type sh @ r"
  shows "rdp_read_share_data_header s = Some (Some (word_of_nat n, type, sh, 0, 0), Stream_Seek s 12)"
proof -
  have a: "12 \<le> avail s" using rest_split [OF assms] by simp
  have d: "drop k (rest s) = drop k (share_data_enc n type sh) @ drop (k - 12) r" for k using assms(2) by simp
  have 1: "Stream_Read_UINT32 s = Some (sh, Stream_Seek s 4)"
    using Read_UINT32_at [OF assms(1), of 0 sh] assms(2) by (simp add: share_data_enc_def)
  have 2: "Stream_Read_UINT16 (Stream_Seek s 6) = Some (word_of_nat n, Stream_Seek s 8)"
    using Read_UINT16_at [OF assms(1), of 6 "word_of_nat n"] assms(2) by (simp add: share_data_enc_def)
  have 3: "Stream_Read_UINT8 (Stream_Seek s 8) = Some (type, Stream_Seek s 9)"
    "Stream_Read_UINT8 (Stream_Seek s 9) = Some (0, Stream_Seek s 10)"
    using Read_UINT8_at [OF assms(1), of 8 type] Read_UINT8_at [OF assms(1), of 9 0] assms(2) by (simp_all add: share_data_enc_def)
  have 4: "Stream_Read_UINT16 (Stream_Seek s 10) = Some (0, Stream_Seek s 12)"
    using Read_UINT16_at [OF assms(1), of 10 0] assms(2) by (simp add: share_data_enc_def)
  show ?thesis using assms(1) a by (simp add: rdp_read_share_data_header_def 1 2 3 4 stream_simps)
qed

section \<open>From the pool to the peer\<close>

text \<open>What \<^verbatim>\<open>StreamPool_Take\<close> promises: a stream of at least the requested capacity, its length the capacity.\<close>

definition pool_ok :: "(nat \<Rightarrow> wStream option) \<Rightarrow> bool" where
  "pool_ok pool \<longleftrightarrow> (\<forall>n s. pool n = Some s \<longrightarrow> wf_cap s \<and> s_pointer s = 0 \<and> s_length s = s_capacity s \<and> n \<le> s_capacity s)"

definition fresh_pool :: "nat \<Rightarrow> wStream option" where
  "fresh_pool n = (if n < 2 ^ 63 then Some (zero_stream n) else None)"

lemma fresh_pool_ok: "pool_ok fresh_pool"
  by (auto simp: pool_ok_def fresh_pool_def zero_stream_def wf_cap_def split: if_splits)

lemma pool_stream:
  assumes "pool_ok pool" "pool n = Some s0"
  shows "transport_send_stream_init malloc pool n = Some (Some s0)" "wf_stream s0" "avail s0 = room s0" "n \<le> room s0"
proof -
  have p: "wf_cap s0" "s_pointer s0 = 0" "s_length s0 = s_capacity s0" "n \<le> s_capacity s0"
    using assms unfolding pool_ok_def by blast+
  have "Stream_EnsureCapacity malloc s0 n = Some (True, s0)" using p(4) by (simp add: Stream_EnsureCapacity_def)
  then show "transport_send_stream_init malloc pool n = Some (Some s0)"
    using assms(2) p(2) by (simp add: transport_send_stream_init_def Stream_SetPosition_def)
  show "wf_stream s0" "avail s0 = room s0" "n \<le> room s0"
    using p by (auto simp: wf_stream_def avail_def room_def wf_cap_def)
qed

lemma init_stream_clear:
  assumes "pool_ok pool" "pool 4096 = Some s0" "\<not> do_crypt rdp" "sec_flags rdp = 0"
  shows "rdp_data_pdu_init malloc pool rdp = Some (Some (Stream_Seek s0 33), rdp)"
    "rdp_message_channel_pdu_init malloc pool rdp = Some (Some (Stream_Seek s0 19), rdp)"
proof -
  note p = pool_stream [OF assms(1,2)]
  obtain k where k: "room s0 = 4096 + k" using p(4) le_Suc_ex by blast
  show "rdp_data_pdu_init malloc pool rdp = Some (Some (Stream_Seek s0 33), rdp)"
    "rdp_message_channel_pdu_init malloc pool rdp = Some (Some (Stream_Seek s0 19), rdp)"
    using p(1-3) assms(3,4)
    by (simp_all add: rdp_data_pdu_init_def rdp_send_stream_pdu_init_def rdp_send_stream_init_def
        rdp_message_channel_pdu_init_def init_stream_def rdp_security_stream_init_def rdp_consts stream_simps k)
qed

lemma stream_out_clear:
  assumes "sec_flags rdp = 0"
  shows "rdp_security_stream_out ops rdp s n 0 = Some ((True, 0), rdp, s)"
  by (simp add: rdp_security_stream_out_def assms)

definition data_pdu_enc :: "'k rdpRdp \<Rightarrow> byte \<Rightarrow> u16 \<Rightarrow> nat \<Rightarrow> byte list" where
  "data_pdu_enc rdp type ch n =
     rdp_header_enc (send_pdu_of rdp) (word_of_nat (33 + n)) (userId (r_mcs rdp)) MCS_GLOBAL_CHANNEL_ID @
     share_control_enc (18 + n) PDU_TYPE_DATA ch @ share_data_enc n type (ShareId rdp)"

lemma send_data_pdu_clear:
  assumes s0: "wf_cap s0" "s_pointer s0 = 0" "33 + length body \<le> room s0" and n: "33 + length body < 2 ^ 16"
    and c: "sec_flags rdp = 0"
  shows "\<exists>t. rdp_send_data_pdu malloc ops tw rdp (put (Stream_Seek s0 33) body) type ch =
      Some (\<not> tw t < 0, rdp\<lparr>outPackets := outPackets rdp + 1\<rparr>, Some t) \<and> sent (data_pdu_enc rdp type ch (length body) @ body) t"
proof -
  define e where "e = data_pdu_enc rdp type ch (length body)"
  let ?s = "Stream_SetPosition (put (Stream_Seek s0 33) body) 0" and ?len = "33 + length body"
  let ?h = "rdp_header_enc (send_pdu_of rdp) (word_of_nat ?len) (userId (r_mcs rdp)) MCS_GLOBAL_CHANNEL_ID"
  let ?c = "share_control_enc (18 + length body) PDU_TYPE_DATA ch" and ?d = "share_data_enc (length body) type (ShareId rdp)"
  have le: "length e = 33" by (simp add: e_def data_pdu_enc_def)
  have s: "wf_cap ?s" "room ?s = room s0" "s_pointer ?s = 0"
    using sent_header_last(1,2) [of s0 e body] s0 le by (simp_all add: Stream_SetPosition_def)
  have room: "15 \<le> room ?s" "33 \<le> room ?s" using s(2) s0(3) by simp_all
  have h: "rdp_write_header malloc rdp ?s (word_of_nat ?len) MCS_GLOBAL_CHANNEL_ID = Some (put ?s ?h)"
    using s room c by (intro rdp_write_header_put) simp_all
  have "rdp_write_share_control_header (put ?s ?h) (word_of_nat (18 + length body + 15)) PDU_TYPE_DATA ch =
      Some (True, put (put ?s ?h) ?c)"
    using s room n by (intro share_control_put) (simp_all add: stream_simps)
  moreover have "put (put ?s ?h) ?c = put ?s (?h @ ?c)" using s room by (simp add: stream_simps)
  ultimately have 1: "rdp_write_share_control_header (put ?s ?h) (word_of_nat ?len) PDU_TYPE_DATA ch = Some (True, put ?s (?h @ ?c))"
    by (simp add: ac_simps)
  have "rdp_write_share_data_header (put ?s (?h @ ?c)) (word_of_nat (length body + 33)) type (ShareId rdp) =
      Some (True, put (put ?s (?h @ ?c)) ?d)"
    using s room n by (intro share_data_put) (simp_all add: stream_simps)
  moreover have "put (put ?s (?h @ ?c)) ?d = put ?s e" using s room by (simp add: stream_simps e_def data_pdu_enc_def)
  ultimately have 2: "rdp_write_share_data_header (put ?s (?h @ ?c)) (word_of_nat ?len) type (ShareId rdp) = Some (True, put ?s e)"
    by (simp add: ac_simps)
  have sb: "rdp_get_sec_bytes rdp 0 = 0" by (simp add: rdp_get_sec_bytes_def c)
  let ?t = "Stream_SealLength (Stream_SetPosition (put ?s e) ?len)"
  have p: "Stream_GetPosition (put (Stream_Seek s0 33) body) = ?len" using s0(2) by (simp add: Stream_GetPosition_def)
  have sp: "Stream_SetPosition (Stream_SetPosition u a) b = Stream_SetPosition u b" for u a b by (simp add: Stream_SetPosition_def)
  have b64: "?len < 2 ^ 64" "sub64 ?len 0 = ?len" "add64 ?len 0 = ?len" using n by simp_all
  have "rdp_send_data_pdu malloc ops tw rdp (put (Stream_Seek s0 33) body) type ch =
      Some (\<not> tw ?t < 0, rdp\<lparr>outPackets := outPackets rdp + 1\<rparr>, Some ?t)"
    unfolding rdp_send_data_pdu_def p Let_def h sb using b64
    by (simp only: bind.bind_lunit prod.case unat_0 Stream_Seek_simps b64 1 2 stream_out_clear [OF c] sp simp_thms if_False)
  moreover have "sent (e @ body) ?t" using sent_header_last(3) [of s0 e body] s0 le by simp
  ultimately show ?thesis unfolding e_def by blast
qed

section \<open>Reading an arbitrary packet\<close>

text \<open>The ultimatum is read from the byte before the pointer, which \<^verbatim>\<open>rdp_read_header\<close> has just read.\<close>

definition header_outcome :: "'k rdpRdp \<Rightarrow> wStream \<Rightarrow> (u16 \<times> u16) option \<Rightarrow> 'k rdpRdp \<Rightarrow> wStream \<Rightarrow> bool" where
  "header_outcome rdp s r rdp' s' \<longleftrightarrow> consumed s s' \<and>
     (case r of None \<Rightarrow> rdp' = rdp
      | Some (len, ch) \<Rightarrow> rdp' = rdp \<and> unat len \<le> avail s' \<or> ch = 0 \<and> AbortConnect \<in> set (r_events rdp'))"

lemma ultimatum_aborts: "AbortConnect \<in> set (r_events (handle_ultimatum rdp reason))"
  by (simp add: handle_ultimatum_def raise_event_def Let_def)

lemma integer16_step:
  assumes "wf_stream s" "2 \<le> avail s"
  shows "run_ok (per_read_integer16 s mn) (\<lambda>_ s'. s' = Stream_Seek s 2)"
  using assms by (auto simp: per_read_integer16_def stream_simps)

lemma read_user_data_outcome:
  assumes "consumed s0 s" "wf_stream s" "5 \<le> avail s"
  shows "run_ok (read_user_data rdp s) (\<lambda>(r, rdp') s'. header_outcome rdp s0 r rdp' s')"
proof -
  have c: "consumed s0 (Stream_Seek s k)" if "k \<le> avail s" for k
    using assms(1) consumed_Seek [OF that] by (rule consumed_trans)
  have 3: "run_ok (per_read_length (Stream_Seek s 5)) (\<lambda>_. consumed (Stream_Seek s 5))"
    using assms by (intro safe_readerD [OF safe_per_read_length]) (simp add: stream_simps)
  have 2: "run_ok (Stream_Read_UINT8 (Stream_Seek s 4)) (\<lambda>_ s'. s' = Stream_Seek s 5)"
    using assms by (simp add: stream_simps)
  have 1: "run_ok (per_read_integer16 (Stream_Seek s 2) 0) (\<lambda>_ s'. s' = Stream_Seek s 4)"
    "run_ok (per_read_integer16 s MCS_BASE_CHANNEL_ID) (\<lambda>_ s'. s' = Stream_Seek s 2)"
    using integer16_step [of "Stream_Seek s 2" 0] integer16_step [of s] assms by (simp_all add: stream_simps)
  have f: "consumed s0 t \<and> Stream_GetRemainingLength t = avail t" if "consumed (Stream_Seek s 5) t" for t
  proof -
    have "consumed s0 t" using c [of 5] assms(3) that consumed_trans by simp
    moreover have "wf_stream t" using that assms(2,3) consumed_wf by (metis wf_Seek)
    ultimately show ?thesis by (simp add: stream_simps)
  qed
  show ?thesis unfolding read_user_data_def run_ok_bind
    using c [of 2] c [of 4] assms(3)
    by (intro run_ok_mono [OF 1(2)], simp add: header_outcome_def run_ok_bind, intro impI run_ok_mono [OF 1(1)])
       (auto simp: header_outcome_def run_ok_bind dest!: f split: option.splits intro!: run_ok_mono [OF 2] run_ok_mono [OF 3])
qed

section \<open>Properties of the slow path\<close>

text \<open>What the peer reads of a data PDU: packet header, share control header, share data header, body.\<close>

definition read_data_pdu :: "'k rdpRdp \<Rightarrow> wStream \<Rightarrow>
    ((u16 \<times> u16 \<times> (u16 \<times> u16 \<times> u16 \<times> u16) option \<times> (u16 \<times> byte \<times> u32 \<times> byte \<times> u16) option) option \<times> wStream) option" where
  "read_data_pdu rdp s = do {
     ((r, rdp), s) \<leftarrow> rdp_read_header rdp s;
     (case r of None \<Rightarrow> Some (None, s)
      | Some (len, ch) \<Rightarrow> do {
          (c, s) \<leftarrow> rdp_read_share_control_header s;
          (d, s) \<leftarrow> rdp_read_share_data_header s;
          Some (Some (len, ch, c, d), s) }) }"

lemma read_data_pdu_rest:
  assumes "wf_stream s" "rest s = data_pdu_enc peer type ch (length body) @ body" "ServerMode rdp \<noteq> ServerMode peer"
    "18 + length body < 0x8000" "MCS_BASE_CHANNEL_ID \<le> userId (r_mcs peer)"
  shows "read_data_pdu rdp s = Some (Some (word_of_nat (18 + length body), MCS_GLOBAL_CHANNEL_ID,
      Some (word_of_nat (18 + length body), word_of_nat (12 + length body), PDU_TYPE_DATA, ch),
      Some (word_of_nat (length body), type, ShareId peer, 0, 0)), Stream_Seek s 33)"
proof -
  let ?c = "share_control_enc (18 + length body) PDU_TYPE_DATA ch" and ?d = "share_data_enc (length body) type (ShareId peer)"
  have a: "avail s = 33 + length body" using rest_split [OF assms(1,2)] by (simp add: data_pdu_enc_def)
  have 1: "rdp_read_header rdp s = Some ((Some (word_of_nat (length (?c @ ?d @ body)), MCS_GLOBAL_CHANNEL_ID), rdp), Stream_Seek s 15)"
  proof (rule rdp_read_header_rest)
    show "rest s = rdp_header_enc (send_pdu_of peer) (word_of_nat (33 + length body)) (userId (r_mcs peer)) MCS_GLOBAL_CHANNEL_ID @ ?c @ ?d @ body"
      using assms(2) by (simp add: data_pdu_enc_def)
    have "unat (word_of_nat (33 + length body) :: u16) = 33 + length body" using assms(4) by (intro unat_of_nat_eq) simp
    then show "unat (word_of_nat (33 + length body) :: u16) = 15 + length (?c @ ?d @ body)" by simp
  qed (use assms in simp_all)
  have s1: "wf_stream (Stream_Seek s 15)" "rest (Stream_Seek s 15) = ?c @ ?d @ body"
    using assms(1,2) a by (simp_all add: stream_simps data_pdu_enc_def)
  have 2: "rdp_read_share_control_header (Stream_Seek s 15) =
      Some (Some (word_of_nat (18 + length body), word_of_nat (length (?d @ body)), PDU_TYPE_DATA, ch), Stream_Seek (Stream_Seek s 15) 6)"
    using assms(4) by (intro share_control_rest [OF s1]) (simp_all add: PDU_TYPE_DATA_def)
  have s2: "wf_stream (Stream_Seek s 21)" "rest (Stream_Seek s 21) = ?d @ body"
    using assms(1,2) a by (simp_all add: stream_simps data_pdu_enc_def)
  note 3 = share_data_rest [OF s2]
  show ?thesis unfolding read_data_pdu_def 1 using 2 3 by simp
qed

text \<open>
  C19: A slow-path data PDU reaches the peer unchanged: on an unencrypted connection, the stream that
  \<^verbatim>\<open>rdp_data_pdu_init\<close> takes from the pool, filled with a body and sent by \<^verbatim>\<open>rdp_send_data_pdu\<close>, is read by
  the other side's \<^verbatim>\<open>rdp_read_header\<close>, \<^verbatim>\<open>rdp_read_share_control_header\<close> and \<^verbatim>\<open>rdp_read_share_data_header\<close>
  as a PDU of the same type, source and share, with lengths that match and the body left to read.
\<close>

theorem rdp_data_pdu_roundtrip:
  assumes "pool_ok pool" "pool 4096 = Some s0" "\<not> do_crypt rdp" "sec_flags rdp = 0"
    "33 + length body \<le> s_capacity s0" "18 + length body < 0x8000"
    "ServerMode peer \<noteq> ServerMode rdp" "MCS_BASE_CHANNEL_ID \<le> userId (r_mcs rdp)"
  shows "\<exists>s s' t. rdp_data_pdu_init malloc pool rdp = Some (Some s, rdp) \<and> Stream_Write s body = Some s' \<and>
    rdp_send_data_pdu malloc ops tw rdp s' type ch = Some (\<not> tw t < 0, rdp\<lparr>outPackets := outPackets rdp + 1\<rparr>, Some t) \<and>
    run_ok (read_data_pdu peer (Stream_SetPosition t 0)) (\<lambda>r u. rest u = body \<and>
      r = Some (word_of_nat (18 + length body), MCS_GLOBAL_CHANNEL_ID,
        Some (word_of_nat (18 + length body), word_of_nat (12 + length body), PDU_TYPE_DATA, ch),
        Some (word_of_nat (length body), type, ShareId rdp, 0, 0)))"
proof -
  have s0: "wf_cap s0" "s_pointer s0 = 0" "33 + length body \<le> room s0"
    using assms(1,2,5) by (auto simp: pool_ok_def room_def)
  let ?s = "Stream_Seek s0 33"
  have 1: "rdp_data_pdu_init malloc pool rdp = Some (Some ?s, rdp)" using assms(1-4) by (intro init_stream_clear)
  have "wf_cap ?s" "length body \<le> room ?s" using s0 by (auto simp: wf_cap_def room_def)
  then have 2: "Stream_Write ?s body = Some (put ?s body)" by (simp add: stream_simps)
  obtain t where t: "rdp_send_data_pdu malloc ops tw rdp (put ?s body) type ch =
      Some (\<not> tw t < 0, rdp\<lparr>outPackets := outPackets rdp + 1\<rparr>, Some t)"
    "sent (data_pdu_enc rdp type ch (length body) @ body) t"
    using send_data_pdu_clear [of s0 body rdp malloc ops tw type ch] s0 assms(4,6) by auto
  have w: "wf_stream (Stream_SetPosition t 0)" "rest (Stream_SetPosition t 0) = data_pdu_enc rdp type ch (length body) @ body"
    using t(2) by (simp_all add: sent_def)
  have "rest (Stream_Seek (Stream_SetPosition t 0) 33) = body" using w(2) by (simp add: rest_Seek data_pdu_enc_def)
  then have 3: "run_ok (read_data_pdu peer (Stream_SetPosition t 0)) (\<lambda>r u. rest u = body \<and>
      r = Some (word_of_nat (18 + length body), MCS_GLOBAL_CHANNEL_ID,
        Some (word_of_nat (18 + length body), word_of_nat (12 + length body), PDU_TYPE_DATA, ch),
        Some (word_of_nat (length body), type, ShareId rdp, 0, 0)))"
    unfolding read_data_pdu_rest [OF w assms(7,6,8)] run_ok_Some by blast
  show ?thesis using 1 2 t(1) 3 by blast
qed

text \<open>A client that attached as user 1004 and its server.\<close>

definition example_rdp :: "bool \<Rightarrow> unit rdpRdp" where
  "example_rdp server =
     \<lparr>r_mcs = mcs_new\<lparr>userId := 1004, messageChannelId := 1005\<rparr>,
      r_autodetect = \<lparr>rttMeasureStartTime = 0, bandwidthMeasureStartTime = 0, bandwidthMeasureTimeDelta = 0,
        bandwidthMeasureByteCount = 0, netCharBandwidth = 0, netCharBaseRTT = 0, netCharAverageRTT = 0,
        bandwidthMeasureStarted = False\<rparr>,
      ServerMode = server, EncryptionMethods = 0, ShareId = 0x103EA, UseRdpSecurityLayer = False, NetworkAutoDetect = True,
      PduSource = 0, sec_flags = 0, do_crypt = False, do_secure_checksum = False, errorInfo = 0, LastError = 0,
      disconnectUltimatum = 0, inPackets = 0, outPackets = 0, r_events = [], r_keys = ()\<rparr>"

definition no_security :: "unit security_ops" where
  "no_security =
     \<lparr>security_hmac_signature = (\<lambda>k bs. (Some (replicate 8 0), k)), security_salted_mac_signature = (\<lambda>k bs b. (Some (replicate 8 0), k)),
      security_mac_signature = (\<lambda>k bs. (Some (replicate 8 0), k)), security_encrypt = (\<lambda>k bs. (Some bs, k)),
      security_decrypt = (\<lambda>k bs. (Some bs, k)), security_fips_encrypt = (\<lambda>k bs. (Some bs, k)),
      security_fips_decrypt = (\<lambda>k bs. (Some bs, k)), security_fips_check_signature = (\<lambda>k bs sig. (True, k))\<rparr>"

theorem rdp_data_pdu_roundtrip_witness:
  "\<exists>s s' t. rdp_data_pdu_init zero_malloc fresh_pool (example_rdp False) = Some (Some s, example_rdp False) \<and>
    Stream_Write s [1, 2, 3] = Some s' \<and>
    rdp_send_data_pdu zero_malloc no_security (\<lambda>_. 0) (example_rdp False) s' 0x1F 1002 =
      Some (\<not> (0 :: int) < 0, (example_rdp False)\<lparr>outPackets := outPackets (example_rdp False) + 1\<rparr>, Some t) \<and>
    run_ok (read_data_pdu (example_rdp True) (Stream_SetPosition t 0)) (\<lambda>r u. rest u = [1, 2, 3] \<and>
      r = Some (21, MCS_GLOBAL_CHANNEL_ID, Some (21, 15, PDU_TYPE_DATA, 1002), Some (3, 0x1F, ShareId (example_rdp False), 0, 0)))"
  using rdp_data_pdu_roundtrip [of fresh_pool "zero_stream 4096" "example_rdp False" "[1, 2, 3]" "example_rdp True"
      zero_malloc no_security "\<lambda>_. 0" "0x1F" 1002] fresh_pool_ok
  by (simp add: fresh_pool_def example_rdp_def mcs_new_def MCS_BASE_CHANNEL_ID_def)

lemma read_mcs_pdu_outcome:
  assumes "consumed s0 t" "wf_stream t"
  shows "run_ok (read_mcs_pdu rdp len t) (\<lambda>(r, rdp') s'. header_outcome rdp s0 r rdp' s')"
proof (cases "avail t < 1")
  case True
  then show ?thesis using assms by (simp add: read_mcs_pdu_def per_read_choice_def stream_simps header_outcome_def)
next
  case False
  let ?t = "Stream_Seek t 1"
  have t: "per_read_choice t = Some (Some (rest t ! 0), ?t)" "wf_stream ?t" "consumed s0 ?t"
    using False assms consumed_trans [OF assms(1) consumed_Seek [of 1 t]]
    by (simp_all add: per_read_choice_def stream_simps)
  have u: "run_ok (mcs_recv_disconnect_provider_ultimatum ?t) (\<lambda>_. consumed s0)"
    using run_ok_mono [OF ultimatum_after_choice [OF assms(2)] consumed_trans [OF assms(1)]] False by simp
  have n: "header_outcome rdp s0 None rdp ?t" using t(3) by (simp add: header_outcome_def)
  have d: "run_ok (case reason of None \<Rightarrow> Some ((None, rdp), s)
      | Some reason \<Rightarrow> Some ((Some (len, 0), handle_ultimatum rdp reason), s)) (\<lambda>(r, rdp') s'. header_outcome rdp s0 r rdp' s')"
    if "consumed s0 s" for reason s
    using that by (auto simp: header_outcome_def ultimatum_aborts split: option.splits)
  show ?thesis using n read_user_data_outcome [OF t(3,2), of rdp] remaining_length [OF t(2)]
    by (simp add: read_mcs_pdu_def t(1) Let_def run_ok_bind run_ok_mono [OF u d] del: One_nat_def)
qed

lemma read_header_outcome:
  assumes "wf_stream s"
  shows "run_ok (rdp_read_header rdp s) (\<lambda>(r, rdp') s'. header_outcome rdp s r rdp' s')"
  unfolding rdp_read_header_def
proof (rule run_bind_safe [OF safe_tpkt_read_header assms])
  fix a t assume t: "consumed s t" "wf_stream t"
  have "run_ok (tpdu_read_header t len \<bind> (\<lambda>(r, s). case r of None \<Rightarrow> Some ((None, rdp), s) | Some (code, li) \<Rightarrow> g s code))
      (\<lambda>(r, rdp') s'. header_outcome rdp s r rdp' s')"
    if "\<And>u code. consumed s u \<Longrightarrow> wf_stream u \<Longrightarrow> run_ok (g u code) (\<lambda>(r, rdp') s'. header_outcome rdp s r rdp' s')" for g len
  proof (rule run_bind_safe [OF safe_tpdu_read_header t(2)])
    fix r u assume "consumed t u" "wf_stream u"
    then show "run_ok (case r of None \<Rightarrow> Some ((None, rdp), u) | Some (code, li) \<Rightarrow> g u code) (\<lambda>(r, rdp') s'. header_outcome rdp s r rdp' s')"
      using consumed_trans [OF t(1)] that by (auto simp: header_outcome_def [of _ _ None] split: option.splits)
  qed
  note tpdu = this
  show "run_ok (case a of None \<Rightarrow> Some ((None, rdp), t) | Some len \<Rightarrow> tpdu_read_header t len \<bind> (\<lambda>(r, s).
      case r of None \<Rightarrow> Some ((None, rdp), s) | Some (code, li) \<Rightarrow>
      if code \<noteq> X224_TPDU_DATA then
        if code = X224_TPDU_DISCONNECT_REQUEST then Some ((Some (len, 0), raise_event AbortConnect rdp), s)
        else Some ((None, rdp), s)
      else read_mcs_pdu rdp len s)) (\<lambda>(r, rdp') s'. header_outcome rdp s r rdp' s')"
  proof (cases a)
    case None
    then show ?thesis using t by (simp add: header_outcome_def)
  next
    case (Some len)
    show ?thesis unfolding Some option.case
      by (rule tpdu) (simp add: read_mcs_pdu_outcome header_outcome_def [of _ _ None] header_outcome_def [of _ _ "Some (_, 0)"] raise_event_def)
  qed
qed

text \<open>
  C23: Whatever bytes arrive, \<^verbatim>\<open>rdp_read_header\<close> never leaves the packet, although the ultimatum is
  read from the byte before the pointer. A refused packet changes nothing; an accepted one either
  announces user data that is in the stream, or has told the application to disconnect.
\<close>

theorem rdp_read_header_sound:
  assumes "wf_stream s"
  shows "run_ok (rdp_read_header rdp s) (\<lambda>(r, rdp') s'. consumed s s' \<and>
    (case r of None \<Rightarrow> rdp' = rdp
     | Some (len, ch) \<Rightarrow> rdp' = rdp \<and> unat len \<le> avail s' \<or> ch = 0 \<and> AbortConnect \<in> set (r_events rdp')))"
  using read_header_outcome [OF assms, of rdp] by (simp only: header_outcome_def)

text \<open>A packet with a data header and nothing behind it.\<close>

theorem rdp_read_header_sound_witness:
  "run_ok (rdp_read_header (example_rdp True) (Stream_StaticInit [3, 0, 0, 7, 2, 0xF0, 0x80])) (\<lambda>(r, rdp') s'.
    consumed (Stream_StaticInit [3, 0, 0, 7, 2, 0xF0, 0x80]) s' \<and>
    (case r of None \<Rightarrow> rdp' = example_rdp True
     | Some (len, ch) \<Rightarrow> rdp' = example_rdp True \<and> unat len \<le> avail s' \<or> ch = 0 \<and> AbortConnect \<in> set (r_events rdp')))"
  using rdp_read_header_sound [of "Stream_StaticInit [3, 0, 0, 7, 2, 0xF0, 0x80]" "example_rdp True"] by simp

end
