(* ===== verification/Autodetect.thy ===== *)
theory Autodetect
  imports Rdp
begin

text \<open>
  Network auto-detection (\<^verbatim>\<open>libfreerdp/core/autodetect.c\<close>): the server measures the round trip time
  and the bandwidth with requests on the message channel, the client answers, and the server reports
  the network characteristics it computed.

  The environment of the functions is a record: allocator, stream pool, cryptography and transport as
  in \<open>Rdp\<close>, the value of \<^verbatim>\<open>GetTickCount64\<close> at the call, the bytes of \<^verbatim>\<open>winpr_RAND\<close>, and the callbacks of
  the application, \<open>None\<close> for a null pointer.
\<close>

section \<open>Message types\<close>

definition RDP_RTT_REQUEST_TYPE_CONTINUOUS :: u16 where "RDP_RTT_REQUEST_TYPE_CONTINUOUS = 0x0001"
definition RDP_RTT_REQUEST_TYPE_CONNECTTIME :: u16 where "RDP_RTT_REQUEST_TYPE_CONNECTTIME = 0x1001"
definition RDP_RTT_RESPONSE_TYPE :: u16 where "RDP_RTT_RESPONSE_TYPE = 0x0000"
definition RDP_BW_START_REQUEST_TYPE_CONTINUOUS :: u16 where "RDP_BW_START_REQUEST_TYPE_CONTINUOUS = 0x0014"
definition RDP_BW_START_REQUEST_TYPE_TUNNEL :: u16 where "RDP_BW_START_REQUEST_TYPE_TUNNEL = 0x0114"
definition RDP_BW_START_REQUEST_TYPE_CONNECTTIME :: u16 where "RDP_BW_START_REQUEST_TYPE_CONNECTTIME = 0x1014"
definition RDP_BW_PAYLOAD_REQUEST_TYPE :: u16 where "RDP_BW_PAYLOAD_REQUEST_TYPE = 0x0002"
definition RDP_BW_STOP_REQUEST_TYPE_CONNECTTIME :: u16 where "RDP_BW_STOP_REQUEST_TYPE_CONNECTTIME = 0x002B"
definition RDP_BW_STOP_REQUEST_TYPE_CONTINUOUS :: u16 where "RDP_BW_STOP_REQUEST_TYPE_CONTINUOUS = 0x0429"
definition RDP_BW_STOP_REQUEST_TYPE_TUNNEL :: u16 where "RDP_BW_STOP_REQUEST_TYPE_TUNNEL = 0x0629"
definition RDP_BW_RESULTS_RESPONSE_TYPE_CONNECTTIME :: u16 where "RDP_BW_RESULTS_RESPONSE_TYPE_CONNECTTIME = 0x0003"
definition RDP_BW_RESULTS_RESPONSE_TYPE_CONTINUOUS :: u16 where "RDP_BW_RESULTS_RESPONSE_TYPE_CONTINUOUS = 0x000B"
definition RDP_NETCHAR_SYNC_RESPONSE_TYPE :: u16 where "RDP_NETCHAR_SYNC_RESPONSE_TYPE = 0x0018"
definition RDP_NETCHAR_RESULTS_0x0840 :: u16 where "RDP_NETCHAR_RESULTS_0x0840 = 0x0840"
definition RDP_NETCHAR_RESULTS_0x0880 :: u16 where "RDP_NETCHAR_RESULTS_0x0880 = 0x0880"
definition RDP_NETCHAR_RESULTS_0x08C0 :: u16 where "RDP_NETCHAR_RESULTS_0x08C0 = 0x08C0"
definition TYPE_ID_AUTODETECT_REQUEST :: byte where "TYPE_ID_AUTODETECT_REQUEST = 0x00"
definition TYPE_ID_AUTODETECT_RESPONSE :: byte where "TYPE_ID_AUTODETECT_RESPONSE = 0x01"

lemmas autodetect_types = RDP_RTT_REQUEST_TYPE_CONTINUOUS_def RDP_RTT_REQUEST_TYPE_CONNECTTIME_def RDP_RTT_RESPONSE_TYPE_def
  RDP_BW_START_REQUEST_TYPE_CONTINUOUS_def RDP_BW_START_REQUEST_TYPE_TUNNEL_def RDP_BW_START_REQUEST_TYPE_CONNECTTIME_def
  RDP_BW_PAYLOAD_REQUEST_TYPE_def RDP_BW_STOP_REQUEST_TYPE_CONNECTTIME_def RDP_BW_STOP_REQUEST_TYPE_CONTINUOUS_def
  RDP_BW_STOP_REQUEST_TYPE_TUNNEL_def RDP_BW_RESULTS_RESPONSE_TYPE_CONNECTTIME_def RDP_BW_RESULTS_RESPONSE_TYPE_CONTINUOUS_def
  RDP_NETCHAR_SYNC_RESPONSE_TYPE_def RDP_NETCHAR_RESULTS_0x0840_def RDP_NETCHAR_RESULTS_0x0880_def RDP_NETCHAR_RESULTS_0x08C0_def
  TYPE_ID_AUTODETECT_REQUEST_def TYPE_ID_AUTODETECT_RESPONSE_def

record AUTODETECT_REQ_PDU =
  req_headerLength :: byte
  req_headerTypeId :: byte
  req_sequenceNumber :: u16
  req_requestType :: u16

record AUTODETECT_RSP_PDU =
  rsp_headerLength :: byte
  rsp_headerTypeId :: byte
  rsp_sequenceNumber :: u16
  rsp_responseType :: u16

record 'k env =
  env_malloc :: allocator
  env_pool :: "nat \<Rightarrow> wStream option"
  env_ops :: "'k security_ops"
  env_write :: "wStream \<Rightarrow> int"
  env_ticks :: u64
  env_rand :: "nat \<Rightarrow> byte"
  RTTMeasureResponse :: "('k rdpRdp \<Rightarrow> u16 \<Rightarrow> bool \<times> 'k rdpRdp) option"
  BandwidthMeasureResults :: "('k rdpRdp \<Rightarrow> u16 \<Rightarrow> bool \<times> 'k rdpRdp) option"
  NetworkCharacteristicsResult :: "('k rdpRdp \<Rightarrow> u16 \<Rightarrow> bool \<times> 'k rdpRdp) option"
  ClientBandwidthMeasureResult :: "('k rdpRdp \<Rightarrow> bool \<times> 'k rdpRdp) option"

definition set_autodetect :: "(rdpAutoDetect \<Rightarrow> rdpAutoDetect) \<Rightarrow> 'k rdpRdp \<Rightarrow> 'k rdpRdp" where
  "set_autodetect f rdp = rdp\<lparr>r_autodetect := f (r_autodetect rdp)\<rparr>"

text \<open>\<^verbatim>\<open>IFCALLRET\<close> with the initial result \<open>TRUE\<close>.\<close>

definition if_call_ret :: "('k rdpRdp \<Rightarrow> 'a \<Rightarrow> bool \<times> 'k rdpRdp) option \<Rightarrow> 'k rdpRdp \<Rightarrow> 'a \<Rightarrow> bool \<times> 'k rdpRdp" where
  "if_call_ret cb rdp x = (case cb of None \<Rightarrow> (True, rdp) | Some f \<Rightarrow> f rdp x)"

section \<open>Senders\<close>

definition write_pdu_header :: "wStream \<Rightarrow> byte \<Rightarrow> byte \<Rightarrow> u16 \<Rightarrow> u16 \<Rightarrow> wStream option" where
  "write_pdu_header s headerLength headerTypeId sequenceNumber type = do {
     s \<leftarrow> Stream_Write_UINT8 s headerLength;
     s \<leftarrow> Stream_Write_UINT8 s headerTypeId;
     s \<leftarrow> Stream_Write_UINT16 s sequenceNumber;
     Stream_Write_UINT16 s type }"

abbreviation pdu_init :: "'k env \<Rightarrow> 'k rdpRdp \<Rightarrow> (wStream option \<times> 'k rdpRdp) option" where
  "pdu_init env rdp \<equiv> rdp_message_channel_pdu_init (env_malloc env) (env_pool env) rdp"

abbreviation pdu_send :: "'k env \<Rightarrow> 'k rdpRdp \<Rightarrow> wStream \<Rightarrow> u16 \<Rightarrow> 'k sender_result" where
  "pdu_send env rdp s flags \<equiv> rdp_send_message_channel_pdu (env_malloc env) (env_ops env) (env_write env) rdp s flags"

definition autodetect_send_rtt_measure_request :: "'k env \<Rightarrow> 'k rdpRdp \<Rightarrow> u16 \<Rightarrow> u16 \<Rightarrow> 'k sender_result" where
  "autodetect_send_rtt_measure_request env rdp sequenceNumber requestType = do {
     (s, rdp) \<leftarrow> pdu_init env rdp;
     (case s of None \<Rightarrow> Some (False, rdp, None) | Some s \<Rightarrow> do {
        s \<leftarrow> write_pdu_header s 0x06 TYPE_ID_AUTODETECT_REQUEST sequenceNumber requestType;
        let rdp = set_autodetect (rttMeasureStartTime_update (\<lambda>_. env_ticks env)) rdp;
        pdu_send env rdp s SEC_AUTODETECT_REQ }) }"

definition autodetect_send_continuous_rtt_measure_request :: "'k env \<Rightarrow> 'k rdpRdp \<Rightarrow> u16 \<Rightarrow> 'k sender_result" where
  "autodetect_send_continuous_rtt_measure_request env rdp sequenceNumber =
     autodetect_send_rtt_measure_request env rdp sequenceNumber RDP_RTT_REQUEST_TYPE_CONTINUOUS"

definition autodetect_send_connecttime_rtt_measure_request :: "'k env \<Rightarrow> 'k rdpRdp \<Rightarrow> u16 \<Rightarrow> 'k sender_result" where
  "autodetect_send_connecttime_rtt_measure_request env rdp sequenceNumber =
     autodetect_send_rtt_measure_request env rdp sequenceNumber RDP_RTT_REQUEST_TYPE_CONNECTTIME"

definition autodetect_send_rtt_measure_response :: "'k env \<Rightarrow> 'k rdpRdp \<Rightarrow> u16 \<Rightarrow> 'k sender_result" where
  "autodetect_send_rtt_measure_response env rdp sequenceNumber = do {
     (s, rdp) \<leftarrow> pdu_init env rdp;
     (case s of None \<Rightarrow> Some (False, rdp, None) | Some s \<Rightarrow> do {
        s \<leftarrow> write_pdu_header s 0x06 TYPE_ID_AUTODETECT_RESPONSE sequenceNumber RDP_RTT_RESPONSE_TYPE;
        pdu_send env rdp s SEC_AUTODETECT_RSP }) }"

definition autodetect_send_bandwidth_measure_start :: "'k env \<Rightarrow> 'k rdpRdp \<Rightarrow> u16 \<Rightarrow> u16 \<Rightarrow> 'k sender_result" where
  "autodetect_send_bandwidth_measure_start env rdp sequenceNumber requestType = do {
     (s, rdp) \<leftarrow> pdu_init env rdp;
     (case s of None \<Rightarrow> Some (False, rdp, None) | Some s \<Rightarrow> do {
        s \<leftarrow> write_pdu_header s 0x06 TYPE_ID_AUTODETECT_REQUEST sequenceNumber requestType;
        pdu_send env rdp s SEC_AUTODETECT_REQ }) }"

definition autodetect_send_continuous_bandwidth_measure_start :: "'k env \<Rightarrow> 'k rdpRdp \<Rightarrow> u16 \<Rightarrow> 'k sender_result" where
  "autodetect_send_continuous_bandwidth_measure_start env rdp sequenceNumber =
     autodetect_send_bandwidth_measure_start env rdp sequenceNumber RDP_BW_START_REQUEST_TYPE_CONTINUOUS"

definition autodetect_send_connecttime_bandwidth_measure_start :: "'k env \<Rightarrow> 'k rdpRdp \<Rightarrow> u16 \<Rightarrow> 'k sender_result" where
  "autodetect_send_connecttime_bandwidth_measure_start env rdp sequenceNumber =
     autodetect_send_bandwidth_measure_start env rdp sequenceNumber RDP_BW_START_REQUEST_TYPE_CONNECTTIME"

definition random_bytes :: "'k env \<Rightarrow> nat \<Rightarrow> byte list" where
  "random_bytes env n = map (env_rand env) [0..<n]"

definition autodetect_send_bandwidth_measure_payload :: "'k env \<Rightarrow> 'k rdpRdp \<Rightarrow> u16 \<Rightarrow> u16 \<Rightarrow> 'k sender_result" where
  "autodetect_send_bandwidth_measure_payload env rdp payloadLength sequenceNumber = do {
     (s, rdp) \<leftarrow> pdu_init env rdp;
     (case s of None \<Rightarrow> Some (False, rdp, None) | Some s \<Rightarrow> do {
        let payloadLength = payloadLength AND NOT 3;
        (ok, s) \<leftarrow> Stream_EnsureRemainingCapacity (env_malloc env) s (8 + unat payloadLength);
        (if \<not> ok then Some (False, rdp, None) else do {
        s \<leftarrow> write_pdu_header s 0x08 TYPE_ID_AUTODETECT_REQUEST sequenceNumber RDP_BW_PAYLOAD_REQUEST_TYPE;
        s \<leftarrow> Stream_Write_UINT16 s payloadLength;
        (case env_malloc env (unat payloadLength) of None \<Rightarrow> Some (False, rdp, None)
         | Some buffer \<Rightarrow> do {
             s \<leftarrow> Stream_Write s (random_bytes env (unat payloadLength));
             pdu_send env rdp s SEC_AUTODETECT_REQ }) }) }) }"

definition autodetect_send_bandwidth_measure_stop :: "'k env \<Rightarrow> 'k rdpRdp \<Rightarrow> u16 \<Rightarrow> u16 \<Rightarrow> u16 \<Rightarrow> 'k sender_result" where
  "autodetect_send_bandwidth_measure_stop env rdp payloadLength sequenceNumber requestType = do {
     (s, rdp) \<leftarrow> pdu_init env rdp;
     (case s of None \<Rightarrow> Some (False, rdp, None) | Some s \<Rightarrow> do {
        let payloadLength = payloadLength AND NOT 3;
        s \<leftarrow> write_pdu_header s (if requestType = RDP_BW_STOP_REQUEST_TYPE_CONNECTTIME then 0x08 else 0x06)
               TYPE_ID_AUTODETECT_REQUEST sequenceNumber requestType;
        (if requestType = RDP_BW_STOP_REQUEST_TYPE_CONNECTTIME then do {
           s \<leftarrow> Stream_Write_UINT16 s payloadLength;
           (if payloadLength > 0 then do {
              (ok, s) \<leftarrow> Stream_EnsureRemainingCapacity (env_malloc env) s (unat payloadLength);
              (if \<not> ok then Some (False, rdp, None)
               else (case env_malloc env (unat payloadLength) of None \<Rightarrow> Some (False, rdp, None)
                | Some buffer \<Rightarrow> do {
                    s \<leftarrow> Stream_Write s (random_bytes env (unat payloadLength));
                    pdu_send env rdp s SEC_AUTODETECT_REQ })) }
            else pdu_send env rdp s SEC_AUTODETECT_REQ) }
         else pdu_send env rdp s SEC_AUTODETECT_REQ) }) }"

definition autodetect_send_continuous_bandwidth_measure_stop :: "'k env \<Rightarrow> 'k rdpRdp \<Rightarrow> u16 \<Rightarrow> 'k sender_result" where
  "autodetect_send_continuous_bandwidth_measure_stop env rdp sequenceNumber =
     autodetect_send_bandwidth_measure_stop env rdp 0 sequenceNumber RDP_BW_STOP_REQUEST_TYPE_CONTINUOUS"

definition autodetect_send_connecttime_bandwidth_measure_stop :: "'k env \<Rightarrow> 'k rdpRdp \<Rightarrow> u16 \<Rightarrow> u16 \<Rightarrow> 'k sender_result" where
  "autodetect_send_connecttime_bandwidth_measure_stop env rdp payloadLength sequenceNumber =
     autodetect_send_bandwidth_measure_stop env rdp payloadLength sequenceNumber RDP_BW_STOP_REQUEST_TYPE_CONNECTTIME"

definition autodetect_send_bandwidth_measure_results :: "'k env \<Rightarrow> 'k rdpRdp \<Rightarrow> u16 \<Rightarrow> u16 \<Rightarrow> 'k sender_result" where
  "autodetect_send_bandwidth_measure_results env rdp responseType sequenceNumber = do {
     let timeDelta = env_ticks env - bandwidthMeasureStartTime (r_autodetect rdp);
     (s, rdp) \<leftarrow> pdu_init env rdp;
     (case s of None \<Rightarrow> Some (False, rdp, None) | Some s \<Rightarrow> do {
        s \<leftarrow> write_pdu_header s 0x0E TYPE_ID_AUTODETECT_RESPONSE sequenceNumber responseType;
        s \<leftarrow> Stream_Write_UINT32 s (ucast timeDelta);
        s \<leftarrow> Stream_Write_UINT32 s (bandwidthMeasureByteCount (r_autodetect rdp));
        let (success, rdp) = (case ClientBandwidthMeasureResult env of None \<Rightarrow> (True, rdp) | Some f \<Rightarrow> f rdp);
        (if \<not> success then Some (False, rdp, None) else pdu_send env rdp s SEC_AUTODETECT_RSP) }) }"

definition autodetect_send_netchar_result :: "'k env \<Rightarrow> 'k rdpRdp \<Rightarrow> u16 \<Rightarrow> 'k sender_result" where
  "autodetect_send_netchar_result env rdp sequenceNumber = do {
     (s, rdp) \<leftarrow> pdu_init env rdp;
     (case s of None \<Rightarrow> Some (False, rdp, None) | Some s \<Rightarrow> do {
        s \<leftarrow> (if netCharBandwidth (r_autodetect rdp) > 0 then do {
                s \<leftarrow> write_pdu_header s 0x12 TYPE_ID_AUTODETECT_REQUEST sequenceNumber RDP_NETCHAR_RESULTS_0x08C0;
                s \<leftarrow> Stream_Write_UINT32 s (netCharBaseRTT (r_autodetect rdp));
                s \<leftarrow> Stream_Write_UINT32 s (netCharBandwidth (r_autodetect rdp));
                Stream_Write_UINT32 s (netCharAverageRTT (r_autodetect rdp)) }
              else do {
                s \<leftarrow> write_pdu_header s 0x0E TYPE_ID_AUTODETECT_REQUEST sequenceNumber RDP_NETCHAR_RESULTS_0x0840;
                s \<leftarrow> Stream_Write_UINT32 s (netCharBaseRTT (r_autodetect rdp));
                Stream_Write_UINT32 s (netCharAverageRTT (r_autodetect rdp)) });
        pdu_send env rdp s SEC_AUTODETECT_REQ }) }"

definition autodetect_send_netchar_sync :: "'k env \<Rightarrow> 'k rdpRdp \<Rightarrow> u16 \<Rightarrow> 'k sender_result" where
  "autodetect_send_netchar_sync env rdp sequenceNumber = do {
     (s, rdp) \<leftarrow> pdu_init env rdp;
     (case s of None \<Rightarrow> Some (False, rdp, None) | Some s \<Rightarrow> do {
        s \<leftarrow> write_pdu_header s 0x0E TYPE_ID_AUTODETECT_RESPONSE sequenceNumber RDP_NETCHAR_SYNC_RESPONSE_TYPE;
        s \<leftarrow> Stream_Write_UINT32 s (netCharBandwidth (r_autodetect rdp));
        s \<leftarrow> Stream_Write_UINT32 s (netCharAverageRTT (r_autodetect rdp));
        pdu_send env rdp s SEC_AUTODETECT_RSP }) }"

section \<open>Receivers\<close>

text \<open>A receiver returns its result, the new state, the stream it sent in answer, if any, and the stream it read.\<close>

type_synonym ('r, 'k) recv_result = "(('r \<times> 'k rdpRdp \<times> wStream option) \<times> wStream) option"

definition answer_with :: "'k sender_result \<Rightarrow> wStream \<Rightarrow> (bool, 'k) recv_result" where
  "answer_with r s = do { a \<leftarrow> r; Some (a, s) }"

definition autodetect_recv_rtt_measure_request ::
  "'k env \<Rightarrow> 'k rdpRdp \<Rightarrow> wStream \<Rightarrow> AUTODETECT_REQ_PDU \<Rightarrow> (bool, 'k) recv_result" where
  "autodetect_recv_rtt_measure_request env rdp s pdu =
     (if req_headerLength pdu \<noteq> 0x06 then Some ((False, rdp, None), s)
      else answer_with (autodetect_send_rtt_measure_response env rdp (req_sequenceNumber pdu)) s)"

definition autodetect_recv_rtt_measure_response ::
  "'k env \<Rightarrow> 'k rdpRdp \<Rightarrow> wStream \<Rightarrow> AUTODETECT_RSP_PDU \<Rightarrow> (bool, 'k) recv_result" where
  "autodetect_recv_rtt_measure_response env rdp s pdu =
     (if rsp_headerLength pdu \<noteq> 0x06 then Some ((False, rdp, None), s)
      else let rdp = set_autodetect (\<lambda>a. a\<lparr>netCharAverageRTT := ucast (env_ticks env - rttMeasureStartTime a)\<rparr>) rdp;
               rdp = set_autodetect (\<lambda>a.
                 if netCharBaseRTT a = 0 \<or> netCharBaseRTT a > netCharAverageRTT a
                 then a\<lparr>netCharBaseRTT := netCharAverageRTT a\<rparr> else a) rdp;
               (success, rdp) = if_call_ret (RTTMeasureResponse env) rdp (rsp_sequenceNumber pdu)
           in Some ((success, rdp, None), s))"

definition autodetect_recv_bandwidth_measure_start ::
  "'k env \<Rightarrow> 'k rdpRdp \<Rightarrow> wStream \<Rightarrow> AUTODETECT_REQ_PDU \<Rightarrow> (bool, 'k) recv_result" where
  "autodetect_recv_bandwidth_measure_start env rdp s pdu =
     (if req_headerLength pdu \<noteq> 0x06 then Some ((False, rdp, None), s)
      else let rdp = set_autodetect (\<lambda>a. a\<lparr>bandwidthMeasureStartTime := env_ticks env, bandwidthMeasureByteCount := 0\<rparr>) rdp;
               rdp = (if req_requestType pdu = RDP_BW_START_REQUEST_TYPE_CONTINUOUS
                      then set_autodetect (\<lambda>a. a\<lparr>bandwidthMeasureStarted := True\<rparr>) rdp else rdp)
           in Some ((True, rdp, None), s))"

definition autodetect_recv_bandwidth_measure_payload ::
  "'k rdpRdp \<Rightarrow> wStream \<Rightarrow> AUTODETECT_REQ_PDU \<Rightarrow> (bool, 'k) recv_result" where
  "autodetect_recv_bandwidth_measure_payload rdp s pdu =
     (if req_headerLength pdu \<noteq> 0x08 then Some ((False, rdp, None), s)
      else if Stream_GetRemainingLength s < 2 then Some ((False, rdp, None), s)
      else do {
        (payloadLength, s) \<leftarrow> Stream_Read_UINT16 s;
        let (ok, s) = Stream_SafeSeek s (unat payloadLength);
        (if \<not> ok then Some ((False, rdp, None), s)
         else Some ((True, set_autodetect (\<lambda>a. a\<lparr>bandwidthMeasureByteCount :=
                bandwidthMeasureByteCount a + ucast payloadLength\<rparr>) rdp, None), s)) })"

definition autodetect_recv_bandwidth_measure_stop ::
  "'k env \<Rightarrow> 'k rdpRdp \<Rightarrow> wStream \<Rightarrow> AUTODETECT_REQ_PDU \<Rightarrow> (bool, 'k) recv_result" where
  "autodetect_recv_bandwidth_measure_stop env rdp s pdu = do {
     (payload, s) \<leftarrow>
       (if req_requestType pdu = RDP_BW_STOP_REQUEST_TYPE_CONNECTTIME then
          if req_headerLength pdu \<noteq> 0x08 then Some (None, s)
          else if Stream_GetRemainingLength s < 2 then Some (None, s)
          else do { (payloadLength, s) \<leftarrow> Stream_Read_UINT16 s; Some (Some payloadLength, s) }
        else if req_headerLength pdu \<noteq> 0x06 then Some (None, s)
        else Some (Some 0, s));
     (case payload of None \<Rightarrow> Some ((False, rdp, None), s)
      | Some payloadLength \<Rightarrow>
          let (ok, s) = Stream_SafeSeek s (unat payloadLength) in
          if \<not> ok then Some ((False, rdp, None), s)
          else
            let rdp = set_autodetect (\<lambda>a. a\<lparr>bandwidthMeasureByteCount := bandwidthMeasureByteCount a + ucast payloadLength\<rparr>) rdp;
                rdp = (if req_requestType pdu = RDP_BW_STOP_REQUEST_TYPE_CONTINUOUS
                       then set_autodetect (\<lambda>a. a\<lparr>bandwidthMeasureStarted := False\<rparr>) rdp else rdp);
                responseType = (if req_requestType pdu = RDP_BW_STOP_REQUEST_TYPE_CONNECTTIME
                       then RDP_BW_RESULTS_RESPONSE_TYPE_CONNECTTIME else RDP_BW_RESULTS_RESPONSE_TYPE_CONTINUOUS)
            in answer_with (autodetect_send_bandwidth_measure_results env rdp responseType (req_sequenceNumber pdu)) s) }"

text \<open>
  The value \<open>- 1\<close> that a short packet returns here is \<open>TRUE\<close> as a \<^verbatim>\<open>BOOL\<close>. The product of the byte count
  is computed in 32 bits, the quotient in 64.
\<close>

definition autodetect_recv_bandwidth_measure_results ::
  "'k env \<Rightarrow> 'k rdpRdp \<Rightarrow> wStream \<Rightarrow> AUTODETECT_RSP_PDU \<Rightarrow> (bool, 'k) recv_result" where
  "autodetect_recv_bandwidth_measure_results env rdp s pdu =
     (if rsp_headerLength pdu \<noteq> 0x0E then Some ((False, rdp, None), s)
      else if Stream_GetRemainingLength s < 8 then Some ((True, rdp, None), s)
      else do {
        (timeDelta, s) \<leftarrow> Stream_Read_UINT32 s;
        (byteCount, s) \<leftarrow> Stream_Read_UINT32 s;
        let rdp = set_autodetect (\<lambda>a. a\<lparr>bandwidthMeasureTimeDelta := ucast timeDelta, bandwidthMeasureByteCount := byteCount\<rparr>) rdp;
        let rdp = set_autodetect (\<lambda>a. a\<lparr>netCharBandwidth :=
              (if bandwidthMeasureTimeDelta a > 0
               then ucast (ucast (bandwidthMeasureByteCount a * 8) div bandwidthMeasureTimeDelta a) else 0)\<rparr>) rdp;
        let (success, rdp) = if_call_ret (BandwidthMeasureResults env) rdp (rsp_sequenceNumber pdu);
        Some ((success, rdp, None), s) })"

definition autodetect_recv_netchar_result ::
  "'k env \<Rightarrow> 'k rdpRdp \<Rightarrow> wStream \<Rightarrow> AUTODETECT_REQ_PDU \<Rightarrow> (bool, 'k) recv_result" where
  "autodetect_recv_netchar_result env rdp s pdu = do {
     (r, s) \<leftarrow>
       (if req_requestType pdu = RDP_NETCHAR_RESULTS_0x0840 then
          if req_headerLength pdu \<noteq> 0x0E \<or> Stream_GetRemainingLength s < 8 then Some (None, s)
          else do {
            (baseRTT, s) \<leftarrow> Stream_Read_UINT32 s;
            (averageRTT, s) \<leftarrow> Stream_Read_UINT32 s;
            Some (Some (set_autodetect (\<lambda>a. a\<lparr>netCharBaseRTT := baseRTT, netCharAverageRTT := averageRTT\<rparr>) rdp), s) }
        else if req_requestType pdu = RDP_NETCHAR_RESULTS_0x0880 then
          if req_headerLength pdu \<noteq> 0x0E \<or> Stream_GetRemainingLength s < 8 then Some (None, s)
          else do {
            (bandwidth, s) \<leftarrow> Stream_Read_UINT32 s;
            (averageRTT, s) \<leftarrow> Stream_Read_UINT32 s;
            Some (Some (set_autodetect (\<lambda>a. a\<lparr>netCharBandwidth := bandwidth, netCharAverageRTT := averageRTT\<rparr>) rdp), s) }
        else if req_requestType pdu = RDP_NETCHAR_RESULTS_0x08C0 then
          if req_headerLength pdu \<noteq> 0x12 \<or> Stream_GetRemainingLength s < 12 then Some (None, s)
          else do {
            (baseRTT, s) \<leftarrow> Stream_Read_UINT32 s;
            (bandwidth, s) \<leftarrow> Stream_Read_UINT32 s;
            (averageRTT, s) \<leftarrow> Stream_Read_UINT32 s;
            Some (Some (set_autodetect (\<lambda>a. a\<lparr>netCharBaseRTT := baseRTT, netCharBandwidth := bandwidth,
              netCharAverageRTT := averageRTT\<rparr>) rdp), s) }
        else Some (Some rdp, s));
     (case r of None \<Rightarrow> Some ((False, rdp, None), s)
      | Some rdp \<Rightarrow>
          let (success, rdp) = if_call_ret (NetworkCharacteristicsResult env) rdp (req_sequenceNumber pdu)
          in Some ((success, rdp, None), s)) }"

definition int_result :: "(bool, 'k) recv_result \<Rightarrow> (int, 'k) recv_result" where
  "int_result r = do { ((success, rdp, a), s) \<leftarrow> r; Some ((if success then 0 else - 1, rdp, a), s) }"

text \<open>The switch over the request type; unknown types fail.\<close>

definition dispatch_autodetect_request ::
  "'k env \<Rightarrow> 'k rdpRdp \<Rightarrow> wStream \<Rightarrow> AUTODETECT_REQ_PDU \<Rightarrow> (bool, 'k) recv_result" where
  "dispatch_autodetect_request env rdp s pdu =
     (if req_requestType pdu \<in> {RDP_RTT_REQUEST_TYPE_CONTINUOUS, RDP_RTT_REQUEST_TYPE_CONNECTTIME}
      then autodetect_recv_rtt_measure_request env rdp s pdu
      else if req_requestType pdu \<in> {RDP_BW_START_REQUEST_TYPE_CONTINUOUS, RDP_BW_START_REQUEST_TYPE_TUNNEL,
          RDP_BW_START_REQUEST_TYPE_CONNECTTIME}
      then autodetect_recv_bandwidth_measure_start env rdp s pdu
      else if req_requestType pdu = RDP_BW_PAYLOAD_REQUEST_TYPE
      then autodetect_recv_bandwidth_measure_payload rdp s pdu
      else if req_requestType pdu \<in> {RDP_BW_STOP_REQUEST_TYPE_CONNECTTIME, RDP_BW_STOP_REQUEST_TYPE_CONTINUOUS,
          RDP_BW_STOP_REQUEST_TYPE_TUNNEL}
      then autodetect_recv_bandwidth_measure_stop env rdp s pdu
      else if req_requestType pdu \<in> {RDP_NETCHAR_RESULTS_0x0840, RDP_NETCHAR_RESULTS_0x0880, RDP_NETCHAR_RESULTS_0x08C0}
      then autodetect_recv_netchar_result env rdp s pdu
      else Some ((False, rdp, None), s))"

definition rdp_recv_autodetect_request_packet :: "'k env \<Rightarrow> 'k rdpRdp \<Rightarrow> wStream \<Rightarrow> (int, 'k) recv_result" where
  "rdp_recv_autodetect_request_packet env rdp s =
     (if Stream_GetRemainingLength s < 6 then Some ((- 1, rdp, None), s)
      else do {
        (headerLength, s) \<leftarrow> Stream_Read_UINT8 s;
        (headerTypeId, s) \<leftarrow> Stream_Read_UINT8 s;
        (sequenceNumber, s) \<leftarrow> Stream_Read_UINT16 s;
        (requestType, s) \<leftarrow> Stream_Read_UINT16 s;
        let pdu = \<lparr>req_headerLength = headerLength, req_headerTypeId = headerTypeId,
                   req_sequenceNumber = sequenceNumber, req_requestType = requestType\<rparr>;
        (if headerTypeId \<noteq> TYPE_ID_AUTODETECT_REQUEST then Some ((- 1, rdp, None), s)
         else int_result
           (dispatch_autodetect_request env rdp s pdu)) })"

definition dispatch_autodetect_response ::
  "'k env \<Rightarrow> 'k rdpRdp \<Rightarrow> wStream \<Rightarrow> AUTODETECT_RSP_PDU \<Rightarrow> (bool, 'k) recv_result" where
  "dispatch_autodetect_response env rdp s pdu =
     (if rsp_responseType pdu = RDP_RTT_RESPONSE_TYPE
      then autodetect_recv_rtt_measure_response env rdp s pdu
      else if rsp_responseType pdu \<in> {RDP_BW_RESULTS_RESPONSE_TYPE_CONNECTTIME, RDP_BW_RESULTS_RESPONSE_TYPE_CONTINUOUS}
      then autodetect_recv_bandwidth_measure_results env rdp s pdu
      else Some ((False, rdp, None), s))"

definition rdp_recv_autodetect_response_packet :: "'k env \<Rightarrow> 'k rdpRdp \<Rightarrow> wStream \<Rightarrow> (int, 'k) recv_result" where
  "rdp_recv_autodetect_response_packet env rdp s =
     (if Stream_GetRemainingLength s < 6 then Some ((- 1, rdp, None), s)
      else do {
        (headerLength, s) \<leftarrow> Stream_Read_UINT8 s;
        (headerTypeId, s) \<leftarrow> Stream_Read_UINT8 s;
        (sequenceNumber, s) \<leftarrow> Stream_Read_UINT16 s;
        (responseType, s) \<leftarrow> Stream_Read_UINT16 s;
        let pdu = \<lparr>rsp_headerLength = headerLength, rsp_headerTypeId = headerTypeId,
                   rsp_sequenceNumber = sequenceNumber, rsp_responseType = responseType\<rparr>;
        (if headerTypeId \<noteq> TYPE_ID_AUTODETECT_RESPONSE then Some ((- 1, rdp, None), s)
         else int_result
           (dispatch_autodetect_response env rdp s pdu)) })"

definition autodetect_new :: rdpAutoDetect where
  "autodetect_new = \<lparr>rttMeasureStartTime = 0, bandwidthMeasureStartTime = 0, bandwidthMeasureTimeDelta = 0,
     bandwidthMeasureByteCount = 0, netCharBandwidth = 0, netCharBaseRTT = 0, netCharAverageRTT = 0,
     bandwidthMeasureStarted = False\<rparr>"

end
