(* ===== verification/Rdp_Recv.thy ===== *)
theory Rdp_Recv
  imports Autodetect
begin

text \<open>
  Dispatch of slow-path packets (\<^verbatim>\<open>rdp_recv_tpkt_pdu\<close> and what it calls in \<^verbatim>\<open>libfreerdp/core/rdp.c\<close>), with
  the heartbeat and multitransport PDUs of the message channel (\<^verbatim>\<open>heartbeat.c\<close>, \<^verbatim>\<open>multitransport.c\<close>).

  The functions of other modules that a PDU is handed to (updates, activation, redirection,
  channels, the decompressor) and the callbacks of the application are fields of a record. Packets
  of the global channel hold a sequence of share PDUs; each is handled on a stream of its own, a
  window of the packet.
\<close>

section \<open>Handlers\<close>

type_synonym 'k pdu_handler = "'k rdpRdp \<Rightarrow> wStream \<Rightarrow> ((bool \<times> 'k rdpRdp) \<times> wStream) option"
type_synonym 'k int_handler = "'k rdpRdp \<Rightarrow> wStream \<Rightarrow> ((int \<times> 'k rdpRdp) \<times> wStream) option"

record MONITOR_DEF =
  mon_left :: u32
  mon_top :: u32
  mon_right :: u32
  mon_bottom :: u32
  mon_flags :: u32

record 'k handlers =
  call_update_recv :: "'k pdu_handler"
  rdp_recv_server_control_pdu :: "'k pdu_handler"
  call_update_recv_pointer :: "'k pdu_handler"
  rdp_recv_synchronize_pdu :: "'k pdu_handler"
  call_update_recv_play_sound :: "'k pdu_handler"
  rdp_recv_save_session_info :: "'k pdu_handler"
  rdp_recv_font_map_pdu :: "'k pdu_handler"
  rdp_recv_deactivate_all :: "'k pdu_handler"
  rdp_recv_redirection_packet :: "'k int_handler"
  freerdp_channel_process :: "u16 \<Rightarrow> u16 \<Rightarrow> 'k pdu_handler"
  bulk_decompress :: "'k rdpRdp \<Rightarrow> byte list \<Rightarrow> byte \<Rightarrow> byte list option \<times> 'k rdpRdp"
  ServerHeartbeat :: "('k rdpRdp \<Rightarrow> byte \<times> byte \<times> byte \<Rightarrow> bool \<times> 'k rdpRdp) option"
  SetKeyboardIndicators :: "('k rdpRdp \<Rightarrow> u16 \<Rightarrow> 'k rdpRdp) option"
  SetKeyboardImeStatus :: "('k rdpRdp \<Rightarrow> u16 \<times> u32 \<times> u32 \<Rightarrow> 'k rdpRdp) option"
  ServerStatusInfo :: "('k rdpRdp \<Rightarrow> u32 \<Rightarrow> bool \<times> 'k rdpRdp) option"
  RemoteMonitors :: "('k rdpRdp \<Rightarrow> MONITOR_DEF list \<Rightarrow> bool \<times> 'k rdpRdp) option"

section \<open>Data PDUs\<close>

definition DATA_PDU_TYPE_UPDATE :: byte where "DATA_PDU_TYPE_UPDATE = 0x02"
definition DATA_PDU_TYPE_CONTROL :: byte where "DATA_PDU_TYPE_CONTROL = 0x14"
definition DATA_PDU_TYPE_POINTER :: byte where "DATA_PDU_TYPE_POINTER = 0x1B"
definition DATA_PDU_TYPE_SYNCHRONIZE :: byte where "DATA_PDU_TYPE_SYNCHRONIZE = 0x1F"
definition DATA_PDU_TYPE_PLAY_SOUND :: byte where "DATA_PDU_TYPE_PLAY_SOUND = 0x22"
definition DATA_PDU_TYPE_SHUTDOWN_DENIED :: byte where "DATA_PDU_TYPE_SHUTDOWN_DENIED = 0x25"
definition DATA_PDU_TYPE_SAVE_SESSION_INFO :: byte where "DATA_PDU_TYPE_SAVE_SESSION_INFO = 0x26"
definition DATA_PDU_TYPE_FONT_MAP :: byte where "DATA_PDU_TYPE_FONT_MAP = 0x28"
definition DATA_PDU_TYPE_SET_KEYBOARD_INDICATORS :: byte where "DATA_PDU_TYPE_SET_KEYBOARD_INDICATORS = 0x29"
definition DATA_PDU_TYPE_SET_KEYBOARD_IME_STATUS :: byte where "DATA_PDU_TYPE_SET_KEYBOARD_IME_STATUS = 0x2D"
definition DATA_PDU_TYPE_SET_ERROR_INFO :: byte where "DATA_PDU_TYPE_SET_ERROR_INFO = 0x2F"
definition DATA_PDU_TYPE_ARC_STATUS :: byte where "DATA_PDU_TYPE_ARC_STATUS = 0x32"
definition DATA_PDU_TYPE_STATUS_INFO :: byte where "DATA_PDU_TYPE_STATUS_INFO = 0x36"
definition DATA_PDU_TYPE_MONITOR_LAYOUT :: byte where "DATA_PDU_TYPE_MONITOR_LAYOUT = 0x37"
definition PACKET_COMPRESSED :: byte where "PACKET_COMPRESSED = 0x20"

definition rdp_recv_server_shutdown_denied_pdu :: "'k pdu_handler" where
  "rdp_recv_server_shutdown_denied_pdu rdp s = Some ((True, rdp), s)"

definition rdp_recv_server_set_keyboard_indicators_pdu :: "'k handlers \<Rightarrow> 'k pdu_handler" where
  "rdp_recv_server_set_keyboard_indicators_pdu h rdp s =
     (if Stream_GetRemainingLength s < 4 then Some ((False, rdp), s)
      else do {
        (unitId, s) \<leftarrow> Stream_Read_UINT16 s;
        (ledFlags, s) \<leftarrow> Stream_Read_UINT16 s;
        Some ((True, case SetKeyboardIndicators h of None \<Rightarrow> rdp | Some f \<Rightarrow> f rdp ledFlags), s) })"

definition rdp_recv_server_set_keyboard_ime_status_pdu :: "'k handlers \<Rightarrow> 'k pdu_handler" where
  "rdp_recv_server_set_keyboard_ime_status_pdu h rdp s =
     (if Stream_GetRemainingLength s < 10 then Some ((False, rdp), s)
      else do {
        (unitId, s) \<leftarrow> Stream_Read_UINT16 s;
        (imeState, s) \<leftarrow> Stream_Read_UINT32 s;
        (imeConvMode, s) \<leftarrow> Stream_Read_UINT32 s;
        Some ((True, case SetKeyboardImeStatus h of None \<Rightarrow> rdp | Some f \<Rightarrow> f rdp (unitId, imeState, imeConvMode)), s) })"

definition rdp_recv_set_error_info_data_pdu :: "'k pdu_handler" where
  "rdp_recv_set_error_info_data_pdu rdp s =
     (if Stream_GetRemainingLength s < 4 then Some ((False, rdp), s)
      else do {
        (code, s) \<leftarrow> Stream_Read_UINT32 s;
        Some ((True, rdp_set_error_info rdp code), s) })"

definition rdp_recv_server_auto_reconnect_status_pdu :: "'k pdu_handler" where
  "rdp_recv_server_auto_reconnect_status_pdu rdp s =
     (if Stream_GetRemainingLength s < 4 then Some ((False, rdp), s)
      else do {
        (arcStatus, s) \<leftarrow> Stream_Read_UINT32 s;
        Some ((True, rdp), s) })"

definition rdp_recv_server_status_info_pdu :: "'k handlers \<Rightarrow> 'k pdu_handler" where
  "rdp_recv_server_status_info_pdu h rdp s =
     (if Stream_GetRemainingLength s < 4 then Some ((False, rdp), s)
      else do {
        (statusCode, s) \<leftarrow> Stream_Read_UINT32 s;
        Some (if_call_ret (ServerStatusInfo h) rdp statusCode, s) })"

fun read_monitors :: "nat \<Rightarrow> wStream \<Rightarrow> (MONITOR_DEF list \<times> wStream) option" where
  "read_monitors 0 s = Some ([], s)"
| "read_monitors (Suc n) s = do {
     (left, s) \<leftarrow> Stream_Read_UINT32 s;
     (top, s) \<leftarrow> Stream_Read_UINT32 s;
     (right, s) \<leftarrow> Stream_Read_UINT32 s;
     (bottom, s) \<leftarrow> Stream_Read_UINT32 s;
     (flags, s) \<leftarrow> Stream_Read_UINT32 s;
     (ms, s) \<leftarrow> read_monitors n s;
     Some (\<lparr>mon_left = left, mon_top = top, mon_right = right, mon_bottom = bottom, mon_flags = flags\<rparr> # ms, s) }"

definition rdp_recv_monitor_layout_pdu :: "allocator \<Rightarrow> 'k handlers \<Rightarrow> 'k pdu_handler" where
  "rdp_recv_monitor_layout_pdu malloc h rdp s =
     (if Stream_GetRemainingLength s < 4 then Some ((False, rdp), s)
      else do {
        (monitorCount, s) \<leftarrow> Stream_Read_UINT32 s;
        (if Stream_GetRemainingLength s div 20 < unat monitorCount then Some ((False, rdp), s)
         else (case malloc (mul64 (unat monitorCount) 20) of None \<Rightarrow> Some ((False, rdp), s)
          | Some monitorDefArray \<Rightarrow> do {
              (ms, s) \<leftarrow> read_monitors (unat monitorCount) s;
              Some (if_call_ret (RemoteMonitors h) rdp ms, s) })) })"

text \<open>The switch over the type of a data PDU; unknown types are ignored.\<close>

definition dispatch_data_pdu :: "allocator \<Rightarrow> 'k handlers \<Rightarrow> byte \<Rightarrow> 'k pdu_handler" where
  "dispatch_data_pdu malloc h type rdp cs =
     (if type = DATA_PDU_TYPE_UPDATE then call_update_recv h rdp cs
      else if type = DATA_PDU_TYPE_CONTROL then rdp_recv_server_control_pdu h rdp cs
      else if type = DATA_PDU_TYPE_POINTER then call_update_recv_pointer h rdp cs
      else if type = DATA_PDU_TYPE_SYNCHRONIZE then rdp_recv_synchronize_pdu h rdp cs
      else if type = DATA_PDU_TYPE_PLAY_SOUND then call_update_recv_play_sound h rdp cs
      else if type = DATA_PDU_TYPE_SHUTDOWN_DENIED then rdp_recv_server_shutdown_denied_pdu rdp cs
      else if type = DATA_PDU_TYPE_SAVE_SESSION_INFO then rdp_recv_save_session_info h rdp cs
      else if type = DATA_PDU_TYPE_FONT_MAP then rdp_recv_font_map_pdu h rdp cs
      else if type = DATA_PDU_TYPE_SET_KEYBOARD_INDICATORS then rdp_recv_server_set_keyboard_indicators_pdu h rdp cs
      else if type = DATA_PDU_TYPE_SET_KEYBOARD_IME_STATUS then rdp_recv_server_set_keyboard_ime_status_pdu h rdp cs
      else if type = DATA_PDU_TYPE_SET_ERROR_INFO then rdp_recv_set_error_info_data_pdu rdp cs
      else if type = DATA_PDU_TYPE_ARC_STATUS then rdp_recv_server_auto_reconnect_status_pdu rdp cs
      else if type = DATA_PDU_TYPE_STATUS_INFO then rdp_recv_server_status_info_pdu h rdp cs
      else if type = DATA_PDU_TYPE_MONITOR_LAYOUT then rdp_recv_monitor_layout_pdu malloc h rdp cs
      else Some ((True, rdp), cs))"

text \<open>
  A compressed PDU is decompressed into a stream of the receive pool (\<open>pool\<close>), which the handler reads
  instead of the packet.
\<close>

definition decompressed_stream ::
  "(nat \<Rightarrow> wStream option) \<Rightarrow> 'k handlers \<Rightarrow> byte \<Rightarrow> u16 \<Rightarrow> 'k rdpRdp \<Rightarrow> wStream \<Rightarrow> ((wStream option \<times> 'k rdpRdp) \<times> wStream) option" where
  "decompressed_stream pool h compressedType compressedLength rdp s = do {
     let SrcSize = compressedLength - 18;
     (if compressedLength < 18 \<or> Stream_GetRemainingLength s < unat SrcSize then Some ((None, rdp), s)
      else do {
        src \<leftarrow> Stream_Peek s (unat SrcSize);
        let (dst, rdp) = bulk_decompress h rdp src compressedType;
        (case dst of None \<Rightarrow> Some ((None, rdp), s)
         | Some pDstData \<Rightarrow>
             (case pool (length pDstData) of None \<Rightarrow> Some ((None, rdp), s)
              | Some cs \<Rightarrow> do {
                  let cs = Stream_SetPosition cs 0;
                  cs \<leftarrow> Stream_Write cs pDstData;
                  let cs = Stream_SetPosition (Stream_SealLength cs) 0;
                  Some ((Some cs, rdp), Stream_Seek s (unat SrcSize)) })) }) }"

definition rdp_recv_data_pdu ::
  "allocator \<Rightarrow> (nat \<Rightarrow> wStream option) \<Rightarrow> 'k handlers \<Rightarrow> 'k int_handler" where
  "rdp_recv_data_pdu malloc pool h rdp s = do {
     (r, s) \<leftarrow> rdp_read_share_data_header s;
     (case r of None \<Rightarrow> Some ((- 1, rdp), s)
      | Some (len, type, shareId, compressedType, compressedLength) \<Rightarrow>
          if compressedType AND PACKET_COMPRESSED \<noteq> 0 then do {
            ((cs, rdp), s) \<leftarrow> decompressed_stream pool h compressedType compressedLength rdp s;
            (case cs of None \<Rightarrow> Some ((- 1, rdp), s)
             | Some cs \<Rightarrow> do {
                 ((ok, rdp), cs) \<leftarrow> dispatch_data_pdu malloc h type rdp cs;
                 Some ((if ok then 0 else - 1, rdp), s) }) }
          else do {
            ((ok, rdp), s) \<leftarrow> dispatch_data_pdu malloc h type rdp s;
            Some ((if ok then 0 else - 1, rdp), s) }) }"

section \<open>The message channel\<close>

definition rdp_recv_heartbeat_packet :: "'k handlers \<Rightarrow> 'k int_handler" where
  "rdp_recv_heartbeat_packet h rdp s =
     (if Stream_GetRemainingLength s < 4 then Some ((- 1, rdp), s)
      else do {
        (reserved, s) \<leftarrow> Stream_Read_UINT8 s;
        (period, s) \<leftarrow> Stream_Read_UINT8 s;
        (count1, s) \<leftarrow> Stream_Read_UINT8 s;
        (count2, s) \<leftarrow> Stream_Read_UINT8 s;
        let (rc, rdp) = if_call_ret (ServerHeartbeat h) rdp (period, count1, count2);
        Some ((if \<not> rc then - 1 else 0, rdp), s) })"

definition freerdp_heartbeat_send_heartbeat_pdu :: "'k env \<Rightarrow> 'k rdpRdp \<Rightarrow> byte \<Rightarrow> byte \<Rightarrow> byte \<Rightarrow> 'k sender_result" where
  "freerdp_heartbeat_send_heartbeat_pdu env rdp period count1 count2 = do {
     (s, rdp) \<leftarrow> pdu_init env rdp;
     (case s of None \<Rightarrow> Some (False, rdp, None) | Some s \<Rightarrow> do {
        let s = Stream_Seek s 1;
        s \<leftarrow> Stream_Write_UINT8 s period;
        s \<leftarrow> Stream_Write_UINT8 s count1;
        s \<leftarrow> Stream_Write_UINT8 s count2;
        pdu_send env rdp s SEC_HEARTBEAT }) }"

definition rdp_recv_multitransport_packet :: "'k int_handler" where
  "rdp_recv_multitransport_packet rdp s =
     (if Stream_GetRemainingLength s < 24 then Some ((- 1, rdp), s)
      else do {
        (requestId, s) \<leftarrow> Stream_Read_UINT32 s;
        (requestedProtocol, s) \<leftarrow> Stream_Read_UINT16 s;
        (reserved, s) \<leftarrow> Stream_Read_UINT16 s;
        (securityCookie, s) \<leftarrow> Stream_Read s 16;
        Some ((0, rdp), s) })"

definition no_answer :: "((int \<times> 'k rdpRdp) \<times> wStream) option \<Rightarrow> (int, 'k) recv_result" where
  "no_answer r = do { ((rc, rdp), s) \<leftarrow> r; Some ((rc, rdp, None), s) }"

definition rdp_recv_message_channel_pdu ::
  "'k env \<Rightarrow> 'k handlers \<Rightarrow> 'k rdpRdp \<Rightarrow> wStream \<Rightarrow> u16 \<Rightarrow> (int, 'k) recv_result" where
  "rdp_recv_message_channel_pdu env h rdp s securityFlags =
     (if securityFlags AND SEC_AUTODETECT_REQ \<noteq> 0 then rdp_recv_autodetect_request_packet env rdp s
      else if securityFlags AND SEC_AUTODETECT_RSP \<noteq> 0 then rdp_recv_autodetect_response_packet env rdp s
      else if securityFlags AND SEC_HEARTBEAT \<noteq> 0 then no_answer (rdp_recv_heartbeat_packet h rdp s)
      else if securityFlags AND SEC_TRANSPORT_REQ \<noteq> 0 then no_answer (rdp_recv_multitransport_packet rdp s)
      else Some ((- 1, rdp, None), s))"

section \<open>Packets\<close>

definition PDU_TYPE_DEACTIVATE_ALL :: u16 where "PDU_TYPE_DEACTIVATE_ALL = 0x6"
definition PDU_TYPE_SERVER_REDIRECTION :: u16 where "PDU_TYPE_SERVER_REDIRECTION = 0xA"
definition PDU_TYPE_FLOW_TEST :: u16 where "PDU_TYPE_FLOW_TEST = 0x41"
definition PDU_TYPE_FLOW_RESPONSE :: u16 where "PDU_TYPE_FLOW_RESPONSE = 0x42"
definition PDU_TYPE_FLOW_STOP :: u16 where "PDU_TYPE_FLOW_STOP = 0x43"

definition rdp_recv_out_of_sequence_pdu :: "'k env \<Rightarrow> 'k handlers \<Rightarrow> 'k int_handler" where
  "rdp_recv_out_of_sequence_pdu env h rdp s = do {
     (r, s) \<leftarrow> rdp_read_share_control_header s;
     (case r of None \<Rightarrow> Some ((- 1, rdp), s)
      | Some (len, remain, type, channelId) \<Rightarrow>
          if type = PDU_TYPE_DATA then rdp_recv_data_pdu (env_malloc env) (env_pool env) h rdp s
          else if type = PDU_TYPE_SERVER_REDIRECTION then rdp_recv_redirection_packet h rdp s
          else if type = PDU_TYPE_FLOW_RESPONSE \<or> type = PDU_TYPE_FLOW_STOP \<or> type = PDU_TYPE_FLOW_TEST then Some ((0, rdp), s)
          else Some ((- 1, rdp), s)) }"

text \<open>
  One share PDU of a packet: the first component of the result is the value of an early return, if the
  handler ends the packet.
\<close>

definition handle_share_pdu ::
  "'k env \<Rightarrow> 'k handlers \<Rightarrow> u16 \<Rightarrow> u16 \<Rightarrow> 'k rdpRdp \<Rightarrow> int \<Rightarrow> wStream \<Rightarrow> (int option \<times> int \<times> 'k rdpRdp) option" where
  "handle_share_pdu env h pduType remain rdp rc sub =
     (if pduType = PDU_TYPE_DATA then do {
        ((rc, rdp), sub) \<leftarrow> rdp_recv_data_pdu (env_malloc env) (env_pool env) h rdp sub;
        Some (if rc < 0 then Some rc else None, rc, rdp) }
      else if pduType = PDU_TYPE_DEACTIVATE_ALL then do {
        ((ok, rdp), sub) \<leftarrow> rdp_recv_deactivate_all h rdp sub;
        Some (if \<not> ok then Some (- 1) else None, rc, rdp) }
      else if pduType = PDU_TYPE_SERVER_REDIRECTION then do {
        ((rc, rdp), sub) \<leftarrow> rdp_recv_redirection_packet h rdp sub;
        Some (Some rc, rc, rdp) }
      else if pduType = PDU_TYPE_FLOW_RESPONSE \<or> pduType = PDU_TYPE_FLOW_STOP \<or> pduType = PDU_TYPE_FLOW_TEST then
        Some (if \<not> fst (Stream_SafeSeek sub (unat remain)) then Some (- 1) else None, rc, rdp)
      else Some (None, rc, rdp))"

definition sub_stream :: "wStream \<Rightarrow> nat \<Rightarrow> wStream" where
  "sub_stream s n = Stream_StaticInit (take n (drop (Stream_GetPosition s) (s_buffer s)))"

text \<open>The loop over the share PDUs; \<open>None\<close> also when it does not end.\<close>

partial_function (option) share_pdu_loop ::
  "'k env \<Rightarrow> 'k handlers \<Rightarrow> 'k rdpRdp \<Rightarrow> int \<Rightarrow> wStream \<Rightarrow> ((int option \<times> int \<times> 'k rdpRdp) \<times> wStream) option" where
  "share_pdu_loop env h rdp rc s =
     (if Stream_GetRemainingLength s > 3 then do {
        (r, s) \<leftarrow> rdp_read_share_control_header s;
        (case r of None \<Rightarrow> Some ((Some (- 1), rc, rdp), s)
         | Some (len, remain, pduType, pduSource) \<Rightarrow> do {
             let sub = sub_stream s (unat remain);
             let (ok, s) = Stream_SafeSeek s (unat remain);
             (if \<not> ok then Some ((Some (- 1), rc, rdp), s)
              else do {
                let rdp = rdp\<lparr>PduSource := pduSource, inPackets := inPackets rdp + 1\<rparr>;
                (early, rc, rdp) \<leftarrow> handle_share_pdu env h pduType remain rdp rc sub;
                (case early of Some rc' \<Rightarrow> Some ((Some rc', rc, rdp), s)
                 | None \<Rightarrow> share_pdu_loop env h rdp rc s) }) }) }
      else Some ((None, rc, rdp), s))"

declare share_pdu_loop.simps [code]

text \<open>\<^verbatim>\<open>freerdp_shall_disconnect\<close> asks whether the abort event is set.\<close>

definition freerdp_shall_disconnect :: "'k rdpRdp \<Rightarrow> bool" where
  "freerdp_shall_disconnect rdp = (AbortConnect \<in> set (r_events rdp))"

definition finish_packet :: "(int, 'k) recv_result \<Rightarrow> (int, 'k) recv_result" where
  "finish_packet r = do {
     ((rc, rdp, a), s) \<leftarrow> r;
     Some ((if \<not> tpkt_ensure_stream_consumed s then - 1 else rc, rdp, a), s) }"

text \<open>
  The part of \<^verbatim>\<open>rdp_recv_tpkt_pdu\<close> behind the security header, then the branch that reads that header
  and decrypts.
\<close>

definition recv_by_channel ::
  "'k env \<Rightarrow> 'k handlers \<Rightarrow> 'k rdpRdp \<Rightarrow> wStream \<Rightarrow> u16 \<Rightarrow> u16 \<Rightarrow> u16 \<Rightarrow> (int, 'k) recv_result" where
  "recv_by_channel env h rdp s len channelId securityFlags =
     (if channelId = MCS_GLOBAL_CHANNEL_ID then do {
        ((early, rc, rdp), s) \<leftarrow> share_pdu_loop env h rdp 0 s;
        (case early of Some rc \<Rightarrow> Some ((rc, rdp, None), s)
         | None \<Rightarrow> finish_packet (Some ((rc, rdp, None), s))) }
      else if messageChannelId (r_mcs rdp) \<noteq> 0 \<and> channelId = messageChannelId (r_mcs rdp) then do {
        (flags, s) \<leftarrow> (if \<not> UseRdpSecurityLayer rdp then do {
                          (r, s) \<leftarrow> rdp_read_security_header s None;
                          Some (map_option fst r, s) }
                        else Some (Some securityFlags, s));
        (case flags of None \<Rightarrow> Some ((- 1, rdp, None), s)
         | Some flags \<Rightarrow>
             finish_packet (rdp_recv_message_channel_pdu env h (rdp\<lparr>inPackets := inPackets rdp + 1\<rparr>) s flags)) }
      else do {
        let rdp = rdp\<lparr>inPackets := inPackets rdp + 1\<rparr>;
        ((ok, rdp), s) \<leftarrow> freerdp_channel_process h channelId len rdp s;
        (if \<not> ok then Some ((- 1, rdp, None), s) else finish_packet (Some ((0, rdp, None), s))) })"

definition recv_secured ::
  "'k env \<Rightarrow> 'k handlers \<Rightarrow> 'k rdpRdp \<Rightarrow> wStream \<Rightarrow> u16 \<Rightarrow> u16 \<Rightarrow> (int, 'k) recv_result" where
  "recv_secured env h rdp s len channelId = do {
     (sh, s) \<leftarrow> rdp_read_security_header s (Some len);
     (case sh of Some (securityFlags, Some len) \<Rightarrow> do {
         ((dec, rdp), s) \<leftarrow>
           (if ucast securityFlags AND (SEC_ENCRYPT OR SEC_REDIRECTION_PKT) \<noteq> 0
            then rdp_decrypt (env_ops env) rdp s len securityFlags else Some ((Some len, rdp), s));
         (case dec of None \<Rightarrow> Some ((- 1, rdp, None), s)
          | Some len \<Rightarrow>
              if ucast securityFlags AND SEC_REDIRECTION_PKT \<noteq> 0 then do {
                s \<leftarrow> Stream_Rewind s 2;
                ((rc, rdp), s) \<leftarrow> rdp_recv_redirection_packet h (rdp\<lparr>inPackets := inPackets rdp + 1\<rparr>) s;
                finish_packet (Some ((rc, rdp, None), s)) }
              else recv_by_channel env h rdp s len channelId securityFlags) }
      | _ \<Rightarrow> Some ((- 1, rdp, None), s)) }"

definition rdp_recv_tpkt_pdu :: "'k env \<Rightarrow> 'k handlers \<Rightarrow> 'k rdpRdp \<Rightarrow> wStream \<Rightarrow> (int, 'k) recv_result" where
  "rdp_recv_tpkt_pdu env h rdp s = do {
     ((r, rdp), s) \<leftarrow> rdp_read_header rdp s;
     (case r of None \<Rightarrow> Some ((- 1, rdp, None), s)
      | Some (len, channelId) \<Rightarrow>
          if freerdp_shall_disconnect rdp then Some ((0, rdp, None), s)
          else
          let rdp = (if bandwidthMeasureStarted (r_autodetect rdp)
                     then set_autodetect (\<lambda>a. a\<lparr>bandwidthMeasureByteCount := bandwidthMeasureByteCount a + ucast len\<rparr>) rdp
                     else rdp) in
          if UseRdpSecurityLayer rdp then recv_secured env h rdp s len channelId
          else recv_by_channel env h rdp s len channelId 0) }"

end
