(* ===== verification/Message_Channel.thy ===== *)
theory Message_Channel
  imports Rdp_Recv
begin

text \<open>
  The message channel between two sides that do not encrypt: what a sender of a message puts on the
  wire (\<open>message_enc\<close>, \<open>message_sent\<close>), and that the other side hands exactly its body to the dispatcher of
  the channel (\<open>link_recv\<close>).
\<close>

section \<open>Messages on the wire\<close>

definition clear_side :: "'k env \<Rightarrow> 'k rdpRdp \<Rightarrow> bool" where
  "clear_side env rdp \<longleftrightarrow> pool_ok (env_pool env) \<and> env_pool env 4096 \<noteq> None \<and> \<not> do_crypt rdp \<and> sec_flags rdp = 0 \<and>
     \<not> UseRdpSecurityLayer rdp \<and> MCS_BASE_CHANNEL_ID \<le> userId (r_mcs rdp) \<and>
     messageChannelId (r_mcs rdp) \<notin> {0, MCS_GLOBAL_CHANNEL_ID}"

definition message_enc :: "'k rdpRdp \<Rightarrow> u16 \<Rightarrow> byte list \<Rightarrow> byte list" where
  "message_enc rdp flags body =
     rdp_header_enc (send_pdu_of rdp) (word_of_nat (19 + length body)) (userId (r_mcs rdp)) (messageChannelId (r_mcs rdp)) @
     u16_enc flags @ u16_enc 0 @ body"

definition message_flags :: "u16 set" where
  "message_flags = {SEC_AUTODETECT_REQ, SEC_AUTODETECT_RSP, SEC_HEARTBEAT, SEC_TRANSPORT_REQ}"

lemmas message_flag_defs = message_flags_def SEC_AUTODETECT_REQ_def SEC_AUTODETECT_RSP_def SEC_HEARTBEAT_def SEC_TRANSPORT_REQ_def

lemma message_stream_out:
  assumes "sec_flags rdp = 0" "flags \<in> message_flags" "wf_cap s" "4 \<le> room s"
  shows "rdp_security_stream_out ops rdp s n (ucast flags) = Some ((True, 0), rdp, put s (u16_enc flags @ u16_enc 0))"
  using assms
  by (auto simp: rdp_security_stream_out_def rdp_write_security_header_def message_flag_defs SEC_ENCRYPT_def stream_simps u16_enc_def)

lemma message_init:
  assumes "clear_side env rdp"
  obtains s0 where "pdu_init env rdp = Some (Some (Stream_Seek s0 19), rdp)" "wf_cap s0" "s_pointer s0 = 0" "4096 \<le> room s0"
proof -
  obtain s0 where s0: "env_pool env 4096 = Some s0" using assms by (auto simp: clear_side_def)
  then have "wf_cap s0" "s_pointer s0 = 0" "4096 \<le> room s0" using assms by (auto simp: clear_side_def pool_ok_def room_def)
  moreover have "pdu_init env rdp = Some (Some (Stream_Seek s0 19), rdp)"
    using assms s0 by (intro init_stream_clear) (auto simp: clear_side_def)
  ultimately show ?thesis using that by blast
qed

lemma message_send:
  assumes s0: "wf_cap s0" "s_pointer s0 = 0" "19 + length body \<le> room s0" and n: "19 + length body < 2 ^ 16"
    and c: "sec_flags rdp = 0" "flags \<in> message_flags"
  shows "\<exists>t. pdu_send env rdp (put (Stream_Seek s0 19) body) flags = Some (\<not> env_write env t < 0, rdp, Some t) \<and>
      sent (message_enc rdp flags body) t"
proof -
  let ?h = "rdp_header_enc (send_pdu_of rdp) (word_of_nat (19 + length body)) (userId (r_mcs rdp)) (messageChannelId (r_mcs rdp))"
  let ?e = "?h @ u16_enc flags @ u16_enc 0" and ?s = "Stream_SetPosition (put (Stream_Seek s0 19) body) 0"
  have le: "length ?e = 19" by simp
  have s: "wf_cap ?s" "room ?s = room s0"
    using sent_header_last(1,2) [of s0 ?e body] s0 le by simp_all
  have room: "15 \<le> room ?s" "4 \<le> room (put ?s ?h)" using s(2) s0(3) by (simp_all add: stream_simps)
  have h: "rdp_write_header (env_malloc env) rdp ?s (word_of_nat (19 + length body)) (messageChannelId (r_mcs rdp)) = Some (put ?s ?h)"
    using s room c by (intro rdp_write_header_put) simp_all
  have w: "wf_cap (put ?s ?h)" using s room by (simp add: stream_simps)
  have pp: "put (put ?s ?h) (u16_enc flags @ u16_enc 0) = put ?s ?e" using s room by (simp add: stream_simps)
  let ?t = "Stream_SealLength (Stream_SetPosition (put ?s ?e) (19 + length body))"
  have p: "Stream_GetPosition (put (Stream_Seek s0 19) body) = 19 + length body" using s0(2) by (simp add: Stream_GetPosition_def)
  have u: "unat (word_of_nat (19 + length body) :: u16) = 19 + length body" using n by (intro unat_of_nat_eq) simp
  have "pdu_send env rdp (put (Stream_Seek s0 19) body) flags = Some (\<not> env_write env ?t < 0, rdp, Some ?t)"
    unfolding rdp_send_message_channel_pdu_def rdp_send_on_def p Let_def h
    by (simp only: bind.bind_lunit prod.case message_stream_out [OF c w room(2)] pp simp_thms if_False ucast_0 add_0_right u)
  moreover have "sent (?e @ body) ?t" using sent_header_last(3) [of s0 ?e body] s0 le by simp
  ultimately show ?thesis unfolding message_enc_def by (auto simp: append_assoc)
qed

text \<open>What the receiver has counted when the PDU of a packet is dispatched.\<close>

definition packet_counted :: "u16 \<Rightarrow> 'k rdpRdp \<Rightarrow> 'k rdpRdp" where
  "packet_counted n rdp = (if bandwidthMeasureStarted (r_autodetect rdp)
     then set_autodetect (\<lambda>a. a\<lparr>bandwidthMeasureByteCount := bandwidthMeasureByteCount a + ucast n\<rparr>) rdp
     else rdp)\<lparr>inPackets := inPackets rdp + 1\<rparr>"

lemma packet_counted_simps [simp]:
  "r_mcs (packet_counted n rdp) = r_mcs rdp" "UseRdpSecurityLayer (packet_counted n rdp) = UseRdpSecurityLayer rdp"
  by (simp_all add: packet_counted_def set_autodetect_def)

lemma read_security_header_rest:
  assumes "wf_stream s" "rest s = u16_enc flags @ u16_enc 0 @ body"
  shows "rdp_read_security_header s None = Some (Some (flags, None), Stream_Seek s 4)"
proof -
  have a: "avail s = 4 + length body" using rest_split [OF assms(1), of "u16_enc flags @ u16_enc 0" body] assms(2) by simp
  have "Stream_Read_UINT16 (Stream_Seek s 0) = Some (flags, Stream_Seek s (0 + 2))"
    using assms by (intro Read_UINT16_at) simp_all
  then show ?thesis using assms(1) a by (simp add: rdp_read_security_header_def stream_simps)
qed

lemma message_recv:
  assumes "wf_stream s" "rest s = message_enc peer flags body" "ServerMode rdp \<noteq> ServerMode peer" "19 + length body < 0x8000"
    "clear_side env' peer" "clear_side env rdp" "messageChannelId (r_mcs rdp) = messageChannelId (r_mcs peer)"
    "\<not> freerdp_shall_disconnect rdp"
  shows "rdp_recv_tpkt_pdu env h rdp s =
    finish_packet (rdp_recv_message_channel_pdu env h (packet_counted (word_of_nat (4 + length body)) rdp) (Stream_Seek s 19) flags)"
proof -
  let ?b = "u16_enc flags @ u16_enc 0 @ body"
  have lb: "length ?b = 4 + length body" by simp
  have a: "avail s = 19 + length body" using length_rest [OF assms(1)] assms(2) by (simp add: message_enc_def)
  have u: "unat (word_of_nat (19 + length body) :: u16) = 19 + length body" using assms(4) by (intro unat_of_nat_eq) simp
  have 1: "rdp_read_header rdp s =
      Some ((Some (word_of_nat (length ?b), messageChannelId (r_mcs peer)), rdp), Stream_Seek s 15)"
  proof (rule rdp_read_header_rest [OF assms(1)])
    show "rest s = rdp_header_enc (send_pdu_of peer) (word_of_nat (19 + length body)) (userId (r_mcs peer)) (messageChannelId (r_mcs peer)) @ ?b"
      using assms(2) by (simp add: message_enc_def)
    show "unat (word_of_nat (19 + length body) :: u16) = 15 + length ?b" using u by simp
  qed (use assms(3-5) in \<open>simp_all add: clear_side_def\<close>)
  have "wf_stream (Stream_Seek s 15)" "rest (Stream_Seek s 15) = ?b"
    using assms(1,2) a by (simp_all add: stream_simps message_enc_def)
  then have 2: "rdp_read_security_header (Stream_Seek s 15) None = Some (Some (flags, None), Stream_Seek s 19)"
    using read_security_header_rest by fastforce
  have c: "\<not> UseRdpSecurityLayer rdp" "messageChannelId (r_mcs rdp) \<noteq> 0" "messageChannelId (r_mcs rdp) \<noteq> MCS_GLOBAL_CHANNEL_ID"
    using assms(6) by (auto simp: clear_side_def)
  show ?thesis unfolding rdp_recv_tpkt_pdu_def 1 lb
    using c assms(7,8) 2
    by (simp add: recv_by_channel_def packet_counted_def set_autodetect_def del: of_nat_add)
qed

section \<open>Links\<close>

text \<open>A link: two sides of opposite roles that share the message channel and do not encrypt.\<close>

definition link :: "'k env \<Rightarrow> 'k rdpRdp \<Rightarrow> 'j env \<Rightarrow> 'j rdpRdp \<Rightarrow> bool" where
  "link env rdp env' rdp' \<longleftrightarrow> clear_side env rdp \<and> clear_side env' rdp' \<and> ServerMode rdp \<noteq> ServerMode rdp' \<and>
     messageChannelId (r_mcs rdp') = messageChannelId (r_mcs rdp) \<and>
     \<not> freerdp_shall_disconnect rdp \<and> \<not> freerdp_shall_disconnect rdp'"

text \<open>What a side does with a message of the other one.\<close>

lemma link_recv:
  assumes "link env rdp env' rdp'" "sent (message_enc rdp flags body) t" "19 + length body < 0x8000"
  shows "rdp_recv_tpkt_pdu env' h rdp' (Stream_SetPosition t 0) = finish_packet (rdp_recv_message_channel_pdu env' h
      (packet_counted (word_of_nat (4 + length body)) rdp') (Stream_Seek (Stream_SetPosition t 0) 19) flags)"
    "wf_stream (Stream_Seek (Stream_SetPosition t 0) 19)" "rest (Stream_Seek (Stream_SetPosition t 0) 19) = body"
proof -
  have w: "wf_stream (Stream_SetPosition t 0)" "rest (Stream_SetPosition t 0) = message_enc rdp flags body"
    using assms(2) by (simp_all add: sent_def)
  show "rdp_recv_tpkt_pdu env' h rdp' (Stream_SetPosition t 0) = finish_packet (rdp_recv_message_channel_pdu env' h
      (packet_counted (word_of_nat (4 + length body)) rdp') (Stream_Seek (Stream_SetPosition t 0) 19) flags)"
    using assms by (intro message_recv [OF w]) (auto simp: link_def)
  have "avail (Stream_SetPosition t 0) = 19 + length body" using length_rest [OF w(1)] w(2) by (simp add: message_enc_def)
  then show "wf_stream (Stream_Seek (Stream_SetPosition t 0) 19)" "rest (Stream_Seek (Stream_SetPosition t 0) 19) = body"
    using w by (simp_all add: stream_simps message_enc_def)
qed


text \<open>A sender that prepares a stream, fills in a body and sends it has put the message on the wire.\<close>

lemma message_sent:
  assumes "clear_side env rdp" "length body \<le> 4077" "flags \<in> message_flags" "sec_flags rdp' = 0"
    "\<And>s. wf_cap s \<Longrightarrow> 4077 \<le> room s \<Longrightarrow> f rdp s = pdu_send env rdp' (put s body) flags"
  shows "\<exists>t. (do { (s, rdp) \<leftarrow> pdu_init env rdp; case s of None \<Rightarrow> g rdp | Some s \<Rightarrow> f rdp s }) =
      Some (\<not> env_write env t < 0, rdp', Some t) \<and> sent (message_enc rdp' flags body) t"
proof -
  obtain s0 where s0: "pdu_init env rdp = Some (Some (Stream_Seek s0 19), rdp)" "wf_cap s0" "s_pointer s0 = 0" "4096 \<le> room s0"
    using assms(1) by (rule message_init)
  have "wf_cap (Stream_Seek s0 19)" "4077 \<le> room (Stream_Seek s0 19)" using s0(2-4) by (auto simp: wf_cap_def room_def)
  then have "f rdp (Stream_Seek s0 19) = pdu_send env rdp' (put (Stream_Seek s0 19) body) flags" by (rule assms(5))
  moreover have "19 + length body \<le> room s0" "19 + length body < 2 ^ 16" using s0(4) assms(2) by simp_all
  ultimately show ?thesis using message_send [of s0 body rdp' flags env] s0(1-3) assms(3,4) by simp
qed

lemma autodetect_flags [simp]:
  "SEC_AUTODETECT_REQ \<in> message_flags" "SEC_AUTODETECT_RSP \<in> message_flags" "SEC_HEARTBEAT \<in> message_flags"
  by (simp_all add: message_flags_def)

lemma clear_side_flags: "clear_side env rdp \<Longrightarrow> sec_flags rdp = 0"
  by (simp add: clear_side_def)

lemma message_enc_autodetect [simp]: "message_enc (set_autodetect f rdp) = message_enc rdp"
  by (simp add: fun_eq_iff message_enc_def set_autodetect_def send_pdu_of_def)

lemma set_autodetect_simps [simp]:
  "sec_flags (set_autodetect f rdp) = sec_flags rdp" "r_mcs (set_autodetect f rdp) = r_mcs rdp"
  "r_autodetect (set_autodetect f rdp) = f (r_autodetect rdp)" "set_autodetect f (set_autodetect g rdp) = set_autodetect (f \<circ> g) rdp"
  "ServerMode (set_autodetect f rdp) = ServerMode rdp" "clear_side env (set_autodetect f rdp) = clear_side env rdp"
  "freerdp_shall_disconnect (set_autodetect f rdp) = freerdp_shall_disconnect rdp"
  by (simp_all add: set_autodetect_def clear_side_def freerdp_shall_disconnect_def)


section \<open>An example link\<close>

definition example_env :: "u64 \<Rightarrow> unit env" where
  "example_env ticks =
     \<lparr>env_malloc = zero_malloc, env_pool = fresh_pool, env_ops = no_security, env_write = (\<lambda>_. 0), env_ticks = ticks,
      env_rand = word_of_nat, RTTMeasureResponse = None, BandwidthMeasureResults = None,
      NetworkCharacteristicsResult = None, ClientBandwidthMeasureResult = None\<rparr>"

definition example_handlers :: "unit handlers" where
  "example_handlers =
     \<lparr>call_update_recv = (\<lambda>rdp s. Some ((True, rdp), s)), rdp_recv_server_control_pdu = (\<lambda>rdp s. Some ((True, rdp), s)),
      call_update_recv_pointer = (\<lambda>rdp s. Some ((True, rdp), s)), rdp_recv_synchronize_pdu = (\<lambda>rdp s. Some ((True, rdp), s)),
      call_update_recv_play_sound = (\<lambda>rdp s. Some ((True, rdp), s)), rdp_recv_save_session_info = (\<lambda>rdp s. Some ((True, rdp), s)),
      rdp_recv_font_map_pdu = (\<lambda>rdp s. Some ((True, rdp), s)), rdp_recv_deactivate_all = (\<lambda>rdp s. Some ((True, rdp), s)),
      rdp_recv_redirection_packet = (\<lambda>rdp s. Some ((0, rdp), s)), freerdp_channel_process = (\<lambda>_ _ rdp s. Some ((True, rdp), s)),
      bulk_decompress = (\<lambda>rdp bs _. (Some bs, rdp)), ServerHeartbeat = None, SetKeyboardIndicators = None,
      SetKeyboardImeStatus = None, ServerStatusInfo = None, RemoteMonitors = None\<rparr>"

lemma example_env_simps [simp]:
  "env_malloc (example_env t) = zero_malloc" "env_pool (example_env t) = fresh_pool" "env_ops (example_env t) = no_security"
  "env_write (example_env t) = (\<lambda>_. 0)" "env_ticks (example_env t) = t" "RTTMeasureResponse (example_env t) = None"
  "BandwidthMeasureResults (example_env t) = None" "NetworkCharacteristicsResult (example_env t) = None"
  "ClientBandwidthMeasureResult (example_env t) = None"
  by (simp_all add: example_env_def)

lemma example_side: "clear_side (example_env t) (example_rdp b)" "\<not> freerdp_shall_disconnect (example_rdp b)"
  "ServerMode (example_rdp b) = b" "\<not> bandwidthMeasureStarted (r_autodetect (example_rdp b))"
  using fresh_pool_ok
  by (simp_all add: clear_side_def example_rdp_def fresh_pool_def mcs_new_def MCS_BASE_CHANNEL_ID_def MCS_GLOBAL_CHANNEL_ID_def
      freerdp_shall_disconnect_def)

lemma example_link: "link (example_env t) (example_rdp True) (example_env t') (example_rdp False)"
  using example_side by (simp add: link_def example_rdp_def)

end
