(* ===== verification/Autodetect_Exchange.thy ===== *)
theory Autodetect_Exchange
  imports Message_Channel
begin

text \<open>
  Auto-detection between a server and a client: the requests, the payloads and the answers on the
  wire, and what each side has learned after an exchange.
\<close>

section \<open>PDUs on the wire\<close>

definition pdu_enc :: "byte \<Rightarrow> byte \<Rightarrow> u16 \<Rightarrow> u16 \<Rightarrow> byte list" where
  "pdu_enc headerLength headerTypeId sequenceNumber type = [headerLength, headerTypeId] @ u16_enc sequenceNumber @ u16_enc type"

lemma length_pdu_enc [simp]: "length (pdu_enc hl ty n t) = 6"
  by (simp add: pdu_enc_def)

lemma write_pdu_header_put:
  "wf_cap s \<Longrightarrow> 6 \<le> room s \<Longrightarrow> write_pdu_header s hl ty n t = Some (put s (pdu_enc hl ty n t))"
  by (simp add: write_pdu_header_def pdu_enc_def u16_enc_def stream_simps)

lemma pdu_header_rest:
  assumes "wf_stream s" "rest s = pdu_enc hl ty n t @ r"
  shows "Stream_Read_UINT8 s = Some (hl, Stream_Seek s 1)" "Stream_Read_UINT8 (Stream_Seek s 1) = Some (ty, Stream_Seek s 2)"
    "Stream_Read_UINT16 (Stream_Seek s 2) = Some (n, Stream_Seek s 4)"
    "Stream_Read_UINT16 (Stream_Seek s 4) = Some (t, Stream_Seek s 6)"
    "\<not> Stream_GetRemainingLength s < 6" "wf_stream (Stream_Seek s 6)" "rest (Stream_Seek s 6) = r"
proof -
  have a: "avail s = 6 + length r" using rest_split [OF assms] by simp
  show "Stream_Read_UINT8 s = Some (hl, Stream_Seek s 1)" "Stream_Read_UINT8 (Stream_Seek s 1) = Some (ty, Stream_Seek s 2)"
    using Read_UINT8_at [OF assms(1), of 0 hl] Read_UINT8_at [OF assms(1), of 1 ty] assms(2)
    by (simp_all add: pdu_enc_def numeral_2_eq_2)
  show "Stream_Read_UINT16 (Stream_Seek s 2) = Some (n, Stream_Seek s 4)"
    "Stream_Read_UINT16 (Stream_Seek s 4) = Some (t, Stream_Seek s 6)"
    using Read_UINT16_at [OF assms(1), of 2 n] Read_UINT16_at [OF assms(1), of 4 t] assms(2) by (simp_all add: pdu_enc_def)
  show "\<not> Stream_GetRemainingLength s < 6" "wf_stream (Stream_Seek s 6)" "rest (Stream_Seek s 6) = r"
    using assms a by (simp_all add: stream_simps)
qed

lemma request_rest:
  assumes "wf_stream s" "rest s = pdu_enc hl TYPE_ID_AUTODETECT_REQUEST n t @ r"
  shows "rdp_recv_autodetect_request_packet env rdp s = int_result (dispatch_autodetect_request env rdp (Stream_Seek s 6)
      \<lparr>req_headerLength = hl, req_headerTypeId = TYPE_ID_AUTODETECT_REQUEST, req_sequenceNumber = n, req_requestType = t\<rparr>)"
  using pdu_header_rest [OF assms] by (simp add: rdp_recv_autodetect_request_packet_def)

lemma response_rest:
  assumes "wf_stream s" "rest s = pdu_enc hl TYPE_ID_AUTODETECT_RESPONSE n t @ r"
  shows "rdp_recv_autodetect_response_packet env rdp s = int_result (dispatch_autodetect_response env rdp (Stream_Seek s 6)
      \<lparr>rsp_headerLength = hl, rsp_headerTypeId = TYPE_ID_AUTODETECT_RESPONSE, rsp_sequenceNumber = n, rsp_responseType = t\<rparr>)"
  using pdu_header_rest [OF assms] by (simp add: rdp_recv_autodetect_response_packet_def)

lemma rtt_request_sent:
  assumes "clear_side env rdp"
  shows "\<exists>t. autodetect_send_rtt_measure_request env rdp n ty =
      Some (\<not> env_write env t < 0, set_autodetect (rttMeasureStartTime_update (\<lambda>_. env_ticks env)) rdp, Some t) \<and>
      sent (message_enc (set_autodetect (rttMeasureStartTime_update (\<lambda>_. env_ticks env)) rdp) SEC_AUTODETECT_REQ
        (pdu_enc 6 TYPE_ID_AUTODETECT_REQUEST n ty)) t"
  unfolding autodetect_send_rtt_measure_request_def
  by (rule message_sent [OF assms]) (use assms in \<open>simp_all add: clear_side_flags write_pdu_header_put\<close>)

lemma rtt_response_sent:
  assumes "clear_side env rdp"
  shows "\<exists>t. autodetect_send_rtt_measure_response env rdp n = Some (\<not> env_write env t < 0, rdp, Some t) \<and>
      sent (message_enc rdp SEC_AUTODETECT_RSP (pdu_enc 6 TYPE_ID_AUTODETECT_RESPONSE n RDP_RTT_RESPONSE_TYPE)) t"
  unfolding autodetect_send_rtt_measure_response_def
  by (rule message_sent [OF assms]) (use assms in \<open>simp_all add: clear_side_flags write_pdu_header_put\<close>)

lemma bandwidth_start_sent:
  assumes "clear_side env rdp"
  shows "\<exists>t. autodetect_send_bandwidth_measure_start env rdp n ty = Some (\<not> env_write env t < 0, rdp, Some t) \<and>
      sent (message_enc rdp SEC_AUTODETECT_REQ (pdu_enc 6 TYPE_ID_AUTODETECT_REQUEST n ty)) t"
  unfolding autodetect_send_bandwidth_measure_start_def
  by (rule message_sent [OF assms]) (use assms in \<open>simp_all add: clear_side_flags write_pdu_header_put\<close>)

definition netchar_enc :: "rdpAutoDetect \<Rightarrow> u16 \<Rightarrow> byte list" where
  "netchar_enc a n = (if netCharBandwidth a > 0
     then pdu_enc 0x12 TYPE_ID_AUTODETECT_REQUEST n RDP_NETCHAR_RESULTS_0x08C0 @ u32_enc (netCharBaseRTT a) @
       u32_enc (netCharBandwidth a) @ u32_enc (netCharAverageRTT a)
     else pdu_enc 0x0E TYPE_ID_AUTODETECT_REQUEST n RDP_NETCHAR_RESULTS_0x0840 @ u32_enc (netCharBaseRTT a) @
       u32_enc (netCharAverageRTT a))"

lemma Write_UINT32_enc: "wf_cap s \<Longrightarrow> 4 \<le> room s \<Longrightarrow> Stream_Write_UINT32 s v = Some (put s (u32_enc v))"
  by (simp add: stream_simps u32_enc_def)

lemma Write_UINT16_enc: "wf_cap s \<Longrightarrow> 2 \<le> room s \<Longrightarrow> Stream_Write_UINT16 s v = Some (put s (u16_enc v))"
  by (simp add: stream_simps u16_enc_def)

lemmas enc_writers = write_pdu_header_put Write_UINT32_enc Write_UINT16_enc wf_cap_put room_put put_put

lemma netchar_sent:
  assumes "clear_side env rdp"
  shows "\<exists>t. autodetect_send_netchar_result env rdp n = Some (\<not> env_write env t < 0, rdp, Some t) \<and>
      sent (message_enc rdp SEC_AUTODETECT_REQ (netchar_enc (r_autodetect rdp) n)) t"
  unfolding autodetect_send_netchar_result_def
  by (rule message_sent [OF assms]) (use assms in \<open>simp_all add: clear_side_flags enc_writers netchar_enc_def\<close>)

lemma bandwidth_results_sent:
  assumes "clear_side env rdp" "ClientBandwidthMeasureResult env = None"
  shows "\<exists>t. autodetect_send_bandwidth_measure_results env rdp ty n = Some (\<not> env_write env t < 0, rdp, Some t) \<and>
      sent (message_enc rdp SEC_AUTODETECT_RSP (pdu_enc 0x0E TYPE_ID_AUTODETECT_RESPONSE n ty @
        u32_enc (ucast (env_ticks env - bandwidthMeasureStartTime (r_autodetect rdp))) @
        u32_enc (bandwidthMeasureByteCount (r_autodetect rdp)))) t"
  unfolding autodetect_send_bandwidth_measure_results_def Let_def
  by (rule message_sent [OF assms(1)]) (use assms in \<open>simp_all add: clear_side_flags enc_writers\<close>)


definition aligned :: "u16 \<Rightarrow> u16" where
  "aligned n = n AND NOT 3"

definition payload_enc :: "'k env \<Rightarrow> u16 \<Rightarrow> u16 \<Rightarrow> u16 \<Rightarrow> byte list" where
  "payload_enc env n ty p = pdu_enc 0x08 TYPE_ID_AUTODETECT_REQUEST n ty @ u16_enc p @ random_bytes env (unat p)"

lemma length_payload_enc [simp]: "length (payload_enc env n ty p) = 8 + unat p" "length (random_bytes env k) = k"
  by (simp_all add: payload_enc_def random_bytes_def)

lemma payload_sent:
  assumes "clear_side env rdp" "unat (aligned p) \<le> 4069" "\<And>n. env_malloc env n \<noteq> None"
  shows "\<exists>t. autodetect_send_bandwidth_measure_payload env rdp p n = Some (\<not> env_write env t < 0, rdp, Some t) \<and>
      sent (message_enc rdp SEC_AUTODETECT_REQ (payload_enc env n RDP_BW_PAYLOAD_REQUEST_TYPE (aligned p))) t"
proof -
  obtain b where b: "env_malloc env (unat (aligned p)) = Some b" using assms(3) by blast
  show ?thesis unfolding autodetect_send_bandwidth_measure_payload_def Let_def aligned_def [symmetric]
    by (rule message_sent [OF assms(1)])
       (use assms(1,2) in \<open>simp_all add: clear_side_flags enc_writers payload_enc_def EnsureRemaining_room Write_put b\<close>)
qed

lemma stop_sent:
  assumes "clear_side env rdp" "unat (aligned p) \<le> 4069" "\<And>n. env_malloc env n \<noteq> None"
  shows "\<exists>t. autodetect_send_connecttime_bandwidth_measure_stop env rdp p n = Some (\<not> env_write env t < 0, rdp, Some t) \<and>
      sent (message_enc rdp SEC_AUTODETECT_REQ (payload_enc env n RDP_BW_STOP_REQUEST_TYPE_CONNECTTIME (aligned p))) t"
proof -
  obtain b where b: "env_malloc env (unat (aligned p)) = Some b" using assms(3) by blast
  have z: "random_bytes env (unat (aligned p)) = []" if "\<not> 0 < aligned p"
    using that by (simp add: word_gt_0 random_bytes_def)
  show ?thesis
    unfolding autodetect_send_connecttime_bandwidth_measure_stop_def autodetect_send_bandwidth_measure_stop_def Let_def aligned_def [symmetric]
    by (rule message_sent [OF assms(1)])
       (use assms(1,2) z in \<open>simp_all add: clear_side_flags enc_writers payload_enc_def EnsureRemaining_room Write_put b\<close>)
qed


section \<open>Exchanges\<close>

text \<open>A message handed to the peer: the new state of the sender, what the peer returns, its state and its answer.\<close>

definition deliver :: "'k sender_result \<Rightarrow> 'j env \<Rightarrow> 'j handlers \<Rightarrow> 'j rdpRdp \<Rightarrow>
    ('k rdpRdp \<times> int \<times> 'j rdpRdp \<times> wStream option) option" where
  "deliver r env' h rdp' = do {
     (_, rdp, t) \<leftarrow> r;
     t \<leftarrow> t;
     ((rc, rdp', a), s) \<leftarrow> rdp_recv_tpkt_pdu env' h rdp' (Stream_SetPosition t 0);
     Some (rdp, rc, rdp', a) }"

lemma finish_consumed:
  assumes "wf_stream s" "rest s = []"
  shows "finish_packet (Some ((rc, rdp, a), s)) = Some ((rc, rdp, a), s)"
  using length_rest [OF assms(1)] assms by (simp add: finish_packet_def tpkt_ensure_stream_consumed_def stream_simps)

lemma deliver_request:
  assumes "link env rdp env' rdp'" "r = Some (ok, rdp, Some t)" "length body \<le> 4071"
    "sent (message_enc rdp SEC_AUTODETECT_REQ (pdu_enc hl TYPE_ID_AUTODETECT_REQUEST n ty @ body)) t"
    "\<And>s. wf_stream s \<Longrightarrow> rest s = body \<Longrightarrow> \<exists>u. wf_stream u \<and> rest u = [] \<and>
       dispatch_autodetect_request env' (packet_counted (word_of_nat (10 + length body)) rdp') s
         \<lparr>req_headerLength = hl, req_headerTypeId = TYPE_ID_AUTODETECT_REQUEST, req_sequenceNumber = n, req_requestType = ty\<rparr> =
       Some ((success, rdp'', a), u)"
  shows "deliver r env' h rdp' = Some (rdp, if success then 0 else - 1, rdp'', a)"
proof -
  let ?b = "pdu_enc hl TYPE_ID_AUTODETECT_REQUEST n ty @ body" and ?s = "Stream_Seek (Stream_SetPosition t 0) 19"
  have "19 + length ?b < 0x8000" using assms(3) by simp
  note l = link_recv [OF assms(1,4) this]
  note q = request_rest [OF l(2,3)]
  have f: "SEC_AUTODETECT_REQ AND SEC_AUTODETECT_REQ \<noteq> 0" by (simp add: SEC_AUTODETECT_REQ_def)
  have "word_of_nat (4 + length ?b) = (word_of_nat (10 + length body) :: u16)" by simp
  note c = this
  obtain u where u: "wf_stream u" "rest u = []" "dispatch_autodetect_request env' (packet_counted (word_of_nat (10 + length body)) rdp') (Stream_Seek ?s 6)
         \<lparr>req_headerLength = hl, req_headerTypeId = TYPE_ID_AUTODETECT_REQUEST, req_sequenceNumber = n, req_requestType = ty\<rparr> =
       Some ((success, rdp'', a), u)"
    using assms(5) [OF pdu_header_rest(6,7) [OF l(2,3)]] by blast
  have "rdp_recv_tpkt_pdu env' h rdp' (Stream_SetPosition t 0) = Some ((if success then 0 else - 1, rdp'', a), u)"
    unfolding l(1) c rdp_recv_message_channel_pdu_def q u(3) using f by (simp add: int_result_def finish_consumed [OF u(1,2)])
  then show ?thesis by (simp add: deliver_def assms(2))
qed


lemma deliver_response:
  assumes "link env rdp env' rdp'" "r = Some (ok, rdp, Some t)" "length body \<le> 4071"
    "sent (message_enc rdp SEC_AUTODETECT_RSP (pdu_enc hl TYPE_ID_AUTODETECT_RESPONSE n ty @ body)) t"
    "\<And>s. wf_stream s \<Longrightarrow> rest s = body \<Longrightarrow> \<exists>u. wf_stream u \<and> rest u = [] \<and>
       dispatch_autodetect_response env' (packet_counted (word_of_nat (10 + length body)) rdp') s
         \<lparr>rsp_headerLength = hl, rsp_headerTypeId = TYPE_ID_AUTODETECT_RESPONSE, rsp_sequenceNumber = n, rsp_responseType = ty\<rparr> =
       Some ((success, rdp'', a), u)"
  shows "deliver r env' h rdp' = Some (rdp, if success then 0 else - 1, rdp'', a)"
proof -
  let ?b = "pdu_enc hl TYPE_ID_AUTODETECT_RESPONSE n ty @ body" and ?s = "Stream_Seek (Stream_SetPosition t 0) 19"
  have "19 + length ?b < 0x8000" using assms(3) by simp
  note l = link_recv [OF assms(1,4) this]
  have f: "SEC_AUTODETECT_RSP AND SEC_AUTODETECT_RSP \<noteq> 0" "SEC_AUTODETECT_RSP AND SEC_AUTODETECT_REQ = 0"
    by (simp_all add: SEC_AUTODETECT_REQ_def SEC_AUTODETECT_RSP_def)
  have c: "word_of_nat (4 + length ?b) = (word_of_nat (10 + length body) :: u16)" by simp
  obtain u where u: "wf_stream u" "rest u = []" "dispatch_autodetect_response env' (packet_counted (word_of_nat (10 + length body)) rdp') (Stream_Seek ?s 6)
         \<lparr>rsp_headerLength = hl, rsp_headerTypeId = TYPE_ID_AUTODETECT_RESPONSE, rsp_sequenceNumber = n, rsp_responseType = ty\<rparr> =
       Some ((success, rdp'', a), u)"
    using assms(5) [OF pdu_header_rest(6,7) [OF l(2,3)]] by blast
  have "rdp_recv_tpkt_pdu env' h rdp' (Stream_SetPosition t 0) = Some ((if success then 0 else - 1, rdp'', a), u)"
    unfolding l(1) c rdp_recv_message_channel_pdu_def response_rest [OF l(2,3)] u(3)
    using f by (simp add: int_result_def finish_consumed [OF u(1,2)])
  then show ?thesis by (simp add: deliver_def assms(2))
qed

definition netchar_received :: "rdpAutoDetect \<Rightarrow> rdpAutoDetect \<Rightarrow> rdpAutoDetect" where
  "netchar_received server a = (if netCharBandwidth server > 0
     then a\<lparr>netCharBaseRTT := netCharBaseRTT server, netCharBandwidth := netCharBandwidth server,
       netCharAverageRTT := netCharAverageRTT server\<rparr>
     else a\<lparr>netCharBaseRTT := netCharBaseRTT server, netCharAverageRTT := netCharAverageRTT server\<rparr>)"

lemma netchar_dispatch:
  assumes "wf_stream s" "rest s = drop 6 (netchar_enc a n)"
  shows "\<exists>u. wf_stream u \<and> rest u = [] \<and> dispatch_autodetect_request env rdp s
      \<lparr>req_headerLength = netchar_enc a n ! 0, req_headerTypeId = TYPE_ID_AUTODETECT_REQUEST, req_sequenceNumber = n,
        req_requestType = (if netCharBandwidth a > 0 then RDP_NETCHAR_RESULTS_0x08C0 else RDP_NETCHAR_RESULTS_0x0840)\<rparr> =
      Some ((fst (if_call_ret (NetworkCharacteristicsResult env) (set_autodetect (netchar_received a) rdp) n),
        snd (if_call_ret (NetworkCharacteristicsResult env) (set_autodetect (netchar_received a) rdp) n), None), u)"
proof (cases "netCharBandwidth a > 0")
  case True
  have r: "rest s = u32_enc (netCharBaseRTT a) @ u32_enc (netCharBandwidth a) @ u32_enc (netCharAverageRTT a)"
    using assms(2) True by (simp add: netchar_enc_def)
  have l: "avail s = 12" using length_rest [OF assms(1)] r by simp
  have 1: "Stream_Read_UINT32 s = Some (netCharBaseRTT a, Stream_Seek s 4)"
    "Stream_Read_UINT32 (Stream_Seek s 4) = Some (netCharBandwidth a, Stream_Seek s 8)"
    "Stream_Read_UINT32 (Stream_Seek s 8) = Some (netCharAverageRTT a, Stream_Seek s 12)"
    using Read_UINT32_at [OF assms(1), of 0] Read_UINT32_at [OF assms(1), of 4] Read_UINT32_at [OF assms(1), of 8 _ "[]"] r by simp_all
  have n: "netchar_enc a n ! 0 = 0x12" using True by (simp add: netchar_enc_def pdu_enc_def)
  have "rest (Stream_Seek s 12) = []" "wf_stream (Stream_Seek s 12)" using r l assms(1) by (simp_all add: stream_simps)
  then show ?thesis using True 1 l assms(1) n
    by (simp add: dispatch_autodetect_request_def autodetect_recv_netchar_result_def autodetect_types stream_simps netchar_received_def [abs_def] split_beta)
next
  case False
  have r: "rest s = u32_enc (netCharBaseRTT a) @ u32_enc (netCharAverageRTT a)"
    using assms(2) False by (simp add: netchar_enc_def)
  have l: "avail s = 8" using length_rest [OF assms(1)] r by simp
  have 1: "Stream_Read_UINT32 s = Some (netCharBaseRTT a, Stream_Seek s 4)"
    "Stream_Read_UINT32 (Stream_Seek s 4) = Some (netCharAverageRTT a, Stream_Seek s 8)"
    using Read_UINT32_at [OF assms(1), of 0] Read_UINT32_at [OF assms(1), of 4 _ "[]"] r by simp_all
  have n: "netchar_enc a n ! 0 = 0x0E" using False by (simp add: netchar_enc_def pdu_enc_def)
  have "rest (Stream_Seek s 8) = []" "wf_stream (Stream_Seek s 8)" using r l assms(1) by (simp_all add: stream_simps)
  then show ?thesis using False 1 l assms(1) n
    by (simp add: dispatch_autodetect_request_def autodetect_recv_netchar_result_def autodetect_types stream_simps netchar_received_def [abs_def] split_beta)
qed


lemma link_sym: "link env rdp env' rdp' \<longleftrightarrow> link env' rdp' env rdp"
  by (auto simp: link_def)

lemma packet_counted_side [simp]:
  "clear_side env (packet_counted n rdp) = clear_side env rdp" "ServerMode (packet_counted n rdp) = ServerMode rdp"
  "freerdp_shall_disconnect (packet_counted n rdp) = freerdp_shall_disconnect rdp"
  "\<not> bandwidthMeasureStarted (r_autodetect rdp) \<Longrightarrow> r_autodetect (packet_counted n rdp) = r_autodetect rdp"
  by (simp_all add: packet_counted_def set_autodetect_def clear_side_def freerdp_shall_disconnect_def)

lemma link_update [simp]:
  "link env (set_autodetect f rdp) env' rdp' = link env rdp env' rdp'"
  "link env rdp env' (set_autodetect f rdp') = link env rdp env' rdp'"
  "link env (packet_counted n rdp) env' rdp' = link env rdp env' rdp'"
  "link env rdp env' (packet_counted n rdp') = link env rdp env' rdp'"
  by (simp_all add: link_def)

section \<open>What the sides learn\<close>

text \<open>
  C22: The network characteristics that the server reports reach the client unchanged: delivered
  through the packet dispatcher of the client, the message sets its base and average round trip time
  to those of the server and, when the server has measured one, its bandwidth; then the client's
  callback decides the result.
\<close>

theorem autodetect_netchar_agreement:
  assumes "link senv srv cenv cli"
  shows "\<exists>k. deliver (autodetect_send_netchar_result senv srv n) cenv h cli =
    (let (success, cli') = if_call_ret (NetworkCharacteristicsResult cenv)
           (set_autodetect (netchar_received (r_autodetect srv)) (packet_counted k cli)) n
     in Some (srv, if success then 0 else - 1, cli', None))"
proof -
  let ?a = "r_autodetect srv"
  let ?ty = "if netCharBandwidth ?a > 0 then RDP_NETCHAR_RESULTS_0x08C0 else RDP_NETCHAR_RESULTS_0x0840"
  obtain t where t: "autodetect_send_netchar_result senv srv n = Some (\<not> env_write senv t < 0, srv, Some t)"
    "sent (message_enc srv SEC_AUTODETECT_REQ (netchar_enc ?a n)) t"
    using netchar_sent [of senv srv n] assms by (auto simp: link_def)
  have e: "netchar_enc ?a n = pdu_enc (netchar_enc ?a n ! 0) TYPE_ID_AUTODETECT_REQUEST n ?ty @ drop 6 (netchar_enc ?a n)"
    by (simp add: netchar_enc_def pdu_enc_def)
  have "length (drop 6 (netchar_enc ?a n)) \<le> 4071" by (simp add: netchar_enc_def)
  from deliver_request [OF assms t(1) this t(2) [unfolded arg_cong [OF e, of "message_enc srv SEC_AUTODETECT_REQ"]] netchar_dispatch]
  show ?thesis by (intro exI) (simp add: split_beta)
qed

theorem autodetect_netchar_agreement_witness:
  "\<exists>k. deliver (autodetect_send_netchar_result (example_env 0) (set_autodetect (netCharBandwidth_update (\<lambda>_. 800)) (example_rdp True)) 7)
      (example_env 0) example_handlers (example_rdp False) =
    (let (success, cli') = if_call_ret (NetworkCharacteristicsResult (example_env 0))
           (set_autodetect (netchar_received (r_autodetect (set_autodetect (netCharBandwidth_update (\<lambda>_. 800)) (example_rdp True))))
             (packet_counted k (example_rdp False))) 7
     in Some (set_autodetect (netCharBandwidth_update (\<lambda>_. 800)) (example_rdp True), if success then 0 else - 1, cli', None))"
  by (rule autodetect_netchar_agreement) (simp add: example_link)

text \<open>A round trip measurement: the request of the server, the answer of the client, its arrival at a later time.\<close>

definition rtt_exchange :: "'k env \<Rightarrow> 'k env \<Rightarrow> 'j env \<Rightarrow> 'k handlers \<Rightarrow> 'j handlers \<Rightarrow> 'k rdpRdp \<Rightarrow> 'j rdpRdp \<Rightarrow> u16 \<Rightarrow>
    (int \<times> int \<times> 'k rdpRdp \<times> 'j rdpRdp) option" where
  "rtt_exchange senv senv' cenv h h' srv cli n = do {
     (srv, rc, cli, a) \<leftarrow> deliver (autodetect_send_connecttime_rtt_measure_request senv srv n) cenv h' cli;
     (cli, rc', srv, b) \<leftarrow> deliver (Some (True, cli, a)) senv' h srv;
     Some (rc, rc', srv, cli) }"

definition rtt_measured :: "u64 \<Rightarrow> u64 \<Rightarrow> rdpAutoDetect \<Rightarrow> rdpAutoDetect" where
  "rtt_measured t0 t1 a = (let rtt = ucast (t1 - t0) in
     a\<lparr>rttMeasureStartTime := t0, netCharAverageRTT := rtt,
       netCharBaseRTT := (if netCharBaseRTT a = 0 \<or> netCharBaseRTT a > rtt then rtt else netCharBaseRTT a)\<rparr>)"

text \<open>
  C21: A round trip measurement completes: on a link that does not encrypt, the request of the server
  makes the client answer, the answer is accepted, and the server has then recorded the time that
  passed between sending and receiving as average, and as base if it is the shortest so far.
\<close>

theorem autodetect_rtt_exchange:
  assumes "link senv srv cenv cli" "link senv' srv cenv cli" "\<And>t. 0 \<le> env_write cenv t" "RTTMeasureResponse senv' = None"
    "\<not> bandwidthMeasureStarted (r_autodetect srv)"
  shows "rtt_exchange senv senv' cenv h h' srv cli n = Some (0, 0,
    (set_autodetect (rtt_measured (env_ticks senv) (env_ticks senv')) srv)\<lparr>inPackets := inPackets srv + 1\<rparr>, packet_counted 10 cli)"
proof -
  let ?srv = "set_autodetect (rttMeasureStartTime_update (\<lambda>_. env_ticks senv)) srv" and ?cli = "packet_counted 10 cli"
  let ?ty = RDP_RTT_REQUEST_TYPE_CONNECTTIME
  obtain t where t: "autodetect_send_connecttime_rtt_measure_request senv srv n = Some (\<not> env_write senv t < 0, ?srv, Some t)"
    "sent (message_enc ?srv SEC_AUTODETECT_REQ (pdu_enc 6 TYPE_ID_AUTODETECT_REQUEST n ?ty @ [])) t"
    using rtt_request_sent [of senv srv n ?ty] assms(1) by (auto simp: link_def autodetect_send_connecttime_rtt_measure_request_def)
  obtain t' where t': "autodetect_send_rtt_measure_response cenv ?cli n = Some (\<not> env_write cenv t' < 0, ?cli, Some t')"
    "sent (message_enc ?cli SEC_AUTODETECT_RSP (pdu_enc 6 TYPE_ID_AUTODETECT_RESPONSE n RDP_RTT_RESPONSE_TYPE @ [])) t'"
    using rtt_response_sent [of cenv ?cli n] assms(1) by (auto simp: link_def)
  have 1: "deliver (autodetect_send_connecttime_rtt_measure_request senv srv n) cenv h' cli = Some (?srv, if True then 0 else - 1, ?cli, Some t')"
    using assms(1,3) t'(1)
    by (intro deliver_request [OF _ t(1) _ t(2)])
       (auto simp: dispatch_autodetect_request_def autodetect_recv_rtt_measure_request_def answer_with_def not_less)
  have l: "link cenv ?cli senv' ?srv" using assms(2) by (simp add: link_sym [of cenv])
  have 2: "deliver (Some (True, ?cli, Some t')) senv' h ?srv = Some (?cli, if True then 0 else - 1,
      (set_autodetect (rtt_measured (env_ticks senv) (env_ticks senv')) srv)\<lparr>inPackets := inPackets srv + 1\<rparr>, None)"
    using assms(4,5)
    by (intro deliver_response [OF l refl _ t'(2)])
       (auto simp: dispatch_autodetect_response_def autodetect_recv_rtt_measure_response_def if_call_ret_def
         packet_counted_def set_autodetect_def rtt_measured_def Let_def)
  show ?thesis using 1 2 by (simp add: rtt_exchange_def)
qed

theorem autodetect_rtt_exchange_witness:
  "rtt_exchange (example_env 100) (example_env 130) (example_env 0) example_handlers example_handlers (example_rdp True) (example_rdp False) 7 =
    Some (0, 0, (set_autodetect (rtt_measured 100 130) (example_rdp True))\<lparr>inPackets := inPackets (example_rdp True) + 1\<rparr>,
      packet_counted 10 (example_rdp False))"
  using autodetect_rtt_exchange [of "example_env 100" "example_rdp True" "example_env 0" "example_rdp False" "example_env 130"
      example_handlers example_handlers 7]
  by (simp add: example_link example_side)

text \<open>The measured bandwidth: the bytes in bits, a 32-bit product, over the time.\<close>

definition bandwidth_of :: "u32 \<Rightarrow> u32 \<Rightarrow> u32" where
  "bandwidth_of bytes delta = (if delta > 0 then ucast ((ucast (bytes * 8) :: u64) div ucast delta) else 0)"

definition bytes_of :: "u16 list \<Rightarrow> u32" where
  "bytes_of ps = sum_list (map (\<lambda>p. ucast (aligned p)) ps)"

fun payload_exchange :: "'k env \<Rightarrow> 'j env \<Rightarrow> 'j handlers \<Rightarrow> 'k rdpRdp \<Rightarrow> 'j rdpRdp \<Rightarrow> u16 \<Rightarrow> u16 list \<Rightarrow> ('k rdpRdp \<times> 'j rdpRdp) option" where
  "payload_exchange senv cenv h srv cli n [] = Some (srv, cli)"
| "payload_exchange senv cenv h srv cli n (p # ps) = do {
     (srv, rc, cli, a) \<leftarrow> deliver (autodetect_send_bandwidth_measure_payload senv srv p n) cenv h cli;
     (if rc = 0 then payload_exchange senv cenv h srv cli n ps else None) }"

definition bandwidth_exchange :: "'k env \<Rightarrow> 'j env \<Rightarrow> 'j env \<Rightarrow> 'k handlers \<Rightarrow> 'j handlers \<Rightarrow> 'k rdpRdp \<Rightarrow> 'j rdpRdp \<Rightarrow>
    u16 \<Rightarrow> u16 list \<Rightarrow> u16 \<Rightarrow> (int \<times> int \<times> int \<times> 'k rdpRdp \<times> 'j rdpRdp) option" where
  "bandwidth_exchange senv cenv cenv' h h' srv cli n ps p = do {
     (srv, rc, cli, _) \<leftarrow> deliver (autodetect_send_connecttime_bandwidth_measure_start senv srv n) cenv h' cli;
     (srv, cli) \<leftarrow> payload_exchange senv cenv h' srv cli n ps;
     (srv, rc', cli, a) \<leftarrow> deliver (autodetect_send_connecttime_bandwidth_measure_stop senv srv p n) cenv' h' cli;
     (cli, rc'', srv, _) \<leftarrow> deliver (Some (True, cli, a)) senv h srv;
     Some (rc, rc', rc'', srv, cli) }"

definition counted_cli :: "u64 \<Rightarrow> u32 \<Rightarrow> u64 \<Rightarrow> 'k rdpRdp \<Rightarrow> 'k rdpRdp" where
  "counted_cli start bytes k cli = (set_autodetect (\<lambda>a. a\<lparr>bandwidthMeasureStartTime := start, bandwidthMeasureByteCount := bytes\<rparr>) cli)
     \<lparr>inPackets := inPackets cli + k\<rparr>"

lemma counted_cli_simps [simp]:
  "link env rdp env' (counted_cli start bytes k cli) = link env rdp env' cli"
  "link env' (counted_cli start bytes k cli) env rdp = link env' cli env rdp"
  "bandwidthMeasureStarted (r_autodetect (counted_cli start bytes k cli)) = bandwidthMeasureStarted (r_autodetect cli)"
  by (simp_all add: counted_cli_def link_def clear_side_def set_autodetect_def freerdp_shall_disconnect_def)

lemma payload_dispatch:
  assumes "wf_stream s" "rest s = u16_enc p @ random_bytes senv (unat p)"
  shows "\<exists>u. wf_stream u \<and> rest u = [] \<and> dispatch_autodetect_request env rdp s
      \<lparr>req_headerLength = 8, req_headerTypeId = ty, req_sequenceNumber = n, req_requestType = RDP_BW_PAYLOAD_REQUEST_TYPE\<rparr> =
      Some ((True, set_autodetect (\<lambda>a. a\<lparr>bandwidthMeasureByteCount := bandwidthMeasureByteCount a + ucast p\<rparr>) rdp, None), u)"
proof -
  have l: "avail s = 2 + unat p" using length_rest [OF assms(1)] assms(2) by simp
  have "Stream_Read_UINT16 s = Some (p, Stream_Seek s 2)" using Read_UINT16_at [OF assms(1), of 0] assms(2) by (simp add: numeral_2_eq_2)
  moreover have "wf_stream (Stream_Seek s (2 + unat p))" "rest (Stream_Seek s (2 + unat p)) = []"
    using assms l by (simp_all add: stream_simps)
  ultimately show ?thesis using l assms(1)
    by (simp add: dispatch_autodetect_request_def autodetect_recv_bandwidth_measure_payload_def autodetect_types stream_simps)
qed

lemma payload_delivered:
  assumes "link senv srv cenv cli" "unat (aligned p) \<le> 4069" "\<And>n. env_malloc senv n \<noteq> None" "\<not> bandwidthMeasureStarted (r_autodetect cli)"
  shows "deliver (autodetect_send_bandwidth_measure_payload senv srv p n) cenv h (counted_cli start bytes k cli) =
    Some (srv, 0, counted_cli start (bytes + ucast (aligned p)) (k + 1) cli, None)"
proof -
  obtain t where t: "autodetect_send_bandwidth_measure_payload senv srv p n = Some (\<not> env_write senv t < 0, srv, Some t)"
    "sent (message_enc srv SEC_AUTODETECT_REQ (pdu_enc 8 TYPE_ID_AUTODETECT_REQUEST n RDP_BW_PAYLOAD_REQUEST_TYPE @
       u16_enc (aligned p) @ random_bytes senv (unat (aligned p)))) t"
    using payload_sent [of senv srv p n] assms(1-3) by (auto simp: link_def payload_enc_def)
  have "link senv srv cenv (counted_cli start bytes k cli)" using assms(1) by simp
  then have "deliver (autodetect_send_bandwidth_measure_payload senv srv p n) cenv h (counted_cli start bytes k cli) =
      Some (srv, if True then 0 else - 1, set_autodetect (\<lambda>a. a\<lparr>bandwidthMeasureByteCount :=
        bandwidthMeasureByteCount a + ucast (aligned p)\<rparr>) (packet_counted (word_of_nat (10 + length (u16_enc (aligned p) @
        random_bytes senv (unat (aligned p))))) (counted_cli start bytes k cli)), None)"
    using assms(2) by (intro deliver_request [OF _ t(1) _ t(2) payload_dispatch]) simp_all
  then show ?thesis using assms(4) by (simp add: packet_counted_def counted_cli_def set_autodetect_def add.assoc)
qed

lemma payload_exchange_counts:
  assumes "link senv srv cenv cli" "\<And>p. p \<in> set ps \<Longrightarrow> unat (aligned p) \<le> 4069" "\<And>n. env_malloc senv n \<noteq> None"
    "\<not> bandwidthMeasureStarted (r_autodetect cli)"
  shows "payload_exchange senv cenv h srv (counted_cli start bytes k cli) n ps =
    Some (srv, counted_cli start (bytes + bytes_of ps) (k + of_nat (length ps)) cli)"
  using assms(2)
proof (induction ps arbitrary: bytes k)
  case (Cons p ps)
  then show ?case using payload_delivered [OF assms(1) _ assms(3,4), of p n h start bytes k]
    by (simp add: bytes_of_def add.assoc)
qed (simp add: bytes_of_def)

lemma start_dispatch:
  "dispatch_autodetect_request env rdp s
      \<lparr>req_headerLength = 6, req_headerTypeId = ty, req_sequenceNumber = n, req_requestType = RDP_BW_START_REQUEST_TYPE_CONNECTTIME\<rparr> =
    Some ((True, set_autodetect (\<lambda>a. a\<lparr>bandwidthMeasureStartTime := env_ticks env, bandwidthMeasureByteCount := 0\<rparr>) rdp, None), s)"
  by (simp add: dispatch_autodetect_request_def autodetect_recv_bandwidth_measure_start_def autodetect_types)

lemma stop_dispatch:
  assumes "wf_stream s" "rest s = u16_enc p @ random_bytes senv (unat p)"
    "autodetect_send_bandwidth_measure_results env
       (set_autodetect (\<lambda>a. a\<lparr>bandwidthMeasureByteCount := bandwidthMeasureByteCount a + ucast p\<rparr>) rdp)
       RDP_BW_RESULTS_RESPONSE_TYPE_CONNECTTIME n = Some r"
  shows "\<exists>u. wf_stream u \<and> rest u = [] \<and> dispatch_autodetect_request env rdp s
      \<lparr>req_headerLength = 8, req_headerTypeId = ty, req_sequenceNumber = n, req_requestType = RDP_BW_STOP_REQUEST_TYPE_CONNECTTIME\<rparr> =
      Some (r, u)"
proof -
  have l: "avail s = 2 + unat p" using length_rest [OF assms(1)] assms(2) by simp
  have "Stream_Read_UINT16 s = Some (p, Stream_Seek s 2)" using Read_UINT16_at [OF assms(1), of 0] assms(2) by (simp add: numeral_2_eq_2)
  moreover have "wf_stream (Stream_Seek s (2 + unat p))" "rest (Stream_Seek s (2 + unat p)) = []"
    using assms l by (simp_all add: stream_simps)
  ultimately show ?thesis using l assms(1,3)
    by (simp add: dispatch_autodetect_request_def autodetect_recv_bandwidth_measure_stop_def autodetect_types stream_simps answer_with_def)
qed

lemma results_dispatch:
  assumes "wf_stream s" "rest s = u32_enc delta @ u32_enc bytes"
  shows "\<exists>u. wf_stream u \<and> rest u = [] \<and> dispatch_autodetect_response env rdp s
      \<lparr>rsp_headerLength = 0x0E, rsp_headerTypeId = ty, rsp_sequenceNumber = n, rsp_responseType = RDP_BW_RESULTS_RESPONSE_TYPE_CONNECTTIME\<rparr> =
      Some ((fst (if_call_ret (BandwidthMeasureResults env) (set_autodetect (\<lambda>a. a\<lparr>bandwidthMeasureTimeDelta := ucast delta,
          bandwidthMeasureByteCount := bytes, netCharBandwidth := bandwidth_of bytes delta\<rparr>) rdp) n),
        snd (if_call_ret (BandwidthMeasureResults env) (set_autodetect (\<lambda>a. a\<lparr>bandwidthMeasureTimeDelta := ucast delta,
          bandwidthMeasureByteCount := bytes, netCharBandwidth := bandwidth_of bytes delta\<rparr>) rdp) n), None), u)"
proof -
  have l: "avail s = 8" using length_rest [OF assms(1)] assms(2) by simp
  have 1: "Stream_Read_UINT32 s = Some (delta, Stream_Seek s 4)"
    "Stream_Read_UINT32 (Stream_Seek s 4) = Some (bytes, Stream_Seek s 8)"
    using Read_UINT32_at [OF assms(1), of 0] Read_UINT32_at [OF assms(1), of 4 _ "[]"] assms(2) by simp_all
  have d: "(ucast delta :: u64) > 0 \<longleftrightarrow> delta > 0"
    by (simp add: word_less_nat_alt unsigned_ucast_eq take_bit_nat_eq_self [OF less_trans [OF unsigned_less [of delta]]])
  have "rest (Stream_Seek s 8) = []" "wf_stream (Stream_Seek s 8)" using assms l by (simp_all add: stream_simps)
  then show ?thesis using 1 l assms(1)
    by (simp add: dispatch_autodetect_response_def autodetect_recv_bandwidth_measure_results_def autodetect_types stream_simps
        split_beta comp_def bandwidth_of_def d Let_def)
qed

text \<open>
  C20: A bandwidth measurement at connection time completes: after the start request, any sequence of
  payloads and the stop request, the client has counted exactly the payload bytes, each length
  rounded down to a multiple of four, and the server has received that count, the time the client
  took, and computed the bandwidth from them.
\<close>

theorem autodetect_bandwidth_exchange:
  assumes l: "link senv srv cenv cli" "link senv srv cenv' cli"
    and p: "\<And>q. q \<in> set (p # ps) \<Longrightarrow> unat (aligned q) \<le> 4069" and m: "\<And>n. env_malloc senv n \<noteq> None"
    and w: "\<And>t. 0 \<le> env_write cenv' t"
    and cb: "ClientBandwidthMeasureResult cenv' = None" "BandwidthMeasureResults senv = None"
    and i: "\<not> bandwidthMeasureStarted (r_autodetect cli)" "\<not> bandwidthMeasureStarted (r_autodetect srv)"
  shows "bandwidth_exchange senv cenv cenv' h h' srv cli n ps p = Some (0, 0, 0,
    (let bytes = bytes_of (p # ps); delta = ucast (env_ticks cenv' - env_ticks cenv) in
     set_autodetect (\<lambda>a. a\<lparr>bandwidthMeasureTimeDelta := ucast delta, bandwidthMeasureByteCount := bytes,
        netCharBandwidth := bandwidth_of bytes delta\<rparr>) (srv\<lparr>inPackets := inPackets srv + 1\<rparr>)),
    counted_cli (env_ticks cenv) (bytes_of (p # ps)) (2 + of_nat (length ps)) cli)"
proof -
  let ?start = "env_ticks cenv" and ?k = "1 + of_nat (length ps) :: u64"
  let ?c1 = "counted_cli ?start 0 1 cli" and ?c2 = "counted_cli ?start (bytes_of ps) ?k cli"
  let ?c3 = "counted_cli ?start (bytes_of (p # ps)) (2 + of_nat (length ps)) cli"
  let ?delta = "ucast (env_ticks cenv' - ?start) :: u32"
  obtain t where t: "autodetect_send_connecttime_bandwidth_measure_start senv srv n = Some (\<not> env_write senv t < 0, srv, Some t)"
    "sent (message_enc srv SEC_AUTODETECT_REQ (pdu_enc 6 TYPE_ID_AUTODETECT_REQUEST n RDP_BW_START_REQUEST_TYPE_CONNECTTIME @ [])) t"
    using bandwidth_start_sent [of senv srv n] l(1) by (auto simp: link_def autodetect_send_connecttime_bandwidth_measure_start_def)
  have 1: "deliver (autodetect_send_connecttime_bandwidth_measure_start senv srv n) cenv h' cli =
      Some (srv, if True then 0 else - 1, ?c1, None)"
    using i(1) by (intro deliver_request [OF l(1) t(1) _ t(2)])
      (auto simp: start_dispatch packet_counted_def counted_cli_def set_autodetect_def)
  have 2: "payload_exchange senv cenv h' srv ?c1 n ps = Some (srv, ?c2)"
    using payload_exchange_counts [OF l(1) p m i(1), of ps h' ?start 0 1 n] by simp
  obtain t' where t': "autodetect_send_connecttime_bandwidth_measure_stop senv srv p n = Some (\<not> env_write senv t' < 0, srv, Some t')"
    "sent (message_enc srv SEC_AUTODETECT_REQ (pdu_enc 8 TYPE_ID_AUTODETECT_REQUEST n RDP_BW_STOP_REQUEST_TYPE_CONNECTTIME @
       u16_enc (aligned p) @ random_bytes senv (unat (aligned p)))) t'"
    using stop_sent [of senv srv p n] l(1) p m by (auto simp: link_def payload_enc_def)
  obtain t'' where t'': "autodetect_send_bandwidth_measure_results cenv' ?c3 RDP_BW_RESULTS_RESPONSE_TYPE_CONNECTTIME n =
      Some (True, ?c3, Some t'')"
    "sent (message_enc ?c3 SEC_AUTODETECT_RSP (pdu_enc 0x0E TYPE_ID_AUTODETECT_RESPONSE n RDP_BW_RESULTS_RESPONSE_TYPE_CONNECTTIME @
        u32_enc ?delta @ u32_enc (bytes_of (p # ps)))) t''"
  proof -
    have "clear_side cenv' ?c3" using l(2) counted_cli_simps(1) [of senv srv cenv'] unfolding link_def by blast
    then show ?thesis using that bandwidth_results_sent [of cenv' ?c3 RDP_BW_RESULTS_RESPONSE_TYPE_CONNECTTIME n] cb(1) w
      by (auto simp: counted_cli_def set_autodetect_def not_less)
  qed
  let ?b = "u16_enc (aligned p) @ random_bytes senv (unat (aligned p))"
  have c3: "set_autodetect (\<lambda>a. a\<lparr>bandwidthMeasureByteCount := bandwidthMeasureByteCount a + ucast (aligned p)\<rparr>)
      (packet_counted (word_of_nat (10 + length ?b)) ?c2) = ?c3"
    using i(1) by (simp add: packet_counted_def counted_cli_def set_autodetect_def bytes_of_def ac_simps)
  have 3: "deliver (autodetect_send_connecttime_bandwidth_measure_stop senv srv p n) cenv' h' ?c2 =
      Some (srv, if True then 0 else - 1, ?c3, Some t'')"
  proof (rule deliver_request [OF _ t'(1) _ t'(2)])
    fix s assume "wf_stream s" "rest s = ?b"
    then show "\<exists>u. wf_stream u \<and> rest u = [] \<and> dispatch_autodetect_request cenv' (packet_counted (word_of_nat (10 + length ?b)) ?c2) s
        \<lparr>req_headerLength = 8, req_headerTypeId = TYPE_ID_AUTODETECT_REQUEST, req_sequenceNumber = n,
          req_requestType = RDP_BW_STOP_REQUEST_TYPE_CONNECTTIME\<rparr> = Some ((True, ?c3, Some t''), u)"
      by (rule stop_dispatch) (simp only: c3 t''(1))
  qed (use l(2) p [of p] in simp_all)
  have l4: "link cenv' ?c3 senv srv" using l(2) by (simp add: link_sym [of cenv'])
  have 4: "deliver (Some (True, ?c3, Some t'')) senv h srv = Some (?c3, if True then 0 else - 1,
      set_autodetect (\<lambda>a. a\<lparr>bandwidthMeasureTimeDelta := ucast ?delta, bandwidthMeasureByteCount := bytes_of (p # ps),
        netCharBandwidth := bandwidth_of (bytes_of (p # ps)) ?delta\<rparr>) (srv\<lparr>inPackets := inPackets srv + 1\<rparr>), None)"
  proof (rule deliver_response [OF l4 refl _ t''(2)])
    fix s assume "wf_stream s" "rest s = u32_enc ?delta @ u32_enc (bytes_of (p # ps))"
    note results_dispatch [OF this, of senv "packet_counted k srv" TYPE_ID_AUTODETECT_RESPONSE n for k]
    then show "\<exists>u. wf_stream u \<and> rest u = [] \<and> dispatch_autodetect_response senv
        (packet_counted (word_of_nat (10 + length (u32_enc ?delta @ u32_enc (bytes_of (p # ps))))) srv) s
        \<lparr>rsp_headerLength = 0x0E, rsp_headerTypeId = TYPE_ID_AUTODETECT_RESPONSE, rsp_sequenceNumber = n,
          rsp_responseType = RDP_BW_RESULTS_RESPONSE_TYPE_CONNECTTIME\<rparr> = Some ((True,
        set_autodetect (\<lambda>a. a\<lparr>bandwidthMeasureTimeDelta := ucast ?delta, bandwidthMeasureByteCount := bytes_of (p # ps),
          netCharBandwidth := bandwidth_of (bytes_of (p # ps)) ?delta\<rparr>) (srv\<lparr>inPackets := inPackets srv + 1\<rparr>), None), u)"
      using i(2) cb(2) by (simp add: if_call_ret_def packet_counted_def set_autodetect_def)
  qed simp
  show ?thesis using 1 2 3 4 by (simp add: bandwidth_exchange_def Let_def)
qed

theorem autodetect_bandwidth_exchange_witness:
  "bandwidth_exchange (example_env 0) (example_env 100) (example_env 130) example_handlers example_handlers
      (example_rdp True) (example_rdp False) 7 [1000, 2003] 6 =
    Some (0, 0, 0, (let bytes = bytes_of [6, 1000, 2003]; delta = ucast ((130 :: u64) - 100) in
     set_autodetect (\<lambda>a. a\<lparr>bandwidthMeasureTimeDelta := ucast delta, bandwidthMeasureByteCount := bytes,
        netCharBandwidth := bandwidth_of bytes delta\<rparr>) ((example_rdp True)\<lparr>inPackets := inPackets (example_rdp True) + 1\<rparr>)),
     counted_cli 100 (bytes_of [6, 1000, 2003]) (2 + of_nat (length [1000, 2003 :: u16])) (example_rdp False))"
proof -
  have "unat (aligned q) \<le> 4069" if "q \<in> set [6, 1000, 2003]" for q using that by (auto simp: aligned_def)
  then show ?thesis
    using autodetect_bandwidth_exchange [of "example_env 0" "example_rdp True" "example_env 100" "example_rdp False" "example_env 130" 6
        "[1000, 2003]" example_handlers example_handlers 7]
    by (simp add: example_link example_side zero_malloc_def)
qed

section \<open>Faults of the results message\<close>

definition results_pdu :: "u16 \<Rightarrow> u16 \<Rightarrow> AUTODETECT_RSP_PDU" where
  "results_pdu n ty = \<lparr>rsp_headerLength = 0x0E, rsp_headerTypeId = TYPE_ID_AUTODETECT_RESPONSE, rsp_sequenceNumber = n, rsp_responseType = ty\<rparr>"

text \<open>
  Two faults of the receiver of bandwidth results: a message cut off behind its header is
  accepted without an effect, because \<open>-1\<close> is returned as a \<^verbatim>\<open>BOOL\<close>; and the number of bits is
  computed in 32 bits, so a client that counted 512 megabytes is reported with bandwidth zero.
\<close>

lemma autodetect_results_defects:
  "autodetect_recv_bandwidth_measure_results env rdp (Stream_StaticInit []) (results_pdu n ty) =
     Some ((True, rdp, None), Stream_StaticInit []) \<and>
   run_ok (autodetect_recv_bandwidth_measure_results (env\<lparr>BandwidthMeasureResults := None\<rparr>) rdp
      (Stream_StaticInit (u32_enc delta @ u32_enc 0x20000000)) (results_pdu n ty))
     (\<lambda>(success, rdp', a) s. success \<and> netCharBandwidth (r_autodetect rdp') = 0)"
proof -
  let ?s = "Stream_StaticInit (u32_enc delta @ u32_enc 0x20000000)"
  have w: "wf_stream ?s" "rest ?s = u32_enc delta @ u32_enc 0x20000000" by simp_all
  have a: "avail ?s = 8" using length_rest [OF w(1)] w(2) by simp
  have 1: "Stream_Read_UINT32 ?s = Some (delta, Stream_Seek ?s 4)"
    "Stream_Read_UINT32 (Stream_Seek ?s 4) = Some (0x20000000, Stream_Seek ?s 8)"
    using Read_UINT32_at [OF w(1), of 0] Read_UINT32_at [OF w(1), of 4 _ "[]"] w(2) by simp_all
  have e: "wf_stream (Stream_StaticInit [])" "avail (Stream_StaticInit []) = 0"
    using length_rest [of "Stream_StaticInit []"] by simp_all
  show ?thesis using w(1) a e
    by (simp add: autodetect_recv_bandwidth_measure_results_def results_pdu_def 1 remaining_length if_call_ret_def Let_def)
qed

end
