(* ===== verification/Packet_Dispatch.thy ===== *)
theory Packet_Dispatch
  imports Autodetect_Exchange
begin

text \<open>
  No packet makes the receiver leave its buffers or loop: \<^verbatim>\<open>rdp_recv_tpkt_pdu\<close> is followed through the
  dispatcher, the loop over the share PDUs, the message channel and the decryption. PDUs that other
  modules handle (updates, the activation sequence, session information, redirection, virtual channels)
  go to arguments of the model; results about them are relative to these handlers, and \<open>own_pdus\<close>
  singles out the packets that need none of them.
\<close>

section \<open>Every packet is handled\<close>

text \<open>What the dispatcher relies on: the functions of the other modules stay in the stream they are given.\<close>

definition handlers_safe :: "'k handlers \<Rightarrow> bool" where
  "handlers_safe h \<longleftrightarrow> (\<forall>rdp. safe_reader (call_update_recv h rdp) \<and> safe_reader (rdp_recv_server_control_pdu h rdp) \<and>
     safe_reader (call_update_recv_pointer h rdp) \<and> safe_reader (rdp_recv_synchronize_pdu h rdp) \<and>
     safe_reader (call_update_recv_play_sound h rdp) \<and> safe_reader (rdp_recv_save_session_info h rdp) \<and>
     safe_reader (rdp_recv_font_map_pdu h rdp) \<and> safe_reader (rdp_recv_deactivate_all h rdp) \<and>
     safe_reader (rdp_recv_redirection_packet h rdp) \<and> (\<forall>ch n. safe_reader (freerdp_channel_process h ch n rdp)))"

lemma safe_plain_handlers:
  "safe_reader (rdp_recv_server_shutdown_denied_pdu rdp)" "safe_reader (rdp_recv_server_set_keyboard_indicators_pdu h rdp)"
  "safe_reader (rdp_recv_server_set_keyboard_ime_status_pdu h rdp)" "safe_reader (rdp_recv_set_error_info_data_pdu rdp)"
  "safe_reader (rdp_recv_server_auto_reconnect_status_pdu rdp)" "safe_reader (rdp_recv_server_status_info_pdu h rdp)"
  "safe_reader (rdp_recv_heartbeat_packet h rdp)" "safe_reader (rdp_recv_multitransport_packet rdp)"
  by (rule safe_readerI, simp add: rdp_recv_server_shutdown_denied_pdu_def rdp_recv_server_set_keyboard_indicators_pdu_def
      rdp_recv_server_set_keyboard_ime_status_pdu_def rdp_recv_set_error_info_data_pdu_def
      rdp_recv_server_auto_reconnect_status_pdu_def rdp_recv_server_status_info_pdu_def rdp_recv_heartbeat_packet_def
      rdp_recv_multitransport_packet_def stream_simps split_beta Let_def)+

lemma read_monitors_run:
  "wf_stream s \<Longrightarrow> 20 * n \<le> avail s \<Longrightarrow> \<exists>ms. read_monitors n s = Some (ms, Stream_Seek s (20 * n)) \<and> length ms = n"
proof (induction n arbitrary: s)
  case (Suc n)
  have "\<exists>ms. read_monitors n (Stream_Seek s 20) = Some (ms, Stream_Seek (Stream_Seek s 20) (20 * n)) \<and> length ms = n"
    using Suc.prems by (intro Suc.IH) (simp_all add: stream_simps)
  then show ?case using Suc.prems by (auto simp: stream_simps)
qed simp

lemma safe_monitor_layout: "safe_reader (rdp_recv_monitor_layout_pdu malloc h rdp)"
proof (rule safe_readerI)
  fix s assume w: "wf_stream s"
  have "run_ok (read_monitors n (Stream_Seek s 4)) (\<lambda>_. consumed s)" if d: "n \<le> (avail s - 4) div 20" and a: "4 \<le> avail s" for n
  proof -
    have n: "20 * n \<le> avail s - 4" using d by (simp add: less_eq_div_iff_mult_less_eq mult.commute)
    obtain ms where "read_monitors n (Stream_Seek s 4) = Some (ms, Stream_Seek (Stream_Seek s 4) (20 * n))"
      using read_monitors_run [of "Stream_Seek s 4" n] w n a by (auto simp: stream_simps)
    then show ?thesis using n a by (simp add: consumed_Seek)
  qed
  then show "run_ok (rdp_recv_monitor_layout_pdu malloc h rdp s) (\<lambda>_. consumed s)"
    using w by (auto simp: rdp_recv_monitor_layout_pdu_def stream_simps run_ok_bind not_less split: option.splits)
qed

text \<open>The data PDUs that go to other modules; all other types are handled in \<^verbatim>\<open>rdp.c\<close> or ignored.\<close>

definition delegated_types :: "byte set" where
  "delegated_types = {DATA_PDU_TYPE_UPDATE, DATA_PDU_TYPE_CONTROL, DATA_PDU_TYPE_POINTER, DATA_PDU_TYPE_SYNCHRONIZE,
     DATA_PDU_TYPE_PLAY_SOUND, DATA_PDU_TYPE_SAVE_SESSION_INFO, DATA_PDU_TYPE_FONT_MAP}"

lemma safe_dispatch_data_pdu:
  assumes "ty \<notin> delegated_types \<or> handlers_safe h"
  shows "safe_reader (dispatch_data_pdu malloc h ty rdp)"
  using assms
proof
  assume "handlers_safe h"
  then show ?thesis unfolding dispatch_data_pdu_def [abs_def] handlers_safe_def
    by (intro safe_if safe_return) (simp_all add: safe_plain_handlers safe_monitor_layout)
next
  assume "ty \<notin> delegated_types"
  then show ?thesis unfolding dispatch_data_pdu_def [abs_def] delegated_types_def
    by (simp cong: if_cong, intro safe_if safe_return) (simp_all add: safe_plain_handlers safe_monitor_layout)
qed

lemma safe_share_headers: "safe_reader rdp_read_share_data_header" "safe_reader (\<lambda>s. rdp_read_security_header s n)"
  by (rule safe_readerI, auto simp: rdp_read_share_data_header_def rdp_read_security_header_def stream_simps)+

lemma share_data_header_type:
  "rdp_read_share_data_header s = Some (Some (len, ty, sh, ct, n), t) \<Longrightarrow> wf_stream s \<Longrightarrow> ty = rest s ! 8"
  by (auto simp: rdp_read_share_data_header_def stream_simps split: if_splits)

lemma decompressed_stream_ok:
  assumes "pool_ok pool" "wf_stream s"
  shows "run_ok (decompressed_stream pool h ct n rdp s) (\<lambda>(cs, rdp') s'. consumed s s' \<and> (case cs of None \<Rightarrow> True | Some cs \<Rightarrow> wf_stream cs))"
proof -
  have "\<exists>cs'. Stream_Write (Stream_SetPosition cs 0) bs = Some cs' \<and>
      wf_stream (Stream_SetPosition (Stream_SealLength cs') 0)" if "pool (length bs) = Some cs" for cs bs
  proof -
    have "wf_cap (Stream_SetPosition cs 0)" "length bs \<le> room (Stream_SetPosition cs 0)"
      using assms(1) [unfolded pool_ok_def, rule_format, OF that]
      by (auto simp: wf_cap_def Stream_SetPosition_def room_def)
    then show ?thesis
      by (auto simp: Write_put put_def Stream_SetPosition_def Stream_SealLength_def wf_stream_def wf_cap_def room_def)
  qed
  note cs = this
  show ?thesis using assms(2)
    by (auto simp: decompressed_stream_def stream_simps split_beta Let_def not_less split: option.splits dest!: cs)
qed

lemma recv_data_pdu_run:
  assumes "rest s ! 8 \<notin> delegated_types \<or> handlers_safe h" "pool_ok pool" "wf_stream s"
  shows "run_ok (rdp_recv_data_pdu malloc pool h rdp s) (\<lambda>_. consumed s)"
proof -
  let ?ty = "rest s ! 8"
  note d = safe_readerD [OF safe_dispatch_data_pdu [OF assms(1)]]
  obtain r t where h: "rdp_read_share_data_header s = Some (r, t)" and 1: "consumed s t" "wf_stream t"
    using safe_readerD [OF safe_share_headers(1) assms(3)] consumed_wf [OF assms(3)] by (auto elim: run_okE)
  show ?thesis
  proof -
    have plain: "run_ok (dispatch_data_pdu malloc h ?ty rdp t) (\<lambda>_ s'. consumed s s')"
      using d [OF 1(2)] by (rule run_ok_mono) (use consumed_trans [OF 1(1)] in blast)
    have dec: "run_ok (decompressed_stream pool h ct n rdp t) (\<lambda>(cs, rdp') s'. consumed s s' \<and>
        (case cs of None \<Rightarrow> True | Some cs \<Rightarrow> run_ok (dispatch_data_pdu malloc h ?ty rdp' cs) (\<lambda>_ _. True)))" for ct n
      using decompressed_stream_ok [OF assms(2) 1(2)]
      by (rule run_ok_mono) (use consumed_trans [OF 1(1)] run_ok_mono [OF d] in \<open>auto split: option.splits\<close>)
    have cont: "run_ok (do { ((ok, rdp), cs) \<leftarrow> m; Some ((f ok, rdp), s') }) (\<lambda>_. consumed s) \<longleftrightarrow> run_ok m (\<lambda>_ _. consumed s s')"
      "run_ok (do { ((ok, rdp), s) \<leftarrow> m; Some ((f ok, rdp), s) }) (\<lambda>_. consumed s) \<longleftrightarrow> run_ok m (\<lambda>_. consumed s)"
      for m :: "((bool \<times> 'a rdpRdp) \<times> wStream) option" and s' and f :: "bool \<Rightarrow> int" by (auto simp: run_ok_def split: option.splits)
    show ?thesis
    proof (cases r)
      case None
      then show ?thesis using 1(1) by (simp add: rdp_recv_data_pdu_def h)
    next
      case (Some x)
      obtain len ty sh ct n where x: "x = (len, ty, sh, ct, n)" by (cases x)
      have ty: "ty = ?ty" using share_data_header_type h assms(3) unfolding Some x by blast
      show ?thesis unfolding rdp_recv_data_pdu_def h Some x ty Option.bind.simps option.case prod.case cont
        using 1(1) plain run_ok_mono [OF dec [of ct n]]
        by (auto simp: cont run_ok_bind split_beta split: option.splits)
    qed
  qed
qed


text \<open>A share control header takes at least four bytes, so the loop over the PDUs of a packet ends.\<close>

lemma share_control_step:
  assumes "wf_stream s"
  shows "run_ok (rdp_read_share_control_header s) (\<lambda>r s'. consumed s s' \<and> (r \<noteq> None \<longrightarrow> avail s' < avail s))"
proof (cases "avail s < 2")
  case True
  then show ?thesis using assms by (simp add: rdp_read_share_control_header_def stream_simps)
next
  case False
  then obtain len where len: "Stream_Read_UINT16 s = Some (len, Stream_Seek s 2)" using assms by (simp add: stream_simps)
  have flow: "run_ok (rdp_read_flow_control_pdu (Stream_Seek s 2)) (\<lambda>_ s'. consumed s s' \<and> avail s' < avail s)"
    using False assms consumed_trans [of s "Stream_Seek s 2"]
    by (auto simp: rdp_read_flow_control_pdu_def stream_simps)
  show ?thesis
  proof (cases "len = 0x8000")
    case True
    then show ?thesis using False assms run_ok_mono [OF flow]
      by (auto simp: rdp_read_share_control_header_def len run_ok_bind stream_simps split: option.splits)
  next
    case n: False
    show ?thesis using False assms n
      by (auto simp: rdp_read_share_control_header_def len Let_def stream_simps not_less word_le_nat_alt word_less_nat_alt)
  qed
qed

lemma safe_reader_value: "safe_reader f \<Longrightarrow> wf_stream s \<Longrightarrow> \<exists>x. f s = Some x"
  by (auto simp: safe_reader_def run_ok_def split: option.splits)

text \<open>
  A share PDU that needs no other module, and a stream of such PDUs: it ends where the loop ends, at fewer
  than four bytes, a header that is refused or a PDU that is longer than the packet.
\<close>

definition own_pdu :: "u16 \<Rightarrow> wStream \<Rightarrow> bool" where
  "own_pdu ty sub \<longleftrightarrow> ty \<noteq> PDU_TYPE_DEACTIVATE_ALL \<and> ty \<noteq> PDU_TYPE_SERVER_REDIRECTION \<and>
     (ty = PDU_TYPE_DATA \<longrightarrow> rest sub ! 8 \<notin> delegated_types)"

inductive own_pdus :: "wStream \<Rightarrow> bool" where
  last: "\<not> 3 < Stream_GetRemainingLength s \<Longrightarrow> own_pdus s"
| bad_header: "rdp_read_share_control_header s = Some (None, t) \<Longrightarrow> own_pdus s"
| too_long: "rdp_read_share_control_header s = Some (Some (len, n, ty, src), t) \<Longrightarrow> avail t < unat n \<Longrightarrow> own_pdus s"
| step: "rdp_read_share_control_header s = Some (Some (len, n, ty, src), t) \<Longrightarrow> own_pdu ty (sub_stream t (unat n)) \<Longrightarrow>
     own_pdus (Stream_Seek t (unat n)) \<Longrightarrow> own_pdus s"

lemma own_pdus_step:
  assumes "own_pdus s" "3 < Stream_GetRemainingLength s" "rdp_read_share_control_header s = Some (Some (len, n, ty, src), t)" "unat n \<le> avail t"
  shows "own_pdu ty (sub_stream t (unat n)) \<and> own_pdus (Stream_Seek t (unat n))"
  using assms by (auto elim: own_pdus.cases)

lemma handle_share_pdu_returns:
  assumes "own_pdu ty sub \<or> handlers_safe h" "pool_ok (env_pool env)" "wf_stream sub"
  shows "\<exists>early rc' rdp'. handle_share_pdu env h ty n rdp rc sub = Some (early, rc', rdp')"
proof -
  have "\<exists>x. rdp_recv_data_pdu (env_malloc env) (env_pool env) h rdp sub = Some x" if "ty = PDU_TYPE_DATA"
    using recv_data_pdu_run [OF _ assms(2,3), of h "env_malloc env" rdp] assms(1) that
    by (auto simp: own_pdu_def elim!: run_okE)
  moreover have "\<exists>x. rdp_recv_deactivate_all h rdp sub = Some x" if "ty = PDU_TYPE_DEACTIVATE_ALL"
    using assms(1) that by (intro safe_reader_value [OF _ assms(3)]) (auto simp: own_pdu_def handlers_safe_def)
  moreover have "\<exists>x. rdp_recv_redirection_packet h rdp sub = Some x" if "ty = PDU_TYPE_SERVER_REDIRECTION"
    using assms(1) that by (intro safe_reader_value [OF _ assms(3)]) (auto simp: own_pdu_def handlers_safe_def)
  ultimately show ?thesis by (auto simp: handle_share_pdu_def split_beta)
qed

lemma wf_sub_stream: "n < 2 ^ 64 \<Longrightarrow> wf_stream (sub_stream s n)"
  by (simp add: sub_stream_def)

lemma share_pdu_loop_returns:
  assumes "own_pdus s \<or> handlers_safe h" "pool_ok (env_pool env)" "wf_stream s"
  shows "\<exists>r s'. share_pdu_loop env h rdp rc s = Some (r, s') \<and> consumed s s'"
  using assms(3,1)
proof (induction "avail s" arbitrary: s rdp rc rule: less_induct)
  case less
  note w = less.prems(1)
  obtain r t where t: "rdp_read_share_control_header s = Some (r, t)" "consumed s t" "r \<noteq> None \<longrightarrow> avail t < avail s"
    using share_control_step [OF w] by (auto elim: run_okE)
  have wt: "wf_stream t" using w t(2) by (rule consumed_wf)
  show ?case
  proof (cases "Stream_GetRemainingLength s > 3")
    case True
    show ?thesis
    proof (cases r)
      case None
      then show ?thesis using True t by (subst share_pdu_loop.simps) simp
    next
      case (Some x)
      obtain len n ty src where x: "x = (len, n, ty, src)" by (cases x)
      show ?thesis
      proof (cases "unat n \<le> avail t")
        case False
        then show ?thesis using True t Some x wt by (subst share_pdu_loop.simps) (simp add: stream_simps)
      next
        case n: True
        let ?u = "Stream_Seek t (unat n)" and ?rdp = "rdp\<lparr>PduSource := src, inPackets := inPackets rdp + 1\<rparr>"
        have u: "consumed s ?u" "wf_stream ?u" "avail ?u < avail s"
          using t(2,3) Some wt n consumed_trans [OF t(2) consumed_Seek [OF n]] by (auto simp: stream_simps)
        have own: "own_pdu ty (sub_stream t (unat n)) \<or> handlers_safe h" "own_pdus ?u \<or> handlers_safe h"
          using own_pdus_step [OF _ True _ n] t(1) Some x less.prems(2) by blast+
        have "wf_stream (sub_stream t (unat n))"
          by (rule wf_sub_stream) (rule order_less_trans [OF unsigned_less], simp)
        then obtain early rc' rdp' where h: "handle_share_pdu env h ty n ?rdp rc (sub_stream t (unat n)) = Some (early, rc', rdp')"
          using handle_share_pdu_returns [OF own(1) assms(2)] by blast
        obtain r' s' where "share_pdu_loop env h rdp' rc' ?u = Some (r', s')" "consumed ?u s'"
          using less.hyps [OF u(3,2) own(2)] by blast
        then show ?thesis using True t(1) Some x wt n h u(1) consumed_trans [OF u(1)]
          by (subst share_pdu_loop.simps, cases r') (auto simp: stream_simps split: option.splits)
      qed
    qed
  next
    case False
    then show ?thesis by (subst share_pdu_loop.simps) simp
  qed
qed


section \<open>The message channel\<close>

text \<open>What a side that does not encrypt relies on to answer: the pool, and a callback that leaves the security flags.\<close>

definition answers_clear :: "'k env \<Rightarrow> 'k rdpRdp \<Rightarrow> bool" where
  "answers_clear env rdp \<longleftrightarrow> pool_ok (env_pool env) \<and> \<not> do_crypt rdp \<and> sec_flags rdp = 0 \<and>
     (\<forall>f r. ClientBandwidthMeasureResult env = Some f \<longrightarrow> sec_flags (snd (f r)) = sec_flags r)"

lemma answer_returns:
  assumes "answers_clear env rdp" "length body \<le> 4077" "flags \<in> message_flags" "sec_flags rdp' = 0"
    "\<And>s. wf_cap s \<Longrightarrow> 4077 \<le> room s \<Longrightarrow> f rdp s = (if ok then pdu_send env rdp' (put s body) flags else Some x)"
  shows "\<exists>r. (do { (s, rdp) \<leftarrow> pdu_init env rdp; case s of None \<Rightarrow> Some (False, rdp, None) | Some s \<Rightarrow> f rdp s }) = Some r"
proof (cases "env_pool env 4096")
  case None
  then show ?thesis
    by (intro exI [of _ "(False, rdp, None)"]) (simp add: rdp_message_channel_pdu_init_def init_stream_def transport_send_stream_init_def)
next
  case (Some s0)
  have a: "pool_ok (env_pool env)" "\<not> do_crypt rdp" "sec_flags rdp = 0" using assms(1) by (auto simp: answers_clear_def)
  have s0: "wf_cap s0" "s_pointer s0 = 0" "4096 \<le> room s0" using a(1) Some by (auto simp: pool_ok_def room_def)
  have i: "pdu_init env rdp = Some (Some (Stream_Seek s0 19), rdp)" using a Some by (intro init_stream_clear)
  have "wf_cap (Stream_Seek s0 19)" "4077 \<le> room (Stream_Seek s0 19)" using s0 by (auto simp: wf_cap_def room_def)
  note f = assms(5) [OF this]
  show ?thesis using f i message_send [of s0 body rdp' flags env] s0 assms(2-4) by (cases x) auto
qed

lemma answers_return:
  assumes "answers_clear env rdp"
  shows "\<exists>r. autodetect_send_rtt_measure_response env rdp n = Some r"
    "\<exists>r. autodetect_send_bandwidth_measure_results env rdp ty n = Some r"
proof -
  have s: "sec_flags rdp = 0" using assms by (simp add: answers_clear_def)
  show "\<exists>r. autodetect_send_rtt_measure_response env rdp n = Some r"
    unfolding autodetect_send_rtt_measure_response_def
    by (rule answer_returns [OF assms, where ok = True]) (simp_all add: s enc_writers)
  obtain ok rdp' where r: "(case ClientBandwidthMeasureResult env of None \<Rightarrow> (True, rdp) | Some f \<Rightarrow> f rdp) = (ok, rdp')"
    by (cases "case ClientBandwidthMeasureResult env of None \<Rightarrow> (True, rdp) | Some f \<Rightarrow> f rdp")
  then have "sec_flags (snd (ok, rdp')) = 0" using assms s unfolding r [symmetric] by (auto simp: answers_clear_def split: option.splits)
  then have "sec_flags rdp' = 0" by simp
  then show "\<exists>r. autodetect_send_bandwidth_measure_results env rdp ty n = Some r"
    unfolding autodetect_send_bandwidth_measure_results_def Let_def
    by (rule answer_returns [OF assms, where ok = ok and x = "(False, rdp', None)" and flags = SEC_AUTODETECT_RSP and
        body = "pdu_enc 0x0E TYPE_ID_AUTODETECT_RESPONSE n ty @ u32_enc (ucast (env_ticks env - bandwidthMeasureStartTime (r_autodetect rdp))) @
          u32_enc (bandwidthMeasureByteCount (r_autodetect rdp))", rotated 2]) (simp_all add: enc_writers r)
qed

lemma answers_clear_update [simp]:
  "answers_clear env (set_autodetect f rdp) = answers_clear env rdp" "answers_clear env (rdp\<lparr>inPackets := k\<rparr>) = answers_clear env rdp"
  by (simp_all add: answers_clear_def set_autodetect_def)

lemma answer_with_run: "\<exists>r. m = Some r \<Longrightarrow> Q s \<Longrightarrow> run_ok (answer_with m s) (\<lambda>_. Q)"
  by (auto simp: answer_with_def run_ok_def)

lemma dispatch_request_returns:
  assumes "answers_clear env rdp" "wf_stream s"
  shows "run_ok (dispatch_autodetect_request env rdp s pdu) (\<lambda>_. consumed s)"
proof -
  have r: "\<exists>r. autodetect_send_rtt_measure_response env rdp n = Some r"
    "\<exists>r. autodetect_send_bandwidth_measure_results env (set_autodetect f rdp) ty n = Some r" for n ty f
    using answers_return(1) [OF assms(1)] answers_return(2) [of env "set_autodetect f rdp"] assms(1) by simp_all
  have 1: "run_ok (autodetect_recv_rtt_measure_request env rdp s pdu) (\<lambda>_. consumed s)"
    using answer_with_run [OF r(1)] by (simp add: autodetect_recv_rtt_measure_request_def)
  have 2: "run_ok (autodetect_recv_bandwidth_measure_start env rdp s pdu) (\<lambda>_. consumed s)"
    by (simp add: autodetect_recv_bandwidth_measure_start_def Let_def)
  have 3: "run_ok (autodetect_recv_bandwidth_measure_payload rdp s pdu) (\<lambda>_. consumed s)"
    using assms(2) by (simp add: autodetect_recv_bandwidth_measure_payload_def stream_simps Let_def)
  have 4: "run_ok (autodetect_recv_bandwidth_measure_stop env rdp s pdu) (\<lambda>_. consumed s)"
    using assms(2) answer_with_run [OF r(2)]
    by (simp add: autodetect_recv_bandwidth_measure_stop_def stream_simps Let_def)
  have 5: "run_ok (autodetect_recv_netchar_result env rdp s pdu) (\<lambda>_. consumed s)"
    using assms(2) by (auto simp: autodetect_recv_netchar_result_def stream_simps Let_def not_less split: prod.split)
  show ?thesis by (simp only: dispatch_autodetect_request_def run_ok_if 1 2 3 4 5 run_ok_Some consumed_refl if_cancel)
qed

lemma dispatch_response_returns:
  assumes "wf_stream s"
  shows "run_ok (dispatch_autodetect_response env rdp s pdu) (\<lambda>_. consumed s)"
proof -
  have 1: "run_ok (autodetect_recv_rtt_measure_response env rdp s pdu) (\<lambda>_. consumed s)"
    by (simp add: autodetect_recv_rtt_measure_response_def Let_def split_beta)
  have 2: "run_ok (autodetect_recv_bandwidth_measure_results env rdp s pdu) (\<lambda>_. consumed s)"
    using assms by (simp add: autodetect_recv_bandwidth_measure_results_def stream_simps Let_def split_beta)
  show ?thesis by (simp only: dispatch_autodetect_response_def run_ok_if 1 2 run_ok_Some consumed_refl if_cancel)
qed

lemma no_answer_run: "run_ok (no_answer m) (\<lambda>_. Q) \<longleftrightarrow> run_ok m (\<lambda>_. Q)"
  by (auto simp: no_answer_def run_ok_def split_beta split: option.splits)

lemma int_result_run: "run_ok (int_result m) (\<lambda>_. Q) \<longleftrightarrow> run_ok m (\<lambda>_. Q)"
  by (auto simp: int_result_def run_ok_def split_beta split: option.splits)

lemma autodetect_packets_return:
  assumes "wf_stream s" "answers_clear env rdp"
  shows "run_ok (rdp_recv_autodetect_request_packet env rdp s) (\<lambda>_. consumed s)"
    "run_ok (rdp_recv_autodetect_response_packet env rdp s) (\<lambda>_. consumed s)"
proof -
  have w: "wf_stream (Stream_Seek s 6)" "\<And>u. consumed (Stream_Seek s 6) u \<Longrightarrow> consumed s u" if "6 \<le> avail s"
    using assms(1) that consumed_trans [OF consumed_Seek [OF that]] by (simp_all add: stream_simps)
  have q: "run_ok (dispatch_autodetect_request env rdp (Stream_Seek s 6) pdu) (\<lambda>_. consumed s)"
    "run_ok (dispatch_autodetect_response env rdp (Stream_Seek s 6) pdu') (\<lambda>_. consumed s)" if "6 \<le> avail s" for pdu pdu'
    using run_ok_mono [OF dispatch_request_returns [OF assms(2) w(1) [OF that]] w(2) [OF that]]
      run_ok_mono [OF dispatch_response_returns [OF w(1) [OF that]] w(2) [OF that]] by simp_all
  show "run_ok (rdp_recv_autodetect_request_packet env rdp s) (\<lambda>_. consumed s)"
    "run_ok (rdp_recv_autodetect_response_packet env rdp s) (\<lambda>_. consumed s)"
    using assms(1) q
    by (simp_all add: rdp_recv_autodetect_request_packet_def rdp_recv_autodetect_response_packet_def stream_simps Let_def int_result_run)
qed

lemma message_channel_returns:
  assumes "wf_stream s" "answers_clear env rdp"
  shows "run_ok (rdp_recv_message_channel_pdu env h rdp s flags) (\<lambda>_. consumed s)"
proof -
  have n: "run_ok (no_answer (rdp_recv_heartbeat_packet h rdp s)) (\<lambda>_. consumed s)"
    "run_ok (no_answer (rdp_recv_multitransport_packet rdp s)) (\<lambda>_. consumed s)"
    by (simp_all add: no_answer_run safe_readerD [OF safe_plain_handlers(7) assms(1)] safe_readerD [OF safe_plain_handlers(8) assms(1)])
  show ?thesis
    by (simp only: rdp_recv_message_channel_pdu_def run_ok_if autodetect_packets_return [OF assms] n run_ok_Some consumed_refl if_cancel)
qed

section \<open>Decryption\<close>

text \<open>The ciphers transform a block in place, so they keep its length.\<close>

definition ciphers_keep_length :: "'k security_ops \<Rightarrow> bool" where
  "ciphers_keep_length ops \<longleftrightarrow> (\<forall>k bs bs' k'. security_decrypt ops k bs = (Some bs', k') \<longrightarrow> length bs' = length bs) \<and>
     (\<forall>k bs bs' k'. security_fips_decrypt ops k bs = (Some bs', k') \<longrightarrow> length bs' = length bs)"

lemma write_at_run:
  assumes "wf_stream s" "length bs \<le> avail s"
  shows "\<exists>s'. write_at s (Stream_GetPosition s) bs = Some s' \<and> wf_stream s' \<and> avail s' = avail s \<and> s_pointer s' = s_pointer s \<and> s_length s' = s_length s"
  using assms by (auto simp: write_at_def Stream_GetPosition_def mem_write_def wf_stream_def wf_cap_def avail_def)

definition decrypt_outcome :: "'k rdpRdp \<Rightarrow> wStream \<Rightarrow> 'k rdpRdp \<Rightarrow> wStream \<Rightarrow> bool" where
  "decrypt_outcome rdp s rdp' s' \<longleftrightarrow> wf_stream s' \<and> s_pointer s \<le> s_pointer s' \<and> (\<exists>k. rdp' = rdp\<lparr>r_keys := k\<rparr>)"

lemma decrypt_outcome_Seek: "wf_stream s \<Longrightarrow> k \<le> avail s \<Longrightarrow> decrypt_outcome rdp s rdp (Stream_Seek s k)"
  by (auto simp: decrypt_outcome_def stream_simps intro!: exI [of _ "r_keys rdp"])

lemma decrypt_outcome_keys: "wf_stream s' \<Longrightarrow> s_pointer s \<le> s_pointer s' \<Longrightarrow> decrypt_outcome rdp s (rdp\<lparr>r_keys := k\<rparr>) s'"
  unfolding decrypt_outcome_def by blast

lemma decrypt_standard_returns:
  assumes "ciphers_keep_length ops" "wf_stream s" "n \<le> int (avail s)"
  shows "run_ok (decrypt_standard ops rdp s n flags) (\<lambda>(_, rdp'). decrypt_outcome rdp s rdp')"
proof (cases "8 \<le> avail s \<and> 0 < n - 8")
  case False
  then show ?thesis using assms(2) decrypt_outcome_Seek [of s 0 rdp] decrypt_outcome_Seek [of s 8 rdp]
    by (cases "avail s < 8") (simp_all add: decrypt_standard_def stream_simps not_less)
next
  case True
  let ?u = "Stream_Seek s 8" and ?n = "nat (n - 8)"
  have u: "wf_stream ?u" "?n \<le> avail ?u" "Stream_Read s 8 = Some (take 8 (rest s), ?u)" "\<not> n \<le> 8"
    using assms(2,3) True by (auto simp: stream_simps)
  obtain dec k where d: "security_decrypt ops (r_keys rdp) (take ?n (rest ?u)) = (dec, k)" by (cases "security_decrypt ops (r_keys rdp) (take ?n (rest ?u))")
  have w: "\<exists>s'. write_at ?u (Stream_GetPosition ?u) bs = Some s' \<and> wf_stream s' \<and> ?n \<le> avail s' \<and> s_pointer s \<le> s_pointer s'"
    if "dec = Some bs" for bs
  proof -
    have "length bs = length (take ?n (rest ?u))" using assms(1) d that unfolding ciphers_keep_length_def by blast
    then have "length bs = ?n" using u(1,2) by (simp add: length_rest)
    then show ?thesis using write_at_run [OF u(1), of bs] u(2) by auto
  qed
  have p: "Stream_Peek ?u ?n = Some (take ?n (rest ?u))" using u by (simp add: stream_simps)
  have g: "\<not> Stream_GetRemainingLength s < 8" using True assms(2) by (simp add: stream_simps)
  show ?thesis
  proof (cases dec)
    case None
    then show ?thesis using u(4) g decrypt_outcome_keys [of ?u s rdp k] u(1)
      by (simp add: decrypt_standard_def u(3) p d)
  next
    case (Some bs)
    obtain s' where s': "write_at ?u (Stream_GetPosition ?u) bs = Some s'" "wf_stream s'" "?n \<le> avail s'" "s_pointer s \<le> s_pointer s'"
      using w [OF Some] by blast
    have "Stream_Peek s' ?n = Some (take ?n (rest s'))" using s' by (simp add: stream_simps)
    then show ?thesis using u(4) g Some
      by (simp add: decrypt_standard_def u(3) p d s'(1) split_beta Let_def decrypt_outcome_keys [OF s'(2,4)])
  qed
qed

lemma decrypt_fips_returns:
  assumes "ciphers_keep_length ops" "wf_stream s" "n \<le> int (avail s)"
  shows "run_ok (decrypt_fips ops rdp s n) (\<lambda>(_, rdp'). decrypt_outcome rdp s rdp')"
proof (cases "12 \<le> avail s")
  case False
  then show ?thesis using assms(2) decrypt_outcome_Seek [of s 0 rdp] by (simp add: decrypt_fips_def stream_simps)
next
  case True
  let ?u = "Stream_Seek s 12" and ?n = "nat (n - 12)"
  obtain l ver pad where h: "Stream_Read_UINT16 s = Some (l, Stream_Seek s 2)" "Stream_Read_UINT8 (Stream_Seek s 2) = Some (ver, Stream_Seek s 3)"
    "Stream_Read_UINT8 (Stream_Seek s 3) = Some (pad, Stream_Seek s 4)" "Stream_Peek (Stream_Seek s 4) 8 = Some (take 8 (drop 4 (rest s)))"
    using True assms(2) by (simp add: stream_simps)
  have g: "\<not> Stream_GetRemainingLength s < 12" using True assms(2) by (simp add: stream_simps)
  note prefix = decrypt_fips_def h g
  show ?thesis
  proof (cases "n - 12 \<le> 0 \<or> n - 12 - uint pad \<le> 0")
    case bad: True
    then show ?thesis using True assms(2) decrypt_outcome_Seek [of s 12 rdp] by (simp add: prefix)
  next
    case False
    have u: "wf_stream ?u" "?n \<le> avail ?u" using assms(2,3) True False by (auto simp: stream_simps)
    have p: "Stream_Peek ?u ?n = Some (take ?n (rest ?u))" using u by (simp add: stream_simps)
    obtain dec k where d: "security_fips_decrypt ops (r_keys rdp) (take ?n (rest ?u)) = (dec, k)"
      by (cases "security_fips_decrypt ops (r_keys rdp) (take ?n (rest ?u))")
    show ?thesis
    proof (cases dec)
      case None
      then show ?thesis using False decrypt_outcome_keys [of ?u s rdp k] u(1)
        by (simp add: prefix p d Let_def)
    next
      case (Some bs)
      have "length bs = length (take ?n (rest ?u))" using assms(1) d Some unfolding ciphers_keep_length_def by blast
      then have "length bs \<le> avail ?u" using u by (simp add: length_rest)
      from write_at_run [OF u(1) this] obtain s' where
        s': "write_at ?u (Stream_GetPosition ?u) bs = Some s'" "wf_stream s'" "avail s' = avail ?u" "s_pointer s' = s_pointer ?u" "s_length s' = s_length ?u"
        by blast
      let ?m = "nat (n - 12 - uint pad)"
      have up: "uint pad = int (unat pad)" by simp
      have m: "?m + unat pad = ?n" using False unfolding up by arith
      have p': "Stream_Peek s' ?m = Some (take ?m (rest s'))" using s' u(2) m by (simp add: stream_simps)
      have "wf_stream (Stream_SetLength s' (sub64 (s_length s') (unat pad)))"
        using s'(2,3) u(2) m by (auto simp: Stream_SetLength_def wf_stream_def wf_cap_def avail_def)
      then have "decrypt_outcome rdp s (rdp\<lparr>r_keys := k'\<rparr>) (Stream_SetLength s' (sub64 (s_length s') (unat pad)))"
        "decrypt_outcome rdp s (rdp\<lparr>r_keys := k'\<rparr>) s'" for k'
        using s'(2,4) by (auto intro!: decrypt_outcome_keys simp: Stream_SetLength_def)
      then show ?thesis using False Some by (simp add: prefix p d s'(1) p' split_beta Let_def)
    qed
  qed
qed

lemma decrypt_returns:
  assumes "ciphers_keep_length ops" "wf_stream s" "unat n \<le> avail s"
  shows "run_ok (rdp_decrypt ops rdp s n flags) (\<lambda>(_, rdp'). decrypt_outcome rdp s rdp')"
proof -
  have "int (unat n) \<le> int (avail s)" using assms(3) by (simp only: of_nat_le_iff)
  then have "uint n \<le> int (avail s)" by simp
  then show ?thesis by (simp add: rdp_decrypt_def decrypt_fips_returns [OF assms(1,2)] decrypt_standard_returns [OF assms(1,2)])
qed

section \<open>The packet\<close>

lemma finish_returns: "m = Some x \<Longrightarrow> \<exists>y. finish_packet m = Some y"
  by (cases x) (auto simp: finish_packet_def split_beta)

text \<open>A packet, behind its headers, that needs no other module: share PDUs, or a message that can be answered.\<close>

definition own_packet :: "'k env \<Rightarrow> 'k rdpRdp \<Rightarrow> u16 \<Rightarrow> wStream \<Rightarrow> bool" where
  "own_packet env rdp ch s \<longleftrightarrow>
     (if ch = MCS_GLOBAL_CHANNEL_ID then own_pdus s
      else messageChannelId (r_mcs rdp) \<noteq> 0 \<and> ch = messageChannelId (r_mcs rdp) \<and> answers_clear env rdp)"

lemma recv_by_channel_own:
  assumes "wf_stream s" "pool_ok (env_pool env)" "own_packet env rdp ch s"
  shows "\<exists>x. recv_by_channel env h rdp s n ch flags = Some x"
proof (cases "ch = MCS_GLOBAL_CHANNEL_ID")
  case True
  then obtain e rc rdp' s' where "share_pdu_loop env h rdp 0 s = Some ((e, rc, rdp'), s')"
    using share_pdu_loop_returns [OF _ assms(2,1), of h rdp 0] assms(3) by (metis own_packet_def prod.exhaust)
  then show ?thesis using True by (cases e) (simp_all add: recv_by_channel_def finish_packet_def del: split_paired_Ex)
next
  case False
  then have c: "messageChannelId (r_mcs rdp) \<noteq> 0" "ch = messageChannelId (r_mcs rdp)" "answers_clear env rdp"
    using assms(3) by (simp_all add: own_packet_def)
  obtain r t where t: "rdp_read_security_header s None = Some (r, t)" "wf_stream t"
    using safe_readerD [OF safe_share_headers(2) assms(1), of None] consumed_wf [OF assms(1)] by (metis run_okE)
  have m: "\<exists>x. finish_packet (rdp_recv_message_channel_pdu env h (rdp\<lparr>inPackets := k\<rparr>) u f) = Some x" if "wf_stream u" for u f k
    using message_channel_returns [OF that, of env "rdp\<lparr>inPackets := k\<rparr>" h f] c(3) by (auto elim!: run_okE dest: finish_returns simp del: split_paired_Ex)
  show ?thesis using m [OF assms(1)] m [OF t(2)] False c(1,2)
    by (cases r) (auto simp: recv_by_channel_def t(1) Let_def simp del: split_paired_Ex)
qed

lemma recv_by_channel_returns:
  assumes "handlers_safe h" "wf_stream s" "answers_clear env rdp"
  shows "\<exists>x. recv_by_channel env h rdp s n ch flags = Some x"
proof -
  have p: "pool_ok (env_pool env)" using assms(3) by (simp add: answers_clear_def)
  obtain e rc rdp' s' where l: "share_pdu_loop env h rdp 0 s = Some ((e, rc, rdp'), s')"
    using share_pdu_loop_returns [OF disjI2 [OF assms(1)] p assms(2)] by (metis prod.exhaust)
  obtain r t where t: "rdp_read_security_header s None = Some (r, t)" "wf_stream t"
    using safe_readerD [OF safe_share_headers(2) assms(2), of None] consumed_wf [OF assms(2)] by (metis run_okE)
  have m: "\<exists>x. finish_packet (rdp_recv_message_channel_pdu env h (rdp\<lparr>inPackets := k\<rparr>) u f) = Some x" if "wf_stream u" for u f k
    using message_channel_returns [OF that, of env "rdp\<lparr>inPackets := k\<rparr>" h f] assms(3) by (auto elim!: run_okE dest: finish_returns simp del: split_paired_Ex)
  have "safe_reader (freerdp_channel_process h ch n (rdp\<lparr>inPackets := inPackets rdp + 1\<rparr>))"
    using assms(1) by (simp add: handlers_safe_def)
  from safe_reader_value [OF this assms(2)] obtain ok rdp2 u where
    c: "freerdp_channel_process h ch n (rdp\<lparr>inPackets := inPackets rdp + 1\<rparr>) s = Some ((ok, rdp2), u)" by (metis prod.exhaust)
  show ?thesis
  proof (cases "ch = MCS_GLOBAL_CHANNEL_ID")
    case True
    then show ?thesis using l by (cases e) (simp_all add: recv_by_channel_def finish_packet_def del: split_paired_Ex)
  next
    case False
    then show ?thesis using m [OF assms(2)] m [OF t(2)] c
      by (cases r) (auto simp: recv_by_channel_def t(1) finish_packet_def Let_def simp del: split_paired_Ex)
  qed
qed


lemma security_header_cases:
  assumes "wf_stream s" "unat len \<le> avail s"
  obtains "rdp_read_security_header s (Some len) = Some (None, s)"
  | flags where "rdp_read_security_header s (Some len) = Some (Some (flags, Some (len - 4)), Stream_Seek s 4)"
      "wf_stream (Stream_Seek s 4)" "unat (len - 4) \<le> avail (Stream_Seek s 4)"
proof (cases "len < 4")
  case True
  then show ?thesis using that(1) assms(1) by (simp add: rdp_read_security_header_def)
next
  case False
  then have l: "4 \<le> unat len" "unat (len - 4) = unat len - 4" by (simp_all add: word_less_nat_alt unat_sub word_le_nat_alt)
  then have "4 \<le> avail s" using assms(2) by simp
  then show ?thesis using that(2) assms l False by (simp add: rdp_read_security_header_def stream_simps)
qed

lemma redirection_returns:
  assumes "handlers_safe h" "wf_stream s" "2 \<le> s_pointer s"
  shows "\<exists>x. (do { s \<leftarrow> Stream_Rewind s 2; ((rc, rdp), s) \<leftarrow> rdp_recv_redirection_packet h rdp s; finish_packet (Some ((rc, rdp, None), s)) }) = Some x"
proof -
  let ?s = "s\<lparr>s_pointer := s_pointer s - 2\<rparr>"
  have "wf_stream ?s" using assms(2) by (auto simp: wf_stream_def wf_cap_def)
  moreover have "safe_reader (rdp_recv_redirection_packet h rdp)" using assms(1) by (simp add: handlers_safe_def)
  ultimately obtain rc rdp' u where "rdp_recv_redirection_packet h rdp ?s = Some ((rc, rdp'), u)"
    using safe_reader_value by (metis prod.exhaust)
  then show ?thesis using assms(3) by (simp add: Stream_Rewind_def finish_packet_def del: split_paired_Ex)
qed

lemma recv_secured_returns:
  assumes "wf_stream s" "unat len \<le> avail s" "handlers_safe h" "answers_clear env rdp" "ciphers_keep_length (env_ops env)"
  shows "\<exists>x. recv_secured env h rdp s len ch = Some x"
  using assms(1,2)
proof (cases rule: security_header_cases)
  case 1
  then show ?thesis by (simp add: recv_secured_def del: split_paired_Ex)
next
  case (2 flags)
  let ?u = "Stream_Seek s 4" and ?len = "len - 4"
  have "\<exists>dec rdp' t. (if ucast flags AND (SEC_ENCRYPT OR SEC_REDIRECTION_PKT) \<noteq> 0
        then rdp_decrypt (env_ops env) rdp ?u ?len flags else Some ((Some ?len, rdp), ?u)) = Some ((dec, rdp'), t) \<and> decrypt_outcome rdp ?u rdp' t"
    using decrypt_returns [OF assms(5) 2(2,3), of rdp flags] decrypt_outcome_Seek [OF 2(2), of 0 rdp] by (auto elim!: run_okE)
  then obtain dec rdp' t where d: "(if ucast flags AND (SEC_ENCRYPT OR SEC_REDIRECTION_PKT) \<noteq> 0
        then rdp_decrypt (env_ops env) rdp ?u ?len flags else Some ((Some ?len, rdp), ?u)) = Some ((dec, rdp'), t)" "decrypt_outcome rdp ?u rdp' t"
    by blast
  then have t: "wf_stream t" "2 \<le> s_pointer t" "answers_clear env rdp'"
    using assms(4) by (auto simp: decrypt_outcome_def answers_clear_def)
  show ?thesis using redirection_returns [OF assms(3) t(1,2)] recv_by_channel_returns [OF assms(3) t(1,3)]
    by (cases dec) (simp_all add: recv_secured_def 2(1) d(1) del: split_paired_Ex)
qed

text \<open>
  Whole packets, relative to the other modules: if their functions stay in the streams they are given,
  \<^verbatim>\<open>rdp_recv_tpkt_pdu\<close> returns without leaving its buffers on a side that sends its answers in the clear.
\<close>

lemma rdp_recv_tpkt_pdu_returns:
  assumes "wf_stream s" "handlers_safe h" "answers_clear env rdp" "ciphers_keep_length (env_ops env)"
  shows "\<exists>x. rdp_recv_tpkt_pdu env h rdp s = Some x"
proof -
  obtain r rdp1 t where h: "rdp_read_header rdp s = Some ((r, rdp1), t)" "consumed s t" "case r of None \<Rightarrow> rdp1 = rdp
     | Some (len, ch) \<Rightarrow> rdp1 = rdp \<and> unat len \<le> avail t \<or> ch = 0 \<and> AbortConnect \<in> set (r_events rdp1)"
    using read_header_outcome [OF assms(1), of rdp] by (auto simp: header_outcome_def elim!: run_okE)
  note t = consumed_wf [OF assms(1) h(2)]
  show ?thesis
  proof (cases r)
    case None
    then show ?thesis using h(1) by (simp add: rdp_recv_tpkt_pdu_def del: split_paired_Ex)
  next
    case (Some x)
    obtain len ch where x: "r = Some (len, ch)" using Some by (cases x) simp
    show ?thesis
    proof (cases "freerdp_shall_disconnect rdp1")
      case True
      then show ?thesis using h(1) x by (simp add: rdp_recv_tpkt_pdu_def del: split_paired_Ex)
    next
      case False
      then have r: "rdp1 = rdp" "unat len \<le> avail t" using h(3) x by (auto simp: freerdp_shall_disconnect_def)
      let ?rdp = "if bandwidthMeasureStarted (r_autodetect rdp)
         then set_autodetect (\<lambda>a. a\<lparr>bandwidthMeasureByteCount := bandwidthMeasureByteCount a + ucast len\<rparr>) rdp else rdp"
      have a: "answers_clear env ?rdp" using assms(3) by simp
      show ?thesis
        using recv_secured_returns [OF t r(2) assms(2) a assms(4)] recv_by_channel_returns [OF assms(2) t a] False
        unfolding rdp_recv_tpkt_pdu_def h(1) x r(1) Let_def by (simp del: split_paired_Ex)
    qed
  qed
qed


text \<open>A status information PDU, then a header that announces more bytes than are left, which is refused.\<close>

definition example_pdus :: wStream where
  "example_pdus = Stream_StaticInit [22, 0, 0x17, 0, 1, 0, 0, 0, 0, 0, 0, 1, 8, 0, 0x36, 0, 0, 0, 5, 0, 0, 0, 40, 0, 0x17, 0, 1, 0]"

lemma example_pdus_own: "own_pdus example_pdus"
proof -
  have 1: "rdp_read_share_control_header example_pdus = Some (Some (22, 16, PDU_TYPE_DATA, 1), Stream_Seek example_pdus 6)"
    by code_simp
  have 2: "own_pdu PDU_TYPE_DATA (sub_stream (Stream_Seek example_pdus 6) (unat (16 :: u16)))"
    by code_simp
  have 3: "rdp_read_share_control_header (Stream_Seek (Stream_Seek example_pdus 6) (unat (16 :: u16))) =
      Some (None, Stream_Seek example_pdus 24)"
    by code_simp
  show ?thesis using own_pdus.step [OF 1 2] own_pdus.bad_header [OF 3] by simp
qed


end
