(* ===== verification/Base64.thy ===== *)
theory Base64
  imports Prelude
begin

text \<open>
  Base64 (\<^verbatim>\<open>libfreerdp/crypto/base64.c\<close>), which carries certificates and gateway credentials as text.

  C strings are byte lists; both functions get the length of their argument. The blocks of
  \<^verbatim>\<open>malloc\<close> are explicit, so that every access of the encoder and of the decoder is checked against
  the size the code computes. \<open>base64_enc\<close> is the encoding of RFC 4648 on lists; the encoder is proved
  to produce it and the decoder to invert it.
\<close>

section \<open>The encoder\<close>

definition base64 :: "byte list" where
  "base64 = map of_char ''ABCDEFGHIJKLMNOPQRSTUVWXYZabcdefghijklmnopqrstuvwxyz0123456789+/''"

definition sextet1 :: "int \<Rightarrow> byte" where "sextet1 c = base64 ! nat (drop_bit 18 (c AND 0x00FC0000))"
definition sextet2 :: "int \<Rightarrow> byte" where "sextet2 c = base64 ! nat (drop_bit 12 (c AND 0x0003F000))"
definition sextet3 :: "int \<Rightarrow> byte" where "sextet3 c = base64 ! nat (drop_bit 6 (c AND 0x00000FC0))"
definition sextet4 :: "int \<Rightarrow> byte" where "sextet4 c = base64 ! nat (c AND 0x0000003F)"

definition pad_char :: byte where "pad_char = of_char CHR ''=''"

text \<open>The loop over complete blocks; \<open>q\<close> and \<open>p\<close> are the offsets of the two pointers. An overflow of the \<^verbatim>\<open>int\<close> index is a fault.\<close>

function encode_blocks :: "byte list \<Rightarrow> int \<Rightarrow> int \<Rightarrow> nat \<Rightarrow> nat \<Rightarrow> byte list \<Rightarrow> (nat \<times> nat \<times> byte list) option" where
  "encode_blocks data i blocks q p ret =
     (if i < blocks then do {
        bs \<leftarrow> mem_read data q 3;
        let c = push_bit 16 (uint (bs ! 0)) + push_bit 8 (uint (bs ! 1)) + uint (bs ! 2);
        ret \<leftarrow> mem_write ret p [sextet1 c, sextet2 c, sextet3 c, sextet4 c];
        (if i + 3 \<ge> 2 ^ 31 then None
         else encode_blocks data (i + 3) blocks (q + 3) (p + 4) ret) }
      else Some (q, p, ret))"
  by pat_completeness auto
termination
  by (relation "measure (\<lambda>(_, i, blocks, _). nat (blocks - i))") auto

text \<open>The switch over the remainder, after which the string is terminated.\<close>

definition encode_rest :: "byte list \<Rightarrow> nat \<Rightarrow> nat \<Rightarrow> nat \<Rightarrow> byte list \<Rightarrow> byte list option" where
  "encode_rest data r q p ret = do {
     (p, ret) \<leftarrow>
       (if r = 1 then do {
          bs \<leftarrow> mem_read data q 1;
          let c = push_bit 16 (uint (bs ! 0));
          ret \<leftarrow> mem_write ret p [sextet1 c, sextet2 c, pad_char, pad_char];
          Some (p + 4, ret) }
        else if r = 2 then do {
          bs \<leftarrow> mem_read data q 2;
          let c = push_bit 16 (uint (bs ! 0)) + push_bit 8 (uint (bs ! 1));
          ret \<leftarrow> mem_write ret p [sextet1 c, sextet2 c, sextet3 c, pad_char];
          Some (p + 4, ret) }
        else Some (p, ret));
     mem_write ret p [0] }"

definition crypto_base64_encode :: "allocator \<Rightarrow> byte list \<Rightarrow> nat \<Rightarrow> byte list option option" where
  "crypto_base64_encode malloc data len =
     (case malloc (add64 (mul64 (add64 len 3) 4 div 3) 1) of
        None \<Rightarrow> Some None
      | Some ret \<Rightarrow> do {
          let blocks = sint (word_of_nat (len - len mod 3) :: 32 word);
          (q, p, ret) \<leftarrow> encode_blocks data 0 blocks 0 0 ret;
          ret \<leftarrow> encode_rest data (len mod 3) q p ret;
          Some (Some ret) })"

section \<open>The decoder\<close>

text \<open>A \<^verbatim>\<open>char\<close> is signed.\<close>

definition base64_decode_char :: "byte \<Rightarrow> int" where
  "base64_decode_char b =
     (let c = sint b in
      if c \<ge> of_char CHR ''A'' \<and> c \<le> of_char CHR ''Z'' then c - of_char CHR ''A''
      else if c \<ge> of_char CHR ''a'' \<and> c \<le> of_char CHR ''z'' then c - of_char CHR ''a'' + 26
      else if c \<ge> of_char CHR ''0'' \<and> c \<le> of_char CHR ''9'' then c - of_char CHR ''0'' + 52
      else if c = of_char CHR ''+'' then 62
      else if c = of_char CHR ''/'' then 63
      else - 1)"

definition byte1 :: "int \<Rightarrow> int \<Rightarrow> byte" where "byte1 n0 n1 = word_of_int (push_bit 2 n0 + drop_bit 4 n1)"
definition byte2 :: "int \<Rightarrow> int \<Rightarrow> byte" where "byte2 n1 n2 = word_of_int (push_bit 4 (n1 AND 15) + drop_bit 2 n2)"
definition byte3 :: "int \<Rightarrow> int \<Rightarrow> byte" where "byte3 n2 n3 = word_of_int (push_bit 6 (n2 AND 3) + n3)"

text \<open>
  The loop over all blocks but the last: \<open>s\<close> and \<open>q\<close> are the offsets of the two pointers. The inner
  \<open>None\<close> is the jump to \<^verbatim>\<open>out_free\<close>.
\<close>

fun decode_blocks :: "byte list \<Rightarrow> nat \<Rightarrow> nat \<Rightarrow> nat \<Rightarrow> nat \<Rightarrow> byte list \<Rightarrow> (nat \<times> nat \<times> nat \<times> byte list) option option" where
  "decode_blocks enc 0 s q outputLen data = Some (Some (s, q, outputLen, data))"
| "decode_blocks enc (Suc k) s q outputLen data = do {
     cs \<leftarrow> mem_read enc s 4;
     let n = map base64_decode_char cs;
     (if n ! 0 = - 1 \<or> n ! 1 = - 1 \<or> n ! 2 = - 1 \<or> n ! 3 = - 1 then Some None
      else do {
        data \<leftarrow> mem_write data q [byte1 (n ! 0) (n ! 1), byte2 (n ! 1) (n ! 2), byte3 (n ! 2) (n ! 3)];
        decode_blocks enc k (s + 4) (q + 3) (add64 outputLen 3) data }) }"

definition decode_last :: "byte list \<Rightarrow> nat \<Rightarrow> nat \<Rightarrow> nat \<Rightarrow> byte list \<Rightarrow> (nat \<times> byte list) option option" where
  "decode_last enc s q outputLen data = do {
     cs \<leftarrow> mem_read enc s 2;
     let n = map base64_decode_char cs;
     (if n ! 0 = - 1 \<or> n ! 1 = - 1 then Some None
      else do {
        cs \<leftarrow> mem_read enc (s + 2) 2;
        let n = n @ map base64_decode_char cs;
        data \<leftarrow> mem_write data q [byte1 (n ! 0) (n ! 1)];
        (if n ! 2 = - 1 then
           if n ! 3 \<noteq> - 1 then Some None
           else do {
             data \<leftarrow> mem_write data (q + 1) [word_of_int (push_bit 4 (n ! 1 AND 15))];
             Some (Some (add64 outputLen 1, data)) }
         else if n ! 3 = - 1 then do {
           data \<leftarrow> mem_write data (q + 1) [byte2 (n ! 1) (n ! 2), word_of_int (push_bit 6 (n ! 2 AND 3))];
           Some (Some (add64 outputLen 2, data)) }
         else do {
           data \<leftarrow> mem_write data q [byte1 (n ! 0) (n ! 1), byte2 (n ! 1) (n ! 2), byte3 (n ! 2) (n ! 3)];
           Some (Some (add64 outputLen 3, data)) }) }) }"

definition base64_decode :: "allocator \<Rightarrow> byte list \<Rightarrow> nat \<Rightarrow> (nat \<times> byte list) option option" where
  "base64_decode malloc enc len =
     (if len mod 4 \<noteq> 0 then Some None
      else (case malloc (add64 (mul64 (len div 4) 3) 1) of
        None \<Rightarrow> Some None
      | Some data \<Rightarrow>
          let nBlocks = len div 4 in
          if nBlocks < 1 then Some None
          else do {
            r \<leftarrow> decode_blocks enc (nBlocks - 1) 0 0 0 data;
            (case r of None \<Rightarrow> Some None
             | Some (s, q, outputLen, data) \<Rightarrow> do {
                 r \<leftarrow> decode_last enc s q outputLen data;
                 (case r of None \<Rightarrow> Some None
                  | Some (outputLen, data) \<Rightarrow> do {
                      data \<leftarrow> mem_write data outputLen [0];
                      Some (Some (outputLen, data)) }) }) }))"

text \<open>The results are the two out parameters; the length keeps its old value when decoding fails.\<close>

definition crypto_base64_decode :: "allocator \<Rightarrow> byte list \<Rightarrow> nat \<Rightarrow> nat \<Rightarrow> (byte list option \<times> nat) option" where
  "crypto_base64_decode malloc enc len res_length = do {
     r \<leftarrow> base64_decode malloc enc len;
     Some (case r of None \<Rightarrow> (None, res_length) | Some (n, data) \<Rightarrow> (Some data, n)) }"

section \<open>Sextets and bytes\<close>

text \<open>The four sextets of three bytes, by division.\<close>

definition s1 :: "byte \<Rightarrow> int" where "s1 a = uint a div 4"
definition s2 :: "byte \<Rightarrow> byte \<Rightarrow> int" where "s2 a b = uint a mod 4 * 16 + uint b div 16"
definition s3 :: "byte \<Rightarrow> byte \<Rightarrow> int" where "s3 b c = uint b mod 16 * 4 + uint c div 64"
definition s4 :: "byte \<Rightarrow> int" where "s4 c = uint c mod 64"

definition b64 :: "int \<Rightarrow> byte" where "b64 i = base64 ! nat i"

lemma uint_byte: "0 \<le> uint a" "uint a < 256" for a :: byte
  using unsigned_greater_eq [of a, where 'a = int] unsigned_less [of a, where 'a = int] by auto

lemma sextet_bounds:
  "0 \<le> s1 a \<and> s1 a < 64" "0 \<le> s2 a b \<and> s2 a b < 64" "0 \<le> s3 b c \<and> s3 b c < 64" "0 \<le> s4 c \<and> s4 c < 64"
  using uint_byte [of a] uint_byte [of b] uint_byte [of c] unfolding s1_def s2_def s3_def s4_def by linarith+

lemma and_window: "drop_bit n (c AND push_bit n (mask 6)) = c div 2 ^ n mod 64" for c :: int
proof -
  have "drop_bit n (c AND push_bit n (mask 6)) = take_bit 6 (drop_bit n c)"
    by (rule bit_eqI) (auto simp: bit_simps)
  then show ?thesis by (simp add: take_bit_eq_mod drop_bit_eq_div)
qed

lemma windows:
  "drop_bit 18 (c AND 0x00FC0000) = c div 262144 mod 64" "drop_bit 12 (c AND 0x0003F000) = c div 4096 mod 64"
  "drop_bit 6 (c AND 0x00000FC0) = c div 64 mod 64" "c AND 0x0000003F = c mod 64" for c :: int
proof -
  have m: "push_bit 18 (mask 6) = (0x00FC0000 :: int)" "push_bit 12 (mask 6) = (0x0003F000 :: int)"
    "push_bit 6 (mask 6) = (0x00000FC0 :: int)" "push_bit 0 (mask 6) = (0x0000003F :: int)"
    by (simp_all add: mask_eq_exp_minus_1 push_bit_eq_mult)
  have p: "(2 :: int) ^ 18 = 262144" "(2 :: int) ^ 12 = 4096" "(2 :: int) ^ 6 = 64" "(2 :: int) ^ 0 = 1" by simp_all
  note w = and_window [of 18 c] and_window [of 12 c] and_window [of 6 c] and_window [of 0 c]
  show "drop_bit 18 (c AND 0x00FC0000) = c div 262144 mod 64" "drop_bit 12 (c AND 0x0003F000) = c div 4096 mod 64"
    "drop_bit 6 (c AND 0x00000FC0) = c div 64 mod 64" "c AND 0x0000003F = c mod 64"
    using w by (simp_all only: m p drop_bit_0 id_apply div_by_1)
qed

lemma digit_split:
  fixes x v m :: int
  assumes "0 \<le> v" "v < m" "0 < n"
  shows "(m * x + v) div m = x" "(m * x + v) mod m = v" "(m * x + v) mod (m * n) = m * (x mod n) + v"
proof -
  show d: "(m * x + v) div m = x" and e: "(m * x + v) mod m = v" using assms by simp_all
  show "(m * x + v) mod (m * n) = m * (x mod n) + v" using assms by (simp add: zmod_zmult2_eq d e)
qed

lemma three_windows:
  fixes x y z :: int
  assumes "0 \<le> x" "x < 256" "0 \<le> y" "y < 256" "0 \<le> z" "z < 256"
  defines "w \<equiv> 65536 * x + 256 * y + z"
  shows "w div 262144 mod 64 = x div 4" "w div 4096 mod 64 = x mod 4 * 16 + y div 16"
    "w div 64 mod 64 = y mod 16 * 4 + z div 64" "w mod 64 = z mod 64"
proof -
  have 1: "w div 65536 = x" and 2: "w div 256 = 256 * x + y" using assms(1-6) unfolding w_def by linarith+
  have "w div 262144 = x div 4" using zdiv_zmult2_eq [of 4 w 65536] 1 by simp
  then show "w div 262144 mod 64 = x div 4" using assms(1-2) by simp
  have "w div 4096 = 16 * x + y div 16" using zdiv_zmult2_eq [of 16 w 256] 2 by simp
  moreover have "(16 * x + y div 16) mod 64 = x mod 4 * 16 + y div 16"
    using digit_split(3) [of "y div 16" 16 4 x] assms(3,4) by simp
  ultimately show "w div 4096 mod 64 = x mod 4 * 16 + y div 16" by simp
  have "w div 64 = 4 * (256 * x + y) + z div 64" unfolding w_def by simp
  moreover have "(4 * (256 * x + y) + z div 64) mod 64 = y mod 16 * 4 + z div 64"
  proof -
    have "(256 * x + y) mod 16 = y mod 16" using mod_mult_self2 [of y 16 "16 * x"] by (simp add: add.commute)
    then show ?thesis using digit_split(3) [of "z div 64" 4 16 "256 * x + y"] assms(5,6) by (simp add: mult.commute)
  qed
  ultimately show "w div 64 mod 64 = y mod 16 * 4 + z div 64" by simp
  show "w mod 64 = z mod 64" using mod_mult_self2 [of z 64 "1024 * x + 4 * y"] by (simp add: w_def algebra_simps)
qed

lemma sextets_of_three:
  fixes a b c :: byte
  defines "w \<equiv> push_bit 16 (uint a) + push_bit 8 (uint b) + uint c"
  shows "sextet1 w = b64 (s1 a)" "sextet2 w = b64 (s2 a b)" "sextet3 w = b64 (s3 b c)" "sextet4 w = b64 (s4 c)"
proof -
  have w: "w = 65536 * uint a + 256 * uint b + uint c" by (simp add: w_def push_bit_eq_mult)
  note r = three_windows [OF uint_byte [of a] uint_byte [of b] uint_byte [of c], folded w]
  show "sextet1 w = b64 (s1 a)" "sextet2 w = b64 (s2 a b)" "sextet3 w = b64 (s3 b c)" "sextet4 w = b64 (s4 c)"
    by (simp_all only: sextet1_def sextet2_def sextet3_def sextet4_def windows b64_def r s1_def s2_def s3_def s4_def)
qed

lemma sextets_of_two:
  fixes a b :: byte
  defines "w \<equiv> push_bit 16 (uint a) + push_bit 8 (uint b)"
  shows "sextet1 w = b64 (s1 a)" "sextet2 w = b64 (s2 a b)" "sextet3 w = b64 (s3 b 0)"
  using sextets_of_three [of a b 0] by (simp_all add: w_def)

lemma sextets_of_one:
  fixes a :: byte
  shows "sextet1 (push_bit 16 (uint a)) = b64 (s1 a)" "sextet2 (push_bit 16 (uint a)) = b64 (s2 a 0)"
  using sextets_of_three [of a 0 0] by simp_all

lemma bytes_of_sextets:
  "byte1 (s1 a) (s2 a b) = a" "byte2 (s2 a b) (s3 b c) = b" "byte3 (s3 b c) (s4 c) = c"
proof -
  note r = uint_byte [of a] uint_byte [of b] uint_byte [of c]
  have m: "x AND 15 = x mod 16" "x AND 3 = x mod 4" for x :: int
    using take_bit_eq_mask [of 4 x] take_bit_eq_mask [of 2 x] by (simp_all add: take_bit_eq_mod mask_eq_exp_minus_1)
  have d: "s2 a b div 16 = uint a mod 4" "s2 a b mod 16 = uint b div 16" "s3 b c div 4 = uint b mod 16" "s3 b c mod 4 = uint c div 64"
  proof -
    have n: "0 \<le> uint b div 16" "uint b div 16 < 16" "0 \<le> uint c div 64" "uint c div 64 < 4" using r by linarith+
    show "s2 a b div 16 = uint a mod 4" "s2 a b mod 16 = uint b div 16"
      using digit_split(1,2) [OF n(1,2), of 1 "uint a mod 4"] by (simp_all only: s2_def mult.commute)
    show "s3 b c div 4 = uint b mod 16" "s3 b c mod 4 = uint c div 64"
      using digit_split(1,2) [OF n(3,4), of 1 "uint b mod 16"] by (simp_all only: s3_def mult.commute)
  qed
  show "byte1 (s1 a) (s2 a b) = a" by (simp add: byte1_def push_bit_eq_mult drop_bit_eq_div d s1_def)
  show "byte2 (s2 a b) (s3 b c) = b" by (simp add: byte2_def m push_bit_eq_mult drop_bit_eq_div d)
  show "byte3 (s3 b c) (s4 c) = c" by (simp add: byte3_def m push_bit_eq_mult d s4_def)
qed

text \<open>The alphabet is inverted by \<^verbatim>\<open>base64_decode_char\<close> and contains neither the padding nor the terminator.\<close>

lemma length_base64 [simp]: "length base64 = 64"
  by (simp add: base64_def)

lemma alphabet: "list_all (\<lambda>i. base64_decode_char (base64 ! i) = int i \<and> base64 ! i \<noteq> 0) [0..<64]"
  by (simp add: base64_def base64_decode_char_def upt_rec)

lemma decode_b64 [simp]: "0 \<le> i \<Longrightarrow> i < 64 \<Longrightarrow> base64_decode_char (b64 i) = i"
  and b64_nonzero: "0 \<le> i \<Longrightarrow> i < 64 \<Longrightarrow> b64 i \<noteq> 0"
  using alphabet by (auto simp: list_all_iff b64_def dest!: bspec [of _ _ "nat i"])

lemma decode_sextets [simp]:
  "base64_decode_char (b64 (s1 a)) = s1 a" "base64_decode_char (b64 (s2 a b)) = s2 a b"
  "base64_decode_char (b64 (s3 b c)) = s3 b c" "base64_decode_char (b64 (s4 c)) = s4 c"
  by (simp_all add: sextet_bounds)

lemma sextets_valid [simp]: "s1 a \<noteq> - 1" "s2 a b \<noteq> - 1" "s3 b c \<noteq> - 1" "s4 c \<noteq> - 1"
  using sextet_bounds(1) [of a] sextet_bounds(2) [of a b] sextet_bounds(3) [of b c] sextet_bounds(4) [of c] by auto

lemma decode_pad [simp]: "base64_decode_char pad_char = - 1" and pad_nonzero: "pad_char \<noteq> 0"
  by code_simp+

section \<open>The encoder produces the encoding\<close>

fun base64_enc :: "byte list \<Rightarrow> byte list" where
  "base64_enc [] = []"
| "base64_enc [a] = [b64 (s1 a), b64 (s2 a 0), pad_char, pad_char]"
| "base64_enc [a, b] = [b64 (s1 a), b64 (s2 a b), b64 (s3 b 0), pad_char]"
| "base64_enc (a # b # c # xs) = b64 (s1 a) # b64 (s2 a b) # b64 (s3 b c) # b64 (s4 c) # base64_enc xs"

lemma length_base64_enc: "length (base64_enc xs) = 4 * ((length xs + 2) div 3)"
proof (induction xs rule: base64_enc.induct)
  case (4 a b c xs)
  have "length (a # b # c # xs) + 2 = (length xs + 2) + 3" by simp
  then have "(length (a # b # c # xs) + 2) div 3 = (length xs + 2) div 3 + 1" by (simp only: div_add_self2)
  then show ?case using 4 by (simp only: base64_enc.simps list.size) simp
qed auto

lemma three_elements: "3 \<le> length xs \<Longrightarrow> \<exists>a b c zs. xs = a # b # c # zs \<and> length xs = length zs + 3"
  by (auto simp: Suc_le_length_iff numeral_3_eq_3)

lemma base64_enc_nonzero: "0 \<notin> set (base64_enc xs)"
  by (induction xs rule: base64_enc.induct)
     (simp_all add: b64_nonzero [THEN not_sym] pad_nonzero [THEN not_sym] sextet_bounds)

lemma base64_enc_append: "length xs = 3 * k \<Longrightarrow> base64_enc (xs @ ys) = base64_enc xs @ base64_enc ys"
proof (induction k arbitrary: xs)
  case (Suc k)
  from Suc.prems obtain a b c zs where "xs = a # b # c # zs" "length zs = 3 * k"
    using three_elements [of xs] by auto
  then show ?case using Suc.IH [of zs] by simp
qed simp

lemma take_drop_block:
  "take (3 + n) (a # b # c # xs) = a # b # c # take n xs" "drop (3 + n) (a # b # c # xs) = drop n xs"
  "drop (4 + n) (a # b # c # d # ys) = drop n ys"
  by (simp_all add: eval_nat_numeral)

declare encode_blocks.simps [simp del]

lemma encode_blocks_ok:
  assumes "q + 3 * k \<le> length data" "q + 3 * k < 2 ^ 31" "p + 4 * k \<le> length ret"
  shows "encode_blocks data (int q) (int (q + 3 * k)) q p ret =
    Some (q + 3 * k, p + 4 * k, take p ret @ base64_enc (take (3 * k) (drop q data)) @ drop (p + 4 * k) ret)"
  using assms
proof (induction k arbitrary: q p ret)
  case 0
  then show ?case by (simp add: encode_blocks.simps)
next
  case (Suc k)
  have len: "3 \<le> length (drop q data)" using Suc.prems(1) by simp
  then obtain a b c zs where d: "drop q data = a # b # c # zs"
    using three_elements by blast
  have z: "zs = drop (q + 3) data" using d by (metis drop_drop drop_Suc_Cons drop0 numeral_3_eq_3 add.commute)
  let ?ret = "take p ret @ [b64 (s1 a), b64 (s2 a b), b64 (s3 b c), b64 (s4 c)] @ drop (p + 4) ret"
  have s: "drop (Suc (Suc (Suc (Suc p)))) ret = drop (p + 4) ret" by (simp add: eval_nat_numeral)
  have "encode_blocks data (int q) (int (q + 3 * Suc k)) q p ret =
      encode_blocks data (int (q + 3)) (int (q + 3 + 3 * k)) (q + 3) (p + 4) ?ret"
    using Suc.prems len
    by (subst encode_blocks.simps) (simp add: d sextets_of_three del: of_nat_add of_nat_mult, simp add: algebra_simps s)
  also have "\<dots> = Some (q + 3 + 3 * k, p + 4 + 4 * k, take (p + 4) ?ret @ base64_enc (take (3 * k) (drop (q + 3) data)) @
      drop (p + 4 + 4 * k) ?ret)"
    using Suc.prems by (intro Suc.IH) simp_all
  finally show ?case using Suc.prems z by (simp add: d algebra_simps take_drop_block)
qed

lemma encode_size:
  assumes "n < 2 ^ 31"
  shows "add64 (mul64 (add64 n 3) 4 div 3) 1 = (n + 3) * 4 div 3 + 1" "4 * ((n + 2) div 3) + 1 \<le> (n + 3) * 4 div 3 + 1"
    "sint (word_of_nat (n - n mod 3) :: 32 word) = int (3 * (n div 3))"
proof -
  have "(n + 3) * 4 div 3 \<le> (n + 3) * 4" by simp
  then have "(n + 3) * 4 div 3 + 1 < 2 ^ 64" using assms by simp
  then show "add64 (mul64 (add64 n 3) 4 div 3) 1 = (n + 3) * 4 div 3 + 1" using assms by simp
  show "4 * ((n + 2) div 3) + 1 \<le> (n + 3) * 4 div 3 + 1" by presburger
  have "sint (word_of_nat m :: 32 word) = int m" if "m < 2 ^ 31" for m
    using that by (simp add: signed_of_nat signed_take_bit_int_eq_self)
  then have "sint (word_of_nat (3 * (n div 3)) :: 32 word) = int (3 * (n div 3))" using assms by (meson le_less_trans times_div_less_eq_dividend)
  moreover have "n - n mod 3 = 3 * (n div 3)" by (simp add: minus_mod_eq_mult_div)
  ultimately show "sint (word_of_nat (n - n mod 3) :: 32 word) = int (3 * (n div 3))" by simp
qed

lemma base64_enc_split: "base64_enc xs = base64_enc (take (3 * (length xs div 3)) xs) @ base64_enc (drop (3 * (length xs div 3)) xs)"
proof -
  have "3 * (length xs div 3) \<le> length xs" by linarith
  then show ?thesis
    using base64_enc_append [of "take (3 * (length xs div 3)) xs" "length xs div 3" "drop (3 * (length xs div 3)) xs"] by simp
qed

lemma up_to_two:
  assumes "length xs < 3"
  obtains "length xs = 0" "xs = []" | a where "length xs = 1" "xs = [a]" | a b where "length xs = 2" "xs = [a, b]"
proof -
  from assms consider "length xs = 0" | "length xs = Suc 0" | "length xs = Suc (Suc 0)" by linarith
  then show thesis by cases (auto simp: length_Suc_conv intro: that)
qed

lemma encode_rest_ok:
  assumes "q \<le> length data" "length (drop q data) < 3" "length e = p" "p + length (base64_enc (drop q data)) < length blk"
  shows "encode_rest data (length (drop q data)) q p (e @ drop p blk) =
    Some (e @ base64_enc (drop q data) @ 0 # drop (p + length (base64_enc (drop q data)) + 1) blk)"
proof -
  have rd: "mem_read data q (length (drop q data)) = Some (drop q data)" using assms(1) by simp
  have d5: "drop (Suc (Suc (Suc (Suc (Suc p))))) blk = drop (5 + p) blk" by (simp add: eval_nat_numeral)
  show ?thesis using assms(2)
proof (cases rule: up_to_two)
  case 1
  then show ?thesis using assms(3,4) by (simp add: encode_rest_def)
next
  case (2 a)
  have "mem_read data q (Suc 0) = Some [a]" using rd unfolding 2 by simp
  then show ?thesis using assms(1,3,4) unfolding 2 by (simp add: encode_rest_def sextets_of_one d5)
next
  case (3 a b)
  have "mem_read data q 2 = Some [a, b]" using rd unfolding 3 by (simp add: numeral_2_eq_2)
  then show ?thesis using assms(1,3,4) unfolding 3 by (simp add: encode_rest_def sextets_of_two d5)
qed
qed

lemma encode_ok:
  assumes "malloc_ok malloc" "length data < 2 ^ 31" "malloc ((length data + 3) * 4 div 3 + 1) = Some blk"
  shows "\<exists>junk. crypto_base64_encode malloc data (length data) = Some (Some (base64_enc data @ 0 # junk))"
proof -
  let ?n = "length data" and ?k = "length data div 3"
  let ?ys = "drop (3 * ?k) data" and ?e = "base64_enc (take (3 * ?k) data)"
  note sz = encode_size [OF assms(2)]
  have blk: "length blk = (?n + 3) * 4 div 3 + 1" using malloc_okD [OF assms(1,3)] .
  have k: "3 * ?k \<le> ?n" "3 * ?k < 2 ^ 31" using assms(2) by linarith+
  have le: "length ?e = 4 * ?k" using k(1) by (simp add: length_base64_enc)
  have ly: "length ?ys = ?n mod 3" by (simp add: minus_mult_div_eq_mod)
  have tot: "4 * ?k + length (base64_enc ?ys) = 4 * ((?n + 2) div 3)"
    using arg_cong [OF base64_enc_split [of data], of length] le by (simp add: length_base64_enc)
  have kb: "4 * ?k + length (base64_enc ?ys) + 1 \<le> length blk" using sz(2) blk tot by simp
  have loop: "encode_blocks data 0 (int (3 * ?k)) 0 0 blk = Some (3 * ?k, 4 * ?k, ?e @ drop (4 * ?k) blk)"
    using encode_blocks_ok [of 0 ?k data 0 blk] k kb by simp
  have "crypto_base64_encode malloc data ?n = Some (Some (?e @ base64_enc ?ys @ 0 # drop (4 * ?k + length (base64_enc ?ys) + 1) blk))"
    unfolding crypto_base64_encode_def sz(1) assms(3) sz(3) option.case Let_def loop
    using encode_rest_ok [of "3 * ?k" data ?e "4 * ?k" blk] kb le k unfolding ly by simp
  then show ?thesis using base64_enc_split [of data] by (metis append_assoc)
qed

section \<open>The decoder inverts the encoding\<close>

lemma decode_blocks_ok:
  assumes "length xs = 3 * k" "q + 3 * k \<le> length d" "n + 3 * k < 2 ^ 64"
  shows "decode_blocks (pre @ base64_enc xs @ post) k (length pre) q n d =
    Some (Some (length pre + 4 * k, q + 3 * k, n + 3 * k, take q d @ xs @ drop (q + 3 * k) d))"
  using assms
proof (induction k arbitrary: pre xs q n d)
  case (Suc k)
  then obtain a b c zs where x: "xs = a # b # c # zs" "length zs = 3 * k" using three_elements [of xs] by auto
  let ?e = "[b64 (s1 a), b64 (s2 a b), b64 (s3 b c), b64 (s4 c)]"
  let ?d = "take q d @ [a, b, c] @ drop (q + 3) d"
  have rd: "mem_read (pre @ base64_enc xs @ post) (length pre) 4 = Some ?e" by (simp add: x mem_read_def)
  have wr: "mem_write d q [a, b, c] = Some ?d" using Suc.prems(2) by (simp add: eval_nat_numeral)
  have le: "length (pre @ ?e) = length pre + 4" by simp
  have "decode_blocks (pre @ base64_enc xs @ post) (Suc k) (length pre) q n d =
      decode_blocks ((pre @ ?e) @ base64_enc zs @ post) k (length (pre @ ?e)) (q + 3) (n + 3) ?d"
    unfolding le using Suc.prems(3) wr by (simp add: rd bytes_of_sextets) (simp add: x)
  also have "\<dots> = Some (Some (length (pre @ ?e) + 4 * k, q + 3 + 3 * k, n + 3 + 3 * k, take (q + 3) ?d @ zs @ drop (q + 3 + 3 * k) ?d))"
    using Suc.prems x by (intro Suc.IH) simp_all
  finally show ?case using Suc.prems(2) x by (simp add: algebra_simps take_drop_block)
qed simp

lemma decode_last_ok:
  assumes "ys \<noteq> []" "length ys \<le> 3" "q + 3 \<le> length d" "n + 3 < 2 ^ 64"
  shows "\<exists>d'. decode_last (pre @ base64_enc ys @ post) (length pre) q n d = Some (Some (n + length ys, d')) \<and>
    length d' = length d \<and> take (q + length ys) d' = take q d @ ys"
proof (cases "length ys < 3")
  case False
  then obtain a b c where y: "ys = [a, b, c]" using three_elements [of ys] assms(2) by auto
  show ?thesis using assms(3,4) unfolding y by (simp add: decode_last_def mem_read_def mem_write_def bytes_of_sextets) auto
next
  case True
  then show ?thesis
  proof (cases rule: up_to_two)
    case (2 a)
    then show ?thesis using assms(3,4) by (simp add: decode_last_def mem_read_def mem_write_def bytes_of_sextets) auto
  next
    case (3 a b)
    then show ?thesis using assms(3,4) by (simp add: decode_last_def mem_read_def mem_write_def bytes_of_sextets) auto
  qed (use assms(1) in simp)
qed

lemma decode_size:
  assumes "n < 2 ^ 62"
  shows "add64 (mul64 n 3) 1 = n * 3 + 1"
  using assms by simp

lemma decode_run:
  assumes "malloc (Suc k * 3 + 1) = Some blk" "Suc k < 2 ^ 62"
  shows "base64_decode malloc enc (4 * Suc k) = do {
      r \<leftarrow> decode_blocks enc k 0 0 0 blk;
      (case r of None \<Rightarrow> Some None
       | Some (s, q, outputLen, data) \<Rightarrow> do {
           r \<leftarrow> decode_last enc s q outputLen data;
           (case r of None \<Rightarrow> Some None
            | Some (outputLen, data) \<Rightarrow> do {
                data \<leftarrow> mem_write data outputLen [0];
                Some (Some (outputLen, data)) }) }) }"
proof -
  have "4 * Suc k mod 4 = 0" "4 * Suc k div 4 = Suc k" "\<not> Suc k < 1" "Suc k - 1 = k" by simp_all
  then show ?thesis unfolding base64_decode_def
    by (simp only: assms(1) decode_size [OF assms(2)] option.case Let_def if_False simp_thms)
qed

lemma decode_enc:
  assumes "malloc_ok malloc" "xs \<noteq> []" "length xs < 2 ^ 31" "malloc ((length xs + 2) div 3 * 3 + 1) = Some blk"
  shows "\<exists>d. base64_decode malloc (base64_enc xs @ post) (4 * ((length xs + 2) div 3)) = Some (Some (length xs, d)) \<and>
    length d = (length xs + 2) div 3 * 3 + 1 \<and> take (length xs) d = xs \<and> d ! length xs = 0"
proof -
  define k where "k = (length xs - 1) div 3"
  have N: "(length xs + 2) div 3 = Suc k" using assms(2) unfolding k_def by (cases xs) simp_all
  have k: "3 * k < length xs" "length xs \<le> 3 * k + 3" using assms(2) unfolding k_def by (cases xs; simp; presburger)+
  have blk: "length blk = Suc k * 3 + 1" using malloc_okD [OF assms(1,4)] N by simp
  let ?ys = "drop (3 * k) xs" and ?e = "base64_enc (take (3 * k) xs)"
  have e: "base64_enc xs @ post = [] @ ?e @ (base64_enc ?ys @ post)" "base64_enc xs @ post = ?e @ base64_enc ?ys @ post"
    using base64_enc_append [of "take (3 * k) xs" k ?ys] k by simp_all
  have le: "length ?e = 4 * k" using k by (simp add: length_base64_enc)
  let ?d1 = "take (3 * k) xs @ drop (3 * k) blk"
  have 1: "decode_blocks (base64_enc xs @ post) k 0 0 0 blk = Some (Some (4 * k, 3 * k, 3 * k, ?d1))"
    unfolding e(1) using decode_blocks_ok [of "take (3 * k) xs" k 0 blk 0 "[]" "base64_enc ?ys @ post"] k blk assms(3) by simp
  have r3: "length xs - 3 * k \<le> 3" using k(2) by linarith
  obtain d' where 2: "decode_last (base64_enc xs @ post) (4 * k) (3 * k) (3 * k) ?d1 = Some (Some (length xs, d'))"
    "length d' = length ?d1" "take (length xs) d' = xs"
    using decode_last_ok [of ?ys "3 * k" ?d1 "3 * k" ?e post] k blk assms(3) r3 unfolding e(2) le by auto
  have l: "length d' = Suc k * 3 + 1" using 2(2) blk k by simp
  have "base64_decode malloc (base64_enc xs @ post) (4 * Suc k) =
      Some (Some (length xs, take (length xs) d' @ [0] @ drop (length xs + 1) d'))"
  proof -
    have "Suc k < 2 ^ 62" using k assms(3) by simp
    then show ?thesis using decode_run [of malloc k blk, OF assms(4) [unfolded N]] l k 1 2(1) by simp
  qed
  then show ?thesis using 2(3) l k unfolding N by (simp add: nth_append)
qed

section \<open>The decoder on arbitrary input\<close>

lemma decode_blocks_safe:
  assumes "s + 4 * k \<le> length enc" "q + 3 * k \<le> length d" "n + 3 * k < 2 ^ 64"
  shows "decode_blocks enc k s q n d = Some None \<or>
    (\<exists>d'. decode_blocks enc k s q n d = Some (Some (s + 4 * k, q + 3 * k, n + 3 * k, d')) \<and> length d' = length d)"
  using assms
proof (induction k arbitrary: s q n d)
  case (Suc k)
  have rd: "mem_read enc s 4 = Some (take 4 (drop s enc))" using Suc.prems(1) by simp
  let ?n = "\<lambda>i. map base64_decode_char (take 4 (drop s enc)) ! i"
  let ?bs = "[byte1 (?n 0) (?n 1), byte2 (?n 1) (?n 2), byte3 (?n 2) (?n 3)]"
  obtain d1 where wr: "mem_write d q ?bs = Some d1" "length d1 = length d"
    using Suc.prems(2) length_mem_write by (fastforce simp: mem_write_def)
  have "decode_blocks enc k (s + 4) (q + 3) (n + 3) d1 = Some None \<or>
    (\<exists>d'. decode_blocks enc k (s + 4) (q + 3) (n + 3) d1 = Some (Some (s + 4 + 4 * k, q + 3 + 3 * k, n + 3 + 3 * k, d')) \<and>
      length d' = length d1)"
    using Suc.prems wr(2) by (intro Suc.IH) simp_all
  then show ?case using Suc.prems(3) wr rd by (auto simp: Let_def algebra_simps)
qed simp

lemma decode_last_safe:
  assumes "s + 4 \<le> length enc" "q + 3 \<le> length d" "n + 3 < 2 ^ 64"
  shows "decode_last enc s q n d = Some None \<or>
    (\<exists>d' k. decode_last enc s q n d = Some (Some (n + k, d')) \<and> 1 \<le> k \<and> k \<le> 3 \<and> length d' = length d)"
  using assms by (auto simp: decode_last_def mem_read_def mem_write_def Let_def)

text \<open>
  C39: Base64 text made by \<^verbatim>\<open>crypto_base64_encode\<close> is a zero terminated string of the length of RFC 4648
  that \<^verbatim>\<open>crypto_base64_decode\<close> turns back into the same bytes, for every non-empty input below 2 GiB.
\<close>

theorem base64_roundtrip:
  assumes "malloc_ok malloc" "data \<noteq> []" "length data < 2 ^ 31"
    "malloc ((length data + 3) * 4 div 3 + 1) = Some b1" "malloc ((length data + 2) div 3 * 3 + 1) = Some b2"
  shows "\<exists>enc d. crypto_base64_encode malloc data (length data) = Some (Some enc) \<and>
    length (takeWhile (\<lambda>c. c \<noteq> 0) enc) = 4 * ((length data + 2) div 3) \<and>
    crypto_base64_decode malloc enc (length (takeWhile (\<lambda>c. c \<noteq> 0) enc)) r = Some (Some d, length data) \<and>
    take (length data) d = data"
proof -
  obtain junk where e: "crypto_base64_encode malloc data (length data) = Some (Some (base64_enc data @ 0 # junk))"
    using encode_ok [OF assms(1,3,4)] by blast
  obtain d where d: "base64_decode malloc (base64_enc data @ 0 # junk) (4 * ((length data + 2) div 3)) = Some (Some (length data, d))"
    "take (length data) d = data"
    using decode_enc [OF assms(1,2,3,5)] by blast
  have "takeWhile (\<lambda>c. c \<noteq> 0) (base64_enc data @ 0 # junk) = base64_enc data"
    using base64_enc_nonzero [of data] by (subst takeWhile_append2) auto
  then show ?thesis using e d by (simp add: crypto_base64_decode_def length_base64_enc)
qed

theorem base64_roundtrip_witness:
  "\<exists>enc d. crypto_base64_encode zero_malloc [77, 97, 110, 33] 4 = Some (Some enc) \<and>
    length (takeWhile (\<lambda>c. c \<noteq> 0) enc) = 8 \<and>
    crypto_base64_decode zero_malloc enc (length (takeWhile (\<lambda>c. c \<noteq> 0) enc)) 0 = Some (Some d, 4) \<and>
    take 4 d = [77, 97, 110, 33]"
proof -
  have l: "length [77 :: byte, 97, 110, 33] = 4" by simp
  show ?thesis
    using base64_roundtrip [of zero_malloc "[77, 97, 110, 33]" "replicate 10 0" "replicate 7 0" 0, unfolded l]
    by (simp add: zero_malloc_def)
qed

text \<open>
  \<^verbatim>\<open>base64_decode\<close> returns on every string, never leaves the string or the block it allocated, and
  either refuses the input or delivers a zero terminated block of at most three bytes for each four
  characters.
\<close>

lemma base64_decode_safe:
  assumes "malloc_ok malloc" "len \<le> length enc" "len < 2 ^ 62"
  shows "base64_decode malloc enc len = Some None \<or>
    (\<exists>n d. base64_decode malloc enc len = Some (Some (n, d)) \<and> len mod 4 = 0 \<and> 0 < n \<and> n \<le> len div 4 * 3 \<and>
      length d = len div 4 * 3 + 1 \<and> d ! n = 0)"
proof (cases "len mod 4 \<noteq> 0 \<or> len div 4 < 1 \<or> malloc (len div 4 * 3 + 1) = None")
  case True
  have "add64 (mul64 (len div 4) 3) 1 = len div 4 * 3 + 1" using assms(3) by (intro decode_size) linarith
  with True show ?thesis unfolding base64_decode_def by (auto split: option.splits)
next
  case False
  then obtain k blk where k: "len = 4 * Suc k" "malloc (Suc k * 3 + 1) = Some blk"
    by (cases "len div 4") auto
  have blk: "length blk = Suc k * 3 + 1" using malloc_okD [OF assms(1) k(2)] .
  have "Suc k < 2 ^ 62" using assms(3) k(1) by simp
  note run = decode_run [of malloc k blk enc, OF k(2) this, folded k(1)]
  have b: "decode_blocks enc k 0 0 0 blk = Some None \<or>
      (\<exists>d'. decode_blocks enc k 0 0 0 blk = Some (Some (4 * k, 3 * k, 3 * k, d')) \<and> length d' = length blk)"
    using decode_blocks_safe [of 0 k enc 0 blk 0] assms(2,3) k(1) blk by simp
  have l: "decode_last enc (4 * k) (3 * k) (3 * k) d = Some None \<or>
      (\<exists>d' j. decode_last enc (4 * k) (3 * k) (3 * k) d = Some (Some (3 * k + j, d')) \<and> 1 \<le> j \<and> j \<le> 3 \<and> length d' = length blk)"
    if "length d = length blk" for d
    using decode_last_safe [of "4 * k" enc "3 * k" d "3 * k"] assms(2,3) k(1) blk that by simp
  consider "base64_decode malloc enc len = Some None"
    | d where "decode_blocks enc k 0 0 0 blk = Some (Some (4 * k, 3 * k, 3 * k, d))" "length d = length blk"
    using b run by fastforce
  then show ?thesis
  proof cases
    case (2 d)
    consider "base64_decode malloc enc len = Some None"
      | d' j where "decode_last enc (4 * k) (3 * k) (3 * k) d = Some (Some (3 * k + j, d'))" "1 \<le> j" "j \<le> 3" "length d' = length blk"
      using l [OF 2(2)] run 2(1) by fastforce
    then show ?thesis
    proof cases
      case (2 d' j)
      have "base64_decode malloc enc len = Some (Some (3 * k + j, take (3 * k + j) d' @ [0] @ drop (3 * k + j + 1) d'))"
        unfolding run using 2 \<open>decode_blocks _ _ _ _ _ _ = _\<close> blk by simp
      then show ?thesis using 2 blk k(1) by (simp add: nth_append)
    qed simp
  qed simp
qed

text \<open>The word ``Man!'', in a string of eight characters.\<close>

end
