(* ===== verification/Ring_Buffer.thy ===== *)
theory Ring_Buffer
  imports Prelude
begin

text \<open>
  The growing ring buffer of \<^verbatim>\<open>libfreerdp/utils/ringbuffer.c\<close>, which carries the bytes between the
  transport and its peers (the send buffer of \<^verbatim>\<open>tcp.c\<close>, the receive pipe of \<^verbatim>\<open>rpc_client.c\<close>).

  The state is the record of the C structure. The abstraction \<open>rb_contents\<close> is the list of bytes
  still to be read, and \<open>rb_inv\<close> the invariant, which keeps at least one byte free: the code takes
  equal read and write positions for an empty buffer. The locale \<open>byte_fifo\<close> states what a client
  of the buffer relies on and proves that every run delivers the written bytes in order.
\<close>

section \<open>State and operations\<close>

record RingBuffer =
  initialSize :: nat
  freeSize :: nat
  rb_size :: nat
  readPtr :: nat
  writePtr :: nat
  rb_buffer :: "byte list"

definition ringbuffer_init :: "allocator \<Rightarrow> RingBuffer \<Rightarrow> nat \<Rightarrow> bool \<times> RingBuffer" where
  "ringbuffer_init malloc rb n =
     (case malloc n of None \<Rightarrow> (False, rb)
      | Some blk \<Rightarrow> (True, \<lparr>initialSize = n, freeSize = n, rb_size = n, readPtr = 0, writePtr = 0,
                          rb_buffer = blk\<rparr>))"

definition ringbuffer_used :: "RingBuffer \<Rightarrow> nat" where
  "ringbuffer_used rb = sub64 (rb_size rb) (freeSize rb)"

definition ringbuffer_capacity :: "RingBuffer \<Rightarrow> nat" where
  "ringbuffer_capacity rb = rb_size rb"

text \<open>The bytes in use, copied to the front of the new block \<open>nd\<close>; the caller has excluded an empty buffer.\<close>

definition rb_linearise :: "RingBuffer \<Rightarrow> byte list \<Rightarrow> byte list option" where
  "rb_linearise rb nd =
     (if readPtr rb < writePtr rb then do {
        bs \<leftarrow> mem_read (rb_buffer rb) (readPtr rb) (ringbuffer_used rb);
        mem_write nd 0 bs }
      else do {
        bs \<leftarrow> mem_read (rb_buffer rb) (readPtr rb) (sub64 (rb_size rb) (readPtr rb));
        nd \<leftarrow> mem_write nd 0 bs;
        (if writePtr rb \<noteq> 0 then do {
           bs \<leftarrow> mem_read (rb_buffer rb) 0 (writePtr rb);
           mem_write nd (sub64 (rb_size rb) (readPtr rb)) bs }
         else Some nd) })"

definition ringbuffer_realloc :: "allocator \<Rightarrow> RingBuffer \<Rightarrow> nat \<Rightarrow> (bool \<times> RingBuffer) option" where
  "ringbuffer_realloc malloc rb targetSize = do {
     rb' \<leftarrow>
       (if writePtr rb = readPtr rb then
          Some (map_option (\<lambda>nd. rb\<lparr>readPtr := 0, writePtr := 0, rb_buffer := nd\<rparr>)
            (c_realloc malloc (rb_buffer rb) targetSize))
        else if writePtr rb \<ge> readPtr rb \<and> writePtr rb < targetSize then
          Some (map_option (\<lambda>nd. rb\<lparr>rb_buffer := nd\<rparr>) (c_realloc malloc (rb_buffer rb) targetSize))
        else (case malloc targetSize of None \<Rightarrow> Some None
          | Some nd \<Rightarrow> do {
              nd \<leftarrow> rb_linearise rb nd;
              Some (Some (rb\<lparr>writePtr := sub64 (rb_size rb) (freeSize rb), readPtr := 0, rb_buffer := nd\<rparr>)) }));
     (case rb' of None \<Rightarrow> Some (False, rb)
      | Some rb \<Rightarrow>
          Some (True, rb\<lparr>freeSize := add64 (freeSize rb) (sub64 targetSize (rb_size rb)),
                         rb_size := targetSize\<rparr>)) }"

text \<open>The two copies of \<^verbatim>\<open>ringbuffer_write\<close>: up to the end of the block, then from its start.\<close>

definition rb_copy_in :: "RingBuffer \<Rightarrow> byte list \<Rightarrow> byte list option" where
  "rb_copy_in rb bs = do {
     let sz = length bs;
     let toWrite = (if sub64 (rb_size rb) (writePtr rb) < sz then sub64 (rb_size rb) (writePtr rb) else sz);
     buf \<leftarrow> (if toWrite \<noteq> 0 then mem_write (rb_buffer rb) (writePtr rb) (take toWrite bs) else Some (rb_buffer rb));
     let remaining = sz - toWrite;
     (if remaining \<noteq> 0 then mem_write buf 0 (drop toWrite bs) else Some buf) }"

definition ringbuffer_write :: "allocator \<Rightarrow> RingBuffer \<Rightarrow> byte list \<Rightarrow> (bool \<times> RingBuffer) option" where
  "ringbuffer_write malloc rb bs = do {
     let sz = length bs;
     (ok, rb) \<leftarrow> (if freeSize rb \<le> sz then ringbuffer_realloc malloc rb (add64 (rb_size rb) sz) else Some (True, rb));
     (if \<not> ok then Some (False, rb) else do {
     buf \<leftarrow> rb_copy_in rb bs;
     Some (True, rb\<lparr>rb_buffer := buf, writePtr := add64 (writePtr rb) sz mod rb_size rb,
                    freeSize := sub64 (freeSize rb) sz\<rparr>) }) }"

text \<open>
  The result is the offset of the returned pointer in the block, \<open>None\<close> for a null pointer.
  \<^verbatim>\<open>memmove\<close> copies through an intermediate buffer, so the source is read before the target is written.
\<close>

definition rb_linear_head :: "RingBuffer \<Rightarrow> nat \<Rightarrow> (nat option \<times> RingBuffer) option" where
  "rb_linear_head rb sz =
     (if add64 (writePtr rb) sz < rb_size rb then Some (Some (writePtr rb), rb)
      else do {
        bs \<leftarrow> mem_read (rb_buffer rb) (readPtr rb) (sub64 (writePtr rb) (readPtr rb));
        buf \<leftarrow> mem_write (rb_buffer rb) 0 bs;
        let rb = rb\<lparr>rb_buffer := buf, readPtr := 0, writePtr := sub64 (rb_size rb) (freeSize rb)\<rparr>;
        Some (Some (writePtr rb), rb) })"

definition rb_reset_empty :: "RingBuffer \<Rightarrow> RingBuffer" where
  "rb_reset_empty rb = (if writePtr rb = readPtr rb then rb\<lparr>writePtr := 0, readPtr := 0\<rparr> else rb)"

definition ringbuffer_ensure_linear_write :: "allocator \<Rightarrow> RingBuffer \<Rightarrow> nat \<Rightarrow> (nat option \<times> RingBuffer) option" where
  "ringbuffer_ensure_linear_write malloc rb sz = do {
     (ok, rb) \<leftarrow> (if freeSize rb < sz
        then ringbuffer_realloc malloc rb (add64 (sub64 (add64 (rb_size rb) sz) (freeSize rb)) 32)
        else Some (True, rb));
     (if \<not> ok then Some (None, rb) else rb_linear_head (rb_reset_empty rb) sz) }"

definition ringbuffer_commit_written_bytes :: "RingBuffer \<Rightarrow> nat \<Rightarrow> bool \<times> RingBuffer" where
  "ringbuffer_commit_written_bytes rb sz =
     (if sz < 1 then (True, rb)
      else if add64 (writePtr rb) sz > rb_size rb then (False, rb)
      else (True, rb\<lparr>writePtr := add64 (writePtr rb) sz mod rb_size rb, freeSize := sub64 (freeSize rb) sz\<rparr>))"

text \<open>The chunks as pairs of offset and size.\<close>

definition ringbuffer_peek :: "RingBuffer \<Rightarrow> nat \<Rightarrow> (nat \<times> nat) list" where
  "ringbuffer_peek rb sz =
     (if sz < 1 then []
      else let remaining = (if sub64 (rb_size rb) (freeSize rb) < sz then sub64 (rb_size rb) (freeSize rb) else sz);
               toRead = (if add64 (readPtr rb) remaining > rb_size rb then sub64 (rb_size rb) (readPtr rb) else remaining);
               first = (if toRead \<noteq> 0 then [(readPtr rb, toRead)] else []);
               remaining = sub64 remaining toRead
           in first @ (if remaining \<noteq> 0 then [(0, remaining)] else []))"

definition ringbuffer_commit_read_bytes :: "allocator \<Rightarrow> RingBuffer \<Rightarrow> nat \<Rightarrow> RingBuffer option" where
  "ringbuffer_commit_read_bytes malloc rb sz =
     (if sz < 1 then Some rb
      else if \<not> sub64 (rb_size rb) (freeSize rb) \<ge> sz then None
      else do {
        let rb = rb\<lparr>readPtr := add64 (readPtr rb) sz mod rb_size rb, freeSize := add64 (freeSize rb) sz\<rparr>;
        (if rb_size rb \<noteq> initialSize rb \<and> ringbuffer_used rb < initialSize rb div 2 then do {
           (_, rb) \<leftarrow> ringbuffer_realloc malloc rb (initialSize rb);
           Some rb }
         else Some rb) })"

section \<open>Invariant and abstraction\<close>

definition rb_contents :: "RingBuffer \<Rightarrow> byte list" where
  "rb_contents rb = ring (rb_buffer rb) (readPtr rb) (rb_size rb - freeSize rb)"

definition rb_inv :: "RingBuffer \<Rightarrow> bool" where
  "rb_inv rb \<longleftrightarrow> length (rb_buffer rb) = rb_size rb \<and> rb_size rb < 2 ^ 63 \<and> 0 < initialSize rb \<and>
     initialSize rb < 2 ^ 63 \<and> 0 < freeSize rb \<and> freeSize rb \<le> rb_size rb \<and> readPtr rb < rb_size rb \<and>
     writePtr rb = (readPtr rb + (rb_size rb - freeSize rb)) mod rb_size rb"

section \<open>Growing and shrinking\<close>

lemma rb_used [simp]: "rb_inv rb \<Longrightarrow> ringbuffer_used rb = rb_size rb - freeSize rb"
  by (simp add: ringbuffer_used_def rb_inv_def)

text \<open>With the invariant the write position tells empty, linear and wrapped contents apart.\<close>

lemma rb_layout:
  assumes "rb_inv rb"
  shows "writePtr rb < rb_size rb"
    and "writePtr rb = readPtr rb \<longleftrightarrow> freeSize rb = rb_size rb"
    and "readPtr rb \<le> writePtr rb \<longleftrightarrow> readPtr rb + (rb_size rb - freeSize rb) < rb_size rb"
    and "readPtr rb \<le> writePtr rb \<Longrightarrow> writePtr rb = readPtr rb + (rb_size rb - freeSize rb)"
    and "\<not> readPtr rb \<le> writePtr rb \<Longrightarrow> writePtr rb + rb_size rb = readPtr rb + (rb_size rb - freeSize rb)"
  using assms mod_wrap [of "readPtr rb" "rb_size rb" "rb_size rb - freeSize rb"]
  by (auto simp: rb_inv_def split: if_splits)

lemma rb_linearise_ok:
  assumes i: "rb_inv rb" and ne: "writePtr rb \<noteq> readPtr rb" and n: "rb_size rb - freeSize rb \<le> length nd"
  shows "\<exists>nd'. rb_linearise rb nd = Some nd' \<and> length nd' = length nd \<and>
    take (rb_size rb - freeSize rb) nd' = rb_contents rb"
proof (cases "readPtr rb < writePtr rb")
  case True
  then show ?thesis using i n rb_layout [OF i]
    by (auto simp: rb_linearise_def mem_read_def mem_write_def rb_contents_def ring_linear rb_inv_def
        ringbuffer_used_def)
next
  case False
  let ?u = "rb_size rb - freeSize rb" let ?k = "rb_size rb - readPtr rb" let ?b = "rb_buffer rb"
  have l: "length ?b = rb_size rb" "readPtr rb < rb_size rb" "rb_size rb < 2 ^ 64"
    using i by (auto simp: rb_inv_def)
  have w: "writePtr rb + rb_size rb = readPtr rb + ?u" using False ne rb_layout(5) [OF i] by simp
  have "ring ?b (readPtr rb) ?u = drop (readPtr rb) ?b @ take (readPtr rb + ?u - length ?b) ?b"
    using w l by (intro ring_wrapped) linarith+
  moreover have "readPtr rb + ?u - length ?b = writePtr rb" using w l(1) by linarith
  ultimately have c: "rb_contents rb = drop (readPtr rb) ?b @ take (writePtr rb) ?b"
    by (simp only: rb_contents_def)
  have s: "sub64 (rb_size rb) (readPtr rb) = ?k" using l by simp
  have kn: "?k + writePtr rb = ?u" "writePtr rb \<le> rb_size rb" using w l rb_layout(1) [OF i] by simp_all
  then have 1: "mem_write nd 0 (drop (readPtr rb) ?b) = Some (drop (readPtr rb) ?b @ drop ?k nd)" (is "_ = Some ?n1")
    using n l by simp
  have 2: "mem_write ?n1 ?k (take (writePtr rb) ?b) = Some (drop (readPtr rb) ?b @ take (writePtr rb) ?b @ drop ?u nd)"
    using n l kn by (simp add: add.commute)
  have len: "length (rb_contents rb) = ?u" by (simp add: rb_contents_def)
  have "rb_linearise rb nd = Some (rb_contents rb @ drop ?u nd)"
  proof (cases "writePtr rb = 0")
    case True
    then have "?u = ?k" using kn(1) by simp
    with True show ?thesis using False l s 1 c by (simp add: rb_linearise_def)
  next
    case nz: False
    then show ?thesis using False l s 1 2 kn(2) unfolding c by (simp add: rb_linearise_def del: mem_write_ok)
  qed
  then show ?thesis using len n by simp
qed

lemma resize_free:
  assumes "f \<le> sz" "sz < 2 ^ 63" "t < 2 ^ 63" "sz - f < t"
  shows "add64 f (sub64 t sz) = t - (sz - f)"
proof (cases "sz \<le> t")
  case True
  then show ?thesis using assms by simp
next
  case False
  then have "f + sub64 t sz = (t - (sz - f)) + 2 ^ 64" using assms by (simp add: sub64_wraps)
  then have "add64 f (sub64 t sz) = (t - (sz - f)) mod 2 ^ 64" by (simp only: add64_def mod_add_self2)
  then show ?thesis using assms by simp
qed

lemma realloc_ok:
  assumes i: "rb_inv rb" and m: "malloc_bounded malloc" and t: "rb_size rb - freeSize rb < t"
  shows "run_ok (ringbuffer_realloc malloc rb t) (\<lambda>ok rb'. if ok then rb_inv rb' \<and> rb_contents rb' = rb_contents rb \<and>
      initialSize rb' = initialSize rb \<and> rb_size rb' = t \<and> freeSize rb' = t - (rb_size rb - freeSize rb) \<and>
      (\<not> readPtr rb \<le> writePtr rb \<longrightarrow> readPtr rb' = 0) else rb' = rb)"
proof -
  let ?u = "rb_size rb - freeSize rb"
  have bd: "length (rb_buffer rb) = rb_size rb" "rb_size rb < 2 ^ 63" "freeSize rb \<le> rb_size rb"
    "0 < initialSize rb" "initialSize rb < 2 ^ 63" "readPtr rb < rb_size rb"
    using i by (auto simp: rb_inv_def)
  note lay = rb_layout [OF i]
  have alloc: "length blk = t" "t < 2 ^ 63" if "malloc t = Some blk" for blk
    using malloc_boundedD [OF m that] .
  have fr: "add64 (freeSize rb) (sub64 t (rb_size rb)) = t - ?u" if "t < 2 ^ 63"
    using bd that t by (intro resize_free) auto
  have re: "length nd = t" "t < 2 ^ 63" "take k nd = take k (rb_buffer rb)"
    if "c_realloc malloc (rb_buffer rb) t = Some nd" "k \<le> t" "k \<le> rb_size rb" for nd k
    using that alloc m bd c_realloc_prefix [of malloc "rb_buffer rb" t nd k]
      c_realloc_length [of malloc "rb_buffer rb" t nd]
    by (auto simp: c_realloc_def malloc_bounded_def split: option.splits)
  consider "writePtr rb = readPtr rb" | "writePtr rb \<noteq> readPtr rb" "readPtr rb \<le> writePtr rb" "writePtr rb < t"
    | "writePtr rb \<noteq> readPtr rb" "\<not> (readPtr rb \<le> writePtr rb \<and> writePtr rb < t)" by blast
  then show ?thesis
  proof cases
    case 1
    then have "?u = 0" using lay(2) by simp
    then show ?thesis using 1 t bd re [of _ 0] fr
      by (auto simp: ringbuffer_realloc_def rb_inv_def rb_contents_def split: option.splits)
  next
    case 2
    then have w: "writePtr rb = readPtr rb + ?u" using lay(4) by simp
    show ?thesis
    proof (cases "c_realloc malloc (rb_buffer rb) t")
      case None
      then show ?thesis using 2 by (simp add: ringbuffer_realloc_def)
    next
      case (Some nd)
      have n: "length nd = t" "t < 2 ^ 63" using re [OF Some, of 0] by simp_all
      have "take (writePtr rb) nd = take (writePtr rb) (rb_buffer rb)" using re(3) [OF Some] 2 lay(1) by simp
      then have "ring nd (readPtr rb) ?u = rb_contents rb"
        unfolding rb_contents_def using w 2 n bd lay(1) by (intro ring_prefix [of "writePtr rb"]) simp_all
      moreover have "writePtr rb = (readPtr rb + (t - (t - ?u))) mod t" using w 2 t by simp
      ultimately show ?thesis using 2 Some n bd t fr w
        by (simp add: ringbuffer_realloc_def rb_inv_def rb_contents_def) (intro conjI; linarith)
    qed
  next
    case 3
    note r = ringbuffer_realloc_def if_not_P [OF 3(1)] if_not_P [OF 3(2)]
    show ?thesis
    proof (cases "malloc t")
      case None
      then show ?thesis unfolding r by simp
    next
      case (Some nd)
      then obtain nd' where nd: "rb_linearise rb nd = Some nd'" "length nd' = t" "take ?u nd' = rb_contents rb"
        using rb_linearise_ok [OF i 3(1), of nd] alloc t by auto
      then have "ring nd' 0 ?u = rb_contents rb" using t by (simp add: ring_linear)
      moreover have "sub64 (rb_size rb) (freeSize rb) = ?u" using bd by simp
      ultimately show ?thesis using Some nd alloc bd t fr
        unfolding r by (simp add: rb_inv_def rb_contents_def) (intro conjI; linarith)
    qed
  qed
qed

section \<open>Writing\<close>

text \<open>Copying in around the end: the new bytes are at the write position, all others are untouched.\<close>

lemma copy_in_ok:
  assumes l: "length (rb_buffer rb) = rb_size rb" "rb_size rb < 2 ^ 63" "writePtr rb < rb_size rb" "length bs \<le> rb_size rb"
  shows "\<exists>buf. rb_copy_in rb bs = Some buf \<and> length buf = rb_size rb \<and>
    (\<forall>j < length bs. buf ! ((writePtr rb + j) mod rb_size rb) = bs ! j) \<and>
    (\<forall>j < rb_size rb - length bs. buf ! ((writePtr rb + length bs + j) mod rb_size rb) =
       rb_buffer rb ! ((writePtr rb + length bs + j) mod rb_size rb))"
proof -
  let ?sz = "rb_size rb" let ?w = "writePtr rb" let ?n = "length bs" let ?b = "rb_buffer rb" let ?k = "?sz - ?w"
  have s: "sub64 ?sz ?w = ?k" using l by simp
  show ?thesis
  proof (cases "?k < ?n")
    case False
    let ?buf = "take ?w ?b @ bs @ drop (?w + ?n) ?b"
    have "rb_copy_in rb bs = Some ?buf"
      using False l s by (cases "bs = []") (simp_all add: rb_copy_in_def)
    moreover have "length ?buf = ?sz" using False l by simp
    moreover have "?buf ! ((?w + j) mod ?sz) = bs ! j" if "j < ?n" for j
      using that False l by (auto simp: nth_append)
    moreover have "?buf ! ((?w + ?n + j) mod ?sz) = ?b ! ((?w + ?n + j) mod ?sz)" if "j < ?sz - ?n" for j
      using that False l mod_wrap [of ?w ?sz "?n + j"] by (auto simp: nth_append add.assoc min_def split: if_splits)
    ultimately show ?thesis by blast
  next
    case True
    let ?buf = "drop ?k bs @ drop (?n - ?k) (take ?w ?b @ take ?k bs)"
    have "rb_copy_in rb bs = Some ?buf"
      using True l s by (simp add: rb_copy_in_def Let_def)
    moreover have "length ?buf = ?sz" using True l by simp
    moreover have "?buf ! ((?w + j) mod ?sz) = bs ! j" if "j < ?n" for j
      using that True l mod_wrap [of ?w ?sz j] by (auto simp: nth_append split: if_splits)
    moreover have "?buf ! ((?w + ?n + j) mod ?sz) = ?b ! ((?w + ?n + j) mod ?sz)" if "j < ?sz - ?n" for j
      using that True l mod_wrap [of ?w ?sz "?n + j"] by (auto simp: nth_append add.assoc split: if_splits)
    ultimately show ?thesis by blast
  qed
qed

text \<open>Once there is room for more than \<open>bs\<close>, the copy and the new write position append \<open>bs\<close>.\<close>

lemma append_ok:
  assumes i: "rb_inv rb" and n: "length bs < freeSize rb"
    and b: "length buf = rb_size rb"
      "\<forall>j < length bs. buf ! ((writePtr rb + j) mod rb_size rb) = bs ! j"
      "\<forall>j < rb_size rb - length bs. buf ! ((writePtr rb + length bs + j) mod rb_size rb) =
         rb_buffer rb ! ((writePtr rb + length bs + j) mod rb_size rb)"
    and rb': "rb' = rb\<lparr>rb_buffer := buf, writePtr := add64 (writePtr rb) (length bs) mod rb_size rb,
                    freeSize := sub64 (freeSize rb) (length bs)\<rparr>"
  shows "rb_inv rb' \<and> rb_contents rb' = rb_contents rb @ bs"
proof -
  let ?sz = "rb_size rb" let ?r = "readPtr rb" let ?u = "rb_size rb - freeSize rb" let ?n = "length bs" let ?w = "writePtr rb"
  have bd: "length (rb_buffer rb) = ?sz" "?sz < 2 ^ 63" "freeSize rb \<le> ?sz" "?r < ?sz" "?w = (?r + ?u) mod ?sz" "?w < ?sz"
    using i rb_layout(1) [OF i] by (auto simp: rb_inv_def)
  have f: "sub64 (freeSize rb) ?n = freeSize rb - ?n" "add64 ?w ?n = ?w + ?n" using bd(2,3,6) n by simp_all
  have u: "?sz - (freeSize rb - ?n) = ?u + ?n" using bd n by simp
  have inv: "rb_inv rb'" using i n b(1) f u bd
    by (simp add: rb' rb_inv_def mod_add_left_eq add.assoc)
  have "ring buf ?r (?u + ?n) = ring (rb_buffer rb) ?r ?u @ bs"
  proof (rule nth_equalityI)
    fix k assume k: "k < length (ring buf ?r (?u + ?n))"
    show "ring buf ?r (?u + ?n) ! k = (ring (rb_buffer rb) ?r ?u @ bs) ! k"
    proof (cases "k < ?u")
      case True
      have "(?w + ?n + (freeSize rb - ?n + k)) mod ?sz = (?r + (?u + freeSize rb) + k) mod ?sz"
        unfolding bd(5) using n by (simp add: mod_add_left_eq add.assoc)
      also have "?r + (?u + freeSize rb) + k = ?r + k + ?sz" using bd(3) by simp
      also have "(?r + k + ?sz) mod ?sz = (?r + k) mod ?sz" by (rule mod_add_self2)
      finally have "(?w + ?n + (freeSize rb - ?n + k)) mod ?sz = (?r + k) mod ?sz" .
      moreover have "freeSize rb - ?n + k < ?sz - ?n" using True n bd by simp
      ultimately show ?thesis using True b bd(1) k by (simp add: nth_append) (metis b(3))
    next
      case False
      then obtain j where j: "k = ?u + j" by (metis le_Suc_ex not_less)
      have "(?w + j) mod ?sz = (?r + k) mod ?sz" unfolding bd(5) j by (simp add: mod_add_left_eq add.assoc)
      then show ?thesis using b k j by (simp add: nth_append) (metis)
    qed
  qed simp
  then show ?thesis using inv u f by (simp add: rb' rb_contents_def)
qed

lemma write_ok:
  assumes i: "rb_inv rb" and m: "malloc_bounded malloc" and n: "length bs < 2 ^ 63"
  shows "run_ok (ringbuffer_write malloc rb bs) (\<lambda>ok rb'. rb_inv rb' \<and>
    (if ok then rb_contents rb' = rb_contents rb @ bs else rb' = rb))"
proof -
  have fin: "run_ok (do { buf \<leftarrow> rb_copy_in r bs;
      Some (True, r\<lparr>rb_buffer := buf, writePtr := add64 (writePtr r) (length bs) mod rb_size r,
                    freeSize := sub64 (freeSize r) (length bs)\<rparr>) })
      (\<lambda>ok rb'. ok \<and> rb_inv rb' \<and> rb_contents rb' = rb_contents r @ bs)"
    if r: "rb_inv r" "length bs < freeSize r" for r
  proof -
    have "length (rb_buffer r) = rb_size r" "rb_size r < 2 ^ 63" "writePtr r < rb_size r" "length bs \<le> rb_size r"
      using r rb_layout(1) [OF r(1)] by (auto simp: rb_inv_def)
    from copy_in_ok [OF this] show ?thesis using append_ok [OF r _ _ _ refl] by auto
  qed
  show ?thesis
  proof (cases "freeSize rb \<le> length bs")
    case False
    then show ?thesis using fin [OF i] by (auto simp: ringbuffer_write_def Let_def intro: run_ok_mono)
  next
    case True
    have a: "add64 (rb_size rb) (length bs) = rb_size rb + length bs" using i n by (simp add: rb_inv_def)
    have "rb_size rb - freeSize rb < rb_size rb + length bs" using i by (auto simp: rb_inv_def)
    from realloc_ok [OF i m this] have "run_ok (ringbuffer_realloc malloc rb (rb_size rb + length bs))
      (\<lambda>ok rb'. if ok then rb_inv rb' \<and> rb_contents rb' = rb_contents rb \<and> length bs < freeSize rb' else rb' = rb)"
      by (rule run_ok_mono) (use i in \<open>auto simp: rb_inv_def split: if_splits\<close>)
    then obtain ok r where r: "ringbuffer_realloc malloc rb (rb_size rb + length bs) = Some (ok, r)"
      "if ok then rb_inv r \<and> rb_contents r = rb_contents rb \<and> length bs < freeSize r else r = rb" by (rule run_okE)
    show ?thesis
    proof (cases ok)
      case True
      then show ?thesis using fin [of r] r \<open>freeSize rb \<le> length bs\<close> a
        by (auto simp: ringbuffer_write_def Let_def intro: run_ok_mono)
    next
      case False
      then show ?thesis using r \<open>freeSize rb \<le> length bs\<close> a i by (simp add: ringbuffer_write_def Let_def)
    qed
  qed
qed

section \<open>Reading\<close>

definition chunk_bytes :: "RingBuffer \<Rightarrow> (nat \<times> nat) list \<Rightarrow> byte list" where
  "chunk_bytes rb cs = concat (map (\<lambda>(off, n). take n (drop off (rb_buffer rb))) cs)"

lemma peek_ok:
  assumes i: "rb_inv rb"
  shows "chunk_bytes rb (ringbuffer_peek rb sz) = take sz (rb_contents rb)"
    and "\<forall>(off, n) \<in> set (ringbuffer_peek rb sz). 0 < n \<and> off + n \<le> length (rb_buffer rb)"
    and "length (ringbuffer_peek rb sz) \<le> 2"
proof -
  let ?u = "rb_size rb - freeSize rb" let ?r = "readPtr rb"
  define k where "k = min sz ?u"
  have bd: "length (rb_buffer rb) = rb_size rb" "rb_size rb < 2 ^ 63" "freeSize rb \<le> rb_size rb" "?r < rb_size rb"
    and k: "k \<le> rb_size rb"
    using i by (auto simp: rb_inv_def k_def)
  have m: "(if sub64 (rb_size rb) (freeSize rb) < sz then sub64 (rb_size rb) (freeSize rb) else sz) = k"
    using bd by (auto simp: min_def k_def)
  have s: "sub64 (rb_size rb) ?r = rb_size rb - ?r" "add64 ?r k = ?r + k"
    "sub64 k (rb_size rb - ?r) = k - (rb_size rb - ?r)" if "rb_size rb < ?r + k"
    using bd k that by simp_all
  have s': "add64 ?r k = ?r + k" "sub64 k k = 0" using bd k by simp_all
  have p: "ringbuffer_peek rb sz = (if k = 0 then [] else if ?r + k \<le> rb_size rb then [(?r, k)]
      else [(?r, rb_size rb - ?r), (0, k - (rb_size rb - ?r))])"
    unfolding ringbuffer_peek_def m Let_def using s s' bd k_def by (auto simp: not_le)
  have c: "take sz (rb_contents rb) = ring (rb_buffer rb) ?r k" by (simp add: rb_contents_def k_def)
  have w: "ring (rb_buffer rb) ?r k = drop ?r (rb_buffer rb) @ take (?r + k - length (rb_buffer rb)) (rb_buffer rb)"
    if "\<not> ?r + k \<le> rb_size rb" using bd k that by (intro ring_wrapped) simp_all
  show "chunk_bytes rb (ringbuffer_peek rb sz) = take sz (rb_contents rb)"
    unfolding p c using bd w by (auto simp: chunk_bytes_def ring_linear add.commute)
  show "\<forall>(off, n) \<in> set (ringbuffer_peek rb sz). 0 < n \<and> off + n \<le> length (rb_buffer rb)"
    unfolding p using bd k by auto
  show "length (ringbuffer_peek rb sz) \<le> 2" by (simp add: p)
qed

lemma commit_read_ok:
  assumes i: "rb_inv rb" and m: "malloc_bounded malloc" and n: "sz \<le> rb_size rb - freeSize rb"
  shows "\<exists>rb'. ringbuffer_commit_read_bytes malloc rb sz = Some rb' \<and> rb_inv rb' \<and>
    rb_contents rb' = drop sz (rb_contents rb)"
proof (cases "sz < 1")
  case True
  then show ?thesis using i by (simp add: ringbuffer_commit_read_bytes_def)
next
  case False
  let ?u = "rb_size rb - freeSize rb" let ?r = "readPtr rb"
  have bd: "length (rb_buffer rb) = rb_size rb" "rb_size rb < 2 ^ 63" "freeSize rb \<le> rb_size rb" "?r < rb_size rb"
    "writePtr rb = (?r + ?u) mod rb_size rb"
    using i by (auto simp: rb_inv_def)
  define r where "r = rb\<lparr>readPtr := add64 ?r sz mod rb_size rb, freeSize := add64 (freeSize rb) sz\<rparr>"
  have a: "add64 ?r sz = ?r + sz" "add64 (freeSize rb) sz = freeSize rb + sz" "sub64 (rb_size rb) (freeSize rb) = ?u"
    using bd n by simp_all
  have r: "rb_inv r" using i n a bd(5)
    by (auto simp: r_def rb_inv_def mod_add_left_eq)
  have c: "rb_contents r = drop sz (rb_contents rb)"
    using drop_ring [OF n, of "rb_buffer rb" ?r] bd a by (simp add: r_def rb_contents_def)
  have e: "ringbuffer_commit_read_bytes malloc rb sz =
      (if rb_size r \<noteq> initialSize r \<and> ringbuffer_used r < initialSize r div 2
       then ringbuffer_realloc malloc r (initialSize r) \<bind> (\<lambda>(_, rb). Some rb) else Some r)"
    using False n a(3) by (simp add: ringbuffer_commit_read_bytes_def Let_def r_def [symmetric] del: rb_used)
  show ?thesis
  proof (cases "rb_size r \<noteq> initialSize r \<and> ringbuffer_used r < initialSize r div 2")
    case True
    then have "rb_size r - freeSize r < initialSize r div 2" using r by simp
    then have "rb_size r - freeSize r < initialSize r" by linarith
    from realloc_ok [OF r m this] obtain ok r' where r': "ringbuffer_realloc malloc r (initialSize r) = Some (ok, r')"
      "rb_inv r' \<and> rb_contents r' = rb_contents r" using r by (elim run_okE) (auto split: if_splits)
    then show ?thesis using True c by (simp add: e del: rb_used)
  next
    case False
    then show ?thesis using r c by (simp only: e if_False) simp
  qed
qed

section \<open>Linear writes\<close>

lemma rb_reset_ok:
  assumes "rb_inv rb"
  shows "rb_inv (rb_reset_empty rb)" "rb_contents (rb_reset_empty rb) = rb_contents rb"
    "freeSize (rb_reset_empty rb) = freeSize rb"
  using assms rb_layout(2) [OF assms] by (auto simp: rb_inv_def rb_contents_def rb_reset_empty_def)

text \<open>
  The compaction is only reached with linear contents: wrapped contents leave \<open>writePtr + freeSize\<close>
  below the end of the block, so the difference of the positions does not wrap around.
\<close>

lemma compact_ok:
  assumes i: "rb_inv rb" and sz: "sz \<le> freeSize rb" and e: "rb_size rb \<le> writePtr rb + sz"
  shows "\<exists>bs buf. mem_read (rb_buffer rb) (readPtr rb) (sub64 (writePtr rb) (readPtr rb)) = Some bs \<and>
    mem_write (rb_buffer rb) 0 bs = Some buf \<and>
    rb_inv (rb\<lparr>rb_buffer := buf, readPtr := 0, writePtr := sub64 (rb_size rb) (freeSize rb)\<rparr>) \<and>
    rb_contents (rb\<lparr>rb_buffer := buf, readPtr := 0, writePtr := sub64 (rb_size rb) (freeSize rb)\<rparr>) = rb_contents rb"
proof -
  let ?u = "rb_size rb - freeSize rb"
  have bd: "length (rb_buffer rb) = rb_size rb" "rb_size rb < 2 ^ 63" "freeSize rb \<le> rb_size rb" "0 < freeSize rb"
    "readPtr rb < rb_size rb" using i by (auto simp: rb_inv_def)
  have lin: "readPtr rb \<le> writePtr rb" using rb_layout(5) [OF i] sz e bd by linarith
  then have w: "writePtr rb = readPtr rb + ?u" and l: "readPtr rb + ?u < rb_size rb"
    using rb_layout(3,4) [OF i] by auto
  have s: "sub64 (writePtr rb) (readPtr rb) = ?u" "sub64 (rb_size rb) (freeSize rb) = ?u"
    using w l bd by simp_all
  let ?bs = "take ?u (drop (readPtr rb) (rb_buffer rb))" let ?buf = "?bs @ drop ?u (rb_buffer rb)"
  have c: "rb_contents rb = ?bs" using l bd by (simp add: rb_contents_def ring_linear)
  have len: "length ?bs = ?u" using l bd by simp
  have "mem_read (rb_buffer rb) (readPtr rb) ?u = Some ?bs" using l bd by simp
  moreover have "mem_write (rb_buffer rb) 0 ?bs = Some ?buf" using len bd by simp
  moreover have "ring ?buf 0 ?u = ?bs" using len bd by (simp add: ring_linear)
  ultimately show ?thesis using s c i len bd
    by (intro exI [of _ ?bs] exI [of _ ?buf]) (simp add: rb_inv_def rb_contents_def)
qed

lemma linear_head_ok:
  assumes i: "rb_inv rb" and sz: "sz \<le> freeSize rb" "sz < 2 ^ 62"
  shows "run_ok (rb_linear_head rb sz) (\<lambda>p rb'. rb_inv rb' \<and> rb_contents rb' = rb_contents rb \<and>
    p = Some (writePtr rb') \<and> writePtr rb' + sz \<le> rb_size rb' \<and> freeSize rb' = freeSize rb)"
proof -
  have "rb_size rb < 2 ^ 63" using i by (simp add: rb_inv_def)
  then have a: "add64 (writePtr rb) sz = writePtr rb + sz" using rb_layout(1) [OF i] sz(2) by simp
  show ?thesis
  proof (cases "writePtr rb + sz < rb_size rb")
    case True
    then show ?thesis using i a by (simp add: rb_linear_head_def)
  next
    case False
    have "sub64 (rb_size rb) (freeSize rb) + sz \<le> rb_size rb" using i sz by (auto simp: rb_inv_def)
    then show ?thesis using compact_ok [OF i sz(1)] False a by (auto simp: rb_linear_head_def Let_def)
  qed
qed

lemma ensure_linear_ok:
  assumes i: "rb_inv rb" and m: "malloc_bounded malloc" and n: "sz < 2 ^ 62"
  shows "run_ok (ringbuffer_ensure_linear_write malloc rb sz) (\<lambda>p rb'. rb_inv rb' \<and> rb_contents rb' = rb_contents rb \<and>
    (case p of None \<Rightarrow> rb' = rb
     | Some off \<Rightarrow> off = writePtr rb' \<and> off + sz \<le> rb_size rb' \<and> sz \<le> freeSize rb'))"
proof -
  have fin: "run_ok (rb_linear_head (rb_reset_empty r) sz) (\<lambda>p rb'. rb_inv rb' \<and> rb_contents rb' = rb_contents r \<and>
      p = Some (writePtr rb') \<and> writePtr rb' + sz \<le> rb_size rb' \<and> sz \<le> freeSize rb')"
    if "rb_inv r" "sz \<le> freeSize r" for r
    using that n rb_reset_ok [OF that(1)] linear_head_ok [of "rb_reset_empty r" sz]
    by (auto intro: run_ok_mono)
  show ?thesis
  proof (cases "freeSize rb < sz")
    case False
    then show ?thesis using fin [OF i] by (auto simp: ringbuffer_ensure_linear_write_def intro: run_ok_mono)
  next
    case True
    let ?t = "rb_size rb + sz - freeSize rb + 32"
    have bd: "freeSize rb \<le> rb_size rb" "rb_size rb < 2 ^ 63" using i by (auto simp: rb_inv_def)
    have t: "add64 (sub64 (add64 (rb_size rb) sz) (freeSize rb)) 32 = ?t" using bd n by simp
    have "rb_size rb - freeSize rb < ?t" by simp
    from realloc_ok [OF i m this] obtain ok r where r: "ringbuffer_realloc malloc rb ?t = Some (ok, r)"
      "if ok then rb_inv r \<and> rb_contents r = rb_contents rb \<and> sz \<le> freeSize r else r = rb"
      using bd by (elim run_okE) (auto split: if_splits)
    show ?thesis
    proof (cases ok)
      case True
      then show ?thesis using fin [of r] r \<open>freeSize rb < sz\<close> t
        by (auto simp: ringbuffer_ensure_linear_write_def intro: run_ok_mono)
    next
      case False
      then show ?thesis using r \<open>freeSize rb < sz\<close> t i by (simp add: ringbuffer_ensure_linear_write_def)
    qed
  qed
qed

text \<open>
  What the owner of the pointer does between the two calls: it stores \<open>bs\<close> at the write position.
\<close>

definition rb_fill :: "RingBuffer \<Rightarrow> byte list \<Rightarrow> RingBuffer option" where
  "rb_fill rb bs = do { buf \<leftarrow> mem_write (rb_buffer rb) (writePtr rb) bs; Some (rb\<lparr>rb_buffer := buf\<rparr>) }"

lemma commit_written_ok:
  assumes i: "rb_inv rb" and n: "length bs < freeSize rb" "writePtr rb + length bs \<le> rb_size rb"
  shows "\<exists>rb'. rb_fill rb bs = Some rb' \<and>
    fst (ringbuffer_commit_written_bytes rb' (length bs)) \<and>
    rb_inv (snd (ringbuffer_commit_written_bytes rb' (length bs))) \<and>
    rb_contents (snd (ringbuffer_commit_written_bytes rb' (length bs))) = rb_contents rb @ bs"
proof -
  let ?w = "writePtr rb" let ?b = "rb_buffer rb" let ?buf = "take ?w ?b @ bs @ drop (?w + length bs) ?b"
  have bd: "length ?b = rb_size rb" "rb_size rb < 2 ^ 63" "?w < rb_size rb" "freeSize rb \<le> rb_size rb"
    using i rb_layout(1) [OF i] by (auto simp: rb_inv_def)
  have f: "rb_fill rb bs = Some (rb\<lparr>rb_buffer := ?buf\<rparr>)" using bd n by (simp add: rb_fill_def)
  have a: "add64 ?w (length bs) = ?w + length bs" using bd n by simp
  have 1: "\<forall>j < length bs. ?buf ! ((?w + j) mod rb_size rb) = bs ! j" using bd n by (auto simp: nth_append)
  have 2: "\<forall>j < rb_size rb - length bs. ?buf ! ((?w + length bs + j) mod rb_size rb) = ?b ! ((?w + length bs + j) mod rb_size rb)"
  proof (intro allI impI)
    fix j assume "j < rb_size rb - length bs"
    then show "?buf ! ((?w + length bs + j) mod rb_size rb) = ?b ! ((?w + length bs + j) mod rb_size rb)"
      using bd n mod_wrap [of ?w "rb_size rb" "length bs + j"] by (auto simp: nth_append add.assoc min_def split: if_splits)
  qed
  have l: "length ?buf = rb_size rb" using bd n by simp
  note ap = append_ok [OF i n(1) l 1 2 refl]
  show ?thesis
  proof (cases "bs = []")
    case True
    then show ?thesis using f i bd by (simp add: ringbuffer_commit_written_bytes_def)
  next
    case False
    then show ?thesis using f ap a n(2) by (simp add: ringbuffer_commit_written_bytes_def not_less)
  qed
qed

section \<open>What the clients rely on\<close>

text \<open>
  A first-in first-out byte channel: writing appends (or changes nothing when it fails), reading
  takes a prefix. A client issues any sequence of the two operations; what it has read so far,
  followed by what is still stored, is what it has successfully written.
\<close>

datatype fifo_op = Put "byte list" | Get nat

locale byte_fifo =
  fixes inv :: "'s \<Rightarrow> bool"
    and contents :: "'s \<Rightarrow> byte list"
    and wr :: "'s \<Rightarrow> byte list \<Rightarrow> (bool \<times> 's) option"
    and rd :: "'s \<Rightarrow> nat \<Rightarrow> (byte list \<times> 's) option"
  assumes wr_ok: "inv s \<Longrightarrow> length bs < 2 ^ 63 \<Longrightarrow>
      run_ok (wr s bs) (\<lambda>ok s'. inv s' \<and> contents s' = contents s @ (if ok then bs else []))"
    and rd_ok: "inv s \<Longrightarrow> run_ok (rd s n) (\<lambda>out s'. inv s' \<and> out = take n (contents s) \<and> contents s' = drop n (contents s))"
begin

text \<open>The run of a client: bytes accepted, bytes delivered, final state.\<close>

fun exec :: "fifo_op list \<Rightarrow> 's \<Rightarrow> ((byte list \<times> byte list) \<times> 's) option" where
  "exec [] s = Some (([], []), s)"
| "exec (Put bs # ops) s = do {
     (ok, s) \<leftarrow> wr s bs;
     ((win, rout), s) \<leftarrow> exec ops s;
     Some ((if ok then bs @ win else win, rout), s) }"
| "exec (Get n # ops) s = do {
     (bs, s) \<leftarrow> rd s n;
     ((win, rout), s) \<leftarrow> exec ops s;
     Some ((win, bs @ rout), s) }"

lemma exec_fifo:
  assumes "inv s" "\<forall>op \<in> set ops. case op of Put bs \<Rightarrow> length bs < 2 ^ 63 | Get _ \<Rightarrow> True"
  shows "run_ok (exec ops s) (\<lambda>(win, rout) s'. inv s' \<and> contents s @ win = rout @ contents s')"
  using assms
proof (induction ops arbitrary: s)
  case (Cons op ops)
  show ?case
  proof (cases op)
    case (Put bs)
    then obtain ok t where t: "wr s bs = Some (ok, t)" "inv t" "contents t = contents s @ (if ok then bs else [])"
      using wr_ok [of s bs] Cons.prems by (auto elim: run_okE)
    then show ?thesis using Put Cons.IH [of t] Cons.prems by (auto simp: run_ok_iff)
  next
    case (Get n)
    then obtain t where t: "rd s n = Some (take n (contents s), t)" "inv t" "contents t = drop n (contents s)"
      using rd_ok [of s n] Cons.prems by (auto elim: run_okE)
    then have "run_ok (exec ops t) (\<lambda>(win, rout) s'. inv s' \<and> drop n (contents s) @ win = rout @ contents s')"
      using Cons.IH [of t] Cons.prems by simp
    then obtain win rout u where u: "exec ops t = Some ((win, rout), u)" "inv u" "drop n (contents s) @ win = rout @ contents u"
      by (auto elim: run_okE)
    have "contents s @ win = take n (contents s) @ drop n (contents s) @ win" by simp
    also have "\<dots> = (take n (contents s) @ rout) @ contents u" by (simp only: u(3) append_assoc)
    finally show ?thesis using Get t u by simp
  qed
qed simp

end

text \<open>A read of the ring buffer as \<^verbatim>\<open>tcp.c\<close> does it: peek, consume the chunks, commit their size.\<close>

definition ringbuffer_read :: "allocator \<Rightarrow> RingBuffer \<Rightarrow> nat \<Rightarrow> (byte list \<times> RingBuffer) option" where
  "ringbuffer_read malloc rb n = do {
     let bs = chunk_bytes rb (ringbuffer_peek rb n);
     rb \<leftarrow> ringbuffer_commit_read_bytes malloc rb (length bs);
     Some (bs, rb) }"

lemma read_ok:
  assumes "rb_inv rb" "malloc_bounded malloc"
  shows "run_ok (ringbuffer_read malloc rb n) (\<lambda>out rb'. rb_inv rb' \<and> out = take n (rb_contents rb) \<and>
    rb_contents rb' = drop n (rb_contents rb))"
proof -
  let ?k = "length (take n (rb_contents rb))"
  have "?k \<le> rb_size rb - freeSize rb" by (simp add: rb_contents_def)
  from commit_read_ok [OF assms this] obtain rb' where "ringbuffer_commit_read_bytes malloc rb ?k = Some rb'" "rb_inv rb'"
    "rb_contents rb' = drop ?k (rb_contents rb)" by blast
  moreover have "drop ?k (rb_contents rb) = drop n (rb_contents rb)" by (simp add: min_def)
  ultimately show ?thesis using peek_ok(1) [OF assms(1)] by (simp add: ringbuffer_read_def Let_def)
qed

interpretation rb_fifo: byte_fifo "\<lambda>rb. malloc_bounded malloc \<and> rb_inv rb" rb_contents
    "ringbuffer_write malloc" "ringbuffer_read malloc" for malloc
proof unfold_locales
  fix rb :: RingBuffer and bs :: "byte list"
  assume "malloc_bounded malloc \<and> rb_inv rb" "length bs < 2 ^ 63"
  then show "run_ok (ringbuffer_write malloc rb bs) (\<lambda>ok s'. (malloc_bounded malloc \<and> rb_inv s') \<and>
      rb_contents s' = rb_contents rb @ (if ok then bs else []))"
    using write_ok [of rb malloc bs] by (auto intro: run_ok_mono split: if_splits)
next
  fix rb :: RingBuffer and n
  assume "malloc_bounded malloc \<and> rb_inv rb"
  then show "run_ok (ringbuffer_read malloc rb n) (\<lambda>out s'. (malloc_bounded malloc \<and> rb_inv s') \<and>
      out = take n (rb_contents rb) \<and> rb_contents s' = drop n (rb_contents rb))"
    using read_ok [of rb malloc n] by (auto intro: run_ok_mono)
qed

section \<open>Properties of the ring buffer\<close>

lemma init_ok:
  assumes "malloc_bounded malloc" "0 < n" "malloc n = Some blk"
  shows "\<exists>rb'. ringbuffer_init malloc rb n = (True, rb') \<and> rb_inv rb' \<and> rb_contents rb' = [] \<and> freeSize rb' = n"
proof -
  have "length blk = n" "n < 2 ^ 63" using malloc_boundedD [OF assms(1,3)] .
  then show ?thesis using assms by (simp add: ringbuffer_init_def rb_inv_def rb_contents_def)
qed

text \<open>
  C2: The ring buffer is a reliable first-in first-out channel: after \<^verbatim>\<open>ringbuffer_init\<close>, whatever
  sequence of writes and reads follows, no access leaves the block, and the bytes delivered so far
  followed by the bytes still stored are exactly the bytes of the writes that succeeded, although the
  buffer wraps, grows, shrinks and may fail to allocate on the way.
\<close>

theorem ringbuffer_fifo:
  assumes "malloc_bounded malloc" "0 < n" "malloc n = Some blk"
    "\<forall>op \<in> set ops. case op of Put bs \<Rightarrow> length bs < 2 ^ 63 | Get _ \<Rightarrow> True"
  shows "\<exists>rb. ringbuffer_init malloc rb0 n = (True, rb) \<and>
    run_ok (rb_fifo.exec malloc ops rb) (\<lambda>(win, rout) rb'. rb_inv rb' \<and> win = rout @ rb_contents rb')"
proof -
  obtain rb where rb: "ringbuffer_init malloc rb0 n = (True, rb)" "rb_inv rb" "rb_contents rb = []"
    using init_ok [OF assms(1-3)] by blast
  have "run_ok (rb_fifo.exec malloc ops rb) (\<lambda>(win, rout) s'. (malloc_bounded malloc \<and> rb_inv s') \<and>
      rb_contents rb @ win = rout @ rb_contents s')"
    using rb assms by (intro rb_fifo.exec_fifo) auto
  then have "run_ok (rb_fifo.exec malloc ops rb) (\<lambda>(win, rout) rb'. rb_inv rb' \<and> win = rout @ rb_contents rb')"
    by (rule run_ok_mono) (auto simp: rb(3))
  with rb(1) show ?thesis by blast
qed

definition example_rb :: RingBuffer where
  "example_rb = \<lparr>initialSize = 1, freeSize = 1, rb_size = 1, readPtr = 0, writePtr = 0, rb_buffer = [0]\<rparr>"

theorem ringbuffer_fifo_witness:
  "\<exists>rb. ringbuffer_init limit_malloc example_rb 4 = (True, rb) \<and>
    run_ok (rb_fifo.exec limit_malloc [Put [1, 2, 3], Get 2, Put [4, 5, 6, 7], Get 3] rb)
      (\<lambda>(win, rout) rb'. rb_inv rb' \<and> win = rout @ rb_contents rb')"
  by (rule ringbuffer_fifo [where blk = "replicate 4 0"]) (simp_all add: limit_malloc_def)

text \<open>
  \<^verbatim>\<open>ringbuffer_peek\<close> describes the first bytes of the stored data: at most two non-empty chunks,
  each within the block, that together are the first \<open>sz\<close> bytes (or all of them).
\<close>

lemma ringbuffer_peek_prefix:
  assumes "rb_inv rb"
  shows "chunk_bytes rb (ringbuffer_peek rb sz) = take sz (rb_contents rb) \<and> length (ringbuffer_peek rb sz) \<le> 2 \<and>
    (\<forall>(off, n) \<in> set (ringbuffer_peek rb sz). 0 < n \<and> off + n \<le> length (rb_buffer rb))"
  using peek_ok [OF assms] by blast

text \<open>
  \<^verbatim>\<open>ringbuffer_ensure_linear_write\<close> keeps the stored bytes and returns a position from which \<open>sz\<close>
  bytes fit before the end of the block; storing fewer bytes than are free there and committing them
  appends exactly these bytes. The compaction never moves a wrapped buffer.
\<close>

lemma ringbuffer_linear_write_appends:
  assumes "rb_inv rb" "malloc_bounded malloc" "sz < 2 ^ 62"
  shows "run_ok (ringbuffer_ensure_linear_write malloc rb sz) (\<lambda>p rb1. rb_inv rb1 \<and> rb_contents rb1 = rb_contents rb \<and>
    (case p of None \<Rightarrow> rb1 = rb
     | Some off \<Rightarrow> off = writePtr rb1 \<and> off + sz \<le> length (rb_buffer rb1) \<and>
        (\<forall>bs. length bs \<le> sz \<and> length bs < freeSize rb1 \<longrightarrow>
          (\<exists>rb2. rb_fill rb1 bs = Some rb2 \<and> fst (ringbuffer_commit_written_bytes rb2 (length bs)) \<and>
             rb_contents (snd (ringbuffer_commit_written_bytes rb2 (length bs))) = rb_contents rb @ bs))))"
proof (rule run_ok_mono [OF ensure_linear_ok [OF assms]])
  fix p rb1
  assume a: "rb_inv rb1 \<and> rb_contents rb1 = rb_contents rb \<and>
    (case p of None \<Rightarrow> rb1 = rb | Some off \<Rightarrow> off = writePtr rb1 \<and> off + sz \<le> rb_size rb1 \<and> sz \<le> freeSize rb1)"
  show "rb_inv rb1 \<and> rb_contents rb1 = rb_contents rb \<and>
    (case p of None \<Rightarrow> rb1 = rb
     | Some off \<Rightarrow> off = writePtr rb1 \<and> off + sz \<le> length (rb_buffer rb1) \<and>
        (\<forall>bs. length bs \<le> sz \<and> length bs < freeSize rb1 \<longrightarrow>
          (\<exists>rb2. rb_fill rb1 bs = Some rb2 \<and> fst (ringbuffer_commit_written_bytes rb2 (length bs)) \<and>
             rb_contents (snd (ringbuffer_commit_written_bytes rb2 (length bs))) = rb_contents rb @ bs)))"
  proof (cases p)
    case (Some off)
    have "\<exists>rb2. rb_fill rb1 bs = Some rb2 \<and> fst (ringbuffer_commit_written_bytes rb2 (length bs)) \<and>
        rb_contents (snd (ringbuffer_commit_written_bytes rb2 (length bs))) = rb_contents rb @ bs"
      if "length bs \<le> sz" "length bs < freeSize rb1" for bs
      using commit_written_ok [of rb1 bs] a Some that by auto
    moreover have "length (rb_buffer rb1) = rb_size rb1" using a by (simp add: rb_inv_def)
    ultimately show ?thesis using a Some by simp
  qed (use a in auto)
qed

text \<open>
  Filling a buffer to the last byte breaks it: a buffer of eight bytes that is filled through
  \<^verbatim>\<open>ringbuffer_ensure_linear_write\<close> with as many bytes as are free looks empty to
  \<^verbatim>\<open>ringbuffer_realloc\<close>, and the next write overwrites the first of the stored bytes.
\<close>

lemma ringbuffer_full_loses_data:
  "let rb = snd (ringbuffer_init limit_malloc example_rb 8) in
   \<exists>rb1 rb2 rb3 rb4. ringbuffer_ensure_linear_write limit_malloc rb 8 = Some (Some 0, rb1) \<and>
     rb_fill rb1 [1, 2, 3, 4, 5, 6, 7, 8] = Some rb2 \<and> ringbuffer_commit_written_bytes rb2 8 = (True, rb3) \<and>
     ringbuffer_used rb3 = 8 \<and> chunk_bytes rb3 (ringbuffer_peek rb3 8) = [1, 2, 3, 4, 5, 6, 7, 8] \<and>
     ringbuffer_write limit_malloc rb3 [99] = Some (True, rb4) \<and>
     chunk_bytes rb4 (ringbuffer_peek rb4 9) = [99, 2, 3, 4, 5, 6, 7, 8, 0]"
proof -
  have r: "replicate 8 (0 :: byte) = [0, 0, 0, 0, 0, 0, 0, 0]" "replicate 9 (0 :: byte) = [0, 0, 0, 0, 0, 0, 0, 0, 0]"
    by (simp_all add: numeral_eq_Suc)
  show ?thesis
    by (simp add: ringbuffer_init_def limit_malloc_def ringbuffer_ensure_linear_write_def rb_linear_head_def
      rb_reset_empty_def rb_fill_def ringbuffer_commit_written_bytes_def ringbuffer_used_def ringbuffer_peek_def
      chunk_bytes_def ringbuffer_write_def ringbuffer_realloc_def c_realloc_def rb_copy_in_def
      Let_def r mem_read_def mem_write_def)
qed

end
