(* ===== verification/Object_Queue.thy ===== *)
theory Object_Queue
  imports Prelude
begin

text \<open>
  The object queue of WinPR (\<^verbatim>\<open>winpr/libwinpr/utils/collections/Queue.c\<close>): a circular array of
  pointers that grows, with an event that is set while the queue is not empty.

  Locking is not modelled: the operations run one at a time, which is what the critical section of a
  synchronized queue gives. \<^verbatim>\<open>CreateEvent\<close> and the critical section are taken to succeed; the event
  is its flag. Objects handed to \<^verbatim>\<open>fnObjectFree\<close> are returned as a list, in the order of the calls.

  The locale \<open>fifo_queue\<close> states the contract of a queue and proves, once, that every sequence of
  operations behaves like the same sequence on a list.
\<close>

section \<open>State and operations\<close>

record wQueue =
  q_capacity :: nat
  q_growthFactor :: nat
  q_head :: nat
  q_tail :: nat
  q_size :: nat
  q_array :: "ptr list"
  q_event :: bool
  q_fnObjectFree :: bool
  q_fnObjectEquals :: "ptr \<Rightarrow> ptr \<Rightarrow> bool"

definition Queue_Count :: "wQueue \<Rightarrow> nat" where
  "Queue_Count queue = q_size queue"

text \<open>The loop of \<^verbatim>\<open>Queue_Clear\<close>; \<open>None\<close> when it leaves the array or never meets the tail.\<close>

partial_function (option) Queue_clear_loop ::
  "wQueue \<Rightarrow> nat \<Rightarrow> ptr list \<Rightarrow> ptr list \<Rightarrow> (ptr list \<times> ptr list) option" where
  "Queue_clear_loop queue index arr freed =
     (if index \<noteq> q_tail queue then
        if index < length arr
        then Queue_clear_loop queue (add64 index 1 mod q_capacity queue) (arr[index := 0])
               (if q_fnObjectFree queue then freed @ [arr ! index] else freed)
        else None
      else Some (freed, arr))"

definition Queue_Clear :: "wQueue \<Rightarrow> (ptr list \<times> wQueue) option" where
  "Queue_Clear queue = do {
     (freed, arr) \<leftarrow> Queue_clear_loop queue (q_head queue) (q_array queue) [];
     Some (freed, queue\<lparr>q_array := arr, q_size := 0, q_head := 0, q_tail := 0, q_event := False\<rparr>) }"

fun array_search :: "(ptr \<Rightarrow> ptr \<Rightarrow> bool) \<Rightarrow> ptr list \<Rightarrow> ptr \<Rightarrow> nat \<Rightarrow> nat \<Rightarrow> nat option option" where
  "array_search eq arr obj i 0 = Some None"
| "array_search eq arr obj i (Suc n) =
     (if i < length arr
      then if eq (arr ! i) obj then Some (Some i) else array_search eq arr obj (i + 1) n
      else None)"

definition Queue_Contains :: "wQueue \<Rightarrow> ptr \<Rightarrow> bool option" where
  "Queue_Contains queue obj = do {
     r \<leftarrow> array_search (q_fnObjectEquals queue) (q_array queue) obj 0 (q_tail queue);
     Some (r \<noteq> None) }"

definition Queue_EnsureCapacity :: "(nat \<Rightarrow> ptr list option) \<Rightarrow> wQueue \<Rightarrow> nat \<Rightarrow> (bool \<times> wQueue) option" where
  "Queue_EnsureCapacity alloc queue count =
     (if add64 (q_size queue) count \<ge> q_capacity queue then do {
        let old_capacity = q_capacity queue;
        let new_capacity = mul64 (q_capacity queue) (q_growthFactor queue);
        let new_capacity = (if new_capacity < add64 (q_size queue) count then add64 (q_size queue) count
                            else new_capacity);
        (case ptr_realloc alloc (q_array queue) new_capacity of
           None \<Rightarrow> Some (False, queue)
         | Some newArray \<Rightarrow> do {
             let queue = queue\<lparr>q_capacity := new_capacity\<rparr>;
             arr \<leftarrow> mem_write newArray old_capacity (replicate (sub64 new_capacity old_capacity) 0);
             (if q_tail queue \<le> q_head queue then do {
                wrapped \<leftarrow> mem_read arr 0 (q_tail queue);
                arr \<leftarrow> mem_write arr old_capacity wrapped;
                Some (True, queue\<lparr>q_array := arr, q_tail := add64 (q_tail queue) old_capacity\<rparr>) }
              else Some (True, queue\<lparr>q_array := arr\<rparr>)) }) }
      else Some (True, queue))"

text \<open>The result is \<open>TRUE\<close> even when the capacity could not be ensured.\<close>

definition Queue_Enqueue :: "(nat \<Rightarrow> ptr list option) \<Rightarrow> wQueue \<Rightarrow> ptr \<Rightarrow> (bool \<times> wQueue) option" where
  "Queue_Enqueue alloc queue obj = do {
     (ok, queue) \<leftarrow> Queue_EnsureCapacity alloc queue 1;
     (if \<not> ok then Some (True, queue) else do {
     arr \<leftarrow> mem_write (q_array queue) (q_tail queue) [obj];
     Some (True, queue\<lparr>q_array := arr, q_tail := add64 (q_tail queue) 1 mod q_capacity queue,
                       q_size := add64 (q_size queue) 1, q_event := True\<rparr>) }) }"

definition Queue_Dequeue :: "wQueue \<Rightarrow> (ptr \<times> wQueue) option" where
  "Queue_Dequeue queue = do {
     (obj, queue) \<leftarrow>
       (if q_size queue > 0 then do {
          obj \<leftarrow> mem_read (q_array queue) (q_head queue) 1;
          arr \<leftarrow> mem_write (q_array queue) (q_head queue) [0];
          Some (obj ! 0, queue\<lparr>q_array := arr, q_head := add64 (q_head queue) 1 mod q_capacity queue,
                             q_size := q_size queue - 1\<rparr>) }
        else Some (0, queue));
     Some (obj, if q_size queue < 1 then queue\<lparr>q_event := False\<rparr> else queue) }"

definition Queue_Peek :: "wQueue \<Rightarrow> ptr option" where
  "Queue_Peek queue =
     (if q_size queue > 0 then do { obj \<leftarrow> mem_read (q_array queue) (q_head queue) 1; Some (obj ! 0) }
      else Some 0)"

text \<open>\<open>Some None\<close> is a null result.\<close>

definition Queue_New :: "(nat \<Rightarrow> ptr list option) \<Rightarrow> int \<Rightarrow> int \<Rightarrow> wQueue option option" where
  "Queue_New alloc capacity growthFactor = do {
     let queue = \<lparr>q_capacity = 0, q_growthFactor = (if growthFactor > 0 then nat growthFactor else 2),
                  q_head = 0, q_tail = 0, q_size = 0, q_array = [], q_event = False,
                  q_fnObjectFree = False, q_fnObjectEquals = (\<lambda>_ _. False)\<rparr>;
     let capacity = (if capacity \<le> 0 then 32 else capacity);
     (ok, queue) \<leftarrow> Queue_EnsureCapacity alloc queue (nat capacity);
     (if \<not> ok then Some None else Some (Some (queue\<lparr>q_fnObjectEquals := (=)\<rparr>))) }"

section \<open>Invariant and abstraction\<close>

definition q_inv :: "wQueue \<Rightarrow> bool" where
  "q_inv q \<longleftrightarrow> length (q_array q) = q_capacity q \<and> 2 \<le> q_capacity q \<and> q_capacity q < 2 ^ 60 \<and>
     q_growthFactor q = 2 \<and> q_head q < q_capacity q \<and> q_size q < q_capacity q \<and>
     q_tail q = (q_head q + q_size q) mod q_capacity q \<and> (q_event q \<longleftrightarrow> q_size q > 0)"

definition q_contents :: "wQueue \<Rightarrow> ptr list" where
  "q_contents q = ring (q_array q) (q_head q) (q_size q)"

text \<open>
  The only reason to lose an object: one more does not fit below the capacity, and the allocator has no
  array of twice the size. The source still returns \<open>TRUE\<close> then.
\<close>

definition q_out_of_memory :: "(nat \<Rightarrow> ptr list option) \<Rightarrow> wQueue \<Rightarrow> bool" where
  "q_out_of_memory alloc q \<longleftrightarrow> q_capacity q \<le> q_size q + 1 \<and> ptr_realloc alloc (q_array q) (q_capacity q * 2) = None"

lemma q_layout:
  assumes "q_inv q"
  shows "q_tail q < q_capacity q"
    and "q_size q > 0 \<Longrightarrow> q_tail q \<le> q_head q \<Longrightarrow> q_tail q + q_capacity q = q_head q + q_size q"
    and "\<not> q_tail q \<le> q_head q \<Longrightarrow> q_tail q = q_head q + q_size q"
  using assms mod_wrap [of "q_head q" "q_capacity q" "q_size q"]
  by (auto simp: q_inv_def split: if_splits)

lemma ensure_ok:
  assumes i: "q_inv q" and a: "slots_bounded alloc"
  shows "run_ok (Queue_EnsureCapacity alloc q 1) (\<lambda>ok q'. q_inv q' \<and> q_contents q' = q_contents q \<and>
    (if ok then q_size q' + 1 < q_capacity q' else q' = q) \<and> (ok \<longleftrightarrow> \<not> q_out_of_memory alloc q))"
proof (cases "q_size q + 1 < q_capacity q")
  case True
  then show ?thesis using i by (simp add: Queue_EnsureCapacity_def q_inv_def q_out_of_memory_def)
next
  case False
  let ?c = "q_capacity q" let ?arr = "q_array q"
  have bd: "length ?arr = ?c" "2 \<le> ?c" "?c < 2 ^ 60" "q_head q < ?c" "q_size q < ?c" "q_growthFactor q = 2"
    "q_tail q = (q_head q + q_size q) mod ?c" "q_event q \<longleftrightarrow> q_size q > 0"
    using i by (auto simp: q_inv_def)
  have sz: "q_size q = ?c - 1" "0 < q_size q" using False bd by simp_all
  have m: "mul64 ?c 2 = ?c * 2" "add64 (q_size q) 1 = ?c" "\<not> ?c * 2 < ?c" "sub64 (?c * 2) ?c = ?c"
    using bd sz by simp_all
  show ?thesis
  proof (cases "ptr_realloc alloc ?arr (?c * 2)")
    case None
    then show ?thesis using i m bd(6) False by (simp add: Queue_EnsureCapacity_def Let_def q_out_of_memory_def)
  next
    case (Some na)
    have na: "length na = ?c * 2" "?c * 2 < 2 ^ 60" "take ?c na = ?arr"
      using ptr_realloc_ok [OF a Some] bd by simp_all
    define z where "z = ?arr @ replicate ?c (0 :: ptr)"
    have z: "mem_write na ?c (replicate ?c 0) = Some z" using na by (simp add: z_def)
    show ?thesis
    proof (cases "q_tail q \<le> q_head q")
      case True
      have t: "q_tail q + ?c = q_head q + q_size q" using q_layout(2) [OF i sz(2) True] .
      define y where "y = ?arr @ take (q_tail q) ?arr @ replicate (?c - q_tail q) 0"
      have tl: "q_tail q < ?c" using q_layout(1) [OF i] .
      have y: "mem_write z ?c (take (q_tail q) ?arr) = Some y" using bd(1) tl by (simp add: y_def z_def min_def)
      have rd: "mem_read z 0 (q_tail q) = Some (take (q_tail q) ?arr)" using bd(1) tl by (simp add: z_def mem_read_def)
      have ly: "length y = ?c * 2" using bd(1) tl by (simp add: y_def)
      have "ring y (q_head q) (q_size q) = take (q_size q) (drop (q_head q) y)"
        using t tl ly by (intro ring_linear) simp
      also have "\<dots> = drop (q_head q) ?arr @ take (q_tail q) ?arr"
      proof -
        have "q_size q = (?c - q_head q) + q_tail q" using t bd(4) by linarith
        then show ?thesis using tl bd(1,4) by (simp add: y_def)
      qed
      also have "\<dots> = ring ?arr (q_head q) (q_size q)"
        using t bd(1,4,5) by (subst ring_wrapped) (simp_all flip: t)
      finally have c: "ring y (q_head q) (q_size q) = ring ?arr (q_head q) (q_size q)" .
      have "add64 (q_tail q) ?c = q_head q + q_size q" using t tl na(2) by simp
      moreover have "q_head q + q_size q < ?c * 2" using t tl by simp
      ultimately show ?thesis using c z y rd True Some m na ly bd
        by (simp add: Queue_EnsureCapacity_def Let_def q_inv_def q_contents_def q_out_of_memory_def del: One_nat_def)
    next
      case nw: False
      have t: "q_tail q = q_head q + q_size q" "q_tail q < ?c" using q_layout(3) [OF i nw] q_layout(1) [OF i] by simp_all
      have "ring z (q_head q) (q_size q) = ring ?arr (q_head q) (q_size q)"
        using t bd by (intro ring_prefix [of ?c]) (simp_all add: z_def)
      then show ?thesis using z nw Some m na bd t
        by (simp add: Queue_EnsureCapacity_def Let_def q_inv_def q_contents_def q_out_of_memory_def z_def del: One_nat_def)
    qed
  qed
qed

lemma enqueue_ok:
  assumes i: "q_inv q" and a: "slots_bounded alloc"
  shows "run_ok (Queue_Enqueue alloc q obj) (\<lambda>ok q'. ok \<and> q_inv q' \<and>
    q_contents q' = (if q_out_of_memory alloc q then q_contents q else q_contents q @ [obj]))"
proof -
  obtain ok r where r: "Queue_EnsureCapacity alloc q 1 = Some (ok, r)" "q_inv r" "q_contents r = q_contents q"
    "if ok then q_size r + 1 < q_capacity r else r = q" "ok \<longleftrightarrow> \<not> q_out_of_memory alloc q"
    using ensure_ok [OF i a] by (elim run_okE) auto
  show ?thesis
  proof (cases ok)
    case False
    then show ?thesis using r i by (simp add: Queue_Enqueue_def)
  next
    case True
    let ?c = "q_capacity r" let ?arr = "(q_array r)[q_tail r := obj]"
    have bd: "length (q_array r) = ?c" "?c < 2 ^ 60" "q_head r < ?c" "q_tail r < ?c" "q_size r + 1 < ?c"
      "q_tail r = (q_head r + q_size r) mod ?c"
      using r(2,4) True q_layout(1) [OF r(2)] by (auto simp: q_inv_def)
    have w: "mem_write (q_array r) (q_tail r) [obj] = Some ?arr"
      using bd(1,4) by (simp add: upd_conv_take_nth_drop)
    have t: "add64 (q_tail r) 1 = q_tail r + 1" "add64 (q_size r) 1 = q_size r + 1" using bd(2,4,5) by simp_all
    have "q_tail r \<noteq> (q_head r + i) mod ?c" if "i < q_size r" for i
      using that bd mod_wrap [of "q_head r" ?c i] mod_wrap [of "q_head r" ?c "q_size r"] by (auto split: if_splits)
    then have "ring ?arr (q_head r) (q_size r) = ring (q_array r) (q_head r) (q_size r)"
      using bd(1,3) by (intro nth_equalityI) simp_all
    moreover have "ring ?arr ((q_head r + q_size r) mod ?c) 1 = [obj]"
      using bd by (simp add: ring_def)
    ultimately have "ring ?arr (q_head r) (q_size r + 1) = q_contents r @ [obj]"
      using ring_append [of ?arr "q_head r" "q_size r" 1] bd(1) by (simp add: q_contents_def)
    then show ?thesis using True r w t bd(1,5,6)
      by (simp add: Queue_Enqueue_def q_inv_def q_contents_def mod_Suc_eq)
  qed
qed

lemma ring_Suc: "ring b r (Suc n) = b ! (r mod length b) # ring b (Suc r mod length b) n"
  using ring_append [of b r 1 n] by (simp add: ring_def)

lemma ring_update_other:
  assumes "r < length b" "n < length b"
  shows "ring (b[r := x]) (Suc r mod length b) n = ring b (Suc r mod length b) n"
proof -
  have "r \<noteq> (Suc r + i) mod length b" if "i < n" for i
    using that assms mod_wrap [of r "length b" "Suc i"] by (auto split: if_splits)
  then show ?thesis by (intro nth_equalityI) (simp_all add: mod_add_left_eq)
qed

lemma dequeue_ok:
  assumes i: "q_inv q"
  shows "run_ok (Queue_Dequeue q) (\<lambda>obj q'. q_inv q' \<and>
    (case q_contents q of [] \<Rightarrow> obj = 0 \<and> q_contents q' = [] | x # xs \<Rightarrow> obj = x \<and> q_contents q' = xs))"
proof (cases "q_size q")
  case 0
  then show ?thesis using i by (simp add: Queue_Dequeue_def q_contents_def q_inv_def)
next
  case (Suc n)
  let ?c = "q_capacity q"
  have bd: "length (q_array q) = ?c" "?c < 2 ^ 60" "q_head q < ?c" "q_size q < ?c" "2 \<le> ?c"
    "q_tail q = (q_head q + q_size q) mod ?c" "q_event q \<longleftrightarrow> q_size q > 0" "q_growthFactor q = 2"
    using i by (auto simp: q_inv_def)
  have r: "mem_read (q_array q) (q_head q) (Suc 0) = Some [q_array q ! q_head q]"
    using bd by (simp add: Cons_nth_drop_Suc [symmetric])
  have w: "mem_write (q_array q) (q_head q) [0] = Some ((q_array q)[q_head q := 0])"
    using bd by (simp add: upd_conv_take_nth_drop)
  have h: "add64 (q_head q) (Suc 0) = Suc (q_head q)" using bd(2,3) by simp
  have c: "q_contents q = q_array q ! q_head q # ring (q_array q) (Suc (q_head q) mod ?c) n"
    using ring_Suc [of "q_array q" "q_head q" n] bd Suc by (simp add: q_contents_def)
  have u: "ring ((q_array q)[q_head q := 0]) (Suc (q_head q) mod ?c) n = ring (q_array q) (Suc (q_head q) mod ?c) n"
    using ring_update_other [of "q_head q" "q_array q" n] bd Suc by simp
  have t: "q_tail q = (Suc (q_head q) mod ?c + n) mod ?c" using bd(6) Suc by (simp add: mod_add_left_eq)
  show ?thesis using Suc r w h c u t bd(1-5,7,8)
    by (simp add: Queue_Dequeue_def q_inv_def q_contents_def del: mem_read_ok mem_write_ok)
qed

lemma peek_head:
  assumes "q_inv q"
  shows "Queue_Peek q = Some (case q_contents q of [] \<Rightarrow> 0 | x # _ \<Rightarrow> x)"
proof (cases "q_size q")
  case 0
  then show ?thesis by (simp add: Queue_Peek_def q_contents_def)
next
  case (Suc n)
  have bd: "length (q_array q) = q_capacity q" "q_head q < q_capacity q" using assms by (auto simp: q_inv_def)
  then have "mem_read (q_array q) (q_head q) 1 = Some [q_array q ! q_head q]"
    by (simp add: Cons_nth_drop_Suc [symmetric])
  then show ?thesis using ring_Suc [of "q_array q" "q_head q" n] bd Suc
    by (simp add: Queue_Peek_def q_contents_def)
qed

text \<open>Clearing walks from the head to the tail, releases every stored object once and terminates.\<close>

lemma clear_loop_ok:
  assumes "n < q_capacity q" "index < q_capacity q" "q_tail q = (index + n) mod q_capacity q"
    "length arr = q_capacity q" "q_capacity q < 2 ^ 60"
  shows "\<exists>arr'. Queue_clear_loop q index arr freed =
      Some (freed @ (if q_fnObjectFree q then ring arr index n else []), arr') \<and> length arr' = q_capacity q"
  using assms
proof (induction n arbitrary: index arr freed)
  case 0
  then show ?case by (subst Queue_clear_loop.simps) simp
next
  case (Suc n)
  let ?c = "q_capacity q" let ?f = "if q_fnObjectFree q then freed @ [arr ! index] else freed"
  have ne: "index \<noteq> q_tail q"
    using Suc.prems mod_wrap [of index ?c "Suc n"] by (auto split: if_splits)
  have a: "add64 index 1 = Suc index" using Suc.prems by simp
  have step: "Queue_clear_loop q index arr freed = Queue_clear_loop q (Suc index mod ?c) (arr[index := 0]) ?f"
    using ne a Suc.prems by (subst Queue_clear_loop.simps) simp
  obtain arr' where "Queue_clear_loop q (Suc index mod ?c) (arr[index := 0]) ?f =
      Some (?f @ (if q_fnObjectFree q then ring (arr[index := 0]) (Suc index mod ?c) n else []), arr')" "length arr' = ?c"
    using Suc.IH [of "Suc index mod ?c" "arr[index := 0]" ?f] Suc.prems by (auto simp: mod_add_left_eq)
  moreover have "ring (arr[index := 0]) (Suc index mod ?c) n = ring arr (Suc index mod ?c) n"
    using ring_update_other [of index arr n] Suc.prems by simp
  moreover have "ring arr index (Suc n) = arr ! index # ring arr (Suc index mod ?c) n"
    using ring_Suc [of arr index n] Suc.prems by simp
  ultimately show ?case using step by simp
qed

lemma clear_ok:
  assumes i: "q_inv q"
  shows "run_ok (Queue_Clear q) (\<lambda>freed q'. q_inv q' \<and> q_contents q' = [] \<and>
    freed = (if q_fnObjectFree q then q_contents q else []))"
proof -
  obtain arr where "Queue_clear_loop q (q_head q) (q_array q) [] =
      Some ((if q_fnObjectFree q then ring (q_array q) (q_head q) (q_size q) else []), arr)" "length arr = q_capacity q"
    using clear_loop_ok [of "q_size q" q "q_head q" "q_array q" "[]"] i by (auto simp: q_inv_def)
  then show ?thesis using i by (simp add: Queue_Clear_def q_inv_def q_contents_def)
qed

lemma new_ok:
  assumes "slots_bounded alloc" "growthFactor \<le> 0" "capacity \<noteq> 1" "capacity < 2 ^ 31"
  shows "\<exists>r. Queue_New alloc capacity growthFactor = Some r \<and>
    (case r of None \<Rightarrow> True | Some q \<Rightarrow> q_inv q \<and> q_contents q = [] \<and> q_fnObjectEquals q = (=))"
proof -
  define n where "n = nat (if capacity \<le> 0 then 32 else capacity)"
  have n: "2 \<le> n" "n < 2 ^ 31" using assms(3,4) by (auto simp: n_def)
  define q0 where "q0 = \<lparr>q_capacity = 0, q_growthFactor = 2, q_head = 0, q_tail = 0, q_size = 0, q_array = [],
    q_event = False, q_fnObjectFree = False, q_fnObjectEquals = (\<lambda>_ _. False)\<rparr>"
  have new: "Queue_New alloc capacity growthFactor =
      Queue_EnsureCapacity alloc q0 n \<bind> (\<lambda>(ok, queue). if \<not> ok then Some None else Some (Some (queue\<lparr>q_fnObjectEquals := (=)\<rparr>)))"
    using assms(2) by (simp add: Queue_New_def q0_def n_def)
  have q: "q_capacity q0 = 0" "q_size q0 = 0" "q_head q0 = 0" "q_tail q0 = 0" "q_array q0 = []" "q_growthFactor q0 = 2"
    "q_event q0 = False" by (simp_all add: q0_def)
  have a: "add64 0 n = n" "mul64 0 2 = 0" "sub64 n 0 = n" using n by simp_all
  show ?thesis
  proof (cases "ptr_realloc alloc [] n")
    case None
    then show ?thesis using q a n unfolding new by (simp add: Queue_EnsureCapacity_def Let_def)
  next
    case (Some arr)
    have "length arr = n" using ptr_realloc_ok(1) [OF assms(1) Some] n by simp
    then show ?thesis using Some q a n unfolding new
      by (simp add: Queue_EnsureCapacity_def Let_def q_inv_def q_contents_def)
  qed
qed

section \<open>The contract of a queue\<close>

datatype queue_op = Enq ptr | Deq

text \<open>
  Enqueueing appends, except in the states that the predicate \<open>short\<close> names, where it changes nothing;
  dequeueing takes the first element, and an empty queue gives a null pointer. \<open>exec\<close> records the
  objects handed to \<open>enq\<close> in the other states, whether the queue keeps them or not, and those that came
  out.
\<close>

locale fifo_queue =
  fixes inv :: "'s \<Rightarrow> bool"
    and contents :: "'s \<Rightarrow> ptr list"
    and count :: "'s \<Rightarrow> nat"
    and short :: "'s \<Rightarrow> bool"
    and enq :: "'s \<Rightarrow> ptr \<Rightarrow> (bool \<times> 's) option"
    and deq :: "'s \<Rightarrow> (ptr \<times> 's) option"
  assumes count_ok: "inv s \<Longrightarrow> count s = length (contents s)"
    and enq_ok: "inv s \<Longrightarrow> run_ok (enq s x) (\<lambda>_ s'. inv s' \<and> contents s' = (if short s then contents s else contents s @ [x]))"
    and deq_ok: "inv s \<Longrightarrow> run_ok (deq s) (\<lambda>y s'. inv s' \<and>
      (case contents s of [] \<Rightarrow> y = 0 \<and> contents s' = [] | x # xs \<Rightarrow> y = x \<and> contents s' = xs))"
begin

fun exec :: "queue_op list \<Rightarrow> 's \<Rightarrow> ((ptr list \<times> ptr list) \<times> 's) option" where
  "exec [] s = Some (([], []), s)"
| "exec (Enq x # ops) s = do {
     (_, t) \<leftarrow> enq s x;
     ((ins, outs), u) \<leftarrow> exec ops t;
     Some ((if short s then ins else x # ins, outs), u) }"
| "exec (Deq # ops) s = do {
     (x, t) \<leftarrow> deq s;
     ((ins, outs), u) \<leftarrow> exec ops t;
     Some ((ins, if count s = 0 then outs else x # outs), u) }"

lemma exec_fifo:
  "inv s \<Longrightarrow> run_ok (exec ops s) (\<lambda>(ins, outs) s'. inv s' \<and> contents s @ ins = outs @ contents s')"
proof (induction ops arbitrary: s)
  case (Cons op ops)
  show ?case
  proof (cases op)
    case (Enq x)
    obtain b t where t: "enq s x = Some (b, t)" "inv t" "contents t = (if short s then contents s else contents s @ [x])"
      using enq_ok [OF Cons.prems, of x] by (elim run_okE) auto
    from Cons.IH [OF t(2)] show ?thesis using Enq t by (auto simp: run_ok_iff)
  next
    case Deq
    obtain y t where t: "deq s = Some (y, t)" "inv t"
      "case contents s of [] \<Rightarrow> y = 0 \<and> contents t = [] | x # xs \<Rightarrow> y = x \<and> contents t = xs"
      using deq_ok [OF Cons.prems] by (elim run_okE) auto
    from Cons.IH [OF t(2)] show ?thesis
      using Deq t count_ok [OF Cons.prems] by (cases "contents s") (auto simp: run_ok_iff)
  qed
qed simp

end

interpretation wqueue: fifo_queue "\<lambda>q. slots_bounded alloc \<and> q_inv q" q_contents Queue_Count "q_out_of_memory alloc"
    "Queue_Enqueue alloc" Queue_Dequeue for alloc
proof unfold_locales
  fix q x assume "slots_bounded alloc \<and> q_inv q"
  then show "run_ok (Queue_Enqueue alloc q x) (\<lambda>_ s'. (slots_bounded alloc \<and> q_inv s') \<and>
      q_contents s' = (if q_out_of_memory alloc q then q_contents q else q_contents q @ [x]))"
    using enqueue_ok [of q alloc x] by (auto intro: run_ok_mono)
next
  fix q assume "slots_bounded alloc \<and> q_inv q"
  then show "run_ok (Queue_Dequeue q) (\<lambda>y s'. (slots_bounded alloc \<and> q_inv s') \<and>
      (case q_contents q of [] \<Rightarrow> y = 0 \<and> q_contents s' = [] | x # xs \<Rightarrow> y = x \<and> q_contents s' = xs))"
    using dequeue_ok [of q] by (auto intro: run_ok_mono)
qed (simp add: Queue_Count_def q_contents_def)

section \<open>Properties of the queue\<close>

text \<open>
  C25: A queue made by \<^verbatim>\<open>Queue_New\<close> with the default growth factor and any capacity but one is a
  first-in first-out queue. After any sequence of \<^verbatim>\<open>Queue_Enqueue\<close> and \<^verbatim>\<open>Queue_Dequeue\<close>, wrapping and
  growing on the way, the objects dequeued followed by those still stored are all the objects
  enqueued, in order, save those enqueued while the array was full and the allocator had no array of
  twice the size. No access leaves the array, the event is set exactly while the queue is not empty,
  and \<^verbatim>\<open>Queue_Peek\<close> gives the first object.
\<close>

theorem Queue_fifo:
  assumes "slots_bounded alloc" "growthFactor \<le> 0" "capacity \<noteq> 1" "capacity < 2 ^ 31"
    "Queue_New alloc capacity growthFactor = Some (Some q)"
  shows "run_ok (wqueue.exec alloc ops q) (\<lambda>(ins, outs) q'. ins = outs @ q_contents q' \<and>
    (q_event q' \<longleftrightarrow> q_contents q' \<noteq> []) \<and> Queue_Peek q' = Some (case q_contents q' of [] \<Rightarrow> 0 | x # _ \<Rightarrow> x))"
proof -
  have q: "q_inv q" "q_contents q = []" using new_ok [OF assms(1-4)] assms(5) by auto
  have ev: "q_event r \<longleftrightarrow> q_contents r \<noteq> []" if "q_inv r" for r
    using that by (auto simp: q_inv_def q_contents_def ring_def)
  show ?thesis
    by (rule run_ok_mono [OF wqueue.exec_fifo [of alloc q ops]]) (auto simp: q assms(1) ev peek_head)
qed

theorem Queue_fifo_witness:
  "run_ok (wqueue.exec limit_slots [Enq 7, Enq 8, Deq, Enq 9, Enq 10] (the (the (Queue_New limit_slots 2 0))))
    (\<lambda>(ins, outs) q'. ins = outs @ q_contents q' \<and>
    (q_event q' \<longleftrightarrow> q_contents q' \<noteq> []) \<and> Queue_Peek q' = Some (case q_contents q' of [] \<Rightarrow> 0 | x # _ \<Rightarrow> x))"
  by (rule Queue_fifo [where capacity = 2 and growthFactor = 0])
     (simp_all add: Queue_New_def Queue_EnsureCapacity_def ptr_realloc_def c_realloc_def limit_slots_def Let_def mem_write_def)

text \<open>
  \<^verbatim>\<open>Queue_Clear\<close> ends, hands every stored object to the free function exactly once and in queue
  order (when there is one), and leaves an empty queue whose event is reset.
\<close>

lemma Queue_Clear_releases:
  assumes "q_inv q"
  shows "run_ok (Queue_Clear q) (\<lambda>freed q'. freed = (if q_fnObjectFree q then q_contents q else []) \<and>
    q_contents q' = [] \<and> \<not> q_event q' \<and> q_inv q')"
  by (rule run_ok_mono [OF clear_ok [OF assms]]) (auto simp: q_inv_def q_contents_def ring_def)

definition example_queue :: wQueue where
  "example_queue = \<lparr>q_capacity = 4, q_growthFactor = 2, q_head = 3, q_tail = 1, q_size = 2, q_array = [22, 0, 0, 11],
     q_event = True, q_fnObjectFree = True, q_fnObjectEquals = (=)\<rparr>"

lemma example_queue_inv: "q_inv example_queue" "q_contents example_queue = [11, 22]" "q_fnObjectFree example_queue"
  by (simp_all add: example_queue_def q_inv_def q_contents_def ring_def upt_rec)

text \<open>
  Two defects of the queue. A queue created with capacity one loses its first object: growing
  an empty array of one slot is taken for a wrapped queue, the object goes into the second slot, and
  \<^verbatim>\<open>Queue_Dequeue\<close> returns a null pointer. And \<^verbatim>\<open>Queue_Contains\<close> searches the slots below the tail
  instead of the stored ones, so that it misses an object of a wrapped queue.
\<close>

lemma Queue_defects:
  "(\<exists>q q1 q2. Queue_New limit_slots 1 0 = Some (Some q) \<and> Queue_Enqueue limit_slots q 7 = Some (True, q1) \<and>
     Queue_Dequeue q1 = Some (0, q2) \<and> Queue_Count q2 = 0) \<and>
   11 \<in> set (q_contents example_queue) \<and> Queue_Contains example_queue 11 = Some False"
proof -
  have l: "limit_slots 1 = Some [0]" "limit_slots 2 = Some [0, 0]"
    by (simp_all add: limit_slots_def) (simp add: numeral_2_eq_2)
  have q: "Queue_New limit_slots 1 0 = Some (Some \<lparr>q_capacity = 1, q_growthFactor = 2, q_head = 0, q_tail = 0,
      q_size = 0, q_array = [0], q_event = False, q_fnObjectFree = False, q_fnObjectEquals = (=)\<rparr>)" (is "_ = Some (Some ?q)")
    by (simp add: Queue_New_def Queue_EnsureCapacity_def ptr_realloc_def c_realloc_def l [unfolded One_nat_def] Let_def mem_write_def mem_read_def)
  have e: "Queue_Enqueue limit_slots ?q 7 = Some (True, ?q\<lparr>q_capacity := 2, q_array := [0, 7], q_tail := 0, q_size := 1, q_event := True\<rparr>)"
    by (simp add: Queue_Enqueue_def Queue_EnsureCapacity_def ptr_realloc_def c_realloc_def l Let_def mem_write_def mem_read_def)
  have c: "Queue_Contains example_queue 11 = Some False"
    by (simp add: Queue_Contains_def example_queue_def)
  show ?thesis using q e c
    by (simp add: example_queue_inv Queue_Dequeue_def Queue_Count_def mem_read_def mem_write_def)
qed

end
