(* ===== verification/Array_List.thy ===== *)
theory Array_List
  imports Object_Queue
begin

text \<open>
  The array list and the stack of WinPR (\<^verbatim>\<open>winpr/libwinpr/utils/collections/ArrayList.c\<close> and
  \<^verbatim>\<open>Stack.c\<close>): growing arrays of pointers. As for the queue, locking is not modelled, and objects
  handed to \<^verbatim>\<open>fnObjectFree\<close> are returned as a list in the order of the calls.

  The \<^verbatim>\<open>int\<close> parameters and results of \<^verbatim>\<open>ArrayList.c\<close> are kept: an index that is stored in an
  \<^verbatim>\<open>int\<close> is reduced to 32 bits with a sign.

  The locale \<open>list_store\<close> is the contract of an indexed list, the locale \<open>lifo_stack\<close> that of a stack;
  both are interpreted on the models of the code.
\<close>

section \<open>The array list\<close>

record wArrayList =
  al_capacity :: nat
  al_growthFactor :: nat
  al_size :: nat
  al_array :: "ptr list"
  al_fnObjectNew :: "(ptr \<Rightarrow> ptr) option"
  al_fnObjectFree :: bool
  al_fnObjectEquals :: "ptr \<Rightarrow> ptr \<Rightarrow> bool"

definition int_of_size :: "nat \<Rightarrow> int" where
  "int_of_size n = sint (word_of_nat n :: 32 word)"

definition size_of_int :: "int \<Rightarrow> nat" where
  "size_of_int i = nat (i mod 2 ^ 64)"

definition ArrayList_Capacity :: "wArrayList \<Rightarrow> nat" where
  "ArrayList_Capacity al = al_capacity al"

definition ArrayList_Count :: "wArrayList \<Rightarrow> nat" where
  "ArrayList_Count al = al_size al"

definition ArrayList_GetItem :: "wArrayList \<Rightarrow> nat \<Rightarrow> ptr option" where
  "ArrayList_GetItem al index =
     (if index < al_size al then do { v \<leftarrow> mem_read (al_array al) index 1; Some (v ! 0) } else Some 0)"

definition ArrayList_SetItem :: "wArrayList \<Rightarrow> nat \<Rightarrow> ptr \<Rightarrow> wArrayList option" where
  "ArrayList_SetItem al index obj =
     (if index < al_size al then do {
        arr \<leftarrow> mem_write (al_array al) index
          [case al_fnObjectNew al of Some f \<Rightarrow> f obj | None \<Rightarrow> obj];
        Some (al\<lparr>al_array := arr\<rparr>) }
      else Some al)"

definition ArrayList_EnsureCapacity :: "(nat \<Rightarrow> ptr list option) \<Rightarrow> wArrayList \<Rightarrow> nat \<Rightarrow> bool \<times> wArrayList" where
  "ArrayList_EnsureCapacity alloc al count =
     (if add64 (al_size al) count > al_capacity al then
        let newCapacity = mul64 (al_capacity al) (al_growthFactor al);
            newCapacity = (if newCapacity < add64 (al_size al) count then add64 (al_size al) count else newCapacity)
        in case ptr_realloc alloc (al_array al) newCapacity of
             None \<Rightarrow> (False, al)
           | Some newArray \<Rightarrow> (True, al\<lparr>al_array := newArray, al_capacity := newCapacity\<rparr>)
      else (True, al))"

text \<open>\<^verbatim>\<open>MoveMemory\<close> reads its source before it writes; an address before the array is a fault.\<close>

definition ArrayList_Shift :: "(nat \<Rightarrow> ptr list option) \<Rightarrow> wArrayList \<Rightarrow> int \<Rightarrow> int \<Rightarrow> (bool \<times> wArrayList) option" where
  "ArrayList_Shift alloc al index count =
     (if index < 0 then None
      else if count > 0 then
        let (ok, al) = ArrayList_EnsureCapacity alloc al (nat count) in
        if \<not> ok then Some (False, al)
        else do {
          bs \<leftarrow> mem_read (al_array al) (nat index) (sub64 (al_size al) (nat index));
          arr \<leftarrow> mem_write (al_array al) (nat (index + count)) bs;
          Some (True, al\<lparr>al_array := arr, al_size := add64 (al_size al) (nat count)\<rparr>) }
      else if count < 0 then do {
        let chunk = sint (word_of_int (int (al_size al) - index + count) :: 64 word);
        arr \<leftarrow> (if chunk > 0 then do {
                  bs \<leftarrow> mem_read (al_array al) (nat (index - count)) (nat chunk);
                  mem_write (al_array al) (nat index) bs }
                else Some (al_array al));
        Some (True, al\<lparr>al_array := arr, al_size := sub64 (al_size al) (nat (- count))\<rparr>) }
      else Some (True, al))"

text \<open>\<open>release arr n\<close> is the first \<open>n\<close> slots handed to the free function and set to null.\<close>

fun ArrayList_clear_loop :: "bool \<Rightarrow> ptr list \<Rightarrow> nat \<Rightarrow> nat \<Rightarrow> (ptr list \<times> ptr list) option" where
  "ArrayList_clear_loop f arr i 0 = Some ([], arr)"
| "ArrayList_clear_loop f arr i (Suc n) =
     (if i < length arr then do {
        (freed, arr') \<leftarrow> ArrayList_clear_loop f (arr[i := 0]) (i + 1) n;
        Some (if f then arr ! i # freed else freed, arr') }
      else None)"

definition ArrayList_Clear :: "wArrayList \<Rightarrow> (ptr list \<times> wArrayList) option" where
  "ArrayList_Clear al = do {
     (freed, arr) \<leftarrow> ArrayList_clear_loop (al_fnObjectFree al) (al_array al) 0 (al_size al);
     Some (freed, al\<lparr>al_array := arr, al_size := 0\<rparr>) }"

definition ArrayList_Contains :: "wArrayList \<Rightarrow> ptr \<Rightarrow> bool option" where
  "ArrayList_Contains al obj = do {
     r \<leftarrow> array_search (al_fnObjectEquals al) (al_array al) obj 0 (al_size al);
     Some (r \<noteq> None) }"

definition ArrayList_Add :: "(nat \<Rightarrow> ptr list option) \<Rightarrow> wArrayList \<Rightarrow> ptr \<Rightarrow> (int \<times> wArrayList) option" where
  "ArrayList_Add alloc al obj =
     (let (ok, al) = ArrayList_EnsureCapacity alloc al 1 in
      if \<not> ok then Some (- 1, al)
      else do {
        let index = int_of_size (al_size al);
        let al = al\<lparr>al_size := add64 (al_size al) 1\<rparr>;
        al \<leftarrow> ArrayList_SetItem al (size_of_int index) obj;
        Some (index, al) })"

definition ArrayList_Insert :: "(nat \<Rightarrow> ptr list option) \<Rightarrow> wArrayList \<Rightarrow> nat \<Rightarrow> ptr \<Rightarrow> (bool \<times> wArrayList) option" where
  "ArrayList_Insert alloc al index obj =
     (if index < al_size al then do {
        (ok, al) \<leftarrow> ArrayList_Shift alloc al (int_of_size index) 1;
        (if \<not> ok then Some (False, al)
         else do { al \<leftarrow> ArrayList_SetItem al index obj; Some (True, al) }) }
      else Some (True, al))"

definition ArrayList_free_at :: "wArrayList \<Rightarrow> nat \<Rightarrow> ptr list option" where
  "ArrayList_free_at al index =
     (if al_fnObjectFree al then mem_read (al_array al) index 1 else Some [])"

definition ArrayList_Remove :: "(nat \<Rightarrow> ptr list option) \<Rightarrow> wArrayList \<Rightarrow> ptr \<Rightarrow> ((bool \<times> ptr list) \<times> wArrayList) option" where
  "ArrayList_Remove alloc al obj = do {
     r \<leftarrow> array_search (al_fnObjectEquals al) (al_array al) obj 0 (al_size al);
     (case r of None \<Rightarrow> Some ((True, []), al)
      | Some index \<Rightarrow> do {
          freed \<leftarrow> ArrayList_free_at al index;
          (ret, al) \<leftarrow> ArrayList_Shift alloc al (int_of_size index) (- 1);
          Some ((ret, freed), al) }) }"

definition ArrayList_RemoveAt :: "(nat \<Rightarrow> ptr list option) \<Rightarrow> wArrayList \<Rightarrow> nat \<Rightarrow> ((bool \<times> ptr list) \<times> wArrayList) option" where
  "ArrayList_RemoveAt alloc al index =
     (if index < al_size al then do {
        freed \<leftarrow> ArrayList_free_at al index;
        (ret, al) \<leftarrow> ArrayList_Shift alloc al (int_of_size index) (- 1);
        Some ((ret, freed), al) }
      else Some ((True, []), al))"

definition ArrayList_IndexOf :: "wArrayList \<Rightarrow> ptr \<Rightarrow> int \<Rightarrow> int \<Rightarrow> int option" where
  "ArrayList_IndexOf al obj startIndex count = do {
     let sindex = (if startIndex < 0 then 0 else startIndex);
     let cindex = (if count < 0 then int (al_size al) else count);
     r \<leftarrow> array_search (al_fnObjectEquals al) (al_array al) obj (nat sindex) (nat cindex);
     Some (case r of None \<Rightarrow> - 1 | Some i \<Rightarrow> int i) }"

text \<open>The search from the end tests slot \<open>index - 1\<close> and returns \<open>index\<close>.\<close>

fun array_search_back :: "(ptr \<Rightarrow> ptr \<Rightarrow> bool) \<Rightarrow> ptr list \<Rightarrow> ptr \<Rightarrow> nat \<Rightarrow> nat \<Rightarrow> nat option option" where
  "array_search_back eq arr obj s 0 = Some None"
| "array_search_back eq arr obj s (Suc n) =
     (if s + n < length arr
      then if eq (arr ! (s + n)) obj then Some (Some (s + Suc n)) else array_search_back eq arr obj s n
      else None)"

definition ArrayList_LastIndexOf :: "wArrayList \<Rightarrow> ptr \<Rightarrow> int \<Rightarrow> int \<Rightarrow> int option" where
  "ArrayList_LastIndexOf al obj startIndex count = do {
     let sindex = (if startIndex < 0 then 0 else startIndex);
     let cindex = (if count < 0 then int (al_size al) else count);
     r \<leftarrow> array_search_back (al_fnObjectEquals al) (al_array al) obj (nat sindex) (nat cindex);
     Some (case r of None \<Rightarrow> - 1 | Some i \<Rightarrow> int i) }"

text \<open>The callback may change a state of its own; the walk stops at the first refusal.\<close>

fun ArrayList_foreach_loop ::
  "wArrayList \<Rightarrow> (ptr \<Rightarrow> nat \<Rightarrow> 's \<Rightarrow> bool \<times> 's) \<Rightarrow> nat \<Rightarrow> nat \<Rightarrow> 's \<Rightarrow> (bool \<times> 's) option" where
  "ArrayList_foreach_loop al fkt i 0 st = Some (True, st)"
| "ArrayList_foreach_loop al fkt i (Suc n) st = do {
     obj \<leftarrow> ArrayList_GetItem al i;
     let (ok, st) = fkt obj i st;
     (if \<not> ok then Some (False, st) else ArrayList_foreach_loop al fkt (i + 1) n st) }"

definition ArrayList_ForEach :: "wArrayList \<Rightarrow> (ptr \<Rightarrow> nat \<Rightarrow> 's \<Rightarrow> bool \<times> 's) \<Rightarrow> 's \<Rightarrow> (bool \<times> 's) option" where
  "ArrayList_ForEach al fkt st = ArrayList_foreach_loop al fkt 0 (ArrayList_Count al) st"

definition ArrayList_New :: "(nat \<Rightarrow> ptr list option) \<Rightarrow> wArrayList option" where
  "ArrayList_New alloc =
     (let al = \<lparr>al_capacity = 0, al_growthFactor = 2, al_size = 0, al_array = [], al_fnObjectNew = None,
                al_fnObjectFree = False, al_fnObjectEquals = (=)\<rparr>;
          (ok, al) = ArrayList_EnsureCapacity alloc al 32
      in if \<not> ok then None else Some al)"

section \<open>The stack\<close>

record wStack =
  st_capacity :: nat
  st_size :: nat
  st_array :: "ptr list"
  st_fnObjectFree :: bool
  st_fnObjectEquals :: "ptr \<Rightarrow> ptr \<Rightarrow> bool"

definition Stack_Count :: "wStack \<Rightarrow> nat" where
  "Stack_Count stack = st_size stack"

definition Stack_Clear :: "wStack \<Rightarrow> (ptr list \<times> wStack) option" where
  "Stack_Clear stack = do {
     (freed, arr) \<leftarrow> ArrayList_clear_loop (st_fnObjectFree stack) (st_array stack) 0 (st_size stack);
     Some (freed, stack\<lparr>st_array := arr, st_size := 0\<rparr>) }"

definition Stack_Contains :: "wStack \<Rightarrow> ptr \<Rightarrow> bool option" where
  "Stack_Contains stack obj = do {
     r \<leftarrow> array_search (st_fnObjectEquals stack) (st_array stack) obj 0 (st_size stack);
     Some (r \<noteq> None) }"

text \<open>A failed reallocation drops the object without a sign.\<close>

definition Stack_Push :: "(nat \<Rightarrow> ptr list option) \<Rightarrow> wStack \<Rightarrow> ptr \<Rightarrow> wStack option" where
  "Stack_Push alloc stack obj = do {
     let grown = (if add64 (st_size stack) 1 \<ge> st_capacity stack then
                    let new_cap = mul64 (st_capacity stack) 2
                    in map_option (\<lambda>new_arr. stack\<lparr>st_array := new_arr, st_capacity := new_cap\<rparr>)
                         (ptr_realloc alloc (st_array stack) new_cap)
                  else Some stack);
     (case grown of None \<Rightarrow> Some stack
      | Some stack \<Rightarrow> do {
          arr \<leftarrow> mem_write (st_array stack) (st_size stack) [obj];
          Some (stack\<lparr>st_array := arr, st_size := add64 (st_size stack) 1\<rparr>) }) }"

definition Stack_Pop :: "wStack \<Rightarrow> (ptr \<times> wStack) option" where
  "Stack_Pop stack =
     (if st_size stack > 0 then do {
        let stack = stack\<lparr>st_size := st_size stack - 1\<rparr>;
        v \<leftarrow> mem_read (st_array stack) (st_size stack) 1;
        Some (v ! 0, stack) }
      else Some (0, stack))"

definition Stack_Peek :: "wStack \<Rightarrow> ptr option" where
  "Stack_Peek stack =
     (if st_size stack > 0 then do { v \<leftarrow> mem_read (st_array stack) (st_size stack - 1) 1; Some (v ! 0) }
      else Some 0)"

definition Stack_New :: "(nat \<Rightarrow> ptr list option) \<Rightarrow> wStack option" where
  "Stack_New calloc =
     (case calloc 32 of None \<Rightarrow> None
      | Some _ \<Rightarrow> Some \<lparr>st_capacity = 32, st_size = 0, st_array = replicate 32 0, st_fnObjectFree = False,
                         st_fnObjectEquals = (=)\<rparr>)"

section \<open>Invariant and abstraction of the array list\<close>

definition al_inv :: "wArrayList \<Rightarrow> bool" where
  "al_inv al \<longleftrightarrow> length (al_array al) = al_capacity al \<and> al_size al \<le> al_capacity al \<and> al_capacity al < 2 ^ 60 \<and>
     al_growthFactor al = 2 \<and> al_size al < 2 ^ 31"

definition al_contents :: "wArrayList \<Rightarrow> ptr list" where
  "al_contents al = take (al_size al) (al_array al)"

definition new_object :: "wArrayList \<Rightarrow> ptr \<Rightarrow> ptr" where
  "new_object al obj = (case al_fnObjectNew al of Some f \<Rightarrow> f obj | None \<Rightarrow> obj)"

text \<open>The only reason to lose an object: the array is full and the allocator has no larger one.\<close>

definition al_out_of_memory :: "(nat \<Rightarrow> ptr list option) \<Rightarrow> wArrayList \<Rightarrow> bool" where
  "al_out_of_memory alloc al \<longleftrightarrow> al_size al = al_capacity al \<and>
     ptr_realloc alloc (al_array al) (max (al_capacity al * 2) (al_size al + 1)) = None"

lemma length_al_contents [simp]: "al_inv al \<Longrightarrow> length (al_contents al) = al_size al"
  by (simp add: al_inv_def al_contents_def)

lemma int_of_size_exact [simp]: "n < 2 ^ 31 \<Longrightarrow> int_of_size n = int n"
  by (simp add: int_of_size_def sint_uint signed_take_bit_int_eq_self uint_nat unat_of_nat flip: of_nat_less_iff)

lemma sint64_exact: "n < 2 ^ 31 \<Longrightarrow> sint (word_of_nat n :: 64 word) = int n"
  by (simp add: sint_uint signed_take_bit_int_eq_self uint_nat unat_of_nat flip: of_nat_less_iff)

lemma size_of_int_exact [simp]: "n < 2 ^ 64 \<Longrightarrow> size_of_int (int n) = n"
  by (simp add: size_of_int_def nat_mod_distrib)

lemma mem_read1: "i < length arr \<Longrightarrow> mem_read arr i (Suc 0) = Some [arr ! i]"
  by (simp add: Cons_nth_drop_Suc [symmetric])

lemma mem_write1: "i < length arr \<Longrightarrow> mem_write arr i [v] = Some (arr[i := v])"
  by (simp add: upd_conv_take_nth_drop)

lemma al_ensure_ok:
  assumes i: "al_inv al" and a: "slots_bounded alloc" and n: "count < 2 ^ 31"
  obtains ok al' where "ArrayList_EnsureCapacity alloc al count = (ok, al')" "al_inv al'"
    "al_contents al' = al_contents al" "al_size al' = al_size al" "al_fnObjectNew al' = al_fnObjectNew al"
    "al_fnObjectFree al' = al_fnObjectFree al" "al_fnObjectEquals al' = al_fnObjectEquals al"
    "if ok then al_size al + count \<le> al_capacity al' else al' = al"
proof -
  have bd: "length (al_array al) = al_capacity al" "al_size al \<le> al_capacity al" "al_capacity al < 2 ^ 60"
    "al_growthFactor al = 2" "al_size al < 2 ^ 31" using i by (auto simp: al_inv_def)
  have ad: "add64 (al_size al) count = al_size al + count" using bd n by simp
  have mu: "mul64 (al_capacity al) 2 = al_capacity al * 2" using bd by simp
  define m where "m = (if al_capacity al * 2 < al_size al + count then al_size al + count else al_capacity al * 2)"
  show thesis
  proof (cases "al_size al + count > al_capacity al")
    case False
    then show thesis using i ad by (intro that [of True al]) (simp_all add: ArrayList_EnsureCapacity_def)
  next
    case True
    have E: "ArrayList_EnsureCapacity alloc al count = (case ptr_realloc alloc (al_array al) m of None \<Rightarrow> (False, al)
        | Some arr \<Rightarrow> (True, al\<lparr>al_array := arr, al_capacity := m\<rparr>))"
      using True unfolding ArrayList_EnsureCapacity_def Let_def ad mu bd(4) m_def by (rule if_P)
    have ge: "al_capacity al \<le> m" "al_size al + count \<le> m" "m < 2 ^ 61" using bd n by (auto simp: m_def)
    show thesis
    proof (cases "ptr_realloc alloc (al_array al) m")
      case None
      then show thesis using i by (intro that [of False al]) (simp_all add: E)
    next
      case (Some arr)
      have arr: "length arr = m" "m < 2 ^ 60" "take (al_capacity al) arr = al_array al"
        using ptr_realloc_ok [OF a Some ge(3)] bd(1) ge(1) by simp_all
      have "take (al_size al) arr = take (al_size al) (take (al_capacity al) arr)" using bd(2) by (simp add: min_def)
      then have "take (al_size al) arr = take (al_size al) (al_array al)" using arr(3) by simp
      then show thesis using arr ge bd Some
        by (intro that [of True "al\<lparr>al_array := arr, al_capacity := m\<rparr>"]) (simp_all add: E al_inv_def al_contents_def)
    qed
  qed
qed

lemma one_fits: "(1 :: nat) < 2 ^ 31"
  by simp

lemma al_ensure_one:
  assumes "al_inv al"
  shows "fst (ArrayList_EnsureCapacity alloc al 1) \<longleftrightarrow> \<not> al_out_of_memory alloc al"
proof -
  have bd: "al_size al \<le> al_capacity al" "al_capacity al < 2 ^ 60" "al_growthFactor al = 2" using assms by (auto simp: al_inv_def)
  then have a: "add64 (al_size al) 1 = al_size al + 1" "mul64 (al_capacity al) 2 = al_capacity al * 2" by simp_all
  have m: "(if c * 2 < n then n else c * 2) = max (c * 2) n" for c n :: nat by simp
  have f: "al_capacity al < al_size al + 1 \<longleftrightarrow> al_size al = al_capacity al" using bd(1) by auto
  show ?thesis unfolding ArrayList_EnsureCapacity_def al_out_of_memory_def Let_def bd(3) a m f by (simp split: option.splits)
qed

lemma get_ok:
  assumes "al_inv al"
  shows "ArrayList_GetItem al index = Some (if index < length (al_contents al) then al_contents al ! index else 0)"
  using assms by (auto simp: ArrayList_GetItem_def al_inv_def al_contents_def mem_read1)

lemma set_ok:
  assumes "al_inv al" "index < al_size al"
  shows "ArrayList_SetItem al index obj = Some (al\<lparr>al_array := (al_array al)[index := new_object al obj]\<rparr>)"
  using assms by (simp add: ArrayList_SetItem_def al_inv_def mem_write1 new_object_def del: mem_write_ok)

lemma add_ok:
  assumes i: "al_inv al" and a: "slots_bounded alloc" and n: "al_size al + 1 < 2 ^ 31"
  shows "run_ok (ArrayList_Add alloc al obj) (\<lambda>r al'. al_inv al' \<and>
    (if al_out_of_memory alloc al then r = - 1 \<and> al' = al
     else r = int (al_size al) \<and> al_contents al' = al_contents al @ [new_object al obj]))"
proof -
  obtain ok r where r: "ArrayList_EnsureCapacity alloc al 1 = (ok, r)" "al_inv r" "al_contents r = al_contents al"
    "al_size r = al_size al" "al_fnObjectNew r = al_fnObjectNew al" "if ok then al_size al + 1 \<le> al_capacity r else r = al"
    by (rule al_ensure_ok [OF i a one_fits])
  have oom: "ok \<longleftrightarrow> \<not> al_out_of_memory alloc al" using al_ensure_one [OF i, of alloc] r(1) by simp
  show ?thesis
  proof (cases ok)
    case False
    then show ?thesis using r i oom by (simp add: ArrayList_Add_def)
  next
    case True
    let ?k = "al_size al"
    have bd: "length (al_array r) = al_capacity r" "?k < al_capacity r" "al_capacity r < 2 ^ 60" "al_growthFactor r = 2"
      using r True by (auto simp: al_inv_def)
    let ?r = "r\<lparr>al_size := ?k + 1\<rparr>"
    have "al_inv ?r" using bd n r(2) by (simp add: al_inv_def)
    then have "ArrayList_SetItem ?r ?k obj = Some (?r\<lparr>al_array := (al_array r)[?k := new_object al obj]\<rparr>)"
      using set_ok [of ?r ?k obj] r(5) by (simp add: new_object_def)
    moreover have "take (?k + 1) ((al_array r)[?k := v]) = al_contents al @ [v]" for v
      using bd r(3,4) by (simp add: al_contents_def take_Suc_conv_app_nth)
    ultimately show ?thesis using r(1,4) True oom n bd by (simp add: ArrayList_Add_def al_inv_def al_contents_def)
  qed
qed

lemma insert_ok:
  assumes i: "al_inv al" and a: "slots_bounded alloc" and n: "al_size al + 1 < 2 ^ 31" "index < al_size al"
  shows "run_ok (ArrayList_Insert alloc al index obj) (\<lambda>ok al'. al_inv al' \<and>
    (if al_out_of_memory alloc al then \<not> ok \<and> al' = al
     else ok \<and> al_contents al' = take index (al_contents al) @ [new_object al obj] @ drop index (al_contents al)))"
proof -
  obtain ok r where r: "ArrayList_EnsureCapacity alloc al 1 = (ok, r)" "al_inv r" "al_contents r = al_contents al"
    "al_size r = al_size al" "al_fnObjectNew r = al_fnObjectNew al" "if ok then al_size al + 1 \<le> al_capacity r else r = al"
    by (rule al_ensure_ok [OF i a one_fits])
  have oom: "ok \<longleftrightarrow> \<not> al_out_of_memory alloc al" using al_ensure_one [OF i, of alloc] r(1) by simp
  have ix: "int_of_size index = int index" using n by simp
  show ?thesis
  proof (cases ok)
    case False
    then show ?thesis using r i n ix oom by (simp add: ArrayList_Insert_def ArrayList_Shift_def)
  next
    case True
    let ?k = "al_size al" let ?b = "al_array r" let ?m = "take (?k - index) (drop index ?b)"
    have bd: "length ?b = al_capacity r" "?k < al_capacity r" "al_capacity r < 2 ^ 60" "al_growthFactor r = 2"
      using r True by (auto simp: al_inv_def)
    let ?arr = "take (index + 1) ?b @ ?m @ drop (?k + 1) ?b"
    have rd: "mem_read ?b index (?k - index) = Some ?m" using bd n by simp
    have wr: "mem_write ?b (index + 1) ?m = Some ?arr" using bd n by (simp add: min_def)
    let ?r = "r\<lparr>al_array := ?arr, al_size := ?k + 1\<rparr>"
    have sh: "ArrayList_Shift alloc al (int index) 1 = Some (True, ?r)"
      using r(1,4) True rd wr n bd
      by (simp add: ArrayList_Shift_def nat_add_distrib del: mem_read_ok mem_write_ok)
    have inv: "al_inv ?r" using bd n r(2) by (simp add: al_inv_def min_def)
    then have st: "ArrayList_SetItem ?r index obj = Some (?r\<lparr>al_array := ?arr[index := new_object al obj]\<rparr>)"
      using set_ok [of ?r index obj] n r(5) by (simp add: new_object_def)
    have c: "al_contents al = take ?k ?b" using r(3,4) by (simp add: al_contents_def)
    have "take (?k + 1) (?arr[index := v]) = take index (take ?k ?b) @ [v] @ drop index (take ?k ?b)" for v
    proof -
      have "?arr[index := v] = take index ?b @ [v] @ ?m @ drop (?k + 1) ?b"
        using bd n by (simp add: take_Suc_conv_app_nth list_update_append min_def)
      then show ?thesis using bd n by (simp add: min_def drop_take Suc_diff_le)
    qed
    then show ?thesis using sh st inv ix n c True oom by (simp add: ArrayList_Insert_def al_inv_def al_contents_def)
  qed
qed

lemma shift_down_ok:
  assumes i: "al_inv al" and n: "index < al_size al"
  shows "\<exists>al'. ArrayList_Shift alloc al (int_of_size index) (- 1) = Some (True, al') \<and> al_inv al' \<and>
    al_contents al' = take index (al_contents al) @ drop (index + 1) (al_contents al)"
proof -
  let ?k = "al_size al" let ?b = "al_array al" let ?c = "?k - index - 1"
  have bd: "length ?b = al_capacity al" "?k \<le> al_capacity al" "al_capacity al < 2 ^ 60" "al_growthFactor al = 2" "?k < 2 ^ 31"
    using i by (auto simp: al_inv_def)
  have ix: "int_of_size index = int index" using n bd(5) by simp
  have "int ?k - int index + - 1 = int ?c" using n by simp
  then have ch: "sint (word_of_int (int ?k - int index + - 1) :: 64 word) = int ?c"
    using bd(5) by (simp only: of_int_of_nat_eq) (rule sint64_exact, simp)
  have sz: "sub64 ?k (nat (- (- 1))) = ?k - 1" using n bd(5) by simp
  let ?arr = "take index ?b @ take ?c (drop (index + 1) ?b) @ drop (index + ?c) ?b"
  have rd: "mem_read ?b (index + 1) ?c = Some (take ?c (drop (index + 1) ?b))" using n bd by simp
  have len: "length (take ?c (drop (index + 1) ?b)) = ?c" using n bd by simp
  have wr: "mem_write ?b index (take ?c (drop (index + 1) ?b)) = Some ?arr"
    unfolding mem_write_def len using n bd by auto
  have nt: "nat (int index - - 1) = index + 1" by simp
  have arr: "(if int ?c > 0 then do { bs \<leftarrow> mem_read ?b (nat (int index - - 1)) (nat (int ?c)); mem_write ?b (nat (int index)) bs }
      else Some ?b) = Some ?arr"
  proof (cases "?c = 0")
    case True
    then show ?thesis by simp
  next
    case False
    then have "int ?c > 0" by linarith
    then show ?thesis unfolding nt nat_int rd Option.bind.simps wr by (rule if_P)
  qed
  have "ArrayList_Shift alloc al (int index) (- 1) = Some (True, al\<lparr>al_array := ?arr, al_size := ?k - 1\<rparr>)"
    unfolding ArrayList_Shift_def ch Let_def arr sz by simp
  moreover have "take (?k - 1) ?arr = take index (take ?k ?b) @ drop (index + 1) (take ?k ?b)"
    using n bd by (cases "?k = index + 1") (auto simp: min_def drop_take)
  moreover have "length ?arr = al_capacity al" using length_mem_write [OF wr] bd(1) by simp
  ultimately show ?thesis using bd n unfolding ix
    by (intro exI [of _ "al\<lparr>al_array := ?arr, al_size := ?k - 1\<rparr>"]) (auto simp: al_inv_def al_contents_def)
qed

lemma free_at_ok:
  assumes "al_inv al" "index < al_size al"
  shows "ArrayList_free_at al index = Some (if al_fnObjectFree al then [al_contents al ! index] else [])"
  using assms by (simp add: ArrayList_free_at_def al_inv_def al_contents_def mem_read1 del: mem_read_ok)

lemma removeAt_ok:
  assumes i: "al_inv al" and n: "index < al_size al"
  shows "run_ok (ArrayList_RemoveAt alloc al index) (\<lambda>(ok, freed) al'. ok \<and> al_inv al' \<and>
    freed = (if al_fnObjectFree al then [al_contents al ! index] else []) \<and>
    al_contents al' = take index (al_contents al) @ drop (index + 1) (al_contents al))"
proof -
  obtain al' where "ArrayList_Shift alloc al (int_of_size index) (- 1) = Some (True, al')" "al_inv al'"
    "al_contents al' = take index (al_contents al) @ drop (index + 1) (al_contents al)"
    using shift_down_ok [OF i n] by blast
  then show ?thesis using n by (simp add: ArrayList_RemoveAt_def free_at_ok [OF i n])
qed

text \<open>A linear search finds the first match, or reports that there is none.\<close>

lemma array_search_ok:
  "i + n \<le> length arr \<Longrightarrow> array_search eq arr obj i n = Some (find (\<lambda>j. eq (arr ! j) obj) [i..<i + n])"
proof (induction n arbitrary: i)
  case (Suc n)
  have "[i..<i + Suc n] = i # [Suc i..<Suc i + n]" by (simp add: upt_conv_Cons)
  then show ?case using Suc by simp
qed simp

lemma find_index_contents:
  assumes "al_inv al"
  shows "find (\<lambda>j. P (al_array al ! j)) [0..<al_size al] = find (\<lambda>j. P (al_contents al ! j)) [0..<al_size al]"
  using assms by (intro find_cong) (auto simp: al_contents_def)

lemma find_first_index:
  "find (\<lambda>j. Q (xs ! j)) [0..<length xs] =
     (let k = length (takeWhile (\<lambda>x. \<not> Q x) xs) in if k < length xs then Some k else None)"
proof (cases "length (takeWhile (\<lambda>x. \<not> Q x) xs) < length xs")
  case True
  have "\<not> Q (xs ! j)" if "j < length (takeWhile (\<lambda>x. \<not> Q x) xs)" for j
    using that by (metis nth_mem set_takeWhileD takeWhile_nth)
  then show ?thesis using True nth_length_takeWhile [OF True] by (auto simp: find_Some_iff Let_def)
next
  case False
  then have "takeWhile (\<lambda>x. \<not> Q x) xs = xs" by (metis takeWhile_eq_take take_all not_less)
  then show ?thesis using False by (auto simp: find_None_iff Let_def takeWhile_eq_all_conv)
qed

lemma al_remove_ok:
  fixes obj :: ptr
  assumes i: "al_inv al"
  defines "differs \<equiv> \<lambda>x. \<not> al_fnObjectEquals al x obj"
  shows "run_ok (ArrayList_Remove alloc al obj) (\<lambda>(ok, freed) al'. ok \<and> al_inv al' \<and>
    freed = (if al_fnObjectFree al then take 1 (dropWhile differs (al_contents al)) else []) \<and>
    al_contents al' = takeWhile differs (al_contents al) @ tl (dropWhile differs (al_contents al)))"
proof -
  let ?c = "al_contents al" let ?k = "length (takeWhile differs ?c)"
  have l: "0 + al_size al \<le> length (al_array al)" using i by (simp add: al_inv_def)
  have s: "array_search (al_fnObjectEquals al) (al_array al) obj 0 (al_size al) = Some (if ?k < al_size al then Some ?k else None)"
    using array_search_ok [OF l] find_index_contents [OF i, of "\<lambda>x. al_fnObjectEquals al x obj"]
      find_first_index [of "\<lambda>x. al_fnObjectEquals al x obj" ?c] i by (simp add: differs_def Let_def)
  show ?thesis
  proof (cases "?k < al_size al")
    case True
    obtain al' where "ArrayList_Shift alloc al (int_of_size ?k) (- 1) = Some (True, al')" "al_inv al'"
      "al_contents al' = take ?k ?c @ drop (?k + 1) ?c" using shift_down_ok [OF i True] by blast
    moreover have "dropWhile differs ?c = ?c ! ?k # drop (?k + 1) ?c" using True i
      by (simp add: dropWhile_eq_drop Cons_nth_drop_Suc)
    ultimately show ?thesis using True s
      by (simp add: ArrayList_Remove_def free_at_ok [OF i True] takeWhile_eq_take [symmetric])
  next
    case False
    then have t: "takeWhile differs ?c = ?c" using i by (metis takeWhile_eq_take take_all not_less length_al_contents)
    then have d: "dropWhile differs ?c = []" using takeWhile_dropWhile_id [of differs ?c] by (metis append_self_conv)
    show ?thesis using False s i by (simp add: ArrayList_Remove_def t d)
  qed
qed

lemma clear_loop_array:
  "i + n \<le> length arr \<Longrightarrow> \<exists>arr'. ArrayList_clear_loop f arr i n = Some (if f then take n (drop i arr) else [], arr') \<and>
    length arr' = length arr"
proof (induction n arbitrary: i arr)
  case (Suc n)
  then obtain arr' where "ArrayList_clear_loop f (arr[i := 0]) (i + 1) n = Some (if f then take n (drop (i + 1) arr) else [], arr')"
    "length arr' = length arr" using Suc.IH [of "i + 1" "arr[i := 0]"] by (auto simp: drop_update_cancel)
  then show ?case using Suc.prems by (auto simp: Cons_nth_drop_Suc [symmetric])
qed simp

lemma al_new_ok:
  assumes "slots_bounded alloc" "ArrayList_New alloc = Some al"
  shows "al_inv al" "al_contents al = []"
proof -
  let ?al = "\<lparr>al_capacity = 0, al_growthFactor = 2, al_size = 0, al_array = [], al_fnObjectNew = None,
                al_fnObjectFree = False, al_fnObjectEquals = (=)\<rparr> :: wArrayList"
  have i: "al_inv ?al" "(32 :: nat) < 2 ^ 31" by (simp_all add: al_inv_def)
  obtain ok r where r: "ArrayList_EnsureCapacity alloc ?al 32 = (ok, r)" "al_inv r" "al_contents r = al_contents ?al"
    by (rule al_ensure_ok [OF i(1) assms(1) i(2)])
  then show "al_inv al" "al_contents al = []"
    using assms(2) by (auto simp: ArrayList_New_def Let_def al_contents_def split: if_splits)
qed

section \<open>The contract of an indexed list\<close>

text \<open>
  Appending, inserting and removing have the effect of the list operations (or leave the list alone
  when memory is short); from this follow the laws a client uses.
\<close>

locale list_store =
  fixes inv :: "'s \<Rightarrow> bool"
    and contents :: "'s \<Rightarrow> ptr list"
    and get :: "'s \<Rightarrow> nat \<Rightarrow> ptr option"
    and full :: "'s \<Rightarrow> bool"
    and norm :: "'s \<Rightarrow> ptr \<Rightarrow> ptr"
    and ins :: "'s \<Rightarrow> nat \<Rightarrow> ptr \<Rightarrow> (bool \<times> 's) option"
    and del :: "'s \<Rightarrow> nat \<Rightarrow> 's option"
  assumes get_law: "inv s \<Longrightarrow> i < length (contents s) \<Longrightarrow> get s i = Some (contents s ! i)"
    and ins_law: "inv s \<Longrightarrow> \<not> full s \<Longrightarrow> i < length (contents s) \<Longrightarrow> run_ok (ins s i x) (\<lambda>ok t. inv t \<and>
      contents t = (if ok then take i (contents s) @ [norm s x] @ drop i (contents s) else contents s))"
    and del_law: "inv s \<Longrightarrow> i < length (contents s) \<Longrightarrow>
      \<exists>t. del s i = Some t \<and> inv t \<and> contents t = take i (contents s) @ drop (i + 1) (contents s)"
begin

lemma ins_then_get:
  assumes "inv s" "\<not> full s" "i < length (contents s)"
  shows "run_ok (ins s i x) (\<lambda>ok t. ok \<longrightarrow> get t i = Some (norm s x) \<and>
    (\<forall>j < length (contents s). get t (if j < i then j else j + 1) = Some (contents s ! j)))"
proof (rule run_ok_mono [OF ins_law [OF assms]])
  fix ok t
  assume t: "inv t \<and> contents t = (if ok then take i (contents s) @ [norm s x] @ drop i (contents s) else contents s)"
  show "ok \<longrightarrow> get t i = Some (norm s x) \<and>
    (\<forall>j < length (contents s). get t (if j < i then j else j + 1) = Some (contents s ! j))"
    using t assms(3) by (auto simp: get_law nth_append min_def)
qed

lemma ins_then_del:
  assumes "inv s" "\<not> full s" "i < length (contents s)"
  shows "run_ok (ins s i x) (\<lambda>ok t. ok \<longrightarrow> (\<exists>u. del t i = Some u \<and> inv u \<and> contents u = contents s))"
proof (rule run_ok_mono [OF ins_law [OF assms]])
  fix ok t
  assume t: "inv t \<and> contents t = (if ok then take i (contents s) @ [norm s x] @ drop i (contents s) else contents s)"
  show "ok \<longrightarrow> (\<exists>u. del t i = Some u \<and> inv u \<and> contents u = contents s)"
  proof
    assume ok
    then have "contents t = take i (contents s) @ [norm s x] @ drop i (contents s)" using t by simp
    then show "\<exists>u. del t i = Some u \<and> inv u \<and> contents u = contents s"
      using del_law [of t i] t assms(3) by auto
  qed
qed

end

interpretation array_list: list_store "\<lambda>al. slots_bounded alloc \<and> al_inv al" al_contents ArrayList_GetItem
    "\<lambda>al. 2 ^ 31 \<le> al_size al + 1" new_object "ArrayList_Insert alloc"
    "\<lambda>al i. map_option snd (ArrayList_RemoveAt alloc al i)" for alloc
proof unfold_locales
  fix al i assume "slots_bounded alloc \<and> al_inv al" "i < length (al_contents al)"
  then show "ArrayList_GetItem al i = Some (al_contents al ! i)" by (simp add: get_ok)
next
  fix al i x assume "slots_bounded alloc \<and> al_inv al" "\<not> 2 ^ 31 \<le> al_size al + 1" "i < length (al_contents al)"
  then show "run_ok (ArrayList_Insert alloc al i x) (\<lambda>ok t. (slots_bounded alloc \<and> al_inv t) \<and>
      al_contents t = (if ok then take i (al_contents al) @ [new_object al x] @ drop i (al_contents al) else al_contents al))"
    by (intro run_ok_mono [OF insert_ok [of al alloc i x]]) (auto split: if_splits)
next
  fix al i assume "slots_bounded alloc \<and> al_inv al" "i < length (al_contents al)"
  then show "\<exists>t. map_option snd (ArrayList_RemoveAt alloc al i) = Some t \<and> (slots_bounded alloc \<and> al_inv t) \<and>
      al_contents t = take i (al_contents al) @ drop (i + 1) (al_contents al)"
    using removeAt_ok [of al i alloc] by (auto elim!: run_okE)
qed

section \<open>Invariant, abstraction and contract of the stack\<close>

definition st_inv :: "wStack \<Rightarrow> bool" where
  "st_inv st \<longleftrightarrow> length (st_array st) = st_capacity st \<and> 2 \<le> st_capacity st \<and> st_capacity st < 2 ^ 60 \<and>
     st_size st < st_capacity st"

definition st_contents :: "wStack \<Rightarrow> ptr list" where
  "st_contents st = take (st_size st) (st_array st)"

lemma push_ok:
  assumes i: "st_inv st" and a: "slots_bounded alloc"
  shows "\<exists>st'. Stack_Push alloc st obj = Some st' \<and> st_inv st' \<and> (st_contents st' = st_contents st @ [obj] \<or> st' = st)"
proof -
  let ?k = "st_size st" let ?c = "st_capacity st"
  have bd: "length (st_array st) = ?c" "2 \<le> ?c" "?c < 2 ^ 60" "?k < ?c" using i by (auto simp: st_inv_def)
  have ad: "add64 ?k 1 = ?k + 1" "mul64 ?c 2 = ?c * 2" using bd by simp_all
  have fin: "(do { arr \<leftarrow> mem_write (st_array r) (st_size r) [obj];
        Some (r\<lparr>st_array := arr, st_size := add64 (st_size r) 1\<rparr>) }) =
      Some (r\<lparr>st_array := (st_array r)[?k := obj], st_size := ?k + 1\<rparr>)"
    and con: "take (?k + 1) ((st_array r)[?k := obj]) = st_contents st @ [obj]"
    if "st_size r = ?k" "?k < length (st_array r)" "take ?k (st_array r) = st_contents st" for r
    using that ad(1) by (simp_all add: mem_write1 take_Suc_conv_app_nth del: mem_write_ok)
  show ?thesis
  proof (cases "?k + 1 \<ge> ?c")
    case False
    then show ?thesis using fin [of st] con [of st] ad(1) bd
      by (auto simp: Stack_Push_def st_inv_def st_contents_def)
  next
    case True
    show ?thesis
    proof (cases "ptr_realloc alloc (st_array st) (?c * 2)")
      case None
      then show ?thesis using True ad i by (simp add: Stack_Push_def Let_def)
    next
      case (Some arr)
      have arr: "length arr = ?c * 2" "?c * 2 < 2 ^ 60" "take ?c arr = st_array st"
        using ptr_realloc_ok [OF a Some] bd by simp_all
      have "take ?k arr = take ?k (take ?c arr)" using bd(4) by (simp add: min_def)
      then have t: "take ?k arr = st_contents st" using arr(3) by (simp add: st_contents_def)
      let ?r = "st\<lparr>st_array := arr, st_capacity := ?c * 2\<rparr>"
      have "Stack_Push alloc st obj = Some (?r\<lparr>st_array := arr[?k := obj], st_size := ?k + 1\<rparr>)"
        using True ad Some fin [of ?r] t arr(1) bd(4) by (simp add: Stack_Push_def Let_def)
      then show ?thesis using con [of ?r] t arr bd by (simp add: st_inv_def st_contents_def)
    qed
  qed
qed

lemma pop_ok:
  assumes i: "st_inv st"
  shows "run_ok (Stack_Pop st) (\<lambda>x st'. st_inv st' \<and>
    (if st_contents st = [] then x = 0 \<and> st' = st else x = last (st_contents st) \<and> st_contents st' = butlast (st_contents st)))"
proof (cases "st_size st")
  case 0
  then show ?thesis using i by (simp add: Stack_Pop_def st_contents_def)
next
  case (Suc n)
  have n: "n < length (st_array st)" using i Suc by (simp add: st_inv_def)
  then have c: "st_contents st = take n (st_array st) @ [st_array st ! n]"
    using Suc by (simp add: st_contents_def take_Suc_conv_app_nth)
  show ?thesis unfolding c using Suc n i
    by (simp add: Stack_Pop_def Let_def mem_read1 st_inv_def st_contents_def del: mem_read_ok)
qed

lemma stack_peek_ok:
  assumes "st_inv st"
  shows "Stack_Peek st = Some (if st_contents st = [] then 0 else last (st_contents st))"
proof (cases "st_size st")
  case 0
  then show ?thesis by (simp add: Stack_Peek_def st_contents_def)
next
  case (Suc n)
  then have n: "n < length (st_array st)" using assms by (simp add: st_inv_def)
  then have "st_contents st = take n (st_array st) @ [st_array st ! n]"
    using Suc by (simp add: st_contents_def take_Suc_conv_app_nth)
  then show ?thesis using Suc n by (simp add: Stack_Peek_def mem_read1 del: mem_read_ok)
qed

text \<open>
  A stack returns what was pushed in reverse order: after pushing a list of objects that were all
  taken in, the same number of pops gives the reversed list and the old contents are back.
\<close>

locale lifo_stack =
  fixes inv :: "'s \<Rightarrow> bool"
    and contents :: "'s \<Rightarrow> ptr list"
    and push :: "'s \<Rightarrow> ptr \<Rightarrow> 's option"
    and pop :: "'s \<Rightarrow> (ptr \<times> 's) option"
  assumes push_law: "inv s \<Longrightarrow> \<exists>t. push s x = Some t \<and> inv t \<and> (contents t = contents s @ [x] \<or> contents t = contents s)"
    and pop_law: "inv s \<Longrightarrow> contents s = xs @ [x] \<Longrightarrow> \<exists>t. pop s = Some (x, t) \<and> inv t \<and> contents t = xs"
begin

fun push_all :: "ptr list \<Rightarrow> 's \<Rightarrow> 's option" where
  "push_all [] s = Some s"
| "push_all (x # xs) s = push s x \<bind> push_all xs"

fun pop_all :: "nat \<Rightarrow> 's \<Rightarrow> (ptr list \<times> 's) option" where
  "pop_all 0 s = Some ([], s)"
| "pop_all (Suc n) s = do { (x, s) \<leftarrow> pop s; (xs, s) \<leftarrow> pop_all n s; Some (x # xs, s) }"

lemma push_all_law:
  "inv s \<Longrightarrow> \<exists>t. push_all xs s = Some t \<and> inv t \<and> length (contents t) \<le> length (contents s) + length xs \<and>
     (length (contents t) = length (contents s) + length xs \<longrightarrow> contents t = contents s @ xs)"
proof (induction xs arbitrary: s)
  case (Cons x xs)
  obtain t where t: "push s x = Some t" "inv t" "contents t = contents s @ [x] \<or> contents t = contents s"
    using push_law [OF Cons.prems] by blast
  obtain u where u: "push_all xs t = Some u" "inv u" "length (contents u) \<le> length (contents t) + length xs"
    "length (contents u) = length (contents t) + length xs \<longrightarrow> contents u = contents t @ xs"
    using Cons.IH [OF t(2)] by blast
  show ?case using t u by auto
qed simp

lemma pop_all_law:
  "inv s \<Longrightarrow> contents s = xs @ ys \<Longrightarrow> \<exists>t. pop_all (length ys) s = Some (rev ys, t) \<and> inv t \<and> contents t = xs"
proof (induction ys arbitrary: s rule: rev_induct)
  case (snoc y ys)
  then obtain t where "pop s = Some (y, t)" "inv t" "contents t = xs @ ys" using pop_law [of s "xs @ ys" y] by auto
  with snoc.IH [of t] show ?case by auto
qed simp

end

interpretation wstack: lifo_stack "\<lambda>st. slots_bounded alloc \<and> st_inv st" st_contents "Stack_Push alloc" Stack_Pop for alloc
proof unfold_locales
  fix st x assume "slots_bounded alloc \<and> st_inv st"
  then show "\<exists>t. Stack_Push alloc st x = Some t \<and> (slots_bounded alloc \<and> st_inv t) \<and>
      (st_contents t = st_contents st @ [x] \<or> st_contents t = st_contents st)"
    using push_ok [of st alloc x] by blast
next
  fix st x xs assume "slots_bounded alloc \<and> st_inv st" "st_contents st = xs @ [x]"
  then show "\<exists>t. Stack_Pop st = Some (x, t) \<and> (slots_bounded alloc \<and> st_inv t) \<and> st_contents t = xs"
    using pop_ok [of st] by (auto elim!: run_okE)
qed

section \<open>Properties of the array list and the stack\<close>

text \<open>
  C28: The operations of an array list of fewer than 2147483647 elements have the effect of operations
  on its list of objects, without leaving the array.
  \<^item> \<^verbatim>\<open>ArrayList_Add\<close> appends the object, to an empty list too, and returns its index; it returns minus
    one and changes nothing only when the array is full and the allocator has no larger one.
  \<^item> \<^verbatim>\<open>ArrayList_Insert\<close> at an index of the list shifts the later objects up, with the same exception; at
    any other index, the end of the list included, it returns \<open>TRUE\<close> and inserts nothing.
  \<^item> \<^verbatim>\<open>ArrayList_RemoveAt\<close> at an index of the list releases the object and shifts the later ones down; at any
    other index it does nothing.
  \<^item> \<^verbatim>\<open>ArrayList_Remove\<close> releases and removes the first object equal to the given one, if there is one.
\<close>

theorem ArrayList_refines_list:
  assumes "al_inv al" "slots_bounded alloc" "al_size al + 1 < 2 ^ 31"
  shows "run_ok (ArrayList_Add alloc al obj) (\<lambda>r al'. al_inv al' \<and>
      (if al_out_of_memory alloc al then r = - 1 \<and> al' = al
       else r = int (al_size al) \<and> al_contents al' = al_contents al @ [new_object al obj])) \<and>
    run_ok (ArrayList_Insert alloc al index obj) (\<lambda>ok al'. al_inv al' \<and>
      (if al_size al \<le> index then ok \<and> al' = al
       else if al_out_of_memory alloc al then \<not> ok \<and> al' = al
       else ok \<and> al_contents al' = take index (al_contents al) @ [new_object al obj] @ drop index (al_contents al))) \<and>
    run_ok (ArrayList_RemoveAt alloc al index) (\<lambda>(ok, freed) al'. ok \<and> al_inv al' \<and>
      (if al_size al \<le> index then freed = [] \<and> al' = al
       else freed = (if al_fnObjectFree al then [al_contents al ! index] else []) \<and>
         al_contents al' = take index (al_contents al) @ drop (index + 1) (al_contents al))) \<and>
    run_ok (ArrayList_Remove alloc al obj) (\<lambda>(ok, freed) al'. ok \<and> al_inv al' \<and>
      (let differs = \<lambda>x. \<not> al_fnObjectEquals al x obj in
       freed = (if al_fnObjectFree al then take 1 (dropWhile differs (al_contents al)) else []) \<and>
       al_contents al' = takeWhile differs (al_contents al) @ tl (dropWhile differs (al_contents al))))"
proof (intro conjI)
  show "run_ok (ArrayList_Remove alloc al obj) (\<lambda>(ok, freed) al'. ok \<and> al_inv al' \<and>
      (let differs = \<lambda>x. \<not> al_fnObjectEquals al x obj in
       freed = (if al_fnObjectFree al then take 1 (dropWhile differs (al_contents al)) else []) \<and>
       al_contents al' = takeWhile differs (al_contents al) @ tl (dropWhile differs (al_contents al))))"
    using al_remove_ok [OF assms(1)] by (simp add: Let_def)
next
  show "run_ok (ArrayList_Insert alloc al index obj) (\<lambda>ok al'. al_inv al' \<and>
      (if al_size al \<le> index then ok \<and> al' = al
       else if al_out_of_memory alloc al then \<not> ok \<and> al' = al
       else ok \<and> al_contents al' = take index (al_contents al) @ [new_object al obj] @ drop index (al_contents al)))"
    using insert_ok [OF assms, of index obj] assms(1) by (cases "index < al_size al") (simp_all add: ArrayList_Insert_def)
next
  show "run_ok (ArrayList_RemoveAt alloc al index) (\<lambda>(ok, freed) al'. ok \<and> al_inv al' \<and>
      (if al_size al \<le> index then freed = [] \<and> al' = al
       else freed = (if al_fnObjectFree al then [al_contents al ! index] else []) \<and>
         al_contents al' = take index (al_contents al) @ drop (index + 1) (al_contents al)))"
    using removeAt_ok [OF assms(1), of index alloc] assms(1)
    by (cases "index < al_size al") (simp_all add: ArrayList_RemoveAt_def)
qed (rule add_ok [OF assms])

definition example_list :: wArrayList where
  "example_list = \<lparr>al_capacity = 4, al_growthFactor = 2, al_size = 4, al_array = [5, 6, 7, 6], al_fnObjectNew = None,
     al_fnObjectFree = True, al_fnObjectEquals = (=)\<rparr>"

lemma example_list_simps [simp]:
  "al_inv example_list" "al_contents example_list = [5, 6, 7, 6]" "al_size example_list = 4" "new_object example_list x = x"
  "al_fnObjectFree example_list"
  by (simp_all add: example_list_def al_inv_def al_contents_def new_object_def)

lemma example_list_equals: "al_fnObjectEquals example_list = (=)"
  by (simp add: example_list_def)

theorem ArrayList_refines_list_witness:
  "run_ok (ArrayList_RemoveAt limit_slots example_list 1) (\<lambda>(ok, freed) al'. ok \<and> al_inv al' \<and> freed = [6] \<and>
      al_contents al' = [5, 7, 6]) \<and>
   run_ok (ArrayList_Remove limit_slots example_list 6) (\<lambda>(ok, freed) al'. ok \<and> al_inv al' \<and> freed = [6] \<and>
      al_contents al' = [5, 7, 6])"
  using ArrayList_refines_list [of example_list limit_slots 6 1] by (simp add: example_list_equals)

text \<open>
  Inserting an element and removing it again at the same index restores the list, and after the
  insertion the element is found at its index with all others in their order around it.
\<close>

lemma ArrayList_insert_remove:
  assumes "slots_bounded alloc" "al_inv al" "al_size al + 1 < 2 ^ 31" "i < al_size al"
  shows "run_ok (ArrayList_Insert alloc al i x) (\<lambda>ok t. ok \<longrightarrow>
    (\<exists>u. map_option snd (ArrayList_RemoveAt alloc t i) = Some u \<and> al_contents u = al_contents al) \<and>
    ArrayList_GetItem t i = Some (new_object al x) \<and>
    (\<forall>j < al_size al. ArrayList_GetItem t (if j < i then j else j + 1) = Some (al_contents al ! j)))"
  using assms by (intro run_ok_mono [OF run_ok_conjI [OF array_list.ins_then_del [of alloc al i x]
      array_list.ins_then_get [of alloc al i x]]]) auto

text \<open>
  Searching the whole list: \<^verbatim>\<open>ArrayList_IndexOf\<close> returns the first matching index or minus one,
  and \<^verbatim>\<open>ArrayList_Contains\<close> tells whether there is one.
\<close>

lemma ArrayList_IndexOf_first:
  assumes "al_inv al" "startIndex \<le> 0" "count < 0"
  shows "ArrayList_IndexOf al obj startIndex count =
      Some (case find (\<lambda>j. al_fnObjectEquals al (al_contents al ! j) obj) [0..<al_size al] of None \<Rightarrow> - 1 | Some j \<Rightarrow> int j) \<and>
    ArrayList_Contains al obj = Some (\<exists>x \<in> set (al_contents al). al_fnObjectEquals al x obj)"
proof -
  have l: "0 + al_size al \<le> length (al_array al)" using assms(1) by (simp add: al_inv_def)
  have f: "find (\<lambda>j. al_fnObjectEquals al (al_array al ! j) obj) [0..<al_size al] =
      find (\<lambda>j. al_fnObjectEquals al (al_contents al ! j) obj) [0..<al_size al]"
    using find_index_contents [OF assms(1), of "\<lambda>x. al_fnObjectEquals al x obj"] .
  have "find (\<lambda>j. al_fnObjectEquals al (al_contents al ! j) obj) [0..<al_size al] \<noteq> None \<longleftrightarrow>
      (\<exists>x \<in> set (al_contents al). al_fnObjectEquals al x obj)"
    using assms(1) by (simp add: find_None_iff) (metis in_set_conv_nth length_al_contents)
  moreover have "(if startIndex < 0 then 0 else startIndex) = 0" using assms(2) by simp
  ultimately show ?thesis using array_search_ok [OF l] f assms(3)
    by (simp add: ArrayList_IndexOf_def ArrayList_Contains_def)
qed

text \<open>
  \<^verbatim>\<open>ArrayList_LastIndexOf\<close> is off by one: on the whole list it returns one more than the index of
  the last match, which for a match at the end is the number of elements.
\<close>

lemma ArrayList_LastIndexOf_off_by_one:
  assumes "al_inv al" "al_contents al = xs @ [x]" "al_fnObjectEquals al x obj"
  shows "ArrayList_LastIndexOf al obj 0 (- 1) = Some (int (length xs) + 1) \<and>
    length (al_contents al) = length xs + 1 \<and> al_contents al ! length xs = x"
proof -
  have k: "al_size al = Suc (length xs)" using length_al_contents [OF assms(1)] assms(2) by simp
  then have "al_array al ! length xs = x" "length xs < length (al_array al)"
    using assms(1,2) nth_take [of "length xs" "al_size al" "al_array al"] by (auto simp: al_contents_def al_inv_def)
  moreover have "nat (1 + int (length xs)) = Suc (length xs)" by simp
  ultimately show ?thesis using k assms(2,3) by (simp add: ArrayList_LastIndexOf_def)
qed

text \<open>
  A start index with the default count searches beyond the list: the search covers as many slots
  as the list has elements, counted from the start index, so on a list that fills its array an
  unsuccessful search from a positive index reads past the end of the array.
\<close>

lemma ArrayList_IndexOf_overruns:
  assumes "al_inv al" "al_size al = al_capacity al" "0 < i" "i \<le> al_size al"
    "\<forall>x \<in> set (al_contents al). \<not> al_fnObjectEquals al x obj"
  shows "ArrayList_IndexOf al obj (int i) (- 1) = None"
proof -
  have l: "length (al_array al) = al_size al" "al_contents al = al_array al"
    using assms(1,2) by (auto simp: al_inv_def al_contents_def)
  have "array_search (al_fnObjectEquals al) (al_array al) obj j n = None" if "al_size al < j + n" "j \<le> al_size al" for j n
    using that
  proof (induction n arbitrary: j)
    case (Suc n)
    then show ?case using assms(5) l by (auto simp: less_Suc_eq_le)
  qed simp
  then show ?thesis using assms(3,4) by (simp add: ArrayList_IndexOf_def)
qed

text \<open>
  The stack is last-in first-out: starting from \<^verbatim>\<open>Stack_New\<close>, pushing a list of objects never
  fails, and when the count shows that all were taken in, as many pops return them in reverse order
  and leave the stack empty.
\<close>

lemma Stack_lifo:
  assumes "slots_bounded alloc" "Stack_New alloc = Some st"
  shows "\<exists>st1. wstack.push_all alloc xs st = Some st1 \<and> Stack_Count st1 \<le> length xs \<and>
    (Stack_Count st1 = length xs \<longrightarrow> (\<exists>st2. wstack.pop_all (length xs) st1 = Some (rev xs, st2) \<and> Stack_Count st2 = 0))"
proof -
  have st: "st_inv st" "st_contents st = []"
    using assms(2) by (auto simp: Stack_New_def st_inv_def st_contents_def split: option.splits)
  have cnt: "Stack_Count r = length (st_contents r)" if "st_inv r" for r
    using that by (simp add: Stack_Count_def st_contents_def st_inv_def)
  obtain st1 where st1: "wstack.push_all alloc xs st = Some st1" "st_inv st1" "length (st_contents st1) \<le> length xs"
    "length (st_contents st1) = length xs \<longrightarrow> st_contents st1 = xs"
    using wstack.push_all_law [of alloc st xs] st assms(1) by auto
  have "\<exists>st2. wstack.pop_all (length xs) st1 = Some (rev xs, st2) \<and> Stack_Count st2 = 0" if "st_contents st1 = xs"
    using wstack.pop_all_law [of alloc st1 "[]" xs] st1(2) assms(1) that cnt by auto
  then show ?thesis using st1 cnt by auto
qed

end
