(* ===== verification/Keyed_Store.thy ===== *)
theory Keyed_Store
  imports Prelude
begin

text \<open>
  What the clients of the keyed containers of WinPR rely on. \<open>keyed_store\<close> is the contract shared by the
  list dictionary and the hash table: adding a key that is not there makes it found, removing a key
  makes it not found, and no other key is affected. \<open>map_store\<close> adds that a key that is there is
  overwritten. Keys are compared by a function of the container, an equivalence; a container may store
  a copy of the value; adding may fail for lack of memory, and nothing has changed then.
\<close>

text \<open>The calls of the free functions of a container.\<close>

datatype free_event = KeyFree ptr | ValueFree ptr

datatype ('k, 'v) store_op = Insert 'k 'v | Delete 'k

text \<open>A run of operations, with the results of the insertions.\<close>

fun store_run ::
  "('s \<Rightarrow> 'k \<Rightarrow> 'v \<Rightarrow> (bool \<times> 's) option) \<Rightarrow> ('s \<Rightarrow> 'k \<Rightarrow> ('r \<times> 's) option) \<Rightarrow> 's \<Rightarrow> ('k, 'v) store_op list \<Rightarrow>
   (bool list \<times> 's) option" where
  "store_run ins del t [] = Some ([], t)"
| "store_run ins del t (Insert k v # ops) = do {
     (ok, t) \<leftarrow> ins t k v;
     (rs, t) \<leftarrow> store_run ins del t ops;
     Some (ok # rs, t) }"
| "store_run ins del t (Delete k # ops) = do {
     (_, t) \<leftarrow> del t k;
     (rs, t) \<leftarrow> store_run ins del t ops;
     Some (True # rs, t) }"

text \<open>The same operations on a map: what a key is associated with after the operations that succeeded.\<close>

fun map_op :: "('k \<Rightarrow> 'k \<Rightarrow> bool) \<Rightarrow> ('v \<Rightarrow> 'v) \<Rightarrow> ('k, 'v) store_op \<times> bool \<Rightarrow> ('k \<Rightarrow> 'v option) \<Rightarrow> 'k \<Rightarrow> 'v option" where
  "map_op same copy (Insert k v, ok) m = (if ok then (\<lambda>k'. if same k k' then Some (copy v) else m k') else m)"
| "map_op same copy (Delete k, ok) m = (\<lambda>k'. if same k k' then None else m k')"

definition map_run :: "('k \<Rightarrow> 'k \<Rightarrow> bool) \<Rightarrow> ('v \<Rightarrow> 'v) \<Rightarrow> (('k, 'v) store_op \<times> bool) list \<Rightarrow> ('k \<Rightarrow> 'v option) \<Rightarrow> 'k \<Rightarrow> 'v option" where
  "map_run same copy ops m = fold (map_op same copy) ops m"

locale keyed_store =
  fixes inv :: "'s \<Rightarrow> bool"
    and same :: "'s \<Rightarrow> 'k \<Rightarrow> 'k \<Rightarrow> bool"
    and copy :: "'s \<Rightarrow> 'v \<Rightarrow> 'v"
    and count :: "'s \<Rightarrow> nat"
    and find :: "'s \<Rightarrow> 'k \<Rightarrow> 'v option"
    and insert :: "'s \<Rightarrow> 'k \<Rightarrow> 'v \<Rightarrow> (bool \<times> 's) option"
    and delete :: "'s \<Rightarrow> 'k \<Rightarrow> ('r \<times> 's) option"
  assumes insert_fresh: "inv t \<Longrightarrow> count t + 1 < 2 ^ 31 \<Longrightarrow> find t k = None \<Longrightarrow>
      run_ok (insert t k v) (\<lambda>ok t'. inv t' \<and> same t' = same t \<and> copy t' = copy t \<and> count t' \<le> count t + 1 \<and>
        find t' = map_op (same t) (copy t) (Insert k v, ok) (find t))"
    and delete_any: "inv t \<Longrightarrow> count t < 2 ^ 31 \<Longrightarrow>
      run_ok (delete t k) (\<lambda>_ t'. inv t' \<and> same t' = same t \<and> copy t' = copy t \<and> count t' \<le> count t \<and>
        find t' = map_op (same t) (copy t) (Delete k, True) (find t))"
    and find_same: "inv t \<Longrightarrow> same t k k' \<Longrightarrow> find t k = find t k'"
begin

text \<open>Adding a new key and removing it again leaves what is found unchanged.\<close>

lemma insert_delete:
  assumes "inv t" "count t + 1 < 2 ^ 31" "find t k = None"
  shows "run_ok (insert t k v) (\<lambda>_ t'. run_ok (delete t' k) (\<lambda>_ t''. inv t'' \<and> find t'' = find t))"
proof (rule run_ok_mono [OF insert_fresh [OF assms]], elim conjE)
  fix ok t' assume t': "inv t'" "same t' = same t" "copy t' = copy t" "count t' \<le> count t + 1"
    "find t' = map_op (same t) (copy t) (Insert k v, ok) (find t)"
  have "map_op (same t') (copy t') (Delete k, True) (find t') = find t"
    using t'(2,5) assms(3) find_same [OF assms(1)] by (auto simp: fun_eq_iff)
  then show "run_ok (delete t' k) (\<lambda>_ t''. inv t'' \<and> find t'' = find t)"
    using assms(2) t'(4) by (intro run_ok_mono [OF delete_any [OF t'(1)]]) simp_all
qed

end

locale map_store = keyed_store +
  assumes insert_any: "inv t \<Longrightarrow> count t + 1 < 2 ^ 31 \<Longrightarrow>
      run_ok (insert t k v) (\<lambda>ok t'. inv t' \<and> same t' = same t \<and> copy t' = copy t \<and> count t' \<le> count t + 1 \<and>
        find t' = map_op (same t) (copy t) (Insert k v, ok) (find t))"
begin

text \<open>Every sequence of operations has the effect of the same sequence on a map.\<close>

lemma run_refines_map:
  assumes "inv t" "count t + length ops < 2 ^ 31"
  shows "\<exists>rs t'. store_run insert delete t ops = Some (rs, t') \<and> length rs = length ops \<and> inv t' \<and>
    find t' = map_run (same t) (copy t) (zip ops rs) (find t)"
  using assms
proof (induction ops arbitrary: t)
  case Nil
  then show ?case by (simp add: map_run_def)
next
  case (Cons op ops)
  have step: "\<exists>ok t1 rs t'. r = Some (ok, t1) \<and> store_run insert delete t1 ops = Some (rs, t') \<and> length rs = length ops \<and> inv t' \<and>
      find t' = map_run (same t) (copy t) (zip ops rs) (map_op (same t) (copy t) (op, b ok) (find t))"
    if r: "run_ok r (\<lambda>ok t'. inv t' \<and> same t' = same t \<and> copy t' = copy t \<and> count t' \<le> count t + 1 \<and>
        find t' = map_op (same t) (copy t) (op, b ok) (find t))" for r :: "('x \<times> 'a) option" and b
  proof -
    obtain ok t1 where t1: "r = Some (ok, t1)" "inv t1" "same t1 = same t" "copy t1 = copy t" "count t1 \<le> count t + 1"
      "find t1 = map_op (same t) (copy t) (op, b ok) (find t)"
      using r by (auto elim: run_okE)
    have "count t1 + length ops < 2 ^ 31" using t1(5) Cons.prems(2) by simp
    from Cons.IH [OF t1(2) this] t1 show ?thesis by auto
  qed
  show ?case
  proof (cases op)
    case (Insert k v)
    have "count t + 1 < 2 ^ 31" using Cons.prems(2) by simp
    from step [OF insert_any [OF Cons.prems(1) this, of k v, folded Insert]]
    show ?thesis by (auto simp: Insert map_run_def)
  next
    case (Delete k)
    have "count t < 2 ^ 31" using Cons.prems(2) by simp
    then have "run_ok (delete t k) (\<lambda>_ t'. inv t' \<and> same t' = same t \<and> copy t' = copy t \<and> count t' \<le> count t + 1 \<and>
        find t' = map_op (same t) (copy t) (op, True) (find t))"
      by (intro run_ok_mono [OF delete_any [OF Cons.prems(1)]]) (simp_all add: Delete)
    from step [OF this] show ?thesis by (auto simp: Delete map_run_def)
  qed
qed

end

end
