(* ===== verification/Hash_Table.thy ===== *)
theory Hash_Table
  imports Complex_Main Keyed_Store "HOL-Library.Multiset"
begin

text \<open>
  The hash table of WinPR (\<^verbatim>\<open>winpr/libwinpr/utils/collections/HashTable.c\<close>): an array of chains of
  key/value pairs that is rehashed when the chains grow long, with iteration during which entries may be
  removed.

  A chain is the list of its pairs in the order of the \<^verbatim>\<open>next\<close> pointers. Keys and values are addresses;
  the hash, comparison and clone functions are fields of the table, a clone function that returns zero
  has failed. The calls of the free functions are logged in \<open>ht_freed\<close>. Locking is not modelled. The
  ratios are rational numbers: the quotient of elements and buckets, a \<^verbatim>\<open>float\<close> in C, is taken exactly;
  it only decides when the table is rehashed.

  The contents of a table are the multiset of its pairs, which does not depend on how they are spread over
  the buckets; \<open>ht_lookup\<close> is the map they represent, \<open>ht_inv\<close> the invariant outside an iteration.
\<close>

section \<open>State\<close>

record wKeyValuePair =
  kv_key :: ptr
  kv_value :: ptr
  markedForRemove :: bool

record wHashTable =
  numOfBuckets :: int
  numOfElements :: int
  idealRatio :: rat
  lowerRehashThreshold :: rat
  upperRehashThreshold :: rat
  bucketArray :: "wKeyValuePair list list"
  ht_hash :: "ptr \<Rightarrow> u32"
  keyCompare :: "ptr \<Rightarrow> ptr \<Rightarrow> bool"
  valueCompare :: "ptr \<Rightarrow> ptr \<Rightarrow> bool"
  keyClone :: "(ptr \<Rightarrow> ptr) option"
  valueClone :: "(ptr \<Rightarrow> ptr) option"
  keyFree :: bool
  valueFree :: bool
  foreachRecursionLevel :: u32
  pendingRemoves :: u32
  ht_freed :: "free_event list"

section \<open>Hashing and comparison\<close>

definition HashTable_PointerCompare :: "ptr \<Rightarrow> ptr \<Rightarrow> bool" where
  "HashTable_PointerCompare pointer1 pointer2 = (pointer1 = pointer2)"

definition HashTable_PointerHash :: "ptr \<Rightarrow> u32" where
  "HashTable_PointerHash pointer = drop_bit 4 (word_of_nat pointer)"

text \<open>\<open>mem p\<close> is the string at the address \<open>p\<close>, without its terminator.\<close>

definition HashTable_StringCompare :: "(ptr \<Rightarrow> byte list) \<Rightarrow> ptr \<Rightarrow> ptr \<Rightarrow> bool" where
  "HashTable_StringCompare mem string1 string2 =
     (if string1 = 0 \<or> string2 = 0 then string1 = string2 else mem string1 = mem string2)"

fun string_hash :: "u32 \<Rightarrow> byte list \<Rightarrow> u32" where
  "string_hash hash [] = hash"
| "string_hash hash (c # str) = string_hash (hash * 33 + ucast c) str"

definition HashTable_StringHash :: "(ptr \<Rightarrow> byte list) \<Rightarrow> ptr \<Rightarrow> u32" where
  "HashTable_StringHash mem key = string_hash 5381 (mem key)"

section \<open>Number of buckets\<close>

fun prime_loop :: "int \<Rightarrow> int list \<Rightarrow> bool" where
  "prime_loop oddNumber [] = True"
| "prime_loop oddNumber (i # is) =
     (if oddNumber = i then True else if oddNumber smod i = 0 then False else prime_loop oddNumber is)"

definition small_odds :: "int list" where
  "small_odds = [3, 5, 7, 9, 11, 13, 15, 17, 19, 21, 23, 25, 27, 29, 31, 33, 35, 37, 39, 41, 43, 45, 47, 49]"

definition HashTable_IsProbablePrime :: "int \<Rightarrow> bool" where
  "HashTable_IsProbablePrime oddNumber = prime_loop oddNumber small_odds"

partial_function (option) next_probable_prime :: "int \<Rightarrow> int option" where
  "next_probable_prime n = (if \<not> HashTable_IsProbablePrime n then next_probable_prime (n + 2) else Some n)"

declare next_probable_prime.simps [code]

definition c_truncate :: "rat \<Rightarrow> int" where
  "c_truncate x = (if x < 0 then \<lceil>x\<rceil> else \<lfloor>x\<rfloor>)"

definition HashTable_CalculateIdealNumOfBuckets :: "wHashTable \<Rightarrow> int option" where
  "HashTable_CalculateIdealNumOfBuckets table =
     (if c_truncate (idealRatio table) = 0 then None
      else let n = numOfElements table sdiv c_truncate (idealRatio table);
               n = (if n < 5 then 5 else n OR 1)
           in next_probable_prime n)"

section \<open>Chains\<close>

definition bucket_of :: "(ptr \<Rightarrow> u32) \<Rightarrow> int \<Rightarrow> ptr \<Rightarrow> nat" where
  "bucket_of hash n key = unat (hash key mod word_of_int n)"

definition rehash_pair :: "(ptr \<Rightarrow> u32) \<Rightarrow> int \<Rightarrow> wKeyValuePair \<Rightarrow> wKeyValuePair list list \<Rightarrow> wKeyValuePair list list" where
  "rehash_pair hash n pair arr = (let h = bucket_of hash n (kv_key pair) in arr[h := pair # arr ! h])"

text \<open>The pairs are moved one after the other to the front of their new chains.\<close>

definition rehash_all :: "(ptr \<Rightarrow> u32) \<Rightarrow> int \<Rightarrow> wKeyValuePair list list \<Rightarrow> wKeyValuePair list list" where
  "rehash_all hash n arr = fold (rehash_pair hash n) (concat arr) (replicate (nat n) [])"

definition HashTable_Rehash :: "allocator \<Rightarrow> wHashTable \<Rightarrow> int \<Rightarrow> wHashTable option" where
  "HashTable_Rehash malloc table n = do {
     n \<leftarrow> (if n = 0 then HashTable_CalculateIdealNumOfBuckets table else Some n);
     (if n = numOfBuckets table then Some table
      else (case malloc (mul64 (nat n) 8) of None \<Rightarrow> Some table
       | Some newBucketArray \<Rightarrow>
           Some (table\<lparr>bucketArray := rehash_all (ht_hash table) n (bucketArray table), numOfBuckets := n\<rparr>))) }"

fun chain_find :: "(ptr \<Rightarrow> ptr \<Rightarrow> bool) \<Rightarrow> ptr \<Rightarrow> wKeyValuePair list \<Rightarrow> nat option" where
  "chain_find cmp key [] = None"
| "chain_find cmp key (pair # chain) =
     (if cmp key (kv_key pair) then Some 0 else map_option Suc (chain_find cmp key chain))"

text \<open>The chain of a key and the position of its pair there; \<open>None\<close> for a division by zero or an index outside the array.\<close>

definition HashTable_Get :: "wHashTable \<Rightarrow> ptr \<Rightarrow> (nat \<times> nat option) option" where
  "HashTable_Get table key =
     (let h = bucket_of (ht_hash table) (numOfBuckets table) key in
      if numOfBuckets table = 0 \<or> \<not> h < length (bucketArray table) then None
      else Some (h, chain_find (keyCompare table) key (bucketArray table ! h)))"

definition HashTable_Count :: "wHashTable \<Rightarrow> int" where
  "HashTable_Count table = numOfElements table"

definition log_event :: "bool \<Rightarrow> free_event \<Rightarrow> wHashTable \<Rightarrow> wHashTable" where
  "log_event b e table = (if b then table\<lparr>ht_freed := ht_freed table @ [e]\<rparr> else table)"

definition set_chain :: "nat \<Rightarrow> wKeyValuePair list \<Rightarrow> wHashTable \<Rightarrow> wHashTable" where
  "set_chain h chain table = table\<lparr>bucketArray := (bucketArray table)[h := chain]\<rparr>"

definition clone_with :: "(ptr \<Rightarrow> ptr) option \<Rightarrow> ptr \<Rightarrow> ptr" where
  "clone_with c p = (case c of None \<Rightarrow> p | Some f \<Rightarrow> f p)"

section \<open>Operations\<close>

text \<open>The branches of \<^verbatim>\<open>HashTable_Add\<close> for a key that has a pair and for a new key.\<close>

definition replace_pair :: "wHashTable \<Rightarrow> nat \<Rightarrow> nat \<Rightarrow> ptr \<Rightarrow> ptr \<Rightarrow> wHashTable" where
  "replace_pair table h i key value =
     (let pair = bucketArray table ! h ! i;
          table = (if markedForRemove pair
                   then table\<lparr>pendingRemoves := pendingRemoves table - 1, numOfElements := numOfElements table + 1\<rparr> else table);
          table = (if kv_key pair \<noteq> key then log_event (keyFree table) (KeyFree (kv_key pair)) table else table);
          table = (if kv_value pair \<noteq> value then log_event (valueFree table) (ValueFree (kv_value pair)) table else table)
      in set_chain h ((bucketArray table ! h)[i := \<lparr>kv_key = key, kv_value = value, markedForRemove = False\<rparr>]) table)"

definition insert_pair :: "allocator \<Rightarrow> wHashTable \<Rightarrow> nat \<Rightarrow> ptr \<Rightarrow> ptr \<Rightarrow> wHashTable option" where
  "insert_pair malloc table h key value =
     (let table = set_chain h (\<lparr>kv_key = key, kv_value = value, markedForRemove = False\<rparr> # bucketArray table ! h) table;
          table = table\<lparr>numOfElements := numOfElements table + 1\<rparr>
      in if foreachRecursionLevel table = 0 \<and> upperRehashThreshold table > idealRatio table \<and>
            of_int (numOfElements table) / of_int (numOfBuckets table) > upperRehashThreshold table
         then HashTable_Rehash malloc table 0 else Some table)"

definition HashTable_Add :: "allocator \<Rightarrow> wHashTable \<Rightarrow> ptr \<Rightarrow> ptr \<Rightarrow> (int \<times> wHashTable) option" where
  "HashTable_Add malloc table key value =
     (if key = 0 \<or> value = 0 then Some (- 1, table)
      else let key = clone_with (keyClone table) key in
      if key = 0 then Some (- 1, table)
      else let value = clone_with (valueClone table) value in
      if value = 0 then Some (- 1, table)
      else do {
        (h, pair) \<leftarrow> HashTable_Get table key;
        (case pair of Some i \<Rightarrow> Some (0, replace_pair table h i key value)
         | None \<Rightarrow>
             (case malloc 32 of None \<Rightarrow> Some (- 1, table)
              | Some newPair \<Rightarrow> do { table \<leftarrow> insert_pair malloc table h key value; Some (0, table) })) })"

definition disposePair :: "wHashTable \<Rightarrow> wKeyValuePair \<Rightarrow> wHashTable" where
  "disposePair table pair =
     log_event (valueFree table) (ValueFree (kv_value pair)) (log_event (keyFree table) (KeyFree (kv_key pair)) table)"

definition remove_nth :: "nat \<Rightarrow> 'a list \<Rightarrow> 'a list" where
  "remove_nth i xs = take i xs @ drop (Suc i) xs"

definition HashTable_Remove :: "allocator \<Rightarrow> wHashTable \<Rightarrow> ptr \<Rightarrow> (bool \<times> wHashTable) option" where
  "HashTable_Remove malloc table key = do {
     (h, pos) \<leftarrow> HashTable_Get table key;
     (case pos of None \<Rightarrow> Some (False, table)
      | Some i \<Rightarrow>
          let chain = bucketArray table ! h; pair = chain ! i in
          if foreachRecursionLevel table \<noteq> 0 then
            Some (True, (set_chain h (chain[i := pair\<lparr>markedForRemove := True\<rparr>]) table)
              \<lparr>pendingRemoves := pendingRemoves table + 1, numOfElements := numOfElements table - 1\<rparr>)
          else do {
            let table = set_chain h (remove_nth i chain) (disposePair table pair);
            let table = table\<lparr>numOfElements := numOfElements table - 1\<rparr>;
            table \<leftarrow> (if lowerRehashThreshold table > 0 \<and>
                         of_int (numOfElements table) / of_int (numOfBuckets table) < lowerRehashThreshold table
                      then HashTable_Rehash malloc table 0 else Some table);
            Some (True, table) }) }"

definition HashTable_GetItemValue :: "wHashTable \<Rightarrow> ptr \<Rightarrow> ptr option" where
  "HashTable_GetItemValue table key = do {
     (h, pos) \<leftarrow> HashTable_Get table key;
     Some (case pos of None \<Rightarrow> 0
           | Some i \<Rightarrow> let pair = bucketArray table ! h ! i in if markedForRemove pair then 0 else kv_value pair) }"

definition HashTable_SetItemValue :: "wHashTable \<Rightarrow> ptr \<Rightarrow> ptr \<Rightarrow> (bool \<times> wHashTable) option" where
  "HashTable_SetItemValue table key value =
     (let value' = (if value \<noteq> 0 then clone_with (valueClone table) value else value) in
      if valueClone table \<noteq> None \<and> value \<noteq> 0 \<and> value' = 0 then Some (False, table)
      else do {
        (h, pos) \<leftarrow> HashTable_Get table key;
        (case pos of None \<Rightarrow> Some (False, table)
         | Some i \<Rightarrow>
             let chain = bucketArray table ! h; pair = chain ! i in
             if markedForRemove pair then Some (False, table)
             else Some (True, set_chain h (chain[i := pair\<lparr>kv_value := value'\<rparr>])
               (log_event (valueClone table \<noteq> None \<and> valueFree table) (ValueFree (kv_value pair)) table))) })"

text \<open>
  The loop of \<^verbatim>\<open>HashTable_Clear\<close> over one chain. During an iteration a pair is only marked, and the loop
  does not go on to the next one.
\<close>

partial_function (option) clear_chain :: "wHashTable \<Rightarrow> wKeyValuePair list \<Rightarrow> wHashTable option" where
  "clear_chain table chain =
     (case chain of [] \<Rightarrow> Some table
      | pair # rest \<Rightarrow>
          if foreachRecursionLevel table \<noteq> 0
          then clear_chain (table\<lparr>pendingRemoves := pendingRemoves table + 1\<rparr>) (pair\<lparr>markedForRemove := True\<rparr> # rest)
          else clear_chain (disposePair table pair) rest)"

declare clear_chain.simps [code]

fun clear_buckets :: "wHashTable \<Rightarrow> wKeyValuePair list list \<Rightarrow> wHashTable option" where
  "clear_buckets table [] = Some table"
| "clear_buckets table (chain # cs) = do { table \<leftarrow> clear_chain table chain; clear_buckets table cs }"

definition HashTable_Clear :: "allocator \<Rightarrow> wHashTable \<Rightarrow> wHashTable option" where
  "HashTable_Clear malloc table = do {
     table \<leftarrow> clear_buckets table (bucketArray table);
     let table = table\<lparr>bucketArray := map (\<lambda>_. []) (bucketArray table), numOfElements := 0\<rparr>;
     (if foreachRecursionLevel table = 0 then HashTable_Rehash malloc table 5 else Some table) }"

text \<open>The array of keys has \<open>numOfElements\<close> slots; storing beyond them is a fault.\<close>

definition live_keys :: "wHashTable \<Rightarrow> ptr list" where
  "live_keys table = map kv_key (filter (\<lambda>p. \<not> markedForRemove p) (concat (bucketArray table)))"

definition HashTable_GetKeys :: "allocator \<Rightarrow> wHashTable \<Rightarrow> (int \<times> ptr list) option" where
  "HashTable_GetKeys malloc table =
     (let count = numOfElements table in
      if count < 1 then Some (0, [])
      else (case malloc (mul64 (nat count) 8) of None \<Rightarrow> Some (- 1, [])
       | Some blk \<Rightarrow> do {
           keys \<leftarrow> mem_write (replicate (nat count) 0) 0 (live_keys table);
           Some (count, keys) }))"

text \<open>
  Iteration: the callback gets the table, which it may change through the other functions. These put
  new pairs in front of a chain and leave the order of the others, so the position in a chain is kept as
  the number of pairs still to visit.
\<close>

type_synonym foreach_fn = "ptr \<Rightarrow> ptr \<Rightarrow> wHashTable \<Rightarrow> (bool \<times> wHashTable) option"

fun foreach_chain :: "foreach_fn \<Rightarrow> nat \<Rightarrow> nat \<Rightarrow> wHashTable \<Rightarrow> (bool \<times> wHashTable) option" where
  "foreach_chain fn index 0 table = Some (True, table)"
| "foreach_chain fn index (Suc n) table =
     (if \<not> index < length (bucketArray table) \<or> \<not> n < length (bucketArray table ! index) then None
      else let chain = bucketArray table ! index; pair = chain ! (length chain - Suc n) in
      if markedForRemove pair then foreach_chain fn index n table
      else do {
        (ok, table) \<leftarrow> fn (kv_key pair) (kv_value pair) table;
        (if \<not> ok then Some (False, table) else foreach_chain fn index n table) })"

fun foreach_buckets :: "foreach_fn \<Rightarrow> nat \<Rightarrow> nat \<Rightarrow> wHashTable \<Rightarrow> (bool \<times> wHashTable) option" where
  "foreach_buckets fn index 0 table = Some (True, table)"
| "foreach_buckets fn index (Suc n) table =
     (if \<not> index < length (bucketArray table) then None
      else do {
        (ok, table) \<leftarrow> foreach_chain fn index (length (bucketArray table ! index)) table;
        (if \<not> ok then Some (False, table) else foreach_buckets fn (Suc index) n table) })"

definition cleanup_chain :: "wKeyValuePair list \<Rightarrow> wHashTable \<Rightarrow> wHashTable" where
  "cleanup_chain chain table = fold (\<lambda>pair table. if markedForRemove pair then disposePair table pair else table) chain table"

definition foreach_cleanup :: "wHashTable \<Rightarrow> wHashTable" where
  "foreach_cleanup table =
     (let cs = bucketArray table; table = fold cleanup_chain cs table
      in table\<lparr>bucketArray := map (filter (\<lambda>p. \<not> markedForRemove p)) cs, pendingRemoves := 0\<rparr>)"

definition HashTable_Foreach :: "wHashTable \<Rightarrow> foreach_fn \<Rightarrow> (bool \<times> wHashTable) option" where
  "HashTable_Foreach table fn = do {
     let table = table\<lparr>foreachRecursionLevel := foreachRecursionLevel table + 1\<rparr>;
     (ret, table) \<leftarrow> foreach_buckets fn 0 (nat (numOfBuckets table)) table;
     (if \<not> ret then Some (False, table)
      else let table = table\<lparr>foreachRecursionLevel := foreachRecursionLevel table - 1\<rparr>
           in Some (True, if foreachRecursionLevel table = 0 \<and> pendingRemoves table \<noteq> 0 then foreach_cleanup table else table)) }"

definition HashTable_Contains :: "wHashTable \<Rightarrow> ptr \<Rightarrow> bool option" where
  "HashTable_Contains table key = do {
     (h, pos) \<leftarrow> HashTable_Get table key;
     Some (case pos of None \<Rightarrow> False | Some i \<Rightarrow> \<not> markedForRemove (bucketArray table ! h ! i)) }"

definition HashTable_ContainsKey :: "wHashTable \<Rightarrow> ptr \<Rightarrow> bool option" where
  "HashTable_ContainsKey table key = do {
     (h, pos) \<leftarrow> HashTable_Get table key;
     Some (case pos of None \<Rightarrow> False | Some i \<Rightarrow> \<not> markedForRemove (bucketArray table ! h ! i)) }"

definition HashTable_ContainsValue :: "wHashTable \<Rightarrow> ptr \<Rightarrow> bool" where
  "HashTable_ContainsValue table value =
     (\<exists>chain \<in> set (bucketArray table). \<exists>pair \<in> set chain. \<not> markedForRemove pair \<and> valueCompare table value (kv_value pair))"

text \<open>\<open>None\<close> is a null result.\<close>

definition HashTable_New :: "allocator \<Rightarrow> wHashTable option" where
  "HashTable_New malloc =
     (case malloc 144 of None \<Rightarrow> None
      | Some table \<Rightarrow>
          (case malloc (mul64 64 8) of None \<Rightarrow> None
           | Some arr \<Rightarrow> Some
               \<lparr>numOfBuckets = 64, numOfElements = 0, idealRatio = 3, lowerRehashThreshold = 0, upperRehashThreshold = 15,
                bucketArray = replicate 64 [], ht_hash = HashTable_PointerHash, keyCompare = HashTable_PointerCompare,
                valueCompare = HashTable_PointerCompare, keyClone = None, valueClone = None, keyFree = False, valueFree = False,
                foreachRecursionLevel = 0, pendingRemoves = 0, ht_freed = []\<rparr>))"

definition HashTable_Free :: "wHashTable \<Rightarrow> free_event list" where
  "HashTable_Free table = ht_freed (fold (\<lambda>pair table. disposePair table pair) (concat (bucketArray table)) table)"

section \<open>Number of buckets\<close>

text \<open>The largest number of an \<^verbatim>\<open>int\<close> has no small factor, so the search for a number of buckets ends there at the latest.\<close>

lemma probable_prime_max: "HashTable_IsProbablePrime (2 ^ 31 - 1)"
  by (simp add: HashTable_IsProbablePrime_def small_odds_def signed_modulo_int_def)

lemma next_probable_prime_ends:
  assumes "HashTable_IsProbablePrime (n + 2 * int k)"
  shows "\<exists>m. next_probable_prime n = Some m \<and> n \<le> m \<and> m \<le> n + 2 * int k"
  using assms
proof (induction k arbitrary: n)
  case 0
  then show ?case by (subst next_probable_prime.simps) simp
next
  case (Suc k)
  show ?case
  proof (cases "HashTable_IsProbablePrime n")
    case True
    then show ?thesis by (subst next_probable_prime.simps) simp
  next
    case False
    have "HashTable_IsProbablePrime (n + 2 + 2 * int k)" using Suc.prems by (simp add: algebra_simps)
    from Suc.IH [OF this] False show ?thesis by (subst next_probable_prime.simps) auto
  qed
qed

lemma odd_next_probable_prime:
  assumes "odd n" "0 < n" "n < 2 ^ 31"
  shows "\<exists>m. next_probable_prime n = Some m \<and> 0 < m \<and> m < 2 ^ 31"
proof -
  have "even ((2 ^ 31 - 1 :: int) - n)" using assms(1) by simp
  then obtain k where k: "(2 ^ 31 - 1 :: int) - n = 2 * k" by (elim evenE)
  then have "n + 2 * int (nat k) = 2 ^ 31 - 1" using assms(3) by simp
  then show ?thesis using next_probable_prime_ends [of n "nat k"] probable_prime_max assms(2) by fastforce
qed

lemma ideal_buckets:
  assumes "1 \<le> idealRatio t" "numOfElements t < 2 ^ 31" "0 \<le> numOfElements t"
  shows "\<exists>m. HashTable_CalculateIdealNumOfBuckets t = Some m \<and> 0 < m \<and> m < 2 ^ 31"
proof -
  let ?r = "c_truncate (idealRatio t)" and ?n = "numOfElements t sdiv c_truncate (idealRatio t)"
  have r: "1 \<le> ?r" using assms(1) by (simp add: c_truncate_def)
  then have "?n = numOfElements t div ?r" using assms(3) by (simp add: signed_divide_int_def sgn_if)
  then have n: "0 \<le> ?n" "?n < 2 ^ 31"
    using r assms(2,3) zdiv_mono2 [of "numOfElements t" 1 ?r] by (simp_all add: pos_imp_zdiv_nonneg_iff)
  let ?m = "if ?n < 5 then 5 else ?n OR 1"
  have "odd ?m" by (simp add: even_or_iff)
  moreover have "?n OR 1 < 2 ^ 31" "0 < ?n OR 1"
    using n by (auto simp: or_one_eq le_less elim!: evenE)
  ultimately show ?thesis using r odd_next_probable_prime [of ?m]
    by (auto simp: HashTable_CalculateIdealNumOfBuckets_def Let_def)
qed


section \<open>Invariant and contents\<close>

definition pairs :: "wHashTable \<Rightarrow> wKeyValuePair multiset" where
  "pairs t = mset (concat (bucketArray t))"

definition key_class :: "wHashTable \<Rightarrow> wKeyValuePair \<Rightarrow> ptr set" where
  "key_class t p = {k. keyCompare t (kv_key p) k}"

text \<open>Comparison is an equivalence that the hash respects, and a cloned key compares equal to the original.\<close>

definition ht_functions_ok :: "wHashTable \<Rightarrow> bool" where
  "ht_functions_ok t \<longleftrightarrow> equivp (keyCompare t) \<and> (\<forall>a b. keyCompare t a b \<longrightarrow> ht_hash t a = ht_hash t b) \<and>
     (\<forall>k. clone_with (keyClone t) k \<noteq> 0 \<longrightarrow> keyCompare t k (clone_with (keyClone t) k)) \<and> 1 \<le> idealRatio t"

definition ht_placed :: "(ptr \<Rightarrow> u32) \<Rightarrow> int \<Rightarrow> wKeyValuePair list list \<Rightarrow> bool" where
  "ht_placed hash n arr \<longleftrightarrow> length arr = nat n \<and> 0 < n \<and> n < 2 ^ 31 \<and>
     (\<forall>h < length arr. \<forall>p \<in> set (arr ! h). bucket_of hash n (kv_key p) = h)"

definition ht_wf :: "wHashTable \<Rightarrow> bool" where
  "ht_wf t \<longleftrightarrow> ht_functions_ok t \<and> ht_placed (ht_hash t) (numOfBuckets t) (bucketArray t) \<and>
     (\<forall>c. count (image_mset (key_class t) (pairs t)) c \<le> 1) \<and>
     numOfElements t = int (size (filter_mset (\<lambda>p. \<not> markedForRemove p) (pairs t)))"

definition ht_inv :: "wHashTable \<Rightarrow> bool" where
  "ht_inv t \<longleftrightarrow> ht_wf t \<and> foreachRecursionLevel t = 0 \<and> pendingRemoves t = 0 \<and> (\<forall>p \<in># pairs t. \<not> markedForRemove p)"

definition ht_lookup :: "wHashTable \<Rightarrow> ptr \<Rightarrow> ptr option" where
  "ht_lookup t k = (case HashTable_Get t k of None \<Rightarrow> None | Some (h, pos) \<Rightarrow>
     (case pos of None \<Rightarrow> None
      | Some i \<Rightarrow> let p = bucketArray t ! h ! i in if markedForRemove p then None else Some (kv_value p)))"

lemma bucket_of_less: "0 < n \<Longrightarrow> n < 2 ^ 31 \<Longrightarrow> bucket_of hash n k < nat n"
proof -
  assume n: "0 < n" "n < 2 ^ 31"
  have u: "unat (word_of_int n :: u32) = nat n" using n by (simp add: unat_eq_nat_uint uint_word_of_int_eq take_bit_int_eq_self)
  then have "hash k mod word_of_int n < (word_of_int n :: u32)" using n by (simp add: word_less_nat_alt unat_mod)
  then show ?thesis using u by (simp add: bucket_of_def word_less_nat_alt)
qed

lemma chain_find_None: "chain_find cmp k chain = None \<longleftrightarrow> (\<forall>p \<in> set chain. \<not> cmp k (kv_key p))"
  by (induction chain) auto

lemma chain_find_Some: "chain_find cmp k chain = Some i \<Longrightarrow> i < length chain \<and> cmp k (kv_key (chain ! i))"
  by (induction chain arbitrary: i) (auto split: if_splits)

lemma mset_concat_update:
  "h < length arr \<Longrightarrow> mset (concat (arr[h := c])) + mset (arr ! h) = mset (concat arr) + mset c"
proof -
  assume h: "h < length arr"
  have "concat arr = concat (take h arr) @ arr ! h @ concat (drop (Suc h) arr)"
    using id_take_nth_drop [OF h] by (metis concat.simps(2) concat_append)
  then show ?thesis using h by (simp add: upd_conv_take_nth_drop)
qed

lemma mset_remove_nth: "i < length xs \<Longrightarrow> add_mset (xs ! i) (mset (remove_nth i xs)) = mset xs"
proof -
  assume i: "i < length xs"
  have "mset xs = mset (take i xs @ xs ! i # drop (Suc i) xs)" using id_take_nth_drop [OF i] by simp
  then show ?thesis by (simp add: remove_nth_def)
qed

lemma mset_update: "i < length xs \<Longrightarrow> add_mset (xs ! i) (mset (xs[i := y])) = add_mset y (mset xs)"
proof -
  assume i: "i < length xs"
  have "mset xs = mset (take i xs @ xs ! i # drop (Suc i) xs)" using id_take_nth_drop [OF i] by simp
  then show ?thesis using i by (simp add: upd_conv_take_nth_drop)
qed

lemma in_pairs: "p \<in># pairs t \<longleftrightarrow> (\<exists>h < length (bucketArray t). p \<in> set (bucketArray t ! h))"
  by (auto simp: pairs_def set_conv_nth [of "bucketArray t"])

lemma class_eq: "ht_functions_ok t \<Longrightarrow> key_class t p = key_class t q \<longleftrightarrow> keyCompare t (kv_key p) (kv_key q)"
  unfolding ht_functions_ok_def key_class_def equivp_def by (metis mem_Collect_eq Collect_cong)

lemma same_class_same_pair:
  assumes "\<forall>c. count (image_mset f M) c \<le> 1" "p \<in># M" "q \<in># M" "f p = f q"
  shows "p = q"
proof (rule ccontr)
  assume "p \<noteq> q"
  then have "{#p, q#} \<subseteq># M" using assms(2,3) by (simp add: insert_subset_eq_iff in_diff_count)
  then have "image_mset f {#p, q#} \<subseteq># image_mset f M" by (rule image_mset_subseteq_mono)
  then have "count (image_mset f {#p, q#}) (f p) \<le> count (image_mset f M) (f p)" by (rule mset_subset_eq_count)
  moreover have "count (image_mset f {#p, q#}) (f p) = 2" using assms(4) by simp
  ultimately show False using assms(1) [rule_format, of "f p"] by linarith
qed

text \<open>Under the invariant, the position that \<^verbatim>\<open>HashTable_Get\<close> finds is that of the only pair whose key compares equal.\<close>

lemma get_run:
  assumes "ht_wf t"
  obtains h pos where "HashTable_Get t k = Some (h, pos)" "h < length (bucketArray t)"
    "pos = chain_find (keyCompare t) k (bucketArray t ! h)" "h = bucket_of (ht_hash t) (numOfBuckets t) k"
proof -
  have p: "ht_placed (ht_hash t) (numOfBuckets t) (bucketArray t)" using assms by (simp add: ht_wf_def)
  then have "bucket_of (ht_hash t) (numOfBuckets t) k < length (bucketArray t)" "numOfBuckets t \<noteq> 0"
    using bucket_of_less by (auto simp: ht_placed_def)
  then show ?thesis using that by (simp add: HashTable_Get_def Let_def)
qed

lemma get_iff:
  assumes w: "ht_wf t" and g: "HashTable_Get t k = Some (h, pos)"
  shows "pos = None \<longleftrightarrow> (\<forall>p \<in># pairs t. \<not> keyCompare t k (kv_key p))"
    "pos = Some i \<Longrightarrow> i < length (bucketArray t ! h) \<and> h < length (bucketArray t) \<and> keyCompare t k (kv_key (bucketArray t ! h ! i))"
proof -
  have g': "h < length (bucketArray t)" "pos = chain_find (keyCompare t) k (bucketArray t ! h)" "h = bucket_of (ht_hash t) (numOfBuckets t) k"
    using g by (auto simp: HashTable_Get_def Let_def split: if_splits)
  have f: "\<And>a b. keyCompare t a b \<Longrightarrow> ht_hash t a = ht_hash t b" "ht_placed (ht_hash t) (numOfBuckets t) (bucketArray t)"
    using w by (auto simp: ht_wf_def ht_functions_ok_def)
  have "p \<in> set (bucketArray t ! h)" if p: "p \<in># pairs t" "keyCompare t k (kv_key p)" for p
  proof -
    obtain h' where h': "h' < length (bucketArray t)" "p \<in> set (bucketArray t ! h')" using p(1) in_pairs by blast
    then have "bucket_of (ht_hash t) (numOfBuckets t) (kv_key p) = h'" using f(2) by (simp add: ht_placed_def)
    then have "h' = h" using f(1) [OF p(2)] g'(3) by (simp add: bucket_of_def)
    then show ?thesis using h'(2) by simp
  qed
  then show "pos = None \<longleftrightarrow> (\<forall>p \<in># pairs t. \<not> keyCompare t k (kv_key p))"
    using g'(1) by (auto simp: g'(2) chain_find_None in_pairs)
  show "pos = Some i \<Longrightarrow> i < length (bucketArray t ! h) \<and> h < length (bucketArray t) \<and> keyCompare t k (kv_key (bucketArray t ! h ! i))"
    using chain_find_Some g'(1,2) by metis
qed

lemma lookup_iff:
  assumes "ht_wf t"
  shows "ht_lookup t k = Some v \<longleftrightarrow> (\<exists>p \<in># pairs t. keyCompare t k (kv_key p) \<and> \<not> markedForRemove p \<and> kv_value p = v)"
proof -
  obtain h pos where g: "HashTable_Get t k = Some (h, pos)" using get_run [OF assms] by metis
  have fo: "ht_functions_ok t" "\<forall>c. count (image_mset (key_class t) (pairs t)) c \<le> 1" using assms by (simp_all add: ht_wf_def)
  show ?thesis
  proof (cases pos)
    case None
    then show ?thesis using get_iff(1) [OF assms g] g by (auto simp: ht_lookup_def)
  next
    case (Some i)
    let ?p = "bucketArray t ! h ! i"
    have i: "?p \<in># pairs t" "keyCompare t k (kv_key ?p)"
      using get_iff(2) [OF assms g Some] by (auto simp: in_pairs)
    have u: "q = ?p" if "q \<in># pairs t" "keyCompare t k (kv_key q)" for q
    proof (rule same_class_same_pair [OF fo(2) that(1) i(1)])
      have "equivp (keyCompare t)" using fo(1) by (simp add: ht_functions_ok_def)
      then show "key_class t q = key_class t ?p" using i(2) that(2) class_eq [OF fo(1)] by (metis equivp_symp equivp_transp)
    qed
    have l: "ht_lookup t k = (if markedForRemove ?p then None else Some (kv_value ?p))" using Some g by (simp add: ht_lookup_def Let_def)
    show ?thesis
    proof
      assume "ht_lookup t k = Some v"
      then show "\<exists>p \<in># pairs t. keyCompare t k (kv_key p) \<and> \<not> markedForRemove p \<and> kv_value p = v"
        using i l by (auto split: if_splits)
    next
      assume "\<exists>p \<in># pairs t. keyCompare t k (kv_key p) \<and> \<not> markedForRemove p \<and> kv_value p = v"
      then show "ht_lookup t k = Some v" using u l by fastforce
    qed
  qed
qed

lemma lookup_None_iff:
  assumes "ht_wf t"
  shows "ht_lookup t k = None \<longleftrightarrow> (\<forall>p \<in># pairs t. keyCompare t k (kv_key p) \<longrightarrow> markedForRemove p)"
proof -
  have "ht_lookup t k = None \<longleftrightarrow> \<not> (\<exists>v. ht_lookup t k = Some v)" by simp
  then show ?thesis unfolding lookup_iff [OF assms] by blast
qed

section \<open>Changing the contents\<close>

definition same_functions :: "wHashTable \<Rightarrow> wHashTable \<Rightarrow> bool" where
  "same_functions t t' \<longleftrightarrow> keyCompare t' = keyCompare t \<and> ht_hash t' = ht_hash t \<and> keyClone t' = keyClone t \<and>
     valueClone t' = valueClone t \<and> idealRatio t' = idealRatio t"

abbreviation "live \<equiv> \<lambda>p. \<not> markedForRemove p"

lemma same_functions_ok: "same_functions t t' \<Longrightarrow> ht_functions_ok t' \<longleftrightarrow> ht_functions_ok t"
  by (simp add: same_functions_def ht_functions_ok_def)

lemma same_functions_class: "same_functions t t' \<Longrightarrow> key_class t' = key_class t"
  by (simp add: same_functions_def key_class_def fun_eq_iff)

lemma others_differ:
  assumes "ht_wf t" "pairs t = add_mset p M" "q \<in># M"
  shows "\<not> keyCompare t (kv_key p) (kv_key q)"
proof
  have fo: "ht_functions_ok t" "\<And>c. count (image_mset (key_class t) (pairs t)) c \<le> 1" using assms(1) by (simp_all add: ht_wf_def)
  assume "keyCompare t (kv_key p) (kv_key q)"
  then have "key_class t p = key_class t q" using class_eq [OF fo(1)] by blast
  then have "key_class t p \<in># image_mset (key_class t) M" using assms(3) by simp
  then have "1 \<le> count (image_mset (key_class t) M) (key_class t p)" by (simp only: count_greater_eq_one_iff)
  moreover have "Suc (count (image_mset (key_class t) M) (key_class t p)) \<le> 1"
    using fo(2) [of "key_class t p"] unfolding assms(2) by (simp only: image_mset_add_mset count_add_mset if_True refl)
  ultimately show False by linarith
qed

lemma compare_laws:
  assumes "ht_wf t"
  shows "keyCompare t a a" "keyCompare t a b \<Longrightarrow> keyCompare t b a" "keyCompare t a b \<Longrightarrow> keyCompare t b c \<Longrightarrow> keyCompare t a c"
  using assms equivp_reflp equivp_symp equivp_transp unfolding ht_wf_def ht_functions_ok_def by metis+

text \<open>One pair is exchanged for another with an equal key.\<close>

lemma wf_swap:
  assumes w: "ht_wf t" and s: "same_functions t t'" "ht_placed (ht_hash t) (numOfBuckets t') (bucketArray t')"
    and p: "pairs t = add_mset p M" "pairs t' = add_mset p' M" "keyCompare t (kv_key p) (kv_key p')"
    and n: "numOfElements t' = numOfElements t - of_bool (live p) + of_bool (live p')"
  shows "ht_wf t'" "ht_lookup t' k = (if keyCompare t k (kv_key p) then if live p' then Some (kv_value p') else None else ht_lookup t k)"
proof -
  have fo: "ht_functions_ok t" using w by (simp add: ht_wf_def)
  have "key_class t p = key_class t p'" using class_eq [OF fo] p(3) by blast
  then have "image_mset (key_class t') (pairs t') = image_mset (key_class t) (pairs t)"
    using same_functions_class [OF s(1)] p by simp
  then show w': "ht_wf t'" using w s n p same_functions_ok [OF s(1)]
    by (auto simp: ht_wf_def same_functions_def of_bool_def)
  note c = compare_laws [OF w]
  have eq: "keyCompare t' = keyCompare t" using s(1) by (simp add: same_functions_def)
  show "ht_lookup t' k = (if keyCompare t k (kv_key p) then if live p' then Some (kv_value p') else None else ht_lookup t k)"
  proof (cases "keyCompare t k (kv_key p)")
    case True
    then have k: "keyCompare t k (kv_key p')" "\<And>q. q \<in># M \<Longrightarrow> \<not> keyCompare t k (kv_key q)"
      using c(2,3) p(3) others_differ [OF w p(1)] by blast+
    show ?thesis
    proof (cases "live p'")
      case l: True
      then have "ht_lookup t' k = Some (kv_value p')" using k(1) p(2) unfolding lookup_iff [OF w'] eq by auto
      then show ?thesis using True l by simp
    next
      case l: False
      then have "ht_lookup t' k = None" using k(2) p(2) unfolding lookup_None_iff [OF w'] eq by auto
      then show ?thesis using True l by simp
    qed
  next
    case False
    then have "\<not> keyCompare t k (kv_key p')" using c(2,3) p(3) by blast
    then have "ht_lookup t' k = Some v \<longleftrightarrow> ht_lookup t k = Some v" for v
      using False p unfolding lookup_iff [OF w'] lookup_iff [OF w] eq by auto
    then show ?thesis using False by (metis option.exhaust)
  qed
qed

lemma wf_add:
  assumes w: "ht_wf t" and s: "same_functions t t'" "ht_placed (ht_hash t) (numOfBuckets t') (bucketArray t')"
    and p: "pairs t' = add_mset p (pairs t)" "\<And>q. q \<in># pairs t \<Longrightarrow> \<not> keyCompare t (kv_key p) (kv_key q)" "live p"
    and n: "numOfElements t' = numOfElements t + 1"
  shows "ht_wf t'" "ht_lookup t' k = (if keyCompare t k (kv_key p) then Some (kv_value p) else ht_lookup t k)"
proof -
  have fo: "ht_functions_ok t" "\<And>c. count (image_mset (key_class t) (pairs t)) c \<le> 1" using w by (simp_all add: ht_wf_def)
  have "key_class t p \<notin># image_mset (key_class t) (pairs t)" using class_eq [OF fo(1)] p(2) by auto
  then have "count (image_mset (key_class t) (pairs t)) (key_class t p) = 0" by (simp only: not_in_iff)
  then have "count (image_mset (key_class t') (pairs t')) c \<le> 1" for c
    using same_functions_class [OF s(1)] p(1) fo(2) [of c] by (cases "c = key_class t p") simp_all
  then show w': "ht_wf t'" using w s n p(1,3) same_functions_ok [OF s(1)] by (auto simp: ht_wf_def same_functions_def)
  note c = compare_laws [OF w]
  have eq: "keyCompare t' = keyCompare t" using s(1) by (simp add: same_functions_def)
  have "ht_lookup t' k = Some v \<longleftrightarrow> (if keyCompare t k (kv_key p) then v = kv_value p else ht_lookup t k = Some v)" for v
  proof (cases "keyCompare t k (kv_key p)")
    case True
    then have "\<not> keyCompare t k (kv_key q)" if "q \<in># pairs t" for q using p(2) [OF that] c(2,3) by blast
    then show ?thesis using True p(3) unfolding lookup_iff [OF w'] eq p(1) by auto
  next
    case False
    then show ?thesis unfolding lookup_iff [OF w'] lookup_iff [OF w] eq p(1) by auto
  qed
  then show "ht_lookup t' k = (if keyCompare t k (kv_key p) then Some (kv_value p) else ht_lookup t k)"
    by (metis option.exhaust)
qed

lemma wf_del:
  assumes w: "ht_wf t" and s: "same_functions t t'" "ht_placed (ht_hash t) (numOfBuckets t') (bucketArray t')"
    and p: "pairs t = add_mset p (pairs t')" and n: "numOfElements t' = numOfElements t - of_bool (live p)"
  shows "ht_wf t'" "ht_lookup t' k = (if keyCompare t k (kv_key p) then None else ht_lookup t k)"
proof -
  have fo: "\<And>c. count (image_mset (key_class t) (pairs t)) c \<le> 1" using w by (simp add: ht_wf_def)
  have "count (image_mset (key_class t') (pairs t')) c \<le> 1" for c
    using same_functions_class [OF s(1)] p fo [of c] by (auto split: if_splits)
  then show w': "ht_wf t'" using w s n p same_functions_ok [OF s(1)] by (auto simp: ht_wf_def same_functions_def of_bool_def)
  note c = compare_laws [OF w]
  have eq: "keyCompare t' = keyCompare t" using s(1) by (simp add: same_functions_def)
  have d: "\<not> keyCompare t (kv_key p) (kv_key q)" if "q \<in># pairs t'" for q using others_differ [OF w p that] .
  have "ht_lookup t' k = Some v \<longleftrightarrow> (\<not> keyCompare t k (kv_key p) \<and> ht_lookup t k = Some v)" for v
  proof
    assume "ht_lookup t' k = Some v"
    then obtain q where q: "q \<in># pairs t'" "keyCompare t k (kv_key q)" "live q" "kv_value q = v"
      unfolding lookup_iff [OF w'] eq by blast
    then have "\<not> keyCompare t k (kv_key p)" using d c(2,3) by blast
    moreover have "ht_lookup t k = Some v" using q p unfolding lookup_iff [OF w] by auto
    ultimately show "\<not> keyCompare t k (kv_key p) \<and> ht_lookup t k = Some v" by blast
  next
    assume "\<not> keyCompare t k (kv_key p) \<and> ht_lookup t k = Some v"
    then show "ht_lookup t' k = Some v" using p unfolding lookup_iff [OF w'] lookup_iff [OF w] eq by auto
  qed
  then show "ht_lookup t' k = (if keyCompare t k (kv_key p) then None else ht_lookup t k)" by (metis option.exhaust)
qed

lemma wf_same:
  assumes "ht_wf t" "same_functions t t'" "ht_placed (ht_hash t) (numOfBuckets t') (bucketArray t')" "pairs t' = pairs t"
    "numOfElements t' = numOfElements t"
  shows "ht_wf t'" "ht_lookup t' = ht_lookup t"
proof -
  show w: "ht_wf t'" using assms same_functions_ok [OF assms(2)] same_functions_class [OF assms(2)]
    by (simp add: ht_wf_def same_functions_def)
  have "keyCompare t' = keyCompare t" using assms(2) by (simp add: same_functions_def)
  then have "ht_lookup t' k = Some v \<longleftrightarrow> ht_lookup t k = Some v" for k v
    unfolding lookup_iff [OF w] lookup_iff [OF assms(1)] assms(4) by simp
  then show "ht_lookup t' = ht_lookup t" by (metis ext option.exhaust)
qed

section \<open>Chains of the array\<close>

lemma set_chain_simps [simp]:
  "bucketArray (set_chain h c t) = (bucketArray t)[h := c]" "numOfBuckets (set_chain h c t) = numOfBuckets t"
  "numOfElements (set_chain h c t) = numOfElements t" "foreachRecursionLevel (set_chain h c t) = foreachRecursionLevel t"
  "pendingRemoves (set_chain h c t) = pendingRemoves t" "same_functions t (set_chain h c t)" "ht_hash (set_chain h c t) = ht_hash t"
  "upperRehashThreshold (set_chain h c t) = upperRehashThreshold t" "lowerRehashThreshold (set_chain h c t) = lowerRehashThreshold t"
  "idealRatio (set_chain h c t) = idealRatio t"
  by (simp_all add: set_chain_def same_functions_def)

lemma placed_update:
  assumes "ht_placed hash n arr" "h < length arr" "\<And>p. p \<in> set c \<Longrightarrow> bucket_of hash n (kv_key p) = h"
  shows "ht_placed hash n (arr[h := c])"
  using assms by (auto simp: ht_placed_def nth_list_update)

lemma pairs_at:
  assumes "h < length (bucketArray t)" "i < length (bucketArray t ! h)"
  shows "\<exists>M. pairs t = add_mset (bucketArray t ! h ! i) M \<and>
    (\<forall>t' p'. bucketArray t' = (bucketArray t)[h := (bucketArray t ! h)[i := p']] \<longrightarrow> pairs t' = add_mset p' M) \<and>
    (\<forall>t'. bucketArray t' = (bucketArray t)[h := remove_nth i (bucketArray t ! h)] \<longrightarrow> pairs t' = M)"
proof -
  let ?c = "bucketArray t ! h" and ?p = "bucketArray t ! h ! i"
  define M where "M = pairs t - {#?p#}"
  have "?p \<in># pairs t" using assms in_pairs nth_mem by blast
  then have m: "pairs t = add_mset ?p M" by (simp add: M_def)
  have "pairs t' = add_mset p' M" if "bucketArray t' = (bucketArray t)[h := ?c[i := p']]" for t' p'
  proof -
    have "pairs t' + mset ?c = pairs t + mset (?c[i := p'])" using mset_concat_update [OF assms(1)] by (simp add: pairs_def that)
    then have "add_mset ?p (pairs t' + mset ?c) = pairs t + add_mset p' (mset ?c)" using mset_update [OF assms(2), of p'] by simp
    then show ?thesis using m by (metis add_mset_add_single union_mset_add_mset_left union_mset_add_mset_right add_right_cancel add_mset_eq_single add_mset_commute add_mset_add_mset_same_iff)
  qed
  moreover have "pairs t' = M" if "bucketArray t' = (bucketArray t)[h := remove_nth i ?c]" for t'
  proof -
    have "pairs t' + mset ?c = pairs t + mset (remove_nth i ?c)" using mset_concat_update [OF assms(1)] by (simp add: pairs_def that)
    then have "add_mset ?p (pairs t' + mset ?c) = pairs t + mset ?c" using mset_remove_nth [OF assms(2)] by (metis union_mset_add_mset_right)
    then show ?thesis using m by (metis add_mset_add_mset_same_iff union_mset_add_mset_left add_right_cancel)
  qed
  ultimately show ?thesis using m by blast
qed


section \<open>Rehashing\<close>

lemma fold_rehash:
  assumes "ht_placed hash n arr"
  shows "ht_placed hash n (fold (rehash_pair hash n) ps arr) \<and> mset (concat (fold (rehash_pair hash n) ps arr)) = mset ps + mset (concat arr)"
  using assms
proof (induction ps arbitrary: arr)
  case (Cons p ps)
  let ?h = "bucket_of hash n (kv_key p)" and ?arr = "rehash_pair hash n p arr"
  have h: "?h < length arr" using Cons.prems bucket_of_less by (simp add: ht_placed_def)
  have a: "?arr = arr[?h := p # arr ! ?h]" by (simp add: rehash_pair_def Let_def)
  have "ht_placed hash n ?arr" unfolding a using Cons.prems h by (intro placed_update) (auto simp: ht_placed_def)
  moreover have "mset (concat ?arr) = add_mset p (mset (concat arr))"
    using mset_concat_update [OF h, of "p # arr ! ?h"] unfolding a by simp
  ultimately show ?case using Cons.IH by simp
qed simp

lemma rehash_all_ok:
  assumes "0 < n" "n < 2 ^ 31"
  shows "ht_placed hash n (rehash_all hash n arr)" "mset (concat (rehash_all hash n arr)) = mset (concat arr)"
proof -
  have "ht_placed hash n (replicate (nat n) [])" using assms by (simp add: ht_placed_def)
  from fold_rehash [OF this, of "concat arr"]
  show "ht_placed hash n (rehash_all hash n arr)" "mset (concat (rehash_all hash n arr)) = mset (concat arr)"
    by (simp_all add: rehash_all_def)
qed

text \<open>What an operation leaves alone besides the contents.\<close>

definition same_frame :: "wHashTable \<Rightarrow> wHashTable \<Rightarrow> bool" where
  "same_frame t t' \<longleftrightarrow> same_functions t t' \<and> foreachRecursionLevel t' = foreachRecursionLevel t \<and> pendingRemoves t' = pendingRemoves t"

lemma rehash_run:
  assumes w: "ht_wf t" and n: "0 \<le> n" "n < 2 ^ 31" "numOfElements t < 2 ^ 31"
  shows "\<exists>t'. HashTable_Rehash malloc t n = Some t' \<and> ht_wf t' \<and> ht_lookup t' = ht_lookup t \<and> pairs t' = pairs t \<and>
    same_frame t t' \<and> numOfElements t' = numOfElements t"
proof -
  have "\<exists>m. (if n = 0 then HashTable_CalculateIdealNumOfBuckets t else Some n) = Some m \<and> 0 < m \<and> m < 2 ^ 31"
    using ideal_buckets [of t] w n by (auto simp: ht_wf_def ht_functions_ok_def)
  then obtain m where m: "(if n = 0 then HashTable_CalculateIdealNumOfBuckets t else Some n) = Some m" "0 < m" "m < 2 ^ 31" by blast
  let ?t = "t\<lparr>bucketArray := rehash_all (ht_hash t) m (bucketArray t), numOfBuckets := m\<rparr>"
  have s: "same_functions t ?t" "same_frame t ?t" by (simp_all add: same_functions_def same_frame_def)
  have p: "pairs ?t = pairs t" using rehash_all_ok(2) [OF m(2,3)] by (simp add: pairs_def)
  note q = wf_same [OF w s(1) _ p]
  have "ht_placed (ht_hash t) (numOfBuckets ?t) (bucketArray ?t)" using rehash_all_ok(1) [OF m(2,3)] by simp
  note q = q [OF this]
  have s0: "same_frame t t" by (simp add: same_functions_def same_frame_def)
  show ?thesis using m(1) q p s s0 w by (cases "malloc (mul64 (nat m) 8)") (auto simp: HashTable_Rehash_def)
qed

section \<open>Adding\<close>

lemma log_event_simps [simp]:
  "bucketArray (log_event b e t) = bucketArray t" "numOfBuckets (log_event b e t) = numOfBuckets t"
  "numOfElements (log_event b e t) = numOfElements t" "same_functions t (log_event b e t)"
  "foreachRecursionLevel (log_event b e t) = foreachRecursionLevel t" "pendingRemoves (log_event b e t) = pendingRemoves t"
  "valueFree (log_event b e t) = valueFree t" "keyFree (log_event b e t) = keyFree t"
  "lowerRehashThreshold (log_event b e t) = lowerRehashThreshold t"
  by (simp_all add: log_event_def same_functions_def)

lemma replace_pair_fields:
  fixes t h i
  defines "p \<equiv> bucketArray t ! h ! i"
  shows "bucketArray (replace_pair t h i key value) =
      (bucketArray t)[h := (bucketArray t ! h)[i := \<lparr>kv_key = key, kv_value = value, markedForRemove = False\<rparr>]]"
    "numOfBuckets (replace_pair t h i key value) = numOfBuckets t" "same_functions t (replace_pair t h i key value)"
    "numOfElements (replace_pair t h i key value) = numOfElements t + of_bool (markedForRemove p)"
    "foreachRecursionLevel (replace_pair t h i key value) = foreachRecursionLevel t"
    "pendingRemoves (replace_pair t h i key value) = pendingRemoves t - of_bool (markedForRemove p)"
  by (simp_all add: replace_pair_def Let_def p_def set_chain_def log_event_def same_functions_def)

lemma replace_pair_ok:
  assumes w: "ht_wf t" and g: "HashTable_Get t key = Some (h, Some i)"
  shows "ht_wf (replace_pair t h i key value)"
    "ht_lookup (replace_pair t h i key value) k = (if keyCompare t key k then Some value else ht_lookup t k)"
proof -
  let ?p = "bucketArray t ! h ! i" and ?p' = "\<lparr>kv_key = key, kv_value = value, markedForRemove = False\<rparr>" and ?t = "replace_pair t h i key value"
  have i: "h < length (bucketArray t)" "i < length (bucketArray t ! h)" "keyCompare t key (kv_key ?p)" using get_iff(2) [OF w g] by auto
  obtain M where M: "pairs t = add_mset ?p M" "\<And>t' p'. bucketArray t' = (bucketArray t)[h := (bucketArray t ! h)[i := p']] \<Longrightarrow> pairs t' = add_mset p' M"
    "\<And>t'. bucketArray t' = (bucketArray t)[h := remove_nth i (bucketArray t ! h)] \<Longrightarrow> pairs t' = M"
    using pairs_at [OF i(1,2)] by blast
  note f = replace_pair_fields [of t h i key "value"]
  note c = compare_laws [OF w]
  have "bucket_of (ht_hash t) (numOfBuckets t) key = h" using g by (auto simp: HashTable_Get_def Let_def split: if_splits)
  then have "ht_placed (ht_hash t) (numOfBuckets ?t) (bucketArray ?t)" unfolding f
    using w i by (intro placed_update) (auto simp: ht_wf_def ht_placed_def dest!: set_update_subset_insert [THEN subsetD])
  note s = wf_swap [OF w f(3) this M(1) M(2) [OF f(1)]]
  have n: "numOfElements ?t = numOfElements t - of_bool (live ?p) + of_bool (live ?p')" unfolding f(4) by simp
  show "ht_wf ?t" using n c(2) [OF i(3)] by (intro s(1)) simp_all
  have "ht_lookup ?t k = (if keyCompare t k (kv_key ?p) then if live ?p' then Some (kv_value ?p') else None else ht_lookup t k)"
    using n c(2) [OF i(3)] by (intro s(2)) simp_all
  moreover have "keyCompare t k (kv_key ?p) \<longleftrightarrow> keyCompare t key k" using c(2,3) i(3) by blast
  ultimately show "ht_lookup ?t k = (if keyCompare t key k then Some value else ht_lookup t k)" by simp
qed

lemma insert_pair_ok:
  assumes w: "ht_wf t" and g: "HashTable_Get t key = Some (h, None)" and n: "numOfElements t + 1 < 2 ^ 31"
  shows "\<exists>t'. insert_pair malloc t h key value = Some t' \<and> ht_wf t' \<and> same_frame t t' \<and> numOfElements t' = numOfElements t + 1 \<and>
    (\<forall>k. ht_lookup t' k = (if keyCompare t key k then Some value else ht_lookup t k)) \<and>
    pairs t' = add_mset \<lparr>kv_key = key, kv_value = value, markedForRemove = False\<rparr> (pairs t)"
proof -
  let ?p = "\<lparr>kv_key = key, kv_value = value, markedForRemove = False\<rparr>"
  let ?t = "(set_chain h (?p # bucketArray t ! h) t)\<lparr>numOfElements := numOfElements t + 1\<rparr>"
  have h: "h < length (bucketArray t)" "bucket_of (ht_hash t) (numOfBuckets t) key = h"
    using g by (auto simp: HashTable_Get_def Let_def split: if_splits)
  have fresh: "\<And>q. q \<in># pairs t \<Longrightarrow> \<not> keyCompare t (kv_key ?p) (kv_key q)" using get_iff(1) [OF w g] by simp
  have s: "same_functions t ?t" "same_frame t ?t" by (simp_all add: set_chain_def same_functions_def same_frame_def)
  have pl: "ht_placed (ht_hash t) (numOfBuckets ?t) (bucketArray ?t)"
    using w h by (auto simp: ht_wf_def ht_placed_def nth_list_update)
  have p: "pairs ?t = add_mset ?p (pairs t)" using mset_concat_update [OF h(1), of "?p # bucketArray t ! h"] by (simp add: pairs_def)
  note a = wf_add [OF w s(1) pl p fresh]
  have w': "ht_wf ?t" by (intro a(1)) simp_all
  have l: "ht_lookup ?t k = (if keyCompare t key k then Some value else ht_lookup t k)" for k
  proof -
    have "ht_lookup ?t k = (if keyCompare t k (kv_key ?p) then Some (kv_value ?p) else ht_lookup t k)" by (intro a(2)) simp_all
    moreover have "keyCompare t k (kv_key ?p) \<longleftrightarrow> keyCompare t key k" using compare_laws(2) [OF w] by auto
    ultimately show ?thesis by simp
  qed
  obtain t2 where "HashTable_Rehash malloc ?t 0 = Some t2" "ht_wf t2" "ht_lookup t2 = ht_lookup ?t" "pairs t2 = pairs ?t"
    "same_frame ?t t2" "numOfElements t2 = numOfElements ?t"
    using rehash_run [OF w', of 0 malloc] n by auto
  moreover have "same_frame t t2" if "same_frame ?t t2" for t2 using that s by (simp add: same_frame_def same_functions_def)
  ultimately show ?thesis using w' l p s unfolding insert_pair_def Let_def by simp
qed


lemma hash_add_ok:
  assumes w: "ht_inv t" and n: "numOfElements t + 1 < 2 ^ 31"
  shows "run_ok (HashTable_Add malloc t key value) (\<lambda>rc t'. ht_inv t' \<and> same_functions t t' \<and> numOfElements t' \<le> numOfElements t + 1 \<and>
    (if rc = 0 then \<forall>k. ht_lookup t' k = (if keyCompare t key k then Some (clone_with (valueClone t) value) else ht_lookup t k) else t' = t))"
proof -
  let ?k = "clone_with (keyClone t) key" and ?v = "clone_with (valueClone t) value"
  have wf: "ht_wf t" and live: "\<And>p. p \<in># pairs t \<Longrightarrow> live p" using w by (simp_all add: ht_inv_def)
  have s0: "same_functions t t" by (simp add: same_functions_def)
  show ?thesis
  proof (cases "key = 0 \<or> value = 0 \<or> ?k = 0 \<or> ?v = 0")
    case True
    then show ?thesis using w s0 by (auto simp: HashTable_Add_def Let_def)
  next
    case False
    have ck: "keyCompare t key ?k" using False wf by (auto simp: ht_wf_def ht_functions_ok_def)
    then have k: "keyCompare t ?k k \<longleftrightarrow> keyCompare t key k" for k using compare_laws(2,3) [OF wf] by blast
    obtain h pos where g: "HashTable_Get t ?k = Some (h, pos)" using get_run [OF wf] by metis
    show ?thesis
    proof (cases pos)
      case None
      obtain t' where t': "insert_pair malloc t h ?k ?v = Some t'" "ht_wf t'" "same_frame t t'" "numOfElements t' = numOfElements t + 1"
        "\<And>k. ht_lookup t' k = (if keyCompare t ?k k then Some ?v else ht_lookup t k)" "pairs t' = add_mset \<lparr>kv_key = ?k, kv_value = ?v, markedForRemove = False\<rparr> (pairs t)"
        using insert_pair_ok [OF wf g [unfolded None] n] by blast
      have "ht_inv t'" using t' w by (auto simp: ht_inv_def same_frame_def)
      then show ?thesis using False g None t' k w s0
        by (cases "malloc 32") (auto simp: HashTable_Add_def Let_def same_frame_def)
    next
      case (Some i)
      let ?t = "replace_pair t h i ?k ?v" and ?p = "bucketArray t ! h ! i"
      have i: "h < length (bucketArray t)" "i < length (bucketArray t ! h)" using get_iff(2) [OF wf g Some] by auto
      then have lp: "live ?p" using live in_pairs nth_mem by blast
      note f = replace_pair_fields [of t h i ?k ?v]
      have "live p" if "p \<in># pairs ?t" for p
        using that live i unfolding in_pairs f(1) by (fastforce simp: nth_list_update in_pairs dest!: set_update_subset_insert [THEN subsetD] split: if_splits)
      then have "ht_inv ?t" using replace_pair_ok(1) [OF wf g [unfolded Some]] f(5,6) lp w by (simp add: ht_inv_def)
      then show ?thesis using False g Some replace_pair_ok(2) [OF wf g [unfolded Some]] k f(3,4) lp
        by (simp add: HashTable_Add_def Let_def)
    qed
  qed
qed

section \<open>Removing\<close>

lemma disposePair_simps [simp]:
  "bucketArray (disposePair t p) = bucketArray t" "numOfBuckets (disposePair t p) = numOfBuckets t"
  "numOfElements (disposePair t p) = numOfElements t" "same_functions t (disposePair t p)"
  "foreachRecursionLevel (disposePair t p) = foreachRecursionLevel t" "pendingRemoves (disposePair t p) = pendingRemoves t"
  "lowerRehashThreshold (disposePair t p) = lowerRehashThreshold t"
  by (simp_all add: disposePair_def log_event_def same_functions_def)

lemma remove_ok:
  assumes w: "ht_inv t" and n: "numOfElements t < 2 ^ 31"
  shows "run_ok (HashTable_Remove malloc t key) (\<lambda>ok t'. ht_inv t' \<and> same_functions t t' \<and> numOfElements t' = numOfElements t - of_bool ok \<and>
    (ok \<longleftrightarrow> ht_lookup t key \<noteq> None) \<and> (\<forall>k. ht_lookup t' k = (if keyCompare t key k then None else ht_lookup t k)))"
proof -
  have wf: "ht_wf t" and live: "\<And>p. p \<in># pairs t \<Longrightarrow> live p" and lv: "foreachRecursionLevel t = 0" using w by (simp_all add: ht_inv_def)
  have s0: "same_functions t t" by (simp add: same_functions_def)
  note c = compare_laws [OF wf]
  obtain h pos where g: "HashTable_Get t key = Some (h, pos)" using get_run [OF wf] by metis
  show ?thesis
  proof (cases pos)
    case None
    then have "\<And>p. p \<in># pairs t \<Longrightarrow> \<not> keyCompare t key (kv_key p)" using get_iff(1) [OF wf g] by blast
    then have l: "ht_lookup t k = None" if "keyCompare t key k" for k
      using that c unfolding lookup_None_iff [OF wf] by blast
    have "HashTable_Remove malloc t key = Some (False, t)" using g None by (simp add: HashTable_Remove_def)
    then show ?thesis using w s0 l c(1) by simp
  next
    case (Some i)
    let ?p = "bucketArray t ! h ! i"
    let ?t = "(set_chain h (remove_nth i (bucketArray t ! h)) (disposePair t ?p))\<lparr>numOfElements := numOfElements t - 1\<rparr>"
    have i: "h < length (bucketArray t)" "i < length (bucketArray t ! h)" "keyCompare t key (kv_key ?p)" using get_iff(2) [OF wf g Some] by auto
    then have lp: "live ?p" "?p \<in># pairs t" using live in_pairs nth_mem by blast+
    obtain M where M: "pairs t = add_mset ?p M" "\<And>t' p'. bucketArray t' = (bucketArray t)[h := (bucketArray t ! h)[i := p']] \<Longrightarrow> pairs t' = add_mset p' M"
      "\<And>t'. bucketArray t' = (bucketArray t)[h := remove_nth i (bucketArray t ! h)] \<Longrightarrow> pairs t' = M" using pairs_at [OF i(1,2)] by blast
    have p: "pairs ?t = M" by (rule M(3)) simp
    have s: "same_functions t ?t" using disposePair_simps(4) [of t ?p] by (simp add: set_chain_def same_functions_def)
    have "ht_placed (ht_hash t) (numOfBuckets ?t) (bucketArray ?t)"
      using wf i by (auto simp: ht_wf_def ht_placed_def nth_list_update remove_nth_def dest: in_set_takeD in_set_dropD)
    note d = wf_del [OF wf s this M(1) [folded p]]
    have w': "ht_wf ?t" using lp by (intro d(1)) simp
    have l: "ht_lookup ?t k = (if keyCompare t key k then None else ht_lookup t k)" for k
    proof -
      have "ht_lookup ?t k = (if keyCompare t k (kv_key ?p) then None else ht_lookup t k)" using lp by (intro d(2)) simp
      moreover have "keyCompare t k (kv_key ?p) \<longleftrightarrow> keyCompare t key k" using c i(3) by blast
      ultimately show ?thesis by simp
    qed
    have i': "ht_inv ?t" using w w' live M(1) p by (simp add: ht_inv_def)
    have ne: "ht_lookup t key \<noteq> None" using lp i(3) unfolding lookup_None_iff [OF wf] by blast
    obtain t2 where t2: "HashTable_Rehash malloc ?t 0 = Some t2" "ht_wf t2" "ht_lookup t2 = ht_lookup ?t" "pairs t2 = pairs ?t"
      "same_frame ?t t2" "numOfElements t2 = numOfElements ?t"
      using rehash_run [OF w', of 0 malloc] n by auto
    have "ht_inv t2" "same_functions t t2" using i' t2 s by (auto simp: ht_inv_def same_frame_def same_functions_def)
    then show ?thesis using g Some lv i' l ne s t2
      by (simp add: HashTable_Remove_def Let_def)
  qed
qed

lemma get_item_value_ok: "ht_wf t \<Longrightarrow> HashTable_GetItemValue t k = Some (case ht_lookup t k of None \<Rightarrow> 0 | Some v \<Rightarrow> v)"
  by (rule get_run [of t k]) (auto simp: HashTable_GetItemValue_def ht_lookup_def Let_def split: option.splits)

lemma contains_ok:
  "ht_wf t \<Longrightarrow> HashTable_Contains t k = Some (ht_lookup t k \<noteq> None)"
  "ht_wf t \<Longrightarrow> HashTable_ContainsKey t k = Some (ht_lookup t k \<noteq> None)"
  by (rule get_run [of t k]; auto simp: HashTable_Contains_def HashTable_ContainsKey_def ht_lookup_def Let_def split: option.splits)+

section \<open>The contract of a map\<close>

definition ht_insert :: "allocator \<Rightarrow> wHashTable \<Rightarrow> ptr \<Rightarrow> ptr \<Rightarrow> (bool \<times> wHashTable) option" where
  "ht_insert malloc t k v = do { (rc, t) \<leftarrow> HashTable_Add malloc t k v; Some (rc = 0, t) }"

lemma ht_insert_law:
  assumes "ht_inv t" "nat (numOfElements t) + 1 < 2 ^ 31"
  shows "run_ok (ht_insert malloc t k v) (\<lambda>ok t'. ht_inv t' \<and> keyCompare t' = keyCompare t \<and>
    clone_with (valueClone t') = clone_with (valueClone t) \<and> nat (numOfElements t') \<le> nat (numOfElements t) + 1 \<and>
    ht_lookup t' = map_op (keyCompare t) (clone_with (valueClone t)) (Insert k v, ok) (ht_lookup t))"
proof -
  have n: "numOfElements t + 1 < 2 ^ 31" "0 \<le> numOfElements t" using assms by (auto simp: ht_inv_def ht_wf_def)
  show ?thesis using n(2) unfolding ht_insert_def run_ok_bind
    by (intro run_ok_mono [OF hash_add_ok [OF assms(1) n(1)]]) (auto simp: same_functions_def fun_eq_iff split: if_splits)
qed

lemma lookup_same:
  assumes "ht_wf t" "keyCompare t k k'"
  shows "ht_lookup t k = ht_lookup t k'"
proof -
  have "keyCompare t k a \<longleftrightarrow> keyCompare t k' a" for a using compare_laws [OF assms(1)] assms(2) by blast
  then have "ht_lookup t k = Some v \<longleftrightarrow> ht_lookup t k' = Some v" for v unfolding lookup_iff [OF assms(1)] by simp
  then show ?thesis by (metis option.exhaust)
qed

interpretation ht: map_store ht_inv keyCompare "\<lambda>t. clone_with (valueClone t)" "\<lambda>t. nat (numOfElements t)" ht_lookup
  "ht_insert malloc" "HashTable_Remove malloc" for malloc
proof unfold_locales
  fix t k v assume "ht_inv t" "nat (numOfElements t) + 1 < 2 ^ 31"
  then show "run_ok (ht_insert malloc t k v) (\<lambda>ok t'. ht_inv t' \<and> keyCompare t' = keyCompare t \<and>
      clone_with (valueClone t') = clone_with (valueClone t) \<and> nat (numOfElements t') \<le> nat (numOfElements t) + 1 \<and>
      ht_lookup t' = map_op (keyCompare t) (clone_with (valueClone t)) (Insert k v, ok) (ht_lookup t))"
    by (rule ht_insert_law)
  then show "run_ok (ht_insert malloc t k v) (\<lambda>ok t'. ht_inv t' \<and> keyCompare t' = keyCompare t \<and>
      clone_with (valueClone t') = clone_with (valueClone t) \<and> nat (numOfElements t') \<le> nat (numOfElements t) + 1 \<and>
      ht_lookup t' = map_op (keyCompare t) (clone_with (valueClone t)) (Insert k v, ok) (ht_lookup t))" .
next
  fix t k assume t: "ht_inv t" "nat (numOfElements t) < 2 ^ 31"
  then have "numOfElements t < 2 ^ 31" by simp
  then show "run_ok (HashTable_Remove malloc t k) (\<lambda>_ t'. ht_inv t' \<and> keyCompare t' = keyCompare t \<and>
      clone_with (valueClone t') = clone_with (valueClone t) \<and> nat (numOfElements t') \<le> nat (numOfElements t) \<and>
      ht_lookup t' = map_op (keyCompare t) (clone_with (valueClone t)) (Delete k, True) (ht_lookup t))"
    by (intro run_ok_mono [OF remove_ok [OF t(1)]]) (auto simp: same_functions_def fun_eq_iff)
next
  fix t k k' assume "ht_inv t" "keyCompare t k k'"
  then show "ht_lookup t k = ht_lookup t k'" by (simp add: lookup_same ht_inv_def)
qed

section \<open>Other operations\<close>

lemma new_inv:
  assumes "HashTable_New malloc = Some t"
  shows "ht_inv t" "ht_lookup t = (\<lambda>_. None)" "keyCompare t = (=)" "valueClone t = None" "numOfElements t = 0"
proof -
  have t: "t = \<lparr>numOfBuckets = 64, numOfElements = 0, idealRatio = 3, lowerRehashThreshold = 0, upperRehashThreshold = 15,
      bucketArray = replicate 64 [], ht_hash = HashTable_PointerHash, keyCompare = HashTable_PointerCompare,
      valueCompare = HashTable_PointerCompare, keyClone = None, valueClone = None, keyFree = False, valueFree = False,
      foreachRecursionLevel = 0, pendingRemoves = 0, ht_freed = []\<rparr>"
    using assms by (auto simp: HashTable_New_def split: option.splits)
  show c: "keyCompare t = (=)" by (simp add: t HashTable_PointerCompare_def fun_eq_iff)
  have p: "pairs t = {#}" by (simp add: t pairs_def)
  have "ht_placed (ht_hash t) (numOfBuckets t) (bucketArray t)" by (simp add: t ht_placed_def)
  moreover have "ht_functions_ok t" using c by (simp add: ht_functions_ok_def identity_equivp clone_with_def) (simp add: t)
  ultimately show i: "ht_inv t" using p by (simp add: ht_inv_def ht_wf_def) (simp add: t)
  then have "ht_wf t" by (simp add: ht_inv_def)
  from lookup_None_iff [OF this] show "ht_lookup t = (\<lambda>_. None)" by (simp add: fun_eq_iff p)
  show "valueClone t = None" "numOfElements t = 0" by (simp_all add: t)
qed

lemma set_item_ok:
  assumes w: "ht_inv t"
  shows "run_ok (HashTable_SetItemValue t key v) (\<lambda>ok t'. ht_inv t' \<and> same_functions t t' \<and> numOfElements t' = numOfElements t \<and>
    (if ok then ht_lookup t key \<noteq> None \<and> (\<forall>k. ht_lookup t' k =
       (if keyCompare t key k then Some (if v = 0 then 0 else clone_with (valueClone t) v) else ht_lookup t k)) else t' = t))"
proof -
  let ?v = "if v \<noteq> 0 then clone_with (valueClone t) v else v"
  have wf: "ht_wf t" and live: "\<And>p. p \<in># pairs t \<Longrightarrow> live p" using w by (simp_all add: ht_inv_def)
  have s0: "same_functions t t" by (simp add: same_functions_def)
  note c = compare_laws [OF wf]
  obtain h pos where g: "HashTable_Get t key = Some (h, pos)" using get_run [OF wf] by metis
  show ?thesis
  proof (cases pos)
    case None
    then show ?thesis using g w s0 by (auto simp: HashTable_SetItemValue_def Let_def)
  next
    case (Some i)
    let ?p = "bucketArray t ! h ! i"
    let ?t = "set_chain h ((bucketArray t ! h)[i := ?p\<lparr>kv_value := ?v\<rparr>]) (log_event (valueClone t \<noteq> None \<and> valueFree t) (ValueFree (kv_value ?p)) t)"
    have i: "h < length (bucketArray t)" "i < length (bucketArray t ! h)" "keyCompare t key (kv_key ?p)" using get_iff(2) [OF wf g Some] by auto
    then have lp: "live ?p" "?p \<in># pairs t" using live in_pairs nth_mem by blast+
    obtain M where M: "pairs t = add_mset ?p M" "\<And>t' p'. bucketArray t' = (bucketArray t)[h := (bucketArray t ! h)[i := p']] \<Longrightarrow> pairs t' = add_mset p' M"
      using pairs_at [OF i(1,2)] by blast
    have p: "pairs ?t = add_mset (?p\<lparr>kv_value := ?v\<rparr>) M" by (rule M(2)) simp
    have s: "same_functions t ?t" by (simp add: set_chain_def log_event_def same_functions_def)
    have "ht_placed (ht_hash t) (numOfBuckets ?t) (bucketArray ?t)"
      using wf i by (auto simp: ht_wf_def ht_placed_def nth_list_update dest!: set_update_subset_insert [THEN subsetD] intro: nth_mem)
    note sw = wf_swap [OF wf s this M(1) p]
    have w': "ht_wf ?t" using lp c(1) by (intro sw(1)) simp_all
    have l: "ht_lookup ?t k = (if keyCompare t key k then Some ?v else ht_lookup t k)" for k
    proof -
      have "ht_lookup ?t k = (if keyCompare t k (kv_key ?p) then if live (?p\<lparr>kv_value := ?v\<rparr>) then Some (kv_value (?p\<lparr>kv_value := ?v\<rparr>)) else None
          else ht_lookup t k)" using lp c(1) by (intro sw(2)) simp_all
      moreover have "keyCompare t k (kv_key ?p) \<longleftrightarrow> keyCompare t key k" using c i(3) by blast
      ultimately show ?thesis using lp by simp
    qed
    have i': "ht_inv ?t" using w w' live M(1) p lp by (auto simp: ht_inv_def)
    have ne: "ht_lookup t key \<noteq> None" using lp i(3) unfolding lookup_None_iff [OF wf] by blast
    show ?thesis using g Some lp w s0 i' l ne s by (auto simp: HashTable_SetItemValue_def Let_def)
  qed
qed

text \<open>Clearing releases every pair.\<close>

lemma clear_chain_level0:
  "foreachRecursionLevel t = 0 \<Longrightarrow> clear_chain t chain = Some (fold (\<lambda>p t. disposePair t p) chain t)"
proof (induction chain arbitrary: t)
  case Nil
  then show ?case by (subst clear_chain.simps) simp
next
  case (Cons p chain)
  then show ?case by (subst clear_chain.simps) simp
qed

lemma fold_dispose_simps [simp]:
  "bucketArray (fold (\<lambda>p t. disposePair t p) ps t) = bucketArray t" "numOfBuckets (fold (\<lambda>p t. disposePair t p) ps t) = numOfBuckets t"
  "foreachRecursionLevel (fold (\<lambda>p t. disposePair t p) ps t) = foreachRecursionLevel t"
  "pendingRemoves (fold (\<lambda>p t. disposePair t p) ps t) = pendingRemoves t"
  "same_functions t (fold (\<lambda>p t. disposePair t p) ps t)"
  by (induction ps arbitrary: t) (simp_all add: same_functions_def, simp_all add: disposePair_def log_event_def)

lemma clear_buckets_level0:
  "foreachRecursionLevel t = 0 \<Longrightarrow> clear_buckets t arr = Some (fold (\<lambda>p t. disposePair t p) (concat arr) t)"
  by (induction arr arbitrary: t) (simp_all add: clear_chain_level0)

lemma hash_clear_ok:
  assumes w: "ht_inv t"
  shows "\<exists>t'. HashTable_Clear malloc t = Some t' \<and> ht_inv t' \<and> ht_lookup t' = (\<lambda>_. None) \<and> numOfElements t' = 0"
proof -
  let ?u = "fold (\<lambda>p t. disposePair t p) (concat (bucketArray t)) t"
  let ?t = "?u\<lparr>bucketArray := map (\<lambda>_. []) (bucketArray t), numOfElements := 0\<rparr>"
  have wf: "ht_wf t" "foreachRecursionLevel t = 0" using w by (simp_all add: ht_inv_def)
  have s: "same_functions t ?t" using fold_dispose_simps(5) [of t "concat (bucketArray t)"] by (simp add: same_functions_def)
  have "concat (map (\<lambda>_. []) xs) = []" for xs :: "'a list" by (induction xs) simp_all
  then have p: "pairs ?t = {#}" by (simp add: pairs_def)
  have "ht_placed (ht_hash t) (numOfBuckets ?t) (bucketArray ?t)" using wf(1) by (simp add: ht_wf_def ht_placed_def)
  moreover have "ht_hash ?t = ht_hash t" using s by (simp add: same_functions_def)
  ultimately have w': "ht_wf ?t" using wf(1) p same_functions_ok [OF s] by (simp add: ht_wf_def)
  obtain t2 where t2: "HashTable_Rehash malloc ?t 5 = Some t2" "ht_wf t2" "pairs t2 = pairs ?t" "same_frame ?t t2" "numOfElements t2 = numOfElements ?t"
    using rehash_run [OF w', of 5 malloc] by auto
  have "ht_inv t2" using w t2 p by (simp add: ht_inv_def same_frame_def)
  moreover have "ht_lookup t2 = (\<lambda>_. None)" using lookup_None_iff [OF t2(2)] t2(3) p by (simp add: fun_eq_iff)
  moreover have "HashTable_Clear malloc t = Some t2" using t2(1) wf(2) by (simp add: HashTable_Clear_def clear_buckets_level0)
  ultimately show ?thesis using t2(5) by auto
qed

lemma live_keys_length: "ht_wf t \<Longrightarrow> numOfElements t = int (length (live_keys t))"
  by (simp add: ht_wf_def pairs_def live_keys_def flip: mset_filter)

lemma get_keys_ok:
  assumes "ht_wf t"
  shows "HashTable_GetKeys malloc t =
    (if live_keys t = [] then Some (0, [])
     else if malloc (mul64 (length (live_keys t)) 8) = None then Some (- 1, []) else Some (int (length (live_keys t)), live_keys t))"
proof -
  have "(live_keys t = []) = (numOfElements t < 1)" using live_keys_length [OF assms] by simp
  then show ?thesis using live_keys_length [OF assms] by (auto simp: HashTable_GetKeys_def Let_def split: option.splits)
qed

section \<open>Properties of the hash table\<close>

text \<open>
  C17: The hash table is a map: for every table in a consistent state, whatever its hash, comparison
  and clone functions, and every sequence of additions and removals, the values found afterwards are
  those of the same sequence on a map, in which the additions that failed for lack of memory have no
  effect; and all functions that look up a key agree with that map.
\<close>

theorem HashTable_refines_map:
  assumes "ht_inv t" "nat (numOfElements t) + length ops < 2 ^ 31"
  shows "\<exists>rs t'. store_run (ht_insert malloc) (HashTable_Remove malloc) t ops = Some (rs, t') \<and> length rs = length ops \<and> ht_inv t' \<and>
    (\<forall>k. let m = map_run (keyCompare t) (clone_with (valueClone t)) (zip ops rs) (ht_lookup t) k in
       HashTable_GetItemValue t' k = Some (case m of None \<Rightarrow> 0 | Some v \<Rightarrow> v) \<and>
       HashTable_Contains t' k = Some (m \<noteq> None) \<and> HashTable_ContainsKey t' k = Some (m \<noteq> None))"
proof -
  obtain rs t' where r: "store_run (ht_insert malloc) (HashTable_Remove malloc) t ops = Some (rs, t')" "length rs = length ops"
    "ht_inv t'" "ht_lookup t' = map_run (keyCompare t) (clone_with (valueClone t)) (zip ops rs) (ht_lookup t)"
    using ht.run_refines_map [OF assms, of malloc] by blast
  have "ht_wf t'" using r(3) by (simp add: ht_inv_def)
  note g = get_item_value_ok [OF this] contains_ok [OF this]
  show ?thesis by (intro exI [of _ rs] exI [of _ t']) (simp add: r(1-3) g r(4) [symmetric])
qed

definition fresh_table :: wHashTable where
  "fresh_table = the (HashTable_New zero_malloc)"

lemma fresh_table_new: "HashTable_New zero_malloc = Some fresh_table"
  by (simp add: fresh_table_def HashTable_New_def zero_malloc_def)

theorem HashTable_refines_map_witness:
  "\<exists>rs t'. store_run (ht_insert zero_malloc) (HashTable_Remove zero_malloc) fresh_table [Insert 16 1, Insert 32 2, Insert 16 3, Delete 32] =
      Some (rs, t') \<and> length rs = length [Insert 16 1, Insert 32 2, Insert (16 :: ptr) (3 :: ptr), Delete 32] \<and> ht_inv t' \<and>
    (\<forall>k. let m = map_run (keyCompare fresh_table) (clone_with (valueClone fresh_table))
           (zip [Insert 16 1, Insert 32 2, Insert 16 3, Delete 32] rs) (ht_lookup fresh_table) k in
       HashTable_GetItemValue t' k = Some (case m of None \<Rightarrow> 0 | Some v \<Rightarrow> v) \<and>
       HashTable_Contains t' k = Some (m \<noteq> None) \<and> HashTable_ContainsKey t' k = Some (m \<noteq> None))"
  by (rule HashTable_refines_map) (simp_all add: new_inv [OF fresh_table_new])

text \<open>
  C18: The invariant of the hash table outside an iteration: every pair is in the bucket of its key, no two
  keys compare equal, the number of elements is the number of pairs, no pair is marked for removal
  and no iteration is running. A table made by \<^verbatim>\<open>HashTable_New\<close> has it, and \<^verbatim>\<open>HashTable_Add\<close>, \<^verbatim>\<open>HashTable_Remove\<close>,
  \<^verbatim>\<open>HashTable_SetItemValue\<close> and \<^verbatim>\<open>HashTable_Clear\<close>, called on a table of fewer than 2147483647 elements outside an
  iteration, keep it, none of them faulting or looping, with any allocator. Iterations are not part of the
  claim.
\<close>

theorem HashTable_invariant:
  "(\<forall>t. HashTable_New malloc = Some t \<longrightarrow> ht_inv t) \<and>
   (\<forall>t. ht_inv t \<and> numOfElements t + 1 < 2 ^ 31 \<longrightarrow>
     run_ok (HashTable_Add malloc t k v) (\<lambda>_. ht_inv) \<and> run_ok (HashTable_Remove malloc t k) (\<lambda>_. ht_inv) \<and>
     run_ok (HashTable_SetItemValue t k v) (\<lambda>_. ht_inv) \<and> (\<exists>t'. HashTable_Clear malloc t = Some t' \<and> ht_inv t' \<and> HashTable_Count t' = 0))"
proof (intro conjI allI impI)
  fix t assume "HashTable_New malloc = Some t"
  then show "ht_inv t" by (rule new_inv)
next
  fix t assume "ht_inv t \<and> numOfElements t + 1 < 2 ^ 31"
  then have t: "ht_inv t" "numOfElements t + 1 < 2 ^ 31" "numOfElements t < 2 ^ 31" by auto
  show "run_ok (HashTable_Add malloc t k v) (\<lambda>_. ht_inv)" by (rule run_ok_mono [OF hash_add_ok [OF t(1,2)]]) simp
  show "run_ok (HashTable_Remove malloc t k) (\<lambda>_. ht_inv)" by (rule run_ok_mono [OF remove_ok [OF t(1,3)]]) simp
  show "run_ok (HashTable_SetItemValue t k v) (\<lambda>_. ht_inv)" by (rule run_ok_mono [OF set_item_ok [OF t(1)]]) simp
  show "\<exists>t'. HashTable_Clear malloc t = Some t' \<and> ht_inv t' \<and> HashTable_Count t' = 0"
    using hash_clear_ok [OF t(1)] by (auto simp: HashTable_Count_def)
qed

theorem HashTable_invariant_witness:
  "ht_inv fresh_table \<and> run_ok (HashTable_Add zero_malloc fresh_table 16 1) (\<lambda>_. ht_inv)"
proof -
  have t: "ht_inv fresh_table" using HashTable_invariant [of zero_malloc 16 1] fresh_table_new by blast
  have "numOfElements fresh_table + 1 < 2 ^ 31" by (simp add: new_inv(5) [OF fresh_table_new])
  with t HashTable_invariant [of zero_malloc 16 1] show ?thesis by blast
qed

end
