(* ===== verification/Hash_Table_Foreach.thy ===== *)
theory Hash_Table_Foreach
  imports Hash_Table
begin

text \<open>
  Iteration over a hash table: removing entries from the callback works, the entries are marked and
  disposed of when the iteration ends. The last section shows what goes wrong when the callback
  clears the table, removes an entry twice or stops the iteration.
\<close>

section \<open>Removing entries while iterating\<close>

definition remove_if :: "allocator \<Rightarrow> (ptr \<Rightarrow> ptr \<Rightarrow> bool) \<Rightarrow> foreach_fn" where
  "remove_if malloc P k v t = (if P k v then do { (_, t) \<leftarrow> HashTable_Remove malloc t k; Some (True, t) } else Some (True, t))"

definition mark_if :: "(ptr \<Rightarrow> ptr \<Rightarrow> bool) \<Rightarrow> wKeyValuePair \<Rightarrow> wKeyValuePair" where
  "mark_if P p = (if live p \<and> P (kv_key p) (kv_value p) then p\<lparr>markedForRemove := True\<rparr> else p)"

text \<open>The state of an iteration: pairs may be marked, and the marks are counted.\<close>

definition ht_iter :: "wHashTable \<Rightarrow> bool" where
  "ht_iter t \<longleftrightarrow> ht_wf t \<and> foreachRecursionLevel t \<noteq> 0 \<and> pendingRemoves t = of_nat (size (filter_mset markedForRemove (pairs t)))"

definition marked_from :: "wHashTable \<Rightarrow> wKeyValuePair list list \<Rightarrow> wHashTable \<Rightarrow> bool" where
  "marked_from t arr t' \<longleftrightarrow> ht_iter t' \<and> (\<exists>n q. t' = t\<lparr>bucketArray := arr, numOfElements := n, pendingRemoves := q\<rparr>)"

lemma marked_from_trans: "marked_from t arr t' \<Longrightarrow> marked_from t' arr' t'' \<Longrightarrow> marked_from t arr' t''"
  unfolding marked_from_def by (elim conjE exE) (simp, blast)

lemma get_at:
  assumes w: "ht_wf t" and h: "h < length (bucketArray t)" "j < length (bucketArray t ! h)"
  shows "HashTable_Get t (kv_key (bucketArray t ! h ! j)) = Some (h, Some j)"
proof -
  let ?c = "bucketArray t ! h" and ?p = "bucketArray t ! h ! j"
  have p: "?p \<in># pairs t" using h in_pairs nth_mem by blast
  obtain h' pos where g: "HashTable_Get t (kv_key ?p) = Some (h', pos)" "h' = bucket_of (ht_hash t) (numOfBuckets t) (kv_key ?p)"
    using get_run [OF w] by metis
  have hh: "h' = h" using g(2) w h by (simp add: ht_wf_def ht_placed_def)
  have "pos \<noteq> None" using get_iff(1) [OF w g(1)] p compare_laws(1) [OF w] by blast
  then obtain i where i: "pos = Some i" by blast
  have c: "i < length ?c" "keyCompare t (kv_key ?p) (kv_key (?c ! i))" using get_iff(2) [OF w g(1) i] hh by auto
  have "i = j"
  proof (rule ccontr)
    assume ne: "i \<noteq> j"
    obtain M where M: "pairs t = add_mset (?c ! i) M" "\<And>t'. bucketArray t' = (bucketArray t)[h := remove_nth i ?c] \<Longrightarrow> pairs t' = M"
      using pairs_at [OF h(1) c(1)] by blast
    have "?p \<in> set (remove_nth i ?c)"
      using ne h(2) c(1) by (cases "j < i") (auto simp: remove_nth_def in_set_conv_nth nth_append intro: exI [of _ j] exI [of _ "j - Suc i"])
    then have "?p \<in># pairs (t\<lparr>bucketArray := (bucketArray t)[h := remove_nth i ?c]\<rparr>)"
      unfolding in_pairs using h(1) by (auto intro!: exI [of _ h])
    then have "?p \<in># M" using M(2) [of "t\<lparr>bucketArray := (bucketArray t)[h := remove_nth i ?c]\<rparr>"] by simp
    then show False using others_differ [OF w M(1)] c(2) compare_laws(2) [OF w] by blast
  qed
  then show ?thesis using g(1) hh i by simp
qed

lemma remove_marks:
  assumes i: "ht_iter t" and h: "h < length (bucketArray t)" "j < length (bucketArray t ! h)" and l: "live (bucketArray t ! h ! j)"
  shows "\<exists>t'. HashTable_Remove malloc t (kv_key (bucketArray t ! h ! j)) = Some (True, t') \<and>
    marked_from t ((bucketArray t)[h := (bucketArray t ! h)[j := (bucketArray t ! h ! j)\<lparr>markedForRemove := True\<rparr>]]) t'"
proof -
  let ?c = "bucketArray t ! h" and ?p = "bucketArray t ! h ! j"
  let ?p' = "?p\<lparr>markedForRemove := True\<rparr>"
  let ?t = "(set_chain h (?c[j := ?p']) t)\<lparr>pendingRemoves := pendingRemoves t + 1, numOfElements := numOfElements t - 1\<rparr>"
  have w: "ht_wf t" "foreachRecursionLevel t \<noteq> 0" using i by (simp_all add: ht_iter_def)
  obtain M where M: "pairs t = add_mset ?p M" "\<And>t' p'. bucketArray t' = (bucketArray t)[h := ?c[j := p']] \<Longrightarrow> pairs t' = add_mset p' M"
    using pairs_at [OF h] by blast
  have p: "pairs ?t = add_mset ?p' M" by (rule M(2)) simp
  have s: "same_functions t ?t" by (simp add: set_chain_def same_functions_def)
  have "ht_placed (ht_hash t) (numOfBuckets ?t) (bucketArray ?t)"
    using w h by (auto simp: ht_wf_def ht_placed_def nth_list_update dest!: set_update_subset_insert [THEN subsetD] intro: nth_mem)
  from wf_swap(1) [OF w(1) s this M(1) p] have "ht_wf ?t" using l compare_laws(1) [OF w(1)] by simp
  moreover have "pendingRemoves ?t = of_nat (size (filter_mset markedForRemove (pairs ?t)))" unfolding p using i M(1) l by (simp add: ht_iter_def)
  ultimately have "ht_iter ?t" using w(2) by (simp add: ht_iter_def)
  moreover have "?t = t\<lparr>bucketArray := (bucketArray t)[h := ?c[j := ?p']], numOfElements := numOfElements t - 1,
      pendingRemoves := pendingRemoves t + 1\<rparr>"
    by (simp add: set_chain_def)
  ultimately have "marked_from t ((bucketArray t)[h := ?c[j := ?p']]) ?t" unfolding marked_from_def by blast
  then show ?thesis using get_at [OF w(1) h] w(2) by (simp add: HashTable_Remove_def Let_def)
qed

lemma marked_from_refl: "ht_iter t \<Longrightarrow> marked_from t (bucketArray t) t"
  unfolding marked_from_def by (auto intro!: exI [of _ "numOfElements t"] exI [of _ "pendingRemoves t"])

lemma foreach_chain_marks:
  assumes "ht_iter t" "h < length (bucketArray t)" "n \<le> length (bucketArray t ! h)"
  shows "\<exists>t'. foreach_chain (remove_if malloc P) h n t = Some (True, t') \<and>
    marked_from t ((bucketArray t)[h := take (length (bucketArray t ! h) - n) (bucketArray t ! h) @
      map (mark_if P) (drop (length (bucketArray t ! h) - n) (bucketArray t ! h))]) t'"
  using assms
proof (induction n arbitrary: t)
  case 0
  then show ?case using marked_from_refl by simp
next
  case (Suc n)
  let ?c = "bucketArray t ! h"
  let ?j = "length ?c - Suc n"
  let ?p = "?c ! ?j"
  have j: "?j < length ?c" "Suc ?j = length ?c - n" "n < length ?c" using Suc.prems(3) by simp_all
  have d: "drop ?j ?c = ?p # drop (Suc ?j) ?c" using j(1) by (simp add: Cons_nth_drop_Suc)
  show ?case
  proof (cases "live ?p \<and> P (kv_key ?p) (kv_value ?p)")
    case True
    obtain t1 where t1: "HashTable_Remove malloc t (kv_key ?p) = Some (True, t1)"
      "marked_from t ((bucketArray t)[h := ?c[?j := ?p\<lparr>markedForRemove := True\<rparr>]]) t1"
      using remove_marks [OF Suc.prems(1,2) j(1)] True by blast
    have b: "bucketArray t1 = (bucketArray t)[h := ?c[?j := ?p\<lparr>markedForRemove := True\<rparr>]]" "ht_iter t1"
      using t1(2) by (auto simp: marked_from_def)
    then have c1: "bucketArray t1 ! h = ?c[?j := ?p\<lparr>markedForRemove := True\<rparr>]" using Suc.prems(2) by simp
    obtain t2 where t2: "foreach_chain (remove_if malloc P) h n t1 = Some (True, t2)"
      "marked_from t1 ((bucketArray t1)[h := take (length (bucketArray t1 ! h) - n) (bucketArray t1 ! h) @
      map (mark_if P) (drop (length (bucketArray t1 ! h) - n) (bucketArray t1 ! h))]) t2"
      using Suc.IH [OF b(2)] Suc.prems b(1) c1 by auto
    have "take (length ?c - n) (?c[?j := ?p\<lparr>markedForRemove := True\<rparr>]) @ map (mark_if P) (drop (length ?c - n) (?c[?j := ?p\<lparr>markedForRemove := True\<rparr>]))
        = take ?j ?c @ map (mark_if P) (drop ?j ?c)"
      using True j(1) d unfolding j(2) [symmetric] by (simp add: mark_if_def take_Suc_conv_app_nth)
    then have "marked_from t ((bucketArray t)[h := take ?j ?c @ map (mark_if P) (drop ?j ?c)]) t2"
      using marked_from_trans [OF t1(2) t2(2)] b(1) c1 by simp
    moreover have "remove_if malloc P (kv_key ?p) (kv_value ?p) t = Some (True, t1)" using True t1(1) by (simp add: remove_if_def)
    ultimately show ?thesis using True t2(1) Suc.prems j(3) by (simp add: Let_def)
  next
    case False
    then have m: "mark_if P ?p = ?p" by (auto simp: mark_if_def)
    have e: "take (Suc ?j) ?c @ map (mark_if P) (drop (Suc ?j) ?c) = take ?j ?c @ map (mark_if P) (drop ?j ?c)"
      using j(1) d m by (simp add: take_Suc_conv_app_nth)
    have "\<exists>t'. foreach_chain (remove_if malloc P) h n t = Some (True, t') \<and> marked_from t ((bucketArray t)[h := take ?j ?c @ map (mark_if P) (drop ?j ?c)]) t'"
      using Suc.IH [OF Suc.prems(1,2)] Suc.prems(3) e j(2) by simp
    moreover have "live ?p \<Longrightarrow> remove_if malloc P (kv_key ?p) (kv_value ?p) t = Some (True, t)" using False by (simp add: remove_if_def)
    ultimately show ?thesis using Suc.prems(2) j(3) by (simp add: Let_def)
  qed
qed

lemma foreach_buckets_marks:
  assumes "ht_iter t" "index + n = length (bucketArray t)"
  shows "\<exists>t'. foreach_buckets (remove_if malloc P) index n t = Some (True, t') \<and>
    marked_from t (take index (bucketArray t) @ map (map (mark_if P)) (drop index (bucketArray t))) t'"
  using assms
proof (induction n arbitrary: index t)
  case 0
  then show ?case using marked_from_refl by simp
next
  case (Suc n)
  let ?arr = "bucketArray t"
  have h: "index < length ?arr" using Suc.prems(2) by simp
  obtain t1 where t1: "foreach_chain (remove_if malloc P) index (length (?arr ! index)) t = Some (True, t1)"
    "marked_from t (?arr[index := map (mark_if P) (?arr ! index)]) t1"
    using foreach_chain_marks [OF Suc.prems(1) h order_refl] by auto
  have b: "bucketArray t1 = ?arr[index := map (mark_if P) (?arr ! index)]" "ht_iter t1" using t1(2) by (auto simp: marked_from_def)
  obtain t2 where t2: "foreach_buckets (remove_if malloc P) (Suc index) n t1 = Some (True, t2)"
    "marked_from t1 (take (Suc index) (bucketArray t1) @ map (map (mark_if P)) (drop (Suc index) (bucketArray t1))) t2"
    using Suc.IH [OF b(2), of "Suc index"] Suc.prems(2) b(1) by auto
  have "take (Suc index) (bucketArray t1) @ map (map (mark_if P)) (drop (Suc index) (bucketArray t1)) =
      take index ?arr @ map (map (mark_if P)) (drop index ?arr)"
    using h unfolding b(1) by (simp add: take_Suc_conv_app_nth Cons_nth_drop_Suc [symmetric])
  then show ?case using marked_from_trans [OF t1(2) t2(2)] t1(1) t2(1) h by simp
qed


text \<open>The cleanup behind the iteration.\<close>

lemma fold_cleanup_simps [simp]:
  "numOfBuckets (fold cleanup_chain arr t) = numOfBuckets t" "numOfElements (fold cleanup_chain arr t) = numOfElements t"
  "foreachRecursionLevel (fold cleanup_chain arr t) = foreachRecursionLevel t" "same_functions t (fold cleanup_chain arr t)"
proof -
  have c: "numOfBuckets (cleanup_chain c t) = numOfBuckets t \<and> numOfElements (cleanup_chain c t) = numOfElements t \<and>
    foreachRecursionLevel (cleanup_chain c t) = foreachRecursionLevel t \<and> same_functions t (cleanup_chain c t)" for c t
    unfolding cleanup_chain_def
    by (induction c arbitrary: t) (auto simp: same_functions_def disposePair_def log_event_def)
  have "numOfBuckets (fold cleanup_chain arr t) = numOfBuckets t \<and> numOfElements (fold cleanup_chain arr t) = numOfElements t \<and>
    foreachRecursionLevel (fold cleanup_chain arr t) = foreachRecursionLevel t \<and> same_functions t (fold cleanup_chain arr t)"
    using c by (induction arr arbitrary: t) (auto simp: same_functions_def)
  then show "numOfBuckets (fold cleanup_chain arr t) = numOfBuckets t" "numOfElements (fold cleanup_chain arr t) = numOfElements t"
    "foreachRecursionLevel (fold cleanup_chain arr t) = foreachRecursionLevel t" "same_functions t (fold cleanup_chain arr t)"
    by simp_all
qed

lemma pairs_filter: "mset (concat (map (filter Q) arr)) = filter_mset Q (mset (concat arr))"
  by (induction arr) simp_all

lemma pairs_map: "mset (concat (map (map f) arr)) = image_mset f (mset (concat arr))"
  by (induction arr) simp_all

lemma cleanup_ok:
  assumes "ht_wf t" "foreachRecursionLevel t = 0"
  shows "ht_inv (foreach_cleanup t)" "pairs (foreach_cleanup t) = filter_mset live (pairs t)"
proof -
  let ?t = "foreach_cleanup t"
  show p: "pairs ?t = filter_mset live (pairs t)" by (simp add: pairs_def foreach_cleanup_def Let_def pairs_filter)
  have s: "same_functions t ?t" using fold_cleanup_simps(4) [of t "bucketArray t"] by (simp add: foreach_cleanup_def Let_def same_functions_def)
  have h: "ht_hash ?t = ht_hash t" using s by (simp add: same_functions_def)
  have "ht_placed (ht_hash t) (numOfBuckets ?t) (bucketArray ?t)"
    using assms(1) by (auto simp: ht_wf_def ht_placed_def foreach_cleanup_def Let_def)
  moreover have "count (image_mset (key_class ?t) (pairs ?t)) c \<le> 1" for c
  proof -
    have "image_mset (key_class t) (filter_mset live (pairs t)) \<subseteq># image_mset (key_class t) (pairs t)"
      by (intro image_mset_subseteq_mono multiset_filter_subset)
    then have "count (image_mset (key_class t) (filter_mset live (pairs t))) c \<le> count (image_mset (key_class t) (pairs t)) c"
      by (rule mset_subset_eq_count)
    also have "\<dots> \<le> 1" using assms(1) by (simp add: ht_wf_def)
    finally show ?thesis using p same_functions_class [OF s] by simp
  qed
  moreover have "numOfElements ?t = int (size (filter_mset live (pairs ?t)))"
    using assms(1) unfolding p by (simp add: ht_wf_def foreach_cleanup_def Let_def filter_filter_mset)
  ultimately have "ht_wf ?t" using assms(1) same_functions_ok [OF s] h by (simp add: ht_wf_def)
  then show "ht_inv ?t" using assms(2) p by (simp add: ht_inv_def foreach_cleanup_def Let_def)
qed

lemma foreach_removes:
  assumes i: "ht_inv t" and n: "numOfElements t < 2 ^ 31"
  shows "\<exists>t'. HashTable_Foreach t (remove_if malloc P) = Some (True, t') \<and> ht_inv t' \<and> same_functions t t' \<and>
    pairs t' = filter_mset (\<lambda>p. \<not> P (kv_key p) (kv_value p)) (pairs t)"
proof -
  let ?u = "t\<lparr>foreachRecursionLevel := 1\<rparr>"
  have w: "ht_wf t" and l: "\<And>p. p \<in># pairs t \<Longrightarrow> live p" and lv: "foreachRecursionLevel t = 0" and pr: "pendingRemoves t = 0"
    using i by (simp_all add: ht_inv_def)
  have pu: "pairs ?u = pairs t" by (simp add: pairs_def)
  have s: "same_functions t ?u" by (simp add: same_functions_def)
  have wu: "ht_wf ?u" using w by (intro wf_same(1) [OF w s]) (simp_all add: ht_wf_def pairs_def)
  have z: "size (filter_mset markedForRemove (pairs t)) = 0" using l by simp
  have u: "ht_iter ?u" using pr wu by (simp add: ht_iter_def pu z del: size_eq_0_iff_empty)
  have len: "nat (numOfBuckets ?u) = length (bucketArray ?u)" using w by (simp add: ht_wf_def ht_placed_def)
  obtain t1 where t1: "foreach_buckets (remove_if malloc P) 0 (nat (numOfBuckets ?u)) ?u = Some (True, t1)"
    "marked_from ?u (map (map (mark_if P)) (bucketArray t)) t1"
    using foreach_buckets_marks [OF u, of 0 "nat (numOfBuckets ?u)" malloc P] len by auto
  have w1: "ht_iter t1" "bucketArray t1 = map (map (mark_if P)) (bucketArray t)" "foreachRecursionLevel t1 = 1" "same_functions t t1"
    using t1(2) by (auto simp: marked_from_def same_functions_def)
  let ?t2 = "t1\<lparr>foreachRecursionLevel := 0\<rparr>"
  have p2: "pairs ?t2 = image_mset (mark_if P) (pairs t)" "pairs t1 = pairs ?t2" by (simp_all add: pairs_def w1(2) pairs_map)
  have wt: "ht_wf t1" using w1(1) by (simp add: ht_iter_def)
  have w2: "ht_wf ?t2"
    by (rule wf_same(1) [OF wt]) (use wt in \<open>simp_all add: same_functions_def pairs_def ht_wf_def\<close>)
  have s2: "same_functions t ?t2" using w1(4) by (simp add: same_functions_def)
  have pend: "pendingRemoves ?t2 = of_nat (size (filter_mset markedForRemove (pairs ?t2)))" using w1(1) p2(2) by (simp add: ht_iter_def)
  have keep: "filter_mset live (pairs ?t2) = filter_mset (\<lambda>p. \<not> P (kv_key p) (kv_value p)) (pairs t)"
  proof -
    have "filter_mset live (image_mset (mark_if P) M) = filter_mset (\<lambda>p. \<not> P (kv_key p) (kv_value p)) M"
      if "\<And>p. p \<in># M \<Longrightarrow> live p" for M using that by (induction M) (auto simp: mark_if_def)
    then show ?thesis using l p2(1) by simp
  qed
  show ?thesis
  proof (cases "pendingRemoves ?t2 = 0")
    case True
    have "size (pairs ?t2) = size (pairs t)" by (simp add: p2(1))
    also have "\<dots> = nat (numOfElements t)"
    proof -
      have "filter_mset live (pairs t) = pairs t" using l by (simp add: filter_mset_eq_conv)
      then show ?thesis using w by (simp add: ht_wf_def)
    qed
    finally have "size (pairs ?t2) < 2 ^ 32" using n by simp
    then have "size (filter_mset markedForRemove (pairs ?t2)) < 2 ^ 32"
      by (rule order_le_less_trans [OF size_filter_mset_lesseq])
    then have "unat (of_nat (size (filter_mset markedForRemove (pairs ?t2))) :: u32) = size (filter_mset markedForRemove (pairs ?t2))"
      by (intro unat_of_nat_eq) simp
    then have "size (filter_mset markedForRemove (pairs ?t2)) = 0" using True pend by (metis unsigned_0)
    then have none: "\<And>p. p \<in># pairs ?t2 \<Longrightarrow> live p" by (auto simp: filter_mset_eq_conv)
    then have "filter_mset live (pairs ?t2) = pairs ?t2" by (simp add: filter_mset_eq_conv)
    then show ?thesis using True none w2 s2 keep t1(1) lv w1(3) by (simp add: HashTable_Foreach_def ht_inv_def)
  next
    case False
    have "same_functions t (foreach_cleanup ?t2)"
      using s2 fold_cleanup_simps(4) [of ?t2 "bucketArray ?t2"] by (simp add: foreach_cleanup_def Let_def same_functions_def)
    then show ?thesis using False cleanup_ok [OF w2] keep t1(1) lv w1(3) by (simp add: HashTable_Foreach_def)
  qed
qed


section \<open>Properties of iteration\<close>

text \<open>
  C34: Entries may be removed while iterating: a callback that removes the entries with some property
  from the table it is called on makes \<^verbatim>\<open>HashTable_Foreach\<close> visit all entries, return \<open>TRUE\<close> and leave a
  consistent table with exactly the other entries.
\<close>

theorem HashTable_Foreach_removes:
  assumes "ht_inv t" "numOfElements t < 2 ^ 31"
  shows "\<exists>t'. HashTable_Foreach t (remove_if malloc P) = Some (True, t') \<and> ht_inv t' \<and>
    (\<forall>k v. ht_lookup t' k = Some v \<longleftrightarrow>
       (\<exists>p \<in># pairs t. keyCompare t k (kv_key p) \<and> kv_value p = v \<and> \<not> P (kv_key p) v))"
proof -
  obtain t' where t': "HashTable_Foreach t (remove_if malloc P) = Some (True, t')" "ht_inv t'" "same_functions t t'"
    "pairs t' = filter_mset (\<lambda>p. \<not> P (kv_key p) (kv_value p)) (pairs t)"
    using foreach_removes [OF assms] by blast
  have w: "ht_wf t'" and l: "\<And>p. p \<in># pairs t \<Longrightarrow> live p" using assms(1) t'(2) by (simp_all add: ht_inv_def)
  have "keyCompare t' = keyCompare t" using t'(3) by (simp add: same_functions_def)
  then have "\<forall>k v. ht_lookup t' k = Some v \<longleftrightarrow>
       (\<exists>p \<in># pairs t. keyCompare t k (kv_key p) \<and> kv_value p = v \<and> \<not> P (kv_key p) v)"
    unfolding lookup_iff [OF w] t'(4) using l by auto
  then show ?thesis using t'(1,2) by blast
qed

text \<open>A table of two buckets with the keys 16, 32 and 48.\<close>

definition example_pair :: "ptr \<Rightarrow> wKeyValuePair" where
  "example_pair k = \<lparr>kv_key = k, kv_value = k + 1, markedForRemove = False\<rparr>"

definition example_table :: wHashTable where
  "example_table = fresh_table\<lparr>numOfBuckets := 2, numOfElements := 3, bucketArray := [[example_pair 32], [example_pair 16, example_pair 48]]\<rparr>"

lemmas example_table_defs = example_table_def fresh_table_def HashTable_New_def zero_malloc_def example_pair_def

lemma example_buckets:
  "bucket_of HashTable_PointerHash 2 16 = 1" "bucket_of HashTable_PointerHash 2 32 = 0" "bucket_of HashTable_PointerHash 2 48 = 1"
  by (simp_all add: bucket_of_def HashTable_PointerHash_def)

lemma example_table_inv: "ht_inv example_table"
proof -
  have f: "ht_functions_ok example_table" using new_inv(1) [OF fresh_table_new]
    by (simp add: ht_inv_def ht_wf_def ht_functions_ok_def example_table_def)
  have pl: "ht_placed (ht_hash example_table) (numOfBuckets example_table) (bucketArray example_table)"
    using example_buckets by (auto simp: ht_placed_def example_table_defs less_Suc_eq)
  have p: "pairs example_table = {#example_pair 32, example_pair 16, example_pair 48#}" by (simp add: pairs_def example_table_defs)
  have k: "key_class example_table (example_pair n) = {n}" for n by (simp add: key_class_def new_inv(3) [OF fresh_table_new] example_table_def) (simp add: example_pair_def)
  have "ht_wf example_table" using f pl by (simp add: ht_wf_def p k) (auto simp: example_table_defs)
  moreover have "foreachRecursionLevel example_table = 0" "pendingRemoves example_table = 0" by (simp_all add: example_table_defs)
  ultimately show ?thesis by (simp add: ht_inv_def p example_pair_def)
qed

theorem HashTable_Foreach_removes_witness:
  "\<exists>t'. HashTable_Foreach example_table (remove_if zero_malloc (\<lambda>k v. k = 16)) = Some (True, t') \<and> ht_inv t' \<and>
    (\<forall>k v. ht_lookup t' k = Some v \<longleftrightarrow>
       (\<exists>p \<in># pairs example_table. keyCompare example_table k (kv_key p) \<and> kv_value p = v \<and> \<not> kv_key p = 16))"
  by (rule HashTable_Foreach_removes [OF example_table_inv]) (simp add: example_table_def)

section \<open>Faults of iteration\<close>

lemma clear_chain_never:
  assumes "clear_chain t chain = Some r" "foreachRecursionLevel t \<noteq> 0"
  shows "chain = []"
proof -
  have "foreachRecursionLevel t \<noteq> 0 \<longrightarrow> chain = []"
  proof (rule clear_chain.raw_induct [where P = "\<lambda>t chain r. foreachRecursionLevel t \<noteq> 0 \<longrightarrow> chain = []", OF _ assms(1)])
    fix f :: "wHashTable \<Rightarrow> wKeyValuePair list \<Rightarrow> wHashTable option" and t chain r
    assume IH: "\<And>t chain r. f t chain = Some r \<Longrightarrow> foreachRecursionLevel t \<noteq> 0 \<longrightarrow> chain = []"
      and eq: "(case chain of [] \<Rightarrow> Some t
      | pair # rest \<Rightarrow>
          if foreachRecursionLevel t \<noteq> 0
          then f (t\<lparr>pendingRemoves := pendingRemoves t + 1\<rparr>) (pair\<lparr>markedForRemove := True\<rparr> # rest)
          else f (disposePair t pair) rest) = Some r"
    show "foreachRecursionLevel t \<noteq> 0 \<longrightarrow> chain = []" using eq by (cases chain) (auto split: if_splits dest: IH)
  qed
  then show ?thesis using assms(2) by simp
qed

lemma clear_buckets_never:
  assumes "foreachRecursionLevel t \<noteq> 0" "concat arr \<noteq> []"
  shows "clear_buckets t arr = None"
  using assms(2)
proof (induction arr)
  case (Cons c arr)
  show ?case
  proof (cases c)
    case Nil
    then show ?thesis using Cons by (simp add: clear_chain.simps)
  next
    case (Cons p ps)
    then have "clear_chain t c = None" using clear_chain_never [of t c] assms(1) by (cases "clear_chain t c") auto
    then show ?thesis by simp
  qed
qed simp

definition remove_twice :: "allocator \<Rightarrow> ptr \<Rightarrow> foreach_fn" where
  "remove_twice malloc key k v t =
     (if k = key then do { (_, t) \<leftarrow> HashTable_Remove malloc t k; HashTable_Remove malloc t k } else Some (True, t))"

text \<open>
  Three faults of iteration, on a table of two buckets. While an iteration runs, \<^verbatim>\<open>HashTable_Clear\<close> of a table that is not empty
  never returns. A callback that stops the iteration leaves the recursion level raised, so later
  removals only mark their entries. Removing an entry twice from a callback lowers the number of
  elements twice, after which \<^verbatim>\<open>HashTable_GetKeys\<close> writes beyond the array it has allocated.
\<close>

lemma HashTable_foreach_defects:
  "HashTable_Clear malloc (example_table\<lparr>foreachRecursionLevel := 1\<rparr>) = None \<and>
   HashTable_Foreach example_table (\<lambda>k v t. Some (False, t)) = Some (False, example_table\<lparr>foreachRecursionLevel := 1\<rparr>) \<and>
   (\<exists>t'. HashTable_Foreach example_table (remove_twice malloc 16) = Some (True, t') \<and> HashTable_GetKeys zero_malloc t' = None)"
proof (intro conjI)
  show "HashTable_Clear malloc (example_table\<lparr>foreachRecursionLevel := 1\<rparr>) = None"
  proof -
    have "clear_buckets (example_table\<lparr>foreachRecursionLevel := 1\<rparr>) (bucketArray example_table) = None"
      by (rule clear_buckets_never) (simp_all add: example_table_def)
    then show ?thesis by (simp add: HashTable_Clear_def)
  qed
  show "HashTable_Foreach example_table (\<lambda>k v t. Some (False, t)) = Some (False, example_table\<lparr>foreachRecursionLevel := 1\<rparr>)"
    by (simp add: HashTable_Foreach_def example_table_defs numeral_2_eq_2)
  show "\<exists>t'. HashTable_Foreach example_table (remove_twice malloc 16) = Some (True, t') \<and> HashTable_GetKeys zero_malloc t' = None"
    by (simp add: HashTable_Foreach_def example_table_defs numeral_2_eq_2 remove_twice_def HashTable_Remove_def HashTable_Get_def
      example_buckets HashTable_PointerCompare_def Let_def foreach_cleanup_def HashTable_GetKeys_def live_keys_def
      set_chain_def cleanup_chain_def disposePair_def log_event_def mul64_def mem_write_def)
qed

end
