(* ===== verification/List_Dictionary.thy ===== *)
theory List_Dictionary
  imports Keyed_Store
begin

text \<open>
  The list dictionary of WinPR (\<^verbatim>\<open>winpr/libwinpr/utils/collections/ListDictionary.c\<close>): a singly linked list
  of key/value pairs that is searched from its head and extended at its end.

  The list is the sequence of its items in the order of the \<^verbatim>\<open>next\<close> pointers; a null dictionary is \<open>None\<close>.
  The comparison function of the keys is a field of the dictionary and the calls of the free functions
  are logged in \<open>ld_freed\<close>. Locking is not modelled.

  A key may be added more than once. \<open>ld_values\<close> reads a dictionary as a queue of values for each key:
  adding appends to the queue of a key, looking up returns its front and removing takes the front away.
  With at most one value for each key (\<open>ld_inv\<close>) the dictionary is a \<open>keyed_store\<close>.
\<close>

section \<open>State and operations\<close>

record wListDictionaryItem =
  li_key :: ptr
  li_value :: ptr

record wListDictionary =
  ld_items :: "wListDictionaryItem list"
  ld_keyEquals :: "ptr \<Rightarrow> ptr \<Rightarrow> bool"
  ld_valueEquals :: "ptr \<Rightarrow> ptr \<Rightarrow> bool"
  ld_keyFree :: bool
  ld_valueFree :: bool
  ld_freed :: "free_event list"

fun ld_count :: "wListDictionaryItem list \<Rightarrow> int \<Rightarrow> int" where
  "ld_count [] count = count"
| "ld_count (item # items) count = ld_count items (count + 1)"

fun ListDictionary_Count :: "wListDictionary option \<Rightarrow> int" where
  "ListDictionary_Count None = - 1"
| "ListDictionary_Count (Some d) = ld_count (ld_items d) 0"

text \<open>The result and the array of keys; \<open>None\<close> for the array if none is stored.\<close>

fun ListDictionary_GetKeys :: "allocator \<Rightarrow> wListDictionary option \<Rightarrow> bool \<Rightarrow> int \<times> ptr list option" where
  "ListDictionary_GetKeys malloc None ppKeys = (- 1, None)"
| "ListDictionary_GetKeys malloc (Some d) ppKeys =
     (if \<not> ppKeys then (- 1, None)
      else let count = ld_count (ld_items d) 0 in
      if count \<noteq> 0 \<and> malloc (mul64 (nat count) 8) = None then (- 1, None)
      else (count, Some (map li_key (ld_items d))))"

fun ListDictionary_Add :: "allocator \<Rightarrow> wListDictionary option \<Rightarrow> ptr \<Rightarrow> ptr \<Rightarrow> bool \<times> wListDictionary option" where
  "ListDictionary_Add malloc None key value = (False, None)"
| "ListDictionary_Add malloc (Some d) key value =
     (case malloc 24 of None \<Rightarrow> (False, Some d)
      | Some item \<Rightarrow> (True, Some (d\<lparr>ld_items := ld_items d @ [\<lparr>li_key = key, li_value = value\<rparr>]\<rparr>)))"

definition ld_log :: "bool \<Rightarrow> free_event \<Rightarrow> wListDictionary \<Rightarrow> wListDictionary" where
  "ld_log b e d = (if b then d\<lparr>ld_freed := ld_freed d @ [e]\<rparr> else d)"

fun ld_clear_loop :: "wListDictionaryItem list \<Rightarrow> wListDictionary \<Rightarrow> wListDictionary" where
  "ld_clear_loop [] d = d"
| "ld_clear_loop (item # items) d =
     ld_clear_loop items
       (ld_log (ld_valueFree d) (ValueFree (li_value item)) (ld_log (ld_keyFree d) (KeyFree (li_key item)) d))"

fun ListDictionary_Clear :: "wListDictionary option \<Rightarrow> wListDictionary option" where
  "ListDictionary_Clear None = None"
| "ListDictionary_Clear (Some d) = Some ((ld_clear_loop (ld_items d) d)\<lparr>ld_items := []\<rparr>)"

text \<open>The search loop of the functions that look for a key: the first item with that key.\<close>

fun ld_find :: "(ptr \<Rightarrow> ptr \<Rightarrow> bool) \<Rightarrow> ptr \<Rightarrow> wListDictionaryItem list \<Rightarrow> nat option" where
  "ld_find keyEquals key [] = None"
| "ld_find keyEquals key (item # items) =
     (if keyEquals (li_key item) key then Some 0 else map_option Suc (ld_find keyEquals key items))"

fun ListDictionary_Contains :: "wListDictionary option \<Rightarrow> ptr \<Rightarrow> bool" where
  "ListDictionary_Contains None key = False"
| "ListDictionary_Contains (Some d) key = (ld_find (ld_keyEquals d) key (ld_items d) \<noteq> None)"

text \<open>The value of the first item with the key, and the list without that item.\<close>

fun ld_remove_loop :: "(ptr \<Rightarrow> ptr \<Rightarrow> bool) \<Rightarrow> ptr \<Rightarrow> wListDictionaryItem list \<Rightarrow> ptr \<times> wListDictionaryItem list" where
  "ld_remove_loop keyEquals key [] = (0, [])"
| "ld_remove_loop keyEquals key (item # items) =
     (if keyEquals (li_key item) key then (li_value item, items)
      else let (value, items) = ld_remove_loop keyEquals key items in (value, item # items))"

fun ListDictionary_Remove :: "wListDictionary option \<Rightarrow> ptr \<Rightarrow> ptr \<times> wListDictionary option" where
  "ListDictionary_Remove None key = (0, None)"
| "ListDictionary_Remove (Some d) key =
     (let (value, items) = ld_remove_loop (ld_keyEquals d) key (ld_items d) in (value, Some (d\<lparr>ld_items := items\<rparr>)))"

fun ListDictionary_Remove_Head :: "wListDictionary option \<Rightarrow> ptr \<times> wListDictionary option" where
  "ListDictionary_Remove_Head None = (0, None)"
| "ListDictionary_Remove_Head (Some d) =
     (case ld_items d of [] \<Rightarrow> (0, Some d) | item # items \<Rightarrow> (li_value item, Some (d\<lparr>ld_items := items\<rparr>)))"

fun ListDictionary_GetItemValue :: "wListDictionary option \<Rightarrow> ptr \<Rightarrow> ptr" where
  "ListDictionary_GetItemValue None key = 0"
| "ListDictionary_GetItemValue (Some d) key =
     (case ld_find (ld_keyEquals d) key (ld_items d) of None \<Rightarrow> 0 | Some i \<Rightarrow> li_value (ld_items d ! i))"

fun ListDictionary_SetItemValue :: "wListDictionary option \<Rightarrow> ptr \<Rightarrow> ptr \<Rightarrow> bool \<times> wListDictionary option" where
  "ListDictionary_SetItemValue None key value = (False, None)"
| "ListDictionary_SetItemValue (Some d) key value =
     (case ld_find (ld_keyEquals d) key (ld_items d) of None \<Rightarrow> (False, Some d)
      | Some i \<Rightarrow>
          let d' = ld_log (ld_valueFree d) (ValueFree (li_value (ld_items d ! i))) d in
          (True, Some (d'\<lparr>ld_items := (ld_items d)[i := (ld_items d ! i)\<lparr>li_value := value\<rparr>]\<rparr>)))"

definition default_equal_function :: "ptr \<Rightarrow> ptr \<Rightarrow> bool" where
  "default_equal_function obj1 obj2 = (obj1 = obj2)"

text \<open>\<open>lock_ok\<close> says whether the critical section could be initialised; a null result is \<open>None\<close>.\<close>

definition ListDictionary_New :: "allocator \<Rightarrow> bool \<Rightarrow> wListDictionary option" where
  "ListDictionary_New malloc lock_ok =
     (case malloc 136 of None \<Rightarrow> None
      | Some listDictionary \<Rightarrow>
          if \<not> lock_ok then None
          else Some \<lparr>ld_items = [], ld_keyEquals = default_equal_function, ld_valueEquals = default_equal_function,
            ld_keyFree = False, ld_valueFree = False, ld_freed = []\<rparr>)"

fun ListDictionary_Free :: "wListDictionary option \<Rightarrow> free_event list" where
  "ListDictionary_Free None = []"
| "ListDictionary_Free (Some d) = ld_freed (ld_clear_loop (ld_items d) d)"

section \<open>Dictionaries as queues of values\<close>

definition ld_queue :: "(ptr \<Rightarrow> ptr \<Rightarrow> bool) \<Rightarrow> wListDictionaryItem list \<Rightarrow> ptr \<Rightarrow> ptr list" where
  "ld_queue eq items key = map li_value (filter (\<lambda>item. eq (li_key item) key) items)"

fun ld_values :: "wListDictionary option \<Rightarrow> ptr \<Rightarrow> ptr list" where
  "ld_values None = (\<lambda>key. [])"
| "ld_values (Some d) = ld_queue (ld_keyEquals d) (ld_items d)"

definition front :: "ptr list \<Rightarrow> ptr" where
  "front vs = (case vs of [] \<Rightarrow> 0 | v # _ \<Rightarrow> v)"

lemma ld_queue_simps [simp]:
  "ld_queue eq [] key = []"
  "ld_queue eq (item # items) key = (if eq (li_key item) key then [li_value item] else []) @ ld_queue eq items key"
  "ld_queue eq (items @ items') key = ld_queue eq items key @ ld_queue eq items' key"
  by (simp_all add: ld_queue_def)

lemma front_simps [simp]: "front [] = 0" "front (v # vs) = v"
  by (simp_all add: front_def)

lemma ld_count_length: "ld_count items c = c + int (length items)"
  by (induction items arbitrary: c) simp_all

lemma ld_find_None: "ld_find eq key items = None \<longleftrightarrow> ld_queue eq items key = []"
  by (induction items) auto

lemma ld_find_Some:
  "ld_find eq key items = Some i \<Longrightarrow>
    i < length items \<and> eq (li_key (items ! i)) key \<and> ld_queue eq items key = li_value (items ! i) # ld_queue eq (drop (Suc i) items) key"
  by (induction items arbitrary: i) (auto split: if_splits)

lemma equiv_cong: "equivp eq \<Longrightarrow> eq x k \<Longrightarrow> eq x k' = eq k k'"
  by (metis equivp_symp equivp_transp)

lemma ld_remove_loop_value: "fst (ld_remove_loop eq key items) = front (ld_queue eq items key)"
  by (induction items) (auto split: prod.splits)

lemma ld_remove_loop_queue:
  "equivp eq \<Longrightarrow> ld_queue eq (snd (ld_remove_loop eq key items)) key' =
    (if eq key key' then tl (ld_queue eq items key') else ld_queue eq items key')"
proof (induction items)
  case (Cons item items)
  have "eq (li_key item) key' = eq key key'" if "eq (li_key item) key" using that Cons.prems by (rule equiv_cong [rotated])
  moreover have "eq (li_key item) key = eq (li_key item) key'" if "eq key key'"
    using that Cons.prems by (metis equivp_symp equivp_transp)
  ultimately show ?case using Cons by (auto split: prod.splits)
qed simp

lemma ld_update_queue:
  "equivp eq \<Longrightarrow> ld_find eq key items = Some i \<Longrightarrow>
    ld_queue eq (items[i := (items ! i)\<lparr>li_value := v\<rparr>]) key' =
    (if eq key key' then v # tl (ld_queue eq items key') else ld_queue eq items key')"
proof (induction items arbitrary: i)
  case (Cons item items)
  have "eq (li_key item) key' = eq key key'" if "eq (li_key item) key" using that Cons.prems(1) by (rule equiv_cong [rotated])
  moreover have "eq (li_key item) key = eq (li_key item) key'" if "eq key key'"
    using that Cons.prems by (metis equivp_symp equivp_transp)
  ultimately show ?case using Cons by (auto split: if_splits)
qed simp

section \<open>Operations on the queues\<close>

text \<open>The functions that clients call, each with its result.\<close>

datatype ld_op = Add ptr ptr | Remove ptr | SetItemValue ptr ptr | GetItemValue ptr | Contains ptr

datatype ld_result = Status bool | Value ptr

fun ld_step :: "allocator \<Rightarrow> ld_op \<Rightarrow> wListDictionary option \<Rightarrow> ld_result \<times> wListDictionary option" where
  "ld_step malloc (Add k v) d = map_prod Status id (ListDictionary_Add malloc d k v)"
| "ld_step malloc (Remove k) d = map_prod Value id (ListDictionary_Remove d k)"
| "ld_step malloc (SetItemValue k v) d = map_prod Status id (ListDictionary_SetItemValue d k v)"
| "ld_step malloc (GetItemValue k) d = (Value (ListDictionary_GetItemValue d k), d)"
| "ld_step malloc (Contains k) d = (Status (ListDictionary_Contains d k), d)"

fun run_steps :: "('op \<Rightarrow> 's \<Rightarrow> 'r \<times> 's) \<Rightarrow> 'op list \<Rightarrow> 's \<Rightarrow> 'r list \<times> 's" where
  "run_steps step [] s = ([], s)"
| "run_steps step (op # ops) s = (let (r, s) = step op s; (rs, s) = run_steps step ops s in (r # rs, s))"

text \<open>
  What they promise: each key has a queue of values, shared by the keys equal to it; \<open>space\<close> says whether
  an item can be allocated.
\<close>

fun queue_step :: "bool \<Rightarrow> (ptr \<Rightarrow> ptr \<Rightarrow> bool) \<Rightarrow> ld_op \<Rightarrow> (ptr \<Rightarrow> ptr list) \<Rightarrow> ld_result \<times> (ptr \<Rightarrow> ptr list)" where
  "queue_step space eq (Add k v) q = (Status space, if space then (\<lambda>k'. if eq k k' then q k' @ [v] else q k') else q)"
| "queue_step space eq (Remove k) q = (Value (front (q k)), \<lambda>k'. if eq k k' then tl (q k') else q k')"
| "queue_step space eq (SetItemValue k v) q =
     (Status (q k \<noteq> []), if q k = [] then q else (\<lambda>k'. if eq k k' then v # tl (q k') else q k'))"
| "queue_step space eq (GetItemValue k) q = (Value (front (q k)), q)"
| "queue_step space eq (Contains k) q = (Status (q k \<noteq> []), q)"

lemma ld_step_refines:
  assumes "equivp (ld_keyEquals d)"
  shows "\<exists>d'. snd (ld_step malloc op (Some d)) = Some d' \<and> ld_keyEquals d' = ld_keyEquals d \<and>
    queue_step (malloc 24 \<noteq> None) (ld_keyEquals d) op (ld_values (Some d)) =
      (fst (ld_step malloc op (Some d)), ld_values (Some d'))"
proof (cases op)
  case (Add k v)
  then show ?thesis by (cases "malloc 24") (auto simp: fun_eq_iff)
next
  case (Remove k)
  then show ?thesis
    using ld_remove_loop_value [of "ld_keyEquals d" k "ld_items d"] ld_remove_loop_queue [OF assms, of k "ld_items d"]
    by (auto simp: fun_eq_iff split: prod.splits)
next
  case (SetItemValue k v)
  show ?thesis
  proof (cases "ld_find (ld_keyEquals d) k (ld_items d)")
    case None
    then show ?thesis using SetItemValue ld_find_None [THEN iffD1, OF None] by simp
  next
    case (Some i)
    then show ?thesis using SetItemValue ld_find_Some [OF Some] ld_update_queue [OF assms Some]
      by (auto simp: fun_eq_iff ld_log_def Let_def)
  qed
next
  case (GetItemValue k)
  then show ?thesis by (auto simp: ld_find_None split: option.splits dest: ld_find_Some)
next
  case (Contains k)
  then show ?thesis by (simp add: ld_find_None)
qed

lemma ld_run_refines:
  "equivp (ld_keyEquals d) \<Longrightarrow>
    \<exists>d'. snd (run_steps (ld_step malloc) ops (Some d)) = Some d' \<and>
      run_steps (queue_step (malloc 24 \<noteq> None) (ld_keyEquals d)) ops (ld_values (Some d)) =
        (fst (run_steps (ld_step malloc) ops (Some d)), ld_values (Some d'))"
proof (induction ops arbitrary: d)
  case (Cons op ops)
  obtain d1 where d1: "snd (ld_step malloc op (Some d)) = Some d1" "ld_keyEquals d1 = ld_keyEquals d"
    "queue_step (malloc 24 \<noteq> None) (ld_keyEquals d) op (ld_values (Some d)) = (fst (ld_step malloc op (Some d)), ld_values (Some d1))"
    using ld_step_refines [OF Cons.prems] by blast
  obtain d' where d': "snd (run_steps (ld_step malloc) ops (Some d1)) = Some d'"
    "run_steps (queue_step (malloc 24 \<noteq> None) (ld_keyEquals d)) ops (ld_values (Some d1)) =
      (fst (run_steps (ld_step malloc) ops (Some d1)), ld_values (Some d'))"
    using Cons.IH [of d1] Cons.prems d1(2) by auto
  show ?case using d1(1,3) d' by (cases "ld_step malloc op (Some d)") (auto simp: Let_def split: prod.splits)
qed simp

section \<open>Dictionaries with distinct keys\<close>

fun ld_inv :: "wListDictionary option \<Rightarrow> bool" where
  "ld_inv None = False"
| "ld_inv (Some d) = (equivp (ld_keyEquals d) \<and> (\<forall>k. length (ld_values (Some d) k) \<le> 1))"

definition ld_lookup :: "wListDictionary option \<Rightarrow> ptr \<Rightarrow> ptr option" where
  "ld_lookup d k = (case ld_values d k of [] \<Rightarrow> None | v # _ \<Rightarrow> Some v)"

fun ld_same :: "wListDictionary option \<Rightarrow> ptr \<Rightarrow> ptr \<Rightarrow> bool" where
  "ld_same None = (=)"
| "ld_same (Some d) = ld_keyEquals d"

fun ld_size :: "wListDictionary option \<Rightarrow> nat" where
  "ld_size None = 0"
| "ld_size (Some d) = length (ld_items d)"

lemma ld_values_same: "equivp (ld_keyEquals d) \<Longrightarrow> ld_keyEquals d k k' \<Longrightarrow> ld_values (Some d) k = ld_values (Some d) k'"
  by (simp add: ld_queue_def) (metis equivp_symp equivp_transp)

lemma ld_add_law:
  assumes "ld_inv t" "ld_lookup t k = None"
  shows "run_ok (Some (ListDictionary_Add malloc t k v)) (\<lambda>ok t'. ld_inv t' \<and> ld_same t' = ld_same t \<and> ld_size t' \<le> ld_size t + 1 \<and>
    ld_lookup t' = map_op (ld_same t) (\<lambda>v. v) (Insert k v, ok) (ld_lookup t))"
proof -
  obtain d where t: "t = Some d" using assms(1) by (cases t) auto
  have eq: "equivp (ld_keyEquals d)" using assms(1) t by simp
  have e: "ld_queue (ld_keyEquals d) (ld_items d) k' = []" if "ld_keyEquals d k k'" for k'
    using assms(2) t ld_values_same [OF eq that] by (simp add: ld_lookup_def split: list.splits)
  show ?thesis using assms(1) e unfolding t by (cases "malloc 24") (auto simp: ld_lookup_def fun_eq_iff)
qed

lemma ld_remove_law:
  assumes "ld_inv t"
  shows "run_ok (Some (ListDictionary_Remove t k)) (\<lambda>_ t'. ld_inv t' \<and> ld_same t' = ld_same t \<and> ld_size t' \<le> ld_size t \<and>
    ld_lookup t' = map_op (ld_same t) (\<lambda>v. v) (Delete k, True) (ld_lookup t))"
proof -
  obtain d where t: "t = Some d" using assms by (cases t) auto
  let ?l = "ld_remove_loop (ld_keyEquals d) k (ld_items d)"
  have q: "ld_queue (ld_keyEquals d) (snd ?l) k' = (if ld_keyEquals d k k' then [] else ld_queue (ld_keyEquals d) (ld_items d) k')" for k'
  proof -
    have "length (ld_queue (ld_keyEquals d) (ld_items d) k') \<le> 1" using assms t by simp
    then have "tl (ld_queue (ld_keyEquals d) (ld_items d) k') = []" by (cases "ld_queue (ld_keyEquals d) (ld_items d) k'") auto
    then show ?thesis using ld_remove_loop_queue [of "ld_keyEquals d" k "ld_items d" k'] assms t by simp
  qed
  have n: "length (snd (ld_remove_loop eq k items)) \<le> length items" for eq items by (induction items) (auto split: prod.splits)
  show ?thesis using assms q n [of "ld_keyEquals d" "ld_items d"] unfolding t
    by (auto simp: ld_lookup_def fun_eq_iff split: prod.splits)
qed

interpretation ld: keyed_store ld_inv ld_same "\<lambda>_ v. v" ld_size ld_lookup
  "\<lambda>d k v. Some (ListDictionary_Add malloc d k v)" "\<lambda>d k. Some (ListDictionary_Remove d k)" for malloc
proof unfold_locales
  fix t k v assume t: "ld_inv t" "ld_lookup t k = None"
  show "run_ok (Some (ListDictionary_Add malloc t k v)) (\<lambda>ok t'. ld_inv t' \<and> ld_same t' = ld_same t \<and> (\<lambda>v. v) = (\<lambda>v. v) \<and>
      ld_size t' \<le> ld_size t + 1 \<and> ld_lookup t' = map_op (ld_same t) (\<lambda>v. v) (Insert k v, ok) (ld_lookup t))"
    by (rule run_ok_mono [OF ld_add_law [OF t]]) auto
next
  fix t k assume t: "ld_inv t"
  show "run_ok (Some (ListDictionary_Remove t k)) (\<lambda>_ t'. ld_inv t' \<and> ld_same t' = ld_same t \<and> (\<lambda>v. v) = (\<lambda>v. v) \<and>
      ld_size t' \<le> ld_size t \<and> ld_lookup t' = map_op (ld_same t) (\<lambda>v. v) (Delete k, True) (ld_lookup t))"
    by (rule run_ok_mono [OF ld_remove_law [OF t]]) auto
next
  fix t k k' assume "ld_inv t" "ld_same t k k'"
  then show "ld_lookup t k = ld_lookup t k'" by (cases t) (simp_all add: ld_lookup_def ld_values_same del: ld_values.simps)
qed

section \<open>Properties\<close>

text \<open>
  C35: A list dictionary implements queues of values: for every sequence of additions, removals, assignments,
  look-ups and membership tests, the results and the final contents are those of one queue per key, which
  adding extends at its end, removing shortens at its front and assigning changes at its front. In
  particular adding a key again does not replace its value.
\<close>

theorem ListDictionary_refines_queues:
  assumes "equivp (ld_keyEquals d)"
  shows "\<exists>d'. snd (run_steps (ld_step malloc) ops (Some d)) = Some d' \<and>
    run_steps (queue_step (malloc 24 \<noteq> None) (ld_keyEquals d)) ops (ld_values (Some d)) =
      (fst (run_steps (ld_step malloc) ops (Some d)), ld_values (Some d'))"
  using assms by (rule ld_run_refines)

definition example_dictionary :: wListDictionary where
  "example_dictionary = \<lparr>ld_items = [\<lparr>li_key = 16, li_value = 1\<rparr>, \<lparr>li_key = 32, li_value = 2\<rparr>],
     ld_keyEquals = default_equal_function, ld_valueEquals = default_equal_function, ld_keyFree = False, ld_valueFree = True, ld_freed = []\<rparr>"

lemma example_dictionary_equals: "ld_keyEquals example_dictionary = (=)"
  by (simp add: example_dictionary_def default_equal_function_def fun_eq_iff)

theorem ListDictionary_refines_queues_witness:
  "\<exists>d'. snd (run_steps (ld_step zero_malloc) [Add 16 7, Remove 16, GetItemValue 16] (Some example_dictionary)) = Some d' \<and>
    run_steps (queue_step True (=)) [Add 16 7, Remove 16, GetItemValue 16] (ld_values (Some example_dictionary)) =
      ([Status True, Value 1, Value 7], ld_values (Some d'))"
proof -
  have "fst (run_steps (ld_step zero_malloc) [Add 16 7, Remove 16, GetItemValue 16] (Some example_dictionary)) = [Status True, Value 1, Value 7]"
    by (simp add: example_dictionary_def default_equal_function_def zero_malloc_def)
  then show ?thesis
    using ListDictionary_refines_queues [of example_dictionary zero_malloc "[Add 16 7, Remove 16, GetItemValue 16]"]
    by (simp only: example_dictionary_equals identity_equivp zero_malloc_def option.distinct not_False_eq_True simp_thms)
qed

text \<open>
  Adding a key that a dictionary with distinct keys does not have and removing it again leaves every
  look-up as it was and the keys distinct, whether or not an item could be allocated.
\<close>

lemma ListDictionary_add_remove:
  assumes "ld_inv d" "ld_size d + 1 < 2 ^ 31" "ld_lookup d k = None"
  shows "run_ok (Some (ListDictionary_Add malloc d k v)) (\<lambda>_ d'.
    run_ok (Some (ListDictionary_Remove d' k)) (\<lambda>_ d''. ld_inv d'' \<and> ld_lookup d'' = ld_lookup d))"
  by (rule ld.insert_delete [OF assms])

lemma example_dictionary_inv: "ld_inv (Some example_dictionary)"
  by (simp add: example_dictionary_equals identity_equivp) (simp add: example_dictionary_def default_equal_function_def)

end
