(* ===== verification/Nego.thy ===== *)
theory Nego
  imports Tpkt
begin

text \<open>
  Negotiation of the security protocol (\<^verbatim>\<open>libfreerdp/core/nego.c\<close>): the state machine with which a client
  tries its security protocols from the strongest to the weakest, the X.224 connection request with
  cookie or routing token, and the answer of the server, with \<^verbatim>\<open>rdp_server_accept_nego\<close> of
  \<^verbatim>\<open>connection.c\<close>, which chooses the protocol.

  The transport is an argument: a record of the functions of \<^verbatim>\<open>transport.c\<close> that the code calls, on a state
  \<open>'w\<close> of the network, so that every behaviour of the peer is covered. The settings are those fields of
  \<^verbatim>\<open>rdpSettings\<close> that the code reads or writes. The conversion of the preconnection string to UTF-16
  is an argument as well. Strings are lists of bytes without their terminator.
\<close>

section \<open>State\<close>

datatype NEGO_STATE = NEGO_STATE_INITIAL | NEGO_STATE_EXT | NEGO_STATE_NLA | NEGO_STATE_TLS | NEGO_STATE_RDP
  | NEGO_STATE_FAIL | NEGO_STATE_FINAL

definition PROTOCOL_RDP :: u32 where "PROTOCOL_RDP = 0"
definition PROTOCOL_SSL :: u32 where "PROTOCOL_SSL = 1"
definition PROTOCOL_HYBRID :: u32 where "PROTOCOL_HYBRID = 2"
definition PROTOCOL_HYBRID_EX :: u32 where "PROTOCOL_HYBRID_EX = 8"
definition PROTOCOL_FAILED_NEGO :: u32 where "PROTOCOL_FAILED_NEGO = 0x80000000"

definition SSL_REQUIRED_BY_SERVER :: u32 where "SSL_REQUIRED_BY_SERVER = 1"
definition SSL_NOT_ALLOWED_BY_SERVER :: u32 where "SSL_NOT_ALLOWED_BY_SERVER = 2"
definition SSL_CERT_NOT_ON_SERVER :: u32 where "SSL_CERT_NOT_ON_SERVER = 3"
definition HYBRID_REQUIRED_BY_SERVER :: u32 where "HYBRID_REQUIRED_BY_SERVER = 5"

definition TYPE_RDP_NEG_REQ :: byte where "TYPE_RDP_NEG_REQ = 1"
definition TYPE_RDP_NEG_RSP :: byte where "TYPE_RDP_NEG_RSP = 2"
definition TYPE_RDP_NEG_FAILURE :: byte where "TYPE_RDP_NEG_FAILURE = 3"

lemmas protocol_defs = PROTOCOL_RDP_def PROTOCOL_SSL_def PROTOCOL_HYBRID_def PROTOCOL_HYBRID_EX_def
  PROTOCOL_FAILED_NEGO_def

lemmas failure_defs = SSL_REQUIRED_BY_SERVER_def SSL_NOT_ALLOWED_BY_SERVER_def SSL_CERT_NOT_ON_SERVER_def
  HYBRID_REQUIRED_BY_SERVER_def

lemmas neg_type_defs = TYPE_RDP_NEG_REQ_def TYPE_RDP_NEG_RSP_def TYPE_RDP_NEG_FAILURE_def

record rdpNego =
  n_port :: u16
  n_flags :: u32
  n_hostname :: "byte list"
  n_cookie :: "byte list option"
  RoutingToken :: "byte list option"
  RoutingTokenLength :: u32
  SendPreconnectionPdu :: bool
  PreconnectionId :: u32
  PreconnectionBlob :: "byte list option"
  n_state :: NEGO_STATE
  TcpConnected :: bool
  SecurityConnected :: bool
  CookieMaxLength :: u32
  sendNegoData :: bool
  SelectedProtocol :: u32
  RequestedProtocols :: u32
  NegotiateSecurityLayer :: bool
  EnabledProtocols :: "bool list"
  RestrictedAdminModeRequired :: bool
  GatewayEnabled :: bool
  GatewayBypassLocal :: bool

record nego_settings =
  set_RequestedProtocols :: u32
  set_SelectedProtocol :: u32
  set_NegotiationFlags :: u32
  set_UseRdpSecurityLayer :: bool
  set_EncryptionMethods :: u32
  set_EncryptionLevel :: u32
  set_TlsSecurity :: bool
  set_NlaSecurity :: bool
  set_RdpSecurity :: bool
  set_SupportGraphicsPipeline :: bool
  set_LocalConnection :: bool
  set_RdpServerRsaKey :: bool
  set_RdpKeyFile :: bool
  set_RdpKeyContent :: bool

text \<open>The functions of the transport; the time limit of a connection is in seconds.\<close>

record 'w transport_ops =
  op_set_gateway_enabled :: "bool \<Rightarrow> 'w \<Rightarrow> 'w"
  op_connect :: "byte list \<Rightarrow> u16 \<Rightarrow> nat \<Rightarrow> 'w \<Rightarrow> bool \<times> 'w"
  op_disconnect :: "'w \<Rightarrow> 'w"
  op_connect_nla :: "'w \<Rightarrow> bool \<times> 'w"
  op_connect_tls :: "'w \<Rightarrow> bool \<times> 'w"
  op_connect_rdp :: "'w \<Rightarrow> bool \<times> 'w"
  op_accept_nla :: "'w \<Rightarrow> bool \<times> 'w"
  op_accept_tls :: "'w \<Rightarrow> bool \<times> 'w"
  op_accept_rdp :: "'w \<Rightarrow> bool \<times> 'w"
  op_set_blocking_mode :: "bool \<Rightarrow> 'w \<Rightarrow> 'w"
  op_write :: "wStream \<Rightarrow> 'w \<Rightarrow> int \<times> 'w"
  op_read_pdu :: "wStream \<Rightarrow> 'w \<Rightarrow> int \<times> wStream \<times> 'w"

definition enabled :: "rdpNego \<Rightarrow> u32 \<Rightarrow> bool" where
  "enabled nego p = EnabledProtocols nego ! unat p"

definition enable :: "u32 \<Rightarrow> bool \<Rightarrow> rdpNego \<Rightarrow> rdpNego" where
  "enable p b nego = nego\<lparr>EnabledProtocols := (EnabledProtocols nego)[unat p := b]\<rparr>"

section \<open>Construction and setters\<close>

definition nego_init :: "rdpNego \<Rightarrow> rdpNego" where
  "nego_init nego = nego\<lparr>n_state := NEGO_STATE_INITIAL, RequestedProtocols := PROTOCOL_RDP, CookieMaxLength := 0xFF,
     sendNegoData := False, n_flags := 0\<rparr>"

text \<open>The memory of a new structure is zero.\<close>

definition zero_nego :: rdpNego where
  "zero_nego = \<lparr>n_port = 0, n_flags = 0, n_hostname = [], n_cookie = None, RoutingToken = None, RoutingTokenLength = 0,
     SendPreconnectionPdu = False, PreconnectionId = 0, PreconnectionBlob = None, n_state = NEGO_STATE_INITIAL,
     TcpConnected = False, SecurityConnected = False, CookieMaxLength = 0, sendNegoData = False, SelectedProtocol = 0,
     RequestedProtocols = 0, NegotiateSecurityLayer = False, EnabledProtocols = replicate 16 False,
     RestrictedAdminModeRequired = False, GatewayEnabled = False, GatewayBypassLocal = False\<rparr>"

definition nego_new :: "allocator \<Rightarrow> rdpNego option" where
  "nego_new malloc = (case malloc 176 of None \<Rightarrow> None | Some nego \<Rightarrow> Some (nego_init zero_nego))"

definition nego_set_target :: "rdpNego \<Rightarrow> byte list \<Rightarrow> u16 \<Rightarrow> rdpNego" where
  "nego_set_target nego hostname port = nego\<lparr>n_hostname := hostname, n_port := port\<rparr>"

definition nego_set_negotiation_enabled :: "rdpNego \<Rightarrow> bool \<Rightarrow> rdpNego" where
  "nego_set_negotiation_enabled nego b = nego\<lparr>NegotiateSecurityLayer := b\<rparr>"

definition nego_set_restricted_admin_mode_required :: "rdpNego \<Rightarrow> bool \<Rightarrow> rdpNego" where
  "nego_set_restricted_admin_mode_required nego b = nego\<lparr>RestrictedAdminModeRequired := b\<rparr>"

definition nego_set_gateway_enabled :: "rdpNego \<Rightarrow> bool \<Rightarrow> rdpNego" where
  "nego_set_gateway_enabled nego b = nego\<lparr>GatewayEnabled := b\<rparr>"

definition nego_set_gateway_bypass_local :: "rdpNego \<Rightarrow> bool \<Rightarrow> rdpNego" where
  "nego_set_gateway_bypass_local nego b = nego\<lparr>GatewayBypassLocal := b\<rparr>"

definition nego_enable_rdp :: "rdpNego \<Rightarrow> bool \<Rightarrow> rdpNego" where
  "nego_enable_rdp nego b = enable PROTOCOL_RDP b nego"

definition nego_enable_tls :: "rdpNego \<Rightarrow> bool \<Rightarrow> rdpNego" where
  "nego_enable_tls nego b = enable PROTOCOL_SSL b nego"

definition nego_enable_nla :: "rdpNego \<Rightarrow> bool \<Rightarrow> rdpNego" where
  "nego_enable_nla nego b = enable PROTOCOL_HYBRID b nego"

definition nego_enable_ext :: "rdpNego \<Rightarrow> bool \<Rightarrow> rdpNego" where
  "nego_enable_ext nego b = enable PROTOCOL_HYBRID_EX b nego"

definition nego_set_routing_token :: "allocator \<Rightarrow> rdpNego \<Rightarrow> byte list \<Rightarrow> u32 \<Rightarrow> (bool \<times> rdpNego) option" where
  "nego_set_routing_token malloc nego token len =
     (if len = 0 then Some (False, nego)
      else let nego = nego\<lparr>RoutingTokenLength := len, RoutingToken := None\<rparr> in
      (case malloc (unat len) of None \<Rightarrow> Some (False, nego)
       | Some block \<Rightarrow> do {
           bytes \<leftarrow> mem_read token 0 (unat len);
           block \<leftarrow> mem_write block 0 bytes;
           Some (True, nego\<lparr>RoutingToken := Some block\<rparr>) }))"

definition nego_set_cookie :: "allocator \<Rightarrow> rdpNego \<Rightarrow> byte list option \<Rightarrow> bool \<times> rdpNego" where
  "nego_set_cookie malloc nego cookie =
     (let nego = nego\<lparr>n_cookie := None\<rparr> in
      (case cookie of None \<Rightarrow> (True, nego)
       | Some str \<Rightarrow>
           (case malloc (length str + 1) of None \<Rightarrow> (False, nego)
            | Some block \<Rightarrow> (True, nego\<lparr>n_cookie := Some str\<rparr>))))"

definition nego_set_cookie_max_length :: "rdpNego \<Rightarrow> u32 \<Rightarrow> rdpNego" where
  "nego_set_cookie_max_length nego n = nego\<lparr>CookieMaxLength := n\<rparr>"

definition nego_set_send_preconnection_pdu :: "rdpNego \<Rightarrow> bool \<Rightarrow> rdpNego" where
  "nego_set_send_preconnection_pdu nego b = nego\<lparr>SendPreconnectionPdu := b\<rparr>"

definition nego_set_preconnection_id :: "rdpNego \<Rightarrow> u32 \<Rightarrow> rdpNego" where
  "nego_set_preconnection_id nego n = nego\<lparr>PreconnectionId := n\<rparr>"

definition nego_set_preconnection_blob :: "rdpNego \<Rightarrow> byte list option \<Rightarrow> rdpNego" where
  "nego_set_preconnection_blob nego blob = nego\<lparr>PreconnectionBlob := blob\<rparr>"

definition nego_get_selected_protocol :: "rdpNego \<Rightarrow> u32" where
  "nego_get_selected_protocol nego = SelectedProtocol nego"

definition nego_set_selected_protocol :: "rdpNego \<Rightarrow> u32 \<Rightarrow> rdpNego" where
  "nego_set_selected_protocol nego p = nego\<lparr>SelectedProtocol := p\<rparr>"

definition nego_get_requested_protocols :: "rdpNego \<Rightarrow> u32" where
  "nego_get_requested_protocols nego = RequestedProtocols nego"

definition nego_set_requested_protocols :: "rdpNego \<Rightarrow> u32 \<Rightarrow> rdpNego" where
  "nego_set_requested_protocols nego p = nego\<lparr>RequestedProtocols := p\<rparr>"

definition nego_get_state :: "rdpNego \<Rightarrow> NEGO_STATE" where
  "nego_get_state nego = n_state nego"

definition nego_set_state :: "rdpNego \<Rightarrow> NEGO_STATE \<Rightarrow> rdpNego" where
  "nego_set_state nego st = nego\<lparr>n_state := st\<rparr>"

definition nego_get_routing_token :: "rdpNego \<Rightarrow> byte list option \<times> u32" where
  "nego_get_routing_token nego = (RoutingToken nego, RoutingTokenLength nego)"

section \<open>Connections\<close>

definition nego_security_connect :: "'w transport_ops \<Rightarrow> rdpNego \<Rightarrow> 'w \<Rightarrow> bool \<times> rdpNego \<times> 'w" where
  "nego_security_connect ops nego w =
     (let (nego, w) =
        (if \<not> TcpConnected nego then (nego\<lparr>SecurityConnected := False\<rparr>, w)
         else if \<not> SecurityConnected nego then
           (if SelectedProtocol nego = PROTOCOL_HYBRID then let (b, w) = op_connect_nla ops w in (nego\<lparr>SecurityConnected := b\<rparr>, w)
            else if SelectedProtocol nego = PROTOCOL_SSL then let (b, w) = op_connect_tls ops w in (nego\<lparr>SecurityConnected := b\<rparr>, w)
            else if SelectedProtocol nego = PROTOCOL_RDP then let (b, w) = op_connect_rdp ops w in (nego\<lparr>SecurityConnected := b\<rparr>, w)
            else (nego, w))
         else (nego, w))
      in (SecurityConnected nego, nego, w))"

definition nego_tcp_connect :: "'w transport_ops \<Rightarrow> rdpNego \<Rightarrow> 'w \<Rightarrow> bool \<times> rdpNego \<times> 'w" where
  "nego_tcp_connect ops nego w =
     (let (nego, w) =
        (if TcpConnected nego then (nego, w)
         else if GatewayEnabled nego then
           let (nego, w) =
             (if GatewayBypassLocal nego
              then let (b, w) = op_connect ops (n_hostname nego) (n_port nego) 1 (op_set_gateway_enabled ops False w)
                   in (nego\<lparr>TcpConnected := b\<rparr>, w)
              else (nego, w))
           in (if \<not> TcpConnected nego
               then let (b, w) = op_connect ops (n_hostname nego) (n_port nego) 15 (op_set_gateway_enabled ops True w)
                    in (nego\<lparr>TcpConnected := b\<rparr>, w)
               else (nego, w))
         else let (b, w) = op_connect ops (n_hostname nego) (n_port nego) 15 w in (nego\<lparr>TcpConnected := b\<rparr>, w))
      in (TcpConnected nego, nego, w))"

definition nego_transport_connect :: "'w transport_ops \<Rightarrow> rdpNego \<Rightarrow> 'w \<Rightarrow> bool \<times> rdpNego \<times> 'w" where
  "nego_transport_connect ops nego w =
     (let (ok, nego, w) = nego_tcp_connect ops nego w in
      if \<not> ok then (False, nego, w)
      else if TcpConnected nego \<and> \<not> NegotiateSecurityLayer nego then nego_security_connect ops nego w
      else (TcpConnected nego, nego, w))"

definition nego_transport_disconnect :: "'w transport_ops \<Rightarrow> rdpNego \<Rightarrow> 'w \<Rightarrow> bool \<times> rdpNego \<times> 'w" where
  "nego_transport_disconnect ops nego w =
     (let w = (if TcpConnected nego then op_disconnect ops w else w)
      in (True, nego\<lparr>TcpConnected := False, SecurityConnected := False\<rparr>, w))"

definition nego_disconnect :: "'w transport_ops \<Rightarrow> rdpNego \<Rightarrow> 'w \<Rightarrow> bool \<times> rdpNego \<times> 'w" where
  "nego_disconnect ops nego w = nego_transport_disconnect ops (nego\<lparr>n_state := NEGO_STATE_INITIAL\<rparr>) w"

text \<open>
  \<open>conv\<close> is \<^verbatim>\<open>ConvertToUnicode\<close>: the number of characters and the block with the converted string, in bytes;
  \<open>None\<close> in its place is a null pointer.
\<close>

definition nego_send_preconnection_pdu ::
  "'w transport_ops \<Rightarrow> allocator \<Rightarrow> (byte list \<Rightarrow> int \<times> byte list option) \<Rightarrow> rdpNego \<Rightarrow> 'w \<Rightarrow> (bool \<times> rdpNego \<times> 'w) option" where
  "nego_send_preconnection_pdu ops malloc conv nego w =
     (let (ok, nego, w) = nego_tcp_connect ops nego w in
      if \<not> ok then Some (False, nego, w)
      else let (cchPCB, wszPCB) =
             (case PreconnectionBlob nego of None \<Rightarrow> (0 :: u16, None)
              | Some blob \<Rightarrow> let (n, wsz) = conv blob in (word_of_int n + 1, wsz));
             cbSize = (18 :: u32) + (if PreconnectionBlob nego = None then 0 else word_of_nat (unat cchPCB * 2)) in
      (case Stream_New malloc None (unat cbSize) of None \<Rightarrow> Some (False, nego, w)
       | Some s \<Rightarrow> do {
           s \<leftarrow> Stream_Write_UINT32 s cbSize;
           s \<leftarrow> Stream_Write_UINT32 s 0;
           s \<leftarrow> Stream_Write_UINT32 s 2;
           s \<leftarrow> Stream_Write_UINT32 s (PreconnectionId nego);
           s \<leftarrow> Stream_Write_UINT16 s cchPCB;
           s \<leftarrow> (case wszPCB of None \<Rightarrow> Some s
                 | Some wsz \<Rightarrow> do { bs \<leftarrow> mem_read wsz 0 (unat cchPCB * 2); Stream_Write s bs });
           let (r, w) = op_write ops (Stream_SealLength s) w;
           Some (\<not> r < 0, nego, w) }))"

section \<open>The client's messages\<close>

definition cookie_prefix :: "byte list" where
  "cookie_prefix = [67, 111, 111, 107, 105, 101, 58, 32, 109, 115, 116, 115, 104, 97, 115, 104, 61]"

text \<open>The routing token or the cookie, with its length.\<close>

definition write_token_or_cookie :: "rdpNego \<Rightarrow> wStream \<Rightarrow> (nat \<times> wStream) option" where
  "write_token_or_cookie nego s =
     (case RoutingToken nego of
        Some token \<Rightarrow> do {
          let n = unat (RoutingTokenLength nego);
          bytes \<leftarrow> mem_read token 0 n;
          s \<leftarrow> Stream_Write s bytes;
          (if 2 < n \<and> bytes ! (n - 2) = 0x0D \<and> bytes ! (n - 1) = 0x0A then Some (n, s)
           else do {
             s \<leftarrow> Stream_Write_UINT8 s 0x0D;
             s \<leftarrow> Stream_Write_UINT8 s 0x0A;
             Some (n + 2, s) }) }
      | None \<Rightarrow>
          (case n_cookie nego of None \<Rightarrow> Some (0, s)
           | Some cookie \<Rightarrow> do {
               let n = (if unat (CookieMaxLength nego) < length cookie then unat (CookieMaxLength nego) else length cookie);
               s \<leftarrow> Stream_Write s cookie_prefix;
               s \<leftarrow> Stream_Write s (take n cookie);
               s \<leftarrow> Stream_Write_UINT8 s 0x0D;
               s \<leftarrow> Stream_Write_UINT8 s 0x0A;
               Some (n + 19, s) }))"

definition write_nego_data :: "rdpNego \<Rightarrow> wStream \<Rightarrow> (nat \<times> wStream) option" where
  "write_nego_data nego s =
     (if PROTOCOL_RDP < RequestedProtocols nego \<or> sendNegoData nego then do {
        s \<leftarrow> Stream_Write_UINT8 s TYPE_RDP_NEG_REQ;
        s \<leftarrow> Stream_Write_UINT8 s (if RestrictedAdminModeRequired nego then 1 else 0);
        s \<leftarrow> Stream_Write_UINT16 s 8;
        s \<leftarrow> Stream_Write_UINT32 s (RequestedProtocols nego);
        Some (8, s) }
      else Some (0, s))"

text \<open>The message handed to the transport; \<open>None\<close> inside if it is too long.\<close>

definition negotiation_request :: "rdpNego \<Rightarrow> wStream \<Rightarrow> wStream option option" where
  "negotiation_request nego s = do {
     let bm = Stream_GetPosition s;
     let s = Stream_Seek s 11;
     (n, s) \<leftarrow> write_token_or_cookie nego s;
     (m, s) \<leftarrow> write_nego_data nego s;
     let len = 11 + n + m;
     (if len > 0xFFFF then Some None
      else do {
        let em = Stream_GetPosition s;
        (_, s) \<leftarrow> tpkt_write_header (Stream_SetPosition s bm) (word_of_nat len);
        s \<leftarrow> tpdu_write_connection_request s (word_of_nat len - 5);
        Some (Some (Stream_SealLength (Stream_SetPosition s em))) }) }"

definition nego_send_negotiation_request :: "'w transport_ops \<Rightarrow> allocator \<Rightarrow> rdpNego \<Rightarrow> 'w \<Rightarrow> (bool \<times> 'w) option" where
  "nego_send_negotiation_request ops malloc nego w =
     (case Stream_New malloc None 512 of None \<Rightarrow> Some (False, w)
      | Some s \<Rightarrow> do {
          msg \<leftarrow> negotiation_request nego s;
          (case msg of None \<Rightarrow> Some (False, w)
           | Some s \<Rightarrow> let (r, w) = op_write ops s w in Some (r \<ge> 0, w)) })"

definition nego_process_negotiation_response :: "rdpNego \<Rightarrow> wStream \<Rightarrow> ((bool \<times> rdpNego) \<times> wStream) option" where
  "nego_process_negotiation_response nego s =
     (if Stream_GetRemainingLength s < 7 then Some ((False, nego\<lparr>n_state := NEGO_STATE_FAIL\<rparr>), s)
      else do {
        (flags, s) \<leftarrow> Stream_Read_UINT8 s;
        (len, s) \<leftarrow> Stream_Read_UINT16 s;
        (selected, s) \<leftarrow> Stream_Read_UINT32 s;
        Some ((True, nego\<lparr>n_flags := ucast flags, SelectedProtocol := selected, n_state := NEGO_STATE_FINAL\<rparr>), s) })"

definition nego_process_negotiation_failure :: "rdpNego \<Rightarrow> wStream \<Rightarrow> ((bool \<times> rdpNego) \<times> wStream) option" where
  "nego_process_negotiation_failure nego s =
     (if Stream_GetRemainingLength s < 7 then Some ((False, nego), s)
      else do {
        (flags, s) \<leftarrow> Stream_Read_UINT8 s;
        (len, s) \<leftarrow> Stream_Read_UINT16 s;
        (failureCode, s) \<leftarrow> Stream_Read_UINT32 s;
        let nego = (if failureCode = SSL_NOT_ALLOWED_BY_SERVER \<or> failureCode = SSL_CERT_NOT_ON_SERVER
                    then nego\<lparr>sendNegoData := True\<rparr> else nego);
        Some ((True, nego\<lparr>n_state := NEGO_STATE_FAIL\<rparr>), s) })"

text \<open>A selected protocol that is not enabled fails the attempt.\<close>

definition check_selected :: "rdpNego \<Rightarrow> rdpNego" where
  "check_selected nego =
     (if SelectedProtocol nego \<noteq> 0 then
        (if SelectedProtocol nego = PROTOCOL_HYBRID \<and> \<not> enabled nego PROTOCOL_HYBRID \<or>
            SelectedProtocol nego = PROTOCOL_SSL \<and> \<not> enabled nego PROTOCOL_SSL
         then nego\<lparr>n_state := NEGO_STATE_FAIL\<rparr> else nego)
      else if \<not> enabled nego PROTOCOL_RDP then nego\<lparr>n_state := NEGO_STATE_FAIL\<rparr> else nego)"

text \<open>What follows the header of a connection confirm with length indicator \<open>li\<close>.\<close>

definition recv_nego_data :: "rdpNego \<Rightarrow> byte \<Rightarrow> wStream \<Rightarrow> ((bool \<times> rdpNego) \<times> wStream) option" where
  "recv_nego_data nego li s =
     (if li > 6 then do {
        (type, s) \<leftarrow> Stream_Read_UINT8 s;
        (if type = TYPE_RDP_NEG_RSP then do {
           ((ok, nego), s) \<leftarrow> nego_process_negotiation_response nego s;
           Some ((ok, if ok then check_selected nego else nego), s) }
         else if type = TYPE_RDP_NEG_FAILURE then nego_process_negotiation_failure nego s
         else Some ((True, nego), s)) }
      else if li = 6 then
        Some ((True, nego\<lparr>n_state := if \<not> enabled nego PROTOCOL_RDP then NEGO_STATE_FAIL else NEGO_STATE_FINAL\<rparr>), s)
      else Some ((True, nego\<lparr>n_state := NEGO_STATE_FAIL\<rparr>), s))"

definition nego_recv :: "rdpNego \<Rightarrow> wStream \<Rightarrow> ((int \<times> rdpNego) \<times> wStream) option" where
  "nego_recv nego s = do {
     (len, s) \<leftarrow> tpkt_read_header s;
     (case len of None \<Rightarrow> Some ((- 1, nego), s)
      | Some len \<Rightarrow> do {
          (li, s) \<leftarrow> tpdu_read_connection_confirm s len;
          (case li of None \<Rightarrow> Some ((- 1, nego), s)
           | Some li \<Rightarrow> do {
               ((ok, nego), s) \<leftarrow> recv_nego_data nego li s;
               Some ((if \<not> ok then - 1 else if \<not> tpkt_ensure_stream_consumed s then - 1 else 0, nego), s) }) }) }"

definition nego_recv_response :: "'w transport_ops \<Rightarrow> allocator \<Rightarrow> rdpNego \<Rightarrow> 'w \<Rightarrow> (bool \<times> rdpNego \<times> 'w) option" where
  "nego_recv_response ops malloc nego w =
     (case Stream_New malloc None 1024 of None \<Rightarrow> Some (False, nego, w)
      | Some s \<Rightarrow>
          let (status, s, w) = op_read_pdu ops s w in
          if status < 0 then Some (False, nego, w)
          else do {
            ((status, nego), s) \<leftarrow> nego_recv nego s;
            Some (\<not> status < 0, nego, w) })"

section \<open>The client's state machine\<close>

text \<open>Connecting, sending the request and receiving the response, which every attempt begins with.\<close>

definition nego_exchange :: "'w transport_ops \<Rightarrow> allocator \<Rightarrow> rdpNego \<Rightarrow> 'w \<Rightarrow> (bool \<times> rdpNego \<times> 'w) option" where
  "nego_exchange ops malloc nego w =
     (let (ok, nego, w) = nego_transport_connect ops nego w in
      if \<not> ok then Some (False, nego\<lparr>n_state := NEGO_STATE_FAIL\<rparr>, w)
      else do {
        (ok, w) \<leftarrow> nego_send_negotiation_request ops malloc nego w;
        (if \<not> ok then Some (False, nego\<lparr>n_state := NEGO_STATE_FAIL\<rparr>, w)
         else do {
           (ok, nego, w) \<leftarrow> nego_recv_response ops malloc nego w;
           (if \<not> ok then Some (False, nego\<lparr>n_state := NEGO_STATE_FAIL\<rparr>, w) else Some (True, nego, w)) }) })"

text \<open>The next state when an attempt has not been final.\<close>

definition fall_back :: "'w transport_ops \<Rightarrow> (rdpNego \<Rightarrow> NEGO_STATE) \<Rightarrow> rdpNego \<Rightarrow> 'w \<Rightarrow> rdpNego \<times> 'w" where
  "fall_back ops next nego w =
     (if n_state nego \<noteq> NEGO_STATE_FINAL
      then let (_, nego, w) = nego_transport_disconnect ops nego w in (nego\<lparr>n_state := next nego\<rparr>, w)
      else (nego, w))"

definition after_ext :: "rdpNego \<Rightarrow> NEGO_STATE" where
  "after_ext nego =
     (if enabled nego PROTOCOL_HYBRID then NEGO_STATE_NLA else if enabled nego PROTOCOL_SSL then NEGO_STATE_TLS
      else if enabled nego PROTOCOL_RDP then NEGO_STATE_RDP else NEGO_STATE_FAIL)"

definition after_nla :: "rdpNego \<Rightarrow> NEGO_STATE" where
  "after_nla nego =
     (if enabled nego PROTOCOL_SSL then NEGO_STATE_TLS else if enabled nego PROTOCOL_RDP then NEGO_STATE_RDP else NEGO_STATE_FAIL)"

definition after_tls :: "rdpNego \<Rightarrow> NEGO_STATE" where
  "after_tls nego = (if enabled nego PROTOCOL_RDP then NEGO_STATE_RDP else NEGO_STATE_FAIL)"

definition nego_attempt_ext :: "'w transport_ops \<Rightarrow> allocator \<Rightarrow> rdpNego \<Rightarrow> 'w \<Rightarrow> (rdpNego \<times> 'w) option" where
  "nego_attempt_ext ops malloc nego w = do {
     (ok, nego, w) \<leftarrow> nego_exchange ops malloc (nego\<lparr>RequestedProtocols := PROTOCOL_HYBRID OR PROTOCOL_SSL OR PROTOCOL_HYBRID_EX\<rparr>) w;
     Some (if \<not> ok then (nego, w) else fall_back ops after_ext nego w) }"

definition nego_attempt_nla :: "'w transport_ops \<Rightarrow> allocator \<Rightarrow> rdpNego \<Rightarrow> 'w \<Rightarrow> (rdpNego \<times> 'w) option" where
  "nego_attempt_nla ops malloc nego w = do {
     (ok, nego, w) \<leftarrow> nego_exchange ops malloc (nego\<lparr>RequestedProtocols := PROTOCOL_HYBRID OR PROTOCOL_SSL\<rparr>) w;
     Some (if \<not> ok then (nego, w) else fall_back ops after_nla nego w) }"

definition nego_attempt_tls :: "'w transport_ops \<Rightarrow> allocator \<Rightarrow> rdpNego \<Rightarrow> 'w \<Rightarrow> (rdpNego \<times> 'w) option" where
  "nego_attempt_tls ops malloc nego w = do {
     (ok, nego, w) \<leftarrow> nego_exchange ops malloc (nego\<lparr>RequestedProtocols := PROTOCOL_SSL\<rparr>) w;
     Some (if \<not> ok then (nego, w) else fall_back ops after_tls nego w) }"

definition nego_attempt_rdp :: "'w transport_ops \<Rightarrow> allocator \<Rightarrow> rdpNego \<Rightarrow> 'w \<Rightarrow> (rdpNego \<times> 'w) option" where
  "nego_attempt_rdp ops malloc nego w = do {
     (ok, nego, w) \<leftarrow> nego_exchange ops malloc (nego\<lparr>RequestedProtocols := PROTOCOL_RDP\<rparr>) w;
     Some (nego, w) }"

definition nego_send :: "'w transport_ops \<Rightarrow> allocator \<Rightarrow> rdpNego \<Rightarrow> 'w \<Rightarrow> (rdpNego \<times> 'w) option" where
  "nego_send ops malloc nego w =
     (case n_state nego of
        NEGO_STATE_EXT \<Rightarrow> nego_attempt_ext ops malloc nego w
      | NEGO_STATE_NLA \<Rightarrow> nego_attempt_nla ops malloc nego w
      | NEGO_STATE_TLS \<Rightarrow> nego_attempt_tls ops malloc nego w
      | NEGO_STATE_RDP \<Rightarrow> nego_attempt_rdp ops malloc nego w
      | _ \<Rightarrow> Some (nego, w))"

partial_function (option) nego_loop :: "'w transport_ops \<Rightarrow> allocator \<Rightarrow> rdpNego \<Rightarrow> 'w \<Rightarrow> (bool \<times> rdpNego \<times> 'w) option" where
  "nego_loop ops malloc nego w =
     (case nego_send ops malloc nego w of None \<Rightarrow> None
      | Some (nego, w) \<Rightarrow>
          if n_state nego = NEGO_STATE_FAIL then Some (False, nego\<lparr>n_state := NEGO_STATE_FINAL\<rparr>, w)
          else if n_state nego \<noteq> NEGO_STATE_FINAL then nego_loop ops malloc nego w
          else Some (True, nego, w))"

declare nego_loop.simps [code]

definition first_state :: "rdpNego \<Rightarrow> NEGO_STATE" where
  "first_state nego =
     (if enabled nego PROTOCOL_HYBRID_EX then NEGO_STATE_EXT else if enabled nego PROTOCOL_HYBRID then NEGO_STATE_NLA
      else if enabled nego PROTOCOL_SSL then NEGO_STATE_TLS else if enabled nego PROTOCOL_RDP then NEGO_STATE_RDP
      else NEGO_STATE_FAIL)"

text \<open>Without negotiation only the strongest enabled protocol is left.\<close>

definition only_highest :: "rdpNego \<Rightarrow> rdpNego" where
  "only_highest nego =
     (let nego = enable PROTOCOL_HYBRID_EX False (enable PROTOCOL_RDP False (enable PROTOCOL_SSL False (enable PROTOCOL_HYBRID False nego)))
      in (case n_state nego of
            NEGO_STATE_EXT \<Rightarrow> (enable PROTOCOL_HYBRID True (enable PROTOCOL_HYBRID_EX True nego))\<lparr>SelectedProtocol := PROTOCOL_HYBRID_EX\<rparr>
          | NEGO_STATE_NLA \<Rightarrow> (enable PROTOCOL_HYBRID True nego)\<lparr>SelectedProtocol := PROTOCOL_HYBRID\<rparr>
          | NEGO_STATE_TLS \<Rightarrow> (enable PROTOCOL_SSL True nego)\<lparr>SelectedProtocol := PROTOCOL_SSL\<rparr>
          | NEGO_STATE_RDP \<Rightarrow> (enable PROTOCOL_RDP True nego)\<lparr>SelectedProtocol := PROTOCOL_RDP\<rparr>
          | _ \<Rightarrow> nego))"

definition nego_start ::
  "'w transport_ops \<Rightarrow> allocator \<Rightarrow> (byte list \<Rightarrow> int \<times> byte list option) \<Rightarrow> rdpNego \<Rightarrow> 'w \<Rightarrow> (bool \<times> rdpNego \<times> 'w) option" where
  "nego_start ops malloc conv nego w =
     (if n_state nego \<noteq> NEGO_STATE_INITIAL then Some (True, nego, w)
      else let nego = nego\<lparr>n_state := first_state nego\<rparr> in
      if n_state nego = NEGO_STATE_FAIL then Some (False, nego, w)
      else let nego = (if \<not> NegotiateSecurityLayer nego then only_highest nego else nego) in
      if SendPreconnectionPdu nego then do {
        (ok, nego, w) \<leftarrow> nego_send_preconnection_pdu ops malloc conv nego w;
        Some (if \<not> ok then (False, nego\<lparr>n_state := NEGO_STATE_FINAL\<rparr>, w) else (True, nego, w)) }
      else Some (True, nego, w))"

definition update_settings :: "rdpNego \<Rightarrow> nego_settings \<Rightarrow> nego_settings" where
  "update_settings nego settings =
     (let settings = settings\<lparr>set_RequestedProtocols := RequestedProtocols nego, set_SelectedProtocol := SelectedProtocol nego,
        set_NegotiationFlags := n_flags nego\<rparr>
      in if SelectedProtocol nego = PROTOCOL_RDP then
           let settings = settings\<lparr>set_UseRdpSecurityLayer := True\<rparr>
           in if set_EncryptionMethods settings = 0 then settings\<lparr>set_EncryptionMethods := 0x1 OR 0x8 OR 0x2 OR 0x10\<rparr> else settings
         else settings)"

definition nego_connect ::
  "'w transport_ops \<Rightarrow> allocator \<Rightarrow> (byte list \<Rightarrow> int \<times> byte list option) \<Rightarrow> rdpNego \<Rightarrow> nego_settings \<Rightarrow> 'w \<Rightarrow>
   (bool \<times> rdpNego \<times> nego_settings \<times> 'w) option" where
  "nego_connect ops malloc conv nego settings w = do {
     (ok, nego, w) \<leftarrow> nego_start ops malloc conv nego w;
     (if \<not> ok then Some (False, nego, settings, w)
      else do {
        (ok, nego, w) \<leftarrow> (if \<not> NegotiateSecurityLayer nego then Some (True, nego\<lparr>n_state := NEGO_STATE_FINAL\<rparr>, w)
                          else nego_loop ops malloc nego w);
        (if \<not> ok then Some (False, nego, settings, w)
         else let settings = update_settings nego settings;
                  (ok, nego, w) = nego_security_connect ops nego w
              in Some (ok, nego, settings, w)) }) }"

end
