(* ===== verification/Nego_Client.thy ===== *)
theory Nego_Client
  imports Nego
begin

text \<open>
  What the client's negotiation guarantees: the protocol it ends with is one that was enabled, whatever
  the peer and the network do, and it ends, given that the transport delivers well-formed streams and
  the peer answers with a response or a failure.
\<close>

section \<open>One message\<close>

text \<open>What a peer's answer may select.\<close>

definition selection_ok :: "rdpNego \<Rightarrow> bool" where
  "selection_ok nego \<longleftrightarrow> enabled nego PROTOCOL_RDP \<or>
     SelectedProtocol nego \<noteq> PROTOCOL_RDP \<and> (SelectedProtocol nego = PROTOCOL_HYBRID \<longrightarrow> enabled nego PROTOCOL_HYBRID) \<and>
     (SelectedProtocol nego = PROTOCOL_SSL \<longrightarrow> enabled nego PROTOCOL_SSL)"

text \<open>The fields that no step of the negotiation changes.\<close>

definition same_config :: "rdpNego \<Rightarrow> rdpNego \<Rightarrow> bool" where
  "same_config nego nego' \<longleftrightarrow>
     EnabledProtocols nego' = EnabledProtocols nego \<and> NegotiateSecurityLayer nego' = NegotiateSecurityLayer nego \<and>
     RoutingToken nego' = RoutingToken nego \<and> RoutingTokenLength nego' = RoutingTokenLength nego \<and>
     n_cookie nego' = n_cookie nego \<and> CookieMaxLength nego' = CookieMaxLength nego \<and>
     (SecurityConnected nego' \<longrightarrow> SecurityConnected nego)"

lemma same_config_refl [simp]: "same_config nego nego"
  by (simp add: same_config_def)

lemma same_config_trans: "same_config a b \<Longrightarrow> same_config b c \<Longrightarrow> same_config a c"
  by (auto simp: same_config_def)

lemma same_config_enabled: "same_config nego nego' \<Longrightarrow> enabled nego' p = enabled nego p"
  by (simp add: same_config_def enabled_def)

lemma enabled_update [simp]:
  "enabled (nego\<lparr>n_flags := f\<rparr>) p = enabled nego p" "enabled (nego\<lparr>n_state := st\<rparr>) p = enabled nego p"
  "enabled (nego\<lparr>SelectedProtocol := q\<rparr>) p = enabled nego p" "enabled (nego\<lparr>sendNegoData := b\<rparr>) p = enabled nego p"
  "enabled (nego\<lparr>RequestedProtocols := q\<rparr>) p = enabled nego p" "enabled (nego\<lparr>TcpConnected := b\<rparr>) p = enabled nego p"
  "enabled (nego\<lparr>SecurityConnected := b\<rparr>) p = enabled nego p"
  by (simp_all add: enabled_def)

lemma selection_ok_update [simp]: "selection_ok (nego\<lparr>n_state := st\<rparr>) = selection_ok nego"
  by (simp add: selection_ok_def)

text \<open>The outcome of a message: a new final state goes with an acceptable selection.\<close>

definition recv_outcome :: "rdpNego \<Rightarrow> rdpNego \<Rightarrow> bool" where
  "recv_outcome nego nego' \<longleftrightarrow> same_config nego nego' \<and> TcpConnected nego' = TcpConnected nego \<and>
     n_state nego' \<in> {n_state nego, NEGO_STATE_FAIL, NEGO_STATE_FINAL} \<and>
     (n_state nego' = NEGO_STATE_FINAL \<longrightarrow> n_state nego = NEGO_STATE_FINAL \<or> selection_ok nego')"

lemma check_selected_cases:
  "check_selected nego = nego \<and> selection_ok nego \<or> check_selected nego = nego\<lparr>n_state := NEGO_STATE_FAIL\<rparr>"
  by (simp add: check_selected_def selection_ok_def protocol_defs)

lemma response_result:
  "nego_process_negotiation_response nego s = Some ((ok, nego'), s') \<Longrightarrow>
    (if ok then \<exists>f p. nego' = nego\<lparr>n_flags := f, SelectedProtocol := p, n_state := NEGO_STATE_FINAL\<rparr>
     else nego' = nego\<lparr>n_state := NEGO_STATE_FAIL\<rparr>)"
  by (auto simp: nego_process_negotiation_response_def Option.bind_eq_Some_conv split: if_splits)

lemma failure_result:
  "nego_process_negotiation_failure nego s = Some ((ok, nego'), s') \<Longrightarrow>
    (if ok then nego' = nego\<lparr>n_state := NEGO_STATE_FAIL\<rparr> \<or> nego' = nego\<lparr>sendNegoData := True, n_state := NEGO_STATE_FAIL\<rparr>
     else nego' = nego)"
  by (auto simp: nego_process_negotiation_failure_def Option.bind_eq_Some_conv Let_def split: if_splits)

lemma outcome_simps:
  "recv_outcome nego nego" "recv_outcome nego (nego\<lparr>n_state := NEGO_STATE_FAIL\<rparr>)"
  "recv_outcome nego (nego\<lparr>sendNegoData := True, n_state := NEGO_STATE_FAIL\<rparr>)"
  "enabled nego PROTOCOL_RDP \<Longrightarrow> recv_outcome nego (nego\<lparr>n_state := NEGO_STATE_FINAL\<rparr>)"
  by (auto simp: recv_outcome_def same_config_def selection_ok_def)

lemma check_selected_outcome: "recv_outcome nego (check_selected (nego\<lparr>n_flags := f, SelectedProtocol := p, n_state := NEGO_STATE_FINAL\<rparr>))"
  using check_selected_cases [of "nego\<lparr>n_flags := f, SelectedProtocol := p, n_state := NEGO_STATE_FINAL\<rparr>"]
  by (auto simp: recv_outcome_def same_config_def)

lemma recv_nego_data_outcome:
  assumes "recv_nego_data nego li s = Some ((ok, nego'), s')"
  shows "recv_outcome nego nego'"
proof (cases "li > 6")
  case True
  then obtain ty s1 where ty: "Stream_Read_UINT8 s = Some (ty, s1)" using assms by (auto simp: recv_nego_data_def Option.bind_eq_Some_conv)
  consider (rsp) "ty = TYPE_RDP_NEG_RSP" | (failure) "ty = TYPE_RDP_NEG_FAILURE" "ty \<noteq> TYPE_RDP_NEG_RSP"
    | (other) "ty \<noteq> TYPE_RDP_NEG_RSP" "ty \<noteq> TYPE_RDP_NEG_FAILURE" by blast
  then show ?thesis
  proof cases
    case rsp
    then obtain ok1 n1 s2 where "nego_process_negotiation_response nego s1 = Some ((ok1, n1), s2)" "nego' = (if ok1 then check_selected n1 else n1)"
      using assms True ty by (auto simp: recv_nego_data_def Option.bind_eq_Some_conv)
    then show ?thesis using response_result [of nego s1 ok1 n1 s2] by (auto simp: check_selected_outcome outcome_simps split: if_splits)
  next
    case failure
    then have "nego_process_negotiation_failure nego s1 = Some ((ok, nego'), s')" using assms True ty by (simp add: recv_nego_data_def)
    then show ?thesis using failure_result [of nego s1 ok nego' s'] by (auto simp: outcome_simps split: if_splits)
  next
    case other
    then show ?thesis using assms True ty by (simp add: recv_nego_data_def outcome_simps)
  qed
next
  case False
  then show ?thesis using assms by (auto simp: recv_nego_data_def outcome_simps split: if_splits)
qed

lemma nego_recv_outcome: "nego_recv nego s = Some ((r, nego'), s') \<Longrightarrow> recv_outcome nego nego'"
  by (auto simp: nego_recv_def Option.bind_eq_Some_conv split: prod.splits option.splits dest!: recv_nego_data_outcome)
    (auto simp: recv_outcome_def)

section \<open>One attempt\<close>

lemma tcp_connect_config:
  "nego_tcp_connect ops nego w = (ok, nego', w') \<Longrightarrow>
    same_config nego nego' \<and> n_state nego' = n_state nego \<and> SelectedProtocol nego' = SelectedProtocol nego"
  by (auto simp: nego_tcp_connect_def Let_def same_config_def split: if_splits prod.splits)

lemma transport_connect_config:
  "nego_transport_connect ops nego w = (ok, nego', w') \<Longrightarrow> NegotiateSecurityLayer nego \<Longrightarrow>
    same_config nego nego' \<and> n_state nego' = n_state nego"
  by (auto simp: nego_transport_connect_def Let_def split: if_splits prod.splits dest!: tcp_connect_config)
    (auto simp: same_config_def)

text \<open>
  A step of the state machine: the attempt fails, is final with an acceptable selection, or leaves the
  client in a weaker state; only the weakest state may stay.
\<close>

fun rank :: "NEGO_STATE \<Rightarrow> nat" where
  "rank NEGO_STATE_EXT = 4" | "rank NEGO_STATE_NLA = 3" | "rank NEGO_STATE_TLS = 2" | "rank NEGO_STATE_RDP = 1"
| "rank NEGO_STATE_INITIAL = 0" | "rank NEGO_STATE_FAIL = 0" | "rank NEGO_STATE_FINAL = 0"

inductive nego_step :: "rdpNego \<Rightarrow> rdpNego \<Rightarrow> bool" where
  fail: "same_config nego nego' \<Longrightarrow> n_state nego' = NEGO_STATE_FAIL \<Longrightarrow> nego_step nego nego'"
| final: "same_config nego nego' \<Longrightarrow> n_state nego' = NEGO_STATE_FINAL \<Longrightarrow> selection_ok nego' \<Longrightarrow> nego_step nego nego'"
| weaker: "same_config nego nego' \<Longrightarrow> 0 < rank (n_state nego') \<Longrightarrow> rank (n_state nego') < rank (n_state nego) \<Longrightarrow> nego_step nego nego'"
| stay: "same_config nego nego' \<Longrightarrow> n_state nego = NEGO_STATE_RDP \<Longrightarrow> n_state nego' = NEGO_STATE_RDP \<Longrightarrow> nego_step nego nego'"

lemma exchange_outcome:
  assumes "nego_exchange ops malloc nego w = Some (ok, nego', w')" "NegotiateSecurityLayer nego" "n_state nego \<noteq> NEGO_STATE_FINAL"
  shows "if ok then same_config nego nego' \<and> n_state nego' \<in> {n_state nego, NEGO_STATE_FAIL, NEGO_STATE_FINAL} \<and>
      (n_state nego' = NEGO_STATE_FINAL \<longrightarrow> selection_ok nego')
    else same_config nego nego' \<and> n_state nego' = NEGO_STATE_FAIL"
proof -
  obtain b n1 w1 where c: "nego_transport_connect ops nego w = (b, n1, w1)" by (metis prod_cases3)
  have n1: "same_config nego n1" "n_state n1 = n_state nego" using transport_connect_config [OF c assms(2)] by simp_all
  have r: "recv_outcome n1 n2" if "nego_recv_response ops malloc n1 w2 = Some (b2, n2, w3)" for w2 b2 n2 w3
    using that by (auto simp: nego_recv_response_def Option.bind_eq_Some_conv Let_def split: option.splits prod.splits if_splits
        dest!: nego_recv_outcome) (auto simp: recv_outcome_def)
  show ?thesis using assms(1,3) c n1
    by (auto simp: nego_exchange_def Let_def Option.bind_eq_Some_conv recv_outcome_def split: if_splits dest!: r
        dest: same_config_trans) (auto simp: same_config_def)
qed

lemma fall_back_step:
  assumes e: "same_config nego n1" "n_state n1 = NEGO_STATE_FINAL \<longrightarrow> selection_ok n1"
    and f: "fall_back ops nxt n1 w = (nego', w')"
    and n: "\<And>n. nxt n = NEGO_STATE_FAIL \<or> 0 < rank (nxt n) \<and> rank (nxt n) < rank (n_state nego)"
  shows "nego_step nego nego'"
proof (cases "n_state n1 = NEGO_STATE_FINAL")
  case True
  then show ?thesis using assms by (auto simp: fall_back_def intro: nego_step.final)
next
  case False
  let ?n = "n1\<lparr>TcpConnected := False, SecurityConnected := False\<rparr>"
  have n': "nego' = ?n\<lparr>n_state := nxt ?n\<rparr>" using f False by (auto simp: fall_back_def nego_transport_disconnect_def Let_def)
  then have "same_config nego nego'" using e(1) by (simp add: same_config_def)
  then show ?thesis using n [of ?n] n' by (auto intro: nego_step.fail nego_step.weaker)
qed

lemma next_states:
  "after_ext n = NEGO_STATE_FAIL \<or> 0 < rank (after_ext n) \<and> rank (after_ext n) < 4"
  "after_nla n = NEGO_STATE_FAIL \<or> 0 < rank (after_nla n) \<and> rank (after_nla n) < 3"
  "after_tls n = NEGO_STATE_FAIL \<or> 0 < rank (after_tls n) \<and> rank (after_tls n) < 2"
  by (simp_all add: after_ext_def after_nla_def after_tls_def)

lemma attempt_step:
  assumes e: "nego_exchange ops malloc (nego\<lparr>RequestedProtocols := p\<rparr>) w = Some (ok, n1, w1)"
    and g: "NegotiateSecurityLayer nego" "0 < rank (n_state nego)"
    and f: "(if \<not> ok then (n1, w1) else fall_back ops nxt n1 w1) = (nego', w')"
    and n: "\<And>n. nxt n = NEGO_STATE_FAIL \<or> 0 < rank (nxt n) \<and> rank (nxt n) < rank (n_state nego)"
  shows "nego_step nego nego'"
proof -
  have "n_state nego \<noteq> NEGO_STATE_FINAL" using g(2) by auto
  then have o: "if ok then same_config nego n1 \<and> n_state n1 \<in> {n_state nego, NEGO_STATE_FAIL, NEGO_STATE_FINAL} \<and>
      (n_state n1 = NEGO_STATE_FINAL \<longrightarrow> selection_ok n1) else same_config nego n1 \<and> n_state n1 = NEGO_STATE_FAIL"
    using exchange_outcome [OF e] g(1) by (simp add: same_config_def split: if_splits)
  show ?thesis
  proof (cases ok)
    case True
    then show ?thesis using o f by (intro fall_back_step [of nego n1 ops nxt w1 nego' w', OF _ _ _ n]) auto
  next
    case False
    then show ?thesis using o f by (auto intro: nego_step.fail)
  qed
qed

lemma nego_send_step:
  assumes s: "nego_send ops malloc nego w = Some (nego', w')" and g: "NegotiateSecurityLayer nego" "0 < rank (n_state nego)"
  shows "nego_step nego nego'"
proof (cases "n_state nego")
  case NEGO_STATE_EXT
  then obtain p ok n1 w1 where "nego_exchange ops malloc (nego\<lparr>RequestedProtocols := p\<rparr>) w = Some (ok, n1, w1)"
    "(if \<not> ok then (n1, w1) else fall_back ops after_ext n1 w1) = (nego', w')"
    using s by (auto simp: nego_send_def nego_attempt_ext_def Option.bind_eq_Some_conv)
  then show ?thesis by (rule attempt_step [OF _ g]) (use next_states(1) NEGO_STATE_EXT in simp)
next
  case NEGO_STATE_NLA
  then obtain p ok n1 w1 where "nego_exchange ops malloc (nego\<lparr>RequestedProtocols := p\<rparr>) w = Some (ok, n1, w1)"
    "(if \<not> ok then (n1, w1) else fall_back ops after_nla n1 w1) = (nego', w')"
    using s by (auto simp: nego_send_def nego_attempt_nla_def Option.bind_eq_Some_conv)
  then show ?thesis by (rule attempt_step [OF _ g]) (use next_states(2) NEGO_STATE_NLA in simp)
next
  case NEGO_STATE_TLS
  then obtain p ok n1 w1 where "nego_exchange ops malloc (nego\<lparr>RequestedProtocols := p\<rparr>) w = Some (ok, n1, w1)"
    "(if \<not> ok then (n1, w1) else fall_back ops after_tls n1 w1) = (nego', w')"
    using s by (auto simp: nego_send_def nego_attempt_tls_def Option.bind_eq_Some_conv)
  then show ?thesis by (rule attempt_step [OF _ g]) (use next_states(3) NEGO_STATE_TLS in simp)
next
  case NEGO_STATE_RDP
  then obtain ok where e: "nego_exchange ops malloc (nego\<lparr>RequestedProtocols := PROTOCOL_RDP\<rparr>) w = Some (ok, nego', w')"
    using s by (auto simp: nego_send_def nego_attempt_rdp_def Option.bind_eq_Some_conv)
  have "same_config nego nego'" "n_state nego' \<in> {NEGO_STATE_RDP, NEGO_STATE_FAIL, NEGO_STATE_FINAL}"
    "n_state nego' = NEGO_STATE_FINAL \<longrightarrow> selection_ok nego'"
    using exchange_outcome [OF e] g NEGO_STATE_RDP by (auto simp: same_config_def split: if_splits)
  then show ?thesis using NEGO_STATE_RDP by (auto intro: nego_step.intros)
qed (use g in auto)

lemma nego_step_config: "nego_step nego nego' \<Longrightarrow> same_config nego nego'"
  by (auto elim: nego_step.cases)

lemma nego_step_continues:
  "nego_step nego nego' \<Longrightarrow> n_state nego' \<noteq> NEGO_STATE_FAIL \<Longrightarrow> n_state nego' \<noteq> NEGO_STATE_FINAL \<Longrightarrow> 0 < rank (n_state nego')"
  by (auto elim: nego_step.cases)

section \<open>The loop\<close>

lemma nego_loop_sound:
  assumes "nego_loop ops malloc nego w = Some (True, nego', w')" "NegotiateSecurityLayer nego" "0 < rank (n_state nego)"
  shows "same_config nego nego' \<and> selection_ok nego' \<and> n_state nego' = NEGO_STATE_FINAL"
proof -
  let ?P = "\<lambda>ops malloc nego w r. NegotiateSecurityLayer nego \<longrightarrow> 0 < rank (n_state nego) \<longrightarrow> fst r \<longrightarrow>
    same_config nego (fst (snd r)) \<and> selection_ok (fst (snd r)) \<and> n_state (fst (snd r)) = NEGO_STATE_FINAL"
  have "?P ops malloc nego w (True, nego', w')"
  proof (rule nego_loop.raw_induct [where P = ?P, OF _ assms(1)])
    fix f :: "'a transport_ops \<Rightarrow> allocator \<Rightarrow> rdpNego \<Rightarrow> 'a \<Rightarrow> (bool \<times> rdpNego \<times> 'a) option" and ops malloc nego w r
    assume IH: "\<And>ops malloc nego w r. f ops malloc nego w = Some r \<Longrightarrow> ?P ops malloc nego w r"
      and eq: "(case nego_send ops malloc nego w of None \<Rightarrow> None
      | Some (nego, w) \<Rightarrow>
          if n_state nego = NEGO_STATE_FAIL then Some (False, nego\<lparr>n_state := NEGO_STATE_FINAL\<rparr>, w)
          else if n_state nego \<noteq> NEGO_STATE_FINAL then f ops malloc nego w
          else Some (True, nego, w)) = Some r"
    show "?P ops malloc nego w r"
    proof (intro impI)
      assume g: "NegotiateSecurityLayer nego" "0 < rank (n_state nego)" and r: "fst r"
      obtain n1 w1 where s: "nego_send ops malloc nego w = Some (n1, w1)" using eq by (auto split: option.splits)
      have st: "nego_step nego n1" by (rule nego_send_step [OF s g])
      have c: "same_config nego n1" by (rule nego_step_config [OF st])
      show "same_config nego (fst (snd r)) \<and> selection_ok (fst (snd r)) \<and> n_state (fst (snd r)) = NEGO_STATE_FINAL"
      proof (cases "n_state n1 = NEGO_STATE_FINAL")
        case True
        then show ?thesis using eq s r c st by (auto elim: nego_step.cases)
      next
        case False
        then have nf: "n_state n1 \<noteq> NEGO_STATE_FAIL" using eq s r by auto
        have "f ops malloc n1 w1 = Some r" using eq s False nf by simp
        then show ?thesis using IH [of ops malloc n1 w1 r] nego_step_continues [OF st nf False] g r c
          by (auto simp: same_config_def)
      qed
    qed
  qed
  then show ?thesis using assms(2,3) by simp
qed

section \<open>The first state and the security layer\<close>

lemma first_state_rank: "first_state nego \<noteq> NEGO_STATE_FAIL \<Longrightarrow> 0 < rank (first_state nego)"
  by (auto simp: first_state_def split: if_splits)

lemma preconnection_config:
  assumes "nego_send_preconnection_pdu ops malloc conv nego w = Some (ok, nego', w')"
  shows "same_config nego nego' \<and> n_state nego' = n_state nego \<and> SelectedProtocol nego' = SelectedProtocol nego"
proof -
  obtain b n1 w1 where t: "nego_tcp_connect ops nego w = (b, n1, w1)" by (metis prod_cases3)
  obtain cch wsz where p: "(case PreconnectionBlob n1 of None \<Rightarrow> (0 :: u16, None)
      | Some blob \<Rightarrow> let (n, wsz) = conv blob in (word_of_int n + 1, wsz)) = (cch, wsz)" by fastforce
  have "nego' = n1" using assms unfolding nego_send_preconnection_pdu_def t p Let_def prod.case
    by (auto simp: Option.bind_eq_Some_conv case_prod_unfold split: if_splits option.splits)
  then show ?thesis using tcp_connect_config [OF t] by simp
qed

lemma nego_start_result:
  assumes "nego_start ops malloc conv nego w = Some (True, nego', w')" "n_state nego = NEGO_STATE_INITIAL"
  shows "n_state nego' = first_state nego \<and> first_state nego \<noteq> NEGO_STATE_FAIL \<and>
    (if NegotiateSecurityLayer nego then same_config nego nego'
     else \<exists>n. n = only_highest (nego\<lparr>n_state := first_state nego\<rparr>) \<and> same_config n nego' \<and> SelectedProtocol nego' = SelectedProtocol n)"
proof -
  have st: "n_state (only_highest n) = n_state n" for n by (simp add: only_highest_def enable_def Let_def split: NEGO_STATE.splits)
  show ?thesis using assms st
    by (auto simp: nego_start_def Let_def Option.bind_eq_Some_conv split: if_splits dest!: preconnection_config)
      (auto simp: same_config_def)
qed

lemma only_highest_selection:
  "\<not> enabled nego PROTOCOL_RDP \<Longrightarrow> SelectedProtocol (only_highest (nego\<lparr>n_state := first_state nego\<rparr>)) \<in> {PROTOCOL_SSL, PROTOCOL_HYBRID, PROTOCOL_RDP} \<Longrightarrow>
    first_state nego \<noteq> NEGO_STATE_FAIL \<Longrightarrow>
    let p = SelectedProtocol (only_highest (nego\<lparr>n_state := first_state nego\<rparr>)) in p \<in> {PROTOCOL_SSL, PROTOCOL_HYBRID} \<and> enabled nego p"
  by (auto simp: only_highest_def first_state_def protocol_defs enable_def Let_def split: if_splits)

lemma only_highest_negotiates: "NegotiateSecurityLayer (only_highest nego) = NegotiateSecurityLayer nego"
  by (simp add: only_highest_def enable_def Let_def split: NEGO_STATE.splits)

lemma only_highest_security: "SecurityConnected (only_highest nego) = SecurityConnected nego"
  by (simp add: only_highest_def enable_def Let_def split: NEGO_STATE.splits)

lemma security_connect_selected:
  "nego_security_connect ops nego w = (True, nego', w') \<Longrightarrow> \<not> SecurityConnected nego \<Longrightarrow>
    SelectedProtocol nego' = SelectedProtocol nego \<and> SelectedProtocol nego \<in> {PROTOCOL_SSL, PROTOCOL_HYBRID, PROTOCOL_RDP} \<and>
    TcpConnected nego"
  by (auto simp: nego_security_connect_def Let_def split: if_splits prod.splits)

lemma settings_selected: "set_SelectedProtocol (update_settings nego settings) = SelectedProtocol nego"
  by (simp add: update_settings_def Let_def)

lemma nego_connect_parts:
  assumes "nego_connect ops malloc conv nego settings w = Some (True, nego', settings', w')"
  obtains n1 w1 n2 w2 where "nego_start ops malloc conv nego w = Some (True, n1, w1)"
    "(if \<not> NegotiateSecurityLayer n1 then Some (True, n1\<lparr>n_state := NEGO_STATE_FINAL\<rparr>, w1) else nego_loop ops malloc n1 w1) = Some (True, n2, w2)"
    "settings' = update_settings n2 settings" "nego_security_connect ops n2 w2 = (True, nego', w')"
  using assms by (auto simp: nego_connect_def Option.bind_eq_Some_conv Let_def split: if_splits prod.splits)

section \<open>The connection request\<close>

definition terminated :: "byte list \<Rightarrow> bool" where
  "terminated t \<longleftrightarrow> 2 < length t \<and> t ! (length t - 2) = 0x0D \<and> t ! (length t - 1) = 0x0A"

definition token_enc :: "rdpNego \<Rightarrow> byte list" where
  "token_enc nego =
     (case RoutingToken nego of Some t \<Rightarrow> t @ (if terminated t then [] else [0x0D, 0x0A])
      | None \<Rightarrow> (case n_cookie nego of None \<Rightarrow> [] | Some c \<Rightarrow> cookie_prefix @ take (unat (CookieMaxLength nego)) c @ [0x0D, 0x0A]))"

definition request_data_enc :: "rdpNego \<Rightarrow> byte list" where
  "request_data_enc nego =
     (if PROTOCOL_RDP < RequestedProtocols nego \<or> sendNegoData nego then
        [TYPE_RDP_NEG_REQ, if RestrictedAdminModeRequired nego then 1 else 0, 8, 0, ucast (RequestedProtocols nego),
         ucast (drop_bit 8 (RequestedProtocols nego)), ucast (drop_bit 16 (RequestedProtocols nego)), ucast (drop_bit 24 (RequestedProtocols nego))]
      else [])"

definition request_body :: "rdpNego \<Rightarrow> byte list" where
  "request_body nego = token_enc nego @ request_data_enc nego"

definition request_enc :: "rdpNego \<Rightarrow> byte list" where
  "request_enc nego = tpkt_enc (word_of_nat (11 + length (request_body nego))) @
     tpdu_enc (ucast (word_of_nat (11 + length (request_body nego)) - 5 :: u16)) X224_TPDU_CONNECTION_REQUEST @ request_body nego"

text \<open>The length of the routing token is that of its block, and the request fits the stream of 512 bytes.\<close>

definition token_ok :: "rdpNego \<Rightarrow> bool" where
  "token_ok nego \<longleftrightarrow> (case RoutingToken nego of None \<Rightarrow> True | Some t \<Rightarrow> length t = unat (RoutingTokenLength nego))"

lemma length_prefix [simp]: "length cookie_prefix = 17"
  by (simp add: cookie_prefix_def)

lemma length_tpdu_request [simp]: "length (tpdu_enc li X224_TPDU_CONNECTION_REQUEST) = 7" "length (tpkt_enc n) = 4"
  by (simp_all add: tpdu_enc_def tpkt_enc_def x224_defs)

lemma write_token_put:
  assumes "token_ok nego" "wf_cap s" "length (token_enc nego) \<le> room s"
  shows "write_token_or_cookie nego s = Some (length (token_enc nego), put s (token_enc nego))"
proof (cases "RoutingToken nego")
  case None
  show ?thesis
  proof (cases "n_cookie nego")
    case None
    then show ?thesis using \<open>RoutingToken nego = None\<close> by (simp add: write_token_or_cookie_def token_enc_def)
  next
    case (Some c)
    have "(if unat (CookieMaxLength nego) < length c then unat (CookieMaxLength nego) else length c) = min (length c) (unat (CookieMaxLength nego))"
      by simp
    moreover have "take (min (length c) (unat (CookieMaxLength nego))) c = take (unat (CookieMaxLength nego)) c"
      by (cases "length c \<le> unat (CookieMaxLength nego)") (simp_all add: min_def)
    ultimately show ?thesis using assms Some None
      by (simp add: write_token_or_cookie_def token_enc_def stream_simps Let_def del: if_split)
  qed
next
  case (Some t)
  then have l: "unat (RoutingTokenLength nego) = length t" using assms(1) by (simp add: token_ok_def)
  show ?thesis using assms Some unfolding write_token_or_cookie_def token_enc_def
    by (auto simp: l stream_simps terminated_def mem_read_def Let_def)
qed

lemma write_nego_data_put:
  assumes "wf_cap s" "length (request_data_enc nego) \<le> room s"
  shows "write_nego_data nego s = Some (length (request_data_enc nego), put s (request_data_enc nego))"
  using assms by (auto simp: write_nego_data_def request_data_enc_def stream_simps)

lemma negotiation_request_sent:
  assumes t: "token_ok nego" and s: "wf_cap s" "s_pointer s = 0" "11 + length (request_body nego) \<le> room s"
    and n: "11 + length (request_body nego) \<le> 0xFFFF"
  shows "\<exists>m. negotiation_request nego s = Some (Some m) \<and> sent (request_enc nego) m"
proof -
  let ?n = "11 + length (request_body nego)"
  define e where "e = tpkt_enc (word_of_nat ?n) @ tpdu_enc (ucast (word_of_nat ?n - 5 :: u16)) X224_TPDU_CONNECTION_REQUEST"
  have le: "length e = 11" by (simp add: e_def)
  have s1: "wf_cap (Stream_Seek s 11)" "room (Stream_Seek s 11) = room s - 11" using s by (auto simp: wf_cap_def room_def)
  have l: "length (request_body nego) = length (token_enc nego) + length (request_data_enc nego)" by (simp add: request_body_def)
  have 1: "write_token_or_cookie nego (Stream_Seek s 11) = Some (length (token_enc nego), put (Stream_Seek s 11) (token_enc nego))"
    using t s1 s(3) l by (intro write_token_put) simp_all
  have 2: "write_nego_data nego (put (Stream_Seek s 11) (token_enc nego)) =
      Some (length (request_data_enc nego), put (Stream_Seek s 11) (request_body nego))"
    using s1 s(3) l by (subst write_nego_data_put) (simp_all add: stream_simps request_body_def)
  let ?s = "Stream_SetPosition (put (Stream_Seek s 11) (request_body nego)) 0"
  have s2: "wf_cap ?s" "room ?s = room s" using sent_header_last(1,2) [of s e "request_body nego"] s le by simp_all
  have 3: "tpkt_write_header ?s (word_of_nat ?n) = Some (True, put ?s (tpkt_enc (word_of_nat ?n)))"
    using s2 s(3) by (simp add: stream_simps)
  have 4: "tpdu_write_connection_request (put ?s (tpkt_enc (word_of_nat ?n))) (word_of_nat ?n - 5) = Some (put ?s e)"
    using s2 s(3) by (simp add: tpdu_write_connection_request_def stream_simps e_def)
  have n': "\<not> 0xFFFF < 11 + length (token_enc nego) + length (request_data_enc nego)"
    "11 + length (token_enc nego) + length (request_data_enc nego) = ?n" using n l by simp_all
  let ?m = "Stream_SealLength (Stream_SetPosition (put ?s e) (11 + length (request_body nego)))"
  have p: "Stream_GetPosition s = 0" "Stream_GetPosition (put (Stream_Seek s 11) (request_body nego)) = ?n"
    using s(2) by (simp_all add: Stream_GetPosition_def)
  have "negotiation_request nego s = Some (Some ?m)"
    unfolding negotiation_request_def Let_def 1 2 bind.bind_lunit prod.case n'(2) p 3 4 using n by simp
  moreover have "sent (request_enc nego) ?m"
    using sent_header_last(3) [of s e "request_body nego"] s le by (simp add: request_enc_def e_def)
  ultimately show ?thesis by blast
qed

lemma new_stream:
  assumes "malloc_ok malloc" "Stream_New malloc None n = Some s" "n < 2 ^ 64"
  shows "wf_cap s" "s_pointer s = 0" "room s = n"
  using assms by (auto simp: Stream_New_def wf_cap_def room_def malloc_ok_def split: if_splits option.splits)

section \<open>Reading an arbitrary answer\<close>

text \<open>The answer of a peer that sends a response, a failure or nothing as negotiation data.\<close>

definition known_answer :: "byte list \<Rightarrow> bool" where
  "known_answer bs \<longleftrightarrow> (12 \<le> length bs \<longrightarrow> bs ! 4 > 6 \<longrightarrow> bs ! 11 \<in> {TYPE_RDP_NEG_RSP, TYPE_RDP_NEG_FAILURE})"

definition ended :: "rdpNego \<Rightarrow> bool" where
  "ended nego \<longleftrightarrow> n_state nego \<in> {NEGO_STATE_FAIL, NEGO_STATE_FINAL}"

lemma check_selected_ended: "ended nego \<Longrightarrow> ended (check_selected nego)"
  using check_selected_cases [of nego] by (auto simp: ended_def)

lemma response_run:
  "wf_stream s \<Longrightarrow> run_ok (nego_process_negotiation_response nego s) (\<lambda>(ok, nego') s'. consumed s s' \<and> ended nego')"
  by (auto simp: nego_process_negotiation_response_def run_simps stream_simps ended_def)

lemma failure_run:
  "wf_stream s \<Longrightarrow> run_ok (nego_process_negotiation_failure nego s) (\<lambda>(ok, nego') s'. consumed s s' \<and> (ok \<longrightarrow> ended nego'))"
  by (auto simp: nego_process_negotiation_failure_def run_simps stream_simps ended_def Let_def)

lemma recv_nego_data_run:
  assumes "wf_stream s" "li > 6 \<longrightarrow> 1 \<le> avail s"
  shows "run_ok (recv_nego_data nego li s) (\<lambda>(ok, nego') s'. consumed s s' \<and>
    (ok \<longrightarrow> (li > 6 \<longrightarrow> rest s ! 0 \<in> {TYPE_RDP_NEG_RSP, TYPE_RDP_NEG_FAILURE}) \<longrightarrow> ended nego'))"
proof (cases "li > 6")
  case True
  let ?t = "Stream_Seek s 1"
  have a: "1 \<le> avail s" using True assms(2) by simp
  have t: "wf_stream ?t" and c: "consumed s ?t" using a assms(1) by (simp_all add: stream_simps)
  have rd: "Stream_Read_UINT8 s = Some (rest s ! 0, ?t)" using a assms(1) by (simp add: stream_simps)
  consider (rsp) "rest s ! 0 = TYPE_RDP_NEG_RSP" | (failure) "rest s ! 0 = TYPE_RDP_NEG_FAILURE" "rest s ! 0 \<noteq> TYPE_RDP_NEG_RSP"
    | (other) "rest s ! 0 \<noteq> TYPE_RDP_NEG_RSP" "rest s ! 0 \<noteq> TYPE_RDP_NEG_FAILURE" by blast
  then show ?thesis
  proof cases
    case rsp
    have "run_ok (nego_process_negotiation_response nego ?t) (\<lambda>(ok, n) s'. consumed s s' \<and> ended (if ok then check_selected n else n))"
      by (rule run_ok_mono [OF response_run [OF t]]) (auto simp: check_selected_ended intro: consumed_trans [OF c])
    then obtain ok n s' where "nego_process_negotiation_response nego ?t = Some ((ok, n), s')" "consumed s s'"
      "ended (if ok then check_selected n else n)" by (auto elim!: run_okE)
    then show ?thesis using True rd rsp by (auto simp: recv_nego_data_def)
  next
    case failure
    have "run_ok (nego_process_negotiation_failure nego ?t) (\<lambda>(ok, n) s'. consumed s s' \<and> (ok \<longrightarrow> ended n))"
      by (rule run_ok_mono [OF failure_run [OF t]]) (auto intro: consumed_trans [OF c])
    then show ?thesis using True rd failure by (auto simp: recv_nego_data_def intro: run_ok_mono)
  next
    case other
    then show ?thesis using True rd c by (simp add: recv_nego_data_def)
  qed
next
  case False
  then show ?thesis by (auto simp: recv_nego_data_def ended_def)
qed

lemma nego_recv_run:
  assumes w: "wf_stream s" and b: "avail s < 2 ^ 63"
  shows "run_ok (nego_recv nego s) (\<lambda>(r, nego') s'. consumed s s' \<and> (r = 0 \<longrightarrow> known_answer (rest s) \<longrightarrow> ended nego'))"
proof -
  obtain r1 s1 where r1: "tpkt_read_header s = Some (r1, s1)" "wf_stream s1" "consumed s s1"
    "case r1 of None \<Rightarrow> True | Some len \<Rightarrow> if rest s ! 0 = 3 then s1 = Stream_Seek s 4 \<and> 7 \<le> unat len else s1 = s \<and> len = 0"
    using run_ok_conjI [OF tpkt_read_header_run [OF w] safe_readerD [OF safe_tpkt_read_header w]]
    by (elim run_okE) (cases "rest s ! 0 = 3", auto split: option.splits)
  show ?thesis
  proof (cases r1)
    case None
    then show ?thesis using r1 by (simp add: nego_recv_def)
  next
    case (Some len)
    have b1: "avail s1 < 2 ^ 63" using r1(3) b by (auto simp: consumed_def stream_simps)
    obtain r2 s2 where r2: "tpdu_read_connection_confirm s1 len = Some (r2, s2)" "wf_stream s2" "consumed s1 s2"
      "case r2 of None \<Rightarrow> True | Some li \<Rightarrow> s2 = Stream_Seek s1 7 \<and> li = rest s1 ! 0 \<and> unat li + 4 \<le> unat len \<and> 6 \<le> unat li \<and> unat li + 1 \<le> avail s1"
      using tpdu_read_connection_confirm_run [OF r1(2) b1, of len] by (auto elim!: run_okE)
    show ?thesis
    proof (cases r2)
      case None
      then show ?thesis using Some r1 r2 consumed_trans by (auto simp: nego_recv_def)
    next
      case (Some li)
      have len: "len \<noteq> 0" using r2(4) Some by auto
      then have s1: "s1 = Stream_Seek s 4" using r1(4) \<open>r1 = Some len\<close> by (auto split: if_splits)
      have li: "s2 = Stream_Seek s 11" "li = rest s ! 4" "unat li + 1 \<le> avail s - 4"
        using r2(4) Some s1 length_rest [OF w] by (auto simp: stream_simps)
      then have av: "12 \<le> avail s" if "li > 6" using that by (simp add: word_less_nat_alt)
      have known: "li > 6 \<longrightarrow> rest s2 ! 0 \<in> {TYPE_RDP_NEG_RSP, TYPE_RDP_NEG_FAILURE}" if "known_answer (rest s)"
        using that av li length_rest [OF w] by (auto simp: known_answer_def stream_simps)
      have "li > 6 \<longrightarrow> 1 \<le> avail s2" using av li by (auto simp: stream_simps)
      from recv_nego_data_run [OF r2(2) this, of nego] obtain ok n s3 where
        r3: "recv_nego_data nego li s2 = Some ((ok, n), s3)" "consumed s2 s3" "ok \<longrightarrow> known_answer (rest s) \<longrightarrow> ended n"
        using known by (auto elim!: run_okE)
      have "consumed s s3" using r1(3) r2(3) r3(2) consumed_trans by blast
      then show ?thesis using r1(1) r2(1) r3 Some \<open>r1 = Some len\<close> by (simp add: nego_recv_def)
    qed
  qed
qed

section \<open>The negotiation ends\<close>

text \<open>
  What the code relies on: reading leaves a well-formed stream, the converted string has the size that is
  announced, and, for the end of the negotiation, the peer sends negotiation data of a known type.
\<close>

definition transport_ok :: "'w transport_ops \<Rightarrow> bool" where
  "transport_ok ops \<longleftrightarrow> (\<forall>s w status s' w'. wf_cap s \<longrightarrow> op_read_pdu ops s w = (status, s', w') \<longrightarrow> status \<ge> 0 \<longrightarrow>
     wf_stream s' \<and> avail s' < 2 ^ 63)"

definition peer_ok :: "'w transport_ops \<Rightarrow> bool" where
  "peer_ok ops \<longleftrightarrow> (\<forall>s w status s' w'. op_read_pdu ops s w = (status, s', w') \<longrightarrow> status \<ge> 0 \<longrightarrow> known_answer (rest s'))"

definition conv_ok :: "(byte list \<Rightarrow> int \<times> byte list option) \<Rightarrow> bool" where
  "conv_ok conv \<longleftrightarrow> (\<forall>blob n wsz. conv blob = (n, Some wsz) \<longrightarrow> unat (word_of_int n + 1 :: u16) * 2 \<le> length wsz)"

definition request_fits :: "rdpNego \<Rightarrow> bool" where
  "request_fits nego \<longleftrightarrow> token_ok nego \<and> length (token_enc nego) + 19 \<le> 512"

lemma request_fits_config: "same_config nego nego' \<Longrightarrow> request_fits nego \<Longrightarrow> request_fits nego'"
  by (simp add: same_config_def request_fits_def token_ok_def token_enc_def cong: option.case_cong)

lemma request_sends:
  assumes "malloc_ok malloc" "request_fits nego" "Stream_New malloc None 512 = Some s"
  shows "\<exists>m. sent (request_enc nego) m \<and>
    nego_send_negotiation_request ops malloc nego w = Some (fst (op_write ops m w) \<ge> 0, snd (op_write ops m w))"
proof -
  have "length (request_data_enc nego) \<le> 8" by (simp add: request_data_enc_def)
  then have l: "11 + length (request_body nego) \<le> 512" using assms(2) by (simp add: request_fits_def request_body_def)
  note n = new_stream [OF assms(1,3), simplified]
  obtain m where "negotiation_request nego s = Some (Some m)" "sent (request_enc nego) m"
    using negotiation_request_sent [of nego s] assms(2) n l by (auto simp: request_fits_def)
  then show ?thesis using assms(3) by (intro exI [of _ m]) (simp add: nego_send_negotiation_request_def case_prod_unfold Let_def)
qed

lemma request_returns:
  assumes "malloc_ok malloc" "request_fits nego"
  shows "\<exists>r. nego_send_negotiation_request ops malloc nego w = Some r"
proof (cases "Stream_New malloc None 512")
  case None
  then show ?thesis by (simp add: nego_send_negotiation_request_def del: split_paired_Ex)
next
  case (Some s)
  then show ?thesis using request_sends [OF assms Some, of ops w] by blast
qed

lemma recv_response_returns:
  assumes "malloc_ok malloc" "transport_ok ops"
  shows "\<exists>ok nego' w'. nego_recv_response ops malloc nego w = Some (ok, nego', w') \<and> (peer_ok ops \<longrightarrow> ok \<longrightarrow> ended nego')"
proof (cases "Stream_New malloc None 1024")
  case None
  then show ?thesis by (auto simp: nego_recv_response_def)
next
  case (Some s)
  have w: "wf_cap s" using new_stream [OF assms(1) Some] by simp
  obtain status s1 w1 where rd: "op_read_pdu ops s w = (status, s1, w1)" by (metis prod_cases3)
  show ?thesis
  proof (cases "status < 0")
    case True
    then show ?thesis using Some rd by (auto simp: nego_recv_response_def)
  next
    case False
    then have s1: "wf_stream s1" "avail s1 < 2 ^ 63" "peer_ok ops \<longrightarrow> known_answer (rest s1)"
      using assms(2) w rd unfolding transport_ok_def peer_ok_def by (meson linorder_not_less)+
    obtain r n s2 where "nego_recv nego s1 = Some ((r, n), s2)" "r = 0 \<longrightarrow> known_answer (rest s1) \<longrightarrow> ended n"
      using nego_recv_run [OF s1(1,2), of nego] by (auto elim!: run_okE)
    moreover from this have "r = 0 \<or> r = - 1"
      by (auto simp: nego_recv_def Option.bind_eq_Some_conv split: option.splits if_splits)
    ultimately show ?thesis using Some rd False s1(3) by (auto simp: nego_recv_response_def)
  qed
qed

lemma exchange_returns:
  assumes m: "malloc_ok malloc" "transport_ok ops" and f: "request_fits nego" "NegotiateSecurityLayer nego"
  shows "\<exists>ok nego' w'. nego_exchange ops malloc nego w = Some (ok, nego', w') \<and> (peer_ok ops \<longrightarrow> ended nego')"
proof -
  obtain b n1 w1 where c: "nego_transport_connect ops nego w = (b, n1, w1)" by (metis prod_cases3)
  have "request_fits n1" using transport_connect_config [OF c f(2)] f(1) request_fits_config by blast
  then obtain b2 w2 where r: "nego_send_negotiation_request ops malloc n1 w1 = Some (b2, w2)"
    using request_returns [OF m(1)] by fastforce
  obtain b3 n3 w3 where "nego_recv_response ops malloc n1 w2 = Some (b3, n3, w3)" "peer_ok ops \<longrightarrow> b3 \<longrightarrow> ended n3"
    using recv_response_returns [OF m] by blast
  then show ?thesis using c r by (auto simp: nego_exchange_def ended_def)
qed

lemma nego_send_returns:
  assumes m: "malloc_ok malloc" "transport_ok ops" and f: "request_fits nego" "NegotiateSecurityLayer nego"
    and r: "0 < rank (n_state nego)"
  shows "\<exists>nego' w'. nego_send ops malloc nego w = Some (nego', w') \<and> (peer_ok ops \<longrightarrow> rank (n_state nego') < rank (n_state nego))"
proof -
  have e: "\<exists>ok nego' w'. nego_exchange ops malloc (nego\<lparr>RequestedProtocols := p\<rparr>) w = Some (ok, nego', w') \<and> (peer_ok ops \<longrightarrow> ended nego')" for p
    by (rule exchange_returns [OF m request_fits_config [OF _ f(1)]]) (use f(2) in \<open>simp_all add: same_config_def\<close>)
  have "\<exists>nego' w'. nego_send ops malloc nego w = Some (nego', w') \<and> (peer_ok ops \<longrightarrow> n_state nego = NEGO_STATE_RDP \<longrightarrow> ended nego')"
    using e [of "PROTOCOL_HYBRID OR PROTOCOL_SSL OR PROTOCOL_HYBRID_EX"] e [of "PROTOCOL_HYBRID OR PROTOCOL_SSL"] e [of PROTOCOL_SSL] e [of PROTOCOL_RDP] r
    by (cases "n_state nego") (auto simp: nego_send_def nego_attempt_ext_def nego_attempt_nla_def nego_attempt_tls_def nego_attempt_rdp_def
        simp del: split_paired_Ex)
  then obtain n w' where n: "nego_send ops malloc nego w = Some (n, w')" "peer_ok ops \<longrightarrow> n_state nego = NEGO_STATE_RDP \<longrightarrow> ended n" by blast
  have "nego_step nego n" by (rule nego_send_step [OF n(1) f(2) r])
  then have "peer_ok ops \<longrightarrow> rank (n_state n) < rank (n_state nego)" using n(2) r
    by (auto elim!: nego_step.cases simp: ended_def)
  then show ?thesis using n(1) by blast
qed

lemma nego_loop_returns:
  assumes "malloc_ok malloc" "transport_ok ops" "peer_ok ops" "request_fits nego" "NegotiateSecurityLayer nego" "0 < rank (n_state nego)"
  shows "\<exists>r. nego_loop ops malloc nego w = Some r"
  using assms(4-6)
proof (induction "rank (n_state nego)" arbitrary: nego w rule: less_induct)
  case less
  obtain n w1 where n: "nego_send ops malloc nego w = Some (n, w1)" "rank (n_state n) < rank (n_state nego)"
    using nego_send_returns [OF assms(1,2) less.prems] assms(3) by blast
  have st: "nego_step nego n" by (rule nego_send_step [OF n(1) less.prems(2,3)])
  have c: "same_config nego n" by (rule nego_step_config [OF st])
  show ?case
  proof (cases "ended n")
    case True
    then show ?thesis using n(1) by (subst nego_loop.simps) (auto simp: ended_def)
  next
    case False
    then have "0 < rank (n_state n)" using nego_step_continues [OF st] by (auto simp: ended_def)
    moreover have "NegotiateSecurityLayer n" using less.prems(2) c by (simp add: same_config_def)
    ultimately obtain r where "nego_loop ops malloc n w1 = Some r"
      using less.hyps [OF n(2) request_fits_config [OF c less.prems(1)]] by blast
    then show ?thesis using n(1) False by (subst nego_loop.simps) (simp add: ended_def del: split_paired_Ex)
  qed
qed

lemma preconnection_returns:
  assumes m: "malloc_ok malloc" "conv_ok conv"
  shows "\<exists>r. nego_send_preconnection_pdu ops malloc conv nego w = Some r"
proof -
  obtain b n1 w1 where t: "nego_tcp_connect ops nego w = (b, n1, w1)" by (metis prod_cases3)
  obtain cch wsz where p: "(case PreconnectionBlob n1 of None \<Rightarrow> (0 :: u16, None)
      | Some blob \<Rightarrow> case conv blob of (n, wsz) \<Rightarrow> (word_of_int n + 1, wsz)) = (cch, wsz)" by fastforce
  have z: "wsz = Some z \<Longrightarrow> PreconnectionBlob n1 \<noteq> None \<and> unat cch * 2 \<le> length z" for z
    using p m(2) by (auto simp: conv_ok_def Let_def split: option.splits prod.splits)
  define cb where "cb = (18 :: u32) + (if PreconnectionBlob n1 = None then 0 else word_of_nat (unat cch * 2))"
  have "unat cch < 65536" using unsigned_less [where 'a = nat, of cch] by simp
  then have cb: "unat cb = 18 + (if PreconnectionBlob n1 = None then 0 else unat cch * 2)"
    by (simp add: cb_def unat_word_ariths(1) unat_of_nat del: of_nat_mult)
  note unfold = nego_send_preconnection_pdu_def t p Let_def prod.case cb_def [symmetric]
  show ?thesis
  proof (cases "\<not> b \<or> Stream_New malloc None (unat cb) = None")
    case True
    then show ?thesis unfolding unfold by (auto simp del: split_paired_Ex)
  next
    case False
    then obtain s where s: "Stream_New malloc None (unat cb) = Some s" by auto
    have n: "wf_cap s" "room s = unat cb" using new_stream [OF m(1) s] unsigned_less [where 'a = nat, of cb] by simp_all
    have r: "18 \<le> room s" "wsz = Some z \<Longrightarrow> 18 + unat cch * 2 \<le> room s" for z using n(2) cb z by auto
    let ?h = "put s [ucast cb, ucast (drop_bit 8 cb), ucast (drop_bit 16 cb), ucast (drop_bit 24 cb), 0, 0, 0, 0, 2, 0, 0, 0,
      ucast (PreconnectionId n1), ucast (drop_bit 8 (PreconnectionId n1)), ucast (drop_bit 16 (PreconnectionId n1)),
      ucast (drop_bit 24 (PreconnectionId n1)), ucast cch, ucast (drop_bit 8 cch)]"
    have "\<exists>s'. (case wsz of None \<Rightarrow> Some ?h | Some z \<Rightarrow> mem_read z 0 (unat cch * 2) \<bind> Stream_Write ?h) = Some s'"
      using n r z by (cases wsz) (auto simp: stream_simps)
    then obtain s' where "(case wsz of None \<Rightarrow> Some ?h | Some z \<Rightarrow> mem_read z 0 (unat cch * 2) \<bind> Stream_Write ?h) = Some s'" by blast
    then show ?thesis using False s n r(1) unfolding unfold by (simp add: stream_simps case_prod_unfold del: split_paired_Ex)
  qed
qed

section \<open>An example\<close>

text \<open>A transport to a server that answers every request by selecting a protocol, and a client with two protocols.\<close>

definition example_ops :: "byte list \<Rightarrow> unit transport_ops" where
  "example_ops answer = \<lparr>op_set_gateway_enabled = (\<lambda>_ w. w), op_connect = (\<lambda>_ _ _ w. (True, w)), op_disconnect = (\<lambda>w. w),
     op_connect_nla = (\<lambda>w. (True, w)), op_connect_tls = (\<lambda>w. (True, w)), op_connect_rdp = (\<lambda>w. (True, w)),
     op_accept_nla = (\<lambda>w. (True, w)), op_accept_tls = (\<lambda>w. (True, w)), op_accept_rdp = (\<lambda>w. (True, w)),
     op_set_blocking_mode = (\<lambda>_ w. w), op_write = (\<lambda>_ w. (0, w)), op_read_pdu = (\<lambda>_ w. (0, Stream_StaticInit answer, w))\<rparr>"

definition answer_with :: "byte \<Rightarrow> byte list" where
  "answer_with p = [3, 0, 0, 19, 14, 0xD0, 0, 0, 0, 0, 0, 2, 0, 8, 0, p, 0, 0, 0]"

definition example_nego :: rdpNego where
  "example_nego = zero_nego\<lparr>n_cookie := Some [97, 98], CookieMaxLength := 255, NegotiateSecurityLayer := True,
     EnabledProtocols := (replicate 16 False)[1 := True, 2 := True]\<rparr>"

definition example_settings :: nego_settings where
  "example_settings = \<lparr>set_RequestedProtocols = 0, set_SelectedProtocol = 0, set_NegotiationFlags = 0, set_UseRdpSecurityLayer = False,
     set_EncryptionMethods = 0, set_EncryptionLevel = 0, set_TlsSecurity = True, set_NlaSecurity = True, set_RdpSecurity = False,
     set_SupportGraphicsPipeline = False, set_LocalConnection = False, set_RdpServerRsaKey = False, set_RdpKeyFile = False,
     set_RdpKeyContent = False\<rparr>"

lemma example_enabled:
  "\<not> enabled example_nego PROTOCOL_RDP" "\<not> enabled example_nego PROTOCOL_HYBRID_EX" "enabled example_nego PROTOCOL_HYBRID" "enabled example_nego PROTOCOL_SSL"
  by (simp_all add: enabled_def example_nego_def protocol_defs nth_list_update)

lemma zero_malloc_ok: "malloc_ok zero_malloc"
  by (simp add: malloc_ok_def zero_malloc_def)

lemma example_fits: "request_fits example_nego"
  by (simp add: request_fits_def token_ok_def token_enc_def example_nego_def zero_nego_def)

lemma example_answer: "wf_stream (Stream_StaticInit (answer_with p))" "rest (Stream_StaticInit (answer_with p)) = answer_with p"
  "avail (Stream_StaticInit (answer_with p)) = 19"
  by (simp_all add: answer_with_def avail_def Stream_StaticInit_def wf_stream_def wf_cap_def rest_def)

lemma example_recv:
  "nego_recv nego (Stream_StaticInit (answer_with p)) =
    Some ((0, check_selected (nego\<lparr>n_flags := 0, SelectedProtocol := ucast p, n_state := NEGO_STATE_FINAL\<rparr>)),
      Stream_Seek (Stream_StaticInit (answer_with p)) 19)"
  using example_answer [of p]
  by (simp add: nego_recv_def tpkt_read_header_def tpdu_read_connection_confirm_def tpdu_read_header_def stream_simps recv_nego_data_def
      nego_process_negotiation_response_def x224_defs neg_type_defs tpkt_ensure_stream_consumed_def answer_with_def Stream_GetPosition_def
      Stream_StaticInit_def)

lemma example_request:
  assumes "request_fits nego"
  shows "nego_send_negotiation_request (example_ops a) zero_malloc nego w = Some (True, ())"
proof -
  obtain s where s: "Stream_New zero_malloc None 512 = Some s" by (auto simp: Stream_New_def zero_malloc_def)
  show ?thesis using request_sends [OF zero_malloc_ok assms s, of "example_ops a" w] by (auto simp: example_ops_def)
qed

lemma example_connect:
  "\<exists>nego' settings' w'. nego_connect (example_ops (answer_with 1)) zero_malloc (\<lambda>_. (0, None)) example_nego example_settings () =
    Some (True, nego', settings', w')"
proof -
  let ?ops = "example_ops (answer_with 1)"
  let ?n = "example_nego\<lparr>n_state := NEGO_STATE_NLA, RequestedProtocols := PROTOCOL_HYBRID OR PROTOCOL_SSL\<rparr>"
  let ?m = "?n\<lparr>TcpConnected := True\<rparr>" let ?f = "example_nego\<lparr>RequestedProtocols := PROTOCOL_HYBRID OR PROTOCOL_SSL, TcpConnected := True, n_flags := 0,
    SelectedProtocol := PROTOCOL_SSL, n_state := NEGO_STATE_FINAL\<rparr>"
  have neg: "NegotiateSecurityLayer example_nego" "\<not> SendPreconnectionPdu example_nego" "n_state example_nego = NEGO_STATE_INITIAL"
    "\<not> TcpConnected example_nego" "\<not> GatewayEnabled example_nego" "\<not> SecurityConnected example_nego"
    by (simp_all add: example_nego_def zero_nego_def)
  have "request_fits ?m" by (rule request_fits_config [OF _ example_fits]) (simp add: same_config_def)
  note rq = example_request [OF this, of "answer_with 1" "()"]
  have tc: "nego_transport_connect ?ops ?n () = (True, ?m, ())"
    using neg by (simp add: nego_transport_connect_def nego_tcp_connect_def Let_def example_ops_def)
  have "check_selected ?f = ?f" by (simp add: check_selected_def example_enabled) (simp add: protocol_defs)
  then have rc: "nego_recv ?m (Stream_StaticInit (answer_with 1)) = Some ((0, ?f), Stream_Seek (Stream_StaticInit (answer_with 1)) 19)"
    using example_recv [of ?m 1] by (simp add: protocol_defs)
  have rr: "nego_recv_response ?ops zero_malloc ?m () = Some (True, ?f, ())"
    by (simp add: nego_recv_response_def Stream_New_def zero_malloc_def Let_def example_ops_def rc)
  have "nego_exchange ?ops zero_malloc ?n () = Some (True, ?f, ())" unfolding nego_exchange_def tc by (simp add: rq rr)
  then have "nego_send ?ops zero_malloc (example_nego\<lparr>n_state := NEGO_STATE_NLA\<rparr>) () = Some (?f, ())"
    by (simp add: nego_send_def nego_attempt_nla_def fall_back_def)
  then have lp: "nego_loop ?ops zero_malloc (example_nego\<lparr>n_state := NEGO_STATE_NLA\<rparr>) () = Some (True, ?f, ())"
    by (subst nego_loop.simps) simp
  have sc: "nego_security_connect ?ops ?f () = (True, ?f\<lparr>SecurityConnected := True\<rparr>, ())"
    using neg by (simp add: nego_security_connect_def example_ops_def protocol_defs)
  have "first_state example_nego = NEGO_STATE_NLA" by (simp add: first_state_def example_enabled)
  then have "nego_start ?ops zero_malloc (\<lambda>_. (0, None)) example_nego () = Some (True, example_nego\<lparr>n_state := NEGO_STATE_NLA\<rparr>, ())"
    using neg by (simp add: nego_start_def)
  then show ?thesis using neg by (simp add: nego_connect_def lp sc Let_def)
qed

section \<open>Properties of the client\<close>

text \<open>
  C4: The client cannot be talked down to the weak standard security: if that protocol is not enabled,
  then whatever the peer and the network do, a connection that succeeds uses TLS or NLA, the one it
  uses was enabled by the user, and it is the one recorded in the settings.
\<close>

theorem nego_no_downgrade:
  assumes c: "nego_connect ops malloc conv nego settings w = Some (True, nego', settings', w')"
    and i: "n_state nego = NEGO_STATE_INITIAL" "\<not> SecurityConnected nego" and r: "\<not> enabled nego PROTOCOL_RDP"
  shows "SelectedProtocol nego' \<in> {PROTOCOL_SSL, PROTOCOL_HYBRID} \<and> enabled nego (SelectedProtocol nego') \<and>
    set_SelectedProtocol settings' = SelectedProtocol nego'"
proof -
  obtain n1 w1 n2 w2 where n1: "nego_start ops malloc conv nego w = Some (True, n1, w1)"
    and n2: "(if \<not> NegotiateSecurityLayer n1 then Some (True, n1\<lparr>n_state := NEGO_STATE_FINAL\<rparr>, w1) else nego_loop ops malloc n1 w1) = Some (True, n2, w2)"
    and s: "settings' = update_settings n2 settings" and sec: "nego_security_connect ops n2 w2 = (True, nego', w')"
    using nego_connect_parts [OF c] by metis
  note st = nego_start_result [OF n1 i(1)]
  have "\<not> SecurityConnected n2 \<and> (SelectedProtocol n2 \<in> {PROTOCOL_SSL, PROTOCOL_HYBRID, PROTOCOL_RDP} \<longrightarrow>
      SelectedProtocol n2 \<in> {PROTOCOL_SSL, PROTOCOL_HYBRID} \<and> enabled nego (SelectedProtocol n2))"
  proof (cases "NegotiateSecurityLayer nego")
    case True
    then have c1: "same_config nego n1" "NegotiateSecurityLayer n1" "0 < rank (n_state n1)"
      using st first_state_rank by (auto simp: same_config_def)
    then have "same_config n1 n2" "selection_ok n2" using nego_loop_sound [of ops malloc n1 w1 n2 w2] n2 by auto
    then have "same_config nego n2" "selection_ok n2" using same_config_trans c1(1) by blast+
    then show ?thesis using i(2) r same_config_enabled [of nego n2] by (auto simp: selection_ok_def same_config_def)
  next
    case False
    let ?n = "only_highest (nego\<lparr>n_state := first_state nego\<rparr>)"
    have n: "same_config ?n n1" "SelectedProtocol n1 = SelectedProtocol ?n" "first_state nego \<noteq> NEGO_STATE_FAIL" using st False by auto
    then have "NegotiateSecurityLayer n1 = False" using False by (simp add: same_config_def only_highest_negotiates)
    then have "SelectedProtocol n2 = SelectedProtocol ?n" "SecurityConnected n2 = SecurityConnected n1" using n2 n(2) by auto
    moreover have "\<not> SecurityConnected n1" using n(1) i(2) by (auto simp: same_config_def only_highest_security)
    ultimately show ?thesis using only_highest_selection [OF r _ n(3)] by (simp add: Let_def)
  qed
  then show ?thesis using security_connect_selected [OF sec] s settings_selected by auto
qed

theorem nego_no_downgrade_witness:
  "\<exists>nego' settings' w'. nego_connect (example_ops (answer_with 1)) zero_malloc (\<lambda>_. (0, None)) example_nego example_settings () =
      Some (True, nego', settings', w') \<and>
    SelectedProtocol nego' \<in> {PROTOCOL_SSL, PROTOCOL_HYBRID} \<and> enabled example_nego (SelectedProtocol nego') \<and>
    set_SelectedProtocol settings' = SelectedProtocol nego'"
proof -
  obtain nego' settings' w' where c: "nego_connect (example_ops (answer_with 1)) zero_malloc (\<lambda>_. (0, None)) example_nego example_settings () =
    Some (True, nego', settings', w')" using example_connect by blast
  have "n_state example_nego = NEGO_STATE_INITIAL" "\<not> SecurityConnected example_nego" by (simp_all add: example_nego_def zero_nego_def)
  from nego_no_downgrade [OF c this example_enabled(1)] c show ?thesis by blast
qed

text \<open>
  C6: The negotiation comes to an end, without leaving a buffer, under two conditions: the request, with its
  routing token or cookie, fits the buffer of 512 bytes, and each answer the peer sends carries a response, a
  failure or no negotiation data. Then \<^verbatim>\<open>nego_connect\<close>, called in its initial state, returns, however many of the
  attempts fail. The transport has to hand over well-formed streams, and the conversion of the preconnection string
  has to be as long as it says. Without the two conditions the client may write outside the buffer or never return.
\<close>

theorem nego_connect_returns:
  assumes "malloc_ok malloc" "transport_ok ops" "peer_ok ops" "conv_ok conv"
    and f: "request_fits nego" and i: "n_state nego = NEGO_STATE_INITIAL"
  shows "\<exists>r. nego_connect ops malloc conv nego settings w = Some r"
proof -
  have "nego_send_preconnection_pdu ops malloc conv n w \<noteq> None" for n w using preconnection_returns [OF assms(1,4), of ops n w] by auto
  then have "nego_start ops malloc conv nego w \<noteq> None" by (simp add: nego_start_def Let_def bind_eq_None_conv case_prod_unfold del: not_None_eq)
  then obtain ok n1 w1 where n1: "nego_start ops malloc conv nego w = Some (ok, n1, w1)" by auto
  have "\<exists>r. nego_loop ops malloc n1 w1 = Some r" if ok "NegotiateSecurityLayer n1"
  proof -
    have st: "n_state n1 = first_state nego" "first_state nego \<noteq> NEGO_STATE_FAIL" using nego_start_result [of ops malloc conv nego w n1 w1] n1 that(1) i by simp_all
    have "NegotiateSecurityLayer nego"
      using nego_start_result [of ops malloc conv nego w n1 w1] n1 that i by (auto simp: same_config_def only_highest_negotiates split: if_splits)
    then have "same_config nego n1" using nego_start_result [of ops malloc conv nego w n1 w1] n1 that(1) i by simp
    then show ?thesis
      using st first_state_rank [of nego] by (intro nego_loop_returns [OF assms(1-3) request_fits_config [OF _ f] that(2)]) simp_all
  qed
  then show ?thesis using n1
    by (cases ok; cases "NegotiateSecurityLayer n1")
      (auto simp: nego_connect_def Let_def simp del: split_paired_Ex split: prod.splits)
qed

theorem nego_connect_returns_witness:
  "\<exists>r. nego_connect (example_ops (answer_with 1)) zero_malloc (\<lambda>_. (0, None)) example_nego example_settings () = Some r"
proof (rule nego_connect_returns [OF zero_malloc_ok _ _ _ example_fits])
  show "transport_ok (example_ops (answer_with 1))" by (simp add: transport_ok_def example_ops_def example_answer)
  show "peer_ok (example_ops (answer_with 1))"
    by (simp add: peer_ok_def example_ops_def example_answer known_answer_def) (simp add: answer_with_def neg_type_defs)
  show "conv_ok (\<lambda>_. (0, None))" by (simp add: conv_ok_def)
  show "n_state example_nego = NEGO_STATE_INITIAL" by (simp add: example_nego_def zero_nego_def)
qed

end
