(* ===== verification/Nego_Server.thy ===== *)
theory Nego_Server
  imports Nego
begin

text \<open>
  The server's side of the negotiation: reading the connection request with its routing token or cookie,
  choosing a protocol (\<^verbatim>\<open>rdp_server_accept_nego\<close> of \<^verbatim>\<open>libfreerdp/core/connection.c\<close>) and sending the
  response.
\<close>

section \<open>Reading the request\<close>

text \<open>The search for the end of the token or cookie, byte by byte; the value is the last pair of bytes read.\<close>

partial_function (option) crlf_loop :: "wStream \<Rightarrow> u16 \<Rightarrow> (u16 \<times> wStream) option" where
  "crlf_loop s crlf =
     (if Stream_GetRemainingLength s \<ge> 2 then
        (case Stream_Read_UINT16 s of None \<Rightarrow> None
         | Some (crlf, s) \<Rightarrow>
             if crlf = 0x0A0D then Some (crlf, s)
             else (case Stream_Rewind s 1 of None \<Rightarrow> None | Some s \<Rightarrow> crlf_loop s crlf))
      else Some (crlf, s))"

declare crlf_loop.simps [code]

definition store_token_or_cookie ::
  "allocator \<Rightarrow> rdpNego \<Rightarrow> bool \<Rightarrow> nat \<Rightarrow> wStream \<Rightarrow> ((bool \<times> rdpNego) \<times> wStream) option" where
  "store_token_or_cookie malloc nego isToken pos s = do {
     s \<leftarrow> Stream_Rewind s 2;
     let len = sub64 (Stream_GetPosition s) pos;
     s \<leftarrow> Stream_Write_UINT16 s 0;
     str \<leftarrow> mem_read (s_buffer s) pos len;
     (if 0 \<notin> set str then
        if isToken then do {
          (ok, nego) \<leftarrow> nego_set_routing_token malloc nego str (word_of_nat len);
          Some ((ok, nego), s) }
        else Some (nego_set_cookie malloc nego (Some str), s)
      else Some ((False, nego), s)) }"

text \<open>\<open>memcmp\<close> compares 17 bytes, also when fewer are left.\<close>

definition nego_read_request_token_or_cookie :: "allocator \<Rightarrow> rdpNego \<Rightarrow> wStream \<Rightarrow> ((bool \<times> rdpNego) \<times> wStream) option" where
  "nego_read_request_token_or_cookie malloc nego s =
     (let remain = Stream_GetRemainingLength s; pos = Stream_GetPosition s in
      if remain < 15 then Some ((True, nego), s)
      else do {
        bytes \<leftarrow> Stream_Peek s 17;
        let isToken = (bytes \<noteq> cookie_prefix);
        (if \<not> isToken \<and> remain < 19 then Some ((True, nego), s)
         else do {
           let s = (if isToken then s else Stream_Seek s 17);
           (crlf, s) \<leftarrow> crlf_loop s 0;
           ((result, nego), s) \<leftarrow>
             (if crlf = 0x0A0D then store_token_or_cookie malloc nego isToken pos s else Some ((False, nego), s));
           Some ((result, nego), if \<not> result then Stream_SetPosition s pos else s) }) })"

definition nego_process_negotiation_request :: "rdpNego \<Rightarrow> wStream \<Rightarrow> ((bool \<times> rdpNego) \<times> wStream) option" where
  "nego_process_negotiation_request nego s =
     (if Stream_GetRemainingLength s < 7 then Some ((False, nego), s)
      else do {
        (flags, s) \<leftarrow> Stream_Read_UINT8 s;
        (len, s) \<leftarrow> Stream_Read_UINT16 s;
        (requested, s) \<leftarrow> Stream_Read_UINT32 s;
        Some ((True, nego\<lparr>RequestedProtocols := requested, n_state := NEGO_STATE_FINAL\<rparr>), s) })"

text \<open>The optional negotiation data of a request.\<close>

definition read_request_data :: "rdpNego \<Rightarrow> wStream \<Rightarrow> ((bool \<times> rdpNego) \<times> wStream) option" where
  "read_request_data nego s =
     (if Stream_GetRemainingLength s \<ge> 8 then do {
        (type, s) \<leftarrow> Stream_Read_UINT8 s;
        (if type \<noteq> TYPE_RDP_NEG_REQ then Some ((False, nego), s) else nego_process_negotiation_request nego s) }
      else Some ((True, nego), s))"

definition nego_read_request :: "allocator \<Rightarrow> rdpNego \<Rightarrow> wStream \<Rightarrow> ((bool \<times> rdpNego) \<times> wStream) option" where
  "nego_read_request malloc nego s = do {
     (len, s) \<leftarrow> tpkt_read_header s;
     (case len of None \<Rightarrow> Some ((False, nego), s)
      | Some len \<Rightarrow> do {
          (li, s) \<leftarrow> tpdu_read_connection_request s len;
          (case li of None \<Rightarrow> Some ((False, nego), s)
           | Some li \<Rightarrow>
               if unat li \<noteq> add64 (Stream_GetRemainingLength s) 6 then Some ((False, nego), s)
               else do {
                 ((ok, nego), s) \<leftarrow> nego_read_request_token_or_cookie malloc nego s;
                 (if \<not> ok then Some ((False, nego), s)
                  else do {
                    ((ok, nego), s) \<leftarrow> read_request_data nego s;
                    Some ((ok \<and> tpkt_ensure_stream_consumed s, nego), s) }) }) }) }"

section \<open>The response\<close>

definition write_response_data :: "rdpNego \<Rightarrow> nego_settings \<Rightarrow> wStream \<Rightarrow> wStream option" where
  "write_response_data nego settings s =
     (if SelectedProtocol nego AND PROTOCOL_FAILED_NEGO \<noteq> 0 then do {
        s \<leftarrow> Stream_Write_UINT8 s TYPE_RDP_NEG_FAILURE;
        s \<leftarrow> Stream_Write_UINT8 s 0;
        s \<leftarrow> Stream_Write_UINT16 s 8;
        Stream_Write_UINT32 s (SelectedProtocol nego AND NOT PROTOCOL_FAILED_NEGO) }
      else do {
        s \<leftarrow> Stream_Write_UINT8 s TYPE_RDP_NEG_RSP;
        s \<leftarrow> Stream_Write_UINT8 s (if set_SupportGraphicsPipeline settings then 0x01 OR 0x02 else 0x01);
        s \<leftarrow> Stream_Write_UINT16 s 8;
        Stream_Write_UINT32 s (SelectedProtocol nego) })"

text \<open>
  The message handed to the transport, if the header could be written. The status that a refusal sets
  is overwritten by the status of the header.
\<close>

definition negotiation_response :: "rdpNego \<Rightarrow> nego_settings \<Rightarrow> wStream \<Rightarrow> wStream option option" where
  "negotiation_response nego settings s = do {
     let bm = Stream_GetPosition s;
     s \<leftarrow> write_response_data nego settings (Stream_Seek s 11);
     let em = Stream_GetPosition s;
     (status, s) \<leftarrow> tpkt_write_header (Stream_SetPosition s bm) 19;
     (if status then do {
        s \<leftarrow> tpdu_write_connection_confirm s (19 - 5);
        Some (Some (Stream_SealLength (Stream_SetPosition s em))) }
      else Some None) }"

text \<open>The result and the settings after a response that was sent.\<close>

definition response_settings :: "rdpNego \<Rightarrow> nego_settings \<Rightarrow> bool \<times> nego_settings" where
  "response_settings nego settings =
     (let settings = settings\<lparr>set_RequestedProtocols := RequestedProtocols nego, set_SelectedProtocol := SelectedProtocol nego\<rparr> in
      if SelectedProtocol nego = PROTOCOL_RDP then
        let settings = settings\<lparr>set_TlsSecurity := False, set_NlaSecurity := False, set_RdpSecurity := True, set_UseRdpSecurityLayer := True\<rparr>;
            settings = (if set_EncryptionLevel settings = 0 then settings\<lparr>set_EncryptionLevel := 2\<rparr> else settings);
            settings = (if set_LocalConnection settings then settings\<lparr>set_UseRdpSecurityLayer := False, set_EncryptionLevel := 0\<rparr> else settings)
        in (set_RdpServerRsaKey settings \<or> set_RdpKeyFile settings \<or> set_RdpKeyContent settings, settings)
      else if SelectedProtocol nego = PROTOCOL_SSL then
        (True, settings\<lparr>set_TlsSecurity := True, set_NlaSecurity := False, set_RdpSecurity := False, set_UseRdpSecurityLayer := False,
           set_EncryptionLevel := 0\<rparr>)
      else if SelectedProtocol nego = PROTOCOL_HYBRID then
        (True, settings\<lparr>set_TlsSecurity := True, set_NlaSecurity := True, set_RdpSecurity := False, set_UseRdpSecurityLayer := False,
           set_EncryptionLevel := 0\<rparr>)
      else (True, settings))"

definition nego_send_negotiation_response ::
  "'w transport_ops \<Rightarrow> allocator \<Rightarrow> rdpNego \<Rightarrow> nego_settings \<Rightarrow> 'w \<Rightarrow> (bool \<times> nego_settings \<times> 'w) option" where
  "nego_send_negotiation_response ops malloc nego settings w =
     (case Stream_New malloc None 512 of None \<Rightarrow> Some (False, settings, w)
      | Some s \<Rightarrow> do {
          msg \<leftarrow> negotiation_response nego settings s;
          (case msg of None \<Rightarrow> Some (False, settings, w)
           | Some s \<Rightarrow>
               let (r, w) = op_write ops s w in
               if r \<ge> 0 then let (ok, settings) = response_settings nego settings in Some (ok, settings, w)
               else Some (False, settings, w)) })"

section \<open>Accepting a client\<close>

definition server_choice :: "nego_settings \<Rightarrow> u32 \<Rightarrow> u32" where
  "server_choice settings requested =
     (if set_NlaSecurity settings \<and> requested AND PROTOCOL_HYBRID \<noteq> 0 then PROTOCOL_HYBRID
      else if set_TlsSecurity settings \<and> requested AND PROTOCOL_SSL \<noteq> 0 then PROTOCOL_SSL
      else if set_RdpSecurity settings \<and> requested = PROTOCOL_RDP then PROTOCOL_RDP
      else PROTOCOL_FAILED_NEGO OR
        (if set_RdpSecurity settings then SSL_NOT_ALLOWED_BY_SERVER
         else if set_NlaSecurity settings \<and> \<not> set_TlsSecurity settings then HYBRID_REQUIRED_BY_SERVER
         else SSL_REQUIRED_BY_SERVER))"

definition server_accept :: "'w transport_ops \<Rightarrow> u32 \<Rightarrow> 'w \<Rightarrow> bool \<times> 'w" where
  "server_accept ops selected w =
     (if selected AND PROTOCOL_HYBRID \<noteq> 0 then op_accept_nla ops w
      else if selected AND PROTOCOL_SSL \<noteq> 0 then op_accept_tls ops w
      else if selected = PROTOCOL_RDP then op_accept_rdp ops w
      else (False, w))"

text \<open>The result \<open>TRUE\<close> also moves the connection on to \<^verbatim>\<open>CONNECTION_STATE_NEGO\<close>.\<close>

definition rdp_server_accept_nego ::
  "'w transport_ops \<Rightarrow> allocator \<Rightarrow> rdpNego \<Rightarrow> nego_settings \<Rightarrow> wStream \<Rightarrow> 'w \<Rightarrow> (bool \<times> rdpNego \<times> nego_settings \<times> 'w) option" where
  "rdp_server_accept_nego ops malloc nego settings s w = do {
     let w = op_set_blocking_mode ops True w;
     ((ok, nego), s) \<leftarrow> nego_read_request malloc nego s;
     (if \<not> ok then Some (False, nego, settings, w)
      else do {
        let nego = nego_set_selected_protocol nego (server_choice settings (nego_get_requested_protocols nego));
        (ok, settings, w) \<leftarrow> nego_send_negotiation_response ops malloc nego settings w;
        (if \<not> ok then Some (False, nego, settings, w)
         else let (ok, w) = server_accept ops (nego_get_selected_protocol nego) w in
           if \<not> ok then Some (False, nego, settings, w)
           else Some (True, nego, settings, op_set_blocking_mode ops False w)) }) }"

end
