(* ===== verification/Nego_Exchange.thy ===== *)
theory Nego_Exchange
  imports Nego_Client Nego_Server
begin

text \<open>
  Client and server of the negotiation put together: the request that the client writes is what the
  server reads, the response of the server is what the client reads, and both end with the same
  protocol. The last section shows what goes wrong: a server that refuses a client accepts it
  nevertheless, and faults that a peer or a server's redirection can cause in the client.
\<close>

section \<open>Reading the token or cookie\<close>

lemma rest_put:
  assumes "wf_stream s" "length bs \<le> avail s"
  shows "wf_stream (put s bs)" "rest (put s bs) = drop (length bs) (rest s)"
  using assms by (auto simp: wf_stream_def wf_cap_def avail_def put_def rest_def drop_take add.commute)

lemma crlf_loop_finds:
  assumes "wf_stream s" "rest s = pre @ [0x0D, 0x0A] @ r" "0x0D \<notin> set pre"
  shows "crlf_loop s x = Some (0x0A0D, Stream_Seek s (length pre + 2))"
  using assms
proof (induction pre arbitrary: s x)
  case Nil
  then have a: "2 \<le> avail s" using length_rest [OF Nil(1)] by simp
  have "(ucast (13 :: byte) :: u16) + push_bit 8 (ucast (10 :: byte)) = 0x0A0D" by simp
  then show ?case using Nil a by (subst crlf_loop.simps) (simp add: stream_simps)
next
  case (Cons b pre)
  have a: "3 \<le> avail s" using length_rest [OF Cons.prems(1)] Cons.prems(2) by simp
  have v: "Stream_Read_UINT16 s = Some (ucast b + push_bit 8 (ucast (rest s ! 1)), Stream_Seek s 2)"
    using Cons.prems a by (simp add: stream_simps)
  have ne: "ucast b + push_bit 8 (ucast (rest s ! 1)) \<noteq> (0x0A0D :: u16)"
  proof
    assume "ucast b + push_bit 8 (ucast (rest s ! 1)) = (0x0A0D :: u16)"
    then have "(ucast (ucast b + push_bit 8 (ucast (rest s ! 1)) :: u16) :: byte) = 0x0D" by simp
    moreover have "(ucast (ucast b + push_bit 8 (ucast (c :: byte)) :: u16) :: byte) = b" for c
      using byte_split16(2) [of c b] by (simp only: add.commute)
    ultimately show False using Cons.prems(3) by simp
  qed
  have rw: "Stream_Rewind (Stream_Seek s 2) 1 = Some (Stream_Seek s 1)" by (simp add: Stream_Rewind_def Stream_Seek_def)
  have IH: "crlf_loop (Stream_Seek s 1) y = Some (0x0A0D, Stream_Seek (Stream_Seek s 1) (length pre + 2))" for y
    using Cons.prems a by (intro Cons.IH) (simp_all add: stream_simps)
  show ?case using a Cons.prems(1) v ne rw IH by (subst crlf_loop.simps) (simp add: stream_simps)
qed

text \<open>What a cookie must not contain: a terminator of the string or the start of the terminator of the line.\<close>

definition cookie_ok :: "byte list \<Rightarrow> bool" where
  "cookie_ok c \<longleftrightarrow> 0 \<notin> set c \<and> 0x0D \<notin> set c"

lemma prefix_bytes: "0 \<notin> set cookie_prefix" "0x0D \<notin> set cookie_prefix"
  by (simp_all add: cookie_prefix_def)

lemma read_cookie:
  assumes w: "wf_stream s" and r: "rest s = cookie_prefix @ c @ [0x0D, 0x0A] @ r" and c: "cookie_ok c"
    and m: "malloc (18 + length c) \<noteq> None"
  shows "nego_read_request_token_or_cookie malloc nego s =
    Some ((True, nego\<lparr>n_cookie := Some (cookie_prefix @ c)\<rparr>), put (Stream_Seek s (17 + length c)) [0, 0])"
proof -
  let ?n = "17 + length c" let ?t = "Stream_Seek s ?n"
  have a: "avail s = 19 + length c + length r" using length_rest [OF w] r by simp
  have pk: "Stream_Peek s 17 = Some cookie_prefix" using w a r by (simp add: stream_simps)
  have lp: "crlf_loop (Stream_Seek s 17) 0 = Some (0x0A0D, Stream_Seek s (?n + 2))"
    using crlf_loop_finds [of "Stream_Seek s 17" c r 0] w a r c by (simp add: stream_simps cookie_ok_def)
  have rw: "Stream_Rewind (Stream_Seek s (?n + 2)) 2 = Some ?t" by (simp add: Stream_Rewind_def Stream_Seek_def)
  have t: "wf_stream ?t" "2 \<le> avail ?t" using w a by (simp_all add: stream_simps)
  then have tc: "wf_cap ?t" "2 \<le> room ?t" by (auto simp: wf_stream_def wf_cap_def avail_def room_def)
  have len: "sub64 (Stream_GetPosition ?t) (Stream_GetPosition s) = ?n"
    using avail_bound [OF w] a by (simp add: Stream_GetPosition_def sub64_def)
  have str: "mem_read (s_buffer (put ?t [0, 0])) (Stream_GetPosition s) ?n = Some (cookie_prefix @ c)"
  proof -
    have "take ?n (rest s) = cookie_prefix @ c" using r by simp
    then show ?thesis using w a by (auto simp: mem_read_def put_def rest_def Stream_GetPosition_def wf_stream_def wf_cap_def avail_def min_def drop_take)
  qed
  have z: "0 \<notin> set (cookie_prefix @ c)" using c prefix_bytes by (simp add: cookie_ok_def)
  have st: "store_token_or_cookie malloc nego False (Stream_GetPosition s) (Stream_Seek s (?n + 2)) =
      Some ((True, nego\<lparr>n_cookie := Some (cookie_prefix @ c)\<rparr>), put ?t [0, 0])"
    unfolding store_token_or_cookie_def rw bind.bind_lunit Let_def len using tc str z m
    by (auto simp: stream_simps nego_set_cookie_def Let_def)
  show ?thesis using w a pk lp st
    by (simp add: nego_read_request_token_or_cookie_def stream_simps Let_def)
qed

section \<open>Reading the request\<close>

definition request_ok :: "rdpNego \<Rightarrow> bool" where
  "request_ok nego \<longleftrightarrow> RoutingToken nego = None \<and> (\<forall>c. n_cookie nego = Some c \<longrightarrow> cookie_ok c) \<and> 6 + length (request_body nego) < 256"

definition after_request :: "rdpNego \<Rightarrow> rdpNego \<Rightarrow> rdpNego" where
  "after_request client server =
     (let server = (case n_cookie client of None \<Rightarrow> server
        | Some c \<Rightarrow> server\<lparr>n_cookie := Some (cookie_prefix @ take (unat (CookieMaxLength client)) c)\<rparr>)
      in if request_data_enc client = [] then server
         else server\<lparr>RequestedProtocols := RequestedProtocols client, n_state := NEGO_STATE_FINAL\<rparr>)"

lemma read_data:
  assumes w: "wf_stream s" and r: "rest s = request_data_enc client"
  shows "\<exists>t. read_request_data server s = Some ((True, if request_data_enc client = [] then server
      else server\<lparr>RequestedProtocols := RequestedProtocols client, n_state := NEGO_STATE_FINAL\<rparr>), t) \<and> tpkt_ensure_stream_consumed t"
proof (cases "request_data_enc client = []")
  case True
  then have "avail s = 0" using length_rest [OF w] r by simp
  then show ?thesis using True w by (simp add: read_request_data_def tpkt_ensure_stream_consumed_def stream_simps)
next
  case False
  then have e: "avail s = 8" using length_rest [OF w] r by (auto simp: request_data_enc_def split: if_splits)
  let ?v = "RequestedProtocols client"
  obtain f where r': "rest s = [TYPE_RDP_NEG_REQ, f, 8, 0, ucast ?v, ucast (drop_bit 8 ?v), ucast (drop_bit 16 ?v), ucast (drop_bit 24 ?v)]"
    using False r by (auto simp: request_data_enc_def split: if_splits)
  show ?thesis using False w e r'
    by (simp add: read_request_data_def nego_process_negotiation_request_def tpkt_ensure_stream_consumed_def stream_simps)
qed

lemma read_optional_cookie:
  assumes w: "wf_stream s" and r: "rest s = request_body client" and ok: "request_ok client" and m: "alloc_total malloc"
  shows "\<exists>t. nego_read_request_token_or_cookie malloc server s = Some ((True, case n_cookie client of None \<Rightarrow> server
      | Some c \<Rightarrow> server\<lparr>n_cookie := Some (cookie_prefix @ take (unat (CookieMaxLength client)) c)\<rparr>), t) \<and>
    wf_stream t \<and> rest t = request_data_enc client"
proof (cases "n_cookie client")
  case None
  then have b: "request_body client = request_data_enc client" using ok by (simp add: request_body_def token_enc_def request_ok_def)
  have "length (request_data_enc client) \<le> 8" by (simp add: request_data_enc_def)
  then have "avail s < 15" using length_rest [OF w] r b by simp
  then show ?thesis using None w r b by (simp add: nego_read_request_token_or_cookie_def stream_simps Let_def)
next
  case (Some c)
  let ?c = "take (unat (CookieMaxLength client)) c" let ?t = "Stream_Seek s (17 + length ?c)"
  have b: "rest s = cookie_prefix @ ?c @ [0x0D, 0x0A] @ request_data_enc client"
    using r Some ok by (simp add: request_body_def token_enc_def request_ok_def)
  have c: "cookie_ok ?c" using ok Some by (auto simp: request_ok_def cookie_ok_def dest: in_set_takeD)
  have a: "19 + length ?c \<le> avail s" using length_rest [OF w] b by simp
  have t: "wf_stream ?t" "length [0, 0 :: byte] \<le> avail ?t" using w a by (simp_all add: stream_simps)
  have "wf_stream (put ?t [0, 0])" "rest (put ?t [0, 0]) = request_data_enc client"
    using rest_put [OF t] b a by (simp_all add: stream_simps)
  then show ?thesis using read_cookie [OF w b c, of malloc server] m Some by (simp add: alloc_total_def)
qed

lemma read_request:
  assumes w: "wf_stream s" and r: "rest s = request_enc client" and ok: "request_ok client" and m: "alloc_total malloc"
  shows "\<exists>t. nego_read_request malloc server s = Some ((True, after_request client server), t)"
proof -
  let ?b = "request_body client" let ?n = "11 + length ?b" let ?li = "ucast (word_of_nat ?n - 5 :: u16) :: byte"
  have n: "length ?b < 250" using ok by (simp add: request_ok_def)
  have len: "unat (word_of_nat ?n :: u16) = ?n" using n by (intro unat_of_nat_eq) simp
  have "(word_of_nat ?n :: u16) - 5 = word_of_nat (6 + length ?b)" by simp
  moreover have "unat (word_of_nat (6 + length ?b) :: u16) = 6 + length ?b" using n by (intro unat_of_nat_eq) simp
  ultimately have "unat ((word_of_nat ?n :: u16) - 5) = 6 + length ?b" by (simp only:)
  then have li: "unat ?li = 6 + length ?b" using n by (simp add: unsigned_ucast_eq take_bit_eq_mod)
  have a: "avail s = ?n" using length_rest [OF w] r by (simp add: request_enc_def)
  have h1: "tpkt_read_header s = Some (Some (word_of_nat ?n), Stream_Seek s 4)"
    using w r len by (intro tpkt_read_header_rest [where r = "tpdu_enc ?li X224_TPDU_CONNECTION_REQUEST @ ?b"]) (simp_all add: request_enc_def)
  let ?s = "Stream_Seek s 4" let ?t = "Stream_Seek s 11"
  have s4: "wf_stream ?s" "rest ?s = tpdu_enc ?li X224_TPDU_CONNECTION_REQUEST @ ?b" using w a r by (simp_all add: stream_simps request_enc_def)
  have h2: "tpdu_read_connection_request ?s (word_of_nat ?n) = Some (Some ?li, ?t)"
    using tpdu_read_header_rest [OF _ s4, of "word_of_nat ?n"] li len by (simp add: tpdu_read_connection_request_def)
  have t: "wf_stream ?t" "rest ?t = ?b" "Stream_GetRemainingLength ?t = length ?b"
    using w a s4(2) by (simp_all add: stream_simps request_enc_def r)
  obtain t1 where t1: "nego_read_request_token_or_cookie malloc server ?t = Some ((True, case n_cookie client of None \<Rightarrow> server
      | Some c \<Rightarrow> server\<lparr>n_cookie := Some (cookie_prefix @ take (unat (CookieMaxLength client)) c)\<rparr>), t1)"
    "wf_stream t1" "rest t1 = request_data_enc client"
    using read_optional_cookie [OF t(1,2) ok m] by blast
  obtain t2 where t2: "read_request_data (case n_cookie client of None \<Rightarrow> server
      | Some c \<Rightarrow> server\<lparr>n_cookie := Some (cookie_prefix @ take (unat (CookieMaxLength client)) c)\<rparr>) t1 = Some ((True, after_request client server), t2)"
    "tpkt_ensure_stream_consumed t2"
    using read_data [OF t1(2,3)] unfolding after_request_def Let_def by blast
  have g: "unat ?li = add64 (length ?b) 6" using li n by simp
  show ?thesis unfolding nego_read_request_def h1 bind.bind_lunit prod.case option.case h2 t(3) using g t1(1) t2 by simp
qed

section \<open>The response\<close>

definition u32_enc :: "u32 \<Rightarrow> byte list" where
  "u32_enc v = [ucast v, ucast (drop_bit 8 v), ucast (drop_bit 16 v), ucast (drop_bit 24 v)]"

definition response_data_enc :: "rdpNego \<Rightarrow> nego_settings \<Rightarrow> byte list" where
  "response_data_enc nego settings =
     (if SelectedProtocol nego AND PROTOCOL_FAILED_NEGO \<noteq> 0
      then [TYPE_RDP_NEG_FAILURE, 0, 8, 0] @ u32_enc (SelectedProtocol nego AND NOT PROTOCOL_FAILED_NEGO)
      else [TYPE_RDP_NEG_RSP, if set_SupportGraphicsPipeline settings then 3 else 1, 8, 0] @ u32_enc (SelectedProtocol nego))"

definition response_enc :: "rdpNego \<Rightarrow> nego_settings \<Rightarrow> byte list" where
  "response_enc nego settings = tpkt_enc 19 @ tpdu_enc 14 X224_TPDU_CONNECTION_CONFIRM @ response_data_enc nego settings"

lemma length_response [simp]:
  "length (response_data_enc nego settings) = 8" "length (tpdu_enc li X224_TPDU_CONNECTION_CONFIRM) = 7"
  by (simp_all add: response_data_enc_def u32_enc_def tpdu_enc_def x224_defs)

lemma write_response_data_put:
  "wf_cap s \<Longrightarrow> 8 \<le> room s \<Longrightarrow> write_response_data nego settings s = Some (put s (response_data_enc nego settings))"
  by (auto simp: write_response_data_def response_data_enc_def u32_enc_def stream_simps)

lemma negotiation_response_sent:
  assumes s: "wf_cap s" "s_pointer s = 0" "19 \<le> room s"
  shows "\<exists>m. negotiation_response nego settings s = Some (Some m) \<and> sent (response_enc nego settings) m"
proof -
  let ?d = "response_data_enc nego settings"
  define e where "e = tpkt_enc 19 @ tpdu_enc 14 X224_TPDU_CONNECTION_CONFIRM"
  have le: "length e = 11" by (simp add: e_def)
  have s1: "wf_cap (Stream_Seek s 11)" "8 \<le> room (Stream_Seek s 11)" using s by (auto simp: wf_cap_def room_def)
  have 1: "write_response_data nego settings (Stream_Seek s 11) = Some (put (Stream_Seek s 11) ?d)" by (rule write_response_data_put [OF s1])
  let ?s = "Stream_SetPosition (put (Stream_Seek s 11) ?d) 0"
  have s2: "wf_cap ?s" "room ?s = room s" using sent_header_last(1,2) [of s e ?d] s le by simp_all
  have 2: "tpkt_write_header ?s 19 = Some (True, put ?s (tpkt_enc 19))" using s2 s(3) by (simp add: stream_simps)
  have 3: "tpdu_write_connection_confirm (put ?s (tpkt_enc 19)) 14 = Some (put ?s e)"
    using s2 s(3) by (simp add: tpdu_write_connection_confirm_def stream_simps e_def)
  have p: "Stream_GetPosition s = 0" "Stream_GetPosition (put (Stream_Seek s 11) ?d) = 19"
    using s(2) by (simp_all add: Stream_GetPosition_def)
  let ?m = "Stream_SealLength (Stream_SetPosition (put ?s e) 19)"
  have "negotiation_response nego settings s = Some (Some ?m)"
    unfolding negotiation_response_def Let_def p 1 bind.bind_lunit 2 prod.case using 3 by simp
  moreover have "sent (response_enc nego settings) ?m" using sent_header_last(3) [of s e ?d] s le by (simp add: response_enc_def e_def)
  ultimately show ?thesis by blast
qed

text \<open>What the client makes of it.\<close>

definition after_response :: "rdpNego \<Rightarrow> nego_settings \<Rightarrow> rdpNego \<Rightarrow> rdpNego" where
  "after_response server settings client =
     (if SelectedProtocol server AND PROTOCOL_FAILED_NEGO \<noteq> 0
      then let code = SelectedProtocol server AND NOT PROTOCOL_FAILED_NEGO;
               client = (if code = SSL_NOT_ALLOWED_BY_SERVER \<or> code = SSL_CERT_NOT_ON_SERVER then client\<lparr>sendNegoData := True\<rparr> else client)
           in client\<lparr>n_state := NEGO_STATE_FAIL\<rparr>
      else check_selected (client\<lparr>n_flags := if set_SupportGraphicsPipeline settings then 3 else 1,
             SelectedProtocol := SelectedProtocol server, n_state := NEGO_STATE_FINAL\<rparr>))"

lemma recv_data_rsp:
  assumes w: "wf_stream t" and r: "rest t = [TYPE_RDP_NEG_RSP, f, 8, 0] @ u32_enc v"
  shows "recv_nego_data client 14 t =
    Some ((True, check_selected (client\<lparr>n_flags := ucast f, SelectedProtocol := v, n_state := NEGO_STATE_FINAL\<rparr>)), Stream_Seek t 8)"
proof -
  have a: "avail t = 8" using length_rest [OF w] r by (simp add: u32_enc_def)
  show ?thesis using w a r by (simp add: recv_nego_data_def nego_process_negotiation_response_def stream_simps u32_enc_def)
qed

lemma recv_data_failure:
  assumes w: "wf_stream t" and r: "rest t = [TYPE_RDP_NEG_FAILURE, f, 8, 0] @ u32_enc v"
  shows "recv_nego_data client 14 t = Some ((True, (if v = SSL_NOT_ALLOWED_BY_SERVER \<or> v = SSL_CERT_NOT_ON_SERVER
    then client\<lparr>sendNegoData := True\<rparr> else client)\<lparr>n_state := NEGO_STATE_FAIL\<rparr>), Stream_Seek t 8)"
proof -
  have a: "avail t = 8" using length_rest [OF w] r by (simp add: u32_enc_def)
  show ?thesis using w a r
    by (simp add: recv_nego_data_def nego_process_negotiation_failure_def stream_simps u32_enc_def neg_type_defs Let_def del: drop_bit_and)
qed

lemma recv_response:
  assumes w: "wf_stream s" and r: "rest s = response_enc server settings"
  shows "\<exists>t. nego_recv client s = Some ((0, after_response server settings client), t)"
proof -
  have a: "avail s = 19" using length_rest [OF w] r by (simp add: response_enc_def)
  have h1: "tpkt_read_header s = Some (Some 19, Stream_Seek s 4)"
    using w r by (intro tpkt_read_header_rest [where r = "tpdu_enc 14 X224_TPDU_CONNECTION_CONFIRM @ response_data_enc server settings"])
      (simp_all add: response_enc_def)
  let ?s = "Stream_Seek s 4" let ?t = "Stream_Seek s 11"
  have s4: "wf_stream ?s" "rest ?s = tpdu_enc 14 X224_TPDU_CONNECTION_CONFIRM @ response_data_enc server settings"
    using w a r by (simp_all add: stream_simps response_enc_def)
  have "tpdu_read_header ?s 19 = Some (Some (X224_TPDU_CONNECTION_CONFIRM, 14), ?t)"
    using tpdu_read_header_rest [OF _ s4, of 19] by simp
  moreover have "sub64 (sub64 (s_pointer s + 11) (s_pointer s + 4)) (Suc 0) = 6" by (simp add: sub64_def)
  ultimately have h2: "tpdu_read_connection_confirm ?s 19 = Some (Some 14, ?t)"
    using w a by (simp add: tpdu_read_connection_confirm_def Stream_GetPosition_def stream_simps)
  have t: "wf_stream ?t" "rest ?t = response_data_enc server settings"
    using w a r by (simp_all add: stream_simps response_enc_def)
  have "recv_nego_data client 14 ?t = Some ((True, after_response server settings client), Stream_Seek s 19)"
  proof (cases "SelectedProtocol server AND PROTOCOL_FAILED_NEGO = 0")
    case True
    let ?f = "if set_SupportGraphicsPipeline settings then 3 else (1 :: byte)"
    have "rest ?t = [TYPE_RDP_NEG_RSP, ?f, 8, 0] @ u32_enc (SelectedProtocol server)" using t(2) True by (simp add: response_data_enc_def)
    from recv_data_rsp [OF t(1) this] show ?thesis using True by (simp add: after_response_def)
  next
    case False
    then have "rest ?t = [TYPE_RDP_NEG_FAILURE, 0, 8, 0] @ u32_enc (SelectedProtocol server AND NOT PROTOCOL_FAILED_NEGO)"
      using t(2) by (simp add: response_data_enc_def)
    from recv_data_failure [OF t(1) this] show ?thesis using False by (simp add: after_response_def Let_def)
  qed
  then show ?thesis unfolding nego_recv_def h1 bind.bind_lunit prod.case option.case h2
    using w a by (simp add: tpkt_ensure_stream_consumed_def stream_simps)
qed

section \<open>Agreement\<close>

lemma server_choice_cases:
  "server_choice settings requested \<in> {PROTOCOL_HYBRID, PROTOCOL_SSL, PROTOCOL_RDP} \<or>
   server_choice settings requested AND PROTOCOL_FAILED_NEGO \<noteq> 0"
  by (simp add: server_choice_def protocol_defs failure_defs)

lemma after_response_agrees:
  assumes "SelectedProtocol server = server_choice settings requested"
  shows "if SelectedProtocol server AND PROTOCOL_FAILED_NEGO \<noteq> 0 then n_state (after_response server settings client) = NEGO_STATE_FAIL
    else SelectedProtocol (after_response server settings client) = SelectedProtocol server \<and>
      (n_state (after_response server settings client) = NEGO_STATE_FINAL \<longleftrightarrow> enabled client (SelectedProtocol server))"
  using server_choice_cases [of settings requested] assms
  by (auto simp: after_response_def check_selected_def protocol_defs Let_def)

text \<open>
  C5: Client and server agree on the security protocol. The request that a client writes is read by the
  server with the same requested protocols; the server's choice, sent as its response, is read by the
  client, which ends with the same protocol exactly if it is enabled there, and fails if the server
  refuses.
\<close>

theorem nego_agreement:
  assumes m: "malloc_ok malloc" "alloc_total malloc" and s: "Stream_New malloc None 512 = Some s" and ok: "request_ok client"
    and fresh: "RequestedProtocols server = PROTOCOL_RDP"
  shows "\<exists>request t server' response t' client'.
    negotiation_request client s = Some (Some request) \<and>
    nego_read_request malloc server (Stream_SetPosition request 0) = Some ((True, server'), t) \<and>
    RequestedProtocols server' = RequestedProtocols client \<and>
    negotiation_response (nego_set_selected_protocol server' (server_choice settings (RequestedProtocols client))) settings s = Some (Some response) \<and>
    nego_recv client (Stream_SetPosition response 0) = Some ((0, client'), t') \<and>
    (let p = server_choice settings (RequestedProtocols client) in
     if p AND PROTOCOL_FAILED_NEGO \<noteq> 0 then n_state client' = NEGO_STATE_FAIL
     else SelectedProtocol client' = p \<and> (n_state client' = NEGO_STATE_FINAL \<longleftrightarrow> enabled client p))"
proof -
  let ?p = "server_choice settings (RequestedProtocols client)"
  note n = new_stream [OF m(1) s, simplified]
  have t: "token_ok client" "length (request_body client) < 250" using ok by (simp_all add: request_ok_def token_ok_def)
  obtain rq where rq: "negotiation_request client s = Some (Some rq)" "sent (request_enc client) rq"
    using negotiation_request_sent [OF t(1), of s] n t(2) by auto
  obtain t1 where rd: "nego_read_request malloc server (Stream_SetPosition rq 0) = Some ((True, after_request client server), t1)"
    using read_request [OF _ _ ok m(2)] rq(2) by (auto simp: sent_def)
  have rp: "RequestedProtocols (after_request client server) = RequestedProtocols client"
    using fresh by (auto simp: after_request_def Let_def request_data_enc_def protocol_defs word_gt_0 split: option.splits)
  let ?s = "nego_set_selected_protocol (after_request client server) ?p"
  obtain rs where rs: "negotiation_response ?s settings s = Some (Some rs)" "sent (response_enc ?s settings) rs"
    using negotiation_response_sent [of s ?s settings] n by auto
  obtain t2 where "nego_recv client (Stream_SetPosition rs 0) = Some ((0, after_response ?s settings client), t2)"
    using recv_response [of "Stream_SetPosition rs 0" ?s settings client] rs(2) by (auto simp: sent_def)
  moreover have "SelectedProtocol ?s = ?p" by (simp add: nego_set_selected_protocol_def)
  ultimately show ?thesis using rq(1) rd rp rs(1) after_response_agrees [of ?s settings "RequestedProtocols client" client]
    unfolding Let_def by (simp only:) blast
qed

lemma zero_malloc_total: "alloc_total zero_malloc"
  by (simp add: alloc_total_def zero_malloc_def)

definition example_client :: rdpNego where
  "example_client = example_nego\<lparr>n_state := NEGO_STATE_NLA, RequestedProtocols := PROTOCOL_HYBRID OR PROTOCOL_SSL\<rparr>"

lemma example_request_ok: "request_ok example_client"
  by (simp add: request_ok_def example_client_def example_nego_def zero_nego_def request_body_def token_enc_def request_data_enc_def cookie_ok_def)

lemma example_stream: "Stream_New zero_malloc None 512 = Some (zero_stream 512)"
  by (simp add: Stream_New_def zero_malloc_def zero_stream_def)

theorem nego_agreement_witness:
  "\<exists>request t server' response t' client'.
    negotiation_request example_client (zero_stream 512) = Some (Some request) \<and>
    nego_read_request zero_malloc zero_nego (Stream_SetPosition request 0) = Some ((True, server'), t) \<and>
    negotiation_response (nego_set_selected_protocol server' PROTOCOL_HYBRID) example_settings (zero_stream 512) = Some (Some response) \<and>
    nego_recv example_client (Stream_SetPosition response 0) = Some ((0, client'), t') \<and>
    SelectedProtocol client' = PROTOCOL_HYBRID \<and> n_state client' = NEGO_STATE_FINAL"
proof -
  have c: "server_choice example_settings (RequestedProtocols example_client) = PROTOCOL_HYBRID"
    by (simp add: server_choice_def example_settings_def example_client_def protocol_defs)
  have "enabled example_client PROTOCOL_HYBRID" "PROTOCOL_HYBRID AND PROTOCOL_FAILED_NEGO = 0"
    using example_enabled by (simp_all add: example_client_def) (simp add: protocol_defs)
  then show ?thesis
    using nego_agreement [OF zero_malloc_ok zero_malloc_total example_stream example_request_ok, of zero_nego example_settings, unfolded c Let_def]
    by (auto simp: zero_nego_def protocol_defs)
qed

section \<open>A refused client is accepted\<close>

lemma send_response_result:
  assumes "malloc_ok malloc" "Stream_New malloc None 512 = Some s"
  shows "\<exists>m. sent (response_enc nego settings) m \<and> nego_send_negotiation_response ops malloc nego settings w =
    (if fst (op_write ops m w) \<ge> 0 then Some (fst (response_settings nego settings), snd (response_settings nego settings), snd (op_write ops m w))
     else Some (False, settings, snd (op_write ops m w)))"
proof -
  note n = new_stream [OF assms, simplified]
  obtain m where "negotiation_response nego settings s = Some (Some m)" "sent (response_enc nego settings) m"
    using negotiation_response_sent [of s nego settings] n by auto
  then show ?thesis using assms(2)
    by (intro exI [of _ m]) (simp add: nego_send_negotiation_response_def case_prod_unfold Let_def)
qed

text \<open>
  C37: A server that only allows network level authentication sends a client that does not offer it the
  failure \<^verbatim>\<open>HYBRID_REQUIRED_BY_SERVER\<close>, and then accepts the same client with plain TLS: the status of the
  refusal is overwritten, and the bits of the failure code are taken for those of a protocol. Whatever
  follows is done without authentication.
\<close>

theorem nego_refusal_accepted:
  assumes m: "malloc_ok malloc" "alloc_total malloc"
    and nla: "set_NlaSecurity settings" "\<not> set_TlsSecurity settings" "\<not> set_RdpSecurity settings"
    and s: "wf_stream s" "rest s = request_enc client" "request_ok client" "RequestedProtocols client = PROTOCOL_SSL"
    and ops: "\<forall>m w. fst (op_write ops m w) \<ge> 0" "\<forall>w. fst (op_accept_tls ops w)"
  shows "\<exists>server' settings' w'. rdp_server_accept_nego ops malloc server settings s w = Some (True, server', settings', w') \<and>
    SelectedProtocol server' = PROTOCOL_FAILED_NEGO OR HYBRID_REQUIRED_BY_SERVER \<and>
    n_state (after_response server' settings client) = NEGO_STATE_FAIL"
proof -
  obtain t where rd: "nego_read_request malloc server s = Some ((True, after_request client server), t)"
    using read_request [OF s(1-3) m(2)] by blast
  have rp: "RequestedProtocols (after_request client server) = PROTOCOL_SSL"
    using s(4) by (auto simp: after_request_def Let_def request_data_enc_def protocol_defs word_gt_0 split: option.splits)
  have c: "server_choice settings PROTOCOL_SSL = PROTOCOL_FAILED_NEGO OR HYBRID_REQUIRED_BY_SERVER"
    using nla by (simp add: server_choice_def protocol_defs)
  let ?n = "(after_request client server)\<lparr>SelectedProtocol := PROTOCOL_FAILED_NEGO OR HYBRID_REQUIRED_BY_SERVER\<rparr>"
  have bits: "SelectedProtocol ?n = 0x80000005" by (simp add: protocol_defs failure_defs)
  have rs: "fst (response_settings ?n settings)" using bits by (simp add: response_settings_def Let_def protocol_defs)
  obtain b where "malloc 512 = Some b" using m(2) unfolding alloc_total_def by blast
  then obtain s0 where s0: "Stream_New malloc None 512 = Some s0" by (simp add: Stream_New_def)
  obtain w1 where sr: "nego_send_negotiation_response ops malloc ?n settings (op_set_blocking_mode ops True w) =
      Some (True, snd (response_settings ?n settings), w1)"
    using send_response_result [OF m(1) s0, of ?n settings ops "op_set_blocking_mode ops True w"] ops(1) rs by auto
  have ac: "server_accept ops (SelectedProtocol ?n) w1 = op_accept_tls ops w1" unfolding bits by (simp add: server_accept_def protocol_defs)
  have "rdp_server_accept_nego ops malloc server settings s w =
      Some (True, ?n, snd (response_settings ?n settings), op_set_blocking_mode ops False (snd (op_accept_tls ops w1)))"
    unfolding rdp_server_accept_nego_def Let_def rd using ops(2) ac sr rp c
    by (simp add: nego_set_selected_protocol_def nego_get_requested_protocols_def nego_get_selected_protocol_def case_prod_unfold
        del: bit.conj_disj_distrib)
  moreover have "n_state (after_response ?n settings client) = NEGO_STATE_FAIL"
    by (simp add: after_response_def Let_def protocol_defs failure_defs)
  ultimately show ?thesis by (intro exI conjI) simp_all
qed

theorem nego_refusal_accepted_witness:
  "\<exists>server' settings' w'. rdp_server_accept_nego (example_ops []) zero_malloc zero_nego (example_settings\<lparr>set_TlsSecurity := False\<rparr>)
      (Stream_StaticInit (request_enc (example_nego\<lparr>RequestedProtocols := PROTOCOL_SSL\<rparr>))) () = Some (True, server', settings', w') \<and>
    SelectedProtocol server' = PROTOCOL_FAILED_NEGO OR HYBRID_REQUIRED_BY_SERVER"
proof -
  let ?c = "example_nego\<lparr>RequestedProtocols := PROTOCOL_SSL\<rparr>"
  have ok: "request_ok ?c"
    by (simp add: request_ok_def example_nego_def zero_nego_def request_body_def token_enc_def request_data_enc_def cookie_ok_def)
  then have "length (request_enc ?c) < 2 ^ 64" by (simp add: request_ok_def request_enc_def)
  then have "wf_stream (Stream_StaticInit (request_enc ?c))" by (rule wf_static)
  from nego_refusal_accepted [OF zero_malloc_ok zero_malloc_total _ _ _ this rest_static ok,
      of "example_settings\<lparr>set_TlsSecurity := False\<rparr>" "example_ops []" zero_nego "()"]
  show ?thesis by (simp add: example_settings_def example_ops_def) blast
qed

section \<open>Faults of the client\<close>

definition unknown_answer :: "byte list" where
  "unknown_answer = [3, 0, 0, 12, 7, 0xD0, 0, 0, 0, 0, 0, 9]"

lemma unknown_recv: "\<exists>t. nego_recv nego (Stream_StaticInit unknown_answer) = Some ((0, nego), t)"
proof -
  have "wf_stream (Stream_StaticInit unknown_answer)" "rest (Stream_StaticInit unknown_answer) = unknown_answer"
    "avail (Stream_StaticInit unknown_answer) = 12"
    by (simp_all add: unknown_answer_def avail_def Stream_StaticInit_def wf_stream_def wf_cap_def rest_def)
  then show ?thesis
    by (simp add: nego_recv_def tpkt_read_header_def tpdu_read_connection_confirm_def tpdu_read_header_def stream_simps recv_nego_data_def
        x224_defs neg_type_defs tpkt_ensure_stream_consumed_def unknown_answer_def Stream_GetPosition_def Stream_StaticInit_def)
qed

definition stuck :: "rdpNego \<Rightarrow> bool" where
  "stuck nego \<longleftrightarrow> n_state nego = NEGO_STATE_RDP \<and> NegotiateSecurityLayer nego \<and> TcpConnected nego \<and> request_fits nego"

lemma stuck_send:
  assumes "stuck nego"
  shows "\<exists>nego'. nego_send (example_ops unknown_answer) zero_malloc nego w = Some (nego', ()) \<and> stuck nego'"
proof -
  let ?n = "nego\<lparr>RequestedProtocols := PROTOCOL_RDP\<rparr>"
  have n: "stuck ?n" using assms request_fits_config [of nego ?n] by (simp add: stuck_def same_config_def)
  have tc: "nego_transport_connect (example_ops unknown_answer) ?n w = (True, ?n, ())"
    using n by (simp add: nego_transport_connect_def nego_tcp_connect_def stuck_def)
  obtain t where "nego_recv ?n (Stream_StaticInit unknown_answer) = Some ((0, ?n), t)" using unknown_recv by blast
  then have rr: "nego_recv_response (example_ops unknown_answer) zero_malloc ?n () = Some (True, ?n, ())"
    by (simp add: nego_recv_response_def Stream_New_def zero_malloc_def Let_def example_ops_def)
  have rq: "nego_send_negotiation_request (example_ops unknown_answer) zero_malloc ?n () = Some (True, ())"
    using n by (intro example_request) (simp add: stuck_def)
  have "nego_exchange (example_ops unknown_answer) zero_malloc ?n w = Some (True, ?n, ())"
    unfolding nego_exchange_def tc by (simp add: rq rr)
  then show ?thesis using assms n by (simp add: nego_send_def nego_attempt_rdp_def stuck_def)
qed

lemma stuck_loop:
  assumes "stuck nego"
  shows "nego_loop (example_ops unknown_answer) zero_malloc nego w = None"
proof (rule ccontr)
  assume "nego_loop (example_ops unknown_answer) zero_malloc nego w \<noteq> None"
  then obtain r where r: "nego_loop (example_ops unknown_answer) zero_malloc nego w = Some r" by blast
  let ?P = "\<lambda>(ops :: unit transport_ops) (malloc :: allocator) nego (w :: unit) (r :: bool \<times> rdpNego \<times> unit). ops = example_ops unknown_answer \<longrightarrow> malloc = zero_malloc \<longrightarrow> \<not> stuck nego"
  have "?P (example_ops unknown_answer) zero_malloc nego w r"
  proof (rule nego_loop.raw_induct [where P = ?P, OF _ r])
    fix f :: "unit transport_ops \<Rightarrow> allocator \<Rightarrow> rdpNego \<Rightarrow> unit \<Rightarrow> (bool \<times> rdpNego \<times> unit) option" and ops malloc nego w r
    assume IH: "\<And>ops malloc nego w r. f ops malloc nego w = Some r \<Longrightarrow> ?P ops malloc nego w r"
      and eq: "(case nego_send ops malloc nego w of None \<Rightarrow> None
      | Some (nego, w) \<Rightarrow>
          if n_state nego = NEGO_STATE_FAIL then Some (False, nego\<lparr>n_state := NEGO_STATE_FINAL\<rparr>, w)
          else if n_state nego \<noteq> NEGO_STATE_FINAL then f ops malloc nego w
          else Some (True, nego, w)) = Some r"
    show "?P ops malloc nego w r"
    proof (intro impI notI)
      assume o: "ops = example_ops unknown_answer" "malloc = zero_malloc" and st: "stuck nego"
      obtain n where n: "nego_send ops malloc nego w = Some (n, ())" "stuck n" using stuck_send [OF st] o by blast
      then have "f ops malloc n () = Some r" using eq by (simp add: stuck_def)
      then show False using IH o n(2) by blast
    qed
  qed
  then show False using assms by simp
qed

lemma long_token_faults:
  assumes "malloc_ok malloc" "Stream_New malloc None 512 = Some s" "RoutingToken nego = Some t" "length t = unat (RoutingTokenLength nego)" "501 < length t"
  shows "negotiation_request nego s = None"
proof -
  note n = new_stream [OF assms(1,2), simplified]
  have "Stream_Write (Stream_Seek s 11) t = None"
    using n assms(5) by (auto simp: Stream_Write_def mem_write_def wf_cap_def room_def)
  then show ?thesis using assms(3,4) by (simp add: negotiation_request_def write_token_or_cookie_def Let_def)
qed

lemma no_negotiation_fails:
  assumes "n_state nego = NEGO_STATE_INITIAL" "\<not> NegotiateSecurityLayer nego" "\<not> SendPreconnectionPdu nego" "\<not> TcpConnected nego"
  shows "\<exists>nego' settings' w'. nego_connect ops malloc conv nego settings w = Some (False, nego', settings', w')"
proof -
  have h: "NegotiateSecurityLayer (only_highest n) = NegotiateSecurityLayer n \<and> SendPreconnectionPdu (only_highest n) = SendPreconnectionPdu n \<and>
      TcpConnected (only_highest n) = TcpConnected n \<and> n_state (only_highest n) = n_state n" for n
    by (simp add: only_highest_def enable_def Let_def split: NEGO_STATE.splits)
  show ?thesis using assms h by (simp add: nego_connect_def nego_start_def Let_def nego_security_connect_def)
qed

text \<open>
  Three faults of the client. A routing token of more than 501 bytes, which a server's redirection may
  deliver, is written beyond the end of the request's buffer. A server that answers the request for
  standard security with negotiation data of an unknown type, again and again, keeps the client's loop from
  returning. With negotiation disabled, no preconnection message to send and no connection made before,
  nothing connects the socket, and \<^verbatim>\<open>nego_connect\<close> fails.
\<close>

lemma nego_client_faults:
  assumes "malloc_ok malloc" "Stream_New malloc None 512 = Some s" "RoutingToken nego = Some t" "length t = unat (RoutingTokenLength nego)"
    "501 < length t" and "stuck nego'"
    and "n_state nego'' = NEGO_STATE_INITIAL" "\<not> NegotiateSecurityLayer nego''" "\<not> SendPreconnectionPdu nego''" "\<not> TcpConnected nego''"
  shows "negotiation_request nego s = None \<and>
    nego_loop (example_ops unknown_answer) zero_malloc nego' w' = None \<and>
    (\<exists>n settings' w. nego_connect ops malloc conv nego'' settings w'' = Some (False, n, settings', w))"
  by (intro conjI long_token_faults [OF assms(1-5)] stuck_loop [OF assms(6)] no_negotiation_fails [OF assms(7-10)])

end
