(* ===== verification/Update.thy ===== *)
theory Update
  imports Rdp_Recv
begin

text \<open>
  Screen and pointer updates (\<^verbatim>\<open>libfreerdp/core/update.c\<close>): the readers of bitmap, palette, pointer and
  sound updates and their dispatch on the client, the writers of the same formats on the server, and
  the refresh and suppress-output requests.

  The structures of surface commands (\<^verbatim>\<open>include/freerdp/update.h\<close>) stand here too, as the callbacks
  mention them. The callbacks of the application are optional functions on the state; the parser of drawing orders
  (\<^verbatim>\<open>orders.c\<close>) is an argument. The pointer fields \<^verbatim>\<open>xorMaskData\<close>, \<^verbatim>\<open>andMaskData\<close> and
  \<^verbatim>\<open>bitmapDataStream\<close> are the bytes they point to, or \<open>None\<close> for a null pointer; a structure is
  allocated with its size on a 64-bit target.
\<close>

section \<open>Data\<close>

record BITMAP_DATA =
  destLeft :: u32
  destTop :: u32
  destRight :: u32
  destBottom :: u32
  bm_width :: u32
  bm_height :: u32
  bitsPerPixel :: u32
  bm_flags :: u32
  bitmapLength :: u32
  cbCompFirstRowSize :: u32
  cbCompMainBodySize :: u32
  cbScanWidth :: u32
  cbUncompressedSize :: u32
  bitmapDataStream :: "byte list option"
  bm_compressed :: bool

type_synonym BITMAP_UPDATE = "BITMAP_DATA list"

record PALETTE_ENTRY =
  pal_red :: byte
  pal_green :: byte
  pal_blue :: byte

record POINTER_COLOR_UPDATE =
  cacheIndex :: u32
  xPos :: u32
  yPos :: u32
  ptr_width :: u32
  ptr_height :: u32
  lengthAndMask :: u32
  lengthXorMask :: u32
  xorMaskData :: "byte list option"
  andMaskData :: "byte list option"

record POINTER_LARGE_UPDATE =
  lp_xorBpp :: u16
  lp_cacheIndex :: u16
  hotSpotX :: u16
  hotSpotY :: u16
  lp_width :: u16
  lp_height :: u16
  lp_lengthAndMask :: u32
  lp_lengthXorMask :: u32
  lp_xorMaskData :: "byte list option"
  lp_andMaskData :: "byte list option"

record RECTANGLE_16 =
  rc_left :: u16
  rc_top :: u16
  rc_right :: u16
  rc_bottom :: u16

record TS_COMPRESSED_BITMAP_HEADER_EX =
  highUniqueId :: u32
  lowUniqueId :: u32
  tmMilliseconds :: u64
  tmSeconds :: u64

record TS_BITMAP_DATA_EX =
  ex_bpp :: byte
  ex_flags :: byte
  codecID :: u16
  ex_width :: u16
  ex_height :: u16
  bitmapDataLength :: u32
  exBitmapDataHeader :: TS_COMPRESSED_BITMAP_HEADER_EX
  bitmapData :: "byte list"

record SURFACE_BITS_COMMAND =
  cmdType :: u32
  sb_destLeft :: u32
  sb_destTop :: u32
  sb_destRight :: u32
  sb_destBottom :: u32
  sb_bmp :: TS_BITMAP_DATA_EX
  skipCompression :: bool

type_synonym ('k, 'a) callback = "('k rdpRdp \<Rightarrow> 'a \<Rightarrow> bool \<times> 'k rdpRdp) option"

record 'k rdpUpdate =
  LargePointerFlag :: u32
  RefreshRectEnabled :: bool
  SuppressOutputEnabled :: bool
  update_recv_order :: "'k pdu_handler"
  BeginPaint :: "('k, unit) callback"
  EndPaint :: "('k, unit) callback"
  BitmapUpdate :: "('k, BITMAP_UPDATE) callback"
  Palette :: "('k, PALETTE_ENTRY list) callback"
  Synchronize :: "('k, unit) callback"
  PlaySound :: "('k, u32 \<times> u32) callback"
  PointerPosition :: "('k, u32 \<times> u32) callback"
  PointerSystem :: "('k, u32) callback"
  PointerColor :: "('k, POINTER_COLOR_UPDATE) callback"
  PointerNew :: "('k, u32 \<times> POINTER_COLOR_UPDATE) callback"
  PointerCached :: "('k, u32) callback"
  PointerLarge :: "('k, POINTER_LARGE_UPDATE) callback"
  RefreshRect :: "('k rdpRdp \<Rightarrow> RECTANGLE_16 list \<Rightarrow> 'k rdpRdp) option"
  SuppressOutput :: "('k rdpRdp \<Rightarrow> byte \<times> RECTANGLE_16 option \<Rightarrow> 'k rdpRdp) option"
  SurfaceBits :: "('k, SURFACE_BITS_COMMAND) callback"
  SurfaceFrameMarker :: "('k, u32 \<times> u32) callback"

definition UPDATE_TYPE_ORDERS :: u16 where "UPDATE_TYPE_ORDERS = 0"
definition UPDATE_TYPE_BITMAP :: u16 where "UPDATE_TYPE_BITMAP = 1"
definition UPDATE_TYPE_PALETTE :: u16 where "UPDATE_TYPE_PALETTE = 2"
definition UPDATE_TYPE_SYNCHRONIZE :: u16 where "UPDATE_TYPE_SYNCHRONIZE = 3"
definition BITMAP_COMPRESSION :: u32 where "BITMAP_COMPRESSION = 0x0001"
definition NO_BITMAP_COMPRESSION_HDR :: u32 where "NO_BITMAP_COMPRESSION_HDR = 0x0400"
definition LARGE_POINTER_FLAG_96x96 :: u32 where "LARGE_POINTER_FLAG_96x96 = 0x00000001"
definition PTR_MSG_TYPE_SYSTEM :: u16 where "PTR_MSG_TYPE_SYSTEM = 1"
definition PTR_MSG_TYPE_POSITION :: u16 where "PTR_MSG_TYPE_POSITION = 3"
definition PTR_MSG_TYPE_COLOR :: u16 where "PTR_MSG_TYPE_COLOR = 6"
definition PTR_MSG_TYPE_CACHED :: u16 where "PTR_MSG_TYPE_CACHED = 7"
definition PTR_MSG_TYPE_POINTER :: u16 where "PTR_MSG_TYPE_POINTER = 8"
definition PTR_MSG_TYPE_POINTER_LARGE :: u16 where "PTR_MSG_TYPE_POINTER_LARGE = 9"

text \<open>\<^verbatim>\<open>IFCALLRESULT\<close>: the callback, or the default when it is not set.\<close>

definition if_call_result :: "bool \<Rightarrow> ('k, 'a) callback \<Rightarrow> 'k rdpRdp \<Rightarrow> 'a \<Rightarrow> bool \<times> 'k rdpRdp" where
  "if_call_result dflt cb rdp x = (case cb of None \<Rightarrow> (dflt, rdp) | Some f \<Rightarrow> f rdp x)"

definition update_begin_paint :: "'k rdpUpdate \<Rightarrow> 'k rdpRdp \<Rightarrow> bool \<times> 'k rdpRdp" where
  "update_begin_paint u rdp = (case BeginPaint u of None \<Rightarrow> (True, rdp) | Some f \<Rightarrow> f rdp ())"

definition update_end_paint :: "'k rdpUpdate \<Rightarrow> 'k rdpRdp \<Rightarrow> bool \<times> 'k rdpRdp" where
  "update_end_paint u rdp = (case EndPaint u of None \<Rightarrow> (False, rdp) | Some f \<Rightarrow> f rdp ())"

section \<open>Bitmaps and palettes\<close>

text \<open>The bytes of the bitmap, behind its header; \<open>None\<close> in place of the header if it was refused.\<close>

definition read_bitmap_bytes :: "allocator \<Rightarrow> BITMAP_DATA option \<Rightarrow> wStream \<Rightarrow> (BITMAP_DATA option \<times> wStream) option" where
  "read_bitmap_bytes malloc bd s =
     (case bd of None \<Rightarrow> Some (None, s)
      | Some bd \<Rightarrow>
          if Stream_GetRemainingLength s < unat (bitmapLength bd) then Some (None, s)
          else if bitmapLength bd > 0 then
            (case malloc (unat (bitmapLength bd)) of None \<Rightarrow> Some (None, s)
             | Some _ \<Rightarrow> do {
                 (bytes, s) \<leftarrow> Stream_Read s (unat (bitmapLength bd));
                 Some (Some (bd\<lparr>bitmapDataStream := Some bytes\<rparr>), s) })
          else Some (Some bd, s))"

definition update_read_bitmap_data :: "allocator \<Rightarrow> wStream \<Rightarrow> (BITMAP_DATA option \<times> wStream) option" where
  "update_read_bitmap_data malloc s =
     (if Stream_GetRemainingLength s < 18 then Some (None, s)
      else do {
        (l, s) \<leftarrow> Stream_Read_UINT16 s;
        (t, s) \<leftarrow> Stream_Read_UINT16 s;
        (r, s) \<leftarrow> Stream_Read_UINT16 s;
        (b, s) \<leftarrow> Stream_Read_UINT16 s;
        (w, s) \<leftarrow> Stream_Read_UINT16 s;
        (h, s) \<leftarrow> Stream_Read_UINT16 s;
        (bpp, s) \<leftarrow> Stream_Read_UINT16 s;
        (flags, s) \<leftarrow> Stream_Read_UINT16 s;
        (len, s) \<leftarrow> Stream_Read_UINT16 s;
        let bd = \<lparr>destLeft = ucast l, destTop = ucast t, destRight = ucast r, destBottom = ucast b,
                  bm_width = ucast w, bm_height = ucast h, bitsPerPixel = ucast bpp, bm_flags = ucast flags,
                  bitmapLength = ucast len, cbCompFirstRowSize = 0, cbCompMainBodySize = 0, cbScanWidth = 0,
                  cbUncompressedSize = 0, bitmapDataStream = None, bm_compressed = False\<rparr>;
        (bd, s) \<leftarrow>
          (if bm_flags bd AND BITMAP_COMPRESSION \<noteq> 0 then
             if bm_flags bd AND NO_BITMAP_COMPRESSION_HDR = 0 then
               if Stream_GetRemainingLength s < 8 then Some (None, s)
               else do {
                 (firstRow, s) \<leftarrow> Stream_Read_UINT16 s;
                 (mainBody, s) \<leftarrow> Stream_Read_UINT16 s;
                 (scanWidth, s) \<leftarrow> Stream_Read_UINT16 s;
                 (uncompressed, s) \<leftarrow> Stream_Read_UINT16 s;
                 Some (Some (bd\<lparr>bitmapLength := ucast mainBody, cbCompFirstRowSize := ucast firstRow,
                   cbCompMainBodySize := ucast mainBody, cbScanWidth := ucast scanWidth,
                   cbUncompressedSize := ucast uncompressed, bm_compressed := True\<rparr>), s) }
             else Some (Some (bd\<lparr>bm_compressed := True\<rparr>), s)
           else Some (Some bd, s));
        read_bitmap_bytes malloc bd s })"

fun read_rectangles :: "allocator \<Rightarrow> nat \<Rightarrow> wStream \<Rightarrow> (BITMAP_DATA list option \<times> wStream) option" where
  "read_rectangles malloc 0 s = Some (Some [], s)"
| "read_rectangles malloc (Suc n) s = do {
     (bd, s) \<leftarrow> update_read_bitmap_data malloc s;
     (case bd of None \<Rightarrow> Some (None, s)
      | Some bd \<Rightarrow> do {
          (bds, s) \<leftarrow> read_rectangles malloc n s;
          Some (map_option (Cons bd) bds, s) }) }"

definition update_read_bitmap_update :: "allocator \<Rightarrow> wStream \<Rightarrow> (BITMAP_UPDATE option \<times> wStream) option" where
  "update_read_bitmap_update malloc s =
     (case malloc 24 of None \<Rightarrow> Some (None, s)
      | Some _ \<Rightarrow>
          if Stream_GetRemainingLength s < 2 then Some (None, s)
          else do {
            (number, s) \<leftarrow> Stream_Read_UINT16 s;
            (if number > 0 \<and> malloc (72 * (unat number * 2)) = None then Some (None, s)
             else read_rectangles malloc (unat number) s) })"

fun read_palette_entries :: "nat \<Rightarrow> wStream \<Rightarrow> (PALETTE_ENTRY list \<times> wStream) option" where
  "read_palette_entries 0 s = Some ([], s)"
| "read_palette_entries (Suc n) s = do {
     (r, s) \<leftarrow> Stream_Read_UINT8 s;
     (g, s) \<leftarrow> Stream_Read_UINT8 s;
     (b, s) \<leftarrow> Stream_Read_UINT8 s;
     (es, s) \<leftarrow> read_palette_entries n s;
     Some (\<lparr>pal_red = r, pal_green = g, pal_blue = b\<rparr> # es, s) }"

text \<open>The entries the palette holds are the first \<^verbatim>\<open>number\<close> of the array.\<close>

definition update_read_palette :: "allocator \<Rightarrow> wStream \<Rightarrow> (PALETTE_ENTRY list option \<times> wStream) option" where
  "update_read_palette malloc s =
     (case malloc 772 of None \<Rightarrow> Some (None, s)
      | Some _ \<Rightarrow>
          if Stream_GetRemainingLength s < 6 then Some (None, s)
          else do {
            let s = Stream_Seek s 2;
            (number, s) \<leftarrow> Stream_Read_UINT32 s;
            let number = (if number > 256 then 256 else number);
            (if Stream_GetRemainingLength s < unat (number * 3) then Some (None, s)
             else do {
               (es, s) \<leftarrow> read_palette_entries (unat number) s;
               Some (Some es, s) }) })"

definition update_read_synchronize :: "wStream \<Rightarrow> bool \<times> wStream" where
  "update_read_synchronize s = Stream_SafeSeek s 2"

definition update_read_play_sound :: "wStream \<Rightarrow> ((u32 \<times> u32) option \<times> wStream) option" where
  "update_read_play_sound s =
     (if Stream_GetRemainingLength s < 8 then Some (None, s)
      else do {
        (duration, s) \<leftarrow> Stream_Read_UINT32 s;
        (frequency, s) \<leftarrow> Stream_Read_UINT32 s;
        Some (Some (duration, frequency), s) })"

definition update_recv_play_sound :: "'k rdpUpdate \<Rightarrow> 'k pdu_handler" where
  "update_recv_play_sound u rdp s = do {
     (ps, s) \<leftarrow> update_read_play_sound s;
     (case ps of None \<Rightarrow> Some ((False, rdp), s)
      | Some ps \<Rightarrow> Some (if_call_result False (PlaySound u) rdp ps, s)) }"

section \<open>Pointers\<close>

definition update_read_pointer_position :: "allocator \<Rightarrow> wStream \<Rightarrow> ((u32 \<times> u32) option \<times> wStream) option" where
  "update_read_pointer_position malloc s =
     (if malloc 8 = None \<or> Stream_GetRemainingLength s < 4 then Some (None, s)
      else do {
        (x, s) \<leftarrow> Stream_Read_UINT16 s;
        (y, s) \<leftarrow> Stream_Read_UINT16 s;
        Some (Some (ucast x, ucast y), s) })"

definition update_read_pointer_system :: "allocator \<Rightarrow> wStream \<Rightarrow> (u32 option \<times> wStream) option" where
  "update_read_pointer_system malloc s =
     (if malloc 4 = None \<or> Stream_GetRemainingLength s < 4 then Some (None, s)
      else do { (type, s) \<leftarrow> Stream_Read_UINT32 s; Some (Some type, s) })"

text \<open>
  A scan line has \<open>bpp\<close> bits per pixel and is padded to an even number of bytes. A mask of declared
  length zero is absent; otherwise its length must be that of \<open>height\<close> scan lines.
\<close>

definition scanline_size :: "u32 \<Rightarrow> u32 \<Rightarrow> u32" where
  "scanline_size bpp w = (let sz = (7 + bpp * w) div 8 in ((sz + 1) div 2) * 2)"

definition read_pointer_mask ::
  "allocator \<Rightarrow> u32 \<Rightarrow> u32 \<Rightarrow> u32 \<Rightarrow> u32 \<Rightarrow> wStream \<Rightarrow> (byte list option option \<times> wStream) option" where
  "read_pointer_mask malloc bpp w h len s =
     (if len > 0 then
        if Stream_GetRemainingLength s < unat len then Some (None, s)
        else if scanline_size bpp w * h \<noteq> len then Some (None, s)
        else (case malloc (unat len) of None \<Rightarrow> Some (None, s)
         | Some _ \<Rightarrow> do { (bytes, s) \<leftarrow> Stream_Read s (unat len); Some (Some (Some bytes), s) })
      else Some (Some None, s))"

text \<open>Both masks and the pad byte behind them.\<close>

definition read_pointer_masks ::
  "allocator \<Rightarrow> u32 \<Rightarrow> u32 \<Rightarrow> u32 \<Rightarrow> u32 \<Rightarrow> u32 \<Rightarrow> wStream \<Rightarrow> ((byte list option \<times> byte list option) option \<times> wStream) option" where
  "read_pointer_masks malloc bpp w h lenXor lenAnd s = do {
     (xm, s) \<leftarrow> read_pointer_mask malloc bpp w h lenXor s;
     (case xm of None \<Rightarrow> Some (None, s)
      | Some xm \<Rightarrow> do {
          (am, s) \<leftarrow> read_pointer_mask malloc 1 w h lenAnd s;
          (case am of None \<Rightarrow> Some (None, s)
           | Some am \<Rightarrow> Some (Some (xm, am), if Stream_GetRemainingLength s > 0 then Stream_Seek s 1 else s)) }) }"

definition hot_spot :: "u16 \<Rightarrow> u16 \<Rightarrow> u16" where
  "hot_spot x w = (if x \<ge> w then 0 else x)"

definition update_read_pointer_color_data ::
  "allocator \<Rightarrow> byte \<Rightarrow> u32 \<Rightarrow> wStream \<Rightarrow> (POINTER_COLOR_UPDATE option \<times> wStream) option" where
  "update_read_pointer_color_data malloc xorBpp flags s = do {
     let max = (if flags AND LARGE_POINTER_FLAG_96x96 \<noteq> 0 then 96 else 32);
     (if Stream_GetRemainingLength s < 14 then Some (None, s)
      else do {
        (cache, s) \<leftarrow> Stream_Read_UINT16 s;
        (x, s) \<leftarrow> Stream_Read_UINT16 s;
        (y, s) \<leftarrow> Stream_Read_UINT16 s;
        (w, s) \<leftarrow> Stream_Read_UINT16 s;
        (h, s) \<leftarrow> Stream_Read_UINT16 s;
        (if w > max \<or> h > max then Some (None, s)
         else do {
           (lenAnd, s) \<leftarrow> Stream_Read_UINT16 s;
           (lenXor, s) \<leftarrow> Stream_Read_UINT16 s;
           let x = hot_spot x w;
           let y = hot_spot y h;
           (masks, s) \<leftarrow> read_pointer_masks malloc (ucast xorBpp) (ucast w) (ucast h) (ucast lenXor) (ucast lenAnd) s;
           (case masks of None \<Rightarrow> Some (None, s)
            | Some (xm, am) \<Rightarrow> Some (Some
                \<lparr>cacheIndex = ucast cache, xPos = ucast x, yPos = ucast y, ptr_width = ucast w, ptr_height = ucast h,
                 lengthAndMask = ucast lenAnd, lengthXorMask = ucast lenXor, xorMaskData = xm, andMaskData = am\<rparr>, s)) }) }) }"

definition update_read_pointer_color ::
  "allocator \<Rightarrow> 'k rdpUpdate \<Rightarrow> byte \<Rightarrow> wStream \<Rightarrow> (POINTER_COLOR_UPDATE option \<times> wStream) option" where
  "update_read_pointer_color malloc u xorBpp s =
     (if malloc 48 = None then Some (None, s)
      else update_read_pointer_color_data malloc xorBpp (LargePointerFlag u) s)"

definition update_read_pointer_large_data :: "allocator \<Rightarrow> wStream \<Rightarrow> (POINTER_LARGE_UPDATE option \<times> wStream) option" where
  "update_read_pointer_large_data malloc s =
     (if Stream_GetRemainingLength s < 20 then Some (None, s)
      else do {
        (bpp, s) \<leftarrow> Stream_Read_UINT16 s;
        (cache, s) \<leftarrow> Stream_Read_UINT16 s;
        (x, s) \<leftarrow> Stream_Read_UINT16 s;
        (y, s) \<leftarrow> Stream_Read_UINT16 s;
        (w, s) \<leftarrow> Stream_Read_UINT16 s;
        (h, s) \<leftarrow> Stream_Read_UINT16 s;
        (if w > 384 \<or> h > 384 then Some (None, s)
         else do {
           (lenAnd, s) \<leftarrow> Stream_Read_UINT32 s;
           (lenXor, s) \<leftarrow> Stream_Read_UINT32 s;
           let x = hot_spot x w;
           let y = hot_spot y h;
           (masks, s) \<leftarrow> read_pointer_masks malloc (ucast bpp) (ucast w) (ucast h) lenXor lenAnd s;
           (case masks of None \<Rightarrow> Some (None, s)
            | Some (xm, am) \<Rightarrow> Some (Some
                \<lparr>lp_xorBpp = bpp, lp_cacheIndex = cache, hotSpotX = x, hotSpotY = y, lp_width = w, lp_height = h,
                 lp_lengthAndMask = lenAnd, lp_lengthXorMask = lenXor, lp_xorMaskData = xm, lp_andMaskData = am\<rparr>, s)) }) })"

definition update_read_pointer_large :: "allocator \<Rightarrow> wStream \<Rightarrow> (POINTER_LARGE_UPDATE option \<times> wStream) option" where
  "update_read_pointer_large malloc s =
     (if malloc 40 = None then Some (None, s) else update_read_pointer_large_data malloc s)"

definition update_read_pointer_new ::
  "allocator \<Rightarrow> 'k rdpUpdate \<Rightarrow> wStream \<Rightarrow> ((u32 \<times> POINTER_COLOR_UPDATE) option \<times> wStream) option" where
  "update_read_pointer_new malloc u s =
     (if malloc 56 = None \<or> Stream_GetRemainingLength s < 2 then Some (None, s)
      else do {
        (xorBpp, s) \<leftarrow> Stream_Read_UINT16 s;
        (if xorBpp < 1 \<or> xorBpp > 32 then Some (None, s)
         else do {
           (pc, s) \<leftarrow> update_read_pointer_color_data malloc (ucast xorBpp) (LargePointerFlag u) s;
           Some (map_option (Pair (ucast xorBpp)) pc, s) }) })"

definition update_read_pointer_cached :: "allocator \<Rightarrow> wStream \<Rightarrow> (u32 option \<times> wStream) option" where
  "update_read_pointer_cached malloc s =
     (if malloc 4 = None \<or> Stream_GetRemainingLength s < 2 then Some (None, s)
      else do { (cache, s) \<leftarrow> Stream_Read_UINT16 s; Some (Some (ucast cache), s) })"

text \<open>Read a structure and hand it to its callback.\<close>

definition read_and_call ::
  "(wStream \<Rightarrow> ('a option \<times> wStream) option) \<Rightarrow> ('k, 'a) callback \<Rightarrow> 'k pdu_handler" where
  "read_and_call rd cb rdp s = do {
     (x, s) \<leftarrow> rd s;
     (case x of None \<Rightarrow> Some ((False, rdp), s)
      | Some x \<Rightarrow> Some (if_call_result False cb rdp x, s)) }"

definition update_recv_pointer :: "allocator \<Rightarrow> 'k rdpUpdate \<Rightarrow> 'k pdu_handler" where
  "update_recv_pointer malloc u rdp s =
     (if Stream_GetRemainingLength s < 2 + 2 then Some ((False, rdp), s)
      else do {
        (messageType, s) \<leftarrow> Stream_Read_UINT16 s;
        let s = Stream_Seek s 2;
        (if messageType = PTR_MSG_TYPE_POSITION then
           read_and_call (update_read_pointer_position malloc) (PointerPosition u) rdp s
         else if messageType = PTR_MSG_TYPE_SYSTEM then
           read_and_call (update_read_pointer_system malloc) (PointerSystem u) rdp s
         else if messageType = PTR_MSG_TYPE_COLOR then
           read_and_call (update_read_pointer_color malloc u 24) (PointerColor u) rdp s
         else if messageType = PTR_MSG_TYPE_POINTER_LARGE then
           read_and_call (update_read_pointer_large malloc) (PointerLarge u) rdp s
         else if messageType = PTR_MSG_TYPE_POINTER then
           read_and_call (update_read_pointer_new malloc u) (PointerNew u) rdp s
         else if messageType = PTR_MSG_TYPE_CACHED then
           read_and_call (update_read_pointer_cached malloc) (PointerCached u) rdp s
         else Some ((False, rdp), s)) })"

section \<open>The slow-path update\<close>

fun recv_order_loop :: "'k rdpUpdate \<Rightarrow> nat \<Rightarrow> 'k pdu_handler" where
  "recv_order_loop u 0 rdp s = Some ((True, rdp), s)"
| "recv_order_loop u (Suc n) rdp s = do {
     ((ok, rdp), s) \<leftarrow> update_recv_order u rdp s;
     (if \<not> ok then Some ((False, rdp), s) else recv_order_loop u n rdp s) }"

definition update_recv_orders :: "'k rdpUpdate \<Rightarrow> 'k pdu_handler" where
  "update_recv_orders u rdp s =
     (if Stream_GetRemainingLength s < 6 then Some ((False, rdp), s)
      else do {
        let s = Stream_Seek s 2;
        (numberOrders, s) \<leftarrow> Stream_Read_UINT16 s;
        let s = Stream_Seek s 2;
        recv_order_loop u (unat numberOrders) rdp s })"

text \<open>The switch over the type of an update, and the end of painting that follows it in every case.\<close>

definition dispatch_update :: "allocator \<Rightarrow> 'k rdpUpdate \<Rightarrow> u16 \<Rightarrow> 'k pdu_handler" where
  "dispatch_update malloc u updateType rdp s =
     (if updateType = UPDATE_TYPE_ORDERS then update_recv_orders u rdp s
      else if updateType = UPDATE_TYPE_BITMAP then
        read_and_call (update_read_bitmap_update malloc) (BitmapUpdate u) rdp s
      else if updateType = UPDATE_TYPE_PALETTE then
        read_and_call (update_read_palette malloc) (Palette u) rdp s
      else if updateType = UPDATE_TYPE_SYNCHRONIZE then
        let (ok, s) = update_read_synchronize s in
        if \<not> ok then Some ((False, rdp), s)
        else Some (if_call_result True (Synchronize u) rdp (), s)
      else Some ((False, rdp), s))"

definition finish_update :: "'k rdpUpdate \<Rightarrow> ((bool \<times> 'k rdpRdp) \<times> wStream) option \<Rightarrow> ((bool \<times> 'k rdpRdp) \<times> wStream) option" where
  "finish_update u r = do {
     ((rc, rdp), s) \<leftarrow> r;
     let (ok, rdp) = update_end_paint u rdp;
     Some ((rc \<and> ok, rdp), s) }"

definition update_recv :: "allocator \<Rightarrow> 'k rdpUpdate \<Rightarrow> 'k pdu_handler" where
  "update_recv malloc u rdp s =
     (if Stream_GetRemainingLength s < 2 then Some ((False, rdp), s)
      else do {
        (updateType, s) \<leftarrow> Stream_Read_UINT16 s;
        let (ok, rdp) = update_begin_paint u rdp;
        finish_update u (if \<not> ok then Some ((False, rdp), s) else dispatch_update malloc u updateType rdp s) })"

section \<open>Writers\<close>

text \<open>The \<open>n\<close> bytes a pointer of a structure points to; reading behind them is a fault.\<close>

definition pointed :: "byte list option \<Rightarrow> nat \<Rightarrow> byte list option" where
  "pointed p n = (case p of None \<Rightarrow> if n = 0 then Some [] else None | Some bs \<Rightarrow> mem_read bs 0 n)"

text \<open>
  The writer of a bitmap may fill in fields of the caller's structure: \<open>autoCalc\<close> is
  \<^verbatim>\<open>update->autoCalculateBitmapData\<close>, \<open>noHdr\<close> the setting \<^verbatim>\<open>NoBitmapCompressionHeader\<close>.
\<close>

definition auto_calculate :: "bool \<Rightarrow> bool \<Rightarrow> BITMAP_DATA \<Rightarrow> BITMAP_DATA" where
  "auto_calculate autoCalc noHdr bd =
     (if autoCalc then
        let bd = bd\<lparr>bm_flags := 0, cbCompFirstRowSize := 0\<rparr>;
            bd = (if bm_compressed bd then bd\<lparr>bm_flags := bm_flags bd OR BITMAP_COMPRESSION\<rparr> else bd)
        in if noHdr then bd\<lparr>bm_flags := bm_flags bd OR NO_BITMAP_COMPRESSION_HDR, cbCompMainBodySize := bitmapLength bd\<rparr>
           else bd
      else bd)"

definition update_write_bitmap_data ::
  "allocator \<Rightarrow> bool \<Rightarrow> bool \<Rightarrow> BITMAP_DATA \<Rightarrow> wStream \<Rightarrow> ((bool \<times> BITMAP_DATA) \<times> wStream) option" where
  "update_write_bitmap_data malloc autoCalc noHdr bd s = do {
     (ok, s) \<leftarrow> Stream_EnsureRemainingCapacity malloc s (unat (64 + bitmapLength bd));
     (if \<not> ok then Some ((False, bd), s)
      else do {
        let bd = auto_calculate autoCalc noHdr bd;
        s \<leftarrow> Stream_Write_UINT16 s (ucast (destLeft bd));
        s \<leftarrow> Stream_Write_UINT16 s (ucast (destTop bd));
        s \<leftarrow> Stream_Write_UINT16 s (ucast (destRight bd));
        s \<leftarrow> Stream_Write_UINT16 s (ucast (destBottom bd));
        s \<leftarrow> Stream_Write_UINT16 s (ucast (bm_width bd));
        s \<leftarrow> Stream_Write_UINT16 s (ucast (bm_height bd));
        s \<leftarrow> Stream_Write_UINT16 s (ucast (bitsPerPixel bd));
        s \<leftarrow> Stream_Write_UINT16 s (ucast (bm_flags bd));
        s \<leftarrow> Stream_Write_UINT16 s (ucast (bitmapLength bd));
        s \<leftarrow> (if bm_flags bd AND BITMAP_COMPRESSION \<noteq> 0 \<and> bm_flags bd AND NO_BITMAP_COMPRESSION_HDR = 0 then do {
                 s \<leftarrow> Stream_Write_UINT16 s (ucast (cbCompFirstRowSize bd));
                 s \<leftarrow> Stream_Write_UINT16 s (ucast (cbCompMainBodySize bd));
                 s \<leftarrow> Stream_Write_UINT16 s (ucast (cbScanWidth bd));
                 Stream_Write_UINT16 s (ucast (cbUncompressedSize bd)) }
               else Some s);
        bytes \<leftarrow> pointed (bitmapDataStream bd) (unat (bitmapLength bd));
        s \<leftarrow> Stream_Write s bytes;
        Some ((True, bd), s) }) }"

fun write_rectangles :: "allocator \<Rightarrow> bool \<Rightarrow> bool \<Rightarrow> BITMAP_DATA list \<Rightarrow> wStream \<Rightarrow> (bool \<times> wStream) option" where
  "write_rectangles malloc autoCalc noHdr [] s = Some (True, s)"
| "write_rectangles malloc autoCalc noHdr (bd # bds) s = do {
     ((ok, bd), s) \<leftarrow> update_write_bitmap_data malloc autoCalc noHdr bd s;
     (if \<not> ok then Some (False, s) else write_rectangles malloc autoCalc noHdr bds s) }"

definition update_write_bitmap_update ::
  "allocator \<Rightarrow> bool \<Rightarrow> bool \<Rightarrow> BITMAP_UPDATE \<Rightarrow> wStream \<Rightarrow> (bool \<times> wStream) option" where
  "update_write_bitmap_update malloc autoCalc noHdr bu s = do {
     (ok, s) \<leftarrow> Stream_EnsureRemainingCapacity malloc s 32;
     (if \<not> ok then Some (False, s)
      else do {
        s \<leftarrow> Stream_Write_UINT16 s UPDATE_TYPE_BITMAP;
        s \<leftarrow> Stream_Write_UINT16 s (word_of_nat (length bu));
        write_rectangles malloc autoCalc noHdr bu s }) }"

definition update_write_pointer_color :: "allocator \<Rightarrow> POINTER_COLOR_UPDATE \<Rightarrow> wStream \<Rightarrow> (bool \<times> wStream) option" where
  "update_write_pointer_color malloc pc s = do {
     (ok, s) \<leftarrow> Stream_EnsureRemainingCapacity malloc s (unat (32 + lengthAndMask pc + lengthXorMask pc));
     (if \<not> ok then Some (False, s)
      else do {
        s \<leftarrow> Stream_Write_UINT16 s (ucast (cacheIndex pc));
        s \<leftarrow> Stream_Write_UINT16 s (ucast (xPos pc));
        s \<leftarrow> Stream_Write_UINT16 s (ucast (yPos pc));
        s \<leftarrow> Stream_Write_UINT16 s (ucast (ptr_width pc));
        s \<leftarrow> Stream_Write_UINT16 s (ucast (ptr_height pc));
        s \<leftarrow> Stream_Write_UINT16 s (ucast (lengthAndMask pc));
        s \<leftarrow> Stream_Write_UINT16 s (ucast (lengthXorMask pc));
        xm \<leftarrow> pointed (xorMaskData pc) (unat (lengthXorMask pc));
        s \<leftarrow> Stream_Write s xm;
        am \<leftarrow> pointed (andMaskData pc) (unat (lengthAndMask pc));
        s \<leftarrow> Stream_Write s am;
        s \<leftarrow> Stream_Write_UINT8 s 0;
        Some (True, s) }) }"

definition update_write_pointer_large :: "allocator \<Rightarrow> POINTER_LARGE_UPDATE \<Rightarrow> wStream \<Rightarrow> (bool \<times> wStream) option" where
  "update_write_pointer_large malloc lp s = do {
     (ok, s) \<leftarrow> Stream_EnsureRemainingCapacity malloc s (unat (32 + lp_lengthAndMask lp + lp_lengthXorMask lp));
     (if \<not> ok then Some (False, s)
      else do {
        s \<leftarrow> Stream_Write_UINT16 s (lp_xorBpp lp);
        s \<leftarrow> Stream_Write_UINT16 s (lp_cacheIndex lp);
        s \<leftarrow> Stream_Write_UINT16 s (hotSpotX lp);
        s \<leftarrow> Stream_Write_UINT16 s (hotSpotY lp);
        s \<leftarrow> Stream_Write_UINT16 s (lp_width lp);
        s \<leftarrow> Stream_Write_UINT16 s (lp_height lp);
        s \<leftarrow> Stream_Write_UINT32 s (lp_lengthAndMask lp);
        s \<leftarrow> Stream_Write_UINT32 s (lp_lengthXorMask lp);
        xm \<leftarrow> pointed (lp_xorMaskData lp) (unat (lp_lengthXorMask lp));
        s \<leftarrow> Stream_Write s xm;
        am \<leftarrow> pointed (lp_andMaskData lp) (unat (lp_lengthAndMask lp));
        s \<leftarrow> Stream_Write s am;
        s \<leftarrow> Stream_Write_UINT8 s 0;
        Some (True, s) }) }"

section \<open>Refresh and suppress requests\<close>

fun write_areas :: "RECTANGLE_16 list \<Rightarrow> wStream \<Rightarrow> wStream option" where
  "write_areas [] s = Some s"
| "write_areas (a # as) s = do {
     s \<leftarrow> Stream_Write_UINT16 s (rc_left a);
     s \<leftarrow> Stream_Write_UINT16 s (rc_top a);
     s \<leftarrow> Stream_Write_UINT16 s (rc_right a);
     s \<leftarrow> Stream_Write_UINT16 s (rc_bottom a);
     write_areas as s }"

text \<open>The first \<open>cnt\<close> areas of the caller's array; reading behind it is a fault.\<close>

definition update_write_refresh_rect :: "wStream \<Rightarrow> byte \<Rightarrow> RECTANGLE_16 list \<Rightarrow> wStream option" where
  "update_write_refresh_rect s cnt areas = do {
     s \<leftarrow> Stream_Write_UINT8 s cnt;
     let s = Stream_Seek s 3;
     areas \<leftarrow> mem_read areas 0 (unat cnt);
     write_areas areas s }"

definition update_write_suppress_output :: "wStream \<Rightarrow> byte \<Rightarrow> RECTANGLE_16 option \<Rightarrow> wStream option" where
  "update_write_suppress_output s allow area = do {
     s \<leftarrow> Stream_Write_UINT8 s allow;
     s \<leftarrow> Stream_Zero s 3;
     (if allow > 0 then do { a \<leftarrow> area; write_areas [a] s } else Some s) }"

fun read_areas :: "nat \<Rightarrow> wStream \<Rightarrow> (RECTANGLE_16 list \<times> wStream) option" where
  "read_areas 0 s = Some ([], s)"
| "read_areas (Suc n) s = do {
     (l, s) \<leftarrow> Stream_Read_UINT16 s;
     (t, s) \<leftarrow> Stream_Read_UINT16 s;
     (r, s) \<leftarrow> Stream_Read_UINT16 s;
     (b, s) \<leftarrow> Stream_Read_UINT16 s;
     (as, s) \<leftarrow> read_areas n s;
     Some (\<lparr>rc_left = l, rc_top = t, rc_right = r, rc_bottom = b\<rparr> # as, s) }"

definition update_read_refresh_rect :: "allocator \<Rightarrow> 'k rdpUpdate \<Rightarrow> 'k pdu_handler" where
  "update_read_refresh_rect malloc u rdp s =
     (if Stream_GetRemainingLength s < 4 then Some ((False, rdp), s)
      else do {
        (numberOfAreas, s) \<leftarrow> Stream_Read_UINT8 s;
        let s = Stream_Seek s 3;
        (if Stream_GetRemainingLength s < unat numberOfAreas * 4 * 2 then Some ((False, rdp), s)
         else if malloc (unat numberOfAreas * 8) = None then Some ((False, rdp), s)
         else do {
           (areas, s) \<leftarrow> read_areas (unat numberOfAreas) s;
           let rdp = (if RefreshRectEnabled u then case RefreshRect u of None \<Rightarrow> rdp | Some f \<Rightarrow> f rdp areas else rdp);
           Some ((True, rdp), s) }) })"

definition update_read_suppress_output :: "'k rdpUpdate \<Rightarrow> 'k pdu_handler" where
  "update_read_suppress_output u rdp s =
     (if Stream_GetRemainingLength s < 4 then Some ((False, rdp), s)
      else do {
        (allow, s) \<leftarrow> Stream_Read_UINT8 s;
        let s = Stream_Seek s 3;
        (prect, s) \<leftarrow>
          (if allow > 0 then
             if Stream_GetRemainingLength s < 8 then Some (None, s)
             else do { (areas, s) \<leftarrow> read_areas 1 s; Some (Some (Some (areas ! 0)), s) }
           else Some (Some None, s));
        (case prect of None \<Rightarrow> Some ((False, rdp), s)
         | Some prect \<Rightarrow>
             let rdp = (if SuppressOutputEnabled u then case SuppressOutput u of None \<Rightarrow> rdp | Some f \<Rightarrow> f rdp (allow, prect) else rdp)
             in Some ((True, rdp), s)) })"

section \<open>Safety of the readers\<close>

lemma safe_after:
  assumes "safe_reader f" "wf_stream s" "n \<le> avail s"
  shows "run_ok (f (Stream_Seek s n)) (\<lambda>_. consumed s)"
  by (rule run_ok_mono [OF safe_readerD [OF assms(1) wf_Seek [OF assms(2,3)]] consumed_trans [OF consumed_Seek [OF assms(3)]]])

lemma safe_bitmap_bytes: "safe_reader (read_bitmap_bytes malloc bd)"
  by (rule safe_readerI) (simp add: read_bitmap_bytes_def wire_simps split: option.splits)

lemma safe_read_bitmap_data: "safe_reader (update_read_bitmap_data malloc)"
proof (rule safe_readerI)
  fix s assume w: "wf_stream s"
  show "run_ok (update_read_bitmap_data malloc s) (\<lambda>_. consumed s)"
    unfolding update_read_bitmap_data_def
    using w by (simp add: wire_simps safe_after [OF safe_bitmap_bytes] Let_def)
qed

lemma safe_read_rectangles: "safe_reader (read_rectangles malloc n)"
proof (induction n)
  case (Suc n)
  have "safe_reader (\<lambda>s. do {
     (bd, s) \<leftarrow> update_read_bitmap_data malloc s;
     (case bd of None \<Rightarrow> Some (None, s)
      | Some bd \<Rightarrow> do { (bds, s) \<leftarrow> read_rectangles malloc n s; Some (map_option (Cons bd) bds, s) }) })"
    by (intro safe_bind safe_case_option safe_read_bitmap_data Suc.IH safe_return)
  then show ?case by simp
qed simp

lemma safe_read_bitmap_update: "safe_reader (update_read_bitmap_update malloc)"
proof (rule safe_readerI)
  fix s assume "wf_stream s"
  then show "run_ok (update_read_bitmap_update malloc s) (\<lambda>_. consumed s)"
    by (simp add: update_read_bitmap_update_def wire_simps safe_after [OF safe_read_rectangles] split: option.splits)
qed

lemma read_palette_entries_run:
  "wf_stream s \<Longrightarrow> 3 * n \<le> avail s \<Longrightarrow>
   \<exists>es. read_palette_entries n s = Some (es, Stream_Seek s (3 * n)) \<and> length es = n"
proof (induction n arbitrary: s)
  case (Suc n)
  have "\<exists>es. read_palette_entries n (Stream_Seek s 3) = Some (es, Stream_Seek (Stream_Seek s 3) (3 * n)) \<and> length es = n"
    using Suc.prems by (intro Suc.IH) (simp_all add: wire_simps)
  then show ?case using Suc.prems by (auto simp: wire_simps simp del: One_nat_def)
qed simp

lemma palette_size: "unat ((if n > 256 then 256 else n :: u32) * 3) = 3 * unat (if n > 256 then 256 else n)"
  by (simp add: unat_word_ariths word_less_nat_alt)

lemma safe_read_palette: "safe_reader (update_read_palette malloc)"
proof (rule safe_readerI)
  fix s assume w: "wf_stream s"
  let ?k = "if get32 (drop 2 (rest s)) > 256 then 256 else get32 (drop 2 (rest s))"
  have e: "\<exists>es. read_palette_entries (unat ?k) (Stream_Seek s 6) = Some (es, Stream_Seek s (6 + 3 * unat ?k))"
    if "3 * unat ?k \<le> avail s - 6" "6 \<le> avail s"
    using read_palette_entries_run [of "Stream_Seek s 6" "unat ?k"] w that by (auto simp: wire_simps)
  show "run_ok (update_read_palette malloc s) (\<lambda>_. consumed s)"
    using w by (cases "3 * unat ?k \<le> avail s - 6")
      (use e in \<open>auto simp: update_read_palette_def wire_simps Let_def palette_size split: option.splits simp del: if_split\<close>)
qed

section \<open>Well-formed pointers\<close>

text \<open>
  A scan line of \<open>w\<close> pixels in whole 16-bit units. The 32-bit arithmetic of the reader computes it exactly for
  the pointer sizes it accepts.
\<close>

definition scanline :: "nat \<Rightarrow> nat \<Rightarrow> nat" where
  "scanline bpp w = 2 * ((bpp * w + 15) div 16)"

lemma scanline_size_exact:
  assumes "unat bpp < 2 ^ 16" "unat w \<le> 384"
  shows "unat (scanline_size bpp w) = scanline (unat bpp) (unat w)"
proof -
  have p: "unat bpp * unat w \<le> 65535 * 384" using assms by (intro mult_mono) simp_all
  then have m: "unat (7 + bpp * w) = 7 + unat bpp * unat w" by (simp add: unat_word_ariths)
  let ?z = "(7 + unat bpp * unat w) div 8"
  have z: "?z \<le> 4000000" using p by simp
  have u: "unat (((7 + bpp * w) div 8 + 1) div 2 * 2) = (?z + 1) div 2 * 2"
    using z by (simp add: unat_div unat_word_ariths(1,2) m)
  have "((7 + n) div 8 + 1) div 2 * 2 = 2 * ((n + 15) div 16)" for n :: nat
  proof -
    have "(7 + n) div 8 + 1 = (n + 15) div 8" using div_add_self2 [of 8 "7 + n"] by (simp add: ac_simps)
    then have "((7 + n) div 8 + 1) div 2 = (n + 15) div 16" using div_mult2_eq [of "n + 15" 8 2] by simp
    then show ?thesis by simp
  qed
  then have "(?z + 1) div 2 * 2 = 2 * ((unat bpp * unat w + 15) div 16)" .
  then show ?thesis using u by (simp add: scanline_size_def Let_def scanline_def)
qed

lemma mask_size_exact:
  assumes "unat bpp < 2 ^ 16" "unat w \<le> 384" "unat h \<le> 384"
  shows "unat (scanline_size bpp w * h) = scanline (unat bpp) (unat w) * unat h"
proof -
  have "unat bpp * unat w \<le> 65535 * 384" using assms(1,2) by (intro mult_mono) simp_all
  then have "scanline (unat bpp) (unat w) \<le> 4000000" by (simp add: scanline_def)
  then have "scanline (unat bpp) (unat w) * unat h \<le> 4000000 * 384" using assms(3) by (intro mult_mono) simp_all
  then show ?thesis using scanline_size_exact [OF assms(1,2)] by (simp add: unat_word_ariths(2))
qed

text \<open>A mask is absent, or as long as its scan lines and as the length announced.\<close>

definition wf_mask :: "nat \<Rightarrow> nat \<Rightarrow> nat \<Rightarrow> u32 \<Rightarrow> byte list option \<Rightarrow> bool" where
  "wf_mask bpp w h len m = (case m of None \<Rightarrow> len = 0
     | Some bs \<Rightarrow> length bs = unat len \<and> unat len = scanline bpp w * h \<and> len \<noteq> 0)"

definition wf_pointer_color :: "nat \<Rightarrow> nat \<Rightarrow> POINTER_COLOR_UPDATE \<Rightarrow> bool" where
  "wf_pointer_color mx bpp pc \<longleftrightarrow> unat (ptr_width pc) \<le> mx \<and> unat (ptr_height pc) \<le> mx \<and>
     (xPos pc < ptr_width pc \<or> xPos pc = 0) \<and> (yPos pc < ptr_height pc \<or> yPos pc = 0) \<and>
     wf_mask bpp (unat (ptr_width pc)) (unat (ptr_height pc)) (lengthXorMask pc) (xorMaskData pc) \<and>
     wf_mask 1 (unat (ptr_width pc)) (unat (ptr_height pc)) (lengthAndMask pc) (andMaskData pc)"

definition wf_pointer_large :: "POINTER_LARGE_UPDATE \<Rightarrow> bool" where
  "wf_pointer_large lp \<longleftrightarrow> lp_width lp \<le> 384 \<and> lp_height lp \<le> 384 \<and>
     (hotSpotX lp < lp_width lp \<or> hotSpotX lp = 0) \<and> (hotSpotY lp < lp_height lp \<or> hotSpotY lp = 0) \<and>
     wf_mask (unat (lp_xorBpp lp)) (unat (lp_width lp)) (unat (lp_height lp)) (lp_lengthXorMask lp) (lp_xorMaskData lp) \<and>
     wf_mask 1 (unat (lp_width lp)) (unat (lp_height lp)) (lp_lengthAndMask lp) (lp_andMaskData lp)"

definition pointer_max :: "u32 \<Rightarrow> nat" where
  "pointer_max flags = (if flags AND LARGE_POINTER_FLAG_96x96 \<noteq> 0 then 96 else 32)"

lemma read_pointer_mask_run:
  assumes "wf_stream s" "unat bpp < 2 ^ 16" "unat w \<le> 384" "unat h \<le> 384"
  shows "run_ok (read_pointer_mask malloc bpp w h len s) (\<lambda>r s'. consumed s s' \<and>
    (case r of None \<Rightarrow> True | Some m \<Rightarrow> wf_mask (unat bpp) (unat w) (unat h) len m))"
  using assms(1) mask_size_exact [OF assms(2-4)] length_rest [OF assms(1)]
  by (auto simp: read_pointer_mask_def wire_simps wf_mask_def word_gt_0 not_less split: option.splits)

lemma read_pointer_masks_run:
  assumes "wf_stream s" "unat bpp < 2 ^ 16" "unat w \<le> 384" "unat h \<le> 384"
  shows "run_ok (read_pointer_masks malloc bpp w h lenXor lenAnd s) (\<lambda>r s'. consumed s s' \<and>
    (case r of None \<Rightarrow> True | Some (xm, am) \<Rightarrow>
       wf_mask (unat bpp) (unat w) (unat h) lenXor xm \<and> wf_mask 1 (unat w) (unat h) lenAnd am))"
  unfolding read_pointer_masks_def run_ok_bind
proof (rule run_ok_mono [OF read_pointer_mask_run [OF assms]], goal_cases)
  case (1 xm t)
  show ?case
  proof (cases xm)
    case None
    then show ?thesis using 1 by simp
  next
    case (Some m)
    have t: "wf_stream t" "consumed s t" using 1 assms(1) consumed_wf by blast+
    have pad: "consumed s s' \<and> (0 < Stream_GetRemainingLength s' \<longrightarrow> consumed s (Stream_Seek s' 1))" if c: "consumed t s'" for s'
    proof -
      have "wf_stream s'" using consumed_wf [OF t(1) c] .
      then show ?thesis using consumed_trans [OF t(2) c] consumed_trans [OF _ consumed_Seek [of 1 s'], of s]
        by (simp add: wire_simps)
    qed
    show ?thesis unfolding Some option.case run_ok_bind
      by (rule run_ok_mono [OF read_pointer_mask_run [OF t(1) _ assms(3,4), of 1]])
        (use 1 Some pad consumed_trans [OF t(2)] in \<open>auto split: option.splits simp del: One_nat_def\<close>)
  qed
qed

lemma masks_after:
  assumes "wf_stream s" "n \<le> avail s" "unat bpp < 2 ^ 16" "unat w \<le> 384" "unat h \<le> 384"
    "\<And>xm am s'. consumed s s' \<Longrightarrow> wf_mask (unat bpp) (unat w) (unat h) lenXor xm \<Longrightarrow> wf_mask 1 (unat w) (unat h) lenAnd am \<Longrightarrow> Q (Some (f xm am)) s'"
    "\<And>s'. consumed s s' \<Longrightarrow> Q None s'"
  shows "run_ok (do {
     (masks, s) \<leftarrow> read_pointer_masks malloc bpp w h lenXor lenAnd (Stream_Seek s n);
     (case masks of None \<Rightarrow> Some (None, s) | Some (xm, am) \<Rightarrow> Some (Some (f xm am), s)) }) Q"
  unfolding run_ok_bind
  by (rule run_ok_mono [OF read_pointer_masks_run [OF wf_Seek [OF assms(1,2)] assms(3-5)]])
    (use assms(6,7) consumed_trans [OF consumed_Seek [OF assms(2)]] in \<open>auto split: option.splits\<close>)

lemma hot_spot_inside: "hot_spot x w < w \<or> hot_spot x w = 0"
  by (auto simp: hot_spot_def)

lemma hot_spot_inside_32: "(ucast (hot_spot x w) :: u32) < ucast w \<or> (ucast (hot_spot x w) :: u32) = 0"
proof -
  have "(ucast a < (ucast b :: u32)) = (a < b)" for a b :: u16 by (simp add: word_less_nat_alt unat_ucast_up)
  then show ?thesis using hot_spot_inside [of x w] by auto
qed

lemma read_pointer_color_data_run:
  assumes "wf_stream s"
  shows "run_ok (update_read_pointer_color_data malloc bpp flags s) (\<lambda>r s'. consumed s s' \<and>
    (case r of None \<Rightarrow> True | Some pc \<Rightarrow> wf_pointer_color (pointer_max flags) (unat bpp) pc))"
proof -
  let ?m = "(if flags AND LARGE_POINTER_FLAG_96x96 \<noteq> 0 then 96 else 32) :: u16"
  let ?w = "get16 (drop 6 (rest s))" and ?h = "get16 (drop 8 (rest s))"
  have m: "unat ?m = pointer_max flags" "pointer_max flags \<le> 96" by (simp_all add: pointer_max_def)
  show ?thesis
  proof (cases "avail s < 14 \<or> ?w > ?m \<or> ?h > ?m")
    case True
    then show ?thesis using assms by (auto simp: update_read_pointer_color_data_def wire_simps Let_def simp del: if_split)
  next
    case False
    then have wh: "unat ?w \<le> pointer_max flags" "unat ?h \<le> pointer_max flags" unfolding m(1) [symmetric]
      by (simp_all add: not_less word_le_nat_alt)
    have "14 \<le> avail s" using False by simp
    then show ?thesis using False assms
      by (simp add: update_read_pointer_color_data_def wire_simps Let_def del: if_split)
        (rule masks_after, use m(2) wh unat_byte hot_spot_inside_32 in \<open>auto simp: unat_ucast_up wf_pointer_color_def simp del: One_nat_def\<close>)
  qed
qed

lemma read_pointer_large_data_run:
  assumes "wf_stream s"
  shows "run_ok (update_read_pointer_large_data malloc s) (\<lambda>r s'. consumed s s' \<and>
    (case r of None \<Rightarrow> True | Some lp \<Rightarrow> wf_pointer_large lp))"
proof -
  let ?w = "get16 (drop 8 (rest s))" and ?h = "get16 (drop 10 (rest s))"
  show ?thesis
  proof (cases "avail s < 20 \<or> ?w > 384 \<or> ?h > 384")
    case True
    then show ?thesis using assms by (auto simp: update_read_pointer_large_data_def wire_simps Let_def)
  next
    case False
    then have wh: "unat ?w \<le> 384" "unat ?h \<le> 384" by (simp_all add: not_less word_le_nat_alt)
    have "20 \<le> avail s" using False by simp
    then show ?thesis using False assms
      by (simp add: update_read_pointer_large_data_def wire_simps Let_def)
        (rule masks_after, use wh hot_spot_inside unat_u16 in \<open>auto simp: unat_ucast_up wf_pointer_large_def not_less simp del: One_nat_def\<close>)
  qed
qed

lemma read_pointer_new_run:
  assumes "wf_stream s"
  shows "run_ok (update_read_pointer_new malloc u s) (\<lambda>r s'. consumed s s' \<and>
    (case r of None \<Rightarrow> True | Some (bpp, pc) \<Rightarrow> 1 \<le> bpp \<and> bpp \<le> 32 \<and> wf_pointer_color (pointer_max (LargePointerFlag u)) (unat bpp) pc))"
proof (cases "malloc 56 = None \<or> avail s < 2 \<or> get16 (rest s) < 1 \<or> get16 (rest s) > 32")
  case True
  then show ?thesis using assms by (auto simp: update_read_pointer_new_def wire_simps)
next
  case False
  let ?b = "get16 (rest s)"
  have "?b \<noteq> 0" using False by auto
  then have b: "1 \<le> unat ?b" "unat ?b \<le> 32" and a: "2 \<le> avail s"
    using False by (simp_all add: not_less word_le_nat_alt Suc_le_eq unat_gt_0)
  have u: "unat (ucast ?b :: byte) = unat ?b" "unat (ucast ?b :: u32) = unat ?b"
    using b(2) by (simp_all add: unsigned_ucast_eq take_bit_nat_eq_self)
  have l: "1 \<le> (ucast ?b :: u32)" "(ucast ?b :: u32) \<le> 32" using b by (simp_all add: word_le_nat_alt u)
  have r: "run_ok (update_read_pointer_color_data malloc (ucast ?b) (LargePointerFlag u) (Stream_Seek s 2)) (\<lambda>r s'.
      consumed s s' \<and> (case r of None \<Rightarrow> True | Some pc \<Rightarrow> wf_pointer_color (pointer_max (LargePointerFlag u)) (unat ?b) pc))"
    by (rule run_ok_mono [OF read_pointer_color_data_run [OF wf_Seek [OF assms a]]])
      (auto simp: u consumed_trans [OF consumed_Seek [OF a]] split: option.splits)
  have "update_read_pointer_new malloc u s = do {
      (pc, s) \<leftarrow> update_read_pointer_color_data malloc (ucast ?b) (LargePointerFlag u) (Stream_Seek s 2);
      Some (map_option (Pair (ucast ?b)) pc, s) }"
    using False assms a by (auto simp: update_read_pointer_new_def wire_simps)
  then show ?thesis unfolding run_ok_bind using l u by (auto intro!: run_ok_mono [OF r] split: option.splits simp: run_ok_bind)
qed

lemma safe_read_pointers:
  "safe_reader (update_read_pointer_position malloc)" "safe_reader (update_read_pointer_system malloc)"
  "safe_reader (update_read_pointer_cached malloc)" "safe_reader (update_read_pointer_color malloc u bpp)"
  "safe_reader (update_read_pointer_new malloc u)" "safe_reader (update_read_pointer_large malloc)"
proof -
  show "safe_reader (update_read_pointer_position malloc)" "safe_reader (update_read_pointer_system malloc)"
    "safe_reader (update_read_pointer_cached malloc)"
    by (rule safe_readerI, auto simp: update_read_pointer_position_def update_read_pointer_system_def
        update_read_pointer_cached_def wire_simps)+
  show "safe_reader (update_read_pointer_new malloc u)"
    by (rule safe_readerI, rule run_ok_mono [OF read_pointer_new_run], auto)
  have "safe_reader (update_read_pointer_color_data malloc bpp (LargePointerFlag u))" "safe_reader (update_read_pointer_large_data malloc)"
    by (rule safe_readerI, rule run_ok_mono [OF read_pointer_color_data_run], auto)
      (rule safe_readerI, rule run_ok_mono [OF read_pointer_large_data_run], auto)
  then show "safe_reader (update_read_pointer_color malloc u bpp)" "safe_reader (update_read_pointer_large malloc)"
    unfolding update_read_pointer_color_def [abs_def] update_read_pointer_large_def [abs_def] by (intro safe_if safe_return; simp)+
qed

section \<open>Dispatch\<close>

lemma safe_read_and_call: "safe_reader rd \<Longrightarrow> safe_reader (read_and_call rd cb rdp)"
  unfolding read_and_call_def [abs_def] by (intro safe_bind safe_case_option safe_return)

lemma update_recv_pointer_safe: "safe_reader (update_recv_pointer malloc u rdp)"
proof (rule safe_readerI)
  fix s assume w: "wf_stream s"
  note a = safe_after [OF safe_read_and_call w]
  show "run_ok (update_recv_pointer malloc u rdp s) (\<lambda>_. consumed s)"
    using w by (simp add: update_recv_pointer_def wire_simps a safe_read_pointers Let_def)
qed

lemma recv_order_loop_safe: "(\<And>rdp. safe_reader (update_recv_order u rdp)) \<Longrightarrow> safe_reader (recv_order_loop u n rdp)"
proof (induction n arbitrary: rdp)
  case (Suc n)
  have "safe_reader (\<lambda>s. do { (r, s) \<leftarrow> update_recv_order u rdp s;
     (case r of (ok, rdp) \<Rightarrow> \<lambda>s. if \<not> ok then Some ((False, rdp), s) else recv_order_loop u n rdp s) s })"
    by (intro safe_bind Suc.prems) (simp add: case_prod_unfold, intro safe_if safe_return Suc.IH Suc.prems)
  then show ?case by (simp add: case_prod_unfold)
qed (auto intro: safe_readerI)

lemma update_recv_orders_safe:
  assumes "\<And>rdp. safe_reader (update_recv_order u rdp)"
  shows "safe_reader (update_recv_orders u rdp)"
proof (rule safe_readerI)
  fix s assume "wf_stream s"
  then show "run_ok (update_recv_orders u rdp s) (\<lambda>_. consumed s)"
    by (simp add: update_recv_orders_def wire_simps Let_def safe_after [OF recv_order_loop_safe [OF assms]])
qed

lemma finish_update_run: "run_ok (finish_update u m) (\<lambda>_. Q) \<longleftrightarrow> run_ok m (\<lambda>_. Q)"
  by (auto simp: finish_update_def run_ok_def case_prod_unfold Let_def split: option.splits)

lemma dispatch_update_safe:
  assumes "ty \<noteq> UPDATE_TYPE_ORDERS"
  shows "safe_reader (dispatch_update malloc u ty rdp)"
proof -
  have "safe_reader (\<lambda>s. let (ok, s) = update_read_synchronize s in
      if \<not> ok then Some ((False, rdp), s) else Some (if_call_result True (Synchronize u) rdp (), s))"
    by (rule safe_readerI) (simp add: update_read_synchronize_def wire_simps Let_def)
  then show ?thesis unfolding dispatch_update_def [abs_def] using assms
    by (simp, intro safe_if safe_return safe_read_and_call safe_read_bitmap_update safe_read_palette)
qed

lemma read_areas_run:
  "wf_stream s \<Longrightarrow> 8 * n \<le> avail s \<Longrightarrow> \<exists>as. read_areas n s = Some (as, Stream_Seek s (8 * n)) \<and> length as = n"
proof (induction n arbitrary: s)
  case (Suc n)
  have "\<exists>as. read_areas n (Stream_Seek s 8) = Some (as, Stream_Seek (Stream_Seek s 8) (8 * n)) \<and> length as = n"
    using Suc.prems by (intro Suc.IH) (simp_all add: wire_simps)
  then show ?case using Suc.prems by (auto simp: wire_simps)
qed simp

lemma safe_client_requests: "safe_reader (update_read_refresh_rect malloc u rdp)" "safe_reader (update_read_suppress_output u rdp)"
proof -
  have a: "\<exists>as. read_areas n (Stream_Seek s 4) = Some (as, Stream_Seek s (4 + 8 * n))"
    if "wf_stream s" "4 \<le> avail s" "8 * n \<le> avail s - 4" for s n
    using read_areas_run [of "Stream_Seek s 4" n] that by (auto simp: wire_simps)
  show "safe_reader (update_read_refresh_rect malloc u rdp)"
  proof (rule safe_readerI)
    fix s assume w: "wf_stream s"
    then show "run_ok (update_read_refresh_rect malloc u rdp s) (\<lambda>_. consumed s)"
      using a [OF w, of "unat (rest s ! 0)"] by (auto simp: update_read_refresh_rect_def wire_simps Let_def)
  qed
  show "safe_reader (update_read_suppress_output u rdp)"
  proof (rule safe_readerI)
    fix s assume w: "wf_stream s"
    then show "run_ok (update_read_suppress_output u rdp s) (\<lambda>_. consumed s)"
      using a [OF w, of 1] by (auto simp: update_read_suppress_output_def wire_simps Let_def simp del: read_areas.simps)
  qed
qed

text \<open>
  C12: Whatever bytes they are given, the client's handlers of slow-path bitmap, palette, synchronize and
  unknown updates, of pointers and of sounds, and the server's of refresh and suppress-output requests, neither fault
  nor read behind the end. Drawing orders, the update type 0, are not part of the claim: their parser is an
  argument of the model.
\<close>

theorem update_recv_safe:
  assumes "wf_stream s" "get16 (rest s) \<noteq> UPDATE_TYPE_ORDERS"
  shows "run_ok (update_recv malloc u rdp s) (\<lambda>_. consumed s) \<and> safe_reader (update_recv_pointer malloc u rdp) \<and>
    safe_reader (update_recv_play_sound u rdp) \<and> safe_reader (update_read_refresh_rect malloc u rdp) \<and>
    safe_reader (update_read_suppress_output u rdp)"
proof (intro conjI update_recv_pointer_safe safe_client_requests)
  obtain ok rdp' where b: "update_begin_paint u rdp = (ok, rdp')" by force
  show "run_ok (update_recv malloc u rdp s) (\<lambda>_. consumed s)"
    using assms(1) by (simp add: update_recv_def wire_simps b finish_update_run safe_after [OF dispatch_update_safe [OF assms(2)] assms(1)] Let_def)
  show "safe_reader (update_recv_play_sound u rdp)"
    by (rule safe_readerI) (simp add: update_recv_play_sound_def update_read_play_sound_def wire_simps)
qed

text \<open>A client with all callbacks set, which leave the state as it is and succeed.\<close>

definition accept :: "('k, 'a) callback" where
  "accept = Some (\<lambda>rdp _. (True, rdp))"

definition example_update :: "unit rdpUpdate" where
  "example_update =
     \<lparr>LargePointerFlag = 1, RefreshRectEnabled = True, SuppressOutputEnabled = True,
      update_recv_order = (\<lambda>rdp s. Some ((False, rdp), s)), BeginPaint = accept, EndPaint = accept, BitmapUpdate = accept,
      Palette = accept, Synchronize = accept, PlaySound = accept, PointerPosition = accept, PointerSystem = accept,
      PointerColor = accept, PointerNew = accept, PointerCached = accept, PointerLarge = accept,
      RefreshRect = None, SuppressOutput = None, SurfaceBits = accept, SurfaceFrameMarker = accept\<rparr>"

lemma example_orders_safe: "safe_reader (update_recv_order example_update rdp)"
  by (simp add: example_update_def)

theorem update_recv_safe_witness:
  "run_ok (update_recv zero_malloc example_update (example_rdp False) (Stream_StaticInit [1, 0, 0xFF, 0xFF]))
     (\<lambda>_. consumed (Stream_StaticInit [1, 0, 0xFF, 0xFF])) \<and>
   safe_reader (update_recv_pointer zero_malloc example_update (example_rdp False)) \<and>
   safe_reader (update_recv_play_sound example_update (example_rdp False)) \<and>
   safe_reader (update_read_refresh_rect zero_malloc example_update (example_rdp False)) \<and>
   safe_reader (update_read_suppress_output example_update (example_rdp False))"
  by (rule update_recv_safe, simp) (simp add: rest_def Stream_StaticInit_def get16_def UPDATE_TYPE_ORDERS_def)

text \<open>
  C13: Every pointer a client hands to its application is well-formed, whatever the server sends: its
  size is within the limit of its kind (32 or 96 pixels, 384 for large pointers), the hot spot lies inside,
  and each mask is absent or holds exactly the bytes of its scan lines, so that drawing it stays inside.
  The readers accept or refuse within the bytes they were given.
\<close>

theorem update_pointers_wf:
  assumes "wf_stream s"
  shows "run_ok (update_read_pointer_color malloc u bpp s) (\<lambda>r s'. consumed s s' \<and>
      (case r of None \<Rightarrow> True | Some pc \<Rightarrow> wf_pointer_color (pointer_max (LargePointerFlag u)) (unat bpp) pc)) \<and>
    run_ok (update_read_pointer_new malloc u s) (\<lambda>r s'. consumed s s' \<and>
      (case r of None \<Rightarrow> True | Some (bpp, pc) \<Rightarrow> 1 \<le> bpp \<and> bpp \<le> 32 \<and> wf_pointer_color (pointer_max (LargePointerFlag u)) (unat bpp) pc)) \<and>
    run_ok (update_read_pointer_large malloc s) (\<lambda>r s'. consumed s s' \<and>
      (case r of None \<Rightarrow> True | Some lp \<Rightarrow> wf_pointer_large lp))"
  by (intro conjI read_pointer_new_run [OF assms])
    (simp_all add: update_read_pointer_color_def update_read_pointer_large_def read_pointer_color_data_run [OF assms]
      read_pointer_large_data_run [OF assms])

text \<open>A pointer of one pixel at 24 bits, with both masks.\<close>

definition pixel_pointer :: "byte list" where
  "pixel_pointer = [7, 0, 0, 0, 0, 0, 1, 0, 1, 0, 2, 0, 4, 0, 1, 2, 3, 0, 0x80, 0, 0]"

theorem update_pointers_wf_witness:
  "let s = Stream_StaticInit pixel_pointer in
    run_ok (update_read_pointer_color zero_malloc example_update 24 s) (\<lambda>r s'. consumed s s' \<and>
      (case r of None \<Rightarrow> True | Some pc \<Rightarrow> wf_pointer_color (pointer_max (LargePointerFlag example_update)) (unat (24 :: byte)) pc)) \<and>
    run_ok (update_read_pointer_new zero_malloc example_update s) (\<lambda>r s'. consumed s s' \<and>
      (case r of None \<Rightarrow> True | Some (bpp, pc) \<Rightarrow> 1 \<le> bpp \<and> bpp \<le> 32 \<and> wf_pointer_color (pointer_max (LargePointerFlag example_update)) (unat bpp) pc)) \<and>
    run_ok (update_read_pointer_large zero_malloc s) (\<lambda>r s'. consumed s s' \<and>
      (case r of None \<Rightarrow> True | Some lp \<Rightarrow> wf_pointer_large lp))"
  unfolding Let_def by (rule update_pointers_wf) (simp add: pixel_pointer_def)

end
