(* ===== verification/Update_Wire.thy ===== *)
theory Update_Wire
  imports Update
begin

text \<open>
  The updates of \<^verbatim>\<open>libfreerdp/core/update.c\<close> on the wire: what the writers of the server append, and that
  the readers of the client get back what was written.
\<close>

section \<open>Pointers on the wire\<close>

definition opt_bytes :: "byte list option \<Rightarrow> byte list" where
  "opt_bytes m = (case m of None \<Rightarrow> [] | Some bs \<Rightarrow> bs)"

definition pointer_color_enc :: "POINTER_COLOR_UPDATE \<Rightarrow> byte list" where
  "pointer_color_enc pc = u16_enc (ucast (cacheIndex pc)) @ u16_enc (ucast (xPos pc)) @ u16_enc (ucast (yPos pc)) @
     u16_enc (ucast (ptr_width pc)) @ u16_enc (ucast (ptr_height pc)) @
     u16_enc (ucast (lengthAndMask pc)) @ u16_enc (ucast (lengthXorMask pc)) @
     opt_bytes (xorMaskData pc) @ opt_bytes (andMaskData pc) @ [0]"

definition pointer_large_enc :: "POINTER_LARGE_UPDATE \<Rightarrow> byte list" where
  "pointer_large_enc lp = u16_enc (lp_xorBpp lp) @ u16_enc (lp_cacheIndex lp) @ u16_enc (hotSpotX lp) @ u16_enc (hotSpotY lp) @
     u16_enc (lp_width lp) @ u16_enc (lp_height lp) @ u32_enc (lp_lengthAndMask lp) @ u32_enc (lp_lengthXorMask lp) @
     opt_bytes (lp_xorMaskData lp) @ opt_bytes (lp_andMaskData lp) @ [0]"

lemma wf_mask_bytes:
  assumes "wf_mask bpp w h len m"
  shows "pointed m (unat len) = Some (opt_bytes m)" "length (opt_bytes m) = unat len"
  using assms by (auto simp: wf_mask_def pointed_def opt_bytes_def split: option.splits)

lemma mask_length_bound:
  assumes "wf_mask bpp w h len m" "bpp \<le> b" "w \<le> k" "h \<le> k"
  shows "unat len \<le> scanline b k * k"
proof -
  have "scanline bpp w * h \<le> scanline b k * k"
    unfolding scanline_def using assms(2-4) by (intro mult_mono div_le_mono add_mono) simp_all
  then show ?thesis using assms(1) by (auto simp: wf_mask_def split: option.splits)
qed

lemma pointer_color_bounds:
  assumes "wf_pointer_color mx bpp pc" "mx \<le> 96" "bpp \<le> 32"
  shows "unat (lengthXorMask pc) \<le> 36864" "unat (lengthAndMask pc) \<le> 1152"
    "unat (ptr_width pc) \<le> 96" "unat (ptr_height pc) \<le> 96" "unat (xPos pc) \<le> 96" "unat (yPos pc) \<le> 96"
proof -
  show wh: "unat (ptr_width pc) \<le> 96" "unat (ptr_height pc) \<le> 96" using assms by (auto simp: wf_pointer_color_def)
  show "unat (xPos pc) \<le> 96" "unat (yPos pc) \<le> 96"
    using assms(1) wh by (auto simp: wf_pointer_color_def word_less_nat_alt)
  show "unat (lengthXorMask pc) \<le> 36864" "unat (lengthAndMask pc) \<le> 1152"
    using mask_length_bound [of bpp _ _ _ _ 32 96] mask_length_bound [of 1 _ _ _ _ 1 96] assms(1,3) wh
    by (auto simp: wf_pointer_color_def scanline_def)
qed

lemma write_pointer_color_run:
  assumes "malloc_ok malloc" "alloc_total malloc" "growable s" "s_pointer s \<le> 2 ^ 38" "wf_pointer_color mx bpp pc" "mx \<le> 96" "bpp \<le> 32"
  shows "run_ok (update_write_pointer_color malloc pc s) (\<lambda>ok t. ok \<and> growable t \<and> out t = out s @ pointer_color_enc pc)"
proof -
  note b = pointer_color_bounds [OF assms(5-7)]
  have u: "unat (32 + lengthAndMask pc + lengthXorMask pc) = 32 + unat (lengthAndMask pc) + unat (lengthXorMask pc)"
    using b(1,2) by (simp add: unat_word_ariths)
  have m: "wf_mask bpp (unat (ptr_width pc)) (unat (ptr_height pc)) (lengthXorMask pc) (xorMaskData pc)"
     "wf_mask 1 (unat (ptr_width pc)) (unat (ptr_height pc)) (lengthAndMask pc) (andMaskData pc)"
    using assms(5) by (auto simp: wf_pointer_color_def)
  note l = wf_mask_bytes [OF m(1)] wf_mask_bytes [OF m(2)]
  have le: "length (pointer_color_enc pc) \<le> 32 + unat (lengthAndMask pc) + unat (lengthXorMask pc)"
    using l by (simp add: pointer_color_enc_def)
  show ?thesis unfolding update_write_pointer_color_def u
  proof (rule ensure_then [OF assms(1-3)], goal_cases)
    case (2 t)
    then show ?case using growable_put [of t "pointer_color_enc pc"] le l growable_wf [OF 2(1)]
      by (simp add: wire_simps pointer_color_enc_def)
  qed (use assms(4) b in simp)
qed

lemma read_pointer_mask_enc:
  assumes "wf_stream s" "alloc_total malloc" "wf_mask (unat bpp) (unat w) (unat h) len m" "rest s = opt_bytes m @ r"
    "unat bpp < 2 ^ 16" "unat w \<le> 384" "unat h \<le> 384"
  shows "read_pointer_mask malloc bpp w h len s = Some (Some m, Stream_Seek s (unat len))"
proof (cases "len = 0")
  case True
  then show ?thesis using assms(3) by (auto simp: read_pointer_mask_def wf_mask_def split: option.splits)
next
  case False
  then obtain bs where m: "m = Some bs" "length bs = unat len" "unat len = scanline (unat bpp) (unat w) * unat h"
    using assms(3) by (auto simp: wf_mask_def split: option.splits)
  have a: "unat len \<le> avail s" using length_rest [OF assms(1)] assms(4) m by (simp add: opt_bytes_def)
  have "scanline_size bpp w * h = len" using mask_size_exact [OF assms(5-7)] m(3) by (simp add: word_unat_eq_iff)
  moreover obtain blk where "malloc (unat len) = Some blk" using assms(2) by (auto simp: alloc_total_def)
  ultimately show ?thesis using assms(1,4) a m False
    by (simp add: read_pointer_mask_def wire_simps word_gt_0 opt_bytes_def)
qed

lemma read_pointer_masks_enc:
  assumes "wf_stream s" "alloc_total malloc" "wf_mask (unat bpp) (unat w) (unat h) lenXor xm" "wf_mask 1 (unat w) (unat h) lenAnd am"
    "rest s = opt_bytes xm @ opt_bytes am @ [0]" "unat bpp < 2 ^ 16" "unat w \<le> 384" "unat h \<le> 384"
  shows "read_pointer_masks malloc bpp w h lenXor lenAnd s = Some (Some (xm, am), Stream_Seek s (unat lenXor + unat lenAnd + 1))"
proof -
  have l: "length (opt_bytes xm) = unat lenXor" "length (opt_bytes am) = unat lenAnd"
    using wf_mask_bytes(2) assms(3,4) by blast+
  have a: "avail s = unat lenXor + unat lenAnd + 1" using length_rest [OF assms(1)] assms(5) l by simp
  have "read_pointer_mask malloc 1 w h lenAnd (Stream_Seek s (unat lenXor)) = Some (Some am, Stream_Seek (Stream_Seek s (unat lenXor)) (unat lenAnd))"
    using assms a l by (intro read_pointer_mask_enc [where r = "[0]"]) (simp_all add: wire_simps)
  then show ?thesis using read_pointer_mask_enc [OF assms(1-3,5-8)] assms(1) a
    by (simp add: read_pointer_masks_def wire_simps)
qed

lemma read_pointer_color_enc:
  assumes "wf_stream s" "alloc_total malloc" "wf_pointer_color (pointer_max flags) (unat bpp) pc" "unat bpp \<le> 32"
    "unat (cacheIndex pc) < 2 ^ 16" "rest s = pointer_color_enc pc"
  shows "update_read_pointer_color_data malloc bpp flags s = Some (Some pc, Stream_Seek s (length (pointer_color_enc pc)))"
proof -
  have mx: "pointer_max flags \<le> 96" by (simp add: pointer_max_def)
  note b = pointer_color_bounds [OF assms(3) mx assms(4)]
  have m: "wf_mask (unat bpp) (unat (ptr_width pc)) (unat (ptr_height pc)) (lengthXorMask pc) (xorMaskData pc)"
     "wf_mask 1 (unat (ptr_width pc)) (unat (ptr_height pc)) (lengthAndMask pc) (andMaskData pc)"
    using assms(3) by (auto simp: wf_pointer_color_def)
  note l = wf_mask_bytes(2) [OF m(1)] wf_mask_bytes(2) [OF m(2)]
  have a: "avail s = 15 + unat (lengthXorMask pc) + unat (lengthAndMask pc)"
    using length_rest [OF assms(1)] assms(6) l by (simp add: pointer_color_enc_def)
  have v: "ucast (ucast v :: u16) = v" if "v \<in> {cacheIndex pc, xPos pc, yPos pc, ptr_width pc, ptr_height pc, lengthAndMask pc, lengthXorMask pc}" for v
    using that b assms(5) by (intro u32_via_u16) auto
  have mk: "read_pointer_masks malloc (ucast bpp) (ptr_width pc) (ptr_height pc) (lengthXorMask pc) (lengthAndMask pc) (Stream_Seek s 14) =
      Some (Some (xorMaskData pc, andMaskData pc), Stream_Seek (Stream_Seek s 14) (unat (lengthXorMask pc) + unat (lengthAndMask pc) + 1))"
    using assms(1,2,6) a b m assms(4) by (intro read_pointer_masks_enc) (simp_all add: wire_simps unat_ucast_up pointer_color_enc_def)
  have le: "length (pointer_color_enc pc) = 15 + unat (lengthXorMask pc) + unat (lengthAndMask pc)"
    using l by (simp add: pointer_color_enc_def)
  have h: "hot_spot (ucast (xPos pc)) (ucast (ptr_width pc)) = ucast (xPos pc)"
    "hot_spot (ucast (yPos pc)) (ucast (ptr_height pc)) = ucast (yPos pc)"
    using assms(3) b by (auto simp: hot_spot_def wf_pointer_color_def word_le_nat_alt word_less_nat_alt unat_narrow)
  have c: "\<not> (ucast (ptr_width pc) :: u16) > (if flags AND LARGE_POINTER_FLAG_96x96 \<noteq> 0 then 96 else 32)"
    "\<not> (ucast (ptr_height pc) :: u16) > (if flags AND LARGE_POINTER_FLAG_96x96 \<noteq> 0 then 96 else 32)"
    using assms(3) b by (auto simp: wf_pointer_color_def word_less_nat_alt unat_narrow pointer_max_def split: if_splits)
  show ?thesis unfolding le using assms(1,6) a mk l
    by (simp add: update_read_pointer_color_data_def wire_simps Let_def pointer_color_enc_def h c v add.assoc del: if_split)
qed

lemma pointer_large_bounds:
  assumes "wf_pointer_large lp"
  shows "unat (lp_lengthXorMask lp) \<le> 1300000000" "unat (lp_lengthAndMask lp) \<le> 18432" "unat (lp_width lp) \<le> 384" "unat (lp_height lp) \<le> 384"
proof -
  show wh: "unat (lp_width lp) \<le> 384" "unat (lp_height lp) \<le> 384" using assms by (auto simp: wf_pointer_large_def word_le_nat_alt)
  have b: "unat (lp_xorBpp lp) \<le> 65535" using unat_u16 [of "lp_xorBpp lp"] by simp
  show "unat (lp_lengthXorMask lp) \<le> 1300000000" "unat (lp_lengthAndMask lp) \<le> 18432"
    using mask_length_bound [of "unat (lp_xorBpp lp)" "unat (lp_width lp)" "unat (lp_height lp)" "lp_lengthXorMask lp" "lp_xorMaskData lp" 65535 384]
      mask_length_bound [of 1 "unat (lp_width lp)" "unat (lp_height lp)" "lp_lengthAndMask lp" "lp_andMaskData lp" 1 384] assms b wh
    by (simp_all add: wf_pointer_large_def scanline_def)
qed

lemma write_pointer_large_run:
  assumes "malloc_ok malloc" "alloc_total malloc" "growable s" "s_pointer s \<le> 2 ^ 38" "wf_pointer_large lp"
  shows "run_ok (update_write_pointer_large malloc lp s) (\<lambda>ok t. ok \<and> growable t \<and> out t = out s @ pointer_large_enc lp)"
proof -
  note b = pointer_large_bounds [OF assms(5)]
  have u: "unat (32 + lp_lengthAndMask lp + lp_lengthXorMask lp) = 32 + unat (lp_lengthAndMask lp) + unat (lp_lengthXorMask lp)"
    using b(1,2) by (simp add: unat_word_ariths)
  have m: "wf_mask (unat (lp_xorBpp lp)) (unat (lp_width lp)) (unat (lp_height lp)) (lp_lengthXorMask lp) (lp_xorMaskData lp)"
     "wf_mask 1 (unat (lp_width lp)) (unat (lp_height lp)) (lp_lengthAndMask lp) (lp_andMaskData lp)"
    using assms(5) by (auto simp: wf_pointer_large_def)
  note l = wf_mask_bytes [OF m(1)] wf_mask_bytes [OF m(2)]
  have le: "length (pointer_large_enc lp) \<le> 32 + unat (lp_lengthAndMask lp) + unat (lp_lengthXorMask lp)"
    using l by (simp add: pointer_large_enc_def)
  show ?thesis unfolding update_write_pointer_large_def u
  proof (rule ensure_then [OF assms(1-3)], goal_cases)
    case (2 t)
    then show ?case using growable_put [of t "pointer_large_enc lp"] le l growable_wf [OF 2(1)]
      by (simp add: wire_simps pointer_large_enc_def)
  qed (use assms(4) b in simp)
qed

lemma read_pointer_large_enc:
  assumes "wf_stream s" "alloc_total malloc" "wf_pointer_large lp" "rest s = pointer_large_enc lp"
  shows "update_read_pointer_large_data malloc s = Some (Some lp, Stream_Seek s (length (pointer_large_enc lp)))"
proof -
  note b = pointer_large_bounds [OF assms(3)]
  have m: "wf_mask (unat (lp_xorBpp lp)) (unat (lp_width lp)) (unat (lp_height lp)) (lp_lengthXorMask lp) (lp_xorMaskData lp)"
     "wf_mask 1 (unat (lp_width lp)) (unat (lp_height lp)) (lp_lengthAndMask lp) (lp_andMaskData lp)"
    using assms(3) by (auto simp: wf_pointer_large_def)
  note l = wf_mask_bytes(2) [OF m(1)] wf_mask_bytes(2) [OF m(2)]
  have le: "length (pointer_large_enc lp) = 21 + unat (lp_lengthXorMask lp) + unat (lp_lengthAndMask lp)"
    using l by (simp add: pointer_large_enc_def)
  have a: "avail s = 21 + unat (lp_lengthXorMask lp) + unat (lp_lengthAndMask lp)" using length_rest [OF assms(1)] assms(4) le by simp
  have mk: "read_pointer_masks malloc (ucast (lp_xorBpp lp)) (ucast (lp_width lp)) (ucast (lp_height lp)) (lp_lengthXorMask lp) (lp_lengthAndMask lp) (Stream_Seek s 20) =
      Some (Some (lp_xorMaskData lp, lp_andMaskData lp), Stream_Seek (Stream_Seek s 20) (unat (lp_lengthXorMask lp) + unat (lp_lengthAndMask lp) + 1))"
    using assms(1,2,4) a b m unat_u16 [of "lp_xorBpp lp"]
    by (intro read_pointer_masks_enc) (simp_all add: wire_simps unat_ucast_up pointer_large_enc_def)
  have h: "hot_spot (hotSpotX lp) (lp_width lp) = hotSpotX lp" "hot_spot (hotSpotY lp) (lp_height lp) = hotSpotY lp"
    "\<not> lp_width lp > 384" "\<not> lp_height lp > 384"
    using assms(3) by (auto simp: hot_spot_def wf_pointer_large_def)
  show ?thesis unfolding le using assms(1,4) a mk l
    by (simp add: update_read_pointer_large_data_def wire_simps Let_def pointer_large_enc_def h add.assoc)
qed

section \<open>Bitmaps on the wire\<close>

text \<open>A compressed bitmap carries a header of its own unless the flags say that it is left out.\<close>

definition has_comp_header :: "BITMAP_DATA \<Rightarrow> bool" where
  "has_comp_header bd \<longleftrightarrow> bm_flags bd AND BITMAP_COMPRESSION \<noteq> 0 \<and> bm_flags bd AND NO_BITMAP_COMPRESSION_HDR = 0"

definition bitmap_data_enc :: "BITMAP_DATA \<Rightarrow> byte list" where
  "bitmap_data_enc bd = u16_enc (ucast (destLeft bd)) @ u16_enc (ucast (destTop bd)) @ u16_enc (ucast (destRight bd)) @
     u16_enc (ucast (destBottom bd)) @ u16_enc (ucast (bm_width bd)) @ u16_enc (ucast (bm_height bd)) @
     u16_enc (ucast (bitsPerPixel bd)) @ u16_enc (ucast (bm_flags bd)) @ u16_enc (ucast (bitmapLength bd)) @
     (if has_comp_header bd then u16_enc (ucast (cbCompFirstRowSize bd)) @ u16_enc (ucast (cbCompMainBodySize bd)) @
        u16_enc (ucast (cbScanWidth bd)) @ u16_enc (ucast (cbUncompressedSize bd)) else []) @
     opt_bytes (bitmapDataStream bd)"

text \<open>
  What a server may send: fields of 16 bits, bytes of the announced length, the compression flag set for compressed
  bitmaps, and a compression header, if there is one, that repeats the length.
\<close>

definition wf_bitmap :: "BITMAP_DATA \<Rightarrow> bool" where
  "wf_bitmap bd \<longleftrightarrow>
     list_all (\<lambda>v. unat v < 2 ^ 16) [destLeft bd, destTop bd, destRight bd, destBottom bd, bm_width bd, bm_height bd,
       bitsPerPixel bd, bm_flags bd, bitmapLength bd, cbCompFirstRowSize bd, cbCompMainBodySize bd, cbScanWidth bd, cbUncompressedSize bd] \<and>
     (case bitmapDataStream bd of None \<Rightarrow> bitmapLength bd = 0 | Some bs \<Rightarrow> length bs = unat (bitmapLength bd) \<and> bs \<noteq> []) \<and>
     (bm_compressed bd \<longleftrightarrow> bm_flags bd AND BITMAP_COMPRESSION \<noteq> 0) \<and>
     (has_comp_header bd \<longrightarrow> cbCompMainBodySize bd = bitmapLength bd)"

text \<open>The fields of the compression header are zero for a client that did not get one.\<close>

definition bitmap_received :: "BITMAP_DATA \<Rightarrow> BITMAP_DATA" where
  "bitmap_received bd = (if has_comp_header bd then bd
     else bd\<lparr>cbCompFirstRowSize := 0, cbCompMainBodySize := 0, cbScanWidth := 0, cbUncompressedSize := 0\<rparr>)"

lemma wf_bitmap_bytes:
  assumes "wf_bitmap bd"
  shows "pointed (bitmapDataStream bd) (unat (bitmapLength bd)) = Some (opt_bytes (bitmapDataStream bd))"
    "length (opt_bytes (bitmapDataStream bd)) = unat (bitmapLength bd)" "unat (bitmapLength bd) < 2 ^ 16"
  using assms by (auto simp: wf_bitmap_def pointed_def opt_bytes_def split: option.splits)

lemma length_bitmap_data_enc: "wf_bitmap bd \<Longrightarrow> length (bitmap_data_enc bd) = (if has_comp_header bd then 26 else 18) + unat (bitmapLength bd)"
  by (simp add: bitmap_data_enc_def wf_bitmap_bytes)

lemma auto_calculate_length [simp]:
  "bitmapLength (auto_calculate a n bd) = bitmapLength bd" "bitmapDataStream (auto_calculate a n bd) = bitmapDataStream bd"
  by (simp_all add: auto_calculate_def Let_def)

lemma write_bitmap_data_run:
  assumes "malloc_ok malloc" "alloc_total malloc" "growable s" "s_pointer s \<le> 2 ^ 38" "wf_bitmap (auto_calculate a n bd)"
  shows "run_ok (update_write_bitmap_data malloc a n bd s) (\<lambda>(ok, bd') t. ok \<and> growable t \<and>
    out t = out s @ bitmap_data_enc (auto_calculate a n bd))"
proof -
  let ?b = "auto_calculate a n bd"
  note l = wf_bitmap_bytes [OF assms(5)]
  have u: "unat (64 + bitmapLength bd) = 64 + unat (bitmapLength bd)" using l(3) by (simp add: unat_word_ariths)
  note le = length_bitmap_data_enc [OF assms(5)]
  show ?thesis unfolding update_write_bitmap_data_def u
  proof (rule ensure_then [OF assms(1-3)], goal_cases)
    case (2 t)
    have r: "length (bitmap_data_enc ?b) \<le> room t" using 2(2) le by (simp split: if_splits)
    note g = growable_put [OF 2(1) r]
    show ?case
    proof (cases "has_comp_header ?b")
      case True
      then show ?thesis using 2 g l growable_wf [OF 2(1)]
        by (simp add: wire_simps bitmap_data_enc_def has_comp_header_def Let_def)
    next
      case False
      then have c: "\<not> (bm_flags ?b AND BITMAP_COMPRESSION \<noteq> 0 \<and> bm_flags ?b AND NO_BITMAP_COMPRESSION_HDR = 0)"
        by (simp add: has_comp_header_def)
      show ?thesis using 2 g l growable_wf [OF 2(1)] False unfolding Let_def if_not_P [OF c]
        by (simp add: wire_simps bitmap_data_enc_def)
    qed
  qed (use assms(4) l in simp)
qed

lemma read_bitmap_bytes_enc:
  assumes "wf_stream s" "alloc_total malloc" "rest s = opt_bytes (bitmapDataStream bd) @ r" "bitmapDataStream bd0 = None"
    "bitmapLength bd0 = bitmapLength bd" "wf_bitmap bd"
  shows "read_bitmap_bytes malloc (Some bd0) s =
    Some (Some (bd0\<lparr>bitmapDataStream := bitmapDataStream bd\<rparr>), Stream_Seek s (unat (bitmapLength bd)))"
proof -
  note l = wf_bitmap_bytes [OF assms(6)]
  have a: "unat (bitmapLength bd) \<le> avail s" using length_rest [OF assms(1)] assms(3) l by simp
  show ?thesis
  proof (cases "bitmapDataStream bd")
    case None
    then have "bitmapLength bd = 0" using assms(6) by (simp add: wf_bitmap_def)
    then show ?thesis using None assms(1,4,5) by (simp add: read_bitmap_bytes_def)
  next
    case (Some bs)
    then have b: "length bs = unat (bitmapLength bd)" "bs \<noteq> []" using assms(6) by (auto simp: wf_bitmap_def)
    then have "bitmapLength bd \<noteq> 0" by auto
    moreover obtain blk where "malloc (unat (bitmapLength bd)) = Some blk" using assms(2) by (auto simp: alloc_total_def)
    ultimately show ?thesis using assms(1,3,5) a b Some
      by (simp add: read_bitmap_bytes_def wire_simps word_gt_0 opt_bytes_def)
  qed
qed

lemma read_bitmap_data_enc:
  assumes "wf_stream s" "alloc_total malloc" "rest s = bitmap_data_enc bd @ r" "wf_bitmap bd"
  shows "update_read_bitmap_data malloc s = Some (Some (bitmap_received bd), Stream_Seek s (length (bitmap_data_enc bd)))"
proof -
  have v: "ucast (ucast v :: u16) = v" if "v \<in> {destLeft bd, destTop bd, destRight bd, destBottom bd, bm_width bd, bm_height bd,
       bitsPerPixel bd, bm_flags bd, bitmapLength bd, cbCompFirstRowSize bd, cbCompMainBodySize bd, cbScanWidth bd, cbUncompressedSize bd}" for v
    using that assms(4) by (intro u32_via_u16) (auto simp: wf_bitmap_def)
  note le = length_bitmap_data_enc [OF assms(4)]
  have a: "length (bitmap_data_enc bd) \<le> avail s" using length_rest [OF assms(1)] assms(3) by simp
  have c: "bm_compressed bd \<longleftrightarrow> bm_flags bd AND BITMAP_COMPRESSION \<noteq> 0" using assms(4) by (simp add: wf_bitmap_def)
  show ?thesis
  proof (cases "has_comp_header bd")
    case True
    have m: "cbCompMainBodySize bd = bitmapLength bd" using True assms(4) by (simp add: wf_bitmap_def)
    have n: "26 \<le> avail s" using a le True by simp
    have b: "wf_stream (Stream_Seek s 26)" "rest (Stream_Seek s 26) = opt_bytes (bitmapDataStream bd) @ r"
      using assms(1,3) n True by (simp_all add: wire_simps bitmap_data_enc_def)
    note rb = read_bitmap_bytes_enc [OF b(1) assms(2) b(2) _ _ assms(4)]
    have n2: "\<not> avail s - 18 < 8" using n by simp
    show ?thesis using True assms(1,3) n c unfolding le
      by (simp add: update_read_bitmap_data_def wire_simps Let_def bitmap_data_enc_def v has_comp_header_def rb m n2)
        (intro BITMAP_DATA.equality, simp_all add: bitmap_received_def True m)
  next
    case False
    have n: "18 \<le> avail s" using a le False by simp
    have b: "wf_stream (Stream_Seek s 18)" "rest (Stream_Seek s 18) = opt_bytes (bitmapDataStream bd) @ r"
      using assms(1,3) n False by (simp_all add: wire_simps bitmap_data_enc_def)
    note rb = read_bitmap_bytes_enc [OF b(1) assms(2) b(2) _ _ assms(4)]
    have z: "bitmap_received bd = bd\<lparr>cbCompFirstRowSize := 0, cbCompMainBodySize := 0, cbScanWidth := 0, cbUncompressedSize := 0\<rparr>"
      using False by (simp add: bitmap_received_def)
    consider "bm_flags bd AND BITMAP_COMPRESSION = 0"
      | "bm_flags bd AND BITMAP_COMPRESSION \<noteq> 0" "bm_flags bd AND NO_BITMAP_COMPRESSION_HDR \<noteq> 0"
      using False by (auto simp: has_comp_header_def)
    then show ?thesis
    proof cases
      case 1
      then show ?thesis unfolding le using False assms(1,3) n c
        by (simp add: update_read_bitmap_data_def wire_simps Let_def bitmap_data_enc_def v rb z)
    next
      case 2
      then show ?thesis unfolding le using False assms(1,3) n c
        by (simp add: update_read_bitmap_data_def wire_simps Let_def bitmap_data_enc_def v rb z)
    qed
  qed
qed

lemma read_rectangles_enc:
  "wf_stream s \<Longrightarrow> alloc_total malloc \<Longrightarrow> list_all wf_bitmap bds \<Longrightarrow> rest s = concat (map bitmap_data_enc bds) @ r \<Longrightarrow>
   read_rectangles malloc (length bds) s = Some (Some (map bitmap_received bds), Stream_Seek s (length (concat (map bitmap_data_enc bds))))"
proof (induction bds arbitrary: s)
  case (Cons bd bds)
  have 1: "update_read_bitmap_data malloc s = Some (Some (bitmap_received bd), Stream_Seek s (length (bitmap_data_enc bd)))"
    using Cons.prems by (intro read_bitmap_data_enc [where r = "concat (map bitmap_data_enc bds) @ r"]) simp_all
  have "length (bitmap_data_enc bd) \<le> avail s" using length_rest [OF Cons.prems(1)] Cons.prems(4) by simp
  then have "read_rectangles malloc (length bds) (Stream_Seek s (length (bitmap_data_enc bd))) =
      Some (Some (map bitmap_received bds), Stream_Seek (Stream_Seek s (length (bitmap_data_enc bd))) (length (concat (map bitmap_data_enc bds))))"
    using Cons.prems by (intro Cons.IH) (simp_all add: wire_simps)
  then show ?case using 1 by simp
qed simp

definition bitmap_update_enc :: "BITMAP_DATA list \<Rightarrow> byte list" where
  "bitmap_update_enc bds = u16_enc (word_of_nat (length bds)) @ concat (map bitmap_data_enc bds)"

lemma read_bitmap_update_enc:
  assumes "wf_stream s" "alloc_total malloc" "list_all wf_bitmap bds" "length bds < 2 ^ 16" "rest s = bitmap_update_enc bds"
  shows "update_read_bitmap_update malloc s = Some (Some (map bitmap_received bds), Stream_Seek s (length (bitmap_update_enc bds)))"
proof -
  have u: "unat (word_of_nat (length bds) :: u16) = length bds" using assms(4) by (intro unat_of_nat_eq) simp
  have a: "2 \<le> avail s" using length_rest [OF assms(1)] assms(5) by (simp add: bitmap_update_enc_def)
  have r: "read_rectangles malloc (length bds) (Stream_Seek s 2) =
      Some (Some (map bitmap_received bds), Stream_Seek (Stream_Seek s 2) (length (concat (map bitmap_data_enc bds))))"
    using assms a by (intro read_rectangles_enc [where r = "[]"]) (simp_all add: wire_simps bitmap_update_enc_def)
  have m: "malloc k \<noteq> None" for k using assms(2) by (simp add: alloc_total_def)
  obtain blk where "malloc 24 = Some blk" using m by blast
  then show ?thesis using assms(1,5) a r m
    by (simp add: update_read_bitmap_update_def wire_simps bitmap_update_enc_def u del: not_None_eq)
qed

lemma bitmap_enc_bound: "wf_bitmap bd \<Longrightarrow> length (bitmap_data_enc bd) \<le> 65561"
  using length_bitmap_data_enc [of bd] wf_bitmap_bytes(3) [of bd] by auto

lemma rectangles_enc_bound: "list_all wf_bitmap bds \<Longrightarrow> length (concat (map bitmap_data_enc bds)) \<le> 65561 * length bds"
  by (induction bds) (auto dest: bitmap_enc_bound)

lemma write_rectangles_run:
  assumes "malloc_ok malloc" "alloc_total malloc"
  shows "growable s \<Longrightarrow> list_all (\<lambda>bd. wf_bitmap (auto_calculate a n bd)) bds \<Longrightarrow> s_pointer s + 65561 * length bds \<le> 2 ^ 38 \<Longrightarrow>
    run_ok (write_rectangles malloc a n bds s) (\<lambda>ok t. ok \<and> growable t \<and> out t = out s @ concat (map (\<lambda>bd. bitmap_data_enc (auto_calculate a n bd)) bds))"
proof (induction bds arbitrary: s)
  case (Cons bd bds)
  let ?e = "bitmap_data_enc (auto_calculate a n bd)"
  have w: "wf_bitmap (auto_calculate a n bd)" using Cons.prems by simp
  have r: "run_ok (update_write_bitmap_data malloc a n bd s) (\<lambda>(ok, bd') t. ok \<and> growable t \<and> out t = out s @ ?e)"
    using Cons.prems by (intro write_bitmap_data_run [OF assms]) simp_all
  have "run_ok (write_rectangles malloc a n bds t) (\<lambda>ok u. ok \<and> growable u \<and>
      out u = out s @ ?e @ concat (map (\<lambda>bd. bitmap_data_enc (auto_calculate a n bd)) bds))" if t: "growable t" "out t = out s @ ?e" for t
  proof -
    have "s_pointer t = s_pointer s + length ?e"
      using length_out [OF growable_wf [OF t(1)]] length_out [OF growable_wf [OF Cons.prems(1)]] t(2) by simp
    then have "run_ok (write_rectangles malloc a n bds t) (\<lambda>ok u. ok \<and> growable u \<and>
        out u = out t @ concat (map (\<lambda>bd. bitmap_data_enc (auto_calculate a n bd)) bds))"
      using t(1) Cons.prems bitmap_enc_bound [OF w] by (intro Cons.IH) simp_all
    then show ?thesis by (simp add: t(2))
  qed
  then show ?case using r by (auto simp: run_ok_iff)
qed simp

text \<open>
  C16: A bitmap update reaches the client as the server sent it: what \<^verbatim>\<open>update_write_bitmap_update\<close> appends,
  growing the stream as it needs, is the type of the update and bytes that \<^verbatim>\<open>update_read_bitmap_update\<close> reads
  back as the same rectangles and bitmaps, in order, the fields the server calculates included. A compressed
  bitmap without compression header comes back with these fields zero.
\<close>

theorem bitmap_update_roundtrip:
  assumes "malloc_ok malloc" "alloc_total malloc" "growable s" "s_pointer s \<le> 2 ^ 37" "length bds < 2 ^ 16"
    "list_all (\<lambda>bd. wf_bitmap (auto_calculate autoCalc noHdr bd)) bds"
  shows "run_ok (update_write_bitmap_update malloc autoCalc noHdr bds s) (\<lambda>ok t. ok \<and> growable t \<and>
    (\<exists>bytes. out t = out s @ u16_enc UPDATE_TYPE_BITMAP @ bytes \<and>
      run_ok (update_read_bitmap_update malloc (Stream_StaticInit bytes)) (\<lambda>r u.
        r = Some (map (\<lambda>bd. bitmap_received (auto_calculate autoCalc noHdr bd)) bds) \<and> rest u = [])))"
proof -
  let ?bds = "map (auto_calculate autoCalc noHdr) bds" let ?e = "bitmap_update_enc ?bds"
  have p: "s_pointer s + 65561 * length bds + 4 \<le> 2 ^ 38" using assms(4,5) by simp
  have w: "list_all wf_bitmap ?bds" using assms(6) by (simp add: list_all_iff)
  have "length ?e < 2 ^ 64" using rectangles_enc_bound [OF w] assms(5) by (simp add: bitmap_update_enc_def)
  then have rd: "run_ok (update_read_bitmap_update malloc (Stream_StaticInit ?e)) (\<lambda>r u. r = Some (map bitmap_received ?bds) \<and> rest u = [])"
    using read_bitmap_update_enc [of "Stream_StaticInit ?e" malloc ?bds] assms(2,5) w by (simp add: rest_Seek)
  show ?thesis unfolding update_write_bitmap_update_def
  proof (rule ensure_then [OF assms(1-3)], goal_cases)
    case (2 t)
    let ?h = "u16_enc UPDATE_TYPE_BITMAP @ u16_enc (word_of_nat (length bds))"
    have g: "growable (put t ?h)" "out (put t ?h) = out s @ ?h" using growable_put [OF 2(1), of ?h] 2(2,3) by simp_all
    have "s_pointer t = s_pointer s" using length_out [OF growable_wf [OF 2(1)]] length_out [OF growable_wf [OF assms(3)]] 2(3) by simp
    then have "run_ok (write_rectangles malloc autoCalc noHdr bds (put t ?h)) (\<lambda>ok u. ok \<and> growable u \<and>
        out u = out s @ ?h @ concat (map (\<lambda>bd. bitmap_data_enc (auto_calculate autoCalc noHdr bd)) bds))"
      using write_rectangles_run [OF assms(1,2) g(1) assms(6)] p g(2) by simp
    then show ?case using 2(2) growable_wf [OF 2(1)] rd
      by (auto simp: wire_simps run_ok_iff bitmap_update_enc_def o_def)
  qed (use assms(4) in simp)
qed

text \<open>A compressed bitmap of two pixels, whose flags the server calculates.\<close>

definition example_bitmap :: BITMAP_DATA where
  "example_bitmap =
     \<lparr>destLeft = 4, destTop = 0, destRight = 5, destBottom = 0, bm_width = 2, bm_height = 1, bitsPerPixel = 16, bm_flags = 0,
      bitmapLength = 3, cbCompFirstRowSize = 0, cbCompMainBodySize = 3, cbScanWidth = 4, cbUncompressedSize = 4,
      bitmapDataStream = Some [0xF9, 1, 2], bm_compressed = True\<rparr>"

theorem bitmap_update_roundtrip_witness:
  "run_ok (update_write_bitmap_update zero_malloc True False [example_bitmap, example_bitmap] (zero_stream 16)) (\<lambda>ok t. ok \<and> growable t \<and>
    (\<exists>bytes. out t = out (zero_stream 16) @ u16_enc UPDATE_TYPE_BITMAP @ bytes \<and>
      run_ok (update_read_bitmap_update zero_malloc (Stream_StaticInit bytes)) (\<lambda>r u.
        r = Some (map (\<lambda>bd. bitmap_received (auto_calculate True False bd)) [example_bitmap, example_bitmap]) \<and> rest u = [])))"
  by (rule bitmap_update_roundtrip)
    (simp_all add: alloc_total_def zero_malloc_def growable_def wf_bitmap_def auto_calculate_def example_bitmap_def has_comp_header_def
      BITMAP_COMPRESSION_def NO_BITMAP_COMPRESSION_HDR_def)

end
