(* ===== verification/Surface.thy ===== *)
theory Surface
  imports Update
begin

text \<open>
  Surface commands (\<^verbatim>\<open>libfreerdp/core/surface.c\<close>): the reader that hands the commands of an update to the
  application one after the other, and the writers of the server.

  \<^verbatim>\<open>bitmapData\<close> is a pointer into the stream in the reader; the record holds the bytes there. The dump of
  commands to a capture file (\<^verbatim>\<open>update->dump_rfx\<close>) is left out.
\<close>

section \<open>Readers\<close>

definition CMDTYPE_SET_SURFACE_BITS :: u16 where "CMDTYPE_SET_SURFACE_BITS = 0x0001"
definition CMDTYPE_FRAME_MARKER :: u16 where "CMDTYPE_FRAME_MARKER = 0x0004"
definition CMDTYPE_STREAM_SURFACE_BITS :: u16 where "CMDTYPE_STREAM_SURFACE_BITS = 0x0006"
definition EX_COMPRESSED_BITMAP_HEADER_PRESENT :: byte where "EX_COMPRESSED_BITMAP_HEADER_PRESENT = 0x01"

definition no_ex_header :: TS_COMPRESSED_BITMAP_HEADER_EX where
  "no_ex_header = \<lparr>highUniqueId = 0, lowUniqueId = 0, tmMilliseconds = 0, tmSeconds = 0\<rparr>"

definition update_recv_surfcmd_bitmap_header_ex ::
  "wStream \<Rightarrow> (TS_COMPRESSED_BITMAP_HEADER_EX option \<times> wStream) option" where
  "update_recv_surfcmd_bitmap_header_ex s =
     (if Stream_GetRemainingLength s < 24 then Some (None, s)
      else do {
        (hi, s) \<leftarrow> Stream_Read_UINT32 s;
        (lo, s) \<leftarrow> Stream_Read_UINT32 s;
        (ms, s) \<leftarrow> Stream_Read_UINT64 s;
        (sec, s) \<leftarrow> Stream_Read_UINT64 s;
        Some (Some \<lparr>highUniqueId = hi, lowUniqueId = lo, tmMilliseconds = ms, tmSeconds = sec\<rparr>, s) })"

text \<open>The last step of the bitmap: the bytes at the pointer, if they are all there.\<close>

definition take_bitmap_data :: "TS_BITMAP_DATA_EX \<Rightarrow> wStream \<Rightarrow> (TS_BITMAP_DATA_EX option \<times> wStream) option" where
  "take_bitmap_data bmp s =
     (let (ok, s') = Stream_SafeSeek s (unat (bitmapDataLength bmp)) in
      if \<not> ok then Some (None, s')
      else do { bytes \<leftarrow> Stream_Peek s (unat (bitmapDataLength bmp)); Some (Some (bmp\<lparr>bitmapData := bytes\<rparr>), s') })"

definition update_recv_surfcmd_bitmap_ex :: "wStream \<Rightarrow> (TS_BITMAP_DATA_EX option \<times> wStream) option" where
  "update_recv_surfcmd_bitmap_ex s =
     (if Stream_GetRemainingLength s < 12 then Some (None, s)
      else do {
        (bpp, s) \<leftarrow> Stream_Read_UINT8 s;
        (flags, s) \<leftarrow> Stream_Read_UINT8 s;
        let s = Stream_Seek s 1;
        (codec, s) \<leftarrow> Stream_Read_UINT8 s;
        (w, s) \<leftarrow> Stream_Read_UINT16 s;
        (h, s) \<leftarrow> Stream_Read_UINT16 s;
        (len, s) \<leftarrow> Stream_Read_UINT32 s;
        let bmp = \<lparr>ex_bpp = bpp, ex_flags = flags, codecID = ucast codec, ex_width = w, ex_height = h,
                   bitmapDataLength = len, exBitmapDataHeader = no_ex_header, bitmapData = []\<rparr>;
        (if bpp < 1 \<or> bpp > 32 then Some (None, s)
         else if flags AND EX_COMPRESSED_BITMAP_HEADER_PRESENT \<noteq> 0 then do {
           (ext, s) \<leftarrow> update_recv_surfcmd_bitmap_header_ex s;
           (case ext of None \<Rightarrow> Some (None, s)
            | Some ext \<Rightarrow> take_bitmap_data (bmp\<lparr>exBitmapDataHeader := ext\<rparr>) s) }
         else take_bitmap_data bmp s) })"

definition update_recv_surfcmd_surface_bits :: "'k rdpUpdate \<Rightarrow> u16 \<Rightarrow> 'k pdu_handler" where
  "update_recv_surfcmd_surface_bits u ct rdp s =
     (if Stream_GetRemainingLength s < 8 then Some ((False, rdp), s)
      else do {
        (l, s) \<leftarrow> Stream_Read_UINT16 s;
        (t, s) \<leftarrow> Stream_Read_UINT16 s;
        (r, s) \<leftarrow> Stream_Read_UINT16 s;
        (b, s) \<leftarrow> Stream_Read_UINT16 s;
        (bmp, s) \<leftarrow> update_recv_surfcmd_bitmap_ex s;
        (case bmp of None \<Rightarrow> Some ((False, rdp), s)
         | Some bmp \<Rightarrow> Some (if_call_result False (SurfaceBits u) rdp
             \<lparr>cmdType = ucast ct, sb_destLeft = ucast l, sb_destTop = ucast t, sb_destRight = ucast r, sb_destBottom = ucast b,
              sb_bmp = bmp, skipCompression = False\<rparr>, s)) })"

definition update_recv_surfcmd_frame_marker :: "'k rdpUpdate \<Rightarrow> 'k pdu_handler" where
  "update_recv_surfcmd_frame_marker u rdp s =
     (if Stream_GetRemainingLength s < 6 then Some ((False, rdp), s)
      else do {
        (frameAction, s) \<leftarrow> Stream_Read_UINT16 s;
        (frameId, s) \<leftarrow> Stream_Read_UINT32 s;
        Some (if_call_result False (SurfaceFrameMarker u) rdp (ucast frameAction, frameId), s) })"

definition recv_surfcmd :: "'k rdpUpdate \<Rightarrow> u16 \<Rightarrow> 'k pdu_handler" where
  "recv_surfcmd u ct rdp s =
     (if ct = CMDTYPE_SET_SURFACE_BITS \<or> ct = CMDTYPE_STREAM_SURFACE_BITS then update_recv_surfcmd_surface_bits u ct rdp s
      else if ct = CMDTYPE_FRAME_MARKER then update_recv_surfcmd_frame_marker u rdp s
      else Some ((False, rdp), s))"

text \<open>The loop over the commands; \<open>None\<close> also when it does not end.\<close>

partial_function (option) update_recv_surfcmds ::
  "'k rdpUpdate \<Rightarrow> 'k rdpRdp \<Rightarrow> wStream \<Rightarrow> ((int \<times> 'k rdpRdp) \<times> wStream) option" where
  "update_recv_surfcmds u rdp s =
     (if Stream_GetRemainingLength s \<ge> 2 then do {
        (ct, s) \<leftarrow> Stream_Read_UINT16 s;
        ((ok, rdp), s) \<leftarrow> recv_surfcmd u ct rdp s;
        (if \<not> ok then Some ((- 1, rdp), s) else update_recv_surfcmds u rdp s) }
      else Some ((0, rdp), s))"

declare update_recv_surfcmds.simps [code]

section \<open>Writers\<close>

definition SURFCMD_SURFACE_BITS_HEADER_LENGTH :: nat where "SURFCMD_SURFACE_BITS_HEADER_LENGTH = 22"
definition SURFCMD_FRAME_MARKER_LENGTH :: nat where "SURFCMD_FRAME_MARKER_LENGTH = 8"

definition update_write_surfcmd_bitmap_header_ex ::
  "allocator \<Rightarrow> TS_COMPRESSED_BITMAP_HEADER_EX \<Rightarrow> wStream \<Rightarrow> (bool \<times> wStream) option" where
  "update_write_surfcmd_bitmap_header_ex malloc ext s = do {
     (ok, s) \<leftarrow> Stream_EnsureRemainingCapacity malloc s 24;
     (if \<not> ok then Some (False, s)
      else do {
        s \<leftarrow> Stream_Write_UINT32 s (highUniqueId ext);
        s \<leftarrow> Stream_Write_UINT32 s (lowUniqueId ext);
        s \<leftarrow> Stream_Write_UINT64 s (tmMilliseconds ext);
        s \<leftarrow> Stream_Write_UINT64 s (tmSeconds ext);
        Some (True, s) }) }"

text \<open>The bytes behind the header; reading behind the caller's \<^verbatim>\<open>bitmapData\<close> is a fault.\<close>

definition write_bitmap_bytes :: "allocator \<Rightarrow> TS_BITMAP_DATA_EX \<Rightarrow> wStream \<Rightarrow> (bool \<times> wStream) option" where
  "write_bitmap_bytes malloc bmp s = do {
     (ok, s) \<leftarrow> Stream_EnsureRemainingCapacity malloc s (unat (bitmapDataLength bmp));
     (if \<not> ok then Some (False, s)
      else do {
        bytes \<leftarrow> mem_read (bitmapData bmp) 0 (unat (bitmapDataLength bmp));
        s \<leftarrow> Stream_Write s bytes;
        Some (True, s) }) }"

definition update_write_surfcmd_bitmap_ex :: "allocator \<Rightarrow> TS_BITMAP_DATA_EX \<Rightarrow> wStream \<Rightarrow> (bool \<times> wStream) option" where
  "update_write_surfcmd_bitmap_ex malloc bmp s = do {
     (ok, s) \<leftarrow> Stream_EnsureRemainingCapacity malloc s 12;
     (if \<not> ok then Some (False, s)
      else do {
        s \<leftarrow> Stream_Write_UINT8 s (ex_bpp bmp);
        s \<leftarrow> Stream_Write_UINT8 s (ex_flags bmp);
        s \<leftarrow> Stream_Write_UINT8 s 0;
        s \<leftarrow> Stream_Write_UINT8 s (ucast (codecID bmp));
        s \<leftarrow> Stream_Write_UINT16 s (ex_width bmp);
        s \<leftarrow> Stream_Write_UINT16 s (ex_height bmp);
        s \<leftarrow> Stream_Write_UINT32 s (bitmapDataLength bmp);
        (ok, s) \<leftarrow> (if ex_flags bmp AND EX_COMPRESSED_BITMAP_HEADER_PRESENT \<noteq> 0
                    then update_write_surfcmd_bitmap_header_ex malloc (exBitmapDataHeader bmp) s else Some (True, s));
        (if \<not> ok then Some (False, s) else write_bitmap_bytes malloc bmp s) }) }"

text \<open>A command type that is not one of surface bits is written as a streamed one.\<close>

definition surface_bits_type :: "u32 \<Rightarrow> u16" where
  "surface_bits_type ct =
     (let ct = ucast ct in
      if ct = CMDTYPE_SET_SURFACE_BITS \<or> ct = CMDTYPE_STREAM_SURFACE_BITS then ct else CMDTYPE_STREAM_SURFACE_BITS)"

definition update_write_surfcmd_surface_bits :: "allocator \<Rightarrow> SURFACE_BITS_COMMAND \<Rightarrow> wStream \<Rightarrow> (bool \<times> wStream) option" where
  "update_write_surfcmd_surface_bits malloc cmd s = do {
     (ok, s) \<leftarrow> Stream_EnsureRemainingCapacity malloc s SURFCMD_SURFACE_BITS_HEADER_LENGTH;
     (if \<not> ok then Some (False, s)
      else do {
        s \<leftarrow> Stream_Write_UINT16 s (surface_bits_type (cmdType cmd));
        s \<leftarrow> Stream_Write_UINT16 s (ucast (sb_destLeft cmd));
        s \<leftarrow> Stream_Write_UINT16 s (ucast (sb_destTop cmd));
        s \<leftarrow> Stream_Write_UINT16 s (ucast (sb_destRight cmd));
        s \<leftarrow> Stream_Write_UINT16 s (ucast (sb_destBottom cmd));
        update_write_surfcmd_bitmap_ex malloc (sb_bmp cmd) s }) }"

definition update_write_surfcmd_frame_marker :: "allocator \<Rightarrow> u16 \<Rightarrow> u32 \<Rightarrow> wStream \<Rightarrow> (bool \<times> wStream) option" where
  "update_write_surfcmd_frame_marker malloc frameAction frameId s = do {
     (ok, s) \<leftarrow> Stream_EnsureRemainingCapacity malloc s SURFCMD_FRAME_MARKER_LENGTH;
     (if \<not> ok then Some (False, s)
      else do {
        s \<leftarrow> Stream_Write_UINT16 s CMDTYPE_FRAME_MARKER;
        s \<leftarrow> Stream_Write_UINT16 s frameAction;
        s \<leftarrow> Stream_Write_UINT32 s frameId;
        Some (True, s) }) }"

section \<open>Safety and termination\<close>

lemma safe_take_bitmap: "safe_reader (take_bitmap_data bmp)"
  by (rule safe_readerI) (simp add: take_bitmap_data_def wire_simps Peek_rest Let_def)

lemma safe_bitmap_header_ex: "safe_reader update_recv_surfcmd_bitmap_header_ex"
  by (rule safe_readerI) (simp add: update_recv_surfcmd_bitmap_header_ex_def wire_simps)

lemma safe_bitmap_ex: "safe_reader update_recv_surfcmd_bitmap_ex"
proof (rule safe_readerI)
  fix s assume w: "wf_stream s"
  have "safe_reader (\<lambda>s. do { (ext, s) \<leftarrow> update_recv_surfcmd_bitmap_header_ex s;
       (case ext of None \<Rightarrow> Some (None, s) | Some ext \<Rightarrow> take_bitmap_data (f ext) s) })" for f
    by (intro safe_bind safe_case_option safe_bitmap_header_ex safe_take_bitmap safe_return)
  note h = safe_after [OF this w]
  show "run_ok (update_recv_surfcmd_bitmap_ex s) (\<lambda>_. consumed s)"
    using w by (simp add: update_recv_surfcmd_bitmap_ex_def wire_simps Let_def h safe_after [OF safe_take_bitmap] del: One_nat_def)
qed

lemma safe_recv_surfcmd: "safe_reader (recv_surfcmd u ct rdp)"
proof -
  have b: "safe_reader (update_recv_surfcmd_surface_bits u ct rdp)"
  proof (rule safe_readerI)
    fix s assume w: "wf_stream s"
    have "safe_reader (\<lambda>s. do { (bmp, s) \<leftarrow> update_recv_surfcmd_bitmap_ex s;
        (case bmp of None \<Rightarrow> Some ((False, rdp), s) | Some bmp \<Rightarrow> Some (f bmp, s)) })" for f
      by (intro safe_bind safe_case_option safe_bitmap_ex safe_return)
    note h = safe_after [OF this w]
    show "run_ok (update_recv_surfcmd_surface_bits u ct rdp s) (\<lambda>_. consumed s)"
      using w by (simp add: update_recv_surfcmd_surface_bits_def wire_simps h)
  qed
  have "safe_reader (update_recv_surfcmd_frame_marker u rdp)"
    by (rule safe_readerI) (simp add: update_recv_surfcmd_frame_marker_def wire_simps)
  then show ?thesis unfolding recv_surfcmd_def [abs_def] by (intro safe_if safe_return b)
qed

text \<open>Every round takes the two bytes of the command type, so the loop ends.\<close>

lemma surfcmds_returns:
  assumes "wf_stream s"
  shows "\<exists>rc rdp' s'. update_recv_surfcmds u rdp s = Some ((rc, rdp'), s') \<and> consumed s s' \<and> (rc = 0 \<or> rc = - 1) \<and>
    (rc = 0 \<longrightarrow> avail s' < 2)"
  using assms
proof (induction "avail s" arbitrary: s rdp rule: less_induct)
  case less
  note w = less.prems
  show ?case
  proof (cases "2 \<le> avail s")
    case True
    obtain ok rdp' t where t: "recv_surfcmd u (get16 (rest s)) rdp (Stream_Seek s 2) = Some ((ok, rdp'), t)" "consumed (Stream_Seek s 2) t"
      using safe_readerD [OF safe_recv_surfcmd wf_Seek [OF w True], of u "get16 (rest s)" rdp] by (auto simp: run_ok_iff)
    have c: "consumed s t" by (rule consumed_trans [OF consumed_Seek [OF True] t(2)])
    have "avail t < avail s" using t(2) True by (auto simp: consumed_def wire_simps)
    then obtain rc r' s' where l: "update_recv_surfcmds u rdp' t = Some ((rc, r'), s')" "consumed t s'" "rc = 0 \<or> rc = - 1" "rc = 0 \<longrightarrow> avail s' < 2"
      using less.hyps consumed_wf [OF w c] by blast
    have "update_recv_surfcmds u rdp s = (if \<not> ok then Some ((- 1, rdp'), t) else update_recv_surfcmds u rdp' t)"
      using True w t(1) by (subst update_recv_surfcmds.simps) (simp add: wire_simps)
    then show ?thesis using c consumed_trans [OF c l(2)] l by (cases ok) auto
  next
    case False
    then show ?thesis using w by (subst update_recv_surfcmds.simps) (simp add: wire_simps)
  qed
qed

section \<open>Commands on the wire\<close>

datatype surfcmd = SurfBits SURFACE_BITS_COMMAND | SurfMarker u16 u32

definition ex_header_enc :: "TS_COMPRESSED_BITMAP_HEADER_EX \<Rightarrow> byte list" where
  "ex_header_enc ext = u32_enc (highUniqueId ext) @ u32_enc (lowUniqueId ext) @ u64_enc (tmMilliseconds ext) @ u64_enc (tmSeconds ext)"

definition has_ex_header :: "TS_BITMAP_DATA_EX \<Rightarrow> bool" where
  "has_ex_header bmp \<longleftrightarrow> ex_flags bmp AND EX_COMPRESSED_BITMAP_HEADER_PRESENT \<noteq> 0"

definition bitmap_ex_enc :: "TS_BITMAP_DATA_EX \<Rightarrow> byte list" where
  "bitmap_ex_enc bmp = [ex_bpp bmp, ex_flags bmp, 0, ucast (codecID bmp)] @ u16_enc (ex_width bmp) @ u16_enc (ex_height bmp) @
     u32_enc (bitmapDataLength bmp) @ (if has_ex_header bmp then ex_header_enc (exBitmapDataHeader bmp) else []) @ bitmapData bmp"

definition surfcmd_body :: "surfcmd \<Rightarrow> byte list" where
  "surfcmd_body c = (case c of
     SurfBits cmd \<Rightarrow> u16_enc (ucast (sb_destLeft cmd)) @ u16_enc (ucast (sb_destTop cmd)) @ u16_enc (ucast (sb_destRight cmd)) @
       u16_enc (ucast (sb_destBottom cmd)) @ bitmap_ex_enc (sb_bmp cmd)
   | SurfMarker act fid \<Rightarrow> u16_enc act @ u32_enc fid)"

definition surfcmd_type :: "surfcmd \<Rightarrow> u16" where
  "surfcmd_type c = (case c of SurfBits cmd \<Rightarrow> surface_bits_type (cmdType cmd) | SurfMarker act fid \<Rightarrow> CMDTYPE_FRAME_MARKER)"

definition surfcmd_enc :: "surfcmd \<Rightarrow> byte list" where
  "surfcmd_enc c = u16_enc (surfcmd_type c) @ surfcmd_body c"

text \<open>
  A command the protocol can carry: a depth of 1 to 32 bits, a codec id of one byte, bytes of the announced
  length, positions of 16 bits; and, so that nothing is lost, a header only where the flags announce it.
\<close>

definition wf_bitmap_ex :: "TS_BITMAP_DATA_EX \<Rightarrow> bool" where
  "wf_bitmap_ex bmp \<longleftrightarrow> 1 \<le> ex_bpp bmp \<and> ex_bpp bmp \<le> 32 \<and> unat (codecID bmp) < 2 ^ 8 \<and>
     length (bitmapData bmp) = unat (bitmapDataLength bmp) \<and> (\<not> has_ex_header bmp \<longrightarrow> exBitmapDataHeader bmp = no_ex_header)"

definition wf_surfcmd :: "surfcmd \<Rightarrow> bool" where
  "wf_surfcmd c = (case c of
     SurfBits cmd \<Rightarrow> (cmdType cmd = 1 \<or> cmdType cmd = 6) \<and>
       list_all (\<lambda>v. unat v < 2 ^ 16) [sb_destLeft cmd, sb_destTop cmd, sb_destRight cmd, sb_destBottom cmd] \<and> wf_bitmap_ex (sb_bmp cmd)
   | SurfMarker act fid \<Rightarrow> True)"

definition write_surfcmd :: "allocator \<Rightarrow> surfcmd \<Rightarrow> wStream \<Rightarrow> (bool \<times> wStream) option" where
  "write_surfcmd malloc c s = (case c of
     SurfBits cmd \<Rightarrow> update_write_surfcmd_surface_bits malloc cmd s
   | SurfMarker act fid \<Rightarrow> update_write_surfcmd_frame_marker malloc act fid s)"

text \<open>What the application sees of a command, and of a sequence of commands up to the first it refuses.\<close>

definition deliver_surfcmd :: "'k rdpUpdate \<Rightarrow> surfcmd \<Rightarrow> 'k rdpRdp \<Rightarrow> bool \<times> 'k rdpRdp" where
  "deliver_surfcmd u c rdp = (case c of
     SurfBits cmd \<Rightarrow> if_call_result False (SurfaceBits u) rdp (cmd\<lparr>skipCompression := False\<rparr>)
   | SurfMarker act fid \<Rightarrow> if_call_result False (SurfaceFrameMarker u) rdp (ucast act, fid))"

fun deliver_surfcmds :: "'k rdpUpdate \<Rightarrow> surfcmd list \<Rightarrow> 'k rdpRdp \<Rightarrow> int \<times> 'k rdpRdp" where
  "deliver_surfcmds u [] rdp = (0, rdp)"
| "deliver_surfcmds u (c # cs) rdp =
     (let (ok, rdp) = deliver_surfcmd u c rdp in if \<not> ok then (- 1, rdp) else deliver_surfcmds u cs rdp)"

lemma take_bitmap_enc:
  assumes "wf_stream s" "rest s = bitmapData bmp @ r" "length (bitmapData bmp) = unat (bitmapDataLength bmp)"
    "bitmapDataLength bmp0 = bitmapDataLength bmp"
  shows "take_bitmap_data bmp0 s = Some (Some (bmp0\<lparr>bitmapData := bitmapData bmp\<rparr>), Stream_Seek s (unat (bitmapDataLength bmp)))"
proof -
  have "unat (bitmapDataLength bmp) \<le> avail s" using length_rest [OF assms(1)] assms(2,3) by simp
  then show ?thesis using assms by (simp add: take_bitmap_data_def wire_simps Peek_rest)
qed

lemma length_bitmap_ex_enc:
  "wf_bitmap_ex bmp \<Longrightarrow> length (bitmap_ex_enc bmp) = (if has_ex_header bmp then 36 else 12) + unat (bitmapDataLength bmp)"
  by (simp add: bitmap_ex_enc_def ex_header_enc_def wf_bitmap_ex_def)

lemma codec_back: "unat (v :: u16) < 2 ^ 8 \<Longrightarrow> ucast (ucast v :: byte) = v"
proof -
  assume "unat v < 2 ^ 8"
  then have "unat (ucast v :: byte) = unat v" by (simp add: unsigned_ucast_eq take_bit_nat_eq_self)
  then show ?thesis unfolding word_unat_eq_iff using unat_ucast_up [of "ucast v :: byte", where ?'b = 16] by simp
qed

lemma recv_bitmap_ex_enc:
  assumes "wf_stream s" "rest s = bitmap_ex_enc bmp @ r" "wf_bitmap_ex bmp"
  shows "update_recv_surfcmd_bitmap_ex s = Some (Some bmp, Stream_Seek s (length (bitmap_ex_enc bmp)))"
proof -
  have w: "1 \<le> ex_bpp bmp" "ex_bpp bmp \<le> 32" "ucast (ucast (codecID bmp) :: byte) = codecID bmp"
    "length (bitmapData bmp) = unat (bitmapDataLength bmp)"
    using assms(3) codec_back by (auto simp: wf_bitmap_ex_def)
  have bp: "\<not> (ex_bpp bmp < 1 \<or> ex_bpp bmp > 32)" using leD [OF w(1)] leD [OF w(2)] by blast
  note le = length_bitmap_ex_enc [OF assms(3)]
  have a: "length (bitmap_ex_enc bmp) \<le> avail s" using length_rest [OF assms(1)] assms(2) by simp
  show ?thesis
  proof (cases "has_ex_header bmp")
    case True
    have n: "36 \<le> avail s" using a le True by simp
    have b: "wf_stream (Stream_Seek s 36)" "rest (Stream_Seek s 36) = bitmapData bmp @ r"
      using assms(1,2) n True by (simp_all add: wire_simps bitmap_ex_enc_def ex_header_enc_def)
    have h: "update_recv_surfcmd_bitmap_header_ex (Stream_Seek s 12) = Some (Some (exBitmapDataHeader bmp), Stream_Seek s 36)"
      using assms(1,2) n True by (simp add: update_recv_surfcmd_bitmap_header_ex_def wire_simps bitmap_ex_enc_def ex_header_enc_def)
    show ?thesis unfolding le using True assms(1,2) n bp
      by (simp add: update_recv_surfcmd_bitmap_ex_def wire_simps Let_def bitmap_ex_enc_def has_ex_header_def h w
          take_bitmap_enc [OF b w(4)] del: One_nat_def)
  next
    case False
    have n: "12 \<le> avail s" using a le False by simp
    have b: "wf_stream (Stream_Seek s 12)" "rest (Stream_Seek s 12) = bitmapData bmp @ r"
      using assms(1,2) n False by (simp_all add: wire_simps bitmap_ex_enc_def)
    have z: "exBitmapDataHeader bmp = no_ex_header" using False assms(3) by (simp add: wf_bitmap_ex_def)
    show ?thesis unfolding le using False assms(1,2) n bp
      by (simp add: update_recv_surfcmd_bitmap_ex_def wire_simps Let_def bitmap_ex_enc_def has_ex_header_def w z
          take_bitmap_enc [OF b w(4)] del: One_nat_def)
  qed
qed

lemma recv_surfcmd_enc:
  assumes "wf_stream s" "rest s = surfcmd_body c @ r" "wf_surfcmd c"
  shows "recv_surfcmd u (surfcmd_type c) rdp s = Some (deliver_surfcmd u c rdp, Stream_Seek s (length (surfcmd_body c)))"
proof (cases c)
  case (SurfMarker act fid)
  have "6 \<le> avail s" using length_rest [OF assms(1)] assms(2) SurfMarker by (simp add: surfcmd_body_def)
  then show ?thesis using SurfMarker assms(1,2)
    by (simp add: recv_surfcmd_def surfcmd_type_def surfcmd_body_def deliver_surfcmd_def update_recv_surfcmd_frame_marker_def wire_simps
        CMDTYPE_SET_SURFACE_BITS_def CMDTYPE_STREAM_SURFACE_BITS_def CMDTYPE_FRAME_MARKER_def)
next
  case (SurfBits cmd)
  have w: "cmdType cmd = 1 \<or> cmdType cmd = 6" "wf_bitmap_ex (sb_bmp cmd)" using assms(3) SurfBits by (auto simp: wf_surfcmd_def)
  have v: "ucast (ucast v :: u16) = v" if "v \<in> {sb_destLeft cmd, sb_destTop cmd, sb_destRight cmd, sb_destBottom cmd}" for v
    using that assms(3) SurfBits by (intro u32_via_u16) (auto simp: wf_surfcmd_def)
  have a: "8 + length (bitmap_ex_enc (sb_bmp cmd)) \<le> avail s"
    using length_rest [OF assms(1)] assms(2) SurfBits by (simp add: surfcmd_body_def)
  then have b: "update_recv_surfcmd_bitmap_ex (Stream_Seek s 8) =
      Some (Some (sb_bmp cmd), Stream_Seek (Stream_Seek s 8) (length (bitmap_ex_enc (sb_bmp cmd))))"
    using assms(1,2) SurfBits w(2) by (intro recv_bitmap_ex_enc [where r = r]) (simp_all add: wire_simps surfcmd_body_def)
  have t: "surfcmd_type c = CMDTYPE_SET_SURFACE_BITS \<or> surfcmd_type c = CMDTYPE_STREAM_SURFACE_BITS" "ucast (surfcmd_type c) = cmdType cmd"
    using w(1) SurfBits by (auto simp: surfcmd_type_def surface_bits_type_def Let_def CMDTYPE_SET_SURFACE_BITS_def CMDTYPE_STREAM_SURFACE_BITS_def)
  have e: "cmd\<lparr>skipCompression := False\<rparr> = \<lparr>cmdType = cmdType cmd, sb_destLeft = sb_destLeft cmd, sb_destTop = sb_destTop cmd,
      sb_destRight = sb_destRight cmd, sb_destBottom = sb_destBottom cmd, sb_bmp = sb_bmp cmd, skipCompression = False\<rparr>"
    by (cases cmd) simp
  have le: "length (surfcmd_body c) = 8 + length (bitmap_ex_enc (sb_bmp cmd))" using SurfBits by (simp add: surfcmd_body_def)
  show ?thesis unfolding le using SurfBits assms(1,2) a b t
    by (simp add: recv_surfcmd_def surfcmd_body_def deliver_surfcmd_def update_recv_surfcmd_surface_bits_def wire_simps v e)
qed

lemma recv_surfcmds_enc:
  "wf_stream s \<Longrightarrow> rest s = concat (map surfcmd_enc cs) \<Longrightarrow> list_all wf_surfcmd cs \<Longrightarrow>
   \<exists>s'. update_recv_surfcmds u rdp s = Some (deliver_surfcmds u cs rdp, s') \<and> consumed s s'"
proof (induction cs arbitrary: s rdp)
  case Nil
  then have "avail s = 0" using length_rest [of s] by simp
  then show ?case using Nil by (subst update_recv_surfcmds.simps) (simp add: wire_simps)
next
  case (Cons c cs)
  note w = Cons.prems(1)
  let ?n = "length (surfcmd_body c)" and ?r = "concat (map surfcmd_enc cs)"
  have l: "2 + ?n \<le> avail s" using length_rest [OF w] Cons.prems(2) by (simp add: surfcmd_enc_def [of c])
  have "rest (Stream_Seek s 2) = surfcmd_body c @ ?r" using Cons.prems(2) by (simp add: wire_simps surfcmd_enc_def [of c])
  then have r: "recv_surfcmd u (surfcmd_type c) rdp (Stream_Seek s 2) = Some (deliver_surfcmd u c rdp, Stream_Seek s (2 + ?n))"
    using recv_surfcmd_enc [OF wf_Seek [OF w], of 2 c ?r u rdp] l Cons.prems(3) by simp
  have t: "wf_stream (Stream_Seek s (2 + ?n))" "rest (Stream_Seek s (2 + ?n)) = ?r" "consumed s (Stream_Seek s (2 + ?n))"
    using w l Cons.prems(2) by (simp_all add: wire_simps surfcmd_enc_def [of c])
  obtain ok rdp' where d: "deliver_surfcmd u c rdp = (ok, rdp')" by force
  obtain s' where s': "update_recv_surfcmds u rdp' (Stream_Seek s (2 + ?n)) = Some (deliver_surfcmds u cs rdp', s')"
      "consumed (Stream_Seek s (2 + ?n)) s'"
    using Cons.IH [OF t(1,2)] Cons.prems(3) by auto
  have "update_recv_surfcmds u rdp s = (if \<not> ok then Some ((- 1, rdp'), Stream_Seek s (2 + ?n))
      else update_recv_surfcmds u rdp' (Stream_Seek s (2 + ?n)))"
    using w l Cons.prems(2) r d by (subst update_recv_surfcmds.simps) (simp add: wire_simps surfcmd_enc_def [of c])
  then show ?case using s' d t(3) consumed_trans [OF t(3) s'(2)] by auto
qed

lemma write_bitmap_bytes_run:
  assumes "malloc_ok malloc" "alloc_total malloc" "growable s" "s_pointer s \<le> 2 ^ 37" "wf_bitmap_ex bmp"
  shows "run_ok (write_bitmap_bytes malloc bmp s) (\<lambda>ok t. ok \<and> growable t \<and> out t = out s @ bitmapData bmp)"
proof -
  have l: "length (bitmapData bmp) = unat (bitmapDataLength bmp)" using assms(5) by (simp add: wf_bitmap_ex_def)
  have b: "unat (bitmapDataLength bmp) < 4294967296" by (rule unat_u32)
  show ?thesis unfolding write_bitmap_bytes_def
    by (rule ensure_then [OF assms(1-3)])
      (use assms(4) b l growable_put growable_wf in \<open>auto simp: wire_simps\<close>)
qed

lemma write_ex_header_run:
  assumes "malloc_ok malloc" "alloc_total malloc" "growable s" "s_pointer s \<le> 2 ^ 37"
  shows "run_ok (update_write_surfcmd_bitmap_header_ex malloc ext s) (\<lambda>ok t. ok \<and> growable t \<and> out t = out s @ ex_header_enc ext)"
  unfolding update_write_surfcmd_bitmap_header_ex_def
proof (rule ensure_then [OF assms(1-3)], goal_cases)
  case (2 t)
  then show ?case using growable_put [OF 2(1), of "ex_header_enc ext"] growable_wf [OF 2(1)] by (simp add: wire_simps ex_header_enc_def)
qed (use assms(4) in simp)

lemma write_bitmap_ex_run:
  assumes "malloc_ok malloc" "alloc_total malloc" "growable s" "s_pointer s \<le> 2 ^ 36" "wf_bitmap_ex bmp"
  shows "run_ok (update_write_surfcmd_bitmap_ex malloc bmp s) (\<lambda>ok t. ok \<and> growable t \<and> out t = out s @ bitmap_ex_enc bmp)"
  unfolding update_write_surfcmd_bitmap_ex_def
proof (rule ensure_then [OF assms(1-3)], goal_cases)
  case (2 t)
  let ?h = "[ex_bpp bmp, ex_flags bmp, 0, ucast (codecID bmp)] @ u16_enc (ex_width bmp) @ u16_enc (ex_height bmp) @ u32_enc (bitmapDataLength bmp)"
  let ?x = "if has_ex_header bmp then ex_header_enc (exBitmapDataHeader bmp) else []"
  have g: "growable (put t ?h)" "out (put t ?h) = out s @ ?h" using growable_put [OF 2(1), of ?h] 2(2,3) by simp_all
  have pt: "s_pointer (put t ?h) \<le> 2 ^ 36 + 12"
    using length_out [OF growable_wf [OF g(1)]] length_out [OF growable_wf [OF assms(3)]] g(2) assms(4) by simp
  have x: "run_ok (if ex_flags bmp AND EX_COMPRESSED_BITMAP_HEADER_PRESENT \<noteq> 0
      then update_write_surfcmd_bitmap_header_ex malloc (exBitmapDataHeader bmp) (put t ?h) else Some (True, put t ?h))
      (\<lambda>ok v. ok \<and> growable v \<and> out v = out s @ ?h @ ?x)"
    using g write_ex_header_run [OF assms(1,2) g(1)] pt by (auto simp: has_ex_header_def)
  have y: "run_ok (write_bitmap_bytes malloc bmp v) (\<lambda>ok w. ok \<and> growable w \<and> out w = out s @ bitmap_ex_enc bmp)"
    if v: "growable v" "out v = out s @ ?h @ ?x" for v
  proof -
    have "s_pointer v \<le> 2 ^ 37"
      using length_out [OF growable_wf [OF v(1)]] length_out [OF growable_wf [OF assms(3)]] v(2) assms(4) by (simp add: ex_header_enc_def split: if_splits)
    then show ?thesis using write_bitmap_bytes_run [OF assms(1,2) v(1) _ assms(5)] v(2) by (simp add: bitmap_ex_enc_def)
  qed
  have "run_ok (do { (ok, s) \<leftarrow> (if ex_flags bmp AND EX_COMPRESSED_BITMAP_HEADER_PRESENT \<noteq> 0
      then update_write_surfcmd_bitmap_header_ex malloc (exBitmapDataHeader bmp) (put t ?h) else Some (True, put t ?h));
      if \<not> ok then Some (False, s) else write_bitmap_bytes malloc bmp s }) (\<lambda>ok w. ok \<and> growable w \<and> out w = out s @ bitmap_ex_enc bmp)"
    unfolding run_ok_bind by (rule run_ok_mono [OF x]) (use y in auto)
  then show ?case using 2(2) growable_wf [OF 2(1)] by (auto simp: wire_simps simp del: One_nat_def split: if_splits)
qed (use assms(4) in simp)

lemma write_surfcmd_run:
  assumes "malloc_ok malloc" "alloc_total malloc" "growable s" "s_pointer s \<le> 2 ^ 35" "wf_surfcmd c"
  shows "run_ok (write_surfcmd malloc c s) (\<lambda>ok t. ok \<and> growable t \<and> out t = out s @ surfcmd_enc c)"
proof (cases c)
  case (SurfMarker act fid)
  show ?thesis unfolding SurfMarker write_surfcmd_def surfcmd.case update_write_surfcmd_frame_marker_def
  proof (rule ensure_then [OF assms(1-3)], goal_cases)
    case (2 t)
    then show ?case using growable_put [OF 2(1), of "surfcmd_enc c"] growable_wf [OF 2(1)] SurfMarker
      by (simp add: wire_simps surfcmd_enc_def surfcmd_type_def surfcmd_body_def SURFCMD_FRAME_MARKER_LENGTH_def)
  qed (use assms(4) in \<open>simp add: SURFCMD_FRAME_MARKER_LENGTH_def\<close>)
next
  case (SurfBits cmd)
  let ?h = "u16_enc (surface_bits_type (cmdType cmd)) @ u16_enc (ucast (sb_destLeft cmd)) @ u16_enc (ucast (sb_destTop cmd)) @
    u16_enc (ucast (sb_destRight cmd)) @ u16_enc (ucast (sb_destBottom cmd))"
  have w: "wf_bitmap_ex (sb_bmp cmd)" using assms(5) SurfBits by (simp add: wf_surfcmd_def)
  show ?thesis unfolding SurfBits write_surfcmd_def surfcmd.case update_write_surfcmd_surface_bits_def
  proof (rule ensure_then [OF assms(1-3)], goal_cases)
    case (2 t)
    have g: "growable (put t ?h)" "out (put t ?h) = out s @ ?h"
      using growable_put [OF 2(1), of ?h] 2(2,3) by (simp_all add: SURFCMD_SURFACE_BITS_HEADER_LENGTH_def)
    have "s_pointer (put t ?h) \<le> 2 ^ 36"
      using length_out [OF growable_wf [OF g(1)]] length_out [OF growable_wf [OF assms(3)]] g(2) assms(4) by simp
    then show ?case using write_bitmap_ex_run [OF assms(1,2) g(1) _ w] g(2) 2(2) growable_wf [OF 2(1)]
      by (simp add: wire_simps SURFCMD_SURFACE_BITS_HEADER_LENGTH_def surfcmd_enc_def surfcmd_type_def surfcmd_body_def)
  qed (use assms(4) in \<open>simp add: SURFCMD_SURFACE_BITS_HEADER_LENGTH_def\<close>)
qed

fun write_surfcmds :: "allocator \<Rightarrow> surfcmd list \<Rightarrow> wStream \<Rightarrow> (bool \<times> wStream) option" where
  "write_surfcmds malloc [] s = Some (True, s)"
| "write_surfcmds malloc (c # cs) s = do {
     (ok, s) \<leftarrow> write_surfcmd malloc c s;
     (if \<not> ok then Some (False, s) else write_surfcmds malloc cs s) }"

lemma write_surfcmds_run:
  assumes "malloc_ok malloc" "alloc_total malloc"
  shows "growable s \<Longrightarrow> s_pointer s + length (concat (map surfcmd_enc cs)) \<le> 2 ^ 35 \<Longrightarrow> list_all wf_surfcmd cs \<Longrightarrow>
    run_ok (write_surfcmds malloc cs s) (\<lambda>ok t. ok \<and> growable t \<and> out t = out s @ concat (map surfcmd_enc cs))"
proof (induction cs arbitrary: s)
  case (Cons c cs)
  have r: "run_ok (write_surfcmd malloc c s) (\<lambda>ok t. ok \<and> growable t \<and> out t = out s @ surfcmd_enc c)"
    using Cons.prems by (intro write_surfcmd_run [OF assms]) simp_all
  have n: "run_ok (write_surfcmds malloc cs t) (\<lambda>ok u. ok \<and> growable u \<and> out u = out s @ surfcmd_enc c @ concat (map surfcmd_enc cs))"
    if t: "growable t" "out t = out s @ surfcmd_enc c" for t
  proof -
    have "s_pointer t = s_pointer s + length (surfcmd_enc c)"
      using length_out [OF growable_wf [OF t(1)]] length_out [OF growable_wf [OF Cons.prems(1)]] t(2) by simp
    then have "run_ok (write_surfcmds malloc cs t) (\<lambda>ok u. ok \<and> growable u \<and> out u = out t @ concat (map surfcmd_enc cs))"
      using t(1) Cons.prems by (intro Cons.IH) simp_all
    then show ?thesis by (simp add: t(2))
  qed
  show ?case unfolding write_surfcmds.simps run_ok_bind by (rule run_ok_mono [OF r]) (use n in auto)
qed simp

text \<open>
  C15: A frame of surface commands reaches the application whole and in order: the bytes the server's writers
  append for a sequence of frame markers and surface bits, streamed into one update, make the client call its
  callbacks once per command with the same contents, up to the first call that refuses; and on every other
  update, whatever its bytes, the loop over the commands ends inside it.
\<close>

theorem surface_commands_delivered:
  assumes "malloc_ok malloc" "alloc_total malloc" "growable s" "s_pointer s + length (concat (map surfcmd_enc cs)) \<le> 2 ^ 35"
    "list_all wf_surfcmd cs" "wf_stream v"
  shows "run_ok (write_surfcmds malloc cs s) (\<lambda>ok t. ok \<and> growable t \<and> (\<exists>bytes. out t = out s @ bytes \<and>
      (\<exists>w. update_recv_surfcmds u rdp (Stream_StaticInit bytes) = Some (deliver_surfcmds u cs rdp, w)))) \<and>
    (\<exists>rc rdp' w. update_recv_surfcmds u rdp v = Some ((rc, rdp'), w) \<and> consumed v w \<and> (rc = 0 \<or> rc = - 1) \<and> (rc = 0 \<longrightarrow> avail w < 2))"
proof
  let ?e = "concat (map surfcmd_enc cs)"
  have "length ?e < 2 ^ 64" using assms(4) by simp
  then have "wf_stream (Stream_StaticInit ?e)" "rest (Stream_StaticInit ?e) = ?e" by simp_all
  then have "\<exists>w. update_recv_surfcmds u rdp (Stream_StaticInit ?e) = Some (deliver_surfcmds u cs rdp, w)"
    using recv_surfcmds_enc [of "Stream_StaticInit ?e" cs] assms(5) by blast
  then show "run_ok (write_surfcmds malloc cs s) (\<lambda>ok t. ok \<and> growable t \<and> (\<exists>bytes. out t = out s @ bytes \<and>
      (\<exists>w. update_recv_surfcmds u rdp (Stream_StaticInit bytes) = Some (deliver_surfcmds u cs rdp, w))))"
    by (intro run_ok_mono [OF write_surfcmds_run [OF assms(1-5)]]) blast
qed (rule surfcmds_returns [OF assms(6)])

text \<open>A frame: its markers and one bitmap between them.\<close>

definition example_frame :: "surfcmd list" where
  "example_frame = [SurfMarker 0 1, SurfBits \<lparr>cmdType = 6, sb_destLeft = 0, sb_destTop = 0, sb_destRight = 1, sb_destBottom = 1,
     sb_bmp = \<lparr>ex_bpp = 32, ex_flags = 1, codecID = 3, ex_width = 1, ex_height = 1, bitmapDataLength = 4,
       exBitmapDataHeader = \<lparr>highUniqueId = 0, lowUniqueId = 9, tmMilliseconds = 40, tmSeconds = 2\<rparr>, bitmapData = [1, 2, 3, 4]\<rparr>,
     skipCompression = False\<rparr>, SurfMarker 1 1]"

theorem surface_commands_delivered_witness:
  "run_ok (write_surfcmds zero_malloc example_frame (zero_stream 16)) (\<lambda>ok t. ok \<and> growable t \<and> (\<exists>bytes. out t = out (zero_stream 16) @ bytes \<and>
      (\<exists>w. update_recv_surfcmds example_update (example_rdp False) (Stream_StaticInit bytes) =
        Some (deliver_surfcmds example_update example_frame (example_rdp False), w)))) \<and>
    (\<exists>rc rdp' w. update_recv_surfcmds example_update (example_rdp False) (zero_stream 3) = Some ((rc, rdp'), w) \<and>
      consumed (zero_stream 3) w \<and> (rc = 0 \<or> rc = - 1) \<and> (rc = 0 \<longrightarrow> avail w < 2))"
  by (rule surface_commands_delivered)
    (simp_all add: alloc_total_def zero_malloc_def growable_def example_frame_def surfcmd_enc_def surfcmd_body_def bitmap_ex_enc_def
      has_ex_header_def EX_COMPRESSED_BITMAP_HEADER_PRESENT_def ex_header_enc_def wf_surfcmd_def wf_bitmap_ex_def
      zero_stream_def wf_stream_def wf_cap_def)

end
