(* ===== verification/Fastpath.thy ===== *)
theory Fastpath
  imports Surface Packet_Dispatch
begin

text \<open>
  The fast path (\<^verbatim>\<open>libfreerdp/core/fastpath.c\<close> and \<^verbatim>\<open>rdp_recv_fastpath_pdu\<close>, \<^verbatim>\<open>rdp_recv_pdu\<close> of \<^verbatim>\<open>rdp.c\<close>): server
  output is cut into fragments, optionally compressed and encrypted, and put together again by the client;
  client input is a sequence of events in one packet.

  The record \<open>rdpFastPath\<close> is that of \<^verbatim>\<open>fastpath.h\<close>, without the pointer back to \<^verbatim>\<open>rdpRdp\<close>, which is passed along.
  The record \<open>fp_env\<close> holds what the functions reach through that pointer and do not change: settings, state of
  the connection, callbacks, and the functions of \<^verbatim>\<open>security.c\<close>, \<^verbatim>\<open>bulk.c\<close> and the transport. \<^verbatim>\<open>bulk_compress\<close> gives
  the new bytes and flags, or \<open>None\<close> for a negative status. The result of \<^verbatim>\<open>transport_write\<close> is the
  argument \<open>fp_write\<close>; senders return the streams they handed to it.
\<close>

section \<open>State\<close>

record rdpFastPath =
  fs :: wStream
  encryptionFlags :: byte
  numberEvents :: byte
  updateData :: wStream
  fragmentation :: int

record 'k rdpInput =
  SynchronizeEvent :: "('k, u32) callback"
  KeyboardEvent :: "('k, u16 \<times> u16) callback"
  UnicodeKeyboardEvent :: "('k, u16 \<times> u16) callback"
  MouseEvent :: "('k, u16 \<times> u16 \<times> u16) callback"
  ExtendedMouseEvent :: "('k, u16 \<times> u16 \<times> u16) callback"

record 'k fp_env =
  fp_malloc :: allocator
  fp_pool :: "nat \<Rightarrow> wStream option"
  fp_ops :: "'k security_ops"
  fp_write :: "wStream \<Rightarrow> int"
  fp_state :: int
  fp_update :: "'k rdpUpdate"
  fp_input :: "'k rdpInput"
  CompressionEnabled :: bool
  FastPathOutput :: bool
  MultifragMaxRequestSize :: u32
  fp_compression_max_size :: u32
  fp_compress :: "'k rdpRdp \<Rightarrow> byte list \<Rightarrow> (byte list \<times> u32) option \<times> 'k rdpRdp"
  fp_decompress :: "'k rdpRdp \<Rightarrow> byte list \<Rightarrow> byte \<Rightarrow> byte list option \<times> 'k rdpRdp"

record FASTPATH_UPDATE_PDU_HEADER =
  fipsInformation :: "byte list"
  dataSignature :: "byte list"
  action :: byte
  secFlags :: byte
  pdu_length :: u16

record FASTPATH_UPDATE_HEADER =
  compressionFlags :: byte
  fp_size :: u16
  updateCode :: byte
  uh_fragmentation :: byte
  compression :: byte

definition FASTPATH_MAX_PACKET_SIZE :: nat where "FASTPATH_MAX_PACKET_SIZE = 0x3FFF"
definition FASTPATH_OUTPUT_SECURE_CHECKSUM :: byte where "FASTPATH_OUTPUT_SECURE_CHECKSUM = 1"
definition FASTPATH_OUTPUT_ENCRYPTED :: byte where "FASTPATH_OUTPUT_ENCRYPTED = 2"
definition FASTPATH_OUTPUT_COMPRESSION_USED :: byte where "FASTPATH_OUTPUT_COMPRESSION_USED = 2"
definition FASTPATH_FRAGMENT_SINGLE :: byte where "FASTPATH_FRAGMENT_SINGLE = 0"
definition FASTPATH_FRAGMENT_LAST :: byte where "FASTPATH_FRAGMENT_LAST = 1"
definition FASTPATH_FRAGMENT_FIRST :: byte where "FASTPATH_FRAGMENT_FIRST = 2"
definition FASTPATH_FRAGMENT_NEXT :: byte where "FASTPATH_FRAGMENT_NEXT = 3"
definition CONNECTION_STATE_ACTIVE :: int where "CONNECTION_STATE_ACTIVE = 14"
definition SYSPTR_NULL :: u32 where "SYSPTR_NULL = 0"
definition SYSPTR_DEFAULT :: u32 where "SYSPTR_DEFAULT = 0x7F00"

section \<open>Headers\<close>

definition fastpath_header_length :: "wStream \<Rightarrow> (u16 \<times> wStream) option" where
  "fastpath_header_length s =
     (if Stream_GetRemainingLength s < 2 then Some (0, s)
      else do {
        let s = Stream_Seek s 1;
        (length1, s) \<leftarrow> Stream_Read_UINT8 s;
        s \<leftarrow> Stream_Rewind s 2;
        Some (if length1 AND 0x80 \<noteq> 0 then 3 else 2, s) })"

definition set_header :: "byte \<Rightarrow> rdpFastPath \<Rightarrow> rdpFastPath" where
  "set_header h fp = fp\<lparr>encryptionFlags := drop_bit 6 (h AND 0xC0), numberEvents := drop_bit 2 (h AND 0x3C)\<rparr>"

definition fastpath_read_header :: "rdpFastPath \<Rightarrow> wStream \<Rightarrow> ((u16 \<times> rdpFastPath) \<times> wStream) option" where
  "fastpath_read_header fp s =
     (if Stream_GetRemainingLength s < 1 then Some ((0, fp), s)
      else do {
        (header, s) \<leftarrow> Stream_Read_UINT8 s;
        let fp = set_header header fp;
        (len, s) \<leftarrow> per_read_length s;
        Some ((case len of None \<Rightarrow> 0 | Some len \<Rightarrow> len, fp), s) })"

text \<open>The length of the packet less the position of the pointer, in 16 bits.\<close>

definition fastpath_read_header_rdp :: "rdpFastPath \<Rightarrow> wStream \<Rightarrow> ((u16 option \<times> rdpFastPath) \<times> wStream) option" where
  "fastpath_read_header_rdp fp s =
     (if Stream_GetRemainingLength s < 1 then Some ((None, fp), s)
      else do {
        (header, s) \<leftarrow> Stream_Read_UINT8 s;
        let fp = set_header header fp;
        (len, s) \<leftarrow> per_read_length s;
        Some ((map_option (\<lambda>len. len - word_of_nat (Stream_GetPosition s)) len, fp), s) })"

text \<open>The results are the update code, the fragmentation and the compression.\<close>

definition fastpath_read_update_header :: "wStream \<Rightarrow> ((byte \<times> byte \<times> byte) option \<times> wStream) option" where
  "fastpath_read_update_header s =
     (if Stream_GetRemainingLength s < 1 then Some (None, s)
      else do {
        (h, s) \<leftarrow> Stream_Read_UINT8 s;
        Some (Some (h AND 0x0F, drop_bit 4 h AND 0x03, drop_bit 6 h AND 0x03), s) })"

definition update_header_byte :: "FASTPATH_UPDATE_HEADER \<Rightarrow> byte" where
  "update_header_byte uh =
     (updateCode uh AND 0x0F) OR push_bit 4 (uh_fragmentation uh AND 0x03) OR push_bit 6 (compression uh AND 0x03)"

definition fastpath_write_update_header :: "wStream \<Rightarrow> FASTPATH_UPDATE_HEADER \<Rightarrow> (bool \<times> wStream) option" where
  "fastpath_write_update_header s uh = do {
     s \<leftarrow> Stream_Write_UINT8 s (update_header_byte uh);
     (if compression uh \<noteq> 0 \<and> Stream_GetRemainingCapacity s < 1 then Some (False, s)
      else do {
        s \<leftarrow> (if compression uh \<noteq> 0 then Stream_Write_UINT8 s (compressionFlags uh) else Some s);
        (if Stream_GetRemainingCapacity s < 2 then Some (False, s)
         else do { s \<leftarrow> Stream_Write_UINT16 s (fp_size uh); Some (True, s) }) }) }"

definition fastpath_get_update_header_size :: "FASTPATH_UPDATE_HEADER \<Rightarrow> nat" where
  "fastpath_get_update_header_size uh = (if compression uh \<noteq> 0 then 4 else 3)"

text \<open>\<^verbatim>\<open>fastpath_write_update_pdu_header\<close> reports failure in every case; its caller does not ask.\<close>

definition fastpath_write_update_pdu_header ::
  "wStream \<Rightarrow> FASTPATH_UPDATE_PDU_HEADER \<Rightarrow> 'k rdpRdp \<Rightarrow> (bool \<times> wStream) option" where
  "fastpath_write_update_pdu_header s ph rdp =
     (if Stream_GetRemainingCapacity s < 3 then Some (False, s)
      else do {
        s \<leftarrow> Stream_Write_UINT8 s ((action ph AND 0x03) OR push_bit 6 (secFlags ph AND 0x03));
        s \<leftarrow> Stream_Write_UINT8 s (ucast (0x80 OR drop_bit 8 (pdu_length ph)));
        s \<leftarrow> Stream_Write_UINT8 s (ucast (pdu_length ph AND 0xFF));
        (if secFlags ph \<noteq> 0 then
           if EncryptionMethods rdp = ENCRYPTION_METHOD_FIPS then
             if Stream_GetRemainingCapacity s < 4 then Some (False, s)
             else do {
               s \<leftarrow> Stream_Write s (fipsInformation ph);
               (if Stream_GetRemainingCapacity s < 8 then Some (False, s)
                else do { s \<leftarrow> Stream_Write s (dataSignature ph); Some (False, s) }) }
           else if Stream_GetRemainingCapacity s < 8 then Some (False, s)
           else do { s \<leftarrow> Stream_Write s (dataSignature ph); Some (False, s) }
         else Some (False, s)) })"

definition fastpath_get_update_pdu_header_size :: "FASTPATH_UPDATE_PDU_HEADER \<Rightarrow> 'k rdpRdp \<Rightarrow> nat" where
  "fastpath_get_update_pdu_header_size ph rdp =
     (if secFlags ph \<noteq> 0 then if EncryptionMethods rdp = ENCRYPTION_METHOD_FIPS then 15 else 11 else 3)"

definition fastpath_new :: "allocator \<Rightarrow> rdpFastPath option" where
  "fastpath_new malloc =
     (case (Stream_New malloc None FASTPATH_MAX_PACKET_SIZE, Stream_New malloc None FASTPATH_MAX_PACKET_SIZE) of
        (Some a, Some b) \<Rightarrow> Some \<lparr>fs = a, encryptionFlags = 0, numberEvents = 0, updateData = b, fragmentation = - 1\<rparr>
      | _ \<Rightarrow> None)"

section \<open>Receiving updates\<close>

definition fastpath_recv_orders :: "'k rdpUpdate \<Rightarrow> 'k pdu_handler" where
  "fastpath_recv_orders u rdp s =
     (if Stream_GetRemainingLength s < 2 then Some ((False, rdp), s)
      else do {
        (numberOrders, s) \<leftarrow> Stream_Read_UINT16 s;
        recv_order_loop u (unat numberOrders) rdp s })"

definition fastpath_recv_update_common :: "allocator \<Rightarrow> 'k rdpUpdate \<Rightarrow> 'k pdu_handler" where
  "fastpath_recv_update_common malloc u rdp s =
     (if Stream_GetRemainingLength s < 2 then Some ((False, rdp), s)
      else do {
        (updateType, s) \<leftarrow> Stream_Read_UINT16 s;
        (if updateType = UPDATE_TYPE_BITMAP then read_and_call (update_read_bitmap_update malloc) (BitmapUpdate u) rdp s
         else if updateType = UPDATE_TYPE_PALETTE then read_and_call (update_read_palette malloc) (Palette u) rdp s
         else Some ((False, rdp), s)) })"

definition fastpath_recv_update_synchronize :: "wStream \<Rightarrow> bool \<times> wStream" where
  "fastpath_recv_update_synchronize s = (True, snd (Stream_SafeSeek s 2))"

text \<open>The switch over the update code, and the status it leads to.\<close>

definition dispatch_fastpath_update :: "allocator \<Rightarrow> 'k rdpUpdate \<Rightarrow> byte \<Rightarrow> 'k pdu_handler" where
  "dispatch_fastpath_update malloc u code rdp s =
     (if code = 0x0 then fastpath_recv_orders u rdp s
      else if code = 0x1 \<or> code = 0x2 then fastpath_recv_update_common malloc u rdp s
      else if code = 0x3 then
        let (ok, s) = fastpath_recv_update_synchronize s in
        if \<not> ok then Some ((False, rdp), s) else Some (if_call_result True (Synchronize u) rdp (), s)
      else if code = 0x4 then do {
        ((status, rdp), s) \<leftarrow> update_recv_surfcmds u rdp s;
        Some ((\<not> status < 0, rdp), s) }
      else if code = 0x5 then Some (if_call_result False (PointerSystem u) rdp SYSPTR_NULL, s)
      else if code = 0x6 then Some (if_call_result False (PointerSystem u) rdp SYSPTR_DEFAULT, s)
      else if code = 0x8 then read_and_call (update_read_pointer_position malloc) (PointerPosition u) rdp s
      else if code = 0x9 then read_and_call (update_read_pointer_color malloc u 24) (PointerColor u) rdp s
      else if code = 0xA then read_and_call (update_read_pointer_cached malloc) (PointerCached u) rdp s
      else if code = 0xB then read_and_call (update_read_pointer_new malloc u) (PointerNew u) rdp s
      else if code = 0xC then read_and_call (update_read_pointer_large malloc) (PointerLarge u) rdp s
      else Some ((False, rdp), s))"

definition fastpath_recv_update :: "allocator \<Rightarrow> 'k rdpUpdate \<Rightarrow> byte \<Rightarrow> 'k int_handler" where
  "fastpath_recv_update malloc u code rdp s = do {
     ((rc, rdp), s) \<leftarrow> dispatch_fastpath_update malloc u code rdp s;
     Some ((if \<not> rc then - 1 else 0, rdp), s) }"

text \<open>Hand the collected data to the update handlers and start over.\<close>

definition deliver_update ::
  "'k fp_env \<Rightarrow> byte \<Rightarrow> rdpFastPath \<Rightarrow> 'k rdpRdp \<Rightarrow> (int \<times> rdpFastPath \<times> 'k rdpRdp) option" where
  "deliver_update env code fp rdp = do {
     let ud = Stream_SetPosition (Stream_SealLength (updateData fp)) 0;
     ((status, rdp), ud) \<leftarrow> fastpath_recv_update (fp_malloc env) (fp_update env) code rdp ud;
     let ud = Stream_SetPosition ud 0;
     Some (if status < 0 then - 1 else status, fp\<lparr>updateData := ud\<rparr>, rdp) }"

text \<open>The state machine of fragments, after the data of a fragment was appended.\<close>

definition reassemble ::
  "'k fp_env \<Rightarrow> byte \<Rightarrow> byte \<Rightarrow> rdpFastPath \<Rightarrow> 'k rdpRdp \<Rightarrow> (int \<times> rdpFastPath \<times> 'k rdpRdp) option" where
  "reassemble env code frag fp rdp =
     (if frag = FASTPATH_FRAGMENT_SINGLE then
        if fragmentation fp \<noteq> - 1 then Some (- 1, fp, rdp) else deliver_update env code fp rdp
      else if Stream_GetPosition (updateData fp) > unat (MultifragMaxRequestSize env) then Some (- 1, fp, rdp)
      else if frag = FASTPATH_FRAGMENT_FIRST then
        if fragmentation fp \<noteq> - 1 then Some (- 1, fp, rdp)
        else Some (0, fp\<lparr>fragmentation := uint FASTPATH_FRAGMENT_FIRST\<rparr>, rdp)
      else if frag = FASTPATH_FRAGMENT_NEXT then
        if fragmentation fp \<noteq> uint FASTPATH_FRAGMENT_FIRST \<and> fragmentation fp \<noteq> uint FASTPATH_FRAGMENT_NEXT
        then Some (- 1, fp, rdp)
        else Some (0, fp\<lparr>fragmentation := uint FASTPATH_FRAGMENT_NEXT\<rparr>, rdp)
      else if frag = FASTPATH_FRAGMENT_LAST then
        if fragmentation fp \<noteq> uint FASTPATH_FRAGMENT_FIRST \<and> fragmentation fp \<noteq> uint FASTPATH_FRAGMENT_NEXT
        then Some (- 1, fp, rdp)
        else deliver_update env code (fp\<lparr>fragmentation := - 1\<rparr>) rdp
      else Some (0, fp, rdp))"

text \<open>The data of one fragment, which is decompressed into the buffer of the update.\<close>

definition append_fragment ::
  "'k fp_env \<Rightarrow> byte \<Rightarrow> byte \<Rightarrow> byte \<Rightarrow> rdpFastPath \<Rightarrow> 'k rdpRdp \<Rightarrow> wStream \<Rightarrow> ((int \<times> rdpFastPath \<times> 'k rdpRdp) \<times> wStream) option" where
  "append_fragment env code frag cflags fp rdp s =
     (if Stream_GetRemainingLength s < 2 then Some ((- 1, fp, rdp), s)
      else do {
        (size, s) \<leftarrow> Stream_Read_UINT16 s;
        (if Stream_GetRemainingLength s < unat size then Some ((- 1, fp, rdp), s)
         else do {
           src \<leftarrow> Stream_Peek s (unat size);
           let (dst, rdp) = fp_decompress env rdp src cflags;
           let s = Stream_Seek s (unat size);
           (case dst of None \<Rightarrow> Some ((- 1, fp, rdp), s)
            | Some pDstData \<Rightarrow> do {
                (ok, ud) \<leftarrow> Stream_EnsureRemainingCapacity (fp_malloc env) (updateData fp) (length pDstData);
                (if \<not> ok then Some ((- 1, fp\<lparr>updateData := ud\<rparr>, rdp), s)
                 else do {
                   ud \<leftarrow> Stream_Write ud pDstData;
                   r \<leftarrow> reassemble env code frag (fp\<lparr>updateData := ud\<rparr>) rdp;
                   Some (r, s) }) }) }) })"

definition fastpath_recv_update_data ::
  "'k fp_env \<Rightarrow> rdpFastPath \<Rightarrow> 'k rdpRdp \<Rightarrow> wStream \<Rightarrow> ((int \<times> rdpFastPath \<times> 'k rdpRdp) \<times> wStream) option" where
  "fastpath_recv_update_data env fp rdp s = do {
     (h, s) \<leftarrow> fastpath_read_update_header s;
     (case h of None \<Rightarrow> Some ((- 1, fp, rdp), s)
      | Some (code, frag, cmpr) \<Rightarrow>
          if cmpr = FASTPATH_OUTPUT_COMPRESSION_USED then
            if Stream_GetRemainingLength s < 1 then Some ((- 1, fp, rdp), s)
            else do {
              (cflags, s) \<leftarrow> Stream_Read_UINT8 s;
              append_fragment env code frag cflags fp rdp s }
          else append_fragment env code frag 0 fp rdp s) }"

text \<open>The loop over the updates of a packet; \<open>None\<close> also when it does not end.\<close>

partial_function (option) updates_loop ::
  "'k fp_env \<Rightarrow> rdpFastPath \<Rightarrow> 'k rdpRdp \<Rightarrow> wStream \<Rightarrow> ((int \<times> rdpFastPath \<times> 'k rdpRdp) \<times> wStream) option" where
  "updates_loop env fp rdp s =
     (if Stream_GetRemainingLength s \<ge> 3 then do {
        ((status, fp, rdp), s) \<leftarrow> fastpath_recv_update_data env fp rdp s;
        (if status < 0 then Some ((- 3, fp, rdp), s) else updates_loop env fp rdp s) }
      else Some ((0, fp, rdp), s))"

declare updates_loop.simps [code]

definition fastpath_recv_updates ::
  "'k fp_env \<Rightarrow> rdpFastPath \<Rightarrow> 'k rdpRdp \<Rightarrow> wStream \<Rightarrow> ((int \<times> rdpFastPath \<times> 'k rdpRdp) \<times> wStream) option" where
  "fastpath_recv_updates env fp rdp s = do {
     let (ok, rdp) = update_begin_paint (fp_update env) rdp;
     ((rc, fp, rdp), s) \<leftarrow> (if \<not> ok then Some ((- 2, fp, rdp), s) else updates_loop env fp rdp s);
     let (ok, rdp) = update_end_paint (fp_update env) rdp;
     Some ((if \<not> ok then - 4 else rc, fp, rdp), s) }"

text \<open>\<open>rdp_recv_fastpath_pdu\<close> and \<open>rdp_recv_pdu\<close> of \<^verbatim>\<open>rdp.c\<close>.\<close>

definition rdp_recv_fastpath_pdu ::
  "'k fp_env \<Rightarrow> rdpFastPath \<Rightarrow> 'k rdpRdp \<Rightarrow> wStream \<Rightarrow> ((int \<times> rdpFastPath \<times> 'k rdpRdp) \<times> wStream) option" where
  "rdp_recv_fastpath_pdu env fp rdp s = do {
     ((len, fp), s) \<leftarrow> fastpath_read_header_rdp fp s;
     (case len of None \<Rightarrow> Some ((- 1, fp, rdp), s)
      | Some len \<Rightarrow>
          if len = 0 \<or> unat len > Stream_GetRemainingLength s then Some ((- 1, fp, rdp), s)
          else do {
            let rdp = (if bandwidthMeasureStarted (r_autodetect rdp)
                       then set_autodetect (\<lambda>a. a\<lparr>bandwidthMeasureByteCount := bandwidthMeasureByteCount a + ucast len\<rparr>) rdp
                       else rdp);
            ((dec, rdp), s) \<leftarrow>
              (if encryptionFlags fp AND FASTPATH_OUTPUT_ENCRYPTED \<noteq> 0 then
                 rdp_decrypt (fp_ops env) rdp s len
                   (if encryptionFlags fp AND FASTPATH_OUTPUT_SECURE_CHECKSUM \<noteq> 0 then ucast SEC_SECURE_CHECKSUM else 0)
               else Some ((Some len, rdp), s));
            (case dec of None \<Rightarrow> Some ((- 1, fp, rdp), s)
             | Some _ \<Rightarrow> fastpath_recv_updates env fp rdp s) }) }"

definition rdp_recv_pdu ::
  "'k env \<Rightarrow> 'k handlers \<Rightarrow> 'k fp_env \<Rightarrow> rdpFastPath \<Rightarrow> 'k rdpRdp \<Rightarrow> wStream \<Rightarrow> ((int \<times> rdpFastPath \<times> 'k rdpRdp \<times> wStream option) \<times> wStream) option" where
  "rdp_recv_pdu e h env fp rdp s = do {
     slow \<leftarrow> tpkt_verify_header s;
     (if slow then do {
        ((rc, rdp, answer), s) \<leftarrow> rdp_recv_tpkt_pdu e h rdp s;
        Some ((rc, fp, rdp, answer), s) }
      else do {
        ((rc, fp, rdp), s) \<leftarrow> rdp_recv_fastpath_pdu env fp rdp s;
        Some ((rc, fp, rdp, None), s) }) }"

section \<open>Receiving input\<close>

definition FASTPATH_INPUT_KBDFLAGS_RELEASE :: byte where "FASTPATH_INPUT_KBDFLAGS_RELEASE = 0x01"
definition FASTPATH_INPUT_KBDFLAGS_EXTENDED :: byte where "FASTPATH_INPUT_KBDFLAGS_EXTENDED = 0x02"
definition FASTPATH_INPUT_KBDFLAGS_PREFIX_E1 :: byte where "FASTPATH_INPUT_KBDFLAGS_PREFIX_E1 = 0x04"
definition FASTPATH_INPUT_EVENT_SCANCODE :: byte where "FASTPATH_INPUT_EVENT_SCANCODE = 0"
definition FASTPATH_INPUT_EVENT_MOUSE :: byte where "FASTPATH_INPUT_EVENT_MOUSE = 1"
definition FASTPATH_INPUT_EVENT_MOUSEX :: byte where "FASTPATH_INPUT_EVENT_MOUSEX = 2"
definition FASTPATH_INPUT_EVENT_SYNC :: byte where "FASTPATH_INPUT_EVENT_SYNC = 3"
definition FASTPATH_INPUT_EVENT_UNICODE :: byte where "FASTPATH_INPUT_EVENT_UNICODE = 4"
definition KBD_FLAGS_EXTENDED :: u16 where "KBD_FLAGS_EXTENDED = 0x0100"
definition KBD_FLAGS_EXTENDED1 :: u16 where "KBD_FLAGS_EXTENDED1 = 0x0200"
definition KBD_FLAGS_DOWN :: u16 where "KBD_FLAGS_DOWN = 0x4000"
definition KBD_FLAGS_RELEASE :: u16 where "KBD_FLAGS_RELEASE = 0x8000"

definition fastpath_read_input_event_header :: "wStream \<Rightarrow> ((byte \<times> byte) option \<times> wStream) option" where
  "fastpath_read_input_event_header s =
     (if Stream_GetRemainingLength s < 1 then Some (None, s)
      else do {
        (h, s) \<leftarrow> Stream_Read_UINT8 s;
        Some (Some (h AND 0x1F, drop_bit 5 h), s) })"

definition release_flag :: "byte \<Rightarrow> u16" where
  "release_flag ef = (if ef AND FASTPATH_INPUT_KBDFLAGS_RELEASE \<noteq> 0 then KBD_FLAGS_RELEASE else KBD_FLAGS_DOWN)"

definition fastpath_recv_input_event_scancode :: "'k rdpInput \<Rightarrow> byte \<Rightarrow> 'k pdu_handler" where
  "fastpath_recv_input_event_scancode i ef rdp s =
     (if Stream_GetRemainingLength s < 1 then Some ((False, rdp), s)
      else do {
        (code, s) \<leftarrow> Stream_Read_UINT8 s;
        let flags = release_flag ef;
        let flags = (if ef AND FASTPATH_INPUT_KBDFLAGS_EXTENDED \<noteq> 0 then flags OR KBD_FLAGS_EXTENDED else flags);
        let flags = (if ef AND FASTPATH_INPUT_KBDFLAGS_PREFIX_E1 \<noteq> 0 then flags OR KBD_FLAGS_EXTENDED1 else flags);
        Some (if_call_result True (KeyboardEvent i) rdp (flags, ucast code), s) })"

definition fastpath_recv_input_event_mouse :: "'k rdpInput \<Rightarrow> 'k pdu_handler" where
  "fastpath_recv_input_event_mouse i rdp s =
     (if Stream_GetRemainingLength s < 6 then Some ((False, rdp), s)
      else do {
        (flags, s) \<leftarrow> Stream_Read_UINT16 s;
        (x, s) \<leftarrow> Stream_Read_UINT16 s;
        (y, s) \<leftarrow> Stream_Read_UINT16 s;
        Some (if_call_result True (MouseEvent i) rdp (flags, x, y), s) })"

definition fastpath_recv_input_event_mousex :: "'k rdpInput \<Rightarrow> 'k pdu_handler" where
  "fastpath_recv_input_event_mousex i rdp s =
     (if Stream_GetRemainingLength s < 6 then Some ((False, rdp), s)
      else do {
        (flags, s) \<leftarrow> Stream_Read_UINT16 s;
        (x, s) \<leftarrow> Stream_Read_UINT16 s;
        (y, s) \<leftarrow> Stream_Read_UINT16 s;
        Some (if_call_result True (ExtendedMouseEvent i) rdp (flags, x, y), s) })"

definition fastpath_recv_input_event_sync :: "'k rdpInput \<Rightarrow> byte \<Rightarrow> 'k pdu_handler" where
  "fastpath_recv_input_event_sync i ef rdp s = Some (if_call_result True (SynchronizeEvent i) rdp (ucast ef), s)"

definition fastpath_recv_input_event_unicode :: "'k rdpInput \<Rightarrow> byte \<Rightarrow> 'k pdu_handler" where
  "fastpath_recv_input_event_unicode i ef rdp s =
     (if Stream_GetRemainingLength s < 2 then Some ((False, rdp), s)
      else do {
        (code, s) \<leftarrow> Stream_Read_UINT16 s;
        Some (if_call_result False (UnicodeKeyboardEvent i) rdp (release_flag ef, code), s) })"

text \<open>An event of unknown code has no body here: the bytes behind it are read as the next event.\<close>

definition fastpath_recv_input_event :: "'k rdpInput \<Rightarrow> 'k pdu_handler" where
  "fastpath_recv_input_event i rdp s = do {
     (h, s) \<leftarrow> fastpath_read_input_event_header s;
     (case h of None \<Rightarrow> Some ((False, rdp), s)
      | Some (ef, ec) \<Rightarrow>
          if ec = FASTPATH_INPUT_EVENT_SCANCODE then fastpath_recv_input_event_scancode i ef rdp s
          else if ec = FASTPATH_INPUT_EVENT_MOUSE then fastpath_recv_input_event_mouse i rdp s
          else if ec = FASTPATH_INPUT_EVENT_MOUSEX then fastpath_recv_input_event_mousex i rdp s
          else if ec = FASTPATH_INPUT_EVENT_SYNC then fastpath_recv_input_event_sync i ef rdp s
          else if ec = FASTPATH_INPUT_EVENT_UNICODE then fastpath_recv_input_event_unicode i ef rdp s
          else Some ((True, rdp), s)) }"

fun input_event_loop :: "'k rdpInput \<Rightarrow> nat \<Rightarrow> 'k pdu_handler" where
  "input_event_loop i 0 rdp s = Some ((True, rdp), s)"
| "input_event_loop i (Suc n) rdp s = do {
     ((ok, rdp), s) \<leftarrow> fastpath_recv_input_event i rdp s;
     (if \<not> ok then Some ((False, rdp), s) else input_event_loop i n rdp s) }"

definition fastpath_recv_inputs ::
  "'k rdpInput \<Rightarrow> rdpFastPath \<Rightarrow> 'k rdpRdp \<Rightarrow> wStream \<Rightarrow> ((int \<times> rdpFastPath \<times> 'k rdpRdp) \<times> wStream) option" where
  "fastpath_recv_inputs i fp rdp s = do {
     (fp', s) \<leftarrow>
       (if numberEvents fp = 0 then
          if Stream_GetRemainingLength s < 1 then Some (None, s)
          else do { (n, s) \<leftarrow> Stream_Read_UINT8 s; Some (Some (fp\<lparr>numberEvents := n\<rparr>), s) }
        else Some (Some fp, s));
     (case fp' of None \<Rightarrow> Some ((- 1, fp, rdp), s)
      | Some fp \<Rightarrow> do {
          ((ok, rdp), s) \<leftarrow> input_event_loop i (unat (numberEvents fp)) rdp s;
          Some ((if ok then 0 else - 1, fp, rdp), s) }) }"

section \<open>Sending updates\<close>

definition fastpath_get_sec_bytes :: "'k rdpRdp \<Rightarrow> nat" where
  "fastpath_get_sec_bytes rdp =
     (if do_crypt rdp then if EncryptionMethods rdp = ENCRYPTION_METHOD_FIPS then 8 + 4 else 8 else 0)"

definition set_sec_flags :: "'k rdpRdp \<Rightarrow> 'k rdpRdp" where
  "set_sec_flags rdp =
     (if do_crypt rdp then
        let rdp = rdp\<lparr>sec_flags := sec_flags rdp OR SEC_ENCRYPT\<rparr>
        in if do_secure_checksum rdp then rdp\<lparr>sec_flags := sec_flags rdp OR SEC_SECURE_CHECKSUM\<rparr> else rdp
      else rdp)"

definition fastpath_update_pdu_init :: "'k fp_env \<Rightarrow> wStream option option" where
  "fastpath_update_pdu_init env = transport_send_stream_init (fp_malloc env) (fp_pool env) FASTPATH_MAX_PACKET_SIZE"

definition fastpath_update_pdu_init_new :: "'k fp_env \<Rightarrow> wStream option" where
  "fastpath_update_pdu_init_new env = Stream_New (fp_malloc env) None FASTPATH_MAX_PACKET_SIZE"

text \<open>The largest payload of a fragment, in 16 bits.\<close>

definition max_fragment :: "'k fp_env \<Rightarrow> bool \<Rightarrow> u16" where
  "max_fragment env skip =
     (let maxLength = word_of_nat (FASTPATH_MAX_PACKET_SIZE - 20) :: u16 in
      if CompressionEnabled env \<and> \<not> skip then
        let maxLength = (if ucast maxLength < fp_compression_max_size env then maxLength else ucast (fp_compression_max_size env))
        in maxLength - 20
      else maxLength)"

text \<open>The payload of a fragment, compressed if that was possible, with its flags.\<close>

definition fragment_payload ::
  "'k fp_env \<Rightarrow> bool \<Rightarrow> 'k rdpRdp \<Rightarrow> byte list \<Rightarrow> (byte list \<times> byte \<times> byte) \<times> 'k rdpRdp" where
  "fragment_payload env skip rdp src =
     (if CompressionEnabled env \<and> \<not> skip then
        let (r, rdp) = fp_compress env rdp src in
        case r of
          Some (dst, cflags) \<Rightarrow>
            if cflags \<noteq> 0 then ((dst, ucast cflags, FASTPATH_OUTPUT_COMPRESSION_USED), rdp) else ((src, 0, 0), rdp)
        | None \<Rightarrow> ((src, 0, 0), rdp)
      else ((src, 0, 0), rdp))"

definition output_sec_flags :: "'k rdpRdp \<Rightarrow> byte" where
  "output_sec_flags rdp =
     (if sec_flags rdp AND SEC_ENCRYPT \<noteq> 0 then FASTPATH_OUTPUT_ENCRYPTED else 0) OR
     (if sec_flags rdp AND SEC_SECURE_CHECKSUM \<noteq> 0 then FASTPATH_OUTPUT_SECURE_CHECKSUM else 0)"

definition fips_pad :: "nat \<Rightarrow> nat" where
  "fips_pad n = (let pad = 8 - n mod 8 in if pad = 8 then 0 else pad)"

text \<open>
  Sign and encrypt the \<open>dataSize\<close> bytes before the pointer; the signature goes behind the header. For FIPS the
  padding is not signed, and a failure of the cipher is not noticed.
\<close>

definition encrypt_fragment ::
  "'k security_ops \<Rightarrow> 'k rdpRdp \<Rightarrow> wStream \<Rightarrow> nat \<Rightarrow> nat \<Rightarrow> ((bool \<times> 'k rdpRdp) \<times> wStream) option" where
  "encrypt_fragment ops rdp f dataSize pad = do {
     let data = Stream_GetPosition f - dataSize;
     (if EncryptionMethods rdp = ENCRYPTION_METHOD_FIPS then do {
        body \<leftarrow> mem_read (s_buffer f) data (dataSize - pad);
        let (sig, k) = security_hmac_signature ops (r_keys rdp) body;
        let rdp = rdp\<lparr>r_keys := k\<rparr>;
        (case sig of None \<Rightarrow> Some ((False, rdp), f)
         | Some sig \<Rightarrow> do {
             f \<leftarrow> write_at f 7 sig;
             body \<leftarrow> mem_read (s_buffer f) data dataSize;
             let (enc, k) = security_fips_encrypt ops (r_keys rdp) body;
             f \<leftarrow> (case enc of None \<Rightarrow> Some f | Some enc \<Rightarrow> write_at f data enc);
             Some ((True, rdp\<lparr>r_keys := k\<rparr>), f) }) }
      else do {
        body \<leftarrow> mem_read (s_buffer f) data dataSize;
        let (sig, k) = (if sec_flags rdp AND SEC_SECURE_CHECKSUM \<noteq> 0
                        then security_salted_mac_signature ops (r_keys rdp) body True
                        else security_mac_signature ops (r_keys rdp) body);
        let rdp = rdp\<lparr>r_keys := k\<rparr>;
        (case sig of None \<Rightarrow> Some ((False, rdp), f)
         | Some sig \<Rightarrow> do {
             f \<leftarrow> write_at f 3 sig;
             body \<leftarrow> mem_read (s_buffer f) data dataSize;
             let (enc, k) = security_encrypt ops (r_keys rdp) body;
             let rdp = rdp\<lparr>r_keys := k\<rparr>;
             (case enc of None \<Rightarrow> Some ((False, rdp), f)
              | Some enc \<Rightarrow> do { f \<leftarrow> write_at f data enc; Some ((True, rdp), f) }) }) }) }"

text \<open>The headers of a fragment: \<open>pdu_length\<close> counts headers, payload and padding.\<close>

definition fragment_pad :: "'k rdpRdp \<Rightarrow> nat \<Rightarrow> nat" where
  "fragment_pad rdp n =
     (if sec_flags rdp AND SEC_ENCRYPT \<noteq> 0 \<and> EncryptionMethods rdp = ENCRYPTION_METHOD_FIPS then fips_pad n else 0)"

definition fragment_pdu_header :: "'k rdpRdp \<Rightarrow> FASTPATH_UPDATE_HEADER \<Rightarrow> nat \<Rightarrow> FASTPATH_UPDATE_PDU_HEADER" where
  "fragment_pdu_header rdp uh pad =
     (let ph = \<lparr>fipsInformation = (if sec_flags rdp AND SEC_ENCRYPT \<noteq> 0 \<and> EncryptionMethods rdp = ENCRYPTION_METHOD_FIPS
                                   then [0x10, 0x00, 0x01, word_of_nat pad] else [0, 0, 0, 0]),
                dataSignature = replicate 8 0, action = 0, secFlags = output_sec_flags rdp, pdu_length = 0\<rparr>;
          fpHeaderSize = fastpath_get_update_header_size uh + fastpath_get_update_pdu_header_size ph rdp
      in ph\<lparr>pdu_length := fp_size uh + word_of_nat fpHeaderSize + word_of_nat pad\<rparr>)"

text \<open>One fragment with payload \<open>src\<close>, written to \<open>f\<close> from its start.\<close>

definition build_fragment ::
  "'k fp_env \<Rightarrow> bool \<Rightarrow> byte \<Rightarrow> byte \<Rightarrow> 'k rdpRdp \<Rightarrow> byte list \<Rightarrow> wStream \<Rightarrow> ((bool \<times> 'k rdpRdp) \<times> wStream) option" where
  "build_fragment env skip code frag rdp src f = do {
     let ((dst, cflags, cmpr), rdp) = fragment_payload env skip rdp src;
     let uh = \<lparr>compressionFlags = cflags, fp_size = word_of_nat (length dst), updateCode = code, uh_fragmentation = frag,
               compression = cmpr\<rparr>;
     let uhSize = fastpath_get_update_header_size uh;
     let pad = fragment_pad rdp (length dst + uhSize);
     let f = Stream_SetPosition f 0;
     (_, f) \<leftarrow> fastpath_write_update_pdu_header f (fragment_pdu_header rdp uh pad) rdp;
     (_, f) \<leftarrow> fastpath_write_update_header f uh;
     f \<leftarrow> Stream_Write f dst;
     f \<leftarrow> (if pad \<noteq> 0 then Stream_Zero f pad else Some f);
     (if sec_flags rdp AND SEC_ENCRYPT \<noteq> 0 then encrypt_fragment (fp_ops env) rdp f (uhSize + length dst + pad) pad
      else Some ((True, rdp), f)) }"

definition fragment_kind :: "nat \<Rightarrow> u32 \<Rightarrow> byte" where
  "fragment_kind n remaining =
     (if remaining = 0 then if n = 0 then FASTPATH_FRAGMENT_SINGLE else FASTPATH_FRAGMENT_LAST
      else if n = 0 then FASTPATH_FRAGMENT_FIRST else FASTPATH_FRAGMENT_NEXT)"

text \<open>
  The loop over the fragments: the result is the status, or \<open>None\<close> for the early return after a failed
  signature or encryption. It is \<open>None\<close> as a whole also when the loop does not end.
\<close>

partial_function (option) fragment_loop ::
  "'k fp_env \<Rightarrow> bool \<Rightarrow> byte \<Rightarrow> u16 \<Rightarrow> nat \<Rightarrow> u32 \<Rightarrow> rdpFastPath \<Rightarrow> 'k rdpRdp \<Rightarrow> wStream \<Rightarrow> wStream list \<Rightarrow>
   ((bool option \<times> rdpFastPath \<times> 'k rdpRdp \<times> wStream list) \<times> wStream) option" where
  "fragment_loop env skip code maxLength n totalLength fp rdp s outs =
     (if totalLength > 0 \<or> n = 0 then do {
        let size = (if totalLength > ucast maxLength then maxLength else ucast totalLength);
        src \<leftarrow> Stream_Peek s (unat size);
        let totalLength = totalLength - ucast size;
        ((ok, rdp), f) \<leftarrow> build_fragment env skip code (fragment_kind n totalLength) rdp src (fs fp);
        (if \<not> ok then Some ((None, fp\<lparr>fs := f\<rparr>, rdp, outs), s)
         else do {
           let f = Stream_SealLength f;
           let fp = fp\<lparr>fs := f\<rparr>;
           (if fp_write env f < 0 then Some ((Some False, fp, rdp, outs @ [f]), s)
            else fragment_loop env skip code maxLength (n + 1) totalLength fp rdp (Stream_Seek s (unat size)) (outs @ [f])) }) }
      else Some ((Some True, fp, rdp, outs), s))"

declare fragment_loop.simps [code]

definition fastpath_send_update_pdu ::
  "'k fp_env \<Rightarrow> rdpFastPath \<Rightarrow> 'k rdpRdp \<Rightarrow> byte \<Rightarrow> wStream \<Rightarrow> bool \<Rightarrow> ((bool \<times> rdpFastPath \<times> 'k rdpRdp \<times> wStream list) \<times> wStream) option" where
  "fastpath_send_update_pdu env fp rdp code s skip = do {
     let maxLength = max_fragment env skip;
     let totalLength = (word_of_nat (Stream_GetPosition s) :: u32);
     let s = Stream_SetPosition s 0;
     (if \<not> FastPathOutput env then Some ((False, fp, rdp, []), s)
      else if totalLength > MultifragMaxRequestSize env then Some ((False, fp, rdp, []), s)
      else do {
        ((status, fp, rdp, outs), s) \<leftarrow> fragment_loop env skip code maxLength 0 totalLength fp (set_sec_flags rdp) s [];
        (case status of None \<Rightarrow> Some ((False, fp, rdp, outs), s)
         | Some status \<Rightarrow> Some ((status, fp, rdp\<lparr>sec_flags := 0\<rparr>, outs), s)) }) }"

section \<open>Sending input\<close>

definition fastpath_input_pdu_init_header :: "'k fp_env \<Rightarrow> 'k rdpRdp \<Rightarrow> (wStream option \<times> 'k rdpRdp) option" where
  "fastpath_input_pdu_init_header env rdp = do {
     r \<leftarrow> transport_send_stream_init (fp_malloc env) (fp_pool env) 256;
     (case r of None \<Rightarrow> Some (None, rdp)
      | Some s \<Rightarrow>
          let s = Stream_Seek s 3;
              rdp = set_sec_flags rdp
          in Some (Some (Stream_Seek s (fastpath_get_sec_bytes rdp)), rdp)) }"

definition fastpath_input_pdu_init :: "'k fp_env \<Rightarrow> 'k rdpRdp \<Rightarrow> byte \<Rightarrow> byte \<Rightarrow> (wStream option \<times> 'k rdpRdp) option" where
  "fastpath_input_pdu_init env rdp eventFlags eventCode = do {
     (r, rdp) \<leftarrow> fastpath_input_pdu_init_header env rdp;
     (case r of None \<Rightarrow> Some (None, rdp)
      | Some s \<Rightarrow> do {
          s \<leftarrow> Stream_Write_UINT8 s (eventFlags OR push_bit 5 eventCode);
          Some (Some s, rdp) }) }"

text \<open>
  Sign and encrypt the \<open>n\<close> bytes of events at offset \<open>ev\<close>; the pointer is behind the three bytes of the header. The
  second component of the result is the padding.
\<close>

definition encrypt_input ::
  "'k security_ops \<Rightarrow> 'k rdpRdp \<Rightarrow> wStream \<Rightarrow> nat \<Rightarrow> nat \<Rightarrow> ((bool \<times> nat \<times> 'k rdpRdp) \<times> wStream) option" where
  "encrypt_input ops rdp s ev n =
     (if EncryptionMethods rdp = ENCRYPTION_METHOD_FIPS then do {
        let pad = fips_pad n;
        s \<leftarrow> Stream_Write_UINT16 s 0x10;
        s \<leftarrow> Stream_Write_UINT8 s 0x1;
        s \<leftarrow> Stream_Write_UINT8 s (word_of_nat pad);
        body \<leftarrow> mem_read (s_buffer s) ev n;
        let (sig, k) = security_hmac_signature ops (r_keys rdp) body;
        let rdp = rdp\<lparr>r_keys := k\<rparr>;
        (case sig of None \<Rightarrow> Some ((False, pad, rdp), s)
         | Some sig \<Rightarrow> do {
             s \<leftarrow> write_at s (Stream_GetPosition s) sig;
             s \<leftarrow> (if pad \<noteq> 0 then write_at s (ev + n) (replicate pad 0) else Some s);
             body \<leftarrow> mem_read (s_buffer s) ev (n + pad);
             let (enc, k) = security_fips_encrypt ops (r_keys rdp) body;
             let rdp = rdp\<lparr>r_keys := k\<rparr>;
             (case enc of None \<Rightarrow> Some ((False, pad, rdp), s)
              | Some enc \<Rightarrow> do { s \<leftarrow> write_at s ev enc; Some ((True, pad, rdp), s) }) }) }
      else do {
        body \<leftarrow> mem_read (s_buffer s) ev n;
        let (sig, k) = (if sec_flags rdp AND SEC_SECURE_CHECKSUM \<noteq> 0
                        then security_salted_mac_signature ops (r_keys rdp) body True
                        else security_mac_signature ops (r_keys rdp) body);
        let rdp = rdp\<lparr>r_keys := k\<rparr>;
        (case sig of None \<Rightarrow> Some ((False, 0, rdp), s)
         | Some sig \<Rightarrow> do {
             s \<leftarrow> write_at s (Stream_GetPosition s) sig;
             body \<leftarrow> mem_read (s_buffer s) ev n;
             let (enc, k) = security_encrypt ops (r_keys rdp) body;
             let rdp = rdp\<lparr>r_keys := k\<rparr>;
             (case enc of None \<Rightarrow> Some ((False, 0, rdp), s)
              | Some enc \<Rightarrow> do { s \<leftarrow> write_at s ev enc; Some ((True, 0, rdp), s) }) }) })"

definition input_header :: "'k rdpRdp \<Rightarrow> nat \<Rightarrow> byte" where
  "input_header rdp n =
     push_bit 2 (word_of_nat n) OR
     (if sec_flags rdp AND SEC_ENCRYPT \<noteq> 0 then push_bit 6 2 else 0) OR
     (if sec_flags rdp AND SEC_SECURE_CHECKSUM \<noteq> 0 then push_bit 6 1 else 0)"

definition fastpath_send_multiple_input_pdu :: "'k fp_env \<Rightarrow> 'k rdpRdp \<Rightarrow> wStream \<Rightarrow> nat \<Rightarrow> 'k sender_result" where
  "fastpath_send_multiple_input_pdu env rdp s iNumEvents = do {
     let len = (word_of_nat (Stream_GetPosition s) :: u16);
     (if fp_state env \<noteq> CONNECTION_STATE_ACTIVE \<or> iNumEvents > 15 \<or> len \<ge> push_bit 14 2 then Some (False, rdp, None)
      else do {
        let s = Stream_SetPosition s 0;
        s \<leftarrow> Stream_Write_UINT8 s (input_header rdp iNumEvents);
        let s = Stream_Seek s 2;
        ((ok, pad, rdp), s) \<leftarrow>
          (if sec_flags rdp AND SEC_ENCRYPT \<noteq> 0 then
             let sec_bytes = fastpath_get_sec_bytes rdp;
                 n = len - 3 - word_of_nat sec_bytes
             in encrypt_input (fp_ops env) rdp s (Stream_GetPosition s + sec_bytes) (unat n)
           else Some ((True, 0, rdp), s));
        (if \<not> ok then Some (False, rdp, None)
         else do {
           let len = len + word_of_nat pad;
           let rdp = rdp\<lparr>sec_flags := 0\<rparr>;
           let s = Stream_SetPosition s 1;
           s \<leftarrow> Stream_Write_UINT16_BE s (0x8000 OR len);
           let s = Stream_SealLength (Stream_SetPosition s (unat len));
           Some (\<not> fp_write env s < 0, rdp, Some s) }) }) }"

definition fastpath_send_input_pdu :: "'k fp_env \<Rightarrow> 'k rdpRdp \<Rightarrow> wStream \<Rightarrow> 'k sender_result" where
  "fastpath_send_input_pdu env rdp s = fastpath_send_multiple_input_pdu env rdp s 1"

end
