(* ===== verification/Fastpath_Recv.thy ===== *)
theory Fastpath_Recv
  imports Fastpath
begin

text \<open>
  The receivers of the fast path on arbitrary packets. The invariant \<open>fp_ok\<close> of the reassembly state says that the
  buffer of the update can grow, holds no more than the client announced, and is empty between updates. Every packet
  is handled without a fault, and unless it is refused the invariant holds again: for packets without drawing orders
  as it stands, for others relative to the order parser, which is an argument of the model.
\<close>

section \<open>Updates\<close>

lemma safe_fastpath_orders:
  assumes "\<And>rdp. safe_reader (update_recv_order u rdp)"
  shows "safe_reader (fastpath_recv_orders u rdp)"
proof (rule safe_readerI)
  fix s assume w: "wf_stream s"
  note h = safe_after [OF recv_order_loop_safe w, of u, OF assms]
  show "run_ok (fastpath_recv_orders u rdp s) (\<lambda>_. consumed s)"
    using w by (simp add: fastpath_recv_orders_def wire_simps h)
qed

lemma safe_fastpath_common: "safe_reader (fastpath_recv_update_common malloc u rdp)"
proof (rule safe_readerI)
  fix s assume w: "wf_stream s"
  note h = safe_after [OF safe_read_and_call w]
  show "run_ok (fastpath_recv_update_common malloc u rdp s) (\<lambda>_. consumed s)"
    using w by (simp add: fastpath_recv_update_common_def wire_simps h safe_read_bitmap_update safe_read_palette)
qed

lemma safe_surfcmds: "safe_reader (update_recv_surfcmds u rdp)"
proof (rule safe_readerI)
  fix s assume "wf_stream s"
  then show "run_ok (update_recv_surfcmds u rdp s) (\<lambda>_. consumed s)"
    using surfcmds_returns [of s u rdp] by (auto simp: run_ok_def)
qed

lemma safe_fastpath_update:
  assumes "code \<noteq> 0 \<or> (\<forall>rdp. safe_reader (update_recv_order u rdp))"
  shows "safe_reader (fastpath_recv_update malloc u code rdp)"
proof -
  have y: "safe_reader (\<lambda>s. let (ok, s) = fastpath_recv_update_synchronize s in
      if \<not> ok then Some ((False, rdp), s) else Some (if_call_result True (Synchronize u) rdp (), s))"
    by (rule safe_readerI) (simp add: fastpath_recv_update_synchronize_def wire_simps Let_def)
  have c: "safe_reader (\<lambda>s. do { (r, s) \<leftarrow> update_recv_surfcmds u rdp s; Some ((\<not> fst r < 0, snd r), s) })"
    by (intro safe_bind safe_surfcmds safe_return)
  have o: "code \<noteq> 0 \<or> safe_reader (fastpath_recv_orders u rdp)" using assms safe_fastpath_orders by blast
  have if_skip: "(b \<noteq> 0 \<or> safe_reader f) \<Longrightarrow> safe_reader g \<Longrightarrow> safe_reader (\<lambda>s. if b = 0 then f s else g s)"
    for b :: byte and f g :: "wStream \<Rightarrow> ((bool \<times> 'a rdpRdp) \<times> wStream) option" by auto
  have "safe_reader (dispatch_fastpath_update malloc u code rdp)"
    unfolding dispatch_fastpath_update_def [abs_def]
    by (intro if_skip [OF o] safe_if safe_return safe_read_and_call safe_fastpath_common y safe_read_pointers)
      (use c in \<open>simp add: case_prod_unfold\<close>)
  then have "safe_reader (\<lambda>s. do { (r, s) \<leftarrow> dispatch_fastpath_update malloc u code rdp s; Some ((if \<not> fst r then - 1 else 0, snd r), s) })"
    by (intro safe_bind safe_return)
  then show ?thesis by (simp add: fastpath_recv_update_def [abs_def] case_prod_unfold)
qed

section \<open>Reassembly\<close>

definition fp_ok :: "'k fp_env \<Rightarrow> rdpFastPath \<Rightarrow> bool" where
  "fp_ok env fp \<longleftrightarrow> growable (updateData fp) \<and> Stream_GetPosition (updateData fp) \<le> unat (MultifragMaxRequestSize env) \<and>
     (fragmentation fp = - 1 \<and> Stream_GetPosition (updateData fp) = 0 \<or>
      fragmentation fp = uint FASTPATH_FRAGMENT_FIRST \<or> fragmentation fp = uint FASTPATH_FRAGMENT_NEXT)"

text \<open>What the allocator and the decompressor promise: fresh blocks, and 32-bit sizes of decompressed data.\<close>

definition fp_host_ok :: "'k fp_env \<Rightarrow> bool" where
  "fp_host_ok env \<longleftrightarrow> malloc_ok (fp_malloc env) \<and>
     (\<forall>rdp src f dst rdp'. length src < 2 ^ 16 \<longrightarrow> fp_decompress env rdp src f = (Some dst, rdp') \<longrightarrow> length dst < 2 ^ 32)"

text \<open>Handling an update of a code relies on the parser of drawing orders only for code 0.\<close>

definition code_covered :: "'k fp_env \<Rightarrow> byte \<Rightarrow> bool" where
  "code_covered env code \<longleftrightarrow> code \<noteq> 0 \<or> (\<forall>rdp. safe_reader (update_recv_order (fp_update env) rdp))"

text \<open>Both together, for the results that are relative to the parser.\<close>

definition fp_env_ok :: "'k fp_env \<Rightarrow> bool" where
  "fp_env_ok env \<longleftrightarrow> malloc_ok (fp_malloc env) \<and> (\<forall>rdp. safe_reader (update_recv_order (fp_update env) rdp)) \<and>
     (\<forall>rdp src f dst rdp'. length src < 2 ^ 16 \<longrightarrow> fp_decompress env rdp src f = (Some dst, rdp') \<longrightarrow> length dst < 2 ^ 32)"

lemma fp_env_okD: "fp_env_ok env \<Longrightarrow> fp_host_ok env" "fp_env_ok env \<Longrightarrow> code_covered env code"
  unfolding fp_env_ok_def fp_host_ok_def code_covered_def by blast+

text \<open>
  The bytes of the updates of a packet hold no update of code 0, the drawing orders: \<open>update_bytes\<close> is the
  number of bytes of the first update, with its header, compression flags, size and data.
\<close>

definition update_bytes :: "byte list \<Rightarrow> nat" where
  "update_bytes bs =
     (let k = (if drop_bit 6 (bs ! 0) AND 3 = FASTPATH_OUTPUT_COMPRESSION_USED then 2 else 1)
      in k + 2 + unat (get16 (drop k bs)))"

lemma update_bytes_pos: "0 < update_bytes bs"
  by (simp add: update_bytes_def Let_def)

function orders_free :: "byte list \<Rightarrow> bool" where
  "orders_free bs \<longleftrightarrow>
     (if length bs < 3 then True else bs ! 0 AND 0x0F \<noteq> 0 \<and> orders_free (drop (update_bytes bs) bs))"
  by pat_completeness auto
termination by (relation "measure length") (use update_bytes_pos in \<open>auto intro!: diff_less\<close>)

declare orders_free.simps [simp del]

lemma orders_free_step:
  "length bs < 3 \<Longrightarrow> orders_free bs"
  "3 \<le> length bs \<Longrightarrow> orders_free bs \<longleftrightarrow> bs ! 0 AND 0x0F \<noteq> 0 \<and> orders_free (drop (update_bytes bs) bs)"
  by (subst orders_free.simps, simp)+

definition fp_outcome :: "'k fp_env \<Rightarrow> int \<times> rdpFastPath \<times> 'k rdpRdp \<Rightarrow> bool" where
  "fp_outcome env r \<longleftrightarrow> (case r of (rc, fp, rdp) \<Rightarrow> growable (updateData fp) \<and> (0 \<le> rc \<longrightarrow> fp_ok env fp))"

lemma deliver_update_run:
  assumes "code_covered env code" "growable (updateData fp)"
  shows "\<exists>rc ud rdp'. deliver_update env code fp rdp = Some (rc, fp\<lparr>updateData := ud\<rparr>, rdp') \<and> growable ud \<and> Stream_GetPosition ud = 0"
proof -
  let ?v = "rewound (updateData fp) 0"
  have w: "wf_stream ?v" using assms(2) by (simp add: wf_rewound growable_def)
  have o: "code \<noteq> 0 \<or> (\<forall>rdp. safe_reader (update_recv_order (fp_update env) rdp))" using assms(1) by (simp add: code_covered_def)
  obtain rc rdp' v where v: "fastpath_recv_update (fp_malloc env) (fp_update env) code rdp ?v = Some ((rc, rdp'), v)" "consumed ?v v"
    using safe_readerD [OF safe_fastpath_update [OF o] w, of "fp_malloc env" rdp] by (auto simp: run_ok_iff)
  have "growable (Stream_SetPosition v 0)" using v(2) assms(2)
    by (auto simp: consumed_def growable_def rewound_def Stream_SetPosition_def Stream_SealLength_def wf_cap_def)
  then show ?thesis using v(1)
    by (auto simp: deliver_update_def rewound_def Let_def Stream_GetPosition_def Stream_SetPosition_def)
qed

lemma reassemble_run:
  assumes "code_covered env code" "growable ud"
    "fragmentation fp = - 1 \<or> fragmentation fp = uint FASTPATH_FRAGMENT_FIRST \<or> fragmentation fp = uint FASTPATH_FRAGMENT_NEXT"
    "frag = drop_bit 4 b AND 3"
  shows "\<exists>r. reassemble env code frag (fp\<lparr>updateData := ud\<rparr>) rdp = Some r \<and> fp_outcome env r"
proof -
  have d: "\<exists>r. deliver_update env code (fp\<lparr>updateData := ud, fragmentation := - 1\<rparr>) rdp = Some r \<and> fp_outcome env r"
    using deliver_update_run [OF assms(1), of "fp\<lparr>updateData := ud, fragmentation := - 1\<rparr>" rdp] assms(2)
    by (auto simp: fp_outcome_def fp_ok_def)
  then have s: "fragmentation fp = - 1 \<Longrightarrow> \<exists>r. deliver_update env code (fp\<lparr>updateData := ud\<rparr>) rdp = Some r \<and> fp_outcome env r"
    by (cases fp) simp
  consider "frag = 0" | "frag = 1" | "frag = 2" | "frag = 3"
  proof -
    have "frag \<le> 3" unfolding assms(4) by (simp add: word_and_le1)
    then have "unat frag \<le> 3" using word_le_nat_alt [of frag 3] by simp
    then have "unat frag = 0 \<or> unat frag = 1 \<or> unat frag = 2 \<or> unat frag = 3" by arith
    then show ?thesis using that by (auto simp: word_unat_eq_iff)
  qed
  then show ?thesis
  proof cases
    case 1 then show ?thesis using s assms(2) by (simp add: reassemble_def FASTPATH_FRAGMENT_SINGLE_def fp_outcome_def)
  next
    case 2 then show ?thesis using d assms(2)
      by (simp add: reassemble_def FASTPATH_FRAGMENT_SINGLE_def FASTPATH_FRAGMENT_FIRST_def FASTPATH_FRAGMENT_NEXT_def FASTPATH_FRAGMENT_LAST_def fp_outcome_def)
  next
    case 3 then show ?thesis using assms(2)
      by (simp add: reassemble_def FASTPATH_FRAGMENT_SINGLE_def FASTPATH_FRAGMENT_FIRST_def fp_outcome_def fp_ok_def)
  next
    case 4 then show ?thesis using assms(2)
      by (simp add: reassemble_def FASTPATH_FRAGMENT_SINGLE_def FASTPATH_FRAGMENT_FIRST_def FASTPATH_FRAGMENT_NEXT_def fp_outcome_def fp_ok_def)
  qed
qed

lemma append_fragment_run:
  assumes "fp_host_ok env" "code_covered env code" "fp_ok env fp" "wf_stream s"
  shows "run_ok (append_fragment env code (drop_bit 4 b AND 3) cflags fp rdp s) (\<lambda>r s'. consumed s s' \<and> fp_outcome env r \<and>
    (0 \<le> fst r \<longrightarrow> rest s' = drop (2 + unat (get16 (rest s))) (rest s)))"
proof (cases "2 \<le> avail s \<and> unat (get16 (rest s)) \<le> avail s - 2")
  case True
  let ?n = "unat (get16 (rest s))" let ?src = "take ?n (drop 2 (rest s))"
  have g: "growable (updateData fp)" and o: "fp_outcome env (- 1, fp, rdp')" for rdp'
    using assms(3) by (simp_all add: fp_ok_def fp_outcome_def)
  have c: "consumed s (Stream_Seek s (2 + ?n))" using True by (intro consumed_Seek) arith
  obtain dst rdp' where x: "fp_decompress env rdp ?src cflags = (dst, rdp')" by force
  show ?thesis
  proof (cases dst)
    case None
    then show ?thesis using True assms(4) x o c by (simp add: append_fragment_def wire_simps Peek_rest)
  next
    case (Some bs)
    have "length ?src < 2 ^ 16" using unat_u16 [of "get16 (rest s)"] by simp
    then have n: "length bs < 2 ^ 32" using assms(1) x Some unfolding fp_host_ok_def by blast
    have p: "s_pointer (updateData fp) < 2 ^ 32"
      using assms(3) unat_u32 [of "MultifragMaxRequestSize env"] by (simp add: fp_ok_def Stream_GetPosition_def)
    obtain ok ud where ud: "Stream_EnsureRemainingCapacity (fp_malloc env) (updateData fp) (length bs) = Some (ok, ud)"
        "growable ud" "ok \<longrightarrow> length bs \<le> room ud"
      using Ensure_run [OF _ g, of "fp_malloc env" "length bs"] assms(1) n p unfolding fp_host_ok_def run_ok_iff by auto
    show ?thesis
    proof (cases ok)
      case False
      then show ?thesis using True assms(4) x Some ud c by (simp add: append_fragment_def wire_simps Peek_rest fp_outcome_def)
    next
      case ok: True
      then obtain r where r: "reassemble env code (drop_bit 4 b AND 3) (fp\<lparr>updateData := put ud bs\<rparr>) rdp' = Some r" "fp_outcome env r"
        using reassemble_run [OF assms(2), of "put ud bs" fp "drop_bit 4 b AND 3" b rdp'] assms(3) growable_put [OF ud(2)] ud(3)
        by (auto simp: fp_ok_def)
      then show ?thesis using True assms(4) x Some ud ok c growable_wf [OF ud(2)]
        by (simp add: append_fragment_def wire_simps Peek_rest)
    qed
  qed
next
  case False
  then show ?thesis using assms by (auto simp: append_fragment_def wire_simps fp_outcome_def fp_ok_def)
qed

lemma recv_update_data_run:
  assumes "fp_host_ok env" "code_covered env (rest s ! 0 AND 0x0F)" "fp_ok env fp" "wf_stream s" "1 \<le> avail s"
  shows "run_ok (fastpath_recv_update_data env fp rdp s) (\<lambda>r s'. consumed (Stream_Seek s 1) s' \<and> fp_outcome env r \<and>
    (0 \<le> fst r \<longrightarrow> rest s' = drop (update_bytes (rest s)) (rest s)))"
proof -
  let ?t = "Stream_Seek s 1" let ?c = "rest s ! 0 AND 0x0F"
  have w: "wf_stream ?t" using assms(4,5) by (simp add: wire_simps)
  have o: "fp_outcome env (- 1, fp, rdp)" using assms(3) by (simp add: fp_ok_def fp_outcome_def)
  have a: "run_ok (append_fragment env ?c (drop_bit 4 b AND 3) cflags fp rdp (Stream_Seek ?t n)) (\<lambda>r s'. consumed ?t s' \<and> fp_outcome env r \<and>
      (0 \<le> fst r \<longrightarrow> rest s' = drop k (rest s)))"
    if "n \<le> avail ?t" "k = n + 1 + 2 + unat (get16 (drop (n + 1) (rest s)))" for b cflags n k
    by (rule run_ok_mono [OF append_fragment_run [OF assms(1-3) wf_Seek [OF w that(1)]]])
      (use consumed_trans [OF consumed_Seek [OF that(1)]] assms(5) that in \<open>auto simp: wire_simps add.commute\<close>)
  have k: "update_bytes (rest s) = (if drop_bit 6 (rest s ! 0) AND 3 = FASTPATH_OUTPUT_COMPRESSION_USED
      then 1 + 1 + 2 + unat (get16 (drop (1 + 1) (rest s))) else 0 + 1 + 2 + unat (get16 (drop (0 + 1) (rest s))))"
    by (simp add: update_bytes_def Let_def numeral_2_eq_2)
  show ?thesis using assms(4,5) w o a [of 0 "update_bytes (rest s)"] a [of 1 "update_bytes (rest s)"] k
    by (simp add: fastpath_recv_update_data_def fastpath_read_update_header_def wire_simps del: One_nat_def)
qed

text \<open>Every round takes the byte of the update header, so the loop ends.\<close>

definition updates_covered :: "'k fp_env \<Rightarrow> byte list \<Rightarrow> bool" where
  "updates_covered env bs \<longleftrightarrow> orders_free bs \<or> code_covered env 0"

lemma updates_coveredD:
  assumes "updates_covered env bs" "3 \<le> length bs"
  shows "code_covered env (bs ! 0 AND 0x0F)" "updates_covered env (drop (update_bytes bs) bs)"
  using assms by (auto simp: orders_free_step(2) updates_covered_def code_covered_def)

lemma updates_loop_run:
  assumes "fp_host_ok env" "fp_ok env fp" "wf_stream s" "updates_covered env (rest s)"
  shows "run_ok (updates_loop env fp rdp s) (\<lambda>r s'. consumed s s' \<and> fp_outcome env r)"
  using assms(2-4)
proof (induction "avail s" arbitrary: s fp rdp rule: less_induct)
  case less
  note w = less.prems(2)
  show ?case
  proof (cases "3 \<le> avail s")
    case True
    then have one: "1 \<le> avail s" and three: "3 \<le> length (rest s)" using w by (simp_all add: length_rest)
    note cov = updates_coveredD [OF less.prems(3) three]
    obtain rc fp' rdp' t where t: "fastpath_recv_update_data env fp rdp s = Some ((rc, fp', rdp'), t)" "consumed (Stream_Seek s 1) t"
        "fp_outcome env (rc, fp', rdp')" "0 \<le> rc \<longrightarrow> updates_covered env (rest t)"
      using recv_update_data_run [OF assms(1) cov(1) less.prems(1,2) one, of rdp] cov(2) by (auto simp: run_ok_iff)
    have c: "consumed s t" by (rule consumed_trans [OF consumed_Seek [OF one] t(2)])
    have "avail t < avail s" using t(2) True by (auto simp: consumed_def wire_simps)
    then have l: "run_ok (updates_loop env fp' rdp' t) (\<lambda>r s'. consumed t s' \<and> fp_outcome env r)" if "0 \<le> rc"
      using t(3,4) that consumed_wf [OF w c] by (intro less.hyps) (simp_all add: fp_outcome_def)
    have "run_ok (updates_loop env fp' rdp' t) (\<lambda>r s'. consumed s s' \<and> fp_outcome env r)" if "0 \<le> rc"
      by (rule run_ok_mono [OF l [OF that]]) (use consumed_trans [OF c] in blast)
    then show ?thesis using True w t(1,3) c
      by (subst updates_loop.simps) (auto simp: wire_simps fp_outcome_def)
  next
    case False
    then show ?thesis using w less.prems(1) by (subst updates_loop.simps) (simp add: wire_simps fp_outcome_def fp_ok_def)
  qed
qed

lemma fastpath_recv_updates_run:
  assumes "fp_host_ok env" "fp_ok env fp" "wf_stream s" "updates_covered env (rest s)"
  shows "run_ok (fastpath_recv_updates env fp rdp s) (\<lambda>r s'. consumed s s' \<and> fp_outcome env r)"
proof -
  obtain ok rdp1 where b: "update_begin_paint (fp_update env) rdp = (ok, rdp1)" by force
  have "run_ok (if \<not> ok then Some ((- 2, fp, rdp1), s) else updates_loop env fp rdp1 s) (\<lambda>r s'. consumed s s' \<and> fp_outcome env r)"
    using updates_loop_run [OF assms] assms(2) by (simp add: fp_outcome_def fp_ok_def)
  then obtain rc fp' rdp2 s' where r: "(if \<not> ok then Some ((- 2, fp, rdp1), s) else updates_loop env fp rdp1 s) = Some ((rc, fp', rdp2), s')"
      "consumed s s'" "fp_outcome env (rc, fp', rdp2)"
    by (auto simp: run_ok_iff)
  obtain ok' rdp3 where e: "update_end_paint (fp_update env) rdp2 = (ok', rdp3)" by force
  show ?thesis unfolding fastpath_recv_updates_def Let_def b prod.case r(1) using e r(2,3) by (simp add: fp_outcome_def)
qed

lemma safe_read_header_rdp:
  assumes "wf_stream s"
  shows "run_ok (fastpath_read_header_rdp fp s) (\<lambda>(len, fp') s'. consumed s s' \<and> updateData fp' = updateData fp \<and> fragmentation fp' = fragmentation fp)"
proof (cases "1 \<le> avail s")
  case True
  obtain len t where t: "per_read_length (Stream_Seek s 1) = Some (len, t)" "consumed (Stream_Seek s 1) t"
    using safe_readerD [OF safe_per_read_length wf_Seek [OF assms True]] by (auto simp: run_ok_iff)
  show ?thesis using True assms t consumed_trans [OF consumed_Seek [OF True] t(2)]
    by (simp add: fastpath_read_header_rdp_def wire_simps set_header_def del: One_nat_def)
next
  case False
  then show ?thesis using assms by (simp add: fastpath_read_header_rdp_def wire_simps)
qed

section \<open>Input\<close>

lemma safe_input_event: "safe_reader (fastpath_recv_input_event i rdp)"
proof (rule safe_readerI)
  fix s assume w: "wf_stream s"
  have "safe_reader (fastpath_recv_input_event_scancode i ef rdp)" "safe_reader (fastpath_recv_input_event_mouse i rdp)"
    "safe_reader (fastpath_recv_input_event_mousex i rdp)" "safe_reader (fastpath_recv_input_event_sync i ef rdp)"
    "safe_reader (fastpath_recv_input_event_unicode i ef rdp)" for ef
    by (rule safe_readerI, simp add: fastpath_recv_input_event_scancode_def fastpath_recv_input_event_mouse_def
        fastpath_recv_input_event_mousex_def fastpath_recv_input_event_sync_def fastpath_recv_input_event_unicode_def wire_simps Let_def)+
  note h = this [THEN safe_after [OF _ w]]
  show "run_ok (fastpath_recv_input_event i rdp s) (\<lambda>_. consumed s)"
    using w by (simp add: fastpath_recv_input_event_def fastpath_read_input_event_header_def wire_simps h del: One_nat_def)
qed

lemma safe_input_event_loop: "safe_reader (input_event_loop i n rdp)"
proof (induction n arbitrary: rdp)
  case (Suc n)
  have "safe_reader (\<lambda>s. do { (r, s) \<leftarrow> fastpath_recv_input_event i rdp s;
      if \<not> fst r then Some ((False, snd r), s) else input_event_loop i n (snd r) s })"
    by (intro safe_bind safe_if safe_return safe_input_event Suc.IH)
  then show ?case by (simp add: case_prod_unfold)
qed (simp add: safe_reader_def)

lemma safe_recv_inputs: "safe_reader (fastpath_recv_inputs i fp rdp)"
proof (rule safe_readerI)
  fix s assume w: "wf_stream s"
  have l: "safe_reader (\<lambda>s. do { (r, s) \<leftarrow> input_event_loop i n rdp s; Some ((if fst r then 0 else - 1 :: int, fp', snd r), s) })" for n and fp' :: rdpFastPath
    by (intro safe_bind safe_return safe_input_event_loop)
  note h = safe_after [OF l w]
  show "run_ok (fastpath_recv_inputs i fp rdp s) (\<lambda>_. consumed s)"
    using w h [of 1] h [of 0] by (simp add: fastpath_recv_inputs_def wire_simps case_prod_unfold del: One_nat_def)
qed

section \<open>Packets\<close>

lemma fp_ok_cong:
  "updateData fp' = updateData fp \<Longrightarrow> fragmentation fp' = fragmentation fp \<Longrightarrow> fp_ok env fp' = fp_ok env fp"
  by (simp add: fp_ok_def)

text \<open>Whole packets, with their header and decryption, relative to the parser of drawing orders.\<close>

lemma recv_fastpath_pdu_run:
  assumes "fp_env_ok env" "ciphers_keep_length (fp_ops env)" "fp_ok env fp" "wf_stream s"
  shows "run_ok (rdp_recv_fastpath_pdu env fp rdp s) (\<lambda>r s'. wf_stream s' \<and> fp_outcome env r)"
proof -
  obtain len fp1 t where h: "fastpath_read_header_rdp fp s = Some ((len, fp1), t)" "consumed s t" "fp_ok env fp1"
    using safe_read_header_rdp [OF assms(4), of fp] fp_ok_cong [of _ fp env] assms(3) by (auto simp: run_ok_iff)
  have w: "wf_stream t" by (rule consumed_wf [OF assms(4) h(2)])
  have o: "fp_outcome env (- 1, fp1, r)" for r using h(3) by (simp add: fp_outcome_def fp_ok_def)
  have c: "updates_covered env bs" for bs using fp_env_okD(2) [OF assms(1)] by (simp add: updates_covered_def)
  have f: "run_ok (fastpath_recv_updates env fp1 r v) (\<lambda>r s'. wf_stream s' \<and> fp_outcome env r)" if "wf_stream v" for r v
    by (rule run_ok_mono [OF fastpath_recv_updates_run [OF fp_env_okD(1) [OF assms(1)] h(3) that c]]) (use consumed_wf [OF that] in blast)
  have d: "run_ok (rdp_decrypt (fp_ops env) r t n fl) (\<lambda>(dec, r') v. wf_stream v)" if "unat n \<le> avail t" for r n fl
    by (rule run_ok_mono [OF decrypt_returns [OF assms(2) w that]]) (auto simp: decrypt_outcome_def)
  show ?thesis
  proof (cases "\<exists>n. len = Some n \<and> n \<noteq> 0 \<and> unat n \<le> avail t")
    case True
    then obtain n where n: "len = Some n" "n \<noteq> 0" "unat n \<le> avail t" by blast
    let ?r = "if bandwidthMeasureStarted (r_autodetect rdp)
      then set_autodetect (\<lambda>a. a\<lparr>bandwidthMeasureByteCount := bandwidthMeasureByteCount a + ucast n\<rparr>) rdp else rdp"
    let ?fl = "if encryptionFlags fp1 AND FASTPATH_OUTPUT_SECURE_CHECKSUM \<noteq> 0 then ucast SEC_SECURE_CHECKSUM else 0 :: u16"
    obtain dec r' v where v: "(if encryptionFlags fp1 AND FASTPATH_OUTPUT_ENCRYPTED \<noteq> 0 then rdp_decrypt (fp_ops env) ?r t n ?fl
        else Some ((Some n, ?r), t)) = Some ((dec, r'), v)" "wf_stream v"
      using d [OF n(3), of ?r ?fl] w by (cases "encryptionFlags fp1 AND FASTPATH_OUTPUT_ENCRYPTED \<noteq> 0") (auto simp: run_ok_iff)
    show ?thesis using n w v(2) o f [OF v(2), of r'] unfolding rdp_recv_fastpath_pdu_def h(1)
      by (simp add: remaining_length v(1) Let_def split: option.split)
  next
    case False
    then show ?thesis using h(1) w o by (auto simp: rdp_recv_fastpath_pdu_def remaining_length split: option.split)
  qed
qed


text \<open>A connection without encryption and compression, and a client that waits for the rest of an update.\<close>

definition plain_env :: "unit fp_env" where
  "plain_env = \<lparr>fp_malloc = zero_malloc, fp_pool = fresh_pool, fp_ops = no_security, fp_write = (\<lambda>_. 0), fp_state = CONNECTION_STATE_ACTIVE,
     fp_update = example_update, fp_input = \<lparr>SynchronizeEvent = accept, KeyboardEvent = accept, UnicodeKeyboardEvent = accept,
       MouseEvent = accept, ExtendedMouseEvent = accept\<rparr>,
     CompressionEnabled = False, FastPathOutput = True, MultifragMaxRequestSize = 0x10000, fp_compression_max_size = 0x2000,
     fp_compress = (\<lambda>rdp _. (None, rdp)), fp_decompress = (\<lambda>rdp src _. (Some src, rdp))\<rparr>"

definition waiting_fp :: rdpFastPath where
  "waiting_fp = \<lparr>fs = zero_stream FASTPATH_MAX_PACKET_SIZE, encryptionFlags = 0, numberEvents = 0,
     updateData = Stream_Seek (zero_stream 16) 4, fragmentation = 2\<rparr>"

lemma plain_env_ok: "fp_env_ok plain_env" "ciphers_keep_length (fp_ops plain_env)"
  by (auto simp: fp_env_ok_def plain_env_def example_orders_safe ciphers_keep_length_def no_security_def)

lemma waiting_fp_ok: "fp_ok plain_env waiting_fp"
  by (simp add: fp_ok_def waiting_fp_def plain_env_def growable_def zero_stream_def wf_cap_def Stream_GetPosition_def Stream_Seek_def
      FASTPATH_FRAGMENT_FIRST_def)


end
