(* ===== verification/Fastpath_Send.thy ===== *)
theory Fastpath_Send
  imports Fastpath_Recv
begin

text \<open>
  The sender of fast-path updates in every security mode: the bytes of the headers, the size of a packet, and the
  length it announces.
\<close>

section \<open>Headers on the wire\<close>

definition pdu_header_enc :: "FASTPATH_UPDATE_PDU_HEADER \<Rightarrow> 'k rdpRdp \<Rightarrow> byte list" where
  "pdu_header_enc ph rdp =
     [(action ph AND 0x03) OR push_bit 6 (secFlags ph AND 0x03), ucast (0x80 OR drop_bit 8 (pdu_length ph)), ucast (pdu_length ph)] @
     (if secFlags ph \<noteq> 0 then (if EncryptionMethods rdp = ENCRYPTION_METHOD_FIPS then fipsInformation ph else []) @ dataSignature ph else [])"

definition update_header_enc :: "FASTPATH_UPDATE_HEADER \<Rightarrow> byte list" where
  "update_header_enc uh = [update_header_byte uh] @ (if compression uh \<noteq> 0 then [compressionFlags uh] else []) @ u16_enc (fp_size uh)"

lemma length_update_header_enc: "length (update_header_enc uh) = fastpath_get_update_header_size uh"
  by (simp add: update_header_enc_def fastpath_get_update_header_size_def)

lemma length_pdu_header_enc:
  "length (fipsInformation ph) = 4 \<Longrightarrow> length (dataSignature ph) = 8 \<Longrightarrow>
   length (pdu_header_enc ph rdp) = fastpath_get_update_pdu_header_size ph rdp"
  by (simp add: pdu_header_enc_def fastpath_get_update_pdu_header_size_def)

lemma header_sizes: "3 \<le> fastpath_get_update_header_size uh" "fastpath_get_update_header_size uh \<le> 4"
  "3 \<le> fastpath_get_update_pdu_header_size ph rdp" "fastpath_get_update_pdu_header_size ph rdp \<le> 15"
  by (simp_all add: fastpath_get_update_header_size_def fastpath_get_update_pdu_header_size_def)

lemma write_update_pdu_header_put:
  assumes "wf_cap s" "15 \<le> room s" "length (fipsInformation ph) = 4" "length (dataSignature ph) = 8"
  shows "fastpath_write_update_pdu_header s ph rdp = Some (False, put s (pdu_header_enc ph rdp))"
  using assms by (auto simp: fastpath_write_update_pdu_header_def pdu_header_enc_def wire_simps room_eq)

lemma write_update_header_put:
  assumes "wf_cap s" "4 \<le> room s"
  shows "fastpath_write_update_header s uh = Some (True, put s (update_header_enc uh))"
  using assms by (auto simp: fastpath_write_update_header_def update_header_enc_def wire_simps room_eq)

section \<open>The bytes of a fragment\<close>

text \<open>What the functions of \<^verbatim>\<open>security.c\<close> promise: signatures of eight bytes, ciphers that keep the length.\<close>

definition signing_ok :: "'k security_ops \<Rightarrow> bool" where
  "signing_ok ops \<longleftrightarrow> (\<forall>k bs sig k'. security_hmac_signature ops k bs = (Some sig, k') \<longrightarrow> length sig = 8) \<and>
     (\<forall>k bs b sig k'. security_salted_mac_signature ops k bs b = (Some sig, k') \<longrightarrow> length sig = 8) \<and>
     (\<forall>k bs sig k'. security_mac_signature ops k bs = (Some sig, k') \<longrightarrow> length sig = 8) \<and>
     (\<forall>k bs enc k'. security_encrypt ops k bs = (Some enc, k') \<longrightarrow> length enc = length bs) \<and>
     (\<forall>k bs enc k'. security_fips_encrypt ops k bs = (Some enc, k') \<longrightarrow> length enc = length bs)"

text \<open>A compressor keeps to the 8192 or 65536 bytes of its history and does not make its input longer.\<close>

definition compressor_ok :: "'k fp_env \<Rightarrow> bool" where
  "compressor_ok env \<longleftrightarrow> 8192 \<le> fp_compression_max_size env \<and>
     (\<forall>rdp src dst cflags rdp'. fp_compress env rdp src = (Some (dst, cflags), rdp') \<and> cflags \<noteq> 0 \<longrightarrow> length dst \<le> length src)"

definition fs_ok :: "wStream \<Rightarrow> bool" where
  "fs_ok f \<longleftrightarrow> wf_cap f \<and> FASTPATH_MAX_PACKET_SIZE \<le> s_capacity f"

text \<open>Overwriting a part of the buffer keeps the pointer and what lies before it.\<close>

definition patched :: "wStream \<Rightarrow> nat \<Rightarrow> wStream \<Rightarrow> bool" where
  "patched f k f' \<longleftrightarrow> wf_cap f' \<and> s_pointer f' = s_pointer f \<and> s_capacity f' = s_capacity f \<and> take k (s_buffer f') = take k (s_buffer f)"

lemma patched_refl: "wf_cap f \<Longrightarrow> patched f k f"
  by (simp add: patched_def)

lemma patched_trans: "patched f k g \<Longrightarrow> patched g k h \<Longrightarrow> patched f k h"
  by (simp add: patched_def)

lemma write_at_patched:
  assumes "wf_cap f" "off + length bs \<le> s_capacity f" "k \<le> off"
  shows "\<exists>f'. write_at f off bs = Some f' \<and> patched f k f'"
  using assms by (auto simp: write_at_def mem_write_def wf_cap_def patched_def)

lemma encrypt_fragment_run:
  assumes "signing_ok ops" "wf_cap f" "15 \<le> s_capacity f" "dataSize + k \<le> s_pointer f" "pad \<le> dataSize" "k \<le> 3"
  shows "run_ok (encrypt_fragment ops rdp f dataSize pad) (\<lambda>_. patched f k)"
proof -
  let ?d = "s_pointer f - dataSize"
  have c: "s_pointer f \<le> s_capacity f" "k \<le> ?d" using assms(2,4) by (auto simp: wf_cap_def)
  have r: "\<exists>body. mem_read (s_buffer g) ?d n = Some body \<and> length body = n" if "patched f k g" "n \<le> dataSize" for g n
    using that c assms(4) by (auto simp: mem_read_def wf_cap_def patched_def)
  have w: "\<exists>h. write_at g ?d bs = Some h \<and> patched f k h" if "patched f k g" "length bs = dataSize" for g bs
    using write_at_patched [of g ?d bs k] that c assms(4) by (auto simp: patched_def)
  have sg: "\<exists>h. write_at f off sig = Some h \<and> patched f k h" if "length sig = 8" "off = 3 \<or> off = 7" for off sig
    using write_at_patched [OF assms(2), of off sig k] that assms(3,6) by auto
  note p = patched_refl [OF assms(2), of k]
  show ?thesis
  proof (cases "EncryptionMethods rdp = ENCRYPTION_METHOD_FIPS")
    case True
    obtain body where b: "mem_read (s_buffer f) ?d (dataSize - pad) = Some body" using r [OF p, of "dataSize - pad"] by auto
    obtain sig k1 where s: "security_hmac_signature ops (r_keys rdp) body = (sig, k1)" by force
    show ?thesis
    proof (cases sig)
      case None
      then show ?thesis using True b s p by (simp add: encrypt_fragment_def Stream_GetPosition_def)
    next
      case (Some sg')
      then have "length sg' = 8" using s assms(1) unfolding signing_ok_def by metis
      then obtain g where g: "write_at f 7 sg' = Some g" "patched f k g" using sg by blast
      obtain b2 where b2: "mem_read (s_buffer g) ?d dataSize = Some b2" "length b2 = dataSize" using r [OF g(2)] by blast
      obtain enc k2 where e: "security_fips_encrypt ops k1 b2 = (enc, k2)" by force
      have "length x = dataSize" if "enc = Some x" for x using e that assms(1) b2(2) unfolding signing_ok_def by metis
      then have "enc = Some x \<Longrightarrow> \<exists>h. write_at g ?d x = Some h \<and> patched f k h" for x using w [OF g(2)] by blast
      then show ?thesis using True b s Some g b2 e by (cases enc) (auto simp: encrypt_fragment_def Stream_GetPosition_def)
    qed
  next
    case False
    obtain body where b: "mem_read (s_buffer f) ?d dataSize = Some body" using r [OF p, of dataSize] by auto
    obtain sig k1 where s: "(if sec_flags rdp AND SEC_SECURE_CHECKSUM \<noteq> 0 then security_salted_mac_signature ops (r_keys rdp) body True
       else security_mac_signature ops (r_keys rdp) body) = (sig, k1)" by force
    show ?thesis
    proof (cases sig)
      case None
      then show ?thesis using False b s p by (simp add: encrypt_fragment_def Stream_GetPosition_def)
    next
      case (Some sg')
      then have "length sg' = 8" using s assms(1) unfolding signing_ok_def by (metis (full_types))
      then obtain g where g: "write_at f 3 sg' = Some g" "patched f k g" using sg by blast
      obtain b2 where b2: "mem_read (s_buffer g) ?d dataSize = Some b2" "length b2 = dataSize" using r [OF g(2)] by blast
      obtain enc k2 where e: "security_encrypt ops k1 b2 = (enc, k2)" by force
      have "length x = dataSize" if "enc = Some x" for x using e that assms(1) b2(2) unfolding signing_ok_def by metis
      then have "enc = Some x \<Longrightarrow> \<exists>h. write_at g ?d x = Some h \<and> patched f k h" for x using w [OF g(2)] by blast
      then show ?thesis using False b s Some g b2 e by (cases enc) (auto simp: encrypt_fragment_def Stream_GetPosition_def)
    qed
  qed
qed

section \<open>Sizes\<close>

lemma fips_pad_bound:
  assumes "n \<le> 8 * m"
  shows "n + fips_pad n \<le> 8 * m"
proof -
  obtain q r where n: "n = 8 * q + r" "r < 8" using div_mod_decomp [of n 8] by (metis mod_less_divisor mult.commute zero_less_numeral)
  have "n mod 8 = r" using n by simp
  then have "fips_pad n = (if r = 0 then 0 else 8 - r)" using n(2) by (auto simp: fips_pad_def Let_def)
  moreover have "8 * q + 8 \<le> 8 * m" if "r \<noteq> 0"
  proof -
    have "8 * q < 8 * m" using assms n that by simp
    then have "q + 1 \<le> m" by simp
    then have "8 * (q + 1) \<le> 8 * m" by (rule mult_le_mono2)
    then show ?thesis by simp
  qed
  ultimately show ?thesis using assms n by (cases "r = 0") auto
qed

lemma fragment_fits:
  assumes "n \<le> 16363" "uhSize = 3 \<or> uhSize = 4 \<and> n \<le> 16343"
  shows "n + uhSize + fragment_pad rdp (n + uhSize) + fastpath_get_update_pdu_header_size ph rdp \<le> FASTPATH_MAX_PACKET_SIZE"
proof -
  have "n + uhSize + fips_pad (n + uhSize) \<le> 8 * 2046" using assms by (intro fips_pad_bound) auto
  then have "n + uhSize + fragment_pad rdp (n + uhSize) \<le> 16368" using assms by (auto simp: fragment_pad_def)
  then show ?thesis using header_sizes(4) [of ph rdp] by (simp add: FASTPATH_MAX_PACKET_SIZE_def)
qed

lemma max_fragment_bound:
  assumes "compressor_ok env"
  shows "0 < unat (max_fragment env skip)" "unat (max_fragment env skip) \<le> 16363"
    "CompressionEnabled env \<and> \<not> skip \<Longrightarrow> unat (max_fragment env skip) \<le> 16343"
proof -
  let ?m = "word_of_nat (FASTPATH_MAX_PACKET_SIZE - 20) :: u16" and ?c = "fp_compression_max_size env"
  let ?b = "if ucast ?m < ?c then ?m else ucast ?c"
  have m: "unat ?m = 16363" by (simp add: FASTPATH_MAX_PACKET_SIZE_def)
  have c: "8192 \<le> unat ?c" using assms by (simp add: compressor_ok_def word_le_nat_alt)
  have "unat ?b \<le> 16363" "8192 \<le> unat ?b"
  proof -
    have u: "unat (ucast ?m :: u32) = 16363" using unat_ucast_up [of ?m, where ?'b = 32] m by simp
    have "unat (ucast ?c :: u16) = unat ?c" if "\<not> ucast ?m < ?c"
      using that u by (intro unat_narrow) (simp add: word_less_nat_alt)
    then show "unat ?b \<le> 16363" "8192 \<le> unat ?b" using m u c by (auto simp: word_less_nat_alt)
  qed
  then have "unat (?b - 20) = unat ?b - 20" using unat_sub [of 20 ?b] by (simp add: word_le_nat_alt)
  then show "0 < unat (max_fragment env skip)" "unat (max_fragment env skip) \<le> 16363"
    "CompressionEnabled env \<and> \<not> skip \<Longrightarrow> unat (max_fragment env skip) \<le> 16343"
    using m \<open>unat ?b \<le> 16363\<close> \<open>8192 \<le> unat ?b\<close> unfolding max_fragment_def Let_def by auto
qed

section \<open>Fragments\<close>

definition fragment_bytes :: "'k rdpRdp \<Rightarrow> FASTPATH_UPDATE_HEADER \<Rightarrow> byte list \<Rightarrow> byte list" where
  "fragment_bytes rdp uh dst =
     (let pad = fragment_pad rdp (length dst + fastpath_get_update_header_size uh)
      in pdu_header_enc (fragment_pdu_header rdp uh pad) rdp @ update_header_enc uh @ dst @ replicate pad 0)"

lemma length_fragment_pdu_header:
  "length (pdu_header_enc (fragment_pdu_header rdp uh pad) rdp) = fastpath_get_update_pdu_header_size (fragment_pdu_header rdp uh pad) rdp"
  by (rule length_pdu_header_enc) (simp_all add: fragment_pdu_header_def Let_def)

lemma length_fragment_bytes:
  "length (fragment_bytes rdp uh dst) = length dst + fastpath_get_update_header_size uh +
     fragment_pad rdp (length dst + fastpath_get_update_header_size uh) +
     fastpath_get_update_pdu_header_size (fragment_pdu_header rdp uh (fragment_pad rdp (length dst + fastpath_get_update_header_size uh))) rdp"
  by (simp add: fragment_bytes_def Let_def length_fragment_pdu_header length_update_header_enc)

lemma build_fragment_eq:
  assumes "fs_ok f" "fragment_payload env skip rdp src = ((dst, cflags, cmpr), rdp1)" "length dst \<le> 16363" "cmpr = 0 \<or> length dst \<le> 16343"
    "uh = \<lparr>compressionFlags = cflags, fp_size = word_of_nat (length dst), updateCode = code, uh_fragmentation = frag, compression = cmpr\<rparr>"
  shows "length (fragment_bytes rdp1 uh dst) \<le> FASTPATH_MAX_PACKET_SIZE"
    "build_fragment env skip code frag rdp src f =
      (let f1 = put (Stream_SetPosition f 0) (fragment_bytes rdp1 uh dst); n = length dst + fastpath_get_update_header_size uh; pad = fragment_pad rdp1 n
       in if sec_flags rdp1 AND SEC_ENCRYPT \<noteq> 0 then encrypt_fragment (fp_ops env) rdp1 f1 (n + pad) pad else Some ((True, rdp1), f1))"
proof -
  let ?n = "length dst + fastpath_get_update_header_size uh"
  let ?pad = "fragment_pad rdp1 ?n" let ?ph = "fragment_pdu_header rdp1 uh ?pad" let ?g = "Stream_SetPosition f 0"
  have "fastpath_get_update_header_size uh = 3 \<or> fastpath_get_update_header_size uh = 4 \<and> length dst \<le> 16343"
    using assms(4,5) by (auto simp: fastpath_get_update_header_size_def)
  note fit = fragment_fits [OF assms(3) this, of rdp1 ?ph]
  then show b: "length (fragment_bytes rdp1 uh dst) \<le> FASTPATH_MAX_PACKET_SIZE" by (simp add: length_fragment_bytes add_ac)
  have g: "wf_cap ?g" and r: "FASTPATH_MAX_PACKET_SIZE \<le> room ?g"
    using assms(1) by (auto simp: fs_ok_def wf_cap_def room_def Stream_SetPosition_def)
  have l: "length (fipsInformation ?ph) = 4" "length (dataSignature ?ph) = 8" by (simp_all add: fragment_pdu_header_def Let_def)
  let ?h = "pdu_header_enc ?ph rdp1" let ?u = "update_header_enc uh"
  have s: "length ?h + length ?u + length dst + ?pad \<le> room ?g" "15 \<le> room ?g" "length ?h \<le> room ?g"
    using fit r length_fragment_pdu_header [of rdp1 uh ?pad] by (simp_all add: length_update_header_enc FASTPATH_MAX_PACKET_SIZE_def)
  have h: "fastpath_write_update_pdu_header ?g ?ph rdp1 = Some (False, put ?g ?h)" by (rule write_update_pdu_header_put [OF g s(2) l])
  have r4: "4 \<le> room (put ?g ?h)" using r header_sizes(4) [of ?ph rdp1]
    by (simp add: room_put length_fragment_pdu_header FASTPATH_MAX_PACKET_SIZE_def)
  have u: "fastpath_write_update_header (put ?g ?h) uh = Some (True, put ?g (?h @ ?u))"
    using write_update_header_put [OF wf_cap_put [OF g s(3)] r4, of uh] g s by (simp add: put_put)
  have d: "Stream_Write (put ?g (?h @ ?u)) dst = Some (put ?g (?h @ ?u @ dst))" using g s(1) by (simp add: wire_simps)
  have z: "(if ?pad \<noteq> 0 then Stream_Zero (put ?g (?h @ ?u @ dst)) ?pad else Some (put ?g (?h @ ?u @ dst))) =
      Some (put ?g (fragment_bytes rdp1 uh dst))"
    using g s(1) by (simp add: wire_simps fragment_bytes_def Let_def)
  show "build_fragment env skip code frag rdp src f =
      (let f1 = put (Stream_SetPosition f 0) (fragment_bytes rdp1 uh dst); n = length dst + fastpath_get_update_header_size uh; pad = fragment_pad rdp1 n
       in if sec_flags rdp1 AND SEC_ENCRYPT \<noteq> 0 then encrypt_fragment (fp_ops env) rdp1 f1 (n + pad) pad else Some ((True, rdp1), f1))"
    unfolding build_fragment_def assms(2) Let_def prod.case assms(5) [symmetric]
    by (simp only: h u d z Option.bind.simps prod.case add.commute [of "fastpath_get_update_header_size uh" "length dst"])
qed

text \<open>The first bytes of a packet announce its length.\<close>

definition announced :: "wStream \<Rightarrow> bool" where
  "announced f \<longleftrightarrow> fs_ok f \<and> 3 \<le> s_pointer f \<and> s_pointer f \<le> FASTPATH_MAX_PACKET_SIZE \<and>
     (\<exists>h. take 3 (s_buffer f) = [h, 0x80 OR ucast (drop_bit 8 (word_of_nat (s_pointer f) :: u16)), ucast (word_of_nat (s_pointer f) :: u16)])"

lemma patched_announced: "announced f \<Longrightarrow> patched f 3 g \<Longrightarrow> announced g"
  by (auto simp: announced_def patched_def fs_ok_def)

lemma fragment_bytes_announced:
  assumes "fs_ok f" "length (fragment_bytes rdp uh dst) \<le> FASTPATH_MAX_PACKET_SIZE" "fp_size uh = word_of_nat (length dst)"
  shows "announced (put (Stream_SetPosition f 0) (fragment_bytes rdp uh dst))"
proof -
  let ?b = "fragment_bytes rdp uh dst" and ?n = "length dst + fastpath_get_update_header_size uh"
  let ?ph = "fragment_pdu_header rdp uh (fragment_pad rdp ?n)"
  have p: "pdu_length ?ph = word_of_nat (length ?b)"
    unfolding length_fragment_bytes using assms(3)
    by (simp add: fragment_pdu_header_def Let_def fastpath_get_update_pdu_header_size_def ac_simps)
  have t: "take 3 ?b = [(action ?ph AND 3) OR push_bit 6 (secFlags ?ph AND 3), 0x80 OR ucast (drop_bit 8 (pdu_length ?ph)), ucast (pdu_length ?ph)]"
    by (simp add: fragment_bytes_def Let_def pdu_header_enc_def numeral_3_eq_3 unsigned_or_eq)
  have "3 \<le> length ?b" using arg_cong [OF t, of length] by simp
  then show ?thesis using assms(1,2) t unfolding p
    by (auto simp: announced_def fs_ok_def wf_cap_def put_def Stream_SetPosition_def FASTPATH_MAX_PACKET_SIZE_def)
qed

lemma build_fragment_run:
  assumes "signing_ok (fp_ops env)" "fs_ok f" "fragment_payload env skip rdp src = ((dst, cflags, cmpr), rdp1)"
    "length dst \<le> 16363" "cmpr = 0 \<or> length dst \<le> 16343"
  shows "run_ok (build_fragment env skip code frag rdp src f) (\<lambda>_. announced)"
proof -
  let ?uh = "\<lparr>compressionFlags = cflags, fp_size = word_of_nat (length dst), updateCode = code, uh_fragmentation = frag, compression = cmpr\<rparr>"
  note eq = build_fragment_eq [OF assms(2-5), where code = code and frag = frag, OF refl]
  let ?f = "put (Stream_SetPosition f 0) (fragment_bytes rdp1 ?uh dst)"
  let ?n = "length dst + fastpath_get_update_header_size ?uh" let ?pad = "fragment_pad rdp1 ?n"
  have a: "announced ?f" by (rule fragment_bytes_announced [OF assms(2) eq(1)]) simp
  have w: "wf_cap ?f" "15 \<le> s_capacity ?f" using a by (simp_all add: announced_def fs_ok_def FASTPATH_MAX_PACKET_SIZE_def)
  have "(?n + ?pad) + 3 \<le> s_pointer ?f"
    using header_sizes(3) [of "fragment_pdu_header rdp1 ?uh ?pad" rdp1] by (simp add: length_fragment_bytes Stream_SetPosition_def)
  then have "run_ok (encrypt_fragment (fp_ops env) rdp1 ?f (?n + ?pad) ?pad) (\<lambda>_. patched ?f 3)"
    by (intro encrypt_fragment_run [OF assms(1) w]) simp_all
  then have "run_ok (encrypt_fragment (fp_ops env) rdp1 ?f (?n + ?pad) ?pad) (\<lambda>_. announced)"
    by (rule run_ok_mono) (rule patched_announced [OF a])
  then show ?thesis using a unfolding eq(2) Let_def by simp
qed

section \<open>Packets\<close>

text \<open>A packet that its receiver can delimit: the length in its header is the number of its bytes, and at most the limit.\<close>

definition delimited :: "wStream \<Rightarrow> bool" where
  "delimited f \<longleftrightarrow> wf_stream (Stream_SetPosition f 0) \<and> s_length f \<le> FASTPATH_MAX_PACKET_SIZE \<and>
     (\<forall>fp. \<exists>fp' f'. fastpath_read_header fp (Stream_SetPosition f 0) = Some ((word_of_nat (s_length f), fp'), f'))"

lemma per_read_length_long:
  assumes "n < 0x8000" "wf_stream s" "rest s = [0x80 OR ucast (drop_bit 8 n), ucast n] @ r"
  shows "per_read_length s = Some (Some n, Stream_Seek s 2)"
proof -
  have "rest s = [ucast (drop_bit 8 n) OR 0x80, ucast n] @ r" using assms(3) by (simp add: or.commute)
  moreover from this have "avail s = 2 + length r" using rest_avail [OF assms(2)] by fastforce
  ultimately show ?thesis using assms(2) per_length_decode [OF assms(1)]
    by (simp add: per_read_length_def stream_simps high_bit_test Let_def)
qed

lemma announced_delimited:
  assumes "announced f"
  shows "delimited (Stream_SealLength f)"
proof -
  let ?s = "rewound f 0" and ?n = "word_of_nat (s_pointer f) :: u16"
  have c: "wf_cap f" "3 \<le> s_pointer f" "s_pointer f \<le> 0x3FFF" using assms by (auto simp: announced_def fs_ok_def FASTPATH_MAX_PACKET_SIZE_def)
  have w: "wf_stream ?s" by (rule wf_rewound [OF c(1)]) simp
  obtain h where h: "take 3 (s_buffer f) = [h, 0x80 OR ucast (drop_bit 8 ?n), ucast ?n]" using assms by (auto simp: announced_def)
  have r: "rest ?s = out f" using rest_rewound [OF c(1), of 0] by simp
  have "take 3 (rest ?s) = take 3 (s_buffer f)" unfolding r out_def using c(2) by simp
  then have e: "rest ?s = [h, 0x80 OR ucast (drop_bit 8 ?n), ucast ?n] @ drop 3 (rest ?s)" using h append_take_drop_id [of 3 "rest ?s"] by metis
  have a: "1 \<le> avail ?s" using c by (simp add: avail_def rewound_def Stream_SetPosition_def Stream_SealLength_def)
  have "unat ?n = s_pointer f" using c(3) by (simp add: unat_of_nat_eq)
  then have n: "?n < 0x8000" using c(3) by (simp add: word_less_nat_alt)
  have "rest (Stream_Seek ?s 1) = [0x80 OR ucast (drop_bit 8 ?n), ucast ?n] @ drop 3 (rest ?s)"
    by (subst rest_Seek, subst e) simp
  then have "per_read_length (Stream_Seek ?s 1) = Some (Some ?n, Stream_Seek (Stream_Seek ?s 1) 2)"
    by (rule per_read_length_long [OF n wf_Seek [OF w a]])
  then have "fastpath_read_header fp ?s = Some ((?n, set_header (rest ?s ! 0) fp), Stream_Seek ?s 3)" for fp
    using w a by (simp add: fastpath_read_header_def wire_simps del: One_nat_def)
  then show ?thesis using w c by (simp add: delimited_def rewound_def Stream_SealLength_def FASTPATH_MAX_PACKET_SIZE_def)
qed

lemma fragment_payload_bound:
  assumes "compressor_ok env" "length src \<le> unat (max_fragment env skip)" "fragment_payload env skip rdp src = ((dst, cflags, cmpr), rdp1)"
  shows "length dst \<le> 16363" "cmpr = 0 \<or> length dst \<le> 16343"
proof -
  obtain r rdp2 where c: "fp_compress env rdp src = (r, rdp2)" by force
  have "length dst' \<le> length src" if "r = Some (dst', cf)" "cf \<noteq> 0" for dst' cf
    using assms(1) c that unfolding compressor_ok_def by blast
  then have "length dst \<le> length src \<and> (cmpr = 0 \<or> CompressionEnabled env \<and> \<not> skip)"
    using assms(3) c by (auto simp: fragment_payload_def split: if_splits option.splits)
  then show "length dst \<le> 16363" "cmpr = 0 \<or> length dst \<le> 16343"
    using assms(2) max_fragment_bound [OF assms(1), of skip] by auto
qed

lemma fragment_loop_run:
  assumes "signing_ok (fp_ops env)" "compressor_ok env" "fs_ok (fs fp)" "s_pointer s + unat totalLength \<le> length (s_buffer s)" "list_all delimited outs"
  shows "run_ok (fragment_loop env skip code (max_fragment env skip) n totalLength fp rdp s outs) (\<lambda>(st, fp', rdp', outs') s'.
    fs_ok (fs fp') \<and> list_all delimited outs' \<and> (st = Some True \<longrightarrow> n = 0 \<or> outs \<noteq> [] \<longrightarrow> outs' \<noteq> []))"
  using assms(3-5)
proof (induction "unat totalLength + (if n = 0 then 1 else 0)" arbitrary: n totalLength fp rdp s outs rule: less_induct)
  case less
  show ?case
  proof (cases "totalLength > 0 \<or> n = 0")
    case True
    let ?m = "max_fragment env skip"
    let ?size = "if totalLength > ucast ?m then ?m else ucast totalLength"
    have u: "unat (ucast ?m :: u32) = unat ?m" using unat_ucast_up [of ?m, where ?'b = 32] by simp
    have n16: "unat (ucast totalLength :: u16) = unat totalLength" if "\<not> totalLength > ucast ?m"
      using that u unat_u16 [of ?m] by (intro unat_narrow) (simp add: word_less_nat_alt)
    have sz: "unat ?size \<le> unat ?m" "unat ?size \<le> unat totalLength" "totalLength \<noteq> 0 \<Longrightarrow> 0 < unat ?size"
      using u n16 max_fragment_bound(1) [OF assms(2), of skip] by (auto simp: word_less_nat_alt unat_gt_0 unsigned_eq_0_iff)
    obtain src where src: "Stream_Peek s (unat ?size) = Some src" "length src = unat ?size"
      using less.prems(2) sz(2) by (auto simp: Stream_Peek_def)
    let ?rem = "totalLength - ucast ?size"
    have "unat (ucast ?size :: u32) = unat ?size" using unat_ucast_up [of ?size, where ?'b = 32] by simp
    then have rem: "unat ?rem = unat totalLength - unat ?size" using sz(2) unat_sub [of "ucast ?size" totalLength]
      by (simp add: word_le_nat_alt)
    obtain dst cflags cmpr rdp1 where fp1: "fragment_payload env skip rdp src = ((dst, cflags, cmpr), rdp1)" by (metis prod.collapse)
    have "run_ok (build_fragment env skip code (fragment_kind n ?rem) rdp src (fs fp)) (\<lambda>_. announced)"
      by (rule build_fragment_run [OF assms(1) less.prems(1) fp1]) (use fragment_payload_bound [OF assms(2) _ fp1] src(2) sz(1) in auto)
    then obtain ok rdp2 f where b: "build_fragment env skip code (fragment_kind n ?rem) rdp src (fs fp) = Some ((ok, rdp2), f)" "announced f"
      by (auto simp: run_ok_iff)
    have fo: "fs_ok f" "fs_ok (Stream_SealLength f)" using b(2) by (auto simp: announced_def fs_ok_def wf_cap_def Stream_SealLength_def)
    note d = announced_delimited [OF b(2)]
    let ?f = "Stream_SealLength f"
    have rec: "run_ok (fragment_loop env skip code ?m (n + 1) ?rem (fp\<lparr>fs := ?f\<rparr>) rdp2 (Stream_Seek s (unat ?size)) (outs @ [?f]))
       (\<lambda>(st, fp', rdp', outs') s'. fs_ok (fs fp') \<and> list_all delimited outs' \<and> (st = Some True \<longrightarrow> n + 1 = 0 \<or> outs @ [?f] \<noteq> [] \<longrightarrow> outs' \<noteq> []))"
      using True sz rem less.prems fo d by (intro less.hyps) (auto simp: word_gt_0 unat_gt_0)
    have "run_ok (if \<not> ok then Some ((None, fp\<lparr>fs := f\<rparr>, rdp2, outs), s)
        else if fp_write env ?f < 0 then Some ((Some False, fp\<lparr>fs := ?f\<rparr>, rdp2, outs @ [?f]), s)
        else fragment_loop env skip code ?m (n + 1) ?rem (fp\<lparr>fs := ?f\<rparr>) rdp2 (Stream_Seek s (unat ?size)) (outs @ [?f]))
       (\<lambda>(st, fp', rdp', outs') s'. fs_ok (fs fp') \<and> list_all delimited outs' \<and> (st = Some True \<longrightarrow> n = 0 \<or> outs \<noteq> [] \<longrightarrow> outs' \<noteq> []))"
      using run_ok_mono [OF rec] fo d less.prems(3) by auto
    then show ?thesis using True src(1) b(1) by (subst fragment_loop.simps) (simp only: Let_def if_True Option.bind.simps prod.case)
  next
    case False
    then show ?thesis using less.prems by (subst fragment_loop.simps) simp
  qed
qed


text \<open>A stand-in for the ciphers that signs with a constant and flips every bit, on a connection that uses FIPS.\<close>

definition flip_security :: "unit security_ops" where
  "flip_security =
     \<lparr>security_hmac_signature = (\<lambda>k _. (Some (replicate 8 1), k)), security_salted_mac_signature = (\<lambda>k _ _. (Some (replicate 8 2), k)),
      security_mac_signature = (\<lambda>k _. (Some (replicate 8 3), k)), security_encrypt = (\<lambda>k bs. (Some (map NOT bs), k)),
      security_decrypt = (\<lambda>k bs. (Some (map NOT bs), k)), security_fips_encrypt = (\<lambda>k bs. (Some (map NOT bs), k)),
      security_fips_decrypt = (\<lambda>k bs. (Some (map NOT bs), k)), security_fips_check_signature = (\<lambda>k _ _. (True, k))\<rparr>"

lemma flip_signing_ok: "signing_ok flip_security"
  by (auto simp: signing_ok_def flip_security_def)


end
