(* ===== verification/Fastpath_Exchange.thy ===== *)
theory Fastpath_Exchange
  imports Fastpath_Send
begin

text \<open>
  Server and client together, on a connection without encryption and compression: the fragments of an update, received
  in order, make the client process exactly the bytes the server was given, once.
\<close>

section \<open>One packet at the client\<close>

text \<open>The state in which the updates of a packet with \<open>n\<close> bytes behind its header are processed.\<close>

definition packet_start :: "'k fp_env \<Rightarrow> u16 \<Rightarrow> 'k rdpRdp \<Rightarrow> 'k rdpRdp" where
  "packet_start env n rdp = snd (update_begin_paint (fp_update env)
     (if bandwidthMeasureStarted (r_autodetect rdp)
      then set_autodetect (\<lambda>a. a\<lparr>bandwidthMeasureByteCount := bandwidthMeasureByteCount a + ucast n\<rparr>) rdp else rdp))"

definition packet_end :: "'k fp_env \<Rightarrow> 'k rdpRdp \<Rightarrow> 'k rdpRdp" where
  "packet_end env rdp = snd (update_end_paint (fp_update env) rdp)"

text \<open>A client that can paint, has memory, and takes data that is not marked as compressed as it is.\<close>

definition client_ok :: "'k fp_env \<Rightarrow> bool" where
  "client_ok env \<longleftrightarrow> fp_env_ok env \<and> alloc_total (fp_malloc env) \<and> (\<forall>rdp src. fp_decompress env rdp src 0 = (Some src, rdp)) \<and>
     (\<forall>rdp. fst (update_begin_paint (fp_update env) rdp) \<and> fst (update_end_paint (fp_update env) rdp))"

definition plain_header :: "byte \<Rightarrow> byte \<Rightarrow> nat \<Rightarrow> FASTPATH_UPDATE_HEADER" where
  "plain_header code frag n =
     \<lparr>compressionFlags = 0, fp_size = word_of_nat n, updateCode = code, uh_fragmentation = frag, compression = 0\<rparr>"

lemma plain_header_fields:
  assumes "code < 16" "frag < 4"
  shows "update_header_byte (plain_header code frag n) AND 0x0F = code" "drop_bit 4 (update_header_byte (plain_header code frag n)) AND 3 = frag"
    "drop_bit 6 (update_header_byte (plain_header code frag n)) AND 3 = 0"
proof -
  have m: "(0x0F :: byte) = mask 4" "(3 :: byte) = mask 2" by (simp_all add: mask_eq_exp_minus_1)
  have h: "code AND mask 4 = code" "frag AND mask 2 = frag" using assms by (simp_all add: less_mask_eq)
  have c: "bit code i \<Longrightarrow> i < 4" and f: "bit frag i \<Longrightarrow> i < 2" for i
    using arg_cong [OF h(1), of "\<lambda>w. bit w i"] arg_cong [OF h(2), of "\<lambda>w. bit w i"] by (simp_all add: bit_simps)
  show "update_header_byte (plain_header code frag n) AND 0x0F = code" "drop_bit 4 (update_header_byte (plain_header code frag n)) AND 3 = frag"
    "drop_bit 6 (update_header_byte (plain_header code frag n)) AND 3 = 0"
    unfolding update_header_byte_def plain_header_def FASTPATH_UPDATE_HEADER.simps m h
    by (rule bit_word_eqI; use c f in \<open>force simp: bit_simps\<close>)+
qed

lemma append_plain:
  assumes "client_ok env" "growable (updateData fp)" "Stream_GetPosition (updateData fp) < 2 ^ 32" "wf_stream t"
    "rest t = u16_enc (word_of_nat (length dst)) @ dst @ r" "length dst < 2 ^ 16"
  shows "\<exists>ud. growable ud \<and> out ud = out (updateData fp) @ dst \<and>
    append_fragment env code frag 0 fp rdp t = do { r \<leftarrow> reassemble env code frag (fp\<lparr>updateData := ud\<rparr>) rdp; Some (r, Stream_Seek t (2 + length dst)) }"
proof -
  have a: "avail t = 2 + length dst + length r" using length_rest [OF assms(4)] assms(5) by simp
  have n: "unat (get16 (rest t)) = length dst" using assms(6) unfolding assms(5) by (simp add: wire_simps unat_of_nat_eq)
  have k: "take (length dst) (drop 2 (rest t)) = dst" by (simp add: assms(5))
  have e: "malloc_ok (fp_malloc env)" "alloc_total (fp_malloc env)" "\<And>rdp src. fp_decompress env rdp src 0 = (Some src, rdp)"
    using assms(1) by (auto simp: client_ok_def fp_env_ok_def)
  have "s_pointer (updateData fp) + 2 * length dst \<le> 2 ^ 39" using assms(3,6) by (simp add: Stream_GetPosition_def)
  then obtain ud where ud: "Stream_EnsureRemainingCapacity (fp_malloc env) (updateData fp) (length dst) = Some (True, ud)"
      "growable ud" "out ud = out (updateData fp)" "length dst \<le> room ud"
    using Ensure_run [OF e(1) assms(2), of "length dst"] e(2) by (auto simp: run_ok_iff)
  have "append_fragment env code frag 0 fp rdp t =
      do { r \<leftarrow> reassemble env code frag (fp\<lparr>updateData := put ud dst\<rparr>) rdp; Some (r, Stream_Seek t (2 + length dst)) }"
    using a assms(4) growable_wf [OF ud(2)] ud(4) by (simp add: append_fragment_def wire_simps Peek_rest n k e(3) ud(1))
  then show ?thesis using growable_put [OF ud(2,4)] ud(3) by (intro exI [of _ "put ud dst"]) simp
qed

lemma updates_loop_one:
  assumes "client_ok env" "growable (updateData fp)" "Stream_GetPosition (updateData fp) < 2 ^ 32" "wf_stream t"
    "rest t = update_header_enc (plain_header code frag (length dst)) @ dst" "length dst < 2 ^ 16" "code < 16" "frag < 4"
  shows "\<exists>ud. growable ud \<and> out ud = out (updateData fp) @ dst \<and>
    updates_loop env fp rdp t = do {
      (rc, fp, rdp) \<leftarrow> reassemble env code frag (fp\<lparr>updateData := ud\<rparr>) rdp;
      Some ((if rc < 0 then - 3 else 0, fp, rdp), Stream_Seek t (3 + length dst)) }"
proof -
  let ?h = "update_header_byte (plain_header code frag (length dst))"
  have r: "rest t = ?h # u16_enc (word_of_nat (length dst)) @ dst" using assms(5) by (simp add: update_header_enc_def plain_header_def)
  have a: "avail t = 3 + length dst" using length_rest [OF assms(4)] r by simp
  have w: "wf_stream (Stream_Seek t 1)" and r1: "rest (Stream_Seek t 1) = u16_enc (word_of_nat (length dst)) @ dst @ []"
    using assms(4) a by (simp_all add: wire_simps r)
  obtain ud where ud: "growable ud" "out ud = out (updateData fp) @ dst"
      "append_fragment env code frag 0 fp rdp (Stream_Seek t 1) =
        do { r \<leftarrow> reassemble env code frag (fp\<lparr>updateData := ud\<rparr>) rdp; Some (r, Stream_Seek (Stream_Seek t 1) (2 + length dst)) }"
    using append_plain [OF assms(1-3) w r1 assms(6)] by blast
  have d: "fastpath_recv_update_data env fp rdp t = append_fragment env code frag 0 fp rdp (Stream_Seek t 1)"
    using assms(4) a plain_header_fields [OF assms(7,8), of "length dst"]
    by (simp add: fastpath_recv_update_data_def fastpath_read_update_header_def wire_simps r FASTPATH_OUTPUT_COMPRESSION_USED_def del: One_nat_def)
  have e: "updates_loop env fp' rdp' (Stream_Seek t (3 + length dst)) = Some ((0, fp', rdp'), Stream_Seek t (3 + length dst))" for fp' rdp'
    using assms(4) a by (subst updates_loop.simps) (simp add: remaining_length wf_Seek avail_Seek)
  have "updates_loop env fp rdp t = do {
      (rc, fp, rdp) \<leftarrow> reassemble env code frag (fp\<lparr>updateData := ud\<rparr>) rdp;
      Some ((if rc < 0 then - 3 else 0, fp, rdp), Stream_Seek t (3 + length dst)) }"
  proof (cases "reassemble env code frag (fp\<lparr>updateData := ud\<rparr>) rdp")
    case None
    then show ?thesis using assms(4) a by (subst updates_loop.simps) (simp add: remaining_length d ud(3) del: One_nat_def)
  next
    case (Some x)
    obtain rc fp' rdp' where x: "x = (rc, fp', rdp')" by (cases x)
    have "append_fragment env code frag 0 fp rdp (Stream_Seek t 1) = Some ((rc, fp', rdp'), Stream_Seek t (3 + length dst))"
      unfolding ud(3) using Some x by (simp add: numeral_3_eq_3)
    then show ?thesis using assms(4) a e Some x by (subst updates_loop.simps) (simp add: remaining_length d del: One_nat_def)
  qed
  then show ?thesis using ud(1,2) by blast
qed

text \<open>A packet of one plain fragment, as the server leaves it in its buffer.\<close>

definition plain_packet :: "byte \<Rightarrow> byte \<Rightarrow> byte list \<Rightarrow> byte list" where
  "plain_packet code frag dst =
     [0, 0x80 OR ucast (drop_bit 8 (word_of_nat (6 + length dst) :: u16)), ucast (word_of_nat (6 + length dst) :: u16)] @
     update_header_enc (plain_header code frag (length dst)) @ dst"

definition packet_size :: "wStream \<Rightarrow> u16" where
  "packet_size p = word_of_nat (s_length p - 3)"

lemma recv_plain_packet:
  assumes "client_ok env" "growable (updateData fp)" "Stream_GetPosition (updateData fp) < 2 ^ 32" "wf_stream (Stream_SetPosition p 0)"
    "rest (Stream_SetPosition p 0) = plain_packet code frag dst" "length dst \<le> 16363" "code < 16" "frag < 4"
  shows "\<exists>ud t. growable ud \<and> out ud = out (updateData fp) @ dst \<and>
    rdp_recv_fastpath_pdu env fp rdp (Stream_SetPosition p 0) = do {
      (rc, fp, rdp) \<leftarrow> reassemble env code frag (fp\<lparr>encryptionFlags := 0, numberEvents := 0, updateData := ud\<rparr>) (packet_start env (packet_size p) rdp);
      Some ((if rc < 0 then - 3 else 0, fp, packet_end env rdp), t) }"
proof -
  let ?p = "Stream_SetPosition p 0" let ?n = "word_of_nat (6 + length dst) :: u16" let ?fp = "fp\<lparr>encryptionFlags := 0, numberEvents := 0\<rparr>"
  let ?b = "update_header_enc (plain_header code frag (length dst)) @ dst"
  have lb: "length ?b = 3 + length dst" by (simp add: update_header_enc_def plain_header_def)
  have a: "avail ?p = 6 + length dst" using length_rest [OF assms(4)] lb by (simp add: assms(5) plain_packet_def)
  have r1: "rest (Stream_Seek ?p 1) = [0x80 OR ucast (drop_bit 8 ?n), ucast ?n] @ ?b"
    by (subst rest_Seek) (simp add: assms(5) plain_packet_def)
  have un: "unat ?n = 6 + length dst" by (rule unat_of_nat_eq) (use assms(6) in simp)
  then have "?n < 0x8000" using assms(6) by (simp add: word_less_nat_alt)
  moreover have "wf_stream (Stream_Seek ?p 1)" using a assms(4) by (intro wf_Seek) simp_all
  ultimately have l: "per_read_length (Stream_Seek ?p 1) = Some (Some ?n, Stream_Seek (Stream_Seek ?p 1) 2)"
    by (rule per_read_length_long) (rule r1)
  have s: "Stream_Seek (Stream_Seek ?p 1) 2 = Stream_Seek ?p 3" by (simp add: numeral_3_eq_3)
  have h0: "set_header 0 fp = ?fp" by (simp add: set_header_def)
  have d: "?n - word_of_nat 3 = word_of_nat (3 + length dst)" by simp
  have "rest ?p ! 0 = 0" by (simp add: assms(5) plain_packet_def)
  then have h: "fastpath_read_header_rdp fp ?p = Some ((Some (word_of_nat (3 + length dst)), ?fp), Stream_Seek ?p 3)"
    using a assms(4) l d unfolding s
    by (simp add: fastpath_read_header_rdp_def remaining_length Read_get h0 Stream_GetPosition_def Stream_SetPosition_def del: One_nat_def)
  define m where "m = (word_of_nat (3 + length dst) :: u16)"
  let ?t = "Stream_Seek ?p 3"
  have "unat m = 3 + length dst" unfolding m_def by (rule unat_of_nat_eq) (use assms(6) in simp)
  moreover have "packet_size p = m" using a by (simp add: packet_size_def avail_def Stream_SetPosition_def m_def)
  ultimately have mm: "unat m = 3 + length dst" "packet_size p = m" .
  have t: "wf_stream ?t" "rest ?t = ?b" "avail ?t = 3 + length dst"
    using a assms(4) by (simp_all add: wf_Seek avail_Seek rest_Seek assms(5) plain_packet_def numeral_3_eq_3)
  obtain ud where ud: "growable ud" "out ud = out (updateData ?fp) @ dst" "updates_loop env ?fp (packet_start env m rdp) ?t = do {
      (rc, fp, rdp) \<leftarrow> reassemble env code frag (?fp\<lparr>updateData := ud\<rparr>) (packet_start env m rdp);
      Some ((if rc < 0 then - 3 else 0, fp, rdp), Stream_Seek ?t (3 + length dst)) }"
    using updates_loop_one [OF assms(1) _ _ t(1,2) _ assms(7,8), of ?fp "packet_start env m rdp"] assms(2,3,6) by auto
  have b: "update_begin_paint (fp_update env) r = (True, snd (update_begin_paint (fp_update env) r))"
    "update_end_paint (fp_update env) r = (True, packet_end env r)" for r
    using assms(1) by (simp_all add: client_ok_def packet_end_def prod_eq_iff)
  have "m \<noteq> 0" using mm(1) by (metis add_is_0 unsigned_0 zero_neq_numeral)
  then have "rdp_recv_fastpath_pdu env fp rdp ?p = fastpath_recv_updates env ?fp
      (if bandwidthMeasureStarted (r_autodetect rdp)
       then set_autodetect (\<lambda>a. a\<lparr>bandwidthMeasureByteCount := bandwidthMeasureByteCount a + ucast m\<rparr>) rdp else rdp) ?t"
    unfolding rdp_recv_fastpath_pdu_def h m_def [symmetric] using mm(1) t by (simp add: remaining_length)
  also have "\<dots> = do {
      (rc, fp, rdp) \<leftarrow> reassemble env code frag (?fp\<lparr>updateData := ud\<rparr>) (packet_start env m rdp);
      Some ((if rc < 0 then - 3 else 0, fp, packet_end env rdp), Stream_Seek ?t (3 + length dst)) }"
    unfolding fastpath_recv_updates_def Let_def by (subst b(1)) (simp add: packet_start_def [symmetric] ud(3) b(2) case_prod_unfold)
  finally show ?thesis using ud(1,2) mm(2) by (intro exI [of _ ud] exI [of _ "Stream_Seek ?t (3 + length dst)"]) simp
qed

section \<open>One fragment at the server\<close>

definition plain_server :: "'k fp_env \<Rightarrow> bool \<Rightarrow> 'k rdpRdp \<Rightarrow> bool" where
  "plain_server env skip rdp \<longleftrightarrow> \<not> do_crypt rdp \<and> sec_flags rdp = 0 \<and> (skip \<or> \<not> CompressionEnabled env) \<and> FastPathOutput env \<and>
     (\<forall>f. 0 \<le> fp_write env f)"

lemma build_plain:
  assumes "plain_server env skip rdp" "fs_ok f" "length src \<le> 16363"
  shows "build_fragment env skip code frag rdp src f = Some ((True, rdp), put (Stream_SetPosition f 0) (plain_packet code frag src))"
proof -
  have p: "fragment_payload env skip rdp src = ((src, 0, 0), rdp)" using assms(1) by (auto simp: fragment_payload_def plain_server_def)
  have s: "sec_flags rdp = 0" using assms(1) by (simp add: plain_server_def)
  let ?ph = "fragment_pdu_header rdp (plain_header code frag (length src)) 0"
  have f: "fragment_pad rdp n = 0" for n by (simp add: fragment_pad_def s)
  have h: "action ?ph = 0" "secFlags ?ph = 0" "pdu_length ?ph = word_of_nat (6 + length src)"
    by (simp_all add: fragment_pdu_header_def output_sec_flags_def s plain_header_def fastpath_get_update_header_size_def
        fastpath_get_update_pdu_header_size_def Let_def add.commute)
  have "pdu_header_enc ?ph rdp = [0, 0x80 OR ucast (drop_bit 8 (word_of_nat (6 + length src) :: u16)), ucast (word_of_nat (6 + length src) :: u16)]"
    unfolding pdu_header_enc_def h by (simp add: unsigned_or_eq)
  then have "fragment_bytes rdp (plain_header code frag (length src)) src = plain_packet code frag src"
    by (simp add: fragment_bytes_def plain_packet_def f Let_def)
  then show ?thesis using build_fragment_eq(2) [OF assms(2) p assms(3), where code = code and frag = frag, OF _ plain_header_def] s
    by (simp add: Let_def)
qed

text \<open>The finished packet as the client finds it.\<close>

lemma plain_packet_sent:
  assumes "fs_ok f" "length src \<le> 16363" "g = Stream_SealLength (put (Stream_SetPosition f 0) (plain_packet code frag src))"
  shows "fs_ok g" "wf_stream (Stream_SetPosition g 0)" "rest (Stream_SetPosition g 0) = plain_packet code frag src"
proof -
  let ?f = "Stream_SetPosition f 0" let ?b = "plain_packet code frag src"
  have l: "length ?b = 6 + length src" by (simp add: plain_packet_def update_header_enc_def plain_header_def)
  have w: "wf_cap ?f" "length ?b \<le> room ?f" "s_pointer ?f = 0"
    using assms(1,2) l by (auto simp: fs_ok_def wf_cap_def room_def Stream_SetPosition_def FASTPATH_MAX_PACKET_SIZE_def)
  have c: "wf_cap (put ?f ?b)" "out (put ?f ?b) = ?b" using w by (simp_all add: wf_cap_put out_put) (simp add: out_def)
  show "fs_ok g" using c(1) assms(1) by (simp add: assms(3) fs_ok_def wf_cap_def Stream_SealLength_def Stream_SetPosition_def)
  show "wf_stream (Stream_SetPosition g 0)" "rest (Stream_SetPosition g 0) = ?b"
    using wf_rewound [OF c(1), of 0] rest_rewound [OF c(1), of 0] c(2) unfolding assms(3) rewound_def by simp_all
qed

section \<open>Reassembly\<close>

fun recv_packets :: "'k fp_env \<Rightarrow> rdpFastPath \<Rightarrow> 'k rdpRdp \<Rightarrow> wStream list \<Rightarrow> (int \<times> rdpFastPath \<times> 'k rdpRdp) option" where
  "recv_packets env fp rdp [] = Some (0, fp, rdp)"
| "recv_packets env fp rdp (p # ps) = do {
     ((rc, fp, rdp), _) \<leftarrow> rdp_recv_fastpath_pdu env fp rdp (Stream_SetPosition p 0);
     (if rc < 0 then Some (rc, fp, rdp) else recv_packets env fp rdp ps) }"

text \<open>What the client should do with packets of sizes \<open>ns\<close> that carry the update in \<open>ud\<close>: process it with the last one.\<close>

fun process_once :: "'k fp_env \<Rightarrow> byte \<Rightarrow> wStream \<Rightarrow> u16 list \<Rightarrow> 'k rdpRdp \<Rightarrow> (int \<times> 'k rdpRdp) option" where
  "process_once env code ud [] rdp = None"
| "process_once env code ud (n # ns) rdp =
     (if ns = [] then do {
        ((rc, rdp), _) \<leftarrow> fastpath_recv_update (fp_malloc env) (fp_update env) code (packet_start env n rdp) ud;
        Some (if rc < 0 then - 3 else 0, packet_end env rdp) }
      else process_once env code ud ns (packet_end env (packet_start env n rdp)))"

definition pending :: "nat \<Rightarrow> rdpFastPath \<Rightarrow> bool" where
  "pending n fp \<longleftrightarrow> (if n = 0 then fragmentation fp = - 1
     else fragmentation fp = uint FASTPATH_FRAGMENT_FIRST \<or> fragmentation fp = uint FASTPATH_FRAGMENT_NEXT)"

lemma reassemble_more:
  assumes "pending n fp" "remaining \<noteq> 0" "Stream_GetPosition (updateData fp) \<le> unat (MultifragMaxRequestSize env)"
  shows "\<exists>fp'. reassemble env code (fragment_kind n remaining) fp rdp = Some (0, fp', rdp) \<and> pending (n + 1) fp' \<and> updateData fp' = updateData fp"
  using assms
  by (cases "n = 0") (auto simp: reassemble_def fragment_kind_def pending_def FASTPATH_FRAGMENT_SINGLE_def FASTPATH_FRAGMENT_FIRST_def FASTPATH_FRAGMENT_NEXT_def)

lemma reassemble_final:
  assumes "pending n fp" "Stream_GetPosition (updateData fp) \<le> unat (MultifragMaxRequestSize env)"
  shows "reassemble env code (fragment_kind n 0) fp rdp = deliver_update env code (fp\<lparr>fragmentation := - 1\<rparr>) rdp"
  using assms
  by (cases fp; cases "n = 0") (auto simp: reassemble_def fragment_kind_def pending_def FASTPATH_FRAGMENT_SINGLE_def FASTPATH_FRAGMENT_FIRST_def
      FASTPATH_FRAGMENT_NEXT_def FASTPATH_FRAGMENT_LAST_def)

lemma plain_round:
  assumes "plain_server env skip rdp" "fs_ok (fs fp)" "totalLength > 0 \<or> n = 0" "s_pointer s + unat totalLength \<le> length (s_buffer s)"
    "k = min (unat totalLength) 16363" "src = take k (drop (s_pointer s) (s_buffer s))"
  shows "\<exists>g remaining. unat remaining = unat totalLength - k \<and> fs_ok g \<and> wf_stream (Stream_SetPosition g 0) \<and>
    rest (Stream_SetPosition g 0) = plain_packet code (fragment_kind n remaining) src \<and>
    fragment_loop env skip code (max_fragment env skip) n totalLength fp rdp s outs =
      fragment_loop env skip code (max_fragment env skip) (n + 1) remaining (fp\<lparr>fs := g\<rparr>) rdp (Stream_Seek s k) (outs @ [g])"
proof -
  have m: "max_fragment env skip = 16363" using assms(1) by (auto simp: plain_server_def max_fragment_def FASTPATH_MAX_PACKET_SIZE_def)
  let ?size = "if totalLength > ucast (16363 :: u16) then 16363 else ucast totalLength :: u16"
  have "unat (ucast totalLength :: u16) = unat totalLength" if "unat totalLength \<le> 16363" by (rule unat_narrow) (use that in simp)
  then have sz: "unat ?size = k" by (auto simp: assms(5) word_less_nat_alt min_def)
  let ?rem = "totalLength - ucast ?size"
  have "unat (ucast ?size :: u32) = k" using unat_ucast_up [of ?size, where ?'b = 32] sz by simp
  then have r: "unat ?rem = unat totalLength - k" using unat_sub [of "ucast ?size" totalLength] assms(5) by (simp add: word_le_nat_alt)
  have l: "length src \<le> 16363" using assms(5,6) by simp
  have pk: "Stream_Peek s k = Some src" using assms(4,5,6) by (simp add: Stream_Peek_def)
  let ?f = "put (Stream_SetPosition (fs fp) 0) (plain_packet code (fragment_kind n ?rem) src)"
  note b = build_plain [OF assms(1,2) l, of code "fragment_kind n ?rem"]
  note g = plain_packet_sent [OF assms(2) l refl, of code "fragment_kind n ?rem"]
  have "\<not> fp_write env f < 0" for f using assms(1) by (simp add: plain_server_def not_less)
  then have "fragment_loop env skip code (max_fragment env skip) n totalLength fp rdp s outs =
      fragment_loop env skip code (max_fragment env skip) (n + 1) ?rem (fp\<lparr>fs := Stream_SealLength ?f\<rparr>) rdp (Stream_Seek s k) (outs @ [Stream_SealLength ?f])"
    unfolding m using assms(3) pk b sz by (subst fragment_loop.simps) (simp only: Let_def if_True if_False Option.bind.simps prod.case not_True_eq_False)
  then show ?thesis using g r by blast
qed

lemma fragment_kind_less: "fragment_kind n remaining < 4"
  by (simp add: fragment_kind_def FASTPATH_FRAGMENT_SINGLE_def FASTPATH_FRAGMENT_FIRST_def FASTPATH_FRAGMENT_NEXT_def FASTPATH_FRAGMENT_LAST_def)

text \<open>The last packet of an update makes the client process what it has collected.\<close>

lemma recv_final_packet:
  assumes "client_ok env" "growable (updateData fp)" "pending n fp" "Stream_GetPosition (updateData fp) + length dst \<le> unat (MultifragMaxRequestSize env)"
    "wf_stream (Stream_SetPosition p 0)" "rest (Stream_SetPosition p 0) = plain_packet code (fragment_kind n 0) dst" "length dst \<le> 16363" "code < 16"
  shows "\<exists>ud rc fp' r. wf_stream ud \<and> rest ud = out (updateData fp) @ dst \<and> recv_packets env fp rdp [p] = Some (rc, fp', r) \<and>
    process_once env code ud [packet_size p] rdp = Some (rc, r) \<and> fp_ok env fp' \<and> fragmentation fp' = - 1"
proof -
  let ?x = "packet_start env (packet_size p) rdp"
  have "Stream_GetPosition (updateData fp) < 2 ^ 32" using assms(4) unat_u32 [of "MultifragMaxRequestSize env"] by simp
  from recv_plain_packet [OF assms(1,2) this assms(5-8) fragment_kind_less, of rdp]
  obtain ud t where ud: "growable ud" "out ud = out (updateData fp) @ dst" "rdp_recv_fastpath_pdu env fp rdp (Stream_SetPosition p 0) = do {
      (rc, fp, rdp) \<leftarrow> reassemble env code (fragment_kind n 0) (fp\<lparr>encryptionFlags := 0, numberEvents := 0, updateData := ud\<rparr>) ?x;
      Some ((if rc < 0 then - 3 else 0, fp, packet_end env rdp), t) }" by blast
  let ?fp = "fp\<lparr>encryptionFlags := 0, numberEvents := 0, updateData := ud\<rparr>"
  have l: "Stream_GetPosition ud = Stream_GetPosition (updateData fp) + length dst"
    using length_out [OF growable_wf [OF ud(1)]] length_out [OF growable_wf [OF assms(2)]] ud(2) by (simp add: Stream_GetPosition_def)
  have "reassemble env code (fragment_kind n 0) ?fp ?x = deliver_update env code (?fp\<lparr>fragmentation := - 1\<rparr>) ?x"
    by (rule reassemble_final) (use assms(3,4) l in \<open>simp_all add: pending_def\<close>)
  moreover obtain rc ud' r where d: "deliver_update env code (?fp\<lparr>fragmentation := - 1\<rparr>) ?x = Some (rc, ?fp\<lparr>fragmentation := - 1, updateData := ud'\<rparr>, r)"
      "growable ud'" "Stream_GetPosition ud' = 0"
    using deliver_update_run [of env code "?fp\<lparr>fragmentation := - 1\<rparr>" ?x] assms(1) ud(1) fp_env_okD(2) [of env code]
      by (auto simp: client_ok_def)
  ultimately have pdu: "rdp_recv_fastpath_pdu env fp rdp (Stream_SetPosition p 0) =
      Some ((if rc < 0 then - 3 else 0, ?fp\<lparr>fragmentation := - 1, updateData := ud'\<rparr>, packet_end env r), t)" unfolding ud(3) by simp
  let ?v = "rewound ud 0"
  have v: "wf_stream ?v" "rest ?v = out (updateData fp) @ dst"
    using growable_wf [OF ud(1)] ud(2) by (simp_all add: wf_rewound rest_rewound)
  obtain rc0 r0 v' where f: "fastpath_recv_update (fp_malloc env) (fp_update env) code ?x ?v = Some ((rc0, r0), v')"
    using d(1) by (auto simp: deliver_update_def rewound_def Let_def bind_eq_Some_conv split: option.splits)
  have "rc = (if rc0 < 0 then - 1 else rc0)" "r0 = r"
    using d(1) f by (auto simp: deliver_update_def rewound_def Let_def)
  then have "process_once env code ?v [packet_size p] rdp = Some (if rc < 0 then - 3 else 0, packet_end env r)" using f by simp
  then show ?thesis using pdu v d(2,3) by (intro exI [of _ ?v]) (auto simp: fp_ok_def)
qed

text \<open>A packet that is not the last one adds its bytes to what the client has collected.\<close>

lemma recv_more_packet:
  assumes "client_ok env" "growable (updateData fp)" "pending n fp" "Stream_GetPosition (updateData fp) + length dst \<le> unat (MultifragMaxRequestSize env)"
    "wf_stream (Stream_SetPosition p 0)" "rest (Stream_SetPosition p 0) = plain_packet code (fragment_kind n remaining) dst" "length dst \<le> 16363"
    "code < 16" "remaining \<noteq> 0"
  shows "\<exists>fp'. growable (updateData fp') \<and> out (updateData fp') = out (updateData fp) @ dst \<and> pending (n + 1) fp' \<and>
    (\<forall>ps. recv_packets env fp rdp (p # ps) = recv_packets env fp' (packet_end env (packet_start env (packet_size p) rdp)) ps)"
proof -
  let ?x = "packet_start env (packet_size p) rdp"
  have "Stream_GetPosition (updateData fp) < 2 ^ 32" using assms(4) unat_u32 [of "MultifragMaxRequestSize env"] by simp
  from recv_plain_packet [OF assms(1,2) this assms(5-8) fragment_kind_less, of rdp]
  obtain ud t where ud: "growable ud" "out ud = out (updateData fp) @ dst" "rdp_recv_fastpath_pdu env fp rdp (Stream_SetPosition p 0) = do {
      (rc, fp, rdp) \<leftarrow> reassemble env code (fragment_kind n remaining) (fp\<lparr>encryptionFlags := 0, numberEvents := 0, updateData := ud\<rparr>) ?x;
      Some ((if rc < 0 then - 3 else 0, fp, packet_end env rdp), t) }" by blast
  let ?fp = "fp\<lparr>encryptionFlags := 0, numberEvents := 0, updateData := ud\<rparr>"
  have l: "Stream_GetPosition ud = Stream_GetPosition (updateData fp) + length dst"
    using length_out [OF growable_wf [OF ud(1)]] length_out [OF growable_wf [OF assms(2)]] ud(2) by (simp add: Stream_GetPosition_def)
  have "pending n ?fp" using assms(3) by (simp add: pending_def)
  then obtain fp' where r: "reassemble env code (fragment_kind n remaining) ?fp ?x = Some (0, fp', ?x)" "pending (n + 1) fp'" "updateData fp' = ud"
    using reassemble_more [of n ?fp remaining env code ?x] assms(4,9) l by auto
  have "rdp_recv_fastpath_pdu env fp rdp (Stream_SetPosition p 0) = Some ((0, fp', packet_end env ?x), t)" unfolding ud(3) using r(1) by simp
  then show ?thesis using r(2,3) ud(1,2) by (intro exI [of _ fp']) simp
qed

lemma fragments_reassembled:
  assumes "plain_server senv skip rdp" "client_ok cenv" "code < 16"
    "fs_ok (fs fp)" "totalLength > 0 \<or> n = 0" "s_pointer s + unat totalLength \<le> length (s_buffer s)"
    "growable (updateData cfp)" "pending n cfp" "Stream_GetPosition (updateData cfp) + unat totalLength \<le> unat (MultifragMaxRequestSize cenv)"
  shows "\<exists>fp' new s'. fragment_loop senv skip code (max_fragment senv skip) n totalLength fp rdp s outs = Some ((Some True, fp', rdp, outs @ new), s') \<and>
    fs_ok (fs fp') \<and> new \<noteq> [] \<and> (\<exists>ud rc cfp' r. wf_stream ud \<and> rest ud = out (updateData cfp) @ take (unat totalLength) (drop (s_pointer s) (s_buffer s)) \<and>
      recv_packets cenv cfp crdp new = Some (rc, cfp', r) \<and> process_once cenv code ud (map packet_size new) crdp = Some (rc, r) \<and>
      fp_ok cenv cfp' \<and> fragmentation cfp' = - 1)"
  using assms(4-)
proof (induction "unat totalLength" arbitrary: n totalLength fp s outs cfp crdp rule: less_induct)
  case less
  define k where "k = min (unat totalLength) 16363"
  define src where "src = take k (drop (s_pointer s) (s_buffer s))"
  have ls: "length src = k" "k \<le> unat totalLength" "k \<le> 16363" using less.prems(3) by (auto simp: src_def k_def)
  obtain g remaining where g: "unat remaining = unat totalLength - k" "fs_ok g" "wf_stream (Stream_SetPosition g 0)"
      "rest (Stream_SetPosition g 0) = plain_packet code (fragment_kind n remaining) src"
      "fragment_loop senv skip code (max_fragment senv skip) n totalLength fp rdp s outs =
        fragment_loop senv skip code (max_fragment senv skip) (n + 1) remaining (fp\<lparr>fs := g\<rparr>) rdp (Stream_Seek s k) (outs @ [g])"
    using plain_round [OF assms(1) less.prems(1-3) k_def src_def] by blast
  have c: "Stream_GetPosition (updateData cfp) + length src \<le> unat (MultifragMaxRequestSize cenv)" using less.prems(6) ls by simp
  show ?case
  proof (cases "remaining = 0")
    case True
    then have k: "k = unat totalLength" using g(1) ls(2) by simp
    have "fragment_loop senv skip code (max_fragment senv skip) n totalLength fp rdp s outs = Some ((Some True, fp\<lparr>fs := g\<rparr>, rdp, outs @ [g]), Stream_Seek s k)"
      unfolding g(5) True by (subst fragment_loop.simps) simp
    moreover have "\<exists>ud rc cfp' r. wf_stream ud \<and> rest ud = out (updateData cfp) @ src \<and> recv_packets cenv cfp crdp [g] = Some (rc, cfp', r) \<and>
        process_once cenv code ud [packet_size g] crdp = Some (rc, r) \<and> fp_ok cenv cfp' \<and> fragmentation cfp' = - 1"
      by (rule recv_final_packet [OF assms(2) less.prems(4,5) c g(3) g(4) [unfolded True] _ assms(3)]) (use ls in simp)
    ultimately show ?thesis using g(2) by (intro exI [of _ "fp\<lparr>fs := g\<rparr>"] exI [of _ "[g]"] exI [of _ "Stream_Seek s k"]) (simp add: src_def k)
  next
    case False
    let ?c = "packet_end cenv (packet_start cenv (packet_size g) crdp)"
    obtain cfp1 where f: "growable (updateData cfp1)" "out (updateData cfp1) = out (updateData cfp) @ src" "pending (n + 1) cfp1"
        "\<And>ps. recv_packets cenv cfp crdp (g # ps) = recv_packets cenv cfp1 ?c ps"
      using recv_more_packet [OF assms(2) less.prems(4,5) c g(3,4) _ assms(3) False] ls by fastforce
    have p: "Stream_GetPosition (updateData cfp1) = Stream_GetPosition (updateData cfp) + k"
      using length_out [OF growable_wf [OF f(1)]] length_out [OF growable_wf [OF less.prems(4)]] f(2) ls(1) by (simp add: Stream_GetPosition_def)
    have "unat remaining \<noteq> 0" using False by (simp add: unsigned_eq_0_iff)
    then have k: "0 < k" "k < unat totalLength" using g(1) ls(2) by (auto simp: k_def)
    obtain fp' new s' ud rc cfp' r where ih: "fragment_loop senv skip code (max_fragment senv skip) (n + 1) remaining (fp\<lparr>fs := g\<rparr>) rdp (Stream_Seek s k) (outs @ [g]) =
        Some ((Some True, fp', rdp, (outs @ [g]) @ new), s')" "fs_ok (fs fp')" "new \<noteq> []" "wf_stream ud"
        "rest ud = out (updateData cfp1) @ take (unat remaining) (drop (s_pointer (Stream_Seek s k)) (s_buffer (Stream_Seek s k)))"
        "recv_packets cenv cfp1 ?c new = Some (rc, cfp', r)" "process_once cenv code ud (map packet_size new) ?c = Some (rc, r)"
        "fp_ok cenv cfp'" "fragmentation cfp' = - 1"
      using less.hyps [of remaining "fp\<lparr>fs := g\<rparr>" "n + 1" "Stream_Seek s k" cfp1 "outs @ [g]" ?c] less.prems k g(1,2) f(1,3) p
      by (auto simp: word_gt_0 False)
    have "src @ take (unat remaining) (drop (s_pointer s + k) (s_buffer s)) = take (unat totalLength) (drop (s_pointer s) (s_buffer s))"
      using g(1) k(2) take_add [of k "unat remaining" "drop (s_pointer s) (s_buffer s)"] by (simp add: src_def add.commute)
    then have "rest ud = out (updateData cfp) @ take (unat totalLength) (drop (s_pointer s) (s_buffer s))" unfolding ih(5) f(2) by simp
    then show ?thesis using ih(1-4,6-9) f(4) [of new]
      by (intro exI [of _ fp'] exI [of _ "g # new"] exI [of _ s']) (auto simp: g(5))
  qed
qed

text \<open>
  C7: An update of any size up to what the client announced crosses a clear connection whole: the server cuts it
  into packets and succeeds, and a client that was idle and receives these packets in order processes the update exactly
  once, with the last packet, on exactly the bytes the server was given; before that each packet only counts its
  bytes and paints an empty frame, and afterwards the client is idle again.
\<close>

theorem fastpath_update_delivered:
  assumes "plain_server senv skip rdp" "client_ok cenv" "code < 16" "fs_ok (fs fp)" "wf_cap s"
    "Stream_GetPosition s \<le> unat (MultifragMaxRequestSize senv)" "MultifragMaxRequestSize senv \<le> MultifragMaxRequestSize cenv"
    "fp_ok cenv cfp" "fragmentation cfp = - 1"
  shows "\<exists>fp' packets s'. fastpath_send_update_pdu senv fp rdp code s skip = Some ((True, fp', rdp, packets), s') \<and> fs_ok (fs fp') \<and>
    (\<exists>ud rc cfp' crdp'. wf_stream ud \<and> rest ud = out s \<and> recv_packets cenv cfp crdp packets = Some (rc, cfp', crdp') \<and>
      process_once cenv code ud (map packet_size packets) crdp = Some (rc, crdp') \<and> fp_ok cenv cfp' \<and> fragmentation cfp' = - 1)"
proof -
  let ?total = "word_of_nat (Stream_GetPosition s) :: u32" and ?s = "Stream_SetPosition s 0"
  have "Stream_GetPosition s < 2 ^ 32" using assms(6) unat_u32 [of "MultifragMaxRequestSize senv"] by simp
  then have u: "unat ?total = Stream_GetPosition s" by (simp add: unat_of_nat_eq)
  have c: "growable (updateData cfp)" "pending 0 cfp" "out (updateData cfp) = []" "Stream_GetPosition (updateData cfp) = 0"
    using assms(8,9) by (auto simp: fp_ok_def pending_def FASTPATH_FRAGMENT_FIRST_def FASTPATH_FRAGMENT_NEXT_def out_def Stream_GetPosition_def)
  have x: "set_sec_flags rdp = rdp" "rdp\<lparr>sec_flags := 0\<rparr> = rdp" "FastPathOutput senv"
    using assms(1) by (cases rdp; simp add: plain_server_def set_sec_flags_def)+
  have m: "Stream_GetPosition s \<le> unat (MultifragMaxRequestSize cenv)" using assms(6,7) by (simp add: word_le_nat_alt)
  have b: "s_pointer ?s + unat ?total \<le> length (s_buffer ?s)" using assms(5) u by (simp add: wf_cap_def Stream_SetPosition_def Stream_GetPosition_def)
  have "take (unat ?total) (drop (s_pointer ?s) (s_buffer ?s)) = out s" unfolding u by (simp add: out_def Stream_SetPosition_def Stream_GetPosition_def)
  then obtain fp' packets s' ud rc cfp' crdp' where l: "fragment_loop senv skip code (max_fragment senv skip) 0 ?total fp rdp ?s [] =
      Some ((Some True, fp', rdp, packets), s')" "fs_ok (fs fp')" "wf_stream ud" "rest ud = out s"
      "recv_packets cenv cfp crdp packets = Some (rc, cfp', crdp')" "process_once cenv code ud (map packet_size packets) crdp = Some (rc, crdp')"
      "fp_ok cenv cfp'" "fragmentation cfp' = - 1"
    using fragments_reassembled [OF assms(1-4) _ b c(1,2), of "[]" crdp] c(3,4) m u by auto
  have "\<not> ?total > MultifragMaxRequestSize senv" using assms(6) u by (simp add: word_less_nat_alt)
  then have "fastpath_send_update_pdu senv fp rdp code s skip = Some ((True, fp', rdp, packets), s')"
    unfolding fastpath_send_update_pdu_def Let_def x(1) l(1) using x(2,3) by simp
  then show ?thesis using l(2-) by blast
qed

text \<open>An update of forty thousand bytes, which takes three packets.\<close>

definition idle_fp :: rdpFastPath where
  "idle_fp = \<lparr>fs = zero_stream FASTPATH_MAX_PACKET_SIZE, encryptionFlags = 0, numberEvents = 0,
     updateData = zero_stream FASTPATH_MAX_PACKET_SIZE, fragmentation = - 1\<rparr>"

lemma idle_fp_ok: "fs_ok (fs idle_fp)" "fp_ok plain_env idle_fp" "fragmentation idle_fp = - 1"
  by (simp_all add: idle_fp_def fs_ok_def fp_ok_def growable_def zero_stream_def wf_cap_def Stream_GetPosition_def FASTPATH_MAX_PACKET_SIZE_def)

lemma plain_env_client: "client_ok plain_env"
  using plain_env_ok(1)
  by (simp add: client_ok_def plain_env_def alloc_total_def zero_malloc_def update_begin_paint_def update_end_paint_def example_update_def accept_def)

theorem fastpath_update_delivered_witness:
  "\<exists>fp' packets s'. fastpath_send_update_pdu plain_env idle_fp (example_rdp True) 4 (Stream_Seek (zero_stream 50000) 40000) False =
      Some ((True, fp', example_rdp True, packets), s') \<and> fs_ok (fs fp') \<and>
    (\<exists>ud rc cfp' crdp'. wf_stream ud \<and> rest ud = out (Stream_Seek (zero_stream 50000) 40000) \<and>
      recv_packets plain_env idle_fp (example_rdp False) packets = Some (rc, cfp', crdp') \<and>
      process_once plain_env 4 ud (map packet_size packets) (example_rdp False) = Some (rc, crdp') \<and> fp_ok plain_env cfp' \<and> fragmentation cfp' = - 1)"
  by (rule fastpath_update_delivered [OF _ plain_env_client _ idle_fp_ok(1) _ _ _ idle_fp_ok(2,3)])
    (simp_all add: plain_server_def plain_env_def example_rdp_def zero_stream_def wf_cap_def Stream_Seek_def Stream_GetPosition_def word_less_nat_alt)

end
