(* ===== verification/Input.thy ===== *)
theory Input
  imports Fastpath
begin

text \<open>
  Keyboard and mouse input (\<^verbatim>\<open>libfreerdp/core/input.c\<close>): the client's senders on both paths, the callbacks it
  registers, and the server's receiver of slow-path events.

  Settings are the record \<open>input_settings\<close>. A sender returns the streams it handed to the transport; the
  record \<open>client_input\<close> holds the function pointers a client registers. The queue of asynchronous input and
  \<^verbatim>\<open>input_new\<close>, \<^verbatim>\<open>input_free\<close> are not modelled.
\<close>

record input_settings =
  UnicodeInput :: bool
  HasHorizontalWheel :: bool
  HasExtendedMouseEvent :: bool
  FastPathInput :: bool

definition INPUT_EVENT_SYNC :: u16 where "INPUT_EVENT_SYNC = 0x0000"
definition INPUT_EVENT_SCANCODE :: u16 where "INPUT_EVENT_SCANCODE = 0x0004"
definition INPUT_EVENT_UNICODE :: u16 where "INPUT_EVENT_UNICODE = 0x0005"
definition INPUT_EVENT_MOUSE :: u16 where "INPUT_EVENT_MOUSE = 0x8001"
definition INPUT_EVENT_MOUSEX :: u16 where "INPUT_EVENT_MOUSEX = 0x8002"
definition PTR_FLAGS_HWHEEL :: u16 where "PTR_FLAGS_HWHEEL = 0x0400"
definition DATA_PDU_TYPE_INPUT :: byte where "DATA_PDU_TYPE_INPUT = 0x1C"
definition KBDEXT :: u32 where "KBDEXT = 0x100"
definition RDP_SCANCODE_LCONTROL :: byte where "RDP_SCANCODE_LCONTROL = 0x1D"
definition RDP_SCANCODE_NUMLOCK :: byte where "RDP_SCANCODE_NUMLOCK = 0x45"

type_synonym 'k sends = "(bool \<times> 'k rdpRdp \<times> wStream list) option"

text \<open>A sender of one packet, and a sequence of senders that stops at the first failure.\<close>

definition send_one :: "'k sender_result \<Rightarrow> 'k sends" where
  "send_one r = do { (ok, rdp, s) \<leftarrow> r; Some (ok, rdp, case s of None \<Rightarrow> [] | Some s \<Rightarrow> [s]) }"

definition and_send :: "'k sends \<Rightarrow> ('k rdpRdp \<Rightarrow> 'k sends) \<Rightarrow> 'k sends" where
  "and_send r f = do {
     (ok, rdp, out1) \<leftarrow> r;
     (if \<not> ok then Some (False, rdp, out1)
      else do { (ok, rdp, out2) \<leftarrow> f rdp; Some (ok, rdp, out1 @ out2) }) }"

section \<open>Slow path\<close>

definition rdp_write_client_input_pdu_header :: "wStream \<Rightarrow> u16 \<Rightarrow> wStream option" where
  "rdp_write_client_input_pdu_header s number = do { s \<leftarrow> Stream_Write_UINT16 s 1; Stream_Write_UINT16 s 0 }"

definition rdp_write_input_event_header :: "wStream \<Rightarrow> u32 \<Rightarrow> u16 \<Rightarrow> wStream option" where
  "rdp_write_input_event_header s time type = do { s \<leftarrow> Stream_Write_UINT32 s time; Stream_Write_UINT16 s type }"

definition rdp_client_input_pdu_init :: "'k fp_env \<Rightarrow> 'k rdpRdp \<Rightarrow> u16 \<Rightarrow> (wStream option \<times> 'k rdpRdp) option" where
  "rdp_client_input_pdu_init env rdp type = do {
     (r, rdp) \<leftarrow> rdp_data_pdu_init (fp_malloc env) (fp_pool env) rdp;
     (case r of None \<Rightarrow> Some (None, rdp)
      | Some s \<Rightarrow> do {
          s \<leftarrow> rdp_write_client_input_pdu_header s 1;
          s \<leftarrow> rdp_write_input_event_header s 0 type;
          Some (Some s, rdp) }) }"

definition rdp_send_client_input_pdu :: "'k fp_env \<Rightarrow> 'k rdpRdp \<Rightarrow> wStream \<Rightarrow> 'k sender_result" where
  "rdp_send_client_input_pdu env rdp s =
     rdp_send_data_pdu (fp_malloc env) (fp_ops env) (fp_write env) rdp s DATA_PDU_TYPE_INPUT (userId (r_mcs rdp))"

definition input_write_synchronize_event :: "wStream \<Rightarrow> u32 \<Rightarrow> wStream option" where
  "input_write_synchronize_event s flags = do { s \<leftarrow> Stream_Write_UINT16 s 0; Stream_Write_UINT32 s flags }"

definition input_write_keyboard_event :: "wStream \<Rightarrow> u16 \<Rightarrow> u16 \<Rightarrow> wStream option" where
  "input_write_keyboard_event s flags code = do {
     s \<leftarrow> Stream_Write_UINT16 s flags; s \<leftarrow> Stream_Write_UINT16 s code; Stream_Write_UINT16 s 0 }"

definition input_write_unicode_keyboard_event :: "wStream \<Rightarrow> u16 \<Rightarrow> u16 \<Rightarrow> wStream option" where
  "input_write_unicode_keyboard_event s flags code = do {
     s \<leftarrow> Stream_Write_UINT16 s flags; s \<leftarrow> Stream_Write_UINT16 s code; Stream_Write_UINT16 s 0 }"

definition input_write_mouse_event :: "wStream \<Rightarrow> u16 \<Rightarrow> u16 \<Rightarrow> u16 \<Rightarrow> wStream option" where
  "input_write_mouse_event s flags x y = do {
     s \<leftarrow> Stream_Write_UINT16 s flags; s \<leftarrow> Stream_Write_UINT16 s x; Stream_Write_UINT16 s y }"

definition input_write_extended_mouse_event :: "wStream \<Rightarrow> u16 \<Rightarrow> u16 \<Rightarrow> u16 \<Rightarrow> wStream option" where
  "input_write_extended_mouse_event s flags x y = do {
     s \<leftarrow> Stream_Write_UINT16 s flags; s \<leftarrow> Stream_Write_UINT16 s x; Stream_Write_UINT16 s y }"

text \<open>The frame all slow-path senders share: prepare, write the body, send.\<close>

definition send_slow :: "'k fp_env \<Rightarrow> 'k rdpRdp \<Rightarrow> u16 \<Rightarrow> (wStream \<Rightarrow> wStream option) \<Rightarrow> 'k sends" where
  "send_slow env rdp type body = send_one (do {
     (r, rdp) \<leftarrow> rdp_client_input_pdu_init env rdp type;
     (case r of None \<Rightarrow> Some (False, rdp, None)
      | Some s \<Rightarrow> do { s \<leftarrow> body s; rdp_send_client_input_pdu env rdp s }) })"

definition input_send_synchronize_event :: "'k fp_env \<Rightarrow> 'k rdpRdp \<Rightarrow> u32 \<Rightarrow> 'k sends" where
  "input_send_synchronize_event env rdp flags = send_slow env rdp INPUT_EVENT_SYNC (\<lambda>s. input_write_synchronize_event s flags)"

definition input_send_keyboard_event :: "'k fp_env \<Rightarrow> 'k rdpRdp \<Rightarrow> u16 \<times> u16 \<Rightarrow> 'k sends" where
  "input_send_keyboard_event env rdp e = (case e of (flags, code) \<Rightarrow>
     send_slow env rdp INPUT_EVENT_SCANCODE (\<lambda>s. input_write_keyboard_event s flags code))"

definition input_send_unicode_keyboard_event :: "'k fp_env \<Rightarrow> input_settings \<Rightarrow> 'k rdpRdp \<Rightarrow> u16 \<times> u16 \<Rightarrow> 'k sends" where
  "input_send_unicode_keyboard_event env st rdp e = (case e of (flags, code) \<Rightarrow>
     if \<not> UnicodeInput st then Some (False, rdp, [])
     else send_slow env rdp INPUT_EVENT_UNICODE (\<lambda>s. input_write_unicode_keyboard_event s flags code))"

definition input_send_mouse_event :: "'k fp_env \<Rightarrow> input_settings \<Rightarrow> 'k rdpRdp \<Rightarrow> u16 \<times> u16 \<times> u16 \<Rightarrow> 'k sends" where
  "input_send_mouse_event env st rdp e = (case e of (flags, x, y) \<Rightarrow>
     if \<not> HasHorizontalWheel st \<and> flags AND PTR_FLAGS_HWHEEL \<noteq> 0 then Some (True, rdp, [])
     else send_slow env rdp INPUT_EVENT_MOUSE (\<lambda>s. input_write_mouse_event s flags x y))"

definition input_send_extended_mouse_event :: "'k fp_env \<Rightarrow> input_settings \<Rightarrow> 'k rdpRdp \<Rightarrow> u16 \<times> u16 \<times> u16 \<Rightarrow> 'k sends" where
  "input_send_extended_mouse_event env st rdp e = (case e of (flags, x, y) \<Rightarrow>
     if \<not> HasExtendedMouseEvent st then Some (True, rdp, [])
     else send_slow env rdp INPUT_EVENT_MOUSEX (\<lambda>s. input_write_extended_mouse_event s flags x y))"

definition input_send_focus_in_event :: "'k fp_env \<Rightarrow> 'k rdpRdp \<Rightarrow> u16 \<Rightarrow> 'k sends" where
  "input_send_focus_in_event env rdp toggleStates =
     and_send (input_send_keyboard_event env rdp (KBD_FLAGS_RELEASE, 0x0f)) (\<lambda>rdp.
     and_send (input_send_synchronize_event env rdp (ucast (toggleStates AND 0x1F))) (\<lambda>rdp.
     input_send_keyboard_event env rdp (KBD_FLAGS_RELEASE, 0x0f)))"

definition input_send_keyboard_pause_event :: "'k fp_env \<Rightarrow> 'k rdpRdp \<Rightarrow> 'k sends" where
  "input_send_keyboard_pause_event env rdp =
     and_send (input_send_keyboard_event env rdp (KBD_FLAGS_EXTENDED1, ucast RDP_SCANCODE_LCONTROL)) (\<lambda>rdp.
     and_send (input_send_keyboard_event env rdp (0, ucast RDP_SCANCODE_NUMLOCK)) (\<lambda>rdp.
     and_send (input_send_keyboard_event env rdp (KBD_FLAGS_RELEASE OR KBD_FLAGS_EXTENDED1, ucast RDP_SCANCODE_LCONTROL)) (\<lambda>rdp.
     input_send_keyboard_event env rdp (KBD_FLAGS_RELEASE, ucast RDP_SCANCODE_NUMLOCK))))"

section \<open>Fast path\<close>

definition send_fast :: "'k fp_env \<Rightarrow> 'k rdpRdp \<Rightarrow> byte \<Rightarrow> byte \<Rightarrow> (wStream \<Rightarrow> wStream option) \<Rightarrow> 'k sends" where
  "send_fast env rdp eventFlags eventCode body = send_one (do {
     (r, rdp) \<leftarrow> fastpath_input_pdu_init env rdp eventFlags eventCode;
     (case r of None \<Rightarrow> Some (False, rdp, None)
      | Some s \<Rightarrow> do { s \<leftarrow> body s; fastpath_send_input_pdu env rdp s }) })"

definition input_send_fastpath_synchronize_event :: "'k fp_env \<Rightarrow> 'k rdpRdp \<Rightarrow> u32 \<Rightarrow> 'k sends" where
  "input_send_fastpath_synchronize_event env rdp flags = send_fast env rdp (ucast flags) FASTPATH_INPUT_EVENT_SYNC Some"

definition input_send_fastpath_keyboard_event :: "'k fp_env \<Rightarrow> 'k rdpRdp \<Rightarrow> u16 \<times> u16 \<Rightarrow> 'k sends" where
  "input_send_fastpath_keyboard_event env rdp e = (case e of (flags, code) \<Rightarrow>
     let eventFlags = (if flags AND KBD_FLAGS_RELEASE \<noteq> 0 then FASTPATH_INPUT_KBDFLAGS_RELEASE else 0);
         eventFlags = eventFlags OR (if flags AND KBD_FLAGS_EXTENDED \<noteq> 0 then FASTPATH_INPUT_KBDFLAGS_EXTENDED else 0);
         eventFlags = eventFlags OR (if flags AND KBD_FLAGS_EXTENDED1 \<noteq> 0 then FASTPATH_INPUT_KBDFLAGS_PREFIX_E1 else 0)
     in send_fast env rdp eventFlags FASTPATH_INPUT_EVENT_SCANCODE (\<lambda>s. Stream_Write_UINT8 s (ucast code)))"

definition input_send_fastpath_unicode_keyboard_event :: "'k fp_env \<Rightarrow> input_settings \<Rightarrow> 'k rdpRdp \<Rightarrow> u16 \<times> u16 \<Rightarrow> 'k sends" where
  "input_send_fastpath_unicode_keyboard_event env st rdp e = (case e of (flags, code) \<Rightarrow>
     if \<not> UnicodeInput st then Some (False, rdp, [])
     else send_fast env rdp (if flags AND KBD_FLAGS_RELEASE \<noteq> 0 then FASTPATH_INPUT_KBDFLAGS_RELEASE else 0)
       FASTPATH_INPUT_EVENT_UNICODE (\<lambda>s. Stream_Write_UINT16 s code))"

definition input_send_fastpath_mouse_event :: "'k fp_env \<Rightarrow> input_settings \<Rightarrow> 'k rdpRdp \<Rightarrow> u16 \<times> u16 \<times> u16 \<Rightarrow> 'k sends" where
  "input_send_fastpath_mouse_event env st rdp e = (case e of (flags, x, y) \<Rightarrow>
     if \<not> HasHorizontalWheel st \<and> flags AND PTR_FLAGS_HWHEEL \<noteq> 0 then Some (True, rdp, [])
     else send_fast env rdp 0 FASTPATH_INPUT_EVENT_MOUSE (\<lambda>s. input_write_mouse_event s flags x y))"

definition input_send_fastpath_extended_mouse_event :: "'k fp_env \<Rightarrow> input_settings \<Rightarrow> 'k rdpRdp \<Rightarrow> u16 \<times> u16 \<times> u16 \<Rightarrow> 'k sends" where
  "input_send_fastpath_extended_mouse_event env st rdp e = (case e of (flags, x, y) \<Rightarrow>
     if \<not> HasExtendedMouseEvent st then Some (True, rdp, [])
     else send_fast env rdp 0 FASTPATH_INPUT_EVENT_MOUSEX (\<lambda>s. input_write_extended_mouse_event s flags x y))"

text \<open>A packet of several events.\<close>

fun write_bytes :: "byte list \<Rightarrow> wStream \<Rightarrow> wStream option" where
  "write_bytes [] s = Some s"
| "write_bytes (b # bs) s = do { s \<leftarrow> Stream_Write_UINT8 s b; write_bytes bs s }"

definition send_fast_multiple :: "'k fp_env \<Rightarrow> 'k rdpRdp \<Rightarrow> byte list \<Rightarrow> nat \<Rightarrow> 'k sends" where
  "send_fast_multiple env rdp bytes n = send_one (do {
     (r, rdp) \<leftarrow> fastpath_input_pdu_init_header env rdp;
     (case r of None \<Rightarrow> Some (False, rdp, None)
      | Some s \<Rightarrow> do { s \<leftarrow> write_bytes bytes s; fastpath_send_multiple_input_pdu env rdp s n }) })"

definition input_send_fastpath_focus_in_event :: "'k fp_env \<Rightarrow> 'k rdpRdp \<Rightarrow> u16 \<Rightarrow> 'k sends" where
  "input_send_fastpath_focus_in_event env rdp toggleStates =
     (let tab = FASTPATH_INPUT_KBDFLAGS_RELEASE OR push_bit 5 FASTPATH_INPUT_EVENT_SCANCODE;
          toggle = ucast (toggleStates AND 0x1F) OR push_bit 5 FASTPATH_INPUT_EVENT_SYNC
      in send_fast_multiple env rdp [tab, 0x0f, toggle, tab, 0x0f] 3)"

definition input_send_fastpath_keyboard_pause_event :: "'k fp_env \<Rightarrow> 'k rdpRdp \<Rightarrow> 'k sends" where
  "input_send_fastpath_keyboard_pause_event env rdp =
     (let keyDownEvent = push_bit 5 FASTPATH_INPUT_EVENT_SCANCODE;
          keyUpEvent = push_bit 5 FASTPATH_INPUT_EVENT_SCANCODE OR FASTPATH_INPUT_KBDFLAGS_RELEASE
      in send_fast_multiple env rdp
           [keyDownEvent OR FASTPATH_INPUT_KBDFLAGS_PREFIX_E1, RDP_SCANCODE_LCONTROL, keyDownEvent, RDP_SCANCODE_NUMLOCK,
            keyUpEvent OR FASTPATH_INPUT_KBDFLAGS_PREFIX_E1, RDP_SCANCODE_LCONTROL, keyUpEvent, RDP_SCANCODE_NUMLOCK] 4)"

section \<open>The interface of the client\<close>

record 'k client_input =
  ci_SynchronizeEvent :: "'k rdpRdp \<Rightarrow> u32 \<Rightarrow> 'k sends"
  ci_KeyboardEvent :: "'k rdpRdp \<Rightarrow> u16 \<times> u16 \<Rightarrow> 'k sends"
  ci_KeyboardPauseEvent :: "'k rdpRdp \<Rightarrow> 'k sends"
  ci_UnicodeKeyboardEvent :: "'k rdpRdp \<Rightarrow> u16 \<times> u16 \<Rightarrow> 'k sends"
  ci_MouseEvent :: "'k rdpRdp \<Rightarrow> u16 \<times> u16 \<times> u16 \<Rightarrow> 'k sends"
  ci_ExtendedMouseEvent :: "'k rdpRdp \<Rightarrow> u16 \<times> u16 \<times> u16 \<Rightarrow> 'k sends"
  ci_FocusInEvent :: "'k rdpRdp \<Rightarrow> u16 \<Rightarrow> 'k sends"

definition input_register_client_callbacks :: "'k fp_env \<Rightarrow> input_settings \<Rightarrow> 'k client_input" where
  "input_register_client_callbacks env st =
     (if FastPathInput st then
        \<lparr>ci_SynchronizeEvent = input_send_fastpath_synchronize_event env, ci_KeyboardEvent = input_send_fastpath_keyboard_event env,
         ci_KeyboardPauseEvent = input_send_fastpath_keyboard_pause_event env,
         ci_UnicodeKeyboardEvent = input_send_fastpath_unicode_keyboard_event env st,
         ci_MouseEvent = input_send_fastpath_mouse_event env st, ci_ExtendedMouseEvent = input_send_fastpath_extended_mouse_event env st,
         ci_FocusInEvent = input_send_fastpath_focus_in_event env\<rparr>
      else
        \<lparr>ci_SynchronizeEvent = input_send_synchronize_event env, ci_KeyboardEvent = input_send_keyboard_event env,
         ci_KeyboardPauseEvent = input_send_keyboard_pause_event env,
         ci_UnicodeKeyboardEvent = input_send_unicode_keyboard_event env st,
         ci_MouseEvent = input_send_mouse_event env st, ci_ExtendedMouseEvent = input_send_extended_mouse_event env st,
         ci_FocusInEvent = input_send_focus_in_event env\<rparr>)"

text \<open>The functions \<^verbatim>\<open>freerdp_input_send_*\<close> of an application, here for registered callbacks.\<close>

definition freerdp_input_send_synchronize_event :: "'k client_input \<Rightarrow> 'k rdpRdp \<Rightarrow> u32 \<Rightarrow> 'k sends" where
  "freerdp_input_send_synchronize_event input rdp flags = ci_SynchronizeEvent input rdp flags"

definition freerdp_input_send_keyboard_event :: "'k client_input \<Rightarrow> 'k rdpRdp \<Rightarrow> u16 \<Rightarrow> u16 \<Rightarrow> 'k sends" where
  "freerdp_input_send_keyboard_event input rdp flags code = ci_KeyboardEvent input rdp (flags, code)"

definition freerdp_input_send_keyboard_event_ex :: "'k client_input \<Rightarrow> 'k rdpRdp \<Rightarrow> bool \<Rightarrow> u32 \<Rightarrow> 'k sends" where
  "freerdp_input_send_keyboard_event_ex input rdp down rdp_scancode =
     freerdp_input_send_keyboard_event input rdp
       ((if rdp_scancode AND KBDEXT \<noteq> 0 then KBD_FLAGS_EXTENDED else 0) OR (if down then KBD_FLAGS_DOWN else KBD_FLAGS_RELEASE))
       (ucast (ucast (rdp_scancode AND 0xFF) :: byte))"

definition freerdp_input_send_unicode_keyboard_event :: "'k client_input \<Rightarrow> 'k rdpRdp \<Rightarrow> u16 \<Rightarrow> u16 \<Rightarrow> 'k sends" where
  "freerdp_input_send_unicode_keyboard_event input rdp flags code = ci_UnicodeKeyboardEvent input rdp (flags, code)"

definition freerdp_input_send_mouse_event :: "'k client_input \<Rightarrow> 'k rdpRdp \<Rightarrow> u16 \<Rightarrow> u16 \<Rightarrow> u16 \<Rightarrow> 'k sends" where
  "freerdp_input_send_mouse_event input rdp flags x y = ci_MouseEvent input rdp (flags, x, y)"

definition freerdp_input_send_extended_mouse_event :: "'k client_input \<Rightarrow> 'k rdpRdp \<Rightarrow> u16 \<Rightarrow> u16 \<Rightarrow> u16 \<Rightarrow> 'k sends" where
  "freerdp_input_send_extended_mouse_event input rdp flags x y = ci_ExtendedMouseEvent input rdp (flags, x, y)"

definition freerdp_input_send_focus_in_event :: "'k client_input \<Rightarrow> 'k rdpRdp \<Rightarrow> u16 \<Rightarrow> 'k sends" where
  "freerdp_input_send_focus_in_event input rdp toggleStates = ci_FocusInEvent input rdp toggleStates"

definition freerdp_input_send_keyboard_pause_event :: "'k client_input \<Rightarrow> 'k rdpRdp \<Rightarrow> 'k sends" where
  "freerdp_input_send_keyboard_pause_event input rdp = ci_KeyboardPauseEvent input rdp"

section \<open>Slow-path events at the server\<close>

definition input_recv_sync_event :: "'k rdpInput \<Rightarrow> 'k pdu_handler" where
  "input_recv_sync_event i rdp s =
     (if Stream_GetRemainingLength s < 6 then Some ((False, rdp), s)
      else do {
        let s = Stream_Seek s 2;
        (toggleFlags, s) \<leftarrow> Stream_Read_UINT32 s;
        Some (if_call_result True (SynchronizeEvent i) rdp toggleFlags, s) })"

definition fix_key_flags :: "u16 \<Rightarrow> u16" where
  "fix_key_flags flags = (if flags AND KBD_FLAGS_RELEASE \<noteq> 0 then flags AND NOT KBD_FLAGS_DOWN else flags OR KBD_FLAGS_DOWN)"

definition input_recv_keyboard_event :: "'k rdpInput \<Rightarrow> 'k pdu_handler" where
  "input_recv_keyboard_event i rdp s =
     (if Stream_GetRemainingLength s < 6 then Some ((False, rdp), s)
      else do {
        (flags, s) \<leftarrow> Stream_Read_UINT16 s;
        (code, s) \<leftarrow> Stream_Read_UINT16 s;
        let s = Stream_Seek s 2;
        Some (if_call_result True (KeyboardEvent i) rdp (fix_key_flags flags, code), s) })"

definition input_recv_unicode_keyboard_event :: "'k rdpInput \<Rightarrow> 'k pdu_handler" where
  "input_recv_unicode_keyboard_event i rdp s =
     (if Stream_GetRemainingLength s < 6 then Some ((False, rdp), s)
      else do {
        (flags, s) \<leftarrow> Stream_Read_UINT16 s;
        (code, s) \<leftarrow> Stream_Read_UINT16 s;
        let s = Stream_Seek s 2;
        Some (if_call_result True (UnicodeKeyboardEvent i) rdp (fix_key_flags flags, code), s) })"

definition input_recv_mouse_event :: "'k rdpInput \<Rightarrow> 'k pdu_handler" where
  "input_recv_mouse_event i rdp s =
     (if Stream_GetRemainingLength s < 6 then Some ((False, rdp), s)
      else do {
        (flags, s) \<leftarrow> Stream_Read_UINT16 s;
        (x, s) \<leftarrow> Stream_Read_UINT16 s;
        (y, s) \<leftarrow> Stream_Read_UINT16 s;
        Some (if_call_result True (MouseEvent i) rdp (flags, x, y), s) })"

definition input_recv_extended_mouse_event :: "'k rdpInput \<Rightarrow> 'k pdu_handler" where
  "input_recv_extended_mouse_event i rdp s =
     (if Stream_GetRemainingLength s < 6 then Some ((False, rdp), s)
      else do {
        (flags, s) \<leftarrow> Stream_Read_UINT16 s;
        (x, s) \<leftarrow> Stream_Read_UINT16 s;
        (y, s) \<leftarrow> Stream_Read_UINT16 s;
        Some (if_call_result True (ExtendedMouseEvent i) rdp (flags, x, y), s) })"

text \<open>An event of unknown type is skipped without asking whether its six bytes are there.\<close>

definition input_recv_event :: "'k rdpInput \<Rightarrow> 'k pdu_handler" where
  "input_recv_event i rdp s =
     (if Stream_GetRemainingLength s < 6 then Some ((False, rdp), s)
      else do {
        let s = Stream_Seek s 4;
        (messageType, s) \<leftarrow> Stream_Read_UINT16 s;
        (if messageType = INPUT_EVENT_SYNC then input_recv_sync_event i rdp s
         else if messageType = INPUT_EVENT_SCANCODE then input_recv_keyboard_event i rdp s
         else if messageType = INPUT_EVENT_UNICODE then input_recv_unicode_keyboard_event i rdp s
         else if messageType = INPUT_EVENT_MOUSE then input_recv_mouse_event i rdp s
         else if messageType = INPUT_EVENT_MOUSEX then input_recv_extended_mouse_event i rdp s
         else Some ((True, rdp), Stream_Seek s 6)) })"

fun input_recv_loop :: "'k rdpInput \<Rightarrow> nat \<Rightarrow> 'k pdu_handler" where
  "input_recv_loop i 0 rdp s = Some ((True, rdp), s)"
| "input_recv_loop i (Suc n) rdp s = do {
     ((ok, rdp), s) \<leftarrow> input_recv_event i rdp s;
     (if \<not> ok then Some ((False, rdp), s) else input_recv_loop i n rdp s) }"

definition input_recv :: "'k rdpInput \<Rightarrow> 'k pdu_handler" where
  "input_recv i rdp s =
     (if Stream_GetRemainingLength s < 4 then Some ((False, rdp), s)
      else do {
        (numberEvents, s) \<leftarrow> Stream_Read_UINT16 s;
        let s = Stream_Seek s 2;
        (if Stream_GetRemainingLength s < 6 * unat numberEvents then Some ((False, rdp), s)
         else input_recv_loop i (unat numberEvents) rdp s) })"

end
