(* ===== verification/Peer.thy ===== *)
theory Peer
  imports Input
begin

text \<open>
  The packets a server receives from its client (\<^verbatim>\<open>peer_recv_pdu\<close> and the functions it calls in
  \<^verbatim>\<open>libfreerdp/core/peer.c\<close>), for an active connection.

  The record \<open>freerdp_peer\<close> holds the parts of the peer, of its \<^verbatim>\<open>rdpRdp\<close> and fast path that these functions
  change. The record \<open>peer_ops\<close> holds the functions of \<^verbatim>\<open>connection.c\<close> and \<^verbatim>\<open>channels.c\<close> they call. The
  third component of a result is the packet sent in answer.
\<close>

record 'k freerdp_peer =
  peer_rdp :: "'k rdpRdp"
  peer_fastpath :: rdpFastPath
  ack_frame_id :: u32

record 'k peer_ops =
  rdp_recv_client_synchronize_pdu :: "'k pdu_handler"
  rdp_server_accept_client_control_pdu :: "'k pdu_handler"
  rdp_server_accept_client_persistent_key_list_pdu :: "'k pdu_handler"
  rdp_server_accept_client_font_list_pdu :: "'k pdu_handler"
  rdp_server_accept_confirm_active :: "u16 \<Rightarrow> 'k pdu_handler"
  freerdp_channel_peer_process :: "u16 \<Rightarrow> 'k pdu_handler"
  SurfaceFrameAcknowledge :: "('k rdpRdp \<Rightarrow> u32 \<Rightarrow> 'k rdpRdp) option"

type_synonym ('r, 'k) peer_result = "(('r \<times> 'k freerdp_peer \<times> wStream option) \<times> wStream) option"

definition DATA_PDU_TYPE_REFRESH_RECT :: byte where "DATA_PDU_TYPE_REFRESH_RECT = 0x21"
definition DATA_PDU_TYPE_SUPPRESS_OUTPUT :: byte where "DATA_PDU_TYPE_SUPPRESS_OUTPUT = 0x23"
definition DATA_PDU_TYPE_SHUTDOWN_REQUEST :: byte where "DATA_PDU_TYPE_SHUTDOWN_REQUEST = 0x24"
definition DATA_PDU_TYPE_FONT_LIST :: byte where "DATA_PDU_TYPE_FONT_LIST = 0x27"
definition DATA_PDU_TYPE_BITMAP_CACHE_PERSISTENT_LIST :: byte where "DATA_PDU_TYPE_BITMAP_CACHE_PERSISTENT_LIST = 0x2B"
definition DATA_PDU_TYPE_FRAME_ACKNOWLEDGE :: byte where "DATA_PDU_TYPE_FRAME_ACKNOWLEDGE = 0x38"
definition PDU_TYPE_CONFIRM_ACTIVE :: u16 where "PDU_TYPE_CONFIRM_ACTIVE = 0x3"

text \<open>A handler that only concerns the \<^verbatim>\<open>rdpRdp\<close> of the peer.\<close>

definition on_rdp :: "'k pdu_handler \<Rightarrow> 'k freerdp_peer \<Rightarrow> wStream \<Rightarrow> (bool, 'k) peer_result" where
  "on_rdp f peer s = do { ((ok, rdp), s) \<leftarrow> f (peer_rdp peer) s; Some ((ok, peer\<lparr>peer_rdp := rdp\<rparr>, None), s) }"

definition recv_frame_acknowledge :: "'k peer_ops \<Rightarrow> 'k freerdp_peer \<Rightarrow> wStream \<Rightarrow> (bool, 'k) peer_result" where
  "recv_frame_acknowledge ops peer s =
     (if Stream_GetRemainingLength s < 4 then Some ((False, peer, None), s)
      else do {
        (fid, s) \<leftarrow> Stream_Read_UINT32 s;
        let peer = peer\<lparr>ack_frame_id := fid\<rparr>;
        Some ((True, case SurfaceFrameAcknowledge ops of None \<Rightarrow> peer | Some f \<Rightarrow> peer\<lparr>peer_rdp := f (peer_rdp peer) fid\<rparr>, None), s) })"

text \<open>The switch over the type of a data PDU.\<close>

definition dispatch_peer_data ::
  "'k peer_ops \<Rightarrow> 'k fp_env \<Rightarrow> byte \<Rightarrow> 'k freerdp_peer \<Rightarrow> wStream \<Rightarrow> (bool, 'k) peer_result" where
  "dispatch_peer_data ops env type peer s =
     (if type = DATA_PDU_TYPE_SYNCHRONIZE then on_rdp (rdp_recv_client_synchronize_pdu ops) peer s
      else if type = DATA_PDU_TYPE_CONTROL then on_rdp (rdp_server_accept_client_control_pdu ops) peer s
      else if type = DATA_PDU_TYPE_INPUT then on_rdp (input_recv (fp_input env)) peer s
      else if type = DATA_PDU_TYPE_BITMAP_CACHE_PERSISTENT_LIST then
        on_rdp (rdp_server_accept_client_persistent_key_list_pdu ops) peer s
      else if type = DATA_PDU_TYPE_FONT_LIST then on_rdp (rdp_server_accept_client_font_list_pdu ops) peer s
      else if type = DATA_PDU_TYPE_SHUTDOWN_REQUEST then do {
        (_, mcs, answer) \<leftarrow> mcs_send_disconnect_provider_ultimatum (fp_malloc env) (fp_write env) (r_mcs (peer_rdp peer));
        Some ((False, peer\<lparr>peer_rdp := (peer_rdp peer)\<lparr>r_mcs := mcs\<rparr>\<rparr>, answer), s) }
      else if type = DATA_PDU_TYPE_FRAME_ACKNOWLEDGE then recv_frame_acknowledge ops peer s
      else if type = DATA_PDU_TYPE_REFRESH_RECT then on_rdp (update_read_refresh_rect (fp_malloc env) (fp_update env)) peer s
      else if type = DATA_PDU_TYPE_SUPPRESS_OUTPUT then on_rdp (update_read_suppress_output (fp_update env)) peer s
      else Some ((True, peer, None), s))"

definition peer_recv_data_pdu :: "'k peer_ops \<Rightarrow> 'k fp_env \<Rightarrow> 'k freerdp_peer \<Rightarrow> wStream \<Rightarrow> (bool, 'k) peer_result" where
  "peer_recv_data_pdu ops env peer s = do {
     (h, s) \<leftarrow> rdp_read_share_data_header s;
     (case h of None \<Rightarrow> Some ((False, peer, None), s)
      | Some (len, type, shareid, ctype, clen) \<Rightarrow> dispatch_peer_data ops env type peer s) }"

text \<open>The share control PDU of a packet on the global channel; then the branches over the channel.\<close>

definition peer_recv_share_pdu :: "'k peer_ops \<Rightarrow> 'k fp_env \<Rightarrow> 'k freerdp_peer \<Rightarrow> wStream \<Rightarrow> (bool, 'k) peer_result" where
  "peer_recv_share_pdu ops env peer s = do {
     (h, s) \<leftarrow> rdp_read_share_control_header s;
     (case h of None \<Rightarrow> Some ((False, peer, None), s)
      | Some (pduLength, remain, pduType, pduSource) \<Rightarrow>
          let peer = peer\<lparr>peer_rdp := (peer_rdp peer)\<lparr>PduSource := pduSource\<rparr>\<rparr> in
          if pduType = PDU_TYPE_DATA then peer_recv_data_pdu ops env peer s
          else if pduType = PDU_TYPE_CONFIRM_ACTIVE then on_rdp (rdp_server_accept_confirm_active ops pduLength) peer s
          else if pduType = PDU_TYPE_FLOW_RESPONSE \<or> pduType = PDU_TYPE_FLOW_STOP \<or> pduType = PDU_TYPE_FLOW_TEST then
            let (ok, s) = Stream_SafeSeek s (unat remain) in Some ((ok, peer, None), s)
          else Some ((False, peer, None), s)) }"

definition finish_peer_packet :: "(bool, 'k) peer_result \<Rightarrow> (int, 'k) peer_result" where
  "finish_peer_packet r = do {
     ((ok, peer, answer), s) \<leftarrow> r;
     Some ((if ok \<and> tpkt_ensure_stream_consumed s then 0 else - 1, peer, answer), s) }"

definition peer_recv_by_channel ::
  "'k env \<Rightarrow> 'k handlers \<Rightarrow> 'k peer_ops \<Rightarrow> 'k fp_env \<Rightarrow> 'k freerdp_peer \<Rightarrow> wStream \<Rightarrow> u16 \<Rightarrow> u16 \<Rightarrow> (int, 'k) peer_result" where
  "peer_recv_by_channel e h ops env peer s channelId securityFlags =
     (if channelId = MCS_GLOBAL_CHANNEL_ID then finish_peer_packet (peer_recv_share_pdu ops env peer s)
      else if messageChannelId (r_mcs (peer_rdp peer)) \<noteq> 0 \<and> channelId = messageChannelId (r_mcs (peer_rdp peer)) then do {
        (flags, s) \<leftarrow> (if \<not> UseRdpSecurityLayer (peer_rdp peer) then do {
                          (r, s) \<leftarrow> rdp_read_security_header s None;
                          Some (map_option fst r, s) }
                        else Some (Some securityFlags, s));
        (case flags of None \<Rightarrow> Some ((- 1, peer, None), s)
         | Some flags \<Rightarrow> do {
             ((rc, rdp, answer), s) \<leftarrow> rdp_recv_message_channel_pdu e h (peer_rdp peer) s flags;
             Some ((rc, peer\<lparr>peer_rdp := rdp\<rparr>, answer), s) }) }
      else finish_peer_packet (on_rdp (freerdp_channel_peer_process ops channelId) peer s))"

definition peer_recv_tpkt_pdu ::
  "'k env \<Rightarrow> 'k handlers \<Rightarrow> 'k peer_ops \<Rightarrow> 'k fp_env \<Rightarrow> 'k freerdp_peer \<Rightarrow> wStream \<Rightarrow> (int, 'k) peer_result" where
  "peer_recv_tpkt_pdu e h ops env peer s = do {
     ((r, rdp), s) \<leftarrow> rdp_read_header (peer_rdp peer) s;
     (case r of None \<Rightarrow> Some ((- 1, peer\<lparr>peer_rdp := rdp\<rparr>, None), s)
      | Some (len, channelId) \<Rightarrow> do {
          let rdp = rdp\<lparr>inPackets := inPackets rdp + 1\<rparr>;
          let peer = peer\<lparr>peer_rdp := rdp\<rparr>;
          (if freerdp_shall_disconnect rdp then Some ((0, peer, None), s)
           else if UseRdpSecurityLayer rdp then do {
             (sh, s) \<leftarrow> rdp_read_security_header s (Some len);
             (case sh of Some (securityFlags, Some len) \<Rightarrow> do {
                 ((dec, rdp), s) \<leftarrow>
                   (if ucast securityFlags AND SEC_ENCRYPT \<noteq> 0 then rdp_decrypt (fp_ops env) rdp s len securityFlags
                    else Some ((Some len, rdp), s));
                 let peer = peer\<lparr>peer_rdp := rdp\<rparr>;
                 (case dec of None \<Rightarrow> Some ((- 1, peer, None), s)
                  | Some _ \<Rightarrow> peer_recv_by_channel e h ops env peer s channelId securityFlags) }
              | _ \<Rightarrow> Some ((- 1, peer, None), s)) }
           else peer_recv_by_channel e h ops env peer s channelId 0) }) }"

text \<open>
  The result of \<^verbatim>\<open>fastpath_read_header_rdp\<close> is not asked for; when it fails, the length is the uninitialised \<open>junk\<close>.
\<close>

definition peer_recv_fastpath_pdu :: "u16 \<Rightarrow> 'k fp_env \<Rightarrow> 'k freerdp_peer \<Rightarrow> wStream \<Rightarrow> (int, 'k) peer_result" where
  "peer_recv_fastpath_pdu junk env peer s = do {
     ((r, fp), s) \<leftarrow> fastpath_read_header_rdp (peer_fastpath peer) s;
     let len = (case r of None \<Rightarrow> junk | Some len \<Rightarrow> len);
     let peer = peer\<lparr>peer_fastpath := fp\<rparr>;
     (if len = 0 \<or> unat len > Stream_GetRemainingLength s then Some ((- 1, peer, None), s)
      else do {
        ((dec, rdp), s) \<leftarrow>
          (if encryptionFlags fp AND FASTPATH_OUTPUT_ENCRYPTED \<noteq> 0 then
             rdp_decrypt (fp_ops env) (peer_rdp peer) s len
               (if encryptionFlags fp AND FASTPATH_OUTPUT_SECURE_CHECKSUM \<noteq> 0 then ucast SEC_SECURE_CHECKSUM else 0)
           else Some ((Some len, peer_rdp peer), s));
        (case dec of None \<Rightarrow> Some ((- 1, peer\<lparr>peer_rdp := rdp\<rparr>, None), s)
         | Some _ \<Rightarrow> do {
             ((rc, fp, rdp), s) \<leftarrow> fastpath_recv_inputs (fp_input env) fp (rdp\<lparr>inPackets := inPackets rdp + 1\<rparr>) s;
             Some ((rc, peer\<lparr>peer_rdp := rdp, peer_fastpath := fp\<rparr>, None), s) }) }) }"

definition peer_recv_pdu ::
  "u16 \<Rightarrow> 'k env \<Rightarrow> 'k handlers \<Rightarrow> 'k peer_ops \<Rightarrow> 'k fp_env \<Rightarrow> 'k freerdp_peer \<Rightarrow> wStream \<Rightarrow> (int, 'k) peer_result" where
  "peer_recv_pdu junk e h ops env peer s = do {
     slow \<leftarrow> tpkt_verify_header s;
     (if slow then peer_recv_tpkt_pdu e h ops env peer s else peer_recv_fastpath_pdu junk env peer s) }"

end
