(* ===== verification/Input_Exchange.thy ===== *)
theory Input_Exchange
  imports Peer Fastpath_Send
begin

text \<open>
  Input from the client's application to the server's callbacks, over both paths. An action of the user is one
  event, a focus change or the pause key; it reaches the server as the same calls in the same order,
  in one packet on the fast path and in one packet per event on the slow path.
\<close>

section \<open>Events\<close>

datatype input_event =
    SyncEvent u32
  | KeyEvent u16 u16
  | UnicodeEvent u16 u16
  | MouseEv u16 u16 u16
  | MouseExEv u16 u16 u16

text \<open>The call an event leads to at the server.\<close>

definition call_event :: "'k rdpInput \<Rightarrow> input_event \<Rightarrow> 'k rdpRdp \<Rightarrow> bool \<times> 'k rdpRdp" where
  "call_event i e rdp = (case e of
     SyncEvent flags \<Rightarrow> if_call_result True (SynchronizeEvent i) rdp flags
   | KeyEvent flags code \<Rightarrow> if_call_result True (KeyboardEvent i) rdp (fix_key_flags flags, code)
   | UnicodeEvent flags code \<Rightarrow> if_call_result True (UnicodeKeyboardEvent i) rdp (fix_key_flags flags, code)
   | MouseEv flags x y \<Rightarrow> if_call_result True (MouseEvent i) rdp (flags, x, y)
   | MouseExEv flags x y \<Rightarrow> if_call_result True (ExtendedMouseEvent i) rdp (flags, x, y))"

fun call_events :: "'k rdpInput \<Rightarrow> input_event list \<Rightarrow> 'k rdpRdp \<Rightarrow> bool \<times> 'k rdpRdp" where
  "call_events i [] rdp = (True, rdp)"
| "call_events i (e # es) rdp = (let (ok, rdp) = call_event i e rdp in if \<not> ok then (False, rdp) else call_events i es rdp)"

section \<open>The slow path\<close>

definition slow_type :: "input_event \<Rightarrow> u16" where
  "slow_type e = (case e of SyncEvent _ \<Rightarrow> INPUT_EVENT_SYNC | KeyEvent _ _ \<Rightarrow> INPUT_EVENT_SCANCODE | UnicodeEvent _ _ \<Rightarrow> INPUT_EVENT_UNICODE
   | MouseEv _ _ _ \<Rightarrow> INPUT_EVENT_MOUSE | MouseExEv _ _ _ \<Rightarrow> INPUT_EVENT_MOUSEX)"

definition slow_body :: "input_event \<Rightarrow> byte list" where
  "slow_body e = (case e of SyncEvent flags \<Rightarrow> u16_enc 0 @ u32_enc flags | KeyEvent flags code \<Rightarrow> u16_enc flags @ u16_enc code @ u16_enc 0
   | UnicodeEvent flags code \<Rightarrow> u16_enc flags @ u16_enc code @ u16_enc 0 | MouseEv flags x y \<Rightarrow> u16_enc flags @ u16_enc x @ u16_enc y
   | MouseExEv flags x y \<Rightarrow> u16_enc flags @ u16_enc x @ u16_enc y)"

definition slow_enc :: "input_event \<Rightarrow> byte list" where
  "slow_enc e = u32_enc 0 @ u16_enc (slow_type e) @ slow_body e"

lemma length_slow [simp]: "length (slow_body e) = 6" "length (slow_enc e) = 12"
  by (simp_all add: slow_enc_def slow_body_def split: input_event.split)

lemmas input_event_types = INPUT_EVENT_SYNC_def INPUT_EVENT_SCANCODE_def INPUT_EVENT_UNICODE_def INPUT_EVENT_MOUSE_def INPUT_EVENT_MOUSEX_def

lemma recv_slow_event:
  assumes "wf_stream s" "rest s = slow_enc e @ r"
  shows "input_recv_event i rdp s = Some (call_event i e rdp, Stream_Seek s 12)"
proof -
  have a: "avail s = 12 + length r" using length_rest [OF assms(1)] assms(2) by simp
  have t: "get16 (drop 4 (rest s)) = slow_type e" "drop 6 (rest s) = slow_body e @ r"
    "drop 8 (rest s) = drop 2 (slow_body e) @ r" "drop 10 (rest s) = drop 4 (slow_body e) @ r"
    by (simp_all add: assms(2) slow_enc_def wire_simps)
  show ?thesis
    by (cases e) (simp_all add: input_recv_event_def assms(1) a wire_simps t slow_type_def input_event_types input_recv_sync_event_def
        input_recv_keyboard_event_def input_recv_unicode_keyboard_event_def input_recv_mouse_event_def input_recv_extended_mouse_event_def
        slow_body_def call_event_def Let_def)
qed

text \<open>A client on a clear connection, ready to send.\<close>

definition input_client :: "'k fp_env \<Rightarrow> 'k rdpRdp \<Rightarrow> bool" where
  "input_client env rdp \<longleftrightarrow> pool_ok (fp_pool env) \<and> fp_pool env 256 \<noteq> None \<and> fp_pool env 4096 \<noteq> None \<and> (\<forall>f. 0 \<le> fp_write env f) \<and>
     fp_state env = CONNECTION_STATE_ACTIVE \<and> \<not> do_crypt rdp \<and> sec_flags rdp = 0 \<and> \<not> ServerMode rdp \<and> MCS_BASE_CHANNEL_ID \<le> userId (r_mcs rdp)"

definition slow_packet :: "'k rdpRdp \<Rightarrow> input_event \<Rightarrow> byte list" where
  "slow_packet rdp e = data_pdu_enc rdp DATA_PDU_TYPE_INPUT (userId (r_mcs rdp)) 16 @ u16_enc 1 @ u16_enc 0 @ slow_enc e"

definition bump :: "'k rdpRdp \<Rightarrow> 'k rdpRdp" where
  "bump rdp = rdp\<lparr>outPackets := outPackets rdp + 1\<rparr>"

lemma send_slow_run:
  assumes "input_client env rdp" "\<And>s. wf_cap s \<Longrightarrow> 6 \<le> room s \<Longrightarrow> body s = Some (put s (slow_body e))"
  shows "\<exists>t. send_slow env rdp (slow_type e) body = Some (True, bump rdp, [t]) \<and> sent (slow_packet rdp e) t"
proof -
  obtain s0 where s0: "fp_pool env 4096 = Some s0" using assms(1) by (auto simp: input_client_def)
  have c: "pool_ok (fp_pool env)" "\<not> do_crypt rdp" "sec_flags rdp = 0" using assms(1) by (auto simp: input_client_def)
  have w: "wf_cap s0" "s_pointer s0 = 0" "4096 \<le> room s0" using c(1) s0 by (auto simp: pool_ok_def room_def)
  let ?s = "Stream_Seek s0 33" let ?h = "u16_enc 1 @ u16_enc 0 @ u32_enc 0 @ u16_enc (slow_type e)" let ?b = "u16_enc 1 @ u16_enc 0 @ slow_enc e"
  have s: "wf_cap ?s" "4063 \<le> room ?s" using w by (auto simp: wf_cap_def room_def)
  have i: "rdp_client_input_pdu_init env rdp (slow_type e) = Some (Some (put ?s ?h), rdp)"
    using init_stream_clear(1) [OF c(1) s0 c(2,3)] s
    by (simp add: rdp_client_input_pdu_init_def rdp_write_client_input_pdu_header_def rdp_write_input_event_header_def wire_simps)
  have "body (put ?s ?h) = Some (put (put ?s ?h) (slow_body e))" using s by (intro assms(2)) (simp_all add: wire_simps)
  then have b: "body (put ?s ?h) = Some (put ?s ?b)" using s by (simp add: put_put slow_enc_def)
  obtain t where t: "rdp_send_data_pdu (fp_malloc env) (fp_ops env) (fp_write env) rdp (put ?s ?b) DATA_PDU_TYPE_INPUT (userId (r_mcs rdp)) =
      Some (\<not> fp_write env t < 0, rdp\<lparr>outPackets := outPackets rdp + 1\<rparr>, Some t)"
      "sent (data_pdu_enc rdp DATA_PDU_TYPE_INPUT (userId (r_mcs rdp)) (length ?b) @ ?b) t"
    using send_data_pdu_clear [OF w(1,2), of ?b rdp "fp_malloc env" "fp_ops env" "fp_write env" DATA_PDU_TYPE_INPUT "userId (r_mcs rdp)"] w(3) c(3) by auto
  have "\<not> fp_write env t < 0" using assms(1) by (simp add: input_client_def not_less)
  then have "send_slow env rdp (slow_type e) body = Some (True, bump rdp, [t])"
    by (simp add: send_slow_def send_one_def i b rdp_send_client_input_pdu_def t(1) bump_def)
  then show ?thesis using t(2) by (auto simp: slow_packet_def)
qed

text \<open>The slow-path senders, for events the server can take.\<close>

definition supported :: "input_settings \<Rightarrow> input_event \<Rightarrow> bool" where
  "supported st e = (case e of UnicodeEvent _ _ \<Rightarrow> UnicodeInput st
   | MouseEv flags _ _ \<Rightarrow> HasHorizontalWheel st \<or> flags AND PTR_FLAGS_HWHEEL = 0 | MouseExEv _ _ _ \<Rightarrow> HasExtendedMouseEvent st | _ \<Rightarrow> True)"

definition send_event :: "'k client_input \<Rightarrow> 'k rdpRdp \<Rightarrow> input_event \<Rightarrow> 'k sends" where
  "send_event input rdp e = (case e of
     SyncEvent flags \<Rightarrow> freerdp_input_send_synchronize_event input rdp flags
   | KeyEvent flags code \<Rightarrow> freerdp_input_send_keyboard_event input rdp flags code
   | UnicodeEvent flags code \<Rightarrow> freerdp_input_send_unicode_keyboard_event input rdp flags code
   | MouseEv flags x y \<Rightarrow> freerdp_input_send_mouse_event input rdp flags x y
   | MouseExEv flags x y \<Rightarrow> freerdp_input_send_extended_mouse_event input rdp flags x y)"

lemmas application_calls = freerdp_input_send_synchronize_event_def freerdp_input_send_keyboard_event_def
  freerdp_input_send_unicode_keyboard_event_def freerdp_input_send_mouse_event_def freerdp_input_send_extended_mouse_event_def
  input_register_client_callbacks_def

lemma slow_bodies:
  assumes "wf_cap s" "6 \<le> room s"
  shows "input_write_synchronize_event s f = Some (put s (slow_body (SyncEvent f)))"
    "input_write_keyboard_event s a b = Some (put s (slow_body (KeyEvent a b)))"
    "input_write_unicode_keyboard_event s a b = Some (put s (slow_body (UnicodeEvent a b)))"
    "input_write_mouse_event s a x y = Some (put s (slow_body (MouseEv a x y)))"
    "input_write_extended_mouse_event s a x y = Some (put s (slow_body (MouseExEv a x y)))"
  using assms by (simp_all add: input_write_synchronize_event_def input_write_keyboard_event_def input_write_unicode_keyboard_event_def
      input_write_mouse_event_def input_write_extended_mouse_event_def slow_body_def wire_simps)

lemma send_slow_event:
  assumes "input_client env rdp" "supported st e" "\<not> FastPathInput st"
  shows "\<exists>t. send_event (input_register_client_callbacks env st) rdp e = Some (True, bump rdp, [t]) \<and> sent (slow_packet rdp e) t"
proof -
  note r = send_slow_run [OF assms(1)]
  show ?thesis
  proof (cases e)
    case (SyncEvent f)
    then show ?thesis using assms(3) r [of "\<lambda>s. input_write_synchronize_event s f" "SyncEvent f", OF slow_bodies(1)]
      by (simp add: send_event_def application_calls input_send_synchronize_event_def slow_type_def)
  next
    case (KeyEvent a b)
    then show ?thesis using assms(3) r [of "\<lambda>s. input_write_keyboard_event s a b" "KeyEvent a b", OF slow_bodies(2)]
      by (simp add: send_event_def application_calls input_send_keyboard_event_def slow_type_def)
  next
    case (UnicodeEvent a b)
    then show ?thesis using assms(2,3) r [of "\<lambda>s. input_write_unicode_keyboard_event s a b" "UnicodeEvent a b", OF slow_bodies(3)]
      by (simp add: send_event_def application_calls input_send_unicode_keyboard_event_def slow_type_def supported_def)
  next
    case (MouseEv a x y)
    then show ?thesis using assms(2,3) r [of "\<lambda>s. input_write_mouse_event s a x y" "MouseEv a x y", OF slow_bodies(4)]
      by (auto simp: send_event_def application_calls input_send_mouse_event_def slow_type_def supported_def)
  next
    case (MouseExEv a x y)
    then show ?thesis using assms(2,3) r [of "\<lambda>s. input_write_extended_mouse_event s a x y" "MouseExEv a x y", OF slow_bodies(5)]
      by (simp add: send_event_def application_calls input_send_extended_mouse_event_def slow_type_def supported_def)
  qed
qed

definition peer_ready :: "'k rdpRdp \<Rightarrow> bool" where
  "peer_ready rdp \<longleftrightarrow> ServerMode rdp \<and> \<not> UseRdpSecurityLayer rdp \<and> \<not> freerdp_shall_disconnect rdp"

definition slow_arrival :: "u16 \<Rightarrow> 'k rdpRdp \<Rightarrow> 'k rdpRdp" where
  "slow_arrival uid rdp = rdp\<lparr>inPackets := inPackets rdp + 1, PduSource := uid\<rparr>"

lemma recv_slow_packet:
  assumes "sent (slow_packet crdp e) t" "input_client cenv crdp" "peer_ready (peer_rdp peer)"
  shows "peer_recv_pdu junk env h ops fenv peer (Stream_SetPosition t 0) =
    (case call_event (fp_input fenv) e (slow_arrival (userId (r_mcs crdp)) (peer_rdp peer)) of
       (ok, rdp) \<Rightarrow> Some ((if ok then 0 else - 1, peer\<lparr>peer_rdp := rdp\<rparr>, None), Stream_Seek (Stream_SetPosition t 0) 49))"
proof -
  let ?s = "Stream_SetPosition t 0" let ?u = "userId (r_mcs crdp)" let ?b = "u16_enc 1 @ u16_enc 0 @ slow_enc e"
  let ?c = "share_control_enc 34 PDU_TYPE_DATA ?u" let ?d = "share_data_enc 16 DATA_PDU_TYPE_INPUT (ShareId crdp)"
  let ?h = "rdp_header_enc (send_pdu_of crdp) (word_of_nat (33 + 16)) ?u MCS_GLOBAL_CHANNEL_ID"
  have w: "wf_stream ?s" and r: "rest ?s = ?h @ ?c @ ?d @ ?b"
    using assms(1) by (simp_all add: sent_def slow_packet_def data_pdu_enc_def)
  have a: "avail ?s = 49" using length_rest [OF w] r by simp
  have "rest ?s ! 0 = 3" by (simp add: r rdp_header_enc_def mcs_header_enc_def tpkt_enc_def)
  then have v: "tpkt_verify_header ?s = Some True" using w a by (simp add: tpkt_verify_header_def stream_simps)
  have 1: "rdp_read_header (peer_rdp peer) ?s = Some ((Some (word_of_nat (length (?c @ ?d @ ?b)), MCS_GLOBAL_CHANNEL_ID), peer_rdp peer), Stream_Seek ?s 15)"
    by (rule rdp_read_header_rest [OF w r]) (use assms(2,3) in \<open>simp_all add: input_client_def peer_ready_def\<close>)
  let ?p = "peer\<lparr>peer_rdp := (peer_rdp peer)\<lparr>inPackets := inPackets (peer_rdp peer) + 1\<rparr>\<rparr>"
  let ?q = "?p\<lparr>peer_rdp := (peer_rdp ?p)\<lparr>PduSource := ?u\<rparr>\<rparr>"
  have s1: "wf_stream (Stream_Seek ?s 15)" "rest (Stream_Seek ?s 15) = ?c @ ?d @ ?b" using w a by (simp_all add: wf_Seek rest_Seek r)
  have 2: "rdp_read_share_control_header (Stream_Seek ?s 15) =
      Some (Some (word_of_nat 34, word_of_nat (length (?d @ ?b)), PDU_TYPE_DATA, ?u), Stream_Seek (Stream_Seek ?s 15) 6)"
    by (intro share_control_rest [OF s1]) (simp_all add: PDU_TYPE_DATA_def)
  have s2: "wf_stream (Stream_Seek ?s 21)" "rest (Stream_Seek ?s 21) = ?d @ ?b" using w a by (simp_all add: wf_Seek rest_Seek r)
  note 3 = share_data_rest [OF s2]
  have s3: "wf_stream (Stream_Seek ?s 33)" "rest (Stream_Seek ?s 33) = ?b" "avail (Stream_Seek ?s 33) = 16"
    using w a by (simp_all add: wf_Seek rest_Seek avail_Seek r)
  have s4: "wf_stream (Stream_Seek ?s 37)" "rest (Stream_Seek ?s 37) = slow_enc e @ []" using w a by (simp_all add: wf_Seek rest_Seek r)
  have 4: "input_recv (fp_input fenv) x (Stream_Seek ?s 33) = Some (call_event (fp_input fenv) e x, Stream_Seek ?s 49)" for x
  proof -
    obtain ok x' where c: "call_event (fp_input fenv) e x = (ok, x')" by force
    have n: "Stream_GetRemainingLength (Stream_Seek ?s 33) = 16" "Stream_GetRemainingLength (Stream_Seek ?s 37) = 12"
      using s3(1,3) s4(1) a by (simp_all add: remaining_length avail_Seek)
    have "Stream_Read_UINT16 (Stream_Seek ?s 33) = Some (1, Stream_Seek ?s 35)"
      using Read_get(2) [OF s3(1)] s3(3) unfolding s3(2) by (simp add: wire_simps)
    then show ?thesis using n recv_slow_event [OF s4, of "fp_input fenv" x] c by (simp add: input_recv_def Let_def)
  qed
  have d: "peer_recv_share_pdu ops fenv ?p (Stream_Seek ?s 15) =
      (case call_event (fp_input fenv) e (peer_rdp ?q) of (ok, rdp) \<Rightarrow> Some ((ok, ?q\<lparr>peer_rdp := rdp\<rparr>, None), Stream_Seek ?s 49))"
    using 2 3 4 by (simp add: peer_recv_share_pdu_def peer_recv_data_pdu_def dispatch_peer_data_def on_rdp_def case_prod_unfold
        DATA_PDU_TYPE_INPUT_def DATA_PDU_TYPE_SYNCHRONIZE_def DATA_PDU_TYPE_CONTROL_def)
  have k: "tpkt_ensure_stream_consumed (Stream_Seek ?s 49)" using w a by (simp add: tpkt_ensure_stream_consumed_def remaining_length wf_Seek avail_Seek)
  have "peer_recv_tpkt_pdu env h ops fenv peer ?s = finish_peer_packet (peer_recv_share_pdu ops fenv ?p (Stream_Seek ?s 15))"
    using assms(3) by (simp add: peer_recv_tpkt_pdu_def 1 peer_ready_def freerdp_shall_disconnect_def peer_recv_by_channel_def)
  then show ?thesis unfolding d using v k by (simp add: peer_recv_pdu_def finish_peer_packet_def slow_arrival_def case_prod_unfold)
qed

section \<open>The fast path\<close>

definition fast_flags :: "input_event \<Rightarrow> byte" where
  "fast_flags e = (case e of SyncEvent flags \<Rightarrow> ucast flags
   | KeyEvent flags _ \<Rightarrow> ((if flags AND KBD_FLAGS_RELEASE \<noteq> 0 then FASTPATH_INPUT_KBDFLAGS_RELEASE else 0) OR
        (if flags AND KBD_FLAGS_EXTENDED \<noteq> 0 then FASTPATH_INPUT_KBDFLAGS_EXTENDED else 0)) OR
        (if flags AND KBD_FLAGS_EXTENDED1 \<noteq> 0 then FASTPATH_INPUT_KBDFLAGS_PREFIX_E1 else 0)
   | UnicodeEvent flags _ \<Rightarrow> if flags AND KBD_FLAGS_RELEASE \<noteq> 0 then FASTPATH_INPUT_KBDFLAGS_RELEASE else 0 | _ \<Rightarrow> 0)"

definition fast_code :: "input_event \<Rightarrow> byte" where
  "fast_code e = (case e of SyncEvent _ \<Rightarrow> FASTPATH_INPUT_EVENT_SYNC | KeyEvent _ _ \<Rightarrow> FASTPATH_INPUT_EVENT_SCANCODE
   | UnicodeEvent _ _ \<Rightarrow> FASTPATH_INPUT_EVENT_UNICODE | MouseEv _ _ _ \<Rightarrow> FASTPATH_INPUT_EVENT_MOUSE | MouseExEv _ _ _ \<Rightarrow> FASTPATH_INPUT_EVENT_MOUSEX)"

definition fast_body :: "input_event \<Rightarrow> byte list" where
  "fast_body e = (case e of SyncEvent _ \<Rightarrow> [] | KeyEvent _ code \<Rightarrow> [ucast code] | UnicodeEvent _ code \<Rightarrow> u16_enc code | _ \<Rightarrow> slow_body e)"

definition fast_enc :: "input_event \<Rightarrow> byte list" where
  "fast_enc e = (fast_flags e OR push_bit 5 (fast_code e)) # fast_body e"

text \<open>What the fast path can carry: five bits of toggles, key codes of a byte, and the flags it knows.\<close>

definition portable :: "input_event \<Rightarrow> bool" where
  "portable e = (case e of SyncEvent flags \<Rightarrow> flags < 32 | KeyEvent flags code \<Rightarrow> flags AND NOT 0xC300 = 0 \<and> code < 256
   | UnicodeEvent flags _ \<Rightarrow> flags AND NOT 0xC000 = 0 | _ \<Rightarrow> True)"

lemmas fast_consts = FASTPATH_INPUT_KBDFLAGS_RELEASE_def FASTPATH_INPUT_KBDFLAGS_EXTENDED_def FASTPATH_INPUT_KBDFLAGS_PREFIX_E1_def
  FASTPATH_INPUT_EVENT_SYNC_def FASTPATH_INPUT_EVENT_SCANCODE_def FASTPATH_INPUT_EVENT_UNICODE_def FASTPATH_INPUT_EVENT_MOUSE_def
  FASTPATH_INPUT_EVENT_MOUSEX_def

lemmas key_consts = KBD_FLAGS_RELEASE_def KBD_FLAGS_DOWN_def KBD_FLAGS_EXTENDED_def KBD_FLAGS_EXTENDED1_def

lemma event_header_split:
  assumes "flags < (32 :: byte)" "code < (8 :: byte)"
  shows "(flags OR push_bit 5 code) AND 0x1F = flags" "drop_bit 5 (flags OR push_bit 5 code) = code"
proof -
  have m: "(0x1F :: byte) = mask 5" by (simp add: mask_eq_exp_minus_1)
  have h: "flags AND mask 5 = flags" "code AND mask 3 = code" using assms by (simp_all add: less_mask_eq)
  have f: "bit flags i \<Longrightarrow> i < 5" and c: "bit code i \<Longrightarrow> i < 3" for i
    using arg_cong [OF h(1), of "\<lambda>w. bit w i"] arg_cong [OF h(2), of "\<lambda>w. bit w i"] by (simp_all add: bit_simps)
  show "(flags OR push_bit 5 code) AND 0x1F = flags" "drop_bit 5 (flags OR push_bit 5 code) = code"
    unfolding m by (rule bit_word_eqI; use f c in \<open>force simp: bit_simps\<close>)+
qed

lemma and_power: "(w :: 'a::len word) AND 2 ^ n = (if bit w n then 2 ^ n else 0)"
  by (rule bit_word_eqI) (auto simp: bit_simps)

lemma flag_bits:
  fixes w :: u16
  shows "w AND 0x8000 = (if bit w 15 then 0x8000 else 0)" "w AND 0x4000 = (if bit w 14 then 0x4000 else 0)"
    "w AND 0x0100 = (if bit w 8 then 0x0100 else 0)" "w AND 0x0200 = (if bit w 9 then 0x0200 else 0)"
  using and_power [of w 15] and_power [of w 14] and_power [of w 8] and_power [of w 9] by simp_all

lemma key_flags_cases:
  assumes "flags AND NOT 0xC300 = (0 :: u16)"
  shows "flags = (if bit flags 15 then 0x8000 else 0) OR (if bit flags 14 then 0x4000 else 0) OR
    (if bit flags 8 then 0x0100 else 0) OR (if bit flags 9 then 0x0200 else 0)"
proof -
  have "flags = flags AND 0xC300"
  proof -
    have "flags = (flags AND 0xC300) OR (flags AND NOT 0xC300)" by (rule bit_word_eqI) (auto simp: bit_simps)
    then show ?thesis using assms by simp
  qed
  also have "\<dots> = (flags AND 0x8000) OR (flags AND 0x4000) OR (flags AND 0x0100) OR (flags AND 0x0200)"
  proof -
    have c: "(0xC300 :: u16) = 0x8000 OR 0x4000 OR 0x0100 OR 0x0200" by simp
    show ?thesis unfolding c bit.conj_disj_distrib by simp
  qed
  finally show ?thesis unfolding flag_bits .
qed

text \<open>On either path the callback sees the same keyboard flags.\<close>

definition fast_key_flags :: "byte \<Rightarrow> u16" where
  "fast_key_flags ef =
     (let flags = release_flag ef;
          flags = (if ef AND FASTPATH_INPUT_KBDFLAGS_EXTENDED \<noteq> 0 then flags OR KBD_FLAGS_EXTENDED else flags)
      in if ef AND FASTPATH_INPUT_KBDFLAGS_PREFIX_E1 \<noteq> 0 then flags OR KBD_FLAGS_EXTENDED1 else flags)"

lemma fast_key_flags_eq:
  assumes "flags AND NOT 0xC300 = (0 :: u16)"
  shows "fast_key_flags (fast_flags (KeyEvent flags code)) = fix_key_flags flags"
proof -
  obtain a b c d where f: "flags = (if a then 0x8000 else 0) OR (if b then 0x4000 else 0) OR (if c then 0x0100 else 0) OR (if d then 0x0200 else 0)"
    using key_flags_cases [OF assms] by blast
  show ?thesis unfolding f
    by (cases a; cases b; cases c; cases d)
      (simp_all add: fast_key_flags_def fast_flags_def fix_key_flags_def release_flag_def key_consts fast_consts Let_def)
qed

lemma unicode_flags_eq:
  assumes "flags AND NOT 0xC000 = (0 :: u16)"
  shows "release_flag (fast_flags (UnicodeEvent flags code)) = fix_key_flags flags"
proof -
  have m: "(NOT 0xC300 :: u16) = NOT 0xC000 AND NOT 0xC300" by simp
  have "flags AND NOT 0xC300 = (flags AND NOT 0xC000) AND NOT 0xC300" by (subst m) (simp add: and.assoc)
  then have "flags AND NOT 0xC300 = 0" using assms by simp
  then obtain a b c d where f: "flags = (if a then 0x8000 else 0) OR (if b then 0x4000 else 0) OR (if c then 0x0100 else 0) OR (if d then 0x0200 else 0)"
    using key_flags_cases by blast
  show ?thesis using assms unfolding f
    by (cases a; cases b; cases c; cases d) (simp_all add: fast_flags_def fix_key_flags_def release_flag_def key_consts fast_consts)
qed

lemma fast_flags_small: "portable e \<Longrightarrow> fast_flags e < 32"
proof (cases e)
  case (SyncEvent f)
  assume "portable e"
  then have "unat f < 32" using SyncEvent by (simp add: portable_def word_less_nat_alt)
  then have "unat (ucast f :: byte) < 32" by (simp add: unsigned_ucast_eq take_bit_nat_eq_self)
  then show ?thesis using SyncEvent by (simp add: fast_flags_def word_less_nat_alt)
qed (simp_all add: fast_flags_def fast_consts)

lemma recv_fast_mouse:
  assumes "wf_stream t" "rest t = u16_enc flags @ u16_enc x @ u16_enc y @ r"
  shows "fastpath_recv_input_event_mouse i rdp t = Some (if_call_result True (MouseEvent i) rdp (flags, x, y), Stream_Seek t 6)"
    "fastpath_recv_input_event_mousex i rdp t = Some (if_call_result True (ExtendedMouseEvent i) rdp (flags, x, y), Stream_Seek t 6)"
proof -
  have a: "avail t = 6 + length r" using length_rest [OF assms(1)] assms(2) by simp
  have d: "drop 2 (rest t) = u16_enc x @ u16_enc y @ r" "drop 4 (rest t) = u16_enc y @ r" by (simp_all add: assms(2))
  have g: "get16 (rest t) = flags" "get16 (drop 2 (rest t)) = x" "get16 (drop 4 (rest t)) = y"
    unfolding d by (simp_all add: assms(2) wire_simps)
  show "fastpath_recv_input_event_mouse i rdp t = Some (if_call_result True (MouseEvent i) rdp (flags, x, y), Stream_Seek t 6)"
    "fastpath_recv_input_event_mousex i rdp t = Some (if_call_result True (ExtendedMouseEvent i) rdp (flags, x, y), Stream_Seek t 6)"
    using assms(1) a by (simp_all add: fastpath_recv_input_event_mouse_def fastpath_recv_input_event_mousex_def wire_simps g)
qed

lemma recv_fast_event:
  assumes "wf_stream s" "rest s = fast_enc e @ r" "portable e" "UnicodeKeyboardEvent i \<noteq> None"
  shows "fastpath_recv_input_event i rdp s = Some (call_event i e rdp, Stream_Seek s (length (fast_enc e)))"
proof -
  have a: "avail s = 1 + length (fast_body e) + length r" using length_rest [OF assms(1)] assms(2) by (simp add: fast_enc_def)
  let ?t = "Stream_Seek s 1"
  have t: "wf_stream ?t" "rest ?t = fast_body e @ r" "avail ?t = length (fast_body e) + length r"
    using assms(1,2) a by (simp_all add: wf_Seek rest_Seek avail_Seek fast_enc_def)
  have "fast_code e < 8" by (cases e) (simp_all add: fast_code_def fast_consts)
  note h = event_header_split [OF fast_flags_small [OF assms(3)] this]
  have "rest s ! 0 = fast_flags e OR push_bit 5 (fast_code e)" using assms(2) by (simp add: fast_enc_def)
  then have hd: "fastpath_read_input_event_header s = Some (Some (fast_flags e, fast_code e), ?t)"
    using assms(1) a h by (simp add: fastpath_read_input_event_header_def wire_simps del: One_nat_def)
  have n: "Stream_Seek s (length (fast_enc e)) = Stream_Seek ?t (length (fast_body e))" by (simp add: fast_enc_def)
  show ?thesis
  proof (cases e)
    case (SyncEvent f)
    then have "(ucast (ucast f :: byte) :: u32) = f" using assms(3) by (intro ucast_byte_small) (simp add: portable_def word_less_nat_alt)
    then show ?thesis unfolding n using SyncEvent
      by (simp add: fastpath_recv_input_event_def hd fast_code_def fast_consts fastpath_recv_input_event_sync_def call_event_def fast_flags_def fast_body_def)
  next
    case (KeyEvent flags code)
    then have p: "flags AND NOT 0xC300 = 0" "unat code < 2 ^ 8" using assms(3) by (simp_all add: portable_def word_less_nat_alt)
    have c: "(ucast (ucast code :: byte) :: u16) = code"
      using p(2) by (intro ucast_byte_small) simp
    have "fast_key_flags (fast_flags e) = fix_key_flags flags" using fast_key_flags_eq [OF p(1)] KeyEvent by simp
    then show ?thesis unfolding n using KeyEvent t c
      by (simp add: fastpath_recv_input_event_def hd fast_code_def FASTPATH_INPUT_EVENT_SCANCODE_def fastpath_recv_input_event_scancode_def
          wire_simps fast_body_def call_event_def fast_key_flags_def Let_def)
  next
    case (UnicodeEvent flags code)
    then have "release_flag (fast_flags e) = fix_key_flags flags" using unicode_flags_eq assms(3) by (simp add: portable_def)
    then show ?thesis unfolding n using UnicodeEvent t assms(4)
      by (auto simp: fastpath_recv_input_event_def hd fast_code_def fast_consts fastpath_recv_input_event_unicode_def
          wire_simps fast_body_def call_event_def if_call_result_def)
  next
    case (MouseEv flags x y)
    then show ?thesis unfolding n using recv_fast_mouse(1) [OF t(1), of flags x y r i rdp] t(2)
      by (simp add: fastpath_recv_input_event_def hd fast_code_def fast_consts fast_body_def slow_body_def call_event_def)
  next
    case (MouseExEv flags x y)
    then show ?thesis unfolding n using recv_fast_mouse(2) [OF t(1), of flags x y r i rdp] t(2)
      by (simp add: fastpath_recv_input_event_def hd fast_code_def fast_consts fast_body_def slow_body_def call_event_def)
  qed
qed

lemma recv_fast_events:
  assumes "wf_stream s" "rest s = concat (map fast_enc es) @ r" "list_all portable es" "UnicodeKeyboardEvent i \<noteq> None"
  shows "\<exists>s'. input_event_loop i (length es) rdp s = Some (call_events i es rdp, s')"
  using assms(1-3)
proof (induction es arbitrary: s rdp)
  case (Cons e es)
  let ?t = "Stream_Seek s (length (fast_enc e))"
  have r: "rest s = fast_enc e @ concat (map fast_enc es) @ r" using Cons.prems(2) by simp
  have a: "length (fast_enc e) \<le> avail s" using length_rest [OF Cons.prems(1)] r by simp
  obtain ok rdp' where c: "call_event i e rdp = (ok, rdp')" by force
  have "\<exists>s'. input_event_loop i (length es) rdp' ?t = Some (call_events i es rdp', s')"
    using Cons.prems(1,3) a r by (intro Cons.IH) (simp_all add: wf_Seek rest_Seek)
  moreover have "fastpath_recv_input_event i rdp s = Some ((ok, rdp'), ?t)"
    using recv_fast_event [OF Cons.prems(1) r _ assms(4), of rdp] Cons.prems(3) c by simp
  ultimately show ?case using c by auto
qed simp

definition fast_packet :: "nat \<Rightarrow> byte list \<Rightarrow> byte list" where
  "fast_packet k body = [push_bit 2 (word_of_nat k), 0x80 OR ucast (drop_bit 8 (word_of_nat (3 + length body) :: u16)),
     ucast (word_of_nat (3 + length body) :: u16)] @ body"

lemma event_count_split:
  assumes "1 \<le> k" "k \<le> 15"
  shows "push_bit 2 (word_of_nat k) \<noteq> (3 :: byte)" "drop_bit 6 (push_bit 2 (word_of_nat k) AND 0xC0) = (0 :: byte)"
    "unat (drop_bit 2 (push_bit 2 (word_of_nat k) AND 0x3C) :: byte) = k"
proof -
  have "k = 1 \<or> k = 2 \<or> k = 3 \<or> k = 4 \<or> k = 5 \<or> k = 6 \<or> k = 7 \<or> k = 8 \<or> k = 9 \<or> k = 10 \<or> k = 11 \<or> k = 12 \<or> k = 13 \<or> k = 14 \<or> k = 15"
    using assms by arith
  then show "push_bit 2 (word_of_nat k) \<noteq> (3 :: byte)" "drop_bit 6 (push_bit 2 (word_of_nat k) AND 0xC0) = (0 :: byte)"
    "unat (drop_bit 2 (push_bit 2 (word_of_nat k) AND 0x3C) :: byte) = k" by (elim disjE; simp)+
qed

lemma long_length_bytes:
  fixes v :: u16
  shows "ucast (drop_bit 8 (0x8000 OR v)) = (0x80 OR ucast (drop_bit 8 v) :: byte)" "ucast (0x8000 OR v) = (ucast v :: byte)"
proof -
  have p: "(0x8000 :: u16) = 2 ^ 15" "(0x80 :: byte) = 2 ^ 7" by simp_all
  show "ucast (drop_bit 8 (0x8000 OR v)) = (0x80 OR ucast (drop_bit 8 v) :: byte)" "ucast (0x8000 OR v) = (ucast v :: byte)"
    unfolding p by (rule bit_word_eqI; auto simp: bit_simps)+
qed

lemma send_multiple_clear:
  assumes "input_client env rdp" "wf_cap s0" "s_pointer s0 = 0" "3 + length body \<le> room s0" "length body \<le> 250" "n \<le> 15"
  shows "\<exists>t. fastpath_send_multiple_input_pdu env rdp (put (Stream_Seek s0 3) body) n = Some (True, rdp, Some t) \<and> sent (fast_packet n body) t"
proof -
  let ?len = "word_of_nat (3 + length body) :: u16" let ?s = "Stream_SetPosition (put (Stream_Seek s0 3) body) 0"
  let ?e = "[push_bit 2 (word_of_nat n), 0x80 OR ucast (drop_bit 8 ?len), ucast ?len]"
  have c: "sec_flags rdp = 0" "fp_state env = CONNECTION_STATE_ACTIVE" "\<And>f. \<not> fp_write env f < 0"
    using assms(1) by (auto simp: input_client_def not_less)
  have p: "Stream_GetPosition (put (Stream_Seek s0 3) body) = 3 + length body" using assms(3) by (simp add: Stream_GetPosition_def)
  have u: "unat ?len = 3 + length body" using assms(5) by (intro unat_of_nat_eq) simp
  have l: "\<not> ?len \<ge> push_bit 14 2" using u assms(5) by (simp add: word_le_nat_alt)
  have h: "input_header rdp n = push_bit 2 (word_of_nat n)" using c(1) by (simp add: input_header_def)
  note q = sent_header_last [of s0 ?e body, OF assms(2,3)]
  have w: "wf_cap ?s" "room ?s = room s0" "s_pointer ?s = 0" using q(1,2) assms(4) by (simp_all add: numeral_3_eq_3 Stream_SetPosition_def)
  have r: "3 \<le> room ?s" using w(2) assms(4) by simp
  have 1: "Stream_Write_UINT8 ?s (push_bit 2 (word_of_nat n)) = Some (put ?s [push_bit 2 (word_of_nat n)])" using w r by (simp add: wire_simps)
  have 2: "Stream_SetPosition (Stream_Seek (put ?s [push_bit 2 (word_of_nat n)]) 2) 1 = put ?s [push_bit 2 (word_of_nat n)]"
    using w(3) by (simp add: put_def Stream_SetPosition_def Stream_Seek_def)
  have 3: "Stream_Write_UINT16_BE (put ?s [push_bit 2 (word_of_nat n)]) (0x8000 OR ?len) = Some (put ?s ?e)"
    using Write_UINT16_BE_put [of "put ?s [push_bit 2 (word_of_nat n)]" "0x8000 OR ?len"] w r unfolding long_length_bytes
    by (simp add: wf_cap_put room_put put_put)
  let ?t = "Stream_SealLength (Stream_SetPosition (put ?s ?e) (3 + length body))"
  have "rdp\<lparr>sec_flags := 0\<rparr> = rdp" using c(1) by (cases rdp) simp
  then have "fastpath_send_multiple_input_pdu env rdp (put (Stream_Seek s0 3) body) n = Some (True, rdp, Some ?t)"
    unfolding fastpath_send_multiple_input_pdu_def p Let_def using c l assms(6) 1 2 3 u h by simp
  moreover have "sent (fast_packet n body) ?t" using q(3) assms(4) by (simp add: fast_packet_def numeral_3_eq_3)
  ultimately show ?thesis by blast
qed

definition fast_arrival :: "'k rdpRdp \<Rightarrow> 'k rdpRdp" where
  "fast_arrival rdp = rdp\<lparr>inPackets := inPackets rdp + 1\<rparr>"

lemma recv_fast_packet:
  assumes "sent (fast_packet (length es) (concat (map fast_enc es))) t" "1 \<le> length es" "length es \<le> 15"
    "length (concat (map fast_enc es)) \<le> 250" "list_all portable es" "UnicodeKeyboardEvent (fp_input fenv) \<noteq> None"
  shows "\<exists>fp s. peer_recv_pdu junk env h ops fenv peer (Stream_SetPosition t 0) =
    (case call_events (fp_input fenv) es (fast_arrival (peer_rdp peer)) of
       (ok, rdp) \<Rightarrow> Some ((if ok then 0 else - 1, peer\<lparr>peer_rdp := rdp, peer_fastpath := fp\<rparr>, None), s))"
proof -
  define b where "b = concat (map fast_enc es)"
  let ?s = "Stream_SetPosition t 0" let ?n = "word_of_nat (3 + length b) :: u16"
  have w: "wf_stream ?s" and r: "rest ?s = fast_packet (length es) b" using assms(1) by (simp_all add: sent_def b_def)
  have ne: "1 \<le> length b" using assms(2) by (cases es) (simp_all add: b_def fast_enc_def)
  have lb: "length b \<le> 250" using assms(4) by (simp add: b_def)
  have a: "avail ?s = 3 + length b" using length_rest [OF w] by (simp add: r fast_packet_def)
  note k = event_count_split [OF assms(2,3)]
  have v: "tpkt_verify_header ?s = Some False" using w a k(1) by (simp add: tpkt_verify_header_def stream_simps r fast_packet_def)
  have un: "unat ?n = 3 + length b" using lb by (intro unat_of_nat_eq) simp
  have r1: "rest (Stream_Seek ?s 1) = [0x80 OR ucast (drop_bit 8 ?n), ucast ?n] @ b" by (simp add: rest_Seek r fast_packet_def)
  have "?n < 0x8000" using un lb by (simp add: word_less_nat_alt)
  moreover have "wf_stream (Stream_Seek ?s 1)" using a w by (intro wf_Seek) simp_all
  ultimately have l: "per_read_length (Stream_Seek ?s 1) = Some (Some ?n, Stream_Seek (Stream_Seek ?s 1) 2)"
    by (rule per_read_length_long) (rule r1)
  have s3: "Stream_Seek (Stream_Seek ?s 1) 2 = Stream_Seek ?s 3" by (simp add: numeral_3_eq_3)
  define m where "m = (word_of_nat (length b) :: u16)"
  have um: "unat m = length b" unfolding m_def using lb by (intro unat_of_nat_eq) simp
  let ?fp = "set_header (push_bit 2 (word_of_nat (length es))) (peer_fastpath peer)"
  have d: "?n - word_of_nat 3 = m" by (simp add: m_def)
  have "rest ?s ! 0 = push_bit 2 (word_of_nat (length es))" by (simp add: r fast_packet_def)
  then have h: "fastpath_read_header_rdp (peer_fastpath peer) ?s = Some ((Some m, ?fp), Stream_Seek ?s 3)"
    using a w l d unfolding s3
    by (simp add: fastpath_read_header_rdp_def remaining_length Read_get Stream_GetPosition_def Stream_SetPosition_def del: One_nat_def)
  have f: "encryptionFlags ?fp = 0" "unat (numberEvents ?fp) = length es" using k(2,3) by (simp_all add: set_header_def)
  then have nz: "numberEvents ?fp \<noteq> 0" using assms(2) by (metis le_numeral_extra(4) not_one_le_zero unsigned_0)
  have t3: "wf_stream (Stream_Seek ?s 3)" "rest (Stream_Seek ?s 3) = concat (map fast_enc es) @ []" "avail (Stream_Seek ?s 3) = length b"
    using w a by (simp_all add: wf_Seek rest_Seek avail_Seek r fast_packet_def numeral_3_eq_3 b_def [symmetric])
  obtain u where "input_event_loop (fp_input fenv) (length es) (fast_arrival (peer_rdp peer)) (Stream_Seek ?s 3) =
      Some (call_events (fp_input fenv) es (fast_arrival (peer_rdp peer)), u)"
    using recv_fast_events [OF t3(1,2) assms(5,6)] by blast
  moreover obtain ok rdp where c: "call_events (fp_input fenv) es (fast_arrival (peer_rdp peer)) = (ok, rdp)" by force
  ultimately have i: "fastpath_recv_inputs (fp_input fenv) ?fp (fast_arrival (peer_rdp peer)) (Stream_Seek ?s 3) = Some ((if ok then 0 else - 1, ?fp, rdp), u)"
    using nz f(2) by (simp add: fastpath_recv_inputs_def)
  have "m \<noteq> 0" using um ne by (metis not_one_le_zero unsigned_0)
  then have "peer_recv_fastpath_pdu junk fenv peer ?s = Some ((if ok then 0 else - 1, peer\<lparr>peer_rdp := rdp, peer_fastpath := ?fp\<rparr>, None), u)"
    using um t3(1,3) f(1) i by (simp add: peer_recv_fastpath_pdu_def h remaining_length Let_def fast_arrival_def)
  then show ?thesis using v c by (auto simp: peer_recv_pdu_def)
qed

lemma write_bytes_put: "wf_cap s \<Longrightarrow> length bs \<le> room s \<Longrightarrow> write_bytes bs s = Some (put s bs)"
  by (induction bs arbitrary: s) (simp_all add: wire_simps)

lemma fast_pool:
  assumes "input_client env rdp"
  obtains s0 where "fastpath_input_pdu_init_header env rdp = Some (Some (Stream_Seek s0 3), rdp)" "wf_cap s0" "s_pointer s0 = 0" "256 \<le> room s0"
proof -
  obtain s0 where s0: "fp_pool env 256 = Some s0" using assms by (auto simp: input_client_def)
  have c: "pool_ok (fp_pool env)" "\<not> do_crypt rdp" using assms by (auto simp: input_client_def)
  have "fastpath_input_pdu_init_header env rdp = Some (Some (Stream_Seek s0 3), rdp)"
    using pool_stream(1) [OF c(1) s0] c(2) by (simp add: fastpath_input_pdu_init_header_def set_sec_flags_def fastpath_get_sec_bytes_def)
  then show ?thesis using that c(1) s0 by (auto simp: pool_ok_def room_def)
qed

lemma send_fast_run:
  assumes "input_client env rdp" "\<And>s. wf_cap s \<Longrightarrow> 6 \<le> room s \<Longrightarrow> body s = Some (put s (fast_body e))"
  shows "\<exists>t. send_fast env rdp (fast_flags e) (fast_code e) body = Some (True, rdp, [t]) \<and> sent (fast_packet 1 (fast_enc e)) t"
proof -
  obtain s0 where s0: "fastpath_input_pdu_init_header env rdp = Some (Some (Stream_Seek s0 3), rdp)" "wf_cap s0" "s_pointer s0 = 0" "256 \<le> room s0"
    by (rule fast_pool [OF assms(1)])
  let ?s = "Stream_Seek s0 3" let ?h = "[fast_flags e OR push_bit 5 (fast_code e)]"
  have s: "wf_cap ?s" "253 \<le> room ?s" using s0 by (auto simp: wf_cap_def room_def)
  have n: "length (fast_body e) \<le> 6" by (cases e) (simp_all add: fast_body_def)
  have "body (put ?s ?h) = Some (put (put ?s ?h) (fast_body e))" using s by (intro assms(2)) (simp_all add: wire_simps)
  then have b: "body (put ?s ?h) = Some (put ?s (fast_enc e))" using s n by (simp add: put_put fast_enc_def)
  obtain t where t: "fastpath_send_multiple_input_pdu env rdp (put ?s (fast_enc e)) 1 = Some (True, rdp, Some t)" "sent (fast_packet 1 (fast_enc e)) t"
    using send_multiple_clear [OF assms(1) s0(2,3), of "fast_enc e" 1] s0(4) n by (auto simp: fast_enc_def)
  have "fastpath_input_pdu_init env rdp (fast_flags e) (fast_code e) = Some (Some (put ?s ?h), rdp)"
    using s0(1) s by (simp add: fastpath_input_pdu_init_def wire_simps)
  then have "send_fast env rdp (fast_flags e) (fast_code e) body = Some (True, rdp, [t])"
    using b t(1) by (simp add: send_fast_def send_one_def fastpath_send_input_pdu_def)
  then show ?thesis using t(2) by blast
qed

lemma send_fast_event:
  assumes "input_client env rdp" "supported st e" "FastPathInput st"
  shows "\<exists>t. send_event (input_register_client_callbacks env st) rdp e = Some (True, rdp, [t]) \<and> sent (fast_packet 1 (fast_enc e)) t"
proof -
  note r = send_fast_run [OF assms(1)]
  show ?thesis
  proof (cases e)
    case (SyncEvent f)
    then show ?thesis using assms(3) r [of Some e]
      by (simp add: send_event_def application_calls input_send_fastpath_synchronize_event_def fast_flags_def fast_code_def fast_body_def)
  next
    case (KeyEvent a b)
    then show ?thesis using assms(3) r [of "\<lambda>s. Stream_Write_UINT8 s (ucast b)" e]
      by (simp add: send_event_def application_calls input_send_fastpath_keyboard_event_def fast_flags_def fast_code_def fast_body_def wire_simps Let_def)
  next
    case (UnicodeEvent a b)
    then show ?thesis using assms(2,3) r [of "\<lambda>s. Stream_Write_UINT16 s b" e]
      by (simp add: send_event_def application_calls input_send_fastpath_unicode_keyboard_event_def fast_flags_def fast_code_def fast_body_def
          wire_simps supported_def)
  next
    case (MouseEv a x y)
    then show ?thesis using assms(2,3) r [of "\<lambda>s. input_write_mouse_event s a x y" e]
      by (auto simp: send_event_def application_calls input_send_fastpath_mouse_event_def fast_flags_def fast_code_def fast_body_def slow_bodies(4) supported_def)
  next
    case (MouseExEv a x y)
    then show ?thesis using assms(2,3) r [of "\<lambda>s. input_write_extended_mouse_event s a x y" e]
      by (simp add: send_event_def application_calls input_send_fastpath_extended_mouse_event_def fast_flags_def fast_code_def fast_body_def
          slow_bodies(5) supported_def)
  qed
qed

section \<open>Actions of the user\<close>

datatype user_action = Single input_event | FocusIn u16 | PauseKey

definition perform :: "'k client_input \<Rightarrow> 'k rdpRdp \<Rightarrow> user_action \<Rightarrow> 'k sends" where
  "perform input rdp a = (case a of Single e \<Rightarrow> send_event input rdp e
   | FocusIn toggleStates \<Rightarrow> freerdp_input_send_focus_in_event input rdp toggleStates
   | PauseKey \<Rightarrow> freerdp_input_send_keyboard_pause_event input rdp)"

definition events_of :: "user_action \<Rightarrow> input_event list" where
  "events_of a = (case a of Single e \<Rightarrow> [e]
   | FocusIn toggleStates \<Rightarrow> [KeyEvent KBD_FLAGS_RELEASE 0x0f, SyncEvent (ucast (toggleStates AND 0x1F)), KeyEvent KBD_FLAGS_RELEASE 0x0f]
   | PauseKey \<Rightarrow> [KeyEvent KBD_FLAGS_EXTENDED1 0x1D, KeyEvent 0 0x45, KeyEvent (KBD_FLAGS_RELEASE OR KBD_FLAGS_EXTENDED1) 0x1D,
        KeyEvent KBD_FLAGS_RELEASE 0x45])"

fun recv_input_packets ::
  "u16 \<Rightarrow> 'k env \<Rightarrow> 'k handlers \<Rightarrow> 'k peer_ops \<Rightarrow> 'k fp_env \<Rightarrow> 'k freerdp_peer \<Rightarrow> wStream list \<Rightarrow> (int \<times> 'k freerdp_peer) option" where
  "recv_input_packets junk env h ops fenv peer [] = Some (0, peer)"
| "recv_input_packets junk env h ops fenv peer (p # ps) = do {
     ((rc, peer, _), _) \<leftarrow> peer_recv_pdu junk env h ops fenv peer (Stream_SetPosition p 0);
     (if rc < 0 then Some (rc, peer) else recv_input_packets junk env h ops fenv peer ps) }"

text \<open>The calls for events that arrive in groups, one packet each.\<close>

fun call_groups :: "('k rdpRdp \<Rightarrow> 'k rdpRdp) \<Rightarrow> 'k rdpInput \<Rightarrow> input_event list list \<Rightarrow> 'k rdpRdp \<Rightarrow> bool \<times> 'k rdpRdp" where
  "call_groups arrive i [] rdp = (True, rdp)"
| "call_groups arrive i (g # gs) rdp = (let (ok, rdp) = call_events i g (arrive rdp) in if \<not> ok then (False, rdp) else call_groups arrive i gs rdp)"

lemma recv_slow_packets:
  assumes "list_all2 (\<lambda>e t. \<exists>r. sent (slow_packet r e) t \<and> input_client cenv r \<and> userId (r_mcs r) = uid) es ts" "peer_ready (peer_rdp peer)"
    "\<And>e r. peer_ready r \<Longrightarrow> peer_ready (snd (call_event (fp_input fenv) e r))"
  shows "\<exists>peer'. recv_input_packets junk env h ops fenv peer ts =
      Some (if fst (call_groups (slow_arrival uid) (fp_input fenv) (map (\<lambda>e. [e]) es) (peer_rdp peer)) then 0 else - 1, peer') \<and>
    peer_rdp peer' = snd (call_groups (slow_arrival uid) (fp_input fenv) (map (\<lambda>e. [e]) es) (peer_rdp peer))"
  using assms(1,2)
proof (induction es ts arbitrary: peer rule: list_all2_induct)
  case (Cons e es t ts)
  obtain r where r: "sent (slow_packet r e) t" "input_client cenv r" "userId (r_mcs r) = uid" using Cons.hyps(1) by blast
  obtain ok rdp where c: "call_event (fp_input fenv) e (slow_arrival uid (peer_rdp peer)) = (ok, rdp)" by force
  have p: "peer_recv_pdu junk env h ops fenv peer (Stream_SetPosition t 0) =
      Some ((if ok then 0 else - 1, peer\<lparr>peer_rdp := rdp\<rparr>, None), Stream_Seek (Stream_SetPosition t 0) 49)"
    using recv_slow_packet [OF r(1,2) Cons.prems, of junk env h ops fenv] r(3) c by simp
  have "peer_ready (slow_arrival uid (peer_rdp peer))" using Cons.prems by (simp add: peer_ready_def slow_arrival_def freerdp_shall_disconnect_def)
  then have "peer_ready rdp" using assms(3) c by (metis snd_conv)
  then show ?case using Cons.IH [of "peer\<lparr>peer_rdp := rdp\<rparr>"] p c by (cases ok) simp_all
qed simp

lemma input_client_bump: "input_client env rdp \<Longrightarrow> input_client env (bump rdp)" "userId (r_mcs (bump rdp)) = userId (r_mcs rdp)"
  by (simp_all add: input_client_def bump_def)

lemma perform_slow:
  assumes "input_client env rdp" "list_all (supported st) (events_of a)" "\<not> FastPathInput st"
  shows "\<exists>rdp' ts. perform (input_register_client_callbacks env st) rdp a = Some (True, rdp', ts) \<and>
    list_all2 (\<lambda>e t. \<exists>r. sent (slow_packet r e) t \<and> input_client env r \<and> userId (r_mcs r) = userId (r_mcs rdp)) (events_of a) ts"
proof -
  let ?i = "input_register_client_callbacks env st"
  have key: "\<exists>t. input_send_keyboard_event env r (f, c) = Some (True, bump r, [t]) \<and> sent (slow_packet r (KeyEvent f c)) t"
    if "input_client env r" for r f c
    using send_slow_event [OF that, of st "KeyEvent f c"] assms(3) by (simp add: supported_def send_event_def application_calls)
  have sync: "\<exists>t. input_send_synchronize_event env r f = Some (True, bump r, [t]) \<and> sent (slow_packet r (SyncEvent f)) t"
    if "input_client env r" for r f
    using send_slow_event [OF that, of st "SyncEvent f"] assms(3) by (simp add: supported_def send_event_def application_calls)
  note b1 = input_client_bump(1) [OF assms(1)] note b2 = input_client_bump(1) [OF b1] note b3 = input_client_bump(1) [OF b2]
  show ?thesis
  proof (cases a)
    case (Single e)
    then show ?thesis using send_slow_event [OF assms(1) _ assms(3), of e] assms(1,2) by (auto simp: perform_def events_of_def)
  next
    case (FocusIn f)
    obtain t1 t2 t3 where t: "input_send_keyboard_event env rdp (KBD_FLAGS_RELEASE, 0x0f) = Some (True, bump rdp, [t1])"
        "sent (slow_packet rdp (KeyEvent KBD_FLAGS_RELEASE 0x0f)) t1"
        "input_send_synchronize_event env (bump rdp) (ucast (f AND 0x1F)) = Some (True, bump (bump rdp), [t2])"
        "sent (slow_packet (bump rdp) (SyncEvent (ucast (f AND 0x1F)))) t2"
        "input_send_keyboard_event env (bump (bump rdp)) (KBD_FLAGS_RELEASE, 0x0f) = Some (True, bump (bump (bump rdp)), [t3])"
        "sent (slow_packet (bump (bump rdp)) (KeyEvent KBD_FLAGS_RELEASE 0x0f)) t3"
      using key [OF assms(1)] sync [OF b1] key [OF b2] by metis
    have "perform ?i rdp a = Some (True, bump (bump (bump rdp)), [t1, t2, t3])"
      using FocusIn assms(3) t(1,3,5) by (simp add: perform_def freerdp_input_send_focus_in_event_def input_register_client_callbacks_def
          input_send_focus_in_event_def and_send_def)
    then show ?thesis using FocusIn t(2,4,6) assms(1) b1 b2 by (auto simp: events_of_def input_client_bump(2))
  next
    case PauseKey
    obtain t1 t2 t3 t4 where t: "input_send_keyboard_event env rdp (KBD_FLAGS_EXTENDED1, 0x1D) = Some (True, bump rdp, [t1])"
        "sent (slow_packet rdp (KeyEvent KBD_FLAGS_EXTENDED1 0x1D)) t1"
        "input_send_keyboard_event env (bump rdp) (0, 0x45) = Some (True, bump (bump rdp), [t2])" "sent (slow_packet (bump rdp) (KeyEvent 0 0x45)) t2"
        "input_send_keyboard_event env (bump (bump rdp)) (KBD_FLAGS_RELEASE OR KBD_FLAGS_EXTENDED1, 0x1D) = Some (True, bump (bump (bump rdp)), [t3])"
        "sent (slow_packet (bump (bump rdp)) (KeyEvent (KBD_FLAGS_RELEASE OR KBD_FLAGS_EXTENDED1) 0x1D)) t3"
        "input_send_keyboard_event env (bump (bump (bump rdp))) (KBD_FLAGS_RELEASE, 0x45) = Some (True, bump (bump (bump (bump rdp))), [t4])"
        "sent (slow_packet (bump (bump (bump rdp))) (KeyEvent KBD_FLAGS_RELEASE 0x45)) t4"
      using key [OF assms(1)] key [OF b1] key [OF b2] key [OF b3] by metis
    have "perform ?i rdp a = Some (True, bump (bump (bump (bump rdp))), [t1, t2, t3, t4])"
      using PauseKey assms(3) t(1,3,5,7) by (simp add: perform_def freerdp_input_send_keyboard_pause_event_def input_register_client_callbacks_def
          input_send_keyboard_pause_event_def and_send_def RDP_SCANCODE_LCONTROL_def RDP_SCANCODE_NUMLOCK_def)
    then show ?thesis using PauseKey t(2,4,6,8) assms(1) b1 b2 b3 by (auto simp: events_of_def input_client_bump(2))
  qed
qed

lemma fast_bytes:
  "concat (map fast_enc (events_of (FocusIn f))) =
     [FASTPATH_INPUT_KBDFLAGS_RELEASE OR push_bit 5 FASTPATH_INPUT_EVENT_SCANCODE, 0x0f, ucast (f AND 0x1F) OR push_bit 5 FASTPATH_INPUT_EVENT_SYNC,
      FASTPATH_INPUT_KBDFLAGS_RELEASE OR push_bit 5 FASTPATH_INPUT_EVENT_SCANCODE, 0x0f]"
  "concat (map fast_enc (events_of PauseKey)) =
     [push_bit 5 FASTPATH_INPUT_EVENT_SCANCODE OR FASTPATH_INPUT_KBDFLAGS_PREFIX_E1, RDP_SCANCODE_LCONTROL, push_bit 5 FASTPATH_INPUT_EVENT_SCANCODE,
      RDP_SCANCODE_NUMLOCK, (push_bit 5 FASTPATH_INPUT_EVENT_SCANCODE OR FASTPATH_INPUT_KBDFLAGS_RELEASE) OR FASTPATH_INPUT_KBDFLAGS_PREFIX_E1,
      RDP_SCANCODE_LCONTROL, push_bit 5 FASTPATH_INPUT_EVENT_SCANCODE OR FASTPATH_INPUT_KBDFLAGS_RELEASE, RDP_SCANCODE_NUMLOCK]"
proof -
  have "(ucast (ucast (f AND 0x1F) :: u32) :: byte) = ucast (f AND 0x1F)" by (rule bit_word_eqI) (auto simp: bit_simps)
  then show "concat (map fast_enc (events_of (FocusIn f))) =
     [FASTPATH_INPUT_KBDFLAGS_RELEASE OR push_bit 5 FASTPATH_INPUT_EVENT_SCANCODE, 0x0f, ucast (f AND 0x1F) OR push_bit 5 FASTPATH_INPUT_EVENT_SYNC,
      FASTPATH_INPUT_KBDFLAGS_RELEASE OR push_bit 5 FASTPATH_INPUT_EVENT_SCANCODE, 0x0f]"
    by (simp add: events_of_def fast_enc_def fast_flags_def fast_code_def fast_body_def key_consts FASTPATH_INPUT_EVENT_SCANCODE_def)
qed (simp add: events_of_def fast_enc_def fast_flags_def fast_code_def fast_body_def key_consts fast_consts RDP_SCANCODE_LCONTROL_def RDP_SCANCODE_NUMLOCK_def)

lemma perform_fast:
  assumes "input_client env rdp" "list_all (supported st) (events_of a)" "FastPathInput st"
  shows "\<exists>t. perform (input_register_client_callbacks env st) rdp a = Some (True, rdp, [t]) \<and>
    sent (fast_packet (length (events_of a)) (concat (map fast_enc (events_of a)))) t"
proof -
  have m: "\<exists>t. send_fast_multiple env rdp bytes n = Some (True, rdp, [t]) \<and> sent (fast_packet n bytes) t"
    if "length bytes \<le> 250" "n \<le> 15" for bytes n
  proof -
    obtain s0 where s0: "fastpath_input_pdu_init_header env rdp = Some (Some (Stream_Seek s0 3), rdp)" "wf_cap s0" "s_pointer s0 = 0" "256 \<le> room s0"
      by (rule fast_pool [OF assms(1)])
    have s: "wf_cap (Stream_Seek s0 3)" "253 \<le> room (Stream_Seek s0 3)" using s0 by (auto simp: wf_cap_def room_def)
    show ?thesis using send_multiple_clear [OF assms(1) s0(2,3), of bytes n] s0(1,4) that write_bytes_put [OF s(1), of bytes] s(2)
      by (auto simp: send_fast_multiple_def send_one_def)
  qed
  show ?thesis
  proof (cases a)
    case (Single e)
    then show ?thesis using send_fast_event [OF assms(1) _ assms(3), of e] assms(2) by (simp add: perform_def events_of_def)
  next
    case (FocusIn f)
    have "length (events_of a) = 3" using FocusIn by (simp add: events_of_def)
    then show ?thesis using m [of "concat (map fast_enc (events_of a))" 3] assms(3) unfolding FocusIn fast_bytes
      by (simp add: perform_def freerdp_input_send_focus_in_event_def input_register_client_callbacks_def input_send_fastpath_focus_in_event_def
          Let_def)
  next
    case PauseKey
    have "length (events_of a) = 4" using PauseKey by (simp add: events_of_def)
    then show ?thesis using m [of "concat (map fast_enc (events_of a))" 4] assms(3) unfolding PauseKey fast_bytes
      by (simp add: perform_def freerdp_input_send_keyboard_pause_event_def input_register_client_callbacks_def
          input_send_fastpath_keyboard_pause_event_def Let_def)
  qed
qed

text \<open>
  C8: The fast path and the slow path are equivalent for input: whichever of them a client registered, every action
  of its user (a key, a character, a mouse movement, a synchronization, a focus change or the pause key) that the
  server supports is sent successfully, and the server that receives the packets in order makes
  the calls of that action, in the same order, with the same arguments, up to the first call that
  refuses. Between the packets of the slow path the server's callbacks must leave the connection ready; the fast
  path carries an action in one packet, if its flags and codes fit.
\<close>

theorem input_paths_equivalent:
  assumes "input_client cenv crdp" "list_all (supported st) (events_of a)" "FastPathInput st \<longrightarrow> list_all portable (events_of a)"
    "UnicodeKeyboardEvent (fp_input senv) \<noteq> None" "peer_ready (peer_rdp peer)"
    "\<And>e r. peer_ready r \<Longrightarrow> peer_ready (snd (call_event (fp_input senv) e r))"
  shows "\<exists>crdp' packets rc peer'. perform (input_register_client_callbacks cenv st) crdp a = Some (True, crdp', packets) \<and>
    recv_input_packets junk env h ops senv peer packets = Some (rc, peer') \<and>
    (rc = 0, peer_rdp peer') = (if FastPathInput st then call_groups fast_arrival (fp_input senv) [events_of a] (peer_rdp peer)
       else call_groups (slow_arrival (userId (r_mcs crdp))) (fp_input senv) (map (\<lambda>e. [e]) (events_of a)) (peer_rdp peer))"
proof (cases "FastPathInput st")
  case True
  obtain t where t: "perform (input_register_client_callbacks cenv st) crdp a = Some (True, crdp, [t])"
      "sent (fast_packet (length (events_of a)) (concat (map fast_enc (events_of a)))) t"
    using perform_fast [OF assms(1,2) True] by blast
  have n: "1 \<le> length (events_of a)" "length (events_of a) \<le> 4" by (cases a; simp add: events_of_def)+
  have f: "length (fast_enc e) \<le> 7" for e by (cases e) (simp_all add: fast_enc_def fast_body_def)
  have c7: "length (concat (map fast_enc es)) \<le> 7 * length es" for es
  proof (induction es)
    case (Cons e es) then show ?case using f [of e] by simp
  qed simp
  have "length (concat (map fast_enc (events_of a))) \<le> 250" using c7 [of "events_of a"] n(2) by simp
  moreover obtain ok rdp where c: "call_events (fp_input senv) (events_of a) (fast_arrival (peer_rdp peer)) = (ok, rdp)" by force
  ultimately obtain fp s where "peer_recv_pdu junk env h ops senv peer (Stream_SetPosition t 0) =
      Some ((if ok then 0 else - 1, peer\<lparr>peer_rdp := rdp, peer_fastpath := fp\<rparr>, None), s)"
    using recv_fast_packet [OF t(2) n(1), of senv junk env h ops peer] n(2) assms(3,4) True by auto
  then show ?thesis using t(1) c True by (cases ok) simp_all
next
  case False
  obtain crdp' ts where t: "perform (input_register_client_callbacks cenv st) crdp a = Some (True, crdp', ts)"
      "list_all2 (\<lambda>e t. \<exists>r. sent (slow_packet r e) t \<and> input_client cenv r \<and> userId (r_mcs r) = userId (r_mcs crdp)) (events_of a) ts"
    using perform_slow [OF assms(1,2) False] by blast
  let ?c = "call_groups (slow_arrival (userId (r_mcs crdp))) (fp_input senv) (map (\<lambda>e. [e]) (events_of a)) (peer_rdp peer)"
  obtain peer' where "recv_input_packets junk env h ops senv peer ts = Some (if fst ?c then 0 else - 1, peer')" "peer_rdp peer' = snd ?c"
    using recv_slow_packets [OF t(2) assms(5,6), of junk env h ops] by blast
  then show ?thesis using t(1) False by (cases "fst ?c") (auto simp: prod_eq_iff)
qed

text \<open>The pause key of a client without encryption, once over each path.\<close>

definition any_input :: "bool \<Rightarrow> input_settings" where
  "any_input fast = \<lparr>UnicodeInput = True, HasHorizontalWheel = True, HasExtendedMouseEvent = True, FastPathInput = fast\<rparr>"

definition waiting_peer :: "unit freerdp_peer" where
  "waiting_peer = \<lparr>peer_rdp = example_rdp True, peer_fastpath = waiting_fp, ack_frame_id = 0\<rparr>"

definition example_peer_ops :: "unit peer_ops" where
  "example_peer_ops = \<lparr>rdp_recv_client_synchronize_pdu = (\<lambda>rdp s. Some ((True, rdp), s)),
     rdp_server_accept_client_control_pdu = (\<lambda>rdp s. Some ((True, rdp), s)),
     rdp_server_accept_client_persistent_key_list_pdu = (\<lambda>rdp s. Some ((True, rdp), s)),
     rdp_server_accept_client_font_list_pdu = (\<lambda>rdp s. Some ((True, rdp), s)),
     rdp_server_accept_confirm_active = (\<lambda>_ rdp s. Some ((True, rdp), s)), freerdp_channel_peer_process = (\<lambda>_ rdp s. Some ((True, rdp), s)),
     SurfaceFrameAcknowledge = None\<rparr>"

lemma plain_env_input: "input_client plain_env (example_rdp False)" "UnicodeKeyboardEvent (fp_input plain_env) \<noteq> None"
    "peer_ready (peer_rdp waiting_peer)" "peer_ready r \<Longrightarrow> peer_ready (snd (call_event (fp_input plain_env) e r))"
    "list_all portable (events_of PauseKey)" "list_all (supported st) (events_of PauseKey)"
proof -
  show "input_client plain_env (example_rdp False)" using fresh_pool_ok
    by (simp add: input_client_def plain_env_def fresh_pool_def example_rdp_def MCS_BASE_CHANNEL_ID_def)
  show "peer_ready r \<Longrightarrow> peer_ready (snd (call_event (fp_input plain_env) e r))"
    by (cases e) (simp_all add: call_event_def plain_env_def accept_def if_call_result_def)
qed (simp_all add: plain_env_def accept_def waiting_peer_def peer_ready_def example_rdp_def freerdp_shall_disconnect_def mcs_new_def
  events_of_def portable_def supported_def key_consts)

definition pause_key_exchanged :: "bool \<Rightarrow> bool" where
  "pause_key_exchanged fast \<longleftrightarrow> (\<exists>crdp' packets rc peer'.
    perform (input_register_client_callbacks plain_env (any_input fast)) (example_rdp False) PauseKey = Some (True, crdp', packets) \<and>
    recv_input_packets 0 (example_env 0) example_handlers example_peer_ops plain_env waiting_peer packets = Some (rc, peer') \<and>
    (rc = 0, peer_rdp peer') =
      (if FastPathInput (any_input fast) then call_groups fast_arrival (fp_input plain_env) [events_of PauseKey] (peer_rdp waiting_peer)
       else call_groups (slow_arrival (userId (r_mcs (example_rdp False)))) (fp_input plain_env) (map (\<lambda>e. [e]) (events_of PauseKey))
         (peer_rdp waiting_peer)))"

theorem input_paths_equivalent_witness: "pause_key_exchanged True \<and> pause_key_exchanged False"
  unfolding pause_key_exchanged_def using plain_env_input by (blast intro: input_paths_equivalent)

section \<open>A packet that announces more events than it holds\<close>

lemma unknown_event_skipped:
  assumes "wf_stream s" "6 \<le> avail s" "get16 (drop 4 (rest s)) = 0xFFFF"
  shows "input_recv_event i rdp s = Some ((True, rdp), Stream_Seek s 12)"
  using assms by (simp add: input_recv_event_def wire_simps input_event_types Let_def)

lemma event_beyond_buffer:
  assumes "s_length s < s_pointer s" "s_pointer s < 2 ^ 63" "length (s_buffer s) \<le> s_pointer s"
  shows "input_recv_event i rdp s = None"
proof -
  let ?d = "int (s_length s) - int (s_pointer s)"
  have "?d mod 2 ^ 64 = (?d + 2 ^ 64) mod 2 ^ 64" by simp
  also have "\<dots> = ?d + 2 ^ 64" using assms(1,2) by (intro mod_pos_pos_trivial) simp_all
  finally have "\<not> Stream_GetRemainingLength s < 6" using assms(2) by (simp add: Stream_GetRemainingLength_def sub64_def)
  moreover have "Stream_Read_UINT16 (Stream_Seek s 4) = None"
    using assms(3) by (simp add: Stream_Read_UINT16_def Stream_Peek_UINT16_def Stream_Peek_def Stream_Seek_def mem_read_def)
  ultimately show ?thesis by (simp add: input_recv_event_def)
qed

text \<open>
  C36: The slow-path receiver counts six bytes for an event, while an event takes twelve. A packet of three events of
  unknown type in eighteen bytes passes its check; skipping the second event leaves the buffer, the remaining
  length wraps around, and the third event is read outside the buffer.
\<close>

theorem input_recv_overreads:
  "input_recv i rdp (Stream_StaticInit ([3, 0, 0, 0] @ replicate 18 0xFF)) = None"
proof -
  let ?s = "Stream_StaticInit ([3, 0, 0, 0] @ replicate 18 0xFF)"
  have w: "wf_stream ?s" "avail ?s = 22" "rest ?s = [3, 0, 0, 0] @ replicate 18 0xFF"
    by (simp_all add: Stream_StaticInit_def wf_stream_def wf_cap_def avail_def rest_def)
  have r: "Stream_Read_UINT16 ?s = Some (3, Stream_Seek ?s 2)" using Read_get(2) [OF w(1)] w(2) unfolding w(3) by (simp add: get16_def)
  have 1: "input_recv_event i rdp (Stream_Seek ?s 4) = Some ((True, rdp), Stream_Seek ?s 16)"
    using unknown_event_skipped [of "Stream_Seek ?s 4" i rdp] w by (simp add: wf_Seek avail_Seek rest_Seek get16_def)
  have 2: "input_recv_event i rdp (Stream_Seek ?s 16) = Some ((True, rdp), Stream_Seek ?s 28)"
    using unknown_event_skipped [of "Stream_Seek ?s 16" i rdp] w by (simp add: wf_Seek avail_Seek rest_Seek get16_def)
  have 3: "input_recv_event i rdp (Stream_Seek ?s 28) = None"
    by (rule event_beyond_buffer) (simp_all add: Stream_StaticInit_def Stream_Seek_def)
  have "input_recv_loop i 3 rdp (Stream_Seek ?s 4) = None" using 1 2 3 by (simp add: numeral_3_eq_3 del: append.simps replicate.simps)
  moreover have "\<not> Stream_GetRemainingLength ?s < 4" "\<not> Stream_GetRemainingLength (Stream_Seek ?s 4) < 18"
    using w(1,2) by (simp_all add: remaining_length wf_Seek avail_Seek del: append.simps)
  ultimately show ?thesis using r by (simp add: input_recv_def Let_def del: append.simps)
qed

end
