(* ===== verification/Region.thy ===== *)
theory Region
  imports Update
begin

text \<open>
  Regions of the screen (\<^verbatim>\<open>libfreerdp/codec/region.c\<close>), which the server uses to collect what has to be
  painted: a region is an array of rectangles in bands, sorted from top to bottom and from left to right, with the
  rectangle around them.

  A pointer into an array of rectangles is the list from there to the end of the array. The array that receives
  the result has the size that was allocated; writing beyond it is a fault (\<open>None\<close>). Counters are natural numbers;
  those of the code have 32 bits, more than the rectangles that fit into memory.
\<close>

section \<open>Rectangles\<close>

definition rect :: "u16 \<Rightarrow> u16 \<Rightarrow> u16 \<Rightarrow> u16 \<Rightarrow> RECTANGLE_16" where
  "rect l t r b = \<lparr>rc_left = l, rc_top = t, rc_right = r, rc_bottom = b\<rparr>"

definition rectangle_is_empty :: "RECTANGLE_16 \<Rightarrow> bool" where
  "rectangle_is_empty r \<longleftrightarrow> rc_left r = rc_right r \<or> rc_top r = rc_bottom r"

definition rectangles_equal :: "RECTANGLE_16 \<Rightarrow> RECTANGLE_16 \<Rightarrow> bool" where
  "rectangles_equal r1 r2 \<longleftrightarrow>
     rc_left r1 = rc_left r2 \<and> rc_top r1 = rc_top r2 \<and> rc_right r1 = rc_right r2 \<and> rc_bottom r1 = rc_bottom r2"

definition rectangles_intersection :: "RECTANGLE_16 \<Rightarrow> RECTANGLE_16 \<Rightarrow> bool \<times> RECTANGLE_16" where
  "rectangles_intersection r1 r2 =
     (let dst = rect (max (rc_left r1) (rc_left r2)) (max (rc_top r1) (rc_top r2))
                     (min (rc_right r1) (rc_right r2)) (min (rc_bottom r1) (rc_bottom r2))
      in (rc_left dst < rc_right dst \<and> rc_top dst < rc_bottom dst, dst))"

definition rectangles_intersects :: "RECTANGLE_16 \<Rightarrow> RECTANGLE_16 \<Rightarrow> bool" where
  "rectangles_intersects r1 r2 = fst (rectangles_intersection r1 r2)"

section \<open>Regions\<close>

text \<open>
  The structure \<^verbatim>\<open>REGION16_DATA\<close> is followed by its rectangles; the data is a null pointer after a failed allocation.
\<close>

record REGION16_DATA =
  rd_size :: nat
  rd_nbRects :: nat
  rd_rects :: "RECTANGLE_16 list"

record REGION16 =
  extents :: RECTANGLE_16
  rg_data :: "REGION16_DATA option"

type_synonym rect_alloc = "nat \<Rightarrow> RECTANGLE_16 list option"

definition empty_region :: REGION16_DATA where
  "empty_region = \<lparr>rd_size = 0, rd_nbRects = 0, rd_rects = []\<rparr>"

definition region16_init :: REGION16 where
  "region16_init = \<lparr>extents = rect 0 0 0 0, rg_data = Some empty_region\<rparr>"

definition region16_n_rects :: "REGION16 \<Rightarrow> nat option" where
  "region16_n_rects region = do { d \<leftarrow> rg_data region; Some (rd_nbRects d) }"

definition region16_rects :: "REGION16 \<Rightarrow> RECTANGLE_16 list option" where
  "region16_rects region = do {
     d \<leftarrow> rg_data region;
     (if rd_nbRects d \<le> length (rd_rects d) then Some (take (rd_nbRects d) (rd_rects d)) else None) }"

definition region16_is_empty :: "REGION16 \<Rightarrow> bool option" where
  "region16_is_empty region = do { d \<leftarrow> rg_data region; Some (rd_nbRects d = 0) }"

definition region16_clear :: "REGION16 \<Rightarrow> REGION16 option" where
  "region16_clear region = do { _ \<leftarrow> rg_data region; Some \<lparr>extents = rect 0 0 0 0, rg_data = Some empty_region\<rparr> }"

definition region16_uninit :: "REGION16 \<Rightarrow> REGION16" where
  "region16_uninit region = region\<lparr>rg_data := None\<rparr>"

definition region_size :: "nat \<Rightarrow> nat" where
  "region_size n = 16 + n * 8"

definition allocateRegion :: "rect_alloc \<Rightarrow> nat \<Rightarrow> REGION16_DATA option" where
  "allocateRegion malloc nbItems =
     (case malloc nbItems of None \<Rightarrow> None
      | Some blk \<Rightarrow> Some \<lparr>rd_size = region_size nbItems, rd_nbRects = nbItems, rd_rects = blk\<rparr>)"

definition realloc_region :: "rect_alloc \<Rightarrow> REGION16_DATA \<Rightarrow> nat \<Rightarrow> REGION16_DATA option" where
  "realloc_region malloc d n = map_option (\<lambda>blk. d\<lparr>rd_rects := blk\<rparr>) (c_realloc malloc (rd_rects d) n)"

text \<open>Copying into another region; the copy takes the size of the source in bytes.\<close>

definition region16_copy :: "rect_alloc \<Rightarrow> REGION16 \<Rightarrow> REGION16 \<Rightarrow> (bool \<times> REGION16) option" where
  "region16_copy malloc dst src = do {
     _ \<leftarrow> rg_data dst;
     s \<leftarrow> rg_data src;
     (if rd_size s = 0 then Some (True, dst\<lparr>extents := extents src, rg_data := Some empty_region\<rparr>)
      else case allocateRegion malloc (rd_nbRects s) of
        None \<Rightarrow> Some (False, dst\<lparr>extents := extents src, rg_data := None\<rparr>)
      | Some d \<Rightarrow>
          if rd_size s \<noteq> region_size (rd_nbRects s) \<or> length (rd_rects s) < rd_nbRects s then None
          else Some (True, dst\<lparr>extents := extents src,
                 rg_data := Some (s\<lparr>rd_rects := take (rd_nbRects s) (rd_rects s)\<rparr>)\<rparr>)) }"

section \<open>Bands\<close>

type_synonym rect_out = "RECTANGLE_16 list \<times> nat"

text \<open>The next free place of the result, which holds \<open>used\<close> rectangles.\<close>

definition put_rect :: "RECTANGLE_16 \<Rightarrow> rect_out \<Rightarrow> rect_out option" where
  "put_rect r acc = (case acc of (arr, used) \<Rightarrow> if used < length arr then Some (arr[used := r], used + 1) else None)"

fun copy_items :: "(RECTANGLE_16 \<Rightarrow> bool) \<Rightarrow> u16 \<Rightarrow> u16 \<Rightarrow> RECTANGLE_16 list \<Rightarrow> rect_out \<Rightarrow> (RECTANGLE_16 list \<times> rect_out) option" where
  "copy_items P newTop newBottom [] acc = Some ([], acc)"
| "copy_items P newTop newBottom (r # src) acc =
     (if P r then do {
        acc \<leftarrow> put_rect (rect (rc_left r) newTop (rc_right r) newBottom) acc;
        copy_items P newTop newBottom src acc }
      else Some (r # src, acc))"

definition region16_copy_band_with_union ::
  "RECTANGLE_16 list \<Rightarrow> u16 \<Rightarrow> u16 \<Rightarrow> RECTANGLE_16 option \<Rightarrow> rect_out \<Rightarrow> (RECTANGLE_16 list \<times> rect_out) option" where
  "region16_copy_band_with_union src newTop newBottom unionRect acc =
     (if src = [] then None
      else let refY = rc_top (hd src) in do {
        (src, acc) \<leftarrow>
          (case unionRect of None \<Rightarrow> Some (src, acc)
           | Some u \<Rightarrow> do {
               (src, acc) \<leftarrow> copy_items (\<lambda>r. rc_top r = refY \<and> rc_right r < rc_left u) newTop newBottom src acc;
               let startOverlap = (if src \<noteq> [] \<and> rc_top (hd src) = refY \<and> rc_left (hd src) < rc_left u then hd src else u);
               let src = dropWhile (\<lambda>r. rc_top r = refY \<and> rc_right r < rc_right u) src;
               let more = (src \<noteq> [] \<and> rc_top (hd src) = refY \<and> rc_left (hd src) < rc_right u);
               let endOverlap = (if more then hd src else u);
               let src = (if more then tl src else src);
               acc \<leftarrow> put_rect (rect (rc_left startOverlap) newTop (rc_right endOverlap) newBottom) acc;
               Some (src, acc) });
        copy_items (\<lambda>r. rc_top r = refY) newTop newBottom src acc })"

definition next_band :: "RECTANGLE_16 list \<Rightarrow> RECTANGLE_16 list" where
  "next_band band1 = dropWhile (\<lambda>r. rc_top r = rc_top (hd band1)) band1"

fun band_match_loop :: "u16 \<Rightarrow> RECTANGLE_16 list \<Rightarrow> RECTANGLE_16 list \<Rightarrow> bool" where
  "band_match_loop refBand2 [] band2 = (band2 = [] \<or> rc_top (hd band2) \<noteq> refBand2)"
| "band_match_loop refBand2 (r1 # band1) [] = False"
| "band_match_loop refBand2 (r1 # band1) (r2 # band2) =
     (if rc_top r2 \<noteq> refBand2 then False
      else if rc_left r1 \<noteq> rc_left r2 \<or> rc_right r1 \<noteq> rc_right r2 then False
      else band_match_loop refBand2 band1 band2)"

definition band_match :: "RECTANGLE_16 list \<Rightarrow> RECTANGLE_16 list \<Rightarrow> bool" where
  "band_match band1 band2 = band_match_loop (rc_top (hd band2)) band1 band2"

fun contained_loop :: "u16 \<Rightarrow> RECTANGLE_16 \<Rightarrow> RECTANGLE_16 list \<Rightarrow> bool" where
  "contained_loop refY r [] = False"
| "contained_loop refY r (b # band) =
     (if rc_top b = refY \<and> rc_left b \<le> rc_left r then
        if rc_right r \<le> rc_right b then True else contained_loop refY r band
      else False)"

definition rectangle_contained_in_band :: "RECTANGLE_16 list \<Rightarrow> RECTANGLE_16 \<Rightarrow> bool" where
  "rectangle_contained_in_band band r =
     (if rc_top (hd band) > rc_top r \<or> rc_bottom r > rc_bottom (hd band) then False
      else contained_loop (rc_top (hd band)) r band)"

text \<open>
  The loop that joins bands: \<open>band1\<close> is the array from the band under consideration on, and the result what
  becomes of it.
\<close>

function simplify_loop :: "RECTANGLE_16 list \<Rightarrow> RECTANGLE_16 list" where
  "simplify_loop band1 =
     (if band1 = [] then []
      else let band2 = next_band band1; items = takeWhile (\<lambda>r. rc_top r = rc_top (hd band1)) band1 in
        if band2 = [] then band1
        else if rc_bottom (hd band1) = rc_top (hd band2) \<and> band_match items band2 then
          simplify_loop (map (\<lambda>r. r\<lparr>rc_bottom := rc_bottom (hd band2)\<rparr>) items @ drop (length items) band2)
        else items @ simplify_loop band2)"
  by pat_completeness auto
termination
proof (relation "measure length")
  fix band1 :: "RECTANGLE_16 list" and band2 items
  assume h: "band1 \<noteq> []" "band2 = next_band band1" "items = takeWhile (\<lambda>r. rc_top r = rc_top (hd band1)) band1" "band2 \<noteq> []"
  have l: "length items + length band2 = length band1" unfolding h(2,3) next_band_def
    by (metis length_append takeWhile_dropWhile_id)
  have "items \<noteq> []" using h(1,3) by (cases band1) auto
  then show "(map (\<lambda>r. r\<lparr>rc_bottom := rc_bottom (hd band2)\<rparr>) items @ drop (length items) band2, band1) \<in> measure length"
    "(band2, band1) \<in> measure length" using l h(4) by (cases items; cases band2; simp)+
qed simp

declare simplify_loop.simps [simp del]

definition region16_simplify_bands :: "rect_alloc \<Rightarrow> REGION16 \<Rightarrow> (bool \<times> REGION16) option" where
  "region16_simplify_bands malloc region = do {
     rects \<leftarrow> region16_rects region;
     d \<leftarrow> rg_data region;
     let nbRects = length rects;
     (if nbRects < 2 then Some (True, region)
      else let rects = simplify_loop rects; finalNbRects = length rects in
        if finalNbRects \<noteq> nbRects then
          case realloc_region malloc (d\<lparr>rd_rects := rects @ drop finalNbRects (rd_rects d)\<rparr>) finalNbRects of
            None \<Rightarrow> Some (False, region\<lparr>rg_data := Some empty_region\<rparr>)
          | Some d \<Rightarrow> Some (True, region\<lparr>rg_data := Some (d\<lparr>rd_nbRects := finalNbRects, rd_size := region_size finalNbRects\<rparr>)\<rparr>)
        else Some (True, region\<lparr>rg_data := Some (d\<lparr>rd_rects := rects @ drop nbRects (rd_rects d)\<rparr>)\<rparr>)) }"

section \<open>Union\<close>

text \<open>One round of the loop: the band, then the piece of the rectangle between it and the next band.\<close>

definition union_band ::
  "RECTANGLE_16 \<Rightarrow> RECTANGLE_16 list \<Rightarrow> rect_out \<Rightarrow> (RECTANGLE_16 list \<times> u16 \<times> rect_out) option" where
  "union_band r currentBand acc =
     (let cur = hd currentBand in
      if rc_bottom cur \<le> rc_top r \<or> rc_bottom r \<le> rc_top cur \<or> rectangle_contained_in_band currentBand r then do {
        (nextBand, acc) \<leftarrow> region16_copy_band_with_union currentBand (rc_top cur) (rc_bottom cur) None acc;
        Some (nextBand, rc_top r, acc) }
      else do {
        acc \<leftarrow> (if rc_top r > rc_top cur then do {
                  (_, acc) \<leftarrow> region16_copy_band_with_union currentBand (rc_top cur) (rc_top r) None acc;
                  Some acc }
                else Some acc);
        let mergeTop = (if rc_top r > rc_top cur then rc_top r else rc_top cur);
        let mergeBottom = (if rc_bottom r < rc_bottom cur then rc_bottom r else rc_bottom cur);
        (nextBand, acc) \<leftarrow> region16_copy_band_with_union currentBand mergeTop mergeBottom (Some r) acc;
        (nextBand, acc) \<leftarrow>
          (if rc_bottom r < rc_bottom cur then region16_copy_band_with_union currentBand mergeBottom (rc_bottom cur) None acc
           else Some (nextBand, acc));
        Some (nextBand, rc_bottom cur, acc) })"

definition inter_band :: "RECTANGLE_16 \<Rightarrow> RECTANGLE_16 \<Rightarrow> RECTANGLE_16 list \<Rightarrow> u16 \<Rightarrow> rect_out \<Rightarrow> rect_out option" where
  "inter_band r cur nextBand topInterBand acc =
     (if nextBand \<noteq> [] \<and> rc_top (hd nextBand) \<noteq> rc_bottom cur \<and> rc_bottom r > rc_bottom cur \<and> rc_top r < rc_top (hd nextBand)
      then put_rect (rect (rc_left r) topInterBand (rc_right r) (min (rc_top (hd nextBand)) (rc_bottom r))) acc
      else Some acc)"

partial_function (option) union_loop :: "RECTANGLE_16 \<Rightarrow> RECTANGLE_16 list \<Rightarrow> rect_out \<Rightarrow> rect_out option" where
  [code]: "union_loop r currentBand acc =
     (if currentBand = [] then Some acc
      else do {
        (nextBand, topInterBand, acc) \<leftarrow> union_band r currentBand acc;
        acc \<leftarrow> inter_band r (hd currentBand) nextBand topInterBand acc;
        union_loop r nextBand acc })"

definition union_items :: "RECTANGLE_16 \<Rightarrow> RECTANGLE_16 \<Rightarrow> RECTANGLE_16 list \<Rightarrow> rect_out \<Rightarrow> rect_out option" where
  "union_items r srcExtents src acc = do {
     acc \<leftarrow> (if rc_top r < rc_top srcExtents
             then put_rect (rect (rc_left r) (rc_top r) (rc_right r) (min (rc_top srcExtents) (rc_bottom r))) acc else Some acc);
     acc \<leftarrow> union_loop r src acc;
     (if rc_bottom srcExtents < rc_bottom r
      then put_rect (rect (rc_left r) (max (rc_bottom srcExtents) (rc_top r)) (rc_right r) (rc_bottom r)) acc else Some acc) }"

definition join_extents :: "RECTANGLE_16 \<Rightarrow> RECTANGLE_16 \<Rightarrow> RECTANGLE_16" where
  "join_extents a b = rect (min (rc_left a) (rc_left b)) (min (rc_top a) (rc_top b)) (max (rc_right a) (rc_right b)) (max (rc_bottom a) (rc_bottom b))"

definition region16_union_rect :: "rect_alloc \<Rightarrow> REGION16 \<Rightarrow> REGION16 \<Rightarrow> RECTANGLE_16 \<Rightarrow> (bool \<times> REGION16) option" where
  "region16_union_rect malloc dst src r = do {
     src_rects \<leftarrow> region16_rects src;
     (if src_rects = [] then
        case allocateRegion malloc 1 of
          None \<Rightarrow> Some (False, dst\<lparr>extents := r, rg_data := None\<rparr>)
        | Some d \<Rightarrow> Some (True, dst\<lparr>extents := r, rg_data := Some (d\<lparr>rd_rects := [r]\<rparr>)\<rparr>)
      else case allocateRegion malloc ((1 + length src_rects) * 4) of
          None \<Rightarrow> Some (False, dst)
        | Some newItems \<Rightarrow> do {
            (arr, usedRects) \<leftarrow> union_items r (extents src) src_rects (rd_rects newItems, 0);
            let dst = dst\<lparr>extents := join_extents r (extents src)\<rparr>;
            (case realloc_region malloc (newItems\<lparr>rd_rects := arr, rd_size := region_size usedRects\<rparr>) usedRects of
               None \<Rightarrow> Some (False, dst\<lparr>rg_data := None\<rparr>)
             | Some d \<Rightarrow> region16_simplify_bands malloc (dst\<lparr>rg_data := Some (d\<lparr>rd_nbRects := usedRects\<rparr>)\<rparr>)) }) }"

section \<open>Intersection\<close>

fun intersects_loop :: "RECTANGLE_16 \<Rightarrow> RECTANGLE_16 list \<Rightarrow> bool" where
  "intersects_loop arg2 [] = False"
| "intersects_loop arg2 (r # rects) =
     (if rc_bottom arg2 > rc_top r then if rectangles_intersects r arg2 then True else intersects_loop arg2 rects else False)"

definition region16_intersects_rect :: "REGION16 \<Rightarrow> RECTANGLE_16 \<Rightarrow> bool option" where
  "region16_intersects_rect src arg2 =
     (if rg_data src = None then Some False
      else do {
        rects \<leftarrow> region16_rects src;
        Some (if rects = [] then False
              else if length rects = 1 then rectangles_intersects (extents src) arg2
              else if \<not> rectangles_intersects (extents src) arg2 then False
              else intersects_loop arg2 rects) })"

fun intersect_loop :: "RECTANGLE_16 \<Rightarrow> RECTANGLE_16 list \<Rightarrow> RECTANGLE_16 \<Rightarrow> rect_out \<Rightarrow> (RECTANGLE_16 \<times> rect_out) option" where
  "intersect_loop r [] newExtents acc = Some (newExtents, acc)"
| "intersect_loop r (s # src) newExtents acc =
     (if rc_bottom r > rc_top s then
        let (hit, common) = rectangles_intersection s r in
        if hit then do {
          acc \<leftarrow> put_rect common acc;
          intersect_loop r src (if rectangle_is_empty newExtents then common else join_extents common newExtents) acc }
        else intersect_loop r src newExtents acc
      else Some (newExtents, acc))"

definition region16_intersect_rect :: "rect_alloc \<Rightarrow> REGION16 \<Rightarrow> REGION16 \<Rightarrow> RECTANGLE_16 \<Rightarrow> (bool \<times> REGION16) option" where
  "region16_intersect_rect malloc dst src r = do {
     rects \<leftarrow> region16_rects src;
     (if rects = [] then do { dst \<leftarrow> region16_clear dst; Some (True, dst) }
      else if length rects = 1 then do {
        let (hit, common) = rectangles_intersection (extents src) r;
        dst \<leftarrow> region16_clear dst;
        (if hit then region16_union_rect malloc dst dst common else Some (True, dst)) }
      else case allocateRegion malloc (length rects) of
          None \<Rightarrow> Some (False, dst)
        | Some newItems \<Rightarrow> do {
            (newExtents, arr, usedRects) \<leftarrow> intersect_loop r rects (rect 0 0 0 0) (rd_rects newItems, 0);
            _ \<leftarrow> rg_data dst;
            (case realloc_region malloc (newItems\<lparr>rd_rects := arr, rd_nbRects := usedRects, rd_size := region_size usedRects\<rparr>) usedRects of
               None \<Rightarrow> Some (False, dst\<lparr>rg_data := None\<rparr>)
             | Some d \<Rightarrow> region16_simplify_bands malloc (dst\<lparr>extents := newExtents, rg_data := Some d\<rparr>)) }) }"

end
