(* ===== verification/Region_Points.thy ===== *)
theory Region_Points
  imports Region
begin

text \<open>
  What lists of rectangles mean: the set of points they cover. The loops of \<open>Region\<close> on bands are shown to
  cover the points of the region and of the rectangle, to keep the order of the bands, and to write at most
  four times as many rectangles as they read.
\<close>

section \<open>Points\<close>

definition rect_points :: "RECTANGLE_16 \<Rightarrow> (u16 \<times> u16) set" where
  "rect_points r = {rc_left r..<rc_right r} \<times> {rc_top r..<rc_bottom r}"

definition points :: "RECTANGLE_16 list \<Rightarrow> (u16 \<times> u16) set" where
  "points rs = (\<Union>r \<in> set rs. rect_points r)"

definition spans :: "RECTANGLE_16 list \<Rightarrow> u16 set" where
  "spans rs = (\<Union>r \<in> set rs. {rc_left r..<rc_right r})"

definition proper :: "RECTANGLE_16 \<Rightarrow> bool" where
  "proper r \<longleftrightarrow> rc_left r < rc_right r \<and> rc_top r < rc_bottom r"

text \<open>Two rectangles in the order of a region: side by side in one band, or in bands one above the other.\<close>

definition before :: "RECTANGLE_16 \<Rightarrow> RECTANGLE_16 \<Rightarrow> bool" where
  "before a b \<longleftrightarrow> (rc_top a = rc_top b \<and> rc_bottom a = rc_bottom b \<and> rc_right a \<le> rc_left b) \<or> rc_bottom a \<le> rc_top b"

definition banded :: "RECTANGLE_16 list \<Rightarrow> bool" where
  "banded rs \<longleftrightarrow> list_all proper rs \<and> sorted_wrt before rs"

definition band :: "u16 \<Rightarrow> u16 \<Rightarrow> RECTANGLE_16 list \<Rightarrow> bool" where
  "band t b rs \<longleftrightarrow> list_all (\<lambda>r. rc_top r = t \<and> rc_bottom r = b \<and> rc_left r < rc_right r) rs \<and> t < b \<and>
     sorted_wrt (\<lambda>x y. rc_right x \<le> rc_left y) rs"

definition restack :: "u16 \<Rightarrow> u16 \<Rightarrow> RECTANGLE_16 \<Rightarrow> RECTANGLE_16" where
  "restack t b r = rect (rc_left r) t (rc_right r) b"

lemma rect_sel [simp]:
  "rc_left (rect l t r b) = l" "rc_top (rect l t r b) = t" "rc_right (rect l t r b) = r" "rc_bottom (rect l t r b) = b"
  by (simp_all add: rect_def)

lemma rect_eqI: "rc_left a = rc_left b \<Longrightarrow> rc_top a = rc_top b \<Longrightarrow> rc_right a = rc_right b \<Longrightarrow> rc_bottom a = rc_bottom b \<Longrightarrow> a = (b :: RECTANGLE_16)"
  by (cases a; cases b) simp

lemma restack_sel [simp]:
  "rc_left (restack t b r) = rc_left r" "rc_top (restack t b r) = t" "rc_right (restack t b r) = rc_right r" "rc_bottom (restack t b r) = b"
  by (simp_all add: restack_def)

lemma points_simps [simp]: "points [] = {}" "points (r # rs) = rect_points r \<union> points rs" "points (rs @ rs') = points rs \<union> points rs'"
  by (auto simp: points_def)

lemma spans_simps [simp]: "spans [] = {}" "spans (r # rs) = {rc_left r..<rc_right r} \<union> spans rs" "spans (rs @ rs') = spans rs \<union> spans rs'"
  by (auto simp: spans_def)

lemma spans_restack [simp]: "spans (map (restack t b) rs) = spans rs"
  by (induction rs) simp_all

lemma points_band: "band t b rs \<Longrightarrow> points rs = spans rs \<times> {t..<b}"
  by (induction rs) (auto simp: band_def rect_points_def)

lemma band_simps: "band t b [] \<longleftrightarrow> t < b"
  "band t b (r # rs) \<longleftrightarrow> rc_top r = t \<and> rc_bottom r = b \<and> rc_left r < rc_right r \<and> (\<forall>x \<in> set rs. rc_right r \<le> rc_left x) \<and> band t b rs"
  "band t b (rs @ rs') \<longleftrightarrow> band t b rs \<and> band t b rs' \<and> (\<forall>x \<in> set rs. \<forall>y \<in> set rs'. rc_right x \<le> rc_left y)"
  by (auto simp: band_def sorted_wrt_append)

lemma band_restack: "band t b rs \<Longrightarrow> t' < b' \<Longrightarrow> band t' b' (map (restack t' b') rs)"
  by (auto simp: band_def list_all_iff sorted_wrt_map)

lemma restack_same: "band t b rs \<Longrightarrow> map (restack t b) rs = rs"
  by (induction rs) (auto simp: band_simps intro: rect_eqI)

lemma restack_bottom: "band t b rs \<Longrightarrow> map (\<lambda>r. r\<lparr>rc_bottom := b'\<rparr>) rs = map (restack t b') rs"
  by (induction rs) (auto simp: band_simps intro: rect_eqI)

lemma banded_band: "band t b rs \<Longrightarrow> banded rs"
  by (auto simp: band_def banded_def list_all_iff proper_def before_def intro: sorted_wrt_mono_rel [rotated])

lemma banded_append:
  "banded (xs @ ys) \<longleftrightarrow> banded xs \<and> banded ys \<and> (\<forall>x \<in> set xs. \<forall>y \<in> set ys. before x y)"
  by (auto simp: banded_def sorted_wrt_append)

text \<open>The first band of a region.\<close>

abbreviation first_band :: "RECTANGLE_16 list \<Rightarrow> RECTANGLE_16 list" where
  "first_band rs \<equiv> takeWhile (\<lambda>r. rc_top r = rc_top (hd rs)) rs"

lemma first_band_next: "first_band rs @ next_band rs = rs"
  by (simp add: next_band_def)

lemma banded_first:
  assumes "banded rs" "rs \<noteq> []"
  shows "band (rc_top (hd rs)) (rc_bottom (hd rs)) (first_band rs)" "banded (next_band rs)"
    "\<forall>r \<in> set (next_band rs). rc_bottom (hd rs) \<le> rc_top r" "first_band rs \<noteq> []"
    "next_band rs \<noteq> [] \<Longrightarrow> rc_top (hd (next_band rs)) \<noteq> rc_top (hd rs)"
proof -
  obtain a as where rs: "rs = a # as" using assms(2) by (cases rs) auto
  have d: "banded (first_band rs)" "banded (next_band rs)" "\<forall>x \<in> set (first_band rs). \<forall>y \<in> set (next_band rs). before x y"
    using assms(1) banded_append [of "first_band rs" "next_band rs"] unfolding first_band_next by auto
  show "banded (next_band rs)" by (rule d(2))
  show ne: "first_band rs \<noteq> []" by (simp add: rs)
  have p: "proper a" and b: "\<forall>x \<in> set as. before a x" and q: "list_all proper rs" and w: "sorted_wrt before (first_band rs)"
    using assms(1) d(1) by (simp_all add: banded_def rs)
  have t: "rc_top x = rc_top a \<and> rc_bottom x = rc_bottom a \<and> rc_left x < rc_right x" if "x \<in> set (first_band rs)" for x
    using set_takeWhileD [OF that] b p q by (auto simp: rs before_def proper_def list_all_iff)
  have "sorted_wrt (\<lambda>x y. rc_right x \<le> rc_left y) (first_band rs)"
  proof (rule sorted_wrt_mono_rel [OF _ w])
    fix x y assume "x \<in> set (first_band rs)" "y \<in> set (first_band rs)" "before x y"
    then show "rc_right x \<le> rc_left y" using t [of x] t [of y] p by (auto simp: before_def proper_def)
  qed
  moreover have h: "rc_top (hd rs) = rc_top a" "rc_bottom (hd rs) = rc_bottom a" "rc_top a < rc_bottom a" using p by (simp_all add: rs proper_def)
  moreover have "\<forall>x \<in> set (first_band rs). rc_top x = rc_top a \<and> rc_bottom x = rc_bottom a \<and> rc_left x < rc_right x" using t by blast
  ultimately show "band (rc_top (hd rs)) (rc_bottom (hd rs)) (first_band rs)" unfolding band_def list_all_iff h(1,2) by blast
  show n: "rc_top (hd (next_band rs)) \<noteq> rc_top (hd rs)" if "next_band rs \<noteq> []"
    using that hd_dropWhile [of "\<lambda>r. rc_top r = rc_top (hd rs)" rs] by (simp add: next_band_def)
  show "\<forall>r \<in> set (next_band rs). rc_bottom (hd rs) \<le> rc_top r"
  proof
    fix r assume r: "r \<in> set (next_band rs)"
    then obtain h hs where h: "next_band rs = h # hs" by (cases "next_band rs") auto
    have "a \<in> set (first_band rs)" by (simp add: rs)
    then have "before a h" using d(3) h by auto
    moreover have "rc_top h \<noteq> rc_top a" using n h by (simp add: rs)
    ultimately have ah: "rc_bottom a \<le> rc_top h" by (auto simp: before_def)
    have "r = h \<or> before h r" "proper h" using d(2) r h by (auto simp: banded_def)
    then have "rc_top h \<le> rc_top r" by (auto simp: before_def proper_def)
    then show "rc_bottom (hd rs) \<le> rc_top r" using ah by (simp add: rs)
  qed
qed

section \<open>Merging a band with a rectangle\<close>

definition merge_band :: "u16 \<Rightarrow> u16 \<Rightarrow> RECTANGLE_16 \<Rightarrow> RECTANGLE_16 list \<Rightarrow> RECTANGLE_16 list" where
  "merge_band t b u bs =
     (let s1 = dropWhile (\<lambda>r. rc_right r < rc_left u) bs;
          s2 = dropWhile (\<lambda>r. rc_right r < rc_right u) s1;
          reach = (s2 \<noteq> [] \<and> rc_left (hd s2) < rc_right u)
      in map (restack t b) (takeWhile (\<lambda>r. rc_right r < rc_left u) bs) @
         [rect (if s1 \<noteq> [] \<and> rc_left (hd s1) < rc_left u then rc_left (hd s1) else rc_left u) t (if reach then rc_right (hd s2) else rc_right u) b] @
         map (restack t b) (if reach then tl s2 else s2))"

lemma length_merge_band: "length (merge_band t b u bs) \<le> length bs + 1"
proof -
  let ?s1 = "dropWhile (\<lambda>r. rc_right r < rc_left u) bs" let ?s2 = "dropWhile (\<lambda>r. rc_right r < rc_right u) ?s1"
  have "length ?s2 \<le> length ?s1" by (rule length_dropWhile_le)
  moreover have "length (takeWhile (\<lambda>r. rc_right r < rc_left u) bs) + length ?s1 = length bs"
    by (metis length_append takeWhile_dropWhile_id)
  ultimately show ?thesis by (auto simp: merge_band_def Let_def)
qed

text \<open>The items from the first that reaches the rectangle on, with the rectangle.\<close>

lemma merge_overlap:
  assumes "band t b s1" "rc_left u < rc_right u" "s1 \<noteq> [] \<longrightarrow> rc_left u \<le> rc_right (hd s1)"
    and "s2 = dropWhile (\<lambda>r. rc_right r < rc_right u) s1" "reach \<longleftrightarrow> s2 \<noteq> [] \<and> rc_left (hd s2) < rc_right u"
    and "l = (if s1 \<noteq> [] \<and> rc_left (hd s1) < rc_left u then rc_left (hd s1) else rc_left u)"
    and "r = (if reach then rc_right (hd s2) else rc_right u)"
  shows "{l..<r} \<union> spans (if reach then tl s2 else s2) = spans s1 \<union> {rc_left u..<rc_right u}"
    "l < r" "\<forall>x \<in> set (if reach then tl s2 else s2). r \<le> rc_left x"
proof -
  let ?p = "takeWhile (\<lambda>r. rc_right r < rc_right u) s1"
  have s1: "s1 = ?p @ s2" by (simp add: assms(4))
  have b: "band t b ?p" "band t b s2" "\<forall>x \<in> set ?p. \<forall>y \<in> set s2. rc_right x \<le> rc_left y"
    using assms(1) band_simps(3) [of t b ?p s2] unfolding s1 [symmetric] by auto
  have m: "s2 \<noteq> [] \<Longrightarrow> rc_right u \<le> rc_right (hd s2)" using hd_dropWhile [of "\<lambda>r. rc_right r < rc_right u" s1] assms(4) by auto
  have l1: "l \<le> rc_left u" using assms(6) by (auto split: if_splits)
  have l2: "l \<le> rc_left x" if "x \<in> set s1" for x
  proof (cases s1)
    case (Cons a as)
    then have "x = a \<or> rc_right a \<le> rc_left x" "rc_left a < rc_right a" using assms(1) that by (auto simp: band_simps)
    then show ?thesis using assms(6) l1 Cons by (auto split: if_splits)
  qed (use that in simp)
  have l3: "{l..<rc_left u} \<subseteq> spans s1"
  proof (cases "s1 \<noteq> [] \<and> rc_left (hd s1) < rc_left u")
    case True
    then obtain a as where "s1 = a # as" by (cases s1) auto
    then show ?thesis using assms(3,6) True by auto
  qed (use assms(6) in auto)
  have r1: "rc_right u \<le> r" using m assms(5,7) by auto
  show "l < r" using l1 r1 assms(2) by auto
  show r2: "\<forall>x \<in> set (if reach then tl s2 else s2). r \<le> rc_left x"
  proof (cases s2)
    case (Cons a as)
    have "\<forall>x \<in> set as. rc_right a \<le> rc_left x" "rc_left a < rc_right a" using b(2) Cons by (auto simp: band_simps)
    then show ?thesis using assms(5,7) Cons by (auto simp: not_less)
  qed (use assms(5) in simp)
  have p: "spans ?p \<subseteq> {l..<r}"
  proof
    fix x assume "x \<in> spans ?p"
    then obtain q where q: "q \<in> set ?p" "rc_left q \<le> x" "x < rc_right q" by (auto simp: spans_def)
    then have "q \<in> set s1" "rc_right q < rc_right u" using set_takeWhileD [OF q(1)] by auto
    then show "x \<in> {l..<r}" using l2 [of q] q(2,3) r1 by auto
  qed
  have e: "{l..<r} \<union> spans (if reach then tl s2 else s2) = spans s1 \<union> {rc_left u..<rc_right u}" if "\<not> reach"
  proof -
    have "{l..<r} = {l..<rc_left u} \<union> {rc_left u..<rc_right u}" using that l1 assms(2,7) by auto
    moreover have "spans s1 = spans ?p \<union> spans s2" using s1 by (metis spans_simps(3))
    ultimately show ?thesis using that p l3 by auto
  qed
  have f: "{l..<r} \<union> spans (if reach then tl s2 else s2) = spans s1 \<union> {rc_left u..<rc_right u}" if rc: reach
  proof -
    obtain a as where a: "s2 = a # as" "rc_left a < rc_right u" using rc assms(5) by (cases s2) auto
    have r: "r = rc_right a" "rc_right u \<le> rc_right a" using rc assms(7) m a by auto
    have "a \<in> set s1" using s1 a(1) by (metis in_set_conv_decomp)
    then have "l \<le> rc_left a" by (rule l2)
    then have "{l..<r} = {l..<rc_left u} \<union> {rc_left u..<rc_right u} \<union> {rc_left a..<rc_right a}"
      using a(2) r l1 assms(2) by auto
    moreover have "spans s1 = spans ?p \<union> ({rc_left a..<rc_right a} \<union> spans as)" using s1 a(1) by (metis spans_simps(2,3))
    ultimately show ?thesis using rc p l3 a(1) by auto
  qed
  show "{l..<r} \<union> spans (if reach then tl s2 else s2) = spans s1 \<union> {rc_left u..<rc_right u}" using e f by blast
qed

lemma merge_band_ok:
  assumes "band t0 b0 bs" "rc_left u < rc_right u" "t < b"
  shows "band t b (merge_band t b u bs)" "spans (merge_band t b u bs) = spans bs \<union> {rc_left u..<rc_right u}"
proof -
  define pre where "pre = takeWhile (\<lambda>r. rc_right r < rc_left u) bs"
  define s1 where "s1 = dropWhile (\<lambda>r. rc_right r < rc_left u) bs"
  define s2 where "s2 = dropWhile (\<lambda>r. rc_right r < rc_right u) s1"
  define reach where "reach \<longleftrightarrow> s2 \<noteq> [] \<and> rc_left (hd s2) < rc_right u"
  define l where "l = (if s1 \<noteq> [] \<and> rc_left (hd s1) < rc_left u then rc_left (hd s1) else rc_left u)"
  define r where "r = (if reach then rc_right (hd s2) else rc_right u)"
  let ?rst = "if reach then tl s2 else s2"
  have m: "merge_band t b u bs = map (restack t b) pre @ [rect l t r b] @ map (restack t b) ?rst"
    unfolding merge_band_def Let_def pre_def s1_def [symmetric] s2_def [symmetric] reach_def [symmetric] l_def r_def by (rule refl)
  have bs: "bs = pre @ s1" by (simp add: pre_def s1_def)
  have b: "band t0 b0 pre" "band t0 b0 s1" "\<forall>x \<in> set pre. \<forall>y \<in> set s1. rc_right x \<le> rc_left y"
    using assms(1) unfolding bs band_simps(3) by auto
  have h: "s1 \<noteq> [] \<longrightarrow> rc_left u \<le> rc_right (hd s1)"
    using hd_dropWhile [of "\<lambda>r. rc_right r < rc_left u" bs] by (simp add: s1_def not_less del: dropWhile_eq_Nil_conv)
  note o = merge_overlap [OF b(2) assms(2) h s2_def reach_def l_def r_def]
  have "band t0 b0 s2" using b(2) band_simps(3) [of t0 b0 "takeWhile (\<lambda>r. rc_right r < rc_right u) s1" s2] by (simp add: s2_def)
  then have rst: "band t0 b0 ?rst" by (cases s2) (auto simp: band_simps)
  have p: "rc_right x \<le> l" if "x \<in> set pre" for x
  proof -
    have "rc_right x < rc_left u" using that set_takeWhileD unfolding pre_def by metis
    moreover have "s1 \<noteq> [] \<Longrightarrow> rc_right x \<le> rc_left (hd s1)" using b(3) that by (cases s1) auto
    ultimately show ?thesis by (auto simp: l_def)
  qed
  have q: "\<forall>x \<in> set pre. \<forall>y \<in> set ?rst. rc_right x \<le> rc_left y"
  proof -
    have "set ?rst \<subseteq> set s2" by (cases s2) auto
    also have "\<dots> \<subseteq> set s1" using set_dropWhileD unfolding s2_def by fast
    finally have "set ?rst \<subseteq> set s1" .
    then show ?thesis using b(3) by blast
  qed
  show "band t b (merge_band t b u bs)" unfolding m
    using band_restack [OF b(1) assms(3)] band_restack [OF rst assms(3)] o(2,3) p q assms(3)
    unfolding band_simps by (simp del: if_split)
  show "spans (merge_band t b u bs) = spans bs \<union> {rc_left u..<rc_right u}"
    unfolding m unfolding bs spans_simps spans_restack rect_sel Un_empty_right using o(1) by (simp only: Un_assoc)
qed

section \<open>Writing the result\<close>

definition fits :: "rect_out \<Rightarrow> nat \<Rightarrow> bool" where
  "fits acc n \<longleftrightarrow> snd acc + n \<le> length (fst acc)"

definition emit :: "rect_out \<Rightarrow> RECTANGLE_16 list \<Rightarrow> rect_out" where
  "emit acc rs = (take (snd acc) (fst acc) @ rs @ drop (snd acc + length rs) (fst acc), snd acc + length rs)"

lemma fits_mono: "fits acc n \<Longrightarrow> m \<le> n \<Longrightarrow> fits acc m"
  by (simp add: fits_def)

lemma fits_emit: "fits acc n \<Longrightarrow> length rs + m \<le> n \<Longrightarrow> fits (emit acc rs) m"
  by (auto simp: fits_def emit_def)

lemma emit_Nil [simp]: "fits acc n \<Longrightarrow> emit acc [] = acc"
  by (cases acc) (simp add: emit_def)

lemma emit_emit: "fits acc n \<Longrightarrow> length rs + length rs' \<le> n \<Longrightarrow> emit (emit acc rs) rs' = emit acc (rs @ rs')"
proof (cases acc)
  case (Pair a b)
  assume h: "fits acc n" "length rs + length rs' \<le> n"
  then have "b \<le> length a" using Pair by (simp add: fits_def)
  then show ?thesis using h Pair by (simp add: emit_def fits_def ac_simps)
qed

lemma put_rect_emit: "fits acc n \<Longrightarrow> 1 \<le> n \<Longrightarrow> put_rect r acc = Some (emit acc [r])"
  by (cases acc) (auto simp: put_rect_def emit_def fits_def upd_conv_take_nth_drop)

lemma copy_items_emit:
  assumes "fits acc n" "length (takeWhile P src) \<le> n"
  shows "copy_items P t b src acc = Some (dropWhile P src, emit acc (map (restack t b) (takeWhile P src)))"
  using assms
proof (induction src arbitrary: acc n)
  case (Cons r src)
  show ?case
  proof (cases "P r")
    case True
    have "fits (emit acc [restack t b r]) (n - 1)" using Cons.prems True by (intro fits_emit [of acc n]) auto
    then have "copy_items P t b src (emit acc [restack t b r]) =
        Some (dropWhile P src, emit (emit acc [restack t b r]) (map (restack t b) (takeWhile P src)))"
      using Cons.prems(2) True by (intro Cons.IH) auto
    moreover have "put_rect (rect (rc_left r) t (rc_right r) b) acc = Some (emit acc [restack t b r])"
      using Cons.prems True by (simp add: put_rect_emit [of acc n] restack_def)
    ultimately show ?thesis using Cons.prems True by (simp add: emit_emit [of acc n])
  qed (use Cons.prems in simp)
qed simp

lemma takeWhile_band:
  assumes "\<forall>r \<in> set bs. rc_top r = y" "rst = [] \<or> rc_top (hd rst) \<noteq> y"
  shows "takeWhile (\<lambda>r. rc_top r = y \<and> Q r) (bs @ rst) = takeWhile Q bs"
    "dropWhile (\<lambda>r. rc_top r = y \<and> Q r) (bs @ rst) = dropWhile Q bs @ rst"
  using assms by (induction bs; cases rst; auto)+

lemma copy_band_plain:
  assumes "bs \<noteq> []" "\<forall>r \<in> set bs. rc_top r = y" "rst = [] \<or> rc_top (hd rst) \<noteq> y" "fits acc n" "length bs \<le> n"
  shows "region16_copy_band_with_union (bs @ rst) t b None acc = Some (rst, emit acc (map (restack t b) bs))"
proof -
  have y: "rc_top (hd (bs @ rst)) = y" using assms(1,2) by (cases bs) auto
  have w: "takeWhile (\<lambda>r. rc_top r = y) (bs @ rst) = bs" "dropWhile (\<lambda>r. rc_top r = y) (bs @ rst) = rst"
    using takeWhile_band [OF assms(2,3), of "\<lambda>_. True"] by (simp_all add: takeWhile_eq_all_conv dropWhile_eq_self_iff)
  show ?thesis using assms(1,5) copy_items_emit [OF assms(4), of "\<lambda>r. rc_top r = y" "bs @ rst" t b] unfolding w
    unfolding region16_copy_band_with_union_def Let_def y by simp
qed

lemma copy_band_merge:
  assumes "bs \<noteq> []" "\<forall>r \<in> set bs. rc_top r = y" "rst = [] \<or> rc_top (hd rst) \<noteq> y" "fits acc n" "length bs + 1 \<le> n"
  shows "region16_copy_band_with_union (bs @ rst) t b (Some u) acc = Some (rst, emit acc (merge_band t b u bs))"
proof -
  define pre where "pre = takeWhile (\<lambda>r. rc_right r < rc_left u) bs"
  define s1 where "s1 = dropWhile (\<lambda>r. rc_right r < rc_left u) bs"
  define s2 where "s2 = dropWhile (\<lambda>r. rc_right r < rc_right u) s1"
  define reach where "reach \<longleftrightarrow> s2 \<noteq> [] \<and> rc_left (hd s2) < rc_right u"
  define l where "l = (if s1 \<noteq> [] \<and> rc_left (hd s1) < rc_left u then rc_left (hd s1) else rc_left u)"
  define r where "r = (if reach then rc_right (hd s2) else rc_right u)"
  define s3 where "s3 = (if reach then tl s2 else s2)"
  have m: "merge_band t b u bs = map (restack t b) pre @ [rect l t r b] @ map (restack t b) s3"
    unfolding merge_band_def Let_def pre_def s1_def [symmetric] s2_def [symmetric] reach_def [symmetric] l_def r_def s3_def by (rule refl)
  have y: "rc_top (hd (bs @ rst)) = y" using assms(1,2) by (cases bs) auto
  have t1: "\<forall>x \<in> set s1. rc_top x = y" using assms(2) set_dropWhileD unfolding s1_def by fast
  have t2: "\<forall>x \<in> set s2. rc_top x = y" using t1 set_dropWhileD unfolding s2_def by fast
  have t3: "\<forall>x \<in> set s3. rc_top x = y" using t2 by (cases s2) (auto simp: s3_def)
  note w1 = takeWhile_band [OF assms(2,3), of "\<lambda>r. rc_right r < rc_left u", folded pre_def s1_def]
  note w2 = takeWhile_band(2) [OF t1 assms(3), of "\<lambda>r. rc_right r < rc_right u", folded s2_def]
  have w3: "takeWhile (\<lambda>r. rc_top r = y) (s3 @ rst) = s3" "dropWhile (\<lambda>r. rc_top r = y) (s3 @ rst) = rst"
    using takeWhile_band [OF t3 assms(3), of "\<lambda>_. True"] by (simp_all add: takeWhile_eq_all_conv dropWhile_eq_self_iff)
  have n: "length pre + 1 + length s3 \<le> n"
    using length_merge_band [of t b u bs] assms(5) unfolding m by simp
  have c1: "copy_items (\<lambda>r. rc_top r = y \<and> rc_right r < rc_left u) t b (bs @ rst) acc = Some (s1 @ rst, emit acc (map (restack t b) pre))"
    using copy_items_emit [OF assms(4), of "\<lambda>r. rc_top r = y \<and> rc_right r < rc_left u" "bs @ rst" t b] n unfolding w1 by simp
  have f1: "fits (emit acc (map (restack t b) pre)) (n - length pre)" using n by (intro fits_emit [OF assms(4)]) simp
  have c2: "put_rect (rect l t r b) (emit acc (map (restack t b) pre)) = Some (emit acc (map (restack t b) pre @ [rect l t r b]))"
    using n by (simp add: put_rect_emit [OF f1] emit_emit [OF assms(4)])
  have f2: "fits (emit acc (map (restack t b) pre @ [rect l t r b])) (length s3)" using n by (intro fits_emit [OF assms(4)]) simp
  have c3: "copy_items (\<lambda>r. rc_top r = y) t b (s3 @ rst) (emit acc (map (restack t b) pre @ [rect l t r b])) = Some (rst, emit acc (merge_band t b u bs))"
    using copy_items_emit [OF f2, of "\<lambda>r. rc_top r = y" "s3 @ rst" t b] n unfolding w3 m
    by (simp add: emit_emit [OF assms(4)])
  have o: "(if s1 @ rst \<noteq> [] \<and> rc_top (hd (s1 @ rst)) = y \<and> rc_left (hd (s1 @ rst)) < rc_left u then hd (s1 @ rst) else u) =
      (if s1 \<noteq> [] \<and> rc_left (hd s1) < rc_left u then hd s1 else u)"
    using t1 assms(3) by (cases s1) auto
  have p: "(s2 @ rst \<noteq> [] \<and> rc_top (hd (s2 @ rst)) = y \<and> rc_left (hd (s2 @ rst)) < rc_right u) = reach"
    using t2 assms(3) by (cases s2) (auto simp: reach_def)
  have q: "(if reach then hd (s2 @ rst) else u) = (if reach then hd s2 else u)" "(if reach then tl (s2 @ rst) else s2 @ rst) = s3 @ rst"
    by (cases s2; simp add: reach_def s3_def)+
  have e: "rc_left (if s1 \<noteq> [] \<and> rc_left (hd s1) < rc_left u then hd s1 else u) = l" "rc_right (if reach then hd s2 else u) = r"
    by (simp_all add: l_def r_def)
  show ?thesis using assms(1) c3
    unfolding region16_copy_band_with_union_def Let_def y option.case c1 Option.bind.simps prod.case w2 o p q e c2 by simp
qed

section \<open>One round of the union\<close>

abbreviation rows :: "u16 \<Rightarrow> u16 \<Rightarrow> (u16 \<times> u16) set" where
  "rows t b \<equiv> UNIV \<times> {t..<b}"

text \<open>A list of rectangles in bands between two rows.\<close>

definition stacked :: "u16 \<Rightarrow> u16 \<Rightarrow> RECTANGLE_16 list \<Rightarrow> bool" where
  "stacked t b rs \<longleftrightarrow> banded rs \<and> t \<le> b \<and> (\<forall>r \<in> set rs. t \<le> rc_top r \<and> rc_bottom r \<le> b)"

lemma stacked_band: "band t b rs \<Longrightarrow> stacked t b rs"
  by (auto simp: stacked_def banded_band) (auto simp: band_def list_all_iff)

lemma stacked_append: "stacked t m xs \<Longrightarrow> stacked m b ys \<Longrightarrow> stacked t b (xs @ ys)"
  by (fastforce simp: stacked_def banded_append before_def)

lemma stacked_Nil [simp]: "stacked t b [] \<longleftrightarrow> t \<le> b"
  by (auto simp: stacked_def banded_def)

lemma stacked_single: "t \<le> rc_top r \<Longrightarrow> rc_bottom r \<le> b \<Longrightarrow> proper r \<Longrightarrow> stacked t b [r]"
  by (auto simp: stacked_def banded_def proper_def)

lemma stacked_mono: "stacked t b rs \<Longrightarrow> t' \<le> t \<Longrightarrow> b \<le> b' \<Longrightarrow> stacked t' b' rs"
  by (force simp: stacked_def)

lemma contained_spans:
  assumes "contained_loop y r (bs @ rst)" "rst = [] \<or> rc_top (hd rst) \<noteq> y"
  shows "{rc_left r..<rc_right r} \<subseteq> spans bs"
  using assms(1)
proof (induction bs)
  case Nil
  then show ?case using assms(2) by (cases rst) auto
next
  case (Cons b bs)
  then show ?case by (auto split: if_splits)
qed

definition split_band :: "RECTANGLE_16 \<Rightarrow> u16 \<Rightarrow> u16 \<Rightarrow> RECTANGLE_16 list \<Rightarrow> RECTANGLE_16 list" where
  "split_band r t b bs =
     (if rc_top r > t then map (restack t (rc_top r)) bs else []) @
     merge_band (if rc_top r > t then rc_top r else t) (if rc_bottom r < b then rc_bottom r else b) r bs @
     (if rc_bottom r < b then map (restack (rc_bottom r) b) bs else [])"

lemma split_band_ok:
  assumes "band t b bs" "proper r" "rc_top r < b" "t < rc_bottom r"
  shows "stacked t b (split_band r t b bs)" "points (split_band r t b bs) = points bs \<union> rect_points r \<inter> rows t b"
proof -
  let ?mt = "if rc_top r > t then rc_top r else t" let ?mb = "if rc_bottom r < b then rc_bottom r else b"
  have o: "?mt < ?mb" "t < b" using assms by (auto simp: proper_def band_def)
  have u: "rc_left r < rc_right r" using assms(2) by (simp add: proper_def)
  note m = merge_band_ok [OF assms(1) u o(1)]
  let ?a = "if rc_top r > t then map (restack t (rc_top r)) bs else []" let ?c = "if rc_bottom r < b then map (restack (rc_bottom r) b) bs else []"
  have a: "stacked t ?mt ?a" "points ?a = (if rc_top r > t then spans bs \<times> {t..<rc_top r} else {})"
    using stacked_band [OF band_restack [OF assms(1), of t "rc_top r"]] points_band [OF band_restack [OF assms(1), of t "rc_top r"]] by auto
  have c: "stacked ?mb b ?c" "points ?c = (if rc_bottom r < b then spans bs \<times> {rc_bottom r..<b} else {})"
    using stacked_band [OF band_restack [OF assms(1), of "rc_bottom r" b]] points_band [OF band_restack [OF assms(1), of "rc_bottom r" b]] by auto
  show "stacked t b (split_band r t b bs)" unfolding split_band_def
    by (rule stacked_append [OF a(1) stacked_append [OF stacked_band [OF m(1)] c(1)]])
  have p: "points (split_band r t b bs) = points ?a \<union> (spans bs \<union> {rc_left r..<rc_right r}) \<times> {?mt..<?mb} \<union> points ?c"
    unfolding split_band_def points_simps points_band [OF m(1)] m(2) by (simp only: Un_assoc)
  have r: "rect_points r \<inter> rows t b = {rc_left r..<rc_right r} \<times> {?mt..<?mb}"
    using o by (auto simp: rect_points_def)
  have s: "spans bs \<times> {t..<b} = points ?a \<union> spans bs \<times> {?mt..<?mb} \<union> points ?c"
    unfolding a(2) c(2) using o assms(3,4) by (cases "rc_top r > t"; cases "rc_bottom r < b") auto
  show "points (split_band r t b bs) = points bs \<union> rect_points r \<inter> rows t b"
    unfolding p r points_band [OF assms(1)] s Sigma_Un_distrib1 by blast
qed

lemma length_split_band:
  assumes "bs \<noteq> []"
  shows "length (split_band r t b bs) + (if b < rc_bottom r then 1 else 0) \<le> 4 * length bs"
proof -
  have "1 \<le> length bs" using assms by (cases bs) auto
  then show ?thesis using length_merge_band [of "if rc_top r > t then rc_top r else t" "if rc_bottom r < b then rc_bottom r else b" r bs]
    by (auto simp: split_band_def)
qed

lemma union_band_ok:
  assumes "band t b bs" "bs \<noteq> []" "rst = [] \<or> rc_top (hd rst) \<noteq> t" "proper r" "fits acc n" "4 * length bs \<le> n"
  shows "\<exists>items top'. union_band r (bs @ rst) acc = Some (rst, top', emit acc items) \<and>
    length items + (if b < rc_bottom r then 1 else 0) \<le> 4 * length bs \<and> stacked t b items \<and>
    points items = points bs \<union> rect_points r \<inter> rows t b \<and> (b < rc_bottom r \<longrightarrow> top' = max b (rc_top r))"
proof -
  obtain x xs where bs: "bs = x # xs" using assms(2) by (cases bs) auto
  have h: "rc_top (hd (bs @ rst)) = t" "rc_bottom (hd (bs @ rst)) = b" and tb: "t < b" using assms(1) by (auto simp: bs band_simps band_def)
  have y: "\<forall>r \<in> set bs. rc_top r = t" using assms(1) by (simp add: band_def list_all_iff)
  note plain = copy_band_plain [OF assms(2) y assms(3)] and merge = copy_band_merge [OF assms(2) y assms(3)]
  show ?thesis
  proof (cases "b \<le> rc_top r \<or> rc_bottom r \<le> t \<or> rectangle_contained_in_band (bs @ rst) r")
    case True
    have "union_band r (bs @ rst) acc = Some (rst, rc_top r, emit acc bs)"
      using True plain [OF assms(5), of t b] assms(6) restack_same [OF assms(1)] unfolding union_band_def Let_def h by simp
    moreover have "rect_points r \<inter> rows t b \<subseteq> points bs"
    proof (cases "b \<le> rc_top r \<or> rc_bottom r \<le> t")
      case False
      then have "contained_loop t r (bs @ rst)" using True unfolding rectangle_contained_in_band_def h by (auto split: if_splits)
      then show ?thesis using contained_spans [OF _ assms(3)] unfolding points_band [OF assms(1)] by (auto simp: rect_points_def)
    qed (auto simp: rect_points_def)
    moreover have "b \<le> rc_top r" if "b < rc_bottom r"
      using True that tb unfolding rectangle_contained_in_band_def h by (auto split: if_splits)
    ultimately show ?thesis using stacked_band [OF assms(1)] assms(2) by (intro exI [of _ bs] exI [of _ "rc_top r"]) (auto simp: bs max_def)
  next
    case False
    define mt where "mt = (if rc_top r > t then rc_top r else t)"
    define mb where "mb = (if rc_bottom r < b then rc_bottom r else b)"
    define a where "a = (if rc_top r > t then map (restack t (rc_top r)) bs else [])"
    define c where "c = (if rc_bottom r < b then map (restack (rc_bottom r) b) bs else [])"
    define m where "m = merge_band mt mb r bs"
    have s: "split_band r t b bs = a @ m @ c" by (simp add: split_band_def a_def c_def m_def mt_def mb_def)
    have l: "length a + length m + length c \<le> n" using length_split_band [OF assms(2), of r t b] assms(6) by (simp add: s)
    have fa: "fits (emit acc a) (n - length a)" and fm: "fits (emit acc (a @ m)) (length c)"
      using l by (intro fits_emit [OF assms(5)]; simp)+
    have 1: "(if rc_top r > t then do { (_, acc) \<leftarrow> region16_copy_band_with_union (bs @ rst) t (rc_top r) None acc; Some acc } else Some acc) =
        Some (emit acc a)" using plain [OF assms(5), of t "rc_top r"] assms(5,6) by (simp add: a_def)
    have nb: "length bs + 1 \<le> n - length a" using assms(2,6) by (auto simp: bs a_def)
    have 2: "region16_copy_band_with_union (bs @ rst) mt mb (Some r) (emit acc a) = Some (rst, emit acc (a @ m))"
      using merge [OF fa nb, of mt mb r] emit_emit [OF assms(5), of a m] l by (simp add: m_def)
    have 3: "(if rc_bottom r < b then region16_copy_band_with_union (bs @ rst) mb b None (emit acc (a @ m)) else Some (rst, emit acc (a @ m))) =
        Some (rst, emit acc (split_band r t b bs))"
    proof (cases "rc_bottom r < b")
      case True
      then have "length bs \<le> length c" "mb = rc_bottom r" "c = map (restack mb b) bs" by (simp_all add: c_def mb_def)
      then show ?thesis using plain [OF fm, of mb b] emit_emit [OF assms(5), of "a @ m" c] l True unfolding s by simp
    qed (simp add: s c_def)
    have "union_band r (bs @ rst) acc = Some (rst, b, emit acc (split_band r t b bs))"
      using False unfolding union_band_def Let_def h 1 Option.bind.simps mt_def [symmetric] mb_def [symmetric] 2 prod.case 3 by simp
    moreover have "rc_top r < b" "t < rc_bottom r" using False by auto
    ultimately show ?thesis using split_band_ok [OF assms(1,4)] length_split_band [OF assms(2), of r t b] by (auto simp: max_def)
  qed
qed

section \<open>The whole loop\<close>

lemma inter_band_ok:
  assumes "rc_bottom cur = b" "nextBand = [] \<or> b \<le> rc_top (hd nextBand)" "proper r" "fits acc n" "b < rc_bottom r \<Longrightarrow> 1 \<le> n \<and> top' = max b (rc_top r)"
  shows "\<exists>items. inter_band r cur nextBand top' acc = Some (emit acc items) \<and> length items \<le> (if b < rc_bottom r then 1 else 0) \<and>
    (nextBand = [] \<longrightarrow> items = []) \<and>
    (nextBand \<noteq> [] \<longrightarrow> stacked b (rc_top (hd nextBand)) items \<and> points items = rect_points r \<inter> rows b (rc_top (hd nextBand)))"
proof (cases "nextBand \<noteq> [] \<and> rc_top (hd nextBand) \<noteq> b \<and> b < rc_bottom r \<and> rc_top r < rc_top (hd nextBand)")
  case True
  let ?t = "rc_top (hd nextBand)" let ?p = "rect (rc_left r) top' (rc_right r) (min ?t (rc_bottom r))"
  have n: "1 \<le> n" "top' = max b (rc_top r)" using assms(5) True by auto
  have lt: "b < ?t" using assms(2) True by auto
  have "proper ?p" using assms(3) True n lt by (auto simp: proper_def max_def min_def)
  then have "stacked b ?t [?p]" using n by (intro stacked_single) auto
  moreover have "points [?p] = rect_points r \<inter> rows b ?t" using n by (auto simp: rect_points_def)
  ultimately show ?thesis using True n(1) assms(1,4) by (intro exI [of _ "[?p]"]) (simp add: inter_band_def put_rect_emit)
next
  case False
  have "rect_points r \<inter> rows b (rc_top (hd nextBand)) = {}" if "nextBand \<noteq> []"
    using False that by (auto simp: rect_points_def)
  then show ?thesis using False assms by (intro exI [of _ "[]"]) (auto simp: inter_band_def)
qed

text \<open>The lower edge of a region, and the rows that two consecutive parts cover.\<close>

definition lower_edge :: "RECTANGLE_16 list \<Rightarrow> u16" where
  "lower_edge rs = rc_bottom (last rs)"

lemma rows_split: "t \<le> m \<Longrightarrow> m \<le> b \<Longrightarrow> rows t b = rows t m \<union> rows m b"
  by auto

lemma banded_lower_edge: "banded rs \<Longrightarrow> r \<in> set rs \<Longrightarrow> rc_bottom r \<le> lower_edge rs"
proof (induction rs)
  case (Cons a rs)
  show ?case
  proof (cases "rs = []")
    case False
    then have b: "banded rs" "before a (last rs)" "proper (last rs)" using Cons.prems by (auto simp: banded_def list_all_iff)
    then have "rc_bottom a \<le> rc_bottom (last rs)" by (auto simp: before_def proper_def)
    then show ?thesis using Cons.IH [OF b(1)] Cons.prems(2) False by (auto simp: lower_edge_def)
  qed (use Cons.prems in \<open>simp add: lower_edge_def\<close>)
qed simp

lemma union_loop_ok:
  assumes "banded rs" "rs \<noteq> []" "proper r" "fits acc n" "4 * length rs \<le> n"
  shows "\<exists>items. union_loop r rs acc = Some (emit acc items) \<and> length items \<le> 4 * length rs \<and>
    stacked (rc_top (hd rs)) (lower_edge rs) items \<and> points items = points rs \<union> rect_points r \<inter> rows (rc_top (hd rs)) (lower_edge rs)"
  using assms
proof (induction "length rs" arbitrary: rs acc n rule: less_induct)
  case less
  let ?bs = "first_band rs" let ?nx = "next_band rs" let ?t = "rc_top (hd rs)" let ?b = "rc_bottom (hd rs)"
  note f = banded_first [OF less.prems(1,2)]
  have rs: "?bs @ ?nx = rs" by (rule first_band_next)
  have len: "length ?bs + length ?nx = length rs" by (metis length_append rs)
  have "4 * length ?bs \<le> n" using less.prems(5) len by linarith
  then obtain items top' where u: "union_band r rs acc = Some (?nx, top', emit acc items)"
      "length items + (if ?b < rc_bottom r then 1 else 0) \<le> 4 * length ?bs" "stacked ?t ?b items"
      "points items = points ?bs \<union> rect_points r \<inter> rows ?t ?b" "?b < rc_bottom r \<longrightarrow> top' = max ?b (rc_top r)"
    using union_band_ok [OF f(1,4) _ less.prems(3,4), of ?nx] f(5) unfolding rs by blast
  have fi: "fits (emit acc items) (n - length items)" using less.prems(5) len u(2) by (intro fits_emit [OF less.prems(4)]) auto
  have hn: "?nx = [] \<or> ?b \<le> rc_top (hd ?nx)" using f(3) by (cases ?nx) auto
  have n1: "?b < rc_bottom r \<Longrightarrow> 1 \<le> n - length items \<and> top' = max ?b (rc_top r)" using u(2,5) less.prems(5) len by auto
  obtain gap where g: "inter_band r (hd rs) ?nx top' (emit acc items) = Some (emit (emit acc items) gap)"
      "length gap \<le> (if ?b < rc_bottom r then 1 else 0)" "?nx = [] \<longrightarrow> gap = []"
      "?nx \<noteq> [] \<longrightarrow> stacked ?b (rc_top (hd ?nx)) gap \<and> points gap = rect_points r \<inter> rows ?b (rc_top (hd ?nx))"
    using inter_band_ok [OF refl hn less.prems(3) fi n1] by blast
  have gl: "length items + length gap \<le> 4 * length ?bs" using u(2) g(2) by auto
  have eg: "emit (emit acc items) gap = emit acc (items @ gap)" using emit_emit [OF less.prems(4)] gl less.prems(5) len by simp
  have step: "union_loop r rs acc = union_loop r ?nx (emit acc (items @ gap))"
    using less.prems(2) u(1) g(1) eg by (subst union_loop.simps) simp
  show ?case
  proof (cases "?nx = []")
    case True
    then have "rs = ?bs" by (metis append_Nil2 rs)
    then have "last rs \<in> set ?bs" using less.prems(2) by (metis last_in_set)
    then have "lower_edge rs = ?b" using f(1) unfolding lower_edge_def band_def list_all_iff by blast
    moreover have "points ?bs = points rs" using \<open>rs = ?bs\<close> by simp
    moreover have "union_loop r rs acc = Some (emit acc items)" unfolding step True using g(3) True by (simp add: union_loop.simps)
    ultimately show ?thesis using u(2-4) len True by (intro exI [of _ items]) auto
  next
    case False
    let ?tn = "rc_top (hd ?nx)"
    have "length ?nx < length rs" using f(4) len by (cases ?bs) auto
    moreover have "fits (emit acc (items @ gap)) (4 * length ?nx)" using gl less.prems(5) len by (intro fits_emit [OF less.prems(4)]) auto
    ultimately obtain rst where r: "union_loop r ?nx (emit acc (items @ gap)) = Some (emit (emit acc (items @ gap)) rst)" "length rst \<le> 4 * length ?nx"
        "stacked ?tn (lower_edge ?nx) rst" "points rst = points ?nx \<union> rect_points r \<inter> rows ?tn (lower_edge ?nx)"
      using less.hyps [OF _ f(2) False less.prems(3), of "emit acc (items @ gap)" "4 * length ?nx"] by auto
    have l: "lower_edge ?nx = lower_edge rs" using False by (metis last_append lower_edge_def rs)
    have o: "?t \<le> ?b" "?b \<le> ?tn" "?tn \<le> lower_edge rs" using f(1) hn False r(3) l by (auto simp: band_def stacked_def)
    have "emit (emit acc (items @ gap)) rst = emit acc (items @ gap @ rst)"
      using emit_emit [OF less.prems(4), of "items @ gap" rst] gl r(2) less.prems(5) len by simp
    moreover have "stacked ?t (lower_edge rs) (items @ gap @ rst)"
      using stacked_append [OF u(3) stacked_append [OF _ r(3)]] g(4) False l by simp
    moreover have "points (items @ gap @ rst) = points rs \<union> rect_points r \<inter> rows ?t (lower_edge rs)"
    proof -
      have "rows ?t (lower_edge rs) = rows ?t ?b \<union> (rows ?b ?tn \<union> rows ?tn (lower_edge rs))"
        using rows_split [of ?t ?b "lower_edge rs"] rows_split [of ?b ?tn "lower_edge rs"] o by auto
      moreover have "points rs = points ?bs \<union> points ?nx" by (metis points_simps(3) rs)
      ultimately show ?thesis using u(4) g(4) r(4) False l by auto
    qed
    moreover have "length (items @ gap @ rst) \<le> 4 * length rs" using gl r(2) len by simp
    ultimately show ?thesis using step r(1) by (intro exI [of _ "items @ gap @ rst"]) simp
  qed
qed

section \<open>Extents\<close>

definition smallest :: "RECTANGLE_16 \<Rightarrow> (u16 \<times> u16) set \<Rightarrow> bool" where
  "smallest e S \<longleftrightarrow> S \<subseteq> rect_points e \<and> (\<forall>e'. S \<subseteq> rect_points e' \<longrightarrow>
     rc_left e' \<le> rc_left e \<and> rc_top e' \<le> rc_top e \<and> rc_right e \<le> rc_right e' \<and> rc_bottom e \<le> rc_bottom e')"

lemma smallest_rect:
  assumes "proper r"
  shows "smallest r (rect_points r)"
  unfolding smallest_def
proof (intro conjI allI impI subset_refl)
  fix e assume s: "rect_points r \<subseteq> rect_points e"
  have p: "rc_left r < rc_right r" "rc_top r < rc_bottom r" using assms by (simp_all add: proper_def)
  then have "(rc_left r, rc_top r) \<in> rect_points e" by (intro subsetD [OF s]) (simp add: rect_points_def)
  then show "rc_left e \<le> rc_left r" "rc_top e \<le> rc_top r" by (auto simp: rect_points_def)
  have "(max (rc_left r) (rc_right e), rc_top r) \<in> rect_points e" if "rc_right e < rc_right r"
    using p that by (intro subsetD [OF s]) (auto simp: rect_points_def)
  then show "rc_right r \<le> rc_right e" by (force simp: rect_points_def not_less)
  have "(rc_left r, max (rc_top r) (rc_bottom e)) \<in> rect_points e" if "rc_bottom e < rc_bottom r"
    using p that by (intro subsetD [OF s]) (auto simp: rect_points_def)
  then show "rc_bottom r \<le> rc_bottom e" by (force simp: rect_points_def not_less)
qed

lemma smallest_join: "smallest a S \<Longrightarrow> smallest b T \<Longrightarrow> smallest (join_extents a b) (S \<union> T)"
proof -
  assume a: "smallest a S" and b: "smallest b T"
  have "rect_points a \<subseteq> rect_points (join_extents a b)" "rect_points b \<subseteq> rect_points (join_extents a b)"
    by (auto simp: join_extents_def rect_points_def min_le_iff_disj less_max_iff_disj)
  then have "S \<subseteq> rect_points (join_extents a b)" "T \<subseteq> rect_points (join_extents a b)"
    using a b unfolding smallest_def by blast+
  moreover have "rc_left e \<le> rc_left (join_extents a b) \<and> rc_top e \<le> rc_top (join_extents a b) \<and> rc_right (join_extents a b) \<le> rc_right e \<and>
      rc_bottom (join_extents a b) \<le> rc_bottom e" if "S \<subseteq> rect_points e" "T \<subseteq> rect_points e" for e
  proof -
    have "rc_left e \<le> rc_left a" "rc_top e \<le> rc_top a" "rc_right a \<le> rc_right e" "rc_bottom a \<le> rc_bottom e" using a that(1) by (auto simp: smallest_def)
    moreover have "rc_left e \<le> rc_left b" "rc_top e \<le> rc_top b" "rc_right b \<le> rc_right e" "rc_bottom b \<le> rc_bottom e" using b that(2) by (auto simp: smallest_def)
    ultimately show ?thesis by (simp add: join_extents_def)
  qed
  ultimately show ?thesis unfolding smallest_def by blast
qed

lemma smallest_edges:
  assumes "smallest e (points rs)" "banded rs" "rs \<noteq> []"
  shows "rc_top e = rc_top (hd rs)" "rc_bottom e = lower_edge rs"
proof -
  obtain a as where rs: "rs = a # as" using assms(3) by (cases rs) auto
  have q: "proper r" if "r \<in> set rs" for r using assms(2) that by (auto simp: banded_def list_all_iff)
  have in_e: "rc_left e \<le> rc_left r \<and> rc_top e \<le> rc_top r \<and> rc_right r \<le> rc_right e \<and> rc_bottom r \<le> rc_bottom e" if "r \<in> set rs" for r
  proof -
    have "rect_points r \<subseteq> rect_points e" using assms(1) that by (auto simp: smallest_def points_def)
    then show ?thesis using smallest_rect [OF q [OF that]] unfolding smallest_def by blast
  qed
  have t: "rc_top (hd rs) \<le> rc_top r" if "r \<in> set rs" for r
    using assms(2) that q [of a] by (auto simp: rs banded_def before_def proper_def)
  have "points rs \<subseteq> rect_points (rect (rc_left e) (rc_top (hd rs)) (rc_right e) (lower_edge rs))"
  proof
    fix p assume "p \<in> points rs"
    then obtain r where r: "r \<in> set rs" "p \<in> rect_points r" by (auto simp: points_def)
    then show "p \<in> rect_points (rect (rc_left e) (rc_top (hd rs)) (rc_right e) (lower_edge rs))"
      using in_e [OF r(1)] t [OF r(1)] banded_lower_edge [OF assms(2) r(1)] by (auto simp: rect_points_def)
  qed
  then have "rc_top (hd rs) \<le> rc_top e" "rc_bottom e \<le> lower_edge rs" using assms(1) unfolding smallest_def by fastforce+
  moreover have "rc_top e \<le> rc_top (hd rs)" "lower_edge rs \<le> rc_bottom e" using in_e [of "hd rs"] in_e [of "last rs"] assms(3) by (auto simp: lower_edge_def)
  ultimately show "rc_top e = rc_top (hd rs)" "rc_bottom e = lower_edge rs" by auto
qed

lemma union_items_ok:
  assumes "banded rs" "rs \<noteq> []" "proper r" "smallest e (points rs)" "fits acc n" "4 * length rs + 2 \<le> n"
  shows "\<exists>items. union_items r e rs acc = Some (emit acc items) \<and> length items \<le> 4 * length rs + 2 \<and> banded items \<and>
    points items = points rs \<union> rect_points r"
proof -
  note e = smallest_edges [OF assms(4,1,2)]
  let ?t = "rc_top e" let ?b = "rc_bottom e"
  let ?p = "rect (rc_left r) (rc_top r) (rc_right r) (min ?t (rc_bottom r))" let ?q = "rect (rc_left r) (max ?b (rc_top r)) (rc_right r) (rc_bottom r)"
  define p where "p = (if rc_top r < ?t then [?p] else [])"
  define q where "q = (if ?b < rc_bottom r then [?q] else [])"
  have l: "length p \<le> 1" "length q \<le> 1" by (simp_all add: p_def q_def)
  have pp: "stacked (min (rc_top r) ?t) ?t p" "points p = rect_points r \<inter> {z. snd z < ?t}"
    using assms(3) stacked_single [of "min (rc_top r) ?t" ?p ?t] by (auto simp: p_def proper_def rect_points_def min_def)
  have qq: "stacked ?b (max (rc_bottom r) ?b) q" "points q = rect_points r \<inter> {z. ?b \<le> snd z}"
    using assms(3) stacked_single [of ?b ?q "max (rc_bottom r) ?b"] by (auto simp: q_def proper_def rect_points_def max_def)
  have f: "fits (emit acc p) (4 * length rs + 1)" using l assms(6) by (intro fits_emit [OF assms(5)]) simp
  obtain m where m: "union_loop r rs (emit acc p) = Some (emit (emit acc p) m)" "length m \<le> 4 * length rs" "stacked ?t ?b m"
      "points m = points rs \<union> rect_points r \<inter> rows ?t ?b"
    using union_loop_ok [OF assms(1-3) f] e by auto
  have 1: "(if rc_top r < ?t then put_rect ?p acc else Some acc) = Some (emit acc p)"
    using put_rect_emit [OF assms(5)] emit_Nil [OF assms(5)] assms(6) by (simp add: p_def)
  have em: "emit (emit acc p) m = emit acc (p @ m)" using emit_emit [OF assms(5), of p m] l(1) m(2) assms(6) by simp
  have fm: "fits (emit acc (p @ m)) 1" using l(1) m(2) assms(6) by (intro fits_emit [OF assms(5)]) simp
  have 2: "(if ?b < rc_bottom r then put_rect ?q (emit acc (p @ m)) else Some (emit acc (p @ m))) = Some (emit acc (p @ m @ q))"
    using put_rect_emit [OF fm, of ?q] emit_emit [OF assms(5), of "p @ m" q] l m(2) assms(6) by (auto simp: q_def)
  have "union_items r e rs acc = Some (emit acc (p @ m @ q))"
    unfolding union_items_def 1 Option.bind.simps m(1) em 2 by (rule refl)
  moreover have "stacked (min (rc_top r) ?t) (max (rc_bottom r) ?b) (p @ m @ q)"
    by (rule stacked_append [OF pp(1) stacked_append [OF m(3) qq(1)]])
  moreover have "points (p @ m @ q) = points rs \<union> rect_points r"
    unfolding points_simps pp(2) qq(2) m(4) by (auto simp: not_less)
  ultimately show ?thesis using l m(2) by (intro exI [of _ "p @ m @ q"]) (simp add: stacked_def)
qed

section \<open>Joining bands\<close>

lemma band_match_items:
  "band_match_loop y xs ys \<Longrightarrow> list_all2 (\<lambda>a b. rc_left a = rc_left b \<and> rc_right a = rc_right b) xs (takeWhile (\<lambda>r. rc_top r = y) ys)"
proof (induction y xs ys rule: band_match_loop.induct)
  case (1 y ys)
  then show ?case by (cases ys) auto
qed (auto split: if_splits)

lemma same_spans_restack:
  "list_all2 (\<lambda>a b. rc_left a = rc_left b \<and> rc_right a = rc_right b) xs ys \<Longrightarrow> band t b ys \<Longrightarrow> ys = map (restack t b) xs"
  by (induction rule: list_all2_induct) (auto simp: band_simps intro: rect_eqI)

lemma band_match_restack:
  assumes "banded band2" "band2 \<noteq> []" "band_match items band2"
  shows "first_band band2 = map (restack (rc_top (hd band2)) (rc_bottom (hd band2))) items"
  using same_spans_restack [OF band_match_items banded_first(1) [OF assms(1,2)]] assms(3) unfolding band_match_def .

lemma simplify_loop_ok:
  assumes "stacked t b rs"
  shows "stacked t b (simplify_loop rs) \<and> points (simplify_loop rs) = points rs \<and> length (simplify_loop rs) \<le> length rs"
  using assms
proof (induction rs arbitrary: t rule: simplify_loop.induct)
  case (1 rs)
  show ?case
  proof (cases "rs = [] \<or> next_band rs = []")
    case True
    then show ?thesis using "1.prems" by (subst (1 2 3) simplify_loop.simps) auto
  next
    case False
    let ?items = "first_band rs" let ?b2 = "next_band rs" let ?t1 = "rc_top (hd rs)" let ?b1 = "rc_bottom (hd rs)"
    let ?t2 = "rc_top (hd ?b2)" let ?bb = "rc_bottom (hd ?b2)"
    have ne: "rs \<noteq> []" "?b2 \<noteq> []" and bd: "banded rs" using False "1.prems" by (auto simp: stacked_def)
    note f = banded_first [OF bd ne(1)]
    have rs: "?items @ ?b2 = rs" by (rule first_band_next)
    have pts: "points rs = points ?items \<union> points ?b2" by (metis points_simps(3) rs)
    have len: "length rs = length ?items + length ?b2" by (metis length_append rs)
    have in1: "t \<le> ?t1" "t \<le> b" "\<forall>r \<in> set ?b2. rc_bottom r \<le> b" using "1.prems" ne(1) set_dropWhileD
      unfolding stacked_def next_band_def by (auto dest: set_dropWhileD)
    have s2: "stacked ?b1 b ?b2" using f(2,3) in1(3) "1.prems" ne(1) by (auto simp: stacked_def)
    show ?thesis
    proof (cases "?b1 = ?t2 \<and> band_match ?items ?b2")
      case True
      have m: "first_band ?b2 = map (restack ?t2 ?bb) ?items" by (rule band_match_restack [OF f(2) ne(2)]) (use True in blast)
      then have b2: "?b2 = map (restack ?t2 ?bb) ?items @ next_band ?b2" by (metis first_band_next)
      then have d: "drop (length ?items) ?b2 = next_band ?b2" by (metis append_eq_conv_conj length_map)
      let ?new = "map (\<lambda>r. r\<lparr>rc_bottom := ?bb\<rparr>) ?items"
      have new: "?new = map (restack ?t1 ?bb) ?items"
        by (rule restack_bottom [OF f(1)])
      note g = banded_first [OF f(2) ne(2)]
      have o: "?t1 < ?b1" "?t2 < ?bb" using f(1) g(1) by (simp_all add: band_def)
      then have bn: "band ?t1 ?bb (map (restack ?t1 ?bb) ?items)" using True by (intro band_restack [OF f(1)]) auto
      have "stacked ?bb b (next_band ?b2)" using g(2,3) s2 set_dropWhileD ne(2) unfolding stacked_def next_band_def by (auto dest: set_dropWhileD)
      then have st: "stacked t b (?new @ drop (length ?items) ?b2)" unfolding d new
        by (rule stacked_append [OF stacked_mono [OF stacked_band [OF bn] in1(1) order_refl]])
      have "points ?b2 = spans ?items \<times> {?t2..<?bb} \<union> points (next_band ?b2)"
        using points_band [OF g(1)] unfolding m by (metis b2 m points_simps(3) spans_restack)
      moreover have "{?t1..<?bb} = {?t1..<?b1} \<union> {?t2..<?bb}" using True o by auto
      ultimately have pn: "points (?new @ drop (length ?items) ?b2) = points rs"
        unfolding d new points_simps points_band [OF bn] spans_restack pts points_band [OF f(1)] by auto
      have "simplify_loop rs = simplify_loop (?new @ drop (length ?items) ?b2)"
        using True ne by (subst simplify_loop.simps) (simp add: Let_def)
      moreover have "length (?new @ drop (length ?items) ?b2) \<le> length rs" using len by simp
      ultimately show ?thesis using "1.IH"(1) [OF ne(1) refl refl ne(2) True st] pn by auto
    next
      case False
      have e: "simplify_loop rs = ?items @ simplify_loop ?b2" using False ne by (subst simplify_loop.simps) (auto simp: Let_def)
      note h = "1.IH"(2) [OF ne(1) refl refl ne(2) False s2]
      have "stacked t ?b1 ?items" using stacked_mono [OF stacked_band [OF f(1)] in1(1) order_refl] .
      then show ?thesis unfolding e using h len pts by (auto intro: stacked_append)
    qed
  qed
qed

end
