(* ===== verification/Region_Set.thy ===== *)
theory Region_Set
  imports Region_Points
begin

text \<open>
  Regions as sets of points: the operations of \<open>Region\<close> implement union and intersection, keep the rectangles in
  bands with the smallest rectangle around them as extents, and stay inside the arrays they allocate. The locale
  \<open>point_set\<close> is the contract their clients rely on.
\<close>

section \<open>Regions\<close>

text \<open>The rectangles a region holds, and the invariant of a region.\<close>

definition holds :: "REGION16 \<Rightarrow> RECTANGLE_16 list \<Rightarrow> bool" where
  "holds g rs \<longleftrightarrow> (\<exists>d. rg_data g = Some d \<and> rd_nbRects d \<le> length (rd_rects d) \<and> rs = take (rd_nbRects d) (rd_rects d) \<and>
     (rd_size d = region_size (rd_nbRects d) \<or> rd_size d = 0 \<and> rd_nbRects d = 0))"

definition region_wf :: "REGION16 \<Rightarrow> bool" where
  "region_wf g \<longleftrightarrow> (\<exists>rs. holds g rs \<and> banded rs \<and> (rs \<noteq> [] \<longrightarrow> smallest (extents g) (points rs)))"

definition region_points :: "REGION16 \<Rightarrow> (u16 \<times> u16) set" where
  "region_points g = (case rg_data g of None \<Rightarrow> {} | Some d \<Rightarrow> points (take (rd_nbRects d) (rd_rects d)))"

text \<open>
  The outcome of an operation that allocates: it returns; when it succeeds the region is well formed and covers the
  expected points; and it succeeds if memory is there.
\<close>

definition region_outcome :: "rect_alloc \<Rightarrow> (bool \<times> REGION16) option \<Rightarrow> (u16 \<times> u16) set \<Rightarrow> bool" where
  "region_outcome malloc res S \<longleftrightarrow>
     (\<exists>ok g. res = Some (ok, g) \<and> (ok \<longrightarrow> region_wf g \<and> region_points g = S) \<and> (alloc_total malloc \<longrightarrow> ok))"

lemma outcome_failed: "malloc n = None \<Longrightarrow> region_outcome malloc (Some (False, g)) S"
proof -
  assume "malloc n = None"
  then have "\<not> alloc_total malloc" unfolding alloc_total_def by blast
  then show ?thesis by (auto simp: region_outcome_def)
qed

lemma holds_rects: "holds g rs \<Longrightarrow> region16_rects g = Some rs" "holds g rs \<Longrightarrow> region_points g = points rs"
  by (auto simp: holds_def region16_rects_def region_points_def)

lemma region_wfE:
  assumes "region_wf g"
  obtains rs where "holds g rs" "region16_rects g = Some rs" "region_points g = points rs" "banded rs" "rs \<noteq> [] \<longrightarrow> smallest (extents g) (points rs)"
  using assms holds_rects unfolding region_wf_def by blast

lemma region16_init_ok: "region_wf region16_init" "region_points region16_init = {}"
  by (auto simp: region_wf_def holds_def region16_init_def empty_region_def banded_def region_points_def)

lemma points_nonempty: "banded rs \<Longrightarrow> rs \<noteq> [] \<Longrightarrow> points rs \<noteq> {}"
  by (cases rs) (auto simp: banded_def proper_def rect_points_def)

lemma realloc_region_shrink:
  assumes "malloc_ok malloc" "n \<le> length (rd_rects d)"
  shows "realloc_region malloc d n = (if malloc n = None then None else Some (d\<lparr>rd_rects := take n (rd_rects d)\<rparr>))"
  using assms malloc_okD [OF assms(1), of n] by (auto simp: realloc_region_def c_realloc_def split: option.split)

lemma simplify_bands_ok:
  assumes "malloc_ok malloc" "holds g rs" "banded rs" "rs \<noteq> [] \<longrightarrow> smallest (extents g) (points rs)"
  shows "region_outcome malloc (region16_simplify_bands malloc g) (points rs)"
proof -
  obtain d where d: "rg_data g = Some d" "rd_nbRects d \<le> length (rd_rects d)" "rs = take (rd_nbRects d) (rd_rects d)"
      "rd_size d = region_size (rd_nbRects d) \<or> rd_size d = 0 \<and> rd_nbRects d = 0"
    using assms(2) by (auto simp: holds_def)
  have n: "rd_nbRects d = length rs" using d by simp
  have wf: "region_outcome malloc (Some (True, g')) (points rs)"
    if "holds g' rs'" "banded rs'" "points rs' = points rs" "extents g' = extents g" for g' rs'
  proof -
    have "rs' \<noteq> [] \<longrightarrow> smallest (extents g') (points rs')" using points_nonempty [OF that(2)] that(3,4) assms(4) by force
    then show ?thesis using that holds_rects(2) [OF that(1)] unfolding region_outcome_def region_wf_def by blast
  qed
  show ?thesis
  proof (cases "length rs < 2")
    case True
    then have "region16_simplify_bands malloc g = Some (True, g)"
      using holds_rects(1) [OF assms(2)] d(1) by (simp add: region16_simplify_bands_def)
    then show ?thesis using wf [OF assms(2,3)] by simp
  next
    case False
    let ?rs = "simplify_loop rs"
    have "stacked 0 (- 1) rs" using assms(3) by (simp add: stacked_def)
    then have s: "banded ?rs" "points ?rs = points rs" "length ?rs \<le> length rs"
      using simplify_loop_ok [of 0 "- 1" rs] by (auto simp: stacked_def)
    show ?thesis
    proof (cases "length ?rs = length rs")
      case True
      let ?g = "g\<lparr>rg_data := Some (d\<lparr>rd_rects := ?rs @ drop (length rs) (rd_rects d)\<rparr>)\<rparr>"
      have "region16_simplify_bands malloc g = Some (True, ?g)"
        using holds_rects(1) [OF assms(2)] d(1) True False by (simp add: region16_simplify_bands_def Let_def)
      moreover have "holds ?g ?rs" using d(4) True n by (auto simp: holds_def)
      ultimately show ?thesis using wf s(1,2) by simp
    next
      case l: False
      let ?d = "d\<lparr>rd_rects := ?rs @ drop (length ?rs) (rd_rects d)\<rparr>"
      have r: "realloc_region malloc ?d (length ?rs) = (if malloc (length ?rs) = None then None else Some (?d\<lparr>rd_rects := ?rs\<rparr>))"
        using realloc_region_shrink [OF assms(1), of "length ?rs" ?d] by simp
      let ?g = "g\<lparr>rg_data := Some (?d\<lparr>rd_rects := ?rs, rd_nbRects := length ?rs, rd_size := region_size (length ?rs)\<rparr>)\<rparr>"
      have e: "region16_simplify_bands malloc g = (if malloc (length ?rs) = None then Some (False, g\<lparr>rg_data := Some empty_region\<rparr>) else Some (True, ?g))"
        using holds_rects(1) [OF assms(2)] d(1) False l r by (simp add: region16_simplify_bands_def Let_def)
      have "holds ?g ?rs" by (auto simp: holds_def)
      then have "region_outcome malloc (Some (True, ?g)) (points rs)" using wf s(1,2) by simp
      then show ?thesis unfolding e using outcome_failed by simp
    qed
  qed
qed

lemma union_rect_ok:
  assumes "malloc_ok malloc" "region_wf src" "proper r"
  shows "region_outcome malloc (region16_union_rect malloc dst src r) (region_points src \<union> rect_points r)"
proof -
  obtain rs where rs: "region16_rects src = Some rs" "region_points src = points rs" "banded rs" "rs \<noteq> [] \<longrightarrow> smallest (extents src) (points rs)"
    using region_wfE [OF assms(2)] by blast
  show ?thesis
  proof (cases "rs = []")
    case True
    let ?g = "\<lambda>d. dst\<lparr>extents := r, rg_data := Some (d\<lparr>rd_rects := [r]\<rparr>)\<rparr>"
    have "region_wf (?g d) \<and> region_points (?g d) = rect_points r" if "allocateRegion malloc 1 = Some d" for d
    proof -
      have "holds (?g d) [r]" using that by (auto simp: holds_def allocateRegion_def split: option.splits)
      moreover have "banded [r]" "smallest r (points [r])" using assms(3) smallest_rect by (simp_all add: banded_def)
      ultimately show ?thesis using holds_rects(2) [of "?g d"] unfolding region_wf_def by (auto intro!: exI [of _ "[r]"])
    qed
    moreover have "region16_union_rect malloc dst src r = (case allocateRegion malloc 1 of
        None \<Rightarrow> Some (False, dst\<lparr>extents := r, rg_data := None\<rparr>) | Some d \<Rightarrow> Some (True, ?g d))"
      using rs(1) True by (simp add: region16_union_rect_def)
    moreover have "allocateRegion malloc 1 \<noteq> None" if "alloc_total malloc" using that by (auto simp: allocateRegion_def alloc_total_def split: option.split)
    ultimately show ?thesis using rs(2) True by (cases "allocateRegion malloc 1") (auto simp: region_outcome_def)
  next
    case False
    define k where "k = (1 + length rs) * 4"
    have u: "region16_union_rect malloc dst src r = (case allocateRegion malloc k of None \<Rightarrow> Some (False, dst)
      | Some newItems \<Rightarrow> do {
          (arr, usedRects) \<leftarrow> union_items r (extents src) rs (rd_rects newItems, 0);
          let dst = dst\<lparr>extents := join_extents r (extents src)\<rparr>;
          (case realloc_region malloc (newItems\<lparr>rd_rects := arr, rd_size := region_size usedRects\<rparr>) usedRects of
             None \<Rightarrow> Some (False, dst\<lparr>rg_data := None\<rparr>)
           | Some d \<Rightarrow> region16_simplify_bands malloc (dst\<lparr>rg_data := Some (d\<lparr>rd_nbRects := usedRects\<rparr>)\<rparr>)) })"
      using rs(1) False unfolding region16_union_rect_def k_def by simp
    show ?thesis
    proof (cases "malloc k")
      case None
      then show ?thesis unfolding u using outcome_failed by (simp add: allocateRegion_def)
    next
      case (Some blk)
      have lb: "length blk = k" by (rule malloc_okD [OF assms(1) Some])
      then have f: "fits (blk, 0) k" by (simp add: fits_def)
      have k: "4 * length rs + 2 \<le> k" by (simp add: k_def)
      obtain items where i: "union_items r (extents src) rs (blk, 0) = Some (emit (blk, 0) items)" "length items \<le> 4 * length rs + 2"
          "banded items" "points items = points rs \<union> rect_points r"
        using union_items_ok [OF rs(3) False assms(3) _ f k] rs(4) False by blast
      let ?u = "length items" let ?new = "\<lparr>rd_size = region_size ?u, rd_nbRects = k, rd_rects = items @ drop ?u blk\<rparr>"
      let ?dst = "dst\<lparr>extents := join_extents r (extents src)\<rparr>"
      let ?g = "?dst\<lparr>rg_data := Some (?new\<lparr>rd_rects := items, rd_nbRects := ?u\<rparr>)\<rparr>"
      have rl: "realloc_region malloc ?new ?u = (if malloc ?u = None then None else Some (?new\<lparr>rd_rects := items\<rparr>))"
        using realloc_region_shrink [OF assms(1), of ?u ?new] by simp
      have e: "region16_union_rect malloc dst src r =
          (if malloc ?u = None then Some (False, ?dst\<lparr>rg_data := None\<rparr>) else region16_simplify_bands malloc ?g)"
        unfolding u using Some i(1) rl by (simp add: allocateRegion_def emit_def)
      have h: "holds ?g items" by (simp add: holds_def)
      have "smallest (extents ?g) (points items)"
        using smallest_join [OF smallest_rect [OF assms(3)], of "extents src" "points rs"] rs(4) False i(4) by (simp add: Un_commute)
      then show ?thesis unfolding e using simplify_bands_ok [OF assms(1) h i(3)] i(4) rs(2) outcome_failed by simp
    qed
  qed
qed

section \<open>Intersection\<close>

definition clip :: "RECTANGLE_16 \<Rightarrow> RECTANGLE_16 \<Rightarrow> RECTANGLE_16" where
  "clip r s = snd (rectangles_intersection s r)"

lemma intersection_split: "rectangles_intersection s r = (rectangles_intersects s r, clip r s)"
  by (simp add: rectangles_intersects_def clip_def)

lemma clip_sel [simp]:
  "rc_left (clip r s) = max (rc_left s) (rc_left r)" "rc_top (clip r s) = max (rc_top s) (rc_top r)"
  "rc_right (clip r s) = min (rc_right s) (rc_right r)" "rc_bottom (clip r s) = min (rc_bottom s) (rc_bottom r)"
  by (simp_all add: clip_def rectangles_intersection_def Let_def)

lemma intersects_proper: "rectangles_intersects s r \<longleftrightarrow> proper (clip r s)"
  by (simp add: rectangles_intersects_def rectangles_intersection_def proper_def Let_def)

lemma points_clip: "rect_points (clip r s) = rect_points s \<inter> rect_points r"
  by (auto simp: rect_points_def)

lemma proper_points: "proper r \<longleftrightarrow> rect_points r \<noteq> {}"
  by (auto simp: proper_def rect_points_def)

lemma before_clip: "before a b \<Longrightarrow> before (clip r a) (clip r b)"
  by (auto simp: before_def min_le_iff_disj le_max_iff_disj)

definition clipped :: "RECTANGLE_16 \<Rightarrow> RECTANGLE_16 list \<Rightarrow> RECTANGLE_16 list" where
  "clipped r rs = map (clip r) (filter (\<lambda>s. rectangles_intersects s r) (takeWhile (\<lambda>s. rc_top s < rc_bottom r) rs))"

definition grow_extents :: "RECTANGLE_16 \<Rightarrow> RECTANGLE_16 \<Rightarrow> RECTANGLE_16" where
  "grow_extents c e = (if rectangle_is_empty e then c else join_extents c e)"

lemma banded_clipped:
  assumes "banded rs"
  shows "banded (clipped r rs)" "points (clipped r rs) = points rs \<inter> rect_points r"
proof -
  let ?k = "takeWhile (\<lambda>s. rc_top s < rc_bottom r) rs" let ?d = "dropWhile (\<lambda>s. rc_top s < rc_bottom r) rs"
  have "sorted_wrt before (?k @ ?d)" using assms by (simp add: banded_def)
  then have s: "sorted_wrt before ?k" "sorted_wrt before ?d" by (simp_all only: sorted_wrt_append)
  have "sorted_wrt before (clipped r rs)" unfolding clipped_def sorted_wrt_map
    by (rule sorted_wrt_mono_rel [OF before_clip sorted_wrt_filter [OF s(1)]])
  moreover have "list_all proper (clipped r rs)" by (auto simp: clipped_def list_all_iff intersects_proper)
  ultimately show "banded (clipped r rs)" by (simp add: banded_def)
  have d: "rect_points s \<inter> rect_points r = {}" if sd: "s \<in> set ?d" for s
  proof -
    obtain a as where a: "?d = a # as" using sd by (cases ?d) auto
    have "\<not> rc_top a < rc_bottom r" using a hd_dropWhile [of "\<lambda>s. rc_top s < rc_bottom r" rs] by simp
    moreover have "proper a" using assms a set_dropWhileD [of a "\<lambda>s. rc_top s < rc_bottom r" rs] by (auto simp: banded_def list_all_iff)
    moreover have "s = a \<or> before a s" using s(2) sd unfolding a by auto
    ultimately have "rc_bottom r \<le> rc_top s" by (auto simp: before_def proper_def)
    then show ?thesis by (auto simp: rect_points_def)
  qed
  have "points rs = points ?k \<union> points ?d" by (metis points_simps(3) takeWhile_dropWhile_id)
  moreover have "points ?d \<inter> rect_points r = {}" using d by (auto simp: points_def)
  moreover have "points (clipped r rs) = points ?k \<inter> rect_points r"
    unfolding points_def clipped_def by (auto simp: points_clip intersects_proper proper_points)
  ultimately show "points (clipped r rs) = points rs \<inter> rect_points r" by blast
qed

lemma intersect_loop_emit:
  assumes "fits acc n" "length (clipped r rs) \<le> n"
  shows "intersect_loop r rs e acc = Some (fold grow_extents (clipped r rs) e, emit acc (clipped r rs))"
  using assms
proof (induction rs arbitrary: e acc n)
  case (Cons s rs)
  show ?case
  proof (cases "rc_top s < rc_bottom r \<and> rectangles_intersects s r")
    case True
    then have c: "clipped r (s # rs) = clip r s # clipped r rs" by (simp add: clipped_def)
    have "fits (emit acc [clip r s]) (n - 1)" using Cons.prems unfolding c by (intro fits_emit [OF Cons.prems(1)]) simp
    then have "intersect_loop r rs (grow_extents (clip r s) e) (emit acc [clip r s]) =
        Some (fold grow_extents (clipped r rs) (grow_extents (clip r s) e), emit (emit acc [clip r s]) (clipped r rs))"
      by (rule Cons.IH) (use Cons.prems(2) c in simp)
    moreover have "(if rectangle_is_empty e then clip r s else join_extents (clip r s) e) = grow_extents (clip r s) e"
      by (simp add: grow_extents_def)
    ultimately show ?thesis using True Cons.prems(2) unfolding c
      by (simp add: intersection_split put_rect_emit [OF Cons.prems(1)] emit_emit [OF Cons.prems(1)])
  next
    case False
    then have "clipped r (s # rs) = (if rc_top s < rc_bottom r then clipped r rs else [])" by (auto simp: clipped_def)
    then show ?thesis using False Cons.IH [OF Cons.prems(1)] Cons.prems by (auto simp: intersection_split)
  qed
qed (simp add: clipped_def)

lemma grow_extents_smallest:
  assumes "list_all proper rs" "rs \<noteq> []"
  shows "smallest (fold grow_extents rs (rect 0 0 0 0)) (points rs)"
proof -
  have ne: "\<not> rectangle_is_empty e" if "smallest e S" "proper q" "rect_points q \<subseteq> S" for e S q
  proof -
    have "rect_points e \<noteq> {}" using that proper_points [of q] by (auto simp: smallest_def)
    then show ?thesis by (auto simp: rectangle_is_empty_def rect_points_def)
  qed
  have g: "smallest (fold grow_extents rs e) (S \<union> points rs)" if "list_all proper rs" "smallest e S" "proper q" "rect_points q \<subseteq> S" for rs e S q
    using that
  proof (induction rs arbitrary: e S)
    case (Cons a rs)
    have "grow_extents a e = join_extents a e" using ne [OF Cons.prems(2-4)] by (simp add: grow_extents_def)
    then have "smallest (grow_extents a e) (rect_points a \<union> S)" using smallest_join [OF smallest_rect Cons.prems(2)] Cons.prems(1) by simp
    then have "smallest (fold grow_extents rs (grow_extents a e)) (rect_points a \<union> S \<union> points rs)"
      using Cons.prems(1,4) by (intro Cons.IH [OF _ _ Cons.prems(3)]) auto
    moreover have "rect_points a \<union> S \<union> points rs = S \<union> points (a # rs)" by auto
    ultimately show ?case by simp
  qed simp
  obtain a as where rs: "rs = a # as" using assms(2) by (cases rs) auto
  have "grow_extents a (rect 0 0 0 0) = a" by (simp add: grow_extents_def rectangle_is_empty_def)
  then show ?thesis using g [OF _ smallest_rect, of as a a] assms(1) by (simp add: rs)
qed

lemma smallest_unique: "smallest a S \<Longrightarrow> smallest b S \<Longrightarrow> a = b"
  unfolding smallest_def by (rule rect_eqI; blast intro: antisym)

lemma single_extents: "smallest e (points [r]) \<Longrightarrow> banded [r] \<Longrightarrow> e = r"
  using smallest_unique [OF _ smallest_rect] by (simp add: banded_def)

lemma intersect_rect_ok:
  assumes "malloc_ok malloc" "region_wf src" "region_wf dst"
  shows "region_outcome malloc (region16_intersect_rect malloc dst src r) (region_points src \<inter> rect_points r)"
proof -
  obtain rs where rs: "region16_rects src = Some rs" "region_points src = points rs" "banded rs" "rs \<noteq> [] \<longrightarrow> smallest (extents src) (points rs)"
    using region_wfE [OF assms(2)] by blast
  obtain d where d: "rg_data dst = Some d" using assms(3) by (auto simp: region_wf_def holds_def)
  have c: "region16_clear dst = Some region16_init" using d by (simp add: region16_clear_def region16_init_def)
  note i = region16_init_ok
  consider "rs = []" | s where "rs = [s]" | "2 \<le> length rs" by (cases rs; cases "tl rs"; fastforce)
  then show ?thesis
  proof cases
    case 1
    then show ?thesis using rs(1,2) c i by (auto simp: region16_intersect_rect_def region_outcome_def)
  next
    case (2 s)
    have e: "extents src = s" using single_extents rs(3,4) 2 by simp
    have eq: "region16_intersect_rect malloc dst src r =
        (if rectangles_intersects s r then region16_union_rect malloc region16_init region16_init (clip r s) else Some (True, region16_init))"
      using rs(1) c 2 e by (simp add: region16_intersect_rect_def intersection_split)
    have p: "region_points src \<inter> rect_points r = rect_points (clip r s)" using rs(2) 2 by (simp add: points_clip)
    show ?thesis
    proof (cases "rectangles_intersects s r")
      case True
      then show ?thesis using union_rect_ok [OF assms(1) i(1), of "clip r s" region16_init] i(2) unfolding eq p by (simp add: intersects_proper)
    next
      case False
      then show ?thesis using i unfolding eq p by (auto simp: region_outcome_def intersects_proper proper_points)
    qed
  next
    case 3
    show ?thesis
    proof (cases "malloc (length rs)")
      case None
      have "region16_intersect_rect malloc dst src r = Some (False, dst)"
        using rs(1) 3 None by (cases rs; cases "tl rs") (auto simp: region16_intersect_rect_def allocateRegion_def)
      then show ?thesis using outcome_failed [of malloc "length rs"] None by simp
    next
      case (Some blk)
      let ?items = "clipped r rs" let ?u = "length ?items" let ?e = "fold grow_extents ?items (rect 0 0 0 0)"
      have lb: "length blk = length rs" by (rule malloc_okD [OF assms(1) Some])
      then have f: "fits (blk, 0) (length rs)" by (simp add: fits_def)
      have lc: "?u \<le> length rs" unfolding clipped_def length_map
        by (rule order_trans [OF length_filter_le length_takeWhile_le])
      let ?new = "\<lparr>rd_size = region_size ?u, rd_nbRects = ?u, rd_rects = ?items @ drop ?u blk\<rparr>"
      let ?g = "dst\<lparr>extents := ?e, rg_data := Some (?new\<lparr>rd_rects := ?items\<rparr>)\<rparr>"
      have rl: "realloc_region malloc ?new ?u = (if malloc ?u = None then None else Some (?new\<lparr>rd_rects := ?items\<rparr>))"
        using realloc_region_shrink [OF assms(1), of ?u ?new] by simp
      have l: "intersect_loop r rs (rect 0 0 0 0) (blk, 0) = Some (?e, emit (blk, 0) ?items)" by (rule intersect_loop_emit [OF f lc])
      have "rs \<noteq> []" "length rs \<noteq> 1" using 3 by auto
      then have e: "region16_intersect_rect malloc dst src r =
          (if malloc ?u = None then Some (False, dst\<lparr>rg_data := None\<rparr>) else region16_simplify_bands malloc ?g)"
        using rs(1) Some l rl d by (simp add: region16_intersect_rect_def allocateRegion_def emit_def)
      have h: "holds ?g ?items" by (simp add: holds_def)
      have "?items \<noteq> [] \<longrightarrow> smallest (extents ?g) (points ?items)"
        using grow_extents_smallest banded_clipped(1) [OF rs(3)] by (simp add: banded_def)
      then show ?thesis unfolding e
        using simplify_bands_ok [OF assms(1) h banded_clipped(1) [OF rs(3)]] banded_clipped(2) [OF rs(3)] rs(2) outcome_failed by simp
    qed
  qed
qed

lemma intersects_loop_clipped: "intersects_loop r rs \<longleftrightarrow> clipped r rs \<noteq> []"
  by (induction rs) (auto simp: clipped_def)

lemma intersects_rect_ok:
  assumes "region_wf g"
  shows "region16_intersects_rect g r = Some (region_points g \<inter> rect_points r \<noteq> {})"
proof -
  obtain rs where rs: "region16_rects g = Some rs" "region_points g = points rs" "banded rs" "rs \<noteq> [] \<longrightarrow> smallest (extents g) (points rs)"
    using region_wfE [OF assms] by blast
  have d: "rg_data g \<noteq> None" using assms by (auto simp: region_wf_def holds_def)
  have i: "rectangles_intersects s r \<longleftrightarrow> rect_points s \<inter> rect_points r \<noteq> {}" for s
    unfolding intersects_proper proper_points points_clip ..
  have cl: "clipped r rs \<noteq> [] \<longleftrightarrow> points rs \<inter> rect_points r \<noteq> {}"
    using banded_clipped [OF rs(3), of r] points_nonempty [of "clipped r rs"] by auto
  consider "rs = []" | s where "rs = [s]" | "rs \<noteq> []" "length rs \<noteq> 1" by (cases rs; cases "tl rs"; fastforce)
  then show ?thesis
  proof cases
    case 1
    then show ?thesis using rs(1,2) d by (simp add: region16_intersects_rect_def)
  next
    case (2 s)
    then have "extents g = s" using single_extents rs(3,4) by simp
    then show ?thesis using rs(1,2) 2 d i by (auto simp: region16_intersects_rect_def)
  next
    case 3
    have "points rs \<subseteq> rect_points (extents g)" using rs(4) 3(1) by (simp add: smallest_def)
    then have "\<not> rectangles_intersects (extents g) r \<Longrightarrow> points rs \<inter> rect_points r = {}" using i by blast
    then show ?thesis using rs(1,2) 3 d cl by (auto simp: region16_intersects_rect_def intersects_loop_clipped)
  qed
qed

lemma copy_ok:
  assumes "malloc_ok malloc" "region_wf src" "region_wf dst"
  shows "region_outcome malloc (region16_copy malloc dst src) (region_points src)"
proof -
  obtain rs s where rs: "rg_data src = Some s" "rd_nbRects s \<le> length (rd_rects s)" "rs = take (rd_nbRects s) (rd_rects s)" "banded rs"
      "rd_size s = region_size (rd_nbRects s) \<or> rd_size s = 0 \<and> rd_nbRects s = 0" "rs \<noteq> [] \<longrightarrow> smallest (extents src) (points rs)"
    using assms(2) unfolding region_wf_def holds_def by blast
  obtain d where d: "rg_data dst = Some d" using assms(3) by (auto simp: region_wf_def holds_def)
  have p: "region_points src = points rs" using rs(1,3) by (simp add: region_points_def)
  have wf: "region_outcome malloc (Some (True, g)) (points rs)" if "holds g rs" "extents g = extents src" for g
    using that rs(4,6) holds_rects(2) [OF that(1)] unfolding region_outcome_def region_wf_def by auto
  show ?thesis
  proof (cases "rd_size s = 0")
    case True
    let ?g = "dst\<lparr>extents := extents src, rg_data := Some empty_region\<rparr>"
    have "rs = []" using True rs(3,5) by (auto simp: region_size_def)
    then have "holds ?g rs" by (simp add: holds_def empty_region_def)
    then show ?thesis using wf [of ?g] rs(1) d True p by (simp add: region16_copy_def)
  next
    case False
    let ?g = "dst\<lparr>extents := extents src, rg_data := Some (s\<lparr>rd_rects := rs\<rparr>)\<rparr>"
    have "rd_size s = region_size (rd_nbRects s)" using rs(5) False by blast
    then have "region16_copy malloc dst src = (case allocateRegion malloc (rd_nbRects s) of
        None \<Rightarrow> Some (False, dst\<lparr>extents := extents src, rg_data := None\<rparr>) | Some d \<Rightarrow> Some (True, ?g))"
      using rs(1,2,3) d False by (auto simp: region16_copy_def split: option.split)
    moreover have "holds ?g rs" using rs(2,3,5) by (auto simp: holds_def)
    ultimately show ?thesis using wf [of ?g] outcome_failed [of malloc "rd_nbRects s"] p
      by (cases "malloc (rd_nbRects s)") (auto simp: allocateRegion_def)
  qed
qed

section \<open>The contract of a region\<close>

datatype 'r stroke = Add 'r | Clip 'r

fun paint_arg :: "'r stroke \<Rightarrow> 'r" where
  "paint_arg (Add r) = r"
| "paint_arg (Clip r) = r"

text \<open>A sequence of operations, up to the first that fails.\<close>

fun run_paint :: "('g \<Rightarrow> 'r \<Rightarrow> (bool \<times> 'g) option) \<Rightarrow> ('g \<Rightarrow> 'r \<Rightarrow> (bool \<times> 'g) option) \<Rightarrow> 'r stroke list \<Rightarrow> 'g \<Rightarrow> (bool \<times> 'g) option" where
  "run_paint add clip_to [] g = Some (True, g)"
| "run_paint add clip_to (p # ps) g = do {
     (ok, g) \<leftarrow> (case p of Add r \<Rightarrow> add g r | Clip r \<Rightarrow> clip_to g r);
     (if ok then run_paint add clip_to ps g else Some (False, g)) }"

fun paint :: "('r \<Rightarrow> 'p set) \<Rightarrow> 'r stroke \<Rightarrow> 'p set \<Rightarrow> 'p set" where
  "paint area (Add r) S = S \<union> area r"
| "paint area (Clip r) S = S \<inter> area r"

locale point_set =
  fixes good :: "'g \<Rightarrow> bool" and pts :: "'g \<Rightarrow> 'p set" and area :: "'r \<Rightarrow> 'p set" and fine :: "'r \<Rightarrow> bool"
    and add :: "'g \<Rightarrow> 'r \<Rightarrow> (bool \<times> 'g) option" and clip_to :: "'g \<Rightarrow> 'r \<Rightarrow> (bool \<times> 'g) option" and enough :: bool
  assumes add_law: "good g \<Longrightarrow> fine r \<Longrightarrow> \<exists>ok g'. add g r = Some (ok, g') \<and> (ok \<longrightarrow> good g' \<and> pts g' = pts g \<union> area r) \<and> (enough \<longrightarrow> ok)"
    and clip_law: "good g \<Longrightarrow> fine r \<Longrightarrow> \<exists>ok g'. clip_to g r = Some (ok, g') \<and> (ok \<longrightarrow> good g' \<and> pts g' = pts g \<inter> area r) \<and> (enough \<longrightarrow> ok)"
begin

lemma step_sound:
  assumes "good g" "fine (paint_arg p)"
  shows "\<exists>ok g'. (case p of Add r \<Rightarrow> add g r | Clip r \<Rightarrow> clip_to g r) = Some (ok, g') \<and> (ok \<longrightarrow> good g' \<and> pts g' = paint area p (pts g)) \<and> (enough \<longrightarrow> ok)"
  using assms add_law clip_law by (cases p) simp_all

lemma run_sound:
  assumes "good g" "list_all (\<lambda>p. fine (paint_arg p)) ps"
  shows "\<exists>ok g'. run_paint add clip_to ps g = Some (ok, g') \<and> (ok \<longrightarrow> good g' \<and> pts g' = fold (paint area) ps (pts g)) \<and> (enough \<longrightarrow> ok)"
  using assms
proof (induction ps arbitrary: g)
  case (Cons p ps)
  obtain ok g' where s: "(case p of Add r \<Rightarrow> add g r | Clip r \<Rightarrow> clip_to g r) = Some (ok, g')"
      "ok \<longrightarrow> good g' \<and> pts g' = paint area p (pts g)" "enough \<longrightarrow> ok"
    using step_sound [OF Cons.prems(1), of p] Cons.prems(2) by auto
  show ?case
  proof (cases ok)
    case True
    then show ?thesis using Cons.IH [of g'] Cons.prems(2) s by auto
  qed (use s in auto)
qed auto

end

lemma region_point_set:
  assumes "malloc_ok malloc"
  shows "point_set region_wf region_points rect_points proper (\<lambda>g r. region16_union_rect malloc g g r) (\<lambda>g r. region16_intersect_rect malloc g g r)
    (alloc_total malloc)"
  by unfold_locales (use union_rect_ok [OF assms] intersect_rect_ok [OF assms] in \<open>simp_all add: region_outcome_def\<close>)

definition rect_malloc :: rect_alloc where
  "rect_malloc n = Some (replicate n (rect 0 0 0 0))"

interpretation screen: point_set region_wf region_points rect_points proper "\<lambda>g r. region16_union_rect rect_malloc g g r"
  "\<lambda>g r. region16_intersect_rect rect_malloc g g r" "alloc_total rect_malloc"
  by (rule region_point_set) (simp add: malloc_ok_def rect_malloc_def)

text \<open>
  C40: A region is the set of its points. Every sequence of unions and intersections with rectangles that are
  not empty, started on an initialised region, returns without writing outside the arrays; if no allocation fails
  it succeeds; and then the region covers exactly the points of the same sequence of operations on
  sets, its rectangles are in order, and its extents are the smallest rectangle around them. Asking whether the
  region meets a rectangle answers for these points.
\<close>

theorem region_refines_points:
  assumes "malloc_ok malloc" "list_all (\<lambda>p. proper (paint_arg p)) ps"
  shows "\<exists>ok g. run_paint (\<lambda>g r. region16_union_rect malloc g g r) (\<lambda>g r. region16_intersect_rect malloc g g r) ps region16_init = Some (ok, g) \<and>
    (alloc_total malloc \<longrightarrow> ok) \<and>
    (ok \<longrightarrow> region_wf g \<and> region_points g = fold (paint rect_points) ps {} \<and>
       (\<forall>r. region16_intersects_rect g r = Some (fold (paint rect_points) ps {} \<inter> rect_points r \<noteq> {})))"
proof -
  have i: "region_wf region16_init" "region_points region16_init = {}" by (rule region16_init_ok)+
  obtain ok g where g: "run_paint (\<lambda>g r. region16_union_rect malloc g g r) (\<lambda>g r. region16_intersect_rect malloc g g r) ps region16_init = Some (ok, g)"
      "ok \<longrightarrow> region_wf g \<and> region_points g = fold (paint rect_points) ps {}" "alloc_total malloc \<longrightarrow> ok"
    using point_set.run_sound [OF region_point_set [OF assms(1)] i(1) assms(2)] i(2) by auto
  then show ?thesis using intersects_rect_ok [of g] by auto
qed

text \<open>Two overlapping windows on a screen, seen through a third.\<close>

definition windows :: "RECTANGLE_16 stroke list" where
  "windows = [Add (rect 10 10 50 40), Add (rect 30 20 80 60), Clip (rect 0 0 60 30)]"

theorem region_refines_points_witness:
  "\<exists>ok g. run_paint (\<lambda>g r. region16_union_rect rect_malloc g g r) (\<lambda>g r. region16_intersect_rect rect_malloc g g r) windows region16_init = Some (ok, g) \<and>
    (alloc_total rect_malloc \<longrightarrow> ok) \<and>
    (ok \<longrightarrow> region_wf g \<and> region_points g = fold (paint rect_points) windows {} \<and>
       (\<forall>r. region16_intersects_rect g r = Some (fold (paint rect_points) windows {} \<inter> rect_points r \<noteq> {})))"
  by (rule region_refines_points) (simp_all add: malloc_ok_def rect_malloc_def windows_def proper_def)

end
