(* ===== verification/Bit_Stream.thy ===== *)
theory Bit_Stream
  imports Stream
begin

text \<open>
  The bit stream of WinPR (\<^verbatim>\<open>winpr/include/winpr/bitstream.h\<close> and \<^verbatim>\<open>collections/BitStream.c\<close>): 32 bits of the buffer
  in an accumulator and 32 more behind it when reading, and the bits not yet stored when writing. The pointer is an
  index into the buffer; an access outside the buffer is a fault (\<open>None\<close>).

  The bits of a buffer are numbered from the highest bit of the first byte on. A reader at position \<open>n\<close> has the
  bits from \<open>n\<close> on in its accumulator, whatever it has shifted before; a writer has stored exactly the bits it
  was given, in order.
\<close>

record wBitStream =
  bs_buffer :: "byte list"
  bs_pointer :: nat
  bs_position :: u32
  bs_length :: u32
  bs_capacity :: u32
  bs_mask :: u32
  bs_offset :: u32
  bs_prefetch :: u32
  bs_accumulator :: u32

section \<open>Operations\<close>

definition BitStream_New :: wBitStream where
  "BitStream_New = \<lparr>bs_buffer = [], bs_pointer = 0, bs_position = 0, bs_length = 0, bs_capacity = 0, bs_mask = 0,
     bs_offset = 0, bs_prefetch = 0, bs_accumulator = 0\<rparr>"

definition BitStream_Attach :: "wBitStream \<Rightarrow> byte list \<Rightarrow> u32 \<Rightarrow> wBitStream" where
  "BitStream_Attach bs buffer capacity =
     bs\<lparr>bs_position := 0, bs_buffer := buffer, bs_offset := 0, bs_accumulator := 0, bs_pointer := 0,
        bs_capacity := capacity, bs_length := capacity * 8\<rparr>"

text \<open>The byte \<open>k\<close> places behind the pointer, zero beyond the capacity.\<close>

definition bs_byte :: "wBitStream \<Rightarrow> nat \<Rightarrow> u32 option" where
  "bs_byte bs k =
     (if word_of_nat (bs_pointer bs) + word_of_nat k < bs_capacity bs then
        if bs_pointer bs + k < length (bs_buffer bs) then Some (ucast (bs_buffer bs ! (bs_pointer bs + k))) else None
      else Some 0)"

definition bs_word :: "wBitStream \<Rightarrow> nat \<Rightarrow> u32 option" where
  "bs_word bs k = do {
     b0 \<leftarrow> bs_byte bs k;
     b1 \<leftarrow> bs_byte bs (k + 1);
     b2 \<leftarrow> bs_byte bs (k + 2);
     b3 \<leftarrow> bs_byte bs (k + 3);
     Some (push_bit 24 b0 OR push_bit 16 b1 OR push_bit 8 b2 OR b3) }"

definition BitStream_Prefetch :: "wBitStream \<Rightarrow> wBitStream option" where
  "BitStream_Prefetch bs = do { w \<leftarrow> bs_word bs 4; Some (bs\<lparr>bs_prefetch := w\<rparr>) }"

definition BitStream_Fetch :: "wBitStream \<Rightarrow> wBitStream option" where
  "BitStream_Fetch bs = do { w \<leftarrow> bs_word bs 0; BitStream_Prefetch (bs\<lparr>bs_accumulator := w\<rparr>) }"

definition bs_poke :: "nat \<Rightarrow> u32 \<Rightarrow> wBitStream \<Rightarrow> wBitStream option" where
  "bs_poke k w bs =
     (if word_of_nat (bs_pointer bs) + word_of_nat k < bs_capacity bs then
        if bs_pointer bs + k < length (bs_buffer bs) then Some (bs\<lparr>bs_buffer := (bs_buffer bs)[bs_pointer bs + k := ucast w]\<rparr>) else None
      else Some bs)"

definition BitStream_Flush :: "wBitStream \<Rightarrow> wBitStream option" where
  "BitStream_Flush bs = do {
     bs \<leftarrow> bs_poke 0 (drop_bit 24 (bs_accumulator bs)) bs;
     bs \<leftarrow> bs_poke 1 (drop_bit 16 (bs_accumulator bs)) bs;
     bs \<leftarrow> bs_poke 2 (drop_bit 8 (bs_accumulator bs)) bs;
     bs_poke 3 (bs_accumulator bs) bs }"

definition low_mask :: "u32 \<Rightarrow> u32" where
  "low_mask n = push_bit (unat n) 1 - 1"

definition BitStream_Shift :: "wBitStream \<Rightarrow> u32 \<Rightarrow> wBitStream option" where
  "BitStream_Shift bs nbits =
     (if nbits = 0 then Some bs
      else if nbits < 32 then
        let bs = bs\<lparr>bs_accumulator := push_bit (unat nbits) (bs_accumulator bs), bs_position := bs_position bs + nbits, bs_offset := bs_offset bs + nbits\<rparr>;
            m = low_mask nbits;
            bs' = bs\<lparr>bs_mask := m, bs_accumulator := bs_accumulator bs OR (drop_bit (unat (32 - nbits)) (bs_prefetch bs) AND m),
                    bs_prefetch := push_bit (unat nbits) (bs_prefetch bs)\<rparr>
        in if bs_offset bs < 32 then Some bs'
           else do {
             bs \<leftarrow> BitStream_Prefetch (bs'\<lparr>bs_offset := bs_offset bs' - 32, bs_pointer := bs_pointer bs' + 4\<rparr>);
             (if bs_offset bs \<noteq> 0 then
                let m = low_mask (bs_offset bs)
                in Some (bs\<lparr>bs_mask := m, bs_accumulator := bs_accumulator bs OR (drop_bit (unat (32 - bs_offset bs)) (bs_prefetch bs) AND m),
                          bs_prefetch := push_bit (unat (bs_offset bs)) (bs_prefetch bs)\<rparr>)
              else Some bs) }
      else Some bs)"

definition BitStream_Shift32 :: "wBitStream \<Rightarrow> wBitStream option" where
  "BitStream_Shift32 bs = do { bs \<leftarrow> BitStream_Shift bs 16; BitStream_Shift bs 16 }"

definition BitStream_Write_Bits :: "wBitStream \<Rightarrow> u32 \<Rightarrow> u32 \<Rightarrow> wBitStream option" where
  "BitStream_Write_Bits bs bits nbits =
     (let bs = bs\<lparr>bs_position := bs_position bs + nbits, bs_offset := bs_offset bs + nbits\<rparr> in
      if bs_offset bs < 32 then
        Some (bs\<lparr>bs_accumulator := bs_accumulator bs OR push_bit (unat (32 - bs_offset bs)) bits\<rparr>)
      else
        let bs = bs\<lparr>bs_offset := bs_offset bs - 32\<rparr>;
            m = low_mask (nbits - bs_offset bs)
        in do {
          bs \<leftarrow> BitStream_Flush (bs\<lparr>bs_mask := m, bs_accumulator := bs_accumulator bs OR (drop_bit (unat (bs_offset bs)) bits AND m)\<rparr>);
          let bs = bs\<lparr>bs_accumulator := 0, bs_pointer := bs_pointer bs + 4\<rparr>;
          Some (if bs_offset bs \<noteq> 0 then
                  let m = low_mask (bs_offset bs)
                  in bs\<lparr>bs_mask := m, bs_accumulator := bs_accumulator bs OR push_bit (unat (32 - bs_offset bs)) (bits AND m)\<rparr>
                else bs) })"

definition BitStream_GetRemainingLength :: "wBitStream \<Rightarrow> u32" where
  "BitStream_GetRemainingLength bs = bs_length bs - bs_position bs"

section \<open>The bits of a buffer\<close>

definition nth_bit :: "byte list \<Rightarrow> nat \<Rightarrow> bool" where
  "nth_bit bs n \<longleftrightarrow> n < 8 * length bs \<and> bit (bs ! (n div 8)) (7 - n mod 8)"

definition cap_bytes :: "wBitStream \<Rightarrow> byte list" where
  "cap_bytes bs = take (unat (bs_capacity bs)) (bs_buffer bs)"

definition attached :: "wBitStream \<Rightarrow> bool" where
  "attached bs \<longleftrightarrow> unat (bs_capacity bs) \<le> length (bs_buffer bs) \<and> unat (bs_capacity bs) \<le> 2 ^ 20 \<and> bs_length bs = bs_capacity bs * 8"

text \<open>A reader: the accumulator holds the 32 bits at the position, the prefetch what the next word still has.\<close>

definition reading :: "wBitStream \<Rightarrow> bool" where
  "reading bs \<longleftrightarrow> attached bs \<and> unat (bs_position bs) \<le> 2 ^ 24 \<and>
     unat (bs_offset bs) = unat (bs_position bs) mod 32 \<and> bs_pointer bs = 4 * (unat (bs_position bs) div 32) \<and>
     (\<forall>i < 32. bit (bs_accumulator bs) i = nth_bit (cap_bytes bs) (unat (bs_position bs) + 31 - i)) \<and>
     (\<forall>i < 32. bit (bs_prefetch bs) i = (unat (bs_offset bs) \<le> i \<and> nth_bit (cap_bytes bs) (unat (bs_position bs) + 63 - i)))"

lemma bit_u32: "bit (w :: u32) i \<Longrightarrow> i < 32"
  using bit_imp_le_length by fastforce

lemma bit_byte: "bit (b :: byte) i \<Longrightarrow> i < 8"
  using bit_imp_le_length by fastforce

lemma bit_place: "i < 8 \<Longrightarrow> (8 * n + 7 - i) div 8 = n" "i < 8 \<Longrightarrow> 7 - (8 * n + 7 - i) mod 8 = (i :: nat)"
proof -
  assume i: "i < 8"
  define j where "j = 7 - i"
  have e: "8 * n + 7 - i = 8 * n + j" "j < 8" "7 - j = i" using i by (simp_all add: j_def)
  show "(8 * n + 7 - i) div 8 = n" unfolding e(1) using e(2) by simp
  show "7 - (8 * n + 7 - i) mod 8 = i" unfolding e(1) using e(2,3) by simp
qed

lemma bits_before: "m < c \<Longrightarrow> 8 * m + 7 < 8 * (c :: nat)"
  by simp

lemma unat_index: "p + k < 2 ^ 31 \<Longrightarrow> unat (word_of_nat p + word_of_nat k :: u32) = p + k"
proof -
  assume h: "p + k < 2 ^ 31"
  have "word_of_nat p + word_of_nat k = (word_of_nat (p + k) :: u32)" by (rule of_nat_add [symmetric])
  moreover have "unat (word_of_nat (p + k) :: u32) = p + k" using h by (intro unat_of_nat_eq) simp
  ultimately show ?thesis by simp
qed

lemma bs_byte_bits:
  assumes "attached bs" "bs_pointer bs + k < 2 ^ 31"
  shows "\<exists>b. bs_byte bs k = Some b \<and> (\<forall>i. bit b i = (i < 8 \<and> nth_bit (cap_bytes bs) (8 * (bs_pointer bs + k) + 7 - i)))"
proof -
  have w: "unat (word_of_nat (bs_pointer bs) + word_of_nat k :: u32) = bs_pointer bs + k"
    using assms(2) by (rule unat_index)
  have l: "length (cap_bytes bs) = unat (bs_capacity bs)" using assms(1) by (simp add: cap_bytes_def attached_def)
  note d = bit_place
  show ?thesis
  proof (cases "bs_pointer bs + k < unat (bs_capacity bs)")
    case True
    then have "bs_byte bs k = Some (ucast (cap_bytes bs ! (bs_pointer bs + k)))"
      using assms(1) w by (simp add: bs_byte_def word_less_nat_alt attached_def cap_bytes_def)
    moreover have "bit (ucast (cap_bytes bs ! (bs_pointer bs + k)) :: u32) i = (i < 8 \<and> nth_bit (cap_bytes bs) (8 * (bs_pointer bs + k) + 7 - i))" for i
    proof (cases "i < 8")
      case i: True
      have "8 * (bs_pointer bs + k) + 7 - i < 8 * length (cap_bytes bs)"
        using bits_before [OF True] unfolding l by (rule le_less_trans [OF diff_le_self])
      then show ?thesis unfolding nth_bit_def d [OF i] using i by (simp add: bit_simps)
    qed (auto simp: bit_simps dest: bit_byte)
    ultimately show ?thesis by blast
  next
    case False
    then have "bs_byte bs k = Some 0" using w by (simp add: bs_byte_def word_less_nat_alt)
    moreover have "\<not> nth_bit (cap_bytes bs) (8 * (bs_pointer bs + k) + 7 - i)" if "i < 8" for i
      using False l that by (auto simp: nth_bit_def)
    ultimately show ?thesis by auto
  qed
qed

lemma bs_word_bits:
  assumes "attached bs" "bs_pointer bs + k + 3 < 2 ^ 31"
  shows "\<exists>w. bs_word bs k = Some w \<and> (\<forall>i < 32. bit w i = nth_bit (cap_bytes bs) (8 * (bs_pointer bs + k) + 31 - i))"
proof -
  let ?n = "nth_bit (cap_bytes bs)"
  define p where "p = 8 * (bs_pointer bs + k)"
  have at: "8 * (bs_pointer bs + (k + 1)) + 7 = p + 15" "8 * (bs_pointer bs + (k + 2)) + 7 = p + 23" "8 * (bs_pointer bs + (k + 3)) + 7 = p + 31"
    by (simp_all add: p_def)
  obtain b0 where b0: "bs_byte bs k = Some b0" "\<And>i. bit b0 i = (i < 8 \<and> ?n (p + 7 - i))"
    using bs_byte_bits [OF assms(1), of k] assms(2) by (auto simp: p_def)
  obtain b1 where b1: "bs_byte bs (k + 1) = Some b1" "\<And>i. bit b1 i = (i < 8 \<and> ?n (p + 15 - i))"
    using bs_byte_bits [OF assms(1), of "k + 1"] assms(2) unfolding at by auto
  obtain b2 where b2: "bs_byte bs (k + 2) = Some b2" "\<And>i. bit b2 i = (i < 8 \<and> ?n (p + 23 - i))"
    using bs_byte_bits [OF assms(1), of "k + 2"] assms(2) unfolding at by auto
  obtain b3 where b3: "bs_byte bs (k + 3) = Some b3" "\<And>i. bit b3 i = (i < 8 \<and> ?n (p + 31 - i))"
    using bs_byte_bits [OF assms(1), of "k + 3"] assms(2) unfolding at by auto
  let ?w = "push_bit 24 b0 OR push_bit 16 b1 OR push_bit 8 b2 OR b3"
  note bits = b0(2) b1(2) b2(2) b3(2)
  have "bit ?w i = ?n (p + 31 - i)" if h: "i < 32" for i
  proof -
    consider "i < 8" | "8 \<le> i" "i < 16" | "16 \<le> i" "i < 24" | "24 \<le> i" "i < 32" using h by linarith
    then show ?thesis
    proof cases
      case 1
      then show ?thesis by (simp add: bit_simps bits)
    next
      case 2
      then have "p + 23 - (i - 8) = p + 31 - i" "i - 8 < 8" by simp_all
      then show ?thesis using 2 by (simp add: bit_simps bits)
    next
      case 3
      then have "p + 15 - (i - 16) = p + 31 - i" "i - 16 < 8" "\<not> i - 8 < 8" by simp_all
      then show ?thesis using 3 by (simp add: bit_simps bits)
    next
      case 4
      then have "p + 7 - (i - 24) = p + 31 - i" "i - 24 < 8" "\<not> i - 8 < 8" "\<not> i - 16 < 8" by simp_all
      then show ?thesis using 4 by (simp add: bit_simps bits)
    qed
  qed
  then show ?thesis using b0(1) b1(1) b2(1) b3(1) by (auto simp: bs_word_def p_def)
qed

lemma low_mask_eq: "low_mask n = mask (unat n)"
  by (simp add: low_mask_def mask_eq_exp_minus_1 push_bit_eq_mult)

lemma bit_refill:
  fixes x y :: u32
  assumes "n \<le> 32"
  shows "bit (push_bit n x OR (drop_bit (32 - n) y AND mask n)) i = (i < 32 \<and> (if n \<le> i then bit x (i - n) else bit y (i + 32 - n)))"
  using assms bit_u32 by (auto simp: bit_simps algebra_simps)

lemma fetch_reading:
  assumes "attached bs" "bs_position bs = 0" "bs_offset bs = 0" "bs_pointer bs = 0"
  shows "\<exists>bs'. BitStream_Fetch bs = Some bs' \<and> reading bs' \<and> bs_position bs' = 0 \<and> cap_bytes bs' = cap_bytes bs \<and> bs_length bs' = bs_length bs"
proof -
  obtain w where w: "bs_word bs 0 = Some w" "\<forall>i < 32. bit w i = nth_bit (cap_bytes bs) (31 - i)"
    using bs_word_bits [OF assms(1), of 0] assms(4) by auto
  let ?b = "bs\<lparr>bs_accumulator := w\<rparr>"
  have a: "attached ?b" using assms(1) by (simp add: attached_def)
  obtain x where x: "bs_word ?b 4 = Some x" "\<forall>i < 32. bit x i = nth_bit (cap_bytes bs) (63 - i)"
    using bs_word_bits [OF a, of 4] assms(4) by (auto simp: cap_bytes_def)
  have "reading (?b\<lparr>bs_prefetch := x\<rparr>)"
    using a w(2) x(2) assms by (simp add: reading_def attached_def cap_bytes_def)
  then show ?thesis using w(1) x(1) assms(2) by (simp add: BitStream_Fetch_def BitStream_Prefetch_def cap_bytes_def)
qed

lemma word_place: "z < 32 \<Longrightarrow> (32 * q + z) mod 32 = (z :: nat)" "z < 32 \<Longrightarrow> (32 * q + z) div 32 = q"
  by simp_all

lemma unat_32_minus: "unat (w :: u32) \<le> 32 \<Longrightarrow> unat (32 - w) = 32 - unat w"
  by (simp add: unat_sub word_le_nat_alt)

lemma bit_drop_masked: "bit (drop_bit a v AND mask b :: u32) i = (i < b \<and> bit v (a + i))"
  by (auto simp: bit_simps dest: bit_u32)

lemma shift_reading:
  assumes "reading bs" "unat nbits = n" "0 < n" "n < 32" "unat (bs_position bs) + n \<le> 2 ^ 24"
  shows "\<exists>bs'. BitStream_Shift bs nbits = Some bs' \<and> reading bs' \<and> bs_position bs' = bs_position bs + nbits \<and>
    cap_bytes bs' = cap_bytes bs \<and> bs_length bs' = bs_length bs"
proof -
  define p where "p = unat (bs_position bs)"
  define z where "z = p mod 32"
  let ?B = "nth_bit (cap_bytes bs)"
  have r: "attached bs" "unat (bs_offset bs) = z" "bs_pointer bs = 4 * (p div 32)" "z < 32"
      and acc: "\<And>i. i < 32 \<Longrightarrow> bit (bs_accumulator bs) i = ?B (p + 31 - i)"
      and pre: "\<And>i. i < 32 \<Longrightarrow> bit (bs_prefetch bs) i = (z \<le> i \<and> ?B (p + 63 - i))"
    using assms(1) by (auto simp: reading_def p_def z_def)
  have nb: "nbits \<noteq> 0" "nbits < 32" "unat (32 - nbits) = 32 - n" using assms(2-4) by (auto simp: word_less_nat_alt unat_sub word_le_nat_alt)
  have pos: "unat (bs_position bs + nbits) = p + n" using assms(2,5) by (simp add: p_def unat_word_ariths)
  have off: "unat (bs_offset bs + nbits) = z + n" using assms(2,4) r(2,4) by (simp add: unat_word_ariths)
  define a1 where "a1 = push_bit n (bs_accumulator bs) OR (drop_bit (32 - n) (bs_prefetch bs) AND mask n)"
  define q1 where "q1 = push_bit n (bs_prefetch bs)"
  let ?b1 = "bs\<lparr>bs_position := bs_position bs + nbits, bs_offset := bs_offset bs + nbits, bs_mask := mask n, bs_accumulator := a1, bs_prefetch := q1\<rparr>"
  have a1: "bit a1 i = (z + n \<le> i + 32 \<and> ?B (p + n + 31 - i))" if "i < 32" for i
    unfolding a1_def using that assms(4) acc [of "i - n"] pre [of "i + 32 - n"] r(4) by (subst bit_refill) (auto simp: algebra_simps)
  have q1: "bit q1 i = (z + n \<le> i \<and> ?B (p + n + 63 - i))" if "i < 32" for i
    unfolding q1_def using that pre [of "i - n"] by (auto simp: bit_simps algebra_simps)
  show ?thesis
  proof (cases "z + n < 32")
    case True
    then have "BitStream_Shift bs nbits = Some ?b1"
      using nb off assms(2) by (simp add: BitStream_Shift_def Let_def word_less_nat_alt low_mask_eq a1_def q1_def)
    moreover have "p + n = 32 * (p div 32) + (z + n)" by (simp add: z_def)
    note word_place [OF True, of "p div 32", folded this]
    then have "reading ?b1" using r(1,3) assms(5) pos off a1 q1 True
      by (simp add: reading_def attached_def cap_bytes_def p_def)
    ultimately show ?thesis by (intro exI [of _ ?b1]) (simp add: cap_bytes_def)
  next
    case False
    define z' where "z' = z + n - 32"
    have e: "z' < 32" "p = 32 * (p div 32) + z" "z + n = 32 + z'" using False r(4) assms(4) by (simp_all add: z_def z'_def)
    have "32 * q + z + n = 32 * (q + 1) + z'" for q using e(3) by simp
    note pn = this [of "p div 32", folded e(2)]
    note z' = e(1) word_place [OF e(1), of "p div 32 + 1", folded pn] pn
    have off': "unat (bs_offset bs + nbits - 32) = z'" using off False by (simp add: unat_sub word_le_nat_alt z'_def)
    let ?b2 = "?b1\<lparr>bs_offset := bs_offset bs + nbits - 32, bs_pointer := bs_pointer bs + 4\<rparr>"
    have "attached ?b2" using r(1) by (simp add: attached_def)
    moreover have "bs_pointer ?b2 + 4 + 3 < 2 ^ 31" using r(3) assms(5) by (simp add: p_def)
    ultimately obtain w where w: "bs_word ?b2 4 = Some w" "\<forall>i < 32. bit w i = nth_bit (cap_bytes ?b2) (8 * (bs_pointer ?b2 + 4) + 31 - i)"
      using bs_word_bits by blast
    have wb: "bit w i = ?B (p + n + 63 - z' - i)" if "i < 32" for i using w(2) that z'(4) r(3) by (simp add: cap_bytes_def algebra_simps)
    have a1': "bit a1 i = (z' \<le> i \<and> ?B (p + n + 31 - i))" if "i < 32" for i using a1 [OF that] False by (auto simp: z'_def)
    let ?b3 = "?b2\<lparr>bs_prefetch := w\<rparr>"
    have p3: "BitStream_Prefetch ?b2 = Some ?b3" using w(1) by (simp add: BitStream_Prefetch_def)
    let ?a4 = "a1 OR (drop_bit (32 - z') w AND mask z')" let ?q4 = "push_bit z' w"
    let ?b4 = "?b3\<lparr>bs_mask := mask z', bs_accumulator := ?a4, bs_prefetch := ?q4\<rparr>"
    have s: "BitStream_Shift bs nbits = Some (if z' \<noteq> 0 then ?b4 else ?b3)"
    proof -
      have "\<not> bs_offset bs + nbits < 32" using off False by (simp add: word_less_nat_alt)
      moreover have "bs_offset bs + nbits - 32 \<noteq> 0 \<longleftrightarrow> z' \<noteq> 0" using off' by (metis unat_eq_zero)
      moreover have "z' \<noteq> 0 \<Longrightarrow> unat (32 - (bs_offset bs + nbits - 32)) = 32 - z'" using unat_32_minus [of "bs_offset bs + nbits - 32"] off' z'(1) by simp
      ultimately show ?thesis using nb p3 assms(2) off'
        by (simp add: BitStream_Shift_def Let_def low_mask_eq a1_def [symmetric] q1_def [symmetric])
    qed
    have "reading (if z' \<noteq> 0 then ?b4 else ?b3)"
    proof (cases "z' = 0")
      case True
      then show ?thesis using r(1,3) assms(5) pos off' z' a1' wb by (simp add: reading_def attached_def cap_bytes_def p_def)
    next
      case ne: False
      have "bit ?a4 i = ?B (p + n + 31 - i)" if i: "i < 32" for i
      proof (cases "z' \<le> i")
        case False
        then have "p + n + 63 - z' - (32 - z' + i) = p + n + 31 - i" "32 - z' + i < 32" using z'(1) by simp_all
        then show ?thesis using False a1' [OF i] wb [of "32 - z' + i"] by (simp add: bit_or_iff bit_drop_masked)
      qed (simp add: bit_or_iff bit_drop_masked a1' i)
      moreover have "bit ?q4 i = (z' \<le> i \<and> ?B (p + n + 63 - i))" if "i < 32" for i
        using that wb [of "i - z'"] by (auto simp: bit_simps algebra_simps)
      ultimately show ?thesis using ne r(1,3) assms(5) pos off' z' by (simp add: reading_def attached_def cap_bytes_def p_def)
    qed
    then show ?thesis using s by (intro exI [of _ "if z' \<noteq> 0 then ?b4 else ?b3"]) (simp add: cap_bytes_def)
  qed
qed

section \<open>Writing\<close>

definition bits_of :: "nat \<Rightarrow> u32 \<Rightarrow> bool list" where
  "bits_of n v = map (\<lambda>i. bit v (n - 1 - i)) [0..<n]"

lemma length_bits_of [simp]: "length (bits_of n v) = n"
  by (simp add: bits_of_def)

lemma nth_bits_of: "i < n \<Longrightarrow> bits_of n v ! i = bit v (n - 1 - i)"
  by (simp add: bits_of_def)

text \<open>A writer that was given the bits \<open>ws\<close>: whole words are in the buffer, the rest is in the accumulator.\<close>

definition writing :: "wBitStream \<Rightarrow> bool list \<Rightarrow> bool" where
  "writing bs ws \<longleftrightarrow> attached bs \<and> length ws \<le> 2 ^ 24 \<and> unat (bs_position bs) = length ws \<and>
     unat (bs_offset bs) = length ws mod 32 \<and> bs_pointer bs = 4 * (length ws div 32) \<and>
     (\<forall>n < 32 * (length ws div 32). n < 8 * length (cap_bytes bs) \<longrightarrow> nth_bit (cap_bytes bs) n = ws ! n) \<and>
     (\<forall>i < 32. bit (bs_accumulator bs) i = (31 - i < length ws mod 32 \<and> ws ! (32 * (length ws div 32) + 31 - i)))"

lemma poke_bits:
  assumes "attached bs" "bs_pointer bs + k < 2 ^ 31"
  shows "\<exists>buf. bs_poke k w bs = Some (bs\<lparr>bs_buffer := buf\<rparr>) \<and> length buf = length (bs_buffer bs) \<and>
    (\<forall>n. nth_bit (cap_bytes (bs\<lparr>bs_buffer := buf\<rparr>)) n =
      (if n div 8 = bs_pointer bs + k then n div 8 < unat (bs_capacity bs) \<and> bit w (7 - n mod 8) else nth_bit (cap_bytes bs) n))"
proof -
  have u: "unat (word_of_nat (bs_pointer bs) + word_of_nat k :: u32) = bs_pointer bs + k"
    using assms(2) by (rule unat_index)
  have l: "length (cap_bytes bs) = unat (bs_capacity bs)" using assms(1) by (simp add: cap_bytes_def attached_def)
  have nl: "n < 8 * c \<longleftrightarrow> n div 8 < c" for n c :: nat by arith
  show ?thesis
  proof (cases "bs_pointer bs + k < unat (bs_capacity bs)")
    case True
    let ?buf = "(bs_buffer bs)[bs_pointer bs + k := ucast w]"
    have "bs_poke k w bs = Some (bs\<lparr>bs_buffer := ?buf\<rparr>)"
      using True assms(1) u by (simp add: bs_poke_def word_less_nat_alt attached_def)
    moreover have "cap_bytes (bs\<lparr>bs_buffer := ?buf\<rparr>) = (cap_bytes bs)[bs_pointer bs + k := ucast w]" by (simp add: cap_bytes_def take_update_swap)
    ultimately show ?thesis using True l by (intro exI [of _ ?buf]) (auto simp: nth_bit_def nl nth_list_update bit_simps)
  next
    case False
    then have "bs_poke k w bs = Some (bs\<lparr>bs_buffer := bs_buffer bs\<rparr>)" using u by (simp add: bs_poke_def word_less_nat_alt)
    then show ?thesis using False l by (intro exI [of _ "bs_buffer bs"]) (auto simp: nth_bit_def nl)
  qed
qed

lemma flush_bits:
  assumes "attached bs" "bs_pointer bs + 3 < 2 ^ 31"
  shows "\<exists>buf. BitStream_Flush bs = Some (bs\<lparr>bs_buffer := buf\<rparr>) \<and> length buf = length (bs_buffer bs) \<and>
    (\<forall>n. nth_bit (cap_bytes (bs\<lparr>bs_buffer := buf\<rparr>)) n =
      (if 8 * bs_pointer bs \<le> n \<and> n < 8 * bs_pointer bs + 32 then n div 8 < unat (bs_capacity bs) \<and> bit (bs_accumulator bs) (8 * bs_pointer bs + 31 - n)
       else nth_bit (cap_bytes bs) n))"
proof -
  let ?p = "bs_pointer bs" let ?a = "bs_accumulator bs"
  have at: "attached (bs\<lparr>bs_buffer := buf\<rparr>)" if "length buf = length (bs_buffer bs)" for buf using assms(1) that by (simp add: attached_def)
  obtain f0 where f0: "bs_poke 0 (drop_bit 24 ?a) bs = Some (bs\<lparr>bs_buffer := f0\<rparr>)" "length f0 = length (bs_buffer bs)"
      "\<And>n. nth_bit (cap_bytes (bs\<lparr>bs_buffer := f0\<rparr>)) n = (if n div 8 = ?p then n div 8 < unat (bs_capacity bs) \<and> bit (drop_bit 24 ?a) (7 - n mod 8) else nth_bit (cap_bytes bs) n)"
    using poke_bits [OF assms(1), of 0 "drop_bit 24 ?a"] assms(2) by auto
  obtain f1 where f1: "bs_poke 1 (drop_bit 16 ?a) (bs\<lparr>bs_buffer := f0\<rparr>) = Some (bs\<lparr>bs_buffer := f1\<rparr>)" "length f1 = length (bs_buffer bs)"
      "\<And>n. nth_bit (cap_bytes (bs\<lparr>bs_buffer := f1\<rparr>)) n = (if n div 8 = ?p + 1 then n div 8 < unat (bs_capacity bs) \<and> bit (drop_bit 16 ?a) (7 - n mod 8) else nth_bit (cap_bytes (bs\<lparr>bs_buffer := f0\<rparr>)) n)"
    using poke_bits [OF at [OF f0(2)], of 1 "drop_bit 16 ?a"] assms(2) f0(2) by auto
  obtain f2 where f2: "bs_poke 2 (drop_bit 8 ?a) (bs\<lparr>bs_buffer := f1\<rparr>) = Some (bs\<lparr>bs_buffer := f2\<rparr>)" "length f2 = length (bs_buffer bs)"
      "\<And>n. nth_bit (cap_bytes (bs\<lparr>bs_buffer := f2\<rparr>)) n = (if n div 8 = ?p + 2 then n div 8 < unat (bs_capacity bs) \<and> bit (drop_bit 8 ?a) (7 - n mod 8) else nth_bit (cap_bytes (bs\<lparr>bs_buffer := f1\<rparr>)) n)"
    using poke_bits [OF at [OF f1(2)], of 2 "drop_bit 8 ?a"] assms(2) f1(2) by auto
  obtain f3 where f3: "bs_poke 3 ?a (bs\<lparr>bs_buffer := f2\<rparr>) = Some (bs\<lparr>bs_buffer := f3\<rparr>)" "length f3 = length (bs_buffer bs)"
      "\<And>n. nth_bit (cap_bytes (bs\<lparr>bs_buffer := f3\<rparr>)) n = (if n div 8 = ?p + 3 then n div 8 < unat (bs_capacity bs) \<and> bit ?a (7 - n mod 8) else nth_bit (cap_bytes (bs\<lparr>bs_buffer := f2\<rparr>)) n)"
    using poke_bits [OF at [OF f2(2)], of 3 ?a] assms(2) f2(2) by auto
  have "BitStream_Flush bs = Some (bs\<lparr>bs_buffer := f3\<rparr>)" using f0(1) f1(1) f2(1) f3(1) by (simp add: BitStream_Flush_def)
  moreover have "nth_bit (cap_bytes (bs\<lparr>bs_buffer := f3\<rparr>)) n =
      (if 8 * ?p \<le> n \<and> n < 8 * ?p + 32 then n div 8 < unat (bs_capacity bs) \<and> bit ?a (8 * ?p + 31 - n) else nth_bit (cap_bytes bs) n)" for n
  proof -
    obtain q r where n: "n = 8 * q + r" "r < 8" "n div 8 = q" "n mod 8 = r" by (metis mod_less_divisor mult_div_mod_eq zero_less_numeral)
    consider "q = ?p" | "q = ?p + 1" | "q = ?p + 2" | "q = ?p + 3" | "q < ?p" | "?p + 4 \<le> q" by linarith
    then show ?thesis
    proof cases
      case 1
      then have "8 * ?p \<le> n" "n < 8 * ?p + 32" "8 * ?p + 31 - n = 24 + (7 - r)" using n(1,2) by arith+
      then show ?thesis using 1 n(3,4) by (simp add: f0(3) f1(3) f2(3) f3(3) bit_simps)
    next
      case 2
      then have "8 * ?p \<le> n" "n < 8 * ?p + 32" "8 * ?p + 31 - n = 16 + (7 - r)" using n(1,2) by arith+
      then show ?thesis using 2 n(3,4) by (simp add: f1(3) f2(3) f3(3) bit_simps)
    next
      case 3
      then have "8 * ?p \<le> n" "n < 8 * ?p + 32" "8 * ?p + 31 - n = 8 + (7 - r)" using n(1,2) by arith+
      then show ?thesis using 3 n(3,4) by (simp add: f2(3) f3(3) bit_simps)
    next
      case 4
      then have "8 * ?p \<le> n" "n < 8 * ?p + 32" "8 * ?p + 31 - n = 7 - r" using n(1,2) by arith+
      then show ?thesis using 4 n(3,4) by (simp add: f3(3))
    next
      case 5
      then have "\<not> 8 * ?p \<le> n" using n(1,2) by arith
      then show ?thesis using 5 n(3,4) by (simp add: f0(3) f1(3) f2(3) f3(3))
    next
      case 6
      then have "\<not> n < 8 * ?p + 32" using n(1,2) by arith
      then show ?thesis using 6 n(3,4) by (simp add: f0(3) f1(3) f2(3) f3(3))
    qed
  qed
  ultimately show ?thesis using f3(2) by blast
qed

lemma flush_writing:
  assumes "writing bs ws"
  shows "\<exists>bs'. BitStream_Flush bs = Some bs' \<and> bs_position bs' = bs_position bs \<and> length (bs_buffer bs') = length (bs_buffer bs) \<and>
    bs_capacity bs' = bs_capacity bs \<and>
    (\<forall>n < 32 * (length ws div 32) + 32. n < 8 * length (cap_bytes bs) \<longrightarrow> nth_bit (cap_bytes bs') n = (n < length ws \<and> ws ! n))"
proof -
  have a: "attached bs" "bs_pointer bs = 4 * (length ws div 32)" "length ws \<le> 2 ^ 24"
    and w: "\<And>n. n < 32 * (length ws div 32) \<Longrightarrow> n < 8 * length (cap_bytes bs) \<Longrightarrow> nth_bit (cap_bytes bs) n = ws ! n"
    and acc: "\<And>i. i < 32 \<Longrightarrow> bit (bs_accumulator bs) i = (31 - i < length ws mod 32 \<and> ws ! (32 * (length ws div 32) + 31 - i))"
    using assms by (auto simp: writing_def)
  let ?q = "32 * (length ws div 32)"
  have p: "8 * bs_pointer bs = ?q" "bs_pointer bs + 3 < 2 ^ 31" using a(2,3) by auto
  obtain buf where f: "BitStream_Flush bs = Some (bs\<lparr>bs_buffer := buf\<rparr>)" "length buf = length (bs_buffer bs)"
      "\<And>n. nth_bit (cap_bytes (bs\<lparr>bs_buffer := buf\<rparr>)) n = (if ?q \<le> n \<and> n < ?q + 32 then n div 8 < unat (bs_capacity bs) \<and> bit (bs_accumulator bs) (?q + 31 - n)
         else nth_bit (cap_bytes bs) n)"
    using flush_bits [OF a(1) p(2)] unfolding p(1) by blast
  have "nth_bit (cap_bytes (bs\<lparr>bs_buffer := buf\<rparr>)) n = (n < length ws \<and> ws ! n)" if "n < ?q + 32" "n < 8 * length (cap_bytes bs)" for n
  proof (cases "?q \<le> n")
    case True
    have lc: "length (cap_bytes bs) = unat (bs_capacity bs)" using a(1) by (simp add: cap_bytes_def attached_def)
    have i: "?q + 31 - n < 32" "31 - (?q + 31 - n) = n - ?q" "?q + 31 - (?q + 31 - n) = n" using True that(1) by arith+
    have "n - ?q < length ws mod 32 \<longleftrightarrow> n < length ws" using True by (metis add.commute less_diff_conv2 mod_mult_div_eq mult.commute)
    moreover have "n div 8 < unat (bs_capacity bs)" using that(2) lc by arith
    ultimately show ?thesis using True that(1) acc [OF i(1)] unfolding i by (simp add: f(3))
  next
    case False
    then have "n < length ws" by (metis (no_types) less_le_trans not_le times_div_less_eq_dividend)
    then show ?thesis using False w [OF _ that(2)] by (simp add: f(3))
  qed
  then show ?thesis using f(1,2) by (intro exI [of _ "bs\<lparr>bs_buffer := buf\<rparr>"]) simp
qed

lemma bit_below: "unat (v :: u32) < 2 ^ n \<Longrightarrow> bit v i \<Longrightarrow> i < n"
proof (rule ccontr)
  assume h: "unat v < 2 ^ n" "bit v i" "\<not> i < n"
  then have "take_bit n v = v" by (simp add: word_unat_eq_iff unsigned_take_bit_eq take_bit_nat_eq_self)
  then show False using h(2,3) by (metis bit_take_bit_iff)
qed

lemma nth_appended:
  assumes "length ws \<le> j" "j < length ws + n"
  shows "(ws @ bits_of n v) ! j = bit v (n - 1 - (j - length ws))"
  using assms by (simp add: nth_append nth_bits_of)

lemma write_writing:
  assumes "writing bs ws" "unat nbits = n" "0 < n" "n < 32" "unat v < 2 ^ n" "length ws + n \<le> 2 ^ 24"
  shows "\<exists>bs'. BitStream_Write_Bits bs v nbits = Some bs' \<and> writing bs' (ws @ bits_of n v) \<and> bs_capacity bs' = bs_capacity bs \<and>
    length (bs_buffer bs') = length (bs_buffer bs)"
proof -
  define L where "L = length ws"
  define z where "z = L mod 32"
  define q where "q = L div 32"
  have L: "L = 32 * q + z" "z < 32" by (simp_all add: q_def z_def)
  have r: "attached bs" "unat (bs_position bs) = L" "unat (bs_offset bs) = z" "bs_pointer bs = 4 * q"
    and buf: "\<And>j. j < 32 * q \<Longrightarrow> j < 8 * length (cap_bytes bs) \<Longrightarrow> nth_bit (cap_bytes bs) j = ws ! j"
    and acc: "\<And>i. i < 32 \<Longrightarrow> bit (bs_accumulator bs) i = (31 - i < z \<and> ws ! (32 * q + 31 - i))"
    using assms(1) by (auto simp: writing_def L_def z_def q_def)
  let ?ws = "ws @ bits_of n v"
  have lw: "length ?ws = L + n" by (simp add: L_def)
  have old: "?ws ! j = ws ! j" if "j < L" for j using that by (simp add: nth_append L_def)
  have new: "?ws ! j = bit v (L + n - 1 - j)" if "L \<le> j" "j < L + n" for j
    using nth_appended [of ws j n v] that by (simp add: L_def add.commute)
  have pos: "unat (bs_position bs + nbits) = L + n" using assms(2,6) r(2) by (simp add: L_def unat_word_ariths)
  have off: "unat (bs_offset bs + nbits) = z + n" using assms(2,4) r(3) L(2) by (simp add: unat_word_ariths)
  let ?b = "bs\<lparr>bs_position := bs_position bs + nbits, bs_offset := bs_offset bs + nbits\<rparr>"
  show ?thesis
  proof (cases "z + n < 32")
    case True
    let ?a = "bs_accumulator bs OR push_bit (32 - (z + n)) v"
    have u: "unat (32 - (bs_offset bs + nbits)) = 32 - (z + n)" using off True by (simp add: unat_sub word_le_nat_alt)
    have w: "BitStream_Write_Bits bs v nbits = Some (?b\<lparr>bs_accumulator := ?a\<rparr>)"
      using off True u by (simp add: BitStream_Write_Bits_def word_less_nat_alt)
    have "L + n = 32 * q + (z + n)" using L(1) by simp
    note d = word_place [OF True, of q, folded this]
    have "bit ?a i = (31 - i < z + n \<and> ?ws ! (32 * q + 31 - i))" if i: "i < 32" for i
    proof -
      consider "31 - i < z" | "z \<le> 31 - i" "31 - i < z + n" | "z + n \<le> 31 - i" by linarith
      then show ?thesis
      proof cases
        case 1
        then have "\<not> bit v (i - (32 - (z + n)))" using bit_below [OF assms(5), of "i - (32 - (z + n))"] i True by auto
        then show ?thesis using 1 acc [OF i] old [of "32 * q + 31 - i"] L(1) by (simp add: bit_simps i)
      next
        case 2
        then have "L + n - 1 - (32 * q + 31 - i) = i - (32 - (z + n))" "32 - (z + n) \<le> i" using L(1) i True by arith+
        then show ?thesis using 2 acc [OF i] new [of "32 * q + 31 - i"] L(1) i by (auto simp: bit_simps)
      next
        case 3
        then have "\<not> 32 - (z + n) \<le> i" using i True by arith
        then show ?thesis using 3 acc [OF i] by (simp add: bit_simps)
      qed
    qed
    then have "writing (?b\<lparr>bs_accumulator := ?a\<rparr>) ?ws"
      using r(1,4) assms(6) pos off buf old L(1) unfolding writing_def lw d by (simp add: attached_def cap_bytes_def L_def)
    then show ?thesis using w by (intro exI [of _ "?b\<lparr>bs_accumulator := ?a\<rparr>"]) simp
  next
    case False
    define z' where "z' = z + n - 32"
    have z': "z' < n" "z' < 32" "n - z' = 32 - z" "z + n = 32 + z'" using False L(2) assms(4) by (auto simp: z'_def)
    have "L + n = 32 * (q + 1) + z'" using L(1) z'(4) by simp
    note d = word_place [OF z'(2), of "q + 1", folded this]
    have off': "unat (bs_offset bs + nbits - 32) = z'" using off False by (simp add: unat_sub word_le_nat_alt z'_def)
    have nm: "unat (nbits - (bs_offset bs + nbits - 32)) = n - z'" using r(3) L(2) z'(3) by (simp add: unat_sub word_le_nat_alt)
    let ?a = "bs_accumulator bs OR (drop_bit z' v AND mask (n - z'))"
    let ?b1 = "?b\<lparr>bs_offset := bs_offset bs + nbits - 32, bs_mask := mask (n - z'), bs_accumulator := ?a\<rparr>"
    have a1: "bit ?a i = ?ws ! (32 * q + 31 - i)" if i: "i < 32" for i
    proof (cases "31 - i < z")
      case True
      then have "\<not> i < n - z'" using i z'(3) by arith
      then show ?thesis using True acc [OF i] old [of "32 * q + 31 - i"] L(1) by (simp add: bit_simps)
    next
      case False
      then have "L + n - 1 - (32 * q + 31 - i) = i + z'" "i < n - z'" "L \<le> 32 * q + 31 - i" "32 * q + 31 - i < L + n" using i L z' by arith+
      then show ?thesis using acc [OF i] False new [of "32 * q + 31 - i"] by (simp add: bit_or_iff bit_drop_masked add.commute)
    qed
    have at: "attached ?b1" "bs_pointer ?b1 + 3 < 2 ^ 31" using r(1,4) assms(6) L(1) by (auto simp: attached_def L_def)
    obtain f where f: "BitStream_Flush ?b1 = Some (?b1\<lparr>bs_buffer := f\<rparr>)" "length f = length (bs_buffer bs)"
        "\<And>j. nth_bit (cap_bytes (?b1\<lparr>bs_buffer := f\<rparr>)) j = (if 32 * q \<le> j \<and> j < 32 * q + 32 then j div 8 < unat (bs_capacity bs) \<and> bit ?a (32 * q + 31 - j)
           else nth_bit (cap_bytes ?b1) j)"
      using flush_bits [OF at] r(4) by auto
    let ?b2 = "?b1\<lparr>bs_buffer := f, bs_accumulator := 0, bs_pointer := bs_pointer bs + 4\<rparr>"
    let ?a3 = "push_bit (32 - z') (v AND mask z')"
    let ?b3 = "if z' \<noteq> 0 then ?b2\<lparr>bs_mask := mask z', bs_accumulator := ?a3\<rparr> else ?b2"
    have w: "BitStream_Write_Bits bs v nbits = Some ?b3"
    proof -
      have "\<not> bs_offset bs + nbits < 32" using off False by (simp add: word_less_nat_alt)
      moreover have "bs_offset bs + nbits - 32 \<noteq> 0 \<longleftrightarrow> z' \<noteq> 0" using off' by (metis unat_eq_zero)
      moreover have "unat (32 - (bs_offset bs + nbits - 32)) = 32 - z'" using unat_32_minus [of "bs_offset bs + nbits - 32"] off' z'(2) by simp
      ultimately show ?thesis using f(1) off' nm by (simp add: BitStream_Write_Bits_def Let_def low_mask_eq)
    qed
    have lc: "length (cap_bytes bs) = unat (bs_capacity bs)" using r(1) by (simp add: cap_bytes_def attached_def)
    have c3: "cap_bytes ?b3 = cap_bytes (?b1\<lparr>bs_buffer := f\<rparr>)" "cap_bytes ?b1 = cap_bytes bs" by (simp_all add: cap_bytes_def)
    have nb: "nth_bit (cap_bytes ?b3) j = ?ws ! j" if "j < 32 * (q + 1)" "j < 8 * length (cap_bytes bs)" for j
    proof (cases "32 * q \<le> j")
      case True
      have "32 * q + 31 - j < 32" "32 * q + 31 - (32 * q + 31 - j) = j" "j div 8 < unat (bs_capacity bs)" using True that lc by arith+
      then show ?thesis unfolding c3(1) f(3) using True that(1) a1 [of "32 * q + 31 - j"] by simp
    next
      case False
      then show ?thesis unfolding c3(1) f(3) c3(2) using buf [OF _ that(2)] old L(1) by simp
    qed
    have a3: "bit (bs_accumulator ?b3) i = (31 - i < z' \<and> ?ws ! (32 * (q + 1) + 31 - i))" if i: "i < 32" for i
    proof (cases "31 - i < z'")
      case True
      define k where "k = 31 - i"
      have k: "i = 31 - k" "k < z'" "32 * (q + 1) + 31 - i = 32 * q + 32 + k" "L + n = 32 * q + 32 + z'"
        using True i L(1) z'(4) by (simp_all add: k_def)
      have "L + n - 1 - (32 * q + 32 + k) = i - (32 - z')" "32 - z' \<le> i" "i - (32 - z') < z'" "L \<le> 32 * q + 32 + k" "32 * q + 32 + k < L + n"
        unfolding k(4) using k(1,2) L z'(2) by simp_all
      then show ?thesis using True new [of "32 * q + 32 + k"] i unfolding k(3) by (auto simp: bit_simps dest: bit_u32)
    next
      case False
      then have "\<not> 32 - z' \<le> i \<or> z' = 0" using i by arith
      then show ?thesis using False by (auto simp: bit_simps)
    qed
    define b3 where "b3 = ?b3"
    have b3: "attached b3" "length (cap_bytes b3) = length (cap_bytes bs)" "bs_position b3 = bs_position bs + nbits"
        "unat (bs_offset b3) = z'" "bs_pointer b3 = 4 * (q + 1)" "bs_capacity b3 = bs_capacity bs" "length (bs_buffer b3) = length (bs_buffer bs)"
      using r(1,4) f(2) off' by (simp_all add: b3_def attached_def cap_bytes_def)
    note nb = nb [folded b3_def] and a3 = a3 [folded b3_def] and w = w [folded b3_def]
    have "writing b3 ?ws" unfolding writing_def lw d b3 pos using assms(6) b3(1) nb a3 by (simp add: L_def)
    then show ?thesis using w b3(6,7) by blast
  qed
qed

end
