(* ===== verification/Mppc.thy ===== *)
theory Mppc
  imports Bit_Stream
begin

text \<open>
  The bulk compression of RDP 4 and 5 (\<^verbatim>\<open>libfreerdp/codec/mppc.c\<close>): a literal takes eight or nine bits, a copy is an
  offset back into the history and a length. Both sides keep the same history of 8 or 64 kilobytes.

  Pointers into the history, the source and the destination are indices. Reading or writing the history
  outside its array is a fault (\<open>None\<close>), with one exception: the compressor compares the byte in front of the
  history when an entry of its match table is still zero. That byte belongs to the field before the
  array; it is the argument \<open>front\<close>.
\<close>

definition PACKET_COMPRESSED :: u32 where "PACKET_COMPRESSED = 0x20"
definition PACKET_AT_FRONT :: u32 where "PACKET_AT_FRONT = 0x40"
definition PACKET_FLUSHED :: u32 where "PACKET_FLUSHED = 0x80"

definition MPPC_MATCH_TABLE :: "u32 list" where
  "MPPC_MATCH_TABLE = [
    0x00000000, 0x009CCF93, 0x01399F26, 0x01D66EB9, 0x02733E4C, 0x03100DDF, 0x03ACDD72, 0x0449AD05, 0x04E67C98, 0x05834C2B, 0x06201BBE, 0x06BCEB51,
    0x0759BAE4, 0x07F68A77, 0x08935A0A, 0x0930299D, 0x09CCF930, 0x0A69C8C3, 0x0B069856, 0x0BA367E9, 0x0C40377C, 0x0CDD070F, 0x0D79D6A2, 0x0E16A635,
    0x0EB375C8, 0x0F50455B, 0x0FED14EE, 0x1089E481, 0x1126B414, 0x11C383A7, 0x1260533A, 0x12FD22CD, 0x1399F260, 0x1436C1F3, 0x14D39186, 0x15706119,
    0x160D30AC, 0x16AA003F, 0x1746CFD2, 0x17E39F65, 0x18806EF8, 0x191D3E8B, 0x19BA0E1E, 0x1A56DDB1, 0x1AF3AD44, 0x1B907CD7, 0x1C2D4C6A, 0x1CCA1BFD,
    0x1D66EB90, 0x1E03BB23, 0x1EA08AB6, 0x1F3D5A49, 0x1FDA29DC, 0x2076F96F, 0x2113C902, 0x21B09895, 0x224D6828, 0x22EA37BB, 0x2387074E, 0x2423D6E1,
    0x24C0A674, 0x255D7607, 0x25FA459A, 0x2697152D, 0x2733E4C0, 0x27D0B453, 0x286D83E6, 0x290A5379, 0x29A7230C, 0x2A43F29F, 0x2AE0C232, 0x2B7D91C5,
    0x2C1A6158, 0x2CB730EB, 0x2D54007E, 0x2DF0D011, 0x2E8D9FA4, 0x2F2A6F37, 0x2FC73ECA, 0x30640E5D, 0x3100DDF0, 0x319DAD83, 0x323A7D16, 0x32D74CA9,
    0x33741C3C, 0x3410EBCF, 0x34ADBB62, 0x354A8AF5, 0x35E75A88, 0x36842A1B, 0x3720F9AE, 0x37BDC941, 0x385A98D4, 0x38F76867, 0x399437FA, 0x3A31078D,
    0x3ACDD720, 0x3B6AA6B3, 0x3C077646, 0x3CA445D9, 0x3D41156C, 0x3DDDE4FF, 0x3E7AB492, 0x3F178425, 0x3FB453B8, 0x4051234B, 0x40EDF2DE, 0x418AC271,
    0x42279204, 0x42C46197, 0x4361312A, 0x43FE00BD, 0x449AD050, 0x45379FE3, 0x45D46F76, 0x46713F09, 0x470E0E9C, 0x47AADE2F, 0x4847ADC2, 0x48E47D55,
    0x49814CE8, 0x4A1E1C7B, 0x4ABAEC0E, 0x4B57BBA1, 0x4BF48B34, 0x4C915AC7, 0x4D2E2A5A, 0x4DCAF9ED, 0x4E67C980, 0x4F049913, 0x4FA168A6, 0x503E3839,
    0x50DB07CC, 0x5177D75F, 0x5214A6F2, 0x52B17685, 0x534E4618, 0x53EB15AB, 0x5487E53E, 0x5524B4D1, 0x55C18464, 0x565E53F7, 0x56FB238A, 0x5797F31D,
    0x5834C2B0, 0x58D19243, 0x596E61D6, 0x5A0B3169, 0x5AA800FC, 0x5B44D08F, 0x5BE1A022, 0x5C7E6FB5, 0x5D1B3F48, 0x5DB80EDB, 0x5E54DE6E, 0x5EF1AE01,
    0x5F8E7D94, 0x602B4D27, 0x60C81CBA, 0x6164EC4D, 0x6201BBE0, 0x629E8B73, 0x633B5B06, 0x63D82A99, 0x6474FA2C, 0x6511C9BF, 0x65AE9952, 0x664B68E5,
    0x66E83878, 0x6785080B, 0x6821D79E, 0x68BEA731, 0x695B76C4, 0x69F84657, 0x6A9515EA, 0x6B31E57D, 0x6BCEB510, 0x6C6B84A3, 0x6D085436, 0x6DA523C9,
    0x6E41F35C, 0x6EDEC2EF, 0x6F7B9282, 0x70186215, 0x70B531A8, 0x7152013B, 0x71EED0CE, 0x728BA061, 0x73286FF4, 0x73C53F87, 0x74620F1A, 0x74FEDEAD,
    0x759BAE40, 0x76387DD3, 0x76D54D66, 0x77721CF9, 0x780EEC8C, 0x78ABBC1F, 0x79488BB2, 0x79E55B45, 0x7A822AD8, 0x7B1EFA6B, 0x7BBBC9FE, 0x7C589991,
    0x7CF56924, 0x7D9238B7, 0x7E2F084A, 0x7ECBD7DD, 0x7F68A770, 0x80057703, 0x80A24696, 0x813F1629, 0x81DBE5BC, 0x8278B54F, 0x831584E2, 0x83B25475,
    0x844F2408, 0x84EBF39B, 0x8588C32E, 0x862592C1, 0x86C26254, 0x875F31E7, 0x87FC017A, 0x8898D10D, 0x8935A0A0, 0x89D27033, 0x8A6F3FC6, 0x8B0C0F59,
    0x8BA8DEEC, 0x8C45AE7F, 0x8CE27E12, 0x8D7F4DA5, 0x8E1C1D38, 0x8EB8ECCB, 0x8F55BC5E, 0x8FF28BF1, 0x908F5B84, 0x912C2B17, 0x91C8FAAA, 0x9265CA3D,
    0x930299D0, 0x939F6963, 0x943C38F6, 0x94D90889, 0x9575D81C, 0x9612A7AF, 0x96AF7742, 0x974C46D5, 0x97E91668, 0x9885E5FB, 0x9922B58E, 0x99BF8521,
    0x9A5C54B4, 0x9AF92447, 0x9B95F3DA, 0x9C32C36D]"

definition MPPC_MATCH_INDEX :: "byte \<Rightarrow> byte \<Rightarrow> byte \<Rightarrow> u32" where
  "MPPC_MATCH_INDEX sym1 sym2 sym3 =
     drop_bit 12 ((push_bit 16 (MPPC_MATCH_TABLE ! unat sym3) + push_bit 8 (MPPC_MATCH_TABLE ! unat sym2) +
        MPPC_MATCH_TABLE ! unat sym1) AND 0x07FFF000)"

record MPPC_CONTEXT =
  m_bs :: wBitStream
  Compressor :: bool
  HistoryPtr :: nat
  HistoryOffset :: u32
  HistoryBufferSize :: u32
  HistoryBuffer :: "byte list"
  MatchBuffer :: "u16 list"
  CompressionLevel :: u32

definition mppc_set_compression_level :: "MPPC_CONTEXT \<Rightarrow> u32 \<Rightarrow> MPPC_CONTEXT" where
  "mppc_set_compression_level mppc level =
     (if level < 1 then mppc\<lparr>CompressionLevel := 0, HistoryBufferSize := 8192\<rparr>
      else mppc\<lparr>CompressionLevel := 1, HistoryBufferSize := 65536\<rparr>)"

definition mppc_context_reset :: "MPPC_CONTEXT \<Rightarrow> bool \<Rightarrow> MPPC_CONTEXT" where
  "mppc_context_reset mppc flush =
     (let mppc = mppc\<lparr>HistoryBuffer := replicate 65536 0, MatchBuffer := replicate 32768 0\<rparr> in
      if flush then mppc\<lparr>HistoryOffset := HistoryBufferSize mppc + 1, HistoryPtr := 0\<rparr>
      else mppc\<lparr>HistoryOffset := 0, HistoryPtr := 0\<rparr>)"

definition mppc_context_new :: "u32 \<Rightarrow> bool \<Rightarrow> MPPC_CONTEXT" where
  "mppc_context_new level compressor =
     mppc_context_reset (mppc_set_compression_level
       \<lparr>m_bs = BitStream_New, Compressor = compressor, HistoryPtr = 0, HistoryOffset = 0, HistoryBufferSize = 0,
        HistoryBuffer = replicate 65536 0, MatchBuffer = replicate 32768 0, CompressionLevel = 0\<rparr> level) False"

section \<open>Decompression\<close>

text \<open>The offset and the length of a copy at the front of the accumulator, each with the number of bits it takes.\<close>

definition read_copy_offset :: "u32 \<Rightarrow> u32 \<Rightarrow> (u32 \<times> u32) option" where
  "read_copy_offset level acc =
     (if level \<noteq> 0 then
        if acc AND 0xF8000000 = 0xF8000000 then Some (drop_bit 21 acc AND 0x3F, 11)
        else if acc AND 0xF8000000 = 0xF0000000 then Some ((drop_bit 19 acc AND 0xFF) + 64, 13)
        else if acc AND 0xF0000000 = 0xE0000000 then Some ((drop_bit 17 acc AND 0x7FF) + 320, 15)
        else if acc AND 0xE0000000 = 0xC0000000 then Some ((drop_bit 13 acc AND 0xFFFF) + 2368, 19)
        else None
      else
        if acc AND 0xF0000000 = 0xF0000000 then Some (drop_bit 22 acc AND 0x3F, 10)
        else if acc AND 0xF0000000 = 0xE0000000 then Some ((drop_bit 20 acc AND 0xFF) + 64, 12)
        else if acc AND 0xE0000000 = 0xC0000000 then Some ((drop_bit 16 acc AND 0x1FFF) + 320, 16)
        else None)"

definition read_match_length :: "u32 \<Rightarrow> u32 \<Rightarrow> (u32 \<times> u32) option" where
  "read_match_length level acc =
     (if acc AND 0x80000000 = 0 then Some (3, 1)
      else if acc AND 0xC0000000 = 0x80000000 then Some ((drop_bit 28 acc AND 0x0003) + 0x0004, 4)
      else if acc AND 0xE0000000 = 0xC0000000 then Some ((drop_bit 26 acc AND 0x0007) + 0x0008, 6)
      else if acc AND 0xF0000000 = 0xE0000000 then Some ((drop_bit 24 acc AND 0x000F) + 0x0010, 8)
      else if acc AND 0xF8000000 = 0xF0000000 then Some ((drop_bit 22 acc AND 0x001F) + 0x0020, 10)
      else if acc AND 0xFC000000 = 0xF8000000 then Some ((drop_bit 20 acc AND 0x003F) + 0x0040, 12)
      else if acc AND 0xFE000000 = 0xFC000000 then Some ((drop_bit 18 acc AND 0x007F) + 0x0080, 14)
      else if acc AND 0xFF000000 = 0xFE000000 then Some ((drop_bit 16 acc AND 0x00FF) + 0x0100, 16)
      else if acc AND 0xFF800000 = 0xFF000000 then Some ((drop_bit 14 acc AND 0x01FF) + 0x0200, 18)
      else if acc AND 0xFFC00000 = 0xFF800000 then Some ((drop_bit 12 acc AND 0x03FF) + 0x0400, 20)
      else if acc AND 0xFFE00000 = 0xFFC00000 then Some ((drop_bit 10 acc AND 0x07FF) + 0x0800, 22)
      else if acc AND 0xFFF00000 = 0xFFE00000 then Some ((drop_bit 8 acc AND 0x0FFF) + 0x1000, 24)
      else if acc AND 0xFFF80000 = 0xFFF00000 \<and> level \<noteq> 0 then Some ((drop_bit 6 acc AND 0x1FFF) + 0x2000, 26)
      else if acc AND 0xFFFC0000 = 0xFFF80000 \<and> level \<noteq> 0 then Some ((drop_bit 4 acc AND 0x3FFF) + 0x4000, 28)
      else if acc AND 0xFFFE0000 = 0xFFFC0000 \<and> level \<noteq> 0 then Some ((drop_bit 2 acc AND 0x7FFF) + 0x8000, 30)
      else None)"

text \<open>The copy inside the history, byte by byte, so that it may overlap what it writes.\<close>

fun copy_match :: "nat \<Rightarrow> nat \<Rightarrow> nat \<Rightarrow> byte list \<Rightarrow> byte list option" where
  "copy_match src dst 0 h = Some h"
| "copy_match src dst (Suc n) h =
     (if src < length h \<and> dst < length h then copy_match (src + 1) (dst + 1) n (h[dst := h ! src]) else None)"

text \<open>A copy: the offset, the length, the check of the space left, then the copy itself. An error code or the new pointer.\<close>

definition decompress_copy :: "u32 \<Rightarrow> nat \<Rightarrow> wBitStream \<Rightarrow> nat \<Rightarrow> byte list \<Rightarrow> (int \<times> wBitStream + nat \<times> byte list \<times> wBitStream) option" where
  "decompress_copy level hsize bs ptr h =
     (case read_copy_offset level (bs_accumulator bs) of
        None \<Rightarrow> Some (Inl (if level \<noteq> 0 then - 1001 else - 1002, bs))
      | Some (CopyOffset, n) \<Rightarrow> do {
          bs \<leftarrow> BitStream_Shift bs n;
          (case read_match_length level (bs_accumulator bs) of
             None \<Rightarrow> Some (Inl (- 1003, bs))
           | Some (LengthOfMatch, n) \<Rightarrow> do {
               bs \<leftarrow> BitStream_Shift bs n;
               (if ptr + unat LengthOfMatch - 1 > hsize - 1 then Some (Inl (- 1005, bs))
                else do {
                  let src = nat ((int ptr - uint CopyOffset) mod (if level \<noteq> 0 then 0x10000 else 0x2000));
                  h \<leftarrow> copy_match src ptr (unat LengthOfMatch) h;
                  Some (Inr (ptr + unat LengthOfMatch, h, bs)) }) }) })"

definition put_history :: "byte list \<Rightarrow> nat \<Rightarrow> byte \<Rightarrow> byte list option" where
  "put_history h ptr b = (if ptr < length h then Some (h[ptr := b]) else None)"

definition decompress_token :: "u32 \<Rightarrow> nat \<Rightarrow> wBitStream \<Rightarrow> nat \<Rightarrow> byte list \<Rightarrow> (int \<times> wBitStream + nat \<times> byte list \<times> wBitStream) option" where
  "decompress_token level hsize bs ptr h =
     (let acc = bs_accumulator bs in
      if ptr > hsize - 1 then Some (Inl (- 1004, bs))
      else if acc AND 0x80000000 = 0 then do {
        h \<leftarrow> put_history h ptr (ucast (drop_bit 24 (acc AND 0x7F000000)));
        bs \<leftarrow> BitStream_Shift bs 8;
        Some (Inr (ptr + 1, h, bs)) }
      else if acc AND 0xC0000000 = 0x80000000 then do {
        h \<leftarrow> put_history h ptr (ucast (drop_bit 23 (acc AND 0x3F800000) + 0x80));
        bs \<leftarrow> BitStream_Shift bs 9;
        Some (Inr (ptr + 1, h, bs)) }
      else decompress_copy level hsize bs ptr h)"

partial_function (option) decompress_loop :: "u32 \<Rightarrow> nat \<Rightarrow> wBitStream \<Rightarrow> nat \<Rightarrow> byte list \<Rightarrow> (int \<times> nat \<times> byte list \<times> wBitStream) option" where
  [code]: "decompress_loop level hsize bs ptr h =
     (if BitStream_GetRemainingLength bs \<ge> 8 then do {
        r \<leftarrow> decompress_token level hsize bs ptr h;
        (case r of Inl (e, bs) \<Rightarrow> Some (e, ptr, h, bs) | Inr (ptr, h, bs) \<Rightarrow> decompress_loop level hsize bs ptr h) }
      else Some (1, ptr, h, bs))"

text \<open>
  The result is a status, the data if the status is not negative, and the context. The history is written in place,
  also when an error comes later; its contents after an error are those at the start of the failing token.
\<close>

definition mppc_decompress :: "MPPC_CONTEXT \<Rightarrow> byte list \<Rightarrow> u32 \<Rightarrow> (int \<times> byte list \<times> MPPC_CONTEXT) option" where
  "mppc_decompress mppc src flags = do {
     bs \<leftarrow> BitStream_Fetch (BitStream_Attach (m_bs mppc) src (word_of_nat (length src)));
     let mppc = (if flags AND PACKET_AT_FRONT \<noteq> 0 then mppc\<lparr>HistoryOffset := 0, HistoryPtr := 0\<rparr> else mppc);
     let hsize = unat (HistoryBufferSize mppc);
     let mppc = (if flags AND PACKET_FLUSHED \<noteq> 0 then
                   mppc\<lparr>HistoryOffset := 0, HistoryPtr := 0, HistoryBuffer := replicate hsize 0 @ drop hsize (HistoryBuffer mppc)\<rparr> else mppc);
     (if flags AND PACKET_COMPRESSED = 0 then Some (1, src, mppc\<lparr>m_bs := bs\<rparr>)
      else do {
        (status, ptr, h, bs) \<leftarrow> decompress_loop (CompressionLevel mppc) hsize bs (HistoryPtr mppc) (HistoryBuffer mppc);
        (if status < 0 then Some (status, [], mppc\<lparr>m_bs := bs, HistoryBuffer := h\<rparr>)
         else Some (1, take (ptr - HistoryPtr mppc) (drop (HistoryPtr mppc) h), mppc\<lparr>m_bs := bs, HistoryBuffer := h, HistoryPtr := ptr\<rparr>)) }) }"

section \<open>Compression\<close>

record compressor =
  c_bs :: wBitStream
  c_hist :: "byte list"
  c_match :: "u16 list"
  c_top :: nat
  c_ptr :: nat
  c_src :: nat

definition write_literal :: "wBitStream \<Rightarrow> byte \<Rightarrow> wBitStream option" where
  "write_literal bs b =
     (if b < 0x80 then BitStream_Write_Bits bs (ucast b) 8
      else BitStream_Write_Bits bs (0x100 OR (ucast b AND 0x7F)) 9)"

definition write_copy_offset :: "u32 \<Rightarrow> wBitStream \<Rightarrow> u32 \<Rightarrow> wBitStream option" where
  "write_copy_offset level bs off =
     (if level \<noteq> 0 then
        if off < 64 then BitStream_Write_Bits bs (0x07C0 OR (off AND 0x003F)) 11
        else if off \<ge> 64 \<and> off < 320 then BitStream_Write_Bits bs (0x1E00 OR ((off - 64) AND 0x00FF)) 13
        else if off \<ge> 320 \<and> off < 2368 then BitStream_Write_Bits bs (0x7000 OR ((off - 320) AND 0x07FF)) 15
        else BitStream_Write_Bits bs (0x060000 OR ((off - 2368) AND 0xFFFF)) 19
      else
        if off < 64 then BitStream_Write_Bits bs (0x03C0 OR (off AND 0x003F)) 10
        else if off \<ge> 64 \<and> off < 320 then BitStream_Write_Bits bs (0x0E00 OR ((off - 64) AND 0x00FF)) 12
        else if off \<ge> 320 \<and> off < 8192 then BitStream_Write_Bits bs (0xC000 OR ((off - 320) AND 0x1FFF)) 16
        else Some bs)"

definition write_match_length :: "u32 \<Rightarrow> wBitStream \<Rightarrow> u32 \<Rightarrow> wBitStream option" where
  "write_match_length level bs len =
     (if len = 3 then BitStream_Write_Bits bs 0 1
      else if len \<ge> 4 \<and> len < 8 then BitStream_Write_Bits bs (0x0008 OR (len AND 0x0003)) 4
      else if len \<ge> 8 \<and> len < 16 then BitStream_Write_Bits bs (0x0030 OR (len AND 0x0007)) 6
      else if len \<ge> 16 \<and> len < 32 then BitStream_Write_Bits bs (0x00E0 OR (len AND 0x000F)) 8
      else if len \<ge> 32 \<and> len < 64 then BitStream_Write_Bits bs (0x03C0 OR (len AND 0x001F)) 10
      else if len \<ge> 64 \<and> len < 128 then BitStream_Write_Bits bs (0x0F80 OR (len AND 0x003F)) 12
      else if len \<ge> 128 \<and> len < 256 then BitStream_Write_Bits bs (0x3F00 OR (len AND 0x007F)) 14
      else if len \<ge> 256 \<and> len < 512 then BitStream_Write_Bits bs (0xFE00 OR (len AND 0x00FF)) 16
      else if len \<ge> 512 \<and> len < 1024 then BitStream_Write_Bits bs (0x3FC00 OR (len AND 0x01FF)) 18
      else if len \<ge> 1024 \<and> len < 2048 then BitStream_Write_Bits bs (0xFF800 OR (len AND 0x03FF)) 20
      else if len \<ge> 2048 \<and> len < 4096 then BitStream_Write_Bits bs (0x3FF000 OR (len AND 0x07FF)) 22
      else if len \<ge> 4096 \<and> len < 8192 then BitStream_Write_Bits bs (0xFFE000 OR (len AND 0x0FFF)) 24
      else if len \<ge> 8192 \<and> len < 16384 \<and> level \<noteq> 0 then BitStream_Write_Bits bs (0x3FFC000 OR (len AND 0x1FFF)) 26
      else if len \<ge> 16384 \<and> len < 32768 \<and> level \<noteq> 0 then BitStream_Write_Bits bs (0xFFF8000 OR (len AND 0x3FFF)) 28
      else if len \<ge> 32768 \<and> len < 65536 \<and> level \<noteq> 0 then BitStream_Write_Bits bs (0x3FFF0000 OR (len AND 0x7FFF)) 30
      else Some bs)"

text \<open>Reading the history relative to a match; the byte before the array is \<open>front\<close>.\<close>

definition history_at :: "byte \<Rightarrow> byte list \<Rightarrow> int \<Rightarrow> byte option" where
  "history_at front h i = (if i = - 1 then Some front else if 0 \<le> i \<and> nat i < length h then Some (h ! nat i) else None)"

definition no_match :: "byte \<Rightarrow> byte list \<Rightarrow> nat \<Rightarrow> nat \<Rightarrow> nat \<Rightarrow> byte \<Rightarrow> byte \<Rightarrow> byte \<Rightarrow> bool option" where
  "no_match front h m hi ptr sym1 sym2 sym3 = do {
     b1 \<leftarrow> history_at front h (int m - 1);
     (if sym1 \<noteq> b1 then Some True
      else do {
        b2 \<leftarrow> history_at front h (int m);
        (if sym2 \<noteq> b2 then Some True
         else do {
           b3 \<leftarrow> history_at front h (int m + 1);
           Some (sym3 \<noteq> b3 \<or> m + 1 > hi \<or> m = 0 \<or> m = ptr - 1 \<or> m = ptr) }) }) }"

partial_function (option) extend_match ::
  "byte list \<Rightarrow> nat \<Rightarrow> nat \<Rightarrow> nat \<Rightarrow> u32 \<Rightarrow> byte list \<Rightarrow> nat \<Rightarrow> (nat \<times> u32 \<times> byte list \<times> nat) option" where
  [code]: "extend_match src hi i m len h ptr =
     (if i < length src \<and> m < length h then
        if src ! i = h ! m \<and> i < length src - 1 \<and> m \<le> hi then do {
          h \<leftarrow> put_history h ptr (src ! i);
          extend_match src hi (i + 1) (m + 1) (len + 1) h (ptr + 1) }
        else Some (i, len, h, ptr)
      else None)"

text \<open>One round of the main loop; \<open>Inl\<close> is the way out when the destination is too small.\<close>

definition compress_symbol ::
  "byte \<Rightarrow> u32 \<Rightarrow> u32 \<Rightarrow> u32 \<Rightarrow> byte list \<Rightarrow> compressor \<Rightarrow> (wBitStream + compressor) option" where
  "compress_symbol front level hsize dst_size src c = do {
     let i = c_src c;
     let sym1 = src ! i; let sym2 = src ! (i + 1); let sym3 = src ! (i + 2);
     h \<leftarrow> put_history (c_hist c) (c_ptr c) sym1;
     let ptr = c_ptr c + 1;
     let idx = unat (MPPC_MATCH_INDEX sym1 sym2 sym3);
     let m = unat (c_match c ! idx);
     let c = c\<lparr>c_hist := h, c_ptr := ptr, c_src := i + 1,
               c_match := (if m \<noteq> ptr - 1 then (c_match c)[idx := word_of_nat ptr] else c_match c), c_top := max (c_top c) ptr\<rparr>;
     lit \<leftarrow> no_match front h m (c_top c) ptr sym1 sym2 sym3;
     (if lit then
        if bs_position (c_bs c) div 8 + 2 > dst_size - 1 then Some (Inl (c_bs c))
        else do { bs \<leftarrow> write_literal (c_bs c) sym1; Some (Inr (c\<lparr>c_bs := bs\<rparr>)) }
      else do {
        let off = (hsize - 1) AND word_of_int (int ptr - int m);
        h \<leftarrow> put_history h ptr sym2;
        h \<leftarrow> put_history h (ptr + 1) sym3;
        (i', len, h, ptr) \<leftarrow> extend_match src (c_top c) (i + 3) (m + 2) 3 h (ptr + 2);
        (if bs_position (c_bs c) div 8 + 7 > dst_size - 1 then Some (Inl (c_bs c))
         else do {
           bs \<leftarrow> write_copy_offset level (c_bs c) off;
           bs \<leftarrow> write_match_length level bs len;
           Some (Inr (c\<lparr>c_bs := bs, c_hist := h, c_ptr := ptr, c_src := i'\<rparr>)) }) }) }"

partial_function (option) compress_loop ::
  "byte \<Rightarrow> u32 \<Rightarrow> u32 \<Rightarrow> u32 \<Rightarrow> byte list \<Rightarrow> compressor \<Rightarrow> (wBitStream + compressor) option" where
  [code]: "compress_loop front level hsize dst_size src c =
     (if int (c_src c) < int (length src) - 3 then do {
        r \<leftarrow> compress_symbol front level hsize dst_size src c;
        (case r of Inl bs \<Rightarrow> Some (Inl bs) | Inr c \<Rightarrow> compress_loop front level hsize dst_size src c) }
      else Some (Inr c))"

fun compress_tail :: "u32 \<Rightarrow> byte list \<Rightarrow> compressor \<Rightarrow> (wBitStream + compressor) option" where
  "compress_tail dst_size [] c = Some (Inr c)"
| "compress_tail dst_size (b # bs) c =
     (if bs_position (c_bs c) div 8 + 2 > dst_size - 1 then Some (Inl (c_bs c))
      else do {
        s \<leftarrow> write_literal (c_bs c) b;
        h \<leftarrow> put_history (c_hist c) (c_ptr c) b;
        compress_tail dst_size bs (c\<lparr>c_bs := s, c_hist := h, c_ptr := c_ptr c + 1, c_src := c_src c + 1\<rparr>) })"

text \<open>
  The result is the output with its flags, and the context. \<open>dst\<close> is the caller's buffer, whose size the caller
  passes along.
\<close>

definition mppc_compress :: "byte \<Rightarrow> MPPC_CONTEXT \<Rightarrow> byte list \<Rightarrow> byte list \<Rightarrow> (byte list \<times> u32 \<times> MPPC_CONTEXT) option" where
  "mppc_compress front mppc src dst = do {
     let level = CompressionLevel mppc;
     let hsize = HistoryBufferSize mppc;
     let SrcSize = (word_of_nat (length src) :: u32);
     let front_packet = (\<not> (HistoryOffset mppc + SrcSize < hsize - 3 \<and> HistoryOffset mppc \<noteq> 0));
     let flushed = (front_packet \<and> HistoryOffset mppc = hsize + 1);
     let offset = (if front_packet then 0 else HistoryOffset mppc);
     let DstSize = (if word_of_nat (length dst) > SrcSize then SrcSize else word_of_nat (length dst));
     let c = \<lparr>c_bs = BitStream_Attach (m_bs mppc) dst DstSize, c_hist = HistoryBuffer mppc, c_match = MatchBuffer mppc,
               c_top = HistoryPtr mppc, c_ptr = unat offset, c_src = 0\<rparr>;
     r \<leftarrow> compress_loop front level hsize DstSize src c;
     r \<leftarrow> (case r of Inl bs \<Rightarrow> Some (Inl bs) | Inr c \<Rightarrow> compress_tail DstSize (drop (c_src c) src) c);
     (case r of
        Inl bs \<Rightarrow> Some (src, PACKET_FLUSHED OR level, mppc_context_reset (mppc\<lparr>m_bs := bs\<rparr>) True)
      | Inr c \<Rightarrow> do {
          bs \<leftarrow> BitStream_Flush (c_bs c);
          Some (take (unat ((bs_position bs + 7) div 8)) (bs_buffer bs),
            PACKET_COMPRESSED OR level OR (if front_packet then PACKET_AT_FRONT else 0) OR (if flushed then PACKET_FLUSHED else 0),
            mppc\<lparr>m_bs := bs, HistoryBuffer := c_hist c, MatchBuffer := c_match c, HistoryPtr := c_ptr c, HistoryOffset := word_of_nat (c_ptr c)\<rparr>) }) }"

end
