(* ===== verification/Mppc_Codes.thy ===== *)
theory Mppc_Codes
  imports Mppc
begin

text \<open>
  The prefix codes of \<open>Mppc\<close>: what the compressor writes for an offset or a length is what the decompressor
  recognises at the front of its accumulator, with the same number of bits. A test of the highest bits is read as a
  comparison of quotients, so that the codes are a matter of linear arithmetic.
\<close>

lemma unat_take_bit: "unat (take_bit m (x :: u32)) = unat x mod 2 ^ m"
  by (subst unsigned_take_bit_eq) (rule take_bit_eq_mod)

lemma unat_drop: "unat (drop_bit k (x :: u32)) = unat x div 2 ^ k"
  by (subst unat_drop_bit_eq) (rule drop_bit_eq_div)

lemma top_test:
  assumes "M = NOT (mask k)" "take_bit k c = 0" "unat c div 2 ^ k = q"
  shows "(acc AND M = c) = (unat (acc :: u32) div 2 ^ k = q)"
proof -
  have a: "acc AND NOT (mask k) = push_bit k (drop_bit k acc)" by (rule bit_word_eqI) (auto simp: bit_simps)
  have c: "c = push_bit k (drop_bit k c)" using bits_ident [of k c] assms(2) by simp
  have "(push_bit k (drop_bit k acc) = push_bit k (drop_bit k c)) = (drop_bit k acc = drop_bit k c)"
  proof
    assume "push_bit k (drop_bit k acc) = push_bit k (drop_bit k c)"
    then have "drop_bit k (push_bit k (drop_bit k acc)) = drop_bit k (push_bit k (drop_bit k c))" by simp
    moreover have "drop_bit k (push_bit k (drop_bit k x)) = drop_bit k x" for x :: u32 by (rule bit_word_eqI) (auto simp: bit_simps dest: bit_u32)
    ultimately show "drop_bit k acc = drop_bit k c" by simp
  qed simp
  also have "\<dots> = (unat acc div 2 ^ k = q)" by (simp add: word_unat_eq_iff unat_drop assms(3))
  finally show ?thesis using assms(1) a c by simp
qed

lemma or_low:
  assumes "M = mask m" "take_bit m c = 0" "unat c = q"
  shows "unat ((c :: u32) OR (x AND M)) = q + unat x mod 2 ^ m"
proof -
  have "c AND take_bit m x = take_bit m c AND x" by (rule bit_word_eqI) (auto simp: bit_simps)
  then have z: "c AND take_bit m x = 0" using assms(2) by simp
  have "unat c AND unat (take_bit m x) = unat (c AND take_bit m x)" by (simp add: unsigned_and_eq)
  then have "unat c AND unat (take_bit m x) = 0" by (simp add: z)
  then have "unat c + unat (take_bit m x) = unat c OR unat (take_bit m x)" by (rule disjunctive_add_eq_or)
  then have "unat (c OR take_bit m x) = unat c + unat (take_bit m x)" by (simp add: unsigned_or_eq)
  moreover have "x AND M = take_bit m x" using assms(1) by (simp add: take_bit_eq_mask)
  ultimately show ?thesis by (simp add: unat_take_bit assms(3))
qed

lemma field:
  assumes "M = mask m"
  shows "unat (drop_bit k acc AND M) = unat (acc :: u32) div 2 ^ k mod 2 ^ m"
proof -
  have "drop_bit k acc AND M = take_bit m (drop_bit k acc)" using assms by (simp add: take_bit_eq_mask)
  then show ?thesis by (simp add: unat_take_bit unat_drop)
qed

definition codes :: "u32 \<Rightarrow> u32 \<Rightarrow> (u32 \<Rightarrow> (u32 \<times> u32) option) \<Rightarrow> u32 \<Rightarrow> bool" where
  "codes v n rd x \<longleftrightarrow> 0 < unat n \<and> unat n < 32 \<and> unat v < 2 ^ unat n \<and>
     (\<forall>acc. unat acc div 2 ^ (32 - unat n) = unat v \<longrightarrow> rd acc = Some (x, n))"

lemma test_simps:
  fixes acc :: u32
  shows
  "(acc AND 0x80000000 = 0) = (unat acc div 2 ^ 31 = 0)"
  "(acc AND 0xC0000000 = 0x80000000) = (unat acc div 2 ^ 30 = 2)"
  "(acc AND 0xE0000000 = 0xC0000000) = (unat acc div 2 ^ 29 = 6)"
  "(acc AND 0xF0000000 = 0xE0000000) = (unat acc div 2 ^ 28 = 14)"
  "(acc AND 0xF8000000 = 0xF0000000) = (unat acc div 2 ^ 27 = 30)"
  "(acc AND 0xFC000000 = 0xF8000000) = (unat acc div 2 ^ 26 = 62)"
  "(acc AND 0xFE000000 = 0xFC000000) = (unat acc div 2 ^ 25 = 126)"
  "(acc AND 0xFF000000 = 0xFE000000) = (unat acc div 2 ^ 24 = 254)"
  "(acc AND 0xFF800000 = 0xFF000000) = (unat acc div 2 ^ 23 = 510)"
  "(acc AND 0xFFC00000 = 0xFF800000) = (unat acc div 2 ^ 22 = 1022)"
  "(acc AND 0xFFE00000 = 0xFFC00000) = (unat acc div 2 ^ 21 = 2046)"
  "(acc AND 0xFFF00000 = 0xFFE00000) = (unat acc div 2 ^ 20 = 4094)"
  "(acc AND 0xFFF80000 = 0xFFF00000) = (unat acc div 2 ^ 19 = 8190)"
  "(acc AND 0xFFFC0000 = 0xFFF80000) = (unat acc div 2 ^ 18 = 16382)"
  "(acc AND 0xFFFE0000 = 0xFFFC0000) = (unat acc div 2 ^ 17 = 32766)"
  "(acc AND 0xF8000000 = 0xF8000000) = (unat acc div 2 ^ 27 = 31)"
  "(acc AND 0xF0000000 = 0xF0000000) = (unat acc div 2 ^ 28 = 15)"
  "(acc AND 0xC0000000 = 0xC0000000) = (unat acc div 2 ^ 30 = 3)"
  by (rule top_test; simp add: mask_eq_exp_minus_1)+

lemma div_deeper: "(a :: nat) div 2 ^ b = c \<Longrightarrow> b \<le> k \<Longrightarrow> a div 2 ^ k = c div 2 ^ (k - b)"
  by (metis div_mult2_eq le_add_diff_inverse power_add)

lemma codes_row:
  assumes "unat n = p + m" "0 < p" "p + m < 32" "unat v = P * 2 ^ m + d" "d < 2 ^ m" "P < 2 ^ p"
    and rd: "\<And>acc. unat acc div 2 ^ (32 - p) = P \<Longrightarrow> unat acc div 2 ^ (32 - (p + m)) mod 2 ^ m = d \<Longrightarrow> rd acc = Some (x, n)"
  shows "codes v n rd x"
proof -
  have "P * 2 ^ m + d < (P + 1) * 2 ^ m" using assms(5) by simp
  also have "\<dots> \<le> 2 ^ p * 2 ^ m" using assms(6) by (intro mult_right_mono) auto
  finally have v: "unat v < 2 ^ (p + m)" using assms(4) by (simp add: power_add)
  have "rd acc = Some (x, n)" if h: "unat acc div 2 ^ (32 - (p + m)) = unat v" for acc
  proof (rule rd)
    have "32 - p - (32 - (p + m)) = m" using assms(3) by simp
    then show "unat acc div 2 ^ (32 - p) = P" using div_deeper [OF h, of "32 - p"] assms(4,5) by simp
    show "unat acc div 2 ^ (32 - (p + m)) mod 2 ^ m = d" using h assms(4,5) by simp
  qed
  then show ?thesis using v assms(1-3) by (simp add: codes_def)
qed

section \<open>Lengths\<close>

lemma small_cases:
  "2 \<le> (j :: nat) \<Longrightarrow> j \<le> 15 \<Longrightarrow> j = 2 \<or> j = 3 \<or> j = 4 \<or> j = 5 \<or> j = 6 \<or> j = 7 \<or> j = 8 \<or> j = 9 \<or> j = 10 \<or> j = 11 \<or> j = 12 \<or> j = 13 \<or> j = 14 \<or> j = 15"
  by presburger

lemma read_length_row:
  assumes j: "2 \<le> j" "j \<le> (if level \<noteq> 0 then 15 else 12)" and a: "unat acc div 2 ^ (32 - j) = 2 ^ j - 2"
  shows "read_match_length level acc = Some ((drop_bit (32 - 2 * j) acc AND mask j) + push_bit j 1, word_of_nat (2 * j))"
proof -
  have j': "j \<le> 15" "12 < j \<Longrightarrow> level \<noteq> 0" using j(2) by (auto split: if_splits)
  have ones: "unat acc div 2 ^ k = 2 ^ (32 - k) - 1" if k: "32 - j < k" "k < 32" for k
  proof -
    define r where "r = k - (32 - j)"
    define s where "s = 32 - k"
    have rs: "j = r + s" "1 \<le> r" "1 \<le> s" using k j'(1) by (auto simp: r_def s_def)
    have y: "(2 :: nat) \<le> 2 ^ r" "(2 :: nat) ^ r \<le> 2 ^ r * 2 ^ s" using power_increasing [OF rs(2), of "2 :: nat"] by simp_all
    have "2 ^ j - 2 = 2 ^ r * (2 ^ s - 1) + (2 ^ r - 2 :: nat)" unfolding rs(1) power_add diff_mult_distrib2 using y by arith
    moreover have "(2 ^ r * (2 ^ s - 1) + (2 ^ r - 2)) div 2 ^ r = (2 :: nat) ^ s - 1" by (simp add: div_mult_self4)
    ultimately show ?thesis using div_deeper [OF a, of k, folded r_def] k(1) unfolding s_def by simp
  qed
  define q where "q k = unat acc div 2 ^ k" for k
  have qd: "unat acc div 2 ^ k = q k" for k by (simp add: q_def)
  note q1 = ones [unfolded qd]
  note ds = q1 [of 31] q1 [of 30] q1 [of 29] q1 [of 28] q1 [of 27] q1 [of 26] q1 [of 25] q1 [of 24] q1 [of 23] q1 [of 22] q1 [of 21] q1 [of 20] q1 [of 19] q1 [of 18]
  from small_cases [OF j(1) j'(1)] show ?thesis unfolding read_match_length_def test_simps qd
    by (elim disjE) (use j'(2) a [unfolded qd] ds in \<open>simp_all add: mask_eq_exp_minus_1\<close>)
qed

lemma write_length_row:
  assumes j: "2 \<le> j" "j \<le> (if level \<noteq> 0 then 15 else 12)" and l: "2 ^ j \<le> unat len" "unat len < 2 ^ (j + 1)"
  shows "write_match_length level bs len = BitStream_Write_Bits bs (word_of_nat ((2 ^ j - 2) * 2 ^ j) OR (len AND mask j)) (word_of_nat (2 * j))"
proof -
  have j': "j \<le> 15" "12 < j \<Longrightarrow> level \<noteq> 0" using j(2) by (auto split: if_splits)
  have "len \<noteq> 3" using l(1) power_increasing [OF j(1), of "2 :: nat"] by auto
  from small_cases [OF j(1) j'(1)] show ?thesis unfolding write_match_length_def word_le_nat_alt word_less_nat_alt
    by (elim disjE) (use j'(2) l \<open>len \<noteq> 3\<close> in \<open>simp_all add: mask_eq_exp_minus_1\<close>)
qed

lemma match_length_codes:
  assumes "3 \<le> unat len" "unat len < (if level \<noteq> 0 then 65536 else 8192)"
  shows "\<exists>v n. codes v n (read_match_length level) len \<and> unat n \<le> 30 \<and> (\<forall>bs. write_match_length level bs len = BitStream_Write_Bits bs v n)"
proof (cases "unat len = 3")
  case True
  then have l: "len = 3" by (simp add: word_unat_eq_iff)
  have "codes 0 1 (read_match_length level) len"
    by (rule codes_row [where p = 1 and m = 0 and P = 0 and d = 0]) (simp_all add: read_match_length_def test_simps l)
  then show ?thesis using l by (intro exI [of _ 0] exI [of _ 1]) (simp add: write_match_length_def)
next
  case False
  obtain j where j: "2 ^ j \<le> unat len" "unat len < 2 ^ (j + 1)" using ex_power_ivl1 [of 2 "unat len"] assms(1) by auto
  have "(2 :: nat) ^ 2 < 2 ^ (j + 1)" using j(2) False assms(1) by simp
  then have j2: "2 \<le> j" using power_less_imp_less_exp [of "2 :: nat" 2 "j + 1"] by simp
  have "unat len < 2 ^ (if level \<noteq> 0 then 16 else 13)" using assms(2) by (cases "level = 0") simp_all
  from le_less_trans [OF j(1) this] have "j < (if level \<noteq> 0 then 16 else 13)" by (rule power_less_imp_less_exp [rotated]) simp
  then have jl: "j \<le> (if level \<noteq> 0 then 15 else 12)" "j \<le> 15" by (auto split: if_splits)
  let ?v = "word_of_nat ((2 ^ j - 2) * 2 ^ j) OR (len AND mask j) :: u32" let ?n = "word_of_nat (2 * j) :: u32"
  have l16: "unat len < 65536" using assms(2) by (auto split: if_splits)
  have m: "unat len mod 2 ^ j = unat len - 2 ^ j" using j by (simp add: mod_if [of "unat len"])
  have P: "(2 ^ j - 2) * 2 ^ j < (2 :: nat) ^ 32"
  proof -
    have le: "(2 :: nat) ^ j \<le> 2 ^ 15" using jl(2) by (rule power_increasing) simp
    have "(2 ^ j - 2) * 2 ^ j \<le> (2 :: nat) ^ 15 * 2 ^ 15" by (rule mult_le_mono [OF le_trans [OF diff_le_self le] le])
    then show ?thesis by simp
  qed
  then have u: "unat (word_of_nat ((2 ^ j - 2) * 2 ^ j) :: u32) = (2 ^ j - 2) * 2 ^ j" by (intro unat_of_nat_eq) simp
  have n: "unat ?n = j + j" using jl(2) by (subst unat_of_nat_eq) simp_all
  have v: "unat ?v = (2 ^ j - 2) * 2 ^ j + (unat len - 2 ^ j)"
    using or_low [OF refl _ u, of j len] m u by (simp add: word_unat_eq_iff unat_take_bit)
  have "codes ?v ?n (read_match_length level) len"
  proof (rule codes_row [where p = j and m = j and P = "2 ^ j - 2" and d = "unat len - 2 ^ j", OF n _ _ v])
    fix acc :: u32 assume h: "unat acc div 2 ^ (32 - j) = 2 ^ j - 2" "unat acc div 2 ^ (32 - (j + j)) mod 2 ^ j = unat len - 2 ^ j"
    have "unat (push_bit j 1 :: u32) = 2 ^ j" using jl(2) by (simp add: unat_of_nat_eq [of "2 ^ j", simplified])
    then have "(drop_bit (32 - 2 * j) acc AND mask j) + push_bit j 1 = len"
      using l16 h(2) j jl(2) field [OF refl, of "32 - 2 * j" acc j] by (simp add: word_unat_eq_iff unat_word_ariths mult_2)
    then show "read_match_length level acc = Some (len, ?n)" using read_length_row [OF j2 jl(1) h(1)] by simp
  qed (use j j2 jl in auto)
  then show ?thesis using write_length_row [OF j2 jl(1) j] n jl(2) by (intro exI [of _ ?v] exI [of _ ?n]) simp
qed

section \<open>Offsets and literals\<close>

lemma or_simps:
  fixes x :: u32
  shows
  "unat (0x07C0 OR (x AND 0x003F)) = 0x07C0 + unat x mod 2 ^ 6"
  "unat (0x1E00 OR (x AND 0x00FF)) = 0x1E00 + unat x mod 2 ^ 8"
  "unat (0x7000 OR (x AND 0x07FF)) = 0x7000 + unat x mod 2 ^ 11"
  "unat (0x060000 OR (x AND 0xFFFF)) = 0x060000 + unat x mod 2 ^ 16"
  "unat (0x03C0 OR (x AND 0x003F)) = 0x03C0 + unat x mod 2 ^ 6"
  "unat (0x0E00 OR (x AND 0x00FF)) = 0x0E00 + unat x mod 2 ^ 8"
  "unat (0xC000 OR (x AND 0x1FFF)) = 0xC000 + unat x mod 2 ^ 13"
  "unat (0x100 OR (x AND 0x7F)) = 0x100 + unat x mod 2 ^ 7"
  by (rule or_low; simp add: mask_eq_exp_minus_1)+

lemma field_simps_32:
  fixes acc :: u32
  shows
  "unat (drop_bit k acc AND 0x3F) = unat acc div 2 ^ k mod 2 ^ 6"
  "unat (drop_bit k acc AND 0xFF) = unat acc div 2 ^ k mod 2 ^ 8"
  "unat (drop_bit k acc AND 0x7FF) = unat acc div 2 ^ k mod 2 ^ 11"
  "unat (drop_bit k acc AND 0xFFFF) = unat acc div 2 ^ k mod 2 ^ 16"
  "unat (drop_bit k acc AND 0x1FFF) = unat acc div 2 ^ k mod 2 ^ 13"
  by (rule field; simp add: mask_eq_exp_minus_1)+

text \<open>The rows of the table of offsets: the prefix \<open>P\<close> of \<open>p\<close> bits, the field \<open>y\<close> of \<open>m\<close> bits.\<close>

lemma deeper_not:
  assumes "(a :: nat) div 2 ^ (b + k) = c" "c \<noteq> c' div 2 ^ k"
  shows "a div 2 ^ b \<noteq> c'"
  using div_deeper [of a b c' "b + k"] assms by auto

lemma offset_row_5:
  fixes y :: u32
  shows
    "level \<noteq> 0 \<Longrightarrow> unat y < 64 \<Longrightarrow> codes (0x07C0 OR (y AND 0x003F)) 11 (read_copy_offset level) y"
    "level \<noteq> 0 \<Longrightarrow> unat y < 256 \<Longrightarrow> codes (0x1E00 OR (y AND 0x00FF)) 13 (read_copy_offset level) (y + 64)"
    "level \<noteq> 0 \<Longrightarrow> unat y < 2048 \<Longrightarrow> codes (0x7000 OR (y AND 0x07FF)) 15 (read_copy_offset level) (y + 320)"
    "level \<noteq> 0 \<Longrightarrow> unat y < 65536 \<Longrightarrow> codes (0x060000 OR (y AND 0xFFFF)) 19 (read_copy_offset level) (y + 2368)"
proof -
  assume l: "level \<noteq> 0"
  note rd = read_copy_offset_def test_simps
  show "codes (0x07C0 OR (y AND 0x003F)) 11 (read_copy_offset level) y" if "unat y < 64"
    by (rule codes_row [where p = 5 and m = 6 and P = 31 and d = "unat y"])
      (use l that in \<open>simp_all add: or_simps rd word_unat_eq_iff [of _ y] field_simps_32\<close>)
  show "codes (0x1E00 OR (y AND 0x00FF)) 13 (read_copy_offset level) (y + 64)" if "unat y < 256"
    by (rule codes_row [where p = 5 and m = 8 and P = 30 and d = "unat y"])
      (use l that in \<open>simp_all add: or_simps rd word_unat_eq_iff [of _ y] field_simps_32\<close>)
  show "codes (0x7000 OR (y AND 0x07FF)) 15 (read_copy_offset level) (y + 320)" if "unat y < 2048"
    by (rule codes_row [where p = 4 and m = 11 and P = 14 and d = "unat y"])
      (use l that deeper_not [of _ 27 1 14 31] deeper_not [of _ 27 1 14 30] in \<open>simp_all add: or_simps rd word_unat_eq_iff [of _ y] field_simps_32\<close>)
  show "codes (0x060000 OR (y AND 0xFFFF)) 19 (read_copy_offset level) (y + 2368)" if "unat y < 65536"
    by (rule codes_row [where p = 3 and m = 16 and P = 6 and d = "unat y"])
      (use l that deeper_not [of _ 27 2 6 31] deeper_not [of _ 27 2 6 30] deeper_not [of _ 28 1 6 14] in \<open>simp_all add: or_simps rd word_unat_eq_iff [of _ y] field_simps_32\<close>)
qed

lemma offset_row_4:
  fixes y :: u32
  shows
    "unat y < 64 \<Longrightarrow> codes (0x03C0 OR (y AND 0x003F)) 10 (read_copy_offset 0) y"
    "unat y < 256 \<Longrightarrow> codes (0x0E00 OR (y AND 0x00FF)) 12 (read_copy_offset 0) (y + 64)"
    "unat y < 8192 \<Longrightarrow> codes (0xC000 OR (y AND 0x1FFF)) 16 (read_copy_offset 0) (y + 320)"
proof -
  note rd = read_copy_offset_def test_simps
  show "codes (0x03C0 OR (y AND 0x003F)) 10 (read_copy_offset 0) y" if "unat y < 64"
    by (rule codes_row [where p = 4 and m = 6 and P = 15 and d = "unat y"])
      (use that in \<open>simp_all add: or_simps rd word_unat_eq_iff [of _ y] field_simps_32\<close>)
  show "codes (0x0E00 OR (y AND 0x00FF)) 12 (read_copy_offset 0) (y + 64)" if "unat y < 256"
    by (rule codes_row [where p = 4 and m = 8 and P = 14 and d = "unat y"])
      (use that in \<open>simp_all add: or_simps rd word_unat_eq_iff [of _ y] field_simps_32\<close>)
  show "codes (0xC000 OR (y AND 0x1FFF)) 16 (read_copy_offset 0) (y + 320)" if "unat y < 8192"
    by (rule codes_row [where p = 3 and m = 13 and P = 6 and d = "unat y"])
      (use that deeper_not [of _ 28 1 6 15] deeper_not [of _ 28 1 6 14] in \<open>simp_all add: or_simps rd word_unat_eq_iff [of _ y] field_simps_32\<close>)
qed

definition offset_code :: "(wBitStream \<Rightarrow> wBitStream option) \<Rightarrow> u32 \<Rightarrow> u32 \<Rightarrow> u32 \<Rightarrow> u32 \<Rightarrow> bool" where
  "offset_code wr level off v n \<longleftrightarrow> codes v n (read_copy_offset level) off \<and> 10 \<le> unat n \<and> unat n \<le> 19 \<and>
     3 * 2 ^ (unat n - 2) \<le> unat v \<and> wr = (\<lambda>bs. BitStream_Write_Bits bs v n)"

lemma copy_offset_codes:
  assumes "unat off < (if level \<noteq> 0 then 65536 else 8192)"
  shows "\<exists>v n. offset_code (\<lambda>bs. write_copy_offset level bs off) level off v n"
proof -
  have s: "unat (off - 64) = unat off - 64" if "64 \<le> unat off" using that by (simp add: unat_sub word_le_nat_alt)
  have s': "unat (off - 320) = unat off - 320" if "320 \<le> unat off" using that by (simp add: unat_sub word_le_nat_alt)
  have s'': "unat (off - 2368) = unat off - 2368" if "2368 \<le> unat off" using that by (simp add: unat_sub word_le_nat_alt)
  note w = write_copy_offset_def word_le_nat_alt word_less_nat_alt
  show ?thesis
  proof (cases "level = 0")
    case True
    consider "unat off < 64" | "64 \<le> unat off" "unat off < 320" | "320 \<le> unat off" by linarith
    then show ?thesis
    proof cases
      case 1
      then show ?thesis using True offset_row_4(1) [of off] by (intro exI) (auto simp: offset_code_def w or_simps)
    next
      case 2
      then show ?thesis using True offset_row_4(2) [of "off - 64"] s by (intro exI) (auto simp: offset_code_def w or_simps)
    next
      case 3
      then show ?thesis using True offset_row_4(3) [of "off - 320"] s' assms by (intro exI) (auto simp: offset_code_def w or_simps)
    qed
  next
    case False
    consider "unat off < 64" | "64 \<le> unat off" "unat off < 320" | "320 \<le> unat off" "unat off < 2368" | "2368 \<le> unat off" by linarith
    then show ?thesis
    proof cases
      case 1
      then show ?thesis using False offset_row_5(1) [of level off] by (intro exI) (auto simp: offset_code_def w or_simps)
    next
      case 2
      then show ?thesis using False offset_row_5(2) [of level "off - 64"] s by (intro exI) (auto simp: offset_code_def w or_simps)
    next
      case 3
      then show ?thesis using False offset_row_5(3) [of level "off - 320"] s' by (intro exI) (auto simp: offset_code_def w or_simps)
    next
      case 4
      then show ?thesis using False offset_row_5(4) [of level "off - 2368"] s'' assms by (intro exI) (auto simp: offset_code_def w or_simps)
    qed
  qed
qed

end
