(* ===== verification/Mppc_Decode.thy ===== *)
theory Mppc_Decode
  imports Mppc_Codes
begin

text \<open>
  What the bits of a compressed packet mean: \<open>mppc_token\<close> is one literal or one copy, \<open>decodes\<close> a sequence of them, as
  steps on the pointer and the history. The decompressor follows these steps to their end.
\<close>

section \<open>Reading codes\<close>

definition reads :: "wBitStream \<Rightarrow> byte list \<Rightarrow> nat \<Rightarrow> bool list \<Rightarrow> bool" where
  "reads bs B n ws \<longleftrightarrow> reading bs \<and> cap_bytes bs = B \<and> unat (bs_position bs) = n \<and> n + length ws \<le> 2 ^ 23 \<and>
     (\<forall>i < length ws. nth_bit B (n + i) = ws ! i)"

lemma reads_value:
  assumes "reads bs B n (bits_of k v @ ws)" "0 < k" "k \<le> 32" "unat v < 2 ^ k"
  shows "unat (bs_accumulator bs) div 2 ^ (32 - k) = unat v"
proof -
  have acc: "\<And>i. i < 32 \<Longrightarrow> bit (bs_accumulator bs) i = nth_bit B (n + 31 - i)"
    and w: "\<And>i. i < k + length ws \<Longrightarrow> nth_bit B (n + i) = (bits_of k v @ ws) ! i"
    using assms(1) by (auto simp: reads_def reading_def)
  have "drop_bit (32 - k) (bs_accumulator bs) = v"
  proof (rule bit_word_eqI)
    fix i :: nat assume "i < LENGTH(32)"
    show "bit (drop_bit (32 - k) (bs_accumulator bs)) i = bit v i"
    proof (cases "i < k")
      case True
      then have "n + 31 - (32 - k + i) = n + (k - 1 - i)" "32 - k + i < 32" "k - 1 - i < k" "k - 1 - (k - 1 - i) = i" using assms(3) by simp_all
      then show ?thesis using acc [of "32 - k + i"] w [of "k - 1 - i"] by (simp add: bit_simps nth_append nth_bits_of)
    next
      case False
      then have "\<not> bit v i" "\<not> bit (bs_accumulator bs) (32 - k + i)" using bit_below [OF assms(4)] bit_u32 [of "bs_accumulator bs" "32 - k + i"] assms(3) by auto
      then show ?thesis by (simp add: bit_simps)
    qed
  qed
  then show ?thesis by (metis unat_drop)
qed

lemma reads_shift:
  assumes "reads bs B n (u @ ws)" "length u = unat k" "0 < unat k" "unat k < 32"
  shows "\<exists>bs'. BitStream_Shift bs k = Some bs' \<and> reads bs' B (n + unat k) ws"
proof -
  have r: "reading bs" "cap_bytes bs = B" "unat (bs_position bs) = n" "n + (unat k + length ws) \<le> 2 ^ 23"
    and w: "\<And>i. i < unat k + length ws \<Longrightarrow> nth_bit B (n + i) = (u @ ws) ! i" using assms(1,2) by (auto simp: reads_def)
  obtain bs' where b: "BitStream_Shift bs k = Some bs'" "reading bs'" "bs_position bs' = bs_position bs + k" "cap_bytes bs' = B"
    using shift_reading [OF r(1) refl assms(3,4)] r by auto
  have "unat (bs_position bs') = n + unat k" using r(3,4) b(3) by (simp add: unat_word_ariths)
  moreover have "nth_bit B (n + unat k + i) = ws ! i" if "i < length ws" for i
    using w [of "unat k + i"] that assms(2) by (simp add: nth_append add.assoc)
  ultimately have "reads bs' B (n + unat k) ws" using b(2,4) r(4) by (simp add: reads_def)
  then show ?thesis using b(1) by blast
qed

lemma reads_remaining:
  assumes "reads bs B n ws" "n \<le> 8 * length B"
  shows "8 \<le> BitStream_GetRemainingLength bs \<longleftrightarrow> n + 8 \<le> 8 * length B"
proof -
  have a: "attached bs" "cap_bytes bs = B" "unat (bs_position bs) = n" using assms(1) by (auto simp: reads_def reading_def)
  then have l: "unat (bs_capacity bs) = length B" "length B \<le> 2 ^ 20" by (auto simp: attached_def cap_bytes_def)
  have "unat (bs_length bs) = 8 * length B" using a(1) l by (simp add: attached_def unat_word_ariths)
  then have "unat (BitStream_GetRemainingLength bs) = 8 * length B - n"
    using a(3) assms(2) by (simp add: BitStream_GetRemainingLength_def unat_sub word_le_nat_alt)
  then show ?thesis using assms(2) by (auto simp: word_le_nat_alt)
qed

lemma attach_reading:
  assumes "length src \<le> 2 ^ 20"
  shows "\<exists>bs'. BitStream_Fetch (BitStream_Attach bs src (word_of_nat (length src))) = Some bs' \<and> reading bs' \<and> bs_position bs' = 0 \<and> cap_bytes bs' = src"
proof -
  let ?b = "BitStream_Attach bs src (word_of_nat (length src))"
  have u: "unat (word_of_nat (length src) :: u32) = length src" using assms by (intro unat_of_nat_eq) simp
  have "attached ?b" using assms u by (simp add: attached_def BitStream_Attach_def)
  moreover have "cap_bytes ?b = src" using u by (simp add: cap_bytes_def BitStream_Attach_def)
  moreover have "bs_position ?b = 0" "bs_offset ?b = 0" "bs_pointer ?b = 0" by (simp_all add: BitStream_Attach_def)
  ultimately show ?thesis using fetch_reading [of ?b] by auto
qed

section \<open>Tokens\<close>

definition literal_bits :: "byte \<Rightarrow> bool list" where
  "literal_bits b = (if b < 0x80 then bits_of 8 (ucast b) else bits_of 9 (0x100 OR (ucast b AND 0x7F)))"

definition copy_source :: "u32 \<Rightarrow> nat \<Rightarrow> u32 \<Rightarrow> nat" where
  "copy_source level ptr off = nat ((int ptr - uint off) mod (if level \<noteq> 0 then 0x10000 else 0x2000))"

inductive mppc_token :: "u32 \<Rightarrow> nat \<Rightarrow> bool list \<Rightarrow> nat \<times> byte list \<Rightarrow> nat \<times> byte list \<Rightarrow> bool" for level hsize where
  literal: "ptr < hsize \<Longrightarrow> ptr < length h \<Longrightarrow> mppc_token level hsize (literal_bits b) (ptr, h) (ptr + 1, h[ptr := b])"
| copy: "codes v n (read_copy_offset level) off \<Longrightarrow> 10 \<le> unat n \<Longrightarrow> 3 * 2 ^ (unat n - 2) \<le> unat v \<Longrightarrow>
    codes w m (read_match_length level) len \<Longrightarrow> 3 \<le> unat len \<Longrightarrow> ptr + unat len \<le> hsize \<Longrightarrow>
    copy_match (copy_source level ptr off) ptr (unat len) h = Some h' \<Longrightarrow>
    mppc_token level hsize (bits_of (unat n) v @ bits_of (unat m) w) (ptr, h) (ptr + unat len, h')"

inductive decodes :: "u32 \<Rightarrow> nat \<Rightarrow> bool list \<Rightarrow> nat \<times> byte list \<Rightarrow> nat \<times> byte list \<Rightarrow> bool" for level hsize where
  nil: "decodes level hsize [] s s"
| step: "mppc_token level hsize w s s' \<Longrightarrow> decodes level hsize ws s' s'' \<Longrightarrow> decodes level hsize (w @ ws) s s''"

lemma decodes_append:
  "decodes level hsize ws s s' \<Longrightarrow> decodes level hsize us s' s'' \<Longrightarrow> decodes level hsize (ws @ us) s s''"
  by (induction rule: decodes.induct) (auto intro: decodes.step)

lemma decodes_snoc: "decodes level hsize ws s s' \<Longrightarrow> mppc_token level hsize w s' s'' \<Longrightarrow> decodes level hsize (ws @ w) s s''"
  using decodes_append [OF _ decodes.step [OF _ decodes.nil]] by fastforce

lemma token_length: "mppc_token level hsize w s s' \<Longrightarrow> 8 \<le> length w"
  by (induction rule: mppc_token.induct) (auto simp: literal_bits_def)

lemma unat_ucast_byte: "unat (ucast (b :: byte) :: u32) = unat b"
  using unsigned_less [of b, where ?'a = nat] by (simp add: unsigned_ucast_eq take_bit_nat_eq_self)

lemma ucast_back: "unat (x :: u32) = unat (b :: byte) \<Longrightarrow> ucast x = b"
proof -
  assume "unat x = unat b"
  then have "x = ucast b" by (simp add: word_unat_eq_iff unat_ucast_byte)
  then show ?thesis by (simp add: ucast_up_ucast_id is_up)
qed

lemma literal_fields:
  fixes acc :: u32
  shows "unat (drop_bit 24 (acc AND 0x7F000000)) = unat acc div 2 ^ 24 mod 2 ^ 7"
    and "unat (drop_bit 23 (acc AND 0x3F800000) + 0x80) = unat acc div 2 ^ 23 mod 2 ^ 7 + 128"
proof -
  show "unat (drop_bit 24 (acc AND 0x7F000000)) = unat acc div 2 ^ 24 mod 2 ^ 7"
    unfolding drop_bit_and by (rule field) (simp add: mask_eq_exp_minus_1)
  have f: "unat (drop_bit 23 (acc AND 0x3F800000)) = unat acc div 2 ^ 23 mod 2 ^ 7"
    unfolding drop_bit_and by (rule field) (simp add: mask_eq_exp_minus_1)
  have "unat acc div 2 ^ 23 mod 2 ^ 7 < 128" by simp
  then show "unat (drop_bit 23 (acc AND 0x3F800000) + 0x80) = unat acc div 2 ^ 23 mod 2 ^ 7 + 128"
    unfolding unat_word_ariths f by simp
qed

lemma marked: "m < 128 \<Longrightarrow> (256 + m) div 256 = (1 :: nat)" "m < 128 \<Longrightarrow> (256 + m) div 128 = (2 :: nat)" "m < 128 \<Longrightarrow> (256 + m) mod 128 = (m :: nat)"
  by (simp_all add: mod_if)

lemma high_half_bits:
  assumes "128 \<le> b" "b < (256 :: nat)"
  shows "(256 + b mod 128) mod 128 + 128 = b"
proof -
  have "b mod 128 = b - 128" using assms mod_if [of b 128] mod_less [of "b - 128" 128] by simp
  then show ?thesis using marked(3) [of "b - 128"] assms by simp
qed

lemma copy_decoded:
  assumes "codes v n (read_copy_offset level) off" "codes w m (read_match_length level) len" "3 \<le> unat len" "ptr + unat len \<le> hsize"
    and "copy_match (copy_source level ptr off) ptr (unat len) h = Some h'" "reads bs B p (bits_of (unat n) v @ bits_of (unat m) w @ ws)"
  shows "\<exists>bs'. decompress_copy level hsize bs ptr h = Some (Inr (ptr + unat len, h', bs')) \<and> reads bs' B (p + unat n + unat m) ws"
proof -
  have v: "0 < unat n" "unat n < 32" "unat v < 2 ^ unat n" "0 < unat m" "unat m < 32" "unat w < 2 ^ unat m"
    and rd: "\<And>acc. unat acc div 2 ^ (32 - unat n) = unat v \<Longrightarrow> read_copy_offset level acc = Some (off, n)"
      "\<And>acc. unat acc div 2 ^ (32 - unat m) = unat w \<Longrightarrow> read_match_length level acc = Some (len, m)"
    using assms(1,2) by (auto simp: codes_def)
  obtain b1 where b1: "BitStream_Shift bs n = Some b1" "reads b1 B (p + unat n) (bits_of (unat m) w @ ws)"
    using reads_shift [OF assms(6) _ v(1,2)] by auto
  obtain b2 where b2: "BitStream_Shift b1 m = Some b2" "reads b2 B (p + unat n + unat m) ws"
    using reads_shift [OF b1(2) _ v(4,5)] by auto
  have r1: "read_copy_offset level (bs_accumulator bs) = Some (off, n)" using rd(1) reads_value [OF assms(6) v(1) _ v(3)] v(2) by simp
  have r2: "read_match_length level (bs_accumulator b1) = Some (len, m)" using rd(2) reads_value [OF b1(2) v(4) _ v(6)] v(5) by simp
  have "\<not> ptr + unat len - 1 > hsize - 1" using assms(3,4) by simp
  then have "decompress_copy level hsize bs ptr h = Some (Inr (ptr + unat len, h', b2))"
    using assms(5) b1(1) b2(1) r1 r2 unfolding decompress_copy_def copy_source_def by (simp add: Let_def)
  then show ?thesis using b2(2) by blast
qed

lemma token_decoded:
  assumes "mppc_token level hsize w (ptr, h) (ptr', h')" "reads bs B n (w @ ws)"
  shows "\<exists>bs'. decompress_token level hsize bs ptr h = Some (Inr (ptr', h', bs')) \<and> reads bs' B (n + length w) ws"
  using assms(1)
proof cases
  case (literal b)
  show ?thesis
  proof (cases "b < 0x80")
    case True
    have l: "w = bits_of 8 (ucast b)" "unat b < 128" using True literal(1) by (simp_all add: literal_bits_def word_less_nat_alt)
    have v: "unat (bs_accumulator bs) div 2 ^ 24 = unat b" using reads_value [of bs B n 8 "ucast b" ws] assms(2) l by (simp add: unat_ucast_byte)
    then have a: "unat (bs_accumulator bs) div 2 ^ 31 = 0" using div_deeper [OF v, of 31] l(2) by simp
    obtain bs' where b': "BitStream_Shift bs 8 = Some bs'" "reads bs' B (n + 8) ws" using reads_shift [of bs B n w ws 8] assms(2) l by auto
    have "unat (drop_bit 24 (bs_accumulator bs AND 0x7F000000)) = unat b" unfolding literal_fields v using l(2) by simp
    then have "ucast (drop_bit 24 (bs_accumulator bs AND 0x7F000000)) = b" by (rule ucast_back)
    then have "decompress_token level hsize bs ptr h = Some (Inr (ptr', h', bs'))"
      unfolding decompress_token_def Let_def test_simps using literal(2-) a b'(1) by (simp add: put_history_def)
    moreover have "length w = 8" by (simp add: l(1))
    ultimately show ?thesis using b'(2) by simp
  next
    case False
    let ?v = "0x100 OR (ucast b AND 0x7F) :: u32"
    have l: "w = bits_of 9 ?v" "128 \<le> unat b" "unat b < 256"
      using False literal(1) unsigned_less [of b, where ?'a = nat] by (simp_all add: literal_bits_def word_less_nat_alt)
    have u: "unat ?v = 256 + unat b mod 128" by (simp add: or_simps unat_ucast_byte)
    have v: "unat (bs_accumulator bs) div 2 ^ 23 = 256 + unat b mod 128" using reads_value [of bs B n 9 ?v ws] assms(2) l(1) u by simp
    then have a: "unat (bs_accumulator bs) div 2 ^ 31 = 1" "unat (bs_accumulator bs) div 2 ^ 30 = 2"
      using div_deeper [OF v, of 31] div_deeper [OF v, of 30] marked [of "unat b mod 128"] by simp_all
    obtain bs' where b': "BitStream_Shift bs 9 = Some bs'" "reads bs' B (n + 9) ws" using reads_shift [of bs B n w ws 9] assms(2) l by auto
    have "(256 + unat b mod 128) mod 2 ^ 7 + 128 = unat b" using high_half_bits [OF l(2,3)] by simp
    then have "unat (drop_bit 23 (bs_accumulator bs AND 0x3F800000) + 0x80) = unat b" unfolding literal_fields v by simp
    then have "ucast (drop_bit 23 (bs_accumulator bs AND 0x3F800000) + 0x80) = b" by (rule ucast_back)
    then have "decompress_token level hsize bs ptr h = Some (Inr (ptr', h', bs'))"
      unfolding decompress_token_def Let_def test_simps using literal(2-) a b'(1) by (simp add: put_history_def)
    moreover have "length w = 9" by (simp add: l(1))
    ultimately show ?thesis using b'(2) by simp
  qed
next
  case (copy v k off w' m len)
  have k: "0 < unat k" "unat k < 32" "unat v < 2 ^ unat k" using copy(3) by (auto simp: codes_def)
  have rw: "reads bs B n (bits_of (unat k) v @ bits_of (unat m) w' @ ws)" using assms(2) copy(1) by simp
  have v: "unat (bs_accumulator bs) div 2 ^ (32 - unat k) = unat v" using reads_value [OF rw k(1) _ k(3)] k(2) by simp
  have "(2 :: nat) ^ unat k = 4 * 2 ^ (unat k - 2)" using copy(4) le_add_diff_inverse [of 2 "unat k"] power_add [of "2 :: nat" 2 "unat k - 2"] by simp
  then have "unat v div 2 ^ (unat k - 2) = 3" using k(3) copy(5) by (intro div_nat_eqI) simp_all
  moreover have "30 - (32 - unat k) = unat k - 2" using k(2) by simp
  ultimately have a: "unat (bs_accumulator bs) div 2 ^ 30 = 3" using div_deeper [OF v, of 30] copy(4) by simp
  then have "unat (bs_accumulator bs) div 2 ^ 31 = 1" using div_deeper [OF a, of 31] by simp
  moreover obtain bs' where "decompress_copy level hsize bs ptr h = Some (Inr (ptr + unat len, h', bs'))" "reads bs' B (n + unat k + unat m) ws"
    using copy_decoded [OF copy(3,6,7,8,9) rw] by blast
  ultimately show ?thesis using a copy(1,2,7,8) unfolding decompress_token_def Let_def test_simps
    by (intro exI [of _ bs']) (simp add: add.assoc)
qed

lemma decodes_loop:
  assumes "decodes level hsize ws s s'" "reads bs B n ws" "n + length ws \<le> 8 * length B" "8 * length B < n + length ws + 8"
  shows "\<exists>bs'. decompress_loop level hsize bs (fst s) (snd s) = Some (1, fst s', snd s', bs')"
  using assms
proof (induction arbitrary: bs n rule: decodes.induct)
  case (nil s)
  then have "\<not> 8 \<le> BitStream_GetRemainingLength bs" using reads_remaining [OF nil(1)] by simp
  then show ?case by (subst decompress_loop.simps) simp
next
  case (step w s s' ws s'')
  obtain ptr h ptr' h' where s: "s = (ptr, h)" "s' = (ptr', h')" by (cases s, cases s')
  obtain b1 where b1: "decompress_token level hsize bs ptr h = Some (Inr (ptr', h', b1))" "reads b1 B (n + length w) ws"
    using token_decoded step.hyps(1) step.prems(1) s by blast
  have "8 \<le> BitStream_GetRemainingLength bs"
    using reads_remaining [OF step.prems(1)] step.prems(2) token_length [OF step.hyps(1)] by simp
  then have "decompress_loop level hsize bs ptr h = decompress_loop level hsize b1 ptr' h'" using b1(1) by (subst decompress_loop.simps) simp
  then show ?case using step.IH [OF b1(2)] step.prems(2,3) s by simp
qed


end
