(* ===== verification/Mppc_Encode.thy ===== *)
theory Mppc_Encode
  imports Mppc_Decode
begin

text \<open>
  The compressor of \<open>Mppc\<close>: every round writes the bits of a token that leads from the history before it to the
  history after it, and the history receives the source. So the bits of a packet decode to the source.
\<close>

section \<open>The history as a buffer that is written\<close>

definition overwrite :: "byte list \<Rightarrow> nat \<Rightarrow> byte list \<Rightarrow> byte list" where
  "overwrite h p xs = take p h @ xs @ drop (p + length xs) h"

lemma length_overwrite [simp]: "p + length xs \<le> length h \<Longrightarrow> length (overwrite h p xs) = length h"
  by (simp add: overwrite_def)

lemma overwrite_Nil [simp]: "overwrite h p [] = h"
  by (simp add: overwrite_def)

lemma overwrite_append:
  "p + length xs + length ys \<le> length h \<Longrightarrow> overwrite (overwrite h p xs) (p + length xs) ys = overwrite h p (xs @ ys)"
  by (simp add: overwrite_def ac_simps)

lemma update_overwrite: "p < length h \<Longrightarrow> h[p := b] = overwrite h p [b]"
  by (simp add: overwrite_def upd_conv_take_nth_drop)

lemma overwrite_snoc:
  "p + length xs < length h \<Longrightarrow> (overwrite h p xs)[p + length xs := b] = overwrite h p (xs @ [b])"
  using overwrite_append [of p xs "[b]" h] by (simp add: update_overwrite)

lemma overwrite_read: "p + length xs \<le> length h \<Longrightarrow> take (length xs) (drop p (overwrite h p xs)) = xs"
  by (simp add: overwrite_def)

lemma overwrite_take_Suc:
  "i < length src \<Longrightarrow> p + length src \<le> length h \<Longrightarrow>
    (overwrite h p (take i src))[p + i := src ! i] = overwrite h p (take (Suc i) src)"
  using overwrite_snoc [of p "take i src" h "src ! i"] by (simp add: take_Suc_conv_app_nth)

section \<open>Matches\<close>

lemma copy_match_add:
  "copy_match s d (a + b) h = do { h \<leftarrow> copy_match s d a h; copy_match (s + a) (d + a) b h }"
  by (induction a arbitrary: s d h) auto

lemma copy_match_length: "copy_match s d n h = Some h' \<Longrightarrow> length h' = length h"
  by (induction s d n h rule: copy_match.induct) (auto split: if_splits)

lemma extend_match_ok:
  assumes "i < length src" "m \<le> hi + 1" "hi + 1 < length h" "ptr + (length src - i) \<le> length h"
  shows "\<exists>k h'. extend_match src hi i m len h ptr = Some (i + k, len + word_of_nat k, h', ptr + k) \<and> i + k < length src \<and>
    copy_match m ptr k h = Some h' \<and> h' = overwrite h ptr (take k (drop i src))"
  using assms
proof (induction "length src - i" arbitrary: i m len h ptr)
  case 0
  then show ?case by simp
next
  case (Suc n)
  have m: "m < length h" using Suc.prems by simp
  show ?case
  proof (cases "src ! i = h ! m \<and> i < length src - 1 \<and> m \<le> hi")
    case True
    have p: "ptr < length h" using Suc.prems by simp
    let ?h = "h[ptr := src ! i]"
    have pr: "n = length src - (i + 1)" "i + 1 < length src" "m + 1 \<le> hi + 1" "hi + 1 < length ?h" "ptr + 1 + (length src - (i + 1)) \<le> length ?h"
      using Suc.hyps(2) Suc.prems True by auto
    obtain k h' where k: "extend_match src hi (i + 1) (m + 1) (len + 1) ?h (ptr + 1) = Some (i + 1 + k, len + 1 + word_of_nat k, h', ptr + 1 + k)"
        "i + 1 + k < length src" "copy_match (m + 1) (ptr + 1) k ?h = Some h'" "h' = overwrite ?h (ptr + 1) (take k (drop (i + 1) src))"
      using Suc.hyps(1) [OF pr, of "len + 1"] by blast
    have e: "extend_match src hi i m len h ptr = Some (i + Suc k, len + word_of_nat (Suc k), h', ptr + Suc k)"
      using k(1) True m p Suc.prems(1) by (subst extend_match.simps) (simp add: put_history_def algebra_simps)
    have c: "copy_match m ptr (Suc k) h = Some h'" using k(3) True m p by simp
    have "length (take k (drop (i + 1) src)) = k" using k(2) by simp
    then have "h' = overwrite h ptr (take (Suc k) (drop i src))"
      using k(2,4) p Suc.prems(1,4) overwrite_append [of ptr "[src ! i]" "take k (drop (i + 1) src)" h]
      by (simp add: update_overwrite Cons_nth_drop_Suc [symmetric])
    then show ?thesis using e c k(2) by (intro exI [of _ "Suc k"] exI [of _ h']) simp
  next
    case False
    then have "extend_match src hi i m len h ptr = Some (i, len, h, ptr)" using m Suc.prems(1) by (subst extend_match.simps) auto
    then show ?thesis using Suc.prems(1) by (intro exI [of _ 0] exI [of _ h]) simp
  qed
qed

lemma first_three:
  assumes "1 \<le> m" "m \<noteq> ptr" "m \<noteq> ptr + 1" "m + 1 < length h" "ptr + 2 < length h"
    and "h1 = h[ptr := s1]" "s1 = h1 ! (m - 1)" "s2 = h1 ! m" "s3 = h1 ! (m + 1)"
  shows "copy_match (m - 1) ptr 3 h = Some (h1[ptr + 1 := s2, ptr + 2 := s3])"
proof -
  have "ptr \<noteq> m - 1" using assms(1,3) by simp
  then have "(h[ptr := s1]) ! (m - 1) = h ! (m - 1)" by (rule nth_list_update_neq)
  then have "h ! (m - 1) = s1" using assms(6,7) by metis
  then have c1: "h[ptr := h ! (m - 1)] = h1" using assms(6) by metis
  have l: "length h1 = length h" unfolding assms(6) by simp
  have c2: "h1[ptr + 1 := h1 ! m] = h1[ptr + 1 := s2]" unfolding assms(8) by (rule refl)
  have c3: "(h1[ptr + 1 := s2]) ! (m + 1) = s3" unfolding assms(9) using assms(2) by simp
  have "m - 1 + 1 = m" using assms(1) by simp
  then show ?thesis unfolding numeral_3_eq_3 copy_match.simps using assms(4,5) l c1 c2 c3 by simp
qed

lemma no_match_ok:
  assumes "m + 1 < length h"
  shows "\<exists>lit. no_match front h m hi ptr s1 s2 s3 = Some lit \<and>
    (\<not> lit \<longrightarrow> 1 \<le> m \<and> m + 1 \<le> hi \<and> m \<noteq> ptr - 1 \<and> m \<noteq> ptr \<and> s1 = h ! (m - 1) \<and> s2 = h ! m \<and> s3 = h ! (m + 1))"
proof -
  have a: "\<exists>b. history_at front h (int m - 1) = Some b \<and> (1 \<le> m \<longrightarrow> b = h ! (m - 1))"
    using assms by (cases m) (auto simp: history_at_def)
  have b: "history_at front h (int m) = Some (h ! m)" "history_at front h (int m + 1) = Some (h ! (m + 1))"
    using assms by (auto simp: history_at_def nat_add_distrib)
  show ?thesis using a unfolding no_match_def b by (auto simp: Suc_le_eq split: if_splits)
qed

definition window :: "u32 \<Rightarrow> nat" where
  "window level = (if level \<noteq> 0 then 65536 else 8192)"

lemma copy_offset:
  assumes "unat hsize = window level" "1 \<le> m" "m \<le> window level" and off: "off = (hsize - 1) AND word_of_int (int (ptr + 1) - int m)"
  shows "unat off < window level" "copy_source level ptr off = m - 1"
proof -
  define k :: nat where "k = (if level \<noteq> 0 then 16 else 13)"
  have k: "window level = 2 ^ k" "k \<le> 16" by (simp_all add: k_def window_def)
  have "hsize = 2 ^ k" using assms(1) by (cases "level = 0") (simp_all add: window_def k_def word_unat_eq_iff)
  moreover define x where "x = int (ptr + 1) - int m"
  ultimately have "off = take_bit k (word_of_int x)" using off by (simp add: take_bit_eq_mask mask_eq_exp_minus_1 and.commute)
  then have "uint off = take_bit k (take_bit 32 x)" by (simp add: unsigned_take_bit_eq uint_word_of_int_eq)
  moreover have "take_bit k (take_bit 32 x) = take_bit k x" using k(2) unfolding take_bit_take_bit by (simp add: min_def)
  ultimately have u: "uint off = (int (ptr + 1) - int m) mod 2 ^ k" unfolding x_def by (metis take_bit_eq_mod)
  then show "unat off < window level" unfolding k(1) by (simp add: unat_eq_nat_uint nat_less_iff)
  have "(int ptr - uint off) mod 2 ^ k = (int m - 1) mod 2 ^ k" unfolding u by (simp add: mod_diff_right_eq algebra_simps)
  also have "\<dots> = int m - 1"
  proof (rule mod_pos_pos_trivial)
    have "int m \<le> int (2 ^ k)" using assms(3) k(1) by (simp only: of_nat_le_iff)
    then have "int m \<le> 2 ^ k" by (simp only: of_nat_power of_nat_numeral)
    then show "int m - 1 < 2 ^ k" by linarith
  qed (use assms(2) in simp)
  finally show "copy_source level ptr off = m - 1" unfolding copy_source_def using assms(2) by (simp add: k_def split: if_splits)
qed

section \<open>One packet\<close>

definition compressing :: "u32 \<Rightarrow> u32 \<Rightarrow> nat \<Rightarrow> nat \<Rightarrow> byte list \<Rightarrow> byte list \<Rightarrow> compressor \<Rightarrow> bool" where
  "compressing level cap N p h0 src c \<longleftrightarrow>
     (\<exists>ws. writing (c_bs c) ws \<and> length ws \<le> 8 * unat cap \<and> decodes level (window level) ws (p, h0) (c_ptr c, c_hist c)) \<and>
     bs_capacity (c_bs c) = cap \<and> length (bs_buffer (c_bs c)) = N \<and> 1 \<le> unat cap \<and> unat cap \<le> 2 ^ 20 \<and> length h0 = 65536 \<and> p + length src + 4 \<le> window level \<and>
     c_src c \<le> length src \<and> c_ptr c = p + c_src c \<and> c_hist c = overwrite h0 p (take (c_src c) src) \<and>
     c_top c + 4 \<le> window level \<and> length (c_match c) = 32768 \<and> (\<forall>x \<in> set (c_match c). unat x + 4 \<le> window level)"

lemma window_le: "window level \<le> 65536"
  by (simp add: window_def)

lemma literal_written:
  assumes "writing bs ws" "length ws + 9 \<le> 2 ^ 24"
  shows "\<exists>bs'. write_literal bs b = Some bs' \<and> writing bs' (ws @ literal_bits b) \<and> bs_capacity bs' = bs_capacity bs \<and>
    length (bs_buffer bs') = length (bs_buffer bs)"
proof (cases "b < 0x80")
  case True
  then have "unat (ucast b :: u32) < 2 ^ 8" by (simp add: unat_ucast_byte word_less_nat_alt)
  then show ?thesis using True write_writing [OF assms(1), of 8 8 "ucast b"] assms(2) by (auto simp: write_literal_def literal_bits_def)
next
  case False
  have "unat (0x100 OR (ucast b AND 0x7F) :: u32) < 2 ^ 9" unfolding or_simps using mod_less_divisor [of "2 ^ 7" "unat (ucast b :: u32)"] by simp
  then show ?thesis using False write_writing [OF assms(1), of 9 9 "0x100 OR (ucast b AND 0x7F)"] assms(2)
    by (auto simp: write_literal_def literal_bits_def)
qed

text \<open>The checks of the space left in the destination.\<close>

lemma room:
  fixes cap pos k :: u32
  assumes "\<not> pos div 8 + k > cap - 1" "1 \<le> unat cap" "unat k < 2 ^ 31"
  shows "unat pos + 8 * unat k \<le> 8 * unat cap"
proof -
  have "unat (pos div 8 + k) = unat pos div 8 + unat k"
    using assms(3) unsigned_less [of pos, where ?'a = nat] by (simp add: unat_word_ariths unat_div)
  then have "unat pos div 8 + unat k \<le> unat cap - 1" using assms(1,2) by (simp add: word_less_nat_alt unat_sub word_le_nat_alt)
  then show ?thesis using assms(2) by linarith
qed

lemma match_index: "unat (MPPC_MATCH_INDEX a b c) < 32768"
proof -
  define x where "x = push_bit 16 (MPPC_MATCH_TABLE ! unat c) + push_bit 8 (MPPC_MATCH_TABLE ! unat b) + MPPC_MATCH_TABLE ! unat a"
  have "MPPC_MATCH_INDEX a b c = drop_bit 12 x AND 0x7FFF" unfolding MPPC_MATCH_INDEX_def x_def [symmetric] by (simp add: drop_bit_and)
  moreover have "unat (drop_bit 12 x AND 0x7FFF) = unat x div 2 ^ 12 mod 2 ^ 15" by (rule field) (simp add: mask_eq_exp_minus_1)
  ultimately show ?thesis by simp
qed

lemma copy_written:
  assumes "writing bs ws" "length ws + 49 \<le> 2 ^ 24" "unat off < window level" "3 \<le> unat len" "unat len < window level"
    and "ptr + unat len \<le> window level" "copy_match (copy_source level ptr off) ptr (unat len) h = Some h'"
  shows "\<exists>bs' bs'' w. write_copy_offset level bs off = Some bs' \<and> write_match_length level bs' len = Some bs'' \<and> writing bs'' (ws @ w) \<and>
    length w \<le> 49 \<and> bs_capacity bs'' = bs_capacity bs \<and> length (bs_buffer bs'') = length (bs_buffer bs) \<and> mppc_token level (window level) w (ptr, h) (ptr + unat len, h')"
proof -
  obtain v n where v: "offset_code (\<lambda>bs. write_copy_offset level bs off) level off v n"
    using copy_offset_codes [of off level] assms(3) by (auto simp: window_def)
  obtain x m where x: "codes x m (read_match_length level) len" "unat m \<le> 30" "\<And>bs. write_match_length level bs len = BitStream_Write_Bits bs x m"
    using match_length_codes [OF assms(4), of level] assms(5) by (auto simp: window_def)
  have c: "codes v n (read_copy_offset level) off" "10 \<le> unat n" "unat n \<le> 19" "3 * 2 ^ (unat n - 2) \<le> unat v"
      "\<And>bs. write_copy_offset level bs off = BitStream_Write_Bits bs v n"
    using v by (auto simp: offset_code_def dest: fun_cong)
  have vn: "0 < unat n" "unat n < 32" "unat v < 2 ^ unat n" and xm: "0 < unat m" "unat m < 32" "unat x < 2 ^ unat m"
    using c(1) x(1) by (auto simp: codes_def)
  obtain b1 where b1: "BitStream_Write_Bits bs v n = Some b1" "writing b1 (ws @ bits_of (unat n) v)" "bs_capacity b1 = bs_capacity bs"
      "length (bs_buffer b1) = length (bs_buffer bs)"
    using write_writing [OF assms(1) refl vn] c(3) assms(2) by auto
  obtain b2 where b2: "BitStream_Write_Bits b1 x m = Some b2" "writing b2 ((ws @ bits_of (unat n) v) @ bits_of (unat m) x)" "bs_capacity b2 = bs_capacity b1"
      "length (bs_buffer b2) = length (bs_buffer b1)"
    using write_writing [OF b1(2) refl xm] x(2) c(3) assms(2) by auto
  have "mppc_token level (window level) (bits_of (unat n) v @ bits_of (unat m) x) (ptr, h) (ptr + unat len, h')"
    by (rule mppc_token.copy [OF c(1,2,4) x(1) assms(4,6,7)])
  then show ?thesis using b1 b2 c(3,5) x(2,3) by (intro exI [of _ b1] exI [of _ b2] exI [of _ "bits_of (unat n) v @ bits_of (unat m) x"]) simp
qed

lemma match_entry:
  assumes "\<forall>x \<in> set ms. unat x + 4 \<le> w" "n + 4 \<le> w"
  shows "\<forall>x \<in> set (if b then ms[idx := word_of_nat n] else ms). unat (x :: u16) + 4 \<le> w"
proof -
  have "unat (word_of_nat n :: u16) \<le> n" by (simp add: unat_of_nat)
  then have "unat (word_of_nat n :: u16) + 4 \<le> w" using assms(2) by simp
  then show ?thesis using assms(1) set_update_subset_insert [of ms idx "word_of_nat n"] by auto
qed

text \<open>A literal: the history has got the byte already, the bits follow if there is room.\<close>

lemma literal_ok:
  assumes "compressing level cap N p h0 src c" "c_src c < length src"
    and "c_top c' + 4 \<le> window level" "length (c_match c') = 32768" "\<forall>x \<in> set (c_match c'). unat x + 4 \<le> window level"
    and "c_hist c' = (c_hist c)[c_ptr c := src ! c_src c]" "c_ptr c' = c_ptr c + 1" "c_src c' = c_src c + 1" "c_bs c' = c_bs c"
    and "\<not> bs_position (c_bs c) div 8 + 2 > cap - 1"
  shows "\<exists>bs. write_literal (c_bs c) (src ! c_src c) = Some bs \<and> compressing level cap N p h0 src (c'\<lparr>c_bs := bs\<rparr>)"
proof -
  obtain ws where ws: "writing (c_bs c) ws" "length ws \<le> 8 * unat cap" "decodes level (window level) ws (p, h0) (c_ptr c, c_hist c)"
    and cap: "bs_capacity (c_bs c) = cap" "1 \<le> unat cap" "unat cap \<le> 2 ^ 20" "length (bs_buffer (c_bs c)) = N"
    and h: "length h0 = 65536" "p + length src + 4 \<le> window level" "c_ptr c = p + c_src c" "c_hist c = overwrite h0 p (take (c_src c) src)"
    using assms(1) by (auto simp: compressing_def)
  have "unat (bs_position (c_bs c)) = length ws" using ws(1) by (simp add: writing_def)
  then have fits: "length ws + 16 \<le> 8 * unat cap" using room [OF assms(10) cap(2)] by simp
  have lh: "length (c_hist c) = 65536" using h window_le [of level] by simp
  obtain bs where bs: "write_literal (c_bs c) (src ! c_src c) = Some bs" "writing bs (ws @ literal_bits (src ! c_src c))" "bs_capacity bs = cap" "length (bs_buffer bs) = N"
    using literal_written [OF ws(1), of "src ! c_src c"] fits cap by auto
  have "c_ptr c < window level" "c_ptr c < length (c_hist c)" using h assms(2) lh window_le [of level] by simp_all
  from mppc_token.literal [where b = "src ! c_src c" and level = level, OF this]
  have "decodes level (window level) (ws @ literal_bits (src ! c_src c)) (p, h0) (c_ptr c', c_hist c')"
    unfolding assms(6,7) by (rule decodes_snoc [OF ws(3)])
  moreover have "length (literal_bits (src ! c_src c)) \<le> 9" by (simp add: literal_bits_def)
  then have "length (ws @ literal_bits (src ! c_src c)) \<le> 8 * unat cap" using fits by simp
  moreover have "c_hist c' = overwrite h0 p (take (c_src c') src)"
    using overwrite_take_Suc [OF assms(2), of p h0] h window_le [of level] assms(6,8) by simp
  ultimately have "compressing level cap N p h0 src (c'\<lparr>c_bs := bs\<rparr>)" unfolding compressing_def
    using bs(2-4) cap h(1-3) assms(2-5,7,8) by auto
  then show ?thesis using bs(1) by blast
qed

text \<open>A copy: what the compressor has compared is what the decompressor copies.\<close>

lemma copy_history:
  assumes h: "h = overwrite h0 p (take i src)" "ptr = p + i" "i + 3 < length src" "p + length src < length h0" "hi + 1 < length h0"
    and m: "1 \<le> m" "m + 1 \<le> hi" "m \<noteq> ptr" "m \<noteq> ptr + 1"
    and h1: "h1 = h[ptr := src ! i]" "src ! i = h1 ! (m - 1)" "src ! (i + 1) = h1 ! m" "src ! (i + 2) = h1 ! (m + 1)"
    and h3: "h3 = h1[ptr + 1 := src ! (i + 1), ptr + 2 := src ! (i + 2)]"
  shows "\<exists>k h'. extend_match src hi (i + 3) (m + 2) 3 h3 (ptr + 3) = Some (i + 3 + k, 3 + word_of_nat k, h', ptr + 3 + k) \<and>
    i + 3 + k < length src \<and> copy_match (m - 1) ptr (3 + k) h = Some h' \<and> h' = overwrite h0 p (take (i + 3 + k) src)"
proof -
  have l: "length h = length h0" using h by simp
  have c3: "copy_match (m - 1) ptr 3 h = Some h3" unfolding h3
    by (rule first_three [OF m(1,3,4) _ _ h1]) (use l h m in simp_all)
  have "h1 = overwrite h0 p (take (Suc i) src)" unfolding h1(1) h(1,2) using overwrite_take_Suc [of i src p h0] h(3,4) by simp
  then have "h1[ptr + 1 := src ! (i + 1)] = overwrite h0 p (take (Suc (Suc i)) src)" unfolding h(2) using overwrite_take_Suc [of "Suc i" src p h0] h(3,4) by simp
  then have o3: "h3 = overwrite h0 p (take (i + 3) src)" unfolding h3 h(2)
    using overwrite_take_Suc [of "Suc (Suc i)" src p h0] h(3,4) by (simp add: numeral_3_eq_3)
  have l3: "length h3 = length h0" using o3 h(3,4) by simp
  obtain k h' where k: "extend_match src hi (i + 3) (m + 2) 3 h3 (ptr + 3) = Some (i + 3 + k, 3 + word_of_nat k, h', ptr + 3 + k)"
      "i + 3 + k < length src" "copy_match (m + 2) (ptr + 3) k h3 = Some h'" "h' = overwrite h3 (ptr + 3) (take k (drop (i + 3) src))"
    using extend_match_ok [of "i + 3" src "m + 2" hi h3 "ptr + 3" 3] h l3 m by auto
  have "m - 1 + 3 = m + 2" using m(1) by simp
  then have "copy_match (m - 1) ptr (3 + k) h = Some h'" using c3 k(3) unfolding copy_match_add by simp
  moreover have "h' = overwrite h0 p (take (i + 3 + k) src)"
    using overwrite_append [of p "take (i + 3) src" "take k (drop (i + 3) src)" h0] k(2) h(2,4) unfolding k(4) o3 take_add by (simp add: add.assoc)
  ultimately show ?thesis using k(1,2) by blast
qed

lemma copy_symbol_ok:
  assumes inv: "compressing level cap N p h0 src c" and i: "i = c_src c" "i + 3 < length src" and hs: "unat hsize = window level"
    and c': "c_top c' + 4 \<le> window level" "length (c_match c') = 32768" "\<forall>x \<in> set (c_match c'). unat x + 4 \<le> window level" "c_bs c' = c_bs c"
    and m: "1 \<le> m" "m + 1 \<le> c_top c'" "m \<noteq> c_ptr c" "m \<noteq> c_ptr c + 1" "m + 4 \<le> window level"
    and h1: "h1 = (c_hist c)[c_ptr c := src ! i]" "src ! i = h1 ! (m - 1)" "src ! (i + 1) = h1 ! m" "src ! (i + 2) = h1 ! (m + 1)"
    and h3: "h3 = h1[c_ptr c + 1 := src ! (i + 1), c_ptr c + 2 := src ! (i + 2)]"
    and off: "off = (hsize - 1) AND word_of_int (int (c_ptr c + 1) - int m)"
  shows "\<exists>i' len h4 ptr4. extend_match src (c_top c') (i + 3) (m + 2) 3 h3 (c_ptr c + 3) = Some (i', len, h4, ptr4) \<and> i < i' \<and>
    (\<not> bs_position (c_bs c) div 8 + 7 > cap - 1 \<longrightarrow> (\<exists>b1 b2. write_copy_offset level (c_bs c) off = Some b1 \<and>
       write_match_length level b1 len = Some b2 \<and> compressing level cap N p h0 src (c'\<lparr>c_bs := b2, c_hist := h4, c_ptr := ptr4, c_src := i'\<rparr>)))"
proof -
  obtain ws where ws: "writing (c_bs c) ws" "length ws \<le> 8 * unat cap" "decodes level (window level) ws (p, h0) (c_ptr c, c_hist c)"
    and cap: "bs_capacity (c_bs c) = cap" "1 \<le> unat cap" "unat cap \<le> 2 ^ 20" "length (bs_buffer (c_bs c)) = N"
    and h: "length h0 = 65536" "p + length src + 4 \<le> window level" "c_ptr c = p + c_src c" "c_hist c = overwrite h0 p (take (c_src c) src)"
    using inv by (auto simp: compressing_def)
  have "p + length src < length h0" "c_top c' + 1 < length h0" using h(1,2) c'(1) window_le [of level] by simp_all
  from copy_history [OF h(4,3) [folded i(1)] i(2) this m(1-4) h1 h3]
  obtain k h' where k: "extend_match src (c_top c') (i + 3) (m + 2) 3 h3 (c_ptr c + 3) = Some (i + 3 + k, 3 + word_of_nat k, h', c_ptr c + 3 + k)"
      "i + 3 + k < length src" "copy_match (m - 1) (c_ptr c) (3 + k) (c_hist c) = Some h'" "h' = overwrite h0 p (take (i + 3 + k) src)"
    by blast
  define len :: u32 where "len = 3 + word_of_nat k"
  have kw: "3 + k < window level" using k(2) h(2) by simp
  have "len = word_of_nat (3 + k)" by (simp add: len_def)
  then have ul: "unat len = 3 + k" using unat_of_nat_eq [of "3 + k", where 'a = 32] kw window_le [of level] by (simp del: of_nat_add)
  have so: "unat off < window level" "copy_source level (c_ptr c) off = m - 1" using copy_offset [OF hs m(1) _ off] m(5) by simp_all
  have "\<exists>b1 b2. write_copy_offset level (c_bs c) off = Some b1 \<and> write_match_length level b1 len = Some b2 \<and>
      compressing level cap N p h0 src (c'\<lparr>c_bs := b2, c_hist := h', c_ptr := c_ptr c + 3 + k, c_src := i + 3 + k\<rparr>)"
    if room7: "\<not> bs_position (c_bs c) div 8 + 7 > cap - 1"
  proof -
    have "unat (bs_position (c_bs c)) = length ws" using ws(1) by (simp add: writing_def)
    then have fits: "length ws + 56 \<le> 8 * unat cap" using room [OF room7 cap(2)] by simp
    have "c_ptr c + unat len \<le> window level" using ul k(2) h(2,3) i by simp
    then obtain b1 b2 w where b: "write_copy_offset level (c_bs c) off = Some b1" "write_match_length level b1 len = Some b2" "writing b2 (ws @ w)"
        "length w \<le> 49" "bs_capacity b2 = cap" "mppc_token level (window level) w (c_ptr c, c_hist c) (c_ptr c + (3 + k), h')" "length (bs_buffer b2) = N"
      using copy_written [OF ws(1), of off level len "c_ptr c" "c_hist c" h'] fits cap so ul kw k(3) by auto
    have "decodes level (window level) (ws @ w) (p, h0) (c_ptr c + (3 + k), h')" by (rule decodes_snoc [OF ws(3) b(6)])
    moreover have "length (ws @ w) \<le> 8 * unat cap" using fits b(4) by simp
    ultimately have "compressing level cap N p h0 src (c'\<lparr>c_bs := b2, c_hist := h', c_ptr := c_ptr c + 3 + k, c_src := i + 3 + k\<rparr>)"
      unfolding compressing_def using b(3,5,7) cap h(1-3) c' k(2,4) i by (auto simp: add.assoc)
    then show ?thesis using b(1,2) by blast
  qed
  then show ?thesis using k(1) [folded len_def] by auto
qed

lemma symbol_ok:
  assumes inv: "compressing level cap N p h0 src c" and i: "c_src c + 3 < length src" and hs: "unat hsize = window level"
  shows "\<exists>r. compress_symbol front level hsize cap src c = Some r \<and>
    (\<forall>bs. r = Inl bs \<longrightarrow> length (bs_buffer bs) = N) \<and>
    (\<forall>c'. r = Inr c' \<longrightarrow> compressing level cap N p h0 src c' \<and> c_src c < c_src c')"
proof -
  define ptr where "ptr = c_ptr c"
  define s where "s = c_src c"
  define h1 where "h1 = (c_hist c)[ptr := src ! s]"
  define idx where "idx = unat (MPPC_MATCH_INDEX (src ! s) (src ! (s + 1)) (src ! (s + 2)))"
  define m where "m = unat (c_match c ! idx)"
  define ms where "ms = (if m \<noteq> ptr + 1 - 1 then (c_match c)[idx := word_of_nat (ptr + 1)] else c_match c)"
  define c' where "c' = c\<lparr>c_hist := h1, c_ptr := ptr + 1, c_src := s + 1, c_match := ms, c_top := max (c_top c) (ptr + 1)\<rparr>"
  have f: "length h0 = 65536" "p + length src + 4 \<le> window level" "ptr = p + s" "c_hist c = overwrite h0 p (take s src)" "c_top c + 4 \<le> window level"
      "length (c_match c) = 32768" "\<forall>x \<in> set (c_match c). unat x + 4 \<le> window level" "length (bs_buffer (c_bs c)) = N"
    using inv by (auto simp: compressing_def ptr_def s_def)
  have si: "s + 3 < length src" using i by (simp add: s_def)
  have lh: "length (c_hist c) = 65536" "length h1 = 65536" using f window_le [of level] by (simp_all add: h1_def)
  have "idx < length (c_match c)" using match_index f(6) by (simp add: idx_def)
  then have mw: "m + 4 \<le> window level" using f(7) nth_mem by (auto simp: m_def)
  have cs: "c_top c' + 4 \<le> window level" "length (c_match c') = 32768" "\<forall>x \<in> set (c_match c'). unat x + 4 \<le> window level"
      "c_bs c' = c_bs c" "c_hist c' = h1" "c_ptr c' = ptr + 1" "c_src c' = s + 1"
    using f si match_entry [OF f(7), of "ptr + 1" "m \<noteq> ptr + 1 - 1" idx] by (simp_all add: c'_def ms_def)
  obtain lit where lit: "no_match front h1 m (c_top c') (ptr + 1) (src ! s) (src ! (s + 1)) (src ! (s + 2)) = Some lit"
      "\<not> lit \<Longrightarrow> 1 \<le> m \<and> m + 1 \<le> c_top c' \<and> m \<noteq> ptr \<and> m \<noteq> ptr + 1 \<and> src ! s = h1 ! (m - 1) \<and> src ! (s + 1) = h1 ! m \<and> src ! (s + 2) = h1 ! (m + 1)"
    using no_match_ok [of m h1 front "c_top c'" "ptr + 1"] mw lh window_le [of level] by fastforce
  have put1: "put_history (c_hist c) ptr (src ! s) = Some h1" using lh f si window_le [of level] by (simp add: put_history_def h1_def)
  have unf: "compress_symbol front level hsize cap src c =
     (if lit then if bs_position (c_bs c) div 8 + 2 > cap - 1 then Some (Inl (c_bs c))
        else do { bs \<leftarrow> write_literal (c_bs c) (src ! s); Some (Inr (c'\<lparr>c_bs := bs\<rparr>)) }
      else do {
        h \<leftarrow> put_history h1 (ptr + 1) (src ! (s + 1));
        h \<leftarrow> put_history h (ptr + 2) (src ! (s + 2));
        (i', len, h, ptr4) \<leftarrow> extend_match src (c_top c') (s + 3) (m + 2) 3 h (ptr + 3);
        (if bs_position (c_bs c) div 8 + 7 > cap - 1 then Some (Inl (c_bs c))
         else do {
           bs \<leftarrow> write_copy_offset level (c_bs c) ((hsize - 1) AND word_of_int (int (ptr + 1) - int m));
           bs \<leftarrow> write_match_length level bs len;
           Some (Inr (c'\<lparr>c_bs := bs, c_hist := h, c_ptr := ptr4, c_src := i'\<rparr>)) }) })"
  proof -
    have pl: "ptr + 1 + 1 = ptr + 2" "ptr + 1 + 2 = ptr + 3" by simp_all
    show ?thesis unfolding compress_symbol_def Let_def ptr_def [symmetric] s_def [symmetric] idx_def [symmetric] m_def [symmetric]
        put1 bind.bind_lunit ms_def [symmetric] c'_def [symmetric] cs lit(1) pl
      by (simp add: cs)
  qed
  show ?thesis
  proof (cases lit)
    case True
    show ?thesis
    proof (cases "bs_position (c_bs c) div 8 + 2 > cap - 1")
      case no: False
      obtain bs where "write_literal (c_bs c) (src ! s) = Some bs" "compressing level cap N p h0 src (c'\<lparr>c_bs := bs\<rparr>)"
        using literal_ok [OF inv _ cs(1-3) _ _ _ cs(4) no] i cs by (auto simp: h1_def ptr_def s_def)
      then show ?thesis unfolding unf using True no cs(7) by (simp add: s_def)
    qed (simp add: unf True f(8))
  next
    case False
    define h3 where "h3 = h1[ptr + 1 := src ! (s + 1), ptr + 2 := src ! (s + 2)]"
    have put: "put_history h1 (ptr + 1) (src ! (s + 1)) = Some (h1[ptr + 1 := src ! (s + 1)])"
        "put_history (h1[ptr + 1 := src ! (s + 1)]) (ptr + 2) (src ! (s + 2)) = Some h3"
      using lh f si window_le [of level] by (simp_all add: put_history_def h3_def)
    obtain i' len h4 ptr4 where e: "extend_match src (c_top c') (s + 3) (m + 2) 3 h3 (ptr + 3) = Some (i', len, h4, ptr4)" "s < i'"
        "\<not> bs_position (c_bs c) div 8 + 7 > cap - 1 \<Longrightarrow> \<exists>b1 b2. write_copy_offset level (c_bs c) ((hsize - 1) AND word_of_int (int (ptr + 1) - int m)) = Some b1 \<and>
           write_match_length level b1 len = Some b2 \<and> compressing level cap N p h0 src (c'\<lparr>c_bs := b2, c_hist := h4, c_ptr := ptr4, c_src := i'\<rparr>)"
      using copy_symbol_ok [OF inv s_def si hs cs(1-4) _ _ _ _ mw, folded ptr_def, OF _ _ _ _ h1_def _ _ _ h3_def refl] lit(2) [OF False] by blast
    then show ?thesis unfolding unf using False put by (cases "bs_position (c_bs c) div 8 + 7 > cap - 1") (auto simp: s_def [symmetric] f(8))
  qed
qed

lemma loop_ok:
  assumes "compressing level cap N p h0 src c" "unat hsize = window level"
  shows "\<exists>r. compress_loop front level hsize cap src c = Some r \<and> (\<forall>bs. r = Inl bs \<longrightarrow> length (bs_buffer bs) = N) \<and> (\<forall>c'. r = Inr c' \<longrightarrow> compressing level cap N p h0 src c')"
  using assms(1)
proof (induction "length src - c_src c" arbitrary: c rule: less_induct)
  case less
  show ?case
  proof (cases "c_src c + 3 < length src")
    case True
    obtain r where r: "compress_symbol front level hsize cap src c = Some r" "\<And>bs. r = Inl bs \<Longrightarrow> length (bs_buffer bs) = N"
        "\<And>c'. r = Inr c' \<Longrightarrow> compressing level cap N p h0 src c' \<and> c_src c < c_src c'"
      using symbol_ok [OF less.prems True assms(2), of front] by blast
    show ?thesis
    proof (cases r)
      case (Inl bs)
      then show ?thesis using r(1,2) True by (subst compress_loop.simps) simp
    next
      case (Inr c')
      have "length src - c_src c' < length src - c_src c" using r(3) [OF Inr] True by (intro diff_less_mono2) simp_all
      from less.hyps [OF this] show ?thesis using r Inr True by (subst compress_loop.simps) simp
    qed
  next
    case False
    then show ?thesis using less.prems by (subst compress_loop.simps) simp
  qed
qed

lemma tail_ok:
  assumes "compressing level cap N p h0 src c"
  shows "\<exists>r. compress_tail cap (drop (c_src c) src) c = Some r \<and> (\<forall>bs. r = Inl bs \<longrightarrow> length (bs_buffer bs) = N) \<and> (\<forall>c'. r = Inr c' \<longrightarrow> compressing level cap N p h0 src c' \<and> c_src c' = length src)"
  using assms
proof (induction "length src - c_src c" arbitrary: c)
  case 0
  then have "c_src c = length src" by (simp add: compressing_def)
  then show ?case using 0(2) by simp
next
  case (Suc n)
  then have i: "c_src c < length src" by simp
  then have d: "drop (c_src c) src = src ! c_src c # drop (c_src c + 1) src" by (simp add: Cons_nth_drop_Suc)
  show ?case
  proof (cases "bs_position (c_bs c) div 8 + 2 > cap - 1")
    case True
    moreover have "length (bs_buffer (c_bs c)) = N" using Suc.prems by (simp add: compressing_def)
    ultimately show ?thesis unfolding d by simp
  next
    case False
    let ?c = "c\<lparr>c_hist := (c_hist c)[c_ptr c := src ! c_src c], c_ptr := c_ptr c + 1, c_src := c_src c + 1\<rparr>"
    have f: "c_top c + 4 \<le> window level" "length (c_match c) = 32768" "\<forall>x \<in> set (c_match c). unat x + 4 \<le> window level"
        "c_ptr c < length (c_hist c)"
      using Suc.prems i window_le [of level] by (auto simp: compressing_def)
    obtain bs where bs: "write_literal (c_bs c) (src ! c_src c) = Some bs" "compressing level cap N p h0 src (?c\<lparr>c_bs := bs\<rparr>)"
      using literal_ok [OF Suc.prems i, of ?c] f False by auto
    have n: "n = length src - c_src (?c\<lparr>c_bs := bs\<rparr>)" using Suc.hyps(2) by simp
    have "?c\<lparr>c_bs := bs\<rparr> = c\<lparr>c_bs := bs, c_hist := (c_hist c)[c_ptr c := src ! c_src c], c_ptr := c_ptr c + 1, c_src := c_src c + 1\<rparr>" by simp
    from Suc.hyps(1) [OF n bs(2), unfolded this] show ?thesis unfolding d using bs(1) f(4) False by (simp add: put_history_def)
  qed
qed

end
