(* ===== verification/Mppc_Exchange.thy ===== *)
theory Mppc_Exchange
  imports Mppc_Encode
begin

text \<open>
  A compressor and a decompressor that keep the same history: every packet comes out as it went in, whether it is
  sent compressed or, when it does not get smaller, as it is.
\<close>

definition synced :: "MPPC_CONTEXT \<Rightarrow> MPPC_CONTEXT \<Rightarrow> bool" where
  "synced c d \<longleftrightarrow> CompressionLevel c \<in> {0, 1} \<and> CompressionLevel d = CompressionLevel c \<and>
     unat (HistoryBufferSize c) = window (CompressionLevel c) \<and> HistoryBufferSize d = HistoryBufferSize c \<and>
     HistoryBuffer d = HistoryBuffer c \<and> length (HistoryBuffer c) = 65536 \<and>
     drop (window (CompressionLevel c)) (HistoryBuffer c) = replicate (65536 - window (CompressionLevel c)) 0 \<and>
     (HistoryOffset c = HistoryBufferSize c + 1 \<longrightarrow> HistoryBuffer c = replicate 65536 0) \<and>
     (HistoryOffset c \<noteq> 0 \<and> HistoryOffset c \<noteq> HistoryBufferSize c + 1 \<longrightarrow>
        HistoryPtr d = unat (HistoryOffset c) \<and> unat (HistoryOffset c) + 4 \<le> window (CompressionLevel c)) \<and>
     HistoryPtr c + 4 \<le> window (CompressionLevel c) \<and> length (MatchBuffer c) = 32768 \<and>
     (\<forall>x \<in> set (MatchBuffer c). unat x + 4 \<le> window (CompressionLevel c))"

definition packet_ok :: "u32 \<Rightarrow> byte list \<Rightarrow> byte list \<Rightarrow> bool" where
  "packet_ok level src dst \<longleftrightarrow> 1 \<le> length src \<and> length src + 4 \<le> window level \<and> 1 \<le> length dst \<and> length dst < 2 ^ 32"

section \<open>Flags\<close>

lemma flag_simps:
  assumes "level \<in> {0, 1 :: u32}"
  shows "(PACKET_COMPRESSED OR level OR (if f then PACKET_AT_FRONT else 0) OR (if g then PACKET_FLUSHED else 0)) AND PACKET_AT_FRONT \<noteq> 0 \<longleftrightarrow> f"
    and "(PACKET_COMPRESSED OR level OR (if f then PACKET_AT_FRONT else 0) OR (if g then PACKET_FLUSHED else 0)) AND PACKET_FLUSHED \<noteq> 0 \<longleftrightarrow> g"
    and "(PACKET_COMPRESSED OR level OR (if f then PACKET_AT_FRONT else 0) OR (if g then PACKET_FLUSHED else 0)) AND PACKET_COMPRESSED \<noteq> 0"
    and "(PACKET_FLUSHED OR level) AND PACKET_AT_FRONT = 0" "(PACKET_FLUSHED OR level) AND PACKET_FLUSHED \<noteq> 0"
    and "(PACKET_FLUSHED OR level) AND PACKET_COMPRESSED = 0"
  using assms by (auto simp: PACKET_COMPRESSED_def PACKET_AT_FRONT_def PACKET_FLUSHED_def)

section \<open>The bits of a packet\<close>

lemma attach_writing:
  assumes "unat cap \<le> length dst" "unat cap \<le> 2 ^ 20"
  shows "writing (BitStream_Attach bs dst cap) []" "bs_capacity (BitStream_Attach bs dst cap) = cap" "bs_buffer (BitStream_Attach bs dst cap) = dst"
  using assms by (simp_all add: writing_def attached_def BitStream_Attach_def)

lemma nth_bit_take: "n < 8 * k \<Longrightarrow> nth_bit (take k xs) n = nth_bit xs n"
  by (auto simp: nth_bit_def)

lemma flushed_packet:
  assumes "writing bs ws" "length ws \<le> 8 * unat (bs_capacity bs)"
  shows "\<exists>bs' pkt. BitStream_Flush bs = Some bs' \<and> pkt = take (unat ((bs_position bs' + 7) div 8)) (bs_buffer bs') \<and>
    length (bs_buffer bs') = length (bs_buffer bs) \<and> length pkt \<le> unat (bs_capacity bs) \<and> length ws \<le> 8 * length pkt \<and> 8 * length pkt < length ws + 8 \<and> (\<forall>i < length ws. nth_bit pkt i = ws ! i)"
proof -
  have a: "attached bs" "length ws \<le> 2 ^ 24" "unat (bs_position bs) = length ws" using assms(1) by (auto simp: writing_def)
  obtain bs' where b: "BitStream_Flush bs = Some bs'" "bs_position bs' = bs_position bs" "length (bs_buffer bs') = length (bs_buffer bs)"
      "bs_capacity bs' = bs_capacity bs"
      "\<And>n. n < 32 * (length ws div 32) + 32 \<Longrightarrow> n < 8 * length (cap_bytes bs) \<Longrightarrow> nth_bit (cap_bytes bs') n = (n < length ws \<and> ws ! n)"
    using flush_writing [OF assms(1)] by blast
  have lc: "length (cap_bytes bs) = unat (bs_capacity bs)" "unat (bs_capacity bs) \<le> length (bs_buffer bs')" using a(1) b(3) by (simp_all add: attached_def cap_bytes_def)
  define k where "k = (length ws + 7) div 8"
  have k: "length ws \<le> 8 * k" "8 * k < length ws + 8" by (simp_all add: k_def)
  then have kc: "k \<le> unat (bs_capacity bs)" using assms(2) by linarith
  have u: "unat ((bs_position bs' + 7) div 8) = k" unfolding b(2) using a(2,3) by (simp add: unat_div unat_word_ariths k_def)
  let ?pkt = "take k (bs_buffer bs')"
  have "nth_bit ?pkt i = ws ! i" if i: "i < length ws" for i
  proof -
    have "nth_bit ?pkt i = nth_bit (cap_bytes bs') i"
      unfolding cap_bytes_def b(4) using i k(1) kc assms(2) by (simp add: nth_bit_take)
    moreover have "i < 32 * (length ws div 32) + 32" using i dividend_less_div_times [of 32 "length ws"] by simp
    ultimately show ?thesis using b(5) [of i] i assms(2) lc(1) by simp
  qed
  moreover have "length ?pkt = k" using kc lc by simp
  ultimately show ?thesis using b(1,3) u k kc by (intro exI [of _ bs'] exI [of _ ?pkt]) simp
qed

section \<open>A packet through both sides\<close>

text \<open>The compressor either gives up or has written bits that decode to the source, from the position it has chosen.\<close>

definition at_front :: "MPPC_CONTEXT \<Rightarrow> byte list \<Rightarrow> bool" where
  "at_front c src \<longleftrightarrow> \<not> (HistoryOffset c + word_of_nat (length src) < HistoryBufferSize c - 3 \<and> HistoryOffset c \<noteq> 0)"

definition start_of :: "MPPC_CONTEXT \<Rightarrow> byte list \<Rightarrow> nat" where
  "start_of c src = (if at_front c src then 0 else unat (HistoryOffset c))"

lemma start_fits:
  assumes "synced c d" "packet_ok (CompressionLevel c) src dst"
  shows "start_of c src + length src + 4 \<le> window (CompressionLevel c)"
    "\<not> at_front c src \<Longrightarrow> HistoryPtr d = start_of c src" "HistoryOffset c = HistoryBufferSize c + 1 \<Longrightarrow> at_front c src"
proof -
  define S where "S = window (CompressionLevel c)"
  have S: "unat (HistoryBufferSize c) = S" "S = 65536 \<or> S = 8192" "length src + 4 \<le> S" using assms by (auto simp: S_def window_def synced_def packet_ok_def)
  have u: "unat (word_of_nat (length src) :: u32) = length src" using S(2,3) by (intro unat_of_nat_eq) auto
  have s3: "unat (HistoryBufferSize c - 3) = S - 3" using S(1,2) by (subst unat_sub) (auto simp: word_le_nat_alt)
  have s1: "unat (HistoryBufferSize c + 1) = S + 1" using S(1,2) by (auto simp: unat_word_ariths)
  show fl: "at_front c src" if "HistoryOffset c = HistoryBufferSize c + 1"
  proof -
    have "unat (HistoryOffset c + word_of_nat (length src)) = S + 1 + length src" using that s1 u S(2,3) by (auto simp: unat_word_ariths)
    moreover have "\<not> S + 1 + length src < S - 3" by simp
    ultimately show ?thesis using s3 unfolding at_front_def word_less_nat_alt by simp
  qed
  have nf: "HistoryPtr d = unat (HistoryOffset c)" "unat (HistoryOffset c) + length src + 4 \<le> S" if n: "\<not> at_front c src"
  proof -
    have h: "HistoryPtr d = unat (HistoryOffset c)" "unat (HistoryOffset c) + 4 \<le> S" using assms(1) n fl by (auto simp: synced_def S_def at_front_def)
    have "unat (HistoryOffset c + word_of_nat (length src)) = unat (HistoryOffset c) + length src" using h(2) u S(2,3) by (auto simp: unat_word_ariths)
    then show "HistoryPtr d = unat (HistoryOffset c)" "unat (HistoryOffset c) + length src + 4 \<le> S"
      using h n s3 by (auto simp: at_front_def word_less_nat_alt)
  qed
  show "start_of c src + length src + 4 \<le> window (CompressionLevel c)" using nf(2) S(3) by (simp add: start_of_def S_def)
  show "HistoryPtr d = start_of c src" if "\<not> at_front c src" using nf(1) that by (simp add: start_of_def)
qed

lemma compress_ok:
  assumes syn: "synced c d" and pk: "packet_ok (CompressionLevel c) src dst"
  shows "(\<exists>bs. length (bs_buffer bs) = length dst \<and> mppc_compress front c src dst =
       Some (src, PACKET_FLUSHED OR CompressionLevel c, mppc_context_reset (c\<lparr>m_bs := bs\<rparr>) True)) \<or>
    (\<exists>pkt bs ms ws. mppc_compress front c src dst =
       Some (pkt, PACKET_COMPRESSED OR CompressionLevel c OR (if at_front c src then PACKET_AT_FRONT else 0) OR
           (if at_front c src \<and> HistoryOffset c = HistoryBufferSize c + 1 then PACKET_FLUSHED else 0),
         c\<lparr>m_bs := bs, HistoryBuffer := overwrite (HistoryBuffer c) (start_of c src) src, MatchBuffer := ms,
           HistoryPtr := start_of c src + length src, HistoryOffset := word_of_nat (start_of c src + length src)\<rparr>) \<and>
       length (bs_buffer bs) = length dst \<and> length ms = 32768 \<and> (\<forall>x \<in> set ms. unat x + 4 \<le> window (CompressionLevel c)) \<and>
       decodes (CompressionLevel c) (window (CompressionLevel c)) ws (start_of c src, HistoryBuffer c)
         (start_of c src + length src, overwrite (HistoryBuffer c) (start_of c src) src) \<and>
       length pkt \<le> length src \<and> length ws \<le> 8 * length pkt \<and> 8 * length pkt < length ws + 8 \<and> (\<forall>i < length ws. nth_bit pkt i = ws ! i))"
proof -
  define level where "level = CompressionLevel c"
  define hsize where "hsize = HistoryBufferSize c"
  define cap :: u32 where "cap = (if word_of_nat (length dst) > (word_of_nat (length src) :: u32) then word_of_nat (length src) else word_of_nat (length dst))"
  define p where "p = start_of c src"
  define c0 where "c0 = \<lparr>c_bs = BitStream_Attach (m_bs c) dst cap, c_hist = HistoryBuffer c, c_match = MatchBuffer c,
     c_top = HistoryPtr c, c_ptr = p, c_src = 0\<rparr>"
  have f: "unat hsize = window level" "length (HistoryBuffer c) = 65536" "HistoryPtr c + 4 \<le> window level" "length (MatchBuffer c) = 32768"
      "\<forall>x \<in> set (MatchBuffer c). unat x + 4 \<le> window level"
    using syn by (auto simp: synced_def level_def hsize_def)
  have l: "1 \<le> length src" "length src + 4 \<le> window level" "1 \<le> length dst" "length dst < 2 ^ 32" using pk by (auto simp: packet_ok_def level_def)
  have u: "unat (word_of_nat (length src) :: u32) = length src" "unat (word_of_nat (length dst) :: u32) = length dst"
    using l(2,4) window_le [of level] by (auto intro!: unat_of_nat_eq)
  have cap: "unat cap = min (length src) (length dst)" using u by (auto simp: cap_def word_less_nat_alt)
  have capb: "1 \<le> unat cap" "unat cap \<le> 2 ^ 20" "unat cap \<le> length dst" "unat cap \<le> length src" using cap l window_le [of level] by auto
  have "compressing level cap (length dst) p (HistoryBuffer c) src c0"
    unfolding compressing_def using attach_writing [OF capb(3,2), of "m_bs c"] capb f start_fits(1) [OF syn pk]
    by (auto simp: c0_def p_def level_def intro!: exI [of _ "[]"] decodes.nil)
  then obtain r where r: "compress_loop front level hsize cap src c0 = Some r" "\<And>bs. r = Inl bs \<Longrightarrow> length (bs_buffer bs) = length dst"
      "\<And>c'. r = Inr c' \<Longrightarrow> compressing level cap (length dst) p (HistoryBuffer c) src c'"
    using loop_ok [OF _ f(1), of cap "length dst" p "HistoryBuffer c" src c0 front] by blast
  define res where "res = (case r of Inl bs \<Rightarrow> Some (Inl bs) | Inr c \<Rightarrow> compress_tail cap (drop (c_src c) src) c)"
  obtain r' where r': "res = Some r'" "\<And>bs. r' = Inl bs \<Longrightarrow> length (bs_buffer bs) = length dst" "\<And>c'. r' = Inr c' \<Longrightarrow> compressing level cap (length dst) p (HistoryBuffer c) src c' \<and> c_src c' = length src"
    using r(2,3) tail_ok by (cases r) (auto simp: res_def, blast)
  have unf: "mppc_compress front c src dst =
     (case r' of
        Inl bs \<Rightarrow> Some (src, PACKET_FLUSHED OR level, mppc_context_reset (c\<lparr>m_bs := bs\<rparr>) True)
      | Inr k \<Rightarrow> do {
          bs \<leftarrow> BitStream_Flush (c_bs k);
          Some (take (unat ((bs_position bs + 7) div 8)) (bs_buffer bs),
            PACKET_COMPRESSED OR level OR (if at_front c src then PACKET_AT_FRONT else 0) OR
              (if at_front c src \<and> HistoryOffset c = hsize + 1 then PACKET_FLUSHED else 0),
            c\<lparr>m_bs := bs, HistoryBuffer := c_hist k, MatchBuffer := c_match k, HistoryPtr := c_ptr k, HistoryOffset := word_of_nat (c_ptr k)\<rparr>) })"
  proof -
    have p0: "unat (if at_front c src then 0 else HistoryOffset c) = p" by (simp add: p_def start_of_def)
    show ?thesis unfolding mppc_compress_def Let_def level_def [symmetric] hsize_def [symmetric] at_front_def [of c src, folded hsize_def, symmetric]
        cap_def [symmetric] p0 c0_def [symmetric] r(1) bind.bind_lunit res_def [symmetric] r'(1) by simp
  qed
  show ?thesis
  proof (cases r')
    case (Inl bs)
    then show ?thesis using unf r'(2) by (auto simp: level_def)
  next
    case (Inr k)
    then obtain ws where k: "writing (c_bs k) ws" "length ws \<le> 8 * unat cap" "decodes level (window level) ws (p, HistoryBuffer c) (c_ptr k, c_hist k)"
        "bs_capacity (c_bs k) = cap" "c_ptr k = p + length src" "c_hist k = overwrite (HistoryBuffer c) p src"
        "length (c_match k) = 32768" "\<forall>x \<in> set (c_match k). unat x + 4 \<le> window level" "length (bs_buffer (c_bs k)) = length dst"
      using r'(3) [OF Inr] by (auto simp: compressing_def)
    obtain bs pkt where fl: "BitStream_Flush (c_bs k) = Some bs" "pkt = take (unat ((bs_position bs + 7) div 8)) (bs_buffer bs)"
        "length pkt \<le> unat cap" "length ws \<le> 8 * length pkt" "8 * length pkt < length ws + 8" "\<forall>i < length ws. nth_bit pkt i = ws ! i"
        "length (bs_buffer bs) = length dst"
      using flushed_packet [OF k(1)] k(2,4,9) by auto
    show ?thesis
      apply (rule disjI2)
      apply (rule exI [of _ pkt], rule exI [of _ bs], rule exI [of _ "c_match k"], rule exI [of _ ws])
      using Inr unf fl k capb(4) by (simp add: level_def [symmetric] hsize_def [symmetric] p_def [symmetric])
  qed
qed

text \<open>Given bits that decode from the same history, the decompressor ends with the same history.\<close>

lemma decompress_ok:
  assumes "decodes (CompressionLevel d) (unat (HistoryBufferSize d)) ws (p, h) (p + n, h')" "length pkt \<le> 2 ^ 20"
    and "length ws \<le> 8 * length pkt" "8 * length pkt < length ws + 8" "\<forall>i < length ws. nth_bit pkt i = ws ! i"
    and "flags AND PACKET_COMPRESSED \<noteq> 0" "flags AND PACKET_AT_FRONT \<noteq> 0 \<longleftrightarrow> f" "flags AND PACKET_FLUSHED \<noteq> 0 \<longleftrightarrow> g" "g \<Longrightarrow> f"
    and "p = (if f then 0 else HistoryPtr d)"
    and "h = (if g then replicate (unat (HistoryBufferSize d)) 0 @ drop (unat (HistoryBufferSize d)) (HistoryBuffer d) else HistoryBuffer d)"
  shows "\<exists>d'. mppc_decompress d pkt flags = Some (1, take n (drop p h'), d') \<and> CompressionLevel d' = CompressionLevel d \<and>
    HistoryBufferSize d' = HistoryBufferSize d \<and> HistoryBuffer d' = h' \<and> HistoryPtr d' = p + n"
proof -
  obtain bs where bs: "BitStream_Fetch (BitStream_Attach (m_bs d) pkt (word_of_nat (length pkt))) = Some bs" "reading bs" "bs_position bs = 0" "cap_bytes bs = pkt"
    using attach_reading [OF assms(2)] by blast
  have "length ws \<le> 2 ^ 23" using assms(2,3) by simp
  then have rd: "reads bs pkt 0 ws" using bs(2-4) assms(5) by (simp add: reads_def)
  obtain bs' where l: "decompress_loop (CompressionLevel d) (unat (HistoryBufferSize d)) bs p h = Some (1, p + n, h', bs')"
    using decodes_loop [OF assms(1) rd] assms(3,4) by auto
  have flags: "(flags AND PACKET_COMPRESSED = 0) = False" "(flags AND PACKET_AT_FRONT = 0) = (\<not> f)" "(flags AND PACKET_FLUSHED = 0) = (\<not> g)"
    using assms(6-8) by blast+
  show ?thesis
    using bs(1) l assms(9-11) unfolding mppc_decompress_def Let_def flags by (cases f; cases g) auto
qed

lemma drop_overwrite: "p + length xs \<le> n \<Longrightarrow> n \<le> length h \<Longrightarrow> drop n (overwrite h p xs) = drop n h"
  by (simp add: overwrite_def)

lemma packet_delivered:
  assumes syn: "synced c d" and pk: "packet_ok (CompressionLevel c) src dst"
  shows "\<exists>pkt flags c' d'. mppc_compress front c src dst = Some (pkt, flags, c') \<and> mppc_decompress d pkt flags = Some (1, src, d') \<and>
    synced c' d' \<and> CompressionLevel c' = CompressionLevel c \<and> length (bs_buffer (m_bs c')) = length dst"
proof -
  define S where "S = window (CompressionLevel c)"
  have f: "CompressionLevel c \<in> {0, 1}" "CompressionLevel d = CompressionLevel c" "unat (HistoryBufferSize c) = S" "HistoryBufferSize d = HistoryBufferSize c"
      "HistoryBuffer d = HistoryBuffer c" "length (HistoryBuffer c) = 65536" "drop S (HistoryBuffer c) = replicate (65536 - S) 0"
      "HistoryOffset c = HistoryBufferSize c + 1 \<Longrightarrow> HistoryBuffer c = replicate 65536 0"
    using syn by (auto simp: synced_def S_def)
  have S: "S \<le> 65536" "8192 \<le> S" "length src + 4 \<le> S" using pk by (auto simp: S_def window_def packet_ok_def)
  note flags = flag_simps [OF f(1)]
  from compress_ok [OF syn pk, of front] show ?thesis
  proof (elim disjE exE conjE)
    fix bs :: wBitStream
    assume lb: "length (bs_buffer bs) = length dst" and c: "mppc_compress front c src dst = Some (src, PACKET_FLUSHED OR CompressionLevel c, mppc_context_reset (c\<lparr>m_bs := bs\<rparr>) True)"
    obtain bs' where bs': "BitStream_Fetch (BitStream_Attach (m_bs d) src (word_of_nat (length src))) = Some bs'" using attach_reading [of src "m_bs d"] S by auto
    let ?d = "d\<lparr>HistoryOffset := 0, HistoryPtr := 0, HistoryBuffer := replicate S 0 @ drop S (HistoryBuffer d), m_bs := bs'\<rparr>"
    have "mppc_decompress d src (PACKET_FLUSHED OR CompressionLevel c) = Some (1, src, ?d)"
      unfolding mppc_decompress_def Let_def bs' using flags(4-6) f(3,4) by simp
    moreover have "replicate S 0 @ drop S (HistoryBuffer d) = (replicate 65536 0 :: byte list)" using f(5,7) S(1) by (simp add: replicate_add [symmetric])
    then have "synced (mppc_context_reset (c\<lparr>m_bs := bs\<rparr>) True) ?d" using f S by (simp add: synced_def mppc_context_reset_def S_def)
    moreover have "CompressionLevel (mppc_context_reset (c\<lparr>m_bs := bs\<rparr>) True) = CompressionLevel c"
        "length (bs_buffer (m_bs (mppc_context_reset (c\<lparr>m_bs := bs\<rparr>) True))) = length dst" using lb by (simp_all add: mppc_context_reset_def)
    ultimately show ?thesis using c by blast
  next
    fix pkt bs ms ws
    define p where "p = start_of c src"
    define g where "g = (at_front c src \<and> HistoryOffset c = HistoryBufferSize c + 1)"
    define h' where "h' = overwrite (HistoryBuffer c) p src"
    define c' where "c' = c\<lparr>m_bs := bs, HistoryBuffer := h', MatchBuffer := ms, HistoryPtr := p + length src, HistoryOffset := word_of_nat (p + length src)\<rparr>"
    let ?flags = "PACKET_COMPRESSED OR CompressionLevel c OR (if at_front c src then PACKET_AT_FRONT else 0) OR (if g then PACKET_FLUSHED else 0)"
    assume "mppc_compress front c src dst = Some (pkt, PACKET_COMPRESSED OR CompressionLevel c OR (if at_front c src then PACKET_AT_FRONT else 0) OR
        (if at_front c src \<and> HistoryOffset c = HistoryBufferSize c + 1 then PACKET_FLUSHED else 0),
        c\<lparr>m_bs := bs, HistoryBuffer := overwrite (HistoryBuffer c) (start_of c src) src, MatchBuffer := ms,
          HistoryPtr := start_of c src + length src, HistoryOffset := word_of_nat (start_of c src + length src)\<rparr>)"
    then have c: "mppc_compress front c src dst = Some (pkt, ?flags, c')" by (simp only: c'_def h'_def p_def g_def)
    assume lb: "length (bs_buffer bs) = length dst"
      and ms: "length ms = 32768" "\<forall>x \<in> set ms. unat x + 4 \<le> window (CompressionLevel c)"
      and "decodes (CompressionLevel c) (window (CompressionLevel c)) ws (start_of c src, HistoryBuffer c)
        (start_of c src + length src, overwrite (HistoryBuffer c) (start_of c src) src)"
      and l: "length pkt \<le> length src" "length ws \<le> 8 * length pkt" "8 * length pkt < length ws + 8" "\<forall>i < length ws. nth_bit pkt i = ws ! i"
    then have dec: "decodes (CompressionLevel d) (unat (HistoryBufferSize d)) ws (p, HistoryBuffer c) (p + length src, h')"
      using f(2-4) by (simp add: p_def h'_def S_def)
    have lp: "length pkt \<le> 2 ^ 20" using l(1) S by simp
    have pS: "p + length src + 4 \<le> S" using start_fits(1) [OF syn pk] by (simp add: p_def S_def)
    have p: "p = (if at_front c src then 0 else HistoryPtr d)" using start_fits(2) [OF syn pk] by (simp add: p_def start_of_def)
    have h: "HistoryBuffer c = (if g then replicate (unat (HistoryBufferSize d)) 0 @ drop (unat (HistoryBufferSize d)) (HistoryBuffer d) else HistoryBuffer d)"
      using f(3-5,8) S(1) by (auto simp: g_def replicate_add [symmetric])
    obtain d' where d': "mppc_decompress d pkt ?flags = Some (1, take (length src) (drop p h'), d')" "CompressionLevel d' = CompressionLevel d"
        "HistoryBufferSize d' = HistoryBufferSize d" "HistoryBuffer d' = h'" "HistoryPtr d' = p + length src"
      using decompress_ok [OF dec lp l(2-4) flags(3,1,2) _ p h] by (auto simp: g_def)
    have r: "take (length src) (drop p h') = src" unfolding h'_def using pS f(6) S(1) by (intro overwrite_read) simp
    have u: "unat (word_of_nat (p + length src) :: u32) = p + length src" using pS S(1) by (intro unat_of_nat_eq) simp
    have s1: "unat (HistoryBufferSize c + 1) = S + 1" using f(3) S(1) by (simp add: unat_word_ariths)
    then have n: "word_of_nat (p + length src) \<noteq> HistoryBufferSize c + 1" using u pS by (metis add.commute add_leD1 not_add_less1 le_imp_less_Suc plus_1_eq_Suc)
    have lh: "length h' = 65536" "drop S h' = replicate (65536 - S) 0" using pS f(6,7) S(1) by (simp_all add: h'_def drop_overwrite)
    have "synced c' d'"
      unfolding synced_def c'_def using f d' lh n u pS ms by (simp add: S_def)
    then show ?thesis using c d'(1) r lb by (auto simp: c'_def)
  qed
qed

section \<open>A connection\<close>

text \<open>
  A sequence of packets through an encoder and a decoder that both keep a state. The locale is what the users of a
  codec with history rely on: as long as the states belong together, a packet is delivered and the states belong together
  again.
\<close>

fun codec_run :: "('p \<Rightarrow> 'c \<Rightarrow> ('k \<times> 'c) option) \<Rightarrow> ('k \<Rightarrow> 'd \<Rightarrow> ('v \<times> 'd) option) \<Rightarrow> 'c \<Rightarrow> 'd \<Rightarrow> 'p list \<Rightarrow> 'v list option" where
  "codec_run enc dec c d [] = Some []"
| "codec_run enc dec c d (p # ps) = do {
     (k, c) \<leftarrow> enc p c;
     (v, d) \<leftarrow> dec k d;
     vs \<leftarrow> codec_run enc dec c d ps;
     Some (v # vs) }"

locale packet_codec =
  fixes sync :: "'c \<Rightarrow> 'd \<Rightarrow> bool" and fits :: "'p \<Rightarrow> bool" and enc :: "'p \<Rightarrow> 'c \<Rightarrow> ('k \<times> 'c) option"
    and dec :: "'k \<Rightarrow> 'd \<Rightarrow> ('v \<times> 'd) option" and payload :: "'p \<Rightarrow> 'v"
  assumes delivered: "sync c d \<Longrightarrow> fits p \<Longrightarrow> \<exists>k c' d'. enc p c = Some (k, c') \<and> dec k d = Some (payload p, d') \<and> sync c' d'"
begin

lemma run_lossless:
  assumes "sync c d" "list_all fits ps"
  shows "codec_run enc dec c d ps = Some (map payload ps)"
  using assms
proof (induction ps arbitrary: c d)
  case (Cons p ps)
  obtain k c' d' where k: "enc p c = Some (k, c')" "dec k d = Some (payload p, d')" "sync c' d'"
    using delivered Cons.prems by fastforce
  then show ?case using Cons.IH [OF k(3)] Cons.prems(2) by simp
qed simp

end

text \<open>The packets of the compressor: the byte in front of its history, the data, and the buffer for the result.\<close>

definition mppc_send :: "byte \<times> byte list \<times> byte list \<Rightarrow> MPPC_CONTEXT \<Rightarrow> ((byte list \<times> u32) \<times> MPPC_CONTEXT) option" where
  "mppc_send p c = (case p of (front, src, dst) \<Rightarrow> do { (pkt, flags, c) \<leftarrow> mppc_compress front c src dst; Some ((pkt, flags), c) })"

definition mppc_receive :: "byte list \<times> u32 \<Rightarrow> MPPC_CONTEXT \<Rightarrow> ((int \<times> byte list) \<times> MPPC_CONTEXT) option" where
  "mppc_receive k d = (case k of (pkt, flags) \<Rightarrow> do { (status, result, d) \<leftarrow> mppc_decompress d pkt flags; Some ((status, result), d) })"

interpretation mppc: packet_codec "\<lambda>c d. synced c d \<and> CompressionLevel c = level" "\<lambda>(front, src, dst). packet_ok level src dst"
  mppc_send mppc_receive "\<lambda>(front, src, dst). (1, src)" for level
proof unfold_locales
  fix c d and p :: "byte \<times> byte list \<times> byte list"
  assume s: "synced c d \<and> CompressionLevel c = level" and "case p of (front, src, dst) \<Rightarrow> packet_ok level src dst"
  moreover obtain front src dst where p: "p = (front, src, dst)" by (cases p)
  ultimately obtain pkt flags c' d' where "mppc_compress front c src dst = Some (pkt, flags, c')" "mppc_decompress d pkt flags = Some (1, src, d')"
      "synced c' d'" "CompressionLevel c' = level"
    using packet_delivered [of c d src dst front] by auto
  then show "\<exists>k c' d'. mppc_send p c = Some (k, c') \<and> mppc_receive k d = Some (case p of (front, src, dst) \<Rightarrow> (1, src), d') \<and>
      (synced c' d' \<and> CompressionLevel c' = level)"
    by (intro exI [of _ "(pkt, flags)"] exI [of _ c'] exI [of _ d']) (simp add: p mppc_send_def mppc_receive_def)
qed

lemma synced_new: "synced (mppc_context_new level compressor) (mppc_context_new level compressor')"
  by (auto simp: synced_def mppc_context_new_def mppc_context_reset_def mppc_set_compression_level_def window_def)

lemma mppc_new_level: "CompressionLevel (mppc_context_new level compressor) = (if level < 1 then 0 else 1)"
  by (simp add: mppc_context_new_def mppc_context_reset_def mppc_set_compression_level_def)



end
