(* ===== verification/Bulk.thy ===== *)
theory Bulk
  imports Mppc_Exchange
begin

text \<open>
  The bulk compression of a connection (\<^verbatim>\<open>libfreerdp/core/bulk.c\<close>), which chooses the codec by the settings when it
  sends and by the flags of the packet when it receives. The contexts of RDP 6 and 6.1 and their codecs
  (\<^verbatim>\<open>ncrush.c\<close>, \<^verbatim>\<open>xcrush.c\<close>) are arguments; a codec gives a status, the bytes, the flags if it compresses, and its new
  context. The counters of \<^verbatim>\<open>metrics.c\<close> and the validation of debug builds are left out.
\<close>

definition PACKET_COMPR_TYPE_8K :: u32 where "PACKET_COMPR_TYPE_8K = 0x00"
definition PACKET_COMPR_TYPE_64K :: u32 where "PACKET_COMPR_TYPE_64K = 0x01"
definition PACKET_COMPR_TYPE_RDP6 :: u32 where "PACKET_COMPR_TYPE_RDP6 = 0x02"
definition PACKET_COMPR_TYPE_RDP61 :: u32 where "PACKET_COMPR_TYPE_RDP61 = 0x03"
definition BULK_COMPRESSION_FLAGS_MASK :: u32 where "BULK_COMPRESSION_FLAGS_MASK = 0xE0"
definition BULK_COMPRESSION_TYPE_MASK :: u32 where "BULK_COMPRESSION_TYPE_MASK = 0x0F"

record 'x rdpBulk =
  settings_level :: u32
  bk_level :: u32
  bk_max_size :: u32
  mppcSend :: MPPC_CONTEXT
  mppcRecv :: MPPC_CONTEXT
  ncrushRecv :: 'x
  ncrushSend :: 'x
  xcrushRecv :: 'x
  xcrushSend :: 'x
  OutputBuffer :: "byte list"

record 'x crush_ops =
  ncrush_compress :: "'x \<Rightarrow> byte list \<Rightarrow> byte list \<Rightarrow> int \<times> byte list \<times> u32 \<times> 'x"
  ncrush_decompress :: "'x \<Rightarrow> byte list \<Rightarrow> u32 \<Rightarrow> int \<times> byte list \<times> 'x"
  xcrush_compress :: "'x \<Rightarrow> byte list \<Rightarrow> byte list \<Rightarrow> int \<times> byte list \<times> u32 \<times> 'x"
  xcrush_decompress :: "'x \<Rightarrow> byte list \<Rightarrow> u32 \<Rightarrow> int \<times> byte list \<times> 'x"
  crush_reset :: "'x \<Rightarrow> 'x"

definition bulk_compression_level :: "'x rdpBulk \<Rightarrow> 'x rdpBulk" where
  "bulk_compression_level bulk = bulk\<lparr>bk_level :=
     (if settings_level bulk \<ge> PACKET_COMPR_TYPE_RDP61 then PACKET_COMPR_TYPE_RDP61 else settings_level bulk)\<rparr>"

definition bulk_compression_max_size :: "'x rdpBulk \<Rightarrow> u32 \<times> 'x rdpBulk" where
  "bulk_compression_max_size bulk =
     (let bulk = bulk_compression_level bulk;
          bulk = bulk\<lparr>bk_max_size := (if bk_level bulk < PACKET_COMPR_TYPE_64K then 8192 else 65536)\<rparr>
      in (bk_max_size bulk, bulk))"

definition bulk_decompress_type :: "'x crush_ops \<Rightarrow> 'x rdpBulk \<Rightarrow> u32 \<Rightarrow> byte list \<Rightarrow> u32 \<Rightarrow> (int \<times> byte list \<times> 'x rdpBulk) option" where
  "bulk_decompress_type ops bulk ty src flags =
     (if ty = PACKET_COMPR_TYPE_8K then do {
        (status, dst, mppc) \<leftarrow> mppc_decompress (mppc_set_compression_level (mppcRecv bulk) 0) src flags;
        Some (status, dst, bulk\<lparr>mppcRecv := mppc\<rparr>) }
      else if ty = PACKET_COMPR_TYPE_64K then do {
        (status, dst, mppc) \<leftarrow> mppc_decompress (mppc_set_compression_level (mppcRecv bulk) 1) src flags;
        Some (status, dst, bulk\<lparr>mppcRecv := mppc\<rparr>) }
      else if ty = PACKET_COMPR_TYPE_RDP6 then
        (case ncrush_decompress ops (ncrushRecv bulk) src flags of (status, dst, x) \<Rightarrow> Some (status, dst, bulk\<lparr>ncrushRecv := x\<rparr>))
      else if ty = PACKET_COMPR_TYPE_RDP61 then
        (case xcrush_decompress ops (xcrushRecv bulk) src flags of (status, dst, x) \<Rightarrow> Some (status, dst, bulk\<lparr>xcrushRecv := x\<rparr>))
      else Some (- 1, [], bulk))"

definition bulk_decompress :: "'x crush_ops \<Rightarrow> 'x rdpBulk \<Rightarrow> byte list \<Rightarrow> u32 \<Rightarrow> (int \<times> byte list \<times> 'x rdpBulk) option" where
  "bulk_decompress ops bulk src flags =
     (let (_, bulk) = bulk_compression_max_size bulk;
          ty = flags AND BULK_COMPRESSION_TYPE_MASK
      in if flags AND BULK_COMPRESSION_FLAGS_MASK \<noteq> 0 then bulk_decompress_type ops bulk ty src flags
         else Some (0, src, bulk))"

text \<open>The flags are changed only by a codec; the caller's flags come back otherwise.\<close>

definition bulk_compress :: "byte \<Rightarrow> 'x crush_ops \<Rightarrow> 'x rdpBulk \<Rightarrow> byte list \<Rightarrow> u32 \<Rightarrow> (int \<times> byte list \<times> u32 \<times> 'x rdpBulk) option" where
  "bulk_compress front ops bulk src flags =
     (if length src \<le> 50 \<or> length src \<ge> 16384 then Some (0, src, flags, bulk)
      else
        let bulk = bulk_compression_level bulk;
            (_, bulk) = bulk_compression_max_size bulk;
            level = bk_level bulk
        in if level = PACKET_COMPR_TYPE_8K \<or> level = PACKET_COMPR_TYPE_64K then do {
             (dst, flags, mppc) \<leftarrow> mppc_compress front (mppc_set_compression_level (mppcSend bulk) level) src (OutputBuffer bulk);
             Some (1, dst, flags, bulk\<lparr>mppcSend := mppc, OutputBuffer := bs_buffer (m_bs mppc)\<rparr>) }
           else if level = PACKET_COMPR_TYPE_RDP6 then
             (case ncrush_compress ops (ncrushSend bulk) src (OutputBuffer bulk) of (status, dst, flags, x) \<Rightarrow>
                Some (status, dst, flags, bulk\<lparr>ncrushSend := x\<rparr>))
           else if level = PACKET_COMPR_TYPE_RDP61 then
             (case xcrush_compress ops (xcrushSend bulk) src (OutputBuffer bulk) of (status, dst, flags, x) \<Rightarrow>
                Some (status, dst, flags, bulk\<lparr>xcrushSend := x\<rparr>))
           else Some (- 1, OutputBuffer bulk, flags, bulk))"

definition bulk_reset :: "'x crush_ops \<Rightarrow> 'x rdpBulk \<Rightarrow> 'x rdpBulk" where
  "bulk_reset ops bulk = bulk\<lparr>mppcSend := mppc_context_reset (mppcSend bulk) False, mppcRecv := mppc_context_reset (mppcRecv bulk) False,
     ncrushRecv := crush_reset ops (ncrushRecv bulk), ncrushSend := crush_reset ops (ncrushSend bulk),
     xcrushRecv := crush_reset ops (xcrushRecv bulk), xcrushSend := crush_reset ops (xcrushSend bulk)\<rparr>"

definition bulk_new :: "'x \<Rightarrow> 'x \<Rightarrow> 'x \<Rightarrow> 'x \<Rightarrow> u32 \<Rightarrow> 'x rdpBulk" where
  "bulk_new nr ns xr xs level = \<lparr>settings_level = level, bk_level = level, bk_max_size = 0, mppcSend = mppc_context_new 1 True,
     mppcRecv = mppc_context_new 1 False, ncrushRecv = nr, ncrushSend = ns, xcrushRecv = xr, xcrushSend = xs,
     OutputBuffer = replicate 65536 0\<rparr>"

section \<open>What one side sends the other side gets\<close>

definition bulk_synced :: "u32 \<Rightarrow> 'x rdpBulk \<Rightarrow> 'x rdpBulk \<Rightarrow> bool" where
  "bulk_synced level s r \<longleftrightarrow> settings_level s = level \<and> length (OutputBuffer s) = 65536 \<and>
     synced (mppc_set_compression_level (mppcSend s) level) (mppc_set_compression_level (mppcRecv r) level)"

text \<open>
  The sizes that the codec can take: less than the history of the level, or so large that the packet is never
  compressed. With the history of 64 kilobytes these are all.
\<close>

definition bulk_fits :: "u32 \<Rightarrow> byte list \<Rightarrow> bool" where
  "bulk_fits level src \<longleftrightarrow> length src + 4 \<le> window level \<or> 16384 \<le> length src"

definition bulk_send :: "'x crush_ops \<Rightarrow> byte \<times> byte list \<Rightarrow> 'x rdpBulk \<Rightarrow> ((int \<times> byte list \<times> u32) \<times> 'x rdpBulk) option" where
  "bulk_send ops p s = (case p of (front, src) \<Rightarrow> do { (status, dst, flags, s) \<leftarrow> bulk_compress front ops s src 0; Some ((status, dst, flags), s) })"

definition bulk_receive :: "'x crush_ops \<Rightarrow> int \<times> byte list \<times> u32 \<Rightarrow> 'x rdpBulk \<Rightarrow> ((bool \<times> byte list) \<times> 'x rdpBulk) option" where
  "bulk_receive ops k r = (case k of (status, pkt, flags) \<Rightarrow> do {
     (status', result, r) \<leftarrow> bulk_decompress ops r pkt flags;
     Some ((status \<ge> 0 \<and> status' \<ge> 0, result), r) })"

lemma type_flags:
  assumes "level \<in> {0, 1 :: u32}"
  shows "(PACKET_COMPRESSED OR level OR (if f then PACKET_AT_FRONT else 0) OR (if g then PACKET_FLUSHED else 0)) AND BULK_COMPRESSION_TYPE_MASK = level"
    and "(PACKET_COMPRESSED OR level OR (if f then PACKET_AT_FRONT else 0) OR (if g then PACKET_FLUSHED else 0)) AND BULK_COMPRESSION_FLAGS_MASK \<noteq> 0"
    and "(PACKET_FLUSHED OR level) AND BULK_COMPRESSION_TYPE_MASK = level" "(PACKET_FLUSHED OR level) AND BULK_COMPRESSION_FLAGS_MASK \<noteq> 0"
  using assms by (auto simp: PACKET_COMPRESSED_def PACKET_AT_FRONT_def PACKET_FLUSHED_def BULK_COMPRESSION_TYPE_MASK_def BULK_COMPRESSION_FLAGS_MASK_def)

lemma compress_flags:
  assumes "synced c d" "packet_ok (CompressionLevel c) src dst" "mppc_compress front c src dst = Some (pkt, flags, c')"
  shows "flags AND BULK_COMPRESSION_TYPE_MASK = CompressionLevel c" "flags AND BULK_COMPRESSION_FLAGS_MASK \<noteq> 0"
proof -
  have "CompressionLevel c \<in> {0, 1}" using assms(1) by (simp add: synced_def)
  note t = type_flags [OF this]
  show "flags AND BULK_COMPRESSION_TYPE_MASK = CompressionLevel c" "flags AND BULK_COMPRESSION_FLAGS_MASK \<noteq> 0"
    using compress_ok [OF assms(1,2), of front] t unfolding assms(3) by auto
qed

lemma set_level_idle:
  assumes "level \<in> {0, 1}" "CompressionLevel c = level" "unat (HistoryBufferSize c) = window level"
  shows "mppc_set_compression_level c level = c"
proof -
  have "HistoryBufferSize c = (if level = 0 then 8192 else 65536)" using assms(1,3) by (auto simp: window_def word_unat_eq_iff)
  then show ?thesis using assms(1,2) by (auto simp: mppc_set_compression_level_def)
qed

lemma set_level_fields:
  assumes "level \<in> {0, 1}"
  shows "CompressionLevel (mppc_set_compression_level c level) = level"
  using assms by (auto simp: mppc_set_compression_level_def)

lemma bulk_delivered:
  assumes l: "level \<in> {0, 1}" and s: "bulk_synced level s r" and f: "bulk_fits level src"
  shows "\<exists>k s' r'. bulk_send ops (front, src) s = Some (k, s') \<and> bulk_receive ops k r = Some ((True, src), r') \<and> bulk_synced level s' r'"
proof (cases "length src \<le> 50 \<or> length src \<ge> 16384")
  case True
  let ?r = "snd (bulk_compression_max_size r)"
  have "mppcRecv ?r = mppcRecv r" by (simp add: bulk_compression_max_size_def bulk_compression_level_def Let_def)
  then show ?thesis using True s
    by (intro exI [of _ "(0, src, 0)"] exI [of _ s] exI [of _ ?r])
      (simp add: bulk_send_def bulk_receive_def bulk_compress_def bulk_decompress_def bulk_synced_def case_prod_unfold)
next
  case False
  let ?c = "mppc_set_compression_level (mppcSend s) level" let ?d = "mppc_set_compression_level (mppcRecv r) level"
  have sy: "synced ?c ?d" "length (OutputBuffer s) = 65536" "settings_level s = level" using s by (simp_all add: bulk_synced_def)
  have lc: "CompressionLevel ?c = level" by (rule set_level_fields [OF l])
  have pk: "packet_ok (CompressionLevel ?c) src (OutputBuffer s)" using False f sy(2) by (simp add: packet_ok_def lc bulk_fits_def)
  obtain pkt flags c' d' where p: "mppc_compress front ?c src (OutputBuffer s) = Some (pkt, flags, c')" "mppc_decompress ?d pkt flags = Some (1, src, d')"
      "synced c' d'" "CompressionLevel c' = level" "length (bs_buffer (m_bs c')) = 65536"
    using packet_delivered [OF sy(1) pk, of front] lc sy(2) by auto
  have fl: "flags AND BULK_COMPRESSION_TYPE_MASK = level" "flags AND BULK_COMPRESSION_FLAGS_MASK \<noteq> 0"
    using compress_flags [OF sy(1) pk p(1)] lc by simp_all
  define s1 where "s1 = snd (bulk_compression_max_size (bulk_compression_level s))"
  have s1: "bk_level s1 = level" "mppcSend s1 = mppcSend s" "OutputBuffer s1 = OutputBuffer s" "settings_level s1 = level"
    using sy(3) l by (auto simp: s1_def bulk_compression_max_size_def bulk_compression_level_def Let_def PACKET_COMPR_TYPE_RDP61_def word_le_nat_alt)
  define s' where "s' = s1\<lparr>mppcSend := c', OutputBuffer := bs_buffer (m_bs c')\<rparr>"
  have send: "bulk_send ops (front, src) s = Some ((1, pkt, flags), s')"
    using False l p(1) s1 unfolding bulk_send_def bulk_compress_def Let_def case_prod_unfold s1_def [symmetric]
    by (auto simp: s'_def PACKET_COMPR_TYPE_8K_def PACKET_COMPR_TYPE_64K_def)
  define r1 where "r1 = snd (bulk_compression_max_size r)"
  have r1: "mppcRecv r1 = mppcRecv r" by (simp add: r1_def bulk_compression_max_size_def bulk_compression_level_def Let_def)
  have recv: "bulk_receive ops (1, pkt, flags) r = Some ((True, src), r1\<lparr>mppcRecv := d'\<rparr>)"
    using l p(2) r1 fl unfolding bulk_receive_def bulk_decompress_def Let_def case_prod_unfold r1_def [symmetric]
    by (elim insertE emptyE) (simp_all add: bulk_decompress_type_def PACKET_COMPR_TYPE_8K_def PACKET_COMPR_TYPE_64K_def)
  have c': "mppc_set_compression_level c' level = c'" "mppc_set_compression_level d' level = d'"
    using p(3,4) l by (auto intro!: set_level_idle simp: synced_def)
  then have "bulk_synced level s' (r1\<lparr>mppcRecv := d'\<rparr>)" using p(3,5) s1 by (simp add: bulk_synced_def s'_def)
  then show ?thesis using send recv by blast
qed

interpretation bulk: packet_codec "\<lambda>s r. level \<in> {0, 1} \<and> bulk_synced level s r" "\<lambda>(front, src). bulk_fits level src"
  "bulk_send ops" "bulk_receive ops" "\<lambda>(front, src). (True, src)" for level and ops :: "'x crush_ops"
proof unfold_locales
  fix s r :: "'x rdpBulk" and p :: "byte \<times> byte list"
  assume "level \<in> {0, 1} \<and> bulk_synced level s r" "case p of (front, src) \<Rightarrow> bulk_fits level src"
  then show "\<exists>k s' r'. bulk_send ops p s = Some (k, s') \<and> bulk_receive ops k r = Some (case p of (front, src) \<Rightarrow> (True, src), r') \<and>
      (level \<in> {0, 1} \<and> bulk_synced level s' r')"
    using bulk_delivered [of level s r "snd p" ops "fst p"] by (cases p) auto
qed

lemma bulk_synced_new: "bulk_synced level (bulk_new nr ns xr xs level) (bulk_new nr' ns' xr' xs' level')"
proof -
  have "mppc_set_compression_level (mppc_context_new 1 b) level = mppc_context_new level b" for b
    by (simp add: mppc_context_new_def mppc_context_reset_def mppc_set_compression_level_def)
  then show ?thesis using synced_new by (simp add: bulk_synced_def bulk_new_def)
qed

text \<open>
  C10: With the compression types of 8 and 64 kilobytes, every sequence of packets that one side compresses for its
  connection is what the other side gets, whatever the packets contain and whether a packet is compressed, does
  not get smaller or is too short or too long to be tried. For the type of 8 kilobytes a packet may not have
  between 8189 and 16383 bytes.
\<close>

theorem bulk_lossless:
  fixes ops :: "'x crush_ops"
  assumes "level \<in> {0, 1}" "list_all (\<lambda>(front, src). bulk_fits level src) ps"
  shows "codec_run (bulk_send ops) (bulk_receive ops) (bulk_new nr ns xr xs level) (bulk_new nr' ns' xr' xs' level') ps =
    Some (map (\<lambda>(front, src). (True, src)) ps)"
  by (rule bulk.run_lossless [where level = level]) (use assms bulk_synced_new in simp_all)

theorem bulk_lossless_witness:
  "codec_run (bulk_send \<lparr>ncrush_compress = \<lambda>x s d. (- 1, d, 0, x), ncrush_decompress = \<lambda>x s f. (- 1, [], x),
       xcrush_compress = \<lambda>x s d. (- 1, d, 0, x), xcrush_decompress = \<lambda>x s f. (- 1, [], x), crush_reset = \<lambda>x. x\<rparr>)
     (bulk_receive \<lparr>ncrush_compress = \<lambda>x s d. (- 1, d, 0, x), ncrush_decompress = \<lambda>x s f. (- 1, [], x),
       xcrush_compress = \<lambda>x s d. (- 1, d, 0, x), xcrush_decompress = \<lambda>x s f. (- 1, [], x), crush_reset = \<lambda>x. x\<rparr>)
     (bulk_new () () () () 0) (bulk_new () () () () 1) [(0, [1, 2, 3]), (0, concat (replicate 100 [1, 2, 3])), (7, replicate 8188 5)] =
   Some [(True, [1, 2, 3]), (True, concat (replicate 100 [1, 2, 3])), (True, replicate 8188 5)]"
proof -
  have "list_all (\<lambda>(front, src). bulk_fits 0 src) [(0 :: byte, [1, 2, 3]), (0, concat (replicate 100 [1, 2, 3])), (7, replicate 8188 5)]"
    by (simp add: bulk_fits_def window_def length_concat sum_list_replicate)
  from bulk_lossless [OF _ this, of _ "()" "()" "()" "()" "()" "()" "()" "()" 1] show ?thesis by simp
qed

end
