(* ===== verification/Mppc_Safe.thy ===== *)
theory Mppc_Safe
  imports Mppc_Decode
begin

text \<open>
  The decompressor on arbitrary packets. With the history of 8 kilobytes, which fills only a part of the array, no packet
  makes it leave its buffers, and it always returns; with the history of 64 kilobytes a copy may read beyond the array.
\<close>

lemma copy_match_Some: "s + n \<le> length h \<Longrightarrow> d + n \<le> length h \<Longrightarrow> \<exists>h'. copy_match s d n h = Some h' \<and> length h' = length h"
proof (induction n arbitrary: s d h)
  case (Suc n)
  then show ?case using Suc.IH [of "s + 1" "h[d := h ! s]" "d + 1"] by simp
qed simp

lemma copy_match_None: "s \<le> length h \<Longrightarrow> length h < s + n \<Longrightarrow> copy_match s d n h = None"
  by (induction n arbitrary: s d h) auto

lemma field_plus:
  fixes y M c :: u32
  assumes "unat M + unat c < 2 ^ 32"
  shows "unat c \<le> unat ((y AND M) + c)"
proof -
  have "unat (y AND M) \<le> unat M" by (metis and.commute unsigned_and_eq and_nat_def le_trans order_refl word_le_nat_alt word_and_le1)
  then show ?thesis using assms by (simp add: unat_word_ariths)
qed

lemma offset_bits: "read_copy_offset level acc = Some (off, n) \<Longrightarrow> 0 < unat n \<and> unat n \<le> 19"
  by (auto simp: read_copy_offset_def split: if_splits)

lemma length_bits: "read_match_length level acc = Some (len, n) \<Longrightarrow> 0 < unat n \<and> unat n \<le> 30"
  by (auto simp: read_match_length_def split: if_splits)

lemma length_positive:
  assumes "read_match_length level acc = Some (len, n)"
  shows "3 \<le> unat len"
proof -
  have f: "3 \<le> unat ((y AND M) + c)" if "3 \<le> unat c" "unat M + unat c < 2 ^ 32" for y M c :: u32
    using le_trans [OF that(1) field_plus [OF that(2)]] .
  show ?thesis using assms unfolding read_match_length_def by (auto split: if_splits intro!: f)
qed

definition recv_ok :: "nat \<Rightarrow> wBitStream \<Rightarrow> nat \<Rightarrow> byte list \<Rightarrow> bool" where
  "recv_ok k bs ptr h \<longleftrightarrow> reading bs \<and> unat (bs_position bs) \<le> k + 49 * ptr \<and> length h = 65536 \<and> ptr \<le> 8192"

lemma recv_shift:
  assumes "reading bs" "0 < unat n" "unat n < 32" "unat (bs_position bs) + unat n \<le> 2 ^ 24"
  shows "\<exists>bs'. BitStream_Shift bs n = Some bs' \<and> reading bs' \<and> unat (bs_position bs') = unat (bs_position bs) + unat n"
proof -
  obtain bs' where b: "BitStream_Shift bs n = Some bs'" "reading bs'" "bs_position bs' = bs_position bs + n"
    using shift_reading [OF assms(1) refl assms(2-4)] by blast
  have "unat (bs_position bs') = unat (bs_position bs) + unat n" unfolding b(3) using assms(4) by (simp add: unat_word_ariths)
  then show ?thesis using b by blast
qed

lemma copy_safe:
  assumes "recv_ok k bs ptr h" "k \<le> 2 ^ 20" "ptr < 8192"
  shows "\<exists>r. decompress_copy 0 8192 bs ptr h = Some r \<and> (\<forall>ptr' h' bs'. r = Inr (ptr', h', bs') \<longrightarrow> ptr < ptr' \<and> recv_ok k bs' ptr' h')"
proof (cases "read_copy_offset 0 (bs_accumulator bs)")
  case None
  then show ?thesis by (simp add: decompress_copy_def)
next
  case (Some p)
  obtain off n where p: "p = (off, n)" by (cases p)
  have r: "reading bs" "unat (bs_position bs) \<le> k + 49 * ptr" "length h = 65536" using assms(1) by (auto simp: recv_ok_def)
  have n: "0 < unat n" "unat n \<le> 19" using offset_bits Some p by auto
  obtain b1 where b1: "BitStream_Shift bs n = Some b1" "reading b1" "unat (bs_position b1) = unat (bs_position bs) + unat n"
    using recv_shift [OF r(1) n(1)] n(2) r(2) assms(2,3) by auto
  show ?thesis
  proof (cases "read_match_length 0 (bs_accumulator b1)")
    case None
    then show ?thesis using Some p b1(1) by (simp add: decompress_copy_def)
  next
    case sm: (Some q)
    obtain len m where q: "q = (len, m)" by (cases q)
    have m: "0 < unat m" "unat m \<le> 30" "3 \<le> unat len" using length_bits length_positive sm q by auto
    obtain b2 where b2: "BitStream_Shift b1 m = Some b2" "reading b2" "unat (bs_position b2) = unat (bs_position b1) + unat m"
      using recv_shift [OF b1(2) m(1)] m(2) n(2) b1(3) r(2) assms(2,3) by auto
    show ?thesis
    proof (cases "ptr + unat len - 1 > 8192 - 1")
      case True
      then show ?thesis using Some p b1(1) sm q b2(1) by (simp add: decompress_copy_def)
    next
      case False
      define src where "src = nat ((int ptr - uint off) mod 0x2000)"
      have "src < 8192" by (simp add: src_def nat_less_iff)
      then have "src + unat len \<le> length h" "ptr + unat len \<le> length h" using False r(3) m(3) by auto
      from copy_match_Some [OF this] obtain h' where h': "copy_match src ptr (unat len) h = Some h'" "length h' = 65536" using r(3) by auto
      then have "decompress_copy 0 8192 bs ptr h = Some (Inr (ptr + unat len, h', b2))"
        using Some p b1(1) sm q b2(1) False by (simp add: decompress_copy_def src_def)
      moreover have "recv_ok k b2 (ptr + unat len) h'" using b2(2,3) b1(3) n(2) m(2,3) r(2) h'(2) False by (simp add: recv_ok_def)
      ultimately show ?thesis using m(3) by simp
    qed
  qed
qed

lemma token_safe:
  assumes "recv_ok k bs ptr h" "k \<le> 2 ^ 20"
  shows "\<exists>r. decompress_token 0 8192 bs ptr h = Some r \<and> (\<forall>ptr' h' bs'. r = Inr (ptr', h', bs') \<longrightarrow> ptr < ptr' \<and> recv_ok k bs' ptr' h')"
proof (cases "ptr < 8192")
  case True
  have r: "reading bs" "unat (bs_position bs) \<le> k + 49 * ptr" "length h = 65536" using assms(1) by (auto simp: recv_ok_def)
  have sh: "\<exists>bs'. BitStream_Shift bs n = Some bs' \<and> (\<forall>b. recv_ok k bs' (ptr + 1) (h[ptr := b]))" if h89: "n = 8 \<or> n = 9" for n
  proof -
    obtain bs' where "BitStream_Shift bs n = Some bs'" "reading bs'" "unat (bs_position bs') = unat (bs_position bs) + unat n"
      using recv_shift [OF r(1), of n] h89 r(2) True assms(2) by auto
    then show ?thesis using h89 r True by (auto simp: recv_ok_def)
  qed
  have "put_history h ptr b = Some (h[ptr := b])" for b using True r(3) by (simp add: put_history_def)
  then show ?thesis using sh [of 8] sh [of 9] copy_safe [OF assms True] True unfolding decompress_token_def Let_def by auto
next
  case False
  then show ?thesis by (simp add: decompress_token_def)
qed

lemma loop_safe:
  assumes "recv_ok k bs ptr h" "k \<le> 2 ^ 20"
  shows "\<exists>e ptr' h' bs'. decompress_loop 0 8192 bs ptr h = Some (e, ptr', h', bs') \<and> ptr \<le> ptr' \<and> ptr' \<le> 8192 \<and> length h' = 65536"
  using assms(1)
proof (induction "8192 - ptr" arbitrary: bs ptr h rule: less_induct)
  case less
  obtain r where r: "decompress_token 0 8192 bs ptr h = Some r" "\<And>ptr' h' bs'. r = Inr (ptr', h', bs') \<Longrightarrow> ptr < ptr' \<and> recv_ok k bs' ptr' h'"
    using token_safe [OF less.prems assms(2)] by blast
  have p: "ptr \<le> 8192" "length h = 65536" using less.prems by (auto simp: recv_ok_def)
  show ?case
  proof (cases r)
    case (Inl e)
    then show ?thesis using r(1) p by (subst decompress_loop.simps) (cases e; simp)
  next
    case (Inr q)
    obtain ptr' h' bs' where q: "q = (ptr', h', bs')" by (cases q)
    have s: "ptr < ptr'" "recv_ok k bs' ptr' h'" using r(2) Inr q by auto
    moreover have "ptr' \<le> 8192" using s(2) by (simp add: recv_ok_def)
    ultimately have "8192 - ptr' < 8192 - ptr" by simp
    from less.hyps [OF this s(2)] obtain e ptr2 h2 bs2 where "decompress_loop 0 8192 bs' ptr' h' = Some (e, ptr2, h2, bs2)" "ptr' \<le> ptr2" "ptr2 \<le> 8192"
        "length h2 = 65536" by blast
    then show ?thesis using r(1) Inr q s(1) p by (subst decompress_loop.simps) simp
  qed
qed

text \<open>A receiver of the 8 kilobyte type.\<close>

definition mppc_8k_ok :: "MPPC_CONTEXT \<Rightarrow> bool" where
  "mppc_8k_ok mppc \<longleftrightarrow> CompressionLevel mppc = 0 \<and> HistoryBufferSize mppc = 8192 \<and> length (HistoryBuffer mppc) = 65536 \<and> HistoryPtr mppc \<le> 8192"

text \<open>
  C38: Whatever a packet of the 8 kilobyte type, of up to a megabyte, contains and whatever its flags are, the
  decompressor returns without leaving the packet or the array of its history, also when the bits end in the middle
  of a copy; its context stays well-formed.
\<close>

theorem mppc_8k_returns:
  assumes "mppc_8k_ok mppc" "length src \<le> 2 ^ 20"
  shows "\<exists>status dst mppc'. mppc_decompress mppc src flags = Some (status, dst, mppc') \<and> mppc_8k_ok mppc'"
proof -
  obtain bs where bs: "BitStream_Fetch (BitStream_Attach (m_bs mppc) src (word_of_nat (length src))) = Some bs" "reading bs" "bs_position bs = 0"
    using attach_reading [OF assms(2)] by blast
  define m1 where "m1 = (if flags AND PACKET_AT_FRONT \<noteq> 0 then mppc\<lparr>HistoryOffset := 0, HistoryPtr := 0\<rparr> else mppc)"
  define m2 where "m2 = (if flags AND PACKET_FLUSHED \<noteq> 0 then
     m1\<lparr>HistoryOffset := 0, HistoryPtr := 0, HistoryBuffer := replicate 8192 0 @ drop 8192 (HistoryBuffer m1)\<rparr> else m1)"
  have m1: "mppc_8k_ok m1" using assms(1) by (simp add: mppc_8k_ok_def m1_def)
  have m2: "mppc_8k_ok m2" using m1 by (simp add: mppc_8k_ok_def m2_def)
  then have "recv_ok 0 bs (HistoryPtr m2) (HistoryBuffer m2)" using bs(2,3) by (simp add: recv_ok_def mppc_8k_ok_def)
  from loop_safe [OF this] obtain e ptr h bs' where l: "decompress_loop 0 8192 bs (HistoryPtr m2) (HistoryBuffer m2) = Some (e, ptr, h, bs')"
      "ptr \<le> 8192" "length h = 65536" by auto
  have u: "unat (HistoryBufferSize m1) = 8192" "CompressionLevel m2 = 0" using m1 m2 by (simp_all add: mppc_8k_ok_def)
  have "mppc_decompress mppc src flags =
     (if flags AND PACKET_COMPRESSED = 0 then Some (1, src, m2\<lparr>m_bs := bs\<rparr>)
      else if e < 0 then Some (e, [], m2\<lparr>m_bs := bs', HistoryBuffer := h\<rparr>)
      else Some (1, take (ptr - HistoryPtr m2) (drop (HistoryPtr m2) h), m2\<lparr>m_bs := bs', HistoryBuffer := h, HistoryPtr := ptr\<rparr>))"
    unfolding mppc_decompress_def Let_def m1_def [symmetric] u m2_def [symmetric] using bs(1) l(1) u(2) by simp
  then show ?thesis using m2 l(2,3) by (auto simp: mppc_8k_ok_def)
qed

theorem mppc_8k_returns_witness:
  "mppc_8k_ok (mppc_context_new 0 False) \<and>
   (\<exists>status dst mppc'. mppc_decompress (mppc_context_new 0 False) [0xFF, 0xFF, 0xFF] 0x20 = Some (status, dst, mppc') \<and> mppc_8k_ok mppc')"
proof -
  have "mppc_8k_ok (mppc_context_new 0 False)"
    by (simp add: mppc_8k_ok_def mppc_context_new_def mppc_context_reset_def mppc_set_compression_level_def)
  then show ?thesis using mppc_8k_returns [of "mppc_context_new 0 False" "[0xFF, 0xFF, 0xFF]"] by simp
qed

text \<open>
  With the history of 64 kilobytes the same does not hold: two bytes from the peer, a copy of length three from one byte
  before the start of the history, make the decompressor read beyond the end of the array.
\<close>

lemma mppc_64k_overreads:
  "mppc_decompress (mppc_context_new 1 False) [0xF8, 0x20] (PACKET_COMPRESSED OR 1) = None"
proof -
  define h where "h = (replicate 65536 0 :: byte list)"
  define b0 where "b0 = \<lparr>bs_buffer = [0xF8, 0x20], bs_pointer = 0, bs_position = 0, bs_length = 16, bs_capacity = 2, bs_mask = 0, bs_offset = 0,
        bs_prefetch = 0, bs_accumulator = 0xF8200000\<rparr>"
  have f: "BitStream_Fetch (BitStream_Attach BitStream_New [0xF8, 0x20] 2) = Some b0" unfolding b0_def
    by (simp add: BitStream_Fetch_def BitStream_Prefetch_def BitStream_Attach_def BitStream_New_def bs_word_def bs_byte_def)
  obtain b1 where b1: "BitStream_Shift b0 11 = Some b1" "bs_accumulator b1 = 0" "bs_offset b1 = 11"
    by (simp add: b0_def BitStream_Shift_def Let_def low_mask_def)
  obtain b2 where b2: "BitStream_Shift b1 1 = Some b2" using b1(3) by (simp add: BitStream_Shift_def Let_def)
  have c: "copy_match 65535 0 3 h = None" by (rule copy_match_None) (simp_all add: h_def)
  have "decompress_copy 1 65536 b0 0 h = None"
    using b1 b2 c by (simp add: decompress_copy_def read_copy_offset_def read_match_length_def b0_def [THEN arg_cong [of _ _ bs_accumulator]])
  then have "decompress_token 1 65536 b0 0 h = None" by (simp add: decompress_token_def b0_def)
  then have "decompress_loop 1 65536 b0 0 h = None" by (subst decompress_loop.simps) (simp add: BitStream_GetRemainingLength_def b0_def)
  then show ?thesis unfolding mppc_decompress_def Let_def mppc_context_new_def mppc_context_reset_def mppc_set_compression_level_def
    using f by (simp add: PACKET_COMPRESSED_def PACKET_AT_FRONT_def PACKET_FLUSHED_def h_def)
qed

end
