(* ===== verification/Spec2Isabelle.thy ===== *)
theory Spec2Isabelle
  imports Mcs_Connect Packet_Dispatch Base64 Ring_Buffer Array_List Hash_Table_Foreach List_Dictionary Nego_Exchange
    Update_Wire Fastpath_Exchange Input_Exchange Region_Set Bulk Mppc_Safe
begin

text \<open>
  A verification library for the protocol core and the runtime containers of FreeRDP.

  \<^bold>\<open>The program.\<close> FreeRDP implements the Remote Desktop Protocol in C. A connection starts with the
  negotiation of a security protocol (\<^verbatim>\<open>libfreerdp/core/nego.c\<close>), in X.224 messages framed by a TPKT header
  (\<^verbatim>\<open>tpkt.c\<close>, \<^verbatim>\<open>tpdu.c\<close>). Then the multipoint communication service of T.125 (\<^verbatim>\<open>mcs.c\<close>) sets up its channels: its
  connect PDUs are encoded in BER (\<^verbatim>\<open>libfreerdp/crypto/ber.c\<close>), its domain PDUs in PER (\<^verbatim>\<open>per.c\<close>). On the slow path,
  every later packet is an MCS send-data PDU with a security header and share headers (\<^verbatim>\<open>rdp.c\<close>), handed to
  the updates (\<^verbatim>\<open>update.c\<close>), the input (\<^verbatim>\<open>input.c\<close>, \<^verbatim>\<open>peer.c\<close>) or the message channel (\<^verbatim>\<open>autodetect.c\<close>,
  \<^verbatim>\<open>heartbeat.c\<close>, \<^verbatim>\<open>multitransport.c\<close>). The fast path (\<^verbatim>\<open>fastpath.c\<close>) carries updates, surface commands
  (\<^verbatim>\<open>surface.c\<close>) and input in shorter packets. Every layer reads and writes a WinPR stream
  (\<^verbatim>\<open>winpr/libwinpr/utils/stream.c\<close> and the inline functions of \<^verbatim>\<open>winpr/include/winpr/stream.h\<close>), whose
  accessors do no bounds checks of their own: the parsers above must check the remaining length
  first. Bytes wait in ring buffers (\<^verbatim>\<open>libfreerdp/utils/ringbuffer.c\<close>), objects in the collections
  of WinPR (\<^verbatim>\<open>winpr/libwinpr/utils/collections\<close>). The data of a connection may be compressed
  (\<^verbatim>\<open>libfreerdp/core/bulk.c\<close>, \<^verbatim>\<open>libfreerdp/codec/mppc.c\<close>, on the bit streams of WinPR), and a server collects what has to be painted in regions
  (\<^verbatim>\<open>libfreerdp/codec/region.c\<close>).

  \<^bold>\<open>Foundations.\<close>
  \<^item> \<open>Prelude\<close>: words, \<^verbatim>\<open>size_t\<close> arithmetic modulo \<open>2 ^ 64\<close>, memory blocks, allocators, circular
    windows of an array, splitting and joining of bytes, and the predicate \<open>run_ok\<close> on results.
  \<^item> \<open>Stream\<close>: the record of the stream and one definition per accessor. \<open>rest\<close> is what a reader has in
    front of it, \<open>put\<close> what a writer has done; \<open>safe_reader\<close> says that a parser never leaves the buffer,
    and composes along binds, conditionals and cases. The locale \<open>wire_codec\<close> is the contract of a
    writer and a reader of one format and gives round trips of single values and of sequences.
  \<^item> \<open>Wire\<close>: the little-endian integers of the wire as byte lists, and the collection \<open>wire_simps\<close> that
    evaluates readers and writers on them.

  \<^bold>\<open>Encodings and the connection.\<close>
  \<^item> \<open>Per\<close>, \<open>Ber\<close>: all encoders and decoders, their safety, and interpretations of \<open>wire_codec\<close> for
    lengths, integers and bounded 16-bit integers. \<open>Base64\<close>: encoder and decoder against RFC 4648.
  \<^item> \<open>Tpkt\<close>: the headers of \<^verbatim>\<open>tpkt.c\<close> and \<^verbatim>\<open>tpdu.c\<close>, what an accepted header guarantees, and a codec.
  \<^item> \<open>Nego\<close>: the state machine of the client, requests and responses, with \<^verbatim>\<open>rdp_server_accept_nego\<close> of
    \<^verbatim>\<open>connection.c\<close>. \<open>Nego_Client\<close>: the client ends, and only with a protocol that was enabled; its step relation
    \<open>nego_step\<close> is the specification the code refines. \<open>Nego_Server\<close>, \<open>Nego_Exchange\<close>: both sides agree.
  \<^item> \<open>Mcs\<close>: the state of \<^verbatim>\<open>rdpMcs\<close>, its channel table, the negotiation of domain parameters and all PDUs of
    \<^verbatim>\<open>mcs.c\<close>; safety of the receivers and round trips of the domain PDUs. \<open>Mcs_Connect\<close>: the grammar of the two
    connect PDUs, and that what one side sends the other side accepts with the same parameters.

  \<^bold>\<open>The slow path.\<close>
  \<^item> \<open>Rdp\<close>: packet, security and share headers, and the functions that prepare and send a PDU; what is sent is
    read back. \<open>Rdp_Recv\<close>, \<open>Packet_Dispatch\<close>: \<^verbatim>\<open>rdp_recv_tpkt_pdu\<close> with its dispatchers and the PDUs that
    \<^verbatim>\<open>rdp.c\<close> handles itself; packets of these (\<open>own_pdus\<close>) are handled inside their buffers and without looping, the others
    if the handlers of the other modules are safe.
  \<^item> \<open>Autodetect\<close>, \<open>Message_Channel\<close>, \<open>Autodetect_Exchange\<close>: measuring of round trip time and bandwidth, and
    what each side knows after an exchange.

  \<^bold>\<open>Updates, fast path and input.\<close>
  \<^item> \<open>Update\<close>, \<open>Update_Wire\<close>: bitmap, palette, pointer and sound updates; their readers are safe, pointer shapes
    that reach the application have masks of the right size, bitmap updates survive the wire.
  \<^item> \<open>Surface\<close>: the surface commands, their loop and their delivery.
  \<^item> \<open>Fastpath\<close>: the records and functions of the fast path. \<open>Fastpath_Recv\<close>: the invariant of the reassembly
    under arbitrary packets without drawing orders, and of the others relative to the order parser. \<open>Fastpath_Send\<close>: sizes and announced lengths of packets in every security mode.
    \<open>Fastpath_Exchange\<close>: fragments of an update are put together to exactly the bytes the server was given.
  \<^item> \<open>Input\<close>, \<open>Peer\<close>, \<open>Input_Exchange\<close>: what the user does reaches the callbacks of the server as the same calls
    over both paths.

  \<^bold>\<open>Containers.\<close>
  \<^item> \<open>Ring_Buffer\<close>: \<^verbatim>\<open>ringbuffer.c\<close> with its invariant and its contents as a list of bytes; the locale
    \<open>byte_fifo\<close> is what its clients rely on.
  \<^item> \<open>Object_Queue\<close>, \<open>Array_List\<close>: \<^verbatim>\<open>Queue.c\<close>, \<^verbatim>\<open>ArrayList.c\<close> and \<^verbatim>\<open>Stack.c\<close> as refinements of lists, with the
    contracts \<open>fifo_queue\<close>, \<open>list_store\<close> and \<open>lifo_stack\<close>.
  \<^item> \<open>Keyed_Store\<close>: the contracts \<open>keyed_store\<close> and \<open>map_store\<close>. \<open>Hash_Table\<close> implements the second, with rehashing;
    \<open>Hash_Table_Foreach\<close> is iteration with removal from the callback. \<open>List_Dictionary\<close> implements the first.
  \<^item> \<open>Region\<close>: the operations of \<^verbatim>\<open>region.c\<close>. \<open>Region_Points\<close>, \<open>Region_Set\<close>: rectangles in bands as sets of points,
    with the contract \<open>point_set\<close>.

  \<^bold>\<open>Compression.\<close>
  \<^item> \<open>Bit_Stream\<close>: \<^verbatim>\<open>bitstream.h\<close> with its accumulator and prefetch; a reader has the bits at its position in the
    accumulator (\<open>reading\<close>), a writer has stored the bits it was given (\<open>writing\<close>).
  \<^item> \<open>Mppc\<close>: compressor and decompressor of \<^verbatim>\<open>mppc.c\<close>. \<open>Mppc_Codes\<close>: the codes of offsets and lengths are prefix codes
    that the decompressor inverts. \<open>Mppc_Decode\<close>: the abstract meaning of a bit sequence (\<open>decodes\<close>), which the
    decompressor implements. \<open>Mppc_Encode\<close>: the compressor writes bits with the meaning of its input. \<open>Mppc_Exchange\<close>:
    what goes in comes out, over any number of packets, as an instance of the contract \<open>packet_codec\<close>. \<open>Mppc_Safe\<close>: the
    8 kilobyte decompressor on arbitrary bytes.
  \<^item> \<open>Bulk\<close>: \<^verbatim>\<open>bulk.c\<close>, which chooses the codec, as another instance of \<open>packet_codec\<close>.

  \<^bold>\<open>How C is read.\<close> A definition is named after the C function it models and follows its
  statements; a structure is a record with the fields of the source, without those that only serve
  locking. The value \<open>None\<close> of a definition is a memory fault or a loop that never ends, \<open>Some\<close> is a
  normal return with the result and the new state. An out parameter of a \<^verbatim>\<open>BOOL\<close> function is an inner
  option. Null checks of pointers that the model cannot make null are dropped, as are log messages.
  \<^verbatim>\<open>size_t\<close> values are natural numbers, with \<open>add64\<close>, \<open>sub64\<close> and \<open>mul64\<close> where the C expression can wrap;
  other integers are words of their width.

  \<^bold>\<open>Arguments of the model.\<close>
  \<^item> The allocator, with the hypotheses that a block has the requested size (\<open>malloc_ok\<close>) and, for the containers,
    that no block of \<open>2 ^ 63\<close> bytes exists (\<open>malloc_bounded\<close>, \<open>slots_bounded\<close>), which is what the C library documents.
  \<^item> The transport (\<open>transport_ops\<close> of the negotiation, \<open>fp_write\<close> of the fast path, functions from streams to
    results elsewhere), on an arbitrary state of the network.
  \<^item> The functions of \<^verbatim>\<open>security.c\<close>, which rest on OpenSSL (\<open>security_ops\<close>), the bulk compression in the
    paths of packets, and the clock and random numbers of auto-detection (\<open>env\<close>).
  \<^item> For the bulk compression itself, the codecs of RDP 6 and 6.1 (\<open>crush_ops\<close>), and the byte in memory before
    the history of the compressor (\<open>front\<close>), which \<^verbatim>\<open>mppc_compress\<close> compares.
  \<^item> The modules a packet is handed on to (\<open>handlers\<close>, \<open>fp_env\<close>, \<open>peer_ops\<close>), the drawing orders, and the callbacks
    of the application.
  \<^item> The readers and writers of the GCC payload of \<^verbatim>\<open>gcc.c\<close>; the connect round trips hold for every payload of at
    most 60000 bytes that the peer's reader accepts.
  \<^item> The contents of fresh memory (\<open>junk\<close>), and the conversion of strings to UTF-16 (\<open>conv\<close>).

  \<^bold>\<open>Loops.\<close> Loops over an index are structural recursion. A loop that need not end is a partial function into
  options, and that it returns is proved: the doubling loop of \<^verbatim>\<open>Stream_EnsureCapacity\<close> below \<open>2 ^ 63\<close> bytes, the
  packing loop of \<^verbatim>\<open>per_write_numeric_string\<close> below length 65535, the loops of \<^verbatim>\<open>Queue_Clear\<close>,
  \<^verbatim>\<open>HashTable_Clear\<close> (\<open>clear_chain\<close>) and of the next prime under the invariants of their tables, the loop over share PDUs
  (\<open>share_pdu_loop\<close>) as each consumes its length, \<open>nego_loop\<close> as the protocols get weaker, the search for a line end
  (\<open>crlf_loop\<close>), the loops over updates, fragments and surface commands (\<open>updates_loop\<close>, \<open>fragment_loop\<close>,
  \<open>update_recv_surfcmds\<close>) as bytes are consumed, the loop over the bands of a region (\<open>union_loop\<close>), and the loops of
  the codec: \<open>decompress_loop\<close> as each token fills the history, \<open>extend_match\<close> and \<open>compress_loop\<close> as input is consumed.

  \<^bold>\<open>Not modelled.\<close> Concurrency (the critical sections of synchronized containers, message queues between
  threads), freeing of memory other than the logged calls of the containers, events other than their flag; the rest
  of the connection sequence (GCC data blocks, capability sets, licensing, activation), drawing orders and windows,
  caches and GDI, most codecs, the gateway, virtual channels, clients and servers, and the emulation
  of the Windows API. These are input and output on the operating system, bindings to external libraries, long
  tables of fields, or pixel arithmetic with processor-specific variants.

  \<^bold>\<open>Defects shown.\<close> Some results describe a defect of the code by stating what it does: a server that refuses a
  client accepts it with plain TLS (\<open>nego_refusal_accepted\<close>), and slow-path input is read beyond its buffer
  (\<open>input_recv_overreads\<close>). Lemmas of the components show others: faults of the client's negotiation
  (\<open>nego_client_faults\<close>), iteration over a hash table that is cleared or stopped (\<open>HashTable_foreach_defects\<close>),
  truncated and overflowing bandwidth results (\<open>autodetect_results_defects\<close>), the decompressor that reads beyond its
  history (\<open>mppc_64k_overreads\<close>), the unchecked user id of a channel join, the ring buffer that loses data when it is
  filled to the last byte, the queue of capacity one.
\<close>

end
